(* ===== verification/Prelude.thy ===== *)
theory Prelude
  imports Complex_Main "HOL-Library.Multiset"
begin

text \<open>
  Shared vocabulary of the development.  Python's exceptions are values of \<open>py_exc\<close> and a
  function that may raise returns a value of \<open>'a result\<close>, \<open>Inl\<close> being the raised
  exception.  The texts of failed assertions are not modelled; the texts of the other
  exceptions are, because the tool runner shows them to the agent.  The locale
  \<open>invariant_machine\<close> is the interface between a component with a step function and the
  lifting of its one-step invariant to whole runs.
\<close>

datatype py_exc =
    AssertionError
  | IndexError
  | ZeroDivisionError
  | KeyError string
  | TypeError string
  | ValueError string
  | RuntimeError string
  | AttributeError string
  | NotImplementedError string
  | FileNotFoundError string
  | FileExistsError string
  | OSError string
  | NotADirectoryError string
  | IsADirectoryError string
  | JSONDecodeError string

type_synonym 'a result = "py_exc + 'a"

definition rbind :: "'a result \<Rightarrow> ('a \<Rightarrow> 'b result) \<Rightarrow> 'b result" where
  "rbind r f = (case r of Inl e \<Rightarrow> Inl e | Inr x \<Rightarrow> f x)"

definition guard_assert :: "bool \<Rightarrow> 'a result \<Rightarrow> 'a result" where
  "guard_assert b r = (if b then r else Inl AssertionError)"

fun rmap :: "('a \<Rightarrow> 'b result) \<Rightarrow> 'a list \<Rightarrow> 'b list result" where
  "rmap f [] = Inr []"
| "rmap f (x # xs) = rbind (f x) (\<lambda>y. rbind (rmap f xs) (\<lambda>ys. Inr (y # ys)))"

fun rfold :: "('s \<Rightarrow> 'a \<Rightarrow> 's result) \<Rightarrow> 's \<Rightarrow> 'a list \<Rightarrow> 's result" where
  "rfold f s [] = Inr s"
| "rfold f s (x # xs) = rbind (f s x) (\<lambda>s'. rfold f s' xs)"

text \<open>Indexing a list with a non-negative Python index.\<close>

definition list_get :: "'a list \<Rightarrow> nat \<Rightarrow> 'a result" where
  "list_get xs i = (if i < length xs then Inr (xs ! i) else Inl IndexError)"

named_theorems result_simps \<open>unfolding rules of the result type\<close>
named_theorems inv_intros \<open>one-step invariant preservation lemmas\<close>

lemma rbind_simps [simp, result_simps]:
  "rbind (Inl e) f = Inl e"
  "rbind (Inr x) f = f x"
  by (simp_all add: rbind_def)

lemma rbind_Inr_iff: "rbind r f = Inr y \<longleftrightarrow> (\<exists>x. r = Inr x \<and> f x = Inr y)"
  by (cases r) auto

lemma map_sum_eq_Inr_iff: "map_sum f g r = Inr y \<longleftrightarrow> (\<exists>x. r = Inr x \<and> y = g x)"
  by (cases r) auto

lemma guard_assert_simps [simp, result_simps]:
  "guard_assert True r = r"
  "guard_assert False r = Inl AssertionError"
  by (simp_all add: guard_assert_def)

lemma guard_assert_Inr_iff: "guard_assert b r = Inr y \<longleftrightarrow> b \<and> r = Inr y"
  by (simp add: guard_assert_def)

lemma rmap_Inr_length: "rmap f xs = Inr ys \<Longrightarrow> length ys = length xs"
  by (induction xs arbitrary: ys) (auto simp: rbind_Inr_iff)

lemma rmap_total:
  assumes "\<And>x. x \<in> set xs \<Longrightarrow> f x = Inr (g x)"
  shows "rmap f xs = Inr (map g xs)"
  using assms by (induction xs) auto

lemma rfold_inv:
  "rfold f s xs = Inr s' \<Longrightarrow> I s \<Longrightarrow> (\<And>s x s'. I s \<Longrightarrow> f s x = Inr s' \<Longrightarrow> I s') \<Longrightarrow> I s'"
  by (induction xs arbitrary: s) (auto simp: rbind_Inr_iff)

lemma rmap_Inr_set: "rmap f xs = Inr ys \<Longrightarrow> y \<in> set ys \<Longrightarrow> \<exists>x \<in> set xs. f x = Inr y"
  by (induction xs arbitrary: ys) (auto simp: rbind_Inr_iff)

lemma list_get_simps [simp]:
  "i < length xs \<Longrightarrow> list_get xs i = Inr (xs ! i)"
  "\<not> i < length xs \<Longrightarrow> list_get xs i = Inl IndexError"
  by (simp_all add: list_get_def)

lemma rmap_list_get: "set is \<subseteq> {..<length xs} \<Longrightarrow> rmap (list_get xs) is = Inr (map ((!) xs) is)"
  by (rule rmap_total) auto

subsection \<open>Generic list facts\<close>

lemma swap_mset [simp]:
  assumes "i < length xs" "j < length xs"
  shows "mset (xs[i := xs ! j, j := xs ! i]) = mset xs"
  using mset_swap [OF assms(2) assms(1)] by simp

lemma map_nth_upt [simp]: "map ((!) xs) [0..<length xs] = xs"
  by (rule map_nth)

lemma filter_length_le_count:
  "length (filter P (map f [0..<n])) = card {i. i < n \<and> P (f i)}"
proof -
  have "length (filter P (map f [0..<n])) = length (filter (\<lambda>i. P (f i)) [0..<n])"
    by (simp add: filter_map o_def)
  also have "\<dots> = card (set (filter (\<lambda>i. P (f i)) [0..<n]))"
    by (rule distinct_card [symmetric]) simp
  also have "set (filter (\<lambda>i. P (f i)) [0..<n]) = {i. i < n \<and> P (f i)}"
    by auto
  finally show ?thesis .
qed

lemma filter_length_mset_cong:
  "mset xs = mset ys \<Longrightarrow> length (filter P xs) = length (filter P ys)"
  by (metis mset_filter size_mset)

lemma sum_list_concat_mset:
  "mset (concat xss) = (\<Sum>xs\<leftarrow>xss. mset xs)"
  by (induction xss) auto

lemma concat_map_nested: "concat (map (\<lambda>xs. concat (map f xs)) xss) = concat (map f (concat xss))"
  by (induction xss) auto

subsection \<open>Python slices with integer bounds\<close>

definition slice_index :: "nat \<Rightarrow> int \<Rightarrow> nat" where
  "slice_index n i = (if i < 0 then nat (max 0 (int n + i)) else min (nat i) n)"

definition py_slice :: "'a list \<Rightarrow> int \<Rightarrow> int \<Rightarrow> 'a list" where
  "py_slice xs a b = (let lo = slice_index (length xs) a; hi = slice_index (length xs) b
     in take (hi - lo) (drop lo xs))"

definition slice_assign :: "'a list \<Rightarrow> int \<Rightarrow> int \<Rightarrow> 'a list \<Rightarrow> 'a list" where
  "slice_assign xs a b ys = (let lo = slice_index (length xs) a; hi = slice_index (length xs) b
     in take lo xs @ ys @ drop (max lo hi) xs)"

subsection \<open>Machines with an invariant\<close>

text \<open>
  A component whose operations are events of one step function promises that a step keeps the
  invariant; the interface gives back that every run keeps it.
\<close>

lemma foldl_inv: "(\<And>s e. I s \<Longrightarrow> I (f s e)) \<Longrightarrow> I s \<Longrightarrow> I (foldl f s es)"
  by (induction es arbitrary: s) auto

locale invariant_machine =
  fixes step :: "'s \<Rightarrow> 'e \<Rightarrow> 's" and inv :: "'s \<Rightarrow> bool"
  assumes step_inv: "inv s \<Longrightarrow> inv (step s e)"
begin

lemma run_inv: "inv s \<Longrightarrow> inv (foldl step s es)"
  by (rule foldl_inv) (rule step_inv)

lemma prefix_inv: "inv s \<Longrightarrow> inv (foldl step s (take n es))"
  by (rule run_inv)

end

end
