(* ===== verification/Heapq.thy ===== *)
theory Heapq
  imports Prelude
begin

text \<open>
  Python's \<open>heapq\<close> (standard library), as the partitioner uses it: a binary heap in a list,
  ordered by the elements' own \<open>__lt__\<close>, here the parameter \<open>lt\<close>.  \<open>siftdown\<close> and
  \<open>siftup\<close> are the two loops of the module.  The locale \<open>priority_queue\<close> is the interface
  the partitioner relies on; the model of \<open>heapq\<close> provides it.
\<close>

definition swap_at :: "'a list \<Rightarrow> nat \<Rightarrow> nat \<Rightarrow> 'a list" where
  "swap_at h i j = h[i := h ! j, j := h ! i]"

fun siftdown :: "('a \<Rightarrow> 'a \<Rightarrow> bool) \<Rightarrow> 'a list \<Rightarrow> nat \<Rightarrow> nat \<Rightarrow> 'a list" where
  "siftdown lt h start pos =
     (if start < pos then
        (let parent = (pos - 1) div 2 in
         if lt (h ! pos) (h ! parent) then siftdown lt (swap_at h pos parent) start parent else h)
      else h)"

declare siftdown.simps [simp del]

text \<open>The leaf-ward walk of \<open>siftup\<close>: the smaller child moves up until a leaf is reached.\<close>

function siftup_walk :: "('a \<Rightarrow> 'a \<Rightarrow> bool) \<Rightarrow> 'a list \<Rightarrow> nat \<Rightarrow> 'a list \<times> nat" where
  "siftup_walk lt h pos =
     (if 2 * pos + 1 < length h then
        (let left = 2 * pos + 1; right = left + 1;
             child = (if right < length h \<and> \<not> lt (h ! left) (h ! right) then right else left)
         in siftup_walk lt (swap_at h pos child) child)
      else (h, pos))"
  by pat_completeness auto
termination
  by (relation "measure (\<lambda>(lt, h, pos). length h - pos)") (auto simp: swap_at_def Let_def)

declare siftup_walk.simps [simp del]

definition siftup :: "('a \<Rightarrow> 'a \<Rightarrow> bool) \<Rightarrow> 'a list \<Rightarrow> nat \<Rightarrow> 'a list" where
  "siftup lt h pos = (let (h', p) = siftup_walk lt h pos in siftdown lt h' pos p)"

definition heappush :: "('a \<Rightarrow> 'a \<Rightarrow> bool) \<Rightarrow> 'a list \<Rightarrow> 'a \<Rightarrow> 'a list" where
  "heappush lt h x = siftdown lt (h @ [x]) 0 (length h)"

definition heappop :: "('a \<Rightarrow> 'a \<Rightarrow> bool) \<Rightarrow> 'a list \<Rightarrow> ('a \<times> 'a list) result" where
  "heappop lt h =
     (if h = [] then Inl IndexError
      else let lastelt = last h; rest = butlast h in
        if rest = [] then Inr (lastelt, [])
        else Inr (hd rest, siftup lt (rest[0 := lastelt]) 0))"

subsection \<open>Contents\<close>

lemma swap_at_length [simp]: "length (swap_at h i j) = length h"
  by (simp add: swap_at_def)

lemma swap_at_mset [simp]:
  "i < length h \<Longrightarrow> j < length h \<Longrightarrow> mset (swap_at h i j) = mset h"
  by (simp add: swap_at_def)

lemma siftdown_mset: "pos < length h \<Longrightarrow> mset (siftdown lt h start pos) = mset h"
proof (induction lt h start pos rule: siftdown.induct)
  case (1 lt h start pos)
  then show ?case by (subst siftdown.simps) (auto simp: Let_def)
qed

lemma siftup_walk_mset:
  "pos < length h \<Longrightarrow>
   mset (fst (siftup_walk lt h pos)) = mset h \<and> snd (siftup_walk lt h pos) < length h"
proof (induction lt h pos rule: siftup_walk.induct)
  case (1 lt h pos)
  then show ?case by (subst (1 2) siftup_walk.simps) (auto simp: Let_def)
qed

lemma siftup_mset: "pos < length h \<Longrightarrow> mset (siftup lt h pos) = mset h"
  using siftup_walk_mset [of pos h lt] size_mset [of "fst (siftup_walk lt h pos)"]
  by (auto simp: siftup_def siftdown_mset split: prod.splits dest: mset_eq_length)

lemma heappush_mset: "mset (heappush lt h x) = add_mset x (mset h)"
  by (simp add: heappush_def siftdown_mset)

lemma heappop_mset:
  assumes "heappop lt h = Inr (x, h')"
  shows "mset h = add_mset x (mset h')"
proof (cases "butlast h = []")
  case True
  with assms show ?thesis
    by (cases h rule: rev_cases) (auto simp: heappop_def split: if_splits)
next
  case False
  define rest where "rest = butlast h"
  from False obtain y ys where r: "rest = y # ys" by (cases rest) (auto simp: rest_def)
  from assms have h: "h \<noteq> []" by (auto simp: heappop_def)
  from assms False h have "x = y" "h' = siftup lt (rest[0 := last h]) 0"
    by (auto simp: heappop_def Let_def rest_def [symmetric] r)
  moreover have "mset h = mset (rest @ [last h])" using h by (simp add: rest_def)
  ultimately show ?thesis by (simp add: siftup_mset r)
qed

lemma heappop_nonempty: "h \<noteq> [] \<Longrightarrow> \<exists>x h'. heappop lt h = Inr (x, h')"
  by (auto simp: heappop_def Let_def)

lemma heappop_length: "heappop lt h = Inr (x, h') \<Longrightarrow> length h = Suc (length h')"
  by (drule heappop_mset) (metis size_add_mset size_mset)

lemma heappush_length [simp]: "length (heappush lt h x) = Suc (length h)"
  by (metis heappush_mset size_add_mset size_mset)

subsection \<open>The interface of a priority queue\<close>

locale priority_queue =
  fixes push :: "'q \<Rightarrow> 'a \<Rightarrow> 'q"
    and pop :: "'q \<Rightarrow> ('a \<times> 'q) result"
    and elems :: "'q \<Rightarrow> 'a multiset"
  assumes elems_push: "elems (push q x) = add_mset x (elems q)"
    and elems_pop: "pop q = Inr (x, q') \<Longrightarrow> elems q = add_mset x (elems q')"
    and pop_total: "elems q \<noteq> {#} \<Longrightarrow> \<exists>x q'. pop q = Inr (x, q')"
begin

lemma elems_fold_push: "elems (foldl push q xs) = elems q + mset xs"
  by (induction xs arbitrary: q) (auto simp: elems_push)

lemma pop_mem: "pop q = Inr (x, q') \<Longrightarrow> x \<in># elems q"
  by (simp add: elems_pop)

lemma pop_two:
  assumes "size (elems q) > 1"
  obtains x q1 y q2 where "pop q = Inr (x, q1)" "pop q1 = Inr (y, q2)"
    "elems q = {#x, y#} + elems q2"
proof -
  from assms have "elems q \<noteq> {#}" by auto
  then obtain x q1 where p: "pop q = Inr (x, q1)" using pop_total by blast
  from elems_pop [OF p] assms have "elems q1 \<noteq> {#}" by auto
  then obtain y q2 where p2: "pop q1 = Inr (y, q2)" using pop_total by blast
  from that [OF p p2] elems_pop [OF p] elems_pop [OF p2] show ?thesis by simp
qed

end

interpretation hq: priority_queue "heappush lt" "heappop lt" mset for lt
  by unfold_locales (auto simp: heappush_mset heappop_mset intro: heappop_nonempty)

end
