(* ===== verification/SeqBalance.thy ===== *)
theory SeqBalance
  imports Heapq "HOL-Library.List_Lexorder" "HOL-Library.Product_Lexorder"
begin

text \<open>
  Model of \<open>verl/verl/utils/seqlen_balancing.py\<close>, first part: the Karmarkar-Karp partitioner,
  the greedy partitioner and the checked entry point \<open>get_seqlen_balanced_partitions\<close>.
  A \<open>kkset\<close> is the local class \<open>Set\<close>, ordered by its \<open>__lt__\<close>; a \<open>kkstate\<close> is the local class
  \<open>State\<close>.  Assertions and index errors are the left values of \<open>result\<close>.
\<close>

subsection \<open>Class \<open>Set\<close>\<close>

datatype kkset = KKSet (ksum: int) (kitems: "(nat \<times> int) list")

definition kset_new :: kkset where
  "kset_new = KKSet 0 []"

definition kset_add :: "kkset \<Rightarrow> nat \<Rightarrow> int \<Rightarrow> kkset" where
  "kset_add s idx val = KKSet (ksum s + val) (kitems s @ [(idx, val)])"

definition kset_merge :: "kkset \<Rightarrow> kkset \<Rightarrow> kkset" where
  "kset_merge s other = foldl (\<lambda>acc (idx, val). kset_add acc idx val) s (kitems other)"

instantiation kkset :: linorder
begin

definition less_kkset :: "kkset \<Rightarrow> kkset \<Rightarrow> bool" where
  "less_kkset a b =
     (if ksum a \<noteq> ksum b then ksum a < ksum b
      else if length (kitems a) \<noteq> length (kitems b) then length (kitems a) < length (kitems b)
      else kitems a < kitems b)"

definition less_eq_kkset :: "kkset \<Rightarrow> kkset \<Rightarrow> bool" where
  "less_eq_kkset a b = (a < b \<or> a = b)"

instance
proof
  fix a b c :: kkset
  show "(a < b) = (a \<le> b \<and> \<not> b \<le> a)"
    by (auto simp: less_kkset_def less_eq_kkset_def split: if_splits)
  show "a \<le> a" by (simp add: less_eq_kkset_def)
  show "a \<le> b \<Longrightarrow> b \<le> c \<Longrightarrow> a \<le> c"
    by (auto simp: less_kkset_def less_eq_kkset_def split: if_splits)
  show "a \<le> b \<Longrightarrow> b \<le> a \<Longrightarrow> a = b"
    by (auto simp: less_kkset_def less_eq_kkset_def split: if_splits)
  show "a \<le> b \<or> b \<le> a"
    by (cases a; cases b) (auto simp: less_kkset_def less_eq_kkset_def split: if_splits)
qed

end

text \<open>\<open>sorted(xs, reverse=True)\<close>: the list is reversed, sorted stably and reversed.\<close>

definition sorted_reverse :: "'a::linorder list \<Rightarrow> 'a list" where
  "sorted_reverse xs = rev (sort (rev xs))"

subsection \<open>Class \<open>State\<close>\<close>

record kkstate =
  kk_k :: nat
  kk_sets :: "kkset list"

fun kk_fill :: "kkset list \<Rightarrow> nat \<Rightarrow> (nat \<times> int) list \<Rightarrow> kkset list" where
  "kk_fill sets i [] = sets"
| "kk_fill sets i ((idx, seqlen) # items) =
     kk_fill (sets[i := kset_add (sets ! i) idx seqlen]) (Suc i) items"

definition kk_init :: "(nat \<times> int) list \<Rightarrow> nat \<Rightarrow> kkstate result" where
  "kk_init items k =
     guard_assert (length items = 1 \<or> length items = k)
       (if k < length items then Inl IndexError
        else Inr \<lparr>kk_k = k, kk_sets = sorted_reverse (kk_fill (replicate k kset_new) 0 items)\<rparr>)"

definition kk_get_partitions :: "kkstate \<Rightarrow> nat list list" where
  "kk_get_partitions st = map (\<lambda>s. map fst (kitems s)) (kk_sets st)"

definition kk_merge :: "kkstate \<Rightarrow> kkstate \<Rightarrow> kkstate" where
  "kk_merge st other = st\<lparr>kk_sets := sorted_reverse
     (map (\<lambda>i. kset_merge (kk_sets st ! i) (kk_sets other ! (kk_k st - 1 - i))) [0..<kk_k st])\<rparr>"

definition kk_spread :: "kkstate \<Rightarrow> int" where
  "kk_spread st = ksum (hd (kk_sets st)) - ksum (last (kk_sets st))"

definition kk_lt :: "kkstate \<Rightarrow> kkstate \<Rightarrow> bool" where
  "kk_lt st other =
     (if kk_spread st \<noteq> kk_spread other then kk_spread other < kk_spread st
      else hd (kk_sets other) < hd (kk_sets st))"

subsection \<open>\<open>karmarkar_karp\<close>\<close>

text \<open>\<open>while len(states_pq) > 1\<close>: pop two states, merge the second into the first, push it back.\<close>

function kk_loop :: "kkstate list \<Rightarrow> kkstate list result" where
  "kk_loop h =
     (if length h \<le> 1 then Inr h
      else case heappop kk_lt h of
        Inl e \<Rightarrow> Inl e
      | Inr (state0, h1) \<Rightarrow>
          (case heappop kk_lt h1 of
             Inl e \<Rightarrow> Inl e
           | Inr (state1, h2) \<Rightarrow> kk_loop (heappush kk_lt h2 (kk_merge state0 state1))))"
  by pat_completeness auto
termination
  by (relation "measure length") (auto dest!: heappop_length)

declare kk_loop.simps [simp del]

definition sorted_seqlens :: "int list \<Rightarrow> (int \<times> nat) list" where
  "sorted_seqlens seqlen_list = sort (zip seqlen_list [0..<length seqlen_list])"

fun push_states :: "kkstate list \<Rightarrow> (nat \<times> int) list list \<Rightarrow> nat \<Rightarrow> kkstate list result" where
  "push_states h [] k = Inr h"
| "push_states h (items # rest) k =
     rbind (kk_init items k) (\<lambda>st. push_states (heappush kk_lt h st) rest k)"

definition kk_start_items :: "int list \<Rightarrow> nat \<Rightarrow> bool \<Rightarrow> (nat \<times> int) list list" where
  "kk_start_items seqlen_list k equal_size =
     (let xs = map (\<lambda>(seqlen, idx). (idx, seqlen)) (sorted_seqlens seqlen_list) in
      if equal_size
      then map (\<lambda>c. map (\<lambda>i. xs ! (c * k + i)) [0..<k]) [0..<length xs div k]
      else map (\<lambda>x. [x]) xs)"

definition karmarkar_karp :: "int list \<Rightarrow> nat \<Rightarrow> bool \<Rightarrow> nat list list result" where
  "karmarkar_karp seqlen_list k equal_size =
     (if equal_size \<and> k = 0 then Inl ZeroDivisionError
      else guard_assert (equal_size \<longrightarrow> length seqlen_list mod k = 0)
        (rbind (push_states [] (kk_start_items seqlen_list k equal_size) k) (\<lambda>h.
         rbind (kk_loop h) (\<lambda>final.
         case final of
           [] \<Rightarrow> Inl IndexError
         | final_state # _ \<Rightarrow>
             (let partitions = kk_get_partitions final_state in
              guard_assert (equal_size \<longrightarrow>
                  list_all (\<lambda>p. length p * k = length seqlen_list) partitions)
                (Inr partitions))))))"

subsection \<open>\<open>greedy_partition\<close>\<close>

text \<open>The inner scan for the first partition of least sum; \<open>None\<close> is Python's \<open>min_idx = None\<close>.\<close>

fun greedy_scan :: "int list \<Rightarrow> nat \<Rightarrow> nat option \<Rightarrow> nat list \<Rightarrow> nat option" where
  "greedy_scan psums k min_idx [] = min_idx"
| "greedy_scan psums k min_idx (j # js) =
     greedy_scan psums k
       (case min_idx of None \<Rightarrow> Some j | Some m \<Rightarrow> if psums ! j < psums ! m then Some j else Some m) js"

fun greedy_assign ::
  "nat \<Rightarrow> (int \<times> nat) list \<Rightarrow> nat list list \<Rightarrow> int list \<Rightarrow> (nat list list \<times> int list) result" where
  "greedy_assign k [] partitions psums = Inr (partitions, psums)"
| "greedy_assign k ((seqlen, i) # items) partitions psums =
     (case greedy_scan psums k None [0..<k] of
        None \<Rightarrow> Inl (TypeError ''list indices must be integers or slices, not NoneType'')
      | Some m \<Rightarrow> greedy_assign k items
          (partitions[m := partitions ! m @ [i]]) (psums[m := psums ! m + seqlen]))"

definition greedy_partition :: "int list \<Rightarrow> nat \<Rightarrow> bool \<Rightarrow> nat list list result" where
  "greedy_partition seqlen_list k equal_size =
     (let bias = (if equal_size then sum_list seqlen_list + 1 else 0);
          items = map (\<lambda>(i, seqlen). (seqlen + bias, i)) (enumerate 0 seqlen_list)
      in rbind (greedy_assign k items (replicate k []) (replicate k 0)) (\<lambda>(partitions, psums).
         guard_assert (equal_size \<longrightarrow>
             list_all (\<lambda>p. length p * k = length seqlen_list) partitions)
           (Inr partitions)))"

subsection \<open>\<open>get_seqlen_balanced_partitions\<close>\<close>

definition check_and_sort_partitions :: "nat \<Rightarrow> nat \<Rightarrow> nat list list \<Rightarrow> nat list list result" where
  "check_and_sort_partitions n k partitions =
     guard_assert (length partitions = k)
       (guard_assert (list_all (\<lambda>p. 0 < length p) partitions)
         (guard_assert (set (concat partitions) = set [0..<n])
           (Inr (map sort partitions))))"

definition get_seqlen_balanced_partitions :: "int list \<Rightarrow> nat \<Rightarrow> bool \<Rightarrow> nat list list result" where
  "get_seqlen_balanced_partitions seqlen_list k equal_size =
     guard_assert (k \<le> length seqlen_list)
       (rbind (karmarkar_karp seqlen_list k equal_size)
         (check_and_sort_partitions (length seqlen_list) k))"

subsection \<open>The loop of the differencing method\<close>

text \<open>
  What every merge of two states keeps is kept by the whole loop: the heap is used through the
  interface \<open>priority_queue\<close> only.
\<close>

lemma kk_loop_invariant:
  assumes merge: "\<And>a b M. I (M + {#a, b#}) \<Longrightarrow> I (add_mset (kk_merge a b) M)"
    and init: "I (mset h)" and ne: "h \<noteq> []"
  shows "\<exists>st. kk_loop h = Inr [st] \<and> I {#st#}"
  using init ne
proof (induction h rule: kk_loop.induct)
  case (1 h)
  show ?case
  proof (cases "length h \<le> 1")
    case True
    with 1 obtain st where "h = [st]" by (cases h) auto
    with 1 show ?thesis by (subst kk_loop.simps) simp
  next
    case False
    then have sz: "size (mset h) > 1" by simp
    obtain a h1 b h2 where p: "heappop kk_lt h = Inr (a, h1)" "heappop kk_lt h1 = Inr (b, h2)"
      and m: "mset h = {#a, b#} + mset h2"
      by (rule hq.pop_two [OF sz])
    let ?h' = "heappush kk_lt h2 (kk_merge a b)"
    have "I (mset ?h')"
      using merge [of "mset h2" a b] 1(2) by (simp add: hq.elems_push m add.commute)
    moreover have "?h' \<noteq> []" by (metis heappush_length length_0_conv nat.distinct(1))
    ultimately have "\<exists>st. kk_loop ?h' = Inr [st] \<and> I {#st#}"
      by (rule 1(1) [OF False p(1) refl p(2) refl])
    then show ?thesis
      using False by (subst kk_loop.simps) (simp add: p)
  qed
qed

lemma push_states_total:
  assumes "\<And>items. items \<in> set chunks \<Longrightarrow> kk_init items k = Inr (f items)"
  shows "push_states h chunks k = Inr (foldl (heappush kk_lt) h (map f chunks))"
  using assms by (induction chunks arbitrary: h) auto

subsection \<open>Sets and states\<close>

lemma sorted_reverse_mset [simp]: "mset (sorted_reverse xs) = mset xs"
  by (simp add: sorted_reverse_def)

lemma sorted_reverse_length [simp]: "length (sorted_reverse xs) = length xs"
  by (simp add: sorted_reverse_def)

lemma sorted_reverse_set [simp]: "set (sorted_reverse xs) = set xs"
  by (simp add: sorted_reverse_def)

lemma sorted_reverse_desc: "i \<le> j \<Longrightarrow> j < length xs \<Longrightarrow> sorted_reverse xs ! j \<le> sorted_reverse xs ! i"
  by (simp add: sorted_reverse_def rev_nth sorted_nth_mono)

lemma kkset_le_sum: "a \<le> b \<Longrightarrow> ksum a \<le> ksum b" for a b :: kkset
  by (auto simp: less_eq_kkset_def less_kkset_def split: if_splits)

definition kset_wf :: "kkset \<Rightarrow> bool" where
  "kset_wf s \<longleftrightarrow> ksum s = sum_list (map snd (kitems s))"

lemma kset_merge_items [simp]: "kitems (kset_merge s t) = kitems s @ kitems t"
proof -
  have "kitems (foldl (\<lambda>acc (idx, val). kset_add acc idx val) s xs) = kitems s @ xs" for xs
    by (induction xs arbitrary: s) (auto simp: kset_add_def)
  then show ?thesis by (simp add: kset_merge_def)
qed

lemma kset_merge_sum: "ksum (kset_merge s t) = ksum s + sum_list (map snd (kitems t))"
proof -
  have "ksum (foldl (\<lambda>acc (idx, val). kset_add acc idx val) s xs) =
      ksum s + sum_list (map snd xs)" for xs
    by (induction xs arbitrary: s) (auto simp: kset_add_def)
  then show ?thesis by (simp add: kset_merge_def)
qed

lemma kset_merge_wf: "kset_wf s \<Longrightarrow> kset_wf t \<Longrightarrow> kset_wf (kset_merge s t)"
  by (simp add: kset_wf_def kset_merge_sum)

text \<open>The shape of a state: \<open>k\<close> consistent sets in decreasing order.\<close>

definition kk_wf :: "nat \<Rightarrow> kkstate \<Rightarrow> bool" where
  "kk_wf k st \<longleftrightarrow> kk_k st = k \<and> length (kk_sets st) = k \<and> (\<forall>s \<in> set (kk_sets st). kset_wf s) \<and>
     (\<forall>j<k. \<forall>i\<le>j. kk_sets st ! j \<le> kk_sets st ! i)"

definition kk_items :: "kkstate \<Rightarrow> (nat \<times> int) multiset" where
  "kk_items st = (\<Sum>s\<leftarrow>kk_sets st. mset (kitems s))"

lemma kk_wf_sum_desc:
  "kk_wf k st \<Longrightarrow> i \<le> j \<Longrightarrow> j < k \<Longrightarrow> ksum (kk_sets st ! j) \<le> ksum (kk_sets st ! i)"
  by (simp add: kk_wf_def kkset_le_sum)

abbreviation kk_merged_sets :: "kkstate \<Rightarrow> kkstate \<Rightarrow> kkset list" where
  "kk_merged_sets a b \<equiv>
     map (\<lambda>i. kset_merge (kk_sets a ! i) (kk_sets b ! (kk_k a - 1 - i))) [0..<kk_k a]"

lemma kk_merge_wf:
  assumes "kk_wf k a" "kk_wf k b"
  shows "kk_wf k (kk_merge a b)"
proof -
  have "kset_wf s" if s: "s \<in> set (kk_merged_sets a b)" for s
  proof -
    from s assms obtain i where "i < k"
      "s = kset_merge (kk_sets a ! i) (kk_sets b ! (k - 1 - i))" by (auto simp: kk_wf_def)
    with assms show ?thesis by (auto simp: kk_wf_def intro!: kset_merge_wf)
  qed
  then show ?thesis
    using assms by (auto simp: kk_wf_def kk_merge_def sorted_reverse_desc)
qed

lemma sum_list_rev_index:
  fixes xs :: "'a::comm_monoid_add list"
  shows "(\<Sum>i\<leftarrow>[0..<length xs]. xs ! (length xs - 1 - i)) = sum_list xs"
proof -
  have "map (\<lambda>i. xs ! (length xs - 1 - i)) [0..<length xs] = rev xs"
    by (rule nth_equalityI) (auto simp: rev_nth)
  then show ?thesis by (metis sum_list_rev)
qed

lemma sum_list_mset_cong: "mset xs = mset ys \<Longrightarrow> sum_list (map f xs) = sum_list (map f ys)"
  for f :: "'a \<Rightarrow> 'b::comm_monoid_add"
  by (metis mset_map sum_mset_sum_list)

lemma kk_merge_items:
  assumes "kk_wf k a" "kk_wf k b"
  shows "kk_items (kk_merge a b) = kk_items a + kk_items b"
proof -
  let ?f = "\<lambda>s. mset (kitems s)"
  have "kk_items (kk_merge a b) = (\<Sum>s\<leftarrow>kk_merged_sets a b. ?f s)"
    by (simp add: kk_items_def kk_merge_def sum_list_mset_cong [OF sorted_reverse_mset])
  also have "\<dots> = (\<Sum>i\<leftarrow>[0..<k]. map ?f (kk_sets a) ! i + map ?f (kk_sets b) ! (k - 1 - i))"
    using assms by (intro arg_cong [where f = sum_list]) (auto simp: kk_wf_def)
  also have "\<dots> = (\<Sum>i\<leftarrow>[0..<k]. map ?f (kk_sets a) ! i) +
      (\<Sum>i\<leftarrow>[0..<k]. map ?f (kk_sets b) ! (k - 1 - i))"
    by (rule sum_list_addf)
  also have "(\<Sum>i\<leftarrow>[0..<k]. map ?f (kk_sets a) ! i) = sum_list (map ?f (kk_sets a))"
    using assms(1) map_nth [of "map ?f (kk_sets a)"] by (simp add: kk_wf_def)
  also have "(\<Sum>i\<leftarrow>[0..<k]. map ?f (kk_sets b) ! (k - 1 - i)) = sum_list (map ?f (kk_sets b))"
    using assms(2) sum_list_rev_index [of "map ?f (kk_sets b)"] by (simp add: kk_wf_def)
  finally show ?thesis by (simp add: kk_items_def)
qed

abbreviation kset_single :: "nat \<times> int \<Rightarrow> kkset" where
  "kset_single p \<equiv> KKSet (snd p) [p]"

lemma kk_fill_new:
  "length items \<le> m \<Longrightarrow> kk_fill (pre @ replicate m kset_new) (length pre) items =
     pre @ map kset_single items @ replicate (m - length items) kset_new"
proof (induction items arbitrary: pre m)
  case (Cons p items)
  obtain idx v where [simp]: "p = (idx, v)" by force
  from Cons.prems obtain m' where m: "m = Suc m'" by (cases m) auto
  from Cons.IH [of m' "pre @ [kset_single p]"] Cons.prems m
  show ?case by (simp add: kset_add_def kset_new_def nth_append)
qed simp

lemma kk_init_Inr:
  assumes "length items = 1 \<or> length items = k" "length items \<le> k"
  shows "kk_init items k = Inr \<lparr>kk_k = k, kk_sets =
     sorted_reverse (map kset_single items @ replicate (k - length items) kset_new)\<rparr>"
  using assms kk_fill_new [of items k "[]"] by (auto simp: kk_init_def)

lemma kk_init_wf:
  assumes "kk_init items k = Inr st"
  shows "kk_wf k st" "kk_items st = mset items"
proof -
  from assms have l: "length items = 1 \<or> length items = k" "length items \<le> k"
    by (auto simp: kk_init_def guard_assert_def split: if_splits)
  let ?l = "map kset_single items @ replicate (k - length items) kset_new"
  from assms kk_init_Inr [OF l] have st: "st = \<lparr>kk_k = k, kk_sets = sorted_reverse ?l\<rparr>" by simp
  have "sum_list (replicate n {#}) = ({#} :: (nat \<times> int) multiset)" for n by (induction n) auto
  moreover have "(\<Sum>p\<leftarrow>items. mset (kitems (kset_single p))) = mset items"
    by (induction items) auto
  ultimately have "(\<Sum>s\<leftarrow>?l. mset (kitems s)) = mset items"
    by (simp add: kset_new_def o_def map_replicate)
  moreover have "kset_wf s" if "s \<in> set ?l" for s
    using that by (auto simp: kset_wf_def kset_new_def)
  ultimately show "kk_wf k st" "kk_items st = mset items"
    using l(2) by (auto simp: kk_wf_def kk_items_def st sorted_reverse_desc
        sum_list_mset_cong [OF sorted_reverse_mset])
qed

subsection \<open>Non-empty sets\<close>

definition kk_nonempty :: "kkstate \<Rightarrow> nat" where
  "kk_nonempty st = length (filter (\<lambda>s. kitems s \<noteq> []) (kk_sets st))"

definition kk_nonneg :: "kkstate \<Rightarrow> bool" where
  "kk_nonneg st \<longleftrightarrow> (\<forall>p \<in># kk_items st. 0 \<le> snd p)"

lemma kk_items_concat: "kk_items st = mset (concat (map kitems (kk_sets st)))"
  by (simp add: kk_items_def sum_list_concat_mset o_def)

lemma kk_items_mem: "p \<in># kk_items st \<longleftrightarrow> (\<exists>s \<in> set (kk_sets st). p \<in> set (kitems s))"
  by (auto simp: kk_items_concat)

lemma kset_empty_least:
  assumes "kset_wf s" "\<forall>p \<in> set (kitems s). 0 \<le> snd p" "kset_wf t" "kitems t = []" "s \<le> t"
  shows "kitems s = []"
proof -
  have "0 \<le> ksum s" using assms(1,2) by (auto simp: kset_wf_def intro!: sum_list_nonneg)
  with assms(3-5) show ?thesis
    by (auto simp: less_eq_kkset_def less_kkset_def kset_wf_def split: if_splits)
qed

lemma kk_nonempty_prefix:
  assumes wf: "kk_wf k st" and nn: "kk_nonneg st" and i: "i < k"
  shows "kitems (kk_sets st ! i) \<noteq> [] \<longleftrightarrow> i < kk_nonempty st"
proof -
  let ?P = "\<lambda>i. kitems (kk_sets st ! i) \<noteq> []"
  let ?S = "{i. i < k \<and> ?P i}"
  have len: "length (kk_sets st) = k" using wf by (simp add: kk_wf_def)
  have down: "?P i" if "?P j" "i \<le> j" "j < k" for i j
  proof
    assume e: "kitems (kk_sets st ! i) = []"
    have "kitems (kk_sets st ! j) = []"
    proof (rule kset_empty_least [of _ "kk_sets st ! i"])
      show "\<forall>p \<in> set (kitems (kk_sets st ! j)). 0 \<le> snd p"
        using nn that len by (auto simp: kk_nonneg_def kk_items_mem)
    qed (use wf that e in \<open>auto simp: kk_wf_def\<close>)
    with that show False by simp
  qed
  have eq: "map ((!) (kk_sets st)) [0..<k] = kk_sets st" using map_nth [of "kk_sets st"] by (simp add: len)
  have "kk_nonempty st = length (filter (\<lambda>s. kitems s \<noteq> []) (map ((!) (kk_sets st)) [0..<k]))"
    by (simp only: kk_nonempty_def eq)
  also have "\<dots> = card ?S" by (rule filter_length_le_count)
  finally have card: "kk_nonempty st = card ?S" .
  have "?S = {..<card ?S}"
  proof -
    have "\<exists>c. ?S = {..<c}"
    proof (cases "\<exists>i<k. \<not> ?P i")
      case True
      define c where "c = (LEAST i. i < k \<and> \<not> ?P i)"
      have c: "c < k" "\<not> ?P c" using LeastI_ex [of "\<lambda>i. i < k \<and> \<not> ?P i"] True by (auto simp: c_def)
      have "?P i" if "i < c" for i using not_less_Least [of i "\<lambda>i. i < k \<and> \<not> ?P i"] that c
        by (auto simp: c_def)
      moreover have "i < c" if "i < k" "?P i" for i using down [of i c] that c by (meson not_less)
      ultimately have "?S = {..<c}" using c by auto
      then show ?thesis ..
    next
      case False
      then have "?S = {..<k}" by auto
      then show ?thesis ..
    qed
    then show ?thesis by (metis card_lessThan)
  qed
  then have "i \<in> ?S \<longleftrightarrow> i < card ?S" by blast
  with i card show ?thesis by auto
qed

lemma kk_nonempty_le: "kk_wf k st \<Longrightarrow> kk_nonempty st \<le> k"
  using length_filter_le [of "\<lambda>s. kitems s \<noteq> []" "kk_sets st"]
  by (simp add: kk_nonempty_def kk_wf_def)

lemma kk_nonempty_merge:
  assumes wf: "kk_wf k a" "kk_wf k b" and nn: "kk_nonneg a" "kk_nonneg b"
  shows "kk_nonempty (kk_merge a b) = min k (kk_nonempty a + kk_nonempty b)"
proof -
  let ?P = "\<lambda>s. kitems s \<noteq> []" and ?na = "kk_nonempty a" and ?nb = "kk_nonempty b"
  have k: "kk_k a = k" using wf by (simp add: kk_wf_def)
  have le: "?na \<le> k" "?nb \<le> k" using wf by (auto intro: kk_nonempty_le)
  have "kk_nonempty (kk_merge a b) = size (filter_mset ?P (mset (kk_sets (kk_merge a b))))"
    by (simp add: kk_nonempty_def flip: mset_filter)
  also have "\<dots> = length (filter ?P (kk_merged_sets a b))"
    by (simp add: kk_merge_def del: mset_map filter_map flip: mset_filter)
  also have "\<dots> = card {i. i < k \<and> ?P (kset_merge (kk_sets a ! i) (kk_sets b ! (k - 1 - i)))}"
    unfolding k by (rule filter_length_le_count)
  also have "{i. i < k \<and> ?P (kset_merge (kk_sets a ! i) (kk_sets b ! (k - 1 - i)))} =
      {i. i < k \<and> (i < ?na \<or> k - 1 - i < ?nb)}"
  proof (intro Collect_cong conj_cong refl)
    fix i
    assume "i < k"
    then have "k - 1 - i < k" by simp
    with kk_nonempty_prefix [OF wf(1) nn(1) \<open>i < k\<close>] kk_nonempty_prefix [OF wf(2) nn(2) this]
    show "?P (kset_merge (kk_sets a ! i) (kk_sets b ! (k - 1 - i))) = (i < ?na \<or> k - 1 - i < ?nb)"
      by auto
  qed
  also have "\<dots> = {0..<?na} \<union> {max ?na (k - ?nb)..<k}"
    using le by auto
  also have "card \<dots> = ?na + (k - max ?na (k - ?nb))"
    by (subst card_Un_disjoint) auto
  also have "\<dots> = min k (?na + ?nb)" using le by auto
  finally show ?thesis .
qed

subsection \<open>Spread\<close>

text \<open>The spread is the largest difference between two sums of a state.\<close>

lemma kk_spread_nth:
  "kk_wf k st \<Longrightarrow> 0 < k \<Longrightarrow> kk_spread st = ksum (kk_sets st ! 0) - ksum (kk_sets st ! (k - 1))"
  by (cases "kk_sets st = []") (auto simp: kk_spread_def kk_wf_def hd_conv_nth last_conv_nth)

lemma kk_spread_bound:
  assumes "kk_wf k st" "i < k" "j < k"
  shows "ksum (kk_sets st ! i) - ksum (kk_sets st ! j) \<le> kk_spread st"
proof -
  have "ksum (kk_sets st ! i) \<le> ksum (kk_sets st ! 0)"
    "ksum (kk_sets st ! (k - 1)) \<le> ksum (kk_sets st ! j)"
    using assms by (auto intro!: kk_wf_sum_desc [OF assms(1)])
  with assms show ?thesis by (simp add: kk_spread_nth)
qed

lemma kk_spread_leI:
  assumes "kk_wf k st" "0 < k"
    "\<And>s t. s \<in> set (kk_sets st) \<Longrightarrow> t \<in> set (kk_sets st) \<Longrightarrow> ksum s - ksum t \<le> B"
  shows "kk_spread st \<le> B"
  using assms by (auto simp: kk_spread_nth kk_wf_def)

lemma kk_spread_merge:
  assumes wf: "kk_wf k a" "kk_wf k b" and k: "0 < k"
  shows "kk_spread (kk_merge a b) \<le> max (kk_spread a) (kk_spread b)"
proof (rule kk_spread_leI [OF kk_merge_wf [OF wf] k])
  have kb: "length (kk_sets b) = k" and ka: "kk_k a = k" using wf by (auto simp: kk_wf_def)
  have sum: "ksum (kset_merge (kk_sets a ! i) (kk_sets b ! j)) =
      ksum (kk_sets a ! i) + ksum (kk_sets b ! j)" if "j < k" for i j
    using wf(2) that kb by (auto simp: kset_merge_sum kk_wf_def kset_wf_def)
  fix s t
  assume "s \<in> set (kk_sets (kk_merge a b))" "t \<in> set (kk_sets (kk_merge a b))"
  then obtain i j where ij: "i < k" "j < k"
    "s = kset_merge (kk_sets a ! i) (kk_sets b ! (k - 1 - i))"
    "t = kset_merge (kk_sets a ! j) (kk_sets b ! (k - 1 - j))"
    by (auto simp: kk_merge_def ka)
  have lt: "k - 1 - i < k" "k - 1 - j < k" using ij by auto
  show "ksum s - ksum t \<le> max (kk_spread a) (kk_spread b)"
  proof (cases "i \<le> j")
    case True
    with ij have "ksum (kk_sets b ! (k - 1 - i)) \<le> ksum (kk_sets b ! (k - 1 - j))"
      by (intro kk_wf_sum_desc [OF wf(2)]) auto
    with kk_spread_bound [OF wf(1) ij(1,2)] show ?thesis
      unfolding ij(3,4) sum [OF lt(1)] sum [OF lt(2)] by linarith
  next
    case False
    with ij have "ksum (kk_sets a ! i) \<le> ksum (kk_sets a ! j)"
      by (intro kk_wf_sum_desc [OF wf(1)]) auto
    with kk_spread_bound [OF wf(2) lt] show ?thesis
      unfolding ij(3,4) sum [OF lt(1)] sum [OF lt(2)] by linarith
  qed
qed

subsection \<open>Invariants of the loop\<close>

definition kk_contents :: "nat \<Rightarrow> (nat \<times> int) multiset \<Rightarrow> kkstate multiset \<Rightarrow> bool" where
  "kk_contents k C M \<longleftrightarrow> (\<forall>st \<in># M. kk_wf k st) \<and> (\<Sum>st\<in>#M. kk_items st) = C"

lemma kk_contents_merge:
  "kk_contents k C (M + {#a, b#}) \<Longrightarrow> kk_contents k C (add_mset (kk_merge a b) M)"
  by (simp add: kk_contents_def kk_merge_wf kk_merge_items [where k = k] add.assoc)

lemma kk_contents_nonneg:
  assumes "kk_contents k C M" "\<forall>p \<in># C. 0 \<le> snd p" "st \<in># M"
  shows "kk_nonneg st"
proof -
  from assms(3) obtain M' where "M = add_mset st M'" by (metis mset_add)
  with assms show ?thesis by (auto simp: kk_contents_def kk_nonneg_def)
qed

definition kk_uniform :: "kkstate \<Rightarrow> bool" where
  "kk_uniform st \<longleftrightarrow> (\<forall>s \<in> set (kk_sets st). \<forall>t \<in> set (kk_sets st). length (kitems s) = length (kitems t))"

lemma kk_uniform_merge:
  assumes "kk_wf k a" "kk_wf k b" "kk_uniform a" "kk_uniform b"
  shows "kk_uniform (kk_merge a b)"
proof -
  have ks: "kk_k a = k" "length (kk_sets a) = k" "length (kk_sets b) = k"
    using assms by (auto simp: kk_wf_def)
  show ?thesis unfolding kk_uniform_def
  proof (intro ballI)
    fix s t
    assume "s \<in> set (kk_sets (kk_merge a b))" "t \<in> set (kk_sets (kk_merge a b))"
    then obtain i j where ij: "i < k" "j < k"
      "s = kset_merge (kk_sets a ! i) (kk_sets b ! (k - 1 - i))"
      "t = kset_merge (kk_sets a ! j) (kk_sets b ! (k - 1 - j))"
      by (auto simp: kk_merge_def ks)
    then have "kk_sets a ! i \<in> set (kk_sets a)" "kk_sets a ! j \<in> set (kk_sets a)"
      "kk_sets b ! (k - 1 - i) \<in> set (kk_sets b)" "kk_sets b ! (k - 1 - j) \<in> set (kk_sets b)"
      by (auto simp: ks)
    with assms(3,4) have
      "length (kitems (kk_sets a ! i)) = length (kitems (kk_sets a ! j))"
      "length (kitems (kk_sets b ! (k - 1 - i))) = length (kitems (kk_sets b ! (k - 1 - j)))"
      unfolding kk_uniform_def by blast+
    then show "length (kitems s) = length (kitems t)" by (simp add: ij)
  qed
qed

subsection \<open>Start of the loop\<close>

definition kk_start_ok :: "int list \<Rightarrow> nat \<Rightarrow> bool \<Rightarrow> bool" where
  "kk_start_ok vals k e \<longleftrightarrow> 0 < k \<and> vals \<noteq> [] \<and> (e \<longrightarrow> k dvd length vals)"

definition kk_all :: "int list \<Rightarrow> (nat \<times> int) multiset" where
  "kk_all vals = mset (zip [0..<length vals] vals)"

definition kk_init_state :: "nat \<Rightarrow> (nat \<times> int) list \<Rightarrow> kkstate" where
  "kk_init_state k items = \<lparr>kk_k = k, kk_sets =
     sorted_reverse (map kset_single items @ replicate (k - length items) kset_new)\<rparr>"

lemma concat_chunks:
  "m * k \<le> length xs \<Longrightarrow> concat (map (\<lambda>c. map (\<lambda>i. xs ! (c * k + i)) [0..<k]) [0..<m]) = take (m * k) xs"
proof (induction m)
  case (Suc m)
  have "take (m * k + k) xs = take (m * k) xs @ map (\<lambda>i. xs ! (m * k + i)) [0..<k]"
    using Suc.prems by (auto simp: take_add intro!: nth_equalityI)
  with Suc show ?case by (simp add: add.commute)
qed simp

lemma sorted_seqlens_mset:
  "mset (map (\<lambda>(seqlen, idx). (idx, seqlen)) (sorted_seqlens vals)) = kk_all vals"
proof -
  have "map (\<lambda>(seqlen, idx). (idx, seqlen)) (zip vals [0..<length vals]) = zip [0..<length vals] vals"
    by (rule nth_equalityI) auto
  then have "mset (map (\<lambda>(seqlen, idx). (idx, seqlen)) (zip vals [0..<length vals])) = kk_all vals"
    by (simp only: kk_all_def)
  then show ?thesis by (simp add: sorted_seqlens_def)
qed

lemma kk_start_items_mset:
  assumes "kk_start_ok vals k e"
  shows "mset (concat (kk_start_items vals k e)) = kk_all vals"
proof -
  let ?xs = "map (\<lambda>(seqlen, idx). (idx, seqlen)) (sorted_seqlens vals)"
  have len: "length ?xs = length vals" by (simp add: sorted_seqlens_def)
  have "concat (kk_start_items vals k e) = ?xs"
  proof (cases e)
    case True
    with assms have "length vals div k * k = length vals" by (simp add: kk_start_ok_def)
    with concat_chunks [of "length ?xs div k" k ?xs] len True show ?thesis
      by (simp add: kk_start_items_def Let_def)
  next
    case False
    then show ?thesis
      using concat_map_singleton [of "\<lambda>x. x" ?xs]
      by (simp add: kk_start_items_def Let_def del: map_map)
  qed
  then show ?thesis by (simp only: sorted_seqlens_mset)
qed

lemma kk_start_items_length:
  assumes "kk_start_ok vals k e" "items \<in> set (kk_start_items vals k e)"
  shows "length items = (if e then k else 1)" "length items \<le> k"
  using assms by (auto simp: kk_start_items_def kk_start_ok_def Let_def split: if_splits)

lemma kk_start_items_init:
  assumes "kk_start_ok vals k e" "items \<in> set (kk_start_items vals k e)"
  shows "kk_init items k = Inr (kk_init_state k items)"
  using kk_init_Inr [of items k] kk_start_items_length [OF assms]
  by (auto simp: kk_init_state_def split: if_splits)

lemma kk_init_state_uniform: "length items = k \<Longrightarrow> kk_uniform (kk_init_state k items)"
  by (auto simp: kk_uniform_def kk_init_state_def)

lemma kk_init_state_nonempty:
  "kk_nonempty (kk_init_state k items) = length items"
proof -
  have "kk_nonempty (kk_init_state k items) = length (filter (\<lambda>s. kitems s \<noteq> [])
      (map kset_single items @ replicate (k - length items) kset_new))"
    unfolding kk_nonempty_def kk_init_state_def by (simp add: filter_length_mset_cong [OF sorted_reverse_mset])
  then show ?thesis by (simp add: kset_new_def filter_replicate)
qed

lemma kk_init_state_spread:
  assumes "kk_wf k (kk_init_state k items)" "0 < k" "\<forall>p \<in> set items. 0 \<le> snd p \<and> snd p \<le> B" "0 \<le> B"
  shows "kk_spread (kk_init_state k items) \<le> B"
proof (rule kk_spread_leI [OF assms(1,2)])
  have b: "0 \<le> ksum s \<and> ksum s \<le> B" if "s \<in> set (kk_sets (kk_init_state k items))" for s
    using that assms(3,4) by (auto simp: kk_init_state_def kset_new_def)
  show "ksum s - ksum t \<le> B"
    if "s \<in> set (kk_sets (kk_init_state k items))" "t \<in> set (kk_sets (kk_init_state k items))" for s t
    using b [OF that(1)] b [OF that(2)] by linarith
qed

subsection \<open>The final state\<close>

text \<open>Everything the loop keeps, in one invariant on the multiset of pending states.\<close>

definition kk_inv :: "int list \<Rightarrow> nat \<Rightarrow> bool \<Rightarrow> kkstate multiset \<Rightarrow> bool" where
  "kk_inv vals k e M \<longleftrightarrow> kk_contents k (kk_all vals) M \<and>
     (e \<longrightarrow> (\<forall>st \<in># M. kk_uniform st)) \<and>
     ((\<forall>v \<in> set vals. 0 \<le> v) \<longrightarrow> min k (length vals) \<le> (\<Sum>st\<in>#M. kk_nonempty st)) \<and>
     (\<forall>B. (\<forall>v \<in> set vals. 0 \<le> v \<and> v \<le> B) \<longrightarrow> (\<forall>st \<in># M. kk_spread st \<le> B))"

lemma kk_all_values: "(\<forall>p \<in># kk_all vals. P (snd p)) \<longleftrightarrow> (\<forall>v \<in> set vals. P v)"
  by (simp add: kk_all_def Ball_def in_set_zip) (metis in_set_conv_nth)

lemma kk_inv_merge:
  assumes k: "0 < k" and inv: "kk_inv vals k e (M + {#a, b#})"
  shows "kk_inv vals k e (add_mset (kk_merge a b) M)"
proof -
  from inv have cont: "kk_contents k (kk_all vals) (M + {#a, b#})" by (simp add: kk_inv_def)
  then have wf: "kk_wf k a" "kk_wf k b" by (auto simp: kk_contents_def)
  have "e \<longrightarrow> kk_uniform (kk_merge a b)"
    using inv kk_uniform_merge [OF wf] by (auto simp: kk_inv_def)
  moreover have "min k (length vals) \<le> (\<Sum>st\<in>#add_mset (kk_merge a b) M. kk_nonempty st)"
    if "\<forall>v \<in> set vals. 0 \<le> v"
  proof -
    have "\<forall>p \<in># kk_all vals. 0 \<le> snd p" using that by (simp add: kk_all_values)
    then have "kk_nonneg a" "kk_nonneg b" by (auto intro!: kk_contents_nonneg [OF cont])
    then show ?thesis using inv that kk_nonempty_merge [OF wf] by (auto simp: kk_inv_def)
  qed
  moreover have "kk_spread (kk_merge a b) \<le> B" if "\<forall>v \<in> set vals. 0 \<le> v \<and> v \<le> B" for B
  proof -
    from inv that have "kk_spread a \<le> B" "kk_spread b \<le> B" by (auto simp: kk_inv_def)
    with kk_spread_merge [OF wf k] show ?thesis by linarith
  qed
  ultimately show ?thesis
    using inv kk_contents_merge [OF cont] by (auto simp: kk_inv_def)
qed

lemma kk_inv_init:
  assumes ok: "kk_start_ok vals k e"
  shows "kk_inv vals k e (mset (map (kk_init_state k) (kk_start_items vals k e)))"
proof -
  let ?ch = "kk_start_items vals k e"
  have wf: "kk_wf k (kk_init_state k c)" "kk_items (kk_init_state k c) = mset c" if "c \<in> set ?ch" for c
    using kk_init_wf [OF kk_start_items_init [OF ok that]] by simp_all
  have "(\<Sum>c\<leftarrow>?ch. kk_items (kk_init_state k c)) = (\<Sum>c\<leftarrow>?ch. mset c)"
    by (rule arg_cong [where f = sum_list]) (simp add: wf)
  then have sum: "(\<Sum>c\<leftarrow>?ch. kk_items (kk_init_state k c)) = kk_all vals"
    using kk_start_items_mset [OF ok] by (simp add: sum_list_concat_mset)
  have "(\<Sum>c\<leftarrow>?ch. kk_nonempty (kk_init_state k c)) = length (concat ?ch)"
    by (simp add: kk_init_state_nonempty length_concat)
  also have "\<dots> = length vals"
    using kk_start_items_mset [OF ok] by (metis kk_all_def length_zip length_upt min.idem minus_nat.diff_0 size_mset)
  finally have ne: "(\<Sum>c\<leftarrow>?ch. kk_nonempty (kk_init_state k c)) = length vals" .
  have sp: "kk_spread (kk_init_state k c) \<le> B"
    if c: "c \<in> set ?ch" and B: "\<forall>v \<in> set vals. 0 \<le> v \<and> v \<le> B" for c B
  proof (rule kk_init_state_spread [OF wf(1) [OF c]])
    show "0 < k" using ok by (simp add: kk_start_ok_def)
    have "set c \<subseteq> set_mset (kk_all vals)"
      using c unfolding kk_start_items_mset [OF ok, symmetric] by auto
    moreover have "\<forall>p \<in># kk_all vals. 0 \<le> snd p \<and> snd p \<le> B"
      using B kk_all_values [of vals "\<lambda>v. 0 \<le> v \<and> v \<le> B"] by simp
    ultimately show "\<forall>p \<in> set c. 0 \<le> snd p \<and> snd p \<le> B" by blast
    show "0 \<le> B" using B ok by (cases vals) (auto simp: kk_start_ok_def)
  qed
  have un: "kk_uniform (kk_init_state k c)" if "c \<in> set ?ch" e for c
    using kk_start_items_length [OF ok that(1)] that(2) by (simp add: kk_init_state_uniform)
  show ?thesis
    using wf sum ne sp un
    by (auto simp: kk_inv_def kk_contents_def o_def sum_mset_sum_list simp flip: mset_map)
qed

lemma kk_final_state:
  assumes ok: "kk_start_ok vals k e"
  shows "\<exists>st. rbind (push_states [] (kk_start_items vals k e) k) kk_loop = Inr [st] \<and>
    kk_inv vals k e {#st#}"
proof -
  let ?h = "foldl (heappush kk_lt) [] (map (kk_init_state k) (kk_start_items vals k e))"
  have m: "mset ?h = mset (map (kk_init_state k) (kk_start_items vals k e))"
    using hq.elems_fold_push [of kk_lt "[]"] by simp
  have "kk_start_items vals k e \<noteq> []"
    using kk_start_items_mset [OF ok] ok by (auto simp: kk_all_def kk_start_ok_def)
  then have ne: "?h \<noteq> []" using m by (metis mset_zero_iff map_is_Nil_conv)
  have "\<exists>st. kk_loop ?h = Inr [st] \<and> kk_inv vals k e {#st#}"
  proof (rule kk_loop_invariant [OF _ _ ne])
    show "kk_inv vals k e (mset ?h)" unfolding m by (rule kk_inv_init [OF ok])
    show "kk_inv vals k e (add_mset (kk_merge a b) M)" if "kk_inv vals k e (M + {#a, b#})" for a b M
      using kk_inv_merge that ok by (simp add: kk_start_ok_def)
  qed
  moreover have "push_states [] (kk_start_items vals k e) k = Inr ?h"
    by (rule push_states_total) (rule kk_start_items_init [OF ok])
  ultimately show ?thesis by simp
qed

lemma kk_inv_equal_size:
  assumes inv: "kk_inv vals k True {#st#}" and p: "p \<in> set (kk_get_partitions st)"
  shows "length p * k = length vals"
proof -
  from inv have wf: "kk_wf k st" and items: "kk_items st = kk_all vals"
    by (auto simp: kk_inv_def kk_contents_def)
  from p obtain s where s: "s \<in> set (kk_sets st)" "length p = length (kitems s)"
    by (auto simp: kk_get_partitions_def)
  from inv have "kk_uniform st" by (simp add: kk_inv_def)
  then have "\<forall>t \<in> set (kk_sets st). length (kitems t) = length (kitems s)"
    using s(1) unfolding kk_uniform_def by blast
  then have "(\<Sum>t\<leftarrow>kk_sets st. length (kitems t)) = (\<Sum>t\<leftarrow>kk_sets st. length (kitems s))"
    by (intro arg_cong [where f = sum_list] map_cong) auto
  moreover have "size (kk_items st) = (\<Sum>t\<leftarrow>kk_sets st. length (kitems t))"
    by (simp add: kk_items_concat length_concat o_def)
  ultimately show ?thesis using wf s(2) by (simp add: items kk_all_def kk_wf_def sum_list_triv)
qed

lemma karmarkar_karp_result:
  assumes ok: "kk_start_ok vals k e"
  shows "\<exists>st. karmarkar_karp vals k e = Inr (kk_get_partitions st) \<and> kk_inv vals k e {#st#}"
proof -
  from kk_final_state [OF ok] obtain st where
    run: "rbind (push_states [] (kk_start_items vals k e) k) kk_loop = Inr [st]" and
    inv: "kk_inv vals k e {#st#}" by blast
  from run obtain h where h: "push_states [] (kk_start_items vals k e) k = Inr h" "kk_loop h = Inr [st]"
    by (auto simp: rbind_Inr_iff)
  have "\<not> (e \<and> k = 0)" "(e \<longrightarrow> length vals mod k = 0) = True"
    using ok by (auto simp: kk_start_ok_def)
  moreover have "(e \<longrightarrow> list_all (\<lambda>p. length p * k = length vals) (kk_get_partitions st)) = True"
    using inv kk_inv_equal_size [of vals k st] by (auto simp: list_all_iff)
  ultimately have "karmarkar_karp vals k e = Inr (kk_get_partitions st)"
    unfolding karmarkar_karp_def Let_def h rbind_simps list.case by (simp only: guard_assert_simps if_False)
  with inv show ?thesis by blast
qed

lemma kk_get_partitions_facts:
  assumes inv: "kk_inv vals k e {#st#}"
  shows "length (kk_get_partitions st) = k"
    and "mset (concat (kk_get_partitions st)) = mset [0..<length vals]"
    and "s \<in> set (kk_sets st) \<Longrightarrow> (\<Sum>i\<leftarrow>map fst (kitems s). vals ! i) = ksum s"
proof -
  from inv have wf: "kk_wf k st" and items: "kk_items st = kk_all vals"
    by (auto simp: kk_inv_def kk_contents_def)
  show "length (kk_get_partitions st) = k" using wf by (simp add: kk_get_partitions_def kk_wf_def)
  have "concat (kk_get_partitions st) = map fst (concat (map kitems (kk_sets st)))"
    by (simp add: kk_get_partitions_def map_concat o_def)
  then have "mset (concat (kk_get_partitions st)) = image_mset fst (kk_items st)"
    by (simp add: kk_items_concat)
  also have "\<dots> = mset (map fst (zip [0..<length vals] vals))"
    by (simp add: items kk_all_def flip: mset_map)
  also have "map fst (zip [0..<length vals] vals) = [0..<length vals]" by (simp add: map_fst_zip)
  finally show "mset (concat (kk_get_partitions st)) = mset [0..<length vals]" .
  assume s: "s \<in> set (kk_sets st)"
  have "vals ! fst p = snd p" if "p \<in> set (kitems s)" for p
  proof -
    have "p \<in># kk_all vals" using s that unfolding items [symmetric] kk_items_mem by blast
    then show ?thesis by (auto simp: kk_all_def in_set_zip)
  qed
  then have "(\<Sum>i\<leftarrow>map fst (kitems s). vals ! i) = (\<Sum>p\<leftarrow>kitems s. snd p)"
    by (intro arg_cong [where f = sum_list]) simp
  then show "(\<Sum>i\<leftarrow>map fst (kitems s). vals ! i) = ksum s"
    using wf s by (simp add: kk_wf_def kset_wf_def)
qed

lemma check_and_sort_Inr:
  assumes "length ps = k" "\<forall>p \<in> set ps. p \<noteq> []" "mset (concat ps) = mset [0..<n]"
  shows "check_and_sort_partitions n k ps = Inr (map sort ps)"
proof -
  have "set (concat ps) = set [0..<n]" by (rule mset_eq_setD [OF assms(3)])
  with assms(1,2) show ?thesis
    by (simp add: check_and_sort_partitions_def guard_assert_def list_all_iff)
qed

lemma mset_concat_sort: "mset (concat (map sort ps)) = mset (concat ps)"
  by (simp add: sum_list_concat_mset o_def)

text \<open>What a caller may rely on, for both modes.\<close>

definition balanced_parts :: "nat \<Rightarrow> nat \<Rightarrow> nat list list \<Rightarrow> bool" where
  "balanced_parts n k ps \<longleftrightarrow> length ps = k \<and> mset (concat ps) = mset [0..<n] \<and>
     list_all (\<lambda>p. p \<noteq> [] \<and> sorted p) ps"

lemma get_seqlen_balanced_partitions_cases:
  assumes k: "0 < k" "k \<le> length vals"
    and e: "e \<Longrightarrow> k dvd length vals" and nn: "\<not> e \<Longrightarrow> \<forall>v \<in> set vals. 0 \<le> v"
  shows "\<exists>st. get_seqlen_balanced_partitions vals k e = Inr (map sort (kk_get_partitions st)) \<and>
    kk_inv vals k e {#st#} \<and> balanced_parts (length vals) k (map sort (kk_get_partitions st))"
proof -
  have ok: "kk_start_ok vals k e" using k e by (auto simp: kk_start_ok_def)
  from karmarkar_karp_result [OF ok] obtain st where
    r: "karmarkar_karp vals k e = Inr (kk_get_partitions st)" and inv: "kk_inv vals k e {#st#}" by blast
  note f = kk_get_partitions_facts [OF inv]
  have ne: "p \<noteq> []" if p: "p \<in> set (kk_get_partitions st)" for p
  proof (cases e)
    case True
    with inv p have "length p * k = length vals" by (auto intro: kk_inv_equal_size)
    with k show ?thesis by auto
  next
    case False
    from inv nn [OF False] k(2) have "k \<le> kk_nonempty st" by (simp add: kk_inv_def)
    moreover have "length (kk_sets st) = k"
      using f(1) by (simp add: kk_get_partitions_def)
    ultimately have "filter (\<lambda>s. kitems s \<noteq> []) (kk_sets st) = kk_sets st"
      by (metis kk_nonempty_def filter_id_conv length_filter_less not_less)
    then have "\<forall>s \<in> set (kk_sets st). kitems s \<noteq> []" by (simp add: filter_id_conv)
    with p show ?thesis by (auto simp: kk_get_partitions_def)
  qed
  have "get_seqlen_balanced_partitions vals k e = Inr (map sort (kk_get_partitions st))"
    using k check_and_sort_Inr [OF f(1) _ f(2)] ne by (simp add: get_seqlen_balanced_partitions_def r)
  moreover have "balanced_parts (length vals) k (map sort (kk_get_partitions st))"
    unfolding balanced_parts_def list_all_iff
  proof (intro conjI ballI)
    fix p
    assume "p \<in> set (map sort (kk_get_partitions st))"
    then obtain q where q: "q \<in> set (kk_get_partitions st)" "p = sort q" by auto
    from ne [OF q(1)] show "p \<noteq> []" unfolding q(2) by (metis length_0_conv length_sort)
    show "sorted p" by (simp add: q(2))
  qed (simp_all only: mset_concat_sort f length_map)
  ultimately show ?thesis using inv by blast
qed

lemma get_seqlen_balanced_partitions_zero:
  "get_seqlen_balanced_partitions vals 0 e = Inl (if e then ZeroDivisionError else IndexError)"
proof (cases "kk_start_items vals 0 e")
  case Nil
  then have "kk_loop [] = Inr []" by (subst kk_loop.simps) simp
  with Nil show ?thesis
    by (cases e) (simp_all add: get_seqlen_balanced_partitions_def karmarkar_karp_def)
next
  case (Cons items rest)
  then have "\<not> e \<longrightarrow> length items = 1" by (auto simp: kk_start_items_def Let_def)
  with Cons show ?thesis
    by (cases e) (simp_all add: get_seqlen_balanced_partitions_def karmarkar_karp_def kk_init_def
        guard_assert_def)
qed

lemma get_seqlen_balanced_partitions_sound:
  assumes r: "get_seqlen_balanced_partitions vals k e = Inr ps"
  shows "balanced_parts (length vals) k ps" "0 < k" "k \<le> length vals"
proof -
  show le: "k \<le> length vals" using r by (simp add: get_seqlen_balanced_partitions_def guard_assert_Inr_iff)
  show k: "0 < k" using r by (cases "k = 0") (simp_all add: get_seqlen_balanced_partitions_zero)
  have "e \<longrightarrow> k dvd length vals" using r k
    by (auto simp: get_seqlen_balanced_partitions_def karmarkar_karp_def guard_assert_Inr_iff rbind_Inr_iff)
  with k le have "kk_start_ok vals k e" by (auto simp: kk_start_ok_def)
  from karmarkar_karp_result [OF this] obtain st where
    st: "karmarkar_karp vals k e = Inr (kk_get_partitions st)" and inv: "kk_inv vals k e {#st#}" by blast
  note f = kk_get_partitions_facts [OF inv]
  from r st have ps: "ps = map sort (kk_get_partitions st)"
    and "list_all (\<lambda>p. 0 < length p) (kk_get_partitions st)"
    by (auto simp: get_seqlen_balanced_partitions_def check_and_sort_partitions_def guard_assert_Inr_iff)
  then have "list_all (\<lambda>p. p \<noteq> [] \<and> sorted p) ps"
    by (auto simp: list_all_iff) (metis length_0_conv length_greater_0_conv length_sort)
  then show "balanced_parts (length vals) k ps"
    unfolding balanced_parts_def by (simp only: ps mset_concat_sort f length_map)
qed

lemma get_seqlen_balanced_partitions_total:
  assumes "0 < k" "k \<le> length vals" "\<forall>v \<in> set vals. 0 \<le> v"
  shows "\<exists>ps. get_seqlen_balanced_partitions vals k False = Inr ps \<and> balanced_parts (length vals) k ps"
  using get_seqlen_balanced_partitions_cases [of k vals False] assms by blast

subsection \<open>The interface of a partitioner\<close>

text \<open>
  The callers of the partitioner rely on one law only: what it returns is a partition of the
  indices.  From it: applying the parts to a list of items of any kind loses and repeats
  nothing.
\<close>

locale balanced_partitioner =
  fixes part_fn :: "int list \<Rightarrow> nat \<Rightarrow> nat list list result"
  assumes part_sound: "part_fn vals k = Inr ps \<Longrightarrow> balanced_parts (length vals) k ps"
begin

lemma part_set: "part_fn vals k = Inr ps \<Longrightarrow> set (concat ps) = {..<length vals}"
  using part_sound [of vals k ps] mset_eq_setD [of "concat ps" "[0..<length vals]"]
  by (simp only: balanced_parts_def) (simp add: lessThan_atLeast0)

lemma part_distinct: "part_fn vals k = Inr ps \<Longrightarrow> distinct (concat ps)"
  using part_sound [of vals k ps] by (metis balanced_parts_def distinct_upt mset_eq_imp_distinct_iff)

lemma part_nonempty: "part_fn vals k = Inr ps \<Longrightarrow> p \<in> set ps \<Longrightarrow> p \<noteq> []"
  using part_sound [of vals k ps] by (auto simp: balanced_parts_def list_all_iff)

lemma part_items:
  assumes "part_fn vals k = Inr ps" "length items = length vals"
  shows "mset (concat (map (\<lambda>p. concat (map ((!) items) p)) ps)) = mset (concat items)"
proof -
  have "concat (map (\<lambda>p. concat (map ((!) items) p)) ps) = concat (map ((!) items) (concat ps))"
    by (induction ps) auto
  then have "mset (concat (map (\<lambda>p. concat (map ((!) items) p)) ps)) =
      (\<Sum>i\<leftarrow>concat ps. mset (items ! i))"
    by (simp add: sum_list_concat_mset o_def)
  also have "\<dots> = (\<Sum>i\<leftarrow>[0..<length vals]. mset (items ! i))"
    using part_sound [OF assms(1)] by (intro sum_list_mset_cong) (simp add: balanced_parts_def)
  also have "map (\<lambda>i. mset (items ! i)) [0..<length vals] = map mset items"
    by (rule nth_equalityI) (auto simp: assms(2))
  finally show ?thesis by (simp add: sum_list_concat_mset)
qed

end

interpretation kk_part: balanced_partitioner "\<lambda>vals k. get_seqlen_balanced_partitions vals k e" for e
  by unfold_locales (rule get_seqlen_balanced_partitions_sound)

subsection \<open>Properties\<close>

definition part_sum :: "int list \<Rightarrow> nat list \<Rightarrow> int" where
  "part_sum vals p = (\<Sum>i\<leftarrow>p. vals ! i)"

lemma part_sum_sort [simp]: "part_sum vals (sort p) = part_sum vals p"
  by (simp add: part_sum_def sum_list_mset_cong [OF mset_sort])



text \<open>
  With \<open>equal_size\<close>, for any values and any \<open>k\<close> dividing the number of items, the result is
  again such a partition and every part has exactly \<open>n / k\<close> members: the two size assertions of
  \<open>karmarkar_karp\<close> never fire.
\<close>

theorem balanced_partition_equal_size:
  assumes "0 < k" "k \<le> length vals" "k dvd length vals"
  shows "\<exists>ps. get_seqlen_balanced_partitions vals k True = Inr ps \<and>
    balanced_parts (length vals) k ps \<and> list_all (\<lambda>p. length p = length vals div k) ps"
proof -
  from get_seqlen_balanced_partitions_cases [of k vals True] assms obtain st where
    r: "get_seqlen_balanced_partitions vals k True = Inr (map sort (kk_get_partitions st))"
    and inv: "kk_inv vals k True {#st#}"
    and b: "balanced_parts (length vals) k (map sort (kk_get_partitions st))" by blast
  have "length p = length vals div k" if "p \<in> set (kk_get_partitions st)" for p
    using kk_inv_equal_size [OF inv that] assms(1) by (metis nonzero_mult_div_cancel_right not_less0)
  with r b show ?thesis by (auto simp: list_all_iff)
qed

theorem balanced_partition_equal_size_witness:
  "\<exists>ps. get_seqlen_balanced_partitions [9, -2, 7, 1, 3, 3] 3 True = Inr ps \<and>
    balanced_parts 6 3 ps \<and> list_all (\<lambda>p. length p = 6 div 3) ps"
proof -
  have len: "length [9, -2, 7, 1, 3, 3 :: int] = 6" by simp
  show ?thesis
    using balanced_partition_equal_size [of 3 "[9, -2, 7, 1, 3, 3]", unfolded len] by simp
qed

text \<open>
  Quality of the differencing method: when every value lies between 0 and \<open>B\<close>, the sums of
  any two parts of the result differ by at most \<open>B\<close>, in both modes.
\<close>

theorem balanced_partition_spread:
  assumes "get_seqlen_balanced_partitions vals k e = Inr ps" "0 < k"
    and "\<forall>v \<in> set vals. 0 \<le> v \<and> v \<le> B" and "p \<in> set ps" "q \<in> set ps"
  shows "part_sum vals p - part_sum vals q \<le> B"
proof -
  have k: "k \<le> length vals"
    using assms(1) by (simp add: get_seqlen_balanced_partitions_def guard_assert_Inr_iff)
  have "e \<Longrightarrow> k dvd length vals"
    using assms(1,2) by (auto simp: get_seqlen_balanced_partitions_def karmarkar_karp_def
        guard_assert_Inr_iff rbind_Inr_iff)
  then obtain st where
    r: "ps = map sort (kk_get_partitions st)" and inv: "kk_inv vals k e {#st#}"
    using get_seqlen_balanced_partitions_cases [OF assms(2) k, of e] assms(1,3) by auto
  have wf: "kk_wf k st" and sp: "kk_spread st \<le> B"
    using inv assms(3) by (auto simp: kk_inv_def kk_contents_def)
  have sum: "\<exists>i<k. part_sum vals p = ksum (kk_sets st ! i)" if "p \<in> set ps" for p
  proof -
    from that r obtain s where s: "s \<in> set (kk_sets st)" "p = sort (map fst (kitems s))"
      by (auto simp: kk_get_partitions_def)
    then have "part_sum vals p = ksum s"
      using kk_get_partitions_facts(3) [OF inv s(1)] by (simp add: part_sum_def sum_list_mset_cong [OF mset_sort])
    with s wf show ?thesis by (metis in_set_conv_nth kk_wf_def)
  qed
  from sum [OF assms(4)] sum [OF assms(5)] kk_spread_bound [OF wf] sp show ?thesis by fastforce
qed

theorem balanced_partition_spread_witness:
  "part_sum [5, 4, 3, 3, 3] [1, 2, 3] - part_sum [5, 4, 3, 3, 3] [0, 4] \<le> 5"
proof (rule balanced_partition_spread)
  show "get_seqlen_balanced_partitions [5, 4, 3, 3, 3] 2 False = Inr [[1, 2, 3], [0, 4]]"
    by code_simp
qed auto

text \<open>
  When the partitioner fails: for non-negative values, it returns a partition exactly when
  \<open>1 \<le> k \<le> n\<close> and, with \<open>equal_size\<close>, \<open>k\<close> divides \<open>n\<close>.
\<close>

theorem balanced_partition_outcome:
  assumes "\<forall>v \<in> set vals. 0 \<le> v"
  shows "((\<exists>ps. get_seqlen_balanced_partitions vals k e = Inr ps) \<longleftrightarrow>
      0 < k \<and> k \<le> length vals \<and> (\<not> e \<or> k dvd length vals)) \<and>
    (get_seqlen_balanced_partitions vals k e = Inl AssertionError \<longleftrightarrow>
      length vals < k \<or> (e \<and> 0 < k \<and> \<not> k dvd length vals)) \<and>
    get_seqlen_balanced_partitions vals 0 e = Inl (if e then ZeroDivisionError else IndexError)"
proof -
  let ?g = "get_seqlen_balanced_partitions vals"
  have zero: "?g 0 e = Inl (if e then ZeroDivisionError else IndexError)"
    by (rule get_seqlen_balanced_partitions_zero)
  have failing: "?g k e = Inl AssertionError" if "length vals < k \<or> (e \<and> 0 < k \<and> \<not> k dvd length vals)"
    using that by (auto simp: get_seqlen_balanced_partitions_def karmarkar_karp_def guard_assert_def dvd_eq_mod_eq_0)
  consider (zero) "k = 0" | (fail) "0 < k" "length vals < k \<or> (e \<and> 0 < k \<and> \<not> k dvd length vals)"
    | (ok) "0 < k" "k \<le> length vals" "\<not> e \<or> k dvd length vals"
    by fastforce
  then have "((\<exists>ps. ?g k e = Inr ps) \<longleftrightarrow> 0 < k \<and> k \<le> length vals \<and> (\<not> e \<or> k dvd length vals)) \<and>
    (?g k e = Inl AssertionError \<longleftrightarrow> length vals < k \<or> (e \<and> 0 < k \<and> \<not> k dvd length vals))"
  proof cases
    case zero
    then show ?thesis using \<open>?g 0 e = Inl (if e then ZeroDivisionError else IndexError)\<close> by simp
  next
    case fail
    then show ?thesis using failing by auto
  next
    case ok
    with get_seqlen_balanced_partitions_cases [of k vals e] assms obtain ps where "?g k e = Inr ps" by blast
    with ok show ?thesis by auto
  qed
  with zero show ?thesis by blast
qed

theorem balanced_partition_outcome_witness:
  "get_seqlen_balanced_partitions [3, 1, 2] 2 True = Inl AssertionError \<and>
   get_seqlen_balanced_partitions [3, 1, 2] 0 False = Inl IndexError"
  using balanced_partition_outcome [of "[3, 1, 2]" 2 True]
    balanced_partition_outcome [of "[3, 1, 2]" 0 False] by simp

end
