(* ===== verification/MicroBatch.thy ===== *)
theory MicroBatch
  imports SeqBalance "HOL-Library.Word"
begin

text \<open>
  Model of \<open>verl/verl/utils/seqlen_balancing.py\<close>, second part: the workload estimate, the
  dynamic micro-batches and their inverse, and the partitions that keep the samples of a prompt
  together.  int64 tensors are lists of \<open>64 word\<close>, so sums and products wrap as torch's do;
  \<open>.tolist()\<close> reads them signed.  A batch is the list of its samples together with the
  description of the sequence lengths that the code reads (nested offsets or attention mask).
  The peers of the data-parallel group enter as the list of the counts they contribute to the
  MAX reduction; \<open>None\<close> stands for "not initialised, no group, or not requested".
\<close>

subsection \<open>Arithmetic\<close>

definition calculate_workload :: "64 word list \<Rightarrow> 64 word list" where
  "calculate_workload seqlen_list = map (\<lambda>x. 24576 * x + x ^ 2) seqlen_list"

definition ceildiv :: "int \<Rightarrow> int \<Rightarrow> int result" where
  "ceildiv a b = (if b = 0 then Inl ZeroDivisionError else Inr (- (a div - b)))"

definition roundup_divisible :: "int \<Rightarrow> int \<Rightarrow> int result" where
  "roundup_divisible a b =
     (if b = 0 then Inl ZeroDivisionError else Inr ((a + b - 1) div b * b))"

definition tensor_sum :: "64 word list \<Rightarrow> 64 word" where
  "tensor_sum xs = foldl (+) 0 xs"

definition tolist :: "64 word list \<Rightarrow> int list" where
  "tolist xs = map sint xs"

subsection \<open>\<open>rearrange_micro_batches\<close>\<close>

datatype seq_source =
    Nested "64 word list"
  | Padded nat "64 word list list"

record 'a tbatch =
  tb_seq :: seq_source
  tb_rows :: "'a list"

fun seq_len_effective :: "seq_source \<Rightarrow> 64 word list" where
  "seq_len_effective (Nested offsets) = map2 (-) (tl offsets) offsets"
| "seq_len_effective (Padded width attention) = map tensor_sum attention"

fun max_seq_len :: "seq_source \<Rightarrow> int result" where
  "max_seq_len (Nested offsets) =
     (let lens = tolist (seq_len_effective (Nested offsets)) in
      if lens = [] then Inl (ValueError ''max() iterable argument is empty'')
      else Inr (foldl max (hd lens) (tl lens)))"
| "max_seq_len (Padded width attention) = Inr (int width)"

record mb_config =
  max_token_len :: int
  dp_peers :: "int list option"
  num_batches_divided_by :: "int option"
  min_num_micro_batch :: "int option"
  use_dynamic_bsz_balance :: bool
  force_group_size :: nat

definition num_micro_batches :: "mb_config \<Rightarrow> int \<Rightarrow> nat \<Rightarrow> int result" where
  "num_micro_batches cfg total_seqlen num_groups =
     rbind (ceildiv total_seqlen (max_token_len cfg)) (\<lambda>c.
       let n0 = min (int num_groups) c;
           n1 = (case min_num_micro_batch cfg of None \<Rightarrow> n0 | Some m \<Rightarrow> max m n0);
           n2 = (case dp_peers cfg of None \<Rightarrow> n1 | Some peers \<Rightarrow> foldl max n1 peers)
       in case num_batches_divided_by cfg of None \<Rightarrow> Inr n2 | Some d \<Rightarrow> roundup_divisible n2 d)"

text \<open>\<open>workloads.view(num_groups, g).sum(dim=1)\<close>.\<close>

definition group_workloads :: "nat \<Rightarrow> nat \<Rightarrow> 64 word list \<Rightarrow> int list" where
  "group_workloads num_groups g w =
     tolist (map (\<lambda>j. tensor_sum (map (\<lambda>i. w ! (j * g + i)) [0..<g])) [0..<num_groups])"

definition expand_groups :: "nat \<Rightarrow> nat list \<Rightarrow> nat list" where
  "expand_groups g group_partition = concat (map (\<lambda>j. [j * g..<j * g + g]) group_partition)"

fun every_nth :: "nat \<Rightarrow> 'a list \<Rightarrow> 'a list" where
  "every_nth g [] = []"
| "every_nth g (x # xs) = x # every_nth g (drop (g - 1) xs)"

definition partition_key :: "int list \<Rightarrow> nat \<Rightarrow> nat list \<Rightarrow> int \<times> nat" where
  "partition_key workloads g part =
     (sum_list (map (\<lambda>idx. workloads ! (idx div g)) (every_nth g part)),
      case part of [] \<Rightarrow> 0 | i # _ \<Rightarrow> i)"

text \<open>\<open>sort(key=..., reverse=True)\<close> is stable; \<open>xs[::2][::-1] + xs[1::2]\<close> follows.\<close>

definition balance_ends :: "int list \<Rightarrow> nat \<Rightarrow> nat list list \<Rightarrow> nat list list" where
  "balance_ends workloads g ps =
     (let s = rev (sort_key (partition_key workloads g) (rev ps))
      in rev (every_nth 2 s) @ every_nth 2 (drop 1 s))"

definition rearrange_micro_batches ::
  "'a tbatch \<Rightarrow> mb_config \<Rightarrow> ('a list list \<times> nat list list) result" where
  "rearrange_micro_batches batch cfg =
     (let g = force_group_size cfg; lens = seq_len_effective (tb_seq batch);
          batch_size = length lens in
      rbind (max_seq_len (tb_seq batch)) (\<lambda>m.
      guard_assert (m \<le> max_token_len cfg) (
      if g = 0 then Inl ZeroDivisionError else
      guard_assert (batch_size mod g = 0) (
      let num_groups = batch_size div g in
      rbind (num_micro_batches cfg (sint (tensor_sum lens)) num_groups) (\<lambda>n.
      guard_assert (n \<le> int num_groups) (
      let w = calculate_workload lens;
          workloads = (if 1 < g then group_workloads num_groups g w else tolist w) in
      rbind (get_seqlen_balanced_partitions workloads (nat n) False) (\<lambda>parts.
      let ps = (if 1 < g then map (expand_groups g) parts else parts);
          idx = (if use_dynamic_bsz_balance cfg then balance_ends workloads g ps else ps) in
      rbind (rmap (rmap (list_get (tb_rows batch))) idx) (\<lambda>mbs. Inr (mbs, idx)))))))))"

subsection \<open>\<open>restore_dynamic_batch\<close>\<close>

fun reverse_idx_loop :: "nat list \<Rightarrow> nat \<Rightarrow> nat list \<Rightarrow> nat list result" where
  "reverse_idx_loop r i [] = Inr r"
| "reverse_idx_loop r i (idx # rest) =
     (if idx < length r then reverse_idx_loop (r[idx := i]) (Suc i) rest else Inl IndexError)"

definition get_reverse_idx :: "nat list \<Rightarrow> nat list result" where
  "get_reverse_idx idx_map = reverse_idx_loop idx_map 0 idx_map"

definition restore_dynamic_batch :: "'a list \<Rightarrow> nat list list \<Rightarrow> 'a list result" where
  "restore_dynamic_batch data batch_idx_list =
     (let indices = concat batch_idx_list in
      guard_assert (length indices = length data)
        (rbind (get_reverse_idx indices) (\<lambda>rev_idx. rmap (list_get data) rev_idx)))"

subsection \<open>\<open>prepare_dynamic_batch\<close>\<close>

text \<open>
  A \<open>DataProto\<close>: its tensors (here one row per sample), its object arrays by name, and its
  meta information, which is copied.
\<close>

record ('a, 'b, 'm) data_proto =
  dp_batch :: "'a tbatch"
  dp_non_tensor :: "(string \<times> 'b list) list"
  dp_meta :: 'm

record ('a, 'b, 'm) micro_proto =
  mp_rows :: "'a list"
  mp_non_tensor :: "(string \<times> 'b list) list"
  mp_meta :: 'm

definition prepare_dynamic_batch ::
  "('a, 'b, 'm) data_proto \<Rightarrow> mb_config \<Rightarrow> (('a, 'b, 'm) micro_proto list \<times> nat list list) result" where
  "prepare_dynamic_batch data cfg =
     rbind (rearrange_micro_batches (dp_batch data) (cfg\<lparr>force_group_size := 1\<rparr>)) (\<lambda>(mbs, idx).
     rbind (rmap (\<lambda>(rows, batch_idx).
         rbind (rmap (\<lambda>(key, value). rbind (rmap (list_get value) batch_idx) (\<lambda>v. Inr (key, v)))
                 (dp_non_tensor data)) (\<lambda>non_tensors.
         Inr \<lparr>mp_rows = rows, mp_non_tensor = non_tensors, mp_meta = dp_meta data\<rparr>))
       (zip mbs idx)) (\<lambda>micro_batches. Inr (micro_batches, idx)))"

subsection \<open>\<open>get_group_balanced_partitions\<close>\<close>

record 'u uid_scan =
  us_groups :: "(nat list \<times> int) list"
  us_uid :: "'u option"
  us_indices :: "nat list"
  us_seqlen :: int

text \<open>One iteration of the grouping loop; a uid is an optional value, \<open>None\<close> being Python's.\<close>

definition uid_flush :: "'u uid_scan \<Rightarrow> (nat list \<times> int) list" where
  "uid_flush s = (if us_indices s \<noteq> [] then us_groups s @ [(us_indices s, us_seqlen s)] else us_groups s)"

definition uid_step :: "'u uid_scan \<Rightarrow> nat \<times> int \<times> 'u option \<Rightarrow> 'u uid_scan" where
  "uid_step s x = (case x of (i, seqlen, uid) \<Rightarrow>
     if uid \<noteq> us_uid s
     then \<lparr>us_groups = uid_flush s, us_uid = uid, us_indices = [i], us_seqlen = seqlen\<rparr>
     else s\<lparr>us_indices := us_indices s @ [i], us_seqlen := us_seqlen s + seqlen\<rparr>)"

definition uid_groups :: "int list \<Rightarrow> 'u option list \<Rightarrow> (nat list \<times> int) list" where
  "uid_groups seqlen_list uid_list = uid_flush (foldl uid_step
     \<lparr>us_groups = [], us_uid = None, us_indices = [], us_seqlen = 0\<rparr>
     (enumerate 0 (zip seqlen_list uid_list)))"

text \<open>\<open>int(calculate_workload(torch.tensor([seqlen])).item())\<close>.\<close>

definition sample_workload :: "int \<Rightarrow> int result" where
  "sample_workload seqlen =
     (if seqlen < - (2 ^ 63) \<or> 2 ^ 63 \<le> seqlen then Inl (RuntimeError ''Overflow when unpacking long'')
      else Inr (sint (hd (calculate_workload [word_of_int seqlen]))))"

definition get_group_balanced_partitions ::
  "int list \<Rightarrow> 'u option list \<Rightarrow> nat \<Rightarrow> nat list list result" where
  "get_group_balanced_partitions seqlen_list uid_list k =
     guard_assert (length seqlen_list = length uid_list)
       (let groups = uid_groups seqlen_list uid_list in
        guard_assert (k \<le> length groups)
          (rbind (rmap (\<lambda>(indices, total). rbind (rmap (\<lambda>i. sample_workload (seqlen_list ! i)) indices)
                     (\<lambda>ws. Inr (sum_list ws))) groups) (\<lambda>group_workloads.
           rbind (get_seqlen_balanced_partitions group_workloads k True) (\<lambda>group_partitions.
           Inr (map (\<lambda>gp. sort (concat (map (\<lambda>j. fst (groups ! j)) gp))) group_partitions)))))"

subsection \<open>\<open>log_seqlen_unbalance\<close>\<close>

record unbalance =
  ub_min :: int
  ub_max :: int
  ub_minmax_diff :: int
  ub_balanced_min :: int
  ub_balanced_max :: int
  ub_mean :: rat

function chunk_sums :: "nat \<Rightarrow> int list \<Rightarrow> int list" where
  "chunk_sums bs xs =
     (if xs = [] \<or> bs = 0 then [] else sum_list (take bs xs) # chunk_sums bs (drop bs xs))"
  by pat_completeness auto
termination by (relation "measure (\<lambda>(bs, xs). length xs)") auto

declare chunk_sums.simps [simp del]

definition list_min_max :: "int list \<Rightarrow> int \<times> int" where
  "list_min_max xs = (foldl min (hd xs) (tl xs), foldl max (hd xs) (tl xs))"

definition log_seqlen_unbalance :: "int list \<Rightarrow> nat list list \<Rightarrow> unbalance result" where
  "log_seqlen_unbalance seqlen_list partitions =
     (if partitions = [] then Inl ZeroDivisionError
      else let batch_size = length seqlen_list div length partitions in
        if batch_size = 0 then Inl (ValueError ''range() arg 3 must not be zero'')
        else rbind (rmap (\<lambda>p. rbind (rmap (list_get seqlen_list) p) (\<lambda>xs. Inr (sum_list xs))) partitions)
          (\<lambda>balanced.
            let psums = chunk_sums batch_size seqlen_list; (mn, mx) = list_min_max psums;
                (bmn, bmx) = list_min_max balanced
            in Inr \<lparr>ub_min = mn, ub_max = mx, ub_minmax_diff = mx - mn, ub_balanced_min = bmn,
                 ub_balanced_max = bmx,
                 ub_mean = of_int (sum_list psums) / of_nat (length partitions)\<rparr>))"

subsection \<open>Micro-batches are a partition\<close>

lemma every_nth_two_mset: "mset (every_nth 2 xs) + mset (every_nth 2 (drop 1 xs)) = mset xs"
  by (induction xs) (auto simp: add.commute)

lemma balance_ends_mset: "mset (balance_ends w g ps) = mset ps"
  using every_nth_two_mset [of "rev (sort_key (partition_key w g) (rev ps))"]
  by (simp add: balance_ends_def Let_def)

lemma concat_mset_cong: "mset xss = mset yss \<Longrightarrow> mset (concat xss) = mset (concat yss)"
  unfolding sum_list_concat_mset by (rule sum_list_mset_cong)

lemma concat_upt_blocks: "concat (map (\<lambda>j. [j * g..<j * g + g]) [0..<m]) = [0..<m * g]"
proof (induction m)
  case (Suc m)
  have "[0..<m * g + g] = [0..<m * g] @ [m * g..<m * g + g]" by (rule upt_add_eq_append) simp
  with Suc show ?case by (simp add: add.commute)
qed simp

lemma expand_groups_parts:
  assumes "get_seqlen_balanced_partitions w k False = Inr ps"
  shows "mset (concat (map (expand_groups g) ps)) = mset [0..<length w * g]"
proof -
  let ?items = "map (\<lambda>j. [j * g..<j * g + g]) [0..<length w]"
  have "map (expand_groups g) ps = map (\<lambda>p. concat (map ((!) ?items) p)) ps"
  proof (intro map_cong refl)
    fix p
    assume "p \<in> set ps"
    then have "\<forall>j \<in> set p. j < length w"
      using kk_part.part_set [OF assms] by auto
    then show "expand_groups g p = concat (map ((!) ?items) p)"
      unfolding expand_groups_def by (intro arg_cong [where f = concat] map_cong) auto
  qed
  then show ?thesis
    using kk_part.part_items [OF assms, of ?items] by (simp only: concat_upt_blocks) simp
qed

text \<open>What \<open>rearrange_micro_batches\<close> has done when it returns.\<close>

lemma rearrange_micro_batches_Inr:
  assumes r: "rearrange_micro_batches batch cfg = Inr (mbs, idx)"
  obtains w :: "int list" and n :: int where
    "num_micro_batches cfg (sint (tensor_sum (seq_len_effective (tb_seq batch))))
       (length (seq_len_effective (tb_seq batch)) div force_group_size cfg) = Inr n"
    "0 < n" "length idx = nat n" "length w * force_group_size cfg = length (seq_len_effective (tb_seq batch))"
    "rmap (rmap (list_get (tb_rows batch))) idx = Inr mbs"
    "mset (concat idx) = mset [0..<length (seq_len_effective (tb_seq batch))]"
    "\<forall>p \<in> set idx. p \<noteq> []"
proof -
  let ?g = "force_group_size cfg" and ?lens = "seq_len_effective (tb_seq batch)"
  define w where "w = (if 1 < ?g then group_workloads (length ?lens div ?g) ?g (calculate_workload ?lens)
     else tolist (calculate_workload ?lens))"
  from r obtain n parts where
    g: "?g \<noteq> 0" "length ?lens mod ?g = 0" and
    n: "num_micro_batches cfg (sint (tensor_sum ?lens)) (length ?lens div ?g) = Inr n" and
    p: "get_seqlen_balanced_partitions w (nat n) False = Inr parts" and
    m: "rmap (rmap (list_get (tb_rows batch))) idx = Inr mbs" and
    idx: "idx = (let ps = (if 1 < ?g then map (expand_groups ?g) parts else parts) in
      if use_dynamic_bsz_balance cfg then balance_ends w ?g ps else ps)"
    unfolding rearrange_micro_batches_def Let_def w_def
    by (auto simp: rbind_Inr_iff guard_assert_Inr_iff split: if_split_asm)
  have len: "length w * ?g = length ?lens"
    using g by (auto simp: w_def group_workloads_def tolist_def calculate_workload_def)
  let ?ps = "if 1 < ?g then map (expand_groups ?g) parts else parts"
  have "mset idx = mset ?ps" unfolding idx Let_def by (simp only: balance_ends_mset split: if_split) simp
  have "mset (concat ?ps) = mset [0..<length ?lens]"
  proof (cases "1 < ?g")
    case True
    then show ?thesis using expand_groups_parts [OF p, of ?g] len by simp
  next
    case False
    with g(1) have "length w = length ?lens" using len by (cases ?g) auto
    with False show ?thesis using kk_part.part_sound [OF p] by (simp add: balanced_parts_def)
  qed
  then have cover: "mset (concat idx) = mset [0..<length ?lens]"
    using concat_mset_cong [OF \<open>mset idx = mset ?ps\<close>] by simp
  have ne: "\<forall>q \<in> set idx. q \<noteq> []"
  proof
    fix q
    assume "q \<in> set idx"
    then have "q \<in> set ?ps" using mset_eq_setD [OF \<open>mset idx = mset ?ps\<close>] by simp
    then obtain p0 where "p0 \<in> set parts" "q = (if 1 < ?g then expand_groups ?g p0 else p0)"
      by (auto split: if_splits)
    with kk_part.part_nonempty [OF p] g(1) show "q \<noteq> []"
      by (cases p0) (auto simp: expand_groups_def)
  qed
  have k: "0 < n" "length parts = nat n"
    using get_seqlen_balanced_partitions_sound [OF p] by (auto simp: balanced_parts_def)
  have "length idx = nat n" using k(2) mset_eq_length [OF \<open>mset idx = mset ?ps\<close>] by simp
  from that [OF n k(1) this len m cover ne] show thesis .
qed

subsection \<open>The inverse index\<close>

lemma reverse_idx_loop_total:
  assumes "set idx \<subseteq> {..<length r}" "distinct idx"
  shows "\<exists>r'. reverse_idx_loop r i idx = Inr r' \<and> length r' = length r \<and>
    (\<forall>j<length idx. r' ! (idx ! j) = i + j) \<and> (\<forall>x. x \<notin> set idx \<longrightarrow> r' ! x = r ! x)"
  using assms
proof (induction idx arbitrary: r i)
  case (Cons x idx)
  then obtain r' where r': "reverse_idx_loop (r[x := i]) (Suc i) idx = Inr r'" "length r' = length r"
    "\<forall>j<length idx. r' ! (idx ! j) = Suc i + j" "\<forall>y. y \<notin> set idx \<longrightarrow> r' ! y = r[x := i] ! y"
    using Cons.IH [of "r[x := i]" "Suc i"] by auto
  moreover have "r' ! ((x # idx) ! j) = i + j" if "j < length (x # idx)" for j
    using that r'(3,4) Cons.prems by (cases j) auto
  ultimately show ?case using Cons.prems by auto
qed simp

lemma get_reverse_idx_perm:
  assumes "mset idx = mset [0..<n]"
  shows "\<exists>r. get_reverse_idx idx = Inr r \<and> length r = n \<and> (\<forall>j<n. r ! j < n \<and> idx ! (r ! j) = j)"
proof -
  have d: "distinct idx" using assms mset_eq_imp_distinct_iff [of idx "[0..<n]"] by simp
  have s: "set idx = {..<n}" using mset_eq_setD [OF assms] by (simp add: lessThan_atLeast0)
  have l: "length idx = n" using mset_eq_length [OF assms] by simp
  obtain r where r: "get_reverse_idx idx = Inr r" "length r = n" "\<forall>j<n. r ! (idx ! j) = j"
    using reverse_idx_loop_total [of idx idx 0] d s l by (auto simp: get_reverse_idx_def)
  have "r ! j < n \<and> idx ! (r ! j) = j" if "j < n" for j
  proof -
    from that s l obtain i where "i < n" "idx ! i = j" by (metis in_set_conv_nth lessThan_iff)
    with r(3) show ?thesis by auto
  qed
  with r show ?thesis by blast
qed

lemma restore_perm:
  assumes "mset (concat idx) = mset [0..<length rows]"
  shows "restore_dynamic_batch (map ((!) rows) (concat idx)) idx = Inr rows"
proof -
  let ?n = "length rows"
  have l: "length (concat idx) = ?n" using mset_eq_length [OF assms] by simp
  from get_reverse_idx_perm [OF assms] obtain r where r: "get_reverse_idx (concat idx) = Inr r"
    "length r = ?n" "\<forall>j<?n. r ! j < ?n \<and> concat idx ! (r ! j) = j" by blast
  have "set r \<subseteq> {..<length (map ((!) rows) (concat idx))}"
    using r(2,3) l by (auto simp: in_set_conv_nth)
  then have "rmap (list_get (map ((!) rows) (concat idx))) r = Inr (map ((!) (map ((!) rows) (concat idx))) r)"
    by (rule rmap_list_get)
  moreover have "map ((!) (map ((!) rows) (concat idx))) r = rows"
    using r(2,3) l by (intro nth_equalityI) auto
  ultimately show ?thesis by (simp add: restore_dynamic_batch_def Let_def r l)
qed

lemma rmap_rows_Inr:
  assumes "rmap (rmap (list_get rows)) idx = Inr mbs"
  shows "mbs = map (map ((!) rows)) idx"
proof -
  have one: "ys = map ((!) rows) js" if "rmap (list_get rows) js = Inr ys" for js ys
    using that by (induction js arbitrary: ys) (auto simp: rbind_Inr_iff list_get_def split: if_splits)
  show ?thesis using assms
    by (induction idx arbitrary: mbs) (auto simp: rbind_Inr_iff dest!: one)
qed

text \<open>
  Dynamic batching loses nothing and can be undone: when \<open>rearrange_micro_batches\<close> returns,
  the index lists cover every sample exactly once, no micro-batch is empty, every micro-batch
  holds the samples its index list names, and \<open>restore_dynamic_batch\<close> of the concatenated
  micro-batches gives the original order back.
\<close>

theorem rearrange_restore_roundtrip:
  assumes "rearrange_micro_batches batch cfg = Inr (mbs, idx)"
    and "length (tb_rows batch) = length (seq_len_effective (tb_seq batch))"
  shows "mset (concat idx) = mset [0..<length (tb_rows batch)] \<and>
    list_all (\<lambda>p. p \<noteq> []) idx \<and> mbs = map (map ((!) (tb_rows batch))) idx \<and>
    restore_dynamic_batch (concat mbs) idx = Inr (tb_rows batch)"
proof (rule rearrange_micro_batches_Inr [OF assms(1)])
  assume m: "rmap (rmap (list_get (tb_rows batch))) idx = Inr mbs"
    and c: "mset (concat idx) = mset [0..<length (seq_len_effective (tb_seq batch))]"
    and ne: "\<forall>p \<in> set idx. p \<noteq> []"
  have mbs: "mbs = map (map ((!) (tb_rows batch))) idx" by (rule rmap_rows_Inr [OF m])
  have "restore_dynamic_batch (map ((!) (tb_rows batch)) (concat idx)) idx = Inr (tb_rows batch)"
    by (rule restore_perm) (simp only: c assms(2))
  with c ne mbs assms(2) show ?thesis by (simp add: list_all_iff map_concat)
qed

text \<open>A configuration with no pipeline, no divisor and no peers, as the actor uses it.\<close>

definition plain_config :: "int \<Rightarrow> mb_config" where
  "plain_config m = \<lparr>max_token_len = m, dp_peers = None, num_batches_divided_by = None,
     min_num_micro_batch = None, use_dynamic_bsz_balance = True, force_group_size = 1\<rparr>"

theorem rearrange_restore_roundtrip_witness:
  "restore_dynamic_batch (concat [''ab'', ''c'']) [[0, 1], [2]] = Inr ''abc''"
proof -
  have "rearrange_micro_batches \<lparr>tb_seq = Nested [0, 6, 12, 18], tb_rows = ''abc''\<rparr> (plain_config 10) =
      Inr ([''ab'', ''c''], [[0, 1], [2]])"
    by code_simp
  from rearrange_restore_roundtrip [OF this] show ?thesis by simp
qed

text \<open>
  The number of micro-batches is the ceiling of tokens over \<open>max_token_len\<close>, but nothing
  splits the batch by tokens: with three samples of six tokens and a limit of ten, the first
  micro-batch holds two samples, twelve tokens, above the limit the documentation of
  \<open>max_token_len\<close> states.
\<close>

theorem rearrange_exceeds_max_token_len:
  "\<exists>mbs idx p. rearrange_micro_batches \<lparr>tb_seq = Nested [0, 6, 12, 18], tb_rows = [6, 6, 6 :: int]\<rparr>
      (plain_config 10) = Inr (mbs, idx) \<and> p \<in> set mbs \<and> sum_list p = 12 \<and> 10 < sum_list p"
proof -
  have "rearrange_micro_batches \<lparr>tb_seq = Nested [0, 6, 12, 18], tb_rows = [6, 6, 6 :: int]\<rparr>
      (plain_config 10) = Inr ([[6, 6], [6]], [[0, 1], [2]])"
    by code_simp
  then show ?thesis by (intro exI [of _ "[[6, 6], [6]]"] exI [of _ "[[0, 1], [2]]"] exI [of _ "[6, 6]"]) simp
qed

subsection \<open>Workloads and counts\<close>

lemma workload_exact:
  assumes "0 \<le> sint x" "sint x < 2 ^ 31"
  shows "sint (24576 * x + x ^ 2 :: 64 word) = 24576 * sint x + (sint x) ^ 2"
proof -
  let ?v = "24576 * sint x + (sint x) ^ 2"
  have eq: "24576 * x + x ^ 2 = (word_of_int ?v :: 64 word)"
    by (simp add: wi_hom_syms power2_eq_square)
  have lo: "0 \<le> ?v" using assms by simp
  have hi: "?v < 2 ^ 63"
  proof -
    have "(sint x) ^ 2 \<le> (2 ^ 31) ^ 2" using assms by (intro power_mono) auto
    with assms show ?thesis by simp
  qed
  show ?thesis unfolding eq sint_sbintrunc'
    using lo hi by (intro signed_take_bit_int_eq_self) simp_all
qed

lemma ceildiv_least:
  assumes "0 < b" "ceildiv a b = Inr c"
  shows "a \<le> c * b" "a \<le> c' * b \<Longrightarrow> c \<le> c'"
proof -
  have c: "c = - (- a div b)" using assms by (simp add: ceildiv_def div_minus_right)
  show "a \<le> c * b" using assms(1) c 
    by (smt (verit) minus_mult_left pos_mod_sign minus_mod_eq_div_mult)
  show "c \<le> c'" if "a \<le> c' * b" using that assms(1) c 
    by (smt (verit) minus_mult_left zdiv_mono1 nonzero_mult_div_cancel_right)
qed

lemma roundup_least:
  assumes "0 < b" "roundup_divisible a b = Inr c"
  shows "b dvd c" "a \<le> c" "b dvd c' \<Longrightarrow> a \<le> c' \<Longrightarrow> c \<le> c'"
proof -
  have c: "c = (a + b - 1) div b * b" using assms by (simp add: roundup_divisible_def)
  show "b dvd c" using c by simp
  show "a \<le> c" using c assms(1) 
    by (smt (verit) minus_mod_eq_div_mult pos_mod_bound)
  show "c \<le> c'" if c': "b dvd c'" "a \<le> c'"
  proof -
    from c' obtain q where q: "c' = q * b" by (metis dvd_def mult.commute)
    have "(a + b - 1) div b \<le> ((b - 1) + q * b) div b"
      using that q assms(1) by (intro zdiv_mono1) auto
    also have "\<dots> = q" using assms(1) by simp
    finally have "(a + b - 1) div b \<le> q" .
    then show ?thesis using c q assms(1) by (simp add: mult_right_mono)
  qed
qed

text \<open>
  The upcast to int64 before the workload estimate is enough: for lengths below \<open>2 ^ 31\<close> the
  estimate \<open>24576 n + n^2\<close> does not wrap, so the values handed to the partitioner are the exact,
  non-negative workloads.
\<close>

theorem calculate_workload_exact:
  assumes "list_all (\<lambda>x. 0 \<le> sint x \<and> sint x < 2 ^ 31) xs"
  shows "tolist (calculate_workload xs) = map (\<lambda>x. 24576 * x + x ^ 2) (tolist xs)"
  using assms by (simp add: tolist_def calculate_workload_def list_all_iff workload_exact)

theorem calculate_workload_exact_witness:
  "tolist (calculate_workload [131072, 7]) = [20401094656, 172081]"
proof -
  have "tolist (calculate_workload [131072, 7]) = map (\<lambda>x. 24576 * x + x ^ 2) (tolist [131072, 7])"
    by (rule calculate_workload_exact) simp
  then show ?thesis by (simp add: tolist_def)
qed

text \<open>
  Dynamic batching does not fail on a batch that fits: if every sample is non-negative and
  below \<open>2 ^ 31\<close>, there is at least one token and no sample is longer than \<open>max_token_len\<close>, it
  returns, and the number of micro-batches is the ceiling of tokens over \<open>max_token_len\<close>, capped
  by the batch size.
\<close>

theorem rearrange_total:
  assumes "list_all (\<lambda>x. 0 \<le> sint x \<and> sint x < 2 ^ 31) (seq_len_effective (tb_seq batch))"
    and "0 < sint (tensor_sum (seq_len_effective (tb_seq batch)))"
    and "max_seq_len (tb_seq batch) = Inr m" "m \<le> M" "0 < M"
    and "length (tb_rows batch) = length (seq_len_effective (tb_seq batch))"
  shows "\<exists>mbs idx. rearrange_micro_batches batch (plain_config M) = Inr (mbs, idx) \<and>
    int (length mbs) = min (int (length (tb_rows batch)))
      (- (- sint (tensor_sum (seq_len_effective (tb_seq batch))) div M))"
proof -
  let ?lens = "seq_len_effective (tb_seq batch)" and ?total = "sint (tensor_sum (seq_len_effective (tb_seq batch)))"
  let ?w = "tolist (calculate_workload ?lens)" and ?n = "min (int (length ?lens)) (- (- ?total div M))"
  have ne: "?lens \<noteq> []" using assms(2) by (auto simp: tensor_sum_def)
  have "- ?total div M < 0" using assms(2,5) by (subst pos_imp_zdiv_neg_iff) simp_all
  then have n: "0 < ?n" using ne by simp
  have cnt: "num_micro_batches (plain_config M) ?total (length ?lens) = Inr ?n"
    using assms(5) by (simp add: num_micro_batches_def plain_config_def ceildiv_def div_minus_right)
  have "?w = map (\<lambda>x. 24576 * x + x ^ 2) (tolist ?lens)"
    using assms(1) by (simp add: tolist_def calculate_workload_def list_all_iff workload_exact)
  then have nn: "\<forall>v \<in> set ?w. 0 \<le> v" using assms(1) by (auto simp: tolist_def list_all_iff)
  have lw: "length ?w = length ?lens" by (simp add: tolist_def calculate_workload_def)
  have k: "0 < nat ?n" "nat ?n \<le> length ?w" using n lw by auto
  from get_seqlen_balanced_partitions_total [OF k nn] obtain ps where
    ps: "get_seqlen_balanced_partitions ?w (nat ?n) False = Inr ps"
    "balanced_parts (length ?w) (nat ?n) ps" by blast
  let ?idx = "balance_ends ?w 1 ps"
  have "set (concat ?idx) = set (concat ps)"
    by (rule mset_eq_setD [OF concat_mset_cong [OF balance_ends_mset]])
  also have "\<dots> = {..<length ?lens}" using kk_part.part_set [OF ps(1)] lw by simp
  finally have "rmap (rmap (list_get (tb_rows batch))) ?idx = Inr (map (map ((!) (tb_rows batch))) ?idx)"
    using assms(6) by (intro rmap_total rmap_list_get) auto
  then have "rearrange_micro_batches batch (plain_config M) =
      Inr (map (map ((!) (tb_rows batch))) ?idx, ?idx)"
    using cnt ps(1) assms(3,4)
    by (simp add: rearrange_micro_batches_def plain_config_def Let_def)
  moreover have "length ?idx = nat ?n"
    using mset_eq_length [OF balance_ends_mset [of ?w 1 ps]] ps(2) by (simp add: balanced_parts_def)
  ultimately show ?thesis using n assms(6) by auto
qed

theorem rearrange_total_witness:
  "\<exists>mbs idx. rearrange_micro_batches \<lparr>tb_seq = Nested [0, 6, 12, 18], tb_rows = ''abc''\<rparr> (plain_config 10) =
     Inr (mbs, idx) \<and> int (length mbs) = 2"
proof -
  let ?b = "\<lparr>tb_seq = Nested [0, 6, 12, 18], tb_rows = ''abc''\<rparr>"
  have "max_seq_len (tb_seq ?b) = Inr 6" by code_simp
  with rearrange_total [of ?b 6 10] show ?thesis by (simp add: tensor_sum_def)
qed

subsection \<open>Groups of a prompt\<close>

text \<open>
  The scan keeps: the finished groups cover the samples before \<open>s\<close>, the open group is
  \<open>[s..<t]\<close> with one uid, and every run of equal uids lies inside one group.
\<close>

definition uid_run :: "'u option list \<Rightarrow> nat \<Rightarrow> nat \<Rightarrow> bool" where
  "uid_run uids i l \<longleftrightarrow> (\<forall>j. i \<le> j \<and> j \<le> l \<longrightarrow> uids ! j = uids ! i)"

definition uid_scan_inv :: "'u option list \<Rightarrow> nat \<Rightarrow> nat \<Rightarrow> 'u uid_scan \<Rightarrow> bool" where
  "uid_scan_inv uids t s st \<longleftrightarrow>
     s \<le> t \<and> (0 < t \<longrightarrow> s < t) \<and> concat (map fst (us_groups st)) = [0..<s] \<and> us_indices st = [s..<t] \<and>
     (\<forall>j. s \<le> j \<and> j < t \<longrightarrow> uids ! j = us_uid st) \<and> (0 < s \<longrightarrow> uids ! (s - 1) \<noteq> us_uid st) \<and>
     (\<forall>i l. i \<le> l \<and> l < s \<and> uid_run uids i l \<longrightarrow>
       (\<exists>g \<in> set (us_groups st). i \<in> set (fst g) \<and> l \<in> set (fst g)))"

lemma uid_run_open:
  assumes inv: "uid_scan_inv uids t s st" and "i \<le> l" "l < t" "s \<le> l" "uid_run uids i l"
  shows "s \<le> i"
proof (rule ccontr)
  assume "\<not> s \<le> i"
  then have i: "i \<le> s - 1" "s - 1 \<le> l" "0 < s" using assms(4) by auto
  have "uids ! (s - 1) = uids ! i" using assms(5) i unfolding uid_run_def by blast
  moreover have "uids ! l = uids ! i" using assms(2,5) unfolding uid_run_def by blast
  moreover have "uids ! l = us_uid st" using inv assms(3,4) unfolding uid_scan_inv_def by blast
  moreover have "uids ! (s - 1) \<noteq> us_uid st" using inv i(3) unfolding uid_scan_inv_def by blast
  ultimately show False by simp
qed

lemma uid_flush_inv:
  assumes inv: "uid_scan_inv uids t s st"
  shows "concat (map fst (uid_flush st)) = [0..<t] \<and>
    (\<forall>i l. i \<le> l \<and> l < t \<and> uid_run uids i l \<longrightarrow>
       (\<exists>g \<in> set (uid_flush st). i \<in> set (fst g) \<and> l \<in> set (fst g)))"
proof (intro conjI allI impI)
  have "[0..<t] = [0..<s] @ [s..<t]"
    using inv upt_add_eq_append [of 0 s "t - s"] by (simp add: uid_scan_inv_def)
  with inv show "concat (map fst (uid_flush st)) = [0..<t]"
    by (auto simp: uid_scan_inv_def uid_flush_def)
  fix i l
  assume il: "i \<le> l \<and> l < t \<and> uid_run uids i l"
  show "\<exists>g \<in> set (uid_flush st). i \<in> set (fst g) \<and> l \<in> set (fst g)"
  proof (cases "l < s")
    case True
    with inv il show ?thesis unfolding uid_scan_inv_def uid_flush_def by (auto split: if_splits)
  next
    case False
    with uid_run_open [OF inv] il have "s \<le> i" by auto
    with inv il have "(us_indices st, us_seqlen st) \<in> set (uid_flush st)"
      "i \<in> set (us_indices st)" "l \<in> set (us_indices st)"
      by (auto simp: uid_scan_inv_def uid_flush_def)
    then show ?thesis by force
  qed
qed

lemma uid_step_inv:
  assumes inv: "uid_scan_inv uids t s st"
  shows "\<exists>s'. uid_scan_inv uids (Suc t) s' (uid_step st (t, v, uids ! t))"
proof (cases "uids ! t = us_uid st")
  case True
  with inv have "uid_scan_inv uids (Suc t) s (uid_step st (t, v, uids ! t))"
    by (auto simp: uid_scan_inv_def uid_step_def less_Suc_eq)
  then show ?thesis ..
next
  case False
  have "0 < t \<longrightarrow> uids ! (t - 1) = us_uid st" using inv by (auto simp: uid_scan_inv_def)
  with False uid_flush_inv [OF inv] have "uid_scan_inv uids (Suc t) t (uid_step st (t, v, uids ! t))"
    by (auto simp: uid_scan_inv_def uid_step_def less_Suc_eq)
  then show ?thesis ..
qed

lemma uid_groups_spec:
  assumes "length vals = length uids"
  shows "concat (map fst (uid_groups vals uids)) = [0..<length uids]"
    and "i \<le> l \<Longrightarrow> l < length uids \<Longrightarrow> uid_run uids i l \<Longrightarrow>
      \<exists>g \<in> set (uid_groups vals uids). i \<in> set (fst g) \<and> l \<in> set (fst g)"
proof -
  let ?s0 = "\<lparr>us_groups = [], us_uid = None, us_indices = [], us_seqlen = 0\<rparr> :: 'a uid_scan"
  have "\<exists>s. uid_scan_inv uids t s (foldl uid_step ?s0 (enumerate 0 (take t (zip vals uids))))"
    if "t \<le> length uids" for t using that
  proof (induction t)
    case 0
    then show ?case by (auto simp: uid_scan_inv_def)
  next
    case (Suc t)
    then have "take (Suc t) (zip vals uids) = take t (zip vals uids) @ [(vals ! t, uids ! t)]"
      using assms by (simp add: take_Suc_conv_app_nth)
    moreover have "length (take t (zip vals uids)) = t" using Suc.prems assms by simp
    ultimately have "enumerate 0 (take (Suc t) (zip vals uids)) =
        enumerate 0 (take t (zip vals uids)) @ [(t, vals ! t, uids ! t)]"
      by (simp add: enumerate_append_eq)
    with Suc uid_step_inv show ?case by fastforce
  qed
  from this [of "length uids"] assms obtain s where
    "uid_scan_inv uids (length uids) s (foldl uid_step ?s0 (enumerate 0 (zip vals uids)))" by auto
  from uid_flush_inv [OF this] show
    "concat (map fst (uid_groups vals uids)) = [0..<length uids]"
    "i \<le> l \<Longrightarrow> l < length uids \<Longrightarrow> uid_run uids i l \<Longrightarrow>
      \<exists>g \<in> set (uid_groups vals uids). i \<in> set (fst g) \<and> l \<in> set (fst g)"
    unfolding uid_groups_def by blast+
qed

text \<open>
  Group-balanced partitions: whatever is returned is a partition of the samples in sorted
  lists, and two samples of a run of equal uids always land in the same part; so prompts whose
  samples are contiguous are never split.
\<close>

theorem group_partitions_keep_runs:
  assumes "get_group_balanced_partitions vals uids k = Inr ps"
  shows "mset (concat ps) = mset [0..<length uids] \<and> length ps = k \<and> list_all sorted ps \<and>
    (\<forall>i l. i \<le> l \<and> l < length uids \<and> uid_run uids i l \<longrightarrow> (\<exists>p \<in> set ps. i \<in> set p \<and> l \<in> set p))"
proof -
  let ?groups = "uid_groups vals uids"
  from assms obtain ws gps where len: "length vals = length uids" and lw: "length ws = length ?groups"
    and gps: "get_seqlen_balanced_partitions ws k True = Inr gps"
    and ps: "ps = map (\<lambda>gp. sort (concat (map (\<lambda>j. fst (?groups ! j)) gp))) gps"
    by (auto simp: get_group_balanced_partitions_def guard_assert_Inr_iff rbind_Inr_iff Let_def
        dest: rmap_Inr_length)
  note spec = uid_groups_spec [OF len]
  have idx: "\<forall>j \<in> set (concat gps). j < length ?groups"
    using kk_part.part_set [OF gps] lw by auto
  have part: "concat (map (\<lambda>gp. concat (map (\<lambda>j. fst (?groups ! j)) gp)) gps) =
      concat (map (\<lambda>gp. concat (map ((!) (map fst ?groups)) gp)) gps)"
    using idx by (intro arg_cong [where f = concat] map_cong) auto
  have "mset (concat ps) = mset (concat (map (\<lambda>gp. concat (map (\<lambda>j. fst (?groups ! j)) gp)) gps))"
    unfolding ps sum_list_concat_mset by (simp add: o_def)
  also have "\<dots> = mset (concat (map fst ?groups))"
    unfolding part by (rule kk_part.part_items [OF gps]) (simp add: lw)
  finally have "mset (concat ps) = mset [0..<length uids]" by (simp only: spec(1))
  moreover have "\<exists>p \<in> set ps. i \<in> set p \<and> l \<in> set p"
    if il: "i \<le> l" "l < length uids" "uid_run uids i l" for i l
  proof -
    from spec(2) [OF il] obtain j where j: "j < length ?groups"
      "i \<in> set (fst (?groups ! j))" "l \<in> set (fst (?groups ! j))" by (metis in_set_conv_nth)
    with kk_part.part_set [OF gps] lw obtain gp where "gp \<in> set gps" "j \<in> set gp" by auto
    with j show ?thesis by (auto simp: ps)
  qed
  moreover have "length ps = k \<and> list_all sorted ps"
    using kk_part.part_sound [OF gps] by (simp add: ps balanced_parts_def list_all_iff)
  ultimately show ?thesis by blast
qed

theorem group_partitions_keep_runs_witness:
  "\<exists>p \<in> set [[2, 3], [0, 1 :: nat]]. 2 \<in> set p \<and> 3 \<in> set p"
proof -
  let ?uids = "[Some 7, Some 7, Some 8, Some (8 :: nat)]"
  have r: "get_group_balanced_partitions [1, 2, 3, 4] ?uids 2 = Inr [[2, 3], [0, 1]]"
    by code_simp
  have "uid_run ?uids 2 3" unfolding uid_run_def
  proof (intro allI impI)
    fix j :: nat
    assume "2 \<le> j \<and> j \<le> 3"
    then have "j = 2 \<or> j = 3" by linarith
    then show "?uids ! j = ?uids ! 2" by auto
  qed
  moreover have "(2 :: nat) \<le> 3 \<and> 3 < length ?uids" by simp
  ultimately show ?thesis using group_partitions_keep_runs [OF r] by blast
qed

subsection \<open>Micro-batches of a \<open>DataProto\<close>\<close>

lemma rmap_Inr_map:
  assumes "rmap f xs = Inr ys" "\<And>x y. x \<in> set xs \<Longrightarrow> f x = Inr y \<Longrightarrow> y = g x"
  shows "ys = map g xs"
  using assms by (induction xs arbitrary: ys) (auto simp: rbind_Inr_iff)

lemma list_get_Inr: "list_get xs i = Inr y \<Longrightarrow> y = xs ! i"
  by (simp add: list_get_def split: if_splits)

lemma rmap_list_get_Inr: "rmap (list_get xs) is = Inr ys \<Longrightarrow> ys = map ((!) xs) is"
  by (erule rmap_Inr_map) (rule list_get_Inr)

lemma select_columns_Inr:
  "rmap (\<lambda>(key, value). rbind (rmap (list_get value) p) (\<lambda>v. Inr (key, v))) cols = Inr ys \<Longrightarrow>
   ys = map (\<lambda>(key, v). (key, map ((!) v) p)) cols"
  by (erule rmap_Inr_map) (auto simp: rbind_Inr_iff dest: rmap_list_get_Inr)

definition select_proto :: "('a, 'b, 'm) data_proto \<Rightarrow> nat list \<Rightarrow> ('a, 'b, 'm) micro_proto" where
  "select_proto data p = \<lparr>mp_rows = map ((!) (tb_rows (dp_batch data))) p,
     mp_non_tensor = map (\<lambda>(key, v). (key, map ((!) v) p)) (dp_non_tensor data), mp_meta = dp_meta data\<rparr>"

text \<open>
  \<open>prepare_dynamic_batch\<close> keeps tensors and object arrays aligned: the i-th micro-batch
  holds, for the i-th index list, the selected rows, the same selection of every object array
  and the meta information; and the index lists cover the batch exactly once.
\<close>

theorem prepare_dynamic_batch_aligned:
  assumes "prepare_dynamic_batch data cfg = Inr (mps, idx)"
  shows "mps = map (select_proto data) idx \<and>
    mset (concat idx) = mset [0..<length (seq_len_effective (tb_seq (dp_batch data)))]"
proof -
  let ?cfg = "cfg\<lparr>force_group_size := 1\<rparr>"
  from assms obtain mbs where
    r: "rearrange_micro_batches (dp_batch data) ?cfg = Inr (mbs, idx)" and
    m: "rmap (\<lambda>(rows, batch_idx).
         rbind (rmap (\<lambda>(key, value). rbind (rmap (list_get value) batch_idx) (\<lambda>v. Inr (key, v)))
                 (dp_non_tensor data)) (\<lambda>non_tensors.
         Inr \<lparr>mp_rows = rows, mp_non_tensor = non_tensors, mp_meta = dp_meta data\<rparr>)) (zip mbs idx) = Inr mps"
    by (auto simp: prepare_dynamic_batch_def rbind_Inr_iff)
  have cover: "mset (concat idx) = mset [0..<length (seq_len_effective (tb_seq (dp_batch data)))]"
    and mbs: "mbs = map (map ((!) (tb_rows (dp_batch data)))) idx"
    by (rule rearrange_micro_batches_Inr [OF r], blast dest: rmap_rows_Inr)+
  have "mps = map (\<lambda>(rows, p). \<lparr>mp_rows = rows,
      mp_non_tensor = map (\<lambda>(key, v). (key, map ((!) v) p)) (dp_non_tensor data),
      mp_meta = dp_meta data\<rparr>) (zip mbs idx)"
    using m by (rule rmap_Inr_map) (auto simp: rbind_Inr_iff dest!: select_columns_Inr)
  then have "mps = map (select_proto data) idx"
    by (simp add: mbs zip_map1 select_proto_def zip_same_conv_map o_def)
  with cover show ?thesis by blast
qed

theorem prepare_dynamic_batch_aligned_witness:
  "\<exists>mps idx. prepare_dynamic_batch \<lparr>dp_batch = \<lparr>tb_seq = Nested [0, 6, 12, 18], tb_rows = ''abc''\<rparr>,
      dp_non_tensor = [(''uid'', [10, 11, 12 :: nat])], dp_meta = ()\<rparr> (plain_config 10) = Inr (mps, idx) \<and>
    map mp_non_tensor mps = [[(''uid'', [10, 11])], [(''uid'', [12])]]"
proof -
  let ?d = "\<lparr>dp_batch = \<lparr>tb_seq = Nested [0, 6, 12, 18], tb_rows = ''abc''\<rparr>,
      dp_non_tensor = [(''uid'', [10, 11, 12 :: nat])], dp_meta = ()\<rparr>"
  have "map_sum id snd (prepare_dynamic_batch ?d (plain_config 10)) = Inr [[0, 1], [2]]"
    by code_simp
  then obtain mps where r: "prepare_dynamic_batch ?d (plain_config 10) = Inr (mps, [[0, 1], [2]])"
    by (cases "prepare_dynamic_batch ?d (plain_config 10)") auto
  from prepare_dynamic_batch_aligned [OF r] have "mps = map (select_proto ?d) [[0, 1], [2]]" by blast
  with r show ?thesis by (simp add: select_proto_def)
qed

end
