(* ===== verification/GreedyBalance.thy ===== *)
theory GreedyBalance
  imports SeqBalance
begin

text \<open>
  Correctness of \<open>greedy_partition\<close> (defined in SeqBalance): the scan finds a partition of least
  sum, the assignment loop keeps the recorded sums equal to the sums of the parts, and the bias
  of the equal-size mode makes the sums order the parts by their sizes.
\<close>

lemma greedy_scan_least:
  assumes "set js \<subseteq> {..<k}" "case acc of None \<Rightarrow> js \<noteq> [] | Some m \<Rightarrow> m < k"
  shows "\<exists>m. greedy_scan ps k acc js = Some m \<and> m < k \<and> (\<forall>j \<in> set js. ps ! m \<le> ps ! j) \<and>
    (case acc of None \<Rightarrow> True | Some m0 \<Rightarrow> ps ! m \<le> ps ! m0)"
  using assms
proof (induction js arbitrary: acc)
  case (Cons j js)
  define acc' where "acc' = (case acc of None \<Rightarrow> j | Some m \<Rightarrow> if ps ! j < ps ! m then j else m)"
  have "acc' < k" using Cons.prems by (auto simp: acc'_def split: option.splits)
  then obtain m where "greedy_scan ps k (Some acc') js = Some m" "m < k"
    "\<forall>j \<in> set js. ps ! m \<le> ps ! j" "ps ! m \<le> ps ! acc'"
    using Cons.IH [of "Some acc'"] Cons.prems by auto
  moreover have "greedy_scan ps k acc (j # js) = greedy_scan ps k (Some acc') js"
    by (cases acc) (auto simp: acc'_def)
  moreover have "ps ! acc' \<le> ps ! j" by (auto simp: acc'_def split: option.splits)
  moreover have "case acc of None \<Rightarrow> True | Some m0 \<Rightarrow> ps ! acc' \<le> ps ! m0"
    by (auto simp: acc'_def split: option.splits)
  ultimately show ?case by (auto split: option.splits)
qed (auto split: option.splits)

text \<open>The state of the assignment loop, \<open>f i\<close> being the (biased) value of item \<open>i\<close>.\<close>

definition greedy_inv :: "(nat \<Rightarrow> int) \<Rightarrow> nat \<Rightarrow> nat list list \<Rightarrow> int list \<Rightarrow> bool" where
  "greedy_inv f k ps tot \<longleftrightarrow> length ps = k \<and> length tot = k \<and>
     (\<forall>j<k. tot ! j = (\<Sum>i\<leftarrow>ps ! j. f i))"

lemma concat_update_mset:
  "m < length ps \<Longrightarrow> mset (concat (ps[m := ps ! m @ [i]])) = add_mset i (mset (concat ps))"
  by (induction ps arbitrary: m) (auto split: nat.splits)

lemma greedy_assign_run:
  assumes "greedy_inv f k ps tot" "0 < k" "\<forall>x \<in> set items. fst x = f (snd x)" "Q items ps"
    and step: "\<And>ps tot m x rest. greedy_inv f k ps tot \<Longrightarrow> Q (x # rest) ps \<Longrightarrow> m < k \<Longrightarrow>
      (\<forall>j<k. tot ! m \<le> tot ! j) \<Longrightarrow> Q rest (ps[m := ps ! m @ [snd x]])"
  shows "\<exists>ps' tot'. greedy_assign k items ps tot = Inr (ps', tot') \<and> greedy_inv f k ps' tot' \<and> Q [] ps'"
  using assms(1-4)
proof (induction items arbitrary: ps tot)
  case (Cons x items)
  obtain v i where x: "x = (v, i)" by force
  obtain m where m: "greedy_scan tot k None [0..<k] = Some m" "m < k" "\<forall>j<k. tot ! m \<le> tot ! j"
    using greedy_scan_least [of "[0..<k]" k None tot] Cons.prems(2) by (auto simp: lessThan_atLeast0)
  let ?ps = "ps[m := ps ! m @ [i]]" and ?tot = "tot[m := tot ! m + v]"
  have lp: "length ps = k" "length tot = k" using Cons.prems(1) by (simp_all add: greedy_inv_def)
  have inv: "greedy_inv f k ?ps ?tot"
    using Cons.prems(1,3) m(2) by (auto simp: greedy_inv_def x nth_list_update)
  have "Q items ?ps" using step [OF Cons.prems(1,4) m(2,3)] by (simp add: x)
  with Cons.IH [OF inv Cons.prems(2)] Cons.prems(3) obtain ps' tot' where
    "greedy_assign k items ?ps ?tot = Inr (ps', tot')" "greedy_inv f k ps' tot'" "Q [] ps'" by force
  with m(1) show ?case by (simp add: x)
qed auto

subsection \<open>Sizes\<close>

lemma biased_sum_bounds:
  fixes f :: "nat \<Rightarrow> int"
  assumes "\<forall>i \<in> set p. f i = v i + b" "\<forall>i \<in> set p. 0 \<le> v i" "(\<Sum>i\<leftarrow>p. v i) < b"
  shows "b * int (length p) \<le> (\<Sum>i\<leftarrow>p. f i)" "(\<Sum>i\<leftarrow>p. f i) < b * (int (length p) + 1)"
proof -
  have "(\<Sum>i\<leftarrow>p. f i) = (\<Sum>i\<leftarrow>p. v i) + b * int (length p)"
    using assms(1) by (induction p) (auto simp: algebra_simps)
  moreover have "0 \<le> (\<Sum>i\<leftarrow>p. v i)" using assms(2) by (intro sum_list_nonneg) auto
  ultimately show "b * int (length p) \<le> (\<Sum>i\<leftarrow>p. f i)" "(\<Sum>i\<leftarrow>p. f i) < b * (int (length p) + 1)"
    using assms(3) by (auto simp: algebra_simps)
qed

lemma balanced_counts_equal:
  fixes c :: "nat list"
  assumes "\<forall>x \<in> set c. \<forall>y \<in> set c. x \<le> y + 1" "sum_list c = length c * q" "x \<in> set c"
  shows "x = q"
proof (rule ccontr)
  assume ne: "x \<noteq> q"
  have lt: "length c * m < sum_list c" if "\<forall>y \<in> set c. m \<le> y" "\<exists>y \<in> set c. m < y" for m
    using that
  proof (induction c)
    case (Cons a c)
    then have "length c * m \<le> sum_list c" using sum_list_mono [of c "\<lambda>_. m" "\<lambda>y. y"]
      by (simp add: sum_list_triv)
    with Cons show ?case by (cases "m < a") fastforce+
  qed simp
  have gt: "sum_list c < length c * m" if "\<forall>y \<in> set c. y \<le> m" "\<exists>y \<in> set c. y < m" for m
    using that
  proof (induction c)
    case (Cons a c)
    then have "sum_list c \<le> length c * m" using sum_list_mono [of c "\<lambda>y. y" "\<lambda>_. m"]
      by (simp add: sum_list_triv)
    with Cons show ?case by (cases "a < m") fastforce+
  qed simp
  show False
  proof (cases "q < x")
    case True
    then have "\<forall>y \<in> set c. q \<le> y" using assms(1,3) by fastforce
    with lt [of q] True assms(2,3) show False by fastforce
  next
    case False
    then have "\<forall>y \<in> set c. y \<le> q" using assms(1,3) ne by fastforce
    with gt [of q] False ne assms(2,3) show False by fastforce
  qed
qed

text \<open>What the loop keeps: nothing is lost, and with a bias the sizes stay within one.\<close>

definition greedy_keeps :: "int list \<Rightarrow> bool \<Rightarrow> nat \<Rightarrow> (int \<times> nat) list \<Rightarrow> nat list list \<Rightarrow> bool" where
  "greedy_keeps vals e k rest ps \<longleftrightarrow>
     mset (concat ps) + mset (map snd rest) = mset [0..<length vals] \<and>
     (e \<longrightarrow> (\<forall>i<k. \<forall>j<k. length (ps ! i) \<le> length (ps ! j) + 1))"

lemma sum_mset_nonneg_int: "(\<And>i. i \<in># M \<Longrightarrow> 0 \<le> f i) \<Longrightarrow> 0 \<le> (\<Sum>i\<in>#M. f i :: int)"
  by (induction M) (auto intro: add_nonneg_nonneg)

lemma part_sum_le_total:
  fixes vals :: "int list"
  assumes nn: "\<forall>v \<in> set vals. 0 \<le> v" and "j < length ps" "mset (concat ps) \<subseteq># mset [0..<length vals]"
  shows "(\<Sum>i\<leftarrow>ps ! j. vals ! i) \<le> sum_list vals" "\<forall>i \<in> set (ps ! j). 0 \<le> vals ! i"
proof -
  have "mset (ps ! j) \<subseteq># mset (concat ps)"
    using assms(2) by (induction ps arbitrary: j)
      (auto simp: nth_Cons split: nat.splits intro: subset_mset.add_increasing)
  then obtain M where M: "mset [0..<length vals] = mset (ps ! j) + M"
    using assms(3) by (metis subset_mset.order_trans subset_mset.le_iff_add)
  then have "i < length vals" if "i \<in># mset (ps ! j) + M" for i
    using that unfolding M [symmetric] by simp
  with nn have pos: "0 \<le> vals ! i" if "i \<in># mset (ps ! j) + M" for i using that by auto
  then show "\<forall>i \<in> set (ps ! j). 0 \<le> vals ! i" by auto
  have "sum_list vals = (\<Sum>i\<in>#mset [0..<length vals]. vals ! i)"
    by (metis map_nth mset_map sum_mset_sum_list)
  also have "\<dots> = (\<Sum>i\<leftarrow>ps ! j. vals ! i) + (\<Sum>i\<in>#M. vals ! i)"
    unfolding M by (simp add: sum_mset_sum_list flip: mset_map)
  finally show "(\<Sum>i\<leftarrow>ps ! j. vals ! i) \<le> sum_list vals"
    using sum_mset_nonneg_int [of M "\<lambda>i. vals ! i"] pos by simp
qed

lemma greedy_keeps_step:
  assumes nn: "\<forall>v \<in> set vals. 0 \<le> v" and b: "e \<longrightarrow> b = sum_list vals + 1"
    and inv: "greedy_inv (\<lambda>i. vals ! i + b) k ps tot"
    and keep: "greedy_keeps vals e k (x # rest) ps" and m: "m < k" "\<forall>j<k. tot ! m \<le> tot ! j"
  shows "greedy_keeps vals e k rest (ps[m := ps ! m @ [snd x]])"
proof -
  have l: "length ps = k" and tot: "\<forall>j<k. tot ! j = (\<Sum>i\<leftarrow>ps ! j. vals ! i + b)"
    using inv by (simp_all add: greedy_inv_def)
  have sub: "mset (concat ps) \<subseteq># mset [0..<length vals]"
    using keep unfolding greedy_keeps_def by (metis mset_subset_eq_add_left)
  have "length (ps ! m) \<le> length (ps ! j)" if e: e and j: "j < k" for j
  proof -
    have bnd: "b * int (length (ps ! i)) \<le> tot ! i" "tot ! i < b * (int (length (ps ! i)) + 1)"
      if i: "i < k" for i
    proof -
      have "(\<Sum>i\<leftarrow>ps ! i. vals ! i) < b" "\<forall>j \<in> set (ps ! i). 0 \<le> vals ! j"
        using part_sum_le_total [OF nn _ sub, of i] i l b e by auto
      from biased_sum_bounds [OF _ this(2,1), of "\<lambda>i. vals ! i + b"]
      show "b * int (length (ps ! i)) \<le> tot ! i" "tot ! i < b * (int (length (ps ! i)) + 1)"
        using tot i by simp_all
    qed
    have "b * int (length (ps ! m)) < b * (int (length (ps ! j)) + 1)"
      using bnd(1) [OF m(1)] bnd(2) [OF j] m(2) j by fastforce
    moreover have "0 < b" using b e nn by (auto intro: sum_list_nonneg add_nonneg_pos)
    ultimately show ?thesis by simp
  qed
  with keep m(1) l show ?thesis
    by (auto simp: greedy_keeps_def concat_update_mset nth_list_update le_Suc_eq
        intro!: Suc_leI le_neq_implies_less)
qed

text \<open>
  \<open>greedy_partition\<close> is total for non-negative values and at least one part: every item is
  assigned exactly once, and with \<open>equal_size\<close> and \<open>k\<close> dividing \<open>n\<close> the bias makes all parts
  have exactly \<open>n / k\<close> members, so its final assertion never fires.
\<close>

theorem greedy_partition_correct:
  assumes "\<forall>v \<in> set vals. 0 \<le> v" "0 < k" "e \<Longrightarrow> k dvd length vals"
  shows "\<exists>ps. greedy_partition vals k e = Inr ps \<and> length ps = k \<and>
    mset (concat ps) = mset [0..<length vals] \<and> (\<not> e \<or> list_all (\<lambda>p. length p = length vals div k) ps)"
proof -
  define b where "b = (if e then sum_list vals + 1 else 0)"
  define items where "items = map (\<lambda>(i, seqlen). (seqlen + b, i)) (enumerate 0 vals)"
  let ?f = "\<lambda>i. vals ! i + b"
  have snd_items: "map snd items = [0..<length vals]"
    by (simp add: items_def o_def case_prod_unfold map_fst_enumerate [unfolded o_def] enumerate_eq_zip)
  have "greedy_inv ?f k (replicate k []) (replicate k 0)" by (simp add: greedy_inv_def)
  moreover have "\<forall>x \<in> set items. fst x = ?f (snd x)"
    by (auto simp: items_def enumerate_eq_zip in_set_zip)
  moreover have "greedy_keeps vals e k items (replicate k [])"
    using snd_items by (simp add: greedy_keeps_def)
  ultimately obtain ps tot where run: "greedy_assign k items (replicate k []) (replicate k 0) = Inr (ps, tot)"
    and inv: "greedy_inv ?f k ps tot" and keep: "greedy_keeps vals e k [] ps"
    using greedy_assign_run [of ?f k "replicate k []" "replicate k 0" items "greedy_keeps vals e k"]
      greedy_keeps_step [OF assms(1), of e b k] assms(2) b_def by fastforce
  have l: "length ps = k" using inv by (simp add: greedy_inv_def)
  have cover: "mset (concat ps) = mset [0..<length vals]" using keep by (simp add: greedy_keeps_def)
  have eq: "length p = length vals div k" if e: e and p: "p \<in> set ps" for p
  proof (rule balanced_counts_equal [of "map length ps"])
    show "\<forall>x \<in> set (map length ps). \<forall>y \<in> set (map length ps). x \<le> y + 1"
      using keep e l by (auto simp: greedy_keeps_def in_set_conv_nth)
    have "sum_list (map length ps) = length vals"
      using mset_eq_length [OF cover] by (simp add: length_concat)
    then show "sum_list (map length ps) = length (map length ps) * (length vals div k)"
      using assms(3) [OF e] l by simp
    show "length p \<in> set (map length ps)" using p by simp
  qed
  then have "list_all (\<lambda>p. length p * k = length vals) ps" if e
    using assms(2) assms(3) [OF that] that by (auto simp: list_all_iff)
  then have "greedy_partition vals k e = Inr ps"
    using run by (simp add: greedy_partition_def Let_def b_def items_def guard_assert_def)
  with l cover eq show ?thesis by (auto simp: list_all_iff)
qed

theorem greedy_partition_correct_witness:
  "\<exists>ps. greedy_partition [5, 4, 3, 3, 3, 0] 3 True = Inr ps \<and> length ps = 3 \<and>
    list_all (\<lambda>p. length p = 2) ps"
proof -
  have len: "length [5, 4, 3, 3, 3, 0 :: int] = 6" by simp
  show ?thesis
    using greedy_partition_correct [of "[5, 4, 3, 3, 3, 0]" 3 True, unfolded len] by auto
qed

end
