(* ===== verification/PyDict.thy ===== *)
theory PyDict
  imports Prelude
begin

text \<open>
  Python's \<open>dict\<close>: an association list in insertion order.  Assignment to an existing key keeps
  its place, assignment to a new key appends, \<open>pop\<close> removes.  The locale \<open>key_store\<close> is the
  interface the components use; the model of \<open>dict\<close> provides it.
\<close>

type_synonym ('k, 'v) dict = "('k \<times> 'v) list"

abbreviation dict_get :: "('k, 'v) dict \<Rightarrow> 'k \<Rightarrow> 'v option" where
  "dict_get d \<equiv> map_of d"

fun dict_set :: "('k, 'v) dict \<Rightarrow> 'k \<Rightarrow> 'v \<Rightarrow> ('k, 'v) dict" where
  "dict_set [] k v = [(k, v)]"
| "dict_set ((k', v') # d) k v = (if k' = k then (k, v) # d else (k', v') # dict_set d k v)"

definition dict_pop :: "('k, 'v) dict \<Rightarrow> 'k \<Rightarrow> ('k, 'v) dict" where
  "dict_pop d k = filter (\<lambda>p. fst p \<noteq> k) d"

definition dict_keys :: "('k, 'v) dict \<Rightarrow> 'k list" where
  "dict_keys d = map fst d"

definition dict_values :: "('k, 'v) dict \<Rightarrow> 'v list" where
  "dict_values d = map snd d"

definition dict_has :: "('k, 'v) dict \<Rightarrow> 'k \<Rightarrow> bool" where
  "dict_has d k \<longleftrightarrow> dict_get d k \<noteq> None"

definition dict_get_default :: "('k, 'v) dict \<Rightarrow> 'k \<Rightarrow> 'v \<Rightarrow> 'v" where
  "dict_get_default d k v = (case dict_get d k of None \<Rightarrow> v | Some x \<Rightarrow> x)"

definition dict_setdefault :: "('k, 'v) dict \<Rightarrow> 'k \<Rightarrow> 'v \<Rightarrow> ('k, 'v) dict" where
  "dict_setdefault d k v = (if dict_has d k then d else dict_set d k v)"

definition dict_update :: "('k, 'v) dict \<Rightarrow> ('k \<times> 'v) list \<Rightarrow> ('k, 'v) dict" where
  "dict_update d kvs = foldl (\<lambda>acc (k, v). dict_set acc k v) d kvs"

definition dict_ok :: "('k, 'v) dict \<Rightarrow> bool" where
  "dict_ok d \<longleftrightarrow> distinct (map fst d)"

subsection \<open>Laws\<close>

lemma dict_get_set [simp]: "dict_get (dict_set d k v) k' = (if k' = k then Some v else dict_get d k')"
  by (induction d k v rule: dict_set.induct) auto

lemma dict_get_pop [simp]: "dict_get (dict_pop d k) k' = (if k' = k then None else dict_get d k')"
  by (induction d) (auto simp: dict_pop_def)

lemma dict_set_keys: "set (map fst (dict_set d k v)) = insert k (set (map fst d))"
  by (induction d k v rule: dict_set.induct) auto

lemma dict_set_ok [simp, intro]: "dict_ok d \<Longrightarrow> dict_ok (dict_set d k v)"
proof (induction d k v rule: dict_set.induct)
  case (2 k' v' d k v)
  have "fst ` set (dict_set d k v) = insert k (fst ` set d)"
    using dict_set_keys [of d k v] by simp
  with 2 show ?case by (auto simp: dict_ok_def)
qed (simp add: dict_ok_def)

lemma dict_pop_ok [simp, intro]: "dict_ok d \<Longrightarrow> dict_ok (dict_pop d k)"
  by (simp add: dict_ok_def dict_pop_def distinct_map_filter)

lemma dict_has_iff: "dict_has d k \<longleftrightarrow> k \<in> set (map fst d)"
  by (simp add: dict_has_def map_of_eq_None_iff)

lemma dict_has_set [simp]: "dict_has (dict_set d k v) k' \<longleftrightarrow> k' = k \<or> dict_has d k'"
  by (simp add: dict_has_def)

lemma dict_has_pop [simp]: "dict_has (dict_pop d k) k' \<longleftrightarrow> k' \<noteq> k \<and> dict_has d k'"
  by (simp add: dict_has_def)

lemma dict_set_same: "dict_get d k = Some v \<Longrightarrow> dict_set d k v = d"
  by (induction d k v rule: dict_set.induct) (auto split: if_splits)

lemma dict_set_set [simp]: "dict_set (dict_set d k v) k w = dict_set d k w"
  by (induction d k v rule: dict_set.induct) auto

lemma dict_set_values_all:
  "list_all P (dict_values d) \<Longrightarrow> P v \<Longrightarrow> list_all P (dict_values (dict_set d k v))"
  by (induction d k v rule: dict_set.induct) (auto simp: dict_values_def)

lemma dict_pop_values_all:
  "list_all P (dict_values d) \<Longrightarrow> list_all P (dict_values (dict_pop d k))"
  by (auto simp: dict_values_def dict_pop_def list_all_iff)

lemma dict_get_values: "dict_get d k = Some v \<Longrightarrow> v \<in> set (dict_values d)"
  by (auto simp: dict_values_def dest: map_of_SomeD intro: rev_image_eqI)

lemma dict_get_default_Some: "dict_get d k = Some v \<Longrightarrow> dict_get_default d k z = v"
  by (simp add: dict_get_default_def)

lemma dict_get_default_None: "dict_get d k = None \<Longrightarrow> dict_get_default d k z = z"
  by (simp add: dict_get_default_def)

lemma dict_sum_set:
  fixes d :: "('k, int) dict"
  shows "dict_ok d \<Longrightarrow> dict_get d k = Some v \<Longrightarrow>
    sum_list (dict_values (dict_set d k w)) = sum_list (dict_values d) - v + w"
proof (induction d k w rule: dict_set.induct)
  case (2 k' v' d k w)
  then show ?case by (auto simp: dict_values_def dict_ok_def split: if_splits)
qed simp

subsection \<open>The interface of a key store\<close>

locale key_store =
  fixes look :: "'s \<Rightarrow> 'k \<Rightarrow> 'v option"
    and upd :: "'s \<Rightarrow> 'k \<Rightarrow> 'v \<Rightarrow> 's"
    and del :: "'s \<Rightarrow> 'k \<Rightarrow> 's"
    and ok :: "'s \<Rightarrow> bool"
  assumes look_upd: "look (upd s k v) k' = (if k' = k then Some v else look s k')"
    and look_del: "look (del s k) k' = (if k' = k then None else look s k')"
    and ok_upd: "ok s \<Longrightarrow> ok (upd s k v)"
    and ok_del: "ok s \<Longrightarrow> ok (del s k)"
begin

lemma look_foldl_del: "look (foldl del s ks) k = (if k \<in> set ks then None else look s k)"
  by (induction ks arbitrary: s) (auto simp: look_del)

lemma ok_foldl_del: "ok s \<Longrightarrow> ok (foldl del s ks)"
  by (induction ks arbitrary: s) (auto simp: ok_del)

lemma look_foldl_upd:
  "look (foldl (\<lambda>s (k, v). upd s k v) s kvs) k =
   (case map_of (rev kvs) k of None \<Rightarrow> look s k | Some v \<Rightarrow> Some v)"
  by (induction kvs rule: rev_induct) (auto simp: look_upd split: option.splits)

lemma ok_foldl_upd: "ok s \<Longrightarrow> ok (foldl (\<lambda>s (k, v). upd s k v) s kvs)"
  by (induction kvs arbitrary: s) (auto simp: ok_upd)

end

interpretation dk: key_store "map_of" dict_set dict_pop dict_ok
  by unfold_locales auto

lemma dict_update_get:
  "dict_get (dict_update d kvs) k = (case map_of (rev kvs) k of None \<Rightarrow> dict_get d k | Some v \<Rightarrow> Some v)"
  unfolding dict_update_def by (rule dk.look_foldl_upd)

lemma dict_update_ok: "dict_ok d \<Longrightarrow> dict_ok (dict_update d kvs)"
  unfolding dict_update_def by (rule dk.ok_foldl_upd)

end
