(* ===== verification/LoadBalancer.thy ===== *)
theory LoadBalancer
  imports PyDict "HOL-Library.Sublist"
begin

text \<open>
  Model of \<open>verl/workers/rollout/llm_server.py\<close>: the actor \<open>GlobalRequestLoadBalancer\<close> and the
  clients that acquire a server, generate and release.  Server handles are abstract.  The LRU
  cache of the third-party package cachetools is the parameter \<open>lru\<close>, Python's string hash the
  parameter \<open>hash\<close>; what cachetools documents is the predicate \<open>lru_laws\<close>.
\<close>

subsection \<open>The routing cache\<close>

record 'c lru_ops =
  lru_contains :: "'c \<Rightarrow> string \<Rightarrow> bool"
  lru_getitem :: "'c \<Rightarrow> string \<Rightarrow> string \<times> 'c"
  lru_setitem :: "'c \<Rightarrow> string \<Rightarrow> string \<Rightarrow> 'c"
  lru_delitem :: "'c \<Rightarrow> string \<Rightarrow> 'c"
  lru_len :: "'c \<Rightarrow> nat"
  lru_clear :: "'c \<Rightarrow> 'c"

text \<open>
  \<open>look\<close> gives the current content.  A stored item may be evicted by storing another one, but
  the item just stored is there, and looking an item up changes only its recency.
\<close>

definition lru_laws :: "'c lru_ops \<Rightarrow> ('c \<Rightarrow> string \<Rightarrow> string option) \<Rightarrow> bool" where
  "lru_laws lru look \<longleftrightarrow>
     (\<forall>c k. lru_contains lru c k = (look c k \<noteq> None)) \<and>
     (\<forall>c k v. look c k = Some v \<longrightarrow> fst (lru_getitem lru c k) = v \<and> look (snd (lru_getitem lru c k)) = look c) \<and>
     (\<forall>c k v. look (lru_setitem lru c k v) k = Some v) \<and>
     (\<forall>c k v k' w. look (lru_setitem lru c k v) k' = Some w \<longrightarrow> k' = k \<or> look c k' = Some w) \<and>
     (\<forall>c k. look (lru_delitem lru c k) = (look c)(k := None)) \<and>
     (\<forall>c k. look (lru_clear lru c) k = None)"

subsection \<open>\<open>GlobalRequestLoadBalancer\<close>\<close>

record ('h, 'c) balancer =
  lb_servers :: "(string, 'h) dict"
  lb_inflight :: "(string, int) dict"
  lb_cache :: 'c
  lb_full_determinism :: bool

definition lb_init :: "(string, 'h) dict \<Rightarrow> 'c \<Rightarrow> bool \<Rightarrow> ('h, 'c) balancer" where
  "lb_init servers cache full_determinism =
     \<lparr>lb_servers = servers, lb_inflight = map (\<lambda>sid. (sid, 0)) (dict_keys servers),
      lb_cache = cache, lb_full_determinism = full_determinism\<rparr>"

definition lb_candidates :: "(string, int) dict \<Rightarrow> string list" where
  "lb_candidates inflight =
     (let min_count = foldl min (hd (dict_values inflight)) (tl (dict_values inflight))
      in map fst (filter (\<lambda>(sid, count). count = min_count) inflight))"

definition lb_choose :: "(string \<Rightarrow> int) \<Rightarrow> bool \<Rightarrow> string \<Rightarrow> string list \<Rightarrow> string" where
  "lb_choose hash full_determinism request_id candidates =
     (if length candidates = 1 then candidates ! 0
      else if full_determinism then candidates ! nat (hash request_id mod int (length candidates))
      else candidates ! 0)"

text \<open>Increment of the counter and the lookup of the handle.\<close>

definition lb_hand_out :: "('h, 'c) balancer \<Rightarrow> string \<Rightarrow> (string \<times> 'h) result \<times> ('h, 'c) balancer" where
  "lb_hand_out lb sid =
     (case dict_get (lb_inflight lb) sid of
        None \<Rightarrow> (Inl (KeyError sid), lb)
      | Some n \<Rightarrow>
          (let lb' = lb\<lparr>lb_inflight := dict_set (lb_inflight lb) sid (n + 1)\<rparr> in
           case dict_get (lb_servers lb') sid of
             None \<Rightarrow> (Inl (KeyError sid), lb')
           | Some h \<Rightarrow> (Inr (sid, h), lb')))"

definition lb_select ::
  "'c lru_ops \<Rightarrow> (string \<Rightarrow> int) \<Rightarrow> ('h, 'c) balancer \<Rightarrow> string \<Rightarrow> (string \<times> 'h) result \<times> ('h, 'c) balancer" where
  "lb_select lru hash lb request_id =
     (if lb_inflight lb = [] then (Inl (RuntimeError ''No available servers in load balancer''), lb)
      else let sid = lb_choose hash (lb_full_determinism lb) request_id (lb_candidates (lb_inflight lb))
        in lb_hand_out (lb\<lparr>lb_cache := lru_setitem lru (lb_cache lb) request_id sid\<rparr>) sid)"

definition acquire_server ::
  "'c lru_ops \<Rightarrow> (string \<Rightarrow> int) \<Rightarrow> ('h, 'c) balancer \<Rightarrow> string \<Rightarrow> (string \<times> 'h) result \<times> ('h, 'c) balancer" where
  "acquire_server lru hash lb request_id =
     (if lru_contains lru (lb_cache lb) request_id then
        (let (sid, cache) = lru_getitem lru (lb_cache lb) request_id; lb' = lb\<lparr>lb_cache := cache\<rparr> in
         if dict_has (lb_inflight lb') sid then lb_hand_out lb' sid
         else lb_select lru hash (lb'\<lparr>lb_cache := lru_delitem lru cache request_id\<rparr>) request_id)
      else lb_select lru hash lb request_id)"

definition release_server :: "('h, 'c) balancer \<Rightarrow> string \<Rightarrow> ('h, 'c) balancer" where
  "release_server lb sid =
     (case dict_get (lb_inflight lb) sid of
        None \<Rightarrow> lb
      | Some n \<Rightarrow> if n > 0 then lb\<lparr>lb_inflight := dict_set (lb_inflight lb) sid (n - 1)\<rparr> else lb)"

definition add_servers :: "('h, 'c) balancer \<Rightarrow> (string \<times> 'h) list \<Rightarrow> ('h, 'c) balancer" where
  "add_servers lb servers = foldl (\<lambda>lb (sid, handle).
     lb\<lparr>lb_inflight := dict_set (lb_inflight lb) sid 0, lb_servers := dict_set (lb_servers lb) sid handle\<rparr>)
     lb servers"

definition remove_servers :: "('h, 'c) balancer \<Rightarrow> string list \<Rightarrow> ('h, 'c) balancer" where
  "remove_servers lb sids = foldl (\<lambda>lb sid.
     lb\<lparr>lb_inflight := dict_pop (lb_inflight lb) sid, lb_servers := dict_pop (lb_servers lb) sid\<rparr>)
     lb sids"

definition get_inflight_count :: "('h, 'c) balancer \<Rightarrow> string \<Rightarrow> int" where
  "get_inflight_count lb sid = dict_get_default (lb_inflight lb) sid 0"

definition get_all_servers :: "('h, 'c) balancer \<Rightarrow> string list" where
  "get_all_servers lb = dict_keys (lb_inflight lb)"

record sticky_report =
  cleared_entries :: nat
  server_loads :: "(string, int) dict"

definition clear_sticky_cache :: "'c lru_ops \<Rightarrow> ('h, 'c) balancer \<Rightarrow> sticky_report \<times> ('h, 'c) balancer" where
  "clear_sticky_cache lru lb =
     (\<lparr>cleared_entries = lru_len lru (lb_cache lb), server_loads = lb_inflight lb\<rparr>,
      lb\<lparr>lb_cache := lru_clear lru (lb_cache lb)\<rparr>)"

record lb_status =
  ls_servers :: "(string, int) dict"
  ls_total_inflight :: int
  ls_active_servers :: nat
  ls_registered_handles :: "string list"

definition get_status :: "('h, 'c) balancer \<Rightarrow> lb_status" where
  "get_status lb =
     \<lparr>ls_servers = lb_inflight lb, ls_total_inflight = sum_list (dict_values (lb_inflight lb)),
      ls_active_servers = length (lb_inflight lb), ls_registered_handles = dict_keys (lb_servers lb)\<rparr>"

definition get_total_inflight :: "('h, 'c) balancer \<Rightarrow> int" where
  "get_total_inflight lb = sum_list (dict_values (lb_inflight lb))"

text \<open>The remote calls that reach the actor, one at a time.\<close>

datatype 'h lb_event =
    Acquire string
  | Release string
  | AddServers "(string \<times> 'h) list"
  | RemoveServers "string list"
  | ClearSticky

fun lb_step :: "'c lru_ops \<Rightarrow> (string \<Rightarrow> int) \<Rightarrow> ('h, 'c) balancer \<Rightarrow> 'h lb_event \<Rightarrow> ('h, 'c) balancer" where
  "lb_step lru hash lb (Acquire r) = snd (acquire_server lru hash lb r)"
| "lb_step lru hash lb (Release s) = release_server lb s"
| "lb_step lru hash lb (AddServers ss) = add_servers lb ss"
| "lb_step lru hash lb (RemoveServers ss) = remove_servers lb ss"
| "lb_step lru hash lb ClearSticky = snd (clear_sticky_cache lru lb)"

subsection \<open>Invariant\<close>

text \<open>Handles and counters have the same servers, and no counter is negative.\<close>

definition lb_inv :: "('h, 'c) balancer \<Rightarrow> bool" where
  "lb_inv lb \<longleftrightarrow> dict_ok (lb_inflight lb) \<and> dict_ok (lb_servers lb) \<and>
     (\<forall>sid. dict_has (lb_inflight lb) sid = dict_has (lb_servers lb) sid) \<and>
     list_all (\<lambda>n. 0 \<le> n) (dict_values (lb_inflight lb))"

lemma lb_inv_cache [simp]: "lb_inv (lb\<lparr>lb_cache := c\<rparr>) = lb_inv lb"
  by (simp add: lb_inv_def)

lemma lb_inv_init: "dict_ok servers \<Longrightarrow> lb_inv (lb_init servers cache det)"
  by (auto simp: lb_inv_def lb_init_def dict_ok_def dict_keys_def dict_has_iff dict_values_def
      list_all_iff o_def)

lemma lb_hand_out_ok:
  assumes "lb_inv lb" "dict_get (lb_inflight lb) sid = Some n"
  obtains h where "dict_get (lb_servers lb) sid = Some h"
    "lb_hand_out lb sid = (Inr (sid, h), lb\<lparr>lb_inflight := dict_set (lb_inflight lb) sid (n + 1)\<rparr>)"
proof -
  have "dict_has (lb_servers lb) sid" using assms by (auto simp: lb_inv_def dict_has_def)
  then obtain h where "dict_get (lb_servers lb) sid = Some h" by (auto simp: dict_has_def)
  with assms(2) that show thesis by (simp add: lb_hand_out_def Let_def)
qed

lemma lb_inv_count_nonneg: "lb_inv lb \<Longrightarrow> dict_get (lb_inflight lb) sid = Some n \<Longrightarrow> 0 \<le> n"
  by (auto simp: lb_inv_def list_all_iff dest: dict_get_values)

lemma lb_inv_set_inflight:
  "lb_inv lb \<Longrightarrow> dict_has (lb_inflight lb) sid \<Longrightarrow> 0 \<le> n \<Longrightarrow>
   lb_inv (lb\<lparr>lb_inflight := dict_set (lb_inflight lb) sid n\<rparr>)"
  by (auto simp: lb_inv_def intro!: dict_set_values_all)

lemma lb_hand_out_inv [inv_intros]: "lb_inv lb \<Longrightarrow> lb_inv (snd (lb_hand_out lb sid))"
proof (cases "dict_get (lb_inflight lb) sid")
  case (Some n)
  assume inv: "lb_inv lb"
  from lb_hand_out_ok [OF inv Some] obtain h where
    "lb_hand_out lb sid = (Inr (sid, h), lb\<lparr>lb_inflight := dict_set (lb_inflight lb) sid (n + 1)\<rparr>)" by blast
  with inv Some lb_inv_count_nonneg [OF inv Some] show ?thesis
    by (auto intro!: lb_inv_set_inflight simp: dict_has_def)
qed (simp add: lb_hand_out_def)

lemma lb_select_inv [inv_intros]: "lb_inv lb \<Longrightarrow> lb_inv (snd (lb_select lru hash lb r))"
  by (auto simp: lb_select_def Let_def intro: lb_hand_out_inv)

lemma acquire_server_inv [inv_intros]: "lb_inv lb \<Longrightarrow> lb_inv (snd (acquire_server lru hash lb r))"
  by (auto simp: acquire_server_def Let_def split: prod.splits intro!: lb_hand_out_inv lb_select_inv)

lemma release_server_inv [inv_intros]: "lb_inv lb \<Longrightarrow> lb_inv (release_server lb s)"
  by (auto simp: release_server_def dict_has_def split: option.splits intro!: lb_inv_set_inflight)

lemma add_servers_inv [inv_intros]: "lb_inv lb \<Longrightarrow> lb_inv (add_servers lb ss)"
  unfolding add_servers_def
  by (erule foldl_inv [rotated]) (auto simp: lb_inv_def intro!: dict_set_values_all)

lemma remove_servers_inv [inv_intros]: "lb_inv lb \<Longrightarrow> lb_inv (remove_servers lb ss)"
  unfolding remove_servers_def
  by (erule foldl_inv [rotated]) (auto simp: lb_inv_def intro!: dict_pop_values_all)

lemma lb_step_inv: "lb_inv lb \<Longrightarrow> lb_inv (lb_step lru hash lb e)"
  by (cases e) (auto simp: clear_sticky_cache_def intro: inv_intros)

interpretation lbm: invariant_machine "lb_step lru hash" lb_inv for lru hash
  by unfold_locales (rule lb_step_inv)

subsection \<open>Selection\<close>

lemma foldl_min_least:
  fixes x :: "'a::linorder"
  shows "foldl min x xs \<in> set (x # xs) \<and> (\<forall>y \<in> set (x # xs). foldl min x xs \<le> y)"
proof (induction xs arbitrary: x)
  case (Cons a xs)
  from Cons [of "min x a"] show ?case by (auto simp: min_def split: if_splits)
qed simp

lemma lb_candidates_least:
  assumes "inflight \<noteq> []"
  shows "lb_candidates inflight \<noteq> []"
    and "dict_ok inflight \<Longrightarrow> sid \<in> set (lb_candidates inflight) \<Longrightarrow>
      \<exists>n. dict_get inflight sid = Some n \<and> (\<forall>s m. dict_get inflight s = Some m \<longrightarrow> n \<le> m)"
proof -
  let ?vs = "dict_values inflight"
  let ?m = "foldl min (hd ?vs) (tl ?vs)"
  have "?vs \<noteq> []" using assms by (simp add: dict_values_def)
  then have mem: "?m \<in> set ?vs" and le: "\<forall>y \<in> set ?vs. ?m \<le> y"
    using foldl_min_least [of "hd ?vs" "tl ?vs"] by (cases ?vs; simp)+
  from mem obtain s where "(s, ?m) \<in> set inflight" by (auto simp: dict_values_def)
  then have "s \<in> set (lb_candidates inflight)"
    by (auto simp: lb_candidates_def Let_def intro!: rev_image_eqI [of "(s, ?m)"])
  then show "lb_candidates inflight \<noteq> []" by auto
  assume "dict_ok inflight" "sid \<in> set (lb_candidates inflight)"
  then have "dict_get inflight sid = Some ?m"
    by (auto simp: lb_candidates_def Let_def dict_ok_def)
  moreover have "?m \<le> m" if "dict_get inflight s = Some m" for s m
    using le that dict_get_values by metis
  ultimately show "\<exists>n. dict_get inflight sid = Some n \<and> (\<forall>s m. dict_get inflight s = Some m \<longrightarrow> n \<le> m)"
    by blast
qed

lemma lb_choose_mem: "cs \<noteq> [] \<Longrightarrow> lb_choose hash det r cs \<in> set cs"
proof -
  assume "cs \<noteq> []"
  then have "nat (hash r mod int (length cs)) < length cs" by (simp add: nat_less_iff)
  with \<open>cs \<noteq> []\<close> show ?thesis by (auto simp: lb_choose_def intro!: nth_mem)
qed

text \<open>What a selection does when there is a server.\<close>

lemma lb_select_cases:
  assumes inv: "lb_inv lb" and ne: "lb_inflight lb \<noteq> []"
  shows "\<exists>sid h n. dict_get (lb_inflight lb) sid = Some n \<and> dict_get (lb_servers lb) sid = Some h \<and>
    (\<forall>s m. dict_get (lb_inflight lb) s = Some m \<longrightarrow> n \<le> m) \<and>
    lb_select lru hash lb r = (Inr (sid, h),
       lb\<lparr>lb_cache := lru_setitem lru (lb_cache lb) r sid,
          lb_inflight := dict_set (lb_inflight lb) sid (n + 1)\<rparr>)"
proof -
  let ?sid = "lb_choose hash (lb_full_determinism lb) r (lb_candidates (lb_inflight lb))"
  let ?lb = "lb\<lparr>lb_cache := lru_setitem lru (lb_cache lb) r ?sid\<rparr>"
  have "?sid \<in> set (lb_candidates (lb_inflight lb))"
    by (rule lb_choose_mem) (rule lb_candidates_least(1) [OF ne])
  with lb_candidates_least(2) [OF ne _ this] inv obtain n where
    n: "dict_get (lb_inflight lb) ?sid = Some n" "\<forall>s m. dict_get (lb_inflight lb) s = Some m \<longrightarrow> n \<le> m"
    unfolding lb_inv_def by blast
  from lb_hand_out_ok [of ?lb ?sid n] inv n(1) obtain h where
    "dict_get (lb_servers lb) ?sid = Some h"
    "lb_hand_out ?lb ?sid = (Inr (?sid, h), ?lb\<lparr>lb_inflight := dict_set (lb_inflight lb) ?sid (n + 1)\<rparr>)"
    by auto
  with n ne show ?thesis
    by (intro exI [of _ ?sid] exI [of _ h] exI [of _ n]) (simp add: lb_select_def Let_def)
qed

lemma lru_lawsD:
  assumes "lru_laws lru look"
  shows "lru_contains lru c k = (look c k \<noteq> None)"
    and "look c k = Some v \<Longrightarrow> fst (lru_getitem lru c k) = v"
    and "look c k = Some v \<Longrightarrow> look (snd (lru_getitem lru c k)) = look c"
    and "look (lru_setitem lru c k v) k = Some v"
  using assms unfolding lru_laws_def by blast+

lemma acquire_server_sticky:
  assumes inv: "lb_inv lb" and lru: "lru_laws lru look" and c: "look (lb_cache lb) r = Some s"
    and n: "dict_get (lb_inflight lb) s = Some n"
  obtains h c' where "dict_get (lb_servers lb) s = Some h" "look c' = look (lb_cache lb)"
    "acquire_server lru hash lb r =
      (Inr (s, h), lb\<lparr>lb_cache := c', lb_inflight := dict_set (lb_inflight lb) s (n + 1)\<rparr>)"
proof -
  obtain c' where g: "lru_getitem lru (lb_cache lb) r = (s, c')" "look c' = look (lb_cache lb)"
    using lru_lawsD(2,3) [OF lru c] by (metis prod.collapse)
  let ?lb = "lb\<lparr>lb_cache := c'\<rparr>"
  from lb_hand_out_ok [of ?lb s n] inv n obtain h where h: "dict_get (lb_servers lb) s = Some h"
    "lb_hand_out ?lb s = (Inr (s, h), ?lb\<lparr>lb_inflight := dict_set (lb_inflight lb) s (n + 1)\<rparr>)" by auto
  have "acquire_server lru hash lb r = lb_hand_out ?lb s"
    using c n by (simp add: acquire_server_def lru_lawsD(1) [OF lru] g dict_has_def)
  with that [OF h(1) g(2)] h(2) show thesis by simp
qed

lemma acquire_server_fresh:
  assumes inv: "lb_inv lb" and lru: "lru_laws lru look"
    and c: "\<forall>s. look (lb_cache lb) r = Some s \<longrightarrow> \<not> dict_has (lb_inflight lb) s"
  shows "\<exists>c'. acquire_server lru hash lb r = lb_select lru hash (lb\<lparr>lb_cache := c'\<rparr>) r"
proof (cases "look (lb_cache lb) r")
  case None
  then have "acquire_server lru hash lb r = lb_select lru hash (lb\<lparr>lb_cache := lb_cache lb\<rparr>) r"
    by (simp add: acquire_server_def lru_lawsD(1) [OF lru])
  then show ?thesis ..
next
  case (Some s)
  with c lru_lawsD(2) [OF lru Some] show ?thesis
    by (auto simp: acquire_server_def lru_lawsD(1) [OF lru] split: prod.splits)
qed

text \<open>
  C36. Routing: from a consistent state with at least one server, \<open>acquire_server\<close> always
  succeeds, hands out the registered handle, adds one to exactly that server's counter and
  remembers the server; the server is the remembered one when that is still active, and
  otherwise one with the fewest requests in flight.
\<close>

theorem acquire_server_routes:
  assumes "lb_inv lb" "lru_laws lru look" "lb_inflight lb \<noteq> []"
  shows "\<exists>sid h n lb'. acquire_server lru hash lb r = (Inr (sid, h), lb') \<and>
    dict_get (lb_servers lb) sid = Some h \<and> dict_get (lb_inflight lb) sid = Some n \<and>
    lb_inflight lb' = dict_set (lb_inflight lb) sid (n + 1) \<and> lb_servers lb' = lb_servers lb \<and>
    look (lb_cache lb') r = Some sid \<and>
    (look (lb_cache lb) r = Some sid \<or>
      (\<forall>s. look (lb_cache lb) r = Some s \<longrightarrow> \<not> dict_has (lb_inflight lb) s) \<and>
      (\<forall>s m. dict_get (lb_inflight lb) s = Some m \<longrightarrow> n \<le> m))"
proof (cases "\<exists>s. look (lb_cache lb) r = Some s \<and> dict_has (lb_inflight lb) s")
  case True
  then obtain s n where s: "look (lb_cache lb) r = Some s" "dict_get (lb_inflight lb) s = Some n"
    by (auto simp: dict_has_def)
  from acquire_server_sticky [OF assms(1,2) s] obtain h c' where
    "dict_get (lb_servers lb) s = Some h" "look c' = look (lb_cache lb)"
    "acquire_server lru hash lb r =
      (Inr (s, h), lb\<lparr>lb_cache := c', lb_inflight := dict_set (lb_inflight lb) s (n + 1)\<rparr>)" by metis
  with s show ?thesis by auto
next
  case False
  with acquire_server_fresh [OF assms(1,2)] obtain c' where
    a: "acquire_server lru hash lb r = lb_select lru hash (lb\<lparr>lb_cache := c'\<rparr>) r" by blast
  have "lb_inv (lb\<lparr>lb_cache := c'\<rparr>)" "lb_inflight (lb\<lparr>lb_cache := c'\<rparr>) \<noteq> []"
    using assms(1,3) by simp_all
  from lb_select_cases [OF this, of lru hash r] obtain sid h n where
    "dict_get (lb_inflight lb) sid = Some n" "dict_get (lb_servers lb) sid = Some h"
    "\<forall>s m. dict_get (lb_inflight lb) s = Some m \<longrightarrow> n \<le> m"
    "lb_select lru hash (lb\<lparr>lb_cache := c'\<rparr>) r = (Inr (sid, h),
       lb\<lparr>lb_cache := lru_setitem lru c' r sid, lb_inflight := dict_set (lb_inflight lb) sid (n + 1)\<rparr>)"
    by auto
  with a False lru_lawsD(4) [OF assms(2)] show ?thesis by auto
qed

text \<open>A routing cache of bounded size, most recent entry first, on which the laws hold.\<close>

definition list_lru :: "nat \<Rightarrow> (string, string) dict lru_ops" where
  "list_lru maxsize = \<lparr>
     lru_contains = (\<lambda>c k. dict_has c k),
     lru_getitem = (\<lambda>c k. (the (dict_get c k), (k, the (dict_get c k)) # dict_pop c k)),
     lru_setitem = (\<lambda>c k v. take (Suc maxsize) ((k, v) # dict_pop c k)),
     lru_delitem = dict_pop, lru_len = length, lru_clear = (\<lambda>c. [])\<rparr>"

lemma map_of_take_Some: "map_of (take n xs) k = Some v \<Longrightarrow> map_of xs k = Some v"
  by (induction xs arbitrary: n) (auto simp: take_Cons split: nat.splits if_splits)

lemma list_lru_laws: "lru_laws (list_lru n) dict_get"
  by (auto simp: lru_laws_def list_lru_def dict_has_def fun_eq_iff split: if_splits
      dest!: map_of_take_Some)

theorem acquire_server_routes_witness:
  "\<exists>sid h lb'. acquire_server (list_lru 4) (\<lambda>_. 0)
     \<lparr>lb_servers = [(''a'', 1 :: nat), (''b'', 2)], lb_inflight = [(''a'', 3), (''b'', 1)],
      lb_cache = [], lb_full_determinism = False\<rparr> ''req'' = (Inr (sid, h), lb') \<and>
     get_inflight_count lb' ''b'' = 2 \<and> sid = ''b''"
proof -
  let ?lb = "\<lparr>lb_servers = [(''a'', 1 :: nat), (''b'', 2)], lb_inflight = [(''a'', 3), (''b'', 1)],
      lb_cache = [], lb_full_determinism = False\<rparr>"
  have "lb_inv ?lb"
    by (auto simp: lb_inv_def dict_ok_def dict_has_def dict_values_def)
  from acquire_server_routes [OF this list_lru_laws, of 4 "\<lambda>_. 0" "''req''"]
  obtain sid h n lb' where r: "acquire_server (list_lru 4) (\<lambda>_. 0) ?lb ''req'' = (Inr (sid, h), lb')"
    "dict_get (lb_inflight ?lb) sid = Some n" "lb_inflight lb' = dict_set (lb_inflight ?lb) sid (n + 1)"
    "\<forall>s m. dict_get (lb_inflight ?lb) s = Some m \<longrightarrow> n \<le> m" by auto
  from r(2,4) have "sid = ''b''" "n = 1" by (auto split: if_splits)
  with r(1,3) show ?thesis by (auto simp: get_inflight_count_def dict_get_default_def)
qed

text \<open>
  Whatever remote calls reach the balancer and in whatever order, the handles and the
  counters always have the same servers and no counter is negative: an acquired server id always
  has a handle, and surplus releases are absorbed.
\<close>

theorem balancer_reachable_consistent:
  assumes "dict_ok servers"
  shows "lb_inv (foldl (lb_step lru hash) (lb_init servers cache det) events)"
  by (rule lbm.run_inv) (rule lb_inv_init [OF assms])

theorem balancer_reachable_consistent_witness:
  "lb_inv (foldl (lb_step (list_lru 2) (\<lambda>_. 0)) (lb_init [(''a'', 1 :: nat)] [] False)
     [Acquire ''r'', RemoveServers [''a''], AddServers [(''a'', 2)], Release ''a'', Release ''b''])"
  by (rule balancer_reachable_consistent) (simp add: dict_ok_def)

subsection \<open>\<open>LLMServerClient.generate\<close>\<close>

text \<open>
  A \<open>token_output\<close> is the pydantic class of that name; \<open>None\<close> models Python's \<open>None\<close>.  A value
  of the extra fields may itself be \<open>None\<close>.
\<close>

record 'r token_output =
  token_ids :: "int list"
  log_probs :: "rat list option"
  routed_experts :: "'r list option"
  stop_reason :: "string option"
  num_preempted :: "int option"
  extra_fields :: "(string, int option) dict"

definition extra_get :: "(string, int option) dict \<Rightarrow> string \<Rightarrow> int option" where
  "extra_get d k = (case dict_get d k of None \<Rightarrow> None | Some v \<Rightarrow> v)"

record 'x gen_request =
  gr_prompt_ids :: "int list"
  gr_sampling :: "(string, int option) dict"
  gr_image :: "'x option"
  gr_video :: "'x option"
  gr_audio :: "'x option"
  gr_mm_kwargs :: "(string, 'x) dict option"
  gr_priority :: int
  gr_kwargs :: "(string, 'x) dict"

text \<open>The call the server receives: an absent keyword argument is \<open>None\<close>.\<close>

record 'x server_call =
  sc_prompt_ids :: "int list"
  sc_sampling :: "(string, int option) dict"
  sc_image :: "'x option"
  sc_video :: "'x option"
  sc_audio :: "'x option"
  sc_mm_kwargs :: "(string, 'x) dict option"
  sc_priority :: "int option"
  sc_kwargs :: "(string, 'x) dict"

definition server_call_of :: "string \<Rightarrow> 'x gen_request \<Rightarrow> 'x server_call" where
  "server_call_of rollout_name rq =
     \<lparr>sc_prompt_ids = gr_prompt_ids rq, sc_sampling = gr_sampling rq, sc_image = gr_image rq,
      sc_video = gr_video rq, sc_audio = gr_audio rq,
      sc_mm_kwargs = (case gr_mm_kwargs rq of None \<Rightarrow> None | Some [] \<Rightarrow> None | Some d \<Rightarrow> Some d),
      sc_priority = (if gr_priority rq \<noteq> 0 \<and> rollout_name = ''vllm'' then Some (gr_priority rq) else None),
      sc_kwargs = gr_kwargs rq\<rparr>"

definition fill_steps :: "'r token_output \<Rightarrow> 'r token_output" where
  "fill_steps out =
     (let global_steps = extra_get (extra_fields out) ''global_steps'';
          fill = (\<lambda>k d. if extra_get d k = None then dict_set d k global_steps else d)
      in out\<lparr>extra_fields := fill ''max_global_steps'' (fill ''min_global_steps'' (extra_fields out))\<rparr>)"

text \<open>
  One call of \<open>generate\<close>: \<open>serve\<close> answers for the server and may raise, \<open>during\<close> is what other
  clients ask of the balancer meanwhile, and the \<open>finally\<close> clause releases in every case.
\<close>

definition client_generate ::
  "('h \<Rightarrow> 'x server_call \<Rightarrow> 'r token_output result) \<Rightarrow> string \<Rightarrow>
   (('h, 'c) balancer \<Rightarrow> string \<Rightarrow> (string \<times> 'h) result \<times> ('h, 'c) balancer) \<Rightarrow>
   (('h, 'c) balancer \<Rightarrow> ('h, 'c) balancer) \<Rightarrow>
   ('h, 'c) balancer \<Rightarrow> string \<Rightarrow> 'x gen_request \<Rightarrow> 'r token_output result \<times> ('h, 'c) balancer" where
  "client_generate serve rollout_name acquire during lb request_id rq =
     (case acquire lb request_id of
        (Inl e, lb1) \<Rightarrow> (Inl e, lb1)
      | (Inr (sid, server), lb1) \<Rightarrow>
          (let out = rbind (serve server (server_call_of rollout_name rq)) (\<lambda>ans. Inr (fill_steps ans))
           in (out, release_server (during lb1) sid)))"

lemma release_after_acquire:
  assumes "dict_get d sid = Some n" "0 \<le> n"
  shows "lb_inflight (release_server (lb\<lparr>lb_inflight := dict_set d sid (n + 1)\<rparr>) sid) = d"
  using assms by (simp add: release_server_def dict_set_same)

text \<open>
  A client never leaks a slot: after \<open>generate\<close>, whether the server answered or raised, every
  in-flight counter is what it was before (when no other client interferes).
\<close>

theorem client_generate_releases:
  assumes "lb_inv lb" "lru_laws lru look" "lb_inflight lb \<noteq> []"
  shows "lb_inflight (snd (client_generate serve rn (acquire_server lru hash) id lb r rq)) = lb_inflight lb"
proof -
  have "\<exists>sid h n lb'. acquire_server lru hash lb r = (Inr (sid, h), lb') \<and>
      dict_get (lb_inflight lb) sid = Some n \<and> lb_inflight lb' = dict_set (lb_inflight lb) sid (n + 1)"
  proof (cases "\<exists>s. look (lb_cache lb) r = Some s \<and> dict_has (lb_inflight lb) s")
    case True
    then obtain s n where s: "look (lb_cache lb) r = Some s" "dict_get (lb_inflight lb) s = Some n"
      by (auto simp: dict_has_def)
    show ?thesis by (rule acquire_server_sticky [OF assms(1,2) s, where hash = hash]) (use s in auto)
  next
    case False
    with acquire_server_fresh [OF assms(1,2)] obtain c' where
      "acquire_server lru hash lb r = lb_select lru hash (lb\<lparr>lb_cache := c'\<rparr>) r" by blast
    with lb_select_cases [of "lb\<lparr>lb_cache := c'\<rparr>" lru hash r] assms(1,3) show ?thesis by auto
  qed
  then obtain sid h n lb' where a: "acquire_server lru hash lb r = (Inr (sid, h), lb')"
    "dict_get (lb_inflight lb) sid = Some n" "lb_inflight lb' = dict_set (lb_inflight lb) sid (n + 1)" by blast
  have "lb' = lb'\<lparr>lb_inflight := dict_set (lb_inflight lb) sid (n + 1)\<rparr>" using a(3) by simp
  then have "lb_inflight (release_server lb' sid) = lb_inflight lb"
    by (metis release_after_acquire a(2) lb_inv_count_nonneg [OF assms(1) a(2)])
  with a(1) show ?thesis by (simp add: client_generate_def)
qed

theorem client_generate_releases_witness:
  "lb_inflight (snd (client_generate (\<lambda>_ _. Inl (RuntimeError ''engine died'') :: unit token_output result) ''vllm''
     (acquire_server (list_lru 4) (\<lambda>_. 0)) id
     \<lparr>lb_servers = [(''a'', 1 :: nat)], lb_inflight = [(''a'', 3)], lb_cache = [], lb_full_determinism = True\<rparr>
     ''req'' \<lparr>gr_prompt_ids = [1, 2], gr_sampling = [], gr_image = None, gr_video = None, gr_audio = None,
       gr_mm_kwargs = None, gr_priority = 0, gr_kwargs = ([] :: (string, unit) dict)\<rparr>)) = [(''a'', 3)]"
proof -
  have "lb_inv \<lparr>lb_servers = [(''a'', 1 :: nat)], lb_inflight = [(''a'', 3)], lb_cache = [],
      lb_full_determinism = True\<rparr>"
    by (auto simp: lb_inv_def dict_ok_def dict_has_def dict_values_def)
  from client_generate_releases [OF this list_lru_laws] show ?thesis by simp
qed

subsection \<open>\<open>FullyAsyncLLMServerClient\<close>\<close>

text \<open>
  \<open>_acquire_server\<close> sleeps and retries while no server is registered and only hybrid replicas
  exist; the list holds what other clients do during each sleep, and \<open>None\<close> means that the call
  still waits when the list is used up.
\<close>

fun acquire_retry ::
  "(('h, 'c) balancer \<Rightarrow> string \<Rightarrow> (string \<times> 'h) result \<times> ('h, 'c) balancer) \<Rightarrow> bool \<Rightarrow>
   (('h, 'c) balancer \<Rightarrow> ('h, 'c) balancer) list \<Rightarrow> ('h, 'c) balancer \<Rightarrow> string \<Rightarrow>
   ((string \<times> 'h) result \<times> ('h, 'c) balancer) option" where
  "acquire_retry acquire only_hybrid sleeps lb r =
     (case acquire lb r of
        (Inl e, lb1) \<Rightarrow>
          if e = RuntimeError ''No available servers in load balancer'' \<and> only_hybrid then
            (case sleeps of [] \<Rightarrow> None | f # fs \<Rightarrow> acquire_retry acquire only_hybrid fs (f lb1) r)
          else Some (Inl e, lb1)
      | (Inr x, lb1) \<Rightarrow> Some (Inr x, lb1))"

record 'r fg_state =
  fg_out :: "'r token_output"
  fg_min :: "int option"
  fg_max :: "int option"
  fg_sampling :: "(string, int option) dict"

definition fg_start :: "(string, int option) dict \<Rightarrow> 'r fg_state" where
  "fg_start sampling = \<lparr>fg_out = \<lparr>token_ids = [], log_probs = Some [], routed_experts = None,
     stop_reason = None, num_preempted = Some 0, extra_fields = []\<rparr>,
     fg_min = None, fg_max = None, fg_sampling = sampling\<rparr>"

definition limit_key_of :: "(string, int option) dict \<Rightarrow> string option" where
  "limit_key_of sampling =
     (if dict_has sampling ''max_tokens'' then Some ''max_tokens''
      else if dict_has sampling ''max_new_tokens'' then Some ''max_new_tokens'' else None)"

definition last_n :: "nat \<Rightarrow> 'a list \<Rightarrow> 'a list" where
  "last_n n xs = drop (length xs - n) xs"

definition merge_routed :: "'r list option \<Rightarrow> 'r token_output \<Rightarrow> 'r list option" where
  "merge_routed old output =
     (case routed_experts output of
        None \<Rightarrow> old
      | Some new \<Rightarrow>
          if token_ids output = [] then old
          else (case old of None \<Rightarrow> Some new | Some xs \<Rightarrow> Some (xs @ last_n (length (token_ids output)) new)))"

text \<open>Step 2 of the loop: the answer is merged into the final output.\<close>

definition fg_merge :: "'r fg_state \<Rightarrow> 'r token_output \<Rightarrow> 'r fg_state" where
  "fg_merge st output =
     (let fo = fg_out st; steps = extra_get (extra_fields output) ''global_steps'' in
      st\<lparr>fg_out := fo\<lparr>token_ids := token_ids fo @ token_ids output,
           log_probs := (case log_probs output of None \<Rightarrow> log_probs fo
             | Some lp \<Rightarrow> map_option (\<lambda>l. l @ lp) (log_probs fo)),
           routed_experts := merge_routed (routed_experts fo) output,
           num_preempted := (case num_preempted output of None \<Rightarrow> num_preempted fo
             | Some n \<Rightarrow> map_option (\<lambda>m. m + n) (num_preempted fo)),
           stop_reason := stop_reason output\<rparr>,
         fg_min := (if fg_min st = None then steps else fg_min st), fg_max := steps\<rparr>)"

text \<open>Step 3: the remaining budget; the flag says that it is used up.\<close>

definition fg_budget :: "string option \<Rightarrow> int option \<Rightarrow> 'r fg_state \<Rightarrow> 'r fg_state \<times> bool" where
  "fg_budget limit_key original st =
     (case (limit_key, original) of
        (Some k, Some m) \<Rightarrow>
          (let n = int (length (token_ids (fg_out st)));
               st1 = st\<lparr>fg_sampling := dict_set (fg_sampling st) k (Some (m - n))\<rparr>
           in if m \<le> n then (st1\<lparr>fg_out := (fg_out st1)\<lparr>stop_reason := Some ''length''\<rparr>\<rparr>, True)
              else (st1, False))
      | _ \<Rightarrow> (st, False))"

definition fg_finish :: "'r fg_state \<Rightarrow> 'r token_output" where
  "fg_finish st = (fg_out st)\<lparr>extra_fields := dict_set (dict_set (dict_set (extra_fields (fg_out st))
     ''global_steps'' (fg_max st)) ''min_global_steps'' (fg_min st)) ''max_global_steps'' (fg_max st)\<rparr>"

text \<open>
  The \<open>while True\<close> of \<open>generate\<close>; \<open>gen i\<close> is \<open>super().generate\<close> in the i-th iteration, \<open>fuel\<close> the
  number of iterations, \<open>None\<close> that the loop has not ended by then.
\<close>

fun fully_async_loop ::
  "(nat \<Rightarrow> int list \<Rightarrow> (string, int option) dict \<Rightarrow> 's \<Rightarrow> 'r token_output result \<times> 's) \<Rightarrow> bool \<Rightarrow> int list \<Rightarrow>
   string option \<Rightarrow> int option \<Rightarrow> nat \<Rightarrow> nat \<Rightarrow> 'r fg_state \<Rightarrow> 's \<Rightarrow> ('r token_output result \<times> 's) option" where
  "fully_async_loop gen should_retry prompt_ids limit_key original 0 i st env = None"
| "fully_async_loop gen should_retry prompt_ids limit_key original (Suc fuel) i st env =
     (case gen i (prompt_ids @ token_ids (fg_out st)) (fg_sampling st) env of
        (Inl e, env1) \<Rightarrow> Some (Inl e, env1)
      | (Inr output, env1) \<Rightarrow>
          (let (st1, full) = fg_budget limit_key original (fg_merge st output) in
           if full then Some (Inr (fg_finish st1), env1)
           else if stop_reason output \<notin> {Some ''aborted'', Some ''abort''} \<or> \<not> should_retry
           then Some (Inr (fg_finish st1), env1)
           else fully_async_loop gen should_retry prompt_ids limit_key original fuel (Suc i) st1 env1))"

definition fully_async_generate ::
  "(nat \<Rightarrow> int list \<Rightarrow> (string, int option) dict \<Rightarrow> 's \<Rightarrow> 'r token_output result \<times> 's) \<Rightarrow> bool option \<Rightarrow>
   nat \<Rightarrow> int list \<Rightarrow> (string, int option) dict \<Rightarrow> 's \<Rightarrow> ('r token_output result \<times> 's) option" where
  "fully_async_generate gen async_partial_rollout fuel prompt_ids sampling env =
     (let limit_key = limit_key_of sampling;
          original = (case limit_key of None \<Rightarrow> None | Some k \<Rightarrow> extra_get sampling k)
      in fully_async_loop gen (async_partial_rollout \<noteq> Some False) prompt_ids limit_key original
           fuel 0 (fg_start sampling) env)"

subsection \<open>Resumed generation\<close>

lemma fg_merge_tokens [simp]: "token_ids (fg_out (fg_merge st out)) = token_ids (fg_out st) @ token_ids out"
  by (simp add: fg_merge_def Let_def)

lemma fg_budget_tokens: "fg_budget k m st = (st1, full) \<Longrightarrow> token_ids (fg_out st1) = token_ids (fg_out st)"
  by (auto simp: fg_budget_def Let_def split: option.splits if_splits)

lemma fg_budget_sampling:
  "fg_budget (Some k) (Some m) st = (st1, False) \<Longrightarrow>
   extra_get (fg_sampling st1) k = Some (m - int (length (token_ids (fg_out st1)))) \<and>
   int (length (token_ids (fg_out st1))) < m"
  by (auto simp: fg_budget_def Let_def extra_get_def split: if_splits)

lemma fg_finish_tokens [simp]: "token_ids (fg_finish st) = token_ids (fg_out st)"
  by (simp add: fg_finish_def)

text \<open>What every merge keeps of the tokens holds of the tokens returned.\<close>

lemma fully_async_loop_invariant:
  assumes "fully_async_loop gen retry p k m fuel i st env = Some (Inr out, env')"
    and "P (token_ids (fg_out st))"
    and step: "\<And>i ts s e o1 e1. P ts \<Longrightarrow> gen i (p @ ts) s e = (Inr o1, e1) \<Longrightarrow> P (ts @ token_ids o1)"
  shows "P (token_ids out)"
  using assms(1,2)
proof (induction fuel arbitrary: i st env)
  case (Suc fuel)
  from Suc.prems(1) obtain o1 e1 where
    g: "gen i (p @ token_ids (fg_out st)) (fg_sampling st) env = (Inr o1, e1)"
    by (auto split: prod.splits sum.splits)
  obtain st1 full where b: "fg_budget k m (fg_merge st o1) = (st1, full)" by force
  have "P (token_ids (fg_out st1))"
    using step [OF Suc.prems(2) g] fg_budget_tokens [OF b] by simp
  with Suc g b show ?case by (auto split: if_splits)
qed simp

text \<open>
  Interruptions are invisible: if every partial answer continues one fixed sequence \<open>T\<close> from
  the prompt it is given, the merged answer continues \<open>T\<close> from the original prompt, with no token
  lost or repeated at the joints.
\<close>

theorem resumed_generation_continues:
  assumes "fully_async_generate gen ap fuel p sampling env = Some (Inr out, env')"
    and "\<And>i q s e o1 e1. prefix q T \<Longrightarrow> gen i q s e = (Inr o1, e1) \<Longrightarrow> prefix (q @ token_ids o1) T"
    and "prefix p T"
  shows "prefix (p @ token_ids out) T"
proof (rule fully_async_loop_invariant [where P = "\<lambda>ts. prefix (p @ ts) T"])
  show "fully_async_loop gen (ap \<noteq> Some False) p (limit_key_of sampling)
      (case limit_key_of sampling of None \<Rightarrow> None | Some k \<Rightarrow> extra_get sampling k) fuel 0
      (fg_start sampling) env = Some (Inr out, env')"
    using assms(1) by (simp add: fully_async_generate_def Let_def)
  show "prefix (p @ token_ids (fg_out (fg_start sampling))) T"
    using assms(3) by (simp add: fg_start_def)
  fix i ts s e o1 e1
  assume "prefix (p @ ts) T" "gen i (p @ ts) s e = (Inr o1, e1)"
  then show "prefix (p @ (ts @ token_ids o1)) T" using assms(2) by fastforce
qed

text \<open>A server that stops after two tokens of \<open>T\<close> and aborts until \<open>T\<close> is used up.\<close>

definition chunked_server ::
  "int list \<Rightarrow> nat \<Rightarrow> int list \<Rightarrow> (string, int option) dict \<Rightarrow> unit \<Rightarrow> unit token_output result \<times> unit" where
  "chunked_server T i q s e =
     (let rest = drop (length q) T in
      (Inr \<lparr>token_ids = take 2 rest, log_probs = None, routed_experts = None,
        stop_reason = (if length rest \<le> 2 then Some ''completed'' else Some ''aborted''),
        num_preempted = None, extra_fields = [(''global_steps'', Some (int i))]\<rparr>, ()))"

theorem resumed_generation_continues_witness:
  "\<exists>out. fully_async_generate (chunked_server [1, 2, 3, 4, 5]) None 3 [1] [] () = Some (Inr out, ()) \<and>
     prefix ([1] @ token_ids out) [1, 2, 3, 4, 5] \<and> token_ids out = [2, 3, 4, 5]"
proof -
  let ?T = "[1, 2, 3, 4, 5 :: int]"
  have "map_option (map_sum id token_ids \<circ> fst) (fully_async_generate (chunked_server ?T) None 3 [1] [] ()) =
      Some (Inr [2, 3, 4, 5])"
    by code_simp
  then obtain out where r: "fully_async_generate (chunked_server ?T) None 3 [1] [] () = Some (Inr out, ())"
    and t: "token_ids out = [2, 3, 4, 5]"
    by (auto simp: map_option_eq_Some) (metis (no_types, lifting) Inl_Inr_False map_sum.simps obj_sumE sum.inject(2))
  have "prefix ([1] @ token_ids out) ?T"
  proof (rule resumed_generation_continues [OF r])
    fix i q s e and o1 :: "unit token_output" and e1
    assume "prefix q ?T" "chunked_server ?T i q s e = (Inr o1, e1)"
    then have "token_ids o1 = take 2 (drop (length q) ?T)" "?T = q @ drop (length q) ?T"
      by (auto simp: chunked_server_def Let_def elim!: prefixE)
    then show "prefix (q @ token_ids o1) ?T" by (metis same_prefix_prefix take_is_prefix)
  qed simp
  with r t show ?thesis by blast
qed

lemma fully_async_loop_total:
  assumes gen: "\<And>i q s e o1 e1 b. gen i q s e = (Inr o1, e1) \<Longrightarrow> extra_get s k = Some b \<Longrightarrow>
      int (length (token_ids o1)) \<le> max 0 b \<and>
      (stop_reason o1 \<in> {Some ''aborted'', Some ''abort''} \<longrightarrow> token_ids o1 \<noteq> [])"
    and "extra_get (fg_sampling st) k = Some (m - int (length (token_ids (fg_out st))))"
    and "int (length (token_ids (fg_out st))) \<le> m" "m - int (length (token_ids (fg_out st))) < int fuel"
  shows "\<exists>r env'. fully_async_loop gen retry p (Some k) (Some m) fuel i st env = Some (r, env') \<and>
    (\<forall>out. r = Inr out \<longrightarrow> int (length (token_ids out)) \<le> m)"
  using assms(2-)
proof (induction fuel arbitrary: i st env)
  case (Suc fuel)
  let ?ts = "token_ids (fg_out st)"
  obtain r1 e1 where g: "gen i (p @ ?ts) (fg_sampling st) env = (r1, e1)" by force
  show ?case
  proof (cases r1)
    case (Inl x)
    with g show ?thesis by simp
  next
    case (Inr o1)
    obtain st1 full where b: "fg_budget (Some k) (Some m) (fg_merge st o1) = (st1, full)" by force
    have t: "token_ids (fg_out st1) = ?ts @ token_ids o1" using fg_budget_tokens [OF b] by simp
    have o1: "int (length (token_ids o1)) \<le> m - int (length ?ts)"
      "stop_reason o1 \<in> {Some ''aborted'', Some ''abort''} \<longrightarrow> token_ids o1 \<noteq> []"
      using gen [OF g [unfolded Inr] Suc.prems(1)] Suc.prems(2) by auto
    then have len: "int (length (token_ids (fg_out st1))) \<le> m" by (simp add: t)
    show ?thesis
    proof (cases "full \<or> stop_reason o1 \<notin> {Some ''aborted'', Some ''abort''} \<or> \<not> retry")
      case True
      then have "fully_async_loop gen retry p (Some k) (Some m) (Suc fuel) i st env = Some (Inr (fg_finish st1), e1)"
        by (auto simp: g Inr b)
      with len show ?thesis by auto
    next
      case False
      then have eq: "fully_async_loop gen retry p (Some k) (Some m) (Suc fuel) i st env =
          fully_async_loop gen retry p (Some k) (Some m) fuel (Suc i) st1 e1"
        by (auto simp: g Inr b)
      have "token_ids o1 \<noteq> []" using False o1(2) by blast
      then have "m - int (length (token_ids (fg_out st1))) < int fuel"
        using Suc.prems(3) by (cases "token_ids o1") (auto simp: t)
      moreover have "extra_get (fg_sampling st1) k = Some (m - int (length (token_ids (fg_out st1))))"
        using fg_budget_sampling [of k m "fg_merge st o1" st1] b False by simp
      ultimately show ?thesis unfolding eq using Suc.IH [OF _ len] by blast
    qed
  qed
qed simp

text \<open>
  The loop ends and respects the budget: with a limit of \<open>m\<close> tokens, a server that never
  exceeds the limit it is given and never aborts without a token, \<open>m + 1\<close> iterations are enough,
  and an answer never has more than \<open>m\<close> tokens.
\<close>

theorem fully_async_generate_bounded:
  assumes "\<And>i q s e o1 e1 b. gen i q s e = (Inr o1, e1) \<Longrightarrow> extra_get s k = Some b \<Longrightarrow>
      int (length (token_ids o1)) \<le> max 0 b \<and>
      (stop_reason o1 \<in> {Some ''aborted'', Some ''abort''} \<longrightarrow> token_ids o1 \<noteq> [])"
    and "limit_key_of sampling = Some k" "extra_get sampling k = Some m" "0 \<le> m" "m < int fuel"
  shows "\<exists>r env'. fully_async_generate gen ap fuel p sampling env = Some (r, env') \<and>
    (\<forall>out. r = Inr out \<longrightarrow> int (length (token_ids out)) \<le> m)"
proof -
  have "extra_get (fg_sampling (fg_start sampling)) k =
      Some (m - int (length (token_ids (fg_out (fg_start sampling)))))"
    "int (length (token_ids (fg_out (fg_start sampling)))) \<le> m"
    "m - int (length (token_ids (fg_out (fg_start sampling)))) < int fuel"
    using assms(3-5) by (simp_all add: fg_start_def)
  from fully_async_loop_total [where gen = gen, OF assms(1) this] assms(2,3) show ?thesis
    by (simp add: fully_async_generate_def)
qed

text \<open>A server that is aborted after every token but keeps to its limit.\<close>

definition aborting_server ::
  "nat \<Rightarrow> int list \<Rightarrow> (string, int option) dict \<Rightarrow> unit \<Rightarrow> unit token_output result \<times> unit" where
  "aborting_server i q s e =
     (let full = (case extra_get s ''max_tokens'' of None \<Rightarrow> False | Some b \<Rightarrow> b \<le> 0) in
      (Inr \<lparr>token_ids = (if full then [] else [int i]), log_probs = None, routed_experts = None,
        stop_reason = (if full then Some ''length'' else Some ''aborted''),
        num_preempted = None, extra_fields = []\<rparr>, ()))"

theorem fully_async_generate_bounded_witness:
  "\<exists>r env'. fully_async_generate aborting_server None 4 [1] [(''max_tokens'', Some 3)] () = Some (r, env') \<and>
    r \<noteq> Inr (fg_out (fg_start []))"
proof -
  have "\<exists>r env'. fully_async_generate aborting_server None 4 [1] [(''max_tokens'', Some 3)] () = Some (r, env') \<and>
      (\<forall>out. r = Inr out \<longrightarrow> int (length (token_ids out)) \<le> 3)"
    by (rule fully_async_generate_bounded [where k = "''max_tokens''"])
      (auto simp: aborting_server_def limit_key_of_def dict_has_def extra_get_def Let_def split: if_splits)
  moreover have "fully_async_generate aborting_server None 4 [1] [(''max_tokens'', Some 3)] () \<noteq>
      Some (Inr (fg_out (fg_start [])), ())"
    by code_simp
  ultimately show ?thesis by auto
qed

end
