(* ===== verification/MessageQueue.thy ===== *)
theory MessageQueue
  imports Prelude "HOL-Library.Sublist"
begin

text \<open>
  Model of the actor \<open>MessageQueue\<close> of
  \<open>verl/experimental/fully_async_policy/message_queue.py\<close>.  Every method runs under the queue's
  lock, so an execution is a sequence of steps; a \<open>get_sample\<close> that has to wait changes nothing
  and is tried again later.
\<close>

record 'a message_queue =
  mq_max_queue_size :: nat
  mq_queue :: "'a list"
  mq_val_queue :: "'a list"
  mq_running :: bool
  mq_total_produced :: nat
  mq_total_consumed :: nat
  mq_dropped_samples :: nat

definition mq_init :: "int option \<Rightarrow> 'a message_queue result" where
  "mq_init max_queue_size =
     (case max_queue_size of
        None \<Rightarrow> Inl (ValueError ''max_queue_size cannot be None, got: None'')
      | Some n \<Rightarrow> if n < 0 then Inl (ValueError ''maxlen must be non-negative'')
          else Inr \<lparr>mq_max_queue_size = nat n, mq_queue = [], mq_val_queue = [], mq_running = True,
            mq_total_produced = 0, mq_total_consumed = 0, mq_dropped_samples = 0\<rparr>)"

text \<open>\<open>deque(maxlen=m).append\<close>: a full deque loses its leftmost item.\<close>

definition deque_append :: "nat \<Rightarrow> 'a list \<Rightarrow> 'a \<Rightarrow> 'a list" where
  "deque_append m q x = drop (Suc (length q) - m) (q @ [x])"

definition put_sample :: "'a message_queue \<Rightarrow> 'a \<Rightarrow> bool result \<times> 'a message_queue" where
  "put_sample mq sample =
     (let is_drop = (mq_max_queue_size mq \<le> length (mq_queue mq)) in
      if is_drop \<and> mq_queue mq = [] then (Inl IndexError, mq)
      else let mq1 = (if is_drop
              then mq\<lparr>mq_queue := tl (mq_queue mq), mq_dropped_samples := mq_dropped_samples mq + 1\<rparr>
              else mq)
        in (Inr (\<not> is_drop), mq1\<lparr>mq_queue := deque_append (mq_max_queue_size mq1) (mq_queue mq1) sample,
              mq_total_produced := mq_total_produced mq1 + 1\<rparr>))"

datatype 'a get_outcome = Waiting | Closed | Got 'a nat

definition get_sample :: "'a message_queue \<Rightarrow> 'a get_outcome \<times> 'a message_queue" where
  "get_sample mq =
     (case mq_queue mq of
        [] \<Rightarrow> (if mq_running mq then Waiting else Closed, mq)
      | data # rest \<Rightarrow> (Got data (length rest),
          mq\<lparr>mq_queue := rest, mq_total_consumed := mq_total_consumed mq + 1\<rparr>))"

definition get_queue_size :: "'a message_queue \<Rightarrow> nat" where
  "get_queue_size mq = length (mq_queue mq)"

record queue_statistics =
  qs_queue_size :: nat
  qs_total_produced :: nat
  qs_total_consumed :: nat
  qs_dropped_samples :: nat
  qs_max_queue_size :: nat

definition get_statistics :: "'a message_queue \<Rightarrow> queue_statistics" where
  "get_statistics mq = \<lparr>qs_queue_size = length (mq_queue mq), qs_total_produced = mq_total_produced mq,
     qs_total_consumed = mq_total_consumed mq, qs_dropped_samples = mq_dropped_samples mq,
     qs_max_queue_size = mq_max_queue_size mq\<rparr>"

definition clear_queue :: "'a message_queue \<Rightarrow> 'a message_queue" where
  "clear_queue mq = mq\<lparr>mq_queue := []\<rparr>"

definition mq_shutdown :: "'a message_queue \<Rightarrow> 'a message_queue" where
  "mq_shutdown mq = mq\<lparr>mq_running := False\<rparr>"

definition put_validate :: "'a message_queue \<Rightarrow> 'a \<Rightarrow> 'a message_queue" where
  "put_validate mq data = mq\<lparr>mq_val_queue := mq_val_queue mq @ [data]\<rparr>"

definition get_validate :: "'a message_queue \<Rightarrow> 'a option \<times> 'a message_queue" where
  "get_validate mq = (case mq_val_queue mq of [] \<Rightarrow> (None, mq)
     | d # ds \<Rightarrow> (Some d, mq\<lparr>mq_val_queue := ds\<rparr>))"

text \<open>
  Executions, with a history: the samples put, the samples handed out, and how many samples
  \<open>clear_queue\<close> has thrown away (the code does not count these).
\<close>

datatype 'a mq_event = Put 'a | Get | Clear | Shutdown | PutVal 'a | GetVal

record 'a mq_history =
  mh_queue :: "'a message_queue"
  mh_put :: "'a list"
  mh_got :: "'a list"
  mh_cleared :: nat

fun mq_step :: "'a mq_history \<Rightarrow> 'a mq_event \<Rightarrow> 'a mq_history" where
  "mq_step h (Put x) = (case put_sample (mh_queue h) x of
       (Inl _, mq) \<Rightarrow> h\<lparr>mh_queue := mq\<rparr>
     | (Inr _, mq) \<Rightarrow> h\<lparr>mh_queue := mq, mh_put := mh_put h @ [x]\<rparr>)"
| "mq_step h Get = (case get_sample (mh_queue h) of
       (Got x _, mq) \<Rightarrow> h\<lparr>mh_queue := mq, mh_got := mh_got h @ [x]\<rparr>
     | (_, mq) \<Rightarrow> h\<lparr>mh_queue := mq\<rparr>)"
| "mq_step h Clear = h\<lparr>mh_queue := clear_queue (mh_queue h),
     mh_cleared := mh_cleared h + length (mq_queue (mh_queue h))\<rparr>"
| "mq_step h Shutdown = h\<lparr>mh_queue := mq_shutdown (mh_queue h)\<rparr>"
| "mq_step h (PutVal x) = h\<lparr>mh_queue := put_validate (mh_queue h) x\<rparr>"
| "mq_step h GetVal = h\<lparr>mh_queue := snd (get_validate (mh_queue h))\<rparr>"

definition mq_start :: "'a message_queue \<Rightarrow> 'a mq_history" where
  "mq_start mq = \<lparr>mh_queue = mq, mh_put = [], mh_got = [], mh_cleared = 0\<rparr>"

subsection \<open>Invariant\<close>

definition mq_inv :: "'a mq_history \<Rightarrow> bool" where
  "mq_inv h \<longleftrightarrow> (let mq = mh_queue h in
     length (mq_queue mq) \<le> mq_max_queue_size mq \<and>
     subseq (mh_got h @ mq_queue mq) (mh_put h) \<and>
     mq_total_produced mq = length (mh_put h) \<and> mq_total_consumed mq = length (mh_got h) \<and>
     mq_total_produced mq =
       mq_total_consumed mq + mq_dropped_samples mq + length (mq_queue mq) + mh_cleared h)"

lemma subseq_drop_middle: "subseq (xs @ y # ys) zs \<Longrightarrow> subseq (xs @ ys) zs"
proof -
  assume "subseq (xs @ y # ys) zs"
  moreover have "subseq (xs @ ys) (xs @ y # ys)" unfolding subseq_append' by auto
  ultimately show ?thesis by (rule subseq_order.order_trans [rotated])
qed

lemma subseq_snoc: "subseq xs ys \<Longrightarrow> subseq (xs @ [z]) (ys @ [z])"
  by (simp add: list_emb_append_mono)

lemma put_sample_full:
  "mq_queue mq = y # q \<Longrightarrow> mq_max_queue_size mq = Suc (length q) \<Longrightarrow>
   put_sample mq x = (Inr False, mq\<lparr>mq_queue := q @ [x], mq_dropped_samples := mq_dropped_samples mq + 1,
     mq_total_produced := mq_total_produced mq + 1\<rparr>)"
  by (simp add: put_sample_def Let_def deque_append_def)

lemma put_sample_room:
  "length (mq_queue mq) < mq_max_queue_size mq \<Longrightarrow>
   put_sample mq x = (Inr True, mq\<lparr>mq_queue := mq_queue mq @ [x],
     mq_total_produced := mq_total_produced mq + 1\<rparr>)"
  by (simp add: put_sample_def Let_def deque_append_def)

lemma put_sample_inv:
  assumes inv: "mq_inv h"
  shows "mq_inv (mq_step h (Put x))"
proof -
  let ?mq = "mh_queue h"
  have facts: "length (mq_queue ?mq) \<le> mq_max_queue_size ?mq" "subseq (mh_got h @ mq_queue ?mq) (mh_put h)"
    "mq_total_produced ?mq = length (mh_put h)" "mq_total_consumed ?mq = length (mh_got h)"
    "length (mh_put h) = length (mh_got h) + mq_dropped_samples ?mq + length (mq_queue ?mq) + mh_cleared h"
    using inv by (auto simp: mq_inv_def Let_def)
  show ?thesis
  proof (cases "length (mq_queue ?mq) < mq_max_queue_size ?mq")
    case True
    have "subseq ((mh_got h @ mq_queue ?mq) @ [x]) (mh_put h @ [x])" by (rule subseq_snoc) (rule facts(2))
    with True facts show ?thesis by (simp add: put_sample_room mq_inv_def Let_def)
  next
    case full: False
    show ?thesis
    proof (cases "mq_queue ?mq")
      case Nil
      with full inv show ?thesis by (simp add: put_sample_def)
    next
      case (Cons y q)
      then have m: "mq_max_queue_size ?mq = Suc (length q)" using full facts(1) by simp
      have "subseq (mh_got h @ q) (mh_put h)" using facts(2) unfolding Cons by (rule subseq_drop_middle)
      then have "subseq ((mh_got h @ q) @ [x]) (mh_put h @ [x])" by (rule subseq_snoc)
      with facts(3-5) Cons show ?thesis
        by (simp add: put_sample_full [OF Cons m] mq_inv_def Let_def m)
    qed
  qed
qed

lemma subseq_prefix_left: "subseq (xs @ ys) zs \<Longrightarrow> subseq xs zs"
  by (rule subseq_order.order_trans) auto

lemma mq_step_inv: "mq_inv h \<Longrightarrow> mq_inv (mq_step h e)"
proof (cases e)
  case (Put x)
  assume "mq_inv h"
  then show ?thesis unfolding Put by (rule put_sample_inv)
qed (auto simp: mq_inv_def Let_def get_sample_def clear_queue_def mq_shutdown_def put_validate_def
    get_validate_def split: list.splits intro: subseq_prefix_left)

interpretation mqm: invariant_machine mq_step mq_inv
  by unfold_locales (rule mq_step_inv)

lemma mq_inv_init: "mq_init n = Inr mq \<Longrightarrow> mq_inv (mq_start mq)"
  by (auto simp: mq_init_def mq_start_def mq_inv_def Let_def split: option.splits if_splits)

text \<open>
  C37. After any execution the queue is within its bound, the samples handed out followed by the
  samples still queued are a subsequence of the samples put (first in first out, only whole
  samples lost), and every sample put is accounted for: consumed, dropped, queued or cleared.
\<close>

theorem message_queue_fifo_accounting:
  assumes "mq_init n = Inr mq" and "h = foldl mq_step (mq_start mq) events"
  shows "length (mq_queue (mh_queue h)) \<le> mq_max_queue_size (mh_queue h) \<and>
    subseq (mh_got h @ mq_queue (mh_queue h)) (mh_put h) \<and>
    length (mh_put h) = length (mh_got h) + mq_dropped_samples (mh_queue h) +
      length (mq_queue (mh_queue h)) + mh_cleared h"
  using mqm.run_inv [OF mq_inv_init [OF assms(1)], of events]
  unfolding assms(2) [symmetric] by (simp add: mq_inv_def Let_def)

theorem message_queue_fifo_accounting_witness:
  "\<exists>h. h = foldl mq_step (mq_start \<lparr>mq_max_queue_size = 2, mq_queue = [], mq_val_queue = [],
      mq_running = True, mq_total_produced = 0, mq_total_consumed = 0, mq_dropped_samples = 0\<rparr>)
      [Put 1, Put 2, Put (3 :: nat), Get, Clear, Get] \<and>
    mh_got h = [2] \<and> length (mh_put h) = 1 + 1 + 0 + mh_cleared h"
proof -
  let ?mq = "\<lparr>mq_max_queue_size = 2, mq_queue = [], mq_val_queue = [], mq_running = True,
      mq_total_produced = 0, mq_total_consumed = 0, mq_dropped_samples = 0\<rparr> :: nat message_queue"
  let ?h = "foldl mq_step (mq_start ?mq) [Put 1, Put 2, Put 3, Get, Clear, Get]"
  have i: "mq_init (Some 2) = Inr ?mq" by (simp add: mq_init_def)
  have "mh_got ?h = [2] \<and> mq_dropped_samples (mh_queue ?h) = 1 \<and> mq_queue (mh_queue ?h) = []"
    by code_simp
  with message_queue_fifo_accounting [OF i refl, of "[Put 1, Put 2, Put 3, Get, Clear, Get]"]
  show ?thesis by (intro exI [of _ ?h]) simp
qed

end
