(* ===== verification/ReplayBuffer.thy ===== *)
theory ReplayBuffer
  imports PyDict "HOL-Library.Sublist"
begin

text \<open>
  Model of \<open>verl/trainer/ppo/v1/replay_buffer.py\<close>.  The key-value store is the third-party
  TransferQueue: \<open>sample\<close> polls it, so the answers of \<open>kv_list\<close> are a list of snapshots, and the
  calls of \<open>kv_clear\<close> and of the refill function are recorded in order.  A Python set is a list
  without repetition; the order in which it is iterated is the parameter \<open>it\<close>, of which only
  \<open>set_iter_ok\<close> is assumed.  A tag is its three keys that the code reads and the rest.
\<close>

record 'm rb_tag =
  rt_is_prompt :: bool
  rt_global_steps :: "int option"
  rt_status :: "string option"
  rt_rest :: 'm

type_synonym 'm snapshot = "(string, (string, 'm rb_tag) dict) dict"

record 'm rb_meta =
  rb_partitions :: "(string, (string, 'm rb_tag) dict) dict"
  rb_pending :: "(string, string list) dict"
  rb_running :: "(string, string list) dict"
  rb_finished :: "(string, string list) dict"
  rb_failure :: "(string, string list) dict"
  rb_prompt_steps :: "(string, (string, int) dict) dict"

record rb_config =
  rb_threshold :: int
  rb_strategy :: string

definition rb_init :: "int \<Rightarrow> string \<Rightarrow> rb_config result" where
  "rb_init threshold strategy =
     guard_assert (0 < threshold) (guard_assert (strategy \<in> {''drop'', ''wait''})
       (Inr \<lparr>rb_threshold = threshold, rb_strategy = strategy\<rparr>))"

text \<open>A \<open>defaultdict\<close> of collections: a missing entry reads as the empty one.\<close>

abbreviation dd_get :: "(string, 'a list) dict \<Rightarrow> string \<Rightarrow> 'a list" where
  "dd_get d k \<equiv> dict_get_default d k []"

definition set_add :: "'a list \<Rightarrow> 'a \<Rightarrow> 'a list" where
  "set_add xs x = (if x \<in> set xs then xs else xs @ [x])"

definition set_union :: "'a list \<Rightarrow> 'a list \<Rightarrow> 'a list" where
  "set_union xs ys = foldl set_add xs ys"

definition dd_add :: "(string, string list) dict \<Rightarrow> string \<Rightarrow> string \<Rightarrow> (string, string list) dict" where
  "dd_add d pid key = dict_set d pid (set_add (dd_get d pid) key)"

subsection \<open>Metadata\<close>

definition rb_empty :: "'m rb_meta" where
  "rb_empty = \<lparr>rb_partitions = [], rb_pending = [], rb_running = [], rb_finished = [], rb_failure = [],
     rb_prompt_steps = []\<rparr>"

definition sync_item :: "string \<Rightarrow> 'm rb_meta \<Rightarrow> string \<times> 'm rb_tag \<Rightarrow> 'm rb_meta result" where
  "sync_item pid meta item = (case item of (key, tag) \<Rightarrow>
     if rt_is_prompt tag then
       (case rt_global_steps tag of
          None \<Rightarrow> Inl (KeyError ''global_steps'')
        | Some g \<Rightarrow>
            (let m1 = meta\<lparr>rb_prompt_steps :=
               dict_set (rb_prompt_steps meta) pid (dict_set (dd_get (rb_prompt_steps meta) pid) key g)\<rparr> in
             case rt_status tag of
               None \<Rightarrow> Inl (KeyError ''status'')
             | Some s \<Rightarrow>
                 if s = ''pending'' then Inr (m1\<lparr>rb_pending := dd_add (rb_pending m1) pid key\<rparr>)
                 else if s = ''running'' then Inr (m1\<lparr>rb_running := dd_add (rb_running m1) pid key\<rparr>)
                 else if s = ''finished'' then Inr (m1\<lparr>rb_finished := dd_add (rb_finished m1) pid key\<rparr>)
                 else if s = ''failure'' then Inr (m1\<lparr>rb_failure := dd_add (rb_failure m1) pid key\<rparr>)
                 else Inl (ValueError (''Unknown status: '' @ s))))
     else Inr (meta\<lparr>rb_partitions :=
       dict_set (rb_partitions meta) pid (dict_set (dd_get (rb_partitions meta) pid) key tag)\<rparr>))"

definition sync_partition :: "'m rb_meta \<Rightarrow> string \<times> (string, 'm rb_tag) dict \<Rightarrow> 'm rb_meta result" where
  "sync_partition meta p = (case p of (pid, items) \<Rightarrow>
     rfold (sync_item pid) (meta\<lparr>rb_partitions := dict_setdefault (rb_partitions meta) pid []\<rparr>) items)"

definition sync_metadata :: "'m snapshot option \<Rightarrow> 'm rb_meta result" where
  "sync_metadata data =
     (case data of None \<Rightarrow> Inr rb_empty | Some ps \<Rightarrow> rfold sync_partition rb_empty ps)"

subsection \<open>Selection and dropping\<close>

definition terminal_keys :: "'m rb_meta \<Rightarrow> string \<Rightarrow> string list" where
  "terminal_keys meta pid = set_union (dd_get (rb_finished meta) pid) (dd_get (rb_failure meta) pid)"

definition version_span :: "'m rb_meta \<Rightarrow> string \<Rightarrow> int \<Rightarrow> string \<Rightarrow> int" where
  "version_span meta pid global_steps uid =
     global_steps - dict_get_default (dd_get (rb_prompt_steps meta) pid) uid global_steps + 1"

definition sampleable_terminal_keys :: "rb_config \<Rightarrow> 'm rb_meta \<Rightarrow> int \<Rightarrow> string \<Rightarrow> string list" where
  "sampleable_terminal_keys cfg meta global_steps pid =
     (if rb_strategy cfg \<noteq> ''drop'' then terminal_keys meta pid
      else filter (\<lambda>uid. version_span meta pid global_steps uid \<le> rb_threshold cfg) (terminal_keys meta pid))"

fun late_scan :: "(string, int) dict \<Rightarrow> int \<Rightarrow> int \<Rightarrow> string list \<Rightarrow> bool result" where
  "late_scan steps threshold global_steps [] = Inr False"
| "late_scan steps threshold global_steps (key # keys) =
     (case dict_get steps key of
        None \<Rightarrow> Inl (KeyError key)
      | Some g \<Rightarrow> if threshold \<le> global_steps - g + 1 then Inr True
          else late_scan steps threshold global_steps keys)"

definition has_enough_samples ::
  "(string list \<Rightarrow> string list) \<Rightarrow> rb_config \<Rightarrow> 'm rb_meta \<Rightarrow> int \<Rightarrow> string \<Rightarrow> nat \<Rightarrow> bool result" where
  "has_enough_samples it cfg meta global_steps pid batch_size =
     rbind (if rb_strategy cfg = ''wait''
            then late_scan (dd_get (rb_prompt_steps meta) pid) (rb_threshold cfg) global_steps
              (it (set_union (dd_get (rb_pending meta) pid) (dd_get (rb_running meta) pid)))
            else Inr False)
       (\<lambda>late. Inr (\<not> late \<and>
          batch_size \<le> length (sampleable_terminal_keys cfg meta global_steps pid)))"

text \<open>\<open>key.split("_")[0]\<close>.\<close>

definition key_uid :: "string \<Rightarrow> string" where
  "key_uid key = takeWhile (\<lambda>c. c \<noteq> CHR ''_'') key"

definition metric_prefix :: "string \<Rightarrow> string" where
  "metric_prefix pid = (if pid = ''train'' then ''training'' else ''validation'')"

definition drop_metrics :: "string \<Rightarrow> int list \<Rightarrow> (string, rat) dict" where
  "drop_metrics pid spans =
     [(metric_prefix pid @ ''/off_policy/dropped_samples'', of_nat (length spans)),
      (metric_prefix pid @ ''/off_policy/dropped_samples_staleness/mean'',
         of_int (sum_list spans) / of_nat (length spans)),
      (metric_prefix pid @ ''/off_policy/dropped_samples_staleness/max'', of_int (foldl max (hd spans) (tl spans))),
      (metric_prefix pid @ ''/off_policy/dropped_samples_staleness/min'', of_int (foldl min (hd spans) (tl spans)))]"

record drop_outcome =
  do_count :: nat
  do_metrics :: "(string, rat) dict"
  do_cleared :: "string list"

definition drop_stale_finished ::
  "(string list \<Rightarrow> string list) \<Rightarrow> rb_config \<Rightarrow> 'm rb_meta \<Rightarrow> int \<Rightarrow> string \<Rightarrow> drop_outcome" where
  "drop_stale_finished it cfg meta global_steps pid =
     (let keep = sampleable_terminal_keys cfg meta global_steps pid;
          stale = filter (\<lambda>uid. uid \<notin> set keep) (terminal_keys meta pid) in
      if rb_strategy cfg \<noteq> ''drop'' \<or> stale = [] then \<lparr>do_count = 0, do_metrics = [], do_cleared = []\<rparr>
      else
        (let spans = map (version_span meta pid global_steps) (it stale);
             traj_keys = filter (\<lambda>key. key_uid key \<in> set stale) (dict_keys (dd_get (rb_partitions meta) pid))
         in \<lparr>do_count = length stale, do_metrics = drop_metrics pid spans, do_cleared = it stale @ traj_keys\<rparr>))"

definition accumulate_item ::
  "rat \<Rightarrow> nat \<Rightarrow> (string, rat) dict \<Rightarrow> string \<times> rat \<Rightarrow> (string, rat) dict" where
  "accumulate_item prev_total dropped acc item = (case item of (key, value) \<Rightarrow>
     if suffix ''/dropped_samples'' key then dict_set acc key (dict_get_default acc key 0 + value)
     else if suffix ''/dropped_samples_staleness/mean'' key then
       (let denom = prev_total + of_nat dropped in
        dict_set acc key (if denom \<noteq> 0
          then (dict_get_default acc key 0 * prev_total + value * of_nat dropped) / denom else value))
     else if suffix ''/dropped_samples_staleness/max'' key then
       dict_set acc key (max (dict_get_default acc key value) value)
     else if suffix ''/dropped_samples_staleness/min'' key then
       dict_set acc key (min (dict_get_default acc key value) value)
     else acc)"

definition accumulate_drop_metrics ::
  "(string, rat) dict \<Rightarrow> (string, rat) dict \<Rightarrow> nat \<Rightarrow> (string, rat) dict" where
  "accumulate_drop_metrics acc new dropped =
     (let prev_total = (case find (suffix ''/dropped_samples'') (dict_keys new) of
            None \<Rightarrow> 0 | Some k \<Rightarrow> dict_get_default acc k 0)
      in foldl (accumulate_item prev_total dropped) acc new)"

subsection \<open>\<open>sample\<close>\<close>

record 'm rb_batch =
  bt_keys :: "string list"
  bt_tags :: "'m rb_tag list"
  bt_selected :: "string list"
  bt_metrics :: "(string, rat) dict"
  bt_cleared :: "string list list"
  bt_refills :: "nat list"

definition select_batch ::
  "(string list \<Rightarrow> string list) \<Rightarrow> rb_config \<Rightarrow> 'm rb_meta \<Rightarrow> int \<Rightarrow> string \<Rightarrow> nat \<Rightarrow> string list" where
  "select_batch it cfg meta global_steps pid batch_size =
     take batch_size (sort_key (\<lambda>key. dict_get_default (dd_get (rb_prompt_steps meta) pid) key 0)
       (it (sampleable_terminal_keys cfg meta global_steps pid)))"

definition finish_batch ::
  "rb_config \<Rightarrow> 'm rb_meta \<Rightarrow> int \<Rightarrow> string \<Rightarrow> string list \<Rightarrow>
   (string, rat) dict \<Rightarrow> string list list \<Rightarrow> nat list \<Rightarrow> 'm rb_batch result" where
  "finish_batch cfg meta global_steps pid selected metrics cleared refills =
     guard_assert (rb_strategy cfg = ''drop'' \<longrightarrow>
         list_all (\<lambda>uid. version_span meta pid global_steps uid \<le> rb_threshold cfg) selected)
       (let items = filter (\<lambda>(key, tag). key_uid key \<in> set selected) (dd_get (rb_partitions meta) pid)
        in Inr \<lparr>bt_keys = map fst items, bt_tags = map snd items, bt_selected = selected,
             bt_metrics = metrics, bt_cleared = cleared @ [selected], bt_refills = refills\<rparr>)"

text \<open>
  The polling loop, over the successive answers of \<open>kv_list\<close>; \<open>None\<close> means that it is still
  polling when the answers are used up.
\<close>

fun sample_loop ::
  "(string list \<Rightarrow> string list) \<Rightarrow> rb_config \<Rightarrow> bool \<Rightarrow> int \<Rightarrow> string \<Rightarrow> nat \<Rightarrow>
   (string, rat) dict \<Rightarrow> string list list \<Rightarrow> nat list \<Rightarrow> 'm snapshot option list \<Rightarrow> 'm rb_batch result option" where
  "sample_loop it cfg refill global_steps pid batch_size metrics cleared refills [] = None"
| "sample_loop it cfg refill global_steps pid batch_size metrics cleared refills (data # rest) =
     (case sync_metadata data of
        Inl e \<Rightarrow> Some (Inl e)
      | Inr meta \<Rightarrow>
          (let d = drop_stale_finished it cfg meta global_steps pid in
           if do_count d > 0 then
             sample_loop it cfg refill global_steps pid batch_size
               (accumulate_drop_metrics metrics (do_metrics d) (do_count d)) (cleared @ [do_cleared d])
               (if refill then refills @ [do_count d] else refills) rest
           else
             (case has_enough_samples it cfg meta global_steps pid batch_size of
                Inl e \<Rightarrow> Some (Inl e)
              | Inr True \<Rightarrow> Some (finish_batch cfg meta global_steps pid
                  (select_batch it cfg meta global_steps pid batch_size) metrics cleared refills)
              | Inr False \<Rightarrow> sample_loop it cfg refill global_steps pid batch_size metrics cleared refills rest)))"

definition rb_sample ::
  "(string list \<Rightarrow> string list) \<Rightarrow> rb_config \<Rightarrow> bool \<Rightarrow> int \<Rightarrow> string \<Rightarrow> nat \<Rightarrow> 'm snapshot option list \<Rightarrow>
   'm rb_batch result option" where
  "rb_sample it cfg refill global_steps pid batch_size polls =
     sample_loop it cfg refill global_steps pid batch_size [] [] [] polls"

subsection \<open>Laws\<close>

text \<open>Iterating a set visits every element once; nothing is assumed of the order.\<close>

definition set_iter_ok :: "(string list \<Rightarrow> string list) \<Rightarrow> bool" where
  "set_iter_ok it \<longleftrightarrow> (\<forall>xs. distinct xs \<longrightarrow> mset (it xs) = mset xs)"

lemma set_union_distinct: "distinct xs \<Longrightarrow> distinct (set_union xs ys)"
  unfolding set_union_def by (induction ys arbitrary: xs) (auto simp: set_add_def)

lemma set_union_set [simp]: "set (set_union xs ys) = set xs \<union> set ys"
  unfolding set_union_def by (induction ys arbitrary: xs) (auto simp: set_add_def)

definition rb_meta_ok :: "'m rb_meta \<Rightarrow> bool" where
  "rb_meta_ok meta \<longleftrightarrow> (\<forall>pid. distinct (dd_get (rb_finished meta) pid) \<and>
     distinct (dd_get (rb_pending meta) pid) \<and>
     (\<forall>key \<in> set (dd_get (rb_pending meta) pid) \<union> set (dd_get (rb_running meta) pid).
        dict_has (dd_get (rb_prompt_steps meta) pid) key))"

lemma dd_get_set [simp]: "dict_get_default (dict_set d k v) k' z = (if k' = k then v else dict_get_default d k' z)"
  by (simp add: dict_get_default_def)

lemma sync_item_ok: "rb_meta_ok meta \<Longrightarrow> sync_item pid meta item = Inr meta' \<Longrightarrow> rb_meta_ok meta'"
  by (auto simp: sync_item_def rb_meta_ok_def dd_add_def set_add_def Let_def
      split: prod.splits if_splits option.splits)

lemma sync_metadata_ok: "sync_metadata data = Inr meta \<Longrightarrow> rb_meta_ok meta"
proof -
  assume s: "sync_metadata data = Inr meta"
  have e: "rb_meta_ok rb_empty" by (simp add: rb_meta_ok_def rb_empty_def dict_get_default_def)
  have p: "rb_meta_ok m'" if "rb_meta_ok m" "sync_partition m x = Inr m'" for m m' and x :: "string \<times> (string, 'a rb_tag) dict"
  proof -
    obtain pid items where x: "x = (pid, items)" by force
    have "rb_meta_ok (m\<lparr>rb_partitions := dict_setdefault (rb_partitions m) pid []\<rparr>)"
      using that(1) by (simp add: rb_meta_ok_def)
    with that(2) show ?thesis unfolding sync_partition_def x prod.case
      by (rule rfold_inv [where I = rb_meta_ok]) (rule sync_item_ok)
  qed
  show ?thesis
  proof (cases data)
    case None
    with s e show ?thesis by (simp add: sync_metadata_def)
  next
    case (Some ps)
    with s have "rfold sync_partition rb_empty ps = Inr meta" by (simp add: sync_metadata_def)
    then show ?thesis using e by (rule rfold_inv [where I = rb_meta_ok]) (rule p)
  qed
qed

lemma terminal_keys_distinct: "rb_meta_ok meta \<Longrightarrow> distinct (terminal_keys meta pid)"
  by (simp add: terminal_keys_def rb_meta_ok_def set_union_distinct)

lemma sampleable_distinct: "rb_meta_ok meta \<Longrightarrow> distinct (sampleable_terminal_keys cfg meta g pid)"
  by (simp add: sampleable_terminal_keys_def terminal_keys_distinct)

lemma late_scan_False:
  "late_scan steps t g keys = Inr False \<Longrightarrow>
   \<forall>key \<in> set keys. \<exists>s. dict_get steps key = Some s \<and> g - s + 1 < t"
  by (induction keys) (auto split: option.splits if_splits)

lemma late_scan_total: "\<forall>key \<in> set keys. dict_has steps key \<Longrightarrow> \<exists>b. late_scan steps t g keys = Inr b"
  by (induction keys) (auto simp: dict_has_def)

text \<open>What the trainer may rely on for a returned batch.\<close>

definition prompt_step :: "'m rb_meta \<Rightarrow> string \<Rightarrow> string \<Rightarrow> int" where
  "prompt_step meta pid uid = dict_get_default (dd_get (rb_prompt_steps meta) pid) uid 0"

definition batch_ok :: "rb_config \<Rightarrow> 'm rb_meta \<Rightarrow> int \<Rightarrow> string \<Rightarrow> nat \<Rightarrow> 'm rb_batch \<Rightarrow> bool" where
  "batch_ok cfg meta g pid n b \<longleftrightarrow>
     length (bt_selected b) = n \<and> distinct (bt_selected b) \<and>
     set (bt_selected b) \<subseteq> set (terminal_keys meta pid) \<and>
     (\<forall>uid \<in> set (sampleable_terminal_keys cfg meta g pid) - set (bt_selected b).
        \<forall>sel \<in> set (bt_selected b). prompt_step meta pid sel \<le> prompt_step meta pid uid) \<and>
     (rb_strategy cfg = ''drop'' \<longrightarrow>
        (\<forall>uid \<in> set (bt_selected b). version_span meta pid g uid \<le> rb_threshold cfg)) \<and>
     (rb_strategy cfg = ''wait'' \<longrightarrow>
        (\<forall>key \<in> set (dd_get (rb_pending meta) pid) \<union> set (dd_get (rb_running meta) pid).
           g - prompt_step meta pid key + 1 < rb_threshold cfg)) \<and>
     bt_keys b = filter (\<lambda>key. key_uid key \<in> set (bt_selected b)) (dict_keys (dd_get (rb_partitions meta) pid))"

lemma sort_key_take_least:
  assumes "x \<in> set xs - set (take n (sort_key f xs))" "y \<in> set (take n (sort_key f xs))"
  shows "f y \<le> f x"
proof -
  let ?s = "sort_key f xs"
  have "sorted (map f (take n ?s @ drop n ?s))" by simp
  then have "\<forall>a \<in> set (take n ?s). \<forall>b \<in> set (drop n ?s). f a \<le> f b"
    by (simp only: map_append sorted_append) auto
  moreover have "x \<in> set (drop n ?s)"
    using assms(1) set_append [of "take n ?s" "drop n ?s"] by auto
  ultimately show ?thesis using assms(2) by blast
qed

lemma select_batch_ok:
  assumes it: "set_iter_ok it" and ok: "rb_meta_ok meta"
    and enough: "has_enough_samples it cfg meta g pid n = Inr True"
  shows "\<exists>b. finish_batch cfg meta g pid (select_batch it cfg meta g pid n) ms cl rf = Inr b \<and>
    batch_ok cfg meta g pid n b"
proof -
  let ?keys = "sampleable_terminal_keys cfg meta g pid" and ?sel = "select_batch it cfg meta g pid n"
  have m: "mset (it ?keys) = mset ?keys" using it sampleable_distinct [OF ok] by (simp add: set_iter_ok_def)
  have len: "n \<le> length ?keys" using enough by (auto simp: has_enough_samples_def rbind_Inr_iff)
  have selm: "mset (sort_key (\<lambda>key. prompt_step meta pid key) (it ?keys)) = mset ?keys" by (simp add: m)
  have sel: "?sel = take n (sort_key (\<lambda>key. prompt_step meta pid key) (it ?keys))"
    by (simp add: select_batch_def prompt_step_def)
  have l: "length ?sel = n" using len mset_eq_length [OF m] by (simp add: sel)
  have d: "distinct ?sel" using sampleable_distinct [OF ok] selm
    by (metis sel distinct_take mset_eq_imp_distinct_iff)
  have sub: "set ?sel \<subseteq> set ?keys" using mset_eq_setD [OF selm] by (metis sel set_take_subset)
  have trm: "set ?keys \<subseteq> set (terminal_keys meta pid)" by (auto simp: sampleable_terminal_keys_def)
  have old: "prompt_step meta pid s \<le> prompt_step meta pid uid"
    if "uid \<in> set ?keys - set ?sel" "s \<in> set ?sel" for uid s
    using sort_key_take_least [of uid "it ?keys" n "\<lambda>key. prompt_step meta pid key" s] that
      mset_eq_setD [OF m] by (simp add: sel)
  have span: "rb_strategy cfg = ''drop'' \<longrightarrow> (\<forall>uid \<in> set ?sel. version_span meta pid g uid \<le> rb_threshold cfg)"
    using sub by (auto simp: sampleable_terminal_keys_def)
  have wait: "g - prompt_step meta pid key + 1 < rb_threshold cfg"
    if "rb_strategy cfg = ''wait''" "key \<in> set (dd_get (rb_pending meta) pid) \<union> set (dd_get (rb_running meta) pid)" for key
  proof -
    let ?u = "set_union (dd_get (rb_pending meta) pid) (dd_get (rb_running meta) pid)"
    have "distinct ?u" using ok by (simp add: rb_meta_ok_def set_union_distinct)
    then have "mset (it ?u) = mset ?u" using it by (simp add: set_iter_ok_def)
    then have u: "set (it ?u) = set ?u" by (rule mset_eq_setD)
    have "late_scan (dd_get (rb_prompt_steps meta) pid) (rb_threshold cfg) g (it ?u) = Inr False"
      using enough that(1) by (auto simp: has_enough_samples_def rbind_Inr_iff)
    moreover have "key \<in> set (it ?u)" using that(2) u by simp
    ultimately obtain s where "dict_get (dd_get (rb_prompt_steps meta) pid) key = Some s"
      "g - s + 1 < rb_threshold cfg" using late_scan_False by blast
    then show ?thesis by (simp add: prompt_step_def dict_get_default_Some)
  qed
  let ?items = "filter (\<lambda>(key, tag). key_uid key \<in> set ?sel) (dd_get (rb_partitions meta) pid)"
  let ?b = "\<lparr>bt_keys = map fst ?items, bt_tags = map snd ?items, bt_selected = ?sel,
     bt_metrics = ms, bt_cleared = cl @ [?sel], bt_refills = rf\<rparr>"
  have "finish_batch cfg meta g pid ?sel ms cl rf = Inr ?b"
    using span by (simp add: finish_batch_def Let_def guard_assert_def list_all_iff)
  moreover have "map fst ?items = filter (\<lambda>key. key_uid key \<in> set ?sel) (dict_keys (dd_get (rb_partitions meta) pid))"
    by (simp add: dict_keys_def filter_map o_def case_prod_unfold)
  then have "batch_ok cfg meta g pid n ?b"
    using l d sub trm old span wait unfolding batch_ok_def by auto
  ultimately show ?thesis by blast
qed

lemma sample_loop_ok:
  assumes it: "set_iter_ok it"
    and "sample_loop it cfg refill g pid n ms cl rf polls = Some r"
  shows "(\<exists>data \<in> set polls. \<exists>e. sync_metadata data = Inl e \<and> r = Inl e) \<or>
    (\<exists>data \<in> set polls. \<exists>meta b. sync_metadata data = Inr meta \<and> r = Inr b \<and> batch_ok cfg meta g pid n b)"
  using assms(2)
proof (induction polls arbitrary: ms cl rf)
  case (Cons data polls)
  show ?case
  proof (cases "sync_metadata data")
    case (Inl e)
    with Cons.prems show ?thesis by auto
  next
    case (Inr meta)
    have ok: "rb_meta_ok meta" by (rule sync_metadata_ok [OF Inr])
    let ?u = "set_union (dd_get (rb_pending meta) pid) (dd_get (rb_running meta) pid)"
    have "distinct ?u" using ok by (simp add: rb_meta_ok_def set_union_distinct)
    then have "set (it ?u) = set ?u" using it by (intro mset_eq_setD) (simp add: set_iter_ok_def)
    then have "\<exists>b. late_scan (dd_get (rb_prompt_steps meta) pid) (rb_threshold cfg) g (it ?u) = Inr b"
      using ok by (intro late_scan_total) (simp add: rb_meta_ok_def)
    then obtain e where e: "has_enough_samples it cfg meta g pid n = Inr e"
      by (cases "rb_strategy cfg = ''wait''") (auto simp: has_enough_samples_def)
    show ?thesis
    proof (cases "do_count (drop_stale_finished it cfg meta g pid) > 0")
      case True
      with Cons Inr show ?thesis by (auto simp: Let_def)
    next
      case no_drop: False
      show ?thesis
      proof (cases e)
        case True
        with e have "has_enough_samples it cfg meta g pid n = Inr True" by simp
        from select_batch_ok [OF it ok this] obtain b where
          "finish_batch cfg meta g pid (select_batch it cfg meta g pid n) ms cl rf = Inr b"
          "batch_ok cfg meta g pid n b" by blast
        with Cons.prems Inr no_drop e True show ?thesis by (auto simp: Let_def)
      next
        case False
        with Cons Inr no_drop e show ?thesis by (auto simp: Let_def)
      qed
    qed
  qed
qed simp

text \<open>
  A batch returned by \<open>sample\<close> holds exactly \<open>batch_size\<close> distinct terminal prompts of one
  snapshot, the oldest eligible ones, and exactly their trajectories; under the \<open>drop\<close> strategy
  none of them spans more model versions than the threshold, under \<open>wait\<close> no unfinished prompt has
  reached it.
\<close>

theorem replay_sample_correct:
  assumes "set_iter_ok it" "rb_sample it cfg refill g pid n polls = Some (Inr b)"
  shows "\<exists>data \<in> set polls. \<exists>meta. sync_metadata data = Inr meta \<and> batch_ok cfg meta g pid n b"
  using sample_loop_ok [OF assms(1) assms(2) [unfolded rb_sample_def]] by auto

text \<open>A snapshot with two finished prompts, one of them stale, and a running one.\<close>

definition example_poll :: "bool \<Rightarrow> unit snapshot option" where
  "example_poll with_stale = Some [(''train'',
     (if with_stale then [(''u1'', \<lparr>rt_is_prompt = True, rt_global_steps = Some 1, rt_status = Some ''finished'', rt_rest = ()\<rparr>)] else []) @
     [(''u2'', \<lparr>rt_is_prompt = True, rt_global_steps = Some 7, rt_status = Some ''failure'', rt_rest = ()\<rparr>),
      (''u3'', \<lparr>rt_is_prompt = True, rt_global_steps = Some 6, rt_status = Some ''running'', rt_rest = ()\<rparr>),
      (''u2_0_0'', \<lparr>rt_is_prompt = False, rt_global_steps = None, rt_status = Some ''done'', rt_rest = ()\<rparr>),
      (''u3_0_0'', \<lparr>rt_is_prompt = False, rt_global_steps = None, rt_status = Some ''done'', rt_rest = ()\<rparr>)])]"

theorem replay_sample_correct_witness:
  "\<exists>b. rb_sample (\<lambda>xs. xs) \<lparr>rb_threshold = 2, rb_strategy = ''drop''\<rparr> True 8 ''train'' 1
     [example_poll True, example_poll False] = Some (Inr b) \<and>
   bt_keys b = [''u2_0_0''] \<and> bt_cleared b = [[''u1''], [''u2'']] \<and> bt_refills b = [1] \<and>
   length (bt_selected b) = 1"
proof -
  let ?r = "rb_sample (\<lambda>xs. xs) \<lparr>rb_threshold = 2, rb_strategy = ''drop''\<rparr> True 8 ''train'' 1
     [example_poll True, example_poll False]"
  have "map_option (map_sum id (\<lambda>b. (bt_keys b, bt_cleared b, bt_refills b))) ?r =
      Some (Inr ([''u2_0_0''], [[''u1''], [''u2'']], [1]))"
    by code_simp
  then obtain b where b: "?r = Some (Inr b)" "bt_keys b = [''u2_0_0'']"
    "bt_cleared b = [[''u1''], [''u2'']]" "bt_refills b = [1]"
    by (cases ?r rule: option.exhaust; cases "the ?r") auto
  have "set_iter_ok (\<lambda>xs. xs)" by (simp add: set_iter_ok_def)
  from replay_sample_correct [OF this b(1)] have "length (bt_selected b) = 1" by (auto simp: batch_ok_def)
  with b show ?thesis by blast
qed

text \<open>
  The assertion on the selected spans never fires: \<open>sample\<close> can only fail with the error of a
  malformed snapshot.
\<close>

theorem replay_sample_errors:
  assumes "set_iter_ok it" "rb_sample it cfg refill g pid n polls = Some (Inl e)"
  shows "\<exists>data \<in> set polls. sync_metadata data = Inl e"
  using sample_loop_ok [OF assms(1) assms(2) [unfolded rb_sample_def]] by auto

theorem replay_sample_errors_witness:
  "\<exists>data \<in> {Some [(''train'', [(''u'', \<lparr>rt_is_prompt = True, rt_global_steps = Some 1, rt_status = Some ''odd'', rt_rest = ()\<rparr>)])]}.
     sync_metadata data = Inl (ValueError ''Unknown status: odd'')"
proof -
  let ?d = "Some [(''train'', [(''u'', \<lparr>rt_is_prompt = True, rt_global_steps = Some 1, rt_status = Some ''odd'', rt_rest = ()\<rparr>)])]"
  have "rb_sample (\<lambda>xs. xs) \<lparr>rb_threshold = 2, rb_strategy = ''drop''\<rparr> True 8 ''train'' 1 [?d] =
      Some (Inl (ValueError ''Unknown status: odd''))"
    by code_simp
  from replay_sample_errors [OF _ this] show ?thesis by (simp add: set_iter_ok_def)
qed

subsection \<open>Metrics of dropped prompts\<close>

lemma foldl_max_max: "foldl max (max a b) ys = max a (foldl max b ys)" for a :: "'a::linorder"
  by (induction ys arbitrary: b) (simp_all add: max.assoc)

lemma foldl_min_min: "foldl min (min a b) ys = min a (foldl min b ys)" for a :: "'a::linorder"
  by (induction ys arbitrary: b) (simp_all add: min.assoc)

text \<open>The suffix tests on the four metric names.\<close>

lemma metric_suffixes:
  shows "suffix ''/dropped_samples'' (metric_prefix pid @ ''/off_policy/dropped_samples'')"
    and "\<not> suffix ''/dropped_samples'' (metric_prefix pid @ ''/off_policy/dropped_samples_staleness/mean'')"
    and "\<not> suffix ''/dropped_samples'' (metric_prefix pid @ ''/off_policy/dropped_samples_staleness/max'')"
    and "\<not> suffix ''/dropped_samples'' (metric_prefix pid @ ''/off_policy/dropped_samples_staleness/min'')"
    and "suffix ''/dropped_samples_staleness/mean'' (metric_prefix pid @ ''/off_policy/dropped_samples_staleness/mean'')"
    and "\<not> suffix ''/dropped_samples_staleness/mean'' (metric_prefix pid @ ''/off_policy/dropped_samples_staleness/max'')"
    and "\<not> suffix ''/dropped_samples_staleness/mean'' (metric_prefix pid @ ''/off_policy/dropped_samples_staleness/min'')"
    and "suffix ''/dropped_samples_staleness/max'' (metric_prefix pid @ ''/off_policy/dropped_samples_staleness/max'')"
    and "\<not> suffix ''/dropped_samples_staleness/max'' (metric_prefix pid @ ''/off_policy/dropped_samples_staleness/min'')"
    and "suffix ''/dropped_samples_staleness/min'' (metric_prefix pid @ ''/off_policy/dropped_samples_staleness/min'')"
  by (simp_all add: metric_prefix_def suffix_to_prefix)

text \<open>
  Merging the drop metrics poll by poll loses nothing: accumulating the metrics of the spans
  dropped now onto those of the spans dropped before gives the metrics (count, mean, maximum,
  minimum) of all spans together.
\<close>

theorem drop_metrics_accumulate:
  assumes "xs \<noteq> []" "ys \<noteq> []"
  shows "accumulate_drop_metrics (drop_metrics pid xs) (drop_metrics pid ys) (length ys) =
    drop_metrics pid (xs @ ys)"
proof -
  obtain x xs' y ys' where xy: "xs = x # xs'" "ys = y # ys'" using assms by (cases xs; cases ys) auto
  have mx: "foldl max x (xs' @ y # ys') = max (foldl max x xs') (foldl max y ys')"
    and mn: "foldl min x (xs' @ y # ys') = min (foldl min x xs') (foldl min y ys')"
    by (simp_all add: foldl_max_max foldl_min_min)
  have mean: "(of_int a / of_nat m * of_nat m + of_int b / of_nat n * of_nat n) / (of_nat m + of_nat n) =
      (of_int (a + b) :: rat) / of_nat (m + n)" if "0 < m" "0 < n" for a b :: int and m n :: nat
    using that by simp
  show ?thesis
    unfolding accumulate_drop_metrics_def drop_metrics_def dict_keys_def
    using mean [of "length xs" "length ys" "sum_list xs" "sum_list ys"] mx mn xy
    by (simp add: accumulate_item_def metric_suffixes dict_get_default_def Let_def of_int_max of_int_min)
qed

theorem drop_metrics_accumulate_witness:
  "accumulate_drop_metrics (drop_metrics ''train'' [3, 5]) (drop_metrics ''train'' [4]) 1 =
   drop_metrics ''train'' [3, 5, 4]"
  using drop_metrics_accumulate [of "[3, 5]" "[4]" "''train''"] by simp

end
