(* ===== verification/TokenBucket.thy ===== *)
theory TokenBucket
  imports Prelude
begin

text \<open>
  Model of \<open>AsyncTokenBucket\<close> of \<open>verl/experimental/reward_loop/reward_manager/limited.py\<close>.
  Times and token counts are exact rationals (the code uses floats).  The part of \<open>acquire\<close> that
  holds the lock is one step; between steps the coroutine sleeps and other coroutines may step.
\<close>

record bucket =
  tb_rate_limit :: rat
  tb_max_tokens :: rat
  tb_tokens :: rat
  tb_last_update :: "rat option"

text \<open>\<open>max_tokens or rate_limit\<close>: both \<open>None\<close> and zero select the rate.\<close>

definition bucket_init :: "rat \<Rightarrow> rat option \<Rightarrow> bucket" where
  "bucket_init rate_limit max_tokens =
     (let m = (case max_tokens of None \<Rightarrow> rate_limit | Some x \<Rightarrow> if x = 0 then rate_limit else x)
      in \<lparr>tb_rate_limit = rate_limit, tb_max_tokens = m, tb_tokens = m, tb_last_update = None\<rparr>)"

definition bucket_refill :: "bucket \<Rightarrow> rat \<Rightarrow> bucket" where
  "bucket_refill b now =
     (let last = (case tb_last_update b of None \<Rightarrow> now | Some t \<Rightarrow> t);
          new_tokens = (now - last) * tb_rate_limit b
      in b\<lparr>tb_tokens := min (tb_max_tokens b) (tb_tokens b + new_tokens), tb_last_update := Some now\<rparr>)"

text \<open>
  \<open>Granted w\<close>: the tokens are taken and \<open>acquire\<close> returns after sleeping \<open>w\<close>; \<open>Retry w\<close>: it
  sleeps \<open>w\<close> and tries again.
\<close>

datatype attempt = Granted rat | Retry rat

definition acquire_attempt :: "bucket \<Rightarrow> rat \<Rightarrow> rat \<Rightarrow> attempt result \<times> bucket" where
  "acquire_attempt b now num_tokens =
     (let b1 = bucket_refill b now; needed = num_tokens - tb_tokens b1; rate = tb_rate_limit b in
      if tb_max_tokens b < num_tokens then
        (if 0 < needed \<and> rate = 0 then (Inl ZeroDivisionError, b\<lparr>tb_tokens := tb_tokens b1,
             tb_last_update := (case tb_last_update b of None \<Rightarrow> Some now | t \<Rightarrow> t)\<rparr>)
         else (Inr (Granted (if 0 < needed then needed / rate else 0)),
               b1\<lparr>tb_tokens := tb_tokens b1 - num_tokens\<rparr>))
      else if num_tokens \<le> tb_tokens b1 then
        (Inr (Granted 0), b1\<lparr>tb_tokens := tb_tokens b1 - num_tokens\<rparr>)
      else if rate = 0 then (Inl ZeroDivisionError, b1)
      else (Inr (Retry (needed / rate)), b1))"

subsection \<open>Executions\<close>

text \<open>
  A request \<open>(now, n)\<close> is one attempt.  The history records the first time, and of every grant
  the time at which \<open>acquire\<close> returns and its tokens.
\<close>

record bucket_history =
  bh_bucket :: bucket
  bh_start :: rat
  bh_grants :: "(rat \<times> rat) list"

definition bucket_step :: "bucket_history \<Rightarrow> rat \<times> rat \<Rightarrow> bucket_history" where
  "bucket_step h req = (case req of (now, n) \<Rightarrow>
     (case acquire_attempt (bh_bucket h) now n of
        (Inr (Granted w), b) \<Rightarrow> h\<lparr>bh_bucket := b, bh_grants := bh_grants h @ [(now + w, n)]\<rparr>
      | (_, b) \<Rightarrow> h\<lparr>bh_bucket := b\<rparr>))"

definition granted_tokens :: "bucket_history \<Rightarrow> rat" where
  "granted_tokens h = sum_list (map snd (bh_grants h))"

text \<open>Requests come in the order of the clock and ask for a non-negative number of tokens.\<close>

fun clocked :: "rat \<Rightarrow> (rat \<times> rat) list \<Rightarrow> bool" where
  "clocked t [] = True"
| "clocked t ((now, n) # reqs) = (t \<le> now \<and> 0 \<le> n \<and> clocked now reqs)"

definition bucket_start :: "rat \<Rightarrow> rat option \<Rightarrow> rat \<Rightarrow> bucket_history" where
  "bucket_start rate m t0 = \<lparr>bh_bucket = bucket_init rate m, bh_start = t0, bh_grants = []\<rparr>"

definition last_time :: "bucket_history \<Rightarrow> rat" where
  "last_time h = (case tb_last_update (bh_bucket h) of None \<Rightarrow> bh_start h | Some t \<Rightarrow> t)"

text \<open>Every grant, with all grants before it, is within what has been refilled when it returns.\<close>

fun grants_ok :: "rat \<Rightarrow> rat \<Rightarrow> rat \<Rightarrow> rat \<Rightarrow> (rat \<times> rat) list \<Rightarrow> bool" where
  "grants_ok m rate t0 acc [] = True"
| "grants_ok m rate t0 acc ((ret, n) # gs) =
     (acc + n \<le> m + rate * (ret - t0) \<and> grants_ok m rate t0 (acc + n) gs)"

lemma grants_ok_snoc:
  "grants_ok m rate t0 acc (gs @ [(ret, n)]) \<longleftrightarrow>
   grants_ok m rate t0 acc gs \<and> acc + sum_list (map snd gs) + n \<le> m + rate * (ret - t0)"
  by (induction m rate t0 acc gs rule: grants_ok.induct) (auto simp: add.assoc)

definition bucket_inv :: "bucket_history \<Rightarrow> bool" where
  "bucket_inv h \<longleftrightarrow> (let b = bh_bucket h in
     0 < tb_rate_limit b \<and> tb_tokens b \<le> tb_max_tokens b \<and> bh_start h \<le> last_time h \<and>
     granted_tokens h + tb_tokens b \<le>
       tb_max_tokens b + tb_rate_limit b * (last_time h - bh_start h) \<and>
     grants_ok (tb_max_tokens b) (tb_rate_limit b) (bh_start h) 0 (bh_grants h))"

lemma bucket_refill_bound:
  assumes "bucket_inv h" "last_time h \<le> now"
  defines "b \<equiv> bucket_refill (bh_bucket h) now"
  shows "granted_tokens h + tb_tokens b \<le>
      tb_max_tokens (bh_bucket h) + tb_rate_limit (bh_bucket h) * (now - bh_start h)"
    and "tb_tokens b \<le> tb_max_tokens (bh_bucket h)" "tb_last_update b = Some now"
    and "tb_rate_limit b = tb_rate_limit (bh_bucket h)" "tb_max_tokens b = tb_max_tokens (bh_bucket h)"
proof -
  let ?b = "bh_bucket h"
  have rate: "0 < tb_rate_limit ?b" using assms(1) by (simp add: bucket_inv_def Let_def)
  have "tb_tokens b \<le> tb_tokens ?b + tb_rate_limit ?b * (now - last_time h)"
  proof (cases "tb_last_update ?b")
    case None
    then have "tb_tokens b \<le> tb_tokens ?b" by (simp add: b_def bucket_refill_def)
    also have "\<dots> \<le> tb_tokens ?b + tb_rate_limit ?b * (now - last_time h)"
      using rate assms(2) by simp
    finally show ?thesis .
  next
    case (Some t)
    then show ?thesis by (simp add: b_def bucket_refill_def last_time_def mult.commute)
  qed
  moreover have "granted_tokens h + tb_tokens ?b \<le>
      tb_max_tokens ?b + tb_rate_limit ?b * (last_time h - bh_start h)"
    using assms(1) by (simp add: bucket_inv_def Let_def)
  ultimately show "granted_tokens h + tb_tokens b \<le> tb_max_tokens ?b + tb_rate_limit ?b * (now - bh_start h)"
    by (simp add: algebra_simps)
qed (simp_all add: b_def bucket_refill_def Let_def)

lemma bucket_step_inv:
  assumes inv: "bucket_inv h" and t: "last_time h \<le> now" and n: "0 \<le> n"
  shows "bucket_inv (bucket_step h (now, n)) \<and> last_time (bucket_step h (now, n)) = now \<and>
    bh_start (bucket_step h (now, n)) = bh_start h"
proof -
  let ?b = "bh_bucket h" and ?b1 = "bucket_refill (bh_bucket h) now"
  note r = bucket_refill_bound [OF inv t]
  have rate: "0 < tb_rate_limit ?b" and start: "bh_start h \<le> now"
    and gs: "grants_ok (tb_max_tokens ?b) (tb_rate_limit ?b) (bh_start h) 0 (bh_grants h)"
    using inv t by (auto simp: bucket_inv_def Let_def)
  have grant: "bucket_inv (h\<lparr>bh_bucket := ?b1\<lparr>tb_tokens := tb_tokens ?b1 - n\<rparr>,
      bh_grants := bh_grants h @ [(now + w, n)]\<rparr>)"
    if "n - tb_tokens ?b1 \<le> tb_rate_limit ?b * w" for w
  proof -
    have "granted_tokens h + n \<le> tb_max_tokens ?b + tb_rate_limit ?b * (now + w - bh_start h)"
      using r(1) that by (simp add: algebra_simps)
    then show ?thesis
      using rate start gs r n by (simp add: bucket_inv_def Let_def last_time_def granted_tokens_def grants_ok_snoc)
  qed
  have keep: "bucket_inv (h\<lparr>bh_bucket := ?b1\<rparr>)"
    using rate start gs r by (simp add: bucket_inv_def Let_def last_time_def granted_tokens_def)
  consider (big) "tb_max_tokens ?b < n" | (now) "n \<le> tb_max_tokens ?b" "n \<le> tb_tokens ?b1"
    | (wait) "n \<le> tb_max_tokens ?b" "tb_tokens ?b1 < n" by fastforce
  then show ?thesis
  proof cases
    case big
    define w where "w = (if 0 < n - tb_tokens ?b1 then (n - tb_tokens ?b1) / tb_rate_limit ?b else 0)"
    have "acquire_attempt ?b now n = (Inr (Granted w), ?b1\<lparr>tb_tokens := tb_tokens ?b1 - n\<rparr>)"
      using big rate by (auto simp: acquire_attempt_def Let_def w_def)
    moreover have "n - tb_tokens ?b1 \<le> tb_rate_limit ?b * w" using rate by (simp add: w_def)
    ultimately show ?thesis using grant [of w] r(3) by (simp add: bucket_step_def last_time_def)
  next
    case now
    then have "acquire_attempt ?b now n = (Inr (Granted 0), ?b1\<lparr>tb_tokens := tb_tokens ?b1 - n\<rparr>)"
      by (simp add: acquire_attempt_def Let_def)
    then show ?thesis using grant [of 0] now r(3) by (simp add: bucket_step_def last_time_def)
  next
    case wait
    then have "acquire_attempt ?b now n = (Inr (Retry ((n - tb_tokens ?b1) / tb_rate_limit ?b)), ?b1)"
      using rate by (simp add: acquire_attempt_def Let_def)
    then show ?thesis using keep r(3) by (simp add: bucket_step_def last_time_def)
  qed
qed

lemma bucket_run_inv:
  "bucket_inv h \<Longrightarrow> clocked (last_time h) reqs \<Longrightarrow> bucket_inv (foldl bucket_step h reqs)"
proof (induction reqs arbitrary: h)
  case (Cons req reqs)
  obtain now n where [simp]: "req = (now, n)" by force
  from Cons.prems bucket_step_inv [OF Cons.prems(1), of now n] have
    "bucket_inv (bucket_step h req)" "clocked (last_time (bucket_step h req)) reqs" by auto
  with Cons.IH show ?case by simp
qed simp

lemma bucket_init_inv:
  "0 < rate \<Longrightarrow> bucket_inv (bucket_start rate m t0)"
  by (simp add: bucket_inv_def bucket_start_def bucket_init_def last_time_def granted_tokens_def Let_def)

lemma bucket_run_constants:
  "tb_rate_limit (bh_bucket (foldl bucket_step h reqs)) = tb_rate_limit (bh_bucket h) \<and>
   tb_max_tokens (bh_bucket (foldl bucket_step h reqs)) = tb_max_tokens (bh_bucket h) \<and>
   bh_start (foldl bucket_step h reqs) = bh_start h"
proof (rule foldl_inv [where I = "\<lambda>h'. tb_rate_limit (bh_bucket h') = tb_rate_limit (bh_bucket h) \<and>
    tb_max_tokens (bh_bucket h') = tb_max_tokens (bh_bucket h) \<and> bh_start h' = bh_start h"])
qed (auto simp: bucket_step_def acquire_attempt_def bucket_refill_def Let_def split: prod.splits if_splits)

text \<open>
  C39. The rate limit holds for every schedule: with a positive rate, whatever requests come at
  whatever times, when a grant returns the tokens granted so far are at most the capacity plus
  rate times the time since the start; also for requests larger than the capacity.
\<close>

theorem token_bucket_rate_limited:
  assumes "0 < rate" "clocked t0 reqs"
  shows "grants_ok (tb_max_tokens (bucket_init rate m)) rate t0 0
    (bh_grants (foldl bucket_step (bucket_start rate m t0) reqs))"
proof -
  have "bucket_inv (foldl bucket_step (bucket_start rate m t0) reqs)"
    by (rule bucket_run_inv [OF bucket_init_inv [OF assms(1)]]) (simp add: last_time_def bucket_start_def
        bucket_init_def Let_def assms(2))
  then show ?thesis
    using bucket_run_constants [of "bucket_start rate m t0" reqs]
    by (simp add: bucket_inv_def Let_def) (simp add: bucket_start_def bucket_init_def Let_def)
qed

theorem token_bucket_rate_limited_witness:
  "grants_ok 2 1 0 0 (bh_grants (foldl bucket_step (bucket_start 1 (Some 2) 0) [(0, 2), (1, 1), (1, 1), (3, 5)]))"
  using token_bucket_rate_limited [of 1 0 "[(0, 2), (1, 1), (1, 1), (3, 5)]" "Some 2"]
  by (simp add: bucket_init_def)

text \<open>
  Waiting is enough: a request within the capacity that is told to retry after \<open>w\<close> is
  granted by the next attempt at any time not before \<open>now + w\<close>, if no other coroutine takes
  tokens meanwhile; so \<open>acquire\<close> returns after at most one sleep.
\<close>

theorem token_bucket_retry_succeeds:
  assumes "acquire_attempt b now n = (Inr (Retry w), b')" "0 < tb_rate_limit b" "now + w \<le> later"
  shows "0 < w \<and> fst (acquire_attempt b' later n) = Inr (Granted 0)"
proof -
  let ?b1 = "bucket_refill b now"
  from assms(1) have n: "n \<le> tb_max_tokens b" "tb_tokens ?b1 < n" and b': "b' = ?b1"
    and w: "w = (n - tb_tokens ?b1) / tb_rate_limit b"
    by (auto simp: acquire_attempt_def Let_def split: if_splits)
  have r: "tb_last_update ?b1 = Some now" "tb_rate_limit ?b1 = tb_rate_limit b"
    "tb_max_tokens ?b1 = tb_max_tokens b" by (simp_all add: bucket_refill_def Let_def)
  have "0 < w" using n(2) assms(2) by (simp add: w)
  have "n - tb_tokens ?b1 = w * tb_rate_limit b" using assms(2) by (simp add: w)
  also have "\<dots> \<le> (later - now) * tb_rate_limit b"
    using assms(2,3) by (intro mult_right_mono) auto
  finally have "n \<le> tb_tokens (bucket_refill ?b1 later)"
    using n(1) r unfolding bucket_refill_def [of ?b1 later] by (simp add: Let_def)
  with n(1) r(3) \<open>0 < w\<close> show ?thesis by (simp add: b' acquire_attempt_def Let_def)
qed

theorem token_bucket_retry_succeeds_witness:
  "fst (acquire_attempt \<lparr>tb_rate_limit = 2, tb_max_tokens = 4, tb_tokens = 1, tb_last_update = Some 10\<rparr> 11 3) =
     Inr (Granted 0)"
proof -
  have "acquire_attempt \<lparr>tb_rate_limit = 2, tb_max_tokens = 4, tb_tokens = 1, tb_last_update = Some 10\<rparr> 10 3 =
      (Inr (Retry 1), \<lparr>tb_rate_limit = 2, tb_max_tokens = 4, tb_tokens = 1, tb_last_update = Some 10\<rparr>)"
    by (simp add: acquire_attempt_def bucket_refill_def)
  from token_bucket_retry_succeeds [OF this] show ?thesis by simp
qed

end
