(* ===== verification/PyStr.thy ===== *)
theory PyStr
  imports Prelude "HOL-Library.Sublist"
begin

text \<open>
  Python's \<open>str\<close> methods and the regular expressions the code uses, on Isabelle strings: a
  character is a code point below 256.  The character classes are those of Python for that
  range (whitespace includes the separators 28 to 31, next line and the no-break space).
\<close>

subsection \<open>Characters\<close>

definition code :: "char \<Rightarrow> nat" where
  "code c = of_char c"

definition is_space :: "char \<Rightarrow> bool" where
  "is_space c = (let n = code c in (9 \<le> n \<and> n \<le> 13) \<or> (28 \<le> n \<and> n \<le> 32) \<or> n = 133 \<or> n = 160)"

definition is_digit :: "char \<Rightarrow> bool" where
  "is_digit c = (48 \<le> code c \<and> code c \<le> 57)"

definition lower_char :: "char \<Rightarrow> char" where
  "lower_char c = (let n = code c in
     if (65 \<le> n \<and> n \<le> 90) \<or> (192 \<le> n \<and> n \<le> 222 \<and> n \<noteq> 215) then char_of (n + 32) else c)"

text \<open>The class \<open>\w\<close> of regular expressions.\<close>

definition is_word :: "char \<Rightarrow> bool" where
  "is_word c = (let n = code c in
     (48 \<le> n \<and> n \<le> 57) \<or> (65 \<le> n \<and> n \<le> 90) \<or> n = 95 \<or> (97 \<le> n \<and> n \<le> 122) \<or>
     n = 170 \<or> n = 178 \<or> n = 179 \<or> n = 181 \<or> n = 185 \<or> n = 186 \<or> (188 \<le> n \<and> n \<le> 190) \<or>
     (192 \<le> n \<and> n \<noteq> 215 \<and> n \<noteq> 247))"

subsection \<open>Methods\<close>

definition py_lower :: "string \<Rightarrow> string" where
  "py_lower s = map lower_char s"

definition py_lstrip :: "string \<Rightarrow> string" where
  "py_lstrip s = dropWhile is_space s"

definition py_rstrip :: "string \<Rightarrow> string" where
  "py_rstrip s = rev (dropWhile is_space (rev s))"

definition py_strip :: "string \<Rightarrow> string" where
  "py_strip s = py_rstrip (py_lstrip s)"

definition strip_chars :: "string \<Rightarrow> string \<Rightarrow> string" where
  "strip_chars cs s = rev (dropWhile (\<lambda>c. c \<in> set cs) (rev (dropWhile (\<lambda>c. c \<in> set cs) s)))"

definition starts_with :: "string \<Rightarrow> string \<Rightarrow> bool" where
  "starts_with s p = (take (length p) s = p)"

definition ends_with :: "string \<Rightarrow> string \<Rightarrow> bool" where
  "ends_with s p = (length p \<le> length s \<and> drop (length s - length p) s = p)"

text \<open>\<open>s.find(p)\<close> from the start; \<open>None\<close> is -1.\<close>

fun py_find :: "string \<Rightarrow> string \<Rightarrow> nat option" where
  "py_find [] p = (if p = [] then Some 0 else None)"
| "py_find (c # s) p = (if starts_with (c # s) p then Some 0 else map_option Suc (py_find s p))"

definition py_in :: "string \<Rightarrow> string \<Rightarrow> bool" where
  "py_in p s = (py_find s p \<noteq> None)"

lemma py_find_bound: "py_find s p = Some i \<Longrightarrow> i + length p \<le> length s \<and> take (length p) (drop i s) = p"
proof (induction s arbitrary: i)
  case Nil
  then show ?case by (cases p) auto
next
  case (Cons c s)
  then show ?case
    by (auto simp: starts_with_def split: if_splits) (metis length_Cons length_take min.absorb_iff2 min.cobounded1 min_def)+
qed

text \<open>\<open>s.split(sep)\<close>, \<open>s.replace(old, new)\<close> and \<open>s.count(p)\<close> for a non-empty separator.\<close>

function py_split :: "string \<Rightarrow> string \<Rightarrow> string list" where
  "py_split sep s =
     (case py_find s sep of
        None \<Rightarrow> [s]
      | Some i \<Rightarrow> if sep = [] then [s] else take i s # py_split sep (drop (i + length sep) s))"
  by pat_completeness auto

termination
  by (relation "measure (\<lambda>(sep, s). length s)") (auto dest!: py_find_bound simp: neq_Nil_conv)

declare py_split.simps [simp del]

definition py_join :: "string \<Rightarrow> string list \<Rightarrow> string" where
  "py_join sep parts = (case parts of [] \<Rightarrow> [] | p # ps \<Rightarrow> p @ concat (map (\<lambda>q. sep @ q) ps))"

definition py_replace :: "string \<Rightarrow> string \<Rightarrow> string \<Rightarrow> string" where
  "py_replace old new s = py_join new (py_split old s)"

definition py_count :: "string \<Rightarrow> string \<Rightarrow> nat" where
  "py_count p s = length (py_split p s) - 1"

text \<open>\<open>re.sub("[cs]+", new, s)\<close>: every maximal run of characters of a class becomes \<open>new\<close>.\<close>

function sub_runs :: "(char \<Rightarrow> bool) \<Rightarrow> string \<Rightarrow> string \<Rightarrow> string" where
  "sub_runs P new [] = []"
| "sub_runs P new (c # s) =
     (if P c then new @ sub_runs P new (dropWhile P s) else c # sub_runs P new s)"
  by pat_completeness auto
termination
  by (relation "measure (\<lambda>(P, new, s). length s)") (auto simp: le_imp_less_Suc length_dropWhile_le)

text \<open>\<open>str.split()\<close> and \<open>re.finditer("\S+")\<close>: the maximal runs of non-space characters with their
  start offsets.\<close>

function word_spans :: "nat \<Rightarrow> string \<Rightarrow> (nat \<times> string) list" where
  "word_spans pos [] = []"
| "word_spans pos (c # s) =
     (if is_space c then word_spans (Suc pos) s
      else let w = c # takeWhile (\<lambda>x. \<not> is_space x) s
        in (pos, w) # word_spans (pos + length w) (dropWhile (\<lambda>x. \<not> is_space x) s))"
  by pat_completeness auto
termination
  by (relation "measure (\<lambda>(pos, s). length s)") (auto simp: le_imp_less_Suc length_dropWhile_le)

subsection \<open>Integers in text\<close>

text \<open>\<open>int(s)\<close>: surrounding whitespace, a sign, digits with single underscores between them.\<close>

fun digits_value :: "nat \<Rightarrow> bool \<Rightarrow> string \<Rightarrow> nat option" where
  "digits_value acc after_digit [] = (if after_digit then Some acc else None)"
| "digits_value acc after_digit (c # s) =
     (if is_digit c then digits_value (acc * 10 + (code c - 48)) True s
      else if c = CHR ''_'' \<and> after_digit then digits_value acc False s else None)"

definition py_int :: "string \<Rightarrow> int option" where
  "py_int s = (case py_strip s of
     [] \<Rightarrow> None
   | c # rest \<Rightarrow>
       if c = CHR ''-'' then map_option (\<lambda>n. - int n) (digits_value 0 False rest)
       else if c = CHR ''+'' then map_option int (digits_value 0 False rest)
       else map_option int (digits_value 0 False (c # rest)))"

fun nat_digits :: "nat \<Rightarrow> string" where
  "nat_digits n = (if n < 10 then [char_of (48 + n)] else nat_digits (n div 10) @ [char_of (48 + n mod 10)])"

declare nat_digits.simps [simp del]

definition int_str :: "int \<Rightarrow> string" where
  "int_str i = (if i < 0 then CHR ''-'' # nat_digits (nat (- i)) else nat_digits (nat i))"

subsection \<open>POSIX paths of \<open>pathlib\<close>\<close>

definition path_parts :: "string \<Rightarrow> string list" where
  "path_parts s = filter (\<lambda>p. p \<noteq> '''' \<and> p \<noteq> ''.'') (py_split ''/'' s)"

definition path_root :: "string \<Rightarrow> string" where
  "path_root s = (if starts_with s ''//'' \<and> \<not> starts_with s ''///'' then ''//''
     else if starts_with s ''/'' then ''/'' else '''')"

definition path_str :: "string \<Rightarrow> string" where
  "path_str s = (let t = path_root s @ py_join ''/'' (path_parts s) in if t = '''' then ''.'' else t)"

definition path_child :: "string \<Rightarrow> string \<Rightarrow> string" where
  "path_child s name = path_str (if s = '''' then name else s @ ''/'' @ name)"

end
