(* ===== verification/LoopDetect.thy ===== *)
theory LoopDetect
  imports PyStr
begin

text \<open>
  The detection of looping responses of \<open>verl/experimental/agent_loop/nanoclaw_support.py\<close>:
  normalisation, runs of equal chunks between separators, and runs of equal token windows.
  \<open>min_chars\<close> and the repeat bound are Python integers.
\<close>

definition normalized_loop_text :: "string \<Rightarrow> string" where
  "normalized_loop_text text =
     (let v0 = py_replace [CHR 0x0D] [CHR 0x0A] (py_replace [CHR 0x0D, CHR 0x0A] [CHR 0x0A] text);
          blank = (\<lambda>c. c = CHR 0x20 \<or> c = CHR 0x09);
          v1 = sub_runs blank [CHR 0x20] v0;
          v2 = (let lines = py_split [CHR 0x0A] v1
                in py_join [CHR 0x0A] (hd lines # map (dropWhile blank) (tl lines)))
      in py_strip v2)"

function consecutive_loop_chunks :: "string list \<Rightarrow> int \<Rightarrow> nat" where
  "consecutive_loop_chunks [] min_chars = 0"
| "consecutive_loop_chunks (chunk # chunks) min_chars =
     (if int (length chunk) < min_chars then consecutive_loop_chunks chunks min_chars
      else length (takeWhile (\<lambda>c. c = chunk) chunks) +
        consecutive_loop_chunks (dropWhile (\<lambda>c. c = chunk) chunks) min_chars)"
  by pat_completeness auto
termination
  by (relation "measure (\<lambda>(chunks, m). length chunks)") (auto simp: le_imp_less_Suc length_dropWhile_le)

definition separator_chunks :: "string \<Rightarrow> string \<Rightarrow> string list" where
  "separator_chunks separator text =
     filter (\<lambda>chunk. chunk \<noteq> []) (map normalized_loop_text (py_split separator text))"

fun separator_scan :: "string list \<Rightarrow> string \<Rightarrow> int \<Rightarrow> nat" where
  "separator_scan [] text min_chars = 0"
| "separator_scan (separator # separators) text min_chars =
     (if \<not> py_in separator text then separator_scan separators text min_chars
      else let extra_repeats = consecutive_loop_chunks (separator_chunks separator text) min_chars
        in if extra_repeats \<noteq> 0 then extra_repeats else separator_scan separators text min_chars)"

definition loop_separators :: "string list" where
  "loop_separators = [''</think>'', [CHR 0x0A, CHR 0x0A], [CHR 0x0A]]"

definition continuous_separator_loop_count :: "string \<Rightarrow> int \<Rightarrow> nat" where
  "continuous_separator_loop_count text min_chars = separator_scan loop_separators text min_chars"

text \<open>A token is its start offset and its text; the window of \<open>u\<close> tokens from \<open>i\<close>.\<close>

definition window :: "(nat \<times> string) list \<Rightarrow> nat \<Rightarrow> nat \<Rightarrow> string list" where
  "window toks i u = map snd (take u (drop i toks))"

definition window_chars :: "(nat \<times> string) list \<Rightarrow> nat \<Rightarrow> nat \<Rightarrow> int" where
  "window_chars toks i u =
     (let (s, _) = toks ! i; (e, w) = toks ! (i + u - 1) in int (e + length w) - int s)"

text \<open>How many further copies of the window follow from token \<open>j\<close> on.\<close>

function follow_run :: "(nat \<times> string) list \<Rightarrow> string list \<Rightarrow> nat \<Rightarrow> nat \<Rightarrow> nat" where
  "follow_run toks unit u j =
     (if 0 < u \<and> j + u \<le> length toks \<and> window toks j u = unit
      then Suc (follow_run toks unit u (j + u)) else 0)"
  by pat_completeness auto
termination by (relation "measure (\<lambda>(toks, unit, u, j). length toks - j)") auto

declare follow_run.simps [simp del]

function unit_scan :: "(nat \<times> string) list \<Rightarrow> int \<Rightarrow> nat \<Rightarrow> nat \<Rightarrow> nat \<Rightarrow> nat" where
  "unit_scan toks min_chars u i best =
     (if 0 < u \<and> i + 2 * u \<le> length toks then
        (if window_chars toks i u < min_chars then unit_scan toks min_chars u (Suc i) best
         else let extra = follow_run toks (window toks i u) u (i + u) in
           if extra = 0 then unit_scan toks min_chars u (Suc i) best
           else unit_scan toks min_chars u (i + (extra + 1) * u) (max best extra))
      else best)"
  by pat_completeness auto
termination by (relation "measure (\<lambda>(toks, m, u, i, best). length toks - i)") (auto simp: Let_def)

declare unit_scan.simps [simp del]

definition continuous_token_loop_count :: "string \<Rightarrow> int \<Rightarrow> nat \<Rightarrow> nat" where
  "continuous_token_loop_count text min_chars max_unit_tokens =
     (let toks = word_spans 0 text; n = length toks in
      if n < 2 then 0
      else foldl (\<lambda>best u. unit_scan toks min_chars u 0 best) 0 [1..<Suc (min max_unit_tokens (n div 2))])"

definition nanoclaw_looping_response_repeat_count :: "string \<Rightarrow> int \<Rightarrow> int \<Rightarrow> nat" where
  "nanoclaw_looping_response_repeat_count text min_chars min_consecutive_repeats =
     (let normalized = normalized_loop_text text; m = max 2 min_consecutive_repeats in
      if int (length normalized) < min_chars * m then 0
      else
        (let separator_repeats = continuous_separator_loop_count normalized min_chars in
         if m - 1 \<le> int separator_repeats then separator_repeats
         else
           (let token_repeats = continuous_token_loop_count normalized min_chars 512 in
            if m - 1 \<le> int token_repeats then token_repeats else 0)))"

subsection \<open>Chunks\<close>

lemma takeWhile_eq_replicate: "takeWhile (\<lambda>c. c = x) xs = replicate (length (takeWhile (\<lambda>c. c = x) xs)) x"
  by (induction xs) auto

text \<open>Two equal neighbours that are long enough.\<close>

fun has_adjacent_repeat :: "string list \<Rightarrow> int \<Rightarrow> bool" where
  "has_adjacent_repeat (c # d # cs) m = ((c = d \<and> m \<le> int (length c)) \<or> has_adjacent_repeat (d # cs) m)"
| "has_adjacent_repeat _ m = False"

lemma has_adjacent_repeat_iff:
  "has_adjacent_repeat cs m \<longleftrightarrow> (\<exists>pre c post. cs = pre @ c # c # post \<and> m \<le> int (length c))"
proof (induction cs m rule: has_adjacent_repeat.induct)
  case (1 c d cs m)
  show ?case
  proof
    assume "has_adjacent_repeat (c # d # cs) m"
    then consider "c = d" "m \<le> int (length c)" | "has_adjacent_repeat (d # cs) m" by auto
    then show "\<exists>pre x post. c # d # cs = pre @ x # x # post \<and> m \<le> int (length x)"
    proof cases
      case 1
      then show ?thesis by (intro exI [of _ "[]"] exI [of _ c] exI [of _ cs]) simp
    next
      case 2
      with "1.IH" obtain pre x post where "d # cs = pre @ x # x # post" "m \<le> int (length x)" by blast
      then show ?thesis by (intro exI [of _ "c # pre"] exI [of _ x] exI [of _ post]) simp
    qed
  next
    assume "\<exists>pre x post. c # d # cs = pre @ x # x # post \<and> m \<le> int (length x)"
    then obtain pre x post where e: "c # d # cs = pre @ x # x # post" "m \<le> int (length x)" by blast
    show "has_adjacent_repeat (c # d # cs) m"
    proof (cases pre)
      case Nil
      with e show ?thesis by simp
    next
      case (Cons p pre')
      with e(1) have "d # cs = pre' @ x # x # post" by simp
      with e(2) "1.IH" have "has_adjacent_repeat (d # cs) m" by blast
      then show ?thesis by simp
    qed
  qed
qed (auto simp: Cons_eq_append_conv)

lemma adjacent_repeat_drop:
  "has_adjacent_repeat (dropWhile (\<lambda>c. c = x) cs) m \<Longrightarrow> has_adjacent_repeat (x # cs) m"
proof (induction cs)
  case (Cons d cs)
  then show ?case by (cases cs) (auto split: if_splits)
qed simp

lemma consecutive_loop_chunks_pos:
  "0 < consecutive_loop_chunks cs m \<longleftrightarrow> has_adjacent_repeat cs m"
proof (induction cs m rule: consecutive_loop_chunks.induct)
  case (2 chunk chunks m)
  show ?case
  proof (cases "int (length chunk) < m")
    case True
    with 2 show ?thesis by (cases chunks) auto
  next
    case long: False
    show ?thesis
    proof (cases chunks)
      case (Cons d ds)
      show ?thesis
      proof (cases "d = chunk")
        case True
        with long Cons show ?thesis by simp
      next
        case False
        with 2 long Cons show ?thesis by auto
      qed
    qed simp
  qed
qed simp

subsection \<open>Token windows\<close>

text \<open>A detected repetition: \<open>r\<close> further copies of a long enough window.\<close>

definition token_loop :: "(nat \<times> string) list \<Rightarrow> int \<Rightarrow> nat \<Rightarrow> nat \<Rightarrow> nat \<Rightarrow> bool" where
  "token_loop toks m u i r \<longleftrightarrow> 0 < u \<and> i + (r + 1) * u \<le> length toks \<and> m \<le> window_chars toks i u \<and>
     (\<forall>k \<le> r. window toks (i + k * u) u = window toks i u)"

lemma follow_run_copies:
  assumes "0 < u" "j \<le> length toks"
  shows "j + follow_run toks unit u j * u \<le> length toks \<and>
    (\<forall>k < follow_run toks unit u j. window toks (j + k * u) u = unit)"
  using assms
proof (induction toks unit u j rule: follow_run.induct)
  case (1 toks unit u j)
  show ?case
  proof (cases "0 < u \<and> j + u \<le> length toks \<and> window toks j u = unit")
    case True
    with 1 have IH: "j + u + follow_run toks unit u (j + u) * u \<le> length toks"
      "\<forall>k < follow_run toks unit u (j + u). window toks (j + u + k * u) u = unit" by auto
    have eq: "follow_run toks unit u j = Suc (follow_run toks unit u (j + u))"
      using True by (subst follow_run.simps) simp
    have "window toks (j + k * u) u = unit" if "k < follow_run toks unit u j" for k
      using that IH(2) True unfolding eq by (cases k) (auto simp: add.assoc)
    with IH(1) show ?thesis unfolding eq by (auto simp: algebra_simps)
  next
    case False
    then have "follow_run toks unit u j = 0" by (subst follow_run.simps) auto
    with 1(3) show ?thesis by simp
  qed
qed

lemma follow_run_token_loop:
  assumes "0 < u" "i + 2 * u \<le> length toks" "m \<le> window_chars toks i u"
  shows "token_loop toks m u i (follow_run toks (window toks i u) u (i + u))"
proof -
  let ?r = "follow_run toks (window toks i u) u (i + u)"
  have f: "i + u + ?r * u \<le> length toks" "\<forall>k < ?r. window toks (i + u + k * u) u = window toks i u"
    using follow_run_copies [of u "i + u" toks "window toks i u"] assms by auto
  have "window toks (i + k * u) u = window toks i u" if "k \<le> ?r" for k
    using that f(2) by (cases k) (auto simp: add.assoc)
  with assms f(1) show ?thesis by (auto simp: token_loop_def algebra_simps)
qed

lemma unit_scan_sound:
  "unit_scan toks m u i best = best \<or> (\<exists>i'. token_loop toks m u i' (unit_scan toks m u i best))"
proof (induction toks m u i best rule: unit_scan.induct)
  case (1 toks m u i best)
  show ?case
  proof (cases "0 < u \<and> i + 2 * u \<le> length toks")
    case in_range: True
    let ?e = "follow_run toks (window toks i u) u (i + u)"
    show ?thesis
    proof (cases "window_chars toks i u < m \<or> ?e = 0")
      case True
      then have "unit_scan toks m u i best = unit_scan toks m u (Suc i) best"
        using in_range by (subst unit_scan.simps) (auto simp: Let_def)
      with 1 in_range True show ?thesis by metis
    next
      case False
      then have eq: "unit_scan toks m u i best = unit_scan toks m u (i + (?e + 1) * u) (max best ?e)"
        using in_range by (subst unit_scan.simps) (auto simp: Let_def)
      have "token_loop toks m u i ?e" using in_range False by (intro follow_run_token_loop) auto
      with 1(3) [OF in_range _ refl] False show ?thesis unfolding eq by (metis max_def not_le)
    qed
  next
    case False
    then show ?thesis by (subst (1) unit_scan.simps) auto
  qed
qed

lemma unit_scan_ge: "best \<le> unit_scan toks m u i best"
proof (induction toks m u i best rule: unit_scan.induct)
  case (1 toks m u i best)
  let ?e = "follow_run toks (window toks i u) u (i + u)"
  consider "\<not> (0 < u \<and> i + 2 * u \<le> length toks)"
    | (skip) "0 < u \<and> i + 2 * u \<le> length toks" "window_chars toks i u < m \<or> ?e = 0"
    | (hit) "0 < u \<and> i + 2 * u \<le> length toks" "\<not> window_chars toks i u < m" "?e \<noteq> 0" by blast
  then show ?case
  proof cases
    case 1
    then show ?thesis by (subst unit_scan.simps) auto
  next
    case skip
    then have "unit_scan toks m u i best = unit_scan toks m u (Suc i) best"
      by (subst unit_scan.simps) (auto simp: Let_def)
    with skip "1.IH"(1,2) show ?thesis by (metis)
  next
    case hit
    then have "unit_scan toks m u i best = unit_scan toks m u (i + (?e + 1) * u) (max best ?e)"
      by (subst unit_scan.simps) (simp add: Let_def)
    with "1.IH"(3) [OF hit(1,2) refl hit(3)] show ?thesis by simp
  qed
qed

lemma token_loop_follow:
  assumes "token_loop toks m u i r" "0 < r"
  shows "i + 2 * u \<le> length toks" "m \<le> window_chars toks i u"
    "0 < follow_run toks (window toks i u) u (i + u)"
proof -
  have "2 * u \<le> (r + 1) * u" using assms(2) by (intro mult_right_mono) auto
  moreover have "i + (r + 1) * u \<le> length toks" "m \<le> window_chars toks i u"
    using assms(1) by (simp_all only: token_loop_def)
  ultimately show le: "i + 2 * u \<le> length toks" "m \<le> window_chars toks i u" by linarith+
  have "window toks (i + 1 * u) u = window toks i u" using assms unfolding token_loop_def
    by (metis Suc_leI One_nat_def)
  with le assms(1) show "0 < follow_run toks (window toks i u) u (i + u)"
    by (subst follow_run.simps) (auto simp: token_loop_def)
qed

lemma token_loop_one:
  assumes "token_loop toks m u i r" "0 < r"
  shows "token_loop toks m u i 1"
proof -
  have "(1 + 1) * u \<le> (r + 1) * u" using assms(2) by (intro mult_right_mono) auto
  moreover have "0 < u" "i + (r + 1) * u \<le> length toks" "m \<le> window_chars toks i u"
    "\<forall>k \<le> r. window toks (i + k * u) u = window toks i u"
    using assms(1) unfolding token_loop_def by blast+
  moreover have "\<And>k. k \<le> 1 \<Longrightarrow> k \<le> r" using assms(2) by linarith
  ultimately have "i + (1 + 1) * u \<le> length toks" "\<forall>k \<le> 1. window toks (i + k * u) u = window toks i u"
    "0 < u" "m \<le> window_chars toks i u" by (linarith, blast+)
  then show ?thesis unfolding token_loop_def by blast
qed

lemma unit_scan_zero:
  "unit_scan toks m u i best = 0 \<Longrightarrow> i \<le> i' \<Longrightarrow> token_loop toks m u i' r \<Longrightarrow> 0 < r \<Longrightarrow> False"
proof (induction toks m u i best rule: unit_scan.induct)
  case (1 toks m u i best)
  note prems = "1.prems"
  note t = token_loop_follow [OF prems(3,4)]
  let ?e = "follow_run toks (window toks i u) u (i + u)"
  have in_range: "0 < u \<and> i + 2 * u \<le> length toks"
    using prems(2,3) t(1) by (simp add: token_loop_def)
  show ?case
  proof (cases "window_chars toks i u < m \<or> ?e = 0")
    case True
    then have z: "unit_scan toks m u (Suc i) best = 0"
      using in_range prems(1) by (subst (asm) unit_scan.simps) (auto simp: Let_def split: if_splits)
    have "i \<noteq> i'" using True t(2,3) by auto
    then have "Suc i \<le> i'" using prems(2) by simp
    then show ?thesis using "1.IH"(1,2) in_range True z prems(3,4) by blast
  next
    case False
    then have "unit_scan toks m u (i + (?e + 1) * u) (max best ?e) = 0"
      using in_range prems(1) by (subst (asm) unit_scan.simps) (auto simp: Let_def split: if_splits)
    then have "max best ?e = 0" using unit_scan_ge [of "max best ?e"] by (metis le_zero_eq)
    with False show ?thesis by simp
  qed
qed

lemma unit_fold_sound:
  "0 < foldl (\<lambda>best u. unit_scan toks m u 0 best) 0 us \<longrightarrow>
   (\<exists>u \<in> set us. \<exists>i. token_loop toks m u i (foldl (\<lambda>best u. unit_scan toks m u 0 best) 0 us))"
proof (induction us rule: rev_induct)
  case (snoc u us)
  let ?b = "foldl (\<lambda>best u. unit_scan toks m u 0 best) 0 us"
  show ?case
  proof
    assume "0 < foldl (\<lambda>best u. unit_scan toks m u 0 best) 0 (us @ [u])"
    with snoc unit_scan_sound [of toks m u 0 ?b]
    show "\<exists>v \<in> set (us @ [u]). \<exists>i. token_loop toks m v i (foldl (\<lambda>best u. unit_scan toks m u 0 best) 0 (us @ [u]))"
      by auto
  qed
qed simp

lemma unit_fold_mono: "b \<le> foldl (\<lambda>best u. unit_scan toks m u 0 best) b us"
  by (induction us arbitrary: b) (auto intro: order_trans [OF unit_scan_ge])

lemma unit_fold_complete:
  assumes "u \<in> set us" "token_loop toks m u i r" "0 < r"
  shows "0 < foldl (\<lambda>best u. unit_scan toks m u 0 best) b us"
  using assms(1)
proof (induction us arbitrary: b)
  case (Cons v us)
  show ?case
  proof (cases "u = v")
    case True
    have "0 < unit_scan toks m u 0 b" using unit_scan_zero [OF _ _ assms(2,3), of 0 b] by auto
    then show ?thesis using True unit_fold_mono [of "unit_scan toks m u 0 b"] by (simp add: less_le_trans)
  next
    case False
    with Cons show ?thesis by simp
  qed
qed simp

lemma token_loop_count_facts:
  "(0 < continuous_token_loop_count txt m 512 \<longleftrightarrow>
      (\<exists>u i. u \<le> 512 \<and> token_loop (word_spans 0 txt) m u i 1)) \<and>
    (continuous_token_loop_count txt m 512 = 0 \<or>
      (\<exists>u i. u \<le> 512 \<and> token_loop (word_spans 0 txt) m u i (continuous_token_loop_count txt m 512)))"
proof -
  let ?toks = "word_spans 0 txt"
  let ?us = "[1..<Suc (min 512 (length ?toks div 2))]"
  define r where "r = continuous_token_loop_count txt m 512"
  have r: "r = (if length ?toks < 2 then 0 else foldl (\<lambda>best u. unit_scan ?toks m u 0 best) 0 ?us)"
    by (simp add: r_def continuous_token_loop_count_def Let_def)
  have sound: "\<exists>u i. u \<le> 512 \<and> token_loop ?toks m u i r" if "0 < r"
  proof -
    have eq: "r = foldl (\<lambda>best u. unit_scan ?toks m u 0 best) 0 ?us" using that r by (auto split: if_splits)
    from unit_fold_sound [of ?toks m ?us, folded eq] that obtain u i where
      "u \<in> set ?us" "token_loop ?toks m u i r" by blast
    then show ?thesis by (intro exI [of _ u] exI [of _ i]) auto
  qed
  have "\<exists>u i. u \<le> 512 \<and> token_loop ?toks m u i 1" if "0 < r"
  proof -
    from sound [OF that] obtain u i where "u \<le> 512" "token_loop ?toks m u i r" by blast
    with token_loop_one [OF _ that] show ?thesis by blast
  qed
  moreover have pos: "0 < r" if "u \<le> 512" "token_loop ?toks m u i 1" for u i
  proof -
    have "0 < u" "2 * u \<le> length ?toks" using that(2) by (auto simp: token_loop_def)
    then have "u \<in> set ?us" "\<not> length ?toks < 2" using that(1) by auto
    then have eq: "r = foldl (\<lambda>best u. unit_scan ?toks m u 0 best) 0 ?us"
      using r by (simp only: if_False)
    show ?thesis unfolding eq by (rule unit_fold_complete [OF \<open>u \<in> set ?us\<close> that(2)]) simp
  qed
  ultimately show ?thesis using sound unfolding r_def by blast
qed

lemma token_loop_count_pos:
  "(0 < continuous_token_loop_count txt m 512) =
   (\<exists>u i. u \<le> 512 \<and> token_loop (word_spans 0 txt) m u i 1)"
  using token_loop_count_facts by blast

text \<open>
  The token scan finds exactly the repetitions it is meant to find: it reports 0 unless some
  window of at most 512 tokens, long enough in characters, is immediately repeated; and a reported
  number \<open>r\<close> is witnessed by a window followed by \<open>r\<close> copies of itself.
\<close>

theorem token_loop_count_exact:
  "(0 < continuous_token_loop_count txt m 512 \<longleftrightarrow>
      (\<exists>u i. u \<le> 512 \<and> token_loop (word_spans 0 txt) m u i 1)) \<and>
    (continuous_token_loop_count txt m 512 = 0 \<or>
      (\<exists>u i. u \<le> 512 \<and> token_loop (word_spans 0 txt) m u i (continuous_token_loop_count txt m 512)))"
  by (rule token_loop_count_facts)

lemma separator_scan_pos:
  "0 < separator_scan seps text m \<longleftrightarrow>
   (\<exists>sep \<in> set seps. py_in sep text \<and> has_adjacent_repeat (separator_chunks sep text) m)"
proof (induction seps)
  case (Cons sep seps)
  then show ?case
    using consecutive_loop_chunks_pos [of "separator_chunks sep text" m]
    by (auto simp: Let_def simp del: consecutive_loop_chunks.simps)
qed simp

text \<open>
  C38. The loop detector with the default bound of two repeats fires exactly on the texts whose
  normal form is at least twice \<open>min_chars\<close> long and contains, between think tags, blank lines or
  lines, two equal neighbouring chunks of that length, or a window of at most 512 tokens of that
  length followed by a copy of itself.
\<close>

theorem looping_response_detected_iff:
  "0 < nanoclaw_looping_response_repeat_count txt m 2 \<longleftrightarrow>
   m * 2 \<le> int (length (normalized_loop_text txt)) \<and>
   ((\<exists>sep \<in> set loop_separators. py_in sep (normalized_loop_text txt) \<and>
       has_adjacent_repeat (separator_chunks sep (normalized_loop_text txt)) m) \<or>
    (\<exists>u i. u \<le> 512 \<and> token_loop (word_spans 0 (normalized_loop_text txt)) m u i 1))"
proof -
  let ?n = "normalized_loop_text txt"
  have tok: "(0 < continuous_token_loop_count ?n m 512) =
      (\<exists>u i. u \<le> 512 \<and> token_loop (word_spans 0 ?n) m u i 1)"
    by (rule token_loop_count_pos)
  have sep: "(0 < continuous_separator_loop_count ?n m) =
      (\<exists>sep \<in> set loop_separators. py_in sep ?n \<and> has_adjacent_repeat (separator_chunks sep ?n) m)"
    unfolding continuous_separator_loop_count_def by (rule separator_scan_pos)
  have "0 < nanoclaw_looping_response_repeat_count txt m 2 \<longleftrightarrow> m * 2 \<le> int (length ?n) \<and>
      (0 < continuous_separator_loop_count ?n m \<or> 0 < continuous_token_loop_count ?n m 512)"
    by (auto simp: nanoclaw_looping_response_repeat_count_def Let_def)
  then show ?thesis unfolding tok sep .
qed

text \<open>
  With any bound on repeats, a reported number meets the bound: the result is 0 or at least
  one less than the bound (never below 1).
\<close>

lemma looping_response_threshold:
  "nanoclaw_looping_response_repeat_count txt m k = 0 \<or>
   max 2 k - 1 \<le> int (nanoclaw_looping_response_repeat_count txt m k)"
  by (simp add: nanoclaw_looping_response_repeat_count_def Let_def)

end
