(* ===== verification/PyVal.thy ===== *)
theory PyVal
  imports PyDict PyStr "HOL-Library.Char_ord" "HOL-Library.List_Lexorder"
begin

text \<open>
  Dynamically typed Python values, for the code that inspects types at run time: JSON-like data
  with dictionaries in insertion order and string keys, tuples, and any other object, of which
  only the \<open>repr\<close> is known.  Floats are exact rationals; how a float prints is the parameter
  \<open>frepr\<close> of the JSON printer.
\<close>

datatype pyval =
    PNone
  | PBool bool
  | PInt int
  | PFloat rat
  | PStr string
  | PList "pyval list"
  | PTuple "pyval list"
  | PDict "(string \<times> pyval) list"
  | PObj string

subsection \<open>Type tests and accessors\<close>

text \<open>\<open>isinstance(v, int)\<close>: a \<open>bool\<close> is an \<open>int\<close>.\<close>

definition as_int :: "pyval \<Rightarrow> int option" where
  "as_int v = (case v of PInt n \<Rightarrow> Some n | PBool b \<Rightarrow> Some (if b then 1 else 0) | _ \<Rightarrow> None)"

definition as_str :: "pyval \<Rightarrow> string option" where
  "as_str v = (case v of PStr s \<Rightarrow> Some s | _ \<Rightarrow> None)"

definition as_dict :: "pyval \<Rightarrow> (string, pyval) dict option" where
  "as_dict v = (case v of PDict d \<Rightarrow> Some d | _ \<Rightarrow> None)"

definition as_list :: "pyval \<Rightarrow> pyval list option" where
  "as_list v = (case v of PList xs \<Rightarrow> Some xs | _ \<Rightarrow> None)"

text \<open>\<open>isinstance(v, (int, float))\<close>, with the value.\<close>

definition as_num :: "pyval \<Rightarrow> rat option" where
  "as_num v = (case v of PInt n \<Rightarrow> Some (of_int n) | PBool b \<Rightarrow> Some (if b then 1 else 0)
     | PFloat q \<Rightarrow> Some q | _ \<Rightarrow> None)"

definition py_truthy :: "pyval \<Rightarrow> bool" where
  "py_truthy v = (case v of PNone \<Rightarrow> False | PBool b \<Rightarrow> b | PInt n \<Rightarrow> n \<noteq> 0 | PFloat q \<Rightarrow> q \<noteq> 0
     | PStr s \<Rightarrow> s \<noteq> [] | PList xs \<Rightarrow> xs \<noteq> [] | PTuple xs \<Rightarrow> xs \<noteq> [] | PDict d \<Rightarrow> d \<noteq> [] | PObj _ \<Rightarrow> True)"

text \<open>\<open>d.get(k)\<close>: a missing key reads as \<open>None\<close>.\<close>

definition pget :: "(string, pyval) dict \<Rightarrow> string \<Rightarrow> pyval" where
  "pget d k = dict_get_default d k PNone"

lemma pget_set: "pget (dict_set d k v) k' = (if k' = k then v else pget d k')"
  by (simp add: pget_def dict_get_default_def)

definition py_or :: "pyval \<Rightarrow> pyval \<Rightarrow> pyval" where
  "py_or a b = (if py_truthy a then a else b)"

text \<open>\<open>v == n\<close> for an integer \<open>n\<close>: numbers compare by value.\<close>

definition py_eq_int :: "pyval \<Rightarrow> int \<Rightarrow> bool" where
  "py_eq_int v n = (as_num v = Some (of_int n))"

subsection \<open>JSON\<close>

definition hex_digit :: "nat \<Rightarrow> char" where
  "hex_digit n = (if n < 10 then char_of (48 + n) else char_of (87 + n))"

definition json_escape_char :: "char \<Rightarrow> string" where
  "json_escape_char c = (let n = code c in
     if n = 34 then [CHR 0x5C, CHR 0x22]
     else if n = 92 then [CHR 0x5C, CHR 0x5C]
     else if n = 10 then [CHR 0x5C, CHR ''n'']
     else if n = 13 then [CHR 0x5C, CHR ''r'']
     else if n = 9 then [CHR 0x5C, CHR ''t'']
     else if n = 12 then [CHR 0x5C, CHR ''f'']
     else if n = 8 then [CHR 0x5C, CHR ''b'']
     else if n < 32 then [CHR 0x5C, CHR ''u'', CHR ''0'', CHR ''0'', hex_digit (n div 16), hex_digit (n mod 16)]
     else [c])"

definition json_string :: "string \<Rightarrow> string" where
  "json_string s = [CHR 0x22] @ concat (map json_escape_char s) @ [CHR 0x22]"

text \<open>
  \<open>json.dumps(v, ensure_ascii=False, sort_keys=True, separators=(",", ":"))\<close>; \<open>None\<close> is the
  \<open>TypeError\<close> of an object that JSON cannot hold.
\<close>

fun sequence_options :: "'a option list \<Rightarrow> 'a list option" where
  "sequence_options [] = Some []"
| "sequence_options (x # xs) = (case x of None \<Rightarrow> None
     | Some y \<Rightarrow> map_option (\<lambda>ys. y # ys) (sequence_options xs))"

fun json_dumps :: "(rat \<Rightarrow> string) \<Rightarrow> pyval \<Rightarrow> string option" where
  "json_dumps frepr PNone = Some ''null''"
| "json_dumps frepr (PBool b) = Some (if b then ''true'' else ''false'')"
| "json_dumps frepr (PInt n) = Some (int_str n)"
| "json_dumps frepr (PFloat q) = Some (frepr q)"
| "json_dumps frepr (PStr s) = Some (json_string s)"
| "json_dumps frepr (PList xs) =
     map_option (\<lambda>ys. ''['' @ py_join '','' ys @ '']'') (sequence_options (map (json_dumps frepr) xs))"
| "json_dumps frepr (PTuple xs) =
     map_option (\<lambda>ys. ''['' @ py_join '','' ys @ '']'') (sequence_options (map (json_dumps frepr) xs))"
| "json_dumps frepr (PDict d) =
     map_option (\<lambda>ys. ''{'' @ py_join '','' (map (\<lambda>(k, y). json_string k @ '':'' @ y) (sort_key fst (zip (map fst d) ys))) @ ''}'')
       (sequence_options (map (\<lambda>p. json_dumps frepr (snd p)) d))"
| "json_dumps frepr (PObj r) = None"

fun safe_json_value :: "pyval \<Rightarrow> pyval" where
  "safe_json_value (PDict d) = PDict (map (\<lambda>p. (fst p, safe_json_value (snd p))) d)"
| "safe_json_value (PList xs) = PList (map safe_json_value xs)"
| "safe_json_value (PTuple xs) = PList (map safe_json_value xs)"
| "safe_json_value (PObj r) = PStr r"
| "safe_json_value v = v"

text \<open>What a JSON document can hold.\<close>

fun is_json :: "pyval \<Rightarrow> bool" where
  "is_json (PDict d) = list_all (\<lambda>p. is_json (snd p)) d"
| "is_json (PList xs) = list_all is_json xs"
| "is_json (PTuple xs) = False"
| "is_json (PObj r) = False"
| "is_json v = True"

lemma safe_json_value_is_json: "is_json (safe_json_value v)"
  by (induction v rule: safe_json_value.induct) (auto simp: list_all_iff)

lemma safe_json_value_id: "is_json v \<Longrightarrow> safe_json_value v = v"
proof (induction v rule: safe_json_value.induct)
  case (1 d)
  then have "map (\<lambda>p. (fst p, safe_json_value (snd p))) d = map (\<lambda>p. p) d"
    by (intro map_cong) (auto simp: list_all_iff)
  then show ?case by simp
next
  case (2 xs)
  then have "map safe_json_value xs = map (\<lambda>x. x) xs"
    by (intro map_cong) (auto simp: list_all_iff)
  then show ?case by simp
qed auto

lemma sequence_options_Some: "list_all (\<lambda>x. x \<noteq> None) xs \<Longrightarrow> sequence_options xs = Some (map the xs)"
  by (induction xs) (auto split: option.splits)

lemma json_dumps_total: "is_json v \<Longrightarrow> json_dumps frepr v \<noteq> None"
proof (induction v rule: json_dumps.induct)
  case (6 frepr xs)
  then have "sequence_options (map (json_dumps frepr) xs) = Some (map the (map (json_dumps frepr) xs))"
    by (intro sequence_options_Some) (auto simp: list_all_iff)
  then show ?case by simp
next
  case (8 frepr d)
  then have "list_all (\<lambda>x. x \<noteq> None) (map (\<lambda>p. json_dumps frepr (snd p)) d)"
    by (auto simp: list_all_iff)
  then show ?case by (simp add: sequence_options_Some del: sequence_options.simps)
qed auto

subsection \<open>Equality and \<open>str\<close>\<close>

lemma size_pyval_mem: "x \<in> set xs \<Longrightarrow> size x < size_list size xs" for x :: pyval
  by (induction xs) auto

lemma size_pyval_entry: "p \<in> set d \<Longrightarrow> size (snd p) < size_list (size_prod (\<lambda>_. 0) size) d"
  for p :: "string \<times> pyval"
  by (induction d) (auto simp: less_Suc_eq_le trans_le_add1 split: prod.splits)

text \<open>
  Python's \<open>==\<close>: numbers compare by value, lists and tuples elementwise (a list is never a tuple),
  dictionaries by key whatever their order.  Objects are compared by their \<open>repr\<close>.
\<close>

function py_eq :: "pyval \<Rightarrow> pyval \<Rightarrow> bool" where
  "py_eq a b = (case a of
     PNone \<Rightarrow> b = PNone
   | PStr s \<Rightarrow> b = PStr s
   | PObj r \<Rightarrow> b = PObj r
   | PList xs \<Rightarrow> (case b of PList ys \<Rightarrow> length xs = length ys \<and> list_all (\<lambda>p. py_eq (fst p) (snd p)) (zip xs ys)
       | _ \<Rightarrow> False)
   | PTuple xs \<Rightarrow> (case b of PTuple ys \<Rightarrow> length xs = length ys \<and> list_all (\<lambda>p. py_eq (fst p) (snd p)) (zip xs ys)
       | _ \<Rightarrow> False)
   | PDict d \<Rightarrow> (case b of PDict e \<Rightarrow> length d = length e \<and>
         list_all (\<lambda>p. case dict_get e (fst p) of None \<Rightarrow> False | Some w \<Rightarrow> py_eq (snd p) w) d
       | _ \<Rightarrow> False)
   | _ \<Rightarrow> as_num a = as_num b)"
  by pat_completeness auto

termination
  by (relation "measure (\<lambda>(a, b). size a)")
    (auto simp: less_Suc_eq_le dest!: set_zip_leftD size_pyval_mem size_pyval_entry intro: less_imp_le)

declare py_eq.simps [simp del]

lemma py_eq_scalar [simp]:
  "py_eq (PInt m) (PInt n) \<longleftrightarrow> m = n" "py_eq (PStr s) (PStr t) \<longleftrightarrow> s = t"
  "py_eq PNone v \<longleftrightarrow> v = PNone" "py_eq (PStr s) v \<longleftrightarrow> v = PStr s"
  by (subst py_eq.simps; auto simp: as_num_def)+

text \<open>Values whose dictionaries have each key once, at every level: what Python can build.\<close>

fun py_wf :: "pyval \<Rightarrow> bool" where
  "py_wf (PDict d) = (dict_ok d \<and> list_all (\<lambda>p. py_wf (snd p)) d)"
| "py_wf (PList xs) = list_all py_wf xs"
| "py_wf (PTuple xs) = list_all py_wf xs"
| "py_wf v = True"

lemma zip_self: "p \<in> set (zip xs xs) \<Longrightarrow> fst p = snd p \<and> fst p \<in> set xs"
  by (induction xs) auto

lemma py_eq_refl: "py_wf v \<Longrightarrow> py_eq v v"
proof (induction v rule: py_wf.induct)
  case (1 d)
  have "dict_get d (fst p) = Some (snd p)" if "p \<in> set d" for p
    using that 1(2) by (simp add: dict_ok_def)
  with 1 show ?case by (subst py_eq.simps) (auto simp: list_all_iff)
next
  case (2 xs)
  then show ?case by (subst py_eq.simps) (auto simp: list_all_iff dest!: zip_self)
next
  case (3 xs)
  then show ?case by (subst py_eq.simps) (auto simp: list_all_iff dest!: zip_self)
qed (subst py_eq.simps; simp)+

text \<open>Type names, hashability and \<open>repr\<close>; \<open>frepr\<close> prints floats.\<close>

definition py_type_name :: "pyval \<Rightarrow> string" where
  "py_type_name v = (case v of PNone \<Rightarrow> ''NoneType'' | PBool _ \<Rightarrow> ''bool'' | PInt _ \<Rightarrow> ''int''
     | PFloat _ \<Rightarrow> ''float'' | PStr _ \<Rightarrow> ''str'' | PList _ \<Rightarrow> ''list'' | PTuple _ \<Rightarrow> ''tuple''
     | PDict _ \<Rightarrow> ''dict'' | PObj _ \<Rightarrow> ''object'')"

fun py_hashable :: "pyval \<Rightarrow> bool" where
  "py_hashable (PList _) = False"
| "py_hashable (PDict _) = False"
| "py_hashable (PTuple xs) = list_all py_hashable xs"
| "py_hashable v = True"

definition hex2 :: "nat \<Rightarrow> string" where
  "hex2 n = [hex_digit (n div 16), hex_digit (n mod 16)]"

definition repr_char :: "char \<Rightarrow> char \<Rightarrow> string" where
  "repr_char q c = (let n = code c in
     if c = q \<or> n = 92 then [CHR 0x5C, c]
     else if n = 10 then [CHR 0x5C, CHR ''n'']
     else if n = 13 then [CHR 0x5C, CHR ''r'']
     else if n = 9 then [CHR 0x5C, CHR ''t'']
     else if n < 32 \<or> (127 \<le> n \<and> n \<le> 160) \<or> n = 173 then [CHR 0x5C, CHR ''x''] @ hex2 n
     else [c])"

definition repr_string :: "string \<Rightarrow> string" where
  "repr_string s = (let q = (if CHR 0x27 \<in> set s \<and> CHR 0x22 \<notin> set s then CHR 0x22 else CHR 0x27)
     in [q] @ concat (map (repr_char q) s) @ [q])"

fun py_repr :: "(rat \<Rightarrow> string) \<Rightarrow> pyval \<Rightarrow> string" where
  "py_repr frepr PNone = ''None''"
| "py_repr frepr (PBool b) = (if b then ''True'' else ''False'')"
| "py_repr frepr (PInt n) = int_str n"
| "py_repr frepr (PFloat q) = frepr q"
| "py_repr frepr (PStr s) = repr_string s"
| "py_repr frepr (PList xs) = ''['' @ py_join '', '' (map (py_repr frepr) xs) @ '']''"
| "py_repr frepr (PTuple xs) = (case xs of [x] \<Rightarrow> ''('' @ concat (map (py_repr frepr) xs) @ '',)''
     | _ \<Rightarrow> ''('' @ py_join '', '' (map (py_repr frepr) xs) @ '')'')"
| "py_repr frepr (PDict d) =
     ''{'' @ py_join '', '' (map (\<lambda>p. repr_string (fst p) @ '': '' @ py_repr frepr (snd p)) d) @ ''}''"
| "py_repr frepr (PObj r) = r"

definition py_str :: "(rat \<Rightarrow> string) \<Rightarrow> pyval \<Rightarrow> string" where
  "py_str frepr v = (case v of PStr s \<Rightarrow> s | _ \<Rightarrow> py_repr frepr v)"

text \<open>\<open>int(v)\<close>; a float is truncated toward zero.\<close>

definition py_int_of :: "pyval \<Rightarrow> int result" where
  "py_int_of v = (case v of PInt n \<Rightarrow> Inr n | PBool b \<Rightarrow> Inr (if b then 1 else 0)
     | PFloat q \<Rightarrow> Inr (if 0 \<le> q then \<lfloor>q\<rfloor> else \<lceil>q\<rceil>)
     | PStr s \<Rightarrow> (case py_int s of Some n \<Rightarrow> Inr n
         | None \<Rightarrow> Inl (ValueError (''invalid literal for int() with base 10: '' @ repr_string s)))
     | _ \<Rightarrow> Inl (TypeError (''int() argument must be a string, a bytes-like object or a real number, not '' @
         repr_string (py_type_name v))))"

text \<open>\<open>str(exc)\<close> and \<open>type(exc).__name__\<close>.\<close>

definition exc_text :: "py_exc \<Rightarrow> string" where
  "exc_text e = (case e of AssertionError \<Rightarrow> '''' | IndexError \<Rightarrow> ''list index out of range''
     | ZeroDivisionError \<Rightarrow> ''division by zero'' | KeyError s \<Rightarrow> repr_string s | TypeError s \<Rightarrow> s
     | ValueError s \<Rightarrow> s | RuntimeError s \<Rightarrow> s | AttributeError s \<Rightarrow> s | NotImplementedError s \<Rightarrow> s
     | FileNotFoundError s \<Rightarrow> s | FileExistsError s \<Rightarrow> s | OSError s \<Rightarrow> s
     | NotADirectoryError s \<Rightarrow> s | IsADirectoryError s \<Rightarrow> s | JSONDecodeError s \<Rightarrow> s)"

definition exc_name :: "py_exc \<Rightarrow> string" where
  "exc_name e = (case e of AssertionError \<Rightarrow> ''AssertionError'' | IndexError \<Rightarrow> ''IndexError''
     | ZeroDivisionError \<Rightarrow> ''ZeroDivisionError'' | KeyError _ \<Rightarrow> ''KeyError'' | TypeError _ \<Rightarrow> ''TypeError''
     | ValueError _ \<Rightarrow> ''ValueError'' | RuntimeError _ \<Rightarrow> ''RuntimeError''
     | AttributeError _ \<Rightarrow> ''AttributeError'' | NotImplementedError _ \<Rightarrow> ''NotImplementedError''
     | FileNotFoundError _ \<Rightarrow> ''FileNotFoundError'' | FileExistsError _ \<Rightarrow> ''FileExistsError''
     | OSError _ \<Rightarrow> ''OSError'' | NotADirectoryError _ \<Rightarrow> ''NotADirectoryError''
     | IsADirectoryError _ \<Rightarrow> ''IsADirectoryError'' | JSONDecodeError _ \<Rightarrow> ''JSONDecodeError'')"

end
