(* ===== verification/ContinuousToken.thy ===== *)
theory ContinuousToken
  imports PyVal "HOL-Library.Sublist"
begin

text \<open>
  Model of \<open>verl/utils/tokenizer/continuous_token.py\<close>: the builders that extend a running token
  stream by messages and by generated tokens without rendering the whole conversation again, and
  of the wrappers \<open>ct_*\<close> of \<open>verl/experimental/agent_loop/agent_loop.py\<close>.  The tokenizer is a
  parameter: its chat template, its encoder and its table of special tokens.  The six builder
  classes are one record with a class tag; an overridden method is a case of the tag.  The locale
  \<open>boundary_merge\<close> is the contract of the merge hooks on which the alignment of the loss mask
  rests.
\<close>

type_synonym message = "(string, pyval) dict"

datatype merge_kind = KAssistant | KNonAssistant

record merge_result =
  mr_token_ids :: "int list"
  mr_appended_token_count :: nat
  mr_kind :: merge_kind
  mr_inserted_token_ids :: "int list"
  mr_removed_prefix_token_count :: nat

text \<open>
  \<open>tk_render messages add_generation_prompt tools kwargs\<close> is \<open>apply_chat_template\<close> followed by
  \<open>normalize_token_ids\<close>; \<open>tk_encode\<close> is \<open>encode\<close> without special tokens.
\<close>

record tokenizer =
  tk_render :: "message list \<Rightarrow> bool \<Rightarrow> pyval \<Rightarrow> message \<Rightarrow> int list result"
  tk_encode :: "string \<Rightarrow> int list"
  tk_convert :: "string \<Rightarrow> pyval"

datatype builder_class =
    Base
  | GptOss
  | Qwen int int
  | MiniMax int int
  | GLM int int
  | Gemma4 int

record builder =
  ct_tokenizer :: tokenizer
  ct_kwargs :: message
  ct_allowed_append_roles :: "string list"
  ct_class :: builder_class
  ct_frepr :: "rat \<Rightarrow> string"

subsection \<open>Construction\<close>

definition supported_append_roles :: "string list" where
  "supported_append_roles = [''tool'', ''user'', ''system'']"

definition str_list_repr :: "string list \<Rightarrow> string" where
  "str_list_repr xs = ''['' @ py_join '', '' (map repr_string xs) @ '']''"

definition base_init ::
  "(rat \<Rightarrow> string) \<Rightarrow> tokenizer \<Rightarrow> message \<Rightarrow> string list option \<Rightarrow> builder result" where
  "base_init frepr tk kwargs roles =
     (let b = \<lparr>ct_tokenizer = tk, ct_kwargs = kwargs, ct_allowed_append_roles = supported_append_roles,
            ct_class = Base, ct_frepr = frepr\<rparr> in
      case roles of
        None \<Rightarrow> Inr b
      | Some rs \<Rightarrow>
          (let unknown = filter (\<lambda>r. r \<notin> set supported_append_roles) (remdups rs) in
           if unknown \<noteq> [] then
             Inl (ValueError (''Unsupported Continuous Token append roles: '' @ str_list_repr (sort unknown)))
           else Inr (b\<lparr>ct_allowed_append_roles := rs\<rparr>)))"

definition require_token_id :: "(rat \<Rightarrow> string) \<Rightarrow> tokenizer \<Rightarrow> string \<Rightarrow> int result" where
  "require_token_id frepr tk token =
     (let id_ok = (\<lambda>v. case as_int v of
          Some n \<Rightarrow> if 0 \<le> n then Inr n
            else Inl (ValueError (''Tokenizer returned invalid id for required token '' @ repr_string token @ '': '' @ py_repr frepr v))
        | None \<Rightarrow> Inl (ValueError (''Tokenizer returned invalid id for required token '' @ repr_string token @ '': '' @ py_repr frepr v)))
      in case tk_convert tk token of
        PNone \<Rightarrow> Inl (ValueError (''Tokenizer does not define required token '' @ repr_string token))
      | PList [v] \<Rightarrow> id_ok v
      | PList vs \<Rightarrow> Inl (ValueError (''Tokenizer returned multiple ids for required token '' @ repr_string token @ '': '' @ py_repr frepr (PList vs)))
      | v \<Rightarrow> id_ok v)"

definition newline_id :: "string \<Rightarrow> (rat \<Rightarrow> string) \<Rightarrow> tokenizer \<Rightarrow> int result" where
  "newline_id model frepr tk = (case tk_encode tk [CHR 0x0A] of
       [n] \<Rightarrow> Inr n
     | ids \<Rightarrow> Inl (ValueError (''Expected '' @ model @ '' newline to tokenize to one token, got '' @
         py_repr frepr (PList (map PInt ids)))))"

definition with_class :: "builder \<Rightarrow> builder_class \<Rightarrow> builder" where
  "with_class b c = b\<lparr>ct_class := c\<rparr>"

definition gptoss_init where
  "gptoss_init frepr tk kwargs roles =
     rbind (base_init frepr tk kwargs roles) (\<lambda>b. Inr (with_class b GptOss))"

definition qwen_init where
  "qwen_init frepr tk kwargs roles =
     rbind (base_init frepr tk kwargs roles) (\<lambda>b.
     rbind (newline_id ''Qwen'' frepr tk) (\<lambda>nl.
     rbind (require_token_id frepr tk ''<|im_end|>'') (\<lambda>im_end. Inr (with_class b (Qwen nl im_end)))))"

definition minimax_init where
  "minimax_init frepr tk kwargs roles =
     rbind (base_init frepr tk kwargs roles) (\<lambda>b.
     rbind (newline_id ''MiniMax'' frepr tk) (\<lambda>nl.
     rbind (require_token_id frepr tk ''[e~['') (\<lambda>eos. Inr (with_class b (MiniMax nl eos)))))"

definition glm_init where
  "glm_init frepr tk kwargs roles =
     rbind (base_init frepr tk kwargs roles) (\<lambda>b.
     rbind (require_token_id frepr tk ''<|observation|>'') (\<lambda>obs.
     rbind (require_token_id frepr tk ''<|user|>'') (\<lambda>usr. Inr (with_class b (GLM obs usr)))))"

definition gemma4_init where
  "gemma4_init frepr tk kwargs roles =
     rbind (base_init frepr tk kwargs roles) (\<lambda>b.
     rbind (require_token_id frepr tk ''<|tool_response>'') (\<lambda>i. Inr (with_class b (Gemma4 i))))"

subsection \<open>Rendering\<close>

definition synthetic_system_message :: message where
  "synthetic_system_message =
     [(''role'', PStr ''system''), (''content'', PStr ''continuous token synthetic system'')]"

definition synthetic_user_message :: message where
  "synthetic_user_message =
     [(''role'', PStr ''user''), (''content'', PStr ''continuous token synthetic user'')]"

definition render_tokens :: "builder \<Rightarrow> message list \<Rightarrow> bool \<Rightarrow> pyval \<Rightarrow> int list result" where
  "render_tokens b messages add_generation_prompt tools =
     tk_render (ct_tokenizer b) messages add_generation_prompt tools (ct_kwargs b)"

definition build_initial_tokens :: "builder \<Rightarrow> message list \<Rightarrow> pyval \<Rightarrow> int list result" where
  "build_initial_tokens b messages tools = render_tokens b messages True tools"

definition render_delta_token_id ::
  "builder \<Rightarrow> message list \<Rightarrow> message list \<Rightarrow> bool \<Rightarrow> pyval \<Rightarrow> int list result" where
  "render_delta_token_id b prefix_messages appended add_generation_prompt tools =
     rbind (render_tokens b prefix_messages False tools) (\<lambda>prefix_ids.
     rbind (render_tokens b (prefix_messages @ appended) add_generation_prompt tools) (\<lambda>full_ids.
       if take (length prefix_ids) full_ids \<noteq> prefix_ids then
         Inl (ValueError (''Continuous Token token-id suffix diff failed for roles: '' @
           py_repr (ct_frepr b) (PList (if appended = [] then [PStr ''generation_prompt'']
             else map (\<lambda>m. pget m ''role'') appended))))
       else Inr (drop (length prefix_ids) full_ids)))"

subsection \<open>Tool names and contents\<close>

definition join_strings :: "pyval list \<Rightarrow> string result" where
  "join_strings vs = map_sum id concat (rmap (\<lambda>(i, v). case v of PStr s \<Rightarrow> Inr s
       | _ \<Rightarrow> Inl (TypeError (''sequence item '' @ int_str (int i) @ '': expected str instance, '' @
             py_type_name v @ '' found''))) (enumerate 0 vs))"

definition stringify_tool_content :: "(rat \<Rightarrow> string) \<Rightarrow> pyval \<Rightarrow> string result" where
  "stringify_tool_content frepr content = (case content of
       PNone \<Rightarrow> Inr ''''
     | PStr s \<Rightarrow> Inr s
     | PList items \<Rightarrow> join_strings (map (\<lambda>d. dict_get_default d ''text'' (PStr ''''))
         (filter (\<lambda>d. py_eq (PStr ''text'') (pget d ''type'')) (List.map_filter as_dict items)))
     | v \<Rightarrow> Inr (py_str frepr v))"

definition tool_message_name_or_dummy :: "(rat \<Rightarrow> string) \<Rightarrow> message \<Rightarrow> string" where
  "tool_message_name_or_dummy frepr m =
     (if py_truthy (pget m ''name'') then py_str frepr (pget m ''name'') else ''continuous_token_tool'')"

definition tool_call_id_or_dummy :: "message \<Rightarrow> nat \<Rightarrow> pyval" where
  "tool_call_id_or_dummy m index =
     (if pget m ''tool_call_id'' \<noteq> PNone then pget m ''tool_call_id''
      else PStr (''continuous_token_call_'' @ int_str (int index)))"

definition tool_call_function_name :: "(rat \<Rightarrow> string) \<Rightarrow> message \<Rightarrow> string option" where
  "tool_call_function_name frepr tool_call = (case pget tool_call ''function'' of
       PDict f \<Rightarrow> (if pget f ''name'' \<noteq> PNone then Some (py_str frepr (pget f ''name'')) else None)
     | _ \<Rightarrow> None)"

fun collect_call_names :: "(rat \<Rightarrow> string) \<Rightarrow> pyval list \<Rightarrow> (string, string) dict \<Rightarrow> string option list \<Rightarrow>
    (string, string) dict \<times> string option list" where
  "collect_call_names frepr [] names pos = (names, pos)"
| "collect_call_names frepr (c # cs) names pos = (case c of
       PDict tool_call \<Rightarrow>
         (let name = tool_call_function_name frepr tool_call; call_id = pget tool_call ''id'';
              names' = (case name of
                  Some n \<Rightarrow> if call_id \<noteq> PNone then dict_setdefault names (py_str frepr call_id) n else names
                | None \<Rightarrow> names)
          in collect_call_names frepr cs names' (pos @ [name]))
     | _ \<Rightarrow> collect_call_names frepr cs names (pos @ [None]))"

definition latest_assistant_tool_call_names ::
  "(rat \<Rightarrow> string) \<Rightarrow> message list \<Rightarrow> (string, string) dict \<times> string option list" where
  "latest_assistant_tool_call_names frepr messages =
     (case dropWhile (\<lambda>m. pget m ''role'' \<noteq> PStr ''assistant'') (rev messages) of
        [] \<Rightarrow> ([], [])
      | m # _ \<Rightarrow> (case py_or (pget m ''tool_calls'') (PList []) of
            PList tool_calls \<Rightarrow> collect_call_names frepr tool_calls [] []
          | _ \<Rightarrow> ([], [])))"

definition resolve_required_tool_name ::
  "(rat \<Rightarrow> string) \<Rightarrow> message \<Rightarrow> nat \<Rightarrow> message list \<Rightarrow> message list \<Rightarrow> string result" where
  "resolve_required_tool_name frepr m index tool_messages previous =
     (if py_truthy (pget m ''name'') then Inr (py_str frepr (pget m ''name''))
      else
        (let (by_id, positional) = latest_assistant_tool_call_names frepr previous;
             call_id = pget m ''tool_call_id'' in
         if call_id \<noteq> PNone \<and> dict_has by_id (py_str frepr call_id) then
           Inr (dict_get_default by_id (py_str frepr call_id) '''')
         else if length tool_messages \<noteq> length positional then
           Inl (ValueError (''Continuous Token cannot resolve tool name by position: got '' @
             int_str (int (length tool_messages)) @ '' tool response messages but the latest assistant has '' @
             int_str (int (length positional)) @ '' tool calls''))
         else (case (if index < length positional then positional ! index else None) of
             None \<Rightarrow> Inl (ValueError (''Continuous Token cannot resolve tool name by position: assistant tool call at index '' @
               int_str (int index) @ '' has no function name''))
           | Some n \<Rightarrow> Inr n)))"

definition synthetic_assistant_for_tools :: "(rat \<Rightarrow> string) \<Rightarrow> message list \<Rightarrow> message" where
  "synthetic_assistant_for_tools frepr tool_messages =
     [(''role'', PStr ''assistant''), (''content'', PStr ''''), (''reasoning_content'', PStr ''reasoning''),
      (''tool_calls'', PList (map (\<lambda>(index, m). PDict
         [(''id'', tool_call_id_or_dummy m index), (''type'', PStr ''function''),
          (''function'', PDict [(''name'', PStr (tool_message_name_or_dummy frepr m)), (''arguments'', PDict [])])])
        (enumerate 0 tool_messages)))]"

subsection \<open>Incremental tokens\<close>

text \<open>\<open>role in {...}\<close> hashes the role first.\<close>

definition role_in :: "pyval \<Rightarrow> string list \<Rightarrow> bool result" where
  "role_in v roles = (if py_hashable v then Inr (v \<in> PStr ` set roles)
     else Inl (TypeError (''unhashable type: '' @ repr_string (py_type_name v))))"

definition is_tool :: "message \<Rightarrow> bool" where
  "is_tool m \<longleftrightarrow> pget m ''role'' = PStr ''tool''"

function iter_append_groups :: "message list \<Rightarrow> message list list" where
  "iter_append_groups [] = []"
| "iter_append_groups (m # ms) =
     (if is_tool m then (m # takeWhile is_tool ms) # iter_append_groups (dropWhile is_tool ms)
      else [m] # iter_append_groups ms)"
  by pat_completeness auto

termination
  by (relation "measure length") (auto simp: less_Suc_eq_le length_dropWhile_le)

fun check_append_roles :: "builder \<Rightarrow> message list \<Rightarrow> unit result" where
  "check_append_roles b [] = Inr ()"
| "check_append_roles b (m # ms) =
     rbind (role_in (pget m ''role'') (ct_allowed_append_roles b)) (\<lambda>ok.
       if ok then check_append_roles b ms
       else Inl (ValueError (''Continuous Token only supports appending roles '' @
         str_list_repr (sort (remdups (ct_allowed_append_roles b))) @ '', got '' @
         py_repr (ct_frepr b) (pget m ''role''))))"

definition assert_append_only :: "builder \<Rightarrow> message list \<Rightarrow> message list \<Rightarrow> unit result" where
  "assert_append_only b previous updated =
     (if length updated < length previous then
        Inl (ValueError ''Continuous Token messages must be append-only; updated_messages is shorter'')
      else if \<not> py_eq (PList (map PDict (take (length previous) updated))) (PList (map PDict previous)) then
        Inl (ValueError ''Continuous Token messages must be append-only; prefix messages changed'')
      else check_append_roles b (drop (length previous) updated))"

definition gptoss_format :: "(rat \<Rightarrow> string) \<Rightarrow> message \<Rightarrow> string \<Rightarrow> string result" where
  "gptoss_format frepr m tool_name =
     map_sum id (\<lambda>content. ''<|start|>functions.'' @ tool_name @ '' to=assistant<|channel|>commentary<|message|>'' @
         content @ ''<|end|>'')
       (stringify_tool_content frepr (dict_get_default m ''content'' (PStr '''')))"

definition gemma4_format :: "(rat \<Rightarrow> string) \<Rightarrow> message \<Rightarrow> string \<Rightarrow> string result" where
  "gemma4_format frepr m tool_name =
     map_sum id (\<lambda>content. ''<|tool_response>response:'' @ tool_name @ ''{value:<|'' @ [CHR 0x22] @ ''|>'' @
         content @ ''<|'' @ [CHR 0x22] @ ''|>}<tool_response|>'')
       (stringify_tool_content frepr (dict_get_default m ''content'' (PStr '''')))"

definition encode_responses ::
  "builder \<Rightarrow> ((rat \<Rightarrow> string) \<Rightarrow> message \<Rightarrow> string \<Rightarrow> string result) \<Rightarrow> message list \<Rightarrow> message list \<Rightarrow> int list result" where
  "encode_responses b fmt tool_messages previous =
     map_sum id (\<lambda>texts. tk_encode (ct_tokenizer b) (concat texts))
       (rmap (\<lambda>(index, m).
          rbind (resolve_required_tool_name (ct_frepr b) m index tool_messages previous) (fmt (ct_frepr b) m))
        (enumerate 0 tool_messages))"

definition tokenize_tool_group :: "builder \<Rightarrow> message list \<Rightarrow> message list \<Rightarrow> pyval \<Rightarrow> int list result" where
  "tokenize_tool_group b tool_messages previous tools = (case ct_class b of
       GptOss \<Rightarrow> encode_responses b gptoss_format tool_messages previous
     | Gemma4 _ \<Rightarrow> encode_responses b gemma4_format tool_messages previous
     | _ \<Rightarrow> render_delta_token_id b
         [synthetic_system_message, synthetic_user_message, synthetic_assistant_for_tools (ct_frepr b) tool_messages]
         tool_messages False tools)"

definition tokenize_single_non_tool :: "builder \<Rightarrow> message \<Rightarrow> pyval \<Rightarrow> int list result" where
  "tokenize_single_non_tool b m tools =
     render_delta_token_id b [synthetic_system_message, synthetic_user_message] [m] False tools"

definition tokenize_generation_prompt_delta :: "builder \<Rightarrow> message list \<Rightarrow> pyval \<Rightarrow> int list result" where
  "tokenize_generation_prompt_delta b updated tools = (case ct_class b of
       Gemma4 _ \<Rightarrow>
         (if updated = [] then Inl IndexError
          else rbind (role_in (pget (last updated) ''role'') [''user'', ''system'']) (\<lambda>user.
            if \<not> user then Inr []
            else render_delta_token_id b [synthetic_system_message, synthetic_user_message, last updated] [] True tools))
     | _ \<Rightarrow> render_delta_token_id b updated [] True tools)"

definition tokenize_group :: "builder \<Rightarrow> message list \<Rightarrow> pyval \<Rightarrow> message list \<Rightarrow> int list result" where
  "tokenize_group b previous tools grp =
     (let role = pget (hd grp) ''role'' in
      if role = PStr ''tool'' then tokenize_tool_group b grp previous tools
      else rbind (role_in role [''user'', ''system'']) (\<lambda>single.
        if single then
          (if length grp \<noteq> 1 then
             Inl (ValueError (''Continuous Token expects one '' @ py_repr (ct_frepr b) role @
               '' message per append group, got '' @ int_str (int (length grp))))
           else tokenize_single_non_tool b (hd grp) tools)
        else Inl (ValueError (''Unsupported Continuous Token append role: '' @ py_repr (ct_frepr b) role))))"

definition tokenize_non_assistant_incremental_messages ::
  "builder \<Rightarrow> message list \<Rightarrow> message list \<Rightarrow> pyval \<Rightarrow> int list result" where
  "tokenize_non_assistant_incremental_messages b previous updated tools =
     rbind (assert_append_only b previous updated) (\<lambda>_.
       let appended = drop (length previous) updated in
       if appended = [] then Inr []
       else rbind (rmap (tokenize_group b previous tools) (iter_append_groups appended)) (\<lambda>parts.
         rbind (tokenize_generation_prompt_delta b updated tools) (\<lambda>gen. Inr (concat parts @ gen))))"

subsection \<open>Merging\<close>

definition merge_assistant_tokens :: "int list \<Rightarrow> int list \<Rightarrow> merge_result" where
  "merge_assistant_tokens runtime assistant =
     \<lparr>mr_token_ids = runtime @ assistant, mr_appended_token_count = length assistant, mr_kind = KAssistant,
      mr_inserted_token_ids = [], mr_removed_prefix_token_count = 0\<rparr>"

text \<open>Insert a token after a prefix that satisfies a test; drop an ambiguous last token.\<close>

definition merge_insert :: "bool \<Rightarrow> int \<Rightarrow> int list \<Rightarrow> int list \<Rightarrow> merge_result" where
  "merge_insert missing tok runtime appended =
     (let inserted = (if missing then [tok] else []) in
      \<lparr>mr_token_ids = (runtime @ inserted) @ appended, mr_appended_token_count = length appended,
       mr_kind = KNonAssistant, mr_inserted_token_ids = inserted, mr_removed_prefix_token_count = 0\<rparr>)"

definition merge_trim :: "int set \<Rightarrow> int list \<Rightarrow> int list \<Rightarrow> merge_result" where
  "merge_trim ambiguous runtime appended =
     (let trim = (runtime \<noteq> [] \<and> last runtime \<in> ambiguous) in
      \<lparr>mr_token_ids = (if trim then butlast runtime else runtime) @ appended,
       mr_appended_token_count = length appended, mr_kind = KNonAssistant,
       mr_inserted_token_ids = [], mr_removed_prefix_token_count = (if trim then 1 else 0)\<rparr>)"

definition merge_non_assistant_token_ids :: "builder \<Rightarrow> int list \<Rightarrow> int list \<Rightarrow> merge_result" where
  "merge_non_assistant_token_ids b runtime appended = (case ct_class b of
       Qwen nl im_end \<Rightarrow> merge_insert (runtime \<noteq> [] \<and> last runtime = im_end) nl runtime appended
     | MiniMax nl eos \<Rightarrow> merge_insert (runtime \<noteq> [] \<and> last runtime = eos) nl runtime appended
     | GLM obs usr \<Rightarrow> merge_trim {obs, usr} runtime appended
     | _ \<Rightarrow> \<lparr>mr_token_ids = runtime @ appended, mr_appended_token_count = length appended,
         mr_kind = KNonAssistant, mr_inserted_token_ids = [], mr_removed_prefix_token_count = 0\<rparr>)"

definition merge_gemma4 :: "int \<Rightarrow> message list \<Rightarrow> int list \<Rightarrow> int list \<Rightarrow> merge_result" where
  "merge_gemma4 tool_response appended_messages runtime appended =
     merge_insert (appended_messages \<noteq> [] \<and> \<not> (runtime \<noteq> [] \<and> last runtime = tool_response))
       tool_response runtime appended"

definition merge_non_assistant_tokens ::
  "builder \<Rightarrow> message list \<Rightarrow> message list \<Rightarrow> int list \<Rightarrow> pyval \<Rightarrow> merge_result result" where
  "merge_non_assistant_tokens b previous updated runtime tools =
     rbind (tokenize_non_assistant_incremental_messages b previous updated tools) (\<lambda>appended.
       Inr (case ct_class b of
           Gemma4 i \<Rightarrow> merge_gemma4 i (drop (length previous) updated) runtime appended
         | _ \<Rightarrow> merge_non_assistant_token_ids b runtime appended))"

subsection \<open>Alignment of mask and log-probabilities\<close>

definition drop_last :: "nat \<Rightarrow> 'a list \<Rightarrow> 'a list" where
  "drop_last n xs = (if n = 0 then xs else take (length xs - n) xs)"

definition align_response_metadata ::
  "merge_result \<Rightarrow> int list \<Rightarrow> rat list option \<Rightarrow> rat list option \<Rightarrow> (int list \<times> rat list option) result" where
  "align_response_metadata mr mask0 logprobs assistant_logprobs =
     (if logprobs = None \<and> assistant_logprobs \<noteq> None then
        Inl (ValueError ''response_logprobs is required when assistant_logprobs is provided'')
      else
        (let removed = mr_removed_prefix_token_count mr; inserted = length (mr_inserted_token_ids mr);
             count = mr_appended_token_count mr;
             m1 = drop_last removed mask0 @ replicate inserted 0;
             l1 = map_option (\<lambda>l. drop_last removed l @ replicate inserted 0) logprobs in
         case mr_kind mr of
           KAssistant \<Rightarrow>
             (case l1 of
                None \<Rightarrow> Inr (m1 @ replicate count 1, None)
              | Some l \<Rightarrow>
                  (if assistant_logprobs = None \<and> count \<noteq> 0 then
                     Inl (ValueError ''assistant_logprobs is required for assistant Continuous Token alignment'')
                   else
                     (let al = (case assistant_logprobs of None \<Rightarrow> [] | Some a \<Rightarrow> a) in
                      if length al \<noteq> count then
                        Inl (ValueError (''assistant_logprobs length must match appended assistant token count, got '' @
                          int_str (int (length al)) @ '' and '' @ int_str (int count)))
                      else Inr (m1 @ replicate count 1, Some (l @ al)))))
         | KNonAssistant \<Rightarrow>
             Inr (m1 @ replicate count 0, map_option (\<lambda>l. l @ replicate count 0) l1)))"

subsection \<open>The wrappers of the agent loop\<close>

text \<open>\<open>prompt_ids[-prompt_length:]\<close>: with a length of 0 the slice is the whole list.\<close>

definition cap_text_prompt_length :: "nat \<Rightarrow> int list \<Rightarrow> int list" where
  "cap_text_prompt_length prompt_length ids =
     (if prompt_length < length ids then (if prompt_length = 0 then ids else drop (length ids - prompt_length) ids)
      else ids)"

definition ct_build_initial_tokens :: "builder \<Rightarrow> nat \<Rightarrow> message list \<Rightarrow> pyval \<Rightarrow> int list result" where
  "ct_build_initial_tokens b prompt_length messages tools =
     map_sum id (cap_text_prompt_length prompt_length) (build_initial_tokens b messages tools)"

definition ct_merge_non_assistant_msg ::
  "builder \<Rightarrow> message list \<Rightarrow> message list \<Rightarrow> int list \<Rightarrow> int list \<Rightarrow> rat list option \<Rightarrow> pyval \<Rightarrow>
   (merge_result \<times> int list \<times> rat list option) result" where
  "ct_merge_non_assistant_msg b previous updated runtime mask0 logprobs tools =
     rbind (merge_non_assistant_tokens b previous updated runtime tools) (\<lambda>mr.
       map_sum id (Pair mr) (align_response_metadata mr mask0 logprobs None))"

definition ct_merge_assistant_token ::
  "int list \<Rightarrow> int list \<Rightarrow> int list \<Rightarrow> rat list option \<Rightarrow> rat list option \<Rightarrow>
   (merge_result \<times> int list \<times> rat list option) result" where
  "ct_merge_assistant_token runtime assistant mask0 logprobs assistant_logprobs =
     (let mr = merge_assistant_tokens runtime assistant in
      map_sum id (Pair mr) (align_response_metadata mr mask0 logprobs assistant_logprobs))"

subsection \<open>The contract of a merge\<close>

text \<open>
  A merge describes its own edit: it drops the announced number of tokens from the end of the
  runtime prefix, then adds the inserted and the appended tokens.
\<close>

definition merge_describes :: "int list \<Rightarrow> int list \<Rightarrow> merge_result \<Rightarrow> bool" where
  "merge_describes runtime appended mr \<longleftrightarrow>
     mr_removed_prefix_token_count mr \<le> length runtime \<and>
     mr_token_ids mr = drop_last (mr_removed_prefix_token_count mr) runtime @ mr_inserted_token_ids mr @ appended \<and>
     mr_appended_token_count mr = length appended"

text \<open>
  Metadata is aligned with a prompt and the response that follows it: one mask entry and, when
  they are recorded, one log-probability per response token.
\<close>

definition aligned :: "int list \<Rightarrow> int list \<Rightarrow> int list \<times> rat list option \<Rightarrow> bool" where
  "aligned ids prompt ml \<longleftrightarrow> (\<exists>response. ids = prompt @ response \<and> length (fst ml) = length response \<and>
     (\<forall>l. snd ml = Some l \<longrightarrow> length l = length response))"

lemma drop_last_append: "n \<le> length ys \<Longrightarrow> drop_last n (xs @ ys) = xs @ drop_last n ys"
  by (simp add: drop_last_def)

lemma length_drop_last [simp]: "length (drop_last n xs) = length xs - n"
  by (simp add: drop_last_def)

locale boundary_merge =
  fixes merge :: "int list \<Rightarrow> int list \<Rightarrow> merge_result"
  assumes describes: "merge_describes runtime appended (merge runtime appended)"
begin

lemma keeps_prompt:
  assumes "runtime = prompt @ response" "mr_removed_prefix_token_count (merge runtime appended) \<le> length response"
  shows "mr_token_ids (merge runtime appended) = prompt @
    drop_last (mr_removed_prefix_token_count (merge runtime appended)) response @
    mr_inserted_token_ids (merge runtime appended) @ appended"
  using describes [of runtime appended] assms by (simp add: merge_describes_def drop_last_append)

lemma keeps_aligned:
  assumes "aligned runtime prompt ml" "aligned_ml = align_response_metadata (merge runtime appended) (fst ml) (snd ml) al"
    and "mr_removed_prefix_token_count (merge runtime appended) \<le> length (fst ml)" "aligned_ml = Inr ml'"
  shows "aligned (mr_token_ids (merge runtime appended)) prompt ml'"
proof -
  from assms(1) obtain response where r: "runtime = prompt @ response" "length (fst ml) = length response"
    "\<forall>l. snd ml = Some l \<longrightarrow> length l = length response" by (auto simp: aligned_def)
  with assms(3) have rem: "mr_removed_prefix_token_count (merge runtime appended) \<le> length response" by simp
  have cnt: "mr_appended_token_count (merge runtime appended) = length appended"
    using describes [of runtime appended] by (simp add: merge_describes_def)
  show ?thesis
    unfolding aligned_def
    by (rule exI [of _ "drop_last (mr_removed_prefix_token_count (merge runtime appended)) response @
        mr_inserted_token_ids (merge runtime appended) @ appended"])
      (use assms(2,4) r cnt keeps_prompt [OF r(1) rem] in
        \<open>auto simp: align_response_metadata_def Let_def split: if_splits merge_kind.splits option.splits\<close>)
qed

end

interpretation assistant_merge: boundary_merge merge_assistant_tokens
  by unfold_locales (simp add: merge_describes_def merge_assistant_tokens_def drop_last_def)

lemma merge_insert_describes: "merge_describes runtime appended (merge_insert c t runtime appended)"
  by (simp add: merge_describes_def merge_insert_def drop_last_def)

lemma merge_trim_describes: "merge_describes runtime appended (merge_trim A runtime appended)"
  by (cases runtime rule: rev_cases) (simp_all add: merge_describes_def merge_trim_def drop_last_def Let_def)

interpretation base_merge: boundary_merge "merge_non_assistant_token_ids b" for b
proof
  fix runtime appended
  show "merge_describes runtime appended (merge_non_assistant_token_ids b runtime appended)"
    by (cases "ct_class b"; simp add: merge_non_assistant_token_ids_def merge_insert_describes merge_trim_describes;
        simp add: merge_describes_def drop_last_def)
qed

interpretation gemma4_merge: boundary_merge "merge_gemma4 i msgs" for i msgs
  by unfold_locales (simp add: merge_gemma4_def merge_insert_describes)

text \<open>The merge a builder performs, as a function of its class.\<close>

definition class_merge :: "builder \<Rightarrow> message list \<Rightarrow> int list \<Rightarrow> int list \<Rightarrow> merge_result" where
  "class_merge b msgs = (case ct_class b of Gemma4 i \<Rightarrow> merge_gemma4 i msgs | _ \<Rightarrow> merge_non_assistant_token_ids b)"

interpretation class_merge: boundary_merge "class_merge b msgs" for b msgs
  by unfold_locales
    (auto simp: class_merge_def base_merge.describes gemma4_merge.describes split: builder_class.splits)

lemma merge_non_assistant_tokens_class:
  "merge_non_assistant_tokens b previous updated runtime tools =
   map_sum id (class_merge b (drop (length previous) updated) runtime)
     (tokenize_non_assistant_incremental_messages b previous updated tools)"
  by (cases "tokenize_non_assistant_incremental_messages b previous updated tools")
    (simp_all add: merge_non_assistant_tokens_def class_merge_def split: builder_class.splits)

text \<open>The tokens that may be dropped at the boundary.\<close>

definition boundary_ids :: "builder \<Rightarrow> int set" where
  "boundary_ids b = (case ct_class b of GLM obs usr \<Rightarrow> {obs, usr} | _ \<Rightarrow> {})"

lemma class_merge_removed:
  "mr_removed_prefix_token_count (class_merge b msgs runtime appended) =
     (if runtime \<noteq> [] \<and> last runtime \<in> boundary_ids b then 1 else 0)"
  by (cases "ct_class b")
    (simp_all add: class_merge_def merge_non_assistant_token_ids_def merge_gemma4_def merge_insert_def
      merge_trim_def boundary_ids_def Let_def)

lemma class_merge_kind: "mr_kind (class_merge b msgs runtime appended) = KNonAssistant"
  by (cases "ct_class b")
    (simp_all add: class_merge_def merge_non_assistant_token_ids_def merge_gemma4_def merge_insert_def
      merge_trim_def Let_def)

subsection \<open>Episodes\<close>

text \<open>
  An episode is a sequence of wrapper calls on the runtime state: the model's tokens are merged,
  or messages are appended.
\<close>

datatype ct_event = Generated "int list" "rat list option" | Appended "message list" "message list"

record ct_run =
  cr_ids :: "int list"
  cr_mask :: "int list"
  cr_logprobs :: "rat list option"

definition ct_step :: "builder \<Rightarrow> pyval \<Rightarrow> ct_run \<Rightarrow> ct_event \<Rightarrow> ct_run result" where
  "ct_step b tools s e =
     map_sum id (\<lambda>(mr, m, l). \<lparr>cr_ids = mr_token_ids mr, cr_mask = m, cr_logprobs = l\<rparr>)
       (case e of
          Generated ids lps \<Rightarrow> ct_merge_assistant_token (cr_ids s) ids (cr_mask s) (cr_logprobs s) lps
        | Appended previous updated \<Rightarrow>
            ct_merge_non_assistant_msg b previous updated (cr_ids s) (cr_mask s) (cr_logprobs s) tools)"

definition generated_tokens :: "ct_event list \<Rightarrow> int list" where
  "generated_tokens es = concat (map (\<lambda>e. case e of Generated ids _ \<Rightarrow> ids | _ \<Rightarrow> []) es)"

text \<open>The tokens that carry loss.\<close>

definition loss_tokens :: "int list \<Rightarrow> int list \<Rightarrow> int list" where
  "loss_tokens response msk = map fst (filter (\<lambda>p. snd p = 1) (zip response msk))"

lemma loss_tokens_append:
  "length msk = length response \<Longrightarrow>
   loss_tokens (response @ r2) (msk @ m2) = loss_tokens response msk @ loss_tokens r2 m2"
  by (simp add: loss_tokens_def)

lemma loss_tokens_zero [simp]: "loss_tokens r (replicate n 0) = []"
  by (auto simp: loss_tokens_def filter_empty_conv in_set_zip)

lemma loss_tokens_one [simp]: "loss_tokens r (replicate (length r) 1) = r"
proof -
  have "filter (\<lambda>p. snd p = 1) (zip r (replicate (length r) 1)) = zip r (replicate (length r) (1 :: int))"
    by (rule filter_True) (auto simp: in_set_zip)
  then show ?thesis by (simp add: loss_tokens_def)
qed

lemma loss_tokens_drop_last: "prefix (loss_tokens (drop_last n r) (drop_last n m)) (loss_tokens r m)"
  if "length m = length r"
proof -
  let ?k = "length r - n"
  have "loss_tokens r m = loss_tokens (take ?k r) (take ?k m) @ loss_tokens (drop ?k r) (drop ?k m)"
    using loss_tokens_append [of "take ?k m" "take ?k r" "drop ?k r" "drop ?k m"] that by simp
  moreover have "drop_last n r = take ?k r" "drop_last n m = take ?k m"
    using that by (simp_all add: drop_last_def)
  ultimately show ?thesis by (simp only: prefixI)
qed

text \<open>What holds of a runtime state, given the prompt and the tokens generated so far.\<close>

definition episode_ok :: "builder \<Rightarrow> int list \<Rightarrow> int list \<Rightarrow> ct_run \<Rightarrow> bool" where
  "episode_ok b prompt generated s \<longleftrightarrow> (\<exists>response. cr_ids s = prompt @ response \<and>
     length (cr_mask s) = length response \<and> set (cr_mask s) \<subseteq> {0, 1} \<and>
     (\<forall>l. cr_logprobs s = Some l \<longrightarrow> length l = length response \<and>
        (\<forall>i < length response. cr_mask s ! i = 0 \<longrightarrow> l ! i = 0)) \<and>
     subseq (loss_tokens response (cr_mask s)) generated \<and>
     (boundary_ids b = {} \<longrightarrow> loss_tokens response (cr_mask s) = generated))"

lemma ct_step_generated:
  assumes "ct_step b tools s (Generated ids lps) = Inr s'"
  shows "cr_ids s' = cr_ids s @ ids \<and> cr_mask s' = cr_mask s @ replicate (length ids) 1 \<and>
    (cr_logprobs s' = None \<and> cr_logprobs s = None \<or>
      (\<exists>l al. cr_logprobs s = Some l \<and> length al = length ids \<and> cr_logprobs s' = Some (l @ al)))"
  using assms
  by (auto simp: ct_step_def ct_merge_assistant_token_def merge_assistant_tokens_def align_response_metadata_def
      drop_last_def Let_def split: if_splits option.splits)

lemma ct_step_appended:
  assumes "ct_step b tools s (Appended previous updated) = Inr s'"
  shows "\<exists>n k. n = (if cr_ids s \<noteq> [] \<and> last (cr_ids s) \<in> boundary_ids b then 1 else 0) \<and>
    (\<exists>new. cr_ids s' = drop_last n (cr_ids s) @ new \<and> length new = k) \<and>
    cr_mask s' = drop_last n (cr_mask s) @ replicate k 0 \<and>
    cr_logprobs s' = map_option (\<lambda>l. drop_last n l @ replicate k 0) (cr_logprobs s)"
proof -
  from assms obtain app where app: "tokenize_non_assistant_incremental_messages b previous updated tools = Inr app"
    by (cases "tokenize_non_assistant_incremental_messages b previous updated tools")
      (auto simp: ct_step_def ct_merge_non_assistant_msg_def merge_non_assistant_tokens_class)
  let ?mr = "class_merge b (drop (length previous) updated) (cr_ids s) app"
  let ?n = "mr_removed_prefix_token_count ?mr" and ?ins = "mr_inserted_token_ids ?mr"
  have d: "mr_token_ids ?mr = drop_last ?n (cr_ids s) @ ?ins @ app" "mr_appended_token_count ?mr = length app"
    using class_merge.describes [of "cr_ids s" app b "drop (length previous) updated"]
    by (simp_all add: merge_describes_def)
  have s': "s' = \<lparr>cr_ids = mr_token_ids ?mr, cr_mask = (drop_last ?n (cr_mask s) @ replicate (length ?ins) 0) @ replicate (length app) 0,
      cr_logprobs = map_option (\<lambda>l. l @ replicate (length app) 0)
        (map_option (\<lambda>l. drop_last ?n l @ replicate (length ?ins) 0) (cr_logprobs s))\<rparr>"
    using assms app
    by (simp add: ct_step_def ct_merge_non_assistant_msg_def merge_non_assistant_tokens_class
        align_response_metadata_def class_merge_kind d(2) Let_def)
  have n: "?n = (if cr_ids s \<noteq> [] \<and> last (cr_ids s) \<in> boundary_ids b then 1 else 0)"
    by (rule class_merge_removed)
  have "cr_ids s' = drop_last ?n (cr_ids s) @ (?ins @ app)" by (simp add: s' d(1))
  moreover have "cr_mask s' = drop_last ?n (cr_mask s) @ replicate (length (?ins @ app)) 0"
    by (simp add: s' replicate_add)
  moreover have "cr_logprobs s' = map_option (\<lambda>l. drop_last ?n l @ replicate (length (?ins @ app)) 0) (cr_logprobs s)"
    by (cases "cr_logprobs s") (simp_all add: s' replicate_add)
  ultimately show ?thesis using n by blast
qed

lemma zero_logprobs_append:
  assumes "length m = n" "length l = n" "\<forall>i < n. m ! i = 0 \<longrightarrow> l ! i = 0"
    and "\<forall>i < length m2. m2 ! i = (0 :: int) \<longrightarrow> l2 ! i = (0 :: rat)" "i < n + length m2" "(m @ m2) ! i = 0"
  shows "(l @ l2) ! i = 0"
  using assms by (cases "i < n") (auto simp: nth_append)

lemma episode_generated:
  assumes "episode_ok b prompt gen s" "ct_step b tools s (Generated ids lps) = Inr s'"
  shows "episode_ok b prompt (gen @ ids) s'"
proof -
  from assms(1) obtain r where r: "cr_ids s = prompt @ r" "length (cr_mask s) = length r" "set (cr_mask s) \<subseteq> {0, 1}"
    and l: "\<forall>l. cr_logprobs s = Some l \<longrightarrow> length l = length r \<and> (\<forall>i < length r. cr_mask s ! i = 0 \<longrightarrow> l ! i = 0)"
    and g: "subseq (loss_tokens r (cr_mask s)) gen" "boundary_ids b = {} \<longrightarrow> loss_tokens r (cr_mask s) = gen"
    by (auto simp: episode_ok_def)
  note st = ct_step_generated [OF assms(2)]
  have m': "cr_mask s' = cr_mask s @ replicate (length ids) 1" using st by blast
  have loss: "loss_tokens (r @ ids) (cr_mask s') = loss_tokens r (cr_mask s) @ ids"
    by (simp add: m' loss_tokens_append r(2))
  have "length l' = length (r @ ids) \<and> (\<forall>i < length (r @ ids). cr_mask s' ! i = 0 \<longrightarrow> l' ! i = 0)"
    if lp: "cr_logprobs s' = Some l'" for l'
  proof -
    from st lp obtain l al where a: "cr_logprobs s = Some l" "length al = length ids" "l' = l @ al" by auto
    have b: "length l = length r" "\<forall>i < length r. cr_mask s ! i = 0 \<longrightarrow> l ! i = 0" using l a(1) by auto
    show ?thesis
      using zero_logprobs_append [OF r(2) b, of "replicate (length ids) 1" al] a(2,3) b(1) m' by simp
  qed
  moreover have "cr_ids s' = prompt @ (r @ ids)" using st r(1) by simp
  ultimately show ?thesis
    unfolding episode_ok_def
    by (intro exI [of _ "r @ ids"]) (use r m' loss g in \<open>auto intro: list_emb_append_mono\<close>)
qed

lemma episode_appended:
  assumes "episode_ok b prompt gen s" "ct_step b tools s (Appended previous updated) = Inr s'"
    and "prompt = [] \<or> last prompt \<notin> boundary_ids b"
  shows "episode_ok b prompt gen s'"
proof -
  from assms(1) obtain r where r: "cr_ids s = prompt @ r" "length (cr_mask s) = length r" "set (cr_mask s) \<subseteq> {0, 1}"
    and l: "\<forall>l. cr_logprobs s = Some l \<longrightarrow> length l = length r \<and> (\<forall>i < length r. cr_mask s ! i = 0 \<longrightarrow> l ! i = 0)"
    and g: "subseq (loss_tokens r (cr_mask s)) gen" "boundary_ids b = {} \<longrightarrow> loss_tokens r (cr_mask s) = gen"
    by (auto simp: episode_ok_def)
  from ct_step_appended [OF assms(2)] obtain n new where
    n: "n = (if cr_ids s \<noteq> [] \<and> last (cr_ids s) \<in> boundary_ids b then 1 else 0)"
    and ids': "cr_ids s' = drop_last n (cr_ids s) @ new"
    and m': "cr_mask s' = drop_last n (cr_mask s) @ replicate (length new) 0"
    and l': "cr_logprobs s' = map_option (\<lambda>l. drop_last n l @ replicate (length new) 0) (cr_logprobs s)"
    by metis
  have nr: "n \<le> length r" using assms(3) n r(1) by (cases "r = []") (auto simp: Suc_le_eq)
  let ?r = "drop_last n r @ new"
  have len: "length (drop_last n (cr_mask s)) = length (drop_last n r)" using r(2) by simp
  have loss: "loss_tokens ?r (cr_mask s') = loss_tokens (drop_last n r) (drop_last n (cr_mask s))"
    using loss_tokens_append [OF len, of new "replicate (length new) 0"] m' by simp
  have sub: "subseq (loss_tokens ?r (cr_mask s')) gen"
    unfolding loss using loss_tokens_drop_last [OF r(2), of n] g(1)
    by (meson prefix_imp_subseq subseq_order.order_trans)
  have eq: "boundary_ids b = {} \<longrightarrow> loss_tokens ?r (cr_mask s') = gen"
    unfolding loss using g(2) n by (simp add: drop_last_def)
  have "length l2 = length ?r \<and> (\<forall>i < length ?r. cr_mask s' ! i = 0 \<longrightarrow> l2 ! i = 0)"
    if lp: "cr_logprobs s' = Some l2" for l2
  proof -
    from l' lp obtain l1 where a: "cr_logprobs s = Some l1" "l2 = drop_last n l1 @ replicate (length new) 0"
      by (cases "cr_logprobs s") auto
    have b: "length l1 = length r" "\<forall>i < length r. cr_mask s ! i = 0 \<longrightarrow> l1 ! i = 0" using l a(1) by auto
    have c: "length (drop_last n l1) = length (drop_last n r)" using b(1) by simp
    have "\<forall>i < length (drop_last n r). drop_last n (cr_mask s) ! i = 0 \<longrightarrow> drop_last n l1 ! i = 0"
      using b r(2) by (auto simp: drop_last_def)
    from zero_logprobs_append [OF len c this, of "replicate (length new) 0" "replicate (length new) 0"]
    show ?thesis using a(2) b(1) m' by simp
  qed
  moreover have "cr_ids s' = prompt @ ?r" using ids' r(1) nr by (simp add: drop_last_append)
  moreover have "set (cr_mask s') \<subseteq> {0, 1}"
    using m' r(3) by (auto simp: drop_last_def dest: in_set_takeD split: if_splits)
  ultimately show ?thesis
    unfolding episode_ok_def using sub eq m' r(2)
    by (intro exI [of _ ?r]) simp
qed

lemma episode_run:
  assumes "prompt = [] \<or> last prompt \<notin> boundary_ids b"
  shows "rfold (ct_step b tools) s es = Inr s' \<Longrightarrow> episode_ok b prompt gen s \<Longrightarrow>
    episode_ok b prompt (gen @ generated_tokens es) s'"
proof (induction es arbitrary: s gen)
  case (Cons e es)
  from Cons.prems(1) obtain s1 where s1: "ct_step b tools s e = Inr s1" "rfold (ct_step b tools) s1 es = Inr s'"
    by (auto simp: rbind_Inr_iff)
  show ?case
  proof (cases e)
    case (Generated ids lps)
    then have "episode_ok b prompt (gen @ ids) s1" using s1(1) Cons.prems(2) by (auto intro: episode_generated)
    from Cons.IH [OF s1(2) this] show ?thesis by (simp add: generated_tokens_def Generated)
  next
    case (Appended p u)
    then have "episode_ok b prompt gen s1" using s1(1) Cons.prems(2) assms by (auto intro: episode_appended)
    from Cons.IH [OF s1(2) this] show ?thesis by (simp add: generated_tokens_def Appended)
  qed
qed (simp add: generated_tokens_def)


text \<open>A tokenizer with one token per message, for concrete runs.\<close>

definition toy_render :: "message list \<Rightarrow> bool \<Rightarrow> pyval \<Rightarrow> message \<Rightarrow> int list result" where
  "toy_render ms gen tools kwargs = Inr (concat (map (\<lambda>m. [7 + int (length m), 2, 1]) ms) @ (if gen then [5] else []))"

definition toy_tokenizer :: tokenizer where
  "toy_tokenizer = \<lparr>tk_render = toy_render,
     tk_encode = (\<lambda>s. if s = [CHR 0x0A] then [1] else 4 # map (\<lambda>c. int (code c)) s),
     tk_convert = (\<lambda>s. if s = ''<|im_end|>'' then PInt 2 else if s = ''<|tool_response>'' then PInt 4 else PNone)\<rparr>"

definition toy_builder :: "builder_class \<Rightarrow> builder" where
  "toy_builder c = \<lparr>ct_tokenizer = toy_tokenizer, ct_kwargs = [], ct_allowed_append_roles = supported_append_roles,
     ct_class = c, ct_frepr = (\<lambda>q. '''')\<rparr>"

definition toy_msg :: "string \<Rightarrow> message" where
  "toy_msg role = [(''role'', PStr role), (''content'', PStr ''hi'')]"


subsection \<open>Incremental tokens are those of a full rendering\<close>

text \<open>
  A chat template is compositional when it renders a conversation as the concatenation of its
  messages' renderings, followed by the generation prompt.
\<close>

definition compositional :: "builder \<Rightarrow> (message \<Rightarrow> int list) \<Rightarrow> int list \<Rightarrow> bool" where
  "compositional b f g \<longleftrightarrow> (\<forall>ms gen tools. tk_render (ct_tokenizer b) ms gen tools (ct_kwargs b) =
     Inr (concat (map f ms) @ (if gen then g else [])))"

text \<open>
  How the runtime stream may differ from the rendering of the same messages: generation stopped
  before the newline that the template writes after the stop token (Qwen, MiniMax), or generated
  the start token of the next turn (GLM).
\<close>

definition stop_form :: "builder \<Rightarrow> int list \<Rightarrow> int list \<Rightarrow> bool" where
  "stop_form b rendered runtime \<longleftrightarrow> (case ct_class b of
       Base \<Rightarrow> runtime = rendered
     | Qwen nl stop \<Rightarrow> runtime = rendered \<and> (rendered = [] \<or> last rendered \<noteq> stop) \<or>
         rendered = runtime @ [nl] \<and> runtime \<noteq> [] \<and> last runtime = stop
     | MiniMax nl stop \<Rightarrow> runtime = rendered \<and> (rendered = [] \<or> last rendered \<noteq> stop) \<or>
         rendered = runtime @ [nl] \<and> runtime \<noteq> [] \<and> last runtime = stop
     | GLM obs usr \<Rightarrow> runtime = rendered \<and> (rendered = [] \<or> last rendered \<notin> {obs, usr}) \<or>
         runtime \<in> {rendered @ [obs], rendered @ [usr]}
     | _ \<Rightarrow> False)"

lemma render_delta_compositional:
  "compositional b f g \<Longrightarrow> render_delta_token_id b prefix_ms app gen tools =
     Inr (concat (map f app) @ (if gen then g else []))"
  by (simp add: render_delta_token_id_def render_tokens_def compositional_def)

lemma iter_append_groups_concat: "concat (iter_append_groups ms) = ms"
  by (induction ms rule: iter_append_groups.induct) auto

lemma iter_append_groups_shape:
  "grp \<in> set (iter_append_groups ms) \<Longrightarrow> grp \<noteq> [] \<and> set grp \<subseteq> set ms \<and> (is_tool (hd grp) \<or> length grp = 1)"
  by (induction ms rule: iter_append_groups.induct)
    (auto split: if_splits dest: set_takeWhileD set_dropWhileD)

lemma rmap_concat:
  "(\<And>x. x \<in> set xs \<Longrightarrow> h x = Inr (concat (map f x))) \<Longrightarrow>
   rmap h xs = Inr (map (\<lambda>x. concat (map f x)) xs)"
  by (rule rmap_total)

lemma append_roles_ok:
  "list_all (\<lambda>m. pget m ''role'' \<in> PStr ` set (ct_allowed_append_roles b)) ms \<Longrightarrow> check_append_roles b ms = Inr ()"
  by (induction ms) (auto simp: role_in_def)

lemma append_only_ok:
  assumes "list_all py_wf (map PDict prev)"
    and "list_all (\<lambda>m. pget m ''role'' \<in> PStr ` set (ct_allowed_append_roles b)) app"
  shows "assert_append_only b prev (prev @ app) = Inr ()"
  using assms py_eq_refl [of "PList (map PDict prev)"]
  by (simp add: assert_append_only_def append_roles_ok)

lemma tokenize_group_compositional:
  assumes "compositional b f g" "ct_class b \<noteq> GptOss" "\<forall>i. ct_class b \<noteq> Gemma4 i"
    and "set (ct_allowed_append_roles b) \<subseteq> set supported_append_roles"
    and "grp \<noteq> []" "list_all (\<lambda>m. pget m ''role'' \<in> PStr ` set (ct_allowed_append_roles b)) grp"
    and "is_tool (hd grp) \<or> length grp = 1"
  shows "tokenize_group b prev tools grp = Inr (concat (map f grp))"
proof (cases "is_tool (hd grp)")
  case True
  then show ?thesis using assms(2,3)
    by (cases "ct_class b")
      (simp_all add: tokenize_group_def is_tool_def tokenize_tool_group_def render_delta_compositional [OF assms(1)])
next
  case False
  with assms(5,7) obtain m where m: "grp = [m]" by (cases grp) auto
  from assms(4,6) m obtain r where r: "pget m ''role'' = PStr r" "r \<in> set supported_append_roles" by auto
  with False m have "r \<in> {''user'', ''system''}" by (auto simp: is_tool_def supported_append_roles_def)
  then show ?thesis using m r(1) False
    by (simp add: tokenize_group_def is_tool_def role_in_def tokenize_single_non_tool_def
        render_delta_compositional [OF assms(1)])
qed

lemma incremental_compositional:
  assumes "compositional b f g" "ct_class b \<noteq> GptOss" "\<forall>i. ct_class b \<noteq> Gemma4 i"
    and "set (ct_allowed_append_roles b) \<subseteq> set supported_append_roles" "list_all py_wf (map PDict prev)"
    and app: "app \<noteq> []" "list_all (\<lambda>m. pget m ''role'' \<in> PStr ` set (ct_allowed_append_roles b)) app"
  shows "tokenize_non_assistant_incremental_messages b prev (prev @ app) tools = Inr (concat (map f app) @ g)"
proof -
  have grp: "tokenize_group b prev tools grp = Inr (concat (map f grp))" if "grp \<in> set (iter_append_groups app)" for grp
    using iter_append_groups_shape [OF that] app(2)
    by (intro tokenize_group_compositional [OF assms(1-4)]) (auto simp: list_all_iff)
  have "concat (map (\<lambda>x. concat (map f x)) (iter_append_groups app)) = concat (map f app)"
    by (simp add: concat_map_nested iter_append_groups_concat)
  moreover have "tokenize_generation_prompt_delta b (prev @ app) tools = Inr g"
    using assms(2,3) by (cases "ct_class b")
      (simp_all add: tokenize_generation_prompt_delta_def render_delta_compositional [OF assms(1)])
  ultimately show ?thesis
    using append_only_ok [OF assms(5) app(2)] app(1) rmap_concat [OF grp]
    by (simp add: tokenize_non_assistant_incremental_messages_def)
qed

lemma class_merge_stop_form:
  assumes "stop_form b rendered runtime"
  shows "mr_token_ids (class_merge b msgs runtime appended) = rendered @ appended"
  using assms
  by (cases "ct_class b")
    (auto simp: stop_form_def class_merge_def merge_non_assistant_token_ids_def merge_insert_def merge_trim_def Let_def)



lemma check_append_roles_ok:
  "check_append_roles b ms = Inr u \<Longrightarrow> list_all (\<lambda>m. pget m ''role'' \<in> PStr ` set (ct_allowed_append_roles b)) ms"
  by (induction ms) (auto simp: role_in_def rbind_Inr_iff split: if_splits)

text \<open>
  Only append-only updates are merged: whenever the merge succeeds, the updated conversation is
  at least as long as the previous one, begins with equal messages, and every further message has
  one of the allowed roles.
\<close>

theorem merge_requires_append_only:
  assumes "merge_non_assistant_tokens b prev upd runtime tools = Inr mr"
  shows "length prev \<le> length upd \<and>
    py_eq (PList (map PDict (take (length prev) upd))) (PList (map PDict prev)) \<and>
    list_all (\<lambda>m. pget m ''role'' \<in> PStr ` set (ct_allowed_append_roles b)) (drop (length prev) upd)"
proof -
  have "assert_append_only b prev upd = Inr ()"
    using assms
    by (auto simp: merge_non_assistant_tokens_def tokenize_non_assistant_incremental_messages_def rbind_Inr_iff)
  then show ?thesis
    by (auto simp: assert_append_only_def split: if_splits dest: check_append_roles_ok)
qed

theorem merge_requires_append_only_witness:
  "length [toy_msg ''user''] \<le> length [toy_msg ''user'', toy_msg ''user''] \<and>
   list_all (\<lambda>m. pget m ''role'' \<in> PStr ` {''tool'', ''user'', ''system''}) [toy_msg ''user'']"
proof -
  have "map_sum id (\<lambda>_. ()) (merge_non_assistant_tokens (toy_builder (GLM 2 1)) [toy_msg ''user'']
      [toy_msg ''user'', toy_msg ''user''] [9, 2] PNone) = Inr ()"
    by code_simp
  then obtain mr where "merge_non_assistant_tokens (toy_builder (GLM 2 1)) [toy_msg ''user'']
      [toy_msg ''user'', toy_msg ''user''] [9, 2] PNone = Inr mr"
    by (cases "merge_non_assistant_tokens (toy_builder (GLM 2 1)) [toy_msg ''user'']
      [toy_msg ''user'', toy_msg ''user''] [9, 2] PNone") auto
  from merge_requires_append_only [OF this] show ?thesis
    by (simp add: toy_builder_def supported_append_roles_def)
qed

subsection \<open>The duplicated boundary token of Gemma4\<close>

lemma encode_gemma4_starts:
  assumes "tokenize_tool_group b grp prev tools = Inr ids" "ct_class b = Gemma4 i" "grp \<noteq> []"
    and "\<And>txt. \<exists>rest. tk_encode (ct_tokenizer b) (''<|tool_response>'' @ txt) = i # rest"
  shows "\<exists>rest. ids = i # rest"
proof -
  from assms(3) obtain m ms where grp: "grp = m # ms" by (cases grp) auto
  from assms(1,2) obtain texts where t: "ids = tk_encode (ct_tokenizer b) (concat texts)"
    "rmap (\<lambda>(index, m). rbind (resolve_required_tool_name (ct_frepr b) m index grp prev) (gemma4_format (ct_frepr b) m))
        (enumerate 0 grp) = Inr texts"
    by (auto simp: tokenize_tool_group_def encode_responses_def map_sum_eq_Inr_iff)
  then obtain n tx rest where "gemma4_format (ct_frepr b) m n = Inr tx" "texts = tx # rest"
    by (auto simp: grp rbind_Inr_iff)
  then obtain t' where "concat texts = ''<|tool_response>'' @ t'"
    by (auto simp: gemma4_format_def map_sum_eq_Inr_iff)
  with t(1) assms(4) [of t'] show ?thesis by simp
qed

text \<open>
  With a tokenizer that encodes the special token \<open><|tool_response>\<close> as its id, every tool
  response that the Gemma4 builder appends is preceded by that id twice: once kept or inserted at
  the boundary, once encoded from the formatted text.
\<close>

theorem gemma4_duplicate_tool_response:
  assumes "merge_non_assistant_tokens b prev (prev @ m # app) runtime tools = Inr mr"
    and "ct_class b = Gemma4 i" and "pget m ''role'' = PStr ''tool''"
    and "\<And>txt. \<exists>rest. tk_encode (ct_tokenizer b) (''<|tool_response>'' @ txt) = i # rest"
  shows "\<exists>front rest. mr_token_ids mr = front @ [i, i] @ rest"
proof -
  from assms(1) obtain ids where ids:
    "tokenize_non_assistant_incremental_messages b prev (prev @ m # app) tools = Inr ids"
    and mr: "mr = merge_gemma4 i (m # app) runtime ids"
    using assms(2) by (auto simp: merge_non_assistant_tokens_def rbind_Inr_iff)
  have tool: "is_tool m" using assms(3) by (simp add: is_tool_def)
  then obtain parts gen where p: "rmap (tokenize_group b prev tools)
      ((m # takeWhile is_tool app) # iter_append_groups (dropWhile is_tool app)) = Inr parts" "ids = concat parts @ gen"
    using ids by (auto simp: tokenize_non_assistant_incremental_messages_def rbind_Inr_iff)
  then obtain t ts where t: "tokenize_tool_group b (m # takeWhile is_tool app) prev tools = Inr t" "parts = t # ts"
    using assms(3) by (auto simp: rbind_Inr_iff tokenize_group_def)
  from encode_gemma4_starts [OF t(1) assms(2) _ assms(4)] obtain r where r: "ids = i # r"
    using p(2) t(2) by auto
  show ?thesis
  proof (cases "runtime \<noteq> [] \<and> last runtime = i")
    case True
    then have "runtime = butlast runtime @ [i]" by (metis append_butlast_last_id)
    then have "mr_token_ids mr = butlast runtime @ [i, i] @ r"
      using True by (simp add: mr merge_gemma4_def merge_insert_def r)
    then show ?thesis by blast
  next
    case False
    then have "mr_token_ids mr = runtime @ [i, i] @ r"
      by (simp add: mr merge_gemma4_def merge_insert_def r)
    then show ?thesis by blast
  qed
qed

text \<open>A tokenizer that knows the special token, for a concrete run.\<close>

definition special_tokenizer :: tokenizer where
  "special_tokenizer = toy_tokenizer\<lparr>tk_encode := (\<lambda>s. if starts_with s ''<|tool_response>''
      then 4 # replicate (length s - 16) 6 else replicate (length s) 6)\<rparr>"

theorem gemma4_duplicate_tool_response_witness:
  "\<exists>mr. merge_non_assistant_tokens ((toy_builder (Gemma4 4))\<lparr>ct_tokenizer := special_tokenizer\<rparr>) [toy_msg ''user'']
      ([toy_msg ''user''] @ [(''role'', PStr ''tool''), (''content'', PStr ''hi''), (''name'', PStr ''f'')] # []) [9, 4] PNone = Inr mr \<and>
    (\<exists>front rest. mr_token_ids mr = front @ [4, 4] @ rest)"
proof -
  let ?b = "(toy_builder (Gemma4 4))\<lparr>ct_tokenizer := special_tokenizer\<rparr>"
  let ?m = "[(''role'', PStr ''tool''), (''content'', PStr ''hi''), (''name'', PStr ''f'')]"
  let ?r = "merge_non_assistant_tokens ?b [toy_msg ''user''] ([toy_msg ''user''] @ ?m # []) [9, 4] PNone"
  have "map_sum id (\<lambda>_. ()) ?r = Inr ()" by code_simp
  then obtain mr where mr: "?r = Inr mr" by (cases ?r) auto
  have c: "ct_class ?b = Gemma4 4" by (simp add: toy_builder_def)
  have e: "\<exists>rest. tk_encode (ct_tokenizer ?b) (''<|tool_response>'' @ t) = 4 # rest" for t
    by (simp add: special_tokenizer_def starts_with_def)
  have "pget ?m ''role'' = PStr ''tool''" by (simp add: pget_def dict_get_default_def)
  from gemma4_duplicate_tool_response [OF mr c this e] mr show ?thesis by blast
qed

end
