(* ===== verification/BehaviorMask.thy ===== *)
theory BehaviorMask
  imports ContinuousToken LoopDetect
begin

text \<open>
  Model of the rollout metadata and behaviour masking of
  \<open>verl/experimental/agent_loop/nanoclaw_support.py\<close>, over the state \<open>AgentData\<close> of
  \<open>verl/experimental/agent_loop/tool_agent_loop.py\<close>.  Environment variables are a function
  \<open>env\<close> from names to optional values; the dictionaries of the code are dictionaries of dynamic
  values, mutated in place, which here means written back.
\<close>

record function_call =
  fc_name :: string
  fc_arguments :: string
  fc_tool_call_id :: "string option"

record agent_data =
  ad_messages :: "message list"
  ad_image_data :: pyval
  ad_video_data :: pyval
  ad_audio_data :: pyval
  ad_mm_processor_kwargs :: message
  ad_metrics :: "(string, int) dict"
  ad_request_id :: string
  ad_tools_kwargs :: pyval
  ad_prompt_ids :: "int list"
  ad_response_ids :: "int list"
  ad_response_mask :: "int list"
  ad_response_logprobs :: "rat list"
  ad_turn_scores :: "rat list"
  ad_tool_rewards :: "pyval list"
  ad_user_turns :: nat
  ad_assistant_turns :: nat
  ad_assistant_response_tokens :: nat
  ad_termination_reason :: string
  ad_tool_calls :: "function_call list"
  ad_tool_call_count :: nat
  ad_routed_experts :: pyval
  ad_extra_fields :: message
  ad_trajectory_events :: "message list"

definition agent_data_init ::
  "message list \<Rightarrow> pyval \<Rightarrow> pyval \<Rightarrow> pyval \<Rightarrow> message \<Rightarrow> string \<Rightarrow> pyval \<Rightarrow> agent_data" where
  "agent_data_init messages images videos audios mm_kwargs request_id tools_kwargs =
     \<lparr>ad_messages = messages, ad_image_data = images, ad_video_data = videos, ad_audio_data = audios,
      ad_mm_processor_kwargs = mm_kwargs, ad_metrics = [], ad_request_id = request_id,
      ad_tools_kwargs = tools_kwargs, ad_prompt_ids = [], ad_response_ids = [], ad_response_mask = [],
      ad_response_logprobs = [], ad_turn_scores = [], ad_tool_rewards = [], ad_user_turns = 0,
      ad_assistant_turns = 0, ad_assistant_response_tokens = 0, ad_termination_reason = ''unknown'',
      ad_tool_calls = [], ad_tool_call_count = 0, ad_routed_experts = PNone, ad_extra_fields = [],
      ad_trajectory_events = []\<rparr>"

type_synonym py_env = "string \<Rightarrow> string option"

subsection \<open>Environment switches\<close>

definition bool_env :: "py_env \<Rightarrow> string \<Rightarrow> bool \<Rightarrow> bool" where
  "bool_env env name dflt = (case env name of None \<Rightarrow> dflt
     | Some v \<Rightarrow> py_lower (py_strip v) \<in> {''1'', ''true'', ''yes'', ''on''})"

definition int_env :: "py_env \<Rightarrow> string \<Rightarrow> int \<Rightarrow> int" where
  "int_env env name dflt = (case env name of None \<Rightarrow> dflt
     | Some v \<Rightarrow> (case py_int v of None \<Rightarrow> dflt | Some n \<Rightarrow> n))"

subsection \<open>Keys and spans\<close>

definition nanoclaw_canonical_json_key :: "(rat \<Rightarrow> string) \<Rightarrow> pyval \<Rightarrow> string" where
  "nanoclaw_canonical_json_key frepr v = (case json_dumps frepr (safe_json_value v) of
       Some s \<Rightarrow> s | None \<Rightarrow> py_repr frepr v)"

definition event_type :: "message \<Rightarrow> string \<Rightarrow> bool" where
  "event_type event kind \<longleftrightarrow> pget event ''type'' = PStr kind"

definition event_turn :: "message \<Rightarrow> int option" where
  "event_turn event = as_int (pget event ''assistant_turn'')"

definition span_step :: "(int, int \<times> int) dict \<Rightarrow> message \<Rightarrow> (int, int \<times> int) dict" where
  "span_step spans event =
     (if \<not> event_type event ''assistant'' then spans
      else (case (event_turn event, as_int (pget event ''response_start''), as_int (pget event ''response_end'')) of
          (Some t, Some s, Some e) \<Rightarrow> (if s < e then dict_set spans t (s, e) else spans)
        | _ \<Rightarrow> spans))"

definition nanoclaw_assistant_turn_spans :: "agent_data \<Rightarrow> (int, int \<times> int) dict" where
  "nanoclaw_assistant_turn_spans ad = foldl span_step [] (ad_trajectory_events ad)"

subsection \<open>Recording and masking a turn\<close>

definition metric_add :: "string \<Rightarrow> int \<Rightarrow> (string, int) dict \<Rightarrow> (string, int) dict" where
  "metric_add k n metrics = dict_set metrics k (dict_get_default metrics k 0 + n)"

definition count_true :: "int list \<Rightarrow> int" where
  "count_true xs = int (length (filter (\<lambda>t. t \<noteq> 0) xs))"

text \<open>The first assistant event of a turn gets a reason appended to a list field and a flag.\<close>

definition tag_event :: "string \<Rightarrow> string \<Rightarrow> string \<Rightarrow> message \<Rightarrow> message" where
  "tag_event list_key flag reason event =
     (let e1 = dict_setdefault event list_key (PList []);
          e2 = (case pget e1 list_key of
              PList rs \<Rightarrow> (if PStr reason \<in> set rs then e1 else dict_set e1 list_key (PList (rs @ [PStr reason])))
            | _ \<Rightarrow> e1)
      in dict_set e2 flag (PBool True))"

fun tag_turn :: "string \<Rightarrow> string \<Rightarrow> string \<Rightarrow> int \<Rightarrow> message list \<Rightarrow> message list" where
  "tag_turn list_key flag reason turn [] = []"
| "tag_turn list_key flag reason turn (e # es) =
     (if event_type e ''assistant'' \<and> py_eq_int (pget e ''assistant_turn'') turn
      then tag_event list_key flag reason e # es
      else e # tag_turn list_key flag reason turn es)"

definition same_span :: "int \<Rightarrow> string \<Rightarrow> int \<Rightarrow> int \<Rightarrow> pyval \<Rightarrow> bool" where
  "same_span turn reason start fin item = (case item of
       PDict d \<Rightarrow> py_eq_int (pget d ''assistant_turn'') turn \<and> pget d ''reason'' = PStr reason \<and>
         py_eq_int (pget d ''start'') start \<and> py_eq_int (pget d ''end'') fin
     | _ \<Rightarrow> False)"

text \<open>\<open>Some\<close>: a matching span exists; its flag is raised if the new one is enabled.\<close>

fun raise_span :: "(pyval \<Rightarrow> bool) \<Rightarrow> bool \<Rightarrow> pyval list \<Rightarrow> pyval list option" where
  "raise_span same enabled [] = None"
| "raise_span same enabled (item # items) =
     (if same item then
        Some ((case item of
            PDict d \<Rightarrow> (if enabled \<and> \<not> py_truthy (dict_get_default d ''mask_enabled'' (PBool True))
              then PDict (dict_set d ''mask_enabled'' (PBool True)) else item)
          | _ \<Rightarrow> item) # items)
      else map_option (\<lambda>xs. item # xs) (raise_span same enabled items))"

definition span_entry :: "int \<Rightarrow> string \<Rightarrow> int \<Rightarrow> int \<Rightarrow> int \<Rightarrow> bool \<Rightarrow> pyval" where
  "span_entry turn reason start fin token_count enabled =
     PDict [(''assistant_turn'', PInt turn), (''reason'', PStr reason), (''start'', PInt start), (''end'', PInt fin),
       (''token_count'', PInt token_count), (''mask_enabled'', PBool enabled)]"

definition set_extra :: "agent_data \<Rightarrow> string \<Rightarrow> pyval \<Rightarrow> agent_data" where
  "set_extra ad k v = ad\<lparr>ad_extra_fields := dict_set (ad_extra_fields ad) k v\<rparr>"

definition bad_spans :: "agent_data \<Rightarrow> pyval list" where
  "bad_spans ad = (case pget (ad_extra_fields ad) ''nanoclaw_bad_turn_spans'' of PList xs \<Rightarrow> xs | _ \<Rightarrow> [])"

definition nanoclaw_record_bad_turn_span ::
  "agent_data \<Rightarrow> int \<Rightarrow> string \<Rightarrow> int \<Rightarrow> int \<Rightarrow> bool \<Rightarrow> agent_data" where
  "nanoclaw_record_bad_turn_span ad turn reason start end0 mask_enabled =
     (let fin = min end0 (int (length (ad_response_mask ad))) in
      if fin \<le> start then ad
      else
        (case raise_span (same_span turn reason start fin) mask_enabled (bad_spans ad) of
           Some items \<Rightarrow> set_extra ad ''nanoclaw_bad_turn_spans'' (PList items)
         | None \<Rightarrow>
             (let token_count = count_true (py_slice (ad_response_mask ad) start fin);
                  ad1 = set_extra ad ''nanoclaw_bad_turn_spans''
                    (PList (bad_spans ad @ [span_entry turn reason start fin token_count mask_enabled]))
              in ad1\<lparr>ad_metrics :=
                     metric_add ''nanoclaw_bad_turn_candidate_tokens'' token_count
                      (metric_add ''nanoclaw_bad_turn_candidate_turns'' 1
                       (metric_add (''nanoclaw_'' @ reason @ ''_candidate_tokens'') token_count
                        (metric_add (''nanoclaw_'' @ reason @ ''_candidate_turns'') 1 (ad_metrics ad)))),
                   ad_trajectory_events :=
                     tag_turn ''bad_turn_candidate_reasons'' ''bad_turn_candidate'' reason turn (ad_trajectory_events ad)\<rparr>)))"

definition nanoclaw_mask_assistant_turn ::
  "py_env \<Rightarrow> agent_data \<times> int list \<Rightarrow> int \<Rightarrow> string \<Rightarrow> (int, int \<times> int) dict \<Rightarrow> bool \<Rightarrow> agent_data \<times> int list" where
  "nanoclaw_mask_assistant_turn env s turn reason spans mask_enabled =
     (let (ad, masked_turns) = s in
      case dict_get spans turn of
        None \<Rightarrow> (ad, masked_turns)
      | Some (start, end0) \<Rightarrow>
          (let fin = min end0 (int (length (ad_response_mask ad))) in
           if fin \<le> start then (ad, masked_turns)
           else
             (let ad1 = nanoclaw_record_bad_turn_span ad turn reason start fin mask_enabled in
              if \<not> mask_enabled \<or> turn \<in> set masked_turns then (ad1, masked_turns)
              else if bool_env env ''NANOCLAW_MASK_ONLY_POSITIVE_ADVANTAGE'' False then (ad1, turn # masked_turns)
              else
                (let token_count = count_true (py_slice (ad_response_mask ad1) start fin) in
                 (ad1\<lparr>ad_response_mask := slice_assign (ad_response_mask ad1) start fin (replicate (nat (fin - start)) 0),
                      ad_metrics :=
                        metric_add ''nanoclaw_posthoc_masked_tokens'' token_count
                         (metric_add ''nanoclaw_posthoc_masked_turns'' 1
                          (metric_add (''nanoclaw_'' @ reason @ ''_masked_tokens'') token_count
                           (metric_add (''nanoclaw_'' @ reason @ ''_masked_turns'') 1 (ad_metrics ad1)))),
                      ad_trajectory_events :=
                        tag_turn ''posthoc_mask_reasons'' ''posthoc_masked'' reason turn (ad_trajectory_events ad1)\<rparr>,
                  turn # masked_turns)))))"

subsection \<open>Failed tool results\<close>

definition regex_error_prefix :: "string \<Rightarrow> bool" where
  "regex_error_prefix s = (let t = py_lstrip s; rest = drop 5 t in
     py_lower (take 5 t) = ''error'' \<and>
     (rest = [] \<or> \<not> is_word (hd rest) \<or> starts_with (py_lstrip rest) '':''))"

definition content_texts :: "pyval \<Rightarrow> string list" where
  "content_texts content = (case content of
       PStr s \<Rightarrow> [s]
     | PList items \<Rightarrow> List.map_filter (\<lambda>item. case item of
           PStr s \<Rightarrow> Some s
         | PDict d \<Rightarrow> as_str (dict_get_default d ''text'' (pget d ''content''))
         | _ \<Rightarrow> None) items
     | _ \<Rightarrow> [])"

definition nanoclaw_tool_result_is_error :: "message \<Rightarrow> bool" where
  "nanoclaw_tool_result_is_error event =
     (let response = pget event ''response'';
          content = (case response of PDict d \<Rightarrow> pget d ''content'' | v \<Rightarrow> v) in
      if list_ex regex_error_prefix (content_texts content) then True
      else (case pget event ''result'' of
          PDict result \<Rightarrow>
            (let error_value = pget result ''error'' in
             if error_value \<noteq> PNone \<and> error_value \<noteq> PBool False \<and> error_value \<noteq> PStr '''' then True
             else (case pget result ''status'' of
                 PStr status \<Rightarrow> py_lower (py_strip status) \<in> {''error'', ''failed'', ''failure''}
               | _ \<Rightarrow> False))
        | _ \<Rightarrow> False))"

subsection \<open>Masks applied after the rollout\<close>

type_synonym mask_state = "agent_data \<times> int list"

definition mark_event :: "nat \<Rightarrow> string \<Rightarrow> agent_data \<Rightarrow> agent_data" where
  "mark_event i flag ad = ad\<lparr>ad_trajectory_events :=
     (ad_trajectory_events ad)[i := dict_set (ad_trajectory_events ad ! i) flag (PBool True)]\<rparr>"

definition budget_phase :: "py_env \<Rightarrow> (int, int \<times> int) dict \<Rightarrow> mask_state \<Rightarrow> mask_state" where
  "budget_phase env spans s =
     (let ad = fst s; enabled = bool_env env ''NANOCLAW_MASK_BUDGET_EXHAUSTED_LAST_TURN'' False in
      if ad_termination_reason ad \<in> {''max_assistant_response_tokens'', ''max_response_tokens''} then
        (case filter (\<lambda>e. event_type e ''assistant'') (rev (ad_trajectory_events ad)) of
           [] \<Rightarrow> s
         | event # _ \<Rightarrow> (case event_turn event of
               None \<Rightarrow> s
             | Some turn \<Rightarrow> nanoclaw_mask_assistant_turn env s turn ''budget_exhausted_last_turn'' spans enabled))
      else s)"

definition tool_result_key :: "(rat \<Rightarrow> string) \<Rightarrow> message \<Rightarrow> string" where
  "tool_result_key frepr event = nanoclaw_canonical_json_key frepr (PDict
     [(''tool'', pget event ''tool''), (''arguments'', pget event ''arguments''),
      (''response'', pget event ''response''), (''result'', pget event ''result'')])"

definition flag_and_mask ::
  "py_env \<Rightarrow> (int, int \<times> int) dict \<Rightarrow> string \<Rightarrow> string \<Rightarrow> bool \<Rightarrow> nat \<Rightarrow> mask_state \<Rightarrow> mask_state" where
  "flag_and_mask env spans flag reason enabled i s =
     (case event_turn (ad_trajectory_events (fst s) ! i) of
        None \<Rightarrow> s
      | Some turn \<Rightarrow>
          nanoclaw_mask_assistant_turn env (mark_event i flag (fst s), snd s) turn reason spans enabled)"

definition duplicate_step ::
  "py_env \<Rightarrow> (rat \<Rightarrow> string) \<Rightarrow> (int, int \<times> int) dict \<Rightarrow> bool \<Rightarrow> mask_state \<times> string list \<Rightarrow> nat \<Rightarrow>
   mask_state \<times> string list" where
  "duplicate_step env frepr spans enabled acc i =
     (let (s, seen) = acc; event = ad_trajectory_events (fst s) ! i in
      if \<not> event_type event ''tool'' then (s, seen)
      else
        (let key = tool_result_key frepr event in
         if key \<notin> set seen then (s, key # seen)
         else (flag_and_mask env spans ''duplicate_tool_result'' ''duplicate_tool_result_turn'' enabled i s, seen)))"

definition duplicate_phase ::
  "py_env \<Rightarrow> (rat \<Rightarrow> string) \<Rightarrow> (int, int \<times> int) dict \<Rightarrow> mask_state \<Rightarrow> mask_state" where
  "duplicate_phase env frepr spans s =
     fst (foldl (duplicate_step env frepr spans (bool_env env ''NANOCLAW_MASK_DUPLICATE_TOOL_RESULT_TURNS'' False))
       (s, []) [0..<length (ad_trajectory_events (fst s))])"

definition error_step ::
  "py_env \<Rightarrow> (int, int \<times> int) dict \<Rightarrow> bool \<Rightarrow> mask_state \<Rightarrow> nat \<Rightarrow> mask_state" where
  "error_step env spans enabled s i =
     (let event = ad_trajectory_events (fst s) ! i in
      if \<not> event_type event ''tool'' \<or> \<not> nanoclaw_tool_result_is_error event then s
      else flag_and_mask env spans ''error_tool_result'' ''error_tool_result_turn'' enabled i s)"

definition error_phase :: "py_env \<Rightarrow> (int, int \<times> int) dict \<Rightarrow> mask_state \<Rightarrow> mask_state" where
  "error_phase env spans s =
     foldl (error_step env spans (bool_env env ''NANOCLAW_MASK_ERROR_TOOL_RESULT_TURNS'' True)) s
       [0..<length (ad_trajectory_events (fst s))]"

definition nanoclaw_apply_posthoc_turn_masks :: "py_env \<Rightarrow> (rat \<Rightarrow> string) \<Rightarrow> agent_data \<Rightarrow> agent_data" where
  "nanoclaw_apply_posthoc_turn_masks env frepr ad =
     (let spans = nanoclaw_assistant_turn_spans ad in
      if spans = [] then ad
      else fst (error_phase env spans (duplicate_phase env frepr spans (budget_phase env spans (ad, [])))))"

subsection \<open>Metadata and persistence\<close>

definition update_task_config :: "message \<Rightarrow> message \<Rightarrow> message" where
  "update_task_config trajectory_metadata container = (case dict_get container ''nanoclaw'' of
       Some (PDict task_config) \<Rightarrow>
         dict_set container ''nanoclaw'' (PDict (dict_update task_config trajectory_metadata))
     | _ \<Rightarrow> container)"

text \<open>
  \<open>tool_kwargs\<close> and its \<open>create_kwargs\<close> are updated in this order; they are distinct objects.
\<close>

definition inject_tool_kwargs :: "message \<Rightarrow> pyval \<Rightarrow> pyval" where
  "inject_tool_kwargs trajectory_metadata v = (case v of
       PDict tool_kwargs \<Rightarrow>
         (let k1 = update_task_config trajectory_metadata tool_kwargs in
          PDict (case dict_get tool_kwargs ''create_kwargs'' of
              Some (PDict ck) \<Rightarrow> dict_set k1 ''create_kwargs'' (PDict (update_task_config trajectory_metadata ck))
            | _ \<Rightarrow> k1))
     | _ \<Rightarrow> v)"

definition inject_nanoclaw_trajectory :: "pyval \<Rightarrow> message \<Rightarrow> pyval" where
  "inject_nanoclaw_trajectory tools_kwargs trajectory = (case tools_kwargs of
       PDict kws \<Rightarrow>
         (let md = [(''rollout_step'', pget trajectory ''step''), (''rollout_sample_index'', pget trajectory ''sample_index''),
             (''rollout_n'', pget trajectory ''rollout_n''), (''validate'', pget trajectory ''validate'')]
          in PDict (map (\<lambda>(k, v). (k, inject_tool_kwargs md v)) kws))
     | _ \<Rightarrow> tools_kwargs)"

fun truncate_text :: "nat \<Rightarrow> pyval \<Rightarrow> pyval" where
  "truncate_text limit (PStr s) = PStr (if length s \<le> limit then s
     else take limit s @ ''...(truncated '' @ int_str (int (length s - limit)) @ '' chars)'')"
| "truncate_text limit (PDict d) = PDict (map (\<lambda>p. (fst p, truncate_text limit (snd p))) d)"
| "truncate_text limit (PList xs) = PList (map (truncate_text limit) xs)"
| "truncate_text limit v = v"

definition get_or_state :: "message \<Rightarrow> string \<Rightarrow> message \<Rightarrow> string \<Rightarrow> pyval" where
  "get_or_state extra k state k' = (if pget extra k \<noteq> PNone then pget extra k else pget state k')"

definition nanoclaw_rollout_info :: "agent_data \<Rightarrow> message \<Rightarrow> message" where
  "nanoclaw_rollout_info ad state = (let ex = ad_extra_fields ad in
     [(''label'', pget ex ''rollout_label''),
      (''task_id'', py_or (pget ex ''rollout_task_id'') (pget state ''task_id'')),
      (''step'', py_or (pget ex ''rollout_step'') (pget state ''rollout_step'')),
      (''sample_index'', get_or_state ex ''rollout_sample_index'' state ''rollout_sample_index''),
      (''rollout_n'', get_or_state ex ''rollout_n'' state ''rollout_n'')])"

definition conversation_event :: "(rat \<Rightarrow> string) \<Rightarrow> message \<Rightarrow> message option" where
  "conversation_event frepr event =
     (if event_type event ''assistant'' then
        Some [(''role'', PStr ''assistant''), (''content'', py_or (pget event ''content'') (PStr ''''))]
      else if event_type event ''tool'' then
        (let response = pget event ''response'';
             m = (case response of PDict d \<Rightarrow> dict_setdefault d ''role'' (PStr ''tool'')
               | v \<Rightarrow> [(''role'', PStr ''tool''), (''content'', py_or v (PStr ''''))])
         in Some (if pget event ''tool'' \<noteq> PNone \<and> \<not> dict_has m ''name''
           then dict_set m ''name'' (PStr (py_str frepr (pget event ''tool''))) else m))
      else None)"

definition build_nanoclaw_conversation_messages :: "(rat \<Rightarrow> string) \<Rightarrow> agent_data \<Rightarrow> message list" where
  "build_nanoclaw_conversation_messages frepr ad =
     (let ms = takeWhile (\<lambda>m. pget m ''role'' \<notin> {PStr ''assistant'', PStr ''tool''}) (ad_messages ad) @
          List.map_filter (conversation_event frepr) (ad_trajectory_events ad)
      in if ms \<noteq> [] then ms else ad_messages ad)"

definition nanoclaw_final_answer :: "agent_data \<Rightarrow> string option" where
  "nanoclaw_final_answer ad =
     (if ad_termination_reason ad \<noteq> ''completed_no_tool_call'' then None
      else (case filter (\<lambda>e. event_type e ''assistant'') (rev (ad_trajectory_events ad)) of
          [] \<Rightarrow> None
        | event # _ \<Rightarrow> as_str (pget event ''content'')))"

definition nanoclaw_history_status :: "string \<Rightarrow> string" where
  "nanoclaw_history_status reason =
     (if reason = ''completed_no_tool_call'' then ''completed''
      else if reason \<in> {''max_response_tokens'', ''max_response_tokens_after_tool'', ''max_assistant_response_tokens'',
          ''max_assistant_turns'', ''max_user_turns''} then ''failed''
      else if reason \<noteq> '''' then reason else ''unknown'')"

definition opt_str :: "string option \<Rightarrow> pyval" where
  "opt_str v = (case v of None \<Rightarrow> PNone | Some s \<Rightarrow> PStr s)"

definition pnat :: "nat \<Rightarrow> pyval" where
  "pnat n = PInt (int n)"

definition history_payload ::
  "(rat \<Rightarrow> string) \<Rightarrow> agent_data \<Rightarrow> message \<Rightarrow> message \<Rightarrow> rat \<Rightarrow> string \<Rightarrow> message" where
  "history_payload frepr ad state rollout elapsed now =
     [(''task_id'', pget rollout ''task_id''), (''rollout_label'', pget rollout ''label''),
      (''rollout_step'', pget rollout ''step''), (''rollout_sample_index'', pget rollout ''sample_index''),
      (''rollout_n'', pget rollout ''rollout_n''),
      (''status'', PStr (nanoclaw_history_status (ad_termination_reason ad))),
      (''termination_reason'', PStr (ad_termination_reason ad)),
      (''final_answer'', opt_str (nanoclaw_final_answer ad)), (''error'', PNone),
      (''started_at'', pget state ''created_at''), (''updated_at'', PStr now),
      (''steps_used'', pnat (ad_assistant_turns ad)), (''assistant_turns'', pnat (ad_assistant_turns ad)),
      (''user_turns'', pnat (ad_user_turns ad)), (''tool_call_count'', pnat (ad_tool_call_count ad)),
      (''response_tokens'', pnat (length (ad_response_mask ad))), (''elapsed_seconds'', PFloat elapsed),
      (''messages'', safe_json_value (PList (map PDict (build_nanoclaw_conversation_messages frepr ad)))),
      (''events'', safe_json_value (PList (map PDict (ad_trajectory_events ad))))]"

definition trajectory_payload :: "agent_data \<Rightarrow> message \<Rightarrow> pyval \<Rightarrow> rat \<Rightarrow> message" where
  "trajectory_payload ad rollout workspace elapsed =
     [(''request_id'', PStr (ad_request_id ad)),
      (''summary'', PDict [(''termination_reason'', PStr (ad_termination_reason ad)),
         (''assistant_turns'', pnat (ad_assistant_turns ad)), (''user_turns'', pnat (ad_user_turns ad)),
         (''tool_call_count'', pnat (ad_tool_call_count ad)),
         (''response_tokens'', pnat (length (ad_response_mask ad))), (''elapsed_seconds'', PFloat elapsed)]),
      (''rollout'', PDict rollout), (''workspace'', workspace),
      (''messages'', truncate_text 20000 (safe_json_value (PList (map PDict (ad_messages ad))))),
      (''events'', truncate_text 20000 (safe_json_value (PList (map PDict (ad_trajectory_events ad))))),
      (''metrics'', safe_json_value (PDict (map (\<lambda>(k, n). (k, PInt n)) (ad_metrics ad)))),
      (''tool_rewards'', safe_json_value (PList (ad_tool_rewards ad)))]"

text \<open>The documents written, in order, with their paths; \<open>now\<close> is \<open>utc_now()\<close>.\<close>

definition write_nanoclaw_trajectory ::
  "(rat \<Rightarrow> string) \<Rightarrow> string \<Rightarrow> agent_data \<Rightarrow> rat \<Rightarrow> (string \<times> pyval) list" where
  "write_nanoclaw_trajectory frepr now ad elapsed = (case pget (ad_extra_fields ad) ''nanoclaw'' of
       PDict state \<Rightarrow>
         (if \<not> py_truthy (pget state ''result_dir'') then []
          else
            (let dir = py_str frepr (pget state ''result_dir'');
                 rollout = nanoclaw_rollout_info ad state;
                 history_path = path_child dir ''conversation_history.json'';
                 workspace = (case safe_json_value (PDict state) of
                     PDict w \<Rightarrow> PDict (dict_set w ''conversation_history'' (PStr history_path)) | w \<Rightarrow> w)
             in [(path_child dir ''trajectory.json'', PDict (trajectory_payload ad rollout workspace elapsed)),
                 (history_path, PDict (history_payload frepr ad state rollout elapsed now))]))
     | _ \<Rightarrow> [])"

subsection \<open>The mask after the rollout\<close>

text \<open>The mask with the spans of a set of turns zeroed.\<close>

definition in_turn_span :: "(int, int \<times> int) dict \<Rightarrow> int set \<Rightarrow> nat \<Rightarrow> bool" where
  "in_turn_span spans turns i \<longleftrightarrow>
     (\<exists>t s e. t \<in> turns \<and> dict_get spans t = Some (s, e) \<and> s \<le> int i \<and> int i < e)"

definition zero_turns :: "(int, int \<times> int) dict \<Rightarrow> int set \<Rightarrow> int list \<Rightarrow> int list" where
  "zero_turns spans turns msk = map (\<lambda>i. if in_turn_span spans turns i then 0 else msk ! i) [0..<length msk]"

lemma zero_turns_length [simp]: "length (zero_turns spans M msk) = length msk"
  by (simp add: zero_turns_def)

lemma zero_turns_nth [simp]:
  "i < length msk \<Longrightarrow> zero_turns spans M msk ! i = (if in_turn_span spans M i then 0 else msk ! i)"
  by (simp add: zero_turns_def)

lemma zero_turns_empty [simp]: "zero_turns spans {} msk = msk"
  by (rule nth_equalityI) (simp_all add: in_turn_span_def)

lemma in_turn_span_insert:
  "in_turn_span spans (insert t M) i \<longleftrightarrow> in_turn_span spans M i \<or> in_turn_span spans {t} i"
  by (auto simp: in_turn_span_def)

lemma slice_assign_zero:
  assumes "0 \<le> s" "s < e" "e \<le> int (length xs)"
  shows "slice_assign xs s e (replicate (nat (e - s)) 0) =
    map (\<lambda>i. if s \<le> int i \<and> int i < e then 0 else xs ! i) [0..<length xs]"
proof -
  have lo: "slice_index (length xs) s = nat s" and hi: "slice_index (length xs) e = nat e"
    using assms by (auto simp: slice_index_def)
  have "nat s \<le> nat e" "nat e \<le> length xs" "nat (e - s) = nat e - nat s" using assms by auto
  then show ?thesis
    unfolding slice_assign_def lo hi Let_def
    by (intro nth_equalityI) (use assms in \<open>auto simp: nth_append min_def nat_le_iff zless_nat_conj less_diff_conv2 nat_less_iff\<close>)
qed

text \<open>Every recorded span starts at a non-negative position.\<close>

definition spans_ok :: "(int, int \<times> int) dict \<Rightarrow> bool" where
  "spans_ok spans \<longleftrightarrow> (\<forall>t s e. dict_get spans t = Some (s, e) \<longrightarrow> 0 \<le> s \<and> s < e)"

text \<open>What the masking code may change of an agent's data, and what of an event.\<close>

definition event_keys :: "string set" where
  "event_keys = {''type'', ''assistant_turn'', ''tool'', ''arguments'', ''response'', ''result'',
     ''response_start'', ''response_end''}"

definition same_event :: "message \<Rightarrow> message \<Rightarrow> bool" where
  "same_event e e' \<longleftrightarrow> (\<forall>k \<in> event_keys. pget e' k = pget e k)"

definition same_events :: "message list \<Rightarrow> message list \<Rightarrow> bool" where
  "same_events es es' \<longleftrightarrow> list_all2 same_event es es'"

definition same_rest :: "agent_data \<Rightarrow> agent_data \<Rightarrow> bool" where
  "same_rest ad ad' \<longleftrightarrow> same_events (ad_trajectory_events ad) (ad_trajectory_events ad') \<and>
     (\<exists>m mt ex ev. ad' = ad\<lparr>ad_response_mask := m, ad_metrics := mt, ad_extra_fields := ex, ad_trajectory_events := ev\<rparr>)"

lemma same_event_refl [simp]: "same_event e e"
  by (simp add: same_event_def)

lemma same_events_refl [simp]: "same_events es es"
  by (simp add: same_events_def list_all2_refl)

lemma same_events_trans: "same_events a b \<Longrightarrow> same_events b c \<Longrightarrow> same_events a c"
  unfolding same_events_def by (rule list_all2_trans [of same_event same_event]) (auto simp: same_event_def)

lemma same_rest_refl [simp]: "same_rest ad ad"
proof -
  have "ad = ad\<lparr>ad_response_mask := ad_response_mask ad, ad_metrics := ad_metrics ad,
      ad_extra_fields := ad_extra_fields ad, ad_trajectory_events := ad_trajectory_events ad\<rparr>" by simp
  then show ?thesis unfolding same_rest_def by (intro conjI same_events_refl exI)
qed

lemma same_rest_upd:
  assumes "same_rest ad ad'" "same_events (ad_trajectory_events ad') ev"
  shows "same_rest ad (ad'\<lparr>ad_response_mask := m, ad_metrics := mt, ad_extra_fields := ex, ad_trajectory_events := ev\<rparr>)"
proof -
  from assms(1) obtain m' mt' ex' ev' where
    "ad' = ad\<lparr>ad_response_mask := m', ad_metrics := mt', ad_extra_fields := ex', ad_trajectory_events := ev'\<rparr>"
    by (auto simp: same_rest_def)
  then have "ad'\<lparr>ad_response_mask := m, ad_metrics := mt, ad_extra_fields := ex, ad_trajectory_events := ev\<rparr> =
      ad\<lparr>ad_response_mask := m, ad_metrics := mt, ad_extra_fields := ex, ad_trajectory_events := ev\<rparr>"
    by simp
  then show ?thesis
    using same_events_trans [of _ "ad_trajectory_events ad'" ev] assms unfolding same_rest_def
    by (intro conjI) (auto simp del: agent_data.update_convs)
qed

lemma pget_setdefault:
  "pget (dict_setdefault d k v) k' = (if k' = k \<and> \<not> dict_has d k then v else pget d k')"
  by (simp add: dict_setdefault_def pget_set)

lemma same_event_set: "k \<notin> event_keys \<Longrightarrow> same_event e (dict_set e k v)"
  by (auto simp: same_event_def pget_set)

lemma tag_event_same:
  "lk \<notin> event_keys \<Longrightarrow> fk \<notin> event_keys \<Longrightarrow> same_event e (tag_event lk fk reason e)"
  by (auto simp: same_event_def tag_event_def Let_def pget_set pget_setdefault split: pyval.splits)

lemma tag_turn_same:
  "lk \<notin> event_keys \<Longrightarrow> fk \<notin> event_keys \<Longrightarrow> same_events es (tag_turn lk fk reason turn es)"
  by (induction es) (auto simp: same_events_def tag_event_same list_all2_refl)

lemma mark_event_same:
  "fk \<notin> event_keys \<Longrightarrow> same_events (ad_trajectory_events ad) (ad_trajectory_events (mark_event i fk ad))"
  unfolding same_events_def mark_event_def
  by (cases "i < length (ad_trajectory_events ad)")
    (auto simp: list_all2_conv_all_nth nth_list_update same_event_set)

lemma flag_keys [simp]:
  "''bad_turn_candidate_reasons'' \<notin> event_keys" "''bad_turn_candidate'' \<notin> event_keys"
  "''posthoc_mask_reasons'' \<notin> event_keys" "''posthoc_masked'' \<notin> event_keys"
  "''duplicate_tool_result'' \<notin> event_keys" "''error_tool_result'' \<notin> event_keys"
  by (simp_all add: event_keys_def)

lemma record_form:
  "nanoclaw_record_bad_turn_span ad turn reason s e en =
    ad\<lparr>ad_response_mask := ad_response_mask ad,
      ad_metrics := ad_metrics (nanoclaw_record_bad_turn_span ad turn reason s e en),
      ad_extra_fields := ad_extra_fields (nanoclaw_record_bad_turn_span ad turn reason s e en),
      ad_trajectory_events := ad_trajectory_events (nanoclaw_record_bad_turn_span ad turn reason s e en)\<rparr>"
  by (cases "raise_span (same_span turn reason s (min e (int (length (ad_response_mask ad))))) en (bad_spans ad)")
    (auto simp: nanoclaw_record_bad_turn_span_def Let_def set_extra_def)

lemma record_events:
  "same_events (ad_trajectory_events ad)
     (ad_trajectory_events (nanoclaw_record_bad_turn_span ad turn reason s e en))"
  by (cases "raise_span (same_span turn reason s (min e (int (length (ad_response_mask ad))))) en (bad_spans ad)")
    (auto simp: nanoclaw_record_bad_turn_span_def Let_def set_extra_def intro: tag_turn_same)

lemma record_mask [simp]: "ad_response_mask (nanoclaw_record_bad_turn_span ad turn reason s e en) = ad_response_mask ad"
  by (subst record_form) simp

lemma record_rest: "same_rest ad ad' \<Longrightarrow> same_rest ad (nanoclaw_record_bad_turn_span ad' turn reason s e en)"
  by (subst record_form) (rule same_rest_upd [OF _ record_events])

lemma record_fields:
  "ad_prompt_ids (nanoclaw_record_bad_turn_span ad t r s e en) = ad_prompt_ids ad"
  "ad_response_logprobs (nanoclaw_record_bad_turn_span ad t r s e en) = ad_response_logprobs ad"
  "ad_assistant_turns (nanoclaw_record_bad_turn_span ad t r s e en) = ad_assistant_turns ad"
  "ad_assistant_response_tokens (nanoclaw_record_bad_turn_span ad t r s e en) = ad_assistant_response_tokens ad"
  "ad_user_turns (nanoclaw_record_bad_turn_span ad t r s e en) = ad_user_turns ad"
  by (subst record_form, simp)+

text \<open>The invariant of the masking phases: \<open>M\<close> is the set of turns masked so far.\<close>

definition mask_inv :: "(int, int \<times> int) dict \<Rightarrow> agent_data \<Rightarrow> int set \<Rightarrow> mask_state \<Rightarrow> bool" where
  "mask_inv spans ad M s \<longleftrightarrow> same_rest ad (fst s) \<and> set (snd s) \<subseteq> M \<and>
     ad_response_mask (fst s) = zero_turns spans M (ad_response_mask ad)"

lemma zero_turns_more:
  assumes "dict_get spans t = Some (s, e)" "fin = min e (int (length msk))" "0 \<le> s" "s < fin"
  shows "slice_assign (zero_turns spans M msk) s fin (replicate (nat (fin - s)) 0) = zero_turns spans (insert t M) msk"
proof -
  have "slice_assign (zero_turns spans M msk) s fin (replicate (nat (fin - s)) 0) =
      map (\<lambda>i. if s \<le> int i \<and> int i < fin then 0 else zero_turns spans M msk ! i) [0..<length msk]"
    using slice_assign_zero [of s fin "zero_turns spans M msk"] assms by simp
  also have "\<dots> = zero_turns spans (insert t M) msk"
    using assms by (intro nth_equalityI) (auto simp: in_turn_span_insert [of spans t M] in_turn_span_def [of spans "{t}"])
  finally show ?thesis .
qed

lemma zero_turns_idle:
  assumes "dict_get spans t = None \<or> (\<exists>s e. dict_get spans t = Some (s, e) \<and> min e (int (length msk)) \<le> s) \<or> t \<in> M"
  shows "zero_turns spans (insert t M) msk = zero_turns spans M msk"
proof (rule nth_equalityI)
  fix i assume "i < length (zero_turns spans (insert t M) msk)"
  then show "zero_turns spans (insert t M) msk ! i = zero_turns spans M msk ! i"
    using assms by (auto simp: in_turn_span_insert [of spans t M] in_turn_span_def [of spans "{t}"]) (auto simp: in_turn_span_def)
qed simp

lemma mask_turn_inv:
  assumes "mask_inv spans ad M s" "spans_ok spans" "\<not> bool_env env ''NANOCLAW_MASK_ONLY_POSITIVE_ADVANTAGE'' False"
  shows "mask_inv spans ad (if enabled then insert t M else M)
    (nanoclaw_mask_assistant_turn env s t reason spans enabled)"
proof -
  obtain a m where s: "s = (a, m)" by (cases s)
  have inv: "same_rest ad a" "set m \<subseteq> M" "ad_response_mask a = zero_turns spans M (ad_response_mask ad)"
    using assms(1) by (auto simp: mask_inv_def s)
  have len: "length (ad_response_mask a) = length (ad_response_mask ad)" by (simp add: inv(3))
  show ?thesis
  proof (cases "dict_get spans t")
    case None
    then show ?thesis using inv
      by (auto simp: nanoclaw_mask_assistant_turn_def s mask_inv_def zero_turns_idle)
  next
    case (Some se)
    obtain st en where se: "se = (st, en)" by (cases se)
    let ?fin = "min en (int (length (ad_response_mask ad)))"
    let ?a1 = "nanoclaw_record_bad_turn_span a t reason st ?fin enabled"
    have idle: "?fin \<le> st \<Longrightarrow> zero_turns spans (insert t M) (ad_response_mask ad) = zero_turns spans M (ad_response_mask ad)"
      using Some se by (intro zero_turns_idle) auto
    have r1: "same_rest ad ?a1" by (rule record_rest [OF inv(1)])
    show ?thesis
    proof (cases "?fin \<le> st \<or> \<not> enabled \<or> t \<in> set m")
      case True
      have t: "t \<in> set m \<Longrightarrow> insert t M = M" using inv(2) by auto
      show ?thesis using True Some se inv idle len r1 t
        by (auto simp: nanoclaw_mask_assistant_turn_def s mask_inv_def Let_def)
    next
      case False
      then have f: "\<not> ?fin \<le> st" "enabled" "t \<notin> set m" by auto
      have "0 \<le> st" using assms(2) Some se by (auto simp: spans_ok_def)
      with f(1) Some se have z: "slice_assign (zero_turns spans M (ad_response_mask ad)) st ?fin (replicate (nat (?fin - st)) 0) =
          zero_turns spans (insert t M) (ad_response_mask ad)"
        by (intro zero_turns_more [of _ _ _ en]) auto
      obtain mt ev where e: "nanoclaw_mask_assistant_turn env s t reason spans enabled =
          (?a1\<lparr>ad_response_mask := slice_assign (ad_response_mask a) st ?fin (replicate (nat (?fin - st)) 0),
             ad_metrics := mt, ad_trajectory_events := ev\<rparr>, t # m)"
        "same_events (ad_trajectory_events ?a1) ev"
        using f Some se assms(3) len tag_turn_same [of "''posthoc_mask_reasons''" "''posthoc_masked''" "ad_trajectory_events ?a1" reason t]
        by (simp add: nanoclaw_mask_assistant_turn_def s Let_def)
      have "same_rest ad (?a1\<lparr>ad_response_mask := slice_assign (ad_response_mask a) st ?fin (replicate (nat (?fin - st)) 0),
             ad_metrics := mt, ad_trajectory_events := ev\<rparr>)"
        using same_rest_upd [OF r1 e(2), where mt = mt and ex = "ad_extra_fields ?a1"] by simp
      then show ?thesis using e(1) inv(2,3) z f(2) by (auto simp: mask_inv_def)
    qed
  qed
qed

text \<open>The turns that each rule selects, from the events as the rollout left them.\<close>

definition budget_turns :: "py_env \<Rightarrow> agent_data \<Rightarrow> int set" where
  "budget_turns env ad =
     (if bool_env env ''NANOCLAW_MASK_BUDGET_EXHAUSTED_LAST_TURN'' False \<and>
        ad_termination_reason ad \<in> {''max_assistant_response_tokens'', ''max_response_tokens''}
      then {t. \<exists>e es. filter (\<lambda>e. event_type e ''assistant'') (rev (ad_trajectory_events ad)) = e # es \<and> event_turn e = Some t}
      else {})"

definition repeated_result :: "(rat \<Rightarrow> string) \<Rightarrow> message list \<Rightarrow> nat \<Rightarrow> bool" where
  "repeated_result frepr es i \<longleftrightarrow> event_type (es ! i) ''tool'' \<and>
     (\<exists>j < i. event_type (es ! j) ''tool'' \<and> tool_result_key frepr (es ! j) = tool_result_key frepr (es ! i))"

definition failed_result :: "message list \<Rightarrow> nat \<Rightarrow> bool" where
  "failed_result es i \<longleftrightarrow> event_type (es ! i) ''tool'' \<and> nanoclaw_tool_result_is_error (es ! i)"

definition turns_where :: "bool \<Rightarrow> (message list \<Rightarrow> nat \<Rightarrow> bool) \<Rightarrow> message list \<Rightarrow> nat \<Rightarrow> int set" where
  "turns_where enabled sel es n = (if enabled then {t. \<exists>i < n. sel es i \<and> event_turn (es ! i) = Some t} else {})"

definition selected_turns :: "py_env \<Rightarrow> (rat \<Rightarrow> string) \<Rightarrow> agent_data \<Rightarrow> int set" where
  "selected_turns env frepr ad = (let es = ad_trajectory_events ad in
     budget_turns env ad \<union>
     turns_where (bool_env env ''NANOCLAW_MASK_DUPLICATE_TOOL_RESULT_TURNS'' False) (repeated_result frepr) es (length es) \<union>
     turns_where (bool_env env ''NANOCLAW_MASK_ERROR_TOOL_RESULT_TURNS'' True) failed_result es (length es))"

lemma same_event_facts:
  assumes "same_event e e'"
  shows "event_type e' k = event_type e k" "event_turn e' = event_turn e"
    "tool_result_key frepr e' = tool_result_key frepr e"
    "nanoclaw_tool_result_is_error e' = nanoclaw_tool_result_is_error e"
  using assms
  by (simp_all add: same_event_def event_keys_def event_type_def event_turn_def tool_result_key_def
      nanoclaw_tool_result_is_error_def)

lemma same_rest_events:
  assumes "same_rest ad ad'"
  shows "length (ad_trajectory_events ad') = length (ad_trajectory_events ad)"
    "i < length (ad_trajectory_events ad) \<Longrightarrow> same_event (ad_trajectory_events ad ! i) (ad_trajectory_events ad' ! i)"
  using assms by (auto simp: same_rest_def same_events_def list_all2_conv_all_nth)

lemma mark_event_inv:
  assumes "mask_inv spans ad M s" "fk \<notin> event_keys"
  shows "mask_inv spans ad M (mark_event i fk (fst s), snd s)"
proof -
  have "mark_event i fk (fst s) = (fst s)\<lparr>ad_response_mask := ad_response_mask (fst s), ad_metrics := ad_metrics (fst s),
      ad_extra_fields := ad_extra_fields (fst s), ad_trajectory_events := ad_trajectory_events (mark_event i fk (fst s))\<rparr>"
    by (simp add: mark_event_def)
  then have "same_rest ad (mark_event i fk (fst s))"
    using same_rest_upd [OF _ mark_event_same [OF assms(2), of "fst s" i]] assms(1) by (metis mask_inv_def)
  then show ?thesis using assms(1) by (simp add: mask_inv_def mark_event_def)
qed

lemma flag_and_mask_inv:
  assumes inv: "mask_inv spans ad M s" and ok: "spans_ok spans"
    and env: "\<not> bool_env env ''NANOCLAW_MASK_ONLY_POSITIVE_ADVANTAGE'' False"
    and i: "i < length (ad_trajectory_events ad)" and fk: "fk \<notin> event_keys"
  shows "mask_inv spans ad (M \<union> (if enabled then {t. event_turn (ad_trajectory_events ad ! i) = Some t} else {}))
    (flag_and_mask env spans fk reason enabled i s)"
proof -
  have "same_rest ad (fst s)" using inv by (simp add: mask_inv_def)
  from same_event_facts(2) [OF same_rest_events(2) [OF this i]]
  have t: "event_turn (ad_trajectory_events (fst s) ! i) = event_turn (ad_trajectory_events ad ! i)" .
  show ?thesis
  proof (cases "event_turn (ad_trajectory_events ad ! i)")
    case None
    then show ?thesis using inv t by (simp add: flag_and_mask_def)
  next
    case (Some u)
    from mask_turn_inv [OF mark_event_inv [OF inv fk] ok env, of enabled u i reason]
    show ?thesis using Some t by (cases enabled) (simp_all add: flag_and_mask_def)
  qed
qed

lemma turns_where_Suc:
  "turns_where enabled sel es (Suc n) = turns_where enabled sel es n \<union>
     (if sel es n then (if enabled then {t. event_turn (es ! n) = Some t} else {}) else {})"
  by (auto simp: turns_where_def less_Suc_eq)

lemma turns_where_0 [simp]: "turns_where enabled sel es 0 = {}"
  by (simp add: turns_where_def)

lemma duplicate_run_inv:
  assumes inv: "mask_inv spans ad M s" and ok: "spans_ok spans"
    and env: "\<not> bool_env env ''NANOCLAW_MASK_ONLY_POSITIVE_ADVANTAGE'' False"
    and n: "n \<le> length (ad_trajectory_events ad)"
  shows "case foldl (duplicate_step env frepr spans enabled) (s, []) [0..<n] of (s', seen) \<Rightarrow>
    mask_inv spans ad (M \<union> turns_where enabled (repeated_result frepr) (ad_trajectory_events ad) n) s' \<and>
    set seen = {tool_result_key frepr (ad_trajectory_events ad ! j) | j. j < n \<and> event_type (ad_trajectory_events ad ! j) ''tool''}"
  using n
proof (induction n)
  case 0
  then show ?case using inv by simp
next
  case (Suc n)
  let ?es = "ad_trajectory_events ad"
  obtain s1 seen where s1: "foldl (duplicate_step env frepr spans enabled) (s, []) [0..<n] = (s1, seen)"
    by (cases "foldl (duplicate_step env frepr spans enabled) (s, []) [0..<n]")
  from Suc s1 have i1: "mask_inv spans ad (M \<union> turns_where enabled (repeated_result frepr) ?es n) s1"
    and seen: "set seen = {tool_result_key frepr (?es ! j) | j. j < n \<and> event_type (?es ! j) ''tool''}" by auto
  from i1 have rest: "same_rest ad (fst s1)" by (simp add: mask_inv_def)
  note f = same_event_facts [OF same_rest_events(2) [OF rest, of n]]
  have n: "n < length ?es" using Suc.prems by simp
  note ty = f(1) [OF n, of "''tool''"] and key = f(3) [OF n, of frepr]
  have rep: "repeated_result frepr ?es n \<longleftrightarrow> event_type (?es ! n) ''tool'' \<and> tool_result_key frepr (?es ! n) \<in> set seen"
    by (simp add: repeated_result_def seen) metis
  have keys: "{tool_result_key frepr (?es ! j) | j. j < Suc n \<and> event_type (?es ! j) ''tool''} =
      (if event_type (?es ! n) ''tool'' then insert (tool_result_key frepr (?es ! n)) (set seen) else set seen)"
    by (auto simp: seen less_Suc_eq)
  have st: "foldl (duplicate_step env frepr spans enabled) (s, []) [0..<Suc n] =
      duplicate_step env frepr spans enabled (s1, seen) n"
    using s1 by simp
  from flag_and_mask_inv [OF i1 ok env n, of "''duplicate_tool_result''" enabled "''duplicate_tool_result_turn''"]
  have masked: "mask_inv spans ad (M \<union> turns_where enabled (repeated_result frepr) ?es n \<union>
      (if enabled then {t. event_turn (?es ! n) = Some t} else {}))
      (flag_and_mask env spans ''duplicate_tool_result'' ''duplicate_tool_result_turn'' enabled n s1)" by simp
  show ?case
    unfolding st keys turns_where_Suc
    using masked i1 rep ty key
    by (auto simp: duplicate_step_def Let_def Un_assoc insert_absorb)
qed

lemma error_run_inv:
  assumes inv: "mask_inv spans ad M s" and ok: "spans_ok spans"
    and env: "\<not> bool_env env ''NANOCLAW_MASK_ONLY_POSITIVE_ADVANTAGE'' False"
    and n: "n \<le> length (ad_trajectory_events ad)"
  shows "mask_inv spans ad (M \<union> turns_where enabled failed_result (ad_trajectory_events ad) n)
    (foldl (error_step env spans enabled) s [0..<n])"
  using n
proof (induction n)
  case 0
  then show ?case using inv by simp
next
  case (Suc n)
  let ?es = "ad_trajectory_events ad" and ?s1 = "foldl (error_step env spans enabled) s [0..<n]"
  from Suc have i1: "mask_inv spans ad (M \<union> turns_where enabled failed_result ?es n) ?s1" by simp
  have n: "n < length ?es" using Suc.prems by simp
  from i1 have rest: "same_rest ad (fst ?s1)" by (simp add: mask_inv_def)
  note f = same_event_facts [OF same_rest_events(2) [OF rest n]]
  from flag_and_mask_inv [OF i1 ok env n, of "''error_tool_result''" enabled "''error_tool_result_turn''"]
  have "mask_inv spans ad (M \<union> turns_where enabled failed_result ?es (Suc n)) (error_step env spans enabled ?s1 n)"
    using i1 by (simp add: error_step_def [of env spans enabled ?s1] turns_where_Suc failed_result_def f Un_assoc)
  then show ?case by simp
qed

lemma spans_ok_set: "spans_ok spans \<Longrightarrow> 0 \<le> s \<Longrightarrow> s < e \<Longrightarrow> spans_ok (dict_set spans t (s, e))"
  by (simp add: spans_ok_def)

lemma span_step_ok:
  assumes "spans_ok spans" "event_type e ''assistant'' \<longrightarrow> (case as_int (pget e ''response_start'') of None \<Rightarrow> True | Some s \<Rightarrow> 0 \<le> s)"
  shows "spans_ok (span_step spans e)"
  using assms
  by (cases "event_turn e"; cases "as_int (pget e ''response_start'')"; cases "as_int (pget e ''response_end'')")
    (simp_all add: span_step_def spans_ok_set)

lemma span_steps_ok:
  "list_all (\<lambda>e. event_type e ''assistant'' \<longrightarrow> (case as_int (pget e ''response_start'') of None \<Rightarrow> True | Some s \<Rightarrow> 0 \<le> s)) es \<Longrightarrow>
   spans_ok spans \<Longrightarrow> spans_ok (foldl span_step spans es)"
  by (induction es arbitrary: spans) (simp_all add: span_step_ok)

text \<open>Assistant events as the rollout writes them: their spans start at non-negative positions.\<close>

definition starts_ok :: "agent_data \<Rightarrow> bool" where
  "starts_ok ad \<longleftrightarrow> list_all (\<lambda>e. event_type e ''assistant'' \<longrightarrow>
     (case as_int (pget e ''response_start'') of None \<Rightarrow> True | Some s \<Rightarrow> 0 \<le> s)) (ad_trajectory_events ad)"

lemma starts_ok_same:
  assumes "same_events (ad_trajectory_events ad) (ad_trajectory_events ad')"
  shows "starts_ok ad' = starts_ok ad"
  using assms
  by (auto simp: starts_ok_def same_events_def list_all_length list_all2_conv_all_nth same_event_def event_keys_def
      event_type_def)

lemma budget_phase_inv:
  assumes "spans_ok spans" "\<not> bool_env env ''NANOCLAW_MASK_ONLY_POSITIVE_ADVANTAGE'' False"
  shows "mask_inv spans ad (budget_turns env ad) (budget_phase env spans (ad, []))"
proof -
  have i: "mask_inv spans ad {} (ad, [])" by (simp add: mask_inv_def)
  note t = mask_turn_inv [OF i assms, of "bool_env env ''NANOCLAW_MASK_BUDGET_EXHAUSTED_LAST_TURN'' False" _ "''budget_exhausted_last_turn''"]
  show ?thesis
  proof (cases "filter (\<lambda>e. event_type e ''assistant'') (rev (ad_trajectory_events ad))")
    case Nil
    then have "budget_turns env ad = {}" unfolding budget_turns_def by simp
    then show ?thesis using Nil i by (simp add: budget_phase_def Let_def)
  next
    case (Cons e es)
    then have b: "budget_turns env ad = (if bool_env env ''NANOCLAW_MASK_BUDGET_EXHAUSTED_LAST_TURN'' False \<and>
        ad_termination_reason ad \<in> {''max_assistant_response_tokens'', ''max_response_tokens''}
        then {u. event_turn e = Some u} else {})" unfolding budget_turns_def by auto
    show ?thesis
    proof (cases "event_turn e")
      case None
      then show ?thesis using i Cons by (simp add: budget_phase_def b Let_def)
    next
      case (Some u)
      then show ?thesis using i t [of u] Cons by (auto simp: budget_phase_def b Let_def)
    qed
  qed
qed

lemma posthoc_mask_inv:
  fixes ad :: agent_data
  defines "spans \<equiv> nanoclaw_assistant_turn_spans ad"
  assumes "starts_ok ad" and env: "\<not> bool_env env ''NANOCLAW_MASK_ONLY_POSITIVE_ADVANTAGE'' False"
  shows "\<exists>m. mask_inv spans ad (selected_turns env frepr ad) (nanoclaw_apply_posthoc_turn_masks env frepr ad, m)"
proof (cases "spans = []")
  case True
  then have "zero_turns spans (selected_turns env frepr ad) (ad_response_mask ad) = ad_response_mask ad"
    by (intro nth_equalityI) (simp_all add: in_turn_span_def)
  then show ?thesis using True
    by (intro exI [of _ "[]"]) (simp add: nanoclaw_apply_posthoc_turn_masks_def spans_def mask_inv_def Let_def)
next
  case False
  let ?es = "ad_trajectory_events ad"
  let ?b = "budget_phase env spans (ad, [])" let ?d = "duplicate_phase env frepr spans ?b"
  let ?dup = "bool_env env ''NANOCLAW_MASK_DUPLICATE_TOOL_RESULT_TURNS'' False"
  let ?err = "bool_env env ''NANOCLAW_MASK_ERROR_TOOL_RESULT_TURNS'' True"
  have ok: "spans_ok spans" unfolding spans_def nanoclaw_assistant_turn_spans_def
    by (rule span_steps_ok) (use assms(2) in \<open>simp_all add: starts_ok_def spans_ok_def\<close>)
  note b = budget_phase_inv [OF ok env, of ad]
  have lb: "length (ad_trajectory_events (fst ?b)) = length ?es"
    using b by (intro same_rest_events(1)) (simp add: mask_inv_def)
  have d: "mask_inv spans ad (budget_turns env ad \<union> turns_where ?dup (repeated_result frepr) ?es (length ?es)) ?d"
    using duplicate_run_inv [OF b ok env order_refl, where frepr = frepr and enabled = ?dup]
    by (simp add: duplicate_phase_def lb split: prod.splits)
  have ld: "length (ad_trajectory_events (fst ?d)) = length ?es"
    using d by (intro same_rest_events(1)) (simp add: mask_inv_def)
  have e: "mask_inv spans ad (selected_turns env frepr ad) (error_phase env spans ?d)"
    using error_run_inv [OF d ok env order_refl, of ?err]
    by (simp add: error_phase_def ld selected_turns_def Let_def)
  have "nanoclaw_apply_posthoc_turn_masks env frepr ad = fst (error_phase env spans ?d)"
    using False by (simp add: nanoclaw_apply_posthoc_turn_masks_def spans_def Let_def)
  then show ?thesis using e by (intro exI [of _ "snd (error_phase env spans ?d)"]) simp
qed


text \<open>A rollout with two assistant turns; the tool called in the first one failed.\<close>

definition example_assistant :: "int \<Rightarrow> int \<Rightarrow> int \<Rightarrow> message" where
  "example_assistant turn start fin = [(''type'', PStr ''assistant''), (''assistant_turn'', PInt turn),
     (''response_start'', PInt start), (''response_end'', PInt fin), (''content'', PStr ''hi'')]"

definition example_tool :: "int \<Rightarrow> string \<Rightarrow> message" where
  "example_tool turn response = [(''type'', PStr ''tool''), (''assistant_turn'', PInt turn), (''tool'', PStr ''bash''),
     (''arguments'', PStr ''{}''), (''response'', PDict [(''role'', PStr ''tool''), (''content'', PStr response)]),
     (''reward'', PFloat 0), (''result'', PDict [])]"

definition example_agent :: agent_data where
  "example_agent = (agent_data_init [] PNone PNone PNone [] ''r'' (PDict []))\<lparr>
     ad_response_mask := [1, 1, 0, 0, 1, 1], ad_assistant_turns := 2,
     ad_trajectory_events := [example_assistant 1 0 2, example_tool 1 ''Error: no such file'', example_assistant 2 4 6]\<rparr>"


subsection \<open>Deferred masks\<close>

definition deferred_inv :: "agent_data \<Rightarrow> mask_state \<Rightarrow> bool" where
  "deferred_inv ad s \<longleftrightarrow> same_rest ad (fst s) \<and> ad_response_mask (fst s) = ad_response_mask ad"

lemma deferred_turn:
  assumes "bool_env env ''NANOCLAW_MASK_ONLY_POSITIVE_ADVANTAGE'' False" "deferred_inv ad s"
  shows "deferred_inv ad (nanoclaw_mask_assistant_turn env s t reason spans enabled)"
  using assms
  by (cases "dict_get spans t")
    (auto simp: deferred_inv_def nanoclaw_mask_assistant_turn_def Let_def record_rest split: prod.splits)

lemma mark_event_rest:
  assumes "same_rest ad a" "fk \<notin> event_keys"
  shows "same_rest ad (mark_event i fk a)"
proof -
  have "mark_event i fk a = a\<lparr>ad_response_mask := ad_response_mask a, ad_metrics := ad_metrics a,
      ad_extra_fields := ad_extra_fields a, ad_trajectory_events := ad_trajectory_events (mark_event i fk a)\<rparr>"
    by (simp add: mark_event_def)
  with same_rest_upd [OF assms(1) mark_event_same [OF assms(2), of a i]] show ?thesis by metis
qed

lemma deferred_flag:
  assumes "bool_env env ''NANOCLAW_MASK_ONLY_POSITIVE_ADVANTAGE'' False" "deferred_inv ad s" "fk \<notin> event_keys"
  shows "deferred_inv ad (flag_and_mask env spans fk reason enabled i s)"
proof -
  have "deferred_inv ad (mark_event i fk (fst s), snd s)"
    using assms(2) mark_event_rest [OF _ assms(3)] by (auto simp: deferred_inv_def) (simp add: mark_event_def)
  with assms show ?thesis
    by (cases "event_turn (ad_trajectory_events (fst s) ! i)") (simp_all add: flag_and_mask_def deferred_turn)
qed

lemma deferred_phases:
  assumes env: "bool_env env ''NANOCLAW_MASK_ONLY_POSITIVE_ADVANTAGE'' False"
  shows "deferred_inv ad s \<Longrightarrow> deferred_inv ad (budget_phase env spans s)"
    and "deferred_inv ad s \<Longrightarrow> deferred_inv ad (duplicate_phase env frepr spans s)"
    and "deferred_inv ad s \<Longrightarrow> deferred_inv ad (error_phase env spans s)"
proof -
  show "deferred_inv ad (budget_phase env spans s)" if "deferred_inv ad s"
    using deferred_turn [OF env that] that by (auto simp: budget_phase_def Let_def split: list.splits option.splits)
  have dup: "deferred_inv ad (fst (duplicate_step env frepr spans en a i))" if "deferred_inv ad (fst a)" for en a i
    using that deferred_flag [OF env that] by (auto simp: duplicate_step_def Let_def split: prod.splits)
  show "deferred_inv ad (duplicate_phase env frepr spans s)" if "deferred_inv ad s"
    unfolding duplicate_phase_def
    by (rule foldl_inv [where I = "\<lambda>a. deferred_inv ad (fst a)"]) (use that dup in auto)
  have err: "deferred_inv ad (error_step env spans en a i)" if "deferred_inv ad a" for en a i
    using that deferred_flag [OF env that] by (auto simp: error_step_def Let_def)
  show "deferred_inv ad (error_phase env spans s)" if "deferred_inv ad s"
    unfolding error_phase_def by (rule foldl_inv [where I = "deferred_inv ad"]) (use that err in auto)
qed

lemma deferred_posthoc:
  assumes "bool_env env ''NANOCLAW_MASK_ONLY_POSITIVE_ADVANTAGE'' False"
  shows "deferred_inv ad (nanoclaw_apply_posthoc_turn_masks env frepr ad, m)"
proof -
  let ?s = "nanoclaw_assistant_turn_spans ad"
  have i: "deferred_inv ad (ad, [])" by (simp add: deferred_inv_def)
  from deferred_phases(3) [OF assms deferred_phases(2) [OF assms deferred_phases(1) [OF assms i]]]
  have "deferred_inv ad (error_phase env ?s (duplicate_phase env frepr ?s (budget_phase env ?s (ad, []))))" .
  then show ?thesis using i by (simp add: nanoclaw_apply_posthoc_turn_masks_def deferred_inv_def Let_def)
qed

text \<open>In every mode the mask keeps its length and the token streams stay as they are.\<close>

lemma posthoc_keeps:
  assumes "starts_ok ad"
  shows "length (ad_response_mask (nanoclaw_apply_posthoc_turn_masks env frepr ad)) = length (ad_response_mask ad) \<and>
    same_rest ad (nanoclaw_apply_posthoc_turn_masks env frepr ad)"
proof (cases "bool_env env ''NANOCLAW_MASK_ONLY_POSITIVE_ADVANTAGE'' False")
  case True
  from deferred_posthoc [OF True, of ad frepr "[]"] show ?thesis by (simp add: deferred_inv_def)
next
  case False
  from posthoc_mask_inv [OF assms False, of frepr] show ?thesis by (auto simp: mask_inv_def)
qed

text \<open>
  Under \<open>NANOCLAW_MASK_ONLY_POSITIVE_ADVANTAGE\<close> nothing is masked after the rollout: the spans
  are only recorded, for the trainer to decide once the advantages are known.
\<close>

theorem posthoc_masks_deferred:
  assumes "bool_env env ''NANOCLAW_MASK_ONLY_POSITIVE_ADVANTAGE'' False"
  shows "ad_response_mask (nanoclaw_apply_posthoc_turn_masks env frepr ad) = ad_response_mask ad \<and>
    same_rest ad (nanoclaw_apply_posthoc_turn_masks env frepr ad)"
  using deferred_posthoc [OF assms, of ad frepr "[]"] by (simp add: deferred_inv_def)

theorem posthoc_masks_deferred_witness:
  "ad_response_mask (nanoclaw_apply_posthoc_turn_masks
     (\<lambda>k. if k = ''NANOCLAW_MASK_ONLY_POSITIVE_ADVANTAGE'' then Some ''On '' else None) (\<lambda>_. '''') example_agent) =
   [1, 1, 0, 0, 1, 1]"
proof -
  let ?env = "\<lambda>k. if k = ''NANOCLAW_MASK_ONLY_POSITIVE_ADVANTAGE'' then Some ''On '' else None"
  have "bool_env ?env ''NANOCLAW_MASK_ONLY_POSITIVE_ADVANTAGE'' False" by code_simp
  from posthoc_masks_deferred [OF this, of "\<lambda>_. ''''" example_agent] show ?thesis
    by (simp add: example_agent_def)
qed

subsection \<open>The recorded spans\<close>

type_synonym span_key = "int \<times> string \<times> int \<times> int"

definition entry_of :: "int list \<Rightarrow> span_key \<times> bool \<Rightarrow> pyval" where
  "entry_of msk x = (case x of ((t, r, s, e), b) \<Rightarrow> span_entry t r s e (count_true (py_slice msk s e)) b)"

definition key_tokens :: "int list \<Rightarrow> span_key \<Rightarrow> int" where
  "key_tokens msk k = (case k of (t, r, s, e) \<Rightarrow> count_true (py_slice msk s e))"

definition raise_key :: "span_key \<Rightarrow> bool \<Rightarrow> span_key \<times> bool \<Rightarrow> span_key \<times> bool" where
  "raise_key k en x = (fst x, snd x \<or> fst x = k \<and> en)"

lemma same_span_entry: "same_span t r s e (entry_of msk x) \<longleftrightarrow> fst x = (t, r, s, e)"
proof -
  obtain t' r' s' e' b where x: "x = ((t', r', s', e'), b)" by (metis prod.collapse)
  show ?thesis
    by (auto simp: x same_span_def entry_of_def span_entry_def pget_def dict_get_default_def py_eq_int_def as_num_def)
qed

lemma raise_entry:
  "(case entry_of msk x of
      PDict d \<Rightarrow> (if en \<and> \<not> py_truthy (dict_get_default d ''mask_enabled'' (PBool True))
        then PDict (dict_set d ''mask_enabled'' (PBool True)) else entry_of msk x)
    | _ \<Rightarrow> entry_of msk x) = entry_of msk (raise_key (fst x) en x)"
proof -
  obtain t r s e b where x: "x = ((t, r, s, e), b)" by (metis prod.collapse)
  show ?thesis
    by (cases b; cases en) (simp_all add: x entry_of_def span_entry_def dict_get_default_def py_truthy_def raise_key_def)
qed

lemma raise_span_entries:
  "distinct (map fst xs) \<Longrightarrow> raise_span (same_span t r s e) en (map (entry_of msk) xs) =
     (if (t, r, s, e) \<in> fst ` set xs then Some (map (entry_of msk) (map (raise_key (t, r, s, e) en) xs)) else None)"
proof (induction xs)
  case (Cons x xs)
  show ?case
  proof (cases "fst x = (t, r, s, e)")
    case True
    have "y \<in> set xs \<Longrightarrow> fst y \<noteq> (t, r, s, e)" for y using Cons.prems True by force
    then have id: "map (raise_key (t, r, s, e) en) xs = xs"
      by (intro map_idI) (auto simp: raise_key_def)
    show ?thesis using True id raise_entry [of msk x en] by (simp add: same_span_entry)
  next
    case False
    moreover have "raise_key (t, r, s, e) en x = x" using False by (cases x) (simp add: raise_key_def)
    ultimately show ?thesis using Cons by (auto simp: same_span_entry)
  qed
qed simp

type_synonym span_call = "int \<times> string \<times> int \<times> int \<times> bool"

definition record_call :: "agent_data \<Rightarrow> span_call \<Rightarrow> agent_data" where
  "record_call ad c = (case c of (t, r, s, e, en) \<Rightarrow> nanoclaw_record_bad_turn_span ad t r s e en)"

definition call_key :: "int list \<Rightarrow> span_call \<Rightarrow> span_key" where
  "call_key msk c = (case c of (t, r, s, e, en) \<Rightarrow> (t, r, s, min e (int (length msk))))"

definition call_recorded :: "int list \<Rightarrow> span_call \<Rightarrow> bool" where
  "call_recorded msk c = (case c of (t, r, s, e, en) \<Rightarrow> s < min e (int (length msk)))"

definition call_enabled :: "span_call \<Rightarrow> bool" where
  "call_enabled c = snd (snd (snd (snd c)))"

definition metric :: "agent_data \<Rightarrow> string \<Rightarrow> int" where
  "metric ad k = dict_get_default (ad_metrics ad) k 0"

definition records_ok :: "int list \<Rightarrow> span_call list \<Rightarrow> agent_data \<Rightarrow> bool" where
  "records_ok msk calls ad \<longleftrightarrow> ad_response_mask ad = msk \<and>
     (\<exists>xs. bad_spans ad = map (entry_of msk) xs \<and> distinct (map fst xs) \<and>
        fst ` set xs = call_key msk ` {c \<in> set calls. call_recorded msk c} \<and>
        (\<forall>(k, b) \<in> set xs. b \<longleftrightarrow> (\<exists>c \<in> set calls. call_key msk c = k \<and> call_enabled c)) \<and>
        metric ad ''nanoclaw_bad_turn_candidate_turns'' = int (length xs) \<and>
        metric ad ''nanoclaw_bad_turn_candidate_tokens'' = sum_list (map (key_tokens msk \<circ> fst) xs))"

lemma metric_add_get: "dict_get_default (metric_add k n m) k' z = (if k' = k then dict_get_default m k 0 + n else dict_get_default m k' z)"
  by (simp add: metric_add_def dict_get_default_def)

lemma bad_spans_set: "bad_spans (set_extra ad ''nanoclaw_bad_turn_spans'' (PList xs)) = xs"
  by (simp add: bad_spans_def set_extra_def pget_set)

lemma bad_spans_more [simp]:
  "bad_spans (ad\<lparr>ad_metrics := m, ad_trajectory_events := ev\<rparr>) = bad_spans ad"
  by (simp add: bad_spans_def)

lemma metric_set_extra [simp]: "metric (set_extra ad k v) k' = metric ad k'"
  by (simp add: metric_def set_extra_def)

lemma candidate_names:
  assumes "r \<noteq> ''bad_turn''"
  shows "''nanoclaw_'' @ r @ ''_candidate_tokens'' \<noteq> ''nanoclaw_bad_turn_candidate_tokens''"
    "''nanoclaw_'' @ r @ ''_candidate_turns'' \<noteq> ''nanoclaw_bad_turn_candidate_turns''"
    "''nanoclaw_'' @ r @ ''_candidate_turns'' \<noteq> ''nanoclaw_bad_turn_candidate_tokens''"
    "''nanoclaw_'' @ r @ ''_candidate_tokens'' \<noteq> ''nanoclaw_bad_turn_candidate_turns''"
proof -
  have e: "''nanoclaw_bad_turn_candidate_tokens'' = ''nanoclaw_'' @ ''bad_turn'' @ ''_candidate_tokens''"
    "''nanoclaw_bad_turn_candidate_turns'' = ''nanoclaw_'' @ ''bad_turn'' @ ''_candidate_turns''" by simp_all
  show "''nanoclaw_'' @ r @ ''_candidate_tokens'' \<noteq> ''nanoclaw_bad_turn_candidate_tokens''"
    "''nanoclaw_'' @ r @ ''_candidate_turns'' \<noteq> ''nanoclaw_bad_turn_candidate_turns''"
    unfolding e same_append_eq append_same_eq using assms by blast+
  show "''nanoclaw_'' @ r @ ''_candidate_turns'' \<noteq> ''nanoclaw_bad_turn_candidate_tokens''"
    "''nanoclaw_'' @ r @ ''_candidate_tokens'' \<noteq> ''nanoclaw_bad_turn_candidate_turns''"
    by (rule notI, drule arg_cong [where f = rev], simp)+
qed

lemma record_step_ok:
  assumes "records_ok msk calls ad" "fst (snd c) \<noteq> ''bad_turn''"
  shows "records_ok msk (calls @ [c]) (record_call ad c)"
proof -
  obtain t r s e en where c: "c = (t, r, s, e, en)" by (metis prod.collapse)
  let ?fin = "min e (int (length msk))" and ?k = "(t, r, s, min e (int (length msk)))"
  from assms(1) obtain xs where m: "ad_response_mask ad = msk" and xs: "bad_spans ad = map (entry_of msk) xs"
    and d: "distinct (map fst xs)" and ks: "fst ` set xs = call_key msk ` {c \<in> set calls. call_recorded msk c}"
    and b: "\<forall>(k, b) \<in> set xs. b \<longleftrightarrow> (\<exists>c \<in> set calls. call_key msk c = k \<and> call_enabled c)"
    and mt: "metric ad ''nanoclaw_bad_turn_candidate_turns'' = int (length xs)"
      "metric ad ''nanoclaw_bad_turn_candidate_tokens'' = sum_list (map (key_tokens msk \<circ> fst) xs)"
    by (auto simp: records_ok_def)
  have ck: "call_key msk c = ?k" "call_recorded msk c \<longleftrightarrow> s < ?fin" "call_enabled c = en"
    by (simp_all add: c call_key_def call_recorded_def call_enabled_def)
  note raised = raise_span_entries [OF d, of t r s ?fin en msk]
  have pos: "snd (snd (snd k)) > fst (snd (snd k))" if "k \<in> fst ` set xs" for k
    using that unfolding ks by (auto simp: call_key_def call_recorded_def)
  have img: "call_key msk ` {c' \<in> set (calls @ [c]). call_recorded msk c'} =
      insert ?k (call_key msk ` {c \<in> set calls. call_recorded msk c})" if "s < ?fin"
  proof -
    have "{c' \<in> set (calls @ [c]). call_recorded msk c'} = insert c {c \<in> set calls. call_recorded msk c}"
      using that ck(2) by auto
    then show ?thesis using ck(1) by simp
  qed
  consider (none) "?fin \<le> s" | (old) "s < ?fin" "?k \<in> fst ` set xs" | (new) "s < ?fin" "?k \<notin> fst ` set xs"
    by linarith
  then show ?thesis
  proof cases
    case none
    then have "record_call ad c = ad" by (simp add: c record_call_def nanoclaw_record_bad_turn_span_def m Let_def)
    moreover have "?k \<notin> fst ` set xs"
    proof
      assume "?k \<in> fst ` set xs"
      from pos [OF this] none show False by (simp add: min_def split: if_splits)
    qed
    then have "\<forall>(k, b) \<in> set xs. k \<noteq> ?k" by force
    then have "\<forall>(k, b) \<in> set xs. b \<longleftrightarrow> (\<exists>c' \<in> set (calls @ [c]). call_key msk c' = k \<and> call_enabled c')"
      using b ck(1) by fastforce
    moreover have "{c' \<in> set (calls @ [c]). call_recorded msk c'} = {c \<in> set calls. call_recorded msk c}"
      using none ck(2) by auto
    ultimately show ?thesis unfolding records_ok_def using m xs d ks mt by (intro conjI exI [of _ xs]) simp_all
  next
    case old
    let ?ys = "map (raise_key ?k en) xs"
    have f: "map fst ?ys = map fst xs" by (simp add: raise_key_def comp_def)
    have r: "record_call ad c = set_extra ad ''nanoclaw_bad_turn_spans'' (PList (map (entry_of msk) ?ys))"
      using old raised by (simp add: c record_call_def nanoclaw_record_bad_turn_span_def m Let_def xs min_le_iff_disj)
    have ks': "fst ` set ?ys = call_key msk ` {c' \<in> set (calls @ [c]). call_recorded msk c'}"
    proof -
      have "fst ` set ?ys = fst ` set xs" using f by (metis list.set_map)
      also have "\<dots> = insert ?k (fst ` set xs)" using old(2) by auto
      also have "\<dots> = call_key msk ` {c' \<in> set (calls @ [c]). call_recorded msk c'}"
        unfolding ks using img [OF old(1)] by simp
      finally show ?thesis .
    qed
    have b': "\<forall>(k, b) \<in> set ?ys. b \<longleftrightarrow> (\<exists>c' \<in> set (calls @ [c]). call_key msk c' = k \<and> call_enabled c')"
    proof (rule ballI, clarify)
      fix k bb assume "(k, bb) \<in> set ?ys"
      then obtain x where x0: "x \<in> set xs" "(k, bb) = raise_key ?k en x" unfolding set_map by (rule imageE) simp
      then have x: "x \<in> set xs" "k = fst x" "bb = (snd x \<or> fst x = ?k \<and> en)"
        unfolding raise_key_def by blast+
      have "snd x \<longleftrightarrow> (\<exists>c \<in> set calls. call_key msk c = fst x \<and> call_enabled c)" using b x(1) by (cases x) auto
      then show "bb = (\<exists>c' \<in> set (calls @ [c]). call_key msk c' = k \<and> call_enabled c')" using x ck by auto
    qed
    have tok: "sum_list (map (key_tokens msk \<circ> fst) ?ys) = sum_list (map (key_tokens msk \<circ> fst) xs)"
      by (simp add: raise_key_def comp_def)
    show ?thesis
      unfolding records_ok_def r metric_set_extra bad_spans_set
    proof (intro conjI exI [of _ ?ys])
      show "ad_response_mask (set_extra ad ''nanoclaw_bad_turn_spans'' (PList (map (entry_of msk) ?ys))) = msk"
        using m by (simp add: set_extra_def)
      show "distinct (map fst ?ys)" unfolding f by (rule d)
      show "metric ad ''nanoclaw_bad_turn_candidate_turns'' = int (length ?ys)" using mt(1) by simp
    qed (use ks' b' tok mt(2) in \<open>simp_all only:\<close>)
  next
    case new
    let ?ys = "xs @ [(?k, en)]"
    have rn: "r \<noteq> ''bad_turn''" using assms(2) c by simp
    obtain ev where r: "record_call ad c = (set_extra ad ''nanoclaw_bad_turn_spans'' (PList (map (entry_of msk) ?ys)))\<lparr>ad_metrics :=
         metric_add ''nanoclaw_bad_turn_candidate_tokens'' (key_tokens msk ?k)
          (metric_add ''nanoclaw_bad_turn_candidate_turns'' 1
           (metric_add (''nanoclaw_'' @ r @ ''_candidate_tokens'') (key_tokens msk ?k)
            (metric_add (''nanoclaw_'' @ r @ ''_candidate_turns'') 1 (ad_metrics ad)))), ad_trajectory_events := ev\<rparr>"
      using new raised
      by (simp add: c record_call_def nanoclaw_record_bad_turn_span_def m Let_def xs entry_of_def key_tokens_def min_le_iff_disj)
    note names = candidate_names [OF rn]
    have mt': "metric (record_call ad c) ''nanoclaw_bad_turn_candidate_turns'' = int (length ?ys)"
      "metric (record_call ad c) ''nanoclaw_bad_turn_candidate_tokens'' = sum_list (map (key_tokens msk \<circ> fst) ?ys)"
      using names names [symmetric] mt by (simp_all add: r metric_def metric_add_get del: append.simps)
    have fresh: "\<forall>c' \<in> set calls. call_key msk c' \<noteq> ?k"
    proof (intro ballI notI)
      fix c' assume c': "c' \<in> set calls" "call_key msk c' = ?k"
      then have "call_recorded msk c'" using new(1) by (auto simp: call_key_def call_recorded_def)
      with c' have "?k \<in> fst ` set xs" unfolding ks by force
      with new(2) show False by simp
    qed
    have old_ne: "\<forall>(k, b) \<in> set xs. k \<noteq> ?k" using new(2) by force
    have b': "\<forall>(k, b) \<in> set ?ys. b \<longleftrightarrow> (\<exists>c' \<in> set (calls @ [c]). call_key msk c' = k \<and> call_enabled c')"
      using b old_ne fresh ck by fastforce
    have ks': "fst ` set ?ys = call_key msk ` {c' \<in> set (calls @ [c]). call_recorded msk c'}"
    proof -
      have "fst ` set ?ys = insert ?k (fst ` set xs)" by simp
      also have "\<dots> = call_key msk ` {c' \<in> set (calls @ [c]). call_recorded msk c'}"
        unfolding ks using img [OF new(1)] by simp
      finally show ?thesis .
    qed
    have "ad_response_mask (record_call ad c) = msk" "bad_spans (record_call ad c) = map (entry_of msk) ?ys"
      using m by (simp_all add: r bad_spans_set) (simp add: set_extra_def)
    moreover have "distinct (map fst ?ys)" using d new(2) by simp
    ultimately show ?thesis
      unfolding records_ok_def using ks' b' mt' by (intro conjI exI [of _ ?ys])
  qed
qed


lemma records_run_ok:
  assumes "bad_spans ad = []" "metric ad ''nanoclaw_bad_turn_candidate_turns'' = 0"
    "metric ad ''nanoclaw_bad_turn_candidate_tokens'' = 0"
  shows "\<forall>c \<in> set calls. fst (snd c) \<noteq> ''bad_turn'' \<Longrightarrow>
    records_ok (ad_response_mask ad) calls (foldl record_call ad calls)"
proof (induction calls rule: rev_induct)
  case Nil
  then show ?case using assms by (simp add: records_ok_def)
next
  case (snoc c calls)
  then show ?case by (simp add: record_step_ok)
qed

text \<open>
  Recorded spans are exact: after any sequence of recordings the list holds one entry for every
  distinct turn, reason and clipped non-empty span that was asked for, enabled if some request for
  it was, with the number of its loss tokens; and the two metrics are the number of entries and the
  sum of their token counts.
\<close>

theorem recorded_spans_exact:
  assumes "bad_spans ad = []" "metric ad ''nanoclaw_bad_turn_candidate_turns'' = 0"
    "metric ad ''nanoclaw_bad_turn_candidate_tokens'' = 0"
    and "\<forall>c \<in> set calls. fst (snd c) \<noteq> ''bad_turn''"
    and "msk = ad_response_mask ad" and "ad' = foldl record_call ad calls"
  shows "\<exists>xs. bad_spans ad' = map (entry_of msk) xs \<and> distinct (map fst xs) \<and>
     fst ` set xs = call_key msk ` {c \<in> set calls. call_recorded msk c} \<and>
     (\<forall>(k, b) \<in> set xs. b \<longleftrightarrow> (\<exists>c \<in> set calls. call_key msk c = k \<and> call_enabled c)) \<and>
     metric ad' ''nanoclaw_bad_turn_candidate_turns'' = int (length xs) \<and>
     metric ad' ''nanoclaw_bad_turn_candidate_tokens'' = sum_list (map (key_tokens msk \<circ> fst) xs)"
  using records_run_ok [OF assms(1-4)] unfolding assms(5,6) records_ok_def by blast

theorem recorded_spans_exact_witness:
  "\<exists>ad'. ad' = foldl record_call example_agent
      [(1, ''looping_response'', 0, 2, False), (1, ''looping_response'', 0, 2, True), (2, ''looping_response'', 4, 9, False)] \<and>
    length (bad_spans ad') = 2 \<and> metric ad' ''nanoclaw_bad_turn_candidate_turns'' = 2"
proof -
  let ?calls = "[(1, ''looping_response'', 0, 2, False), (1, ''looping_response'', 0, 2, True), (2, ''looping_response'', 4, 9, False)]"
  let ?ad = "foldl record_call example_agent ?calls"
  have 0: "bad_spans example_agent = []" "metric example_agent ''nanoclaw_bad_turn_candidate_turns'' = 0"
    "metric example_agent ''nanoclaw_bad_turn_candidate_tokens'' = 0" by code_simp+
  have 1: "\<forall>c \<in> set ?calls. fst (snd c) \<noteq> ''bad_turn''" by simp
  have "length (bad_spans ?ad) = 2" by code_simp
  with recorded_spans_exact [OF 0 1 refl refl] show ?thesis by fastforce
qed

end
