(* ===== verification/AgentLoop.thy ===== *)
theory AgentLoop
  imports BehaviorMask LoadBalancer
begin

text \<open>
  Model of \<open>ToolAgentLoop\<close> (\<open>verl/experimental/agent_loop/tool_agent_loop.py\<close>): the state machine
  that alternates model turns and tool turns.  What the loop calls is a record of functions of the
  agent's data: the LLM server, the tokenizer and chat template, the tool-call parser, the tools.
  \<open>asyncio.gather\<close> over the tool calls of a turn is modelled in task order; tools change no more
  of the agent's data than \<open>extra_fields\<close>.  Wall-clock metrics are left out.
\<close>

subsection \<open>Configuration, tools and environment\<close>

record loop_config =
  lc_max_user_turns :: nat
  lc_max_assistant_turns :: nat
  lc_max_assistant_response_length :: "int option"
  lc_max_parallel_calls :: nat
  lc_max_tool_response_length :: nat
  lc_tool_response_truncate_side :: string
  lc_prompt_length :: nat
  lc_response_length :: nat
  lc_enable_continuous_token :: bool
  lc_tool_parser_name :: string
  lc_stop_token_ids :: "int list"

record tool_response =
  tr_text :: "string option"
  tr_image :: "pyval list option"
  tr_video :: "pyval list option"

type_synonym tool_return = "tool_response \<times> pyval \<times> pyval"

text \<open>
  A function tool is called with the arguments (the return value already normalised); a class tool
  is created, executed and released.
\<close>

datatype tool_impl =
    FunctionTool "pyval \<Rightarrow> tool_return result"
  | BaseTool "pyval \<Rightarrow> string result" "string \<Rightarrow> pyval \<Rightarrow> agent_data \<Rightarrow> tool_return result \<times> message"

record tool =
  tl_schema :: pyval
  tl_impl :: tool_impl

record loop_env =
  le_config :: loop_config
  le_tools :: "(string, tool) dict"
  le_builder :: builder
  le_generate :: "agent_data \<Rightarrow> message \<Rightarrow> pyval token_output result"
  le_template :: "message list \<Rightarrow> pyval \<Rightarrow> pyval \<Rightarrow> int list result"
  le_system_prompt :: "int list"
  le_turn_separator :: "int list"
  le_encode :: "string \<Rightarrow> int list"
  le_decode :: "int list \<Rightarrow> string"
  le_extract_tool_calls :: "int list \<Rightarrow> pyval list \<Rightarrow> (string \<times> function_call list) result"
  le_json_loads :: "string \<Rightarrow> string + pyval"
  le_image_processor :: bool
  le_set_order :: "pyval list \<Rightarrow> pyval list"
  le_env :: py_env
  le_frepr :: "rat \<Rightarrow> string"

datatype agent_state = Pending | Generating | ProcessingTools | Terminated

subsection \<open>Calling a tool\<close>

definition text_response :: "string \<Rightarrow> tool_response" where
  "text_response s = \<lparr>tr_text = Some s, tr_image = None, tr_video = None\<rparr>"

text \<open>\<open>text[-n:]\<close>: the whole text when \<open>n\<close> is 0.\<close>

definition last_chars :: "nat \<Rightarrow> string \<Rightarrow> string" where
  "last_chars n s = (if n = 0 then s else drop (length s - n) s)"

definition truncate_tool_text :: "nat \<Rightarrow> string \<Rightarrow> string \<Rightarrow> string" where
  "truncate_tool_text max_len side txt =
     (if txt \<noteq> '''' \<and> max_len < length txt then
        (if side = ''left'' then ''(truncated)...'' @ last_chars max_len txt
         else if side = ''right'' then take max_len txt @ ''...(truncated)''
         else (let n = max_len div 2 in take n txt @ ''...(truncated)...'' @ last_chars n txt))
      else txt)"

text \<open>The life cycle of tool instances, recorded in order.\<close>

datatype tool_event = Created string | Executed string | Released string

definition attr_error :: "pyval \<Rightarrow> 'a result" where
  "attr_error v = Inl (AttributeError (repr_string (py_type_name v) @ '' object has no attribute '' @ repr_string ''get''))"

definition create_kwargs_of :: "pyval \<Rightarrow> string \<Rightarrow> pyval result" where
  "create_kwargs_of tools_kwargs tool_name = (case tools_kwargs of
       PDict d \<Rightarrow> (case dict_get_default d tool_name (PDict []) of
           PDict kw \<Rightarrow> Inr (dict_get_default kw ''create_kwargs'' (PDict []))
         | v \<Rightarrow> attr_error v)
     | v \<Rightarrow> attr_error v)"

text \<open>
  The \<open>try\<close>/\<open>finally\<close>: the result, the new extra fields, and the life-cycle events.
\<close>

definition run_tool ::
  "tool_impl \<Rightarrow> string \<Rightarrow> pyval \<Rightarrow> pyval \<Rightarrow> agent_data \<Rightarrow> tool_return result \<times> message \<times> tool_event list" where
  "run_tool impl tool_name tool_args tools_kwargs ad = (case impl of
       FunctionTool f \<Rightarrow> (f tool_args, ad_extra_fields ad, [])
     | BaseTool create execute \<Rightarrow>
         (case rbind (create_kwargs_of tools_kwargs tool_name) create of
            Inl e \<Rightarrow> (Inl e, ad_extra_fields ad, [])
          | Inr instance_id \<Rightarrow>
              (let (r, extra) = execute instance_id tool_args ad in
               (r, extra, [Created instance_id, Executed instance_id] @
                  (if instance_id \<noteq> '''' then [Released instance_id] else [])))))"

definition call_tool ::
  "loop_env \<Rightarrow> (string, tool) dict \<Rightarrow> agent_data \<Rightarrow> function_call \<Rightarrow> tool_return \<times> message \<times> tool_event list" where
  "call_tool env active ad call =
     (let name = fc_name call; fail = (\<lambda>msg. (text_response msg, PFloat 0, PDict [])) in
      case dict_get active name of
        None \<Rightarrow> (fail (''Unknown function '' @ [CHR 0x27] @ name @ [CHR 0x27] @ ''. Available tools: '' @ str_list_repr (dict_keys active)),
                 ad_extra_fields ad, [])
      | Some tw \<Rightarrow>
          (case le_json_loads env (fc_arguments call) of
             Inl e \<Rightarrow> (fail (''Invalid JSON in arguments for '' @ [CHR 0x27] @ name @ [CHR 0x27] @ '': '' @ e), ad_extra_fields ad, [])
           | Inr tool_args \<Rightarrow>
               (case run_tool (tl_impl tw) name tool_args (ad_tools_kwargs ad) ad of
                  (Inl e, extra, trace) \<Rightarrow> (fail (''Error executing tool '' @ [CHR 0x27] @ name @ [CHR 0x27] @ '': '' @ exc_text e), extra, trace)
                | (Inr (resp, reward, res), extra, trace) \<Rightarrow>
                    ((\<lparr>tr_text = map_option (truncate_tool_text (lc_max_tool_response_length (le_config env))
                         (lc_tool_response_truncate_side (le_config env))) (tr_text resp),
                       tr_image = tr_image resp, tr_video = tr_video resp\<rparr>, reward, res), extra, trace))))"

subsection \<open>Rendering\<close>

text \<open>
  \<open>apply_chat_template\<close> of the agent loop: \<open>le_template messages tools images\<close> renders and
  tokenizes; the system prompt may be cut off; a multimodal prompt that is too long is an error.
\<close>

definition loop_apply_chat_template ::
  "loop_env \<Rightarrow> message list \<Rightarrow> pyval \<Rightarrow> pyval \<Rightarrow> pyval \<Rightarrow> pyval \<Rightarrow> bool \<Rightarrow> int list result" where
  "loop_apply_chat_template env messages tools images videos audios remove_system_prompt =
     rbind (le_template env messages tools images) (\<lambda>ids0.
       let ids = (if remove_system_prompt then drop (length (le_system_prompt env)) ids0 else ids0);
           prompt_length = lc_prompt_length (le_config env) in
       if prompt_length < length ids then
         (if py_truthy images \<or> py_truthy videos \<or> py_truthy audios then
            Inl (ValueError (''Multimodal prompt produced '' @ int_str (int (length ids)) @
              '' tokens, exceeding rollout.prompt_length='' @ int_str (int prompt_length) @
              ''. Truncating multimodal token sequences corrupts vision/audio feature alignment, so this is treated as a configuration error. Reduce the multimodal input size (e.g. ``total_pixels`` / ``max_pixels`` / fps / number of frames) or increase ``rollout.prompt_length``.''))
          else Inr (cap_text_prompt_length prompt_length ids))
       else Inr ids)"

definition format_gpt_oss_tool_response_manually :: "string \<Rightarrow> string \<Rightarrow> string" where
  "format_gpt_oss_tool_response_manually tool_response tool_call_name =
     ''<|start|>functions.'' @ tool_call_name @ '' to=assistant<|channel|>commentary<|message|>'' @ tool_response @ ''<|end|>''"

definition add_generation_prompt_for_gpt_oss :: "string \<Rightarrow> string" where
  "add_generation_prompt_for_gpt_oss s = s @ ''<|start|>assistant''"

definition build_gpt_oss_tool_response_text :: "(rat \<Rightarrow> string) \<Rightarrow> message list \<Rightarrow> string list \<Rightarrow> string" where
  "build_gpt_oss_tool_response_text frepr messages names =
     add_generation_prompt_for_gpt_oss (concat (map (\<lambda>(m, name).
       format_gpt_oss_tool_response_manually (py_str frepr (pget m ''content'')) name) (zip messages names)))"

text \<open>The text parts of a structured content; its items are dictionaries built by the loop itself.\<close>

definition gemma4_content :: "(rat \<Rightarrow> string) \<Rightarrow> message \<Rightarrow> string" where
  "gemma4_content frepr m = (case dict_get_default m ''content'' (PStr '''') of
       PList items \<Rightarrow> concat (map (\<lambda>d. case dict_get d ''text'' of Some (PStr s) \<Rightarrow> s | _ \<Rightarrow> '''')
         (filter (\<lambda>d. pget d ''type'' = PStr ''text'') (List.map_filter as_dict items)))
     | v \<Rightarrow> py_str frepr v)"

definition gemma4_tool_response_text :: "(rat \<Rightarrow> string) \<Rightarrow> message list \<Rightarrow> string list \<Rightarrow> string" where
  "gemma4_tool_response_text frepr messages names =
     concat (map (\<lambda>(m, name). ''<|tool_response>response:'' @ name @ ''{value:<|'' @ [CHR 0x22] @ ''|>'' @
       gemma4_content frepr m @ ''<|'' @ [CHR 0x22] @ ''|>}<tool_response|>'') (zip messages names))"

subsection \<open>The three states\<close>

definition handle_pending :: "loop_env \<Rightarrow> pyval \<Rightarrow> agent_data \<Rightarrow> (agent_state \<times> agent_data) result" where
  "handle_pending env schemas ad =
     rbind (if lc_enable_continuous_token (le_config env)
            then ct_build_initial_tokens (le_builder env) (lc_prompt_length (le_config env)) (ad_messages ad) schemas
            else loop_apply_chat_template env (ad_messages ad) schemas (ad_image_data ad) (ad_video_data ad)
              (ad_audio_data ad) False)
       (\<lambda>ids. Inr (Generating, ad\<lparr>ad_prompt_ids := ids\<rparr>))"

definition terminate_with :: "string \<Rightarrow> agent_data \<Rightarrow> (agent_state \<times> agent_data) result" where
  "terminate_with reason ad = Inr (Terminated, ad\<lparr>ad_termination_reason := reason\<rparr>)"

definition with_stop_tokens :: "loop_env \<Rightarrow> message \<Rightarrow> message" where
  "with_stop_tokens env sampling = (let stops = lc_stop_token_ids (le_config env) in
     if stops = [] then sampling
     else dict_set sampling ''stop_token_ids'' (PList (le_set_order env
       ((case pget sampling ''stop_token_ids'' of PList xs \<Rightarrow> xs | _ \<Rightarrow> []) @ map PInt stops))))"

text \<open>The budget of this generation; \<open>Inl\<close> holds the reason to terminate.\<close>

definition budget_check :: "loop_config \<Rightarrow> bool \<Rightarrow> agent_data \<Rightarrow> message \<Rightarrow> string + message result" where
  "budget_check cfg ignore_termination ad sampling =
     (let remaining_total = int (lc_response_length cfg) - int (length (ad_response_mask ad)) in
      if \<not> ignore_termination \<and> remaining_total \<le> 0 then Inl ''max_response_tokens''
      else (case lc_max_assistant_response_length cfg of
          Some limit \<Rightarrow>
            (let remaining = limit - int (ad_assistant_response_tokens ad) in
             if \<not> ignore_termination \<and> remaining \<le> 0 then Inl ''max_assistant_response_tokens''
             else if 0 < remaining then
               Inr (rbind (py_int_of (dict_get_default sampling ''max_tokens'' (PInt remaining))) (\<lambda>n.
                 Inr (dict_set sampling ''max_tokens'' (PInt (min (min n remaining) remaining_total)))))
             else Inr (Inr sampling))
        | None \<Rightarrow>
            Inr (rbind (py_int_of (dict_get_default sampling ''max_tokens'' (PInt remaining_total))) (\<lambda>n.
              Inr (dict_set sampling ''max_tokens'' (PInt (min n remaining_total)))))))"

subsection \<open>Merging the metadata of a generation\<close>

definition spec_decode_extra_keys :: "string list" where
  "spec_decode_extra_keys = [''spec_num_draft_tokens'', ''spec_num_accepted_tokens'', ''spec_num_verify_steps'']"

definition merge_preempted :: "int option \<Rightarrow> (string, int) dict \<Rightarrow> (string, int) dict" where
  "merge_preempted n metrics = (case dict_get metrics ''num_preempted'' of
       None \<Rightarrow> dict_set metrics ''num_preempted'' (case n of None \<Rightarrow> -1 | Some k \<Rightarrow> k)
     | Some m \<Rightarrow> dict_set metrics ''num_preempted'' (m + (case n of None \<Rightarrow> 0 | Some k \<Rightarrow> k)))"

text \<open>\<open>better new old\<close> decides whether a model version replaces the recorded one.\<close>

definition merge_version :: "(rat \<Rightarrow> rat \<Rightarrow> bool) \<Rightarrow> string \<Rightarrow> int option \<Rightarrow> message \<Rightarrow> message result" where
  "merge_version better key out extra = (case out of
       None \<Rightarrow> Inr extra
     | Some n \<Rightarrow> (if pget extra key = PNone then Inr (dict_set extra key (PInt n))
         else (case as_num (pget extra key) of
             None \<Rightarrow> Inl (TypeError ''comparison not supported between instances'')
           | Some old \<Rightarrow> Inr (if better (of_int n) old then dict_set extra key (PInt n) else extra))))"

definition merge_spec_key :: "(string, int option) dict \<Rightarrow> message \<Rightarrow> string \<Rightarrow> message result" where
  "merge_spec_key out extra key =
     (if \<not> dict_has out key then Inr extra
      else rbind (py_int_of (py_or (pget extra key) (PInt 0))) (\<lambda>previous.
        Inr (dict_set extra key (PInt (previous + (case extra_get out key of None \<Rightarrow> 0 | Some n \<Rightarrow> n))))))"

definition opt_int :: "int option \<Rightarrow> pyval" where
  "opt_int v = (case v of None \<Rightarrow> PNone | Some n \<Rightarrow> PInt n)"

definition keep_other_fields :: "(string, int option) dict \<Rightarrow> message \<Rightarrow> message" where
  "keep_other_fields out extra = foldl (\<lambda>ex (k, v).
     if k \<in> set ([''min_global_steps'', ''max_global_steps''] @ spec_decode_extra_keys) then ex
     else dict_setdefault ex k (opt_int v)) extra out"

definition merge_extra_fields :: "(string, int option) dict \<Rightarrow> message \<Rightarrow> message result" where
  "merge_extra_fields out extra =
     rbind (merge_version (<) ''min_global_steps'' (extra_get out ''min_global_steps'') extra) (\<lambda>e1.
     rbind (merge_version (>) ''max_global_steps'' (extra_get out ''max_global_steps'') e1) (\<lambda>e2.
     rbind (rfold (merge_spec_key out) e2 spec_decode_extra_keys) (\<lambda>e3.
       Inr (keep_other_fields out e3))))"

subsection \<open>Generating\<close>

definition nonempty_logprobs :: "rat list option \<Rightarrow> rat list option" where
  "nonempty_logprobs l = (case l of None \<Rightarrow> None | Some [] \<Rightarrow> None | Some xs \<Rightarrow> Some xs)"

text \<open>Append the generated tokens with mask 1 and their log-probabilities.\<close>

definition append_generated :: "loop_env \<Rightarrow> pyval token_output \<Rightarrow> agent_data \<Rightarrow> agent_data result" where
  "append_generated env out ad =
     (let lps = nonempty_logprobs (log_probs out) in
      if lc_enable_continuous_token (le_config env) then
        rbind (ct_merge_assistant_token (ad_prompt_ids ad) (token_ids out) (ad_response_mask ad)
            (if ad_response_logprobs ad \<noteq> [] \<or> lps \<noteq> None then Some (ad_response_logprobs ad) else None) lps)
          (\<lambda>(mr, msk, ls). Inr (ad\<lparr>ad_prompt_ids := mr_token_ids mr, ad_response_mask := msk,
             ad_response_logprobs := (case ls of None \<Rightarrow> ad_response_logprobs ad | Some l \<Rightarrow> l)\<rparr>))
      else Inr (ad\<lparr>ad_prompt_ids := ad_prompt_ids ad @ token_ids out,
         ad_response_mask := ad_response_mask ad @ replicate (length (token_ids out)) 1,
         ad_response_logprobs := ad_response_logprobs ad @ (case lps of None \<Rightarrow> [] | Some l \<Rightarrow> l)\<rparr>))"

definition record_output :: "pyval token_output \<Rightarrow> agent_data \<Rightarrow> agent_data result" where
  "record_output out ad =
     rbind (merge_extra_fields (extra_fields out) (ad_extra_fields ad)) (\<lambda>extra.
       Inr (ad\<lparr>ad_metrics := merge_preempted (num_preempted out) (ad_metrics ad), ad_extra_fields := extra,
         ad_assistant_turns := ad_assistant_turns ad + 1, ad_response_ids := token_ids out,
         ad_assistant_response_tokens := ad_assistant_response_tokens ad + length (token_ids out)\<rparr>))"

definition loop_min_chars :: "py_env \<Rightarrow> int" where
  "loop_min_chars env = max 1 (int_env env ''NANOCLAW_LOOPING_RESPONSE_MIN_CHARS''
     (int_env env ''NANOCLAW_REPEATED_RESPONSE_MIN_CHARS'' 200))"

definition loop_min_repeats :: "py_env \<Rightarrow> int" where
  "loop_min_repeats env = max 2 (int_env env ''NANOCLAW_LOOPING_RESPONSE_MIN_CONSECUTIVE_REPEATS''
     (int_env env ''NANOCLAW_REPEATED_RESPONSE_MIN_CONSECUTIVE_REPEATS'' 2))"

text \<open>
  Detect a looping response in the span \<open>[start, fin)\<close>, record or mask it, and append the event.
\<close>

definition observe_response :: "py_env \<Rightarrow> nat \<Rightarrow> nat \<Rightarrow> string \<Rightarrow> agent_data \<Rightarrow> agent_data" where
  "observe_response env start ntoks decoded ad =
     (let repeats = nanoclaw_looping_response_repeat_count decoded (loop_min_chars env) (loop_min_repeats env);
          fin = start + ntoks;
          mask_on = bool_env env ''NANOCLAW_MASK_LOOPING_RESPONSES'' False;
          candidate = (0 < repeats \<and> mask_on \<and> bool_env env ''NANOCLAW_MASK_ONLY_POSITIVE_ADVANTAGE'' False);
          masked = (0 < repeats \<and> mask_on \<and> \<not> bool_env env ''NANOCLAW_MASK_ONLY_POSITIVE_ADVANTAGE'' False);
          ad1 = (if 0 < repeats then nanoclaw_record_bad_turn_span ad (int (ad_assistant_turns ad)) ''looping_response''
              (int start) (int fin) mask_on else ad);
          ad2 = (if masked then ad1\<lparr>ad_response_mask :=
                slice_assign (ad_response_mask ad1) (int start) (int fin) (replicate ntoks 0),
              ad_metrics := metric_add ''nanoclaw_looping_response_masked_tokens'' (int ntoks)
                (metric_add ''nanoclaw_looping_response_masked_turns'' 1 (ad_metrics ad1))\<rparr> else ad1)
      in ad2\<lparr>ad_trajectory_events := ad_trajectory_events ad2 @
           [[(''type'', PStr ''assistant''), (''assistant_turn'', pnat (ad_assistant_turns ad)),
             (''token_count'', pnat ntoks), (''response_start'', pnat start), (''response_end'', pnat fin),
             (''looping_repeat_count'', pnat repeats), (''masked_looping_response'', PBool masked),
             (''looping_response_mask_candidate'', PBool candidate), (''content'', PStr decoded)]]\<rparr>)"

text \<open>The reason to stop after a generation.\<close>

definition stop_reason_after :: "loop_config \<Rightarrow> bool \<Rightarrow> agent_data \<Rightarrow> string option" where
  "stop_reason_after cfg ignore_termination ad =
     (if \<not> ignore_termination \<and> lc_response_length cfg \<le> length (ad_response_mask ad) then Some ''max_response_tokens''
      else if \<not> ignore_termination \<and> (case lc_max_assistant_response_length cfg of None \<Rightarrow> False
          | Some limit \<Rightarrow> limit \<le> int (ad_assistant_response_tokens ad)) then Some ''max_assistant_response_tokens''
      else if lc_max_assistant_turns cfg \<noteq> 0 \<and> lc_max_assistant_turns cfg \<le> ad_assistant_turns ad then Some ''max_assistant_turns''
      else if lc_max_user_turns cfg \<noteq> 0 \<and> lc_max_user_turns cfg \<le> ad_user_turns ad then Some ''max_user_turns''
      else None)"

text \<open>\<open>json.loads\<close> of the arguments must give an object.\<close>

definition assistant_tool_call :: "loop_env \<Rightarrow> function_call \<Rightarrow> pyval result" where
  "assistant_tool_call env call = (case le_json_loads env (fc_arguments call) of
       Inr (PDict args) \<Rightarrow> Inr (PDict ([(''type'', PStr ''function''),
           (''function'', PDict [(''name'', PStr (fc_name call)), (''arguments'', PDict args)])] @
           (case fc_tool_call_id call of None \<Rightarrow> [] | Some i \<Rightarrow> [(''id'', PStr i)])))
     | _ \<Rightarrow> Inl (ValueError (''Invalid tool call arguments for '' @ [CHR 0x27] @ fc_name call @ [CHR 0x27] @
         '': expected a JSON object string, got '' @ repr_string (fc_arguments call))))"

definition build_assistant_message :: "loop_env \<Rightarrow> string \<Rightarrow> function_call list \<Rightarrow> message result" where
  "build_assistant_message env content calls =
     (let m = [(''role'', PStr ''assistant''), (''content'', PStr content)] in
      if calls = [] then Inr m
      else rbind (rmap (assistant_tool_call env) (take (lc_max_parallel_calls (le_config env)) calls)) (\<lambda>tcs.
        Inr (m @ [(''tool_calls'', PList tcs)])))"

text \<open>Extract the tool calls of the response and choose the next state.\<close>

definition extract_calls :: "loop_env \<Rightarrow> (string, tool) dict \<Rightarrow> agent_data \<Rightarrow> (agent_state \<times> agent_data) result" where
  "extract_calls env active ad =
     rbind (le_extract_tool_calls env (ad_response_ids ad) (map tl_schema (dict_values active))) (\<lambda>(content, calls).
     rbind (if lc_enable_continuous_token (le_config env)
            then rbind (build_assistant_message env content calls) (\<lambda>m. Inr (ad_messages ad @ [m]))
            else Inr (ad_messages ad)) (\<lambda>messages.
       let ad' = ad\<lparr>ad_tool_calls := calls, ad_messages := messages\<rparr> in
       if calls \<noteq> [] then Inr (ProcessingTools, ad') else terminate_with ''completed_no_tool_call'' ad'))"

definition handle_generating ::
  "loop_env \<Rightarrow> (string, tool) dict \<Rightarrow> message \<Rightarrow> bool \<Rightarrow> agent_data \<Rightarrow> (agent_state \<times> agent_data) result" where
  "handle_generating env active sampling ignore_termination ad =
     (let cfg = le_config env in
      case budget_check cfg ignore_termination ad (with_stop_tokens env sampling) of
        Inl reason \<Rightarrow> terminate_with reason ad
      | Inr params \<Rightarrow>
          rbind params (\<lambda>sampling'.
          rbind (le_generate env ad sampling') (\<lambda>out.
          rbind (record_output out ad) (\<lambda>ad1.
          rbind (append_generated env out ad1) (\<lambda>ad2.
            let ad3 = (case routed_experts out of None \<Rightarrow> ad2 | Some r \<Rightarrow> ad2\<lparr>ad_routed_experts := PList r\<rparr>);
                ad4 = observe_response (le_env env) (length (ad_response_mask ad)) (length (token_ids out))
                  (le_decode env (token_ids out)) ad3
            in case stop_reason_after cfg ignore_termination ad4 of
                Some reason \<Rightarrow> terminate_with reason ad4
              | None \<Rightarrow> extract_calls env active ad4)))))"

subsection \<open>Processing tools\<close>

definition present :: "pyval list option \<Rightarrow> bool" where
  "present v = (case v of None \<Rightarrow> False | Some xs \<Rightarrow> xs \<noteq> [])"

definition tool_message :: "loop_env \<Rightarrow> function_call \<Rightarrow> tool_response \<Rightarrow> message result" where
  "tool_message env call resp =
     (let txt = (case tr_text resp of None \<Rightarrow> '''' | Some s \<Rightarrow> s);
          finish = (\<lambda>content. [(''role'', PStr ''tool''), (''content'', content)] @
            (case fc_tool_call_id call of None \<Rightarrow> [] | Some i \<Rightarrow> [(''tool_call_id'', PStr i)])) in
      if present (tr_image resp) \<or> present (tr_video resp) then
        (if \<not> le_image_processor env then
           Inl (ValueError ''Multimedia data can only be processed by `processor`, but the processor is None. This error is often caused if you are using a LLM model but your tool returns multimodal data. Plase use a vlm as the base model.'')
         else Inr (finish (PList (
           (if present (tr_image resp) then [PDict [(''type'', PStr ''image'')]] else []) @
           (if present (tr_video resp) then [PDict [(''type'', PStr ''video'')]] else []) @
           (if txt \<noteq> '''' then [PDict [(''type'', PStr ''text''), (''text'', PStr txt)]] else [])))))
      else Inr (finish (PStr txt)))"

record tool_acc =
  ta_messages :: "message list"
  ta_images :: "pyval list"
  ta_data :: agent_data

definition process_response :: "loop_env \<Rightarrow> tool_acc \<Rightarrow> function_call \<times> tool_return \<Rightarrow> tool_acc result" where
  "process_response env acc p = (case p of (call, resp, reward, res) \<Rightarrow>
     rbind (tool_message env call resp) (\<lambda>m.
       if present (tr_video resp) then
         Inl (NotImplementedError (''Multimedia type '' @ repr_string ''video'' @ '' is not currently supported. Only '' @
           repr_string ''image'' @ '' is supported.''))
       else
         (let ad = ta_data acc;
              event = [(''type'', PStr ''tool''), (''assistant_turn'', pnat (ad_assistant_turns ad)),
                (''user_turn'', pnat (ad_user_turns ad + 1)), (''tool'', PStr (fc_name call)),
                (''arguments'', PStr (fc_arguments call)), (''response'', PDict m), (''reward'', reward), (''result'', res)]
          in Inr \<lparr>ta_messages = ta_messages acc @ [m],
               ta_images = ta_images acc @ (case tr_image resp of None \<Rightarrow> [] | Some xs \<Rightarrow> filter (\<lambda>x. x \<noteq> PNone) xs),
               ta_data = ad\<lparr>ad_tool_rewards := ad_tool_rewards ad @ (if reward \<noteq> PNone then [reward] else []),
                 ad_trajectory_events := ad_trajectory_events ad @ [event]\<rparr>\<rparr>)))"

text \<open>The calls of a turn, in order; each sees the extra fields its predecessors left.\<close>

fun gather_calls ::
  "loop_env \<Rightarrow> (string, tool) dict \<Rightarrow> agent_data \<Rightarrow> function_call list \<Rightarrow> tool_return list \<times> agent_data \<times> tool_event list" where
  "gather_calls env active ad [] = ([], ad, [])"
| "gather_calls env active ad (c # cs) =
     (case call_tool env active ad c of (ret, extra, tr) \<Rightarrow>
      case gather_calls env active (ad\<lparr>ad_extra_fields := extra\<rparr>) cs of (rets, ad', trs) \<Rightarrow>
        (ret # rets, ad', tr @ trs))"

definition add_images :: "pyval list \<Rightarrow> pyval \<Rightarrow> pyval" where
  "add_images new v = (if new = [] then v
     else PList ((case v of PNone \<Rightarrow> [] | PList xs \<Rightarrow> xs | x \<Rightarrow> [x]) @ new))"

text \<open>Tool responses as tokens, when they are not merged by the continuous-token builder.\<close>

definition tool_response_ids :: "loop_env \<Rightarrow> message list \<Rightarrow> string list \<Rightarrow> pyval list \<Rightarrow> int list result" where
  "tool_response_ids env messages names images =
     (if lc_tool_parser_name (le_config env) = ''gpt-oss'' then
        Inr (le_encode env (build_gpt_oss_tool_response_text (le_frepr env) messages names))
      else if lc_tool_parser_name (le_config env) = ''gemma4'' then
        Inr (le_encode env (gemma4_tool_response_text (le_frepr env) messages names))
      else rbind (loop_apply_chat_template env messages PNone (if images \<noteq> [] then PList images else PNone) PNone PNone True)
        (\<lambda>ids. Inr (le_turn_separator env @ ids)))"

definition append_tool_tokens :: "loop_env \<Rightarrow> int list \<Rightarrow> pyval list \<Rightarrow> agent_data \<Rightarrow> (agent_state \<times> agent_data) result" where
  "append_tool_tokens env ids images ad =
     (if lc_response_length (le_config env) \<le> length (ad_response_mask ad) + length ids then
        terminate_with ''max_response_tokens_after_tool'' ad
      else Inr (Generating, ad\<lparr>ad_image_data := add_images images (ad_image_data ad),
          ad_prompt_ids := ad_prompt_ids ad @ ids,
          ad_response_mask := ad_response_mask ad @ replicate (length ids) 0,
          ad_response_logprobs := (if ad_response_logprobs ad \<noteq> [] then ad_response_logprobs ad @ replicate (length ids) 0
            else ad_response_logprobs ad),
          ad_user_turns := ad_user_turns ad + 1\<rparr>))"

definition merge_tool_messages ::
  "loop_env \<Rightarrow> pyval \<Rightarrow> message list \<Rightarrow> agent_data \<Rightarrow> (agent_state \<times> agent_data) result" where
  "merge_tool_messages env schemas previous ad =
     rbind (ct_merge_non_assistant_msg (le_builder env) previous (ad_messages ad) (ad_prompt_ids ad)
         (ad_response_mask ad) (if ad_response_logprobs ad \<noteq> [] then Some (ad_response_logprobs ad) else None) schemas)
       (\<lambda>(mr, msk, ls).
         if lc_response_length (le_config env) \<le> length msk then terminate_with ''max_response_tokens_after_tool'' ad
         else Inr (Generating, ad\<lparr>ad_prompt_ids := mr_token_ids mr, ad_response_mask := msk,
             ad_response_logprobs := (if ad_response_logprobs ad \<noteq> [] then (case ls of None \<Rightarrow> [] | Some l \<Rightarrow> l)
               else ad_response_logprobs ad),
             ad_user_turns := ad_user_turns ad + 1\<rparr>))"

definition handle_processing_tools ::
  "loop_env \<Rightarrow> (string, tool) dict \<Rightarrow> pyval \<Rightarrow> agent_data \<Rightarrow> (agent_state \<times> agent_data) result" where
  "handle_processing_tools env active schemas ad =
     (let calls = take (lc_max_parallel_calls (le_config env)) (ad_tool_calls ad) in
      case gather_calls env active (ad\<lparr>ad_tool_call_count := ad_tool_call_count ad + length calls\<rparr>) calls of
        (rets, ad1, _) \<Rightarrow>
          rbind (rfold (process_response env) \<lparr>ta_messages = [], ta_images = [], ta_data = ad1\<rparr> (zip calls rets)) (\<lambda>acc.
            let ad2 = (ta_data acc)\<lparr>ad_messages := ad_messages (ta_data acc) @ ta_messages acc\<rparr> in
            if lc_enable_continuous_token (le_config env) \<and> ta_images acc = [] then
              merge_tool_messages env schemas (ad_messages ad) ad2
            else rbind (tool_response_ids env (ta_messages acc) (map fc_name calls) (ta_images acc)) (\<lambda>ids.
              append_tool_tokens env ids (ta_images acc) ad2)))"

subsection \<open>The run\<close>

definition handle_state ::
  "loop_env \<Rightarrow> (string, tool) dict \<Rightarrow> pyval \<Rightarrow> message \<Rightarrow> agent_state \<Rightarrow> agent_data \<Rightarrow> (agent_state \<times> agent_data) result" where
  "handle_state env active schemas sampling st ad = (case st of
       Pending \<Rightarrow> handle_pending env schemas ad
     | Generating \<Rightarrow> handle_generating env active sampling False ad
     | ProcessingTools \<Rightarrow> handle_processing_tools env active schemas ad
     | Terminated \<Rightarrow> Inr (Terminated, ad))"

text \<open>\<open>while state != TERMINATED\<close>, with fuel; \<open>None\<close> when the fuel runs out.\<close>

fun state_loop ::
  "loop_env \<Rightarrow> (string, tool) dict \<Rightarrow> pyval \<Rightarrow> message \<Rightarrow> nat \<Rightarrow> agent_state \<Rightarrow> agent_data \<Rightarrow> agent_data result option" where
  "state_loop env active schemas sampling fuel Terminated ad = Some (Inr ad)"
| "state_loop env active schemas sampling 0 st ad = None"
| "state_loop env active schemas sampling (Suc fuel) st ad =
     (case handle_state env active schemas sampling st ad of
        Inl e \<Rightarrow> Some (Inl e)
      | Inr (st', ad') \<Rightarrow> state_loop env active schemas sampling fuel st' ad')"

record loop_output =
  lo_prompt_ids :: "int list"
  lo_response_ids :: "int list"
  lo_response_mask :: "int list"
  lo_multi_modal_data :: message
  lo_response_logprobs :: "rat list option"
  lo_num_turns :: nat
  lo_metrics :: "(string, int) dict"
  lo_routed_experts :: pyval
  lo_extra_fields :: message

text \<open>\<open>ids[-n:]\<close>, and \<open>ids[:len(ids) - n]\<close> (a negative bound counts from the end).\<close>

definition take_last :: "nat \<Rightarrow> 'a list \<Rightarrow> 'a list" where
  "take_last n xs = (if n = 0 then xs else drop (length xs - n) xs)"

definition finalize_output :: "loop_config \<Rightarrow> agent_data \<Rightarrow> loop_output" where
  "finalize_output cfg ad =
     (let n = length (ad_response_mask ad);
          prompt_ids = take (slice_index (length (ad_prompt_ids ad)) (int (length (ad_prompt_ids ad)) - int n)) (ad_prompt_ids ad)
      in \<lparr>lo_prompt_ids = prompt_ids,
          lo_response_ids = take (lc_response_length cfg) (take_last n (ad_prompt_ids ad)),
          lo_response_mask = take (lc_response_length cfg) (ad_response_mask ad),
          lo_multi_modal_data = filter (\<lambda>p. snd p \<noteq> PNone)
            [(''images'', ad_image_data ad), (''videos'', ad_video_data ad), (''audios'', ad_audio_data ad)],
          lo_response_logprobs = (if ad_response_logprobs ad \<noteq> []
            then Some (take (lc_response_length cfg) (ad_response_logprobs ad)) else None),
          lo_num_turns = ad_user_turns ad + ad_assistant_turns ad + 1,
          lo_metrics = ad_metrics ad,
          lo_routed_experts = (case ad_routed_experts ad of
              PList r \<Rightarrow> PList (take (length prompt_ids + lc_response_length cfg) r) | v \<Rightarrow> v),
          lo_extra_fields = dict_update (ad_extra_fields ad)
            [(''turn_scores'', PList (map PFloat (ad_turn_scores ad))), (''tool_rewards'', PList (ad_tool_rewards ad)),
             (''rollout_termination_reason'', PStr (ad_termination_reason ad)),
             (''rollout_final_answer'', opt_str (nanoclaw_final_answer ad)),
             (''rollout_assistant_turns'', pnat (ad_assistant_turns ad)), (''rollout_user_turns'', pnat (ad_user_turns ad)),
             (''rollout_tool_call_count'', pnat (ad_tool_call_count ad)),
             (''rollout_response_tokens'', pnat (length (ad_response_mask ad))),
             (''rollout_assistant_response_tokens'', pnat (ad_assistant_response_tokens ad))]\<rparr>)"

text \<open>
  The keyword arguments of \<open>run\<close> that it reads, with the multimodal inputs already extracted, the
  request id and the clock.
\<close>

record run_args =
  ra_raw_prompt :: "message list"
  ra_images :: pyval
  ra_videos :: pyval
  ra_audios :: pyval
  ra_mm_processor_kwargs :: message
  ra_tools_kwargs :: pyval
  ra_extra_info :: message
  ra_trajectory :: message
  ra_data_source :: pyval
  ra_index :: pyval
  ra_request_id :: string
  ra_now :: string
  ra_elapsed :: rat

definition run_init :: "loop_env \<Rightarrow> run_args \<Rightarrow> agent_data result" where
  "run_init env args =
     (let tools_kwargs = inject_nanoclaw_trajectory (ra_tools_kwargs args) (ra_trajectory args);
          frepr = le_frepr env;
          task_id = py_str frepr (py_or (py_or (pget (ra_extra_info args) ''task_id'') (ra_data_source args))
            (PStr (''sample_'' @ py_str frepr (ra_index args))));
          step = pget (ra_trajectory args) ''step'' in
      rbind (py_int_of (dict_get_default (ra_trajectory args) ''rollout_n'' (PInt 0))) (\<lambda>rollout_index.
        Inr ((agent_data_init (ra_raw_prompt args) (ra_images args) (ra_videos args) (ra_audios args)
            (ra_mm_processor_kwargs args) (ra_request_id args) tools_kwargs)\<lparr>ad_extra_fields :=
          [(''rollout_label'', PStr (''step_'' @ py_str frepr step @ ''/'' @ task_id @ ''_sample_'' @ int_str rollout_index)),
           (''rollout_task_id'', PStr task_id), (''rollout_index'', PInt rollout_index), (''rollout_n'', PInt rollout_index),
           (''rollout_step'', step), (''rollout_sample_index'', pget (ra_trajectory args) ''sample_index'')]\<rparr>)))"

text \<open>Per-sample tool selection.\<close>

definition select_tools :: "(string, tool) dict \<Rightarrow> pyval \<Rightarrow> (string, tool) dict" where
  "select_tools tools selection =
     (if py_truthy selection \<and> tools \<noteq> [] then
        (case selection of
           PList names \<Rightarrow> dict_update [] (List.map_filter (\<lambda>n. case n of
               PStr s \<Rightarrow> map_option (Pair s) (dict_get tools s) | _ \<Rightarrow> None) names)
         | _ \<Rightarrow> [])
      else tools)"

definition tool_agent_run ::
  "loop_env \<Rightarrow> message \<Rightarrow> nat \<Rightarrow> run_args \<Rightarrow> (loop_output \<times> (string \<times> pyval) list) result option" where
  "tool_agent_run env sampling fuel args = (case run_init env args of
       Inl e \<Rightarrow> Some (Inl e)
     | Inr ad0 \<Rightarrow>
         (let active = select_tools (le_tools env) (pget (ra_extra_info args) ''tool_selection'');
              schemas = PList (map tl_schema (dict_values active)) in
          case state_loop env active schemas sampling fuel Pending ad0 of
            None \<Rightarrow> None
          | Some (Inl e) \<Rightarrow> Some (Inl e)
          | Some (Inr ad) \<Rightarrow>
              (let ad' = nanoclaw_apply_posthoc_turn_masks (le_env env) (le_frepr env) ad;
                   out = finalize_output (le_config env) ad'
               in Some (Inr (out, write_nanoclaw_trajectory (le_frepr env) (ra_now args)
                    (ad'\<lparr>ad_extra_fields := lo_extra_fields out\<rparr>) (ra_elapsed args))))))"

subsection \<open>The state machine as a step relation\<close>

inductive agent_step ::
  "loop_env \<Rightarrow> (string, tool) dict \<Rightarrow> pyval \<Rightarrow> message \<Rightarrow> agent_state \<times> agent_data \<Rightarrow> agent_state \<times> agent_data \<Rightarrow> bool"
  for env active schemas sampling where
    prepare: "handle_pending env schemas ad = Inr r \<Longrightarrow> agent_step env active schemas sampling (Pending, ad) r"
  | generate: "handle_generating env active sampling False ad = Inr r \<Longrightarrow>
      agent_step env active schemas sampling (Generating, ad) r"
  | use_tools: "handle_processing_tools env active schemas ad = Inr r \<Longrightarrow>
      agent_step env active schemas sampling (ProcessingTools, ad) r"

inductive agent_reach ::
  "loop_env \<Rightarrow> (string, tool) dict \<Rightarrow> pyval \<Rightarrow> message \<Rightarrow> agent_data \<Rightarrow> agent_state \<times> agent_data \<Rightarrow> bool"
  for env active schemas sampling ad0 where
    start: "agent_reach env active schemas sampling ad0 (Pending, ad0)"
  | step: "agent_reach env active schemas sampling ad0 s \<Longrightarrow> agent_step env active schemas sampling s s' \<Longrightarrow>
      agent_reach env active schemas sampling ad0 s'"

inductive_cases agent_stepE: "agent_step env active schemas sampling s s'"

lemma agent_step_handle:
  "agent_step env active schemas sampling (st, ad) r \<longleftrightarrow>
   st \<noteq> Terminated \<and> handle_state env active schemas sampling st ad = Inr r"
  by (cases st) (auto simp: handle_state_def intro: agent_step.intros elim: agent_stepE)

lemma state_loop_Suc:
  "st \<noteq> Terminated \<Longrightarrow> state_loop env active schemas sampling (Suc fuel) st ad =
     (case handle_state env active schemas sampling st ad of
        Inl e \<Rightarrow> Some (Inl e)
      | Inr (st', ad') \<Rightarrow> state_loop env active schemas sampling fuel st' ad')"
  by (cases st) simp_all

lemma state_loop_0: "st \<noteq> Terminated \<Longrightarrow> state_loop env active schemas sampling 0 st ad = None"
  by (cases st) simp_all

lemma state_loop_reach:
  "state_loop env active schemas sampling fuel st ad = Some (Inr ad') \<Longrightarrow>
   agent_reach env active schemas sampling ad0 (st, ad) \<Longrightarrow>
   agent_reach env active schemas sampling ad0 (Terminated, ad')"
proof (induction fuel arbitrary: st ad)
  case 0
  then show ?case by (cases "st = Terminated") (simp_all add: state_loop_0)
next
  case (Suc fuel)
  show ?case
  proof (cases "st = Terminated")
    case True
    then show ?thesis using Suc.prems by simp
  next
    case False
    with Suc.prems(1) obtain st1 ad1 where h: "handle_state env active schemas sampling st ad = Inr (st1, ad1)"
      "state_loop env active schemas sampling fuel st1 ad1 = Some (Inr ad')"
      by (auto simp: state_loop_Suc split: sum.splits)
    then have "agent_reach env active schemas sampling ad0 (st1, ad1)"
      using False Suc.prems(2) by (auto intro: agent_reach.step simp: agent_step_handle)
    then show ?thesis by (rule Suc.IH [OF h(2)])
  qed
qed

end
