(* ===== verification/AgentLoopSafety.thy ===== *)
theory AgentLoopSafety
  imports AgentLoop
begin

text \<open>
  What the tool agent loop promises: prompt, response, mask and log-probabilities stay aligned, the
  token and turn budgets hold, the loop ends, and the returned output is consistent.
\<close>

subsection \<open>What each step keeps\<close>

text \<open>
  The documented behaviour of the LLM server on which alignment rests: every answer has at least
  one token, and log-probabilities come for all tokens of all answers or for none.
\<close>

definition gen_ok :: "loop_env \<Rightarrow> bool \<Rightarrow> bool" where
  "gen_ok env lp \<longleftrightarrow> (\<forall>ad sp out. le_generate env ad sp = Inr out \<longrightarrow> token_ids out \<noteq> [] \<and>
     (if lp then (\<exists>l. log_probs out = Some l \<and> length l = length (token_ids out))
      else log_probs out \<in> {None, Some []}))"

definition ad_aligned :: "bool \<Rightarrow> int list \<Rightarrow> agent_data \<Rightarrow> bool" where
  "ad_aligned lp p ad \<longleftrightarrow> (\<exists>r. ad_prompt_ids ad = p @ r \<and> length (ad_response_mask ad) = length r \<and>
     length (ad_response_logprobs ad) = (if lp then length r else 0))"

lemma record_output_keeps:
  assumes "record_output out ad = Inr ad'"
  shows "ad_prompt_ids ad' = ad_prompt_ids ad \<and> ad_response_mask ad' = ad_response_mask ad \<and>
    ad_response_logprobs ad' = ad_response_logprobs ad \<and> ad_trajectory_events ad' = ad_trajectory_events ad \<and>
    ad_assistant_turns ad' = ad_assistant_turns ad + 1 \<and>
    ad_assistant_response_tokens ad' = ad_assistant_response_tokens ad + length (token_ids out) \<and>
    ad_user_turns ad' = ad_user_turns ad"
  using assms by (auto simp: record_output_def rbind_Inr_iff)

lemma append_generated_result:
  assumes "append_generated env out ad = Inr ad'" "ad_aligned lp p ad"
    and "if lp then (\<exists>l. log_probs out = Some l \<and> length l = length (token_ids out)) else log_probs out \<in> {None, Some []}"
    and "token_ids out \<noteq> []"
  shows "ad_aligned lp p ad' \<and> ad_response_mask ad' = ad_response_mask ad @ replicate (length (token_ids out)) 1 \<and>
    ad_prompt_ids ad' = ad_prompt_ids ad @ token_ids out \<and>
    ad_trajectory_events ad' = ad_trajectory_events ad \<and> ad_assistant_turns ad' = ad_assistant_turns ad \<and>
    ad_assistant_response_tokens ad' = ad_assistant_response_tokens ad \<and> ad_user_turns ad' = ad_user_turns ad"
proof -
  from assms(2) obtain r where r: "ad_prompt_ids ad = p @ r" "length (ad_response_mask ad) = length r"
    "length (ad_response_logprobs ad) = (if lp then length r else 0)" by (auto simp: ad_aligned_def)
  show ?thesis
  proof (cases lp)
    case True
    with assms(3,4) obtain l x xs where l: "log_probs out = Some l" "length l = length (token_ids out)" "l = x # xs"
      by (cases "the (log_probs out)") auto
    show ?thesis
      using assms(1) True r l unfolding ad_aligned_def
      by (auto simp: append_generated_def nonempty_logprobs_def ct_merge_assistant_token_def merge_assistant_tokens_def
          align_response_metadata_def drop_last_def Let_def rbind_Inr_iff split: if_splits intro!: exI [of _ "r @ token_ids out"])
  next
    case False
    with assms(3) have l: "nonempty_logprobs (log_probs out) = None" by (auto simp: nonempty_logprobs_def)
    show ?thesis
      using assms(1) False r l unfolding ad_aligned_def
      by (auto simp: append_generated_def ct_merge_assistant_token_def merge_assistant_tokens_def
          align_response_metadata_def drop_last_def Let_def rbind_Inr_iff split: if_splits intro!: exI [of _ "r @ token_ids out"])
  qed
qed

lemma slice_assign_length:
  assumes "start + n \<le> length xs"
  shows "length (slice_assign xs (int start) (int (start + n)) (replicate n y)) = length xs"
  using assms by (simp add: slice_assign_def slice_index_def Let_def)

lemma observe_response_keeps:
  assumes "start + n \<le> length (ad_response_mask ad)" "ad' = observe_response env start n decoded ad"
  shows "length (ad_response_mask ad') = length (ad_response_mask ad) \<and> ad_prompt_ids ad' = ad_prompt_ids ad \<and>
    ad_response_logprobs ad' = ad_response_logprobs ad \<and> ad_assistant_turns ad' = ad_assistant_turns ad \<and>
    ad_assistant_response_tokens ad' = ad_assistant_response_tokens ad \<and> ad_user_turns ad' = ad_user_turns ad"
proof -
  have "length (slice_assign (ad_response_mask ad) (int start) (int start + int n) (replicate n 0)) = length (ad_response_mask ad)"
    using slice_assign_length [OF assms(1)] by simp
  then show ?thesis
    unfolding assms(2) observe_response_def Let_def
    by (simp add: record_fields)
qed


lemma observe_response_starts:
  assumes "starts_ok ad"
  shows "starts_ok (observe_response env start n decoded ad)"
proof -
  let ?r = "nanoclaw_record_bad_turn_span ad (int (ad_assistant_turns ad)) ''looping_response'' (int start) (int (start + n))
    (bool_env env ''NANOCLAW_MASK_LOOPING_RESPONSES'' False)"
  let ?a1 = "if 0 < nanoclaw_looping_response_repeat_count decoded (loop_min_chars env) (loop_min_repeats env) then ?r else ad"
  have "\<exists>e. ad_trajectory_events (observe_response env start n decoded ad) = ad_trajectory_events ?a1 @ [e] \<and>
      pget e ''response_start'' = pnat start"
    by (simp add: observe_response_def Let_def pget_def dict_get_default_def del: of_nat_add)
  then obtain a1 e where a: "ad_trajectory_events (observe_response env start n decoded ad) = ad_trajectory_events a1 @ [e]"
    "a1 \<in> {ad, ?r}" "pget e ''response_start'' = pnat start"
    by (cases "0 < nanoclaw_looping_response_repeat_count decoded (loop_min_chars env) (loop_min_repeats env)") auto
  then have "starts_ok a1" using assms starts_ok_same [OF record_events] by auto
  then show ?thesis using a(1,3) by (simp add: starts_ok_def as_int_def pnat_def)
qed

lemma gather_calls_keeps:
  "gather_calls env active ad calls = (rets, ad', tr) \<Longrightarrow>
   (\<exists>extra. ad' = ad\<lparr>ad_extra_fields := extra\<rparr>) \<and> length rets = length calls"
proof (induction calls arbitrary: ad rets ad' tr)
  case Nil
  then show ?case by (intro conjI exI [of _ "ad_extra_fields ad"]) simp_all
next
  case (Cons c cs)
  from Cons.prems obtain ret extra tr1 rets1 tr2 where
    "call_tool env active ad c = (ret, extra, tr1)"
    and g: "gather_calls env active (ad\<lparr>ad_extra_fields := extra\<rparr>) cs = (rets1, ad', tr2)" "rets = ret # rets1"
    by (auto split: prod.splits)
  from Cons.IH [OF g(1)] g(2) show ?case by auto
qed

definition same_tokens :: "agent_data \<Rightarrow> agent_data \<Rightarrow> bool" where
  "same_tokens ad ad' \<longleftrightarrow> ad_prompt_ids ad' = ad_prompt_ids ad \<and> ad_response_mask ad' = ad_response_mask ad \<and>
     ad_response_logprobs ad' = ad_response_logprobs ad \<and> ad_assistant_turns ad' = ad_assistant_turns ad \<and>
     ad_assistant_response_tokens ad' = ad_assistant_response_tokens ad \<and> ad_user_turns ad' = ad_user_turns ad \<and>
     (starts_ok ad \<longrightarrow> starts_ok ad')"

lemma process_response_keeps:
  "process_response env acc p = Inr acc' \<Longrightarrow> same_tokens (ta_data acc) (ta_data acc')"
  by (auto simp: process_response_def rbind_Inr_iff same_tokens_def starts_ok_def event_type_def pget_def
      dict_get_default_def Let_def split: prod.splits if_splits)

lemma process_responses_keep:
  "rfold (process_response env) acc ps = Inr acc' \<Longrightarrow> same_tokens (ta_data acc) (ta_data acc')"
proof (induction ps arbitrary: acc)
  case (Cons p ps)
  then obtain a1 where a: "process_response env acc p = Inr a1" "rfold (process_response env) a1 ps = Inr acc'"
    by (auto simp: rbind_Inr_iff)
  from process_response_keeps [OF a(1)] Cons.IH [OF a(2)] show ?case by (simp add: same_tokens_def)
qed (simp add: same_tokens_def)

lemma tools_outcome:
  assumes "handle_processing_tools env active schemas ad = Inr (st, ad')"
  obtains ad2 where "same_tokens ad ad2"
    and "(\<exists>prev. lc_enable_continuous_token (le_config env) \<and> merge_tool_messages env schemas prev ad2 = Inr (st, ad')) \<or>
      (\<exists>ids images. append_tool_tokens env ids images ad2 = Inr (st, ad'))"
proof -
  let ?calls = "take (lc_max_parallel_calls (le_config env)) (ad_tool_calls ad)"
  obtain rets ad1 tr where g: "gather_calls env active (ad\<lparr>ad_tool_call_count := ad_tool_call_count ad + length ?calls\<rparr>) ?calls = (rets, ad1, tr)"
    by (metis prod.collapse)
  from assms g obtain acc where acc: "rfold (process_response env) \<lparr>ta_messages = [], ta_images = [], ta_data = ad1\<rparr> (zip ?calls rets) = Inr acc"
    by (auto simp: handle_processing_tools_def rbind_Inr_iff Let_def)
  let ?ad2 = "(ta_data acc)\<lparr>ad_messages := ad_messages (ta_data acc) @ ta_messages acc\<rparr>"
  have "same_tokens ad ad1" using gather_calls_keeps [OF g] by (auto simp: same_tokens_def starts_ok_def)
  then have s: "same_tokens ad ?ad2"
    using process_responses_keep [OF acc] by (auto simp: same_tokens_def starts_ok_def)
  show ?thesis
  proof (rule that [OF s])
    show "(\<exists>prev. lc_enable_continuous_token (le_config env) \<and> merge_tool_messages env schemas prev ?ad2 = Inr (st, ad')) \<or>
      (\<exists>ids images. append_tool_tokens env ids images ?ad2 = Inr (st, ad'))"
      using assms g acc by (auto simp: handle_processing_tools_def rbind_Inr_iff Let_def split: if_splits)
  qed
qed


subsection \<open>Alignment\<close>

lemma merge_tool_messages_result:
  assumes "merge_tool_messages env schemas prev ad = Inr (st, ad')" "ad_aligned lp p ad" "ad_response_mask ad \<noteq> []"
  shows "ad_aligned lp p ad' \<and> ad_trajectory_events ad' = ad_trajectory_events ad \<and>
    ad_assistant_turns ad' = ad_assistant_turns ad \<and> ad_assistant_response_tokens ad' = ad_assistant_response_tokens ad \<and>
    (st = Generating \<and> length (ad_response_mask ad') < lc_response_length (le_config env) \<or>
     st = Terminated \<and> ad_response_mask ad' = ad_response_mask ad)"
proof -
  let ?lps = "if ad_response_logprobs ad \<noteq> [] then Some (ad_response_logprobs ad) else None"
  from assms(1) obtain mr msk ls where m: "ct_merge_non_assistant_msg (le_builder env) prev (ad_messages ad) (ad_prompt_ids ad)
      (ad_response_mask ad) ?lps schemas = Inr (mr, msk, ls)"
    by (auto simp: merge_tool_messages_def rbind_Inr_iff)
  from assms(2) obtain r where r: "ad_prompt_ids ad = p @ r" "length (ad_response_mask ad) = length r"
    "length (ad_response_logprobs ad) = (if lp then length r else 0)" by (auto simp: ad_aligned_def)
  have ne: "r \<noteq> []" using assms(3) r(2) by auto
  let ?s = "\<lparr>cr_ids = ad_prompt_ids ad, cr_mask = ad_response_mask ad, cr_logprobs = ?lps\<rparr>"
  have "ct_step (le_builder env) schemas ?s (Appended prev (ad_messages ad)) =
      Inr \<lparr>cr_ids = mr_token_ids mr, cr_mask = msk, cr_logprobs = ls\<rparr>"
    using m by (simp add: ct_step_def)
  from ct_step_appended [OF this, unfolded ct_run.simps] obtain n new where
    n0: "n = (if ad_prompt_ids ad \<noteq> [] \<and> last (ad_prompt_ids ad) \<in> boundary_ids (le_builder env) then 1 else 0)"
    and ids: "mr_token_ids mr = drop_last n (ad_prompt_ids ad) @ new"
    and msk: "msk = drop_last n (ad_response_mask ad) @ replicate (length new) 0"
    and ls: "ls = map_option (\<lambda>l. drop_last n l @ replicate (length new) 0) ?lps"
    by metis
  from n0 have n: "n \<le> 1" by simp
  have nr: "n \<le> length r" using n ne by (cases r) auto
  show ?thesis
  proof (cases "lc_response_length (le_config env) \<le> length msk")
    case True
    then show ?thesis using assms(1,2) m by (auto simp: merge_tool_messages_def terminate_with_def ad_aligned_def)
  next
    case False
    have ad': "ad' = ad\<lparr>ad_prompt_ids := mr_token_ids mr, ad_response_mask := msk,
        ad_response_logprobs := (if ad_response_logprobs ad \<noteq> [] then (case ls of None \<Rightarrow> [] | Some l \<Rightarrow> l) else ad_response_logprobs ad),
        ad_user_turns := ad_user_turns ad + 1\<rparr>" and st: "st = Generating"
      using assms(1) m False by (auto simp: merge_tool_messages_def)
    have "mr_token_ids mr = p @ (drop_last n r @ new)" using ids r(1) nr by (simp add: drop_last_append)
    moreover have "length msk = length (drop_last n r @ new)" using msk r(2) by simp
    moreover have "length (ad_response_logprobs ad') = (if lp then length (drop_last n r @ new) else 0)"
      using ls r(3) ne by (auto simp: ad')
    ultimately have "ad_aligned lp p ad'" unfolding ad_aligned_def by (intro exI [of _ "drop_last n r @ new"]) (simp add: ad')
    then show ?thesis using False st by (simp add: ad')
  qed
qed

lemma append_tool_tokens_result:
  assumes "append_tool_tokens env ids images ad = Inr (st, ad')" "ad_aligned lp p ad" "ad_response_mask ad \<noteq> []"
  shows "ad_aligned lp p ad' \<and> ad_trajectory_events ad' = ad_trajectory_events ad \<and>
    ad_assistant_turns ad' = ad_assistant_turns ad \<and> ad_assistant_response_tokens ad' = ad_assistant_response_tokens ad \<and>
    (st = Generating \<and> length (ad_response_mask ad') < lc_response_length (le_config env) \<or>
     st = Terminated \<and> ad_response_mask ad' = ad_response_mask ad)"
proof -
  from assms(2) obtain r where r: "ad_prompt_ids ad = p @ r" "length (ad_response_mask ad) = length r"
    "length (ad_response_logprobs ad) = (if lp then length r else 0)" by (auto simp: ad_aligned_def)
  show ?thesis
  proof (cases "lc_response_length (le_config env) \<le> length (ad_response_mask ad) + length ids")
    case True
    then show ?thesis using assms(1,2) by (auto simp: append_tool_tokens_def terminate_with_def ad_aligned_def)
  next
    case False
    moreover from False assms(1) have "ad_prompt_ids ad' = p @ (r @ ids)" "length (ad_response_mask ad') = length (r @ ids)"
      "length (ad_response_logprobs ad') = (if lp then length (r @ ids) else 0)"
      using r assms(3) by (auto simp: append_tool_tokens_def)
    then have "ad_aligned lp p ad'" unfolding ad_aligned_def by blast
    ultimately show ?thesis using assms(1) by (auto simp: append_tool_tokens_def)
  qed
qed

definition turn_state_ok :: "bool \<Rightarrow> int list \<Rightarrow> agent_state \<Rightarrow> agent_data \<Rightarrow> bool" where
  "turn_state_ok lp p st ad \<longleftrightarrow> ad_aligned lp p ad \<and> starts_ok ad \<and>
     (st = ProcessingTools \<longrightarrow> ad_response_mask ad \<noteq> [])"

lemma same_tokens_aligned: "same_tokens ad ad' \<Longrightarrow> ad_aligned lp p ad' = ad_aligned lp p ad"
  by (simp add: same_tokens_def ad_aligned_def)

lemma tools_keep_aligned:
  assumes "handle_processing_tools env active schemas ad = Inr (st, ad')" "turn_state_ok lp p ProcessingTools ad"
  shows "turn_state_ok lp p st ad' \<and> ad_assistant_turns ad' = ad_assistant_turns ad \<and>
    ad_assistant_response_tokens ad' = ad_assistant_response_tokens ad \<and>
    (st = Generating \<and> length (ad_response_mask ad') < lc_response_length (le_config env) \<or>
     st = Terminated \<and> ad_response_mask ad' = ad_response_mask ad)"
proof -
  from tools_outcome [OF assms(1)] obtain ad2 where s: "same_tokens ad ad2" and
    o: "(\<exists>prev. lc_enable_continuous_token (le_config env) \<and> merge_tool_messages env schemas prev ad2 = Inr (st, ad')) \<or>
      (\<exists>ids images. append_tool_tokens env ids images ad2 = Inr (st, ad'))" .
  have a: "ad_aligned lp p ad2" "starts_ok ad2" "ad_response_mask ad2 \<noteq> []"
    using assms(2) s same_tokens_aligned [OF s, of lp p] by (auto simp: turn_state_ok_def same_tokens_def)
  have r: "ad_aligned lp p ad' \<and> ad_trajectory_events ad' = ad_trajectory_events ad2 \<and>
    ad_assistant_turns ad' = ad_assistant_turns ad2 \<and> ad_assistant_response_tokens ad' = ad_assistant_response_tokens ad2 \<and>
    (st = Generating \<and> length (ad_response_mask ad') < lc_response_length (le_config env) \<or>
     st = Terminated \<and> ad_response_mask ad' = ad_response_mask ad2)"
    using o merge_tool_messages_result [OF _ a(1) a(3)] append_tool_tokens_result [OF _ a(1) a(3)] by blast
  moreover have "starts_ok ad'" using r a(2) by (simp add: starts_ok_def)
  ultimately show ?thesis using s by (auto simp: turn_state_ok_def same_tokens_def)
qed


lemma extract_calls_outcome:
  assumes "extract_calls env active ad = Inr (st, ad')"
  shows "\<exists>calls messages. (st, ad') = (ProcessingTools, ad\<lparr>ad_tool_calls := calls, ad_messages := messages\<rparr>) \<or>
    (st, ad') = (Terminated, ad\<lparr>ad_tool_calls := calls, ad_messages := messages, ad_termination_reason := ''completed_no_tool_call''\<rparr>)"
proof -
  from assms obtain content calls messages where
    "(if calls \<noteq> [] then Inr (ProcessingTools, ad\<lparr>ad_tool_calls := calls, ad_messages := messages\<rparr>)
      else terminate_with ''completed_no_tool_call'' (ad\<lparr>ad_tool_calls := calls, ad_messages := messages\<rparr>)) = Inr (st, ad')"
    unfolding extract_calls_def rbind_Inr_iff Let_def by (auto simp only: prod.case rbind_Inr_iff)
  then show ?thesis by (intro exI [of _ calls] exI [of _ messages]) (auto simp: terminate_with_def split: if_splits)
qed

text \<open>
  What a generating step does: it stops before calling the model, or it appends the generated
  tokens to a state \<open>a4\<close> and stops, finishes, or goes on to the tools.
\<close>

lemma generating_outcome:
  assumes "handle_generating env active sampling ig ad = Inr (st, ad')"
  obtains (stopped) reason where "budget_check (le_config env) ig ad (with_stop_tokens env sampling) = Inl reason"
      "st = Terminated" "ad' = ad\<lparr>ad_termination_reason := reason\<rparr>"
  | (generated) sp out ad1 ad2 a4 where
      "budget_check (le_config env) ig ad (with_stop_tokens env sampling) = Inr (Inr sp)"
      "le_generate env ad sp = Inr out" "record_output out ad = Inr ad1" "append_generated env out ad1 = Inr ad2"
      "a4 = observe_response (le_env env) (length (ad_response_mask ad)) (length (token_ids out)) (le_decode env (token_ids out))
         (case routed_experts out of None \<Rightarrow> ad2 | Some r \<Rightarrow> ad2\<lparr>ad_routed_experts := PList r\<rparr>)"
      "(st = Terminated \<or> st = ProcessingTools \<and> stop_reason_after (le_config env) ig a4 = None)"
      "\<exists>tr tc ms. ad' = a4\<lparr>ad_termination_reason := tr, ad_tool_calls := tc, ad_messages := ms\<rparr>"
proof (cases "budget_check (le_config env) ig ad (with_stop_tokens env sampling)")
  case (Inl reason)
  then show ?thesis using assms by (intro stopped) (auto simp: handle_generating_def terminate_with_def)
next
  case (Inr params)
  with assms obtain sp out ad1 ad2 where p: "params = Inr sp" "le_generate env ad sp = Inr out"
    "record_output out ad = Inr ad1" "append_generated env out ad1 = Inr ad2"
    by (auto simp: handle_generating_def rbind_Inr_iff Let_def)
  define a4 where "a4 = observe_response (le_env env) (length (ad_response_mask ad)) (length (token_ids out)) (le_decode env (token_ids out))
         (case routed_experts out of None \<Rightarrow> ad2 | Some r \<Rightarrow> ad2\<lparr>ad_routed_experts := PList r\<rparr>)"
  have h: "(case stop_reason_after (le_config env) ig a4 of
                Some reason \<Rightarrow> terminate_with reason a4
              | None \<Rightarrow> extract_calls env active a4) = Inr (st, ad')"
    unfolding a4_def using assms Inr p by (simp add: handle_generating_def Let_def)
  have same: "a4 = a4\<lparr>ad_termination_reason := ad_termination_reason a4, ad_tool_calls := ad_tool_calls a4, ad_messages := ad_messages a4\<rparr>"
    by simp
  have o: "(st = Terminated \<or> st = ProcessingTools \<and> stop_reason_after (le_config env) ig a4 = None) \<and>
      (\<exists>tr tc ms. ad' = a4\<lparr>ad_termination_reason := tr, ad_tool_calls := tc, ad_messages := ms\<rparr>)"
  proof (cases "stop_reason_after (le_config env) ig a4")
    case None
    with h have "extract_calls env active a4 = Inr (st, ad')" by simp
    from extract_calls_outcome [OF this] obtain calls messages where "(st, ad') = (ProcessingTools, a4\<lparr>ad_tool_calls := calls, ad_messages := messages\<rparr>) \<or>
        (st, ad') = (Terminated, a4\<lparr>ad_tool_calls := calls, ad_messages := messages, ad_termination_reason := ''completed_no_tool_call''\<rparr>)"
      by blast
    then show ?thesis using None
      by (elim disjE) (simp; intro exI [of _ "ad_termination_reason ad'"] exI [of _ calls] exI [of _ messages]; simp)+
  next
    case (Some reason)
    with h have "st = Terminated" "ad' = a4\<lparr>ad_termination_reason := reason\<rparr>" by (auto simp: terminate_with_def)
    then show ?thesis
      by (intro conjI disjI1 exI [of _ reason] exI [of _ "ad_tool_calls a4"] exI [of _ "ad_messages a4"]) simp_all
  qed
  show ?thesis using Inr p(1) by (intro generated [OF _ p(2-4) a4_def]) (use o in auto)
qed

lemma ad_aligned_cong:
  "ad_aligned lp p ad \<Longrightarrow> ad_prompt_ids ad' = ad_prompt_ids ad \<Longrightarrow>
   length (ad_response_mask ad') = length (ad_response_mask ad) \<Longrightarrow>
   ad_response_logprobs ad' = ad_response_logprobs ad \<Longrightarrow> ad_aligned lp p ad'"
  by (simp add: ad_aligned_def)

lemma generating_keeps_aligned:
  assumes h: "handle_generating env active sampling ig ad = Inr (st, ad')"
    and inv: "ad_aligned lp p ad" "starts_ok ad" and gen: "gen_ok env lp"
  shows "ad_aligned lp p ad' \<and> starts_ok ad' \<and> (st = ProcessingTools \<longrightarrow> ad_response_mask ad' \<noteq> []) \<and> st \<noteq> Pending \<and>
    (st = Terminated \<and> length (ad_response_mask ad') = length (ad_response_mask ad) \<and>
       ad_assistant_response_tokens ad' = ad_assistant_response_tokens ad \<or>
     (\<exists>sp out. budget_check (le_config env) ig ad (with_stop_tokens env sampling) = Inr (Inr sp) \<and>
        le_generate env ad sp = Inr out \<and>
        length (ad_response_mask ad') = length (ad_response_mask ad) + length (token_ids out) \<and>
        ad_assistant_response_tokens ad' = ad_assistant_response_tokens ad + length (token_ids out)))"
  using h
proof (cases rule: generating_outcome)
  case (stopped reason)
  then show ?thesis using inv by (simp add: ad_aligned_def starts_ok_def)
next
  case (generated sp out ad1 ad2 a4)
  note rec = record_output_keeps [OF generated(3)]
  have g: "token_ids out \<noteq> []" "if lp then (\<exists>l. log_probs out = Some l \<and> length l = length (token_ids out)) else log_probs out \<in> {None, Some []}"
    using gen generated(2) unfolding gen_ok_def by blast+
  have al1: "ad_aligned lp p ad1" using inv(1) rec by (simp add: ad_aligned_def)
  note ap = append_generated_result [OF generated(4) al1 g(2,1)]
  define a3 where "a3 = (case routed_experts out of None \<Rightarrow> ad2 | Some r \<Rightarrow> ad2\<lparr>ad_routed_experts := PList r\<rparr>)"
  have a3: "ad_prompt_ids a3 = ad_prompt_ids ad2" "ad_response_mask a3 = ad_response_mask ad2"
    "ad_response_logprobs a3 = ad_response_logprobs ad2" "ad_trajectory_events a3 = ad_trajectory_events ad2"
    "ad_assistant_response_tokens a3 = ad_assistant_response_tokens ad2"
    by (simp_all add: a3_def split: option.splits)
  have "length (ad_response_mask ad) + length (token_ids out) \<le> length (ad_response_mask a3)"
    using ap rec by (simp add: a3)
  note ob = observe_response_keeps [OF this, OF generated(5) [folded a3_def]]
  have len: "length (ad_response_mask a4) = length (ad_response_mask ad) + length (token_ids out)"
    "ad_assistant_response_tokens a4 = ad_assistant_response_tokens ad + length (token_ids out)"
    using ob ap rec a3 by simp_all
  have al4: "ad_aligned lp p a4"
    by (rule ad_aligned_cong [OF conjunct1 [OF ap]]) (use ob a3 in simp_all)
  have "starts_ok a3" using ap rec a3 inv(2) by (simp add: starts_ok_def)
  then have st4: "starts_ok a4" using generated(5) observe_response_starts unfolding a3_def [symmetric] by simp
  from generated(7) obtain tr tc ms where ad': "ad' = a4\<lparr>ad_termination_reason := tr, ad_tool_calls := tc, ad_messages := ms\<rparr>" by blast
  have "ad_response_mask a4 \<noteq> []" using len(1) g(1) by auto
  moreover have "\<exists>sp out. budget_check (le_config env) ig ad (with_stop_tokens env sampling) = Inr (Inr sp) \<and>
        le_generate env ad sp = Inr out \<and> length (ad_response_mask ad') = length (ad_response_mask ad) + length (token_ids out) \<and>
        ad_assistant_response_tokens ad' = ad_assistant_response_tokens ad + length (token_ids out)"
    using generated(1,2) len by (intro exI [of _ sp] exI [of _ out]) (simp add: ad')
  moreover have "st \<noteq> Pending" using generated(6) by auto
  ultimately show ?thesis using al4 st4 by (simp add: ad' ad_aligned_def starts_ok_def)
qed

lemma handle_pending_result:
  "handle_pending env schemas ad = Inr (st, ad') \<Longrightarrow> st = Generating \<and> (\<exists>p. ad' = ad\<lparr>ad_prompt_ids := p\<rparr>)"
  by (auto simp: handle_pending_def rbind_Inr_iff)

definition fresh_data :: "agent_data \<Rightarrow> bool" where
  "fresh_data ad \<longleftrightarrow> ad_response_mask ad = [] \<and> ad_response_logprobs ad = [] \<and> ad_trajectory_events ad = [] \<and>
     ad_assistant_turns ad = 0 \<and> ad_assistant_response_tokens ad = 0"

text \<open>The prompt that the pending state renders.\<close>

definition initial_prompt :: "loop_env \<Rightarrow> pyval \<Rightarrow> agent_data \<Rightarrow> int list result" where
  "initial_prompt env schemas ad0 = map_sum id (\<lambda>r. ad_prompt_ids (snd r)) (handle_pending env schemas ad0)"

lemma reach_aligned:
  assumes gen: "gen_ok env lp" and fresh: "fresh_data ad0"
  shows "agent_reach env active schemas sampling ad0 s \<Longrightarrow>
    s = (Pending, ad0) \<or> fst s \<noteq> Pending \<and>
      (\<exists>p. initial_prompt env schemas ad0 = Inr p \<and> turn_state_ok lp p (fst s) (snd s))"
proof (induction rule: agent_reach.induct)
  case (step s s')
  from step.hyps(2) show ?case
  proof (cases rule: agent_step.cases)
    case (prepare ad)
    with step.IH have ad: "ad = ad0" by auto
    obtain st ad' where s': "s' = (st, ad')" by (cases s')
    from handle_pending_result [OF prepare(2) [unfolded s']] obtain p where
      p: "st = Generating" "ad' = ad0\<lparr>ad_prompt_ids := p\<rparr>" by (auto simp: ad)
    have "turn_state_ok lp p Generating ad'"
      using fresh by (simp add: p turn_state_ok_def ad_aligned_def starts_ok_def fresh_data_def)
    moreover have "initial_prompt env schemas ad0 = Inr p"
      using prepare(2) by (simp add: initial_prompt_def s' ad p)
    ultimately show ?thesis by (simp add: s' p(1))
  next
    case (generate ad)
    with step.IH obtain p where p: "initial_prompt env schemas ad0 = Inr p" "turn_state_ok lp p Generating ad" by auto
    obtain st ad' where s': "s' = (st, ad')" by (cases s')
    have "st \<noteq> Pending" using generate(2) unfolding s' by (cases rule: generating_outcome) auto
    moreover have "turn_state_ok lp p st ad'"
      using generating_keeps_aligned [OF generate(2) [unfolded s'] _ _ gen, of p] p(2) by (simp add: turn_state_ok_def)
    ultimately show ?thesis using p(1) by (simp add: s')
  next
    case (use_tools ad)
    with step.IH obtain p where p: "initial_prompt env schemas ad0 = Inr p" "turn_state_ok lp p ProcessingTools ad" by auto
    obtain st ad' where s': "s' = (st, ad')" by (cases s')
    have "turn_state_ok lp p st ad' \<and> st \<noteq> Pending"
      using tools_keep_aligned [OF use_tools(2) [unfolded s'] p(2)] by auto
    then show ?thesis using p(1) by (simp add: s')
  qed
qed simp

lemma state_loop_turn_ok:
  assumes "gen_ok env lp" "fresh_data ad0" "state_loop env active schemas sampling fuel Pending ad0 = Some (Inr ad)"
  shows "\<exists>p. initial_prompt env schemas ad0 = Inr p \<and> turn_state_ok lp p Terminated ad"
proof -
  have "agent_reach env active schemas sampling ad0 (Terminated, ad)"
    using state_loop_reach [OF assms(3) agent_reach.start] .
  from reach_aligned [OF assms(1,2) this] show ?thesis by auto
qed

lemma run_init_fresh: "run_init env args = Inr ad \<Longrightarrow> fresh_data ad"
  by (auto simp: run_init_def rbind_Inr_iff Let_def fresh_data_def agent_data_init_def)

definition run_active :: "loop_env \<Rightarrow> run_args \<Rightarrow> (string, tool) dict" where
  "run_active env args = select_tools (le_tools env) (pget (ra_extra_info args) ''tool_selection'')"

definition run_schemas :: "loop_env \<Rightarrow> run_args \<Rightarrow> pyval" where
  "run_schemas env args = PList (map tl_schema (dict_values (run_active env args)))"

lemma tool_agent_run_result:
  assumes "tool_agent_run env sampling fuel args = Some (Inr (out, docs))"
  obtains ad0 ad where "run_init env args = Inr ad0"
    "state_loop env (run_active env args) (run_schemas env args) sampling fuel Pending ad0 = Some (Inr ad)"
    "out = finalize_output (le_config env) (nanoclaw_apply_posthoc_turn_masks (le_env env) (le_frepr env) ad)"
  using assms
  by (auto simp: tool_agent_run_def run_schemas_def run_active_def Let_def split: sum.splits option.splits)

lemma finalize_aligned:
  assumes "ad_prompt_ids ad = p @ r" "length (ad_response_mask ad) = length r" "r \<noteq> []"
  shows "lo_prompt_ids (finalize_output cfg ad) = p"
    "lo_response_ids (finalize_output cfg ad) = take (lc_response_length cfg) r"
  using assms by (simp_all add: finalize_output_def Let_def slice_index_def take_last_def)

lemma same_rest_fields:
  "same_rest ad ad' \<Longrightarrow> ad_prompt_ids ad' = ad_prompt_ids ad \<and> ad_response_logprobs ad' = ad_response_logprobs ad"
  by (auto simp: same_rest_def)


text \<open>
  A concrete environment: the model calls the tool \<open>echo\<close> in its first turn and answers in the
  second; a template with one token per message.
\<close>

definition example_config :: loop_config where
  "example_config = \<lparr>lc_max_user_turns = 0, lc_max_assistant_turns = 3, lc_max_assistant_response_length = None,
     lc_max_parallel_calls = 1, lc_max_tool_response_length = 64, lc_tool_response_truncate_side = ''left'',
     lc_prompt_length = 8, lc_response_length = 16, lc_enable_continuous_token = False,
     lc_tool_parser_name = ''hermes'', lc_stop_token_ids = []\<rparr>"

definition example_generate :: "agent_data \<Rightarrow> message \<Rightarrow> pyval token_output result" where
  "example_generate ad sampling = Inr \<lparr>token_ids = (if ad_assistant_turns ad = 0 then [11, 12] else [13]),
     log_probs = Some (if ad_assistant_turns ad = 0 then [-1, -1] else [-2]), routed_experts = None,
     stop_reason = Some ''completed'', num_preempted = None, extra_fields = [(''min_global_steps'', Some 4)]\<rparr>"

definition echo_tool :: tool where
  "echo_tool = \<lparr>tl_schema = PStr ''echo'', tl_impl = BaseTool (\<lambda>_. Inr ''i0'')
     (\<lambda>i args ad. (Inr (text_response ''hello'', PFloat 1, PDict []), ad_extra_fields ad))\<rparr>"

definition example_env :: loop_env where
  "example_env = \<lparr>le_config = example_config, le_tools = [(''echo'', echo_tool)], le_builder = toy_builder Base,
     le_generate = example_generate, le_template = (\<lambda>ms tools images. Inr (map (\<lambda>m. 20 + int (length m)) ms)),
     le_system_prompt = [], le_turn_separator = [5], le_encode = (\<lambda>s. [6]), le_decode = (\<lambda>ids. ''ok''),
     le_extract_tool_calls = (\<lambda>ids tools. Inr ('''', if ids = [11, 12]
       then [\<lparr>fc_name = ''echo'', fc_arguments = ''{}'', fc_tool_call_id = None\<rparr>] else [])),
     le_json_loads = (\<lambda>s. if s = ''{}'' then Inr (PDict []) else Inl ''bad''), le_image_processor = False,
     le_set_order = (\<lambda>xs. xs), le_env = (\<lambda>_. None), le_frepr = (\<lambda>_. '''')\<rparr>"

definition example_args :: run_args where
  "example_args = \<lparr>ra_raw_prompt = [toy_msg ''system'', toy_msg ''user''], ra_images = PNone, ra_videos = PNone,
     ra_audios = PNone, ra_mm_processor_kwargs = [], ra_tools_kwargs = PDict [], ra_extra_info = [], ra_trajectory = [],
     ra_data_source = PStr ''d'', ra_index = PInt 0, ra_request_id = ''r'', ra_now = '''', ra_elapsed = 0\<rparr>"

lemma example_gen_ok: "gen_ok example_env True"
  by (auto simp: gen_ok_def example_env_def example_generate_def)


subsection \<open>Budgets\<close>

text \<open>
  The documented meaning of \<open>max_tokens\<close>: the server returns no more tokens.  The sampling
  parameters either leave it open or ask for at least one.
\<close>

definition gen_respects :: "loop_env \<Rightarrow> bool" where
  "gen_respects env \<longleftrightarrow> (\<forall>ad sp out n. le_generate env ad sp = Inr out \<longrightarrow> pget sp ''max_tokens'' = PInt n \<longrightarrow> 1 \<le> n \<longrightarrow>
     int (length (token_ids out)) \<le> n)"

definition sampling_ok :: "message \<Rightarrow> bool" where
  "sampling_ok sampling \<longleftrightarrow> (case dict_get sampling ''max_tokens'' of None \<Rightarrow> True | Some (PInt n) \<Rightarrow> 1 \<le> n | _ \<Rightarrow> False)"

lemma with_stop_tokens_ok: "sampling_ok sampling \<Longrightarrow> sampling_ok (with_stop_tokens env sampling)"
  by (simp add: sampling_ok_def with_stop_tokens_def Let_def)

lemma budget_check_bounds:
  assumes "budget_check cfg False ad sampling = Inr (Inr sp)" "sampling_ok sampling"
  shows "\<exists>n. pget sp ''max_tokens'' = PInt n \<and> 1 \<le> n \<and>
    n \<le> int (lc_response_length cfg) - int (length (ad_response_mask ad)) \<and>
    (\<forall>limit. lc_max_assistant_response_length cfg = Some limit \<longrightarrow> n \<le> limit - int (ad_assistant_response_tokens ad))"
proof -
  have int: "\<exists>n. py_int_of (dict_get_default sampling ''max_tokens'' (PInt m)) = Inr n \<and> 1 \<le> n" if "1 \<le> m" for m
    using assms(2) that
    by (auto simp: sampling_ok_def dict_get_default_def py_int_of_def split: option.splits pyval.splits)
  show ?thesis
  proof (cases "lc_max_assistant_response_length cfg")
    case None
    with assms(1) have "1 \<le> int (lc_response_length cfg) - int (length (ad_response_mask ad))"
      by (auto simp: budget_check_def Let_def split: if_splits)
    from int [OF this] assms(1) None show ?thesis
      by (auto simp: budget_check_def Let_def pget_set split: if_splits)
  next
    case (Some limit)
    with assms(1) have pos: "1 \<le> int (lc_response_length cfg) - int (length (ad_response_mask ad))"
      "1 \<le> limit - int (ad_assistant_response_tokens ad)"
      by (auto simp: budget_check_def Let_def split: if_splits)
    from int [OF pos(2)] assms(1) Some pos show ?thesis
      by (auto simp: budget_check_def Let_def pget_set split: if_splits)
  qed
qed

definition within_budget :: "loop_config \<Rightarrow> agent_data \<Rightarrow> bool" where
  "within_budget cfg ad \<longleftrightarrow> length (ad_response_mask ad) \<le> lc_response_length cfg \<and>
     (\<forall>limit. lc_max_assistant_response_length cfg = Some limit \<longrightarrow> 0 \<le> limit \<longrightarrow>
        int (ad_assistant_response_tokens ad) \<le> limit)"


definition bounded_generate :: "agent_data \<Rightarrow> message \<Rightarrow> pyval token_output result" where
  "bounded_generate ad sampling = Inr \<lparr>token_ids = [11], log_probs = None, routed_experts = None,
     stop_reason = None, num_preempted = None, extra_fields = []\<rparr>"

definition example_second_turn :: agent_data where
  "example_second_turn = (agent_data_init [toy_msg ''user''] PNone PNone PNone [] ''r'' (PDict []))\<lparr>ad_prompt_ids := [22]\<rparr>"


subsection \<open>Termination\<close>

text \<open>
  A measure that never grows and that every model turn which goes on to the tools decreases bounds
  the number of iterations.
\<close>

locale loop_progress =
  fixes env :: loop_env and active :: "(string, tool) dict" and schemas :: pyval and sampling :: message
    and good :: "agent_data \<Rightarrow> bool" and left :: "agent_data \<Rightarrow> nat"
  assumes generating: "good ad \<Longrightarrow> handle_generating env active sampling False ad = Inr (st, ad') \<Longrightarrow>
      st = Terminated \<or> st = ProcessingTools \<and> good ad' \<and> left ad' < left ad"
    and tools: "good ad \<Longrightarrow> handle_processing_tools env active schemas ad = Inr (st, ad') \<Longrightarrow>
      st = Terminated \<or> st = Generating \<and> good ad' \<and> left ad' = left ad"
begin

lemma generating_ends:
  "good ad \<Longrightarrow> 2 * left ad < fuel \<Longrightarrow> state_loop env active schemas sampling fuel Generating ad \<noteq> None"
proof (induction "left ad" arbitrary: ad fuel rule: less_induct)
  case less
  from less.prems(2) obtain n where n: "fuel = Suc n" by (cases fuel) auto
  show ?case
  proof (cases "handle_generating env active sampling False ad")
    case (Inl e)
    then show ?thesis by (simp add: n handle_state_def)
  next
    case (Inr r)
    obtain st ad1 where r: "r = (st, ad1)" by (cases r)
    from generating [OF less.prems(1) Inr [unfolded r]]
    consider "st = Terminated" | "st = ProcessingTools" "good ad1" "left ad1 < left ad" by blast
    then show ?thesis
    proof cases
      case 1
      then show ?thesis by (simp add: n handle_state_def Inr r)
    next
      case 2
      then obtain m where m: "n = Suc m" using less.prems(2) n by (cases n) auto
      show ?thesis
      proof (cases "handle_processing_tools env active schemas ad1")
        case (Inl e)
        then show ?thesis using 2(1) by (simp add: n m handle_state_def Inr r)
      next
        case (Inr r2)
        obtain st2 ad2 where r2: "r2 = (st2, ad2)" by (cases r2)
        from tools [OF 2(2) Inr [unfolded r2]] show ?thesis
        proof (elim disjE conjE)
          assume "st2 = Terminated"
          then show ?thesis using 2(1) Inr \<open>handle_generating env active sampling False ad = Inr r\<close>
            by (simp add: n m handle_state_def r r2)
        next
          assume st2: "st2 = Generating" "good ad2" "left ad2 = left ad1"
          have "state_loop env active schemas sampling m Generating ad2 \<noteq> None"
            using less.hyps [of ad2 m] st2 2(3) less.prems(2) n m by simp
          then show ?thesis using 2(1) st2(1) Inr \<open>handle_generating env active sampling False ad = Inr r\<close>
            by (simp add: n m handle_state_def r r2)
        qed
      qed
    qed
  qed
qed

lemma pending_ends:
  assumes "\<And>ad'. handle_pending env schemas ad = Inr (Generating, ad') \<Longrightarrow> good ad' \<and> left ad' = left ad"
    and "2 * left ad + 1 < fuel"
  shows "state_loop env active schemas sampling fuel Pending ad \<noteq> None"
proof -
  from assms(2) obtain n where n: "fuel = Suc n" "2 * left ad < n" by (cases fuel) auto
  show ?thesis
  proof (cases "handle_pending env schemas ad")
    case (Inl e)
    then show ?thesis by (simp add: n(1) handle_state_def)
  next
    case (Inr r)
    obtain st ad1 where r: "r = (st, ad1)" by (cases r)
    from handle_pending_result [OF Inr [unfolded r]] have st: "st = Generating" by simp
    from assms(1) [of ad1] Inr r st have "good ad1" "left ad1 = left ad" by auto
    from generating_ends [OF this(1), of n] this(2) n show ?thesis by (simp add: handle_state_def Inr r st)
  qed
qed

end

lemma append_generated_counters:
  "append_generated env out ad = Inr ad' \<Longrightarrow> ad_assistant_turns ad' = ad_assistant_turns ad \<and>
   ad_assistant_response_tokens ad' = ad_assistant_response_tokens ad"
  by (auto simp: append_generated_def rbind_Inr_iff Let_def split: if_splits)

lemma observe_response_counters:
  "ad_assistant_turns (observe_response env start n decoded ad) = ad_assistant_turns ad"
  "ad_assistant_response_tokens (observe_response env start n decoded ad) = ad_assistant_response_tokens ad"
  by (simp_all add: observe_response_def Let_def record_fields)

lemma generating_counters:
  assumes "handle_generating env active sampling False ad = Inr (st, ad')"
  shows "st = Terminated \<or> st = ProcessingTools \<and> ad_assistant_turns ad' = ad_assistant_turns ad + 1 \<and>
    (lc_max_assistant_turns (le_config env) = 0 \<or> ad_assistant_turns ad' < lc_max_assistant_turns (le_config env)) \<and>
    (\<exists>sp out. le_generate env ad sp = Inr out \<and>
       ad_assistant_response_tokens ad' = ad_assistant_response_tokens ad + length (token_ids out)) \<and>
    (\<forall>limit. lc_max_assistant_response_length (le_config env) = Some limit \<longrightarrow> int (ad_assistant_response_tokens ad') < limit)"
  using assms
proof (cases rule: generating_outcome)
  case (generated sp out ad1 ad2 a4)
  define a3 where "a3 = (case routed_experts out of None \<Rightarrow> ad2 | Some r \<Rightarrow> ad2\<lparr>ad_routed_experts := PList r\<rparr>)"
  have a3: "ad_assistant_turns a3 = ad_assistant_turns ad2" "ad_assistant_response_tokens a3 = ad_assistant_response_tokens ad2"
    by (simp_all add: a3_def split: option.splits)
  have a4: "ad_assistant_turns a4 = ad_assistant_turns ad + 1"
    "ad_assistant_response_tokens a4 = ad_assistant_response_tokens ad + length (token_ids out)"
    using record_output_keeps [OF generated(3)] append_generated_counters [OF generated(4)] a3
    unfolding generated(5) a3_def [symmetric] by (simp_all add: observe_response_counters)
  from generated(7) obtain tr tc ms where ad': "ad' = a4\<lparr>ad_termination_reason := tr, ad_tool_calls := tc, ad_messages := ms\<rparr>" by blast
  have "\<exists>sp out. le_generate env ad sp = Inr out \<and>
       ad_assistant_response_tokens ad' = ad_assistant_response_tokens ad + length (token_ids out)"
    using generated(2) a4(2) by (auto simp: ad')
  then show ?thesis using generated(6) a4
    by (auto simp: ad' stop_reason_after_def split: if_splits option.splits)
qed simp

lemma tools_counters:
  assumes "handle_processing_tools env active schemas ad = Inr (st, ad')"
  shows "st \<in> {Generating, Terminated} \<and> ad_assistant_turns ad' = ad_assistant_turns ad \<and>
    ad_assistant_response_tokens ad' = ad_assistant_response_tokens ad"
proof -
  from tools_outcome [OF assms] obtain ad2 where s: "same_tokens ad ad2" and
    o: "(\<exists>prev. lc_enable_continuous_token (le_config env) \<and> merge_tool_messages env schemas prev ad2 = Inr (st, ad')) \<or>
      (\<exists>ids images. append_tool_tokens env ids images ad2 = Inr (st, ad'))" .
  have "st \<in> {Generating, Terminated} \<and> ad_assistant_turns ad' = ad_assistant_turns ad2 \<and>
    ad_assistant_response_tokens ad' = ad_assistant_response_tokens ad2"
    using o by (auto simp: merge_tool_messages_def append_tool_tokens_def terminate_with_def rbind_Inr_iff split: if_splits)
  with s show ?thesis by (simp add: same_tokens_def)
qed

interpretation turn_progress: loop_progress env active schemas sampling
  "\<lambda>ad. 0 < lc_max_assistant_turns (le_config env)" "\<lambda>ad. lc_max_assistant_turns (le_config env) - ad_assistant_turns ad"
  for env active schemas sampling
proof unfold_locales
  fix ad st ad'
  assume "0 < lc_max_assistant_turns (le_config env)" "handle_generating env active sampling False ad = Inr (st, ad')"
  from this(1) generating_counters [OF this(2)] show "st = Terminated \<or> st = ProcessingTools \<and>
      0 < lc_max_assistant_turns (le_config env) \<and>
      lc_max_assistant_turns (le_config env) - ad_assistant_turns ad' < lc_max_assistant_turns (le_config env) - ad_assistant_turns ad"
    by auto
qed (auto dest!: tools_counters)

interpretation token_progress: loop_progress env active schemas sampling
  "\<lambda>ad. (\<exists>lp. gen_ok env lp) \<and> lc_max_assistant_response_length (le_config env) = Some limit"
  "\<lambda>ad. nat (limit - int (ad_assistant_response_tokens ad))"
  for env active schemas sampling limit
proof unfold_locales
  fix ad st ad'
  assume good: "(\<exists>lp. gen_ok env lp) \<and> lc_max_assistant_response_length (le_config env) = Some limit"
    and h: "handle_generating env active sampling False ad = Inr (st, ad')"
  show "st = Terminated \<or> st = ProcessingTools \<and>
      ((\<exists>lp. gen_ok env lp) \<and> lc_max_assistant_response_length (le_config env) = Some limit) \<and>
      nat (limit - int (ad_assistant_response_tokens ad')) < nat (limit - int (ad_assistant_response_tokens ad))"
  proof (cases "st = Terminated")
    case False
    with generating_counters [OF h] good obtain sp out where o: "st = ProcessingTools" "le_generate env ad sp = Inr out"
      "ad_assistant_response_tokens ad' = ad_assistant_response_tokens ad + length (token_ids out)"
      "int (ad_assistant_response_tokens ad') < limit" by auto
    from good o(2) have "token_ids out \<noteq> []" by (auto simp: gen_ok_def)
    then have "0 < length (token_ids out)" by simp
    then show ?thesis using good o by simp
  qed simp
qed (auto dest!: tools_counters)



subsection \<open>Boundary inputs\<close>

text \<open>
  A run that ends without a response token returns the prompt as its response: with an empty
  mask the slice \<open>prompt_ids[-0:]\<close> is the whole list, so response ids and mask disagree in length.
\<close>

theorem empty_response_returns_prompt:
  assumes "ad_response_mask ad = []"
  shows "lo_response_ids (finalize_output cfg ad) = take (lc_response_length cfg) (ad_prompt_ids ad) \<and>
    lo_response_mask (finalize_output cfg ad) = [] \<and> lo_prompt_ids (finalize_output cfg ad) = ad_prompt_ids ad"
  using assms by (simp add: finalize_output_def take_last_def slice_index_def Let_def)

text \<open>A server that gives up at once: the run returns the prompt as the response.\<close>

theorem empty_response_returns_prompt_witness:
  "\<exists>ad. state_loop (example_env\<lparr>le_generate := (\<lambda>ad sp. Inr \<lparr>token_ids = [], log_probs = None, routed_experts = None,
       stop_reason = Some ''aborted'', num_preempted = None, extra_fields = []\<rparr>)\<rparr>) [] PNone [] 3 Pending
       (agent_data_init [toy_msg ''user''] PNone PNone PNone [] ''r'' (PDict [])) = Some (Inr ad) \<and>
     lo_response_ids (finalize_output example_config ad) = [22] \<and> lo_response_mask (finalize_output example_config ad) = []"
proof -
  let ?r = "state_loop (example_env\<lparr>le_generate := (\<lambda>ad sp. Inr \<lparr>token_ids = [], log_probs = None, routed_experts = None,
       stop_reason = Some ''aborted'', num_preempted = None, extra_fields = []\<rparr>)\<rparr>) [] PNone [] 3 Pending
       (agent_data_init [toy_msg ''user''] PNone PNone PNone [] ''r'' (PDict []))"
  have "map_option (map_sum id (\<lambda>ad. (ad_prompt_ids ad, ad_response_mask ad))) ?r = Some (Inr ([22], []))"
    by code_simp
  then obtain ad where ad: "?r = Some (Inr ad)" "ad_prompt_ids ad = [22]" "ad_response_mask ad = []"
    by (auto simp: map_sum_eq_Inr_iff)
  from empty_response_returns_prompt [OF ad(3), of example_config] ad show ?thesis
    by (intro exI [of _ ad]) (simp add: example_config_def)
qed

text \<open>
  The exact length of a truncated tool response: the configured length plus the marker, except
  that a slice \<open>[-0:]\<close> keeps everything, so a limit of 0 (left) or below 2 (both sides) lengthens
  the text instead of cutting it.
\<close>

theorem tool_text_truncation_length:
  "length (truncate_tool_text n side s) =
    (if length s \<le> n then length s
     else if side = ''left'' then 14 + (if n = 0 then length s else n)
     else if side = ''right'' then n + 14
     else 17 + n div 2 + (if n < 2 then length s else n div 2))"
proof -
  have "n div 2 = 0 \<longleftrightarrow> n < 2" by linarith
  then show ?thesis by (auto simp: truncate_tool_text_def last_chars_def Let_def)
qed

end
