(* ===== verification/TensorOps.thy ===== *)
theory TensorOps
  imports PyDict
begin

text \<open>
  Tensors of the trainer and the masked statistics of \<open>verl/utils/torch_functional.py\<close>.  A float
  tensor of shape \<open>(bs, response_length)\<close> is the list of its rows over the exact rationals:
  rounding is not modelled, and functions with irrational values (\<open>exp\<close>, \<open>log\<close>, \<open>sqrt\<close>,
  \<open>rsqrt\<close>, \<open>sigmoid\<close>) are arguments of the definitions that use them.  Elementwise operators take
  tensors of one shape (\<open>same_shape\<close>); a division whose divisor may be zero returns \<open>None\<close>,
  standing for the infinite or undefined float.
\<close>

type_synonym tensor = "rat list list"

definition same_shape :: "'a list list \<Rightarrow> 'b list list \<Rightarrow> bool" where
  "same_shape a b = (map length a = map length b)"

definition zipm :: "('a \<Rightarrow> 'b \<Rightarrow> 'c) \<Rightarrow> 'a list list \<Rightarrow> 'b list list \<Rightarrow> 'c list list" where
  "zipm f a b = map2 (map2 f) a b"

definition mapm :: "('a \<Rightarrow> 'b) \<Rightarrow> 'a list list \<Rightarrow> 'b list list" where
  "mapm f a = map (map f) a"

text \<open>\<open>x.unsqueeze(-1) * mask\<close>: one scalar for every row, spread over the row's mask.\<close>

definition broadcast_rows :: "rat list \<Rightarrow> tensor \<Rightarrow> tensor" where
  "broadcast_rows xs msk = map2 (\<lambda>x row. map (\<lambda>k. x * k) row) xs msk"

definition row_sums :: "tensor \<Rightarrow> rat list" where
  "row_sums a = map sum_list a"

definition row_width :: "tensor \<Rightarrow> nat" where
  "row_width t = (case t of [] \<Rightarrow> 0 | row # _ \<Rightarrow> length row)"

definition fdiv :: "rat \<Rightarrow> rat \<Rightarrow> rat option" where
  "fdiv x y = (if y = 0 then None else Some (x / y))"

definition clamp :: "rat \<Rightarrow> rat \<Rightarrow> rat \<Rightarrow> rat" where
  "clamp lo hi x = min hi (max lo x)"

definition of_bool_mask :: "bool \<Rightarrow> rat" where
  "of_bool_mask b = (if b then 1 else 0)"

definition binary_mask :: "tensor \<Rightarrow> bool" where
  "binary_mask msk = list_all (list_all (\<lambda>k. k = 0 \<or> k = 1)) msk"

fun prefix_sums :: "rat \<Rightarrow> rat list \<Rightarrow> rat list" where
  "prefix_sums acc [] = []"
| "prefix_sums acc (x # xs) = (acc + x) # prefix_sums (acc + x) xs"

text \<open>\<open>x.flip(-1).cumsum(-1).flip(-1)\<close>: sums of the suffixes.\<close>

definition suffix_sums :: "rat list \<Rightarrow> rat list" where
  "suffix_sums xs = rev (prefix_sums 0 (rev xs))"

subsection \<open>Masked statistics\<close>

text \<open>
  With \<open>axis=None\<close> the code reduces over all elements: these functions are then applied to the
  concatenated rows; with \<open>axis=-1\<close> they are mapped over the rows.
\<close>

definition clip_by_value :: "rat \<Rightarrow> rat \<Rightarrow> rat \<Rightarrow> rat" where
  "clip_by_value x tensor_min tensor_max = max (min x tensor_max) tensor_min"

definition masked_sum :: "rat list \<Rightarrow> rat list \<Rightarrow> rat" where
  "masked_sum values msk =
     sum_list (map2 (\<lambda>v m. (if m \<noteq> 0 then v else 0) * m) values msk)"

definition masked_mean :: "rat list \<Rightarrow> rat list \<Rightarrow> rat" where
  "masked_mean values msk = masked_sum values msk / (sum_list msk + 1 / 10 ^ 8)"

definition masked_var :: "rat list \<Rightarrow> rat list \<Rightarrow> bool \<Rightarrow> rat result" where
  "masked_var values msk unbiased =
     (let mean = masked_mean values msk;
          centered_values = map (\<lambda>v. v - mean) values;
          variance = masked_mean (map (\<lambda>c. c\<^sup>2) centered_values) msk
      in if unbiased then
           (let mask_sum = sum_list msk
            in if mask_sum = 0 then
                 Inl (ValueError ''At least one element in the mask has to be 1.'')
               else if mask_sum = 1 then
                 Inl (ValueError ''The sum of the mask is one, which can cause a division by zero.'')
               else Inr (variance * (mask_sum / (mask_sum - 1))))
         else Inr variance)"

definition masked_whiten :: "(rat \<Rightarrow> rat) \<Rightarrow> tensor \<Rightarrow> tensor \<Rightarrow> bool \<Rightarrow> tensor result" where
  "masked_whiten rsqrt values msk shift_mean =
     (let mean = masked_mean (concat values) (concat msk)
      in rbind (masked_var (concat values) (concat msk) True) (\<lambda>var.
           let whitened = mapm (\<lambda>v. (v - mean) * rsqrt (var + 1 / 10 ^ 8)) values
           in Inr (if shift_mean then whitened else mapm (\<lambda>w. w + mean) whitened)))"

definition get_response_mask :: "int list \<Rightarrow> int list list \<Rightarrow> int list list" where
  "get_response_mask eos_token response_id =
     map (\<lambda>row. map (\<lambda>t. of_bool (length (filter (\<lambda>x. x \<in> set eos_token) (take (Suc t) row))
                             - of_bool (row ! t \<in> set eos_token) = (0::nat)))
            [0..<length row]) response_id"

subsection \<open>Shapes\<close>

lemma same_shape_refl [simp]: "same_shape a a"
  by (simp add: same_shape_def)

lemma same_shape_sym: "same_shape a b \<Longrightarrow> same_shape b a"
  by (simp add: same_shape_def)

lemma same_shape_trans [trans]: "same_shape a b \<Longrightarrow> same_shape b c \<Longrightarrow> same_shape a c"
  by (simp add: same_shape_def)

lemma same_shape_length: "same_shape a b \<Longrightarrow> length a = length b"
  unfolding same_shape_def by (metis length_map)

lemma same_shape_Cons [simp]:
  "same_shape (r # a) (s # b) \<longleftrightarrow> length r = length s \<and> same_shape a b"
  "same_shape [] b \<longleftrightarrow> b = []" "same_shape a [] \<longleftrightarrow> a = []"
  by (auto simp: same_shape_def)

lemma same_shape_induct [consumes 1, case_names Nil Cons]:
  assumes "same_shape a b" and "P [] []"
    and "\<And>r s a b. length r = length s \<Longrightarrow> same_shape a b \<Longrightarrow> P a b \<Longrightarrow> P (r # a) (s # b)"
  shows "P a b"
  using assms(1)
proof (induction a arbitrary: b)
  case (Cons r a)
  then show ?case by (cases b) (auto intro: assms(3))
qed (simp add: assms(2))

lemma same_shape_zipm [simp]:
  "same_shape a b \<Longrightarrow> same_shape (zipm f a b) b" "same_shape a b \<Longrightarrow> same_shape (zipm f a b) a"
  by (induction rule: same_shape_induct) (auto simp: zipm_def)

lemma same_shape_mapm [simp]: "same_shape (mapm f a) b \<longleftrightarrow> same_shape a b"
  "same_shape b (mapm f a) \<longleftrightarrow> same_shape b a"
  by (simp_all add: same_shape_def mapm_def comp_def)

lemma same_shape_broadcast [simp]: "length xs = length msk \<Longrightarrow> same_shape (broadcast_rows xs msk) msk"
  by (induction xs msk rule: list_induct2) (auto simp: broadcast_rows_def)

lemma same_shape_nth: "same_shape a b \<Longrightarrow> i < length a \<Longrightarrow> length (a ! i) = length (b ! i)"
  unfolding same_shape_def by (metis length_map nth_map)

lemma zipm_nth:
  "same_shape a b \<Longrightarrow> i < length a \<Longrightarrow> t < length (a ! i) \<Longrightarrow> zipm f a b ! i ! t = f (a ! i ! t) (b ! i ! t)"
  by (simp add: zipm_def same_shape_length same_shape_nth)

lemma broadcast_nth:
  "length xs = length msk \<Longrightarrow> i < length msk \<Longrightarrow> t < length (msk ! i) \<Longrightarrow>
   broadcast_rows xs msk ! i ! t = xs ! i * msk ! i ! t"
  by (simp add: broadcast_rows_def)

lemma binary_mask_nth: "binary_mask m \<Longrightarrow> i < length m \<Longrightarrow> t < length (m ! i) \<Longrightarrow> m ! i ! t = 0 \<or> m ! i ! t = 1"
  by (auto simp: binary_mask_def list_all_length)

lemma length_prefix_sums [simp]: "length (prefix_sums acc xs) = length xs"
  by (induction acc xs rule: prefix_sums.induct) auto

lemma prefix_sums_append:
  "prefix_sums acc (xs @ ys) = prefix_sums acc xs @ prefix_sums (acc + sum_list xs) ys"
  by (induction acc xs rule: prefix_sums.induct) (auto simp: add.assoc)

lemma suffix_sums_simps [simp]:
  "suffix_sums [] = []" "suffix_sums (x # xs) = sum_list (x # xs) # suffix_sums xs"
  by (simp_all add: suffix_sums_def prefix_sums_append sum_list.rev add.commute)

lemma length_suffix_sums [simp]: "length (suffix_sums xs) = length xs"
  by (simp add: suffix_sums_def)

lemma zipm_minus_plus: "same_shape a b \<Longrightarrow> zipm (-) (zipm (+) a b) b = (a :: tensor)"
proof (induction rule: same_shape_induct)
  case (Cons r s a b)
  have "map2 (-) (map2 (+) r s) s = r"
    using Cons(1) by (induction r s rule: list_induct2) auto
  with Cons show ?case by (simp add: zipm_def)
qed (simp add: zipm_def)

lemma binary_mask_row: "binary_mask msk \<Longrightarrow> i < length msk \<Longrightarrow> \<forall>m \<in> set (msk ! i). m = 0 \<or> m = 1"
  unfolding binary_mask_def list_all_iff using nth_mem by blast

lemma masked_sum_append:
  "length a = length m \<Longrightarrow> masked_sum (a @ b) (m @ n) = masked_sum a m + masked_sum b n"
  by (simp add: masked_sum_def)

lemma length_concat_shape: "same_shape a b \<Longrightarrow> length (concat a) = length (concat b)"
  by (simp add: length_concat same_shape_def)

lemma zipm_append: "length a = length b \<Longrightarrow> zipm f (a @ a') (b @ b') = zipm f a b @ zipm f a' b'"
  by (simp add: zipm_def)

lemma row_sums_append: "row_sums (a @ b) = row_sums a @ row_sums b"
  by (simp add: row_sums_def)

lemma length_row_sums [simp]: "length (row_sums a) = length a"
  by (simp add: row_sums_def)

lemma length_zipm [simp]: "length (zipm f a b) = min (length a) (length b)"
  by (simp add: zipm_def)

lemma mapm_nth: "i < length a \<Longrightarrow> t < length (a ! i) \<Longrightarrow> mapm f a ! i ! t = f (a ! i ! t)"
  by (simp add: mapm_def)

lemma mapm_zipm: "mapm f (zipm g a b) = zipm (\<lambda>x y. f (g x y)) a b"
  by (simp add: mapm_def zipm_def split_def comp_def)

lemma zipm_zipm_left: "same_shape a b \<Longrightarrow> zipm f a (zipm g a b) = zipm (\<lambda>x y. f x (g x y)) a b"
proof (induction rule: same_shape_induct)
  case (Cons r s a b)
  have "map2 f r (map2 g r s) = map2 (\<lambda>x y. f x (g x y)) r s"
    using Cons(1) by (induction r s rule: list_induct2) auto
  with Cons show ?case by (simp add: zipm_def)
qed (simp add: zipm_def)

lemma zipm_zipm_both: "same_shape a b \<Longrightarrow> zipm h (zipm f a b) (zipm g a b) = zipm (\<lambda>x y. h (f x y) (g x y)) a b"
proof (induction rule: same_shape_induct)
  case (Cons r s a b)
  have "map2 h (map2 f r s) (map2 g r s) = map2 (\<lambda>x y. h (f x y) (g x y)) r s"
    using Cons(1) by (induction r s rule: list_induct2) auto
  with Cons show ?case by (simp add: zipm_def)
qed (simp add: zipm_def)

lemma zipm_add_zero: "same_shape a b \<Longrightarrow> zipm (+) (zipm (-) a a) b = (b :: tensor)"
proof (induction rule: same_shape_induct)
  case (Cons r s a b)
  have "map2 (+) (map2 (-) r r) s = s"
    using Cons(1) by (induction r s rule: list_induct2) auto
  with Cons show ?case by (simp add: zipm_def)
qed (simp add: zipm_def)

lemma clamp_bounds: "lo \<le> hi \<Longrightarrow> lo \<le> clamp lo hi x" "clamp lo hi x \<le> hi"
  by (simp_all add: clamp_def)

lemma clamp_nonneg: "lo \<le> 0 \<Longrightarrow> 0 \<le> hi \<Longrightarrow> 0 \<le> x \<Longrightarrow> 0 \<le> clamp lo hi x"
  by (simp add: clamp_def)

lemma zipm_all:
  "(\<And>x y. P (f x y)) \<Longrightarrow> list_all (list_all P) (zipm f a b)"
  by (auto simp: zipm_def list_all_iff dest: in_set_zipE)

end
