(* ===== verification/AdvantageMask.thy ===== *)
theory AdvantageMask
  imports BehaviorMask TensorOps
begin

text \<open>
  The trainer's side of the behaviour masks: \<open>apply_nanoclaw_positive_advantage_bad_turn_mask\<close> of
  \<open>verl/trainer/ppo/ray_trainer.py\<close>, which removes from the response mask the tokens with a positive
  advantage inside the spans the rollout recorded.  The column \<open>nanoclaw_bad_turn_spans\<close> holds
  dynamic values, one per row; rows of the mask are updated in place, span after span.
\<close>

definition span_bounds :: "nat \<Rightarrow> pyval \<Rightarrow> (int \<times> int) option" where
  "span_bounds response_length sp = (case sp of
     PDict d \<Rightarrow>
       (case (py_int_of (dict_get_default d ''start'' (PInt 0)), py_int_of (dict_get_default d ''end'' (PInt 0))) of
          (Inr s, Inr e) \<Rightarrow>
            (let start = max 0 s; fin = min (int response_length) e
             in if fin \<le> start then None else Some (start, fin))
        | _ \<Rightarrow> None)
   | _ \<Rightarrow> None)"

definition span_enabled :: "pyval \<Rightarrow> bool" where
  "span_enabled sp = (case sp of
     PDict d \<Rightarrow> py_truthy (dict_get_default d ''mask_enabled'' (PBool True)) | _ \<Rightarrow> False)"

definition span_tokens :: "pyval \<Rightarrow> int \<Rightarrow> int" where
  "span_tokens sp current = (case sp of
     PDict d \<Rightarrow> (case py_int_of (dict_get_default d ''token_count'' (PInt 0)) of
         Inr n \<Rightarrow> max current n | Inl _ \<Rightarrow> current)
   | _ \<Rightarrow> current)"

type_synonym merged_spans = "(int \<times> int, bool \<times> int) dict"

definition merge_span :: "nat \<Rightarrow> merged_spans \<Rightarrow> pyval \<Rightarrow> merged_spans" where
  "merge_span response_length merged sp =
     (case span_bounds response_length sp of
        None \<Rightarrow> merged
      | Some key \<Rightarrow>
          (let (enabled, tokens) = dict_get_default merged key (False, 0)
           in dict_set merged key (enabled \<or> span_enabled sp, span_tokens sp tokens)))"

record mask_counts =
  mc_candidate_turns :: int
  mc_candidate_tokens :: int
  mc_masked_turns :: int
  mc_masked_tokens :: int

definition no_counts :: mask_counts where
  "no_counts = \<lparr>mc_candidate_turns = 0, mc_candidate_tokens = 0, mc_masked_turns = 0, mc_masked_tokens = 0\<rparr>"

definition in_span :: "int \<times> int \<Rightarrow> nat \<Rightarrow> bool" where
  "in_span key t \<longleftrightarrow> fst key \<le> int t \<and> int t < snd key"

definition count_positions :: "nat \<Rightarrow> (nat \<Rightarrow> bool) \<Rightarrow> int" where
  "count_positions n P = int (length (filter P [0..<n]))"

text \<open>One merged span of one row: counting it, and zeroing its positive tokens if masking applies.\<close>

definition mask_span ::
  "bool \<Rightarrow> rat list \<Rightarrow> rat list \<times> mask_counts \<Rightarrow> (int \<times> int) \<times> bool \<times> int \<Rightarrow> rat list \<times> mask_counts" where
  "mask_span apply_mask advantages st entry =
     (let (row, counts) = st; (key, enabled, recorded_tokens) = entry;
          active_tokens = count_positions (length row) (\<lambda>t. in_span key t \<and> row ! t \<noteq> 0);
          candidate = max active_tokens recorded_tokens
      in if candidate \<le> 0 then (row, counts)
         else
           (let counts1 = counts\<lparr>mc_candidate_turns := mc_candidate_turns counts + 1,
                                 mc_candidate_tokens := mc_candidate_tokens counts + candidate\<rparr>
            in if \<not> apply_mask \<or> \<not> enabled then (row, counts1)
               else
                 (let positive = (\<lambda>t. in_span key t \<and> row ! t \<noteq> 0 \<and> advantages ! t > 0);
                      positive_tokens = count_positions (length row) positive
                  in if positive_tokens \<le> 0 then (row, counts1)
                     else (map (\<lambda>t. if positive t then 0 else row ! t) [0..<length row],
                           counts1\<lparr>mc_masked_turns := mc_masked_turns counts1 + 1,
                                   mc_masked_tokens := mc_masked_tokens counts1 + positive_tokens\<rparr>))))"

definition row_spans :: "pyval \<Rightarrow> pyval list" where
  "row_spans v = (case v of PList xs \<Rightarrow> xs | PTuple xs \<Rightarrow> xs | _ \<Rightarrow> [])"

definition mask_row ::
  "bool \<Rightarrow> nat \<Rightarrow> rat list \<Rightarrow> pyval \<Rightarrow> rat list \<times> mask_counts \<Rightarrow> rat list \<times> mask_counts" where
  "mask_row apply_mask response_length advantages spans st =
     foldl (mask_span apply_mask advantages) st
       (foldl (merge_span response_length) [] (row_spans spans))"

fun mask_rows ::
  "bool \<Rightarrow> nat \<Rightarrow> tensor \<Rightarrow> pyval list \<Rightarrow> tensor \<Rightarrow> mask_counts \<Rightarrow> tensor \<times> mask_counts" where
  "mask_rows apply_mask response_length (adv # advantages) (spans # bad_turn_spans) (row # response_mask) counts =
     (let (row', counts') = mask_row apply_mask response_length adv spans (row, counts);
          (rest, counts'') = mask_rows apply_mask response_length advantages bad_turn_spans response_mask counts'
      in (row' # rest, counts''))"
| "mask_rows apply_mask response_length advantages bad_turn_spans response_mask counts = (response_mask, counts)"

definition mask_metrics :: "mask_counts \<Rightarrow> (string, rat) dict" where
  "mask_metrics c =
     [(''nanoclaw/positive_advantage_bad_turn_candidate_turns'', of_int (mc_candidate_turns c)),
      (''nanoclaw/positive_advantage_bad_turn_candidate_tokens'', of_int (mc_candidate_tokens c)),
      (''nanoclaw/positive_advantage_bad_turn_masked_turns'', of_int (mc_masked_turns c)),
      (''nanoclaw/positive_advantage_bad_turn_masked_tokens'', of_int (mc_masked_tokens c))]"

text \<open>
  The columns of the batch are optional; the result is the updated response mask and the metrics.
\<close>

definition apply_nanoclaw_positive_advantage_bad_turn_mask ::
  "py_env \<Rightarrow> tensor option \<Rightarrow> tensor option \<Rightarrow> pyval list option \<Rightarrow> tensor option \<times> (string, rat) dict" where
  "apply_nanoclaw_positive_advantage_bad_turn_mask env advantages response_mask bad_turn_spans =
     (case (advantages, response_mask) of
        (Some adv, Some msk) \<Rightarrow>
          (case bad_turn_spans of
             None \<Rightarrow> (response_mask, mask_metrics no_counts)
           | Some spans \<Rightarrow>
               (let apply_mask = bool_env env ''NANOCLAW_MASK_ONLY_POSITIVE_ADVANTAGE'' False;
                    response_length = (case msk of [] \<Rightarrow> 0 | row # _ \<Rightarrow> length row);
                    (msk', counts) = mask_rows apply_mask response_length adv spans msk no_counts
                in (Some msk', mask_metrics counts)))
      | _ \<Rightarrow> (response_mask, []))"

subsection \<open>Exactness\<close>

definition zero_where :: "(nat \<Rightarrow> bool) \<Rightarrow> rat list \<Rightarrow> rat list" where
  "zero_where P row = map (\<lambda>t. if P t then 0 else row ! t) [0..<length row]"

definition zeroed :: "rat list \<Rightarrow> rat list \<Rightarrow> int" where
  "zeroed row row' = count_positions (length row) (\<lambda>t. row ! t \<noteq> 0 \<and> row' ! t = 0)"

lemma length_zero_where [simp]: "length (zero_where P row) = length row"
  by (simp add: zero_where_def)

lemma zero_where_nth [simp]: "t < length row \<Longrightarrow> zero_where P row ! t = (if P t then 0 else row ! t)"
  by (simp add: zero_where_def)

lemma zero_where_id: "(\<And>t. t < length row \<Longrightarrow> P t \<Longrightarrow> row ! t = 0) \<Longrightarrow> zero_where P row = row"
  by (intro nth_equalityI) auto

lemma zero_where_twice: "zero_where Q (zero_where P row) = zero_where (\<lambda>t. P t \<or> Q t) row"
  by (intro nth_equalityI) auto

lemma count_positions_nonpos: "count_positions n P \<le> 0 \<longleftrightarrow> (\<forall>t < n. \<not> P t)"
  by (auto simp: count_positions_def filter_empty_conv)

lemma count_positions_cong: "(\<And>t. t < n \<Longrightarrow> P t = Q t) \<Longrightarrow> count_positions n P = count_positions n Q"
  unfolding count_positions_def by (metis (mono_tags, lifting) atLeastLessThan_iff filter_cong set_upt)

lemma zeroed_self [simp]: "zeroed row row = 0"
  by (simp add: zeroed_def count_positions_def)

lemma zeroed_twice:
  assumes "length row' = length row" "\<And>t. t < length row \<Longrightarrow> row ! t = 0 \<Longrightarrow> row' ! t = 0"
    "\<And>t. t < length row \<Longrightarrow> row' ! t = 0 \<Longrightarrow> row'' ! t = 0"
  shows "zeroed row row'' = zeroed row row' + zeroed row' row''"
proof -
  have "length (filter P xs) = length (filter Q xs) + length (filter R xs)"
    if "\<And>x. x \<in> set xs \<Longrightarrow> P x \<longleftrightarrow> Q x \<or> R x" "\<And>x. x \<in> set xs \<Longrightarrow> \<not> (Q x \<and> R x)" for P Q R and xs :: "nat list"
    using that by (induction xs) auto
  from this [of "[0..<length row]" "\<lambda>t. row ! t \<noteq> 0 \<and> row'' ! t = 0" "\<lambda>t. row ! t \<noteq> 0 \<and> row' ! t = 0"
      "\<lambda>t. row' ! t \<noteq> 0 \<and> row'' ! t = 0"]
  have "length (filter (\<lambda>t. row ! t \<noteq> 0 \<and> row'' ! t = 0) [0..<length row]) =
      length (filter (\<lambda>t. row ! t \<noteq> 0 \<and> row' ! t = 0) [0..<length row]) +
      length (filter (\<lambda>t. row' ! t \<noteq> 0 \<and> row'' ! t = 0) [0..<length row])"
    using assms(2,3) by (metis (no_types, lifting) atLeastLessThan_iff set_upt)
  then show ?thesis using assms(1) by (simp add: zeroed_def count_positions_def)
qed

text \<open>What a row update promises: the entries it zeroes and the count of newly zeroed ones.\<close>

definition zeroes :: "(nat \<Rightarrow> bool) \<Rightarrow> rat list \<times> mask_counts \<Rightarrow> rat list \<times> mask_counts \<Rightarrow> bool" where
  "zeroes P st st' \<longleftrightarrow> fst st' = zero_where P (fst st) \<and>
     mc_masked_tokens (snd st') = mc_masked_tokens (snd st) + zeroed (fst st) (fst st')"

lemma zeroes_trans: "zeroes P st st' \<Longrightarrow> zeroes Q st' st'' \<Longrightarrow> zeroes (\<lambda>t. P t \<or> Q t) st st''"
proof -
  assume a: "zeroes P st st'" "zeroes Q st' st''"
  have "zeroed (fst st) (fst st'') = zeroed (fst st) (fst st') + zeroed (fst st') (fst st'')"
    by (rule zeroed_twice) (use a in \<open>auto simp: zeroes_def\<close>)
  with a show ?thesis by (simp add: zeroes_def zero_where_twice)
qed

lemma zeroes_nothing: "(\<And>t. t < length (fst st) \<Longrightarrow> P t \<Longrightarrow> fst st ! t = 0) \<Longrightarrow>
    fst st' = fst st \<Longrightarrow> mc_masked_tokens (snd st') = mc_masked_tokens (snd st) \<Longrightarrow> zeroes P st st'"
  by (simp add: zeroes_def zero_where_id)

lemma mask_span_zeroes:
  "zeroes (\<lambda>t. apply_mask \<and> fst (snd e) \<and> in_span (fst e) t \<and> 0 < adv ! t) st (mask_span apply_mask adv st e)"
proof -
  obtain row counts where st: "st = (row, counts)" by (cases st)
  obtain key enabled recd where e: "e = (key, enabled, recd)" by (cases e)
  let ?pos = "\<lambda>t. in_span key t \<and> row ! t \<noteq> 0 \<and> 0 < adv ! t"
  consider "max (count_positions (length row) (\<lambda>t. in_span key t \<and> row ! t \<noteq> 0)) recd \<le> 0"
    | "\<not> apply_mask \<or> \<not> enabled"
    | "apply_mask" "enabled" "count_positions (length row) ?pos \<le> 0"
    | "\<not> max (count_positions (length row) (\<lambda>t. in_span key t \<and> row ! t \<noteq> 0)) recd \<le> 0"
      "apply_mask" "enabled" "\<not> count_positions (length row) ?pos \<le> 0"
    by blast
  then show ?thesis
  proof cases
    case 1
    then show ?thesis
      by (intro zeroes_nothing) (auto simp: st e mask_span_def Let_def count_positions_nonpos)
  next
    case 2
    then show ?thesis by (intro zeroes_nothing) (auto simp: st e mask_span_def Let_def)
  next
    case 3
    then show ?thesis
      by (intro zeroes_nothing) (auto simp: st e mask_span_def Let_def count_positions_nonpos)
  next
    case 4
    have row: "map (\<lambda>t. if ?pos t then 0 else row ! t) [0..<length row] = zero_where (\<lambda>t. in_span key t \<and> 0 < adv ! t) row"
      by (intro nth_equalityI) auto
    have "count_positions (length row) ?pos = zeroed row (zero_where (\<lambda>t. in_span key t \<and> 0 < adv ! t) row)"
      unfolding zeroed_def by (intro count_positions_cong) auto
    with 4 row show ?thesis by (auto simp: st e mask_span_def Let_def zeroes_def)
  qed
qed

lemma mask_spans_zeroes:
  "zeroes (\<lambda>t. apply_mask \<and> (\<exists>e \<in> set es. fst (snd e) \<and> in_span (fst e) t) \<and> 0 < adv ! t)
     st (foldl (mask_span apply_mask adv) st es)"
proof (induction es arbitrary: st)
  case Nil
  show ?case by (rule zeroes_nothing) auto
next
  case (Cons e es)
  have "(\<lambda>t. apply_mask \<and> fst (snd e) \<and> in_span (fst e) t \<and> 0 < adv ! t \<or>
      apply_mask \<and> (\<exists>e \<in> set es. fst (snd e) \<and> in_span (fst e) t) \<and> 0 < adv ! t) =
      (\<lambda>t. apply_mask \<and> (\<exists>e \<in> set (e # es). fst (snd e) \<and> in_span (fst e) t) \<and> 0 < adv ! t)"
    by auto
  with zeroes_trans [OF mask_span_zeroes [of apply_mask e adv st] Cons.IH] show ?case
    by simp
qed

lemma merge_spans_get:
  "dict_ok (foldl (merge_span w) [] spans) \<and>
   (case dict_get (foldl (merge_span w) [] spans) key of
      None \<Rightarrow> \<forall>sp \<in> set spans. span_bounds w sp \<noteq> Some key
    | Some (enabled, _) \<Rightarrow> enabled \<longleftrightarrow> (\<exists>sp \<in> set spans. span_bounds w sp = Some key \<and> span_enabled sp))"
proof (induction spans rule: rev_induct)
  case Nil
  show ?case by (simp add: dict_ok_def)
next
  case (snoc sp spans)
  let ?d = "foldl (merge_span w) [] spans"
  show ?case
  proof (cases "span_bounds w sp")
    case None
    with snoc show ?thesis by (auto simp: merge_span_def split: option.splits)
  next
    case (Some k)
    obtain enabled n where cur: "dict_get_default ?d k (False, 0) = (enabled, n)"
      by (cases "dict_get_default ?d k (False, 0)")
    have step: "foldl (merge_span w) [] (spans @ [sp]) = dict_set ?d k (enabled \<or> span_enabled sp, span_tokens sp n)"
      by (simp add: merge_span_def Some cur)
    have "enabled \<longleftrightarrow> (\<exists>sp \<in> set spans. span_bounds w sp = Some k \<and> span_enabled sp)" if "key = k"
      using snoc cur that by (cases "dict_get ?d k") (auto simp: dict_get_default_def)
    with snoc Some show ?thesis
      unfolding step by (cases "key = k") (auto split: option.splits)
  qed
qed

lemma merged_enabled:
  "(\<exists>e \<in> set (foldl (merge_span w) [] spans). fst (snd e) \<and> in_span (fst e) t) \<longleftrightarrow>
   (\<exists>sp \<in> set spans. span_enabled sp \<and> (\<exists>key. span_bounds w sp = Some key \<and> in_span key t))"
proof -
  let ?d = "foldl (merge_span w) [] spans"
  have mem: "(k, v) \<in> set ?d \<longleftrightarrow> dict_get ?d k = Some v" for k v
    using merge_spans_get [of w spans] by (simp add: dict_ok_def)
  have "(\<exists>e \<in> set ?d. fst (snd e) \<and> in_span (fst e) t) \<longleftrightarrow> (\<exists>k b n. (k, b, n) \<in> set ?d \<and> b \<and> in_span k t)"
    by (simp add: Bex_def split_paired_Ex)
  also have "\<dots> \<longleftrightarrow> (\<exists>k b n. dict_get ?d k = Some (b, n) \<and> b \<and> in_span k t)"
    by (simp only: mem)
  also have "\<dots> \<longleftrightarrow> (\<exists>k. (\<exists>sp \<in> set spans. span_bounds w sp = Some k \<and> span_enabled sp) \<and> in_span k t)"
  proof (intro ex_cong1)
    fix k
    show "(\<exists>b n. dict_get ?d k = Some (b, n) \<and> b \<and> in_span k t) \<longleftrightarrow>
        (\<exists>sp \<in> set spans. span_bounds w sp = Some k \<and> span_enabled sp) \<and> in_span k t"
      using merge_spans_get [of w spans k] by (auto split: option.splits)
  qed
  finally show ?thesis by blast
qed

definition in_enabled_span :: "nat \<Rightarrow> pyval \<Rightarrow> nat \<Rightarrow> bool" where
  "in_enabled_span response_length spans t \<longleftrightarrow>
     (\<exists>sp \<in> set (row_spans spans). span_enabled sp \<and>
        (\<exists>key. span_bounds response_length sp = Some key \<and> in_span key t))"

lemma mask_row_zeroes:
  "zeroes (\<lambda>t. apply_mask \<and> in_enabled_span w spans t \<and> 0 < adv ! t) st (mask_row apply_mask w adv spans st)"
  using mask_spans_zeroes [of apply_mask "foldl (merge_span w) [] (row_spans spans)" adv st]
  by (simp add: mask_row_def in_enabled_span_def merged_enabled)

lemma mask_rows_exact:
  assumes "length adv = length spans" "length spans = length msk"
    and "mask_rows apply_mask w adv spans msk counts = (msk', counts')"
  shows "length msk' = length msk \<and>
    (\<forall>i < length msk. msk' ! i = zero_where (\<lambda>t. apply_mask \<and> in_enabled_span w (spans ! i) t \<and> 0 < adv ! i ! t) (msk ! i)) \<and>
    mc_masked_tokens counts' = mc_masked_tokens counts + (\<Sum>i < length msk. zeroed (msk ! i) (msk' ! i))"
  using assms
proof (induction adv spans msk arbitrary: counts msk' counts' rule: list_induct3)
  case (Cons a adv sp spans row msk)
  obtain row' c1 where row: "mask_row apply_mask w a sp (row, counts) = (row', c1)"
    by (cases "mask_row apply_mask w a sp (row, counts)")
  obtain rest c2 where rest: "mask_rows apply_mask w adv spans msk c1 = (rest, c2)"
    by (cases "mask_rows apply_mask w adv spans msk c1")
  have out: "msk' = row' # rest" "counts' = c2"
    using Cons.prems row rest by simp_all
  have z: "row' = zero_where (\<lambda>t. apply_mask \<and> in_enabled_span w sp t \<and> 0 < a ! t) row"
    "mc_masked_tokens c1 = mc_masked_tokens counts + zeroed row row'"
    using mask_row_zeroes [of apply_mask w sp a "(row, counts)"] by (simp_all add: row zeroes_def)
  from Cons.IH [OF rest] z show ?case
    by (auto simp: out All_less_Suc2 sum.lessThan_Suc_shift simp del: sum.lessThan_Suc)
qed simp

text \<open>
  C24. The trainer's bad-turn mask is exact: with the switch on, the tokens removed from the response
  mask are those with a positive advantage inside an enabled recorded span of their row, and nothing
  else of the mask changes; with the switch off the mask does not change.  The masked-token metric is
  the number of tokens removed, however the spans overlap.
\<close>

theorem bad_turn_mask_exact:
  assumes len: "length adv = length msk" "length spans = length msk"
    and width: "\<forall>row \<in> set msk. length row = w"
    and run: "apply_nanoclaw_positive_advantage_bad_turn_mask env (Some adv) (Some msk) (Some spans) = (Some msk', metrics)"
  shows "same_shape msk' msk \<and>
    (\<forall>i < length msk. \<forall>t < length (msk ! i). msk' ! i ! t =
       (if bool_env env ''NANOCLAW_MASK_ONLY_POSITIVE_ADVANTAGE'' False \<and> 0 < adv ! i ! t \<and>
           in_enabled_span w (spans ! i) t then 0 else msk ! i ! t)) \<and>
    dict_get metrics ''nanoclaw/positive_advantage_bad_turn_masked_tokens'' =
      Some (of_int (\<Sum>i < length msk. int (length (filter (\<lambda>t. msk ! i ! t \<noteq> 0 \<and> msk' ! i ! t = 0)
        [0..<length (msk ! i)]))))"
proof -
  let ?on = "bool_env env ''NANOCLAW_MASK_ONLY_POSITIVE_ADVANTAGE'' False"
  let ?w = "case msk of [] \<Rightarrow> 0 | row # _ \<Rightarrow> length row"
  obtain counts where rows: "mask_rows ?on ?w adv spans msk no_counts = (msk', counts)"
    and m: "metrics = mask_metrics counts"
    using run by (auto simp: apply_nanoclaw_positive_advantage_bad_turn_mask_def Let_def split: prod.splits)
  have w: "?w = w" if "msk \<noteq> []" using that width by (cases msk) auto
  from mask_rows_exact [OF _ len(2) rows] len
  have ex: "length msk' = length msk"
    "\<And>i. i < length msk \<Longrightarrow> msk' ! i = zero_where (\<lambda>t. ?on \<and> in_enabled_span ?w (spans ! i) t \<and> 0 < adv ! i ! t) (msk ! i)"
    "mc_masked_tokens counts = (\<Sum>i < length msk. zeroed (msk ! i) (msk' ! i))"
    by (simp_all add: no_counts_def)
  have "same_shape msk' msk"
    unfolding same_shape_def by (intro nth_equalityI) (simp_all add: ex(1,2))
  moreover have "msk' ! i ! t = (if ?on \<and> 0 < adv ! i ! t \<and> in_enabled_span w (spans ! i) t then 0 else msk ! i ! t)"
    if "i < length msk" "t < length (msk ! i)" for i t
    using that w by (cases msk) (auto simp: ex(2))
  moreover have "dict_get metrics ''nanoclaw/positive_advantage_bad_turn_masked_tokens'' =
      Some (of_int (\<Sum>i < length msk. int (length (filter (\<lambda>t. msk ! i ! t \<noteq> 0 \<and> msk' ! i ! t = 0)
        [0..<length (msk ! i)]))))"
    by (simp add: m mask_metrics_def ex(3) zeroed_def count_positions_def)
  ultimately show ?thesis by blast
qed

subsection \<open>From the recorded turns to the masked tokens\<close>

lemma span_bounds_entry:
  "span_bounds w (entry_of msk ((tn, r, s, e), b)) =
     (if min (int w) e \<le> max 0 s then None else Some (max 0 s, min (int w) e))"
  "span_enabled (entry_of msk ((tn, r, s, e), b)) = b"
  by (simp_all add: entry_of_def span_entry_def span_bounds_def span_enabled_def dict_get_default_def
      py_int_of_def py_truthy_def Let_def)

lemma in_enabled_span_entries:
  assumes "t < w"
  shows "(\<exists>sp \<in> set (map (entry_of msk) xs). span_enabled sp \<and> (\<exists>key. span_bounds w sp = Some key \<and> in_span key t)) \<longleftrightarrow>
    (\<exists>((tn, r, s, e), b) \<in> set xs. b \<and> s \<le> int t \<and> int t < e)"
proof -
  have "(span_enabled (entry_of msk x) \<and> (\<exists>key. span_bounds w (entry_of msk x) = Some key \<and> in_span key t)) \<longleftrightarrow>
      (case x of ((tn, r, s, e), b) \<Rightarrow> b \<and> s \<le> int t \<and> int t < e)" for x
  proof -
    obtain tn r s e b where "x = ((tn, r, s, e), b)" by (metis prod.collapse)
    then show ?thesis using assms by (auto simp: span_bounds_entry in_span_def)
  qed
  then show ?thesis by (simp add: split_def)
qed

lemma records_enabled:
  assumes ok: "records_ok msk calls ad" and t: "t < w"
  shows "(\<exists>sp \<in> set (bad_spans ad). span_enabled sp \<and> (\<exists>key. span_bounds w sp = Some key \<and> in_span key t)) \<longleftrightarrow>
    (\<exists>(tn, r, s, e, en) \<in> set calls. en \<and> s \<le> int t \<and> int t < min e (int (length msk)))"
proof -
  obtain xs where xs: "bad_spans ad = map (entry_of msk) xs"
      "fst ` set xs = call_key msk ` {c \<in> set calls. call_recorded msk c}"
      "\<forall>(k, b) \<in> set xs. b \<longleftrightarrow> (\<exists>c \<in> set calls. call_key msk c = k \<and> call_enabled c)"
    using ok unfolding records_ok_def by blast
  have "(\<exists>((tn, r, s, e), b) \<in> set xs. b \<and> s \<le> int t \<and> int t < e) \<longleftrightarrow>
      (\<exists>(tn, r, s, e, en) \<in> set calls. en \<and> s \<le> int t \<and> int t < min e (int (length msk)))"
  proof
    assume "\<exists>((tn, r, s, e), b) \<in> set xs. b \<and> s \<le> int t \<and> int t < e"
    then obtain tn r s e where "((tn, r, s, e), True) \<in> set xs" and se: "s \<le> int t" "int t < e" by auto
    with xs(3) obtain c where "c \<in> set calls" "call_key msk c = (tn, r, s, e)" "call_enabled c" by fastforce
    then show "\<exists>(tn, r, s, e, en) \<in> set calls. en \<and> s \<le> int t \<and> int t < min e (int (length msk))"
      using se by (intro bexI [of _ c]) (auto simp: call_key_def call_enabled_def)
  next
    assume "\<exists>(tn, r, s, e, en) \<in> set calls. en \<and> s \<le> int t \<and> int t < min e (int (length msk))"
    then obtain tn r s e where c: "(tn, r, s, e, True) \<in> set calls" and se: "s \<le> int t" "int t < min e (int (length msk))"
      by auto
    let ?k = "(tn, r, s, min e (int (length msk)))"
    have "?k \<in> call_key msk ` {c \<in> set calls. call_recorded msk c}"
      using c se by (intro image_eqI [of _ _ "(tn, r, s, e, True)"]) (auto simp: call_key_def call_recorded_def)
    then obtain b where kb: "(?k, b) \<in> set xs" using xs(2) by (metis (no_types, lifting) imageE prod.collapse)
    moreover have "b"
      using xs(3) kb c by (fastforce simp: call_key_def call_enabled_def)
    ultimately show "\<exists>((tn, r, s, e), b) \<in> set xs. b \<and> s \<le> int t \<and> int t < e"
      using se by (intro bexI [of _ "(?k, b)"]) auto
  qed
  then show ?thesis unfolding xs(1) in_enabled_span_entries [OF t] .
qed

lemma record_call_column:
  "pget (ad_extra_fields ad) ''nanoclaw_bad_turn_spans'' \<in> {PNone} \<union> range PList \<Longrightarrow>
   pget (ad_extra_fields (foldl record_call ad calls)) ''nanoclaw_bad_turn_spans'' \<in> {PNone} \<union> range PList"
proof (induction calls arbitrary: ad)
  case (Cons c calls)
  have "pget (ad_extra_fields (record_call ad c)) ''nanoclaw_bad_turn_spans'' \<in> {PNone} \<union> range PList"
    using Cons.prems
    by (auto simp: record_call_def nanoclaw_record_bad_turn_span_def set_extra_def pget_set Let_def
        split: prod.splits option.splits)
  then show ?case using Cons.IH by simp
qed simp

lemma row_spans_column:
  "pget (ad_extra_fields ad) ''nanoclaw_bad_turn_spans'' \<in> {PNone} \<union> range PList \<Longrightarrow>
   row_spans (pget (ad_extra_fields ad) ''nanoclaw_bad_turn_spans'') = bad_spans ad"
  by (auto simp: bad_spans_def row_spans_def)



theorem bad_turn_mask_exact_witness:
  "case apply_nanoclaw_positive_advantage_bad_turn_mask (\<lambda>_. Some ''true'') (Some [[1, - 1, 1]]) (Some [[1, 1, 1]])
      (Some [PList [PDict [(''start'', PInt 0), (''end'', PInt 2)], PDict [(''start'', PInt 1), (''end'', PInt 9)]]]) of
     (Some msk', metrics) \<Rightarrow> same_shape msk' [[1, 1, 1 :: rat]] \<and>
       dict_get metrics ''nanoclaw/positive_advantage_bad_turn_masked_tokens'' = Some 2
   | _ \<Rightarrow> False"
proof -
  let ?sp = "[PList [PDict [(''start'', PInt 0), (''end'', PInt 2)], PDict [(''start'', PInt 1), (''end'', PInt 9)]]]"
  have run: "apply_nanoclaw_positive_advantage_bad_turn_mask (\<lambda>_. Some ''true'') (Some [[1, - 1, 1]]) (Some [[1, 1, 1]]) (Some ?sp) =
      (Some [[0, 1, 0]], [(''nanoclaw/positive_advantage_bad_turn_candidate_turns'', 2),
        (''nanoclaw/positive_advantage_bad_turn_candidate_tokens'', 4),
        (''nanoclaw/positive_advantage_bad_turn_masked_turns'', 2),
        (''nanoclaw/positive_advantage_bad_turn_masked_tokens'', 2)])"
    by code_simp
  have "length [[1, - 1, 1 :: rat]] = length [[1, 1, 1 :: rat]]" "length ?sp = length [[1, 1, 1 :: rat]]"
    "\<forall>row \<in> set [[1, 1, 1 :: rat]]. length row = 3" by simp_all
  from bad_turn_mask_exact [OF this run] show ?thesis by (simp add: run)
qed

end
