(* ===== verification/Advantage.thy ===== *)
theory Advantage
  imports TensorOps PyStr "HOL-Library.Char_ord" "HOL-Library.List_Lexorder"
begin

text \<open>
  The advantage estimators of \<open>verl/trainer/ppo/core_algos.py\<close>: GAE, the group-relative
  estimators (GRPO, Pass@k, RLOO, OPO, GPG, REINFORCE++ with baseline), REINFORCE++ and ReMax, with
  the vectorised versions of GRPO and RLOO and the helpers of \<open>verl/utils/groupwise.py\<close> they use.
  A group label is a string (the \<open>uid\<close> of the prompt).  \<open>fsqrt\<close> and \<open>rsqrt\<close> are the square root
  and its reciprocal, \<open>topk2\<close> the two largest entries of a vector as \<open>torch.topk\<close> picks them.
\<close>

subsection \<open>Groups\<close>

definition dict_append :: "('k, 'v list) dict \<Rightarrow> 'k \<Rightarrow> 'v \<Rightarrow> ('k, 'v list) dict" where
  "dict_append d k v = dict_set d k (dict_get_default d k [] @ [v])"

definition collect :: "'k list \<Rightarrow> 'v list \<Rightarrow> ('k, 'v list) dict" where
  "collect index scores = foldl (\<lambda>d (k, v). dict_append d k v) [] (zip index scores)"

definition members :: "'k list \<Rightarrow> 'v list \<Rightarrow> 'k \<Rightarrow> 'v list" where
  "members index scores k = map snd (filter (\<lambda>p. fst p = k) (zip index scores))"

definition dict_fetch :: "(string, 'v) dict \<Rightarrow> string \<Rightarrow> 'v result" where
  "dict_fetch d k = (case dict_get d k of None \<Rightarrow> Inl (KeyError k) | Some v \<Rightarrow> Inr v)"

definition per_group ::
  "(string \<Rightarrow> 'v list \<Rightarrow> 'b result) \<Rightarrow> (string, 'v list) dict \<Rightarrow> (string, 'b) dict result" where
  "per_group f d = rmap (\<lambda>(k, xs). rbind (f k xs) (\<lambda>y. Inr (k, y))) d"

definition tmean :: "rat list \<Rightarrow> rat" where
  "tmean xs = sum_list xs / of_nat (length xs)"

definition tvar :: "rat list \<Rightarrow> rat" where
  "tvar xs = sum_list (map (\<lambda>x. (x - tmean xs)\<^sup>2) xs) / (of_nat (length xs) - 1)"

definition no_score :: "string \<Rightarrow> 'a result" where
  "no_score idx = Inl (ValueError (''no score in prompt index: '' @ idx))"

subsection \<open>Generalised advantage estimation\<close>

definition gae_step :: "rat \<Rightarrow> rat \<Rightarrow> rat \<times> rat \<times> rat \<Rightarrow> rat \<times> rat \<times> rat list \<Rightarrow> rat \<times> rat \<times> rat list" where
  "gae_step gamma lam = (\<lambda>(reward, val, m) (nextvalues, lastgaelam, acc).
     let delta = reward + gamma * nextvalues - val;
         td_lambda = delta + gamma * lam * lastgaelam;
         nextvalues' = val * m + (1 - m) * nextvalues;
         lastgaelam' = td_lambda * m + (1 - m) * lastgaelam
     in (nextvalues', lastgaelam', lastgaelam' # acc))"

definition gae_row :: "rat \<Rightarrow> rat \<Rightarrow> rat list \<Rightarrow> rat list \<Rightarrow> rat list \<Rightarrow> rat list" where
  "gae_row gamma lam rewards values msk =
     snd (snd (foldr (gae_step gamma lam) (zip rewards (zip values msk)) (0, 0, [])))"

definition compute_gae_advantage_return ::
  "(rat \<Rightarrow> rat) \<Rightarrow> tensor \<Rightarrow> tensor \<Rightarrow> tensor \<Rightarrow> rat \<Rightarrow> rat \<Rightarrow> (tensor \<times> tensor) result" where
  "compute_gae_advantage_return rsqrt token_level_rewards values response_mask gamma lam =
     (let advantages = map (\<lambda>(r, v, m). gae_row gamma lam r v m)
            (zip token_level_rewards (zip values response_mask));
          returns = zipm (+) advantages values
      in rbind (masked_whiten rsqrt advantages response_mask True) (\<lambda>whitened.
           Inr (whitened, returns)))"

subsection \<open>GRPO\<close>

definition grpo_stats :: "(rat \<Rightarrow> rat) \<Rightarrow> string \<Rightarrow> rat list \<Rightarrow> (rat \<times> rat) result" where
  "grpo_stats fsqrt idx ss =
     (if length ss = 1 then Inr (0, 1)
      else if length ss > 1 then Inr (tmean ss, fsqrt (tvar ss))
      else no_score idx)"

definition compute_grpo_outcome_advantage ::
  "(rat \<Rightarrow> rat) \<Rightarrow> tensor \<Rightarrow> tensor \<Rightarrow> string list \<Rightarrow> rat \<Rightarrow> bool \<Rightarrow> (tensor \<times> tensor) result" where
  "compute_grpo_outcome_advantage fsqrt token_level_rewards response_mask index epsilon norm_adv_by_std =
     (let scores = row_sums token_level_rewards;
          id2score = collect index scores
      in rbind (per_group (grpo_stats fsqrt) id2score) (\<lambda>id2stat.
         rbind (rmap (\<lambda>(s, u). rbind (dict_fetch id2stat u) (\<lambda>(mean, std).
                   Inr (if norm_adv_by_std then (s - mean) / (std + epsilon) else s - mean)))
                 (zip scores index)) (\<lambda>scores'.
           let a = broadcast_rows scores' response_mask in Inr (a, a))))"

text \<open>
  \<open>as_torch_index\<close> on string labels: labels that are all numerals are their values, any others are
  their positions among the sorted distinct labels (\<open>np.unique(..., return_inverse=True)\<close>).
\<close>

definition position :: "'a \<Rightarrow> 'a list \<Rightarrow> nat" where
  "position x xs = length (takeWhile (\<lambda>y. y \<noteq> x) xs)"

definition unique_inverse :: "string list \<Rightarrow> nat list" where
  "unique_inverse labels = (let uniq = sorted_list_of_set (set labels)
     in map (\<lambda>l. position l uniq) labels)"

definition int64_numeral :: "string \<Rightarrow> int option" where
  "int64_numeral s = (case py_int s of
     None \<Rightarrow> None
   | Some i \<Rightarrow> if - (2 ^ 63) \<le> i \<and> i < 2 ^ 63 then Some i else None)"

definition numeral_labels :: "string list \<Rightarrow> bool" where
  "numeral_labels labels = list_all (\<lambda>l. int64_numeral l \<noteq> None) labels"

definition as_torch_index :: "string list \<Rightarrow> int list" where
  "as_torch_index labels =
     (if numeral_labels labels then map (\<lambda>l. the (int64_numeral l)) labels
      else map int (unique_inverse labels))"

text \<open>\<open>torch.zeros(G).index_add_(0, gidx, xs)\<close> and \<open>torch.bincount(gidx, weights=xs)\<close>.\<close>

definition index_add :: "nat \<Rightarrow> int list \<Rightarrow> rat list \<Rightarrow> rat list" where
  "index_add n gidx xs =
     map (\<lambda>g. sum_list (map snd (filter (\<lambda>p. fst p = int g) (zip gidx xs)))) [0..<n]"

definition group_mean_std ::
  "(rat \<Rightarrow> rat) \<Rightarrow> rat list \<Rightarrow> int list \<Rightarrow> rat \<Rightarrow> (rat list \<times> rat list \<times> rat list) result" where
  "group_mean_std fsqrt scores gidx eps =
     (if length scores \<noteq> length gidx then
        Inl (ValueError (''scores and gidx length mismatch: '' @ int_str (int (length scores)) @
          '' vs '' @ int_str (int (length gidx))))
      else if gidx = [] then Inr ([], [], [])
      else if \<exists>g \<in> set gidx. g < 0 then Inl IndexError
      else
        (let n = nat (Max (set gidx)) + 1;
             count = index_add n gidx (map (\<lambda>_. 1) scores);
             s1 = index_add n gidx scores;
             mean = map2 (\<lambda>s c. s / max c 1) s1 count;
             centered = map2 (\<lambda>s g. s - mean ! nat g) scores gidx;
             var_num = index_add n gidx (map (\<lambda>c. c * c) centered);
             var = map2 (\<lambda>v c. v / max (c - 1) 1) var_num count;
             std = map (\<lambda>v. fsqrt (max v eps)) var
         in Inr (map2 (\<lambda>m c. if c \<le> 1 then 0 else m) mean count,
                 map2 (\<lambda>s c. if c \<le> 1 then 1 else s) std count, count)))"

definition compute_grpo_vectorized_outcome_advantage ::
  "(rat \<Rightarrow> rat) \<Rightarrow> tensor \<Rightarrow> tensor \<Rightarrow> string list \<Rightarrow> rat \<Rightarrow> bool \<Rightarrow> (tensor \<times> tensor) result" where
  "compute_grpo_vectorized_outcome_advantage fsqrt token_level_rewards response_mask index epsilon norm_adv_by_std =
     (let scores = row_sums token_level_rewards;
          g = as_torch_index index
      in rbind (group_mean_std fsqrt scores g 0) (\<lambda>(mean_g, std_g, _).
           let scalars = map2 (\<lambda>s k. if norm_adv_by_std
                   then (s - mean_g ! nat k) / (std_g ! nat k + epsilon)
                   else s - mean_g ! nat k) scores g;
               advantages = broadcast_rows scalars response_mask
           in Inr (advantages, advantages)))"

subsection \<open>The other group-relative estimators\<close>

definition passk_step ::
  "(rat \<Rightarrow> rat) \<Rightarrow> (rat list \<Rightarrow> (rat \<times> nat) \<times> (rat \<times> nat)) \<Rightarrow> (string, nat list) dict \<Rightarrow> rat \<Rightarrow> bool \<Rightarrow>
   rat list \<Rightarrow> string \<times> rat list \<Rightarrow> rat list result" where
  "passk_step fsqrt topk2 id2indices epsilon norm_adv_by_std advantages = (\<lambda>(idx, rewards).
     if length rewards < 2 then
       Inl (ValueError (''Pass@k requires at least 2 samples per group. Got '' @
         int_str (int (length rewards)) @ '' for group '' @ idx @ ''.''))
     else
       (let ((r_max, k), (r_second_max, _)) = topk2 rewards
        in rbind (dict_fetch id2indices idx) (\<lambda>indices.
           rbind (list_get indices k) (\<lambda>i_max.
             let advantage = r_max - r_second_max;
                 advantage = (if norm_adv_by_std then advantage / (fsqrt (tvar rewards) + epsilon) else advantage)
             in Inr (advantages[i_max := advantage])))))"

definition compute_grpo_passk_outcome_advantage ::
  "(rat \<Rightarrow> rat) \<Rightarrow> (rat list \<Rightarrow> (rat \<times> nat) \<times> (rat \<times> nat)) \<Rightarrow> tensor \<Rightarrow> tensor \<Rightarrow> string list \<Rightarrow> rat \<Rightarrow> bool \<Rightarrow>
   (tensor \<times> tensor) result" where
  "compute_grpo_passk_outcome_advantage fsqrt topk2 token_level_rewards response_mask index epsilon norm_adv_by_std =
     (let scores = row_sums token_level_rewards;
          id2scores = collect index scores;
          id2indices = collect index [0..<length scores]
      in rbind (rfold (passk_step fsqrt topk2 id2indices epsilon norm_adv_by_std)
             (map (\<lambda>_. 0) scores) id2scores) (\<lambda>advantages.
           let a = broadcast_rows advantages response_mask in Inr (a, a)))"

definition group_baseline :: "string \<Rightarrow> rat list \<Rightarrow> rat result" where
  "group_baseline idx ss =
     (if length ss = 1 then Inr 0 else if length ss > 1 then Inr (tmean ss) else no_score idx)"

definition compute_reinforce_plus_plus_baseline_outcome_advantage ::
  "(rat \<Rightarrow> rat) \<Rightarrow> tensor \<Rightarrow> tensor \<Rightarrow> string list \<Rightarrow> (tensor \<times> tensor) result" where
  "compute_reinforce_plus_plus_baseline_outcome_advantage rsqrt token_level_rewards response_mask index =
     (let scores = row_sums token_level_rewards;
          id2score = collect index scores
      in rbind (per_group group_baseline id2score) (\<lambda>id2mean.
         rbind (rmap (\<lambda>(s, u). rbind (dict_fetch id2mean u) (\<lambda>mean. Inr (s - mean)))
                 (zip scores index)) (\<lambda>scores'.
         rbind (masked_whiten rsqrt (broadcast_rows scores' response_mask) response_mask True) (\<lambda>w.
           let a = zipm (*) w response_mask in Inr (a, a)))))"

definition compute_rloo_outcome_advantage ::
  "tensor \<Rightarrow> tensor \<Rightarrow> string list \<Rightarrow> (tensor \<times> tensor) result" where
  "compute_rloo_outcome_advantage token_level_rewards response_mask index =
     (let scores = row_sums token_level_rewards;
          id2score = collect index scores
      in rbind (per_group group_baseline id2score) (\<lambda>id2mean.
         rbind (rmap (\<lambda>(s, u). rbind (dict_fetch id2score u) (\<lambda>ss.
                   let n = of_nat (length ss)
                   in if length ss > 1 then rbind (dict_fetch id2mean u) (\<lambda>mean.
                        Inr (s * n / (n - 1) - mean * n / (n - 1)))
                      else Inr s))
                 (zip scores index)) (\<lambda>scores'.
           let a = broadcast_rows scores' response_mask in Inr (a, a))))"

definition bincount :: "nat list \<Rightarrow> rat list \<Rightarrow> rat list" where
  "bincount ginv weights =
     index_add (if ginv = [] then 0 else Suc (Max (set ginv))) (map int ginv) weights"

definition compute_rloo_vectorized_outcome_advantage ::
  "tensor \<Rightarrow> tensor \<Rightarrow> string list \<Rightarrow> tensor \<times> tensor" where
  "compute_rloo_vectorized_outcome_advantage token_level_rewards response_mask index =
     (let scores = row_sums token_level_rewards;
          ginv = unique_inverse index;
          counts = bincount ginv (map (\<lambda>_. 1) ginv);
          totals = bincount ginv scores;
          adv = map2 (\<lambda>s k. let c = counts ! k
                  in (c * s - totals ! k) / max (c - 1) 1 * of_bool_mask (c > 1)) scores ginv;
          a = broadcast_rows adv response_mask
      in (a, a))"

text \<open>
  OPO weights the scores of a group by the response lengths.  A group without any response token
  divides zero by zero: its rows are \<open>None\<close>, standing for rows of NaN.
\<close>

definition opo_baseline :: "string \<Rightarrow> (rat \<times> rat) list \<Rightarrow> rat option result" where
  "opo_baseline idx ps =
     (if length ps = 1 then Inr (Some 0)
      else if length ps > 1 then
        Inr (fdiv (sum_list (map (\<lambda>(s, l). l * s) ps)) (sum_list (map snd ps)))
      else no_score idx)"

definition compute_opo_outcome_advantage ::
  "tensor \<Rightarrow> tensor \<Rightarrow> string list \<Rightarrow> rat list option list result" where
  "compute_opo_outcome_advantage token_level_rewards response_mask index =
     (let response_length = row_sums response_mask;
          scores = row_sums token_level_rewards;
          id2pair = collect index (zip scores response_length)
      in rbind (per_group opo_baseline id2pair) (\<lambda>id2bsl.
         rbind (rmap (\<lambda>(s, u). rbind (dict_fetch id2bsl u) (\<lambda>bsl. Inr (map_option (\<lambda>b. s - b) bsl)))
                 (zip scores index)) (\<lambda>scores'.
           Inr (map2 (\<lambda>x row. map_option (\<lambda>s. map (\<lambda>k. s * k) row) x) scores' response_mask))))"

definition compute_gpg_outcome_advantage ::
  "tensor \<Rightarrow> tensor \<Rightarrow> string list \<Rightarrow> rat \<Rightarrow> (tensor \<times> tensor) result" where
  "compute_gpg_outcome_advantage token_level_rewards response_mask index f_norm =
     (let scores = row_sums token_level_rewards;
          m = of_nat (length (filter (\<lambda>s. s \<noteq> 0) scores));
          alpha = of_nat (length scores) / max m 1;
          id2score = collect index scores
      in rbind (per_group group_baseline id2score) (\<lambda>id2mean.
         rbind (rmap (\<lambda>(s, u). rbind (dict_fetch id2mean u) (\<lambda>mean. Inr (alpha * (s - mean) / f_norm)))
                 (zip scores index)) (\<lambda>scores'.
           let a = broadcast_rows scores' response_mask in Inr (a, a))))"

subsection \<open>REINFORCE++ and ReMax\<close>

definition rpp_step :: "rat \<Rightarrow> rat \<times> rat \<Rightarrow> rat \<times> rat list \<Rightarrow> rat \<times> rat list" where
  "rpp_step gamma = (\<lambda>(reward, m) (running_return, returns).
     let running_return' = reward + gamma * running_return
     in (running_return' * m, running_return' # returns))"

definition rpp_returns :: "rat \<Rightarrow> rat list \<Rightarrow> rat list \<Rightarrow> rat list" where
  "rpp_returns gamma rewards msk = snd (foldr (rpp_step gamma) (zip rewards msk) (0, []))"

definition compute_reinforce_plus_plus_outcome_advantage ::
  "(rat \<Rightarrow> rat) \<Rightarrow> tensor \<Rightarrow> tensor \<Rightarrow> rat \<Rightarrow> (tensor \<times> tensor) result" where
  "compute_reinforce_plus_plus_outcome_advantage rsqrt token_level_rewards response_mask gamma =
     (let returns = map2 (rpp_returns gamma) token_level_rewards response_mask
      in rbind (masked_whiten rsqrt returns response_mask True) (\<lambda>w.
           Inr (zipm (*) w response_mask, returns)))"

definition compute_remax_outcome_advantage ::
  "tensor \<Rightarrow> rat list \<Rightarrow> tensor \<Rightarrow> tensor \<times> tensor" where
  "compute_remax_outcome_advantage token_level_rewards reward_baselines response_mask =
     (let returns = map suffix_sums (zipm (*) token_level_rewards response_mask)
      in (zipm (-) returns (broadcast_rows reward_baselines response_mask), returns))"

subsection \<open>Groups and their statistics\<close>

lemma foldl_dict_append_get:
  "dict_get (foldl (\<lambda>d (k, v). dict_append d k v) [] ps) k =
   (if k \<in> fst ` set ps then Some (map snd (filter (\<lambda>p. fst p = k) ps)) else None)"
proof (induction ps rule: rev_induct)
  case (snoc p ps)
  have "filter (\<lambda>p. fst p = k) ps = []" if "k \<notin> fst ` set ps"
    using that by (auto simp: filter_empty_conv)
  with snoc show ?case
    by (cases p) (auto simp: dict_append_def dict_get_default_def)
qed simp

lemma foldl_dict_append_ok: "dict_ok (foldl (\<lambda>d (k, v). dict_append d k v) [] ps)"
  by (induction ps rule: rev_induct) (auto simp: dict_append_def split: prod.splits, simp add: dict_ok_def)

lemma collect_get:
  assumes "length index = length xs"
  shows "dict_get (collect index xs) k = (if k \<in> set index then Some (members index xs k) else None)"
proof -
  have "fst ` set (zip index xs) = set index"
    using assms by (metis map_fst_zip set_map)
  then show ?thesis
    by (simp add: collect_def members_def foldl_dict_append_get)
qed

lemma collect_entry:
  assumes "length index = length xs" "(k, ys) \<in> set (collect index xs)"
  shows "k \<in> set index \<and> ys = members index xs k"
proof -
  have "dict_get (collect index xs) k = Some ys"
    using assms(2) foldl_dict_append_ok [of "zip index xs"] by (simp add: collect_def dict_ok_def)
  then show ?thesis
    using collect_get [OF assms(1), of k] by (simp split: if_splits)
qed

lemma dict_get_map_snd: "dict_get (map (\<lambda>(k, xs). (k, g k xs)) d) k = map_option (g k) (dict_get d k)"
  by (induction d) auto

lemma per_group_fetch:
  assumes len: "length index = length xs"
    and f: "\<And>k. k \<in> set index \<Longrightarrow> f k (members index xs k) = Inr (g k)"
  shows "\<exists>d. per_group f (collect index xs) = Inr d \<and> (\<forall>k \<in> set index. dict_fetch d k = Inr (g k))"
proof -
  let ?d = "map (\<lambda>(k, ys). (k, g k)) (collect index xs)"
  have "per_group f (collect index xs) = Inr ?d"
    unfolding per_group_def
    by (rule rmap_total) (auto dest!: collect_entry [OF len] simp: f)
  moreover have "dict_fetch ?d k = Inr (g k)" if "k \<in> set index" for k
    using collect_get [OF len, of k] that
    by (simp add: dict_fetch_def dict_get_map_snd [where g = "\<lambda>k _. g k"])
  ultimately show ?thesis by blast
qed

lemma members_index:
  assumes "length index = length xs"
  shows "members index xs k = map ((!) xs) (filter (\<lambda>i. index ! i = k) [0..<length xs])"
proof -
  have "zip index xs = map (\<lambda>i. (index ! i, xs ! i)) [0..<length xs]"
    using assms by (intro nth_equalityI) auto
  then show ?thesis
    by (simp add: members_def filter_map o_def)
qed

definition group_rows :: "'k list \<Rightarrow> 'k \<Rightarrow> nat set" where
  "group_rows index k = {i. i < length index \<and> index ! i = k}"

lemma group_rows_finite [simp]: "finite (group_rows index k)"
  by (simp add: group_rows_def)

lemma group_rows_set:
  "length index = length xs \<Longrightarrow> set (filter (\<lambda>i. index ! i = k) [0..<length xs]) = group_rows index k"
  by (auto simp: group_rows_def)

lemma members_sum:
  "length index = length xs \<Longrightarrow> sum_list (map f (members index xs k)) = (\<Sum>i \<in> group_rows index k. f (xs ! i))"
  by (simp add: members_index o_def group_rows_set sum_list_distinct_conv_sum_set flip: group_rows_set)

lemma members_length:
  "length index = length xs \<Longrightarrow> length (members index xs k) = card (group_rows index k)"
  by (simp add: members_index flip: group_rows_set distinct_card)

lemma group_rows_pos: "k \<in> set index \<Longrightarrow> 0 < card (group_rows index k)"
  by (auto simp: card_gt_0_iff group_rows_def in_set_conv_nth)

lemma group_rows_self: "i < length index \<Longrightarrow> i \<in> group_rows index (index ! i)"
  by (simp add: group_rows_def)

lemma members_not_empty:
  "length index = length xs \<Longrightarrow> k \<in> set index \<Longrightarrow> members index xs k \<noteq> []"
  using members_length [of index xs k] group_rows_pos [of k index] by auto

lemma members_not_single:
  "length index = length xs \<Longrightarrow> k \<in> set index \<Longrightarrow> length (members index xs k) \<noteq> Suc 0 \<Longrightarrow>
   Suc 0 < length (members index xs k)"
  using members_not_empty [of index xs k] by (cases "members index xs k") auto

text \<open>
  The interface of a group-relative estimator: a statistic that is defined on every non-empty
  group.  Then the group dictionary of the code has it for every label, and the code's two passes
  compute one scalar per row.
\<close>

locale group_statistic =
  fixes stat :: "string \<Rightarrow> 'v list \<Rightarrow> 'b result" and stat_of :: "'v list \<Rightarrow> 'b"
  assumes stat_val: "ms \<noteq> [] \<Longrightarrow> stat k ms = Inr (stat_of ms)"
begin

lemma fetch:
  assumes "length index = length ys"
  shows "\<exists>d. per_group stat (collect index ys) = Inr d \<and>
    (\<forall>k \<in> set index. dict_fetch d k = Inr (stat_of (members index ys k)))"
  by (rule per_group_fetch [where f = stat, OF assms]) (simp add: stat_val members_not_empty assms)

lemma rows:
  assumes len: "length index = length xs" and len': "length index = length ys"
    and h: "\<And>i d. i < length xs \<Longrightarrow> dict_fetch d (index ! i) = Inr (stat_of (members index ys (index ! i))) \<Longrightarrow>
              h d (xs ! i, index ! i) = Inr (v i)"
  shows "rbind (per_group stat (collect index ys)) (\<lambda>d. rbind (rmap (h d) (zip xs index)) c) =
         c (map v [0..<length xs])"
proof -
  obtain d where d: "per_group stat (collect index ys) = Inr d"
      and fetch: "\<forall>k \<in> set index. dict_fetch d k = Inr (stat_of (members index ys k))"
    using fetch [OF len'] by blast
  have "zip xs index = map (\<lambda>i. (xs ! i, index ! i)) [0..<length xs]"
    using len by (intro nth_equalityI) auto
  moreover have "rmap (h d) (map (\<lambda>i. (xs ! i, index ! i)) is) = Inr (map v is)"
    if "set is \<subseteq> {..<length xs}" for "is"
    using that fetch len by (induction "is") (simp_all add: h)
  ultimately show ?thesis by (simp add: d subset_iff)
qed

end

interpretation grpo_group: group_statistic "grpo_stats fsqrt"
  "\<lambda>ms. if length ms = 1 then (0, 1) else (tmean ms, fsqrt (tvar ms))" for fsqrt
  by unfold_locales (auto simp: grpo_stats_def neq_Nil_conv)

interpretation baseline_group: group_statistic group_baseline "\<lambda>ms. if length ms = 1 then 0 else tmean ms"
  by unfold_locales (auto simp: group_baseline_def neq_Nil_conv)

interpretation opo_group: group_statistic opo_baseline "\<lambda>ms. if length ms = 1 then Some 0
    else fdiv (sum_list (map (\<lambda>(s, l). l * s) ms)) (sum_list (map snd ms))"
  by unfold_locales (auto simp: opo_baseline_def neq_Nil_conv)

lemma sum_deviation:
  fixes f :: "nat \<Rightarrow> rat"
  assumes "finite A" "A \<noteq> {}"
  shows "(\<Sum>i \<in> A. f i - (\<Sum>j \<in> A. f j) / of_nat (card A)) = 0"
  using assms by (simp add: sum_subtractf)

lemma members_mean:
  "length index = length xs \<Longrightarrow>
   tmean (members index xs k) = (\<Sum>i \<in> group_rows index k. xs ! i) / of_nat (card (group_rows index k))"
  using members_sum [where f = "\<lambda>x::rat. x" and k = k and index = index and xs = xs]
  by (simp add: tmean_def members_length)

definition grpo_scalar :: "(rat \<Rightarrow> rat) \<Rightarrow> rat list \<Rightarrow> string list \<Rightarrow> rat \<Rightarrow> bool \<Rightarrow> nat \<Rightarrow> rat" where
  "grpo_scalar fsqrt scores index eps nrm i =
     (let ms = members index scores (index ! i);
          m = (if length ms = 1 then 0 else tmean ms); sd = (if length ms = 1 then 1 else fsqrt (tvar ms))
      in if nrm then (scores ! i - m) / (sd + eps) else scores ! i - m)"

lemma grpo_closed:
  assumes "length index = length rewards"
  shows "compute_grpo_outcome_advantage fsqrt rewards msk index eps nrm =
    (let a = broadcast_rows (map (grpo_scalar fsqrt (row_sums rewards) index eps nrm) [0..<length rewards]) msk
     in Inr (a, a))"
proof -
  let ?s = "row_sums rewards"
  have len: "length index = length ?s" using assms by (simp add: row_sums_def)
  show ?thesis
    unfolding compute_grpo_outcome_advantage_def Let_def
    by (subst grpo_group.rows [OF len len, where v = "grpo_scalar fsqrt ?s index eps nrm"])
      (simp_all add: grpo_scalar_def Let_def row_sums_def)
qed

definition grpo_scale :: "(rat \<Rightarrow> rat) \<Rightarrow> rat list \<Rightarrow> rat \<Rightarrow> bool \<Rightarrow> rat" where
  "grpo_scale fsqrt ms eps nrm = (if \<not> nrm then 1 else if length ms = 1 then 1 + eps else fsqrt (tvar ms) + eps)"

lemma grpo_scalar_group:
  assumes "i \<in> group_rows index u"
  shows "grpo_scalar fsqrt scores index eps nrm i =
    (scores ! i - (if length (members index scores u) = 1 then 0 else tmean (members index scores u))) /
    grpo_scale fsqrt (members index scores u) eps nrm"
  using assms by (auto simp: grpo_scalar_def grpo_scale_def group_rows_def Let_def)

lemma group_centered_sum:
  assumes "length index = length scores" "u \<in> set index"
  shows "(\<Sum>i \<in> group_rows index u. (scores ! i - tmean (members index scores u)) / c) = (0::rat)"
proof -
  have "group_rows index u \<noteq> {}"
    using group_rows_pos [OF assms(2)] by auto
  then have "(\<Sum>i \<in> group_rows index u. scores ! i - tmean (members index scores u)) = 0"
    using sum_deviation [of "group_rows index u" "(!) scores"] by (simp add: members_mean [OF assms(1)])
  then show ?thesis by (simp flip: sum_divide_distrib)
qed

text \<open>
  C31. GRPO advantages are group relative.  Each row gets one scalar spread over its response mask;
  in a group of at least two rows the scalars sum to zero and differ as the rewards do, divided by
  the group's standard deviation plus epsilon when normalisation is on; a row alone in its group
  keeps its own reward (divided by \<open>1 + epsilon\<close> under normalisation).
\<close>

theorem grpo_group_relative:
  assumes len: "length index = length rewards"
  shows "\<exists>x. compute_grpo_outcome_advantage fsqrt rewards msk index eps nrm =
      Inr (broadcast_rows x msk, broadcast_rows x msk) \<and> length x = length rewards \<and>
      (\<forall>u \<in> set index. let rows = group_rows index u; ss = members index (row_sums rewards) u in
         (card rows = 1 \<longrightarrow>
            (\<forall>i \<in> rows. x ! i = sum_list (rewards ! i) / (if nrm then 1 + eps else 1))) \<and>
         (1 < card rows \<longrightarrow> (\<Sum>i \<in> rows. x ! i) = 0 \<and>
            (\<forall>i \<in> rows. \<forall>j \<in> rows. x ! i - x ! j =
               (sum_list (rewards ! i) - sum_list (rewards ! j)) /
               (if nrm then fsqrt (tvar ss) + eps else 1))))"
proof -
  let ?s = "row_sums rewards"
  define x where "x = map (grpo_scalar fsqrt ?s index eps nrm) [0..<length rewards]"
  define c where "c u = grpo_scale fsqrt (members index ?s u) eps nrm" for u
  have len': "length index = length ?s" using len by (simp add: row_sums_def)
  have x: "x ! i = (?s ! i - (if card (group_rows index u) = 1 then 0 else tmean (members index ?s u))) / c u"
    if "i \<in> group_rows index u" for i u
    using that len grpo_scalar_group [OF that, where scores = ?s]
    by (simp add: members_length [OF len'] c_def x_def) (simp add: group_rows_def)
  have s: "?s ! i = sum_list (rewards ! i)" if "i \<in> group_rows index u" for i u
    using that len by (simp add: group_rows_def row_sums_def)
  have "(\<Sum>i \<in> group_rows index u. x ! i) = 0" if "1 < card (group_rows index u)" "u \<in> set index" for u
    using group_centered_sum [OF len' that(2), of "c u"] that(1) by (simp add: x)
  moreover have x_len: "length x = length rewards" by (simp add: x_def)
  moreover have "c u =
      (if nrm then if card (group_rows index u) = 1 then 1 + eps else fsqrt (tvar (members index ?s u)) + eps else 1)" for u
    by (simp add: c_def grpo_scale_def members_length [OF len'])
  ultimately show ?thesis
    using grpo_closed [OF len, of fsqrt msk eps nrm] x_len
    by (intro exI [of _ x]) (simp add: x s Let_def flip: diff_divide_distrib x_def)
qed

lemma tvar_nonneg: "xs \<noteq> [] \<Longrightarrow> 0 \<le> tvar xs"
  by (auto simp: tvar_def neq_Nil_conv intro!: divide_nonneg_nonneg sum_list_nonneg)

lemma index_add_nth:
  "0 \<le> k \<Longrightarrow> nat k < n \<Longrightarrow> index_add n g xs ! nat k = sum_list (members g xs k)"
  by (simp add: index_add_def members_def)

lemma members_map:
  assumes "length g = length xs" "length ys = length xs"
    and "\<And>i. i < length xs \<Longrightarrow> g ! i = k \<Longrightarrow> ys ! i = f (xs ! i)"
  shows "members g ys k = map f (members g xs k)"
  using assms by (simp add: members_index)

lemma members_cong:
  assumes "length index = length xs" "length g = length xs"
    and "\<And>j. j < length xs \<Longrightarrow> g ! j = k \<longleftrightarrow> index ! j = u"
  shows "members g xs k = members index xs u"
proof -
  have "filter (\<lambda>i. g ! i = k) [0..<length xs] = filter (\<lambda>i. index ! i = u) [0..<length xs]"
    by (intro filter_cong) (auto simp: assms(3))
  then show ?thesis by (simp add: members_index assms(1,2))
qed

lemma max_pred: "Suc 0 < n \<Longrightarrow> max (rat_of_nat n - 1) 1 = rat_of_nat n - 1"
  using of_nat_mono [where 'a = rat, of 2 n] by (simp add: max_def)

lemma group_mean_std_closed:
  assumes len: "length g = length scores" and nn: "\<forall>k \<in> set g. 0 \<le> k"
  shows "\<exists>mg sg cg. group_mean_std fsqrt scores g eps = Inr (mg, sg, cg) \<and>
    (\<forall>k \<in> set g. let ms = members g scores k in
       mg ! nat k = (if length ms = 1 then 0 else tmean ms) \<and>
       sg ! nat k = (if length ms = 1 then 1 else fsqrt (max (tvar ms) eps)))"
proof (cases "g = []")
  case False
  define n where "n = nat (Max (set g)) + 1"
  define count where "count = index_add n g (map (\<lambda>_. 1) scores)"
  define mean where "mean = map2 (\<lambda>s c. s / max c 1) (index_add n g scores) count"
  define sq where "sq = map (\<lambda>c. c * c) (map2 (\<lambda>s g. s - mean ! nat g) scores g)"
  have lens: "length (index_add n g xs) = n" for xs by (simp add: index_add_def)
  have facts: "count ! nat k = of_nat (length (members g scores k)) \<and>
      mean ! nat k = tmean (members g scores k) \<and> 1 \<le> length (members g scores k) \<and> nat k < n \<and>
      index_add n g sq ! nat k = sum_list (map (\<lambda>x. (x - tmean (members g scores k))\<^sup>2) (members g scores k))"
    if k: "k \<in> set g" for k
  proof -
    have kn: "0 \<le> k" "nat k < n"
      using nn k by (auto simp: n_def le_imp_less_Suc nat_mono)
    have one: "members g (map (\<lambda>_. 1::rat) scores) k = map (\<lambda>_. 1) (members g scores k)"
      by (rule members_map) (simp_all add: len)
    have c: "count ! nat k = of_nat (length (members g scores k))"
      using kn one by (simp add: count_def index_add_nth sum_list_triv)
    have pos: "1 \<le> length (members g scores k)"
      using members_not_empty [OF len k] by (cases "members g scores k") auto
    then have m: "mean ! nat k = tmean (members g scores k)"
      using kn c lens by (simp add: mean_def tmean_def index_add_nth count_def max_def)
    have "members g sq k = map (\<lambda>x. (x - tmean (members g scores k))\<^sup>2) (members g scores k)"
      by (rule members_map) (auto simp: sq_def len m power2_eq_square)
    with c m pos kn show ?thesis by (simp add: index_add_nth)
  qed
  define mg where "mg = map2 (\<lambda>m c. if c \<le> 1 then 0 else m) mean count"
  define sg where "sg = map2 (\<lambda>s c. if c \<le> 1 then 1 else s)
      (map (\<lambda>v. fsqrt (max v eps)) (map2 (\<lambda>v c. v / max (c - 1) 1) (index_add n g sq) count)) count"
  have "group_mean_std fsqrt scores g eps = Inr (mg, sg, count)"
    unfolding group_mean_std_def Let_def mg_def sg_def sq_def mean_def count_def n_def
    by (subst if_not_P, simp add: len, subst if_not_P, simp add: False, subst if_not_P, use nn in force, rule refl)
  moreover have "length count = n" "length mean = n"
    by (simp_all add: count_def mean_def lens)
  then have "mg ! nat k = (if length ms = 1 then 0 else tmean ms) \<and>
      sg ! nat k = (if length ms = 1 then 1 else fsqrt (max (tvar ms) eps))"
    if "k \<in> set g" "ms = members g scores k" for k ms
    using facts [OF that(1)] that(2) members_not_single [OF len that(1)]
    by (auto simp: mg_def sg_def lens tvar_def max_pred)
  ultimately show ?thesis by (auto simp: Let_def)
qed (simp add: group_mean_std_def len [symmetric])

lemma position_nth: "x \<in> set xs \<Longrightarrow> position x xs < length xs \<and> xs ! position x xs = x"
  by (induction xs) (auto simp: position_def)

lemma unique_inverse_nth:
  "i < length labels \<Longrightarrow> unique_inverse labels ! i = position (labels ! i) (sorted_list_of_set (set labels))"
  by (simp add: unique_inverse_def)

lemma length_unique_inverse [simp]: "length (unique_inverse labels) = length labels"
  by (simp add: unique_inverse_def)

lemma length_as_torch_index [simp]: "length (as_torch_index labels) = length labels"
  by (simp add: as_torch_index_def)

lemma unique_inverse_eq_iff:
  assumes "i < length labels" "j < length labels"
  shows "unique_inverse labels ! i = unique_inverse labels ! j \<longleftrightarrow> labels ! i = labels ! j"
proof -
  have "labels ! i \<in> set (sorted_list_of_set (set labels))" "labels ! j \<in> set (sorted_list_of_set (set labels))"
    using assms by simp_all
  then show ?thesis
    using position_nth [of "labels ! i"] position_nth [of "labels ! j"] assms
    by (metis unique_inverse_nth)
qed

lemma as_torch_index_eq_iff:
  assumes "numeral_labels labels \<Longrightarrow> inj_on (\<lambda>l. the (int64_numeral l)) (set labels)"
    and "i < length labels" "j < length labels"
  shows "as_torch_index labels ! i = as_torch_index labels ! j \<longleftrightarrow> labels ! i = labels ! j"
proof (cases "numeral_labels labels")
  case True
  then show ?thesis
    using inj_on_eq_iff [OF assms(1) [OF True], of "labels ! i" "labels ! j"] assms(2,3)
    by (simp add: as_torch_index_def)
next
  case False
  then show ?thesis
    using unique_inverse_eq_iff assms(2,3) by (simp add: as_torch_index_def)
qed

lemma as_torch_index_nonneg:
  "(numeral_labels labels \<Longrightarrow> \<forall>l \<in> set labels. 0 \<le> the (int64_numeral l)) \<Longrightarrow>
   \<forall>k \<in> set (as_torch_index labels). 0 \<le> k"
  by (auto simp: as_torch_index_def)

text \<open>
  The vectorised GRPO estimator agrees with the loop version, for every square root: always when
  some label is not a numeral (uids), and for numerals when they are non-negative and distinct labels
  have distinct values.
\<close>

theorem grpo_vectorized_equiv:
  assumes len: "length index = length rewards"
    and nums: "numeral_labels index \<Longrightarrow>
      (\<forall>l \<in> set index. 0 \<le> the (int64_numeral l)) \<and> inj_on (\<lambda>l. the (int64_numeral l)) (set index)"
  shows "compute_grpo_vectorized_outcome_advantage fsqrt rewards msk index eps nrm =
    compute_grpo_outcome_advantage fsqrt rewards msk index eps nrm"
proof -
  let ?s = "row_sums rewards" and ?g = "as_torch_index index"
  have len': "length ?g = length ?s" "length index = length ?s"
    using len by (simp_all add: row_sums_def)
  note inj = as_torch_index_eq_iff [OF conjunct2 [OF nums]]
  note nn = as_torch_index_nonneg [OF conjunct1 [OF nums]]
  obtain mg sg cg where r: "group_mean_std fsqrt ?s ?g 0 = Inr (mg, sg, cg)"
    and stats: "\<forall>k \<in> set ?g. let ms = members ?g ?s k in
       mg ! nat k = (if length ms = 1 then 0 else tmean ms) \<and>
       sg ! nat k = (if length ms = 1 then 1 else fsqrt (max (tvar ms) 0))"
    using group_mean_std_closed [OF len'(1) nn, of fsqrt 0] by blast
  have st: "mg ! nat (?g ! i) = (if length (members index ?s (index ! i)) = 1 then 0 else tmean (members index ?s (index ! i)))"
    "sg ! nat (?g ! i) = (if length (members index ?s (index ! i)) = 1 then 1 else fsqrt (tvar (members index ?s (index ! i))))"
    if i: "i < length ?s" for i
  proof -
    have "members ?g ?s (?g ! i) = members index ?s (index ! i)"
      using len' i by (intro members_cong) (auto simp: inj)
    moreover have "members index ?s (index ! i) \<noteq> []"
      using members_not_empty [OF len'(2)] i len' by simp
    ultimately show "mg ! nat (?g ! i) = (if length (members index ?s (index ! i)) = 1 then 0 else tmean (members index ?s (index ! i)))"
      "sg ! nat (?g ! i) = (if length (members index ?s (index ! i)) = 1 then 1 else fsqrt (tvar (members index ?s (index ! i))))"
      using bspec [OF stats, of "?g ! i"] i len' by (simp_all add: Let_def max_absorb1 tvar_nonneg)
  qed
  have "map2 (\<lambda>s k. if nrm then (s - mg ! nat k) / (sg ! nat k + eps) else s - mg ! nat k) ?s ?g =
      map (grpo_scalar fsqrt ?s index eps nrm) [0..<length rewards]"
    using len' by (intro nth_equalityI) (auto simp: st grpo_scalar_def Let_def row_sums_def)
  then show ?thesis
    by (simp add: compute_grpo_vectorized_outcome_advantage_def r grpo_closed [OF len] Let_def)
qed

lemma grpo_vectorized_equiv_witness:
  "compute_grpo_vectorized_outcome_advantage (\<lambda>x. x) [[1, 0], [0, 1], [5, 2]] [[1, 1], [1, 0], [1, 1]]
     [''a-1'', ''a-1'', ''b-2''] (1 / 10 ^ 6) True =
   compute_grpo_outcome_advantage (\<lambda>x. x) [[1, 0], [0, 1], [5, 2]] [[1, 1], [1, 0], [1, 1]]
     [''a-1'', ''a-1'', ''b-2''] (1 / 10 ^ 6) True"
proof (rule grpo_vectorized_equiv)
  have "\<not> numeral_labels [''a-1'', ''a-1'', ''b-2'']" by code_simp
  then show "(\<forall>l \<in> set [''a-1'', ''a-1'', ''b-2'']. 0 \<le> the (int64_numeral l)) \<and>
      inj_on (\<lambda>l. the (int64_numeral l)) (set [''a-1'', ''a-1'', ''b-2''])"
    if "numeral_labels [''a-1'', ''a-1'', ''b-2'']" using that by blast
qed simp

lemma grpo_group_relative_witness:
  "\<exists>x. compute_grpo_outcome_advantage (\<lambda>x. x) [[1, 0], [0, 3], [5, 2]] [[1, 1], [1, 0], [1, 1]]
       [''a'', ''a'', ''b''] 1 True =
     Inr (broadcast_rows x [[1, 1], [1, 0], [1, 1]], broadcast_rows x [[1, 1], [1, 0], [1, 1]]) \<and>
     length x = 3 \<and> (\<Sum>i \<in> {0, 1}. x ! i) = 0"
proof -
  have "group_rows [''a'', ''a'', ''b''] ''a'' = {0, 1}"
    by (auto simp: group_rows_def less_Suc_eq)
  then show ?thesis
    using grpo_group_relative [of "[''a'', ''a'', ''b'']" "[[1, 0], [0, 3], [5, 2]]"
      "\<lambda>x. x" "[[1, 1], [1, 0], [1, 1]]" 1 True]
    by (auto simp: Let_def)
qed

lemma dict_fetch_collect:
  "length index = length scores \<Longrightarrow> i < length scores \<Longrightarrow>
   dict_fetch (collect index scores) (index ! i) = Inr (members index scores (index ! i))"
  by (simp add: dict_fetch_def collect_get)

lemma rloo_closed:
  assumes "length index = length rewards"
  shows "compute_rloo_outcome_advantage rewards msk index =
    (let s = row_sums rewards;
         a = broadcast_rows (map (\<lambda>i. let ms = members index s (index ! i); n = of_nat (length ms)
               in if length ms > 1 then s ! i * n / (n - 1) - tmean ms * n / (n - 1) else s ! i)
             [0..<length rewards]) msk
     in Inr (a, a))"
proof -
  let ?s = "row_sums rewards"
  have len: "length index = length ?s" using assms by (simp add: row_sums_def)
  have ls: "length ?s = length rewards" by (simp add: row_sums_def)
  show ?thesis
    unfolding compute_rloo_outcome_advantage_def Let_def
    by (subst baseline_group.rows [OF len len, where v = "\<lambda>i. let ms = members index ?s (index ! i);
          n = of_nat (length ms) in if length ms > 1 then ?s ! i * n / (n - 1) - tmean ms * n / (n - 1) else ?s ! i"])
      (simp_all add: dict_fetch_collect len Let_def ls)
qed

lemma loo_arith: "1 < n \<Longrightarrow> s * n / (n - 1) - (tot / n) * n / (n - 1) = s - (tot - s) / (n - 1)"
  for n :: rat
proof -
  assume n: "1 < n"
  define d where "d = n - 1"
  have "0 < d" "n = d + 1" using n by (simp_all add: d_def)
  then have "s * (d + 1) / d - tot / d = s - (tot - s) / d" by (simp add: field_simps)
  with \<open>n = d + 1\<close> \<open>0 < d\<close> show ?thesis by simp
qed

lemma bincount_nth:
  assumes "length ginv = length xs" "i < length ginv"
  shows "bincount ginv xs ! (ginv ! i) = sum_list (members ginv xs (ginv ! i))"
proof -
  have "ginv ! i < Suc (Max (set ginv))" "ginv \<noteq> []"
    using assms(2) by (auto simp: less_Suc_eq_le)
  moreover have "members (map int ginv) xs (int k) = members ginv xs k" for k
    using assms(1) by (intro members_cong) auto
  ultimately show ?thesis
    using index_add_nth [of "int (ginv ! i)"] by (simp add: bincount_def)
qed

lemma rloo_vectorized_closed:
  assumes "length index = length rewards"
  shows "compute_rloo_vectorized_outcome_advantage rewards msk index =
    (let s = row_sums rewards;
         a = broadcast_rows (map (\<lambda>i. let ms = members index s (index ! i); c = of_nat (length ms)
               in (c * s ! i - sum_list ms) / max (c - 1) 1 * of_bool_mask (c > 1)) [0..<length rewards]) msk
     in (a, a))"
proof -
  let ?s = "row_sums rewards" and ?g = "unique_inverse index"
  have len: "length ?g = length ?s" "length index = length ?s" "length ?s = length rewards"
    using assms by (simp_all add: row_sums_def)
  have tot: "bincount ?g ?s ! (?g ! i) = sum_list (members index ?s (index ! i))" if "i < length rewards" for i
  proof -
    have "members ?g ?s (?g ! i) = members index ?s (index ! i)"
      using that len by (intro members_cong) (auto simp: unique_inverse_eq_iff)
    then show ?thesis using bincount_nth [of ?g ?s i] that len by simp
  qed
  have cnt: "bincount ?g (map (\<lambda>_. 1) ?g) ! (?g ! i) = of_nat (length (members index ?s (index ! i)))"
    if "i < length rewards" for i
  proof -
    have "members ?g (map (\<lambda>_. 1::rat) ?g) (?g ! i) = map (\<lambda>_. 1) (members ?g ?s (?g ! i))"
      using len by (intro members_map) auto
    also have "members ?g ?s (?g ! i) = members index ?s (index ! i)"
      using that len by (intro members_cong) (auto simp: unique_inverse_eq_iff)
    finally show ?thesis
      using bincount_nth [of ?g "map (\<lambda>_. 1) ?g" i] that len by (simp add: sum_list_triv)
  qed
  have "map2 (\<lambda>s k. let c = bincount ?g (map (\<lambda>_. 1) ?g) ! k
          in (c * s - bincount ?g ?s ! k) / max (c - 1) 1 * of_bool_mask (c > 1)) ?s ?g =
      map (\<lambda>i. let ms = members index ?s (index ! i); c = of_nat (length ms)
          in (c * ?s ! i - sum_list ms) / max (c - 1) 1 * of_bool_mask (c > 1)) [0..<length rewards]"
    using len by (intro nth_equalityI) (simp_all add: Let_def tot cnt)
  then show ?thesis
    by (simp add: compute_rloo_vectorized_outcome_advantage_def Let_def)
qed

lemma loo_vec_arith: "2 \<le> n \<Longrightarrow> (n * s - tot) / max (n - 1) 1 * of_bool_mask (n > 1) = s - (tot - s) / (n - 1)"
  for n :: rat
proof -
  assume n: "2 \<le> n"
  define d where "d = n - 1"
  have "1 \<le> d" "n = d + 1" using n by (simp_all add: d_def)
  then show ?thesis by (simp add: of_bool_mask_def max_def field_simps)
qed

text \<open>
  RLOO subtracts from a row's reward the mean of the other rewards of its group; the vectorised
  version does the same in every group of at least two rows, but a row alone in its group keeps its
  whole reward as advantage in the loop version and gets zero in the vectorised one.
\<close>

theorem rloo_leave_one_out:
  assumes len: "length index = length rewards"
  shows "\<exists>x y. compute_rloo_outcome_advantage rewards msk index = Inr (broadcast_rows x msk, broadcast_rows x msk) \<and>
    compute_rloo_vectorized_outcome_advantage rewards msk index = (broadcast_rows y msk, broadcast_rows y msk) \<and>
    length x = length rewards \<and> length y = length rewards \<and>
    (\<forall>i < length rewards. let rows = group_rows index (index ! i); n = of_nat (card rows) in
       (1 < card rows \<longrightarrow> y ! i = x ! i \<and>
          x ! i = sum_list (rewards ! i) - (\<Sum>j \<in> rows - {i}. sum_list (rewards ! j)) / (n - 1)) \<and>
       (card rows = 1 \<longrightarrow> x ! i = sum_list (rewards ! i) \<and> y ! i = 0))"
proof -
  let ?s = "row_sums rewards"
  let ?n = "\<lambda>i. rat_of_nat (length (members index ?s (index ! i)))"
  define x where "x = map (\<lambda>i. if length (members index ?s (index ! i)) > 1
      then ?s ! i * ?n i / (?n i - 1) - tmean (members index ?s (index ! i)) * ?n i / (?n i - 1) else ?s ! i)
    [0..<length rewards]"
  define y where "y = map (\<lambda>i. (?n i * ?s ! i - sum_list (members index ?s (index ! i))) / max (?n i - 1) 1 *
      of_bool_mask (?n i > 1)) [0..<length rewards]"
  have len': "length index = length ?s" "length ?s = length rewards" using len by (simp_all add: row_sums_def)
  have s: "?s ! i = sum_list (rewards ! i)" if "i < length rewards" for i
    using that by (simp add: row_sums_def)
  have rest: "sum_list (members index ?s (index ! i)) - sum_list (rewards ! i) =
      (\<Sum>j \<in> group_rows index (index ! i) - {i}. sum_list (rewards ! j))" if "i < length rewards" for i
  proof -
    have "sum_list (members index ?s (index ! i)) = (\<Sum>j \<in> group_rows index (index ! i). sum_list (rewards ! j))"
      using members_sum [OF len'(1), of "\<lambda>x. x" "index ! i"] len
      by (auto simp: s group_rows_def intro!: sum.cong)
    then show ?thesis
      using group_rows_self [of i index] that len by (simp add: sum.remove [of _ i])
  qed
  have two: "2 \<le> ?n i" if "1 < card (group_rows index (index ! i))" for i
    using that of_nat_mono [where 'a = rat, of 2] by (fastforce simp: members_length [OF len'(1)])
  have "compute_rloo_outcome_advantage rewards msk index = Inr (broadcast_rows x msk, broadcast_rows x msk)"
    unfolding rloo_closed [OF len] x_def Let_def ..
  moreover have "compute_rloo_vectorized_outcome_advantage rewards msk index =
      (broadcast_rows y msk, broadcast_rows y msk)"
    unfolding rloo_vectorized_closed [OF len] y_def Let_def ..
  moreover have "y ! i = x ! i \<and> x ! i = sum_list (rewards ! i) -
        (\<Sum>j \<in> group_rows index (index ! i) - {i}. sum_list (rewards ! j)) / (?n i - 1)"
    if "i < length rewards" "1 < card (group_rows index (index ! i))" for i
    using two [OF that(2)] that loo_arith [of "?n i"] loo_vec_arith [of "?n i"]
    by (simp add: x_def y_def s members_length [OF len'(1)] tmean_def flip: rest)
  moreover have "x ! i = sum_list (rewards ! i) \<and> y ! i = 0"
    if "i < length rewards" "card (group_rows index (index ! i)) = 1" for i
    using that by (simp add: x_def y_def s members_length [OF len'(1)] of_bool_mask_def)
  moreover have "length x = length rewards" "length y = length rewards"
    by (simp_all add: x_def y_def)
  ultimately show ?thesis
    by (intro exI [of _ x, OF exI [of _ y]]) (simp add: Let_def members_length [OF len'(1)])
qed

lemma rloo_leave_one_out_witness:
  "\<exists>x (y :: rat list). compute_rloo_outcome_advantage [[1, 0], [0, 3], [5, 2]] [[1, 1], [1, 0], [1, 1]] [''a'', ''a'', ''b''] =
       Inr (broadcast_rows x [[1, 1], [1, 0], [1, 1]], broadcast_rows x [[1, 1], [1, 0], [1, 1]]) \<and>
     x ! 0 = - 2 \<and> y ! 0 = - 2 \<and> x ! 2 = 7 \<and> y ! 2 = 0"
proof -
  let ?m = "[[1, 1], [1, 0], [1, 1]] :: rat list list"
  have g: "group_rows [''a'', ''a'', ''b''] ''a'' = {0, 1}" "group_rows [''a'', ''a'', ''b''] ''b'' = {2}"
    by (auto simp: group_rows_def less_Suc_eq)
  obtain x y where e: "compute_rloo_outcome_advantage [[1, 0], [0, 3], [5, 2]] ?m [''a'', ''a'', ''b''] =
      Inr (broadcast_rows x ?m, broadcast_rows x ?m)"
    and a: "\<forall>i < length [[1, 0], [0, 3], [5, 2 :: rat]].
      let rows = group_rows [''a'', ''a'', ''b''] ([''a'', ''a'', ''b''] ! i); n = of_nat (card rows)
      in (1 < card rows \<longrightarrow> y ! i = x ! i \<and> x ! i = sum_list ([[1, 0], [0, 3], [5, 2]] ! i) -
            (\<Sum>j \<in> rows - {i}. sum_list ([[1, 0], [0, 3], [5, 2]] ! j)) / (n - 1)) \<and>
         (card rows = 1 \<longrightarrow> x ! i = sum_list ([[1, 0], [0, 3], [5, 2]] ! i) \<and> y ! i = 0)"
    using rloo_leave_one_out [of "[''a'', ''a'', ''b'']" "[[1, 0], [0, 3], [5, 2]]" ?m] by auto
  have d: "{0, 1 :: nat} - {0} = {1}" by auto
  have "x ! 0 = - 2 \<and> y ! 0 = - 2 \<and> x ! 2 = 7 \<and> y ! 2 = 0"
    using a [rule_format, of 0] a [rule_format, of 2] by (auto simp: Let_def g d)
  with e show ?thesis by blast
qed

subsection \<open>GAE over the generated tokens\<close>

fun td_errors :: "rat \<Rightarrow> (rat \<times> rat) list \<Rightarrow> rat list" where
  "td_errors gamma [] = []"
| "td_errors gamma ((r, v) # rest) =
     (r + gamma * (case rest of [] \<Rightarrow> 0 | p # _ \<Rightarrow> snd p) - v) # td_errors gamma rest"

fun discounted :: "rat \<Rightarrow> rat list \<Rightarrow> rat list" where
  "discounted c [] = []"
| "discounted c (x # xs) = (x + c * (case discounted c xs of [] \<Rightarrow> 0 | y # _ \<Rightarrow> y)) # discounted c xs"

lemma length_discounted [simp]: "length (discounted c xs) = length xs"
  by (induction xs) auto

lemma length_td_errors [simp]: "length (td_errors gamma ps) = length ps"
  by (induction gamma ps rule: td_errors.induct) auto

lemma discounted_nth:
  "n < length xs \<Longrightarrow> discounted c xs ! n = (\<Sum>k < length xs - n. c ^ k * xs ! (n + k))"
proof (induction xs arbitrary: n)
  case (Cons x xs)
  show ?case
  proof (cases n)
    case 0
    have "(case discounted c xs of [] \<Rightarrow> 0 | y # _ \<Rightarrow> y) = (\<Sum>k < length xs. c ^ k * xs ! k)"
      using Cons.IH [of 0] by (cases xs) (auto simp: nth_Cons split: nat.splits list.splits)
    then show ?thesis
      by (simp add: 0 sum.lessThan_Suc_shift sum_distrib_left mult.assoc del: sum.lessThan_Suc)
  next
    case (Suc m)
    then show ?thesis using Cons by simp
  qed
qed simp

abbreviation generated :: "rat \<times> rat \<times> rat \<Rightarrow> bool" where
  "generated x \<equiv> snd (snd x) = 1"

abbreviation reward_value :: "rat \<times> rat \<times> rat \<Rightarrow> rat \<times> rat" where
  "reward_value x \<equiv> (fst x, fst (snd x))"

lemma gae_fold:
  assumes "\<forall>x \<in> set tr. snd (snd x) = 0 \<or> generated x"
    and "foldr (gae_step gamma lam) tr (0, 0, []) = (nv, lg, acc)"
  shows "length acc = length tr \<and>
    nv = (case map reward_value (filter generated tr) of [] \<Rightarrow> 0 | p # _ \<Rightarrow> snd p) \<and>
    lg = (case discounted (gamma * lam) (td_errors gamma (map reward_value (filter generated tr))) of
            [] \<Rightarrow> 0 | y # _ \<Rightarrow> y) \<and>
    map snd (filter (\<lambda>p. generated (fst p)) (zip tr acc)) =
      discounted (gamma * lam) (td_errors gamma (map reward_value (filter generated tr)))"
  using assms
proof (induction tr arbitrary: nv lg acc)
  case (Cons x tr)
  obtain nv' lg' acc' where f: "foldr (gae_step gamma lam) tr (0, 0, []) = (nv', lg', acc')"
    by (cases "foldr (gae_step gamma lam) tr (0, 0, [])")
  obtain r v m where x: "x = (r, v, m)" by (cases x)
  have IH: "length acc' = length tr \<and>
    nv' = (case map reward_value (filter generated tr) of [] \<Rightarrow> 0 | p # _ \<Rightarrow> snd p) \<and>
    lg' = (case discounted (gamma * lam) (td_errors gamma (map reward_value (filter generated tr))) of
            [] \<Rightarrow> 0 | y # _ \<Rightarrow> y) \<and>
    map snd (filter (\<lambda>p. generated (fst p)) (zip tr acc')) =
      discounted (gamma * lam) (td_errors gamma (map reward_value (filter generated tr)))"
    by (rule Cons.IH [OF _ f]) (use Cons.prems(1) in simp)
  have "gae_step gamma lam x (nv', lg', acc') = (nv, lg, acc)"
    using Cons.prems(2) f by simp
  moreover have "m = 0 \<or> m = 1" using Cons.prems(1) x by auto
  ultimately show ?case
    using IH by (elim disjE) (auto simp: x gae_step_def Let_def)
qed simp

definition generated_positions :: "rat list \<Rightarrow> nat list" where
  "generated_positions msk = filter (\<lambda>t. msk ! t = 1) [0..<length msk]"

lemma zip3_index:
  "length rs = length ms \<Longrightarrow> length vs = length ms \<Longrightarrow>
   zip rs (zip vs ms) = map (\<lambda>t. (rs ! t, vs ! t, ms ! t)) [0..<length ms]"
  by (intro nth_equalityI) auto

lemma gae_row_generated:
  assumes len: "length rs = length ms" "length vs = length ms" and bin: "\<forall>m \<in> set ms. m = 0 \<or> m = 1"
  shows "length (gae_row gamma lam rs vs ms) = length ms \<and>
    map ((!) (gae_row gamma lam rs vs ms)) (generated_positions ms) =
    discounted (gamma * lam) (td_errors gamma (map (\<lambda>t. (rs ! t, vs ! t)) (generated_positions ms)))"
proof -
  let ?tr = "zip rs (zip vs ms)"
  obtain nv lg acc where f: "foldr (gae_step gamma lam) ?tr (0, 0, []) = (nv, lg, acc)"
    by (cases "foldr (gae_step gamma lam) ?tr (0, 0, [])")
  have tr: "?tr = map (\<lambda>t. (rs ! t, vs ! t, ms ! t)) [0..<length ms]"
    by (rule zip3_index [OF len])
  have "snd (snd x) \<in> set ms" if "x \<in> set ?tr" for x
    using that set_zip_rightD [of "fst x" "snd x" rs "zip vs ms"]
      set_zip_rightD [of "fst (snd x)" "snd (snd x)" vs ms] by simp
  with bin have "\<forall>x \<in> set ?tr. snd (snd x) = 0 \<or> generated x" by blast
  from gae_fold [OF this f] have acc: "length acc = length ms"
    and gen: "map snd (filter (\<lambda>p. generated (fst p)) (zip ?tr acc)) =
      discounted (gamma * lam) (td_errors gamma (map reward_value (filter generated ?tr)))"
    by (simp_all add: tr)
  have "zip ?tr acc = map (\<lambda>t. ((rs ! t, vs ! t, ms ! t), acc ! t)) [0..<length ms]"
    by (intro nth_equalityI) (auto simp: acc tr)
  then have "map snd (filter (\<lambda>p. generated (fst p)) (zip ?tr acc)) = map ((!) acc) (generated_positions ms)"
    by (simp add: filter_map o_def generated_positions_def)
  moreover have "map reward_value (filter generated ?tr) = map (\<lambda>t. (rs ! t, vs ! t)) (generated_positions ms)"
    by (simp add: tr filter_map o_def generated_positions_def)
  ultimately show ?thesis
    using gen f acc by (simp add: gae_row_def)
qed

text \<open>
  C30. With masks of zeros and ones GAE sees only the generated tokens: the return of a generated
  token is its value plus the discounted sum (factor \<open>gamma * lam\<close>) of the temporal-difference errors
  of the generated tokens from it on, observation tokens in between being skipped, and the advantages
  are the differences of returns and values, whitened with one mean and one scale for the batch.
\<close>

theorem gae_skips_observations:
  assumes shape: "same_shape rewards msk" "same_shape values msk" and bin: "binary_mask msk"
    and ret: "compute_gae_advantage_return rsqrt rewards values msk gamma lam = Inr (adv, returns)"
  shows "same_shape adv msk \<and> same_shape returns msk \<and>
    (\<exists>mean scale. adv = mapm (\<lambda>a. (a - mean) * scale) (zipm (-) returns values)) \<and>
    (\<forall>i < length msk. let gen = generated_positions (msk ! i);
         ds = td_errors gamma (map (\<lambda>t. (rewards ! i ! t, values ! i ! t)) gen)
       in \<forall>n < length gen. returns ! i ! (gen ! n) =
            values ! i ! (gen ! n) + (\<Sum>k < length gen - n. (gamma * lam) ^ k * ds ! (n + k)))"
proof -
  define a where "a = map (\<lambda>(r, v, m). gae_row gamma lam r v m) (zip rewards (zip values msk))"
  obtain v where "masked_var (concat a) (concat msk) True = Inr v"
    and adv: "adv = mapm (\<lambda>x. (x - masked_mean (concat a) (concat msk)) * rsqrt (v + 1 / 10 ^ 8)) a"
    and returns: "returns = zipm (+) a values"
    using ret by (auto simp: compute_gae_advantage_return_def masked_whiten_def rbind_Inr_iff Let_def
        simp flip: a_def)
  have lens: "length rewards = length msk" "length values = length msk"
    using shape by (simp_all add: same_shape_length)
  have row: "a ! i = gae_row gamma lam (rewards ! i) (values ! i) (msk ! i)"
    "length (a ! i) = length (msk ! i) \<and>
     map ((!) (a ! i)) (generated_positions (msk ! i)) = discounted (gamma * lam)
       (td_errors gamma (map (\<lambda>t. (rewards ! i ! t, values ! i ! t)) (generated_positions (msk ! i))))"
    if i: "i < length msk" for i
  proof -
    show eq: "a ! i = gae_row gamma lam (rewards ! i) (values ! i) (msk ! i)"
      using i lens by (simp add: a_def)
    have "\<forall>m \<in> set (msk ! i). m = 0 \<or> m = 1"
      using bin nth_mem [OF i] unfolding binary_mask_def list_all_iff by blast
    then show "length (a ! i) = length (msk ! i) \<and>
       map ((!) (a ! i)) (generated_positions (msk ! i)) = discounted (gamma * lam)
         (td_errors gamma (map (\<lambda>t. (rewards ! i ! t, values ! i ! t)) (generated_positions (msk ! i))))"
      unfolding eq using shape i lens by (intro gae_row_generated) (simp_all add: same_shape_nth)
  qed
  have la: "length a = length msk" by (simp add: a_def lens)
  have sh: "same_shape a msk"
    unfolding same_shape_def by (intro nth_equalityI) (simp_all add: la row(2))
  have sh': "same_shape a values"
    using sh shape(2) by (simp add: same_shape_def)
  have "returns ! i ! (gen ! n) = values ! i ! (gen ! n) + (\<Sum>k < length gen - n. (gamma * lam) ^ k * ds ! (n + k))"
    if i: "i < length msk" and gen: "gen = generated_positions (msk ! i)"
      and ds: "ds = td_errors gamma (map (\<lambda>t. (rewards ! i ! t, values ! i ! t)) gen)"
      and n: "n < length gen" for i gen ds n
  proof -
    have "gen ! n < length (a ! i)"
      using n nth_mem [OF n] row(2) [OF i] by (auto simp: gen generated_positions_def)
    moreover have "map ((!) (a ! i)) gen ! n = discounted (gamma * lam) ds ! n"
      using row(2) [OF i] by (simp add: gen ds)
    ultimately show ?thesis
      using n i lens by (simp add: returns zipm_nth [OF sh'] la discounted_nth ds)
  qed
  moreover have "adv = mapm (\<lambda>x. (x - masked_mean (concat a) (concat msk)) * rsqrt (v + 1 / 10 ^ 8))
      (zipm (-) returns values)"
    by (simp add: adv returns zipm_minus_plus [OF sh'])
  moreover have "same_shape adv msk"
    using sh by (simp add: adv)
  moreover have "same_shape returns msk"
    using sh' shape(2) same_shape_trans unfolding returns by (metis same_shape_zipm(1))
  ultimately show ?thesis
    by (simp add: Let_def) blast
qed

lemma all_less_two: "(\<forall>n < Suc (Suc 0). P n) \<longleftrightarrow> P 0 \<and> P (Suc 0)"
  by (auto simp: less_Suc_eq)

lemma gae_skips_observations_witness:
  "case compute_gae_advantage_return (\<lambda>_. 1) [[0, 0, 1]] [[1, 1, 2]] [[1, 0, 1]] 1 1 of
     Inl _ \<Rightarrow> False
   | Inr (adv, returns) \<Rightarrow> same_shape adv [[1, 0, 1 :: rat]] \<and> returns ! 0 ! 0 = 1 + ((0 + 2 - 1) + (1 - 2))"
proof (cases "compute_gae_advantage_return (\<lambda>_. 1) [[0, 0, 1]] [[1, 1, 2]] [[1, 0, 1]] 1 1")
  case (Inl e)
  have "\<not> isl (compute_gae_advantage_return (\<lambda>_. 1) [[0, 0, 1]] [[1, 1, 2]] [[1, 0, 1]] 1 1)"
    by code_simp
  then show ?thesis by (simp add: Inl)
next
  case (Inr r)
  obtain adv returns where r: "r = (adv, returns)" by (cases r)
  have gen: "generated_positions [1, 0, 1] = [0, 2]" by code_simp
  have "same_shape [[0, 0, 1 :: rat]] [[1, 0, 1 :: rat]]" "same_shape [[1, 1, 2 :: rat]] [[1, 0, 1 :: rat]]"
    "binary_mask [[1, 0, 1]]" by (simp_all add: binary_mask_def)
  from gae_skips_observations [OF this Inr [unfolded r]] show ?thesis
    by (simp add: Inr r gen Let_def lessThan_Suc all_less_two)
qed

subsection \<open>REINFORCE++ returns\<close>

definition ones_after :: "rat list \<Rightarrow> nat \<Rightarrow> nat" where
  "ones_after msk t = length (takeWhile (\<lambda>m. m = 1) (drop (Suc t) msk))"

lemma ones_after_Cons [simp]: "ones_after (m # ms) (Suc t) = ones_after ms t"
  "ones_after (m # m' # ms) 0 = (if m' = 1 then Suc (ones_after (m' # ms) 0) else 0)" "ones_after [m] 0 = 0"
  by (simp_all add: ones_after_def)

lemma rpp_fold:
  assumes "length rs = length ms" "\<forall>m \<in> set ms. m = 0 \<or> m = (1::rat)"
    and "foldr (rpp_step gamma) (zip rs ms) (0, []) = (run, rets)"
  shows "length rets = length ms \<and> run = (case rets of [] \<Rightarrow> 0 | x # _ \<Rightarrow> x * hd ms) \<and>
    (\<forall>t < length ms. rets ! t = (\<Sum>k \<le> ones_after ms t. gamma ^ k * rs ! (t + k)))"
  using assms
proof (induction rs ms arbitrary: run rets rule: list_induct2)
  case (Cons r rs m ms)
  obtain run' rets' where f: "foldr (rpp_step gamma) (zip rs ms) (0, []) = (run', rets')"
    by (cases "foldr (rpp_step gamma) (zip rs ms) (0, [])")
  have IH: "length rets' = length ms" "run' = (case rets' of [] \<Rightarrow> 0 | x # _ \<Rightarrow> x * hd ms)"
    "\<forall>t < length ms. rets' ! t = (\<Sum>k \<le> ones_after ms t. gamma ^ k * rs ! (t + k))"
    using Cons.IH [OF _ f] Cons.prems(1) by auto
  have out: "rets = (r + gamma * run') # rets'" "run = (r + gamma * run') * m"
    using Cons.prems(2) f by (simp_all add: rpp_step_def Let_def)
  have first: "r + gamma * run' = (\<Sum>k \<le> ones_after (m # ms) 0. gamma ^ k * (r # rs) ! k)"
  proof (cases ms)
    case Nil
    then show ?thesis using IH(1,2) by simp
  next
    case (Cons m' ms')
    then have "run' = rets' ! 0 * m'" "m' = 0 \<or> m' = 1"
      using IH(1,2) Cons.prems(1) by (cases rets'; auto)+
    then show ?thesis
      using IH(3) Cons
      by (auto simp: sum.atMost_Suc_shift sum_distrib_left mult.assoc simp del: sum.atMost_Suc)
  qed
  have "rets ! t = (\<Sum>k \<le> ones_after (m # ms) t. gamma ^ k * (r # rs) ! (t + k))" if "t < length (m # ms)" for t
    using that first IH(3) by (cases t) (auto simp: out)
  then show ?case by (simp add: out IH(1))
qed simp

lemma rpp_returns_nth:
  assumes "length rs = length ms" "\<forall>m \<in> set ms. m = 0 \<or> m = 1"
  shows "length (rpp_returns gamma rs ms) = length ms"
    and "t < length ms \<Longrightarrow> rpp_returns gamma rs ms ! t = (\<Sum>k \<le> ones_after ms t. gamma ^ k * rs ! (t + k))"
  using rpp_fold [OF assms, of gamma]
  by (cases "foldr (rpp_step gamma) (zip rs ms) (0, [])"; simp add: rpp_returns_def)+

text \<open>
  The REINFORCE++ return of a token is the discounted sum of the rewards from it to the end of
  its own run of unmasked tokens.  The comment in the code calls this a reset after EOS; in a
  multi-turn response the observation tokens between two turns are masked too, so no reward of a
  later turn reaches an earlier turn (GAE does skip such gaps).
\<close>

theorem reinforce_pp_returns_per_run:
  assumes shape: "same_shape rewards msk" and bin: "binary_mask msk"
    and ret: "compute_reinforce_plus_plus_outcome_advantage rsqrt rewards msk gamma = Inr (adv, returns)"
    and i: "i < length msk" "t < length (msk ! i)"
  shows "returns ! i ! t = (\<Sum>k \<le> ones_after (msk ! i) t. gamma ^ k * rewards ! i ! (t + k))"
proof -
  have "returns ! i = rpp_returns gamma (rewards ! i) (msk ! i)"
    using ret i same_shape_length [OF shape]
    by (auto simp: compute_reinforce_plus_plus_outcome_advantage_def rbind_Inr_iff Let_def)
  then show ?thesis
    using rpp_returns_nth(2) [OF _ binary_mask_row [OF bin i(1)] i(2)] shape i
    by (simp add: same_shape_nth same_shape_length)
qed

lemma reinforce_pp_returns_per_run_witness:
  "case compute_reinforce_plus_plus_outcome_advantage (\<lambda>_. 1) [[0, 0, 0, 1]] [[1, 0, 1, 1]] 1 of
     Inl _ \<Rightarrow> False | Inr (adv, returns) \<Rightarrow> returns ! 0 ! 0 = 0 \<and> returns ! 0 ! 2 = 1"
proof (cases "compute_reinforce_plus_plus_outcome_advantage (\<lambda>_. 1) [[0, 0, 0, 1]] [[1, 0, 1, 1]] 1")
  case (Inl e)
  have "\<not> isl (compute_reinforce_plus_plus_outcome_advantage (\<lambda>_. 1) [[0, 0, 0, 1]] [[1, 0, 1, 1]] 1)"
    by code_simp
  then show ?thesis by (simp add: Inl)
next
  case (Inr r)
  obtain adv returns where r: "r = (adv, returns)" by (cases r)
  have "same_shape [[0, 0, 0, 1 :: rat]] [[1, 0, 1, 1 :: rat]]" "binary_mask [[1, 0, 1, 1]]"
    by (simp_all add: binary_mask_def)
  note ret = reinforce_pp_returns_per_run [OF this Inr [unfolded r], of 0]
  have "ones_after [1, 0, 1, 1] 0 = 0" "ones_after [1, 0, 1, 1] 2 = 1" by code_simp+
  then show ?thesis using ret [of 0] ret [of 2] by (simp add: Inr r)
qed

subsection \<open>OPO\<close>

definition opo_value :: "rat list \<Rightarrow> rat list \<Rightarrow> string list \<Rightarrow> nat \<Rightarrow> rat option" where
  "opo_value scores lens index i =
     (let ms = members index (zip scores lens) (index ! i)
      in if length ms = 1 then Some (scores ! i)
         else map_option (\<lambda>b. scores ! i - b) (fdiv (sum_list (map (\<lambda>(s, l). l * s) ms)) (sum_list (map snd ms))))"

lemma opo_closed:
  assumes "length index = length rewards" "length msk = length rewards"
  shows "compute_opo_outcome_advantage rewards msk index =
    Inr (map2 (\<lambda>x row. map_option (\<lambda>s. map (\<lambda>k. s * k) row) x)
      (map (opo_value (row_sums rewards) (row_sums msk) index) [0..<length rewards]) msk)"
proof -
  let ?s = "row_sums rewards" and ?l = "row_sums msk"
  have len: "length index = length ?s" "length index = length (zip ?s ?l)"
    using assms by (simp_all add: row_sums_def)
  show ?thesis
    unfolding compute_opo_outcome_advantage_def Let_def
    by (subst opo_group.rows [OF len, where v = "opo_value ?s ?l index"])
      (auto simp: opo_value_def Let_def row_sums_def)
qed

lemma weighted_deviation:
  fixes w s :: "nat \<Rightarrow> rat"
  assumes "(\<Sum>i \<in> A. w i) \<noteq> 0"
  shows "(\<Sum>i \<in> A. w i * (s i - (\<Sum>j \<in> A. w j * s j) / (\<Sum>j \<in> A. w j))) = 0"
proof -
  define c where "c = (\<Sum>j \<in> A. w j * s j) / (\<Sum>j \<in> A. w j)"
  have "(\<Sum>i \<in> A. w i * (s i - c)) = (\<Sum>i \<in> A. w i * s i) - (\<Sum>i \<in> A. w i) * c"
    by (simp add: right_diff_distrib sum_subtractf sum_distrib_right)
  then show ?thesis using assms by (simp add: c_def)
qed

text \<open>
  OPO: in a group of at least two rows the advantages, weighted by the response lengths, sum to
  zero; the rows of such a group are undefined exactly when the group has no response token at all,
  and a row alone in its group keeps its reward.
\<close>

theorem opo_length_weighted:
  assumes len: "length index = length rewards" "length msk = length rewards"
  shows "\<exists>x. compute_opo_outcome_advantage rewards msk index =
      Inr (map2 (\<lambda>x row. map_option (\<lambda>s. map (\<lambda>k. s * k) row) x) x msk) \<and> length x = length rewards \<and>
    (\<forall>u \<in> set index. let rows = group_rows index u; tokens = (\<Sum>i \<in> rows. sum_list (msk ! i)) in
       (card rows = 1 \<longrightarrow> (\<forall>i \<in> rows. x ! i = Some (sum_list (rewards ! i)))) \<and>
       (1 < card rows \<and> tokens = 0 \<longrightarrow> (\<forall>i \<in> rows. x ! i = None)) \<and>
       (1 < card rows \<and> tokens \<noteq> 0 \<longrightarrow> (\<forall>i \<in> rows. x ! i \<noteq> None) \<and>
          (\<Sum>i \<in> rows. sum_list (msk ! i) * the (x ! i)) = 0))"
proof -
  let ?s = "row_sums rewards" and ?l = "row_sums msk"
  define x where "x = map (opo_value ?s ?l index) [0..<length rewards]"
  have len': "length index = length (zip ?s ?l)" using len by (simp add: row_sums_def)
  have xi: "x ! i = (if card (group_rows index u) = 1 then Some (sum_list (rewards ! i))
      else map_option (\<lambda>b. sum_list (rewards ! i) - b)
        (fdiv (\<Sum>j \<in> group_rows index u. sum_list (msk ! j) * sum_list (rewards ! j))
              (\<Sum>j \<in> group_rows index u. sum_list (msk ! j))))"
    if i: "i \<in> group_rows index u" for i u
  proof -
    have "(\<Sum>j \<in> group_rows index u. f (zip ?s ?l ! j)) =
        (\<Sum>j \<in> group_rows index u. f (sum_list (rewards ! j), sum_list (msk ! j)))" for f :: "rat \<times> rat \<Rightarrow> rat"
      by (intro sum.cong) (use len in \<open>simp_all add: row_sums_def group_rows_def\<close>)
    moreover have "i < length rewards" "index ! i = u" using i len by (simp_all add: group_rows_def)
    ultimately show ?thesis
      by (simp add: x_def opo_value_def Let_def members_length [OF len'] members_sum [OF len'])
        (simp add: row_sums_def)
  qed
  have "(\<Sum>i \<in> group_rows index u. sum_list (msk ! i) * the (x ! i)) = 0"
    if "1 < card (group_rows index u)" "(\<Sum>i \<in> group_rows index u. sum_list (msk ! i)) \<noteq> 0" for u
    using that weighted_deviation [OF that(2)] by (simp add: xi fdiv_def)
  moreover have "compute_opo_outcome_advantage rewards msk index =
      Inr (map2 (\<lambda>x row. map_option (\<lambda>s. map (\<lambda>k. s * k) row) x) x msk)" "length x = length rewards"
    using opo_closed [OF len] by (simp_all add: x_def)
  ultimately show ?thesis
    by (intro exI [of _ x]) (simp add: Let_def xi fdiv_def)
qed

theorem opo_length_weighted_witness:
  "\<exists>x. compute_opo_outcome_advantage [[1, 0], [0, 3], [5, 2]] [[1, 1], [1, 0], [1, 1]] [''a'', ''a'', ''b''] =
      Inr (map2 (\<lambda>x row. map_option (\<lambda>s. map (\<lambda>k. s * k) row) x) x [[1, 1], [1, 0], [1, 1]]) \<and>
     2 * the (x ! 0) + the (x ! 1) = 0"
proof -
  have "group_rows [''a'', ''a'', ''b''] ''a'' = {0, 1}"
    by (auto simp: group_rows_def less_Suc_eq)
  then show ?thesis
    using opo_length_weighted [of "[''a'', ''a'', ''b'']" "[[1, 0], [0, 3], [5, 2]]" "[[1, 1], [1, 0], [1, 1]]"]
    by (auto simp: Let_def)
qed

end
