(* ===== verification/TokenBaseline.thy ===== *)
theory TokenBaseline
  imports Advantage
begin

text \<open>
  The optimal-token-baseline estimators and GDPO of \<open>verl/trainer/ppo/core_algos.py\<close>.  The token
  baseline of a prompt group is a column-wise quotient over its trajectories; the multi-turn version
  first drops the masked tokens of every row, so that the k-th generated tokens are compared whatever
  the tool outputs in between.  \<open>fexp\<close> is \<open>torch.exp\<close>.
\<close>

definition reward_to_go :: "tensor \<Rightarrow> tensor \<Rightarrow> tensor" where
  "reward_to_go token_level_rewards response_mask =
     map suffix_sums (zipm (*) token_level_rewards response_mask)"

definition path_variance ::
  "(rat \<Rightarrow> rat) \<Rightarrow> tensor \<Rightarrow> tensor \<Rightarrow> tensor option \<Rightarrow> tensor \<Rightarrow> tensor" where
  "path_variance fexp old_log_probs sum_pi_squared rollout_is_weights response_mask =
     (let w = zipm (\<lambda>p s. 1 - 2 * fexp p + s) old_log_probs sum_pi_squared;
          w = (case rollout_is_weights of None \<Rightarrow> w | Some r \<Rightarrow> zipm (\<lambda>w r. w * r\<^sup>2) w r)
      in map (prefix_sums 0) (zipm (*) w response_mask))"

definition assign_rows :: "nat list \<Rightarrow> rat list \<Rightarrow> tensor \<Rightarrow> tensor" where
  "assign_rows rows row t = foldl (\<lambda>b i. b[i := row]) t rows"

text \<open>
  \<open>baselines[i, second_max_length:] = 0\<close> for the one longest trajectory of the group, if it is alone.
\<close>

definition zero_tail :: "rat list \<Rightarrow> nat list \<Rightarrow> tensor \<Rightarrow> tensor" where
  "zero_tail lengths idxs baselines =
     (let sorted_lengths = sort lengths;
          max_length = \<lfloor>last sorted_lengths\<rfloor>;
          second_max_length = \<lfloor>sorted_lengths ! (length sorted_lengths - 2)\<rfloor>;
          longest = filter (\<lambda>k. lengths ! k = of_int max_length) [0..<length lengths]
      in case longest of
           [k] \<Rightarrow> if max_length > second_max_length then
                     (let i = idxs ! k; row = baselines ! i; n = nat second_max_length
                      in baselines[i := take n row @ replicate (length row - n) 0])
                   else baselines
         | _ \<Rightarrow> baselines)"

definition otb_group ::
  "tensor \<Rightarrow> tensor \<Rightarrow> tensor \<Rightarrow> nat \<Rightarrow> bool \<Rightarrow> rat \<Rightarrow> tensor \<Rightarrow> nat list \<Rightarrow> tensor" where
  "otb_group returns w_cumulative response_mask seq_len handle_zero_tail epsilon baselines idxs =
     (if length idxs = 1 then baselines
      else
        (let numerator = map (\<lambda>t. \<Sum>i\<leftarrow>idxs. returns ! i ! t * w_cumulative ! i ! t * response_mask ! i ! t) [0..<seq_len];
             denominator = map (\<lambda>t. (\<Sum>i\<leftarrow>idxs. w_cumulative ! i ! t * response_mask ! i ! t) + epsilon) [0..<seq_len];
             baseline_per_step = map2 (/) numerator denominator;
             baselines1 = assign_rows idxs baseline_per_step baselines
         in if handle_zero_tail then
              zero_tail (map (\<lambda>i. sum_list (response_mask ! i)) idxs) idxs baselines1
            else baselines1))"

definition compute_optimal_token_baseline_advantage ::
  "(rat \<Rightarrow> rat) \<Rightarrow> tensor \<Rightarrow> tensor \<Rightarrow> string list \<Rightarrow> tensor \<Rightarrow> tensor \<Rightarrow> tensor option \<Rightarrow> bool \<Rightarrow> rat \<Rightarrow> tensor \<times> tensor" where
  "compute_optimal_token_baseline_advantage fexp token_level_rewards response_mask index old_log_probs
     sum_pi_squared rollout_is_weights handle_zero_tail epsilon =
     (let returns = reward_to_go token_level_rewards response_mask;
          w_cumulative = path_variance fexp old_log_probs sum_pi_squared rollout_is_weights response_mask;
          prompt_groups = collect index [0..<length token_level_rewards];
          baselines = foldl (\<lambda>b (_, idxs). otb_group returns w_cumulative response_mask (row_width token_level_rewards)
              handle_zero_tail epsilon b idxs)
            (mapm (\<lambda>_. 0) returns) prompt_groups
      in (zipm (*) (zipm (-) returns baselines) response_mask, returns))"

subsection \<open>The multi-turn version\<close>

definition compact_row :: "nat \<Rightarrow> rat list \<Rightarrow> rat list \<Rightarrow> rat list" where
  "compact_row width row msk =
     (let kept = map fst (filter (\<lambda>p. snd p \<noteq> 0) (zip row msk))
      in kept @ replicate (width - length kept) 0)"

fun spread_row :: "rat list \<Rightarrow> rat list \<Rightarrow> rat list" where
  "spread_row [] vals = []"
| "spread_row (m # msk) vals =
     (if m \<noteq> 0 then (case vals of v # vs \<Rightarrow> v # spread_row msk vs | [] \<Rightarrow> 0 # spread_row msk [])
      else 0 # spread_row msk vals)"

definition tir_group ::
  "tensor \<Rightarrow> tensor \<Rightarrow> rat list \<Rightarrow> nat \<Rightarrow> bool \<Rightarrow> rat \<Rightarrow> tensor \<Rightarrow> nat list \<Rightarrow> tensor" where
  "tir_group all_returns all_w_values response_lengths width handle_zero_tail epsilon baselines idxs =
     (if length idxs = 1 then assign_rows idxs (replicate width 0) baselines
      else
        (let b_star = map (\<lambda>t. (\<Sum>i\<leftarrow>idxs. all_returns ! i ! t * all_w_values ! i ! t) /
               ((\<Sum>i\<leftarrow>idxs. all_w_values ! i ! t) + epsilon)) [0..<width];
             baselines1 = assign_rows idxs b_star baselines
         in if handle_zero_tail then zero_tail (map (\<lambda>i. response_lengths ! i) idxs) idxs baselines1
            else baselines1))"

definition compute_multi_turn_optimal_token_baseline_advantage ::
  "(rat \<Rightarrow> rat) \<Rightarrow> tensor \<Rightarrow> tensor \<Rightarrow> string list \<Rightarrow> tensor \<Rightarrow> tensor \<Rightarrow> tensor option \<Rightarrow> bool \<Rightarrow> rat \<Rightarrow> tensor \<times> tensor" where
  "compute_multi_turn_optimal_token_baseline_advantage fexp token_level_rewards response_mask index old_log_probs
     sum_pi_squared rollout_is_weights handle_zero_tail epsilon =
     (let token_returns = reward_to_go token_level_rewards response_mask;
          w_cumulative = path_variance fexp old_log_probs sum_pi_squared rollout_is_weights response_mask;
          response_lengths = row_sums response_mask;
          width = nat \<lfloor>foldl max 0 response_lengths\<rfloor>;
          all_w_values = map2 (compact_row width) w_cumulative response_mask;
          all_returns = map2 (compact_row width) token_returns response_mask;
          present = filter (\<lambda>i. response_lengths ! i \<noteq> 0) [0..<length response_lengths];
          prompt_groups = collect (map (\<lambda>i. index ! i) present) present;
          baselines = foldl (\<lambda>b (_, idxs). tir_group all_returns all_w_values response_lengths width
              handle_zero_tail epsilon b idxs)
            (mapm (\<lambda>_. 0) all_returns) prompt_groups;
          all_advantages = zipm (-) all_returns baselines;
          advantages = map2 spread_row response_mask all_advantages
      in (zipm (*) advantages response_mask, token_returns))"

subsection \<open>GDPO\<close>

text \<open>
  The score of one reward component is put on the last valid response token; index -1 of an empty
  response is the last column.  \<open>components\<close> are the reward columns of the batch.
\<close>

definition place_score :: "rat list \<Rightarrow> int \<Rightarrow> rat \<Rightarrow> rat list result" where
  "place_score row i score =
     (let n = int (length row); k = (if i < 0 then n + i else i)
      in if 0 \<le> k \<and> k < n then Inr ((map (\<lambda>_. 0) row)[nat k := score]) else Inl IndexError)"

definition component_scores ::
  "(string, rat list) dict \<Rightarrow> nat \<Rightarrow> tensor \<Rightarrow> tensor \<Rightarrow> string \<Rightarrow> tensor result" where
  "component_scores components prompt_length attention_mask response_mask key =
     (case dict_get components key of
        None \<Rightarrow> Inl AssertionError
      | Some vals \<Rightarrow>
          rmap (\<lambda>(row, att, score). place_score row (\<lfloor>sum_list (drop prompt_length att)\<rfloor> - 1) score)
            (zip response_mask (zip attention_mask vals)))"

definition gdpo_weights :: "rat list option \<Rightarrow> nat \<Rightarrow> rat list" where
  "gdpo_weights ws n = (case ws of None \<Rightarrow> replicate n 1 | Some w \<Rightarrow> w)"

record gdpo_input =
  gi_reward_keys :: "string list"
  gi_reward_weights :: "rat list option"
  gi_components :: "(string, rat list) dict"
  gi_prompt_length :: nat
  gi_attention_mask :: tensor

definition gdpo_scores :: "tensor \<Rightarrow> tensor \<Rightarrow> gdpo_input option \<Rightarrow> (tensor list \<times> rat list option) result" where
  "gdpo_scores token_level_rewards response_mask inp =
     (case inp of
        None \<Rightarrow> Inr ([token_level_rewards], None)
      | Some gi \<Rightarrow>
          guard_assert (gi_reward_keys gi \<noteq> [])
            (rbind (rmap (component_scores (gi_components gi) (gi_prompt_length gi) (gi_attention_mask gi) response_mask)
               (gi_reward_keys gi)) (\<lambda>scores. Inr (scores, gi_reward_weights gi))))"

definition gdpo_step ::
  "(rat \<Rightarrow> rat) \<Rightarrow> tensor \<Rightarrow> string list \<Rightarrow> rat \<Rightarrow> bool \<Rightarrow> rat list \<Rightarrow> tensor option \<Rightarrow> nat \<times> tensor \<Rightarrow> tensor option result" where
  "gdpo_step fsqrt response_mask index epsilon norm_adv_by_std weights new_advantage = (\<lambda>(i, scores).
     rbind (compute_grpo_outcome_advantage fsqrt scores response_mask index epsilon norm_adv_by_std) (\<lambda>(normalized_score, _).
     rbind (list_get weights i) (\<lambda>w.
       let term_i = mapm (\<lambda>x. w * x) normalized_score
       in Inr (Some (case new_advantage of None \<Rightarrow> term_i | Some a \<Rightarrow> zipm (+) a term_i)))))"

definition compute_gdpo_outcome_advantage ::
  "(rat \<Rightarrow> rat) \<Rightarrow> (rat \<Rightarrow> rat) \<Rightarrow> tensor \<Rightarrow> tensor \<Rightarrow> string list \<Rightarrow> rat \<Rightarrow> bool \<Rightarrow> gdpo_input option \<Rightarrow>
   (tensor \<times> tensor) result" where
  "compute_gdpo_outcome_advantage fsqrt rsqrt token_level_rewards response_mask index epsilon norm_adv_by_std inp =
     rbind (gdpo_scores token_level_rewards response_mask inp) (\<lambda>(score_list, reward_weights).
     rbind (rfold (gdpo_step fsqrt response_mask index epsilon norm_adv_by_std
              (gdpo_weights reward_weights (length score_list))) None
            (zip [0..<length score_list] score_list)) (\<lambda>new_advantage.
       case new_advantage of
         None \<Rightarrow> Inl (AttributeError '''')
       | Some a \<Rightarrow>
           rbind (masked_whiten rsqrt a response_mask True) (\<lambda>w.
             let advantages = zipm (*) w response_mask in Inr (advantages, advantages))))"

end
