(* ===== verification/PolicyLoss.thy ===== *)
theory PolicyLoss
  imports TensorOps PyStr
begin

text \<open>
  KL controllers and penalties, loss aggregation and the policy losses of
  \<open>verl/trainer/ppo/core_algos.py\<close>.  \<open>fexp\<close>, \<open>flog\<close> and \<open>sigmoid\<close> are the functions of torch of
  these names.  A loss is an optional rational, \<open>None\<close> standing for an infinite or
  undefined value.  Gradients are not modelled: \<open>detach\<close> is the identity.
\<close>

subsection \<open>KL controllers\<close>

datatype kl_controller =
    AdaptiveKLController (ctrl_value: rat) (ctrl_target: rat) (ctrl_horizon: rat)
  | FixedKLController (ctrl_value: rat)

text \<open>The factory below only builds adaptive controllers with a positive horizon.\<close>

fun kl_update :: "kl_controller \<Rightarrow> rat \<Rightarrow> nat \<Rightarrow> kl_controller result" where
  "kl_update (FixedKLController v) current_kl n_steps = Inr (FixedKLController v)"
| "kl_update (AdaptiveKLController v target horizon) current_kl n_steps =
     (if target = 0 then Inl ZeroDivisionError
      else
        (let proportional_error = clamp (- 2 / 10) (2 / 10) (current_kl / target - 1);
             mult = 1 + proportional_error * of_nat n_steps / horizon
         in Inr (AdaptiveKLController (v * mult) target horizon)))"

record kl_ctrl_config =
  kl_type :: string
  kl_coef :: rat
  kl_target :: rat
  kl_horizon :: rat

definition get_kl_controller :: "kl_ctrl_config \<Rightarrow> kl_controller result" where
  "get_kl_controller cfg =
     (if kl_type cfg = ''fixed'' then Inr (FixedKLController (kl_coef cfg))
      else if kl_type cfg = ''adaptive'' then
        guard_assert (kl_horizon cfg > 0)
          (Inr (AdaptiveKLController (kl_coef cfg) (kl_target cfg) (kl_horizon cfg)))
      else Inl (NotImplementedError ''''))"

subsection \<open>KL penalties\<close>

definition kl_penalty_forward :: "(rat \<Rightarrow> rat) \<Rightarrow> tensor \<Rightarrow> tensor \<Rightarrow> string \<Rightarrow> tensor result" where
  "kl_penalty_forward fexp logprob ref_logprob penalty =
     (if penalty \<in> {''kl'', ''k1''} then Inr (zipm (\<lambda>p q. p - q) logprob ref_logprob)
      else if penalty = ''abs'' then Inr (zipm (\<lambda>p q. \<bar>p - q\<bar>) logprob ref_logprob)
      else if penalty \<in> {''mse'', ''k2''} then Inr (zipm (\<lambda>p q. 1 / 2 * (p - q)\<^sup>2) logprob ref_logprob)
      else if penalty \<in> {''low_var_kl'', ''k3''} then
        Inr (zipm (\<lambda>p q. let kl = clamp (- 20) 20 (q - p); ratio = fexp kl
                    in clamp (- 10) 10 (ratio - kl - 1)) logprob ref_logprob)
      else Inl (NotImplementedError ''''))"

definition kl_penalty :: "(rat \<Rightarrow> rat) \<Rightarrow> tensor \<Rightarrow> tensor \<Rightarrow> string \<Rightarrow> tensor result" where
  "kl_penalty fexp logprob ref_logprob penalty =
     (let base = (if ends_with penalty ''+'' then butlast penalty else penalty)
      in rbind (kl_penalty_forward fexp logprob ref_logprob base) (\<lambda>forward_score.
           if \<not> ends_with penalty ''+'' \<or> penalty \<in> {''mse'', ''k2''} then Inr forward_score
           else
             (let backward_score = zipm (\<lambda>p q. 1 / 2 * (p - q)\<^sup>2) logprob ref_logprob
              in Inr (zipm (+) (zipm (-) backward_score backward_score) forward_score))))"

definition compute_rewards :: "tensor \<Rightarrow> tensor \<Rightarrow> tensor \<Rightarrow> rat \<Rightarrow> tensor" where
  "compute_rewards token_level_scores old_log_prob ref_log_prob kl_ratio =
     (let kl = zipm (-) old_log_prob ref_log_prob
      in zipm (\<lambda>s k. s - k * kl_ratio) token_level_scores kl)"

subsection \<open>Aggregating a loss matrix\<close>

record batch_info =
  dp_size :: nat
  batch_num_tokens :: "rat option"
  global_batch_size :: "rat option"
  loss_scale_factor :: "rat option"

definition local_info :: batch_info where
  "local_info = \<lparr>dp_size = 1, batch_num_tokens = None, global_batch_size = None, loss_scale_factor = None\<rparr>"

text \<open>The sequence-mean modes: mean over the sequences with at least one unmasked token.\<close>

definition seq_mean :: "rat list \<Rightarrow> rat list \<Rightarrow> batch_info \<Rightarrow> rat option result" where
  "seq_mean seq_losses seq_mask info =
     (case global_batch_size info of
        None \<Rightarrow>
          if dp_size info > 1 then Inl (ValueError ''global_batch_size is required when dp_size > 1'')
          else Inr (map_option (\<lambda>l. l * of_nat (dp_size info)) (fdiv (masked_sum seq_losses seq_mask) (sum_list seq_mask)))
      | Some n \<Rightarrow> Inr (map_option (\<lambda>l. l * of_nat (dp_size info)) (fdiv (masked_sum seq_losses seq_mask) n)))"

definition agg_loss :: "tensor \<Rightarrow> tensor \<Rightarrow> string \<Rightarrow> batch_info \<Rightarrow> rat option result" where
  "agg_loss loss_mat loss_mask loss_agg_mode info =
     (if loss_agg_mode = ''token-mean'' then
        (case batch_num_tokens info of
           None \<Rightarrow>
             if dp_size info > 1 then
               Inl (ValueError ''(global) batch_num_tokens is required when dp_size > 1'')
             else Inr (map_option (\<lambda>l. l * of_nat (dp_size info))
                    (fdiv (masked_sum (concat loss_mat) (concat loss_mask)) (sum_list (concat loss_mask))))
         | Some n \<Rightarrow> Inr (map_option (\<lambda>l. l * of_nat (dp_size info))
                    (fdiv (masked_sum (concat loss_mat) (concat loss_mask)) n)))
      else if loss_agg_mode \<in> {''seq-mean-token-sum'', ''seq-mean-token-sum-norm''} then
        (let seq_losses = row_sums (zipm (*) loss_mat loss_mask);
             seq_mask = map (\<lambda>n. of_bool_mask (n > 0)) (row_sums loss_mask)
         in rbind (seq_mean seq_losses seq_mask info) (\<lambda>loss.
              if loss_agg_mode = ''seq-mean-token-sum-norm'' then
                (let factor = (case loss_scale_factor info of None \<Rightarrow> of_nat (row_width loss_mask) | Some f \<Rightarrow> f)
                 in Inr (Option.bind loss (\<lambda>l. fdiv l factor)))
              else Inr loss))
      else if loss_agg_mode = ''seq-mean-token-mean'' then
        (let counts = row_sums loss_mask;
             seq_losses = map2 (\<lambda>s n. s / (n + 1 / 10 ^ 8)) (row_sums (zipm (*) loss_mat loss_mask)) counts;
             seq_mask = map (\<lambda>n. of_bool_mask (n > 0)) counts
         in seq_mean seq_losses seq_mask info)
      else Inl (ValueError (''Invalid loss_agg_mode: '' @ loss_agg_mode)))"

subsection \<open>The configuration of the actor\<close>

record policy_config =
  pc_clip_ratio :: rat
  pc_clip_ratio_low :: "rat option"
  pc_clip_ratio_high :: "rat option"
  pc_clip_ratio_c :: "rat option"
  pc_tau_pos :: rat
  pc_tau_neg :: rat
  pc_info :: batch_info

definition clip_low :: "policy_config \<Rightarrow> rat" where
  "clip_low cfg = (case pc_clip_ratio_low cfg of None \<Rightarrow> pc_clip_ratio cfg | Some r \<Rightarrow> r)"

definition clip_high :: "policy_config \<Rightarrow> rat" where
  "clip_high cfg = (case pc_clip_ratio_high cfg of None \<Rightarrow> pc_clip_ratio cfg | Some r \<Rightarrow> r)"

definition clip_c :: "policy_config \<Rightarrow> rat \<Rightarrow> rat" where
  "clip_c cfg d = (case pc_clip_ratio_c cfg of None \<Rightarrow> d | Some r \<Rightarrow> r)"

type_synonym metrics = "(string \<times> rat) list"

definition mmean :: "tensor \<Rightarrow> tensor \<Rightarrow> rat" where
  "mmean values msk = masked_mean (concat values) (concat msk)"

definition weigh :: "tensor \<Rightarrow> tensor option \<Rightarrow> tensor" where
  "weigh losses weights = (case weights of None \<Rightarrow> losses | Some w \<Rightarrow> zipm (*) losses w)"

definition with_metrics :: "rat option result \<Rightarrow> metrics \<Rightarrow> (rat option \<times> metrics) result" where
  "with_metrics r ms = map_sum id (\<lambda>l. (l, ms)) r"

subsection \<open>The clipped objective\<close>

definition approx_kl :: "tensor \<Rightarrow> tensor \<Rightarrow> tensor" where
  "approx_kl log_prob old_log_prob = zipm (\<lambda>p o'. clamp (- 20) 20 (p - o')) log_prob old_log_prob"

definition pg_losses1 :: "tensor \<Rightarrow> tensor \<Rightarrow> tensor" where
  "pg_losses1 advantages ratio = zipm (\<lambda>a r. - a * r) advantages ratio"

definition pg_losses2 :: "rat \<Rightarrow> rat \<Rightarrow> tensor \<Rightarrow> tensor \<Rightarrow> tensor" where
  "pg_losses2 lo hi advantages ratio = zipm (\<lambda>a r. - a * clamp (1 - lo) (1 + hi) r) advantages ratio"

definition dual_clip :: "rat \<Rightarrow> tensor \<Rightarrow> tensor \<Rightarrow> tensor" where
  "dual_clip c advantages clip_pg_losses1 =
     zipm (\<lambda>a l. if a < 0 then min (- a * c) l else l) advantages clip_pg_losses1"

definition compute_policy_loss_vanilla ::
  "(rat \<Rightarrow> rat) \<Rightarrow> tensor \<Rightarrow> tensor \<Rightarrow> tensor \<Rightarrow> tensor \<Rightarrow> string \<Rightarrow> policy_config \<Rightarrow> tensor option \<Rightarrow>
   (rat option \<times> metrics) result" where
  "compute_policy_loss_vanilla fexp old_log_prob log_prob advantages response_mask loss_agg_mode config rollout_is_weights =
     (let clip_ratio_c = clip_c config 3
      in guard_assert (clip_ratio_c > 1)
        (let negative_approx_kl = approx_kl log_prob old_log_prob;
             ratio = mapm fexp negative_approx_kl;
             ppo_kl = mmean (mapm uminus negative_approx_kl) response_mask;
             losses1 = pg_losses1 advantages ratio;
             losses2 = pg_losses2 (clip_low config) (clip_high config) advantages ratio;
             clip_pg_losses1 = zipm max losses1 losses2;
             pg_clipfrac = mmean (zipm (\<lambda>l2 l1. of_bool_mask (l2 > l1)) losses2 losses1) response_mask;
             pg_clipfrac_lower = mmean (zipm (\<lambda>l a. of_bool_mask (l > - a * clip_ratio_c) * of_bool_mask (a < 0))
               clip_pg_losses1 advantages) response_mask;
             pg_losses = weigh (dual_clip clip_ratio_c advantages clip_pg_losses1) rollout_is_weights
         in with_metrics (agg_loss pg_losses response_mask loss_agg_mode (pc_info config))
              [(''actor/pg_clipfrac'', pg_clipfrac), (''actor/ppo_kl'', ppo_kl),
               (''actor/pg_clipfrac_lower'', pg_clipfrac_lower)]))"

text \<open>The deprecated entry point: the clip range comes as arguments and the loss is local.\<close>

definition compute_policy_loss ::
  "(rat \<Rightarrow> rat) \<Rightarrow> tensor \<Rightarrow> tensor \<Rightarrow> tensor \<Rightarrow> tensor \<Rightarrow> rat \<Rightarrow> rat option \<Rightarrow> rat option \<Rightarrow> rat \<Rightarrow> string \<Rightarrow>
   (rat option \<times> rat \<times> rat \<times> rat) result" where
  "compute_policy_loss fexp old_log_prob log_prob advantages response_mask cliprange low high clip_ratio_c loss_agg_mode =
     guard_assert (clip_ratio_c > 1)
       (let negative_approx_kl = approx_kl log_prob old_log_prob;
            ratio = mapm fexp negative_approx_kl;
            ppo_kl = mmean (mapm uminus negative_approx_kl) response_mask;
            losses1 = pg_losses1 advantages ratio;
            cliprange_low = (case low of None \<Rightarrow> cliprange | Some r \<Rightarrow> r);
            cliprange_high = (case high of None \<Rightarrow> cliprange | Some r \<Rightarrow> r);
            losses2 = pg_losses2 cliprange_low cliprange_high advantages ratio;
            clip_pg_losses1 = zipm max losses1 losses2;
            pg_clipfrac = mmean (zipm (\<lambda>l2 l1. of_bool_mask (l2 > l1)) losses2 losses1) response_mask;
            pg_clipfrac_lower = mmean (zipm (\<lambda>l a. of_bool_mask (l > - a * clip_ratio_c) * of_bool_mask (a < 0))
              clip_pg_losses1 advantages) response_mask;
            pg_losses = dual_clip clip_ratio_c advantages clip_pg_losses1
        in map_sum id (\<lambda>l. (l, pg_clipfrac, ppo_kl, pg_clipfrac_lower))
             (agg_loss pg_losses response_mask loss_agg_mode local_info))"

subsection \<open>Losses with a trust region in probability space\<close>

definition dppo_loss ::
  "(rat \<Rightarrow> rat) \<Rightarrow> (rat \<Rightarrow> rat \<Rightarrow> rat \<Rightarrow> bool) \<Rightarrow> tensor \<Rightarrow> tensor \<Rightarrow> tensor \<Rightarrow> tensor \<Rightarrow> string \<Rightarrow> policy_config \<Rightarrow>
   tensor option \<Rightarrow> (rat option \<times> metrics) result" where
  "dppo_loss fexp valid old_log_prob log_prob advantages response_mask loss_agg_mode config rollout_is_weights =
     (let negative_approx_kl = approx_kl log_prob old_log_prob;
          ratio = mapm fexp negative_approx_kl;
          ppo_kl = mmean (mapm uminus negative_approx_kl) response_mask;
          clip_ratio_c = clip_c config 20;
          truncated_ratio = mapm (\<lambda>r. min r clip_ratio_c) ratio;
          valid_mask = zipm (\<lambda>a (p, o'). of_bool_mask (valid a p o')) advantages (zipm Pair log_prob old_log_prob);
          pg_losses = zipm (*) (zipm (*) (zipm (\<lambda>a r. - a * r) advantages truncated_ratio) log_prob) valid_mask;
          pg_losses = weigh pg_losses rollout_is_weights;
          pg_clipfrac = mmean (mapm (\<lambda>v. 1 - v) valid_mask) response_mask;
          pg_clipfrac_lower = mmean (zipm (\<lambda>r v. of_bool_mask (r > clip_ratio_c) * v) ratio valid_mask) response_mask
      in with_metrics (agg_loss pg_losses response_mask loss_agg_mode (pc_info config))
           [(''actor/pg_clipfrac'', pg_clipfrac), (''actor/ppo_kl'', ppo_kl),
            (''actor/pg_clipfrac_lower'', pg_clipfrac_lower)])"

definition tv_valid :: "(rat \<Rightarrow> rat) \<Rightarrow> rat \<Rightarrow> rat \<Rightarrow> rat \<Rightarrow> rat \<Rightarrow> rat \<Rightarrow> bool" where
  "tv_valid fexp lo hi advantage log_prob old_log_prob =
     (let prob = fexp log_prob; old_prob = fexp old_log_prob
      in if advantage > 0 then prob - old_prob \<le> hi else prob - old_prob \<ge> - lo)"

definition compute_policy_loss_dppo_tv ::
  "(rat \<Rightarrow> rat) \<Rightarrow> tensor \<Rightarrow> tensor \<Rightarrow> tensor \<Rightarrow> tensor \<Rightarrow> string \<Rightarrow> policy_config \<Rightarrow> tensor option \<Rightarrow>
   (rat option \<times> metrics) result" where
  "compute_policy_loss_dppo_tv fexp old_log_prob log_prob advantages response_mask loss_agg_mode config =
     dppo_loss fexp (tv_valid fexp (clip_low config) (clip_high config))
       old_log_prob log_prob advantages response_mask loss_agg_mode config"

definition kl_valid :: "(rat \<Rightarrow> rat) \<Rightarrow> (rat \<Rightarrow> rat) \<Rightarrow> rat \<Rightarrow> rat \<Rightarrow> rat \<Rightarrow> rat \<Rightarrow> rat \<Rightarrow> bool" where
  "kl_valid fexp flog lo hi advantage log_prob old_log_prob =
     (let prob = fexp log_prob; old_prob = fexp old_log_prob;
          binary_kl = old_prob * (old_log_prob - log_prob) +
            (1 - old_prob) * flog ((1 - old_prob + 1 / 10 ^ 8) / (1 - prob + 1 / 10 ^ 8))
      in if advantage > 0 then binary_kl \<le> hi \<or> prob \<le> old_prob
         else binary_kl \<le> lo \<or> prob \<ge> old_prob)"

definition compute_policy_loss_dppo_kl ::
  "(rat \<Rightarrow> rat) \<Rightarrow> (rat \<Rightarrow> rat) \<Rightarrow> tensor \<Rightarrow> tensor \<Rightarrow> tensor \<Rightarrow> tensor \<Rightarrow> string \<Rightarrow> policy_config \<Rightarrow> tensor option \<Rightarrow>
   (rat option \<times> metrics) result" where
  "compute_policy_loss_dppo_kl fexp flog old_log_prob log_prob advantages response_mask loss_agg_mode config =
     dppo_loss fexp (kl_valid fexp flog (clip_low config) (clip_high config))
       old_log_prob log_prob advantages response_mask loss_agg_mode config"

subsection \<open>Sequence-level and soft-clipped losses\<close>

definition compute_policy_loss_gspo ::
  "(rat \<Rightarrow> rat) \<Rightarrow> tensor \<Rightarrow> tensor \<Rightarrow> tensor \<Rightarrow> tensor \<Rightarrow> policy_config \<Rightarrow> tensor option \<Rightarrow>
   (rat option \<times> metrics) result" where
  "compute_policy_loss_gspo fexp old_log_prob log_prob advantages response_mask config rollout_is_weights =
     (let negative_approx_kl = zipm (-) log_prob old_log_prob;
          seq_lengths = map (\<lambda>n. max n 1) (row_sums response_mask);
          negative_approx_kl_seq = map2 (/) (row_sums (zipm (*) negative_approx_kl response_mask)) seq_lengths;
          log_seq_importance_ratio = map2 (\<lambda>row k. map (\<lambda>p. min (p - p + k) 10) row) log_prob negative_approx_kl_seq;
          seq_importance_ratio = mapm fexp log_seq_importance_ratio;
          losses1 = pg_losses1 advantages seq_importance_ratio;
          losses2 = pg_losses2 (clip_low config) (clip_high config) advantages seq_importance_ratio;
          pg_losses = weigh (zipm max losses1 losses2) rollout_is_weights;
          pg_clipfrac = mmean (zipm (\<lambda>l2 l1. of_bool_mask (l2 > l1)) losses2 losses1) response_mask;
          ppo_kl = mmean (mapm uminus negative_approx_kl) response_mask
      in with_metrics (agg_loss pg_losses response_mask ''seq-mean-token-mean'' (pc_info config))
           [(''actor/pg_clipfrac'', pg_clipfrac), (''actor/ppo_kl'', ppo_kl), (''actor/pg_clipfrac_lower'', 0)])"

definition compute_policy_loss_sapo ::
  "(rat \<Rightarrow> rat) \<Rightarrow> (rat \<Rightarrow> rat) \<Rightarrow> tensor \<Rightarrow> tensor \<Rightarrow> tensor \<Rightarrow> tensor \<Rightarrow> policy_config \<Rightarrow> tensor option \<Rightarrow>
   (rat option \<times> metrics) result" where
  "compute_policy_loss_sapo fexp sigmoid old_log_prob log_prob advantages response_mask config rollout_is_weights =
     (let gate_function = (\<lambda>x tau. sigmoid (tau * (x - 1)) * (4 / tau));
          negative_approx_kl = approx_kl log_prob old_log_prob;
          ratio = mapm fexp negative_approx_kl;
          gates = zipm (\<lambda>r a. gate_function r (if a > 0 then pc_tau_pos config else pc_tau_neg config)) ratio advantages;
          pg_losses = weigh (zipm (\<lambda>g a. - g * a) gates advantages) rollout_is_weights;
          ppo_kl = mmean (mapm uminus negative_approx_kl) response_mask
      in with_metrics (agg_loss pg_losses response_mask ''seq-mean-token-mean'' (pc_info config))
           [(''actor/pg_clipfrac'', 0), (''actor/ppo_kl'', ppo_kl), (''actor/pg_clipfrac_lower'', 0)])"

definition compute_policy_loss_gpg ::
  "tensor \<Rightarrow> tensor \<Rightarrow> tensor \<Rightarrow> string \<Rightarrow> policy_config \<Rightarrow> tensor option \<Rightarrow> (rat option \<times> metrics) result" where
  "compute_policy_loss_gpg log_prob advantages response_mask loss_agg_mode config rollout_is_weights =
     with_metrics (agg_loss (weigh (zipm (\<lambda>p a. - p * a) log_prob advantages) rollout_is_weights)
       response_mask loss_agg_mode (pc_info config)) []"

definition compute_policy_loss_cispo ::
  "(rat \<Rightarrow> rat) \<Rightarrow> tensor \<Rightarrow> tensor \<Rightarrow> tensor \<Rightarrow> tensor \<Rightarrow> string \<Rightarrow> policy_config \<Rightarrow> tensor option \<Rightarrow>
   (rat option \<times> metrics) result" where
  "compute_policy_loss_cispo fexp old_log_prob log_prob advantages response_mask loss_agg_mode config rollout_is_weights =
     (let negative_approx_kl = approx_kl log_prob old_log_prob;
          ratio = mapm fexp negative_approx_kl;
          ppo_kl = mmean (mapm uminus negative_approx_kl) response_mask;
          clipped_ratio = mapm (clamp (1 - clip_low config) (1 + clip_high config)) ratio;
          pg_losses = zipm (*) (zipm (\<lambda>r a. - r * a) clipped_ratio advantages) log_prob;
          pg_clipfrac = mmean (zipm (\<lambda>r c. of_bool_mask (r \<noteq> c)) ratio clipped_ratio) response_mask;
          pg_losses = weigh pg_losses rollout_is_weights
      in with_metrics (agg_loss pg_losses response_mask loss_agg_mode (pc_info config))
           [(''actor/pg_clipfrac'', pg_clipfrac), (''actor/ppo_kl'', ppo_kl), (''actor/pg_clipfrac_lower'', 0)])"

text \<open>GMPO: \<open>torch.mean\<close> over the sequences of the micro-batch, whatever the aggregation mode.\<close>

definition compute_policy_loss_geo_mean ::
  "(rat \<Rightarrow> rat) \<Rightarrow> (rat \<Rightarrow> rat) \<Rightarrow> tensor \<Rightarrow> tensor \<Rightarrow> tensor \<Rightarrow> tensor \<Rightarrow> policy_config \<Rightarrow> tensor option \<Rightarrow>
   rat option \<times> metrics" where
  "compute_policy_loss_geo_mean fexp flog old_log_prob log_prob advantages response_mask config rollout_is_weights =
     (let negative_approx_kl = zipm (-) log_prob old_log_prob;
          ppo_kl = mmean (mapm uminus negative_approx_kl) response_mask;
          sgn_advantage = mapm sgn advantages;
          negative_approx_kl_clamp = mapm (clamp (- clip_low config) (clip_high config)) negative_approx_kl;
          negative_approx_kl_min = zipm min (zipm (*) sgn_advantage negative_approx_kl)
            (zipm (*) sgn_advantage negative_approx_kl_clamp);
          negative_approx_kl_min = zipm (*) sgn_advantage negative_approx_kl_min;
          response_mask_sum = row_sums response_mask;
          ratio = map2 (\<lambda>s n. fexp (s / (n + 1 / 10 ^ 8)))
            (row_sums (zipm (*) negative_approx_kl_min response_mask)) response_mask_sum;
          advantage = map2 (\<lambda>s n. s / (n + 1 / 10 ^ 8)) (row_sums (zipm (*) advantages response_mask)) response_mask_sum;
          pg_losses = map2 (\<lambda>a r. - a * r) advantage ratio;
          pg_losses = (case rollout_is_weights of
              None \<Rightarrow> pg_losses
            | Some w \<Rightarrow> map2 (*) pg_losses (map2 (\<lambda>s n. fexp (s / (n + 1 / 10 ^ 8)))
                (row_sums (zipm (*) (mapm (\<lambda>x. flog (x + 1 / 10 ^ 10)) w) response_mask)) response_mask_sum));
          pg_loss = fdiv (sum_list pg_losses) (of_nat (length pg_losses));
          clipped = zipm (\<lambda>x y. x \<noteq> y) negative_approx_kl negative_approx_kl_clamp;
          pg_clipfrac = mmean (zipm (\<lambda>c a. of_bool_mask (c \<and> a > 0)) clipped advantages) response_mask;
          pg_clipfrac_lower = mmean (zipm (\<lambda>c a. of_bool_mask (c \<and> a < 0)) clipped advantages) response_mask
      in (pg_loss, [(''actor/pg_clipfrac'', pg_clipfrac), (''actor/ppo_kl'', ppo_kl),
                    (''actor/pg_clipfrac_lower'', pg_clipfrac_lower)]))"

definition compute_policy_loss_reinforce ::
  "tensor \<Rightarrow> tensor \<Rightarrow> tensor \<Rightarrow> tensor \<Rightarrow> string \<Rightarrow> policy_config \<Rightarrow> tensor option \<Rightarrow> (rat option \<times> metrics) result" where
  "compute_policy_loss_reinforce rollout_log_prob log_prob advantages response_mask loss_agg_mode config rollout_is_weights =
     (let pg_losses = (case rollout_is_weights of
              Some w \<Rightarrow> zipm (*) (zipm (\<lambda>a p. - a * p) advantages log_prob) w
            | None \<Rightarrow> zipm (\<lambda>a p. - a * p) advantages log_prob);
          negative_approx_kl = zipm (-) log_prob rollout_log_prob;
          kl_divergence = mmean (mapm uminus negative_approx_kl) response_mask
      in with_metrics (agg_loss pg_losses response_mask loss_agg_mode (pc_info config))
           [(''actor/ppo_kl'', kl_divergence)])"

subsection \<open>The value loss\<close>

definition compute_value_loss ::
  "tensor \<Rightarrow> tensor \<Rightarrow> tensor \<Rightarrow> tensor \<Rightarrow> rat \<Rightarrow> string \<Rightarrow> batch_info \<Rightarrow> (rat option \<times> rat) result" where
  "compute_value_loss vpreds returns values response_mask cliprange_value loss_agg_mode info =
     (let vpredclipped = zipm (\<lambda>p v. clip_by_value p (v - cliprange_value) (v + cliprange_value)) vpreds values;
          vf_losses1 = zipm (\<lambda>p r. (p - r)\<^sup>2) vpreds returns;
          vf_losses2 = zipm (\<lambda>p r. (p - r)\<^sup>2) vpredclipped returns;
          clipped_vf_losses = zipm max vf_losses1 vf_losses2;
          vf_clipfrac = mmean (zipm (\<lambda>l2 l1. of_bool_mask (l2 > l1)) vf_losses2 vf_losses1) response_mask
      in map_sum id (\<lambda>l. (map_option (\<lambda>x. 1 / 2 * x) l, vf_clipfrac))
           (agg_loss clipped_vf_losses response_mask loss_agg_mode info))"

subsection \<open>Laws of the aggregation, the clipped loss and the KL terms\<close>

definition seq_present :: "tensor \<Rightarrow> rat list" where
  "seq_present msk = map (\<lambda>n. of_bool_mask (n > 0)) (row_sums msk)"

definition agg_numerator :: "string \<Rightarrow> tensor \<Rightarrow> tensor \<Rightarrow> rat" where
  "agg_numerator mode mat msk =
     (if mode = ''token-mean'' then masked_sum (concat mat) (concat msk)
      else if mode = ''seq-mean-token-mean'' then
        masked_sum (map2 (\<lambda>s n. s / (n + 1 / 10 ^ 8)) (row_sums (zipm (*) mat msk)) (row_sums msk)) (seq_present msk)
      else masked_sum (row_sums (zipm (*) mat msk)) (seq_present msk))"

definition agg_total :: "string \<Rightarrow> tensor \<Rightarrow> rat" where
  "agg_total mode msk = (if mode = ''token-mean'' then sum_list (concat msk) else sum_list (seq_present msk))"

definition agg_scale :: "string \<Rightarrow> rat \<Rightarrow> rat" where
  "agg_scale mode factor = (if mode = ''seq-mean-token-sum-norm'' then factor else 1)"

definition agg_modes :: "string set" where
  "agg_modes = {''token-mean'', ''seq-mean-token-sum'', ''seq-mean-token-sum-norm'', ''seq-mean-token-mean''}"

lemma agg_numerator_append:
  assumes "same_shape a m"
  shows "agg_numerator mode (a @ b) (m @ n) = agg_numerator mode a m + agg_numerator mode b n"
  using assms same_shape_length [OF assms] length_concat_shape [OF assms]
  by (simp add: agg_numerator_def masked_sum_append zipm_append row_sums_append seq_present_def)

lemma agg_total_append: "agg_total mode (m @ n) = agg_total mode m + agg_total mode n"
  by (simp add: agg_total_def seq_present_def row_sums_append)

lemma agg_modes_cases:
  assumes "mode \<in> agg_modes"
  obtains "mode = ''token-mean''" | "mode = ''seq-mean-token-sum''"
    | "mode = ''seq-mean-token-sum-norm''" | "mode = ''seq-mean-token-mean''"
  using assms unfolding agg_modes_def by (elim insertE emptyE) (erule that)+

lemma mode_neq [simp]:
  "''seq-mean-token-sum'' \<noteq> ''token-mean''" "''seq-mean-token-sum-norm'' \<noteq> ''token-mean''"
  "''seq-mean-token-mean'' \<noteq> ''token-mean''" "''seq-mean-token-sum'' \<noteq> ''seq-mean-token-sum-norm''"
  "''seq-mean-token-mean'' \<noteq> ''seq-mean-token-sum''" "''seq-mean-token-mean'' \<noteq> ''seq-mean-token-sum-norm''"
  "''seq-mean-token-sum'' \<noteq> ''seq-mean-token-mean''" "''seq-mean-token-sum-norm'' \<noteq> ''seq-mean-token-mean''"
  "''seq-mean-token-sum-norm'' \<noteq> ''seq-mean-token-sum''"
  by simp_all

lemma agg_loss_modes:
  "agg_loss mat msk ''token-mean'' info =
     (case batch_num_tokens info of
        None \<Rightarrow> if dp_size info > 1 then Inl (ValueError ''(global) batch_num_tokens is required when dp_size > 1'')
          else Inr (map_option (\<lambda>l. l * of_nat (dp_size info))
            (fdiv (masked_sum (concat mat) (concat msk)) (sum_list (concat msk))))
      | Some n \<Rightarrow> Inr (map_option (\<lambda>l. l * of_nat (dp_size info)) (fdiv (masked_sum (concat mat) (concat msk)) n)))"
  "agg_loss mat msk ''seq-mean-token-sum'' info = seq_mean (row_sums (zipm (*) mat msk)) (seq_present msk) info"
  "agg_loss mat msk ''seq-mean-token-sum-norm'' info = rbind (seq_mean (row_sums (zipm (*) mat msk)) (seq_present msk) info)
     (\<lambda>loss. Inr (Option.bind loss (\<lambda>l. fdiv l (case loss_scale_factor info of None \<Rightarrow> of_nat (row_width msk) | Some f \<Rightarrow> f))))"
  "agg_loss mat msk ''seq-mean-token-mean'' info =
     seq_mean (map2 (\<lambda>s n. s / (n + 1 / 10 ^ 8)) (row_sums (zipm (*) mat msk)) (row_sums msk)) (seq_present msk) info"
  by (simp_all only: agg_loss_def if_True if_False mode_neq Let_def insert_iff empty_iff simp_thms seq_present_def)
    (cases "seq_mean (row_sums (zipm (*) mat msk)) (map (\<lambda>n. of_bool_mask (n > 0)) (row_sums msk)) info"; simp)

lemma agg_numerator_modes:
  "agg_numerator ''token-mean'' mat msk = masked_sum (concat mat) (concat msk)"
  "agg_numerator ''seq-mean-token-sum'' mat msk = masked_sum (row_sums (zipm (*) mat msk)) (seq_present msk)"
  "agg_numerator ''seq-mean-token-sum-norm'' mat msk = masked_sum (row_sums (zipm (*) mat msk)) (seq_present msk)"
  "agg_numerator ''seq-mean-token-mean'' mat msk =
     masked_sum (map2 (\<lambda>s n. s / (n + 1 / 10 ^ 8)) (row_sums (zipm (*) mat msk)) (row_sums msk)) (seq_present msk)"
  "agg_total ''token-mean'' msk = sum_list (concat msk)"
  "agg_total ''seq-mean-token-sum'' msk = sum_list (seq_present msk)"
  "agg_total ''seq-mean-token-sum-norm'' msk = sum_list (seq_present msk)"
  "agg_total ''seq-mean-token-mean'' msk = sum_list (seq_present msk)"
  "agg_scale ''token-mean'' c = 1" "agg_scale ''seq-mean-token-sum'' c = 1"
  "agg_scale ''seq-mean-token-sum-norm'' c = c" "agg_scale ''seq-mean-token-mean'' c = 1"
  by (simp_all only: agg_numerator_def agg_total_def agg_scale_def if_True if_False mode_neq
      mode_neq [symmetric] refl)

lemmas agg_unfold = agg_loss_modes agg_numerator_modes seq_mean_def fdiv_def

lemma agg_loss_global:
  assumes mode: "mode \<in> agg_modes" and n: "agg_total mode gmask \<noteq> 0" "c \<noteq> 0"
    and info: "batch_num_tokens info = Some (sum_list (concat gmask))"
      "global_batch_size info = Some (sum_list (seq_present gmask))" "loss_scale_factor info = Some c"
  shows "agg_loss mat msk mode info = Inr (Some
    (agg_numerator mode mat msk / agg_total mode gmask * of_nat (dp_size info) / agg_scale mode c))"
  using mode by (rule agg_modes_cases) (use n info in \<open>simp_all add: agg_unfold\<close>)

lemma agg_loss_local:
  assumes mode: "mode \<in> agg_modes" and n: "agg_total mode msk \<noteq> 0" "c \<noteq> 0"
  shows "agg_loss mat msk mode (local_info\<lparr>loss_scale_factor := Some c\<rparr>) =
    Inr (Some (agg_numerator mode mat msk / agg_total mode msk / agg_scale mode c))"
  using mode by (rule agg_modes_cases) (use n in \<open>simp_all add: agg_unfold local_info_def\<close>)

lemma agg_numerator_concat:
  "\<forall>(mat, msk) \<in> set batches. same_shape mat msk \<Longrightarrow>
   agg_numerator mode (concat (map fst batches)) (concat (map snd batches)) =
   (\<Sum>(mat, msk) \<leftarrow> batches. agg_numerator mode mat msk)"
  by (induction batches) (auto simp: agg_numerator_append, simp add: agg_numerator_def masked_sum_def zipm_def row_sums_def)



text \<open>Two tensors agree under a mask when they have its shape and its unmasked entries.\<close>

definition agree :: "tensor \<Rightarrow> 'a list list \<Rightarrow> 'a list list \<Rightarrow> bool" where
  "agree msk a b \<longleftrightarrow> same_shape a msk \<and> same_shape b msk \<and>
     (\<forall>i < length msk. \<forall>t < length (msk ! i). msk ! i ! t \<noteq> 0 \<longrightarrow> a ! i ! t = b ! i ! t)"

lemma agree_Cons [simp]:
  "agree (m # ms) (a # as) (b # bs) \<longleftrightarrow> length a = length m \<and> length b = length m \<and>
     (\<forall>t < length m. m ! t \<noteq> 0 \<longrightarrow> a ! t = b ! t) \<and> agree ms as bs"
  "agree [] as bs \<longleftrightarrow> as = [] \<and> bs = []"
  by (auto simp: agree_def All_less_Suc2)

lemma agree_induct [consumes 1, case_names Nil Cons]:
  assumes "agree msk a b" and "P [] [] []"
    and "\<And>m x y ms xs ys. length x = length m \<Longrightarrow> length y = length m \<Longrightarrow>
      (\<forall>t < length m. m ! t \<noteq> 0 \<longrightarrow> x ! t = y ! t) \<Longrightarrow> agree ms xs ys \<Longrightarrow> P ms xs ys \<Longrightarrow>
      P (m # ms) (x # xs) (y # ys)"
  shows "P msk a b"
  using assms(1)
proof (induction msk arbitrary: a b)
  case Nil
  then show ?case using assms(2) by simp
next
  case (Cons m ms)
  then obtain x xs y ys where "a = x # xs" "b = y # ys"
    by (cases a; cases b) (auto simp: agree_def)
  with Cons show ?case by (auto intro: assms(3))
qed

lemma agree_refl [simp]: "agree msk a a \<longleftrightarrow> same_shape a msk"
  by (auto simp: agree_def)

lemma agree_zipm [intro]:
  assumes "agree msk a a'" "agree msk b b'"
  shows "agree msk (zipm f a b) (zipm f a' b')"
proof -
  have sh: "same_shape a b" "same_shape a' b'"
    using assms by (auto simp: agree_def intro: same_shape_trans same_shape_sym)
  then show ?thesis
    using assms same_shape_trans [OF same_shape_zipm(2) [OF sh(1)]] same_shape_trans [OF same_shape_zipm(2) [OF sh(2)]]
    by (auto simp: agree_def zipm_nth same_shape_length same_shape_nth)
qed

lemma agree_mapm [intro]: "agree msk a b \<Longrightarrow> agree msk (mapm f a) (mapm f b)"
  by (auto simp: agree_def mapm_nth same_shape_length same_shape_nth)

lemma agree_weigh: "agree msk a b \<Longrightarrow> rel_option (agree msk) w w' \<Longrightarrow> agree msk (weigh a w) (weigh b w')"
  by (auto simp: weigh_def split: option.splits)

lemma masked_sum_cong:
  assumes "length a = length m" "length b = length m" "\<forall>t < length m. m ! t \<noteq> 0 \<longrightarrow> a ! t = b ! t"
  shows "masked_sum a m = masked_sum b m"
proof -
  have "map2 (\<lambda>v m. (if m \<noteq> 0 then v else 0) * m) a m = map2 (\<lambda>v m. (if m \<noteq> 0 then v else 0) * m) b m"
    using assms by (intro nth_equalityI) auto
  then show ?thesis by (simp add: masked_sum_def)
qed

lemma agree_masked_sum: "agree msk a b \<Longrightarrow> masked_sum (concat a) (concat msk) = masked_sum (concat b) (concat msk)"
  by (induction rule: agree_induct) (auto simp: masked_sum_append intro: masked_sum_cong)

lemma agree_masked_rows: "agree msk a b \<Longrightarrow> row_sums (zipm (*) a msk) = row_sums (zipm (*) b msk)"
proof (induction rule: agree_induct)
  case (Cons m x y ms xs ys)
  have "map2 (*) x m = map2 (*) y m"
  proof (rule nth_equalityI)
    fix i assume "i < length (map2 (*) x m)"
    then show "map2 (*) x m ! i = map2 (*) y m ! i"
      using Cons(1-3) by (cases "m ! i = 0") auto
  qed (use Cons(1,2) in simp)
  with Cons show ?case by (simp add: zipm_def row_sums_def)
qed (simp add: zipm_def)

lemma agree_mmean: "agree msk a b \<Longrightarrow> mmean a msk = mmean b msk"
  by (simp add: mmean_def masked_mean_def agree_masked_sum)

lemma agree_agg_loss:
  assumes "agree msk a b"
  shows "agg_loss a msk mode info = agg_loss b msk mode info"
  unfolding agg_loss_def Let_def by (simp only: agree_masked_sum [OF assms] agree_masked_rows [OF assms])

text \<open>
  Masked tokens never influence the PPO loss or its metrics: two batches whose log-probabilities,
  advantages and importance weights agree on the unmasked tokens have the same result, in every
  aggregation mode.
\<close>

theorem ppo_loss_ignores_masked:
  assumes "agree msk old old'" "agree msk lp lp'" "agree msk adv adv'" "rel_option (agree msk) w w'"
  shows "compute_policy_loss_vanilla fexp old lp adv msk mode cfg w =
    compute_policy_loss_vanilla fexp old' lp' adv' msk mode cfg w'"
proof -
  have kl: "agree msk (approx_kl lp old) (approx_kl lp' old')"
    unfolding approx_kl_def using assms by blast
  have l1: "agree msk (pg_losses1 adv (mapm fexp (approx_kl lp old))) (pg_losses1 adv' (mapm fexp (approx_kl lp' old')))"
    unfolding pg_losses1_def using assms kl by blast
  have l2: "agree msk (pg_losses2 a b adv (mapm fexp (approx_kl lp old))) (pg_losses2 a b adv' (mapm fexp (approx_kl lp' old')))" for a b
    unfolding pg_losses2_def using assms kl by blast
  note clip = agree_zipm [OF l1 l2]
  have pg: "agree msk (weigh (dual_clip c adv (zipm max (pg_losses1 adv (mapm fexp (approx_kl lp old)))
        (pg_losses2 a b adv (mapm fexp (approx_kl lp old))))) w)
      (weigh (dual_clip c adv' (zipm max (pg_losses1 adv' (mapm fexp (approx_kl lp' old')))
        (pg_losses2 a b adv' (mapm fexp (approx_kl lp' old'))))) w')" for a b c
    unfolding dual_clip_def by (intro agree_weigh [OF _ assms(4)] agree_zipm [OF assms(3)] clip)
  show ?thesis
    unfolding compute_policy_loss_vanilla_def Let_def
    by (simp only: agree_agg_loss [OF pg] agree_mmean [OF agree_mapm [OF kl]]
        agree_mmean [OF agree_zipm [OF l2 l1]] agree_mmean [OF agree_zipm [OF clip assms(3)]])
qed

lemma ppo_loss_ignores_masked_witness:
  "compute_policy_loss_vanilla (\<lambda>x. x + 1) [[0, 5]] [[1 / 2, 1]] [[2, 3]] [[1, 0]] ''token-mean''
     \<lparr>pc_clip_ratio = 1 / 5, pc_clip_ratio_low = None, pc_clip_ratio_high = None, pc_clip_ratio_c = None,
      pc_tau_pos = 1, pc_tau_neg = 1, pc_info = local_info\<rparr> None =
   compute_policy_loss_vanilla (\<lambda>x. x + 1) [[0, 0]] [[1 / 2, 7]] [[2, 0]] [[1, 0]] ''token-mean''
     \<lparr>pc_clip_ratio = 1 / 5, pc_clip_ratio_low = None, pc_clip_ratio_high = None, pc_clip_ratio_c = None,
      pc_tau_pos = 1, pc_tau_neg = 1, pc_info = local_info\<rparr> None"
  by (rule ppo_loss_ignores_masked) (auto simp: All_less_Suc2)

definition ppo_token_loss :: "rat \<Rightarrow> rat \<Rightarrow> rat \<Rightarrow> rat \<Rightarrow> rat \<Rightarrow> rat" where
  "ppo_token_loss lo hi c a r =
     (if a < 0 then - a * min c (max r (1 - lo)) else - a * min r (1 + hi))"

lemma ppo_token:
  assumes "1 - lo \<le> 1 + hi"
  shows "(if a < 0 then min (- a * c) (max (- a * r) (- a * clamp (1 - lo) (1 + hi) r))
     else max (- a * r) (- a * clamp (1 - lo) (1 + hi) r)) = ppo_token_loss lo hi c a r"
proof (cases "a < 0")
  case True
  then have "max (- a * x) (- a * y) = - a * max x y" "min (- a * x) (- a * y) = - a * min x y" for x y
    by (simp_all add: max_mult_distrib_left min_mult_distrib_left)
  with True assms show ?thesis by (auto simp: ppo_token_loss_def clamp_def max_def min_def)
next
  case False
  then have "max (- a * x) (- a * y) = - a * min x y" for x y
    by (simp add: min_mult_distrib_left flip: minus_min_eq_max)
  with False assms show ?thesis by (auto simp: ppo_token_loss_def clamp_def max_def min_def)
qed

text \<open>
  C33. With a proper clip range the PPO loss is the aggregation of the dual-clipped surrogate: for a
  non-negative advantage \<open>-A min(r, 1 + high)\<close>, for a negative one \<open>-A min(c, max(r, 1 - low))\<close>, times
  the importance weight if there is one.
\<close>

theorem ppo_loss_dual_clip:
  assumes shape: "same_shape old lp" "same_shape adv lp"
    and range: "1 - clip_low cfg \<le> 1 + clip_high cfg" and c: "clip_c cfg 3 > 1"
  shows "\<exists>ms. compute_policy_loss_vanilla fexp old lp adv msk mode cfg w =
    with_metrics (agg_loss (weigh (zipm (ppo_token_loss (clip_low cfg) (clip_high cfg) (clip_c cfg 3)) adv
        (zipm (\<lambda>p q. fexp (clamp (- 20) 20 (p - q))) lp old)) w) msk mode (pc_info cfg)) ms"
proof -
  let ?r = "zipm (\<lambda>p q. fexp (clamp (- 20) 20 (p - q))) lp old"
  have ratio: "mapm fexp (approx_kl lp old) = ?r"
    by (simp add: approx_kl_def mapm_zipm)
  have "same_shape ?r adv"
    using shape by (meson same_shape_sym same_shape_trans same_shape_zipm(2))
  then have sh: "same_shape adv ?r" by (rule same_shape_sym)
  have dc: "dual_clip (clip_c cfg 3) adv (zipm max (pg_losses1 adv ?r) (pg_losses2 (clip_low cfg) (clip_high cfg) adv ?r)) =
      zipm (ppo_token_loss (clip_low cfg) (clip_high cfg) (clip_c cfg 3)) adv ?r"
    unfolding dual_clip_def pg_losses1_def pg_losses2_def zipm_zipm_both [OF sh] zipm_zipm_left [OF sh]
    by (simp add: ppo_token [OF range])
  have g: "guard_assert (1 < clip_c cfg 3) r = r" for r :: "(rat option \<times> metrics) result"
    using c by simp
  show ?thesis
    unfolding compute_policy_loss_vanilla_def Let_def ratio g dc by (rule exI, rule refl)
qed

lemma ppo_loss_dual_clip_witness:
  "\<exists>ms. compute_policy_loss_vanilla (\<lambda>x. x + 1) [[0, 1]] [[1 / 2, 0]] [[2, - 3]] [[1, 1]] ''token-mean''
      \<lparr>pc_clip_ratio = 1 / 5, pc_clip_ratio_low = None, pc_clip_ratio_high = None, pc_clip_ratio_c = None,
       pc_tau_pos = 1, pc_tau_neg = 1, pc_info = local_info\<rparr> None =
    with_metrics (agg_loss (weigh (zipm (ppo_token_loss (1 / 5) (1 / 5) 3) [[2, - 3]]
        (zipm (\<lambda>p q. clamp (- 20) 20 (p - q) + 1) [[1 / 2, 0]] [[0, 1]])) None) [[1, 1]] ''token-mean'' local_info) ms"
  using ppo_loss_dual_clip [of "[[0, 1]]" "[[1 / 2, 0]]" "[[2, - 3]]"
      "\<lparr>pc_clip_ratio = 1 / 5, pc_clip_ratio_low = None, pc_clip_ratio_high = None, pc_clip_ratio_c = None,
        pc_tau_pos = 1, pc_tau_neg = 1, pc_info = local_info\<rparr>" "\<lambda>x. x + 1" "[[1, 1]]" "''token-mean''" None]
  by (simp add: clip_low_def clip_high_def clip_c_def)

definition kl_kinds :: "string set" where
  "kl_kinds = {''kl'', ''k1''} \<union> {''abs''} \<union> {''mse'', ''k2''} \<union> {''low_var_kl'', ''k3''}"

definition kl_token :: "(rat \<Rightarrow> rat) \<Rightarrow> string \<Rightarrow> rat \<Rightarrow> rat \<Rightarrow> rat" where
  "kl_token fexp kind p q =
     (if kind \<in> {''kl'', ''k1''} then p - q else if kind = ''abs'' then \<bar>p - q\<bar>
      else if kind \<in> {''mse'', ''k2''} then 1 / 2 * (p - q)\<^sup>2
      else clamp (- 10) 10 (fexp (clamp (- 20) 20 (q - p)) - clamp (- 20) 20 (q - p) - 1))"

lemma kl_penalty_forward_token:
  "kl_penalty_forward fexp a b kind =
   (if kind \<in> kl_kinds then Inr (zipm (kl_token fexp kind) a b) else Inl (NotImplementedError ''''))"
  by (cases "kind \<in> {''kl'', ''k1''}"; cases "kind = ''abs''"; cases "kind \<in> {''mse'', ''k2''}";
      cases "kind \<in> {''low_var_kl'', ''k3''}";
      simp only: kl_penalty_forward_def kl_token_def [abs_def] kl_kinds_def Un_iff singleton_iff if_True if_False simp_thms Let_def)

lemma kl_token_nonneg:
  assumes "\<And>x. 1 + x \<le> fexp x" "kind \<notin> {''kl'', ''k1''}"
  shows "0 \<le> kl_token fexp kind p q"
proof -
  have "0 \<le> fexp y - y - 1" for y
    using assms(1) [of y] by (simp add: algebra_simps)
  then show ?thesis using assms(2) by (simp add: kl_token_def clamp_nonneg)
qed

text \<open>
  For a supported base name the KL estimate is the token-wise one and the straight-through variant
  \<open>name+\<close> has the same value (it changes gradients only); every estimator but k1 is non-negative on
  every token, and k3 stays within 10, for any \<open>exp\<close> above its tangent at zero.  An unsupported name
  without the suffix raises \<open>NotImplementedError\<close>.
\<close>

theorem kl_penalty_estimates:
  assumes shape: "same_shape lp ref" and tangent: "\<And>x. 1 + x \<le> fexp x"
    and base: "\<not> ends_with kind ''+''"
  shows "case kl_penalty fexp lp ref kind of
      Inl e \<Rightarrow> kind \<notin> kl_kinds \<and> e = NotImplementedError ''''
    | Inr k \<Rightarrow> kind \<in> kl_kinds \<and> same_shape k lp \<and> kl_penalty fexp lp ref (kind @ ''+'') = Inr k \<and>
        (kind \<notin> {''kl'', ''k1''} \<longrightarrow> list_all (list_all (\<lambda>x. 0 \<le> x)) k) \<and>
        (kind \<in> {''low_var_kl'', ''k3''} \<longrightarrow> list_all (list_all (\<lambda>x. x \<le> 10)) k)"
proof (cases "kind \<in> kl_kinds")
  case True
  let ?k = "zipm (kl_token fexp kind) lp ref" and ?b = "zipm (\<lambda>p q. 1 / 2 * (p - q)\<^sup>2) lp ref"
  have fwd: "kl_penalty_forward fexp lp ref kind = Inr ?k"
    using True by (simp add: kl_penalty_forward_token)
  have plus: "ends_with (kind @ ''+'') ''+''" "butlast (kind @ ''+'') = kind" "kind @ ''+'' \<notin> {''mse'', ''k2''}"
    by (auto simp: ends_with_def append_eq_Cons_conv Cons_eq_append_conv)
  have sh: "same_shape ?b ?k"
    using shape by (meson same_shape_sym same_shape_trans same_shape_zipm(2))
  have "kl_penalty fexp lp ref kind = Inr ?k"
    using base by (simp add: kl_penalty_def fwd)
  moreover have "kl_penalty fexp lp ref (kind @ ''+'') = Inr ?k"
    by (simp only: kl_penalty_def plus if_True if_False fwd rbind_simps Let_def simp_thms zipm_add_zero [OF sh])
  moreover have "list_all (list_all (\<lambda>x. 0 \<le> x)) ?k" if "kind \<notin> {''kl'', ''k1''}"
    by (rule zipm_all) (rule kl_token_nonneg [OF tangent that])
  moreover have "list_all (list_all (\<lambda>x. x \<le> 10)) ?k" if "kind \<in> {''low_var_kl'', ''k3''}"
    by (rule zipm_all) (use that in \<open>auto simp: kl_token_def clamp_bounds\<close>)
  ultimately show ?thesis using True shape by simp
next
  case False
  then show ?thesis using base by (simp add: kl_penalty_def kl_penalty_forward_token)
qed

lemma kl_penalty_estimates_witness:
  "case kl_penalty (\<lambda>x. if 0 \<le> x then 1 + x else max (1 + x) 0) [[0, - 1]] [[- 2, - 1]] ''k3'' of
     Inl e \<Rightarrow> False | Inr k \<Rightarrow> list_all (list_all (\<lambda>x. 0 \<le> x \<and> x \<le> 10)) k"
proof -
  define kind where "kind = ''k3''"
  have kind: "\<not> ends_with kind ''+''" "kind \<in> kl_kinds" "kind \<notin> {''kl'', ''k1''}" "kind \<in> {''low_var_kl'', ''k3''}"
    by (simp_all add: ends_with_def kl_kinds_def kind_def)
  have tangent: "1 + x \<le> (if 0 \<le> x then 1 + x else max (1 + x) 0)" for x :: rat
    by simp
  show ?thesis
    using kl_penalty_estimates [of "[[0, - 1]]" "[[- 2, - 1]]" "\<lambda>x. if 0 \<le> x then 1 + x else max (1 + x) 0", OF _ tangent kind(1)]
    using kind(2-4) unfolding kind_def [symmetric] by (auto simp: list_all_iff simp del: insert_iff split: sum.splits)
qed

text \<open>
  One update of the adaptive controller changes the coefficient by at most 20 per cent per horizon
  of steps, upwards exactly when the measured KL is above a positive target, downwards exactly when
  it is below; the coefficient stays positive as long as the steps of an update are fewer than five
  horizons, and from there on a KL far below the target makes it zero or negative.
\<close>

theorem kl_controller_bounds:
  assumes v: "0 < v" and target: "0 < target" and horizon: "0 < horizon" and n: "0 < n"
  shows "\<exists>v'. kl_update (AdaptiveKLController v target horizon) current n = Inr (AdaptiveKLController v' target horizon) \<and>
    \<bar>v' - v\<bar> \<le> v * (of_nat n / (5 * horizon)) \<and>
    (v < v' \<longleftrightarrow> target < current) \<and> (v' < v \<longleftrightarrow> current < target) \<and>
    (of_nat n < 5 * horizon \<longrightarrow> 0 < v') \<and>
    (5 * horizon \<le> of_nat n \<and> current \<le> 8 / 10 * target \<longrightarrow> v' \<le> 0)"
proof -
  define e where "e = clamp (- 2 / 10) (2 / 10) (current / target - 1)"
  define m where "m = of_nat n / horizon"
  have m: "0 < m" using n horizon by (simp add: m_def)
  have e: "\<bar>e\<bar> \<le> 1 / 5" "0 < e \<longleftrightarrow> target < current" "e < 0 \<longleftrightarrow> current < target"
    using target by (auto simp: e_def clamp_def min_def max_def field_simps abs_if)
  have low: "e = - 1 / 5" if "current \<le> 8 / 10 * target"
    using that target by (auto simp: e_def clamp_def min_def max_def field_simps)
  define v' where "v' = v + v * (e * m)"
  have upd: "kl_update (AdaptiveKLController v target horizon) current n =
      Inr (AdaptiveKLController v' target horizon)"
    unfolding v'_def e_def m_def using target by (simp add: Let_def algebra_simps)
  have "\<bar>v' - v\<bar> \<le> v * (m / 5)"
    using v m e(1) by (simp add: v'_def abs_mult)
  then have bound: "\<bar>v' - v\<bar> \<le> v * (of_nat n / (5 * horizon))"
    by (simp add: m_def mult.commute)
  have sign: "v < v' \<longleftrightarrow> target < current" "v' < v \<longleftrightarrow> current < target"
    using v m e(2,3) by (simp_all add: v'_def zero_less_mult_iff mult_less_0_iff)
  have pos: "0 < v'" if "of_nat n < 5 * horizon"
  proof -
    have "of_nat n / (5 * horizon) < 1" using that horizon by (simp add: field_simps)
    with v have "v * (of_nat n / (5 * horizon)) < v * 1" by (intro mult_strict_left_mono)
    with bound show ?thesis by linarith
  qed
  have neg: "v' \<le> 0" if "5 * horizon \<le> of_nat n" "current \<le> 8 / 10 * target"
  proof -
    have "5 \<le> m" using that(1) horizon by (simp add: m_def field_simps)
    then have "e * m \<le> - 1" by (simp add: low [OF that(2)])
    with v have "v * (e * m) \<le> v * - 1" by (intro mult_left_mono) simp_all
    then show ?thesis by (simp add: v'_def)
  qed
  show ?thesis
    using upd bound sign pos neg by blast
qed

lemma kl_controller_bounds_witness:
  "\<exists>v'. kl_update (AdaptiveKLController (1 / 10) 6 100) 9 32 = Inr (AdaptiveKLController v' 6 100) \<and> 1 / 10 < v'"
  using kl_controller_bounds [of "1 / 10" 6 100 32 9] by auto

end
