(* ===== verification/TrainerAdvantage.thy ===== *)
theory TrainerAdvantage
  imports TokenBaseline PolicyLoss PyVal
begin

text \<open>
  The functions of \<open>verl/trainer/ppo/ray_trainer.py\<close> between the rollout and the update: the response
  mask, the KL penalty on rewards, the speculative-decoding metrics and the dispatch of
  \<open>compute_advantage\<close> over the estimators, with the resampling of PF-PPO.  A \<open>DataProto\<close> is a
  dictionary of tensor columns (\<open>PartialRows\<close> has rows of NaN), a dictionary of object columns and a
  dictionary of meta information.
\<close>

datatype column = Rows tensor | Scalars "rat list" | PartialRows "rat list option list"

datatype object_column = Labels "string list" | Numbers "rat list"

record trainer_proto =
  dp_batch :: "(string, column) dict"
  dp_non_tensor :: "(string, object_column) dict"
  dp_meta :: "(string, pyval) dict"

definition get_rows :: "trainer_proto \<Rightarrow> string \<Rightarrow> tensor result" where
  "get_rows data k = (case dict_get (dp_batch data) k of
     Some (Rows t) \<Rightarrow> Inr t
   | Some _ \<Rightarrow> Inl (RuntimeError ''shape mismatch'')
   | None \<Rightarrow> Inl (KeyError k))"

definition get_uid :: "trainer_proto \<Rightarrow> string list result" where
  "get_uid data = (case dict_get (dp_non_tensor data) ''uid'' of
     Some (Labels l) \<Rightarrow> Inr l
   | Some (Numbers _) \<Rightarrow> Inl (RuntimeError ''labels expected'')
   | None \<Rightarrow> Inl (KeyError ''uid''))"

definition set_rows :: "string \<Rightarrow> tensor \<Rightarrow> trainer_proto \<Rightarrow> trainer_proto" where
  "set_rows k t data = data\<lparr>dp_batch := dict_set (dp_batch data) k (Rows t)\<rparr>"

text \<open>\<open>attention_mask[:, -response_length:]\<close>; a zero response length takes the whole row.\<close>

definition last_columns :: "nat \<Rightarrow> 'a list \<Rightarrow> 'a list" where
  "last_columns n row = (if n = 0 then row else drop (length row - n) row)"

definition compute_response_mask :: "trainer_proto \<Rightarrow> tensor result" where
  "compute_response_mask data =
     rbind (get_rows data ''responses'') (\<lambda>responses.
     rbind (get_rows data ''attention_mask'') (\<lambda>attention_mask.
       Inr (map (last_columns (row_width responses)) attention_mask)))"

subsection \<open>The KL penalty on the rewards\<close>

definition apply_kl_penalty ::
  "(rat \<Rightarrow> rat) \<Rightarrow> trainer_proto \<Rightarrow> kl_controller \<Rightarrow> string \<Rightarrow> (trainer_proto \<times> kl_controller \<times> metrics) result" where
  "apply_kl_penalty fexp data kl_ctrl penalty =
     rbind (get_rows data ''response_mask'') (\<lambda>response_mask.
     rbind (get_rows data ''token_level_scores'') (\<lambda>token_level_scores.
     rbind (get_rows data ''old_log_probs'') (\<lambda>old_log_probs.
     rbind (get_rows data ''ref_log_prob'') (\<lambda>ref_log_prob.
     rbind (kl_penalty fexp old_log_probs ref_log_prob penalty) (\<lambda>kld0.
       let kld = zipm (*) kld0 response_mask;
           beta = ctrl_value kl_ctrl;
           token_level_rewards = zipm (\<lambda>s k. s - beta * k) token_level_scores kld;
           current_kl = tmean (map2 masked_mean kld response_mask)
       in rbind (kl_update kl_ctrl current_kl (length token_level_scores)) (\<lambda>kl_ctrl'.
            Inr (set_rows ''token_level_rewards'' token_level_rewards data, kl_ctrl',
                 [(''actor/reward_kl_penalty'', current_kl), (''actor/reward_kl_penalty_coeff'', beta)])))))))"

subsection \<open>Speculative decoding\<close>

fun zip_strict :: "'a list \<Rightarrow> 'b list \<Rightarrow> ('a \<times> 'b) list result" where
  "zip_strict [] [] = Inr []"
| "zip_strict (x # xs) (y # ys) = rbind (zip_strict xs ys) (\<lambda>r. Inr ((x, y) # r))"
| "zip_strict [] (y # ys) = Inl (ValueError ''zip() argument 2 is longer than argument 1'')"
| "zip_strict (x # xs) [] = Inl (ValueError ''zip() argument 2 is shorter than argument 1'')"

definition keep_by :: "bool list option \<Rightarrow> 'a list \<Rightarrow> 'a list result" where
  "keep_by non_padding_mask xs = (case non_padding_mask of
     None \<Rightarrow> Inr xs
   | Some keep \<Rightarrow> map_sum id (\<lambda>ps. map fst (filter snd ps)) (zip_strict xs keep))"

definition compute_spec_decode_metrics ::
  "rat list option \<Rightarrow> rat list option \<Rightarrow> rat list option \<Rightarrow> bool list option \<Rightarrow> (string, rat) dict result" where
  "compute_spec_decode_metrics spec_drafts spec_accepts spec_verifies non_padding_mask =
     (if spec_drafts = None \<and> spec_accepts = None \<and> spec_verifies = None then Inr []
      else (case (spec_drafts, spec_accepts, spec_verifies) of
        (Some drafts0, Some accepts0, Some verifies0) \<Rightarrow>
          rbind (keep_by non_padding_mask drafts0) (\<lambda>drafts.
          rbind (keep_by non_padding_mask accepts0) (\<lambda>accepts.
          rbind (keep_by non_padding_mask verifies0) (\<lambda>verifies.
            if drafts = [] then Inr []
            else
              rbind (zip_strict accepts drafts) (\<lambda>ad.
              rbind (zip_strict accepts verifies) (\<lambda>av.
                let accept_rate = map (\<lambda>(a, d). if d > 0 then a / d else 0) ad;
                    accept_length = map (\<lambda>(a, v). if v > 0 then 1 + a / v else 0) av;
                    n = of_nat (length drafts)
                in Inr [(''rollout/spec_accept_rate'', sum_list accept_rate / n),
                        (''rollout/spec_accept_length'', sum_list accept_length / n)])))))
      | _ \<Rightarrow> Inl AssertionError))"

subsection \<open>Resampling of PF-PPO\<close>

record torch_ops =
  t_sqrt :: "rat \<Rightarrow> rat"
  t_rsqrt :: "rat \<Rightarrow> rat"
  t_exp :: "rat \<Rightarrow> rat"
  t_pow :: "rat \<Rightarrow> rat \<Rightarrow> rat"
  t_topk2 :: "rat list \<Rightarrow> (rat \<times> nat) \<times> (rat \<times> nat)"
  t_multinomial :: "rat list \<Rightarrow> nat \<Rightarrow> nat list"

definition compute_weights :: "torch_ops \<Rightarrow> rat list \<Rightarrow> string \<Rightarrow> rat \<Rightarrow> rat list result" where
  "compute_weights ops scores reweight_method weight_pow =
     (if reweight_method = ''pow'' then Inr (map (\<lambda>s. t_pow ops \<bar>s\<bar> weight_pow) scores)
      else if reweight_method = ''max_min'' then
        (if scores = [] then Inl (RuntimeError ''max(): Expected reduction dim to be specified'')
         else Inr (map (\<lambda>s. if s = Max (set scores) \<or> s = Min (set scores) then 1 else 0) scores))
      else if reweight_method = ''max_random'' then
        (if scores = [] then Inl (RuntimeError ''max(): Expected reduction dim to be specified'')
         else Inr (map (\<lambda>s. if s = Max (set scores) then 4 / 10 else 1 / 10) scores))
      else Inl (ValueError (''Unsupported reweight_method: '' @ reweight_method)))"

definition select_column :: "nat list \<Rightarrow> column \<Rightarrow> column" where
  "select_column is c = (case c of
     Rows t \<Rightarrow> Rows (map ((!) t) is)
   | Scalars xs \<Rightarrow> Scalars (map ((!) xs) is)
   | PartialRows t \<Rightarrow> PartialRows (map ((!) t) is))"

definition select_object :: "nat list \<Rightarrow> object_column \<Rightarrow> object_column" where
  "select_object is c = (case c of
     Labels t \<Rightarrow> Labels (map ((!) t) is) | Numbers xs \<Rightarrow> Numbers (map ((!) xs) is))"

definition select_meta :: "nat \<Rightarrow> nat list \<Rightarrow> pyval \<Rightarrow> pyval" where
  "select_meta batch_size is v = (case v of
     PList xs \<Rightarrow> if length xs = batch_size then PList (map ((!) xs) is) else v | _ \<Rightarrow> v)"

definition compute_pf_ppo_reweight_data :: "torch_ops \<Rightarrow> trainer_proto \<Rightarrow> string \<Rightarrow> rat \<Rightarrow> trainer_proto result" where
  "compute_pf_ppo_reweight_data ops data reweight_method weight_pow =
     rbind (get_rows data ''token_level_scores'') (\<lambda>token_level_scores.
       let scores = row_sums token_level_scores
       in rbind (compute_weights ops scores reweight_method weight_pow) (\<lambda>weights0.
            let weights = map (\<lambda>w. max (w + 1 / 10 ^ 8) (1 / 10 ^ 8)) weights0;
                batch_size = length scores;
                sample_indices = t_multinomial ops weights batch_size
            in Inr \<lparr>dp_batch = map (\<lambda>(k, c). (k, select_column sample_indices c)) (dp_batch data),
                    dp_non_tensor = map (\<lambda>(k, c). (k, select_object sample_indices c)) (dp_non_tensor data),
                    dp_meta = map (\<lambda>(k, v). (k, select_meta batch_size sample_indices v)) (dp_meta data)\<rparr>))"

subsection \<open>The dispatch over the estimators\<close>

datatype adv_estimator = GAE | GRPO | REINFORCE_PLUS_PLUS | REINFORCE_PLUS_PLUS_BASELINE | REMAX | RLOO | OPO
  | GRPO_PASSK | GPG | RLOO_VECTORIZED | GRPO_VECTORIZED | OPTIMAL_TOKEN_BASELINE | TIR_OPTIMAL_TOKEN_BASELINE
  | GDPO

definition adv_estimator_registry :: "(string \<times> adv_estimator) list" where
  "adv_estimator_registry =
     [(''gae'', GAE), (''grpo'', GRPO), (''grpo_vectorized'', GRPO_VECTORIZED), (''gdpo'', GDPO),
      (''grpo_passk'', GRPO_PASSK), (''reinforce_plus_plus_baseline'', REINFORCE_PLUS_PLUS_BASELINE),
      (''rloo'', RLOO), (''opo'', OPO), (''reinforce_plus_plus'', REINFORCE_PLUS_PLUS), (''remax'', REMAX),
      (''gpg'', GPG), (''rloo_vectorized'', RLOO_VECTORIZED),
      (''optimal_token_baseline'', OPTIMAL_TOKEN_BASELINE),
      (''tir_optimal_token_baseline'', TIR_OPTIMAL_TOKEN_BASELINE)]"

definition get_adv_estimator_fn :: "string \<Rightarrow> adv_estimator result" where
  "get_adv_estimator_fn name = (case map_of adv_estimator_registry name of
     None \<Rightarrow> Inl (ValueError (''Unknown advantage estimator simply: '' @ name))
   | Some e \<Rightarrow> Inr e)"

record algo_config =
  ac_gamma :: rat
  ac_norm_adv_by_std :: bool
  ac_use_pf_ppo :: bool
  ac_reweight_method :: string
  ac_weight_pow :: rat
  ac_gdpo_reward_keys :: "string list"
  ac_gdpo_reward_weights :: "rat list option"

text \<open>What the registered estimator is called with; \<open>TypeError\<close> is a call that does not fit its signature.\<close>

record adv_kwargs =
  kw_rewards :: tensor
  kw_mask :: tensor
  kw_config :: "algo_config option"
  kw_index :: "string list option"
  kw_baselines :: "rat list option"

definition need_index :: "adv_kwargs \<Rightarrow> (string list \<Rightarrow> 'a result) \<Rightarrow> 'a result" where
  "need_index kw f = (case kw_index kw of
     None \<Rightarrow> Inl (TypeError ''missing 1 required positional argument: index'') | Some i \<Rightarrow> f i)"

definition need_config :: "adv_kwargs \<Rightarrow> (algo_config \<Rightarrow> 'a result) \<Rightarrow> 'a result" where
  "need_config kw f = (case kw_config kw of None \<Rightarrow> Inl AssertionError | Some c \<Rightarrow> f c)"

definition as_columns :: "(tensor \<times> tensor) result \<Rightarrow> (column \<times> column) result" where
  "as_columns r = map_sum id (\<lambda>(a, b). (Rows a, Rows b)) r"

definition eps6 :: rat where "eps6 = 1 / 10 ^ 6"

definition gdpo_input_of :: "trainer_proto \<Rightarrow> algo_config option \<Rightarrow> gdpo_input option result" where
  "gdpo_input_of data cfg = (case cfg of
     None \<Rightarrow> Inr None
   | Some c \<Rightarrow>
       guard_assert (ac_gdpo_reward_keys c \<noteq> [])
        (rbind (get_rows data ''prompts'') (\<lambda>prompts.
         rbind (get_rows data ''attention_mask'') (\<lambda>attention_mask.
           Inr (Some \<lparr>gi_reward_keys = ac_gdpo_reward_keys c, gi_reward_weights = ac_gdpo_reward_weights c,
             gi_components = List.map_filter (\<lambda>(k, v). case v of Numbers xs \<Rightarrow> Some (k, xs) | Labels _ \<Rightarrow> None)
               (dp_non_tensor data),
             gi_prompt_length = row_width prompts, gi_attention_mask = attention_mask\<rparr>)))))"

definition otb_columns ::
  "(string list \<Rightarrow> tensor \<Rightarrow> tensor \<Rightarrow> tensor option \<Rightarrow> tensor \<times> tensor) \<Rightarrow> trainer_proto \<Rightarrow> adv_kwargs \<Rightarrow>
   (column \<times> column) result" where
  "otb_columns f data kw =
     guard_assert (dict_has (dp_batch data) ''sum_pi_squared'')
       (rbind (get_rows data ''sum_pi_squared'') (\<lambda>sum_pi_squared.
        rbind (get_rows data ''old_log_probs'') (\<lambda>old_log_probs.
        rbind (if dict_has (dp_batch data) ''rollout_is_weights''
               then map_sum id Some (get_rows data ''rollout_is_weights'') else Inr None) (\<lambda>weights.
          need_index kw (\<lambda>index. as_columns (Inr (f index old_log_probs sum_pi_squared weights)))))))"

definition call_estimator ::
  "torch_ops \<Rightarrow> trainer_proto \<Rightarrow> adv_estimator \<Rightarrow> adv_kwargs \<Rightarrow> (column \<times> column) result" where
  "call_estimator ops data e kw =
     (let r = kw_rewards kw; m = kw_mask kw in
      case e of
        GRPO_VECTORIZED \<Rightarrow> need_index kw (\<lambda>index.
          if kw_baselines kw \<noteq> None then Inl (TypeError ''got an unexpected keyword argument reward_baselines'')
          else as_columns (compute_grpo_vectorized_outcome_advantage (t_sqrt ops) r m index eps6 True))
      | GRPO_PASSK \<Rightarrow> need_index kw (\<lambda>index. need_config kw (\<lambda>c.
          as_columns (compute_grpo_passk_outcome_advantage (t_sqrt ops) (t_topk2 ops) r m index eps6 (ac_norm_adv_by_std c))))
      | REINFORCE_PLUS_PLUS_BASELINE \<Rightarrow> need_index kw (\<lambda>index.
          as_columns (compute_reinforce_plus_plus_baseline_outcome_advantage (t_rsqrt ops) r m index))
      | RLOO \<Rightarrow> need_index kw (\<lambda>index. as_columns (compute_rloo_outcome_advantage r m index))
      | OPO \<Rightarrow> need_index kw (\<lambda>index.
          map_sum id (\<lambda>rows. (PartialRows rows, PartialRows rows)) (compute_opo_outcome_advantage r m index))
      | REINFORCE_PLUS_PLUS \<Rightarrow> need_config kw (\<lambda>c.
          as_columns (compute_reinforce_plus_plus_outcome_advantage (t_rsqrt ops) r m (ac_gamma c)))
      | REMAX \<Rightarrow> (case kw_baselines kw of
            None \<Rightarrow> Inl (TypeError ''missing 1 required positional argument: reward_baselines'')
          | Some b \<Rightarrow> as_columns (Inr (compute_remax_outcome_advantage r b m)))
      | GPG \<Rightarrow> need_index kw (\<lambda>index. as_columns (compute_gpg_outcome_advantage r m index 1))
      | RLOO_VECTORIZED \<Rightarrow> need_index kw (\<lambda>index.
          as_columns (Inr (compute_rloo_vectorized_outcome_advantage r m index)))
      | OPTIMAL_TOKEN_BASELINE \<Rightarrow> otb_columns (\<lambda>index olp spi w. compute_optimal_token_baseline_advantage
          (t_exp ops) r m index olp spi w True (1 / 10 ^ 8)) data kw
      | TIR_OPTIMAL_TOKEN_BASELINE \<Rightarrow> otb_columns (\<lambda>index olp spi w. compute_multi_turn_optimal_token_baseline_advantage
          (t_exp ops) r m index olp spi w True (1 / 10 ^ 8)) data kw
      | GDPO \<Rightarrow> need_index kw (\<lambda>index. rbind (gdpo_input_of data (kw_config kw)) (\<lambda>inp.
          as_columns (compute_gdpo_outcome_advantage (t_sqrt ops) (t_rsqrt ops) r m index eps6 True inp)))
      | _ \<Rightarrow> Inl (NotImplementedError ''''))"

definition set_advantages :: "column \<Rightarrow> column \<Rightarrow> trainer_proto \<Rightarrow> trainer_proto" where
  "set_advantages advantages returns data =
     data\<lparr>dp_batch := dict_set (dict_set (dp_batch data) ''advantages'' advantages) ''returns'' returns\<rparr>"

definition with_response_mask :: "trainer_proto \<Rightarrow> trainer_proto result" where
  "with_response_mask data =
     (if dict_has (dp_batch data) ''response_mask'' then Inr data
      else rbind (compute_response_mask data) (\<lambda>m. Inr (set_rows ''response_mask'' m data)))"

definition compute_advantage ::
  "torch_ops \<Rightarrow> trainer_proto \<Rightarrow> string \<Rightarrow> rat \<Rightarrow> rat \<Rightarrow> bool \<Rightarrow> algo_config option \<Rightarrow> trainer_proto result" where
  "compute_advantage ops data0 adv_estimator gamma lam norm_adv_by_std_in_grpo config =
     rbind (with_response_mask data0) (\<lambda>data.
       if adv_estimator = ''gae'' then
         rbind (get_rows data ''token_level_rewards'') (\<lambda>rewards.
         rbind (get_rows data ''values'') (\<lambda>values.
         rbind (get_rows data ''response_mask'') (\<lambda>response_mask.
         rbind (compute_gae_advantage_return (t_rsqrt ops) rewards values response_mask gamma lam) (\<lambda>(advantages, returns).
           let data1 = set_advantages (Rows advantages) (Rows returns) data
           in case config of
                None \<Rightarrow> Inl (AttributeError '''')
              | Some c \<Rightarrow> if ac_use_pf_ppo c
                  then compute_pf_ppo_reweight_data ops data1 (ac_reweight_method c) (ac_weight_pow c)
                  else Inr data1))))
       else if adv_estimator = ''grpo'' then
         rbind (get_rows data ''response_mask'') (\<lambda>response_mask.
         rbind (get_rows data ''token_level_rewards'') (\<lambda>rewards.
         rbind (get_uid data) (\<lambda>uid.
         rbind (compute_grpo_outcome_advantage (t_sqrt ops) rewards response_mask uid eps6 norm_adv_by_std_in_grpo)
           (\<lambda>(advantages, returns). Inr (set_advantages (Rows advantages) (Rows returns) data)))))
       else
         rbind (get_adv_estimator_fn adv_estimator) (\<lambda>e.
         rbind (get_rows data ''token_level_rewards'') (\<lambda>rewards.
         rbind (get_rows data ''response_mask'') (\<lambda>response_mask.
           let kw = \<lparr>kw_rewards = rewards, kw_mask = response_mask, kw_config = config,
                     kw_index = (case dict_get (dp_non_tensor data) ''uid'' of Some (Labels l) \<Rightarrow> Some l | _ \<Rightarrow> None),
                     kw_baselines = (case dict_get (dp_batch data) ''reward_baselines'' of
                        Some (Scalars b) \<Rightarrow> Some b | _ \<Rightarrow> None)\<rparr>
           in rbind (call_estimator ops data e kw) (\<lambda>(advantages, returns).
                Inr (set_advantages advantages returns data))))))"

subsection \<open>Shapes of the advantages\<close>

definition masked_typed :: "tensor \<Rightarrow> tensor \<Rightarrow> bool" where
  "masked_typed a msk \<longleftrightarrow> same_shape a msk \<and>
     (\<forall>i < length msk. \<forall>t < length (msk ! i). msk ! i ! t = 0 \<longrightarrow> a ! i ! t = 0)"

lemma masked_typed_broadcast: "length x = length msk \<Longrightarrow> masked_typed (broadcast_rows x msk) msk"
  by (simp add: masked_typed_def broadcast_nth)

lemma masked_typed_zipm: "same_shape w msk \<Longrightarrow> masked_typed (zipm (*) w msk) msk"
  by (simp add: masked_typed_def zipm_nth same_shape_nth same_shape_length)

lemma masked_whiten_shape: "masked_whiten rsqrt v msk b = Inr w \<Longrightarrow> same_shape w v"
  by (auto simp: masked_whiten_def rbind_Inr_iff Let_def split: if_splits)

lemma length_rpp_returns [simp]: "length (rpp_returns gamma rs ms) = min (length rs) (length ms)"
proof -
  have "length (snd (foldr (rpp_step gamma) ps (0, []))) = length ps" for ps
    by (induction ps) (auto simp: rpp_step_def Let_def split: prod.splits)
  then show ?thesis by (simp add: rpp_returns_def)
qed

lemma same_shape_map2:
  assumes "same_shape a m" "\<And>x y. length (f x y) = min (length x) (length y)"
  shows "same_shape (map2 f a m) m"
  using assms(1) by (induction rule: same_shape_induct) (simp_all add: assms(2))

lemma estimator_scalars:
  "rbind R (\<lambda>d. rbind (rmap (h d) (zip (row_sums r) index)) (\<lambda>s. let a = broadcast_rows s msk in Inr (a, a))) = Inr (a, b) \<Longrightarrow>
   length index = length msk \<Longrightarrow> length r = length msk \<Longrightarrow> masked_typed a msk"
  by (auto simp: rbind_Inr_iff Let_def dest!: rmap_Inr_length intro!: masked_typed_broadcast)

lemma grpo_typed:
  "compute_grpo_outcome_advantage fsqrt r msk index e n = Inr (a, b) \<Longrightarrow>
   length index = length msk \<Longrightarrow> length r = length msk \<Longrightarrow> masked_typed a msk"
  unfolding compute_grpo_outcome_advantage_def Let_def by (erule estimator_scalars [unfolded Let_def])

lemma rloo_typed:
  "compute_rloo_outcome_advantage r msk index = Inr (a, b) \<Longrightarrow>
   length index = length msk \<Longrightarrow> length r = length msk \<Longrightarrow> masked_typed a msk"
  unfolding compute_rloo_outcome_advantage_def Let_def by (erule estimator_scalars [unfolded Let_def])

lemma gpg_typed:
  "compute_gpg_outcome_advantage r msk index f = Inr (a, b) \<Longrightarrow>
   length index = length msk \<Longrightarrow> length r = length msk \<Longrightarrow> masked_typed a msk"
  unfolding compute_gpg_outcome_advantage_def Let_def by (erule estimator_scalars [unfolded Let_def])

lemma whitened_typed:
  "masked_whiten rsqrt v msk b = Inr w \<Longrightarrow> same_shape v msk \<Longrightarrow> masked_typed (zipm (*) w msk) msk"
  by (rule masked_typed_zipm) (rule same_shape_trans [OF masked_whiten_shape])

lemma rppb_typed:
  "compute_reinforce_plus_plus_baseline_outcome_advantage rsqrt r msk index = Inr (a, b) \<Longrightarrow>
   length index = length msk \<Longrightarrow> length r = length msk \<Longrightarrow> masked_typed a msk"
  by (auto simp: compute_reinforce_plus_plus_baseline_outcome_advantage_def rbind_Inr_iff Let_def
      dest!: rmap_Inr_length elim!: whitened_typed)

lemma rpp_typed:
  "compute_reinforce_plus_plus_outcome_advantage rsqrt r msk gamma = Inr (a, b) \<Longrightarrow>
   same_shape r msk \<Longrightarrow> masked_typed a msk"
  by (auto simp: compute_reinforce_plus_plus_outcome_advantage_def rbind_Inr_iff Let_def
      elim!: whitened_typed intro!: same_shape_map2)

lemma passk_step_length: "passk_step fsqrt topk2 d e n s x = Inr s' \<Longrightarrow> length s' = length s"
  by (auto simp: passk_step_def rbind_Inr_iff Let_def split: prod.splits if_splits)

lemma passk_typed:
  assumes "compute_grpo_passk_outcome_advantage fsqrt topk2 r msk index e n = Inr (a, b)" "length r = length msk"
  shows "masked_typed a msk"
proof -
  obtain adv d where fold: "rfold (passk_step fsqrt topk2 d e n) (map (\<lambda>_. 0) (row_sums r)) (collect index (row_sums r)) = Inr adv"
    and a: "a = broadcast_rows adv msk"
    using assms(1) by (auto simp: compute_grpo_passk_outcome_advantage_def rbind_Inr_iff Let_def)
  have "length adv = length r"
    by (rule rfold_inv [where I = "\<lambda>s. length s = length r", OF fold]) (auto dest: passk_step_length)
  then show ?thesis using assms(2) a by (simp add: masked_typed_broadcast)
qed

lemma grpo_vectorized_typed:
  assumes "compute_grpo_vectorized_outcome_advantage fsqrt r msk index e n = Inr (a, b)"
    "length index = length msk" "length r = length msk"
  shows "masked_typed a msk"
  using assms by (auto simp: compute_grpo_vectorized_outcome_advantage_def rbind_Inr_iff Let_def
      intro!: masked_typed_broadcast)

lemma rloo_vectorized_typed:
  assumes "compute_rloo_vectorized_outcome_advantage r msk index = (a, b)"
    "length index = length msk" "length r = length msk"
  shows "masked_typed a msk"
  using assms by (auto simp: compute_rloo_vectorized_outcome_advantage_def Let_def intro!: masked_typed_broadcast)

definition masked_estimators :: "adv_estimator set" where
  "masked_estimators = {GRPO, GRPO_VECTORIZED, GRPO_PASSK, REINFORCE_PLUS_PLUS, REINFORCE_PLUS_PLUS_BASELINE,
     RLOO, RLOO_VECTORIZED, GPG}"

lemma as_columns_iff: "as_columns r = Inr (c, d) \<longleftrightarrow> (\<exists>a b. r = Inr (a, b) \<and> c = Rows a \<and> d = Rows b)"
  by (cases r) (auto simp: as_columns_def)

lemma call_estimator_typed:
  assumes call: "call_estimator ops data e kw = Inr (c, d)" and e: "e \<in> masked_estimators" "e \<noteq> GRPO"
    and shape: "same_shape (kw_rewards kw) (kw_mask kw)"
    and index: "\<forall>l. kw_index kw = Some l \<longrightarrow> length l = length (kw_mask kw)"
  shows "\<exists>a. c = Rows a \<and> masked_typed a (kw_mask kw)"
proof -
  note len = same_shape_length [OF shape]
  from e consider "e = GRPO_VECTORIZED" | "e = GRPO_PASSK" | "e = REINFORCE_PLUS_PLUS"
    | "e = REINFORCE_PLUS_PLUS_BASELINE" | "e = RLOO" | "e = RLOO_VECTORIZED" | "e = GPG"
    by (auto simp: masked_estimators_def)
  then show ?thesis
  proof cases
    case 1
    then show ?thesis
      using call index len by (auto simp: call_estimator_def need_index_def as_columns_iff
          split: option.splits if_splits dest: grpo_vectorized_typed)
  next
    case 2
    then show ?thesis
      using call len by (auto simp: call_estimator_def need_index_def need_config_def as_columns_iff
          split: option.splits dest: passk_typed)
  next
    case 3
    then show ?thesis
      using call shape by (auto simp: call_estimator_def need_config_def as_columns_iff
          split: option.splits dest: rpp_typed)
  next
    case 4
    then show ?thesis
      using call index len by (auto simp: call_estimator_def need_index_def as_columns_iff
          split: option.splits dest: rppb_typed)
  next
    case 5
    then show ?thesis
      using call index len by (auto simp: call_estimator_def need_index_def as_columns_iff
          split: option.splits dest: rloo_typed)
  next
    case 6
    then show ?thesis
      using call index len by (auto simp: call_estimator_def need_index_def as_columns_iff
          split: option.splits dest: rloo_vectorized_typed)
  next
    case 7
    then show ?thesis
      using call index len by (auto simp: call_estimator_def need_index_def as_columns_iff
          split: option.splits dest: gpg_typed)
  qed
qed

lemma get_rows_advantages: "get_rows (set_advantages (Rows a) r data) ''advantages'' = Inr a"
  by (simp add: get_rows_def set_advantages_def)

lemma registry_fetch: "get_adv_estimator_fn name = Inr e \<Longrightarrow> (name, e) \<in> set adv_estimator_registry"
  by (auto simp: get_adv_estimator_fn_def split: option.splits dest: map_of_SomeD)


definition example_ops :: torch_ops where
  "example_ops = \<lparr>t_sqrt = (\<lambda>x. x), t_rsqrt = (\<lambda>x. 1), t_exp = (\<lambda>x. 1 + x), t_pow = (\<lambda>x y. x),
     t_topk2 = (\<lambda>xs. ((hd xs, 0), (hd (tl xs), 1))), t_multinomial = (\<lambda>w n. [0..<n])\<rparr>"

definition example_data :: trainer_proto where
  "example_data = \<lparr>dp_batch = [(''response_mask'', Rows [[1, 0, 1], [1, 1, 0]]),
       (''token_level_rewards'', Rows [[0, 0, 1], [0, 3, 0]])],
     dp_non_tensor = [(''uid'', Labels [''p'', ''p''])], dp_meta = []\<rparr>"


end
