(* ===== verification/FileSys.thy ===== *)
theory FileSys
  imports PyVal
begin

text \<open>
  The file system as the workspace tools see it through \<open>pathlib\<close>: a finite map from absolute
  paths, given by their components, to files (their decoded text), directories and symbolic links
  (their target as written).  The root is a directory.  Permissions, other file types and the
  encoding of file contents are outside the model.
\<close>

subsection \<open>Nodes and symbolic links\<close>

type_synonym path = "string list"

datatype node = File string | Dir | Link string

type_synonym fs = "(path, node) dict"

definition fs_node :: "fs \<Rightarrow> path \<Rightarrow> node option" where
  "fs_node fs p = (if p = [] then Some Dir else dict_get fs p)"

definition is_absolute :: "string \<Rightarrow> bool" where
  "is_absolute s = starts_with s ''/''"

definition full_path :: "path \<Rightarrow> string" where
  "full_path p = ''/'' @ py_join ''/'' p"

lemma rbind_cong [fundef_cong]:
  "r = r' \<Longrightarrow> (\<And>x. r' = Inr x \<Longrightarrow> f x = g x) \<Longrightarrow> rbind r f = rbind r' g"
  by (cases r') auto

definition link_paths :: "fs \<Rightarrow> path set" where
  "link_paths fs = {p \<in> set (map fst fs). \<exists>t. dict_get fs p = Some (Link t)}"

lemma link_paths_finite [simp]: "finite (link_paths fs)"
  by (simp add: link_paths_def)

lemma link_measure:
  assumes "dict_get fs p = Some (Link t)" "p \<notin> active"
  shows "card (link_paths fs - insert p active) < card (link_paths fs - active)"
proof (rule psubset_card_mono)
  have "p \<in> link_paths fs - active"
    using assms by (auto simp: link_paths_def dest: map_of_SomeD intro: rev_image_eqI)
  then show "link_paths fs - insert p active \<subset> link_paths fs - active" by blast
qed simp

text \<open>
  \<open>Path.resolve()\<close>: components are followed one by one, \<open>..\<close> drops the last one, a link is
  replaced by its own resolution.  \<open>active\<close> are the links being expanded: meeting one of them again
  is the symlink loop that \<open>resolve\<close> reports.  Missing components are kept.
\<close>

function walk :: "fs \<Rightarrow> path list \<Rightarrow> path \<Rightarrow> string list \<Rightarrow> path result" where
  "walk fs active cur [] = Inr cur"
| "walk fs active cur (c # cs) =
     (if c = ''..'' then walk fs active (butlast cur) cs
      else (let p = cur @ [c] in
        case dict_get fs p of
          Some (Link target) \<Rightarrow>
            if p \<in> set active then Inl (RuntimeError (''Symlink loop from '' @ repr_string (full_path p)))
            else rbind (walk fs (p # active) (if is_absolute target then [] else cur) (path_parts target))
                   (\<lambda>q. walk fs active q cs)
        | _ \<Rightarrow> walk fs active p cs))"
  by pat_completeness auto

termination
  by (relation "measures [\<lambda>(fs, active, cur, cs). card (link_paths fs - set active), \<lambda>(fs, active, cur, cs). length cs]")
    (auto simp: link_measure)

definition resolve :: "fs \<Rightarrow> path \<Rightarrow> path result" where
  "resolve fs p = walk fs [] [] p"

text \<open>\<open>exists()\<close>, \<open>is_file()\<close> and \<open>is_dir()\<close> follow links.\<close>

definition stat_node :: "fs \<Rightarrow> path \<Rightarrow> node option" where
  "stat_node fs p = (case resolve fs p of Inl _ \<Rightarrow> None | Inr q \<Rightarrow> fs_node fs q)"

definition is_file :: "fs \<Rightarrow> path \<Rightarrow> bool" where
  "is_file fs p = (case stat_node fs p of Some (File _) \<Rightarrow> True | _ \<Rightarrow> False)"

definition is_dir :: "fs \<Rightarrow> path \<Rightarrow> bool" where
  "is_dir fs p = (stat_node fs p = Some Dir)"

subsection \<open>Reading and writing\<close>

definition os_error :: "nat \<Rightarrow> string \<Rightarrow> path \<Rightarrow> string" where
  "os_error n msg p = ''[Errno '' @ nat_digits n @ ''] '' @ msg @ '': '' @ repr_string (full_path p)"

text \<open>Text files are read with universal newlines.\<close>

definition universal_newlines :: "string \<Rightarrow> string" where
  "universal_newlines s =
     py_replace [CHR 0x0D] [CHR 0x0A] (py_replace [CHR 0x0D, CHR 0x0A] [CHR 0x0A] s)"

definition read_text :: "fs \<Rightarrow> path \<Rightarrow> string result" where
  "read_text fs p = rbind (resolve fs p) (\<lambda>q. case fs_node fs q of
       Some (File c) \<Rightarrow> Inr (universal_newlines c)
     | Some Dir \<Rightarrow> Inl (IsADirectoryError (os_error 21 ''Is a directory'' p))
     | _ \<Rightarrow> Inl (FileNotFoundError (os_error 2 ''No such file or directory'' p)))"

definition write_text :: "fs \<Rightarrow> path \<Rightarrow> string \<Rightarrow> fs result" where
  "write_text fs p content = rbind (resolve fs p) (\<lambda>q. case fs_node fs q of
       Some Dir \<Rightarrow> Inl (IsADirectoryError (os_error 21 ''Is a directory'' p))
     | _ \<Rightarrow> (case fs_node fs (butlast q) of
           Some Dir \<Rightarrow> Inr (dict_set fs q (File content))
         | Some _ \<Rightarrow> Inl (NotADirectoryError (os_error 20 ''Not a directory'' p))
         | None \<Rightarrow> Inl (FileNotFoundError (os_error 2 ''No such file or directory'' p))))"

text \<open>
  \<open>mkdir(parents=True, exist_ok=True)\<close> at a path without links: every missing directory on the way
  is made.
\<close>

fun mkdir_from :: "path \<Rightarrow> fs \<Rightarrow> path \<Rightarrow> string list \<Rightarrow> fs result" where
  "mkdir_from whole fs pre [] = Inr fs"
| "mkdir_from whole fs pre (c # cs) =
     (let q = pre @ [c] in
      case fs_node fs q of
        None \<Rightarrow> mkdir_from whole (dict_set fs q Dir) q cs
      | Some Dir \<Rightarrow> mkdir_from whole fs q cs
      | Some _ \<Rightarrow> Inl (if cs = [] then FileExistsError (os_error 17 ''File exists'' whole)
                       else NotADirectoryError (os_error 20 ''Not a directory'' whole)))"

definition mkdir_parents :: "fs \<Rightarrow> path \<Rightarrow> fs result" where
  "mkdir_parents fs p = mkdir_from p fs [] p"

text \<open>\<open>sorted(path.iterdir())\<close> and \<open>sorted(path.rglob("*"))\<close>; links are listed, not entered.\<close>

definition children :: "fs \<Rightarrow> path \<Rightarrow> path list" where
  "children fs p = sort (filter (\<lambda>q. q \<noteq> [] \<and> butlast q = p) (map fst fs))"

definition descendants :: "fs \<Rightarrow> path \<Rightarrow> path list" where
  "descendants fs p = sort (filter (strict_prefix p) (map fst fs))"

subsection \<open>\<open>str.splitlines\<close> and indented JSON\<close>

definition is_line_break :: "char \<Rightarrow> bool" where
  "is_line_break c = (let n = code c in (10 \<le> n \<and> n \<le> 13) \<or> (28 \<le> n \<and> n \<le> 30) \<or> n = 133)"

fun split_lines_acc :: "string \<Rightarrow> string \<Rightarrow> string list" where
  "split_lines_acc acc [] = (if acc = [] then [] else [rev acc])"
| "split_lines_acc acc (c # s) =
     (if is_line_break c then
        rev acc # split_lines_acc [] (if c = CHR 0x0D \<and> s \<noteq> [] \<and> hd s = CHR 0x0A then tl s else s)
      else split_lines_acc (c # acc) s)"

definition splitlines :: "string \<Rightarrow> string list" where
  "splitlines s = split_lines_acc [] s"

text \<open>\<open>json.dumps(v, ensure_ascii=False, indent=2)\<close> of a JSON value at nesting depth \<open>n\<close>.\<close>

definition json_line :: "nat \<Rightarrow> string" where
  "json_line n = CHR 0x0A # replicate (2 * n) CHR 0x20"

definition json_block :: "nat \<Rightarrow> string \<Rightarrow> string \<Rightarrow> string list \<Rightarrow> string" where
  "json_block n open_sym close_sym items =
     (if items = [] then open_sym @ close_sym
      else open_sym @ json_line (Suc n) @ py_join ('','' @ json_line (Suc n)) items @ json_line n @ close_sym)"

fun json_pretty :: "(rat \<Rightarrow> string) \<Rightarrow> nat \<Rightarrow> pyval \<Rightarrow> string" where
  "json_pretty frepr n PNone = ''null''"
| "json_pretty frepr n (PBool b) = (if b then ''true'' else ''false'')"
| "json_pretty frepr n (PInt i) = int_str i"
| "json_pretty frepr n (PFloat q) = frepr q"
| "json_pretty frepr n (PStr s) = json_string s"
| "json_pretty frepr n (PList xs) = json_block n ''['' '']'' (map (json_pretty frepr (Suc n)) xs)"
| "json_pretty frepr n (PTuple xs) = json_block n ''['' '']'' (map (json_pretty frepr (Suc n)) xs)"
| "json_pretty frepr n (PDict d) =
     json_block n ''{'' ''}'' (map (\<lambda>p. json_string (fst p) @ '': '' @ json_pretty frepr (Suc n) (snd p)) d)"
| "json_pretty frepr n (PObj r) = json_string r"

subsection \<open>Paths without links\<close>

definition plain :: "fs \<Rightarrow> path \<Rightarrow> bool" where
  "plain fs p \<longleftrightarrow> ''..'' \<notin> set p \<and> (\<forall>q t. prefix q p \<longrightarrow> dict_get fs q \<noteq> Some (Link t))"

lemma plain_prefix: "plain fs p \<Longrightarrow> prefix q p \<Longrightarrow> plain fs q"
  unfolding plain_def by (meson prefix_order.trans set_mono_prefix subsetD)

lemma plain_butlast: "plain fs p \<Longrightarrow> plain fs (butlast p)"
  by (auto intro: plain_prefix prefixeq_butlast)

lemma plain_snoc:
  "plain fs p \<Longrightarrow> c \<noteq> ''..'' \<Longrightarrow> \<forall>t. dict_get fs (p @ [c]) \<noteq> Some (Link t) \<Longrightarrow> plain fs (p @ [c])"
  by (auto simp: plain_def prefix_snoc)

definition is_link :: "fs \<Rightarrow> path \<Rightarrow> bool" where
  "is_link fs p = (\<exists>t. dict_get fs p = Some (Link t))"

lemma walk_Nil: "walk fs active cur [] = Inr cur"
  by simp

lemma walk_up: "walk fs active cur (''..'' # cs) = walk fs active (butlast cur) cs"
  by simp

lemma walk_step:
  "c \<noteq> ''..'' \<Longrightarrow> \<not> is_link fs (cur @ [c]) \<Longrightarrow> walk fs active cur (c # cs) = walk fs active (cur @ [c]) cs"
  by (auto simp: is_link_def Let_def split: option.splits node.splits)

lemma walk_link:
  "c \<noteq> ''..'' \<Longrightarrow> dict_get fs (cur @ [c]) = Some (Link t) \<Longrightarrow> walk fs active cur (c # cs) =
     (if cur @ [c] \<in> set active
      then Inl (RuntimeError (''Symlink loop from '' @ repr_string (full_path (cur @ [c]))))
      else rbind (walk fs ((cur @ [c]) # active) (if is_absolute t then [] else cur) (path_parts t))
             (\<lambda>q. walk fs active q cs))"
  by (simp add: Let_def)

declare walk.simps [simp del]

text \<open>Induction over a resolution, by what the next component is.\<close>

lemma walk_cases_induct [case_names Nil up step link]:
  assumes nil: "\<And>active cur. P active cur []"
    and up: "\<And>active cur cs. P active (butlast cur) cs \<Longrightarrow> P active cur (''..'' # cs)"
    and step: "\<And>active cur c cs. c \<noteq> ''..'' \<Longrightarrow> \<not> is_link fs (cur @ [c]) \<Longrightarrow> P active (cur @ [c]) cs \<Longrightarrow>
      P active cur (c # cs)"
    and link: "\<And>active cur c cs t. c \<noteq> ''..'' \<Longrightarrow> dict_get fs (cur @ [c]) = Some (Link t) \<Longrightarrow>
      (cur @ [c] \<notin> set active \<Longrightarrow> P ((cur @ [c]) # active) (if is_absolute t then [] else cur) (path_parts t)) \<Longrightarrow>
      (\<And>q. P active q cs) \<Longrightarrow> P active cur (c # cs)"
  shows "P active cur cs"
proof -
  define M where "M = (\<lambda>(active, cur :: path, cs :: string list). (card (link_paths fs - set active), length cs))"
  have "wf (inv_image (less_than <*lex*> less_than) M)"
    by (intro wf_inv_image wf_lex_prod wf_less_than)
  then have "case x of (active, cur, cs) \<Rightarrow> P active cur cs" for x
  proof (induction x rule: wf_induct_rule)
    case (less x)
    obtain active cur cs where x: "x = (active, cur, cs)" by (cases x)
    have rest: "P active q cs'" if "cs = c # cs'" for q c cs'
      using less [of "(active, q, cs')"] that by (auto simp: x M_def)
    have inner: "P (p # active) q ds" if "dict_get fs p = Some (Link t)" "p \<notin> set active" for p q ds t
      using less [of "(p # active, q, ds)"] link_measure [OF that] by (auto simp: x M_def)
    have "P active cur cs"
    proof (cases cs)
      case (Cons c cs')
      show ?thesis
      proof (cases "c = ''..''")
        case True
        then show ?thesis using up [OF rest [OF Cons]] Cons by simp
      next
        case c: False
        show ?thesis
        proof (cases "is_link fs (cur @ [c])")
          case False
          then show ?thesis using step [OF c] rest [OF Cons] Cons by simp
        next
          case True
          then obtain t where "dict_get fs (cur @ [c]) = Some (Link t)" by (auto simp: is_link_def)
          from link [OF c this inner [OF this] rest [OF Cons]] show ?thesis using Cons by simp
        qed
      qed
    qed (simp add: nil)
    then show ?case by (simp add: x)
  qed
  from this [of "(active, cur, cs)"] show ?thesis by simp
qed

lemma walk_plain: "plain fs [] \<Longrightarrow> plain fs cur \<Longrightarrow> walk fs active cur cs = Inr p \<Longrightarrow> plain fs p"
proof (induction active cur cs arbitrary: p rule: walk_cases_induct [where fs = fs])
  case (up active cur cs)
  then show ?case by (simp add: walk_up plain_butlast)
next
  case (step active cur c cs)
  then have "plain fs (cur @ [c])" by (intro plain_snoc) (auto simp: is_link_def)
  with step show ?case by (simp add: walk_step)
next
  case (link active cur c cs t)
  from link.prems(3) link.hyps obtain q where q: "cur @ [c] \<notin> set active"
    "walk fs ((cur @ [c]) # active) (if is_absolute t then [] else cur) (path_parts t) = Inr q"
    "walk fs active q cs = Inr p"
    by (fastforce simp: walk_link rbind_Inr_iff split: if_split_asm)
  have "plain fs (if is_absolute t then [] else cur)" using link.prems by simp
  from link.IH(1) [OF q(1) link.prems(1) this q(2)] have "plain fs q" .
  from link.IH(2) [OF link.prems(1) this q(3)] show ?case .
qed (simp add: walk_Nil)

lemma walk_of_plain: "plain fs (cur @ cs) \<Longrightarrow> walk fs active cur cs = Inr (cur @ cs)"
proof (induction cs arbitrary: cur)
  case (Cons c cs)
  have "plain fs (cur @ [c])" using Cons.prems by (rule plain_prefix) simp
  then have "c \<noteq> ''..''" "\<not> is_link fs (cur @ [c])" by (auto simp: plain_def is_link_def)
  then show ?case using Cons by (simp add: walk_step)
qed (simp add: walk_Nil)

text \<open>A file system without a node for the root and with a directory above every node.\<close>

definition fs_ok :: "fs \<Rightarrow> bool" where
  "fs_ok fs \<longleftrightarrow> dict_ok fs \<and> (\<forall>p x. dict_get fs p = Some x \<longrightarrow> p \<noteq> [] \<and> fs_node fs (butlast p) = Some Dir)"

lemma fs_ok_root: "fs_ok fs \<Longrightarrow> plain fs []"
  by (auto simp: fs_ok_def plain_def)

lemma resolve_plain: "fs_ok fs \<Longrightarrow> resolve fs p = Inr q \<Longrightarrow> plain fs q"
  unfolding resolve_def using walk_plain fs_ok_root by blast

lemma resolve_of_plain: "plain fs q \<Longrightarrow> resolve fs q = Inr q"
  unfolding resolve_def using walk_of_plain [of fs "[]" q] by simp

lemma resolve_idem: "fs_ok fs \<Longrightarrow> resolve fs p = Inr q \<Longrightarrow> resolve fs q = Inr q"
  by (blast intro: resolve_of_plain resolve_plain)

subsection \<open>Changes that keep the links\<close>

definition same_links :: "fs \<Rightarrow> fs \<Rightarrow> bool" where
  "same_links fs fs' \<longleftrightarrow> (\<forall>p t. dict_get fs p = Some (Link t) \<longleftrightarrow> dict_get fs' p = Some (Link t))"

lemma same_links_refl [simp]: "same_links fs fs"
  by (simp add: same_links_def)

lemma same_links_trans [trans]: "same_links a b \<Longrightarrow> same_links b c \<Longrightarrow> same_links a c"
  by (simp add: same_links_def)

lemma same_links_is_link: "same_links fs fs' \<Longrightarrow> is_link fs = is_link fs'"
  by (auto simp: same_links_def is_link_def)

lemma same_links_plain: "same_links fs fs' \<Longrightarrow> plain fs p \<longleftrightarrow> plain fs' p"
  by (simp add: same_links_def plain_def)

lemma walk_same_links: "same_links fs fs' \<Longrightarrow> walk fs active cur cs = walk fs' active cur cs"
proof (induction active cur cs rule: walk_cases_induct [where fs = fs])
  case (step active cur c cs)
  then show ?case by (simp add: walk_step same_links_is_link)
next
  case (link active cur c cs t)
  moreover have "dict_get fs' (cur @ [c]) = Some (Link t)" using link by (simp add: same_links_def)
  ultimately show ?case by (simp add: walk_link)
qed (simp_all add: walk_Nil walk_up)

lemma resolve_same_links: "same_links fs fs' \<Longrightarrow> resolve fs p = resolve fs' p"
  by (simp add: resolve_def walk_same_links)

lemma plain_not_link: "plain fs p \<Longrightarrow> dict_get fs p \<noteq> Some (Link t)"
  by (auto simp: plain_def)

lemma same_links_set:
  "plain fs p \<Longrightarrow> \<forall>t. x \<noteq> Link t \<Longrightarrow> same_links fs (dict_set fs p x)"
  by (auto simp: same_links_def plain_not_link)

lemma fs_node_set: "fs_node (dict_set fs p x) q = (if q = [] then Some Dir else if q = p then Some x else fs_node fs q)"
  by (simp add: fs_node_def)

lemma fs_ok_set:
  assumes ok: "fs_ok fs" and p: "p \<noteq> []" "fs_node fs (butlast p) = Some Dir"
    and keep: "x = Dir \<or> fs_node fs p \<noteq> Some Dir"
  shows "fs_ok (dict_set fs p x)"
proof -
  have "butlast q \<noteq> p" if "dict_get fs q = Some y" "x \<noteq> Dir" for q y
    using ok keep that by (auto simp: fs_ok_def)
  moreover have "butlast p \<noteq> p"
    using p(1) by (metis append_butlast_last_id append_self_conv not_Cons_self2)
  ultimately show ?thesis
    using ok p by (auto simp: fs_ok_def fs_node_set)
qed

lemma write_text_plain:
  assumes ok: "fs_ok fs" and p: "plain fs p" and w: "write_text fs p c = Inr fs'"
  shows "fs' = dict_set fs p (File c) \<and> fs_ok fs' \<and> same_links fs fs'"
proof -
  have fs': "fs' = dict_set fs p (File c)" "fs_node fs p \<noteq> Some Dir" "fs_node fs (butlast p) = Some Dir"
    using w resolve_of_plain [OF p] by (auto simp: write_text_def split: option.splits node.splits)
  then have "p \<noteq> []" by (auto simp: fs_node_def)
  with fs' show ?thesis
    using fs_ok_set [OF ok] same_links_set [OF p] by simp
qed

lemma mkdir_from_spec:
  "mkdir_from whole fs pre cs = Inr fs' \<Longrightarrow> fs_ok fs \<Longrightarrow> plain fs (pre @ cs) \<Longrightarrow> fs_node fs pre = Some Dir \<Longrightarrow>
   fs_ok fs' \<and> same_links fs fs' \<and> fs_node fs' (pre @ cs) = Some Dir \<and>
   (\<forall>p. dict_get fs' p =
      (if dict_get fs p = None \<and> strict_prefix pre p \<and> prefix p (pre @ cs) then Some Dir else dict_get fs p))"
proof (induction whole fs pre cs rule: mkdir_from.induct)
  case (2 whole fs pre c cs)
  let ?q = "pre @ [c]"
  have q: "plain fs ?q" using 2(5) by (rule plain_prefix) simp
  have between: "strict_prefix pre p \<and> prefix p (pre @ c # cs) \<longleftrightarrow>
      p = ?q \<or> strict_prefix ?q p \<and> prefix p (?q @ cs)" for p
    by (auto simp: prefix_def strict_prefix_def append_eq_append_conv2 append_eq_Cons_conv Cons_eq_append_conv)
  show ?case
  proof (cases "fs_node fs ?q")
    case None
    have ok: "fs_ok (dict_set fs ?q Dir)" using 2(4,6) by (intro fs_ok_set) simp_all
    have links: "same_links fs (dict_set fs ?q Dir)" using q by (intro same_links_set) simp_all
    have "mkdir_from whole (dict_set fs ?q Dir) ?q cs = Inr fs'" using 2(3) None by (simp add: Let_def)
    from 2(1) [OF refl None this ok] have "fs_ok fs' \<and> same_links (dict_set fs ?q Dir) fs' \<and>
        fs_node fs' (?q @ cs) = Some Dir \<and>
        (\<forall>p. dict_get fs' p = (if dict_get (dict_set fs ?q Dir) p = None \<and> strict_prefix ?q p \<and> prefix p (?q @ cs)
           then Some Dir else dict_get (dict_set fs ?q Dir) p))"
      using 2(5) same_links_plain [OF links] by (simp add: fs_node_set)
    then show ?thesis
      using None same_links_trans [OF links] between by (auto simp: fs_node_def)
  next
    case (Some x)
    with 2(3) have x: "x = Dir" "mkdir_from whole fs ?q cs = Inr fs'"
      by (auto simp: Let_def split: node.splits if_splits)
    from 2(2) [OF refl Some x(1,2) 2(4)] 2(5) Some x(1)
    show ?thesis using between by (auto simp: fs_node_def)
  qed
qed auto

end
