(* ===== verification/Workspace.thy ===== *)
theory Workspace
  imports FileSys
begin

text \<open>
  The file tools of the shell agent in \<open>nanoclaw_recipe/nanoclaw.py\<close>: resolution of paths inside the
  workspace, listing, reading, writing, editing, patching and searching.  A tool that writes returns
  its answer, or the exception it raises, together with the file system it leaves behind.  The regular
  expression engine and \<open>glob\<close> are parameters; \<open>frepr\<close> prints floats.
\<close>

subsection \<open>Paths inside the workspace\<close>

definition resolve_workspace_path :: "fs \<Rightarrow> path \<Rightarrow> string \<Rightarrow> path result" where
  "resolve_workspace_path fs workspace relative_path =
     (let stripped = py_strip (if relative_path = '''' then ''.'' else relative_path);
          raw_path = (if stripped = '''' then ''.'' else stripped)
      in if is_absolute raw_path then Inl (ValueError (''absolute paths are not allowed: '' @ relative_path))
         else if ''..'' \<in> set (path_parts raw_path) then
           Inl (ValueError (''parent path '' @ [CHR 0x27] @ ''..'' @ [CHR 0x27] @ '' is not allowed: '' @ relative_path))
         else rbind (resolve fs (workspace @ path_parts raw_path)) (\<lambda>resolved_path.
              rbind (resolve fs workspace) (\<lambda>workspace_resolved.
                if prefix workspace_resolved resolved_path then Inr resolved_path
                else Inl (ValueError (''path escapes workspace: '' @ relative_path)))))"

definition relative_workspace_path :: "fs \<Rightarrow> path \<Rightarrow> path \<Rightarrow> string result" where
  "relative_workspace_path fs workspace p =
     rbind (resolve fs workspace) (\<lambda>workspace_resolved.
     rbind (resolve fs p) (\<lambda>path_resolved.
       if path_resolved = workspace_resolved then Inr ''.''
       else if prefix workspace_resolved path_resolved then
         Inr (py_join ''/'' (drop (length workspace_resolved) path_resolved))
       else Inl (ValueError (repr_string (full_path path_resolved) @ '' is not in the subpath of '' @
              repr_string (full_path workspace_resolved) @
              '' OR one path is relative and the other is absolute.''))))"

definition require_string :: "(string, pyval) dict \<Rightarrow> string \<Rightarrow> string result" where
  "require_string parameters key = (case pget parameters key of
     PStr s \<Rightarrow> Inr s | _ \<Rightarrow> Inl (ValueError (''field '' @ repr_string key @ '' must be a string'')))"

definition require_path_like :: "(string, pyval) dict \<Rightarrow> string result" where
  "require_path_like parameters =
     (case dict_get_default parameters ''path'' (pget parameters ''filename'') of
        PStr s \<Rightarrow> Inr s
      | _ \<Rightarrow> Inl (ValueError (''field '' @ repr_string ''path'' @ '' must be a string'')))"

definition bool_config :: "pyval \<Rightarrow> bool \<Rightarrow> bool" where
  "bool_config v dflt = (case v of
     PNone \<Rightarrow> dflt | PBool b \<Rightarrow> b
   | PStr s \<Rightarrow> py_lower (py_strip s) \<in> {''1'', ''true'', ''yes'', ''y'', ''on''}
   | _ \<Rightarrow> py_truthy v)"

subsection \<open>Listing and reading\<close>

definition entry_type :: "fs \<Rightarrow> path \<Rightarrow> pyval" where
  "entry_type fs p = PStr (if is_dir fs p then ''dir'' else ''file'')"

definition dir_entry :: "fs \<Rightarrow> path \<Rightarrow> path \<Rightarrow> pyval result" where
  "dir_entry fs workspace p = rbind (relative_workspace_path fs workspace p) (\<lambda>r.
     Inr (PDict [(''path'', PStr r), (''type'', entry_type fs p)]))"

definition listing :: "(rat \<Rightarrow> string) \<Rightarrow> fs \<Rightarrow> path \<Rightarrow> path \<Rightarrow> path list \<Rightarrow> int \<Rightarrow> string result" where
  "listing frepr fs workspace p paths limit =
     rbind (rmap (dir_entry fs workspace) (take (nat limit) paths)) (\<lambda>entries.
     rbind (relative_workspace_path fs workspace p) (\<lambda>r.
       Inr (json_pretty frepr 0 (PDict [(''path'', PStr r), (''entries'', PList entries),
         (''truncated'', PBool (nat limit < length paths))]))))"

definition list_dir :: "(rat \<Rightarrow> string) \<Rightarrow> fs \<Rightarrow> path \<Rightarrow> string \<Rightarrow> int \<Rightarrow> string result" where
  "list_dir frepr fs workspace relative_path limit =
     rbind (resolve_workspace_path fs workspace relative_path) (\<lambda>p.
       if stat_node fs p = None then Inr ''Error: path not found.''
       else if is_file fs p then
         rbind (relative_workspace_path fs workspace p) (\<lambda>r.
           Inr (json_pretty frepr 0 (PDict [(''path'', PStr r),
             (''entries'', PList [PDict [(''path'', PStr r), (''type'', PStr ''file'')]]), (''truncated'', PBool False)])))
       else listing frepr fs workspace p (children fs p) limit)"

definition list_dir_recursive :: "(rat \<Rightarrow> string) \<Rightarrow> fs \<Rightarrow> path \<Rightarrow> string \<Rightarrow> int \<Rightarrow> string result" where
  "list_dir_recursive frepr fs workspace relative_path limit =
     rbind (resolve_workspace_path fs workspace relative_path) (\<lambda>p.
       if stat_node fs p = None then Inr ''Error: path not found.''
       else if is_file fs p then list_dir frepr fs workspace relative_path limit
       else listing frepr fs workspace p (descendants fs p) limit)"

definition read_file :: "fs \<Rightarrow> path \<Rightarrow> string \<Rightarrow> int \<Rightarrow> string result" where
  "read_file fs workspace relative_path limit =
     rbind (resolve_workspace_path fs workspace relative_path) (\<lambda>p.
       if stat_node fs p = None then Inr (''Error: file does not exist: '' @ relative_path)
       else if \<not> is_file fs p then Inr (''Error: path is not a file: '' @ relative_path)
       else rbind (read_text fs p) (\<lambda>content.
         if int (length content) > limit then
           Inr (take (slice_index (length content) limit) content @ [CHR 0x0A] @ ''... truncated after '' @
             int_str limit @ '' characters'')
         else Inr content))"

subsection \<open>Writing\<close>

text \<open>\<open>keep fs r\<close>: the answer of a step that fails or succeeds on \<open>fs\<close>.\<close>

definition keep :: "fs \<Rightarrow> 'a result \<Rightarrow> ('a \<Rightarrow> 'b result \<times> fs) \<Rightarrow> 'b result \<times> fs" where
  "keep fs r f = (case r of Inl e \<Rightarrow> (Inl e, fs) | Inr x \<Rightarrow> f x)"

definition write_file :: "fs \<Rightarrow> path \<Rightarrow> string \<Rightarrow> string \<Rightarrow> string result \<times> fs" where
  "write_file fs workspace relative_path content =
     keep fs (resolve_workspace_path fs workspace relative_path) (\<lambda>p.
     keep fs (mkdir_parents fs (butlast p)) (\<lambda>fs1.
     keep fs1 (write_text fs1 p content) (\<lambda>fs2. (Inr ''Success: file written.'', fs2))))"

text \<open>\<open>content.replace(old, new, 1)\<close>.\<close>

definition replace_first :: "string \<Rightarrow> string \<Rightarrow> string \<Rightarrow> string" where
  "replace_first old new s = (case py_find s old of
     None \<Rightarrow> s | Some i \<Rightarrow> take i s @ new @ drop (i + length old) s)"

definition edit_file ::
  "fs \<Rightarrow> path \<Rightarrow> string \<Rightarrow> string \<Rightarrow> string \<Rightarrow> bool \<Rightarrow> string result \<times> fs" where
  "edit_file fs workspace relative_path old_text new_text replace_all =
     (if old_text = '''' then (Inr ''Error: old_text must not be empty.'', fs)
      else keep fs (resolve_workspace_path fs workspace relative_path) (\<lambda>p.
        if \<not> is_file fs p then (Inr (''Error: path is not a file: '' @ relative_path), fs)
        else keep fs (read_text fs p) (\<lambda>content.
          let occurrences = py_count old_text content in
          if occurrences = 0 then (Inr ''Error: target text not found.'', fs)
          else if \<not> replace_all \<and> occurrences \<noteq> 1 then
            (Inr (''Error: target text matched multiple locations. '' @
               ''Pass replace_all=true or provide more specific old_text.''), fs)
          else
            (let updated = (if replace_all then py_replace old_text new_text content
                            else replace_first old_text new_text content);
                 changed = (if replace_all then occurrences else 1)
             in keep fs (write_text fs p updated) (\<lambda>fs1.
                  (Inr (''Success: applied '' @ nat_digits changed @ '' edit(s).''), fs1))))))"

definition make_dir :: "fs \<Rightarrow> path \<Rightarrow> string \<Rightarrow> string result \<times> fs" where
  "make_dir fs workspace relative_path =
     keep fs (resolve_workspace_path fs workspace relative_path) (\<lambda>p.
     keep fs (mkdir_parents fs p) (\<lambda>fs1.
       (Inr (''Success: directory exists: '' @ relative_path @ ''.''), fs1)))"

definition parse_patch_changes :: "(string \<Rightarrow> pyval result) \<Rightarrow> (string, pyval) dict \<Rightarrow> pyval list result" where
  "parse_patch_changes json_loads parameters =
     (case dict_get_default parameters ''changes'' (pget parameters ''changes_json'') of
        PNone \<Rightarrow> Inl (ValueError (''field '' @ repr_string ''changes_json'' @ '' must contain a JSON array of edit objects''))
      | raw_changes \<Rightarrow>
          rbind (case raw_changes of PStr s \<Rightarrow> json_loads s | _ \<Rightarrow> Inr raw_changes) (\<lambda>changes.
            case changes of PList xs \<Rightarrow> Inr xs | _ \<Rightarrow> Inl (ValueError ''patch changes must be a list'')))"

text \<open>One edit object of a patch.\<close>

definition patch_edit :: "fs \<Rightarrow> path \<Rightarrow> (string, pyval) dict \<Rightarrow> string result \<times> fs" where
  "patch_edit fs workspace change =
     keep fs (require_path_like change) (\<lambda>p.
     keep fs (require_string change ''old_text'') (\<lambda>old_text.
     keep fs (require_string change ''new_text'') (\<lambda>new_text.
       edit_file fs workspace p old_text new_text
         (bool_config (dict_get_default change ''replace_all'' (PBool False)) False))))"

fun patch_loop :: "fs \<Rightarrow> path \<Rightarrow> nat \<Rightarrow> string list \<Rightarrow> pyval list \<Rightarrow> string \<times> fs" where
  "patch_loop fs workspace i results [] =
     (''Success: patch applied.'' @ [CHR 0x0A] @ py_join [CHR 0x0A] results, fs)"
| "patch_loop fs workspace i results (change # changes) =
     (case change of
        PDict d \<Rightarrow>
          (case patch_edit fs workspace d of
             (Inl e, fs1) \<Rightarrow> (''Error: '' @ exc_name e @ '': '' @ exc_text e @ '' (change #'' @ nat_digits i @ '')'', fs1)
           | (Inr result, fs1) \<Rightarrow>
               if starts_with result ''Error:'' then (result @ '' (change #'' @ nat_digits i @ '')'', fs1)
               else patch_loop fs1 workspace (Suc i) (results @ [''change #'' @ nat_digits i @ '': '' @ result]) changes)
      | _ \<Rightarrow> (''Error: change #'' @ nat_digits i @ '' must be an object.'', fs))"

definition apply_workspace_patch :: "fs \<Rightarrow> path \<Rightarrow> pyval list \<Rightarrow> string \<times> fs" where
  "apply_workspace_patch fs workspace changes =
     (if changes = [] then (''Error: no changes provided.'', fs)
      else patch_loop fs workspace 1 [] changes)"

subsection \<open>Searching\<close>

definition validate_glob_pattern :: "string \<Rightarrow> string option" where
  "validate_glob_pattern raw_pattern =
     (if is_absolute raw_pattern \<or> ''..'' \<in> set (path_parts raw_pattern)
      then Some ''glob must stay inside the workspace'' else None)"

definition glob_text :: "(rat \<Rightarrow> string) \<Rightarrow> pyval \<Rightarrow> string" where
  "glob_text frepr pattern =
     (let raw = py_strip (py_str frepr (py_or pattern (PStr ''**/*'')))
      in if raw = '''' then ''**/*'' else raw)"

definition glob_files :: "(fs \<Rightarrow> path \<Rightarrow> string \<Rightarrow> path list result) \<Rightarrow> fs \<Rightarrow> path \<Rightarrow> string \<Rightarrow> path list result" where
  "glob_files glob fs workspace raw_pattern =
     map_sum id (\<lambda>ps. sort (filter (is_file fs) ps)) (glob fs workspace raw_pattern)"

definition find_workspace_files ::
  "(rat \<Rightarrow> string) \<Rightarrow> (fs \<Rightarrow> path \<Rightarrow> string \<Rightarrow> path list result) \<Rightarrow> fs \<Rightarrow> path \<Rightarrow> pyval \<Rightarrow> int \<Rightarrow> string result" where
  "find_workspace_files frepr glob fs workspace pattern limit =
     (let raw_pattern = glob_text frepr pattern
      in case validate_glob_pattern raw_pattern of
           Some err \<Rightarrow> Inr (''Error: '' @ err @ ''.'')
         | None \<Rightarrow>
             rbind (glob_files glob fs workspace raw_pattern) (\<lambda>paths.
             rbind (rmap (relative_workspace_path fs workspace) (take (nat limit) paths)) (\<lambda>files.
               Inr (json_pretty frepr 0 (PDict [(''files'', PList (map PStr files)),
                 (''truncated'', PBool (nat limit < length paths))])))))"

text \<open>\<open>(matches, True)\<close>: the limit was reached.\<close>

fun grep_lines :: "(string \<Rightarrow> bool) \<Rightarrow> string \<Rightarrow> int \<Rightarrow> nat \<Rightarrow> string list \<Rightarrow> pyval list \<Rightarrow> pyval list \<times> bool" where
  "grep_lines search relative_path limit n [] matches = (matches, False)"
| "grep_lines search relative_path limit n (line # rest) matches =
     (if \<not> search line then grep_lines search relative_path limit (Suc n) rest matches
      else if int (length matches) \<ge> limit then (matches, True)
      else grep_lines search relative_path limit (Suc n) rest
        (matches @ [PDict [(''path'', PStr relative_path), (''line'', PInt (int n)), (''text'', PStr line)]]))"

fun grep_files ::
  "(string \<Rightarrow> bool) \<Rightarrow> fs \<Rightarrow> path \<Rightarrow> int \<Rightarrow> path list \<Rightarrow> pyval list \<Rightarrow> (pyval list \<times> bool) result" where
  "grep_files search fs workspace limit [] matches = Inr (matches, False)"
| "grep_files search fs workspace limit (p # ps) matches =
     (case read_text fs p of
        Inl _ \<Rightarrow> grep_files search fs workspace limit ps matches
      | Inr txt \<Rightarrow>
          rbind (relative_workspace_path fs workspace p) (\<lambda>relative_path.
            let (matches', full) = grep_lines search relative_path limit 1 (splitlines txt) matches
            in if full then Inr (matches', True) else grep_files search fs workspace limit ps matches'))"

definition grep_workspace ::
  "(rat \<Rightarrow> string) \<Rightarrow> (fs \<Rightarrow> path \<Rightarrow> string \<Rightarrow> path list result) \<Rightarrow> (string \<Rightarrow> string + (string \<Rightarrow> bool)) \<Rightarrow>
   fs \<Rightarrow> path \<Rightarrow> string \<Rightarrow> pyval \<Rightarrow> int \<Rightarrow> string result" where
  "grep_workspace frepr glob re_compile fs workspace pattern glob_pattern limit =
     (case re_compile pattern of
        Inl regex_exc \<Rightarrow> Inr (''Error: invalid regex: '' @ regex_exc)
      | Inr search \<Rightarrow>
          (let raw_glob = glob_text frepr glob_pattern
           in case validate_glob_pattern raw_glob of
                Some err \<Rightarrow> Inr (''Error: '' @ err @ ''.'')
              | None \<Rightarrow>
                  rbind (glob_files glob fs workspace raw_glob) (\<lambda>paths.
                  rbind (grep_files search fs workspace limit paths []) (\<lambda>(matches, truncated).
                    Inr (json_pretty frepr 0 (PDict [(''matches'', PList matches), (''truncated'', PBool truncated)]))))))"

subsection \<open>Everything happens inside the workspace\<close>

lemma resolve_workspace_path_Inr:
  assumes "resolve_workspace_path fs ws r = Inr p"
  obtains w where "resolve fs ws = Inr w" "prefix w p"
    "\<exists>raw. ''..'' \<notin> set raw \<and> resolve fs (ws @ raw) = Inr p"
proof -
  from assms obtain raw w where "''..'' \<notin> set (path_parts raw)" "resolve fs (ws @ path_parts raw) = Inr p"
    "resolve fs ws = Inr w" "prefix w p"
    unfolding resolve_workspace_path_def Let_def by (auto simp: rbind_Inr_iff split: if_split_asm)
  then show thesis by (intro that) blast+
qed

lemma fs_ok_ancestor: "fs_ok fs \<Longrightarrow> fs_node fs p \<noteq> None \<Longrightarrow> strict_prefix q p \<Longrightarrow> fs_node fs q = Some Dir"
proof (induction p rule: rev_induct)
  case (snoc c p)
  have "fs_node fs p = Some Dir" using snoc.prems(1,2) by (auto simp: fs_ok_def fs_node_def)
  moreover have "q = p \<or> strict_prefix q p" using snoc.prems(3) by (auto simp: strict_prefix_def prefix_snoc)
  ultimately show ?case using snoc.IH snoc.prems(1) by auto
qed simp

text \<open>The workspace \<open>ws\<close> is a directory whose real path is \<open>w\<close>.\<close>

definition ready :: "fs \<Rightarrow> path \<Rightarrow> path \<Rightarrow> bool" where
  "ready fs ws w \<longleftrightarrow> fs_ok fs \<and> resolve fs ws = Inr w \<and> fs_node fs w = Some Dir"

definition confined :: "path \<Rightarrow> path \<Rightarrow> fs \<Rightarrow> fs \<Rightarrow> bool" where
  "confined ws w fs fs' \<longleftrightarrow> ready fs' ws w \<and> same_links fs fs' \<and>
     (\<forall>p. \<not> prefix w p \<longrightarrow> dict_get fs' p = dict_get fs p)"

lemma confined_refl: "ready fs ws w \<Longrightarrow> confined ws w fs fs"
  by (simp add: confined_def)

lemma confined_trans: "confined ws w a b \<Longrightarrow> confined ws w b c \<Longrightarrow> confined ws w a c"
  unfolding confined_def using same_links_trans by metis

lemma confined_ready: "confined ws w fs fs' \<Longrightarrow> ready fs' ws w"
  by (simp add: confined_def)

lemma keep_confined:
  assumes "ready fs ws w" "\<And>x. r = Inr x \<Longrightarrow> confined ws w fs (snd (f x))"
  shows "confined ws w fs (snd (keep fs r f))"
  using assms by (cases r) (auto simp: keep_def confined_refl)

lemma if_confined:
  assumes "ready fs ws w" "\<not> b \<Longrightarrow> confined ws w fs (snd y)"
  shows "confined ws w fs (snd (if b then (x, fs) else y))"
  using assms by (simp add: confined_refl)

lemma ready_plain:
  assumes "ready fs ws w" "resolve_workspace_path fs ws r = Inr p"
  shows "prefix w p" "plain fs p"
  using assms by (auto simp: ready_def resolve_plain elim!: resolve_workspace_path_Inr)

lemma write_text_confined:
  assumes r: "ready fs ws w" and p: "plain fs p" "prefix w p" and w: "write_text fs p c = Inr fs'"
  shows "confined ws w fs fs'"
proof -
  have fs': "fs' = dict_set fs p (File c)" "fs_ok fs'" "same_links fs fs'"
    using write_text_plain [OF _ p(1) w] r by (auto simp: ready_def)
  have "p \<noteq> w"
    using w r resolve_of_plain [OF p(1)] by (auto simp: write_text_def ready_def)
  moreover have "fs_node fs w = Some Dir" "resolve fs ws = Inr w" using r by (auto simp: ready_def)
  ultimately show ?thesis
    using fs' p(2) resolve_same_links [OF fs'(3)] by (auto simp: confined_def ready_def fs_node_set)
qed

lemma mkdir_confined:
  assumes r: "ready fs ws w" and p: "plain fs p" and ext: "prefix w p \<or> prefix p w"
    and m: "mkdir_parents fs p = Inr fs'"
  shows "confined ws w fs fs' \<and> fs_node fs' p = Some Dir \<and>
    (\<forall>q. dict_get fs' q = (if dict_get fs q = None \<and> q \<noteq> [] \<and> prefix q p then Some Dir else dict_get fs q))"
proof -
  have ok: "fs_ok fs" and w: "fs_node fs w = Some Dir" and res: "resolve fs ws = Inr w"
    using r by (auto simp: ready_def)
  have spec: "fs_ok fs' \<and> same_links fs fs' \<and> fs_node fs' p = Some Dir \<and>
    (\<forall>q. dict_get fs' q = (if dict_get fs q = None \<and> strict_prefix [] q \<and> prefix q p then Some Dir else dict_get fs q))"
    using mkdir_from_spec [OF m [unfolded mkdir_parents_def] ok] p by (simp add: fs_node_def)
  have seen: "prefix w q" if "dict_get fs q = None" "q \<noteq> []" "prefix q p" for q
  proof (rule ccontr)
    assume "\<not> prefix w q"
    note that = that this
    have "strict_prefix q w"
      using that ext by (metis prefix_order.dual_order.strict_iff_order prefix_order.trans prefix_same_cases)
    then show False using fs_ok_ancestor [OF ok, of w q] w that by (auto simp: fs_node_def)
  qed
  moreover have "fs_node fs' w = Some Dir" using spec w by (auto simp: fs_node_def)
  moreover have "resolve fs' ws = Inr w" using spec res resolve_same_links by metis
  ultimately show ?thesis using spec by (auto simp: confined_def ready_def strict_prefix_def dest: seen)
qed

lemma prefix_butlast_cases: "prefix w p \<Longrightarrow> prefix w (butlast p) \<or> prefix (butlast p) w"
  by (meson prefix_same_cases prefixeq_butlast)

lemma write_file_confined:
  assumes r: "ready fs ws w"
  shows "confined ws w fs (snd (write_file fs ws rel content))"
  unfolding write_file_def
proof (intro keep_confined [OF r])
  fix p fs1
  assume p: "resolve_workspace_path fs ws rel = Inr p" and m: "mkdir_parents fs (butlast p) = Inr fs1"
  note pp = ready_plain [OF r p]
  have c: "confined ws w fs fs1"
    using mkdir_confined [OF r plain_butlast [OF pp(2)] prefix_butlast_cases [OF pp(1)] m] by blast
  then have "plain fs1 p" using pp(2) same_links_plain by (auto simp: confined_def)
  then have "confined ws w fs1 (snd (keep fs1 (write_text fs1 p content) (\<lambda>fs2. (Inr ''Success: file written.'', fs2))))"
    using confined_ready [OF c] pp(1) by (intro keep_confined) (auto intro: write_text_confined)
  with c show "confined ws w fs (snd (keep fs1 (write_text fs1 p content) (\<lambda>fs2. (Inr ''Success: file written.'', fs2))))"
    by (rule confined_trans)
qed

lemma make_dir_confined:
  assumes r: "ready fs ws w"
  shows "confined ws w fs (snd (make_dir fs ws rel))"
  unfolding make_dir_def
proof (intro keep_confined [OF r])
  fix p fs1
  assume "resolve_workspace_path fs ws rel = Inr p" and m: "mkdir_parents fs p = Inr fs1"
  note ready_plain [OF r this(1)]
  then show "confined ws w fs (snd (Inr (''Success: directory exists: '' @ rel @ ''.''), fs1))"
    using mkdir_confined [OF r _ _ m] by simp
qed

lemma edit_file_confined:
  assumes r: "ready fs ws w"
  shows "confined ws w fs (snd (edit_file fs ws rel old_text new_text replace_all))"
  unfolding edit_file_def Let_def
  by (intro keep_confined [OF r] if_confined [OF r])
    (simp add: write_text_confined [OF r ready_plain(2,1) [OF r]])

lemma patch_edit_confined: "ready fs ws w \<Longrightarrow> confined ws w fs (snd (patch_edit fs ws change))"
  unfolding patch_edit_def by (intro keep_confined edit_file_confined)

lemma patch_loop_confined: "ready fs ws w \<Longrightarrow> confined ws w fs (snd (patch_loop fs ws i results changes))"
proof (induction fs ws i results changes rule: patch_loop.induct)
  case (2 fs ws i results change changes)
  show ?case
  proof (cases change)
    case (PDict d)
    obtain res fs1 where pe: "patch_edit fs ws d = (res, fs1)" by (cases "patch_edit fs ws d")
    with patch_edit_confined [OF 2(2), of d] have c: "confined ws w fs fs1" by simp
    then show ?thesis
      using PDict pe 2(1) confined_ready [OF c] confined_trans [OF c] by (cases res) auto
  qed (simp_all add: confined_refl 2(2))
qed (simp add: confined_refl)

lemma apply_workspace_patch_confined:
  "ready fs ws w \<Longrightarrow> confined ws w fs (snd (apply_workspace_patch fs ws changes))"
  by (simp add: apply_workspace_patch_def confined_refl patch_loop_confined)

subsection \<open>Sequences of file operations\<close>

datatype file_op =
    WriteFile string string
  | EditFile string string string bool
  | MakeDir string
  | ApplyPatch "pyval list"

definition file_step :: "path \<Rightarrow> fs \<Rightarrow> file_op \<Rightarrow> fs" where
  "file_step ws fs op' = (case op' of
     WriteFile p c \<Rightarrow> snd (write_file fs ws p c)
   | EditFile p old_text new_text all \<Rightarrow> snd (edit_file fs ws p old_text new_text all)
   | MakeDir p \<Rightarrow> snd (make_dir fs ws p)
   | ApplyPatch changes \<Rightarrow> snd (apply_workspace_patch fs ws changes))"

lemma file_step_confined: "ready fs ws w \<Longrightarrow> confined ws w fs (file_step ws fs op')"
  by (cases op') (simp_all add: file_step_def write_file_confined edit_file_confined make_dir_confined
      apply_workspace_patch_confined)

interpretation wm: invariant_machine "file_step ws" "confined ws w fs0" for ws w fs0
  by unfold_locales (blast intro: confined_trans file_step_confined confined_ready)

text \<open>
  C27. Whatever sequence of write, edit, mkdir and patch calls an agent makes, with any paths and any
  symbolic links in the workspace, nothing outside the real workspace directory changes, and the
  workspace stays a directory of a well-formed file system with the same links.
\<close>

theorem workspace_writes_confined:
  assumes "fs_ok fs" "resolve fs ws = Inr w" "fs_node fs w = Some Dir"
  shows "let fs' = foldl (file_step ws) fs ops in
    (\<forall>p. \<not> prefix w p \<longrightarrow> dict_get fs' p = dict_get fs p) \<and>
    fs_ok fs' \<and> same_links fs fs' \<and> resolve fs' ws = Inr w \<and> fs_node fs' w = Some Dir"
  using wm.run_inv [OF confined_refl, of fs ws w ops] assms by (simp add: Let_def confined_def ready_def)

subsection \<open>Reading sees the workspace only\<close>

definition same_view :: "path \<Rightarrow> fs \<Rightarrow> fs \<Rightarrow> bool" where
  "same_view w fs fs' \<longleftrightarrow> same_links fs fs' \<and> (\<forall>p. prefix w p \<longrightarrow> dict_get fs p = dict_get fs' p)"

lemma same_view_resolve:
  assumes "same_view w fs fs'"
  shows "resolve fs = resolve fs'" "resolve_workspace_path fs = resolve_workspace_path fs'"
    "relative_workspace_path fs = relative_workspace_path fs'"
proof -
  show r: "resolve fs = resolve fs'"
    using assms resolve_same_links by (auto simp: same_view_def)
  then show "resolve_workspace_path fs = resolve_workspace_path fs'"
    "relative_workspace_path fs = relative_workspace_path fs'"
    unfolding resolve_workspace_path_def [abs_def] relative_workspace_path_def [abs_def] r by simp_all
qed

lemma same_view_node: "same_view w fs fs' \<Longrightarrow> prefix w p \<Longrightarrow> fs_node fs p = fs_node fs' p"
  by (simp add: same_view_def fs_node_def)

lemma sort_filter_keys:
  fixes fs fs' :: fs
  assumes "dict_ok fs" "dict_ok fs'" "\<And>q. P q \<Longrightarrow> dict_get fs q = dict_get fs' q"
  shows "sort (filter P (map fst fs)) = sort (filter P (map fst fs'))"
proof -
  have "q \<in> set (map fst fs) \<longleftrightarrow> q \<in> set (map fst fs')" if "P q" for q
    using assms(3) [OF that] by (metis dict_has_def dict_has_iff)
  then have "set (filter P (map fst fs)) = set (filter P (map fst fs'))" by (simp del: set_map) blast
  moreover have "distinct (filter P (map fst fs))" "distinct (filter P (map fst fs'))"
    using assms(1,2) by (simp_all add: dict_ok_def distinct_filter del: filter_map)
  ultimately show ?thesis
    by (metis sorted_list_of_set_sort_remdups distinct_remdups_id)
qed

lemma same_view_listing:
  assumes v: "same_view w fs fs'" and res: "resolve fs ws = Inr w"
  shows "listing frepr fs ws p ps limit = listing frepr fs' ws p ps limit"
proof -
  note eqs = same_view_resolve [OF v]
  have "dir_entry fs ws q = dir_entry fs' ws q" for q
  proof (cases "relative_workspace_path fs ws q")
    case (Inr r)
    then obtain q' where q': "resolve fs q = Inr q'" "prefix w q'"
      using res by (auto simp: relative_workspace_path_def rbind_Inr_iff split: if_split_asm)
    then have "stat_node fs q = stat_node fs' q"
      using same_view_node [OF v q'(2)] by (simp add: stat_node_def flip: eqs(1))
    with Inr show ?thesis by (simp add: dir_entry_def entry_type_def is_dir_def flip: eqs(3))
  qed (simp add: dir_entry_def flip: eqs(3))
  then have "dir_entry fs ws = dir_entry fs' ws" by (simp add: fun_eq_iff)
  then show ?thesis by (simp add: listing_def flip: eqs(3))
qed

text \<open>
  What \<open>read_file\<close>, \<open>list_dir\<close> and its recursive version answer depends only on the files under
  the real workspace directory and on the symbolic links: two file systems that agree on these give the
  same answer, so no content from outside the workspace is ever shown.
\<close>

theorem workspace_reads_confined:
  assumes ok: "fs_ok fs" "fs_ok fs'" and v: "same_view w fs fs'" and res: "resolve fs ws = Inr w"
  shows "read_file fs ws rel limit = read_file fs' ws rel limit \<and>
    list_dir frepr fs ws rel limit = list_dir frepr fs' ws rel limit \<and>
    list_dir_recursive frepr fs ws rel limit = list_dir_recursive frepr fs' ws rel limit"
proof (cases "resolve_workspace_path fs ws rel")
  case (Inl e)
  then show ?thesis
    using same_view_resolve(2) [OF v] by (simp add: read_file_def list_dir_def list_dir_recursive_def)
next
  case (Inr p)
  note eqs = same_view_resolve [OF v]
  have p: "prefix w p" "plain fs p"
    by (rule resolve_workspace_path_Inr [OF Inr]; use res resolve_plain [OF ok(1)] in auto)+
  then have rp: "resolve fs p = Inr p" by (simp add: resolve_of_plain)
  have inr': "resolve_workspace_path fs' ws rel = Inr p" and rp': "resolve fs' p = Inr p"
    using Inr rp by (simp_all add: eqs)
  have node: "fs_node fs p = fs_node fs' p" by (rule same_view_node [OF v p(1)])
  then have stat: "stat_node fs p = stat_node fs' p" "is_file fs p = is_file fs' p" "read_text fs p = read_text fs' p"
    by (simp_all add: stat_node_def is_file_def read_text_def rp rp')
  have under: "dict_get fs q = dict_get fs' q" if "butlast q = p \<or> strict_prefix p q" for q
  proof -
    have "prefix p q" using that by (auto simp: prefixeq_butlast)
    then show ?thesis using v p(1) prefix_order.trans by (auto simp: same_view_def)
  qed
  have kids: "children fs p = children fs' p" "descendants fs p = descendants fs' p"
    unfolding children_def descendants_def
    by (rule sort_filter_keys; use ok under in \<open>simp add: fs_ok_def\<close>)+
  have "list_dir frepr fs ws rel limit = list_dir frepr fs' ws rel limit"
    by (simp add: list_dir_def Inr inr' stat kids same_view_listing [OF v res] eqs)
  then show ?thesis
    by (simp add: read_file_def list_dir_recursive_def Inr inr' stat kids same_view_listing [OF v res])
qed

subsection \<open>Exact edits\<close>

lemma py_split_None: "py_find s sep = None \<Longrightarrow> py_split sep s = [s]"
  by (subst py_split.simps) simp

lemma py_split_Some:
  "sep \<noteq> '''' \<Longrightarrow> py_find s sep = Some i \<Longrightarrow> py_split sep s = take i s # py_split sep (drop (i + length sep) s)"
  by (subst py_split.simps) simp

lemma py_split_not_Nil: "py_split sep s \<noteq> []"
  by (subst py_split.simps) (auto split: option.splits)

lemma py_count_0: "sep \<noteq> '''' \<Longrightarrow> py_count sep s = 0 \<longleftrightarrow> \<not> py_in sep s"
  using py_split_not_Nil [of sep]
  by (cases "py_find s sep") (auto simp: py_count_def py_in_def py_split_None py_split_Some)

lemma py_count_Suc:
  "sep \<noteq> '''' \<Longrightarrow> py_find s sep = Some i \<Longrightarrow> py_count sep s = Suc (py_count sep (drop (i + length sep) s))"
  using py_split_not_Nil [of sep "drop (i + length sep) s"]
  by (cases "py_split sep (drop (i + length sep) s)") (auto simp: py_count_def py_split_Some)

lemma py_find_decomp: "py_find s p = Some i \<Longrightarrow> s = take i s @ p @ drop (i + length p) s"
  using py_find_bound [of s p i] by (metis append_take_drop_id add.commute drop_drop)

lemma py_find_first: "py_find s p = Some i \<Longrightarrow> j < i \<Longrightarrow> \<not> starts_with (drop j s) p"
proof (induction s arbitrary: i j)
  case (Cons c s)
  then show ?case by (cases j) (auto split: if_splits)
qed (auto split: if_splits)

lemma replace_first_decomp:
  "py_find s old_text = Some i \<Longrightarrow>
   \<exists>pre post. s = pre @ old_text @ post \<and> replace_first old_text new_text s = pre @ new_text @ post \<and> length pre = i"
  using py_find_decomp [of s old_text i] py_find_bound [of s old_text i]
  by (intro exI [of _ "take i s"] exI [of _ "drop (i + length old_text) s"]) (auto simp: replace_first_def)

lemma plain_is_file: "plain fs p \<Longrightarrow> is_file fs p \<longleftrightarrow> (\<exists>c. fs_node fs p = Some (File c))"
  by (auto simp: is_file_def stat_node_def resolve_of_plain split: option.splits node.splits)

lemma plain_read_text:
  "plain fs p \<Longrightarrow> fs_node fs p = Some (File c) \<Longrightarrow> read_text fs p = Inr (universal_newlines c)"
  by (simp add: read_text_def resolve_of_plain)

lemma plain_write_text:
  "plain fs p \<Longrightarrow> fs_node fs p = Some (File c) \<Longrightarrow> fs_ok fs \<Longrightarrow> write_text fs p txt = Inr (dict_set fs p (File txt))"
  by (auto simp: write_text_def resolve_of_plain fs_ok_def fs_node_def split: if_splits)

text \<open>
  \<open>edit_file\<close> without \<open>replace_all\<close>: when it reports success the text had, after reading with
  universal newlines, the old text once (counting without overlaps), and the file now holds the same
  text with its first occurrence replaced; in every other case it reports an error and changes nothing.
  In particular a file with carriage returns is rewritten with line feeds throughout.
\<close>

theorem edit_file_exact:
  assumes ready: "fs_ok fs" "resolve_workspace_path fs ws rel = Inr p" "fs_node fs p = Some (File c)"
  shows "case edit_file fs ws rel old_text new_text False of (answer, fs') \<Rightarrow>
    (py_count old_text (universal_newlines c) = 1 \<and> old_text \<noteq> '''' \<and>
       answer = Inr ''Success: applied 1 edit(s).'' \<and>
       (\<exists>pre post. universal_newlines c = pre @ old_text @ post \<and> \<not> py_in old_text post \<and>
          (\<forall>j < length pre. \<not> starts_with (drop j (universal_newlines c)) old_text) \<and>
          fs' = dict_set fs p (File (pre @ new_text @ post)))) \<or>
    ((old_text = '''' \<or> py_count old_text (universal_newlines c) \<noteq> 1) \<and>
       (\<exists>msg. answer = Inr (''Error: '' @ msg)) \<and> fs' = fs)"
proof -
  let ?t = "universal_newlines c"
  have p: "plain fs p"
    by (rule resolve_workspace_path_Inr [OF ready(2)]; use resolve_plain [OF ready(1)] in auto)
  note eqs = plain_is_file [OF p] plain_read_text [OF p ready(3)] plain_write_text [OF p ready(3,1)] ready
  show ?thesis
  proof (cases "old_text \<noteq> '''' \<and> py_count old_text ?t = 1")
    case True
    then obtain i where i: "py_find ?t old_text = Some i" using py_count_0 [of old_text ?t] by (auto simp: py_in_def)
    obtain pre post where d: "?t = pre @ old_text @ post"
      "replace_first old_text new_text ?t = pre @ new_text @ post" "length pre = i"
      using replace_first_decomp [OF i] by blast
    have "drop (i + length old_text) ?t = post" using d(1,3) by simp
    then have "\<not> py_in old_text post"
      using py_count_Suc [OF _ i] True by (simp add: py_count_0)
    then have "\<exists>pre post. ?t = pre @ old_text @ post \<and> \<not> py_in old_text post \<and>
        (\<forall>j < length pre. \<not> starts_with (drop j ?t) old_text) \<and>
        dict_set fs p (File (replace_first old_text new_text ?t)) = dict_set fs p (File (pre @ new_text @ post))"
      using d py_find_first [OF i] by (intro exI [of _ pre] exI [of _ post]) simp
    moreover have "nat_digits 1 = ''1''" by code_simp
    ultimately show ?thesis
      using True by (simp add: edit_file_def keep_def eqs Let_def)
  next
    case False
    then show ?thesis by (auto simp: edit_file_def keep_def eqs Let_def)
  qed
qed

subsection \<open>Patches and round trips\<close>

definition patched :: "path \<Rightarrow> fs \<Rightarrow> pyval \<Rightarrow> fs" where
  "patched ws fs change = (case change of PDict d \<Rightarrow> snd (patch_edit fs ws d) | _ \<Rightarrow> fs)"

definition patch_succeeds :: "path \<Rightarrow> fs \<Rightarrow> pyval \<Rightarrow> bool" where
  "patch_succeeds ws fs change = (case change of
     PDict d \<Rightarrow> (case fst (patch_edit fs ws d) of Inr m \<Rightarrow> \<not> starts_with m ''Error:'' | Inl _ \<Rightarrow> False) | _ \<Rightarrow> False)"

lemma starts_with_append: "starts_with (p @ s) p"
  by (simp add: starts_with_def)

lemma starts_with_extend: "starts_with s p \<Longrightarrow> starts_with (s @ t) p"
  by (auto simp: starts_with_def) (metis append_Nil2 append_take_drop_id diff_is_0_eq length_take min.absorb_iff2 nle_le take_all take_eq_Nil)

lemma edit_file_failed:
  "edit_file fs ws rel old_text new_text all = (r, fs') \<Longrightarrow>
   (case r of Inl e \<Rightarrow> True | Inr m \<Rightarrow> starts_with m ''Error:'') \<Longrightarrow> fs' = fs"
  by (auto simp: edit_file_def keep_def Let_def starts_with_def split: if_split_asm sum.split_asm)

lemma patch_edit_failed:
  "patch_edit fs ws d = (r, fs') \<Longrightarrow> (case r of Inl e \<Rightarrow> True | Inr m \<Rightarrow> starts_with m ''Error:'') \<Longrightarrow> fs' = fs"
  by (auto simp: patch_edit_def keep_def split: sum.split_asm dest: edit_file_failed)

lemma patch_loop_spec:
  "case patch_loop fs ws i results changes of (answer, fs') \<Rightarrow>
     \<exists>k \<le> length changes. fs' = foldl (patched ws) fs (take k changes) \<and>
       (\<forall>j < k. patch_succeeds ws (foldl (patched ws) fs (take j changes)) (changes ! j)) \<and>
       (if k = length changes then starts_with answer ''Success:''
        else \<not> patch_succeeds ws fs' (changes ! k) \<and> starts_with answer ''Error:'')"
proof (induction fs ws i results changes rule: patch_loop.induct)
  case (2 fs ws i results change changes)
  show ?case
  proof (cases "patch_succeeds ws fs change")
    case True
    then obtain d m fs1 where d: "change = PDict d" "patch_edit fs ws d = (Inr m, fs1)" "\<not> starts_with m ''Error:''"
      by (cases change; cases "patch_edit fs ws (case change of PDict d \<Rightarrow> d)")
        (auto simp: patch_succeeds_def split: sum.split_asm)
    obtain answer fs' where run: "patch_loop fs1 ws (Suc i) (results @ [''change #'' @ nat_digits i @ '': '' @ m]) changes = (answer, fs')"
      by fastforce
    with 2(1) [OF d(1) d(2) [symmetric] refl d(3)] obtain k where k: "k \<le> length changes"
      "fs' = foldl (patched ws) fs1 (take k changes)"
      "\<forall>j < k. patch_succeeds ws (foldl (patched ws) fs1 (take j changes)) (changes ! j)"
      "if k = length changes then starts_with answer ''Success:''
       else \<not> patch_succeeds ws fs' (changes ! k) \<and> starts_with answer ''Error:''" by auto
    have fs1: "patched ws fs change = fs1" by (simp add: patched_def d)
    have "patch_loop fs ws i results (change # changes) = (answer, fs')"
      using run d by simp
    then show ?thesis
      using k True by (auto simp: fs1 less_Suc_eq_0_disj intro!: exI [of _ "Suc k"] simp del: patch_loop.simps)
  next
    case False
    show ?thesis
    proof (cases change)
      case (PDict d)
      obtain r fs1 where pe: "patch_edit fs ws d = (r, fs1)" by fastforce
      with False PDict have fail: "case r of Inl e \<Rightarrow> True | Inr m \<Rightarrow> starts_with m ''Error:''"
        by (auto simp: patch_succeeds_def split: sum.split)
      with patch_edit_failed [OF pe] have "fs1 = fs" by blast
      then show ?thesis
      proof (cases r)
        case (Inl e)
        then show ?thesis using pe False PDict \<open>fs1 = fs\<close> by (auto intro!: exI [of _ 0] simp: starts_with_def)
      next
        case (Inr m)
        then show ?thesis
          using fail pe False PDict \<open>fs1 = fs\<close> by (auto intro!: exI [of _ 0] starts_with_extend)
      qed
    qed (use False in \<open>auto intro!: exI [of _ 0] simp: starts_with_def\<close>)
  qed
qed (simp add: starts_with_def)

text \<open>
  A patch is applied edit by edit and is not atomic: the file system it leaves is the result of the
  edits before the first failing one, which are kept; it reports success exactly when every edit
  succeeded.
\<close>

theorem patch_keeps_prefix:
  assumes "changes \<noteq> []"
  shows "case apply_workspace_patch fs ws changes of (answer, fs') \<Rightarrow>
     \<exists>k \<le> length changes. fs' = foldl (patched ws) fs (take k changes) \<and>
       (\<forall>j < k. patch_succeeds ws (foldl (patched ws) fs (take j changes)) (changes ! j)) \<and>
       (if k = length changes then starts_with answer ''Success:''
        else \<not> patch_succeeds ws fs' (changes ! k) \<and> starts_with answer ''Error:'')"
  using assms patch_loop_spec by (simp add: apply_workspace_patch_def)

lemma universal_newlines_id:
  assumes "CHR 0x0D \<notin> set s"
  shows "universal_newlines s = s"
proof -
  have none: "py_find s (CHR 0x0D # p) = None" for p
    using assms by (induction s) (auto simp: starts_with_def)
  show ?thesis
    by (simp add: universal_newlines_def py_replace_def py_split_None none py_join_def)
qed

text \<open>
  What \<open>write_file\<close> has written, \<open>read_file\<close> of the same path answers: the whole text if it has no
  carriage return and fits the limit, and its beginning with a note otherwise.
\<close>

theorem write_then_read:
  assumes ready: "fs_ok fs" "resolve fs ws = Inr w" "fs_node fs w = Some Dir"
    and written: "write_file fs ws rel content = (Inr msg, fs')"
    and cr: "CHR 0x0D \<notin> set content" and limit: "0 \<le> limit"
  shows "read_file fs' ws rel limit = Inr (if int (length content) \<le> limit then content
    else take (nat limit) content @ [CHR 0x0A] @ ''... truncated after '' @ int_str limit @ '' characters'')"
proof -
  have r: "ready fs ws w" using ready by (simp add: ready_def)
  obtain p fs1 where p: "resolve_workspace_path fs ws rel = Inr p" and m: "mkdir_parents fs (butlast p) = Inr fs1"
    and w: "write_text fs1 p content = Inr fs'"
    using written by (auto simp: write_file_def keep_def split: sum.split_asm)
  note pp = ready_plain [OF r p]
  have c: "confined ws w fs fs1"
    using mkdir_confined [OF r plain_butlast [OF pp(2)] prefix_butlast_cases [OF pp(1)] m] by blast
  then have p1: "plain fs1 p" and ok1: "fs_ok fs1"
    using pp(2) same_links_plain by (auto simp: confined_def ready_def)
  note w' = write_text_plain [OF ok1 p1 w]
  have links: "same_links fs fs'" using c w' same_links_trans by (auto simp: confined_def)
  have "p \<noteq> []" using w resolve_of_plain [OF p1] by (auto simp: write_text_def fs_node_def)
  then have node: "fs_node fs' p = Some (File content)" using w' by (simp add: fs_node_def)
  have "resolve_workspace_path fs' ws rel = Inr p"
    using p unfolding resolve_workspace_path_def resolve_same_links [OF links] .
  moreover have "plain fs' p" using pp(2) same_links_plain [OF links] by simp
  ultimately show ?thesis
    using node cr limit
    by (simp add: read_file_def plain_is_file plain_read_text stat_node_def resolve_of_plain
        universal_newlines_id slice_index_def min_def)
qed

subsection \<open>A workspace with a link that leads out of it\<close>

lemma fs_ok_code [code]:
  "fs_ok fs \<longleftrightarrow> dict_ok fs \<and> list_all (\<lambda>e. fst e \<noteq> [] \<and> fs_node fs (butlast (fst e)) = Some Dir) fs"
  by (auto simp: fs_ok_def list_all_iff dict_ok_def; force)

definition example_ws :: path where
  "example_ws = [''tmp'', ''ws'']"

definition example_fs :: fs where
  "example_fs = [([''tmp''], Dir), (example_ws, Dir), (example_ws @ [''a.txt''], File ''x=1''),
     (example_ws @ [''out''], Link ''/etc''), ([''etc''], Dir), ([''etc'', ''passwd''], File ''root'')]"

lemma example_ready:
  "fs_ok example_fs" "resolve example_fs example_ws = Inr example_ws" "fs_node example_fs example_ws = Some Dir"
  by code_simp+

lemma workspace_writes_confined_witness:
  "dict_get (foldl (file_step example_ws) example_fs
     [WriteFile ''out/passwd'' ''mine'', WriteFile ''b/c.txt'' ''hi'', EditFile ''a.txt'' ''1'' ''2'' False])
     [''etc'', ''passwd''] = Some (File ''root'')"
proof -
  have "\<not> prefix example_ws [''etc'', ''passwd'']" by code_simp
  then show ?thesis
    using workspace_writes_confined [OF example_ready,
        of "[WriteFile ''out/passwd'' ''mine'', WriteFile ''b/c.txt'' ''hi'', EditFile ''a.txt'' ''1'' ''2'' False]"]
    by (simp only: Let_def) (simp add: example_fs_def example_ws_def)
qed

lemma workspace_reads_confined_witness:
  "read_file example_fs example_ws ''a.txt'' 10 =
   read_file (dict_set example_fs [''etc'', ''passwd''] (File ''changed'')) example_ws ''a.txt'' 10"
proof -
  have e: "\<not> prefix example_ws [''etc'', ''passwd'']" "dict_get example_fs [''etc'', ''passwd''] = Some (File ''root'')"
    by code_simp+
  then have v: "same_view example_ws example_fs (dict_set example_fs [''etc'', ''passwd''] (File ''changed''))"
    by (auto simp: same_view_def same_links_def)
  have "fs_ok (dict_set example_fs [''etc'', ''passwd''] (File ''changed''))" by code_simp
  from workspace_reads_confined [OF example_ready(1) this v example_ready(2)] show ?thesis by blast
qed

lemma edit_file_exact_witness:
  "edit_file example_fs example_ws ''a.txt'' ''1'' ''2'' False =
     (Inr ''Success: applied 1 edit(s).'', dict_set example_fs (example_ws @ [''a.txt'']) (File ''x=2'')) \<and>
   py_count ''1'' (universal_newlines ''x=1'') = 1"
proof -
  have p: "resolve_workspace_path example_fs example_ws ''a.txt'' = Inr (example_ws @ [''a.txt''])"
    "fs_node example_fs (example_ws @ [''a.txt'']) = Some (File ''x=1'')" by code_simp+
  have "edit_file example_fs example_ws ''a.txt'' ''1'' ''2'' False =
     (Inr ''Success: applied 1 edit(s).'', dict_set example_fs (example_ws @ [''a.txt'']) (File ''x=2''))"
    by code_simp
  then show ?thesis
    using edit_file_exact [OF example_ready(1) p, of "''1''" "''2''"] by (auto split: prod.splits)
qed

lemma patch_keeps_prefix_witness:
  "\<exists>answer fs'. apply_workspace_patch example_fs example_ws
     [PDict [(''path'', PStr ''a.txt''), (''old_text'', PStr ''1''), (''new_text'', PStr ''2'')],
      PDict [(''path'', PStr ''none''), (''old_text'', PStr ''1''), (''new_text'', PStr ''2'')]] = (answer, fs') \<and>
     starts_with answer ''Error:'' \<and> fs' \<noteq> example_fs"
proof -
  let ?cs = "[PDict [(''path'', PStr ''a.txt''), (''old_text'', PStr ''1''), (''new_text'', PStr ''2'')],
      PDict [(''path'', PStr ''none''), (''old_text'', PStr ''1''), (''new_text'', PStr ''2'')]]"
  have run: "apply_workspace_patch example_fs example_ws ?cs =
      (''Error: path is not a file: none (change #2)'', dict_set example_fs (example_ws @ [''a.txt'']) (File ''x=2''))"
    by code_simp
  have "?cs \<noteq> []" by simp
  from patch_keeps_prefix [OF this, where fs = example_fs and ws = example_ws]
  have "starts_with ''Error: path is not a file: none (change #2)'' ''Error:''"
    unfolding run by (auto simp: starts_with_def)
  moreover have "dict_set example_fs (example_ws @ [''a.txt'']) (File ''x=2'') \<noteq> example_fs" by code_simp
  ultimately show ?thesis using run by blast
qed

lemma write_then_read_witness:
  "read_file (snd (write_file example_fs example_ws ''b/c.txt'' ''hello'')) example_ws ''b/c.txt'' 2 =
     Inr (''he'' @ [CHR 0x0A] @ ''... truncated after 2 characters'')"
proof -
  have "write_file example_fs example_ws ''b/c.txt'' ''hello'' =
      (Inr ''Success: file written.'', snd (write_file example_fs example_ws ''b/c.txt'' ''hello''))"
    by code_simp
  moreover have "int_str 2 = ''2''" by code_simp
  ultimately show ?thesis
    using write_then_read [OF example_ready, of "''b/c.txt''" "''hello''" _ _ 2] by (simp add: numeral_2_eq_2)
qed

end
