(* ===== verification/BashGuard.thy ===== *)
theory BashGuard
  imports Workspace
begin

text \<open>
  The checks in front of the shell of \<open>nanoclaw_recipe/nanoclaw.py\<close>: the tokenizer of \<open>shlex\<close> that
  they use, the regular expressions over the command text, the per-command validation of operands
  and redirections, and the recognition of inline Python.  The patterns are recursive functions that
  follow the matching order of \<open>re\<close>.
\<close>

subsection \<open>Shell tokens\<close>

datatype lex_state = Blank | Word | Punct | Quoted char | Escaped lex_state

definition lex_space :: "char \<Rightarrow> bool" where
  "lex_space c \<longleftrightarrow> c \<in> {CHR 0x20, CHR 0x09, CHR 0x0D, CHR 0x0A}"

definition lex_quote :: "char \<Rightarrow> bool" where
  "lex_quote c \<longleftrightarrow> c \<in> {CHR 0x27, CHR 0x22}"

text \<open>
  \<open>shlex\<close> in POSIX mode with \<open>whitespace_split\<close> and no comment characters; \<open>punct\<close> are the
  punctuation characters.  A character that ends a token without belonging to it is read again from
  the state \<open>Blank\<close>.
\<close>

function lex :: "(char \<Rightarrow> bool) \<Rightarrow> lex_state \<Rightarrow> bool \<Rightarrow> string \<Rightarrow> string \<Rightarrow> string list result" where
  "lex punct Blank quoted tok [] = Inr []"
| "lex punct Blank quoted tok (c # s) =
     (if lex_space c then lex punct Blank False '''' s
      else if c = CHR 0x5C then lex punct (Escaped Word) False '''' s
      else if punct c then lex punct Punct False [c] s
      else if lex_quote c then lex punct (Quoted c) False '''' s
      else lex punct Word False [c] s)"
| "lex punct (Quoted q) quoted tok [] = Inl (ValueError ''No closing quotation'')"
| "lex punct (Quoted q) quoted tok (c # s) =
     (if c = q then lex punct Word True tok s
      else if c = CHR 0x5C \<and> q = CHR 0x22 then lex punct (Escaped (Quoted q)) True tok s
      else lex punct (Quoted q) True (tok @ [c]) s)"
| "lex punct (Escaped back) quoted tok [] = Inl (ValueError ''No escaped character'')"
| "lex punct (Escaped back) quoted tok (c # s) =
     lex punct back quoted
       (tok @ (case back of Quoted q \<Rightarrow> if c \<noteq> CHR 0x5C \<and> c \<noteq> q then [CHR 0x5C] else '''' | _ \<Rightarrow> '''') @ [c]) s"
| "lex punct Word quoted tok [] = Inr (if tok \<noteq> '''' \<or> quoted then [tok] else [])"
| "lex punct Word quoted tok (c # s) =
     (if lex_space c then
        (if tok \<noteq> '''' \<or> quoted then rbind (lex punct Blank False '''' s) (\<lambda>ts. Inr (tok # ts))
         else lex punct Blank False '''' s)
      else if lex_quote c then lex punct (Quoted c) quoted tok s
      else if c = CHR 0x5C then lex punct (Escaped Word) quoted tok s
      else if punct c then
        (if tok \<noteq> '''' \<or> quoted then rbind (lex punct Blank False '''' (c # s)) (\<lambda>ts. Inr (tok # ts))
         else lex punct Blank False '''' (c # s))
      else lex punct Word quoted (tok @ [c]) s)"
| "lex punct Punct quoted tok [] = Inr [tok]"
| "lex punct Punct quoted tok (c # s) =
     (if lex_space c then rbind (lex punct Blank False '''' s) (\<lambda>ts. Inr (tok # ts))
      else if punct c then lex punct Punct quoted (tok @ [c]) s
      else rbind (lex punct Blank False '''' (c # s)) (\<lambda>ts. Inr (tok # ts)))"
  by pat_completeness auto

termination
  by (relation "measure (\<lambda>(punct, st, quoted, tok, s). 2 * length s + (if st = Blank then 0 else 1))") auto

definition shlex_split :: "string \<Rightarrow> string list result" where
  "shlex_split s = lex (\<lambda>c. False) Blank False '''' s"

definition split_bash_segment :: "string \<Rightarrow> string list result" where
  "split_bash_segment segment = lex (\<lambda>c. c \<in> {CHR 0x3E, CHR 0x3C}) Blank False '''' segment"

subsection \<open>Patterns in the command text\<close>

definition newline :: char where
  "newline = CHR 0x0A"

text \<open>\<open>(?<![&])&(?![&])\<close>; \<open>prev\<close> tells whether the character before is \<open>&\<close>.\<close>

fun lone_ampersand :: "bool \<Rightarrow> string \<Rightarrow> bool" where
  "lone_ampersand prev [] = False"
| "lone_ampersand prev (c # s) =
     (if c = CHR ''&'' then (\<not> prev \<and> \<not> starts_with s ''&'') \<or> lone_ampersand True s
      else lone_ampersand False s)"

text \<open>\<open>(?<![\w.-])\.\.(?:/|$)\<close>; \<open>$\<close> also matches before a final newline.\<close>

definition path_char :: "char \<Rightarrow> bool" where
  "path_char c \<longleftrightarrow> is_word c \<or> c = CHR ''.'' \<or> c = CHR ''-''"

definition parent_here :: "string \<Rightarrow> bool" where
  "parent_here s \<longleftrightarrow> starts_with s ''..'' \<and> (let rest = drop 2 s in rest = '''' \<or> rest = [newline] \<or> starts_with rest ''/'')"

fun parent_path :: "bool \<Rightarrow> string \<Rightarrow> bool" where
  "parent_path prev [] = False"
| "parent_path prev (c # s) = ((\<not> prev \<and> parent_here (c # s)) \<or> parent_path (path_char c) s)"

definition unsupported_tokens :: "string list" where
  "unsupported_tokens = [''`'', ''<('', ''>('']"

definition validate_unsupported_bash_syntax :: "string \<Rightarrow> string option" where
  "validate_unsupported_bash_syntax txt =
     (if lone_ampersand False txt then
        Some (''Error: unsupported bash syntax '' @ repr_string ''&'' @ ''. Background jobs are not allowed.'')
      else case List.find (\<lambda>token. py_in token txt) unsupported_tokens of
        Some token \<Rightarrow> Some (''Error: unsupported bash syntax '' @ repr_string token @
          ''. Process substitution and backticks are not allowed.'')
      | None \<Rightarrow>
          if parent_path False (py_replace [CHR 0x5C, newline] '' '' txt) then
            Some ''Error: unsupported bash path escape. Parent-directory paths are not allowed.''
          else None)"

definition validate_bash_text :: "string \<Rightarrow> string option" where
  "validate_bash_text txt =
     (if py_strip txt = '''' then Some ''Error: empty bash command/script.''
      else validate_unsupported_bash_syntax txt)"

text \<open>
  \<open>\s*(?:&&|\|\||;|\n)\s*\<close> at the start of the text: the rest after the match.  White space before
  the operator is matched greedily; when no operator follows, its last newline is the operator.
\<close>

definition control_match :: "string \<Rightarrow> string option" where
  "control_match s =
     (let rest = dropWhile is_space s in
      if starts_with rest ''&&'' \<or> starts_with rest ''||'' then Some (dropWhile is_space (drop 2 rest))
      else if starts_with rest '';'' then Some (dropWhile is_space (drop 1 rest))
      else if newline \<in> set (takeWhile is_space s) then Some rest
      else None)"

lemma control_match_less: "control_match s = Some r \<Longrightarrow> length r < length s"
proof -
  have d: "length (dropWhile is_space u) \<le> length u" for u by (rule length_dropWhile_le)
  have n: "length (takeWhile is_space u) + length (dropWhile is_space u) = length u" for u
    by (metis length_append takeWhile_dropWhile_id)
  have t: "starts_with u p \<Longrightarrow> length p \<le> length u" for u p
    unfolding starts_with_def by (metis length_take min.cobounded1)
  assume "control_match s = Some r"
  then show ?thesis
    using d [of s] d [of "drop 2 (dropWhile is_space s)"] d [of "drop 1 (dropWhile is_space s)"] n [of s]
      t [of "dropWhile is_space s" "''&&''"] t [of "dropWhile is_space s" "''||''"] t [of "dropWhile is_space s" "'';''"]
    by (cases "takeWhile is_space s") (auto simp: control_match_def Let_def split: if_splits)
qed

function control_split :: "string \<Rightarrow> string \<Rightarrow> string list" where
  "control_split acc [] = [acc]"
| "control_split acc (c # s) =
     (case control_match (c # s) of
        Some r \<Rightarrow> acc # control_split '''' r
      | None \<Rightarrow> control_split (acc @ [c]) s)"
  by pat_completeness auto

termination
  by (relation "measure (\<lambda>(acc, s). length s)") (auto dest: control_match_less)

fun first_some :: "('a \<Rightarrow> 'b option) \<Rightarrow> 'a list \<Rightarrow> 'b option" where
  "first_some f [] = None"
| "first_some f (x # xs) = (case f x of None \<Rightarrow> first_some f xs | Some y \<Rightarrow> Some y)"

subsection \<open>Shell scripts\<close>

definition escaping_token :: "string \<Rightarrow> bool" where
  "escaping_token token \<longleftrightarrow> starts_with token ''../'' \<or> token = ''..'' \<or> py_in ''/../'' token"

definition segment_escape :: "string \<Rightarrow> string option" where
  "segment_escape raw_segment =
     (let segment = py_strip raw_segment in
      if segment = '''' then None
      else case split_bash_segment segment of
        Inl _ \<Rightarrow> None
      | Inr tokens \<Rightarrow> List.find escaping_token tokens)"

definition line_escape :: "nat \<times> string \<Rightarrow> string option" where
  "line_escape numbered =
     (let stripped_line = py_strip (snd numbered) in
      if stripped_line = '''' \<or> starts_with stripped_line ''#'' then None
      else map_option (\<lambda>token. ''Error: unsafe bash at line '' @ nat_digits (fst numbered) @
             '': path escapes workspace: '' @ token)
        (first_some segment_escape (control_split '''' stripped_line)))"

definition script_lines :: "string \<Rightarrow> string list" where
  "script_lines txt = (if splitlines txt = [] then [txt] else splitlines txt)"

definition validate_shell_script_path_operands :: "string \<Rightarrow> string option" where
  "validate_shell_script_path_operands txt =
     (case validate_unsupported_bash_syntax txt of
        Some err \<Rightarrow> Some err
      | None \<Rightarrow> first_some line_escape (enumerate 1 (script_lines txt)))"

subsection \<open>Python sources\<close>

text \<open>\<open>re.finditer("(['\"])(.*?)\1")\<close>: the quote and the text of each literal.\<close>

function python_literals :: "string \<Rightarrow> (char \<times> string) list" where
  "python_literals [] = []"
| "python_literals (c # s) =
     (if lex_quote c \<and> c \<in> set s then
        (c, takeWhile (\<lambda>x. x \<noteq> c) s) # python_literals (drop 1 (dropWhile (\<lambda>x. x \<noteq> c) s))
      else python_literals s)"
  by pat_completeness auto

termination
proof (relation "measure length")
  fix c and s :: string
  have "length (dropWhile (\<lambda>x. x \<noteq> c) s) \<le> length s" by (rule length_dropWhile_le)
  then show "(drop 1 (dropWhile (\<lambda>x. x \<noteq> c) s), c # s) \<in> measure length" by simp
qed auto

definition find_parent_directory_literal :: "string \<Rightarrow> string option" where
  "find_parent_directory_literal src =
     map_option (\<lambda>(q, lit). [q] @ lit @ [q])
       (List.find (\<lambda>(q, lit). ''..'' \<in> set (py_split ''/'' (py_replace [CHR 0x5C] ''/'' lit))) (python_literals src))"

text \<open>\<open>["']/(?:[^"']*)["']\<close>: the matched text.\<close>

fun absolute_literal :: "string \<Rightarrow> string option" where
  "absolute_literal [] = None"
| "absolute_literal (c # s) =
     (let body = takeWhile (\<lambda>x. \<not> lex_quote x) s in
      if lex_quote c \<and> starts_with s ''/'' \<and> length body < length s
      then Some ([c] @ body @ [s ! length body]) else absolute_literal s)"

definition dangerous_python_patterns :: "string list" where
  "dangerous_python_patterns =
     [''rm -'', ''rmtree'', ''unlink'', ''remove('', ''removedirs'', ''rmdir'', ''os.system'', ''os.popen'',
      ''subprocess'', ''shutil'', ''send2trash'', ''__import__'', ''eval('', ''exec('', ''compile('', ''socket'',
      ''httpx'', ''requests'', ''urllib'']"

definition validate_python_script_text :: "string \<Rightarrow> string option" where
  "validate_python_script_text src =
     (case find_parent_directory_literal src of
        Some lit \<Rightarrow> Some (''parent-directory path literal is not allowed in python scripts run by bash: '' @ lit)
      | None \<Rightarrow> (case absolute_literal src of
          Some lit \<Rightarrow> Some (''absolute path literal is not allowed in python scripts run by bash: '' @ lit)
        | None \<Rightarrow> map_option (\<lambda>pattern. ''forbidden python pattern '' @ repr_string pattern)
            (List.find (\<lambda>pattern. py_in pattern (py_lower src)) dangerous_python_patterns)))"

subsection \<open>Operands of a command\<close>

definition cut_at_equals :: "string \<Rightarrow> string" where
  "cut_at_equals argument = takeWhile (\<lambda>c. c \<noteq> CHR ''='') argument"

fun iter_operands_from :: "string list \<Rightarrow> bool \<Rightarrow> bool \<Rightarrow> string list \<Rightarrow> string list" where
  "iter_operands_from options_with_values skip_next after_double_dash [] = []"
| "iter_operands_from options_with_values skip_next after_double_dash (argument # args) =
     (if skip_next then iter_operands_from options_with_values False after_double_dash args
      else if \<not> after_double_dash \<and> argument = ''--'' then iter_operands_from options_with_values False True args
      else if \<not> after_double_dash \<and> starts_with argument ''-'' \<and> argument \<noteq> ''-'' then
        iter_operands_from options_with_values
          (cut_at_equals argument \<in> set options_with_values \<and> \<not> py_in ''='' argument) after_double_dash args
      else argument # iter_operands_from options_with_values False after_double_dash args)"

definition iter_operands :: "string list \<Rightarrow> string list \<Rightarrow> string list" where
  "iter_operands args options_with_values = iter_operands_from options_with_values False False args"

text \<open>The loop over the arguments of \<open>find\<close>; an option with a value also consumes the next argument.\<close>

fun find_operands :: "bool \<Rightarrow> string list \<Rightarrow> string list" where
  "find_operands skip [] = []"
| "find_operands skip (argument # args) =
     (if skip then find_operands False args
      else if argument = ''--'' then find_operands False args
      else if starts_with argument ''-'' \<or> argument \<in> {''!'', ''('', '')''} then
        find_operands (argument \<in> {''-name'', ''-path'', ''-type'', ''-maxdepth'', ''-mindepth'', ''-size'', ''-mtime'', ''-newer''}) args
      else argument # find_operands False args)"

definition bash_path_operands :: "string list \<Rightarrow> string list" where
  "bash_path_operands argv =
     (let command_name = hd argv; args = drop 1 argv in
      if command_name \<in> {''pwd'', ''which'', ''echo'', ''printf'', ''true'', ''false'', ''test'', ''[''} then []
      else if command_name = ''grep'' then
        (let operands = iter_operands args
               [''-e'', ''--regexp'', ''-f'', ''--file'', ''-m'', ''--max-count'', ''-A'', ''-B'', ''-C'', ''--after-context'',
                ''--before-context'', ''--context'', ''--include'', ''--exclude'', ''--exclude-dir''];
             uses_pattern_option = list_ex (\<lambda>a. a \<in> {''-e'', ''--regexp'', ''-f'', ''--file''} \<or> starts_with a ''-e'') args
         in if uses_pattern_option then operands else drop 1 operands)
      else if command_name = ''find'' then take 1 (find_operands False args)
      else if command_name = ''cut'' then
        iter_operands args [''-b'', ''-c'', ''-d'', ''-f'', ''--bytes'', ''--characters'', ''--delimiter'', ''--fields'']
      else if command_name = ''sed'' then
        (let operands = iter_operands args [''-e'', ''--expression'', ''-f'', ''--file''];
             uses_script_option = list_ex (\<lambda>a. a \<in> {''-e'', ''--expression'', ''-f'', ''--file''} \<or> starts_with a ''-e'') args
         in if uses_script_option then operands else drop 1 operands)
      else if command_name = ''awk'' then
        (let operands = iter_operands args [''-f'', ''--file'', ''-v''];
             uses_script_file = list_ex (\<lambda>a. a \<in> {''-f'', ''--file''}) args
         in if uses_script_file then operands else drop 1 operands)
      else if command_name = ''tr'' then []
      else if command_name \<in> {''basename'', ''dirname''} then take 1 (iter_operands args [])
      else if command_name \<in> {''head'', ''tail''} then iter_operands args [''-n'', ''--lines'', ''-c'', ''--bytes'']
      else if command_name = ''chmod'' then drop 1 (iter_operands args [])
      else iter_operands args [])"

definition validate_workspace_operand :: "fs \<Rightarrow> path \<Rightarrow> string \<Rightarrow> string option result" where
  "validate_workspace_operand fs workspace operand =
     (if operand \<in> {'''', ''-''} then Inr None
      else if starts_with operand ''~'' then
        Inr (Some (''path '' @ repr_string operand @ '' is not allowed: '' @ repr_string ''~'' @ '' expansion is disabled''))
      else rbind (resolve fs workspace) (\<lambda>workspace_resolved.
           rbind (resolve fs (if is_absolute operand then path_parts operand else workspace @ path_parts operand))
             (\<lambda>resolved_path.
               Inr (if prefix workspace_resolved resolved_path then None
                    else Some (''path escapes workspace: '' @ operand)))))"

fun validate_operands :: "fs \<Rightarrow> path \<Rightarrow> string list \<Rightarrow> string option result" where
  "validate_operands fs workspace [] = Inr None"
| "validate_operands fs workspace (operand # operands) =
     rbind (validate_workspace_operand fs workspace operand) (\<lambda>path_error.
       if path_error \<noteq> None then Inr path_error else validate_operands fs workspace operands)"

subsection \<open>Commands and pipelines\<close>

definition output_redirections :: "string list" where
  "output_redirections = [''>'', ''>>'']"

definition input_redirections :: "string list" where
  "input_redirections = [''<'', ''<<'', ''<<<'', ''<>'']"

fun strip_output_redirections ::
  "fs \<Rightarrow> path \<Rightarrow> string list \<Rightarrow> string list \<Rightarrow> (string list \<times> string option) result" where
  "strip_output_redirections fs workspace stripped [] = Inr (stripped, None)"
| "strip_output_redirections fs workspace stripped (token # rest) =
     (if token \<in> set output_redirections then
        (case rest of
           [] \<Rightarrow> Inr ([], Some ''missing output path after redirection'')
         | target # rest' \<Rightarrow>
             rbind (validate_workspace_operand fs workspace target) (\<lambda>path_error.
               if path_error \<noteq> None then Inr ([], path_error)
               else strip_output_redirections fs workspace stripped rest'))
      else if token \<in> set input_redirections then
        (case rest of
           [] \<Rightarrow> Inr ([], Some ''missing input path or heredoc marker after redirection'')
         | target # rest' \<Rightarrow>
             rbind (if token = ''<'' then validate_workspace_operand fs workspace target else Inr None) (\<lambda>path_error.
               if path_error \<noteq> None then Inr ([], path_error)
               else strip_output_redirections fs workspace stripped rest'))
      else strip_output_redirections fs workspace (stripped @ [token]) rest)"

definition is_ascii_letter :: "char \<Rightarrow> bool" where
  "is_ascii_letter c = (let n = code c in (65 \<le> n \<and> n \<le> 90) \<or> (97 \<le> n \<and> n \<le> 122))"

definition is_identifier :: "string \<Rightarrow> bool" where
  "is_identifier s \<longleftrightarrow> s \<noteq> '''' \<and> (is_ascii_letter (hd s) \<or> hd s = CHR ''_'') \<and>
     list_all (\<lambda>c. is_ascii_letter c \<or> is_digit c \<or> c = CHR ''_'') s"

definition is_shell_assignment :: "string \<Rightarrow> bool" where
  "is_shell_assignment token \<longleftrightarrow> py_in ''='' token \<and> is_identifier (cut_at_equals token)"

definition commands_with_path_operands :: "string list" where
  "commands_with_path_operands =
     [''cat'', ''head'', ''tail'', ''wc'', ''ls'', ''mkdir'', ''touch'', ''rm'', ''cp'', ''mv'', ''chmod'']"

definition bash_allowed_commands :: "string list" where
  "bash_allowed_commands = commands_with_path_operands @
     [''pwd'', ''echo'', ''printf'', ''true'', ''false'', ''test'', ''['', ''set'', ''grep'', ''find'', ''sort'', ''uniq'', ''cut'',
      ''bash'', ''sh'', ''python'', ''python3'', ''which'', ''awk'', ''sed'', ''tr'', ''basename'', ''dirname'']"

definition validate_set_command :: "string list \<Rightarrow> string option" where
  "validate_set_command argv =
     (if list_all (\<lambda>a. starts_with a ''-'' \<or> starts_with a ''+'') (drop 1 argv) then None
      else Some ''set only supports shell option flags in this restricted runner'')"

text \<open>A script operand that exists in the workspace, checked by \<open>validate\<close>.\<close>

definition validate_script_operand ::
  "fs \<Rightarrow> path \<Rightarrow> string \<Rightarrow> (string \<Rightarrow> string option) \<Rightarrow> string \<Rightarrow> string option result" where
  "validate_script_operand fs workspace missing validate script_operand =
     rbind (validate_workspace_operand fs workspace script_operand) (\<lambda>path_error.
       if path_error \<noteq> None then Inr path_error
       else rbind (resolve_workspace_path fs workspace script_operand) (\<lambda>script_path.
         if \<not> is_file fs script_path then Inr (Some (missing @ script_operand))
         else rbind (read_text fs script_path) (\<lambda>txt. Inr (validate txt))))"

definition validate_nested_bash_script :: "fs \<Rightarrow> path \<Rightarrow> string list \<Rightarrow> string option result" where
  "validate_nested_bash_script fs workspace argv =
     (case iter_operands (drop 1 argv) [] of
        [] \<Rightarrow> Inr (Some ''bash/sh requires a script path in this restricted runner'')
      | script_operand # _ \<Rightarrow>
          if script_operand \<in> {''-c'', ''--command''} \<or> list_ex (\<lambda>a. a \<in> {''-c'', ''--command''}) (drop 1 argv) then
            Inr (Some ''bash/sh -c is not allowed inside restricted bash; use the bash tool command field instead'')
          else validate_script_operand fs workspace ''bash script does not exist: ''
            validate_shell_script_path_operands script_operand)"

text \<open>The first \<open>-c\<close>: the code behind it (\<open>None\<close> when it is missing).\<close>

fun python_dash_c :: "string list \<Rightarrow> string option option" where
  "python_dash_c [] = None"
| "python_dash_c (argument # args) =
     (if argument = ''-c'' then Some (case args of [] \<Rightarrow> None | src # _ \<Rightarrow> Some src)
      else if starts_with argument ''-c'' \<and> length argument > 2 then Some (Some (drop 2 argument))
      else python_dash_c args)"

definition validate_python_command :: "fs \<Rightarrow> path \<Rightarrow> string list \<Rightarrow> string option result" where
  "validate_python_command fs workspace argv =
     (if list_ex (\<lambda>a. starts_with a ''-m'') (drop 1 argv) then
        Inr (Some ''python -m is not allowed inside restricted bash'')
      else case python_dash_c (drop 1 argv) of
        Some None \<Rightarrow> Inr (Some ''python -c requires code'')
      | Some (Some src) \<Rightarrow> Inr (validate_python_script_text src)
      | None \<Rightarrow>
          (case iter_operands (drop 1 argv) [] of
             [] \<Rightarrow> Inr (Some ''python requires a workspace script path in this restricted runner'')
           | script_operand # _ \<Rightarrow>
               if script_operand = ''-'' then
                 Inr (Some ''python stdin execution is only supported through python << EOF in the bash command field'')
               else validate_script_operand fs workspace ''python script does not exist: ''
                 validate_python_script_text script_operand))"

definition validate_bash_argv :: "fs \<Rightarrow> path \<Rightarrow> string list \<Rightarrow> string option result" where
  "validate_bash_argv fs workspace raw_argv =
     (if raw_argv = [] then Inr (Some ''empty command in pipeline'')
      else rbind (strip_output_redirections fs workspace [] raw_argv) (\<lambda>(argv, redirection_error).
        if redirection_error \<noteq> None then Inr redirection_error
        else if argv = [] then Inr (Some ''empty command after redirection parsing'')
        else if is_shell_assignment (hd argv) then Inr None
        else if hd argv \<notin> set bash_allowed_commands then
          Inr (Some (''command '' @ repr_string (hd argv) @ '' is not allowed. Allowed commands: '' @
            py_join '', '' (sort bash_allowed_commands)))
        else if hd argv \<in> {''bash'', ''sh''} then validate_nested_bash_script fs workspace argv
        else if hd argv \<in> {''python'', ''python3''} then validate_python_command fs workspace argv
        else if hd argv = ''set'' then Inr (validate_set_command argv)
        else validate_operands fs workspace (bash_path_operands argv)))"

definition validate_bash_segment :: "fs \<Rightarrow> path \<Rightarrow> string \<Rightarrow> string option result" where
  "validate_bash_segment fs workspace segment = (case split_bash_segment segment of
     Inl parse_exc \<Rightarrow> Inr (Some (''invalid command syntax: '' @ exc_text parse_exc))
   | Inr raw_argv \<Rightarrow> validate_bash_argv fs workspace raw_argv)"

fun pipeline_error :: "fs \<Rightarrow> path \<Rightarrow> string list \<Rightarrow> string list \<Rightarrow> string option result" where
  "pipeline_error fs workspace cmd [] = validate_bash_argv fs workspace cmd"
| "pipeline_error fs workspace cmd (token # tokens) =
     (if token = ''|'' then
        rbind (validate_bash_argv fs workspace cmd) (\<lambda>segment_error.
          if segment_error \<noteq> None then Inr segment_error else pipeline_error fs workspace [] tokens)
      else pipeline_error fs workspace (cmd @ [token]) tokens)"

definition validate_bash_pipeline :: "fs \<Rightarrow> path \<Rightarrow> string \<Rightarrow> string option result" where
  "validate_bash_pipeline fs workspace segment = (case split_bash_segment segment of
     Inl parse_exc \<Rightarrow> Inr (Some (''invalid command syntax: '' @ exc_text parse_exc))
   | Inr tokens \<Rightarrow>
       if tokens = [] then Inr None
       else if ''||'' \<in> set tokens then
         Inr (Some (''unsupported bash syntax '' @ repr_string ''||'' @ ''. Use separate commands instead''))
       else if hd tokens = ''|'' \<or> last tokens = ''|'' then Inr (Some ''empty command in pipeline'')
       else pipeline_error fs workspace [] tokens)"

subsection \<open>Inline Python\<close>

text \<open>The suffixes behind each newline of the text, the last newline first.\<close>

fun after_newlines :: "string \<Rightarrow> string list" where
  "after_newlines [] = []"
| "after_newlines (c # s) = after_newlines s @ (if c = newline then [s] else [])"

text \<open>
  The end \<open>(.*)\n\3\s*\<close> of the here-document pattern: the body, when the rest of the text closes with
  the line \<open>tag\<close>.
\<close>

definition heredoc_body :: "string \<Rightarrow> string \<Rightarrow> string option" where
  "heredoc_body tag rest =
     (let body = py_rstrip rest in
      if ends_with body (newline # tag) then Some (take (length body - length tag - 1) body) else None)"

definition parse_heredoc :: "string \<Rightarrow> (string \<times> string) option" where
  "parse_heredoc command_text =
     (let s0 = dropWhile is_space command_text;
          name = (if starts_with s0 ''python3'' then ''python3'' else ''python'');
          s1 = drop (length name) s0;
          s2 = dropWhile is_space s1;
          s3 = dropWhile is_space (drop 2 s2);
          quote = (if s3 \<noteq> '''' \<and> lex_quote (hd s3) then [hd s3] else '''');
          s4 = drop (length quote) s3;
          tag = takeWhile (\<lambda>c. is_ascii_letter c \<or> is_digit c \<or> c = CHR ''_'') s4;
          s5 = drop (length tag) s4;
          s6 = drop (length quote) s5;
          blanks = takeWhile is_space s6;
          rests = map (\<lambda>r. r @ dropWhile is_space s6) (after_newlines blanks)
      in if starts_with s0 name \<and> s1 \<noteq> '''' \<and> is_space (hd s1) \<and> starts_with s2 ''<<'' \<and>
            is_identifier tag \<and> starts_with s5 quote
         then map_option (Pair name) (first_some (heredoc_body tag) rests) else None)"

definition parse_python_inline_command :: "string \<Rightarrow> (string \<times> string) option" where
  "parse_python_inline_command command_text =
     (case parse_heredoc command_text of
        Some r \<Rightarrow> Some r
      | None \<Rightarrow> (case shlex_split command_text of
          Inr (name # args) \<Rightarrow>
            if name \<in> {''python'', ''python3''} then
              (case python_dash_c args of Some (Some src) \<Rightarrow> Some (name, src) | _ \<Rightarrow> None)
            else None
        | _ \<Rightarrow> None))"

subsection \<open>The accepted command texts\<close>

lemma cons_decomp:
  "(\<exists>u v. c # s = u @ p @ v \<and> P u v) \<longleftrightarrow>
   (\<exists>v. c # s = p @ v \<and> P [] v) \<or> (\<exists>u v. s = u @ p @ v \<and> P (c # u) v)"
proof
  assume "\<exists>u v. c # s = u @ p @ v \<and> P u v"
  then obtain u v where uv: "c # s = u @ p @ v" "P u v" by blast
  then show "(\<exists>v. c # s = p @ v \<and> P [] v) \<or> (\<exists>u v. s = u @ p @ v \<and> P (c # u) v)"
    by (cases u) auto
qed (metis append_Cons append_Nil)

lemma starts_with_iff: "starts_with s p \<longleftrightarrow> (\<exists>v. s = p @ v)"
  by (metis append_eq_conv_conj append_take_drop_id starts_with_def)

lemma lone_ampersand_iff:
  "lone_ampersand prev s \<longleftrightarrow>
     (\<exists>u v. s = u @ ''&'' @ v \<and> \<not> starts_with v ''&'' \<and> (if u = [] then \<not> prev else last u \<noteq> CHR ''&''))"
proof (induction prev s rule: lone_ampersand.induct)
  case (2 prev c s)
  then show ?case
    unfolding cons_decomp [of c s "''&''"] by (cases "c = CHR ''&''") auto
qed simp

lemma parent_here_iff:
  "parent_here s \<longleftrightarrow> (\<exists>v. s = ''..'' @ v \<and> (v = '''' \<or> v = [newline] \<or> starts_with v ''/''))"
  by (auto simp: parent_here_def starts_with_iff)

lemma parent_path_iff:
  "parent_path prev s \<longleftrightarrow>
     (\<exists>u v. s = u @ ''..'' @ v \<and> (v = '''' \<or> v = [newline] \<or> starts_with v ''/'') \<and>
            (if u = [] then \<not> prev else \<not> path_char (last u)))"
proof (induction prev s rule: parent_path.induct)
  case (2 prev c s)
  then show ?case
    unfolding cons_decomp [of c s "''..''"] by (auto simp: parent_here_iff)
qed simp

lemma py_in_iff: "py_in p s \<longleftrightarrow> sublist p s"
proof (induction s)
  case (Cons c s)
  have "py_in p (c # s) \<longleftrightarrow> prefix p (c # s) \<or> py_in p s"
    by (auto simp: py_in_def starts_with_iff prefix_def)
  then show ?case using Cons.IH by (simp add: sublist_Cons_right)
qed (simp add: py_in_def)

lemma find_None_iff': "List.find P xs = None \<longleftrightarrow> list_all (\<lambda>x. \<not> P x) xs"
  by (induction xs) auto

text \<open>
  C9. The bash gate accepts exactly the texts that are not blank, in which no ampersand stands alone,
  without back-tick and process substitution, and in which (with continued lines joined) no \<open>..\<close> that
  begins a path word is followed by a slash or the end of the text.
\<close>

theorem bash_text_accepted_iff:
  "validate_bash_text txt = None \<longleftrightarrow>
     py_strip txt \<noteq> '''' \<and>
     (\<nexists>u v. txt = u @ ''&'' @ v \<and> \<not> starts_with v ''&'' \<and> (u = [] \<or> last u \<noteq> CHR ''&'')) \<and>
     \<not> sublist ''`'' txt \<and> \<not> sublist ''<('' txt \<and> \<not> sublist ''>('' txt \<and>
     (\<nexists>u v. py_replace [CHR 0x5C, newline] '' '' txt = u @ ''..'' @ v \<and>
        (v = '''' \<or> v = [newline] \<or> starts_with v ''/'') \<and> (u = [] \<or> \<not> path_char (last u)))"
proof -
  have amp: "lone_ampersand False txt \<longleftrightarrow>
      (\<exists>u v. txt = u @ ''&'' @ v \<and> \<not> starts_with v ''&'' \<and> (u = [] \<or> last u \<noteq> CHR ''&''))"
    unfolding lone_ampersand_iff by (intro ex_cong1) auto
  have par: "parent_path False s \<longleftrightarrow>
      (\<exists>u v. s = u @ ''..'' @ v \<and> (v = '''' \<or> v = [newline] \<or> starts_with v ''/'') \<and> (u = [] \<or> \<not> path_char (last u)))" for s
    unfolding parent_path_iff by (intro ex_cong1) auto
  have "validate_bash_text txt = None \<longleftrightarrow> py_strip txt \<noteq> '''' \<and> \<not> lone_ampersand False txt \<and>
      List.find (\<lambda>token. py_in token txt) unsupported_tokens = None \<and>
      \<not> parent_path False (py_replace [CHR 0x5C, newline] '' '' txt)"
    by (auto simp: validate_bash_text_def validate_unsupported_bash_syntax_def split: option.splits)
  then show ?thesis
    unfolding find_None_iff' amp par by (simp add: unsupported_tokens_def py_in_iff)
qed

lemma validate_bash_text_None:
  "validate_bash_text txt = None \<longleftrightarrow> py_strip txt \<noteq> '''' \<and> \<not> lone_ampersand False txt \<and>
     list_all (\<lambda>token. \<not> py_in token txt) unsupported_tokens \<and>
     \<not> parent_path False (py_replace [CHR 0x5C, newline] '' '' txt)"
  by (auto simp: validate_bash_text_def validate_unsupported_bash_syntax_def find_None_iff' [symmetric] split: option.splits)

lemma lone_ampersand_mem: "lone_ampersand prev s \<Longrightarrow> CHR ''&'' \<in> set s"
  by (auto simp: lone_ampersand_iff)

lemma parent_path_mem: "parent_path prev s \<Longrightarrow> CHR ''.'' \<in> set s"
  by (auto simp: parent_path_iff)

lemma py_in_mem: "py_in p s \<Longrightarrow> set p \<subseteq> set s"
  by (simp add: py_in_iff set_mono_sublist)

lemma py_replace_Cons:
  assumes "p \<noteq> ''''" "c \<noteq> hd p"
  shows "py_replace p new (c # s) = c # py_replace p new s"
proof -
  have "\<not> starts_with (c # s) p" using assms by (cases p) (auto simp: starts_with_def)
  then have f: "py_find (c # s) p = map_option Suc (py_find s p)" by simp
  show ?thesis
  proof (cases "py_find s p")
    case None
    then have "py_find (c # s) p = None" by (simp only: f option.map)
    then show ?thesis using None by (simp add: py_replace_def py_join_def py_split_None del: py_find.simps)
  next
    case (Some i)
    then have "py_find (c # s) p = Some (Suc i)" by (simp only: f option.map)
    then show ?thesis using Some by (simp add: py_replace_def py_join_def py_split_Some assms del: py_find.simps)
  qed
qed

lemma py_split_set: "sep \<noteq> '''' \<Longrightarrow> q \<in> set (py_split sep s) \<Longrightarrow> set q \<subseteq> set s"
proof (induction sep s rule: py_split.induct)
  case (1 sep s)
  show ?case
  proof (cases "py_find s sep")
    case (Some i)
    then have "q = take i s \<or> q \<in> set (py_split sep (drop (i + length sep) s))"
      using 1 by (simp add: py_split_Some)
    then show ?thesis using 1 Some set_take_subset [of i s] set_drop_subset [of "i + length sep" s] by blast
  qed (use 1 in \<open>simp add: py_split_None\<close>)
qed

lemma py_replace_set: "p \<noteq> '''' \<Longrightarrow> set (py_replace p new s) \<subseteq> set s \<union> set new"
  using py_split_set [of p _ s]
  by (cases "py_split p s") (auto simp: py_replace_def py_join_def)

text \<open>
  The gate has no list of commands and overlooks \<open>..\<close> in front of a separator: every command text
  without the characters ampersand, back-tick, angle bracket and full stop is accepted, whatever program it
  names and whatever absolute path it contains, also behind \<open>cd ..;\<close>, which leaves the workspace.  The
  command validator, which the tool does not call, rejects a program outside its list.
\<close>

theorem bash_gate_open:
  assumes plain: "set cmd \<inter> {CHR ''&'', CHR 0x60, CHR ''<'', CHR ''>'', CHR ''.''} = {}"
    and some: "py_strip cmd \<noteq> ''''"
    and word: "split_bash_segment cmd = Inr (name # args)"
    and foreign: "name \<notin> set bash_allowed_commands" "\<not> is_shell_assignment name"
      "set (name # args) \<inter> set (output_redirections @ input_redirections) = {}"
  shows "validate_bash_text cmd = None \<and> validate_bash_text (''cd ..; '' @ cmd) = None \<and>
    (\<exists>err. validate_bash_segment fs ws cmd = Inr (Some err))"
proof (intro conjI)
  have amp: "\<not> lone_ampersand False s" if "CHR ''&'' \<notin> set s" for s using that lone_ampersand_mem by blast
  have tok: "list_all (\<lambda>token. \<not> py_in token s) unsupported_tokens" if "set s \<inter> {CHR 0x60, CHR ''<'', CHR ''>''} = {}" for s
    using that py_in_mem [of _ s] by (fastforce simp: unsupported_tokens_def)
  have dot: "CHR ''.'' \<notin> set (py_replace [CHR 0x5C, newline] '' '' cmd)"
    using py_replace_set [of "[CHR 0x5C, newline]" "'' ''" cmd] plain by auto
  show "validate_bash_text cmd = None"
    unfolding validate_bash_text_None using plain some amp tok dot parent_path_mem by auto
  have strip: "py_strip (CHR ''c'' # s) \<noteq> ''''" for s
  proof -
    have "CHR ''c'' \<in> set (py_strip (CHR ''c'' # s))"
      unfolding py_strip_def py_lstrip_def py_rstrip_def
      by (simp add: is_space_def code_def dropWhile_append)
    then show ?thesis by auto
  qed
  show "validate_bash_text (''cd ..; '' @ cmd) = None"
    unfolding validate_bash_text_None
    using plain strip amp [of "''cd ..; '' @ cmd"] tok [of "''cd ..; '' @ cmd"] dot parent_path_mem
    by (auto simp: py_replace_Cons parent_here_def starts_with_def newline_def)
  have red: "strip_output_redirections fs ws acc toks = Inr (acc @ toks, None)"
    if "set toks \<inter> set (output_redirections @ input_redirections) = {}" for acc toks
    using that by (induction toks arbitrary: acc) auto
  show "\<exists>err. validate_bash_segment fs ws cmd = Inr (Some err)"
    using foreign red [of "name # args" "[]"]
    by (simp add: validate_bash_segment_def word validate_bash_argv_def del: strip_output_redirections.simps) 
qed

subsection \<open>Accepted commands stay inside the workspace\<close>

definition inside :: "fs \<Rightarrow> path \<Rightarrow> string \<Rightarrow> bool" where
  "inside fs workspace operand \<longleftrightarrow> operand \<in> {'''', ''-''} \<or>
     (\<not> starts_with operand ''~'' \<and>
      (\<exists>w p. resolve fs workspace = Inr w \<and> prefix w p \<and>
         resolve fs (if is_absolute operand then path_parts operand else workspace @ path_parts operand) = Inr p))"

text \<open>The words of a command and the files it redirects to or from.\<close>

fun command_words :: "string list \<Rightarrow> string list" where
  "command_words [] = []"
| "command_words (token # rest) =
     (if token \<in> set output_redirections \<or> token \<in> set input_redirections then command_words (drop 1 rest)
      else token # command_words rest)"

fun redirections :: "string list \<Rightarrow> string list" where
  "redirections [] = []"
| "redirections (token # rest) =
     (if token \<in> set output_redirections then take 1 rest @ redirections (drop 1 rest)
      else if token \<in> set input_redirections then
        (if token = ''<'' then take 1 rest else []) @ redirections (drop 1 rest)
      else redirections rest)"

lemma validate_workspace_operand_None:
  "validate_workspace_operand fs ws operand = Inr None \<longleftrightarrow> inside fs ws operand"
  by (auto simp: validate_workspace_operand_def inside_def rbind_Inr_iff split: if_splits)

lemma validate_operands_None: "validate_operands fs ws operands = Inr None \<longleftrightarrow> list_all (inside fs ws) operands"
  by (induction operands) (auto simp: rbind_Inr_iff validate_workspace_operand_None split: if_splits)

lemma strip_output_redirections_spec:
  "strip_output_redirections fs ws stripped raw = Inr (argv, None) \<Longrightarrow>
     argv = stripped @ command_words raw \<and> list_all (inside fs ws) (redirections raw)"
proof (induction fs ws stripped raw rule: strip_output_redirections.induct)
  case (2 fs ws stripped token rest)
  then show ?case
    by (cases rest) (auto simp: rbind_Inr_iff validate_workspace_operand_None split: if_split_asm)
qed simp

text \<open>
  A command segment that the command validator accepts names a program of the allowed list (or is
  an assignment), every file it redirects to or from resolves inside the workspace, and so does every
  path operand of a program that is neither a shell, an interpreter nor \<open>set\<close>.
\<close>

theorem accepted_segment_inside:
  assumes acc: "validate_bash_segment fs ws segment = Inr None"
    and toks: "split_bash_segment segment = Inr raw"
  shows "list_all (inside fs ws) (redirections raw) \<and> command_words raw \<noteq> [] \<and>
    (is_shell_assignment (hd (command_words raw)) \<or>
     hd (command_words raw) \<in> {''bash'', ''sh'', ''python'', ''python3'', ''set''} \<or>
     hd (command_words raw) \<in> set bash_allowed_commands \<and>
     list_all (inside fs ws) (bash_path_operands (command_words raw)))"
proof -
  from acc toks have v: "validate_bash_argv fs ws raw = Inr None" by (simp add: validate_bash_segment_def)
  then obtain argv where s: "strip_output_redirections fs ws [] raw = Inr (argv, None)" and ne: "argv \<noteq> []"
    and w: "is_shell_assignment (hd argv) \<or> hd argv \<in> {''bash'', ''sh'', ''python'', ''python3'', ''set''} \<or>
      hd argv \<in> set bash_allowed_commands \<and> validate_operands fs ws (bash_path_operands argv) = Inr None"
    unfolding validate_bash_argv_def by (auto simp: rbind_Inr_iff simp del: strip_output_redirections.simps split: if_split_asm)
  from strip_output_redirections_spec [OF s] ne w show ?thesis by (simp add: validate_operands_None)
qed

lemma bash_text_accepted_iff_witness:
  "validate_bash_text ''ls x..y && cat z'' = None \<and> \<not> sublist ''`'' ''ls x..y && cat z'' \<and>
   validate_bash_text ''cat a/../b'' \<noteq> None"
proof -
  have "validate_bash_text ''ls x..y && cat z'' = None" "validate_bash_text ''cat a/../b'' \<noteq> None" by code_simp+
  then show ?thesis using bash_text_accepted_iff [of "''ls x..y && cat z''"] by blast
qed

lemma bash_gate_open_witness:
  "validate_bash_text ''curl http://evil/x'' = None \<and> validate_bash_text (''cd ..; '' @ ''curl http://evil/x'') = None"
proof -
  have "py_strip ''curl http://evil/x'' \<noteq> ''''" "split_bash_segment ''curl http://evil/x'' = Inr [''curl'', ''http://evil/x'']"
    "''curl'' \<notin> set bash_allowed_commands" "\<not> is_shell_assignment ''curl''"
    "set [''curl'', ''http://evil/x''] \<inter> set (output_redirections @ input_redirections) = {}"
    "set ''curl http://evil/x'' \<inter> {CHR ''&'', CHR 0x60, CHR ''<'', CHR ''>'', CHR ''.''} = {}"
    by code_simp+
  then show ?thesis using bash_gate_open [of "''curl http://evil/x''" "''curl''" "[''http://evil/x'']"] by blast
qed

lemma accepted_segment_inside_witness:
  "list_all (inside example_fs example_ws) (bash_path_operands [''cat'', ''a.txt'']) \<and>
   inside example_fs example_ws ''log'' \<and> \<not> inside example_fs example_ws ''out/passwd''"
proof -
  have v: "validate_bash_segment example_fs example_ws ''cat a.txt>log'' = Inr None"
    "split_bash_segment ''cat a.txt>log'' = Inr [''cat'', ''a.txt'', ''>'', ''log'']" by code_simp+
  have w: "command_words [''cat'', ''a.txt'', ''>'', ''log''] = [''cat'', ''a.txt'']"
    "redirections [''cat'', ''a.txt'', ''>'', ''log''] = [''log'']"
    "\<not> is_shell_assignment ''cat''" "''cat'' \<notin> {''bash'', ''sh'', ''python'', ''python3'', ''set''}" by code_simp+
  have "\<not> inside example_fs example_ws ''out/passwd''"
    unfolding validate_workspace_operand_None [symmetric] by code_simp
  with accepted_segment_inside [OF v] w show ?thesis by simp
qed

end
