(* ===== verification/BashRun.thy ===== *)
theory BashRun
  imports BashGuard
begin

text \<open>
  Running commands in the workspace: the environment of a child process, the temporary scripts and
  their removal, and the answers of the \<open>bash\<close> tool.  The operating system is the field \<open>launch\<close> of
  \<open>host\<close>: it maps a command and a file system to the outcome and the new file system.
\<close>

subsection \<open>Running processes in the workspace\<close>

datatype process = Completed int string string | TimedOut string string

text \<open>
  The surroundings of a call: \<open>os.environ\<close>, the text of \<open>VERIFIER_SITECUSTOMIZE\<close>, the operating
  system that runs a command (arguments, working directory, environment, timeout) on the file system,
  and the \<open>:g\<close> format of numbers.
\<close>

record host =
  environ :: "(string, string) dict"
  sitecustomize :: string
  launch :: "string list \<Rightarrow> path \<Rightarrow> (string, string) dict \<Rightarrow> rat \<Rightarrow> fs \<Rightarrow> process result \<times> fs"
  format_g :: "rat \<Rightarrow> string"

definition mkdir_exist_ok :: "fs \<Rightarrow> path \<Rightarrow> fs result" where
  "mkdir_exist_ok fs p = (if is_dir fs p then Inr fs else mkdir_parents fs p)"

definition ensure_verifier_sitecustomize :: "host \<Rightarrow> fs \<Rightarrow> path \<Rightarrow> path result \<times> fs" where
  "ensure_verifier_sitecustomize h fs workspace =
     keep fs (resolve fs workspace) (\<lambda>workspace_resolved.
       let patch_dir = workspace_resolved @ [''.nanoclaw_python_patch''];
           sitecustomize_path = patch_dir @ [''sitecustomize.py'']
       in keep fs (mkdir_exist_ok fs patch_dir) (\<lambda>fs1.
            if stat_node fs1 sitecustomize_path \<noteq> None then (Inr patch_dir, fs1)
            else keep fs1 (write_text fs1 sitecustomize_path (sitecustomize h)) (\<lambda>fs2. (Inr patch_dir, fs2))))"

text \<open>The environment before and after the patch directory is known.\<close>

definition base_env :: "host \<Rightarrow> path \<Rightarrow> (string, string) dict" where
  "base_env h workspace_resolved =
     (let home_dir = workspace_resolved @ [''.runner_home''];
          tmp_dir = workspace_resolved @ [''.runner_tmp'']
      in dict_update (dict_pop (dict_pop (environ h) ''BASH_ENV'') ''ENV'')
           [(''HOME'', full_path home_dir), (''TMPDIR'', full_path tmp_dir), (''TEMP'', full_path tmp_dir),
            (''TMP'', full_path tmp_dir), (''PWD'', full_path workspace_resolved), (''PYTHONNOUSERSITE'', ''1''),
            (''NANOCLAW_WORKSPACE'', full_path workspace_resolved)])"

definition patched_env :: "(string, string) dict \<Rightarrow> path \<Rightarrow> (string, string) dict" where
  "patched_env env patch_dir =
     (let old = dict_get_default env ''PYTHONPATH'' '''';
          env1 = dict_set env ''PYTHONPATH'' (if old \<noteq> '''' then full_path patch_dir @ '':'' @ old else full_path patch_dir)
      in dict_setdefault (dict_setdefault env1 ''NANOCLAW_FORCE_NO_THINKING'' ''1'') ''NANOCLAW_FORCE_MAX_TOKENS'' ''50'')"

definition workspace_subprocess_env :: "host \<Rightarrow> fs \<Rightarrow> path \<Rightarrow> (string, string) dict result \<times> fs" where
  "workspace_subprocess_env h fs workspace =
     keep fs (resolve fs workspace) (\<lambda>workspace_resolved.
     keep fs (mkdir_exist_ok fs (workspace_resolved @ [''.runner_home''])) (\<lambda>fs1.
     keep fs1 (mkdir_exist_ok fs1 (workspace_resolved @ [''.runner_tmp''])) (\<lambda>fs2.
       case ensure_verifier_sitecustomize h fs2 workspace_resolved of
         (Inl e, fs3) \<Rightarrow> (Inl e, fs3)
       | (Inr patch_dir, fs3) \<Rightarrow> (Inr (patched_env (base_env h workspace_resolved) patch_dir), fs3))))"

definition format_process_output :: "string \<Rightarrow> string \<Rightarrow> string" where
  "format_process_output out err =
     (let parts = (if py_strip out \<noteq> '''' then [py_strip out] else []) @
                  (if py_strip err \<noteq> '''' then [''[stderr]'' @ [newline] @ py_strip err] else [])
      in if parts = [] then ''(no output)'' else py_join [newline, newline] parts)"

definition is_nonfatal_grep_no_match :: "int \<Rightarrow> string \<Rightarrow> string \<Rightarrow> bool" where
  "is_nonfatal_grep_no_match returncode command_text err \<longleftrightarrow>
     returncode = 1 \<and> py_in ''grep'' command_text \<and> py_strip err = ''''"

definition max_bash_output_chars :: nat where
  "max_bash_output_chars = 8000"

definition process_answer :: "host \<Rightarrow> string \<Rightarrow> rat \<Rightarrow> (int \<Rightarrow> string \<Rightarrow> bool) \<Rightarrow> process \<Rightarrow> string" where
  "process_answer h program timeout nonfatal p = (case p of
     TimedOut out err \<Rightarrow> ''Error: '' @ program @ '' timed out after '' @ format_g h timeout @ ''s'' @ [newline] @
       format_process_output out err
   | Completed returncode out err \<Rightarrow>
       (let full = format_process_output out err;
            output = (if length full > max_bash_output_chars
                      then take max_bash_output_chars full @ [newline] @ ''...(truncated)'' else full)
        in if returncode = 0 \<or> nonfatal returncode err then output
           else ''Error: '' @ program @ '' exited with code '' @ int_str returncode @ [newline] @ output))"

text \<open>\<open>subprocess.run\<close> in the workspace, with its environment prepared first.\<close>

definition run_in_workspace :: "host \<Rightarrow> fs \<Rightarrow> path \<Rightarrow> string list \<Rightarrow> rat \<Rightarrow> process result \<times> fs" where
  "run_in_workspace h fs workspace argv timeout =
     (case workspace_subprocess_env h fs workspace of
        (Inl e, fs1) \<Rightarrow> (Inl e, fs1)
      | (Inr env, fs1) \<Rightarrow> launch h argv workspace env timeout fs1)"

text \<open>\<open>unlink\<close> removes the entry itself, also a link; directories cannot be unlinked.\<close>

definition unlink :: "fs \<Rightarrow> path \<Rightarrow> fs result" where
  "unlink fs p = rbind (resolve fs (butlast p)) (\<lambda>parent.
     let q = parent @ [last p] in
     case (fs_node fs parent, dict_get fs q) of
       (Some Dir, Some Dir) \<Rightarrow> Inl (IsADirectoryError (os_error 21 ''Is a directory'' p))
     | (Some Dir, Some _) \<Rightarrow> Inr (dict_pop fs q)
     | (Some (File _), _) \<Rightarrow> Inl (NotADirectoryError (os_error 20 ''Not a directory'' p))
     | _ \<Rightarrow> Inl (FileNotFoundError (os_error 2 ''No such file or directory'' p)))"

text \<open>The \<open>finally\<close> block: a file that is already gone is no error, any other failure replaces the result.\<close>

definition finally_unlink :: "path \<Rightarrow> 'a result \<times> fs \<Rightarrow> 'a result \<times> fs" where
  "finally_unlink p r = (case unlink (snd r) p of
     Inr fs \<Rightarrow> (fst r, fs)
   | Inl (FileNotFoundError _) \<Rightarrow> r
   | Inl e \<Rightarrow> (Inl e, snd r))"

definition temp_python_name :: "string \<Rightarrow> string" where
  "temp_python_name uuid = ''.verl_nanoclaw_python_'' @ uuid @ ''.py''"

definition temp_bash_name :: "string \<Rightarrow> string" where
  "temp_bash_name uuid = ''.verl_nanoclaw_bash_'' @ uuid @ ''.sh''"

definition execute_python_code ::
  "host \<Rightarrow> string \<Rightarrow> fs \<Rightarrow> path \<Rightarrow> string \<Rightarrow> string \<Rightarrow> rat \<Rightarrow> string result \<times> fs" where
  "execute_python_code h uuid fs workspace python_executable src timeout =
     (case validate_python_script_text src of
        Some validation_error \<Rightarrow> (Inr (''Error: unsafe python code: '' @ validation_error), fs)
      | None \<Rightarrow>
          (let name = temp_python_name uuid in
           keep fs (write_text fs (workspace @ [name]) src) (\<lambda>fs1.
             map_prod (map_sum id (process_answer h ''python'' timeout (\<lambda>returncode err. False))) id
               (finally_unlink (workspace @ [name])
                 (run_in_workspace h fs1 workspace [python_executable, name] timeout)))))"

text \<open>A missing argument is \<open>None\<close>; an argument counts as given when it is not blank.\<close>

definition given :: "string option \<Rightarrow> bool" where
  "given arg \<longleftrightarrow> (case arg of None \<Rightarrow> False | Some s \<Rightarrow> py_strip s \<noteq> '''')"

definition has_suffix_py :: "path \<Rightarrow> bool" where
  "has_suffix_py p \<longleftrightarrow> p \<noteq> [] \<and> ends_with (last p) ''.py'' \<and> length (last p) > 3"

definition first_text :: "string option list \<Rightarrow> string" where
  "first_text args = (case List.find (\<lambda>arg. arg \<noteq> None \<and> arg \<noteq> Some '''') args of Some (Some s) \<Rightarrow> s | _ \<Rightarrow> '''')"

definition bash_answer :: "host \<Rightarrow> rat \<Rightarrow> string \<Rightarrow> process result \<times> fs \<Rightarrow> string result \<times> fs" where
  "bash_answer h timeout command_text_for_status =
     map_prod (map_sum id (process_answer h ''bash'' timeout
       (\<lambda>returncode err. is_nonfatal_grep_no_match returncode command_text_for_status err))) id"

definition execute_bash ::
  "host \<Rightarrow> string \<Rightarrow> fs \<Rightarrow> path \<Rightarrow> string option \<Rightarrow> string option \<Rightarrow> string option \<Rightarrow> rat \<Rightarrow> string result \<times> fs" where
  "execute_bash h uuid fs workspace cmd script script_path timeout =
     (if length (filter given [cmd, script, script_path]) \<noteq> 1 then
        (Inr ''Error: provide exactly one of command, script, or path for bash execution.'', fs)
      else let status = first_text [cmd, script, script_path];
               bash = [''bash'', ''--noprofile'', ''--norc''] in
      if given script then
        (case validate_bash_text (the script) of
           Some validation_error \<Rightarrow> (Inr validation_error, fs)
         | None \<Rightarrow>
             (let name = temp_bash_name uuid;
                  temp_script_path = workspace @ [name]
              in bash_answer h timeout status (finally_unlink temp_script_path
                   (keep fs (write_text fs temp_script_path (the script)) (\<lambda>fs1.
                      run_in_workspace h fs1 workspace (bash @ [name]) timeout)))))
      else if given script_path then
        keep fs (resolve_workspace_path fs workspace (the script_path)) (\<lambda>p.
          if \<not> is_file fs p then (Inr (''Error: bash script does not exist: '' @ the script_path), fs)
          else keep fs (read_text fs p) (\<lambda>script_content.
            if has_suffix_py p then
              (case validate_python_script_text script_content of
                 Some validation_error \<Rightarrow> (Inr (''Error: unsafe python script: '' @ validation_error), fs)
               | None \<Rightarrow> bash_answer h timeout status (run_in_workspace h fs workspace [''python3'', the script_path] timeout))
            else
              (case validate_shell_script_path_operands script_content of
                 Some validation_error \<Rightarrow> (Inr validation_error, fs)
               | None \<Rightarrow> bash_answer h timeout status
                   (run_in_workspace h fs workspace (bash @ [the script_path]) timeout))))
      else
        (case parse_python_inline_command (the cmd) of
           Some (python_executable, src) \<Rightarrow> execute_python_code h uuid fs workspace python_executable src timeout
         | None \<Rightarrow>
             (case validate_bash_text (the cmd) of
                Some validation_error \<Rightarrow> (Inr validation_error, fs)
              | None \<Rightarrow> bash_answer h timeout status
                  (run_in_workspace h fs workspace (bash @ [''-c'', the cmd]) timeout))))"

subsection \<open>Commands whose processes stay inside keep everything inside\<close>

definition calm :: "path \<Rightarrow> path \<Rightarrow> fs \<Rightarrow> bool" where
  "calm ws w fs \<longleftrightarrow> ready fs ws w \<and> (\<forall>q. strict_prefix w q \<longrightarrow> \<not> is_link fs q)"

lemma confined_calm: "confined ws w fs fs' \<Longrightarrow> calm ws w fs \<Longrightarrow> calm ws w fs'"
  by (auto simp: calm_def confined_def same_links_is_link)

lemma calm_ready: "calm ws w fs \<Longrightarrow> ready fs ws w"
  by (simp add: calm_def)

lemma calm_plain:
  assumes "calm ws w fs" "''..'' \<notin> set cs"
  shows "plain fs (w @ cs)"
proof -
  have w: "plain fs w" using assms(1) by (auto simp: calm_def ready_def resolve_plain)
  have "dict_get fs q \<noteq> Some (Link t)" if q: "prefix q (w @ cs)" for q t
  proof (cases "prefix q w")
    case False
    then have "strict_prefix w q" using q by (auto simp: prefix_append strict_prefix_def)
    then show ?thesis using assms(1) by (auto simp: calm_def is_link_def)
  qed (use w in \<open>auto simp: plain_def\<close>)
  then show ?thesis using w assms(2) by (auto simp: plain_def)
qed

lemma calm_resolve: "calm ws w fs \<Longrightarrow> resolve fs w = Inr w"
  using calm_plain [of ws w fs "[]"] resolve_of_plain by simp

lemma ready_self: "ready fs ws w \<Longrightarrow> ready fs w w"
  using resolve_idem by (auto simp: ready_def)

lemma keep_calm:
  assumes "calm ws w fs" "\<And>x. r = Inr x \<Longrightarrow> confined ws w fs (snd (f x))"
  shows "confined ws w fs (snd (keep fs r f))"
  using assms calm_ready keep_confined by blast

text \<open>The two forms of a step: the resolved workspace, and a changed file system.\<close>

lemma keep_resolve:
  assumes "calm ws w fs" "confined ws w fs (snd (f w))"
  shows "confined ws w fs (snd (keep fs (resolve fs ws) f))" "confined ws w fs (snd (keep fs (resolve fs w) f))"
  using assms calm_resolve [OF assms(1)] by (auto simp: keep_def calm_def ready_def)

lemma keep_change:
  assumes "calm ws w fs" "\<And>fs1. r = Inr fs1 \<Longrightarrow> confined ws w fs fs1"
    "\<And>fs1. calm ws w fs1 \<Longrightarrow> confined ws w fs1 (snd (f fs1))"
  shows "confined ws w fs (snd (keep fs r f))"
proof (rule keep_calm [OF assms(1)])
  fix fs1 assume "r = Inr fs1"
  then have "confined ws w fs fs1" by (rule assms(2))
  with assms(1,3) show "confined ws w fs (snd (f fs1))" using confined_calm confined_trans by blast
qed

lemma calm_refl: "calm ws w fs \<Longrightarrow> snd y = fs \<Longrightarrow> confined ws w fs (snd y)"
  by (simp add: calm_def confined_refl)

lemma mkdir_exist_ok_confined:
  assumes c: "calm ws w fs" and cs: "''..'' \<notin> set cs" and m: "mkdir_exist_ok fs (w @ cs) = Inr fs'"
  shows "confined ws w fs fs'"
proof (cases "is_dir fs (w @ cs)")
  case False
  then show ?thesis
    using mkdir_confined [OF calm_ready [OF c] calm_plain [OF c cs]] m by (auto simp: mkdir_exist_ok_def)
qed (use c m in \<open>auto simp: mkdir_exist_ok_def calm_ready intro: confined_refl\<close>)

lemma calm_write:
  "calm ws w fs \<Longrightarrow> ''..'' \<notin> set cs \<Longrightarrow> write_text fs (w @ cs) c = Inr fs' \<Longrightarrow> confined ws w fs fs'"
  using write_text_confined [OF calm_ready calm_plain] by simp

lemma ensure_verifier_sitecustomize_confined:
  assumes c: "calm ws w fs"
  shows "confined ws w fs (snd (ensure_verifier_sitecustomize h fs w))"
  unfolding ensure_verifier_sitecustomize_def Let_def
proof (intro keep_resolve(2) keep_change c)
  fix fs1 assume "mkdir_exist_ok fs (w @ [''.nanoclaw_python_patch'']) = Inr fs1"
  then show "confined ws w fs fs1" by (rule mkdir_exist_ok_confined [OF c, rotated]) simp
next
  fix fs1 :: fs assume c1: "calm ws w fs1"
  show "confined ws w fs1 (snd (if stat_node fs1 ((w @ [''.nanoclaw_python_patch'']) @ [''sitecustomize.py'']) \<noteq> None
      then (Inr (w @ [''.nanoclaw_python_patch'']), fs1)
      else keep fs1 (write_text fs1 ((w @ [''.nanoclaw_python_patch'']) @ [''sitecustomize.py'']) (sitecustomize h))
        (\<lambda>fs2. (Inr (w @ [''.nanoclaw_python_patch'']), fs2))))"
    using calm_write [OF c1, of "[''.nanoclaw_python_patch'', ''sitecustomize.py'']"]
    by (intro if_confined calm_ready [OF c1] keep_change [OF c1] calm_refl) auto
qed

lemma workspace_subprocess_env_confined:
  assumes c: "calm ws w fs"
  shows "confined ws w fs (snd (workspace_subprocess_env h fs ws))"
  unfolding workspace_subprocess_env_def Let_def
proof (intro keep_resolve(1) keep_change c)
  fix fs1 assume "mkdir_exist_ok fs (w @ [''.runner_home'']) = Inr fs1"
  then show "confined ws w fs fs1" by (rule mkdir_exist_ok_confined [OF c, rotated]) simp
next
  fix fs1 fs2 assume "calm ws w fs1" "mkdir_exist_ok fs1 (w @ [''.runner_tmp'']) = Inr fs2"
  then show "confined ws w fs1 fs2" by (intro mkdir_exist_ok_confined [of ws w fs1]) simp_all
next
  fix fs2 :: fs assume "calm ws w fs2"
  from ensure_verifier_sitecustomize_confined [OF this, of h]
  show "confined ws w fs2 (snd (case ensure_verifier_sitecustomize h fs2 w of
        (Inl e, fs3) \<Rightarrow> (Inl e, fs3) | (Inr patch_dir, fs3) \<Rightarrow> (g patch_dir, fs3)))" for g
    by (auto split: prod.splits sum.splits)
qed

text \<open>A host whose processes stay inside a workspace they find without links out of it.\<close>

definition host_confined :: "host \<Rightarrow> path \<Rightarrow> path \<Rightarrow> bool" where
  "host_confined h ws w \<longleftrightarrow>
     (\<forall>argv env timeout fs. calm ws w fs \<longrightarrow> confined ws w fs (snd (launch h argv ws env timeout fs)))"

lemma run_in_workspace_confined:
  assumes "calm ws w fs" "host_confined h ws w"
  shows "confined ws w fs (snd (run_in_workspace h fs ws argv timeout))"
  using workspace_subprocess_env_confined [OF assms(1), of h] confined_calm [OF _ assms(1)] assms(2)
  by (force simp: run_in_workspace_def host_confined_def split: prod.splits sum.splits intro: confined_trans)

lemma walk_append: "walk fs active cur (cs @ ds) = rbind (walk fs active cur cs) (\<lambda>q. walk fs active q ds)"
proof (induction active cur cs rule: walk_cases_induct [where fs = fs])
  case (up active cur cs)
  then show ?case by (simp add: walk_up del: walk.simps)
next
  case (step active cur c cs)
  then show ?case by (simp add: walk_step del: walk.simps)
next
  case (link active cur c cs t)
  show ?case
    by (cases "walk fs ((cur @ [c]) # active) (if is_absolute t then [] else cur) (path_parts t)")
      (use link in \<open>auto simp: walk_link simp del: walk.simps\<close>)
qed (simp add: walk_Nil)

lemma fs_ok_pop:
  assumes ok: "fs_ok fs" and leaf: "dict_get fs q \<noteq> Some Dir" "q \<noteq> []"
  shows "fs_ok (dict_pop fs q)"
proof -
  have node: "fs_node fs q \<noteq> Some Dir" using leaf by (simp add: fs_node_def)
  have "fs_node (dict_pop fs q) (butlast p) = Some Dir" if "dict_get fs p = Some x" for p x
  proof -
    have d: "fs_node fs (butlast p) = Some Dir" using ok that by (auto simp: fs_ok_def)
    then have "butlast p \<noteq> q" using node by auto
    then show ?thesis using d by (auto simp: fs_node_def)
  qed
  then show ?thesis using ok by (auto simp: fs_ok_def split: if_split_asm)
qed

lemma unlink_spec:
  assumes c: "calm ws w fs" and u: "unlink fs (ws @ [name]) = r"
  shows "r = (case dict_get fs (w @ [name]) of
      None \<Rightarrow> Inl (FileNotFoundError (os_error 2 ''No such file or directory'' (ws @ [name])))
    | Some Dir \<Rightarrow> Inl (IsADirectoryError (os_error 21 ''Is a directory'' (ws @ [name])))
    | _ \<Rightarrow> Inr (dict_pop fs (w @ [name])))"
  using c u by (auto simp: unlink_def calm_def ready_def split: option.splits node.splits)

lemma unlink_confined:
  assumes c: "calm ws w fs" and u: "unlink fs (ws @ [name]) = Inr fs'"
  shows "confined ws w fs fs' \<and> dict_get fs' (w @ [name]) = None"
proof -
  from unlink_spec [OF c u] have f: "fs' = dict_pop fs (w @ [name])"
    and nd: "dict_get fs (w @ [name]) \<noteq> Some Dir" "dict_get fs (w @ [name]) \<noteq> None"
    by (auto split: option.splits node.splits)
  have r: "fs_ok fs" "resolve fs ws = Inr w" "fs_node fs w = Some Dir" using c by (auto simp: calm_def ready_def)
  have nl: "\<not> is_link fs (w @ [name])" using c by (simp add: calm_def strict_prefix_def)
  have sl: "same_links fs fs'" using nl by (auto simp: f same_links_def is_link_def)
  have "fs_ok fs'" unfolding f using r nd by (intro fs_ok_pop) auto
  moreover have "fs_node fs' w = Some Dir" using r by (auto simp: f fs_node_def)
  ultimately show ?thesis using r sl resolve_same_links [OF sl] by (auto simp: f confined_def ready_def)
qed

lemma finally_unlink_confined:
  assumes c: "calm ws w fs" and r: "confined ws w fs (snd r)"
  shows "confined ws w fs (snd (finally_unlink (ws @ [name]) r))"
proof (cases "unlink (snd r) (ws @ [name])")
  case (Inl e)
  then show ?thesis using r by (cases e) (simp_all add: finally_unlink_def)
next
  case (Inr fs')
  then show ?thesis
    using unlink_confined [OF confined_calm [OF r c] Inr] confined_trans [OF r] by (simp add: finally_unlink_def)
qed

lemma write_script_confined:
  assumes c: "calm ws w fs" and n: "name \<noteq> ''..''" and wr: "write_text fs (ws @ [name]) s = Inr fs'"
  shows "confined ws w fs fs'"
proof -
  have p: "plain fs (w @ [name])" using calm_plain [OF c, of "[name]"] n by simp
  have "resolve fs (ws @ [name]) = Inr (w @ [name])"
    using c n p walk_of_plain [of fs w "[name]"] by (simp add: resolve_def calm_def ready_def walk_append)
  then have "write_text fs (w @ [name]) s = Inr fs'"
    using wr resolve_of_plain [OF p] by (auto simp: write_text_def split: option.splits node.splits)
  then show ?thesis using calm_write [OF c, of "[name]"] n by simp
qed

lemma temp_names [simp]: "temp_python_name uuid \<noteq> ''..''" "temp_bash_name uuid \<noteq> ''..''"
  by (simp_all add: temp_python_name_def temp_bash_name_def)

lemma bash_answer_confined:
  "confined ws w fs (snd r) \<Longrightarrow> confined ws w fs (snd (bash_answer h timeout status r))"
  by (cases r) (simp add: bash_answer_def)

lemma execute_python_code_confined:
  assumes c: "calm ws w fs" and h: "host_confined h ws w"
  shows "confined ws w fs (snd (execute_python_code h uuid fs ws exe src timeout))"
proof -
  let ?n = "temp_python_name uuid"
  have "confined ws w fs1 (snd (finally_unlink (ws @ [?n]) (run_in_workspace h fs1 ws [exe, ?n] timeout)))"
    if "calm ws w fs1" for fs1
    by (intro finally_unlink_confined run_in_workspace_confined that h)
  moreover have "confined ws w fs fs1" if "write_text fs (ws @ [?n]) src = Inr fs1" for fs1
    using that by (intro write_script_confined [OF c, of ?n]) simp_all
  ultimately show ?thesis
    unfolding execute_python_code_def Let_def
    by (auto split: option.splits simp: calm_ready [OF c] confined_refl intro!: keep_change [OF c])
qed

lemma script_run_confined:
  assumes c: "calm ws w fs" and h: "host_confined h ws w" and n: "name \<noteq> ''..''"
  shows "confined ws w fs (snd (finally_unlink (ws @ [name]) (keep fs (write_text fs (ws @ [name]) script)
           (\<lambda>fs1. run_in_workspace h fs1 ws argv timeout))))"
  by (intro finally_unlink_confined [OF c] keep_change [OF c] write_script_confined [OF c n] run_in_workspace_confined h)

lemma keep_read:
  assumes "calm ws w fs" "\<And>x. confined ws w fs (snd (f x))"
  shows "confined ws w fs (snd (keep fs r f))"
  by (rule keep_calm [OF assms(1)]) (rule assms(2))

lemma branch_confined:
  "confined ws w fs (snd a) \<Longrightarrow> confined ws w fs (snd b) \<Longrightarrow> confined ws w fs (snd (if P then a else b))"
  "confined ws w fs (snd a) \<Longrightarrow> (\<And>x. confined ws w fs (snd (g x))) \<Longrightarrow>
     confined ws w fs (snd (case v of None \<Rightarrow> a | Some x \<Rightarrow> g x))"
  "(\<And>x y. confined ws w fs (snd (k x y))) \<Longrightarrow> confined ws w fs (snd (case p of (x, y) \<Rightarrow> k x y))"
  by (auto split: option.split prod.split)

text \<open>If every process keeps to the workspace, so does the whole \<open>bash\<close> tool.\<close>

lemma execute_bash_confined:
  assumes c: "calm ws w fs" and h: "host_confined h ws w"
  shows "confined ws w fs (snd (execute_bash h uuid fs ws cmd script script_path timeout))"
proof -
  have refl: "confined ws w fs fs" using calm_ready [OF c] by (rule confined_refl)
  have run: "confined ws w fs (snd (bash_answer h timeout status (run_in_workspace h fs ws argv timeout)))" for status argv
    by (intro bash_answer_confined run_in_workspace_confined c h)
  have temp: "confined ws w fs (snd (bash_answer h timeout status (finally_unlink (ws @ [name])
      (keep fs (write_text fs (ws @ [name]) s) (\<lambda>fs1. run_in_workspace h fs1 ws argv timeout)))))"
    if "name \<noteq> ''..''" for status name s argv
    by (intro bash_answer_confined script_run_confined c h that)
  have py: "confined ws w fs (snd (execute_python_code h uuid fs ws exe src timeout))" for exe src
    by (rule execute_python_code_confined [OF c h])
  have skip: "confined ws w fs (snd (x, fs))" for x :: "string result" using refl by simp
  show ?thesis
    unfolding execute_bash_def Let_def
    by (intro branch_confined keep_read [OF c] run temp py skip temp_names)
qed


subsection \<open>The environment of a process\<close>

lemma keep_Inr: "keep fs r f = (Inr y, fs') \<longleftrightarrow> (\<exists>x. r = Inr x \<and> f x = (Inr y, fs'))"
  by (cases r) (auto simp: keep_def)

lemma pair_Inr:
  "(case r of (Inl e, s) \<Rightarrow> (Inl e, s) | (Inr d, s) \<Rightarrow> (Inr (g d), s)) = (Inr y, s') \<longleftrightarrow>
     (\<exists>d. r = (Inr d, s') \<and> y = g d)"
  by (auto split: prod.split sum.split)

lemma ensure_Inr:
  assumes c: "calm ws w fs" and e: "ensure_verifier_sitecustomize h fs w = (Inr d, fs')"
  shows "d = w @ [''.nanoclaw_python_patch'']"
  using e calm_resolve [OF c]
  by (auto simp: ensure_verifier_sitecustomize_def Let_def keep_Inr split: if_split_asm)

text \<open>The three file-system steps behind a successful call.\<close>

lemma workspace_subprocess_env_Inr:
  assumes c: "calm ws w fs" and e: "workspace_subprocess_env h fs ws = (Inr env, fs')"
  obtains fs1 fs2 where "mkdir_exist_ok fs (w @ [''.runner_home'']) = Inr fs1" "calm ws w fs1"
    "mkdir_exist_ok fs1 (w @ [''.runner_tmp'']) = Inr fs2" "calm ws w fs2"
    "ensure_verifier_sitecustomize h fs2 w = (Inr (w @ [''.nanoclaw_python_patch'']), fs')"
    "env = patched_env (base_env h w) (w @ [''.nanoclaw_python_patch''])"
proof -
  have w: "resolve fs ws = Inr w" using c by (simp add: calm_def ready_def)
  from e obtain fs1 fs2 d where s: "mkdir_exist_ok fs (w @ [''.runner_home'']) = Inr fs1"
    "mkdir_exist_ok fs1 (w @ [''.runner_tmp'']) = Inr fs2" "ensure_verifier_sitecustomize h fs2 w = (Inr d, fs')"
    and env: "env = patched_env (base_env h w) d"
    unfolding workspace_subprocess_env_def by (auto simp: keep_Inr pair_Inr w)
  have c1: "calm ws w fs1" using mkdir_exist_ok_confined [OF c _ s(1)] confined_calm [OF _ c] by simp
  have c2: "calm ws w fs2" using mkdir_exist_ok_confined [OF c1 _ s(2)] confined_calm [OF _ c1] by simp
  have d: "d = w @ [''.nanoclaw_python_patch'']" by (rule ensure_Inr [OF c2 s(3)])
  show thesis
    by (rule that [OF s(1) c1 s(2) c2]) (use s(3) env in \<open>simp_all add: d\<close>)
qed

lemma base_env_get:
  "dict_get (base_env h w) k =
     (if k \<in> {''TMPDIR'', ''TEMP'', ''TMP''} then Some (full_path (w @ [''.runner_tmp'']))
      else if k = ''HOME'' then Some (full_path (w @ [''.runner_home'']))
      else if k \<in> {''PWD'', ''NANOCLAW_WORKSPACE''} then Some (full_path w)
      else if k = ''PYTHONNOUSERSITE'' then Some ''1''
      else if k \<in> {''BASH_ENV'', ''ENV''} then None
      else dict_get (environ h) k)"
  by (simp add: base_env_def Let_def dict_update_def)

lemma dict_get_setdefault:
  "dict_get (dict_setdefault d k v) k' = (if k' = k \<and> dict_get d k = None then Some v else dict_get d k')"
  by (auto simp: dict_setdefault_def dict_has_def)

text \<open>
  A process in the workspace sees the variables of the trainer, except that its home, its temporary
  directories and its working directory are inside the workspace, shell start-up files are switched
  off, and the Python path begins with the patch directory of the workspace.
\<close>

theorem subprocess_env_exact:
  assumes "calm ws w fs" "workspace_subprocess_env h fs ws = (Inr env, fs')"
  shows "dict_get env k =
     (if k \<in> {''TMPDIR'', ''TEMP'', ''TMP''} then Some (full_path (w @ [''.runner_tmp'']))
      else if k = ''HOME'' then Some (full_path (w @ [''.runner_home'']))
      else if k \<in> {''PWD'', ''NANOCLAW_WORKSPACE''} then Some (full_path w)
      else if k = ''PYTHONNOUSERSITE'' then Some ''1''
      else if k \<in> {''BASH_ENV'', ''ENV''} then None
      else if k = ''PYTHONPATH'' then
        Some (full_path (w @ [''.nanoclaw_python_patch'']) @
          (if dict_get_default (environ h) k '''' = '''' then '''' else '':'' @ dict_get_default (environ h) k ''''))
      else if k = ''NANOCLAW_FORCE_NO_THINKING'' then Some (dict_get_default (environ h) k ''1'')
      else if k = ''NANOCLAW_FORCE_MAX_TOKENS'' then Some (dict_get_default (environ h) k ''50'')
      else dict_get (environ h) k)"
proof -
  have "env = patched_env (base_env h w) (w @ [''.nanoclaw_python_patch''])"
    using assms by (rule workspace_subprocess_env_Inr)
  then show ?thesis
    by (simp add: patched_env_def Let_def dict_get_setdefault base_env_get dict_get_default_def split: option.split)
qed

lemma mkdir_exist_ok_keeps:
  assumes c: "calm ws w fs" and cs: "''..'' \<notin> set cs" and m: "mkdir_exist_ok fs (w @ cs) = Inr fs'"
    and q: "dict_get fs q = Some x"
  shows "dict_get fs' q = Some x"
proof (cases "is_dir fs (w @ cs)")
  case False
  then have "mkdir_parents fs (w @ cs) = Inr fs'" using m by (simp add: mkdir_exist_ok_def)
  then show ?thesis using mkdir_confined [OF calm_ready [OF c] calm_plain [OF c cs]] q by simp
qed (use m q in \<open>simp add: mkdir_exist_ok_def\<close>)

text \<open>
  A start-up module for Python that is already in the patch directory of the workspace is kept as it is, and
  the patch directory is the first entry of the Python path of every later process, the verifier included:
  whatever the agent wrote there runs in them.
\<close>

theorem planted_sitecustomize_survives:
  assumes c: "calm ws w fs"
    and planted: "dict_get fs (w @ [''.nanoclaw_python_patch'', ''sitecustomize.py'']) = Some (File src)"
    and run: "workspace_subprocess_env h fs ws = (Inr env, fs')"
  shows "dict_get fs' (w @ [''.nanoclaw_python_patch'', ''sitecustomize.py'']) = Some (File src) \<and>
    (\<exists>rest. dict_get env ''PYTHONPATH'' = Some (full_path (w @ [''.nanoclaw_python_patch'']) @ rest))"
proof -
  let ?p = "w @ [''.nanoclaw_python_patch'', ''sitecustomize.py'']"
  obtain fs1 fs2 where s: "mkdir_exist_ok fs (w @ [''.runner_home'']) = Inr fs1" "calm ws w fs1"
    "mkdir_exist_ok fs1 (w @ [''.runner_tmp'']) = Inr fs2" "calm ws w fs2"
    and e: "ensure_verifier_sitecustomize h fs2 w = (Inr (w @ [''.nanoclaw_python_patch'']), fs')"
    and env: "env = patched_env (base_env h w) (w @ [''.nanoclaw_python_patch''])"
    by (rule workspace_subprocess_env_Inr [OF c run])
  have "dict_get fs1 ?p = Some (File src)" by (rule mkdir_exist_ok_keeps [OF c _ s(1) planted]) simp
  then have f2: "dict_get fs2 ?p = Some (File src)" by (rule mkdir_exist_ok_keeps [OF s(2) _ s(3), rotated]) simp
  from e obtain fs3 where m: "mkdir_exist_ok fs2 (w @ [''.nanoclaw_python_patch'']) = Inr fs3"
    and rest: "stat_node fs3 ?p \<noteq> None \<Longrightarrow> fs' = fs3"
    unfolding ensure_verifier_sitecustomize_def Let_def by (auto simp: keep_Inr calm_resolve [OF s(4)] split: if_split_asm)
  have f3: "dict_get fs3 ?p = Some (File src)" by (rule mkdir_exist_ok_keeps [OF s(4) _ m f2]) simp
  have "calm ws w fs3" using mkdir_exist_ok_confined [OF s(4) _ m] confined_calm [OF _ s(4)] by simp
  then have "stat_node fs3 ?p \<noteq> None"
    using resolve_of_plain [OF calm_plain [of ws w fs3 "[''.nanoclaw_python_patch'', ''sitecustomize.py'']"]] f3
    by (simp add: stat_node_def fs_node_def)
  then have "fs' = fs3" using rest by simp
  moreover have "\<exists>rest. dict_get env ''PYTHONPATH'' = Some (full_path (w @ [''.nanoclaw_python_patch'']) @ rest)"
    by (simp add: env patched_env_def Let_def dict_get_setdefault)
  ultimately show ?thesis using f3 by simp
qed

subsection \<open>Answers\<close>

lemma py_strip_id: "s \<noteq> '''' \<Longrightarrow> \<not> is_space (hd s) \<Longrightarrow> \<not> is_space (last s) \<Longrightarrow> py_strip s = s"
proof -
  have d: "t \<noteq> '''' \<Longrightarrow> \<not> is_space (hd t) \<Longrightarrow> dropWhile is_space t = t" for t
    by (cases t) auto
  assume "s \<noteq> ''''" "\<not> is_space (hd s)" "\<not> is_space (last s)"
  then show ?thesis
    using d [of s] d [of "rev s"] by (simp add: py_strip_def py_lstrip_def py_rstrip_def hd_rev)
qed

text \<open>
  The output of a command that ends is cut: the answer of a successful command has at most 8015 characters
  and begins with the uncut output or its first 8000 characters.  The output of a command that times out
  is not cut: its answer has no bound.
\<close>

theorem bash_output_bounds:
  "length (process_answer h program timeout nonfatal (Completed 0 out err)) \<le> 8015 \<and>
   (\<exists>rest. process_answer h program timeout nonfatal (Completed 0 out err) =
      take max_bash_output_chars (format_process_output out err) @ rest) \<and>
   (\<exists>out. n < length (process_answer h program timeout nonfatal (TimedOut out err)))"
proof (intro conjI)
  show "length (process_answer h program timeout nonfatal (Completed 0 out err)) \<le> 8015"
    by (simp add: process_answer_def Let_def max_bash_output_chars_def)
  show "\<exists>rest. process_answer h program timeout nonfatal (Completed 0 out err) =
      take max_bash_output_chars (format_process_output out err) @ rest"
    by (simp add: process_answer_def Let_def)
  let ?o = "CHR ''x'' # replicate n CHR ''x''"
  have "\<not> is_space CHR ''x''" by code_simp
  then have "py_strip ?o = ?o" by (intro py_strip_id) (auto simp: last_replicate)
  then have "n < length (format_process_output ?o err)"
    by (simp add: format_process_output_def py_join_def)
  then have "n < length (process_answer h program timeout nonfatal (TimedOut ?o err))"
    by (simp add: process_answer_def)
  then show "\<exists>out. n < length (process_answer h program timeout nonfatal (TimedOut out err))" ..
qed

subsection \<open>Examples\<close>

definition quiet_fs :: fs where
  "quiet_fs = [([''tmp''], Dir), (example_ws, Dir), (example_ws @ [''a.txt''], File ''x=1'')]"

definition planted_fs :: fs where
  "planted_fs = snd (write_file quiet_fs example_ws ''.nanoclaw_python_patch/sitecustomize.py'' ''import os'')"

text \<open>A host whose commands append to the file \<open>log\<close> of the workspace and succeed.\<close>

definition logging_host :: host where
  "logging_host = \<lparr>environ = [(''PATH'', ''/bin''), (''PYTHONPATH'', ''/lib'')], sitecustomize = ''pass'',
     launch = (\<lambda>argv ws env timeout fs. case write_file fs ws ''log'' (py_join '' '' argv) of
        (Inl e, fs') \<Rightarrow> (Inl e, fs') | (Inr _, fs') \<Rightarrow> (Inr (Completed 0 ''ok'' ''''), fs')),
     format_g = (\<lambda>q. ''1'')\<rparr>"

lemma calmI:
  assumes "fs_ok fs" "resolve fs ws = Inr w" "fs_node fs w = Some Dir"
    "list_all (\<lambda>e. case snd e of Link _ \<Rightarrow> False | _ \<Rightarrow> True) fs"
  shows "calm ws w fs"
proof -
  have "\<not> is_link fs q" for q
    using assms(4) map_of_SomeD [of fs q] by (fastforce simp: is_link_def list_all_iff split: node.splits)
  then show ?thesis using assms by (simp add: calm_def ready_def)
qed

lemma quiet_calm: "calm example_ws example_ws quiet_fs"
  by (rule calmI; code_simp)

lemma planted_calm: "calm example_ws example_ws planted_fs"
  by (rule calmI; code_simp)

lemma logging_confined: "host_confined logging_host ws w"
  unfolding host_confined_def
proof (intro allI impI)
  fix argv env timeout fs assume "calm ws w fs"
  from write_file_confined [OF calm_ready [OF this], of "''log''" "py_join '' '' argv"]
  show "confined ws w fs (snd (launch logging_host argv ws env timeout fs))"
    by (auto simp: logging_host_def split: prod.splits sum.splits)
qed


lemma subprocess_env_exact_witness:
  "\<exists>env fs'. workspace_subprocess_env logging_host quiet_fs example_ws = (Inr env, fs') \<and>
     dict_get env ''HOME'' = Some ''/tmp/ws/.runner_home'' \<and>
     dict_get env ''PYTHONPATH'' = Some ''/tmp/ws/.nanoclaw_python_patch:/lib'' \<and> dict_get env ''PATH'' = Some ''/bin''"
proof -
  obtain env fs' where run: "workspace_subprocess_env logging_host quiet_fs example_ws = (Inr env, fs')"
  proof -
    have "isl (fst (workspace_subprocess_env logging_host quiet_fs example_ws)) = False" by code_simp
    then show thesis using that by (cases "workspace_subprocess_env logging_host quiet_fs example_ws"; cases "fst (workspace_subprocess_env logging_host quiet_fs example_ws)") auto
  qed
  have v: "full_path (example_ws @ [''.runner_home'']) = ''/tmp/ws/.runner_home''"
    "full_path (example_ws @ [''.nanoclaw_python_patch'']) = ''/tmp/ws/.nanoclaw_python_patch''" by code_simp+
  show ?thesis
    using run subprocess_env_exact [OF quiet_calm run, of "''HOME''"] subprocess_env_exact [OF quiet_calm run, of "''PATH''"]
      subprocess_env_exact [OF quiet_calm run, of "''PYTHONPATH''"]
    by (simp add: v logging_host_def dict_get_default_def)
qed

lemma planted_sitecustomize_survives_witness:
  "dict_get (snd (workspace_subprocess_env logging_host planted_fs example_ws))
     (example_ws @ [''.nanoclaw_python_patch'', ''sitecustomize.py'']) = Some (File ''import os'')"
proof -
  have "workspace_subprocess_env logging_host planted_fs example_ws =
      (Inr (patched_env (base_env logging_host example_ws) (example_ws @ [''.nanoclaw_python_patch''])),
       snd (workspace_subprocess_env logging_host planted_fs example_ws))"
    "dict_get planted_fs (example_ws @ [''.nanoclaw_python_patch'', ''sitecustomize.py'']) = Some (File ''import os'')"
    by code_simp+
  from planted_sitecustomize_survives [OF planted_calm this(2,1)] show ?thesis by simp
qed

end
