(* ===== verification/NanoTasks.thy ===== *)
theory NanoTasks
  imports Workspace
begin

text \<open>
  The tasks of the shell agent: the configuration helpers of \<open>nanoclaw_recipe/nanoclaw.py\<close> and the
  discovery of tasks in \<open>nanoclaw_recipe/common.py\<close>, over the file system of FileSys.  Parameters are
  \<open>float(s)\<close> of a string, \<open>json.loads\<close>, \<open>glob\<close> and the printing of floats.
\<close>

subsection \<open>Configuration values\<close>

definition py_float_of :: "(string \<Rightarrow> rat option) \<Rightarrow> pyval \<Rightarrow> rat result" where
  "py_float_of parse_float v = (case v of
     PInt n \<Rightarrow> Inr (of_int n) | PBool b \<Rightarrow> Inr (if b then 1 else 0) | PFloat q \<Rightarrow> Inr q
   | PStr s \<Rightarrow> (case parse_float s of Some q \<Rightarrow> Inr q
       | None \<Rightarrow> Inl (ValueError (''could not convert string to float: '' @ repr_string s)))
   | _ \<Rightarrow> Inl (TypeError (''float() argument must be a string or a real number, not '' @ repr_string (py_type_name v))))"

definition float_config :: "(string \<Rightarrow> rat option) \<Rightarrow> pyval \<Rightarrow> rat \<Rightarrow> rat result" where
  "float_config parse_float v dflt = (if v = PNone then Inr dflt else py_float_of parse_float v)"

definition int_config :: "pyval \<Rightarrow> int \<Rightarrow> int result" where
  "int_config v dflt = (if v = PNone then Inr dflt else py_int_of v)"

fun plain_container :: "pyval \<Rightarrow> pyval" where
  "plain_container (PDict d) = PDict (map (\<lambda>p. (fst p, plain_container (snd p))) d)"
| "plain_container (PList xs) = PList (map plain_container xs)"
| "plain_container (PTuple xs) = PList (map plain_container xs)"
| "plain_container v = v"

definition optional_int :: "pyval \<Rightarrow> int option" where
  "optional_int v = (if v = PNone \<or> v = PStr '''' then None
     else case py_int_of v of Inr n \<Rightarrow> Some n | Inl _ \<Rightarrow> None)"

definition name_char :: "char \<Rightarrow> bool" where
  "name_char c \<longleftrightarrow> (let n = code c in (65 \<le> n \<and> n \<le> 90) \<or> (97 \<le> n \<and> n \<le> 122)) \<or> is_digit c \<or>
     c = CHR ''_'' \<or> c = CHR ''.'' \<or> c = CHR ''-''"

definition safe_name :: "string \<Rightarrow> string" where
  "safe_name raw_name =
     (let safe = strip_chars ''._'' (sub_runs (\<lambda>c. \<not> name_char c) ''_'' raw_name)
      in if safe \<noteq> '''' then safe else ''task'')"

text \<open>The requested ids as a duplicate-free list; \<open>None\<close> asks for every task.\<close>

definition normalize_task_ids :: "(rat \<Rightarrow> string) \<Rightarrow> pyval \<Rightarrow> string list option result" where
  "normalize_task_ids frepr raw_task_ids =
     (let finish = (\<lambda>ids. let task_ids = filter (\<lambda>i. i \<noteq> '''') (map py_strip ids)
                          in Inr (if task_ids \<noteq> [] then Some (remdups task_ids) else None))
      in case raw_task_ids of
           PNone \<Rightarrow> Inr None
         | PStr s \<Rightarrow> if s = '''' then Inr None else finish (py_split '','' s)
         | PList xs \<Rightarrow> finish (map (py_str frepr) xs)
         | PTuple xs \<Rightarrow> finish (map (py_str frepr) xs)
         | PDict d \<Rightarrow> finish (map fst d)
         | _ \<Rightarrow> Inl (TypeError (repr_string (py_type_name raw_task_ids) @ '' object is not iterable'')))"

subsection \<open>Files of a task\<close>

text \<open>\<open>directory / name\<close>: an absolute name replaces the directory.\<close>

definition join_path :: "path \<Rightarrow> string \<Rightarrow> path" where
  "join_path directory name = (if is_absolute name then path_parts name else directory @ path_parts name)"

definition path_name :: "path \<Rightarrow> string" where
  "path_name p = (if p = [] then '''' else last p)"

definition first_file :: "fs \<Rightarrow> path option list \<Rightarrow> path option" where
  "first_file fs candidates = (case List.find (\<lambda>c. case c of None \<Rightarrow> False | Some p \<Rightarrow> is_file fs p) candidates of
     Some c \<Rightarrow> c | None \<Rightarrow> None)"

record manifest =
  manifest_files :: "(string, string) dict"
  manifest_path :: "path option"
  manifest_task_id :: "string option"

definition read_manifest :: "(rat \<Rightarrow> string) \<Rightarrow> (string \<Rightarrow> pyval result) \<Rightarrow> fs \<Rightarrow> path \<Rightarrow> manifest result" where
  "read_manifest frepr json_loads fs task_dir =
     (let p = task_dir @ [''manifest.json''] in
      if \<not> is_file fs p then Inr \<lparr>manifest_files = [], manifest_path = None, manifest_task_id = None\<rparr>
      else case rbind (read_text fs p) json_loads of
        Inl exc \<Rightarrow> Inl (ValueError (''failed to read Nanoclaw manifest '' @ full_path p @ '': '' @ exc_text exc))
      | Inr m \<Rightarrow>
          (let entries = (case m of PDict d \<Rightarrow> d | _ \<Rightarrow> []);
               files = (case pget entries ''files'' of PDict f \<Rightarrow> map (\<lambda>(k, v). (k, py_str frepr v)) f | _ \<Rightarrow> []);
               task_id = pget entries ''task_id''
           in Inr \<lparr>manifest_files = files, manifest_path = Some p,
                manifest_task_id = (if py_truthy task_id then Some (py_str frepr task_id) else None)\<rparr>))"

definition resolve_manifest_file :: "fs \<Rightarrow> path \<Rightarrow> (string, string) dict \<Rightarrow> string \<Rightarrow> path option" where
  "resolve_manifest_file fs task_dir files key =
     (let relative_path = dict_get_default files key '''';
          candidate = join_path task_dir relative_path
      in if relative_path \<noteq> '''' \<and> is_file fs candidate then Some candidate else None)"

definition find_script_root :: "fs \<Rightarrow> path \<Rightarrow> path option" where
  "find_script_root fs base_tasks =
     map_option (\<lambda>dirname. base_tasks @ [dirname]) (List.find (\<lambda>d. is_dir fs (base_tasks @ [d])) [''scrips'', ''scripts''])"

definition prompt_candidates :: "fs \<Rightarrow> path \<Rightarrow> path \<Rightarrow> string \<Rightarrow> (string, string) dict \<Rightarrow> path option list" where
  "prompt_candidates fs tasks_root task_dir task_id files =
     [resolve_manifest_file fs task_dir files ''prompt'',
      Some (join_path (tasks_root @ [''prompts'']) (task_id @ ''.md'')),
      Some (task_dir @ [''prompts.md'']), Some (task_dir @ [''prompt.md'']), Some (task_dir @ [''task.md''])]"

definition find_prompt_path :: "fs \<Rightarrow> path \<Rightarrow> path \<Rightarrow> string \<Rightarrow> (string, string) dict \<Rightarrow> path result" where
  "find_prompt_path fs tasks_root task_dir task_id files =
     (let candidates = prompt_candidates fs tasks_root task_dir task_id files in
      case first_file fs candidates of
        Some p \<Rightarrow> Inr p
      | None \<Rightarrow> Inl (FileNotFoundError (''prompt file not found for '' @ task_id @ ''; tried: '' @
          py_join '', '' (map (\<lambda>c. case c of None \<Rightarrow> ''None'' | Some p \<Rightarrow> full_path p) candidates))))"

definition find_verifier_path ::
  "fs \<Rightarrow> path option \<Rightarrow> string \<Rightarrow> path option \<Rightarrow> (string, string) dict \<Rightarrow> path option" where
  "find_verifier_path fs script_root task_id task_dir files =
     first_file fs
       ((case task_dir of None \<Rightarrow> [None]
         | Some d \<Rightarrow> [resolve_manifest_file fs d files ''verifier'', Some (d @ [''workplace_verifier.py'']),
             Some (d @ [''verify_workplace.py''])]) @
        (case script_root of None \<Rightarrow> []
         | Some r \<Rightarrow> [Some (join_path r task_id @ [''verify_workplace.py'']), Some (join_path r (task_id @ ''.py'')),
             Some (r @ [''verify_workplace.py''])]))"

subsection \<open>Discovery\<close>

record task_spec =
  ts_task_id :: string
  ts_base_tasks :: path
  ts_task_dir :: path
  ts_prompt_path :: path
  ts_env_builder_path :: path
  ts_verifier_path :: "path option"
  ts_input_layout :: string
  ts_manifest_path :: "path option"

definition requested :: "string list option \<Rightarrow> string \<Rightarrow> bool" where
  "requested task_ids task_id \<longleftrightarrow> (case task_ids of None \<Rightarrow> True | Some ids \<Rightarrow> task_id \<in> set ids)"

text \<open>One round of each loop: \<open>None\<close> skips the directory.\<close>

definition legacy_spec :: "fs \<Rightarrow> path \<Rightarrow> path \<Rightarrow> string list option \<Rightarrow> path \<Rightarrow> task_spec option result" where
  "legacy_spec fs base_tasks tasks_root task_ids task_dir =
     (let task_id = path_name task_dir; env_builder = task_dir @ [''env_builder.py''] in
      if \<not> requested task_ids task_id \<or> \<not> is_file fs env_builder then Inr None
      else rbind (find_prompt_path fs tasks_root task_dir task_id []) (\<lambda>prompt_path.
        Inr (Some \<lparr>ts_task_id = task_id, ts_base_tasks = base_tasks, ts_task_dir = task_dir,
          ts_prompt_path = prompt_path, ts_env_builder_path = env_builder,
          ts_verifier_path = (case find_script_root fs base_tasks of None \<Rightarrow> None
            | Some r \<Rightarrow> find_verifier_path fs (Some r) task_id None []),
          ts_input_layout = ''legacy'', ts_manifest_path = None\<rparr>)))"

definition flat_spec ::
  "(rat \<Rightarrow> string) \<Rightarrow> (string \<Rightarrow> pyval result) \<Rightarrow> fs \<Rightarrow> path \<Rightarrow> string list option \<Rightarrow> path \<Rightarrow> task_spec option result" where
  "flat_spec frepr json_loads fs base_tasks task_ids task_dir =
     rbind (read_manifest frepr json_loads fs task_dir) (\<lambda>m.
       let task_id = (case manifest_task_id m of Some i \<Rightarrow> i | None \<Rightarrow> path_name task_dir);
           env_builder = (case resolve_manifest_file fs task_dir (manifest_files m) ''env_builder'' of
             Some p \<Rightarrow> p | None \<Rightarrow> task_dir @ [''env_builder.py''])
       in if \<not> requested task_ids task_id \<or> \<not> is_file fs env_builder then Inr None
          else rbind (find_prompt_path fs base_tasks task_dir task_id (manifest_files m)) (\<lambda>prompt_path.
            Inr (Some \<lparr>ts_task_id = task_id, ts_base_tasks = base_tasks, ts_task_dir = task_dir,
              ts_prompt_path = prompt_path, ts_env_builder_path = env_builder,
              ts_verifier_path = find_verifier_path fs None task_id (Some task_dir) (manifest_files m),
              ts_input_layout = ''flat'', ts_manifest_path = manifest_path m\<rparr>)))"

fun collect :: "('a \<Rightarrow> 'b option result) \<Rightarrow> 'a list \<Rightarrow> 'b list result" where
  "collect f [] = Inr []"
| "collect f (x # xs) = rbind (f x) (\<lambda>r. rbind (collect f xs) (\<lambda>rs.
     Inr (case r of None \<Rightarrow> rs | Some y \<Rightarrow> y # rs)))"

text \<open>\<open>sorted(task_ids - found_task_ids)\<close>.\<close>

definition missing_ids :: "string list option \<Rightarrow> task_spec list \<Rightarrow> string list" where
  "missing_ids task_ids specs = (case task_ids of None \<Rightarrow> []
     | Some ids \<Rightarrow> sort (filter (\<lambda>i. i \<notin> set (map ts_task_id specs)) ids))"

definition check_found :: "string list option \<Rightarrow> string \<Rightarrow> task_spec list \<Rightarrow> task_spec list result" where
  "check_found task_ids none_found specs =
     (if missing_ids task_ids specs \<noteq> [] then
        Inl (FileNotFoundError (''requested task ids not found or missing env_builder.py: '' @
          ''['' @ py_join '', '' (map repr_string (missing_ids task_ids specs)) @ '']''))
      else if specs = [] then Inl (FileNotFoundError none_found)
      else Inr specs)"

definition sorted_dirs :: "fs \<Rightarrow> path list \<Rightarrow> path list" where
  "sorted_dirs fs ps = sort (filter (is_dir fs) ps)"

definition discover_legacy_tasks ::
  "(fs \<Rightarrow> path \<Rightarrow> string \<Rightarrow> path list result) \<Rightarrow> fs \<Rightarrow> path \<Rightarrow> path \<Rightarrow> string \<Rightarrow> string list option \<Rightarrow>
   task_spec list result" where
  "discover_legacy_tasks glob fs base_tasks tasks_root task_glob task_ids =
     rbind (glob fs tasks_root task_glob) (\<lambda>ps.
     rbind (collect (legacy_spec fs base_tasks tasks_root task_ids) (sorted_dirs fs ps))
       (check_found task_ids (''no task directories matched '' @ repr_string task_glob @ '' under '' @ full_path tasks_root)))"

definition discover_flat_tasks ::
  "(rat \<Rightarrow> string) \<Rightarrow> (string \<Rightarrow> pyval result) \<Rightarrow> (fs \<Rightarrow> path \<Rightarrow> string \<Rightarrow> path list result) \<Rightarrow> fs \<Rightarrow> path \<Rightarrow>
   string \<Rightarrow> string list option \<Rightarrow> task_spec list result" where
  "discover_flat_tasks frepr json_loads glob fs base_tasks task_glob task_ids =
     (if \<not> is_dir fs base_tasks then
        Inl (FileNotFoundError (''Nanoclaw data directory not found: '' @ full_path base_tasks))
      else rbind (if is_file fs (base_tasks @ [''env_builder.py'']) then Inr [base_tasks]
                  else map_sum id (sorted_dirs fs) (glob fs base_tasks task_glob)) (\<lambda>task_dirs.
        rbind (collect (flat_spec frepr json_loads fs base_tasks task_ids) task_dirs)
          (check_found task_ids (''no flat Nanoclaw task directories matched '' @ repr_string task_glob @ '' under '' @
             full_path base_tasks))))"

definition discover_tasks ::
  "(rat \<Rightarrow> string) \<Rightarrow> (string \<Rightarrow> pyval result) \<Rightarrow> (fs \<Rightarrow> path \<Rightarrow> string \<Rightarrow> path list result) \<Rightarrow> fs \<Rightarrow> path \<Rightarrow>
   string \<Rightarrow> string list option \<Rightarrow> task_spec list result" where
  "discover_tasks frepr json_loads glob fs base_tasks task_glob task_ids =
     (let tasks_root = base_tasks @ [''tasks''] in
      if is_dir fs tasks_root then discover_legacy_tasks glob fs base_tasks tasks_root task_glob task_ids
      else discover_flat_tasks frepr json_loads glob fs base_tasks task_glob task_ids)"

subsection \<open>Task configuration and dataset rows\<close>

definition default_temp_root :: string where
  "default_temp_root = ''/tmp/verl_nanoclaw_workspaces''"

definition opt_path :: "path option \<Rightarrow> pyval" where
  "opt_path p = (case p of None \<Rightarrow> PNone | Some q \<Rightarrow> PStr (full_path q))"

definition cget :: "(string, pyval) dict \<Rightarrow> string \<Rightarrow> pyval \<Rightarrow> pyval" where
  "cget config key dflt = dict_get_default config key dflt"

definition task_config_from_spec ::
  "(rat \<Rightarrow> string) \<Rightarrow> (string \<Rightarrow> rat option) \<Rightarrow> (string \<Rightarrow> string) \<Rightarrow> task_spec \<Rightarrow> (string, pyval) dict \<Rightarrow>
   (string, pyval) dict result" where
  "task_config_from_spec frepr parse_float expanduser spec config =
     rbind (float_config parse_float (cget config ''nanoclaw_env_builder_timeout'' (PFloat 120)) 120) (\<lambda>env_builder_timeout.
     rbind (float_config parse_float (cget config ''nanoclaw_verifier_timeout'' (PFloat 300)) 300) (\<lambda>verifier_timeout.
     rbind (float_config parse_float (cget config ''nanoclaw_missing_verifier_score'' (PFloat 0)) 0) (\<lambda>missing_verifier_score.
     rbind (float_config parse_float (cget config ''nanoclaw_setup_failure_score'' (PFloat 0)) 0) (\<lambda>setup_failure_score.
       Inr [(''task_id'', PStr (ts_task_id spec)),
         (''base_tasks'', PStr (full_path (ts_base_tasks spec))),
         (''task_dir'', PStr (full_path (ts_task_dir spec))),
         (''prompt_path'', PStr (full_path (ts_prompt_path spec))),
         (''env_builder_path'', PStr (full_path (ts_env_builder_path spec))),
         (''verifier_path'', opt_path (ts_verifier_path spec)),
         (''input_layout'', PStr (ts_input_layout spec)),
         (''manifest_path'', opt_path (ts_manifest_path spec)),
         (''temp_root'', PStr (expanduser (path_str (py_str frepr (cget config ''nanoclaw_temp_root'' (PStr default_temp_root)))))),
         (''cleanup_workspace'', PBool (bool_config (cget config ''nanoclaw_cleanup_workspaces'' (PBool True)) True)),
         (''keep_failed_workspace'', PBool (bool_config (cget config ''nanoclaw_keep_failed_workspaces'' (PBool False)) False)),
         (''env_builder_timeout'', PFloat env_builder_timeout),
         (''verifier_timeout'', PFloat verifier_timeout),
         (''reward_score_mode'', PStr (py_str frepr (cget config ''nanoclaw_reward_score_mode'' (PStr ''ratio'')))),
         (''missing_verifier_score'', PFloat missing_verifier_score),
         (''setup_failure_score'', PFloat setup_failure_score),
         (''allow_bash'', PBool (bool_config (cget config ''nanoclaw_allow_bash'' (PBool True)) True)),
         (''save_workspace_before'', PBool (bool_config (cget config ''nanoclaw_save_workspace_before'' (PBool False)) False)),
         (''strict_result_dir'', PBool (bool_config (cget config ''nanoclaw_strict_result_dir'' (PBool False)) False))]))))"

text \<open>Every tool name shares the same keyword arguments.\<close>

definition build_tools_kwargs :: "(string, pyval) dict \<Rightarrow> string list \<Rightarrow> (string, pyval) dict" where
  "build_tools_kwargs task_config tool_names =
     (let create_kwargs = PDict [(''nanoclaw'', PDict task_config)]
      in foldl (\<lambda>d name. dict_set d name (PDict [(''create_kwargs'', create_kwargs)])) [(''_nanoclaw'', create_kwargs)] tool_names)"

definition build_system_prompt :: "(rat \<Rightarrow> string) \<Rightarrow> pyval \<Rightarrow> bool \<Rightarrow> string" where
  "build_system_prompt frepr max_steps allow_bash =
     (let bash_line = (if allow_bash then ''The restricted bash tool is available.'' else ''The bash tool is disabled.'');
          max_steps_line = (if py_truthy max_steps then ''The rollout should finish within about '' @
            py_str frepr max_steps @ '' assistant turns.'' else '''')
      in py_join [CHR 0x0A] (filter (\<lambda>l. l \<noteq> '''')
        [''You are solving a Nanoclaw workspace task inside VERL multi-turn RL.'',
         ''A fresh per-rollout workspace is prepared automatically before the first workspace tool call.'',
         ''All tool paths must be relative to that workspace. Do not use absolute paths or '' @ repr_string ''..'' @ ''.'',
         ''Inspect files before editing them, make the smallest correct changes, then stop with a final answer.'',
         ''The verifier scores the final workspace, not your final prose answer.'',
         ''For large files, do not read the whole file first. Use bash commands such as find, ls -lh, wc -l, wc -c, '' @
           ''head, tail, grep, and sed -n to inspect targeted parts.'',
         ''For structured or large data, write and run a small Python script inside the workspace to compute the answer.'',
         ''Prefer finalizing once the requested files are written; do not repeatedly re-check the same evidence.'',
         bash_line, max_steps_line,
         ''Use Qwen3-Coder XML tool calls, for example:'',
         ''<tool_call>'', ''<function=read_file>'', ''<parameter=path>'', ''relative/file.txt'', ''</parameter>'',
         ''</function>'', ''</tool_call>'']))"

definition build_initial_messages :: "(rat \<Rightarrow> string) \<Rightarrow> string \<Rightarrow> pyval \<Rightarrow> bool \<Rightarrow> pyval" where
  "build_initial_messages frepr prompt_text max_steps allow_bash = PList
     [PDict [(''role'', PStr ''system''), (''content'', PStr (build_system_prompt frepr max_steps allow_bash))],
      PDict [(''role'', PStr ''user''), (''content'', PStr
        (''Solve this task by using the workspace tools to inspect and modify files. '' @
         ''Only provide a final answer after the requested workspace changes are complete.'' @ [CHR 0x0A, CHR 0x0A] @
         ''Task:'' @ [CHR 0x0A] @ prompt_text))]]"

definition dataset_row ::
  "(rat \<Rightarrow> string) \<Rightarrow> string \<Rightarrow> pyval \<Rightarrow> string list \<Rightarrow> nat \<Rightarrow> task_spec \<Rightarrow> (string, pyval) dict \<Rightarrow> string \<Rightarrow> pyval" where
  "dataset_row frepr prompt_key max_steps tool_names index spec task_config prompt_text = PDict
     (dict_update [(prompt_key, build_initial_messages frepr prompt_text max_steps
          (bool_config (pget task_config ''allow_bash'') True))]
       [(''data_source'', PStr (''nanoclaw/'' @ ts_task_id spec)),
        (''reward_model'', PDict [(''style'', PStr ''rule''), (''ground_truth'', PDict task_config)]),
        (''extra_info'', PDict [(''index'', PInt (int index)), (''task_id'', PStr (ts_task_id spec)),
          (''nanoclaw_task'', PDict task_config), (''tools_kwargs'', PDict (build_tools_kwargs task_config tool_names)),
          (''tool_selection'', PList (map PStr tool_names))]),
        (''agent_name'', PStr ''tool_agent'')])"

text \<open>The rows of the data files, in order; \<open>index\<close> counts the rows so far.\<close>

fun spec_rows ::
  "(task_spec \<Rightarrow> (string, pyval) dict result) \<Rightarrow> (nat \<Rightarrow> task_spec \<Rightarrow> (string, pyval) dict \<Rightarrow> string \<Rightarrow> pyval) \<Rightarrow> fs \<Rightarrow>
   pyval list \<Rightarrow> task_spec list \<Rightarrow> pyval list result" where
  "spec_rows config_of row fs rows [] = Inr rows"
| "spec_rows config_of row fs rows (spec # specs) =
     rbind (config_of spec) (\<lambda>task_config.
     rbind (read_text fs (ts_prompt_path spec)) (\<lambda>prompt_text.
       spec_rows config_of row fs (rows @ [row (length rows) spec task_config prompt_text]) specs))"

definition read_rows ::
  "(rat \<Rightarrow> string) \<Rightarrow> (string \<Rightarrow> rat option) \<Rightarrow> (string \<Rightarrow> string) \<Rightarrow> (string \<Rightarrow> pyval result) \<Rightarrow>
   (fs \<Rightarrow> path \<Rightarrow> string \<Rightarrow> path list result) \<Rightarrow> fs \<Rightarrow> string \<Rightarrow> (string, pyval) dict \<Rightarrow> string list \<Rightarrow> path list \<Rightarrow> pyval list result" where
  "read_rows frepr parse_float expanduser json_loads glob fs prompt_key config tool_names data_files =
     (let task_glob = py_str frepr (cget config ''nanoclaw_task_glob'' (PStr ''data_*''));
          max_steps = pget config ''nanoclaw_max_steps''
      in rbind (normalize_task_ids frepr (pget config ''nanoclaw_task_ids'')) (\<lambda>task_ids.
         rbind (rfold (\<lambda>rows base_tasks.
             rbind (discover_tasks frepr json_loads glob fs base_tasks task_glob task_ids) (\<lambda>specs.
               spec_rows (\<lambda>spec. task_config_from_spec frepr parse_float expanduser spec config)
                 (dataset_row frepr prompt_key max_steps tool_names) fs rows specs)) [] data_files) (\<lambda>rows.
           if rows = [] then Inl (FileNotFoundError (''no Nanoclaw tasks discovered from data files: '' @
             ''['' @ py_join '', '' (map (\<lambda>p. repr_string (full_path p)) data_files) @ '']''))
           else Inr rows)))"

subsection \<open>What discovery returns\<close>

lemma first_file_Some: "first_file fs cs = Some p \<Longrightarrow> is_file fs p"
  unfolding first_file_def by (induction cs) (auto split: option.splits if_split_asm)

lemma find_prompt_path_file: "find_prompt_path fs r d i files = Inr p \<Longrightarrow> is_file fs p"
  by (auto simp: find_prompt_path_def Let_def dest: first_file_Some split: option.splits)

lemma find_verifier_path_file: "find_verifier_path fs r i d files = Some p \<Longrightarrow> is_file fs p"
  unfolding find_verifier_path_def by (rule first_file_Some)

text \<open>What holds of every specification made from a directory.\<close>

definition spec_ok :: "fs \<Rightarrow> string list option \<Rightarrow> path \<Rightarrow> task_spec \<Rightarrow> bool" where
  "spec_ok fs task_ids d s \<longleftrightarrow> ts_task_dir s = d \<and> requested task_ids (ts_task_id s) \<and>
     is_file fs (ts_env_builder_path s) \<and> is_file fs (ts_prompt_path s) \<and>
     (\<forall>v. ts_verifier_path s = Some v \<longrightarrow> is_file fs v)"

lemma legacy_spec_ok: "legacy_spec fs b r task_ids d = Inr (Some s) \<Longrightarrow> spec_ok fs task_ids d s"
  unfolding legacy_spec_def Let_def spec_ok_def
  by (auto simp: rbind_Inr_iff find_prompt_path_file find_verifier_path_file split: if_split_asm option.splits)

lemma flat_spec_ok: "flat_spec frepr json_loads fs b task_ids d = Inr (Some s) \<Longrightarrow> spec_ok fs task_ids d s"
  unfolding flat_spec_def Let_def spec_ok_def
  by (auto simp: rbind_Inr_iff find_prompt_path_file find_verifier_path_file split: if_split_asm)

lemma collect_sound:
  "collect f xs = Inr ys \<Longrightarrow> (\<And>x y. x \<in> set xs \<Longrightarrow> f x = Inr (Some y) \<Longrightarrow> key y = x) \<Longrightarrow>
   (\<forall>y \<in> set ys. f (key y) = Inr (Some y)) \<and> subseq (map key ys) xs"
proof (induction xs arbitrary: ys)
  case (Cons x xs)
  then obtain r rs where r: "f x = Inr r" "collect f xs = Inr rs" and ys: "ys = (case r of None \<Rightarrow> rs | Some y \<Rightarrow> y # rs)"
    by (auto simp: rbind_Inr_iff)
  have ih: "(\<forall>y \<in> set rs. f (key y) = Inr (Some y)) \<and> subseq (map key rs) xs"
    using Cons.IH [OF r(2)] Cons.prems(2) by simp
  have "key y = x" if "r = Some y" for y using Cons.prems(2) [of x y] r(1) that by simp
  then show ?case using ih r(1) ys by (cases r) auto
qed simp

lemma subseq_sorted: "subseq xs ys \<Longrightarrow> sorted ys \<Longrightarrow> sorted xs" for xs :: "'a :: linorder list"
  by (induction rule: list_emb.induct) (auto dest: list_emb_set)

lemma check_found_Inr:
  "check_found task_ids e specs = Inr specs' \<longleftrightarrow>
     specs' = specs \<and> specs \<noteq> [] \<and> (\<forall>ids. task_ids = Some ids \<longrightarrow> set ids \<subseteq> set (map ts_task_id specs))"
proof -
  have "missing_ids task_ids specs = [] \<longleftrightarrow> (\<forall>ids. task_ids = Some ids \<longrightarrow> set ids \<subseteq> set (map ts_task_id specs))"
    by (cases task_ids) (auto simp: missing_ids_def filter_empty_conv simp flip: set_empty)
  then show ?thesis by (auto simp: check_found_def)
qed

definition discovered_ok :: "fs \<Rightarrow> string list option \<Rightarrow> task_spec list \<Rightarrow> bool" where
  "discovered_ok fs task_ids specs \<longleftrightarrow> specs \<noteq> [] \<and> sorted (map ts_task_dir specs) \<and>
     (\<forall>s \<in> set specs. spec_ok fs task_ids (ts_task_dir s) s) \<and>
     (\<forall>ids. task_ids = Some ids \<longrightarrow> set (map ts_task_id specs) = set ids)"

lemma collect_check_ok:
  assumes c: "rbind (collect f ds) (check_found task_ids e) = Inr specs" and srt: "sorted ds"
    and ok: "\<And>d s. f d = Inr (Some s) \<Longrightarrow> spec_ok fs task_ids d s"
  shows "discovered_ok fs task_ids specs"
proof -
  from c have col: "collect f ds = Inr specs" and ne: "specs \<noteq> []"
    and all: "\<And>ids. task_ids = Some ids \<Longrightarrow> set ids \<subseteq> set (map ts_task_id specs)"
    by (auto simp: rbind_Inr_iff check_found_Inr)
  have "(\<forall>s \<in> set specs. f (ts_task_dir s) = Inr (Some s)) \<and> subseq (map ts_task_dir specs) ds"
    by (rule collect_sound [OF col]) (use ok in \<open>auto simp: spec_ok_def\<close>)
  then have "\<forall>s \<in> set specs. spec_ok fs task_ids (ts_task_dir s) s" "sorted (map ts_task_dir specs)"
    using ok srt subseq_sorted by blast+
  moreover have "set (map ts_task_id specs) \<subseteq> set ids" if "task_ids = Some ids" for ids
    using calculation(1) that by (auto simp: spec_ok_def requested_def)
  ultimately show ?thesis using ne all unfolding discovered_ok_def by blast
qed

lemma dirs_collect_check_ok:
  assumes "rbind r (\<lambda>ds. rbind (collect f ds) (check_found task_ids e)) = Inr specs"
    "\<And>ds. r = Inr ds \<Longrightarrow> sorted ds" "\<And>d s. f d = Inr (Some s) \<Longrightarrow> spec_ok fs task_ids d s"
  shows "discovered_ok fs task_ids specs"
  using assms collect_check_ok by (cases r) auto

text \<open>
  A successful discovery returns at least one task, in the order of the task directories, each with an
  existing environment builder, an existing prompt and, if it names a verifier, an existing verifier; the
  requested ids are exactly the ids found.
\<close>

theorem discovered_tasks_sound:
  assumes "discover_tasks frepr json_loads glob fs base_tasks task_glob task_ids = Inr specs"
  shows "discovered_ok fs task_ids specs"
proof (cases "is_dir fs (base_tasks @ [''tasks''])")
  case True
  have "rbind (map_sum id (sorted_dirs fs) (glob fs (base_tasks @ [''tasks'']) task_glob))
      (\<lambda>ds. rbind (collect (legacy_spec fs base_tasks (base_tasks @ [''tasks'']) task_ids) ds) (check_found task_ids
        (''no task directories matched '' @ repr_string task_glob @ '' under '' @ full_path (base_tasks @ [''tasks''])))) = Inr specs"
    using assms True unfolding discover_tasks_def discover_legacy_tasks_def Let_def
    by (cases "glob fs (base_tasks @ [''tasks'']) task_glob") simp_all
  then show ?thesis by (rule dirs_collect_check_ok) (auto simp: sorted_dirs_def map_sum_eq_Inr_iff legacy_spec_ok)
next
  case False
  have "discover_flat_tasks frepr json_loads glob fs base_tasks task_glob task_ids = Inr specs"
    using assms False by (simp add: discover_tasks_def)
  then show ?thesis
    unfolding discover_flat_tasks_def
    by (split if_split_asm, simp, elim dirs_collect_check_ok)
      (auto simp: sorted_dirs_def map_sum_eq_Inr_iff flat_spec_ok split: if_split_asm)
qed

definition tasks_fs :: fs where
  "tasks_fs = [([''d''], Dir), ([''d'', ''tasks''], Dir), ([''d'', ''tasks'', ''data_2''], Dir),
     ([''d'', ''tasks'', ''data_1''], Dir), ([''d'', ''tasks'', ''data_1'', ''env_builder.py''], File ''x''),
     ([''d'', ''tasks'', ''data_1'', ''task.md''], File ''Sum up.''), ([''d'', ''scripts''], Dir),
     ([''d'', ''scripts'', ''data_1.py''], File ''y'')]"

lemma discovered_tasks_sound_witness:
  "\<exists>s. discover_tasks (\<lambda>q. '''') (\<lambda>t. Inr PNone) (\<lambda>fs p pat. Inr (children fs p)) tasks_fs [''d''] ''data_*'' (Some [''data_1'']) =
      Inr [s] \<and> discovered_ok tasks_fs (Some [''data_1'']) [s] \<and> ts_verifier_path s = Some [''d'', ''scripts'', ''data_1.py'']"
proof -
  let ?s = "\<lparr>ts_task_id = ''data_1'', ts_base_tasks = [''d''], ts_task_dir = [''d'', ''tasks'', ''data_1''],
     ts_prompt_path = [''d'', ''tasks'', ''data_1'', ''task.md''],
     ts_env_builder_path = [''d'', ''tasks'', ''data_1'', ''env_builder.py''],
     ts_verifier_path = Some [''d'', ''scripts'', ''data_1.py''], ts_input_layout = ''legacy'', ts_manifest_path = None\<rparr>"
  have d: "discover_tasks (\<lambda>q. '''') (\<lambda>t. Inr PNone) (\<lambda>fs p pat. Inr (children fs p)) tasks_fs [''d''] ''data_*''
      (Some [''data_1'']) = Inr [?s]"
    by code_simp
  from discovered_tasks_sound [OF d] d show ?thesis by (intro exI [of _ ?s]) simp
qed

end
