(* ===== verification/NanoWorkspace.thy ===== *)
theory NanoWorkspace
  imports BashRun NanoTasks
begin

text \<open>
  Preparing the workspace of a rollout, from \<open>nanoclaw_recipe/nanoclaw.py\<close> and \<open>common.py\<close>: the result
  directory, the copy of the task bundle, the environment builder, and the metadata file.  The state of a
  rollout is the dictionary the code keeps under the key \<open>nanoclaw\<close>.
\<close>

subsection \<open>Surroundings\<close>

text \<open>
  Besides the host: printing and parsing of floats, \<open>json.loads\<close>, \<open>expanduser\<close>, the working
  directory, \<open>sys.executable\<close>, the random part of \<open>mkdtemp\<close>, \<open>shutil.copytree\<close> (the flag is
  \<open>dirs_exist_ok\<close>), the clock and the rounded run time of a process.
\<close>

record nano_env =
  ne_host :: host
  ne_frepr :: "rat \<Rightarrow> string"
  ne_parse_float :: "string \<Rightarrow> rat option"
  ne_json_loads :: "string \<Rightarrow> pyval result"
  ne_expanduser :: "string \<Rightarrow> string"
  ne_cwd :: path
  ne_executable :: string
  ne_fresh :: "fs \<Rightarrow> path \<Rightarrow> string \<Rightarrow> string"
  ne_copytree :: "bool \<Rightarrow> fs \<Rightarrow> path \<Rightarrow> path \<Rightarrow> unit result \<times> fs"
  ne_now :: string
  ne_elapsed :: rat

definition abs_path :: "nano_env \<Rightarrow> string \<Rightarrow> path" where
  "abs_path ne s = join_path (ne_cwd ne) s"

text \<open>\<open>Path(str(v)).expanduser().resolve()\<close>.\<close>

definition resolved_path :: "nano_env \<Rightarrow> fs \<Rightarrow> pyval \<Rightarrow> path result" where
  "resolved_path ne fs v = resolve fs (abs_path ne (ne_expanduser ne (path_str (py_str (ne_frepr ne) v))))"

definition cfg_float :: "nano_env \<Rightarrow> pyval \<Rightarrow> rat \<Rightarrow> rat result" where
  "cfg_float ne v dflt = float_config (ne_parse_float ne) v dflt"

text \<open>\<open>mkdir(parents=True, exist_ok=False)\<close>.\<close>

definition mkdir_new :: "fs \<Rightarrow> path \<Rightarrow> fs result" where
  "mkdir_new fs p =
     (if is_dir fs (butlast p) then
        rbind (resolve fs (butlast p)) (\<lambda>d.
          if fs_node fs (d @ [last p]) \<noteq> None then Inl (FileExistsError (os_error 17 ''File exists'' p))
          else Inr (dict_set fs (d @ [last p]) Dir))
      else mkdir_parents fs p)"

text \<open>\<open>json.dumps(v, ensure_ascii=False, indent=2)\<close>; an object that is no JSON value raises.\<close>

fun json_ok :: "pyval \<Rightarrow> bool" where
  "json_ok (PList xs) = list_all json_ok xs"
| "json_ok (PTuple xs) = list_all json_ok xs"
| "json_ok (PDict d) = list_all (\<lambda>p. json_ok (snd p)) d"
| "json_ok (PObj r) = False"
| "json_ok v = True"

definition json_dumps_indent :: "(rat \<Rightarrow> string) \<Rightarrow> pyval \<Rightarrow> string result" where
  "json_dumps_indent frepr v =
     (if json_ok v then Inr (json_pretty frepr 0 v)
      else Inl (TypeError ''Object of type object is not JSON serializable''))"

text \<open>\<open>open("a")\<close> and one write.\<close>

definition append_text :: "fs \<Rightarrow> path \<Rightarrow> string \<Rightarrow> fs result" where
  "append_text fs p s = rbind (resolve fs p) (\<lambda>q. case fs_node fs q of
       Some (File old) \<Rightarrow> Inr (dict_set fs q (File (old @ s)))
     | _ \<Rightarrow> write_text fs p s)"

subsection \<open>The result directory\<close>

definition step_name :: "int \<Rightarrow> string" where
  "step_name rollout_step = ''step_'' @ int_str rollout_step"

definition sample_name :: "string \<Rightarrow> int \<Rightarrow> string" where
  "sample_name task_id rollout_n = safe_name task_id @ ''_sample_'' @ int_str rollout_n"

definition retry_name :: "string \<Rightarrow> int \<Rightarrow> string \<Rightarrow> string" where
  "retry_name task_id rollout_n request_id = sample_name task_id rollout_n @ ''_'' @ take 8 (safe_name request_id)"

definition temp_prefix :: "string \<Rightarrow> string \<Rightarrow> string" where
  "temp_prefix task_id request_id = safe_name task_id @ ''_'' @ take 12 (safe_name request_id) @ ''_''"

definition make_dir_at :: "fs \<Rightarrow> path \<Rightarrow> path result \<times> fs" where
  "make_dir_at fs d = keep fs (mkdir_new fs d) (\<lambda>fs1. (Inr d, fs1))"

definition make_result_dir ::
  "nano_env \<Rightarrow> fs \<Rightarrow> (string, pyval) dict \<Rightarrow> string \<Rightarrow> string \<Rightarrow> path \<Rightarrow> path result \<times> fs" where
  "make_result_dir ne fs task_config request_id task_id temp_root =
     (case (optional_int (pget task_config ''rollout_step''), optional_int (pget task_config ''rollout_n'')) of
        (Some rollout_step, Some rollout_n) \<Rightarrow>
          (let step_dir = temp_root @ [step_name rollout_step];
               result_dir = step_dir @ [sample_name task_id rollout_n]
           in if stat_node fs result_dir = None then make_dir_at fs result_dir
              else if bool_config (pget task_config ''strict_result_dir'') False then
                (Inl (FileExistsError (''canonical Nanoclaw result directory already exists in strict mode: '' @
                   ''task_id='' @ repr_string task_id @ '', rollout_step='' @ int_str rollout_step @ '', rollout_n='' @
                   int_str rollout_n @ '', path='' @ full_path result_dir @ '', request_id='' @ request_id)), fs)
              else make_dir_at fs (step_dir @ [retry_name task_id rollout_n request_id]))
      | _ \<Rightarrow>
          (let prefix = temp_prefix task_id request_id
           in make_dir_at fs (temp_root @ [prefix @ ne_fresh ne fs temp_root prefix])))"

subsection \<open>The task bundle\<close>

definition bundle_skip :: "string list" where
  "bundle_skip = [''workspace_before'', ''workspace_after'', ''workplace_before'', ''workplace_after'', ''__pycache__'']"

text \<open>\<open>shutil.copy2\<close>: into the directory when the destination is one.\<close>

definition copy_file :: "fs \<Rightarrow> path \<Rightarrow> path \<Rightarrow> fs result" where
  "copy_file fs src dst =
     (let dst' = (if is_dir fs dst then dst @ [path_name src] else dst) in
      case stat_node fs src of
        Some (File content) \<Rightarrow> write_text fs dst' content
      | Some Dir \<Rightarrow> Inl (IsADirectoryError (os_error 21 ''Is a directory'' src))
      | _ \<Rightarrow> Inl (FileNotFoundError (os_error 2 ''No such file or directory'' src)))"

definition committed :: "fs \<Rightarrow> fs result \<Rightarrow> unit result \<times> fs" where
  "committed fs r = keep fs r (\<lambda>fs1. (Inr (), fs1))"

definition copy_child :: "nano_env \<Rightarrow> path \<Rightarrow> fs \<Rightarrow> path \<Rightarrow> unit result \<times> fs" where
  "copy_child ne result_dir fs child =
     (let destination = result_dir @ [path_name child] in
      if path_name child \<in> set bundle_skip then (Inr (), fs)
      else if is_dir fs child then ne_copytree ne True fs child destination
      else if is_file fs child then committed fs (copy_file fs child destination)
      else (Inr (), fs))"

definition copy_named :: "nano_env \<Rightarrow> path \<Rightarrow> fs \<Rightarrow> string \<times> pyval \<Rightarrow> unit result \<times> fs" where
  "copy_named ne result_dir fs named =
     (let (output_name, source_value) = named; destination = result_dir @ [output_name] in
      if \<not> py_truthy source_value then (Inr (), fs)
      else keep fs (resolved_path ne fs source_value) (\<lambda>source_path.
        if is_file fs source_path \<and> stat_node fs destination = None then committed fs (copy_file fs source_path destination)
        else (Inr (), fs)))"

text \<open>Copies stop at the first failure; what was copied before stays.\<close>

fun fold_keep :: "(fs \<Rightarrow> 'a \<Rightarrow> unit result \<times> fs) \<Rightarrow> fs \<Rightarrow> 'a list \<Rightarrow> unit result \<times> fs" where
  "fold_keep f fs [] = (Inr (), fs)"
| "fold_keep f fs (x # xs) = (case f fs x of (Inl e, fs1) \<Rightarrow> (Inl e, fs1) | (Inr _, fs1) \<Rightarrow> fold_keep f fs1 xs)"

definition copy_task_bundle :: "nano_env \<Rightarrow> fs \<Rightarrow> (string, pyval) dict \<Rightarrow> path \<Rightarrow> unit result \<times> fs" where
  "copy_task_bundle ne fs task_config result_dir =
     (let named = [(''env_builder.py'', pget task_config ''env_builder_path''), (''manifest.json'', pget task_config ''manifest_path'')];
          task_dir_value = pget task_config ''task_dir''
      in if \<not> py_truthy task_dir_value then fold_keep (copy_named ne result_dir) fs named
         else keep fs (resolved_path ne fs task_dir_value) (\<lambda>task_dir.
           if \<not> is_dir fs task_dir then fold_keep (copy_named ne result_dir) fs named
           else case fold_keep (copy_child ne result_dir) fs (children fs task_dir) of
             (Inl e, fs1) \<Rightarrow> (Inl e, fs1)
           | (Inr _, fs1) \<Rightarrow> fold_keep (copy_named ne result_dir) fs1 named))"

subsection \<open>The environment builder\<close>

definition env_builder_code :: string where
  "env_builder_code = py_join [newline]
     [''import runpy, sys'',
      ''namespace = runpy.run_path(sys.argv[1], run_name='' @ repr_string ''__nanoclaw_env_builder__'' @ '')'',
      ''build_env = namespace.get('' @ repr_string ''build_env'' @ '')'',
      ''if callable(build_env):'',
      ''    build_env()''] @ [newline]"

definition run_env_builder ::
  "nano_env \<Rightarrow> fs \<Rightarrow> path \<Rightarrow> path \<Rightarrow> rat \<Rightarrow> (string, pyval) dict result \<times> fs" where
  "run_env_builder ne fs env_builder_path workspace timeout =
     (case run_in_workspace (ne_host ne) fs workspace
         [ne_executable ne, ''-c'', env_builder_code, full_path env_builder_path] timeout of
        (Inl e, fs1) \<Rightarrow> (Inl e, fs1)
      | (Inr (TimedOut out err), fs1) \<Rightarrow>
          (Inl (RuntimeError (''env_builder.py timed out after '' @ format_g (ne_host ne) timeout @ ''s'')), fs1)
      | (Inr (Completed returncode out err), fs1) \<Rightarrow>
          if returncode \<noteq> 0 then
            (Inl (RuntimeError (''env_builder.py failed for '' @ full_path env_builder_path @ '' with code '' @
               int_str returncode @ [newline] @ ''stdout:'' @ [newline] @ out @ [newline, newline] @ ''stderr:'' @
               [newline] @ err)), fs1)
          else (Inr [(''returncode'', PInt returncode), (''stdout'', PStr out), (''stderr'', PStr err),
                     (''elapsed_seconds'', PFloat (ne_elapsed ne))], fs1))"

subsection \<open>Preparing a workspace\<close>

datatype prepared = Prepared "(string, pyval) dict" | SetupError string "(string, pyval) dict" | Raised py_exc

definition write_runtime_metadata :: "nano_env \<Rightarrow> fs \<Rightarrow> (string, pyval) dict \<Rightarrow> fs result" where
  "write_runtime_metadata ne fs state =
     rbind (json_dumps_indent (ne_frepr ne) (PDict state)) (\<lambda>payload.
       write_text fs (abs_path ne (py_str (ne_frepr ne) (pget state ''result_dir'')) @ [''nanoclaw_metadata.json''])
         (payload @ [newline]))"

text \<open>
  The guarded steps: the bundle, the environment builder and the saved copy of the workspace.  The state as
  it stands when a step raises, or at the end, is part of the result.
\<close>

type_synonym build = "(py_exc option \<times> (string, pyval) dict) \<times> fs"

definition build_workspace ::
  "nano_env \<Rightarrow> fs \<Rightarrow> (string, pyval) dict \<Rightarrow> path \<Rightarrow> path \<Rightarrow> (string, pyval) dict \<Rightarrow> build" where
  "build_workspace ne fs task_config result_dir env_builder_path state =
     (let workspace_after = result_dir @ [''workspace_after''] in
      case copy_task_bundle ne fs task_config result_dir of
        (Inl e, fs1) \<Rightarrow> ((Some e, state), fs1)
      | (Inr _, fs1) \<Rightarrow>
          (case cfg_float ne (pget task_config ''env_builder_timeout'') 120 of
             Inl e \<Rightarrow> ((Some e, state), fs1)
           | Inr timeout \<Rightarrow>
               (case run_env_builder ne fs1 env_builder_path workspace_after timeout of
                  (Inl e, fs2) \<Rightarrow> ((Some e, state), fs2)
                | (Inr env_result, fs2) \<Rightarrow>
                    (let built = dict_set state ''env_builder'' (PDict env_result) in
                     if bool_config (pget task_config ''save_workspace_before'') False then
                       (case ne_copytree ne False fs2 workspace_after (result_dir @ [''workspace_before'']) of
                          (Inl e, fs3) \<Rightarrow> ((Some e, built), fs3)
                        | (Inr _, fs3) \<Rightarrow> ((None, dict_set built ''status'' (PStr ''ready'')), fs3))
                     else ((None, dict_set built ''status'' (PStr ''ready'')), fs2)))))"

definition initial_state ::
  "nano_env \<Rightarrow> (string, pyval) dict \<Rightarrow> string \<Rightarrow> string \<Rightarrow> path \<Rightarrow> path \<Rightarrow> path \<Rightarrow> path option \<Rightarrow> (string, pyval) dict" where
  "initial_state ne task_config task_id source result_dir prompt_path env_builder_path verifier_path =
     (let save = bool_config (pget task_config ''save_workspace_before'') False in
      [(''task_id'', PStr task_id), (''status'', PStr ''initializing''), (''source'', PStr source),
       (''result_dir'', PStr (full_path result_dir)),
       (''workspace_after'', PStr (full_path (result_dir @ [''workspace_after'']))),
       (''workspace_before'', if save then PStr (full_path (result_dir @ [''workspace_before''])) else PNone),
       (''save_workspace_before'', PBool save),
       (''base_tasks'', pget task_config ''base_tasks''), (''task_dir'', pget task_config ''task_dir''),
       (''prompt_path'', PStr (full_path prompt_path)), (''env_builder_path'', PStr (full_path env_builder_path)),
       (''verifier_path'', opt_path verifier_path), (''original_verifier_path'', opt_path verifier_path),
       (''created_at'', PStr (ne_now ne)),
       (''rollout_step'', pget task_config ''rollout_step''),
       (''rollout_sample_index'', pget task_config ''rollout_sample_index''),
       (''rollout_n'', pget task_config ''rollout_n''), (''validate'', pget task_config ''validate''),
       (''cleanup_workspace'', PBool (bool_config (pget task_config ''cleanup_workspace'') True)),
       (''keep_failed_workspace'', PBool (bool_config (pget task_config ''keep_failed_workspace'') False)),
       (''task_config'', PDict task_config), (''tool_call_count'', PInt 0)])"

definition raised :: "'a result \<times> fs \<Rightarrow> ('a \<Rightarrow> fs \<Rightarrow> prepared \<times> fs) \<Rightarrow> prepared \<times> fs" where
  "raised r f = (case r of (Inl e, fs) \<Rightarrow> (Raised e, fs) | (Inr x, fs) \<Rightarrow> f x fs)"

text \<open>A required entry of the configuration, resolved.\<close>

definition required_path :: "nano_env \<Rightarrow> fs \<Rightarrow> (string, pyval) dict \<Rightarrow> string \<Rightarrow> path result" where
  "required_path ne fs task_config key = (case dict_get task_config key of
     None \<Rightarrow> Inl (KeyError key) | Some v \<Rightarrow> resolved_path ne fs v)"

definition finish_workspace :: "nano_env \<Rightarrow> build \<Rightarrow> prepared \<times> fs" where
  "finish_workspace ne built = (case built of
     ((None, state), fs) \<Rightarrow>
       (case write_runtime_metadata ne fs state of Inl e \<Rightarrow> (Raised e, fs) | Inr fs1 \<Rightarrow> (Prepared state, fs1))
   | ((Some setup_exc, state), fs) \<Rightarrow>
       (let msg = exc_name setup_exc @ '': '' @ exc_text setup_exc;
            failed = dict_set (dict_set state ''status'' (PStr ''setup_failed'')) ''setup_error'' (PStr msg)
        in case write_runtime_metadata ne fs failed of Inl e \<Rightarrow> (Raised e, fs) | Inr fs1 \<Rightarrow> (SetupError msg failed, fs1)))"

definition prepare_workspace ::
  "nano_env \<Rightarrow> fs \<Rightarrow> (string, pyval) dict \<Rightarrow> string \<Rightarrow> string \<Rightarrow> prepared \<times> fs" where
  "prepare_workspace ne fs task_config request_id source =
     (let task_id = py_str (ne_frepr ne) (py_or (pget task_config ''task_id'') (PStr ''unknown_task'')) in
      raised (resolved_path ne fs (py_or (pget task_config ''temp_root'') (PStr default_temp_root)), fs) (\<lambda>temp_root fs.
      raised (committed fs (mkdir_exist_ok fs temp_root)) (\<lambda>_ fs1.
      raised (make_result_dir ne fs1 task_config request_id task_id temp_root) (\<lambda>result_dir fs2.
      raised (committed fs2 (mkdir_new fs2 (result_dir @ [''workspace_after'']))) (\<lambda>_ fs3.
      raised (required_path ne fs3 task_config ''env_builder_path'', fs3) (\<lambda>env_builder_path fs3.
      raised (required_path ne fs3 task_config ''prompt_path'', fs3) (\<lambda>prompt_path fs3.
      raised (if py_truthy (pget task_config ''verifier_path'')
              then map_sum id Some (resolved_path ne fs3 (pget task_config ''verifier_path'')) else Inr None, fs3)
        (\<lambda>verifier_path fs3.
          let state = initial_state ne task_config task_id source result_dir prompt_path env_builder_path verifier_path
          in finish_workspace ne (build_workspace ne fs3 task_config result_dir env_builder_path state)))))))))"

subsection \<open>Result directories are fresh\<close>

lemma mkdir_new_spec:
  assumes ok: "fs_ok fs" and p: "plain fs (butlast p)" "p \<noteq> []" "last p \<noteq> ''..''" and m: "mkdir_new fs p = Inr fs'"
  shows "dict_get fs p = None \<and> fs_ok fs' \<and> same_links fs fs' \<and> fs_node fs' p = Some Dir \<and>
    (\<forall>q. dict_get fs' q = (if dict_get fs q = None \<and> q \<noteq> [] \<and> prefix q p then Some Dir else dict_get fs q))"
proof (cases "is_dir fs (butlast p)")
  case True
  have parent: "fs_node fs (butlast p) = Some Dir" and r: "resolve fs (butlast p) = Inr (butlast p)"
    using True resolve_of_plain [OF p(1)] by (auto simp: is_dir_def stat_node_def)
  from m True r p(2) have new: "dict_get fs p = None" and fs': "fs' = dict_set fs p Dir"
    by (auto simp: mkdir_new_def fs_node_def split: if_split_asm)
  have up: "dict_get fs q \<noteq> None" if "prefix q p" "q \<noteq> []" "q \<noteq> p" for q
  proof -
    have "prefix q (butlast p)" using that p(2) by (metis append_butlast_last_id prefix_snoc)
    then have "q = butlast p \<or> strict_prefix q (butlast p)" by (auto simp: strict_prefix_def)
    then have "fs_node fs q = Some Dir" using parent fs_ok_ancestor [OF ok, of "butlast p" q] by auto
    then show ?thesis using that by (simp add: fs_node_def)
  qed
  have "plain fs p" using plain_snoc [OF p(1,3)] new p(2) by simp
  then have "same_links fs fs'" unfolding fs' by (intro same_links_set) simp_all
  moreover have "fs_ok fs'" unfolding fs' using ok p(2) parent by (intro fs_ok_set) simp_all
  ultimately show ?thesis using new up p(2) by (auto simp: fs' fs_node_def)
next
  case False
  have new: "dict_get fs p = None"
  proof (rule ccontr)
    assume "dict_get fs p \<noteq> None"
    then have "fs_node fs (butlast p) = Some Dir" using ok by (auto simp: fs_ok_def)
    then show False using False resolve_of_plain [OF p(1)] by (simp add: is_dir_def stat_node_def)
  qed
  then have pl: "plain fs p" using plain_snoc [OF p(1,3)] p(2) by simp
  have "mkdir_from p fs [] p = Inr fs'" using m False by (simp add: mkdir_new_def mkdir_parents_def)
  from mkdir_from_spec [OF this ok] pl new show ?thesis by (simp add: fs_node_def strict_prefix_def)
qed

lemma safe_name_chars: "set (safe_name s) \<subseteq> Collect name_char"
proof -
  have runs: "set (sub_runs (\<lambda>c. \<not> name_char c) ''_'' t) \<subseteq> Collect name_char" for t
  proof (induction "\<lambda>c. \<not> name_char c" "''_''" t rule: sub_runs.induct)
    case (2 c s)
    then show ?case by (auto simp: name_char_def)
  qed simp
  have strip: "set (strip_chars cs t) \<subseteq> set t" for cs t
    by (auto simp: strip_chars_def dest!: set_dropWhileD)
  have "set ''task'' \<subseteq> Collect name_char" by code_simp
  then show ?thesis using runs [of s] strip [of "''._''" "sub_runs (\<lambda>c. \<not> name_char c) ''_'' s"]
    by (auto simp: safe_name_def Let_def)
qed

text \<open>The directory is the canonical one or carries a request prefix; both lie strictly below the root.\<close>

lemma names_ok:
  "step_name i \<noteq> ''..''" "sample_name tid n \<noteq> ''..''" "retry_name tid n rid \<noteq> ''..''" "temp_prefix tid rid @ s \<noteq> ''..''"
proof -
  have "s \<noteq> ''..''" if "CHR ''_'' \<in> set s" for s using that by auto
  then show "step_name i \<noteq> ''..''" "sample_name tid n \<noteq> ''..''" "retry_name tid n rid \<noteq> ''..''"
    "temp_prefix tid rid @ s \<noteq> ''..''"
    by (simp_all add: step_name_def sample_name_def retry_name_def temp_prefix_def)
qed

lemma make_result_dir_Inr:
  assumes "make_result_dir ne fs tc rid tid base = (Inr d, fs')"
  obtains name where "mkdir_new fs d = Inr fs'" "name \<noteq> ''..''"
    "d = base @ [name] \<or> (\<exists>i. d = base @ [step_name i, name])"
proof -
  define below where "below p \<longleftrightarrow> (\<exists>s. p = base @ [temp_prefix tid rid @ s]) \<or>
      (\<exists>i n. p = base @ [step_name i, sample_name tid n]) \<or> (\<exists>i n. p = base @ [step_name i, retry_name tid n rid])" for p
  have b: "below (base @ [temp_prefix tid rid @ s])" "below (base @ [step_name i, sample_name tid n])"
    "below (base @ [step_name i, retry_name tid n rid])" for s i n
    unfolding below_def by blast+
  have "\<exists>p. make_dir_at fs p = (Inr d, fs') \<and> below p"
    using assms b unfolding make_result_dir_def Let_def
    by (cases "optional_int (pget tc ''rollout_step'')"; cases "optional_int (pget tc ''rollout_n'')")
      (auto split: if_split_asm)
  then have m: "mkdir_new fs d = Inr fs'" and bd: "below d" by (auto simp: make_dir_at_def keep_Inr)
  from bd consider (temp) s where "d = base @ [temp_prefix tid rid @ s]"
    | (canonical) i n where "d = base @ [step_name i, sample_name tid n]"
    | (retry) i n where "d = base @ [step_name i, retry_name tid n rid]"
    unfolding below_def by blast
  then show thesis
  proof cases
    case temp
    show thesis by (rule that [OF m names_ok(4) disjI1 [OF temp]])
  next
    case canonical
    show thesis by (rule that [OF m names_ok(2) disjI2 [OF exI [of _ i]]]) (rule canonical)
  next
    case retry
    show thesis by (rule that [OF m names_ok(3) disjI2 [OF exI [of _ i]]]) (rule retry)
  qed
qed

text \<open>
  A result directory is always new and strictly below the temporary root: it did not exist before, exists
  afterwards, and every file and directory that existed is unchanged, so no two rollouts share one.
\<close>

theorem result_dir_fresh:
  assumes ok: "fs_ok fs" and base: "plain fs base" "\<And>i. plain fs (base @ [step_name i])"
    and made: "make_result_dir ne fs tc rid tid base = (Inr d, fs')"
  shows "dict_get fs d = None \<and> fs_node fs' d = Some Dir \<and> strict_prefix base d \<and> fs_ok fs' \<and> same_links fs fs' \<and>
    (\<forall>p x. dict_get fs p = Some x \<longrightarrow> dict_get fs' p = Some x)"
proof -
  obtain name where m: "mkdir_new fs d = Inr fs'" and n: "name \<noteq> ''..''"
    and d: "d = base @ [name] \<or> (\<exists>i. d = base @ [step_name i, name])"
    using made by (rule make_result_dir_Inr)
  have "plain fs (butlast d)" "last d = name" "d \<noteq> []" using base d by (auto simp: butlast_append)
  note d' = this
  have "strict_prefix base d" using d by (auto simp: strict_prefix_def)
  then show ?thesis using mkdir_new_spec [OF ok d'(1,3) _ m] d'(2) n by simp
qed

text \<open>
  C40. In non-strict mode the fallback name holds only the first eight characters of the request id: when the
  canonical directory exists, a second request whose id agrees in them fails.  Every request of the reward
  function begins with \<open>reward_\<close>, so only one of its random characters counts.
\<close>

theorem result_dir_collision:
  assumes ok: "fs_ok fs" and step: "plain fs (base @ [step_name i])"
    and cfg: "optional_int (pget tc ''rollout_step'') = Some i" "optional_int (pget tc ''rollout_n'') = Some n"
      "\<not> bool_config (pget tc ''strict_result_dir'') False"
    and canonical: "dict_get fs (base @ [step_name i, sample_name tid n]) = Some Dir"
    and same: "take 8 (safe_name r1) = take 8 (safe_name r2)"
    and first: "make_result_dir ne fs tc r1 tid base = (Inr d, fs1)"
  shows "\<exists>msg. make_result_dir ne fs1 tc r2 tid base = (Inl (FileExistsError msg), fs1)"
proof -
  let ?c = "base @ [step_name i, sample_name tid n]" and ?d = "base @ [step_name i, retry_name tid n r1]"
  have stat: "\<exists>x. stat_node g ?c = Some x" if "dict_get g ?c = Some Dir" "plain g (base @ [step_name i])" for g
    using that plain_snoc [OF that(2) names_ok(2)] resolve_of_plain [of g ?c] by (simp add: stat_node_def fs_node_def)
  have other: "make_result_dir ne g tc r tid base = make_dir_at g (base @ [step_name i, retry_name tid n r])"
    if "dict_get g ?c = Some Dir" "plain g (base @ [step_name i])" for g r
    using cfg stat [OF that] by (auto simp: make_result_dir_def Let_def)
  have m: "mkdir_new fs ?d = Inr fs1" using first other [OF canonical step] by (auto simp: make_dir_at_def keep_Inr)
  have s: "fs_ok fs1 \<and> same_links fs fs1 \<and> fs_node fs1 ?d = Some Dir \<and> (\<forall>p x. dict_get fs p = Some x \<longrightarrow> dict_get fs1 p = Some x)"
    using mkdir_new_spec [OF ok _ _ _ m] step names_ok by (simp add: butlast_append)
  then have canonical1: "dict_get fs1 ?c = Some Dir" and step1: "plain fs1 (base @ [step_name i])"
    using canonical step same_links_plain by blast+
  have "fs_node fs1 (base @ [step_name i]) = Some Dir"
    using s canonical1 by (auto simp: fs_ok_def butlast_append dest!: spec [of _ ?c])
  then have "mkdir_new fs1 ?d = Inl (FileExistsError (os_error 17 ''File exists'' ?d))"
    using s resolve_of_plain [OF step1] by (simp add: mkdir_new_def butlast_append is_dir_def stat_node_def)
  then show ?thesis
    using same other [OF canonical1 step1, of r2] by (simp add: make_dir_at_def retry_name_def keep_def)
qed

subsection \<open>Outcomes of the preparation\<close>

lemma build_workspace_state:
  assumes "build_workspace ne fs tc d eb state = ((r, state'), fs')"
  shows "(k \<notin> {''env_builder'', ''status''} \<longrightarrow> dict_get state' k = dict_get state k) \<and>
    (r = None \<longrightarrow> dict_get state' ''status'' = Some (PStr ''ready''))"
  using assms by (auto simp: build_workspace_def Let_def split: prod.splits sum.splits if_split_asm)

lemma finish_workspace_cases:
  assumes "finish_workspace ne ((r, state), fs) = (out, fs')"
  shows "(\<exists>e. out = Raised e) \<or>
    (r = None \<and> out = Prepared state \<and> write_runtime_metadata ne fs state = Inr fs') \<or>
    (\<exists>msg failed. r \<noteq> None \<and> out = SetupError msg failed \<and> write_runtime_metadata ne fs failed = Inr fs' \<and>
       failed = dict_set (dict_set state ''status'' (PStr ''setup_failed'')) ''setup_error'' (PStr msg))"
  using assms by (auto simp: finish_workspace_def Let_def split: option.splits sum.splits)

lemma raised_cases:
  assumes "raised r f = (out, fs')"
  shows "(\<exists>e. out = Raised e) \<or> (\<exists>x fs. r = (Inr x, fs) \<and> f x fs = (out, fs'))"
  using assms by (auto simp: raised_def split: prod.splits sum.splits)

lemma prepare_workspace_finish:
  assumes "prepare_workspace ne fs tc rid src = (out, fs')" "\<not> (\<exists>e. out = Raised e)"
  obtains task_id d pp eb vp fs1 where
    "finish_workspace ne (build_workspace ne fs1 tc d eb (initial_state ne tc task_id src d pp eb vp)) = (out, fs')"
  using assms unfolding prepare_workspace_def Let_def
  by (auto dest!: raised_cases)

lemma prepare_workspace_state:
  assumes "prepare_workspace ne fs tc rid src = (out, fs')"
    and "out = Prepared state \<or> out = SetupError msg state"
  shows "pget state ''status'' = PStr (if out = Prepared state then ''ready'' else ''setup_failed'') \<and>
    (out = SetupError msg state \<longrightarrow> pget state ''setup_error'' = PStr msg) \<and>
    py_truthy (pget state ''workspace_after'') \<and> pget state ''tool_call_count'' = PInt 0 \<and>
    pget state ''task_config'' = PDict tc \<and> (\<exists>fs1. write_runtime_metadata ne fs1 state = Inr fs')"
proof -
  have nr: "\<not> (\<exists>e. out = Raised e)" using assms(2) by auto
  obtain task_id d pp eb vp fs1 where
    "finish_workspace ne (build_workspace ne fs1 tc d eb (initial_state ne tc task_id src d pp eb vp)) = (out, fs')"
    using assms(1) nr by (rule prepare_workspace_finish)
  moreover obtain r st fs2 where b: "build_workspace ne fs1 tc d eb (initial_state ne tc task_id src d pp eb vp) = ((r, st), fs2)"
    by (metis prod.exhaust)
  ultimately have f: "finish_workspace ne ((r, st), fs2) = (out, fs')" by simp
  have st: "dict_get st ''workspace_after'' = Some (PStr (full_path (d @ [''workspace_after''])))"
    "dict_get st ''tool_call_count'' = Some (PInt 0)" "dict_get st ''task_config'' = Some (PDict tc)"
    "r = None \<Longrightarrow> dict_get st ''status'' = Some (PStr ''ready'')"
    using build_workspace_state [OF b, of "''workspace_after''"] build_workspace_state [OF b, of "''tool_call_count''"]
      build_workspace_state [OF b, of "''task_config''"]
    by (simp_all add: initial_state_def Let_def)
  have truthy: "py_truthy (PStr (full_path p))" for p by (simp add: py_truthy_def full_path_def)
  show ?thesis
    using finish_workspace_cases [OF f] nr assms(2) st truthy
    by (auto simp: pget_def dict_get_default_def)
qed

text \<open>
  A prepared state is ready; a failed preparation leaves a state that is marked as failed, carries the
  message and still names its workspace; in both cases exactly this state was written to the metadata file.
\<close>

theorem prepare_workspace_outcome:
  assumes "prepare_workspace ne fs tc rid src = (out, fs')"
    and "out = Prepared state \<or> out = SetupError msg state"
  shows "pget state ''status'' = PStr (if out = Prepared state then ''ready'' else ''setup_failed'') \<and>
    (out = SetupError msg state \<longrightarrow> pget state ''setup_error'' = PStr msg) \<and>
    py_truthy (pget state ''workspace_after'') \<and> pget state ''tool_call_count'' = PInt 0 \<and>
    pget state ''task_config'' = PDict tc \<and> (\<exists>fs1. write_runtime_metadata ne fs1 state = Inr fs')"
  using assms by (rule prepare_workspace_state)

subsection \<open>Examples\<close>

definition example_env :: nano_env where
  "example_env = \<lparr>ne_host = logging_host\<lparr>launch := (\<lambda>argv ws env timeout fs. (Inr (Completed 0 '''' ''''), fs))\<rparr>, ne_frepr = (\<lambda>q. ''1.0''), ne_parse_float = (\<lambda>s. None),
     ne_json_loads = (\<lambda>s. Inl (JSONDecodeError ''Expecting value'')), ne_expanduser = id, ne_cwd = [''root''],
     ne_executable = ''/py'', ne_fresh = (\<lambda>fs d p. ''k3a''), ne_copytree = (\<lambda>b fs s d. (Inr (), fs)),
     ne_now = ''now'', ne_elapsed = 1\<rparr>"

definition task_fs :: fs where
  "task_fs = [([''tmp''], Dir), ([''t''], Dir), ([''t'', ''env_builder.py''], File ''x''), ([''t'', ''task.md''], File ''Sum up.'')]"

definition example_config :: "(string, pyval) dict" where
  "example_config = [(''temp_root'', PStr ''/tmp''), (''task_dir'', PStr ''/t''),
     (''env_builder_path'', PStr ''/t/env_builder.py''), (''prompt_path'', PStr ''/t/task.md''),
     (''rollout_step'', PInt 3), (''rollout_n'', PInt 0)]"

definition second_fs :: fs where
  "second_fs = task_fs @ [([''tmp'', ''step_3''], Dir), ([''tmp'', ''step_3'', ''data_1_sample_0''], Dir)]"

lemma no_links_plain:
  assumes "''..'' \<notin> set p" "list_all (\<lambda>e. case snd e of Link _ \<Rightarrow> False | _ \<Rightarrow> True) fs"
  shows "plain fs p"
proof -
  have "dict_get fs q \<noteq> Some (Link t)" for q t
    using assms(2) map_of_SomeD [of fs q] by (fastforce simp: list_all_iff split: node.splits)
  then show ?thesis using assms(1) by (simp add: plain_def)
qed

lemma result_dir_fresh_witness:
  "dict_get task_fs [''tmp'', ''step_3'', ''data_1_sample_0''] = None \<and>
   fs_node second_fs [''tmp'', ''step_3'', ''data_1_sample_0''] = Some Dir"
proof -
  have ok: "fs_ok task_fs" "list_all (\<lambda>e. case snd e of Link _ \<Rightarrow> False | _ \<Rightarrow> True) task_fs" by code_simp+
  have run: "make_result_dir example_env task_fs example_config ''abc'' ''data 1'' [''tmp''] =
      (Inr [''tmp'', ''step_3'', ''data_1_sample_0''], second_fs)"
    by code_simp
  have "plain task_fs [''tmp'']" "\<And>i. plain task_fs ([''tmp''] @ [step_name i])"
    using names_ok(1) by (auto intro!: no_links_plain ok(2) simp: not_sym)
  from result_dir_fresh [OF ok(1) this run] show ?thesis by simp
qed

lemma result_dir_collision_witness:
  "\<exists>d fs1 msg. make_result_dir example_env second_fs example_config ''reward_1a'' ''data 1'' [''tmp''] = (Inr d, fs1) \<and>
     make_result_dir example_env fs1 example_config ''reward_1b'' ''data 1'' [''tmp''] = (Inl (FileExistsError msg), fs1)"
proof -
  let ?r = "make_result_dir example_env second_fs example_config ''reward_1a'' ''data 1'' [''tmp'']"
  have ok: "fs_ok second_fs" "list_all (\<lambda>e. case snd e of Link _ \<Rightarrow> False | _ \<Rightarrow> True) second_fs" by code_simp+
  have pl: "plain second_fs ([''tmp''] @ [step_name 3])"
    using names_ok(1) [of 3] by (intro no_links_plain ok(2)) (auto simp: not_sym)
  have cfg: "optional_int (pget example_config ''rollout_step'') = Some 3" "optional_int (pget example_config ''rollout_n'') = Some 0"
    "\<not> bool_config (pget example_config ''strict_result_dir'') False"
    "dict_get second_fs ([''tmp''] @ [step_name 3, sample_name ''data 1'' 0]) = Some Dir"
    "take 8 (safe_name ''reward_1a'') = take 8 (safe_name ''reward_1b'')"
    by code_simp+
  have "fst ?r = Inr [''tmp'', ''step_3'', ''data_1_sample_0_reward_1'']" by code_simp
  then have run: "?r = (Inr [''tmp'', ''step_3'', ''data_1_sample_0_reward_1''], snd ?r)" by (metis prod.collapse)
  from result_dir_collision [OF ok(1) pl cfg run] run show ?thesis by blast
qed

lemma prepare_workspace_outcome_witness:
  "\<exists>state fs'. prepare_workspace example_env task_fs example_config ''abc'' ''tool'' = (Prepared state, fs') \<and>
     pget state ''status'' = PStr ''ready''"
proof -
  let ?r = "prepare_workspace example_env task_fs example_config ''abc'' ''tool''"
  have "(case fst ?r of Prepared _ \<Rightarrow> True | _ \<Rightarrow> False)" by code_simp
  then obtain state where s: "fst ?r = Prepared state" by (auto split: prepared.splits)
  then have "?r = (Prepared state, snd ?r)" by (cases ?r) simp
  from prepare_workspace_outcome [OF this, of state] this show ?thesis by fastforce
qed

end
