(* ===== verification/NanoTool.thy ===== *)
theory NanoTool
  imports NanoWorkspace
begin

text \<open>
  The workspace tool of \<open>nanoclaw_recipe/nanoclaw.py\<close>: the workspace of a rollout is prepared at the
  first call and kept under the key \<open>nanoclaw\<close> of the agent's extra fields; each call is dispatched
  by the name of the tool, and recorded in \<open>tool_events.jsonl\<close> and the metadata file.
\<close>

subsection \<open>Surroundings\<close>

record tool_env =
  te_nano :: nano_env
  te_glob :: "fs \<Rightarrow> path \<Rightarrow> string \<Rightarrow> path list result"
  te_re_compile :: "string \<Rightarrow> string + (string \<Rightarrow> bool)"
  te_uuid :: string

record nano_tool =
  nt_name :: string
  nt_config :: "(string, pyval) dict"

text \<open>What the tool reads of \<open>agent_data\<close>.\<close>

record tool_agent =
  ta_request_id :: string
  ta_tools_kwargs :: pyval
  ta_extra_fields :: "(string, pyval) dict"

fun truncate_for_log :: "nat \<Rightarrow> pyval \<Rightarrow> pyval" where
  "truncate_for_log limit (PStr s) = PStr (if length s \<le> limit then s else take limit s @ ''...(truncated)'')"
| "truncate_for_log limit (PDict d) = PDict (map (\<lambda>p. (fst p, truncate_for_log limit (snd p))) d)"
| "truncate_for_log limit (PList xs) = PList (map (truncate_for_log limit) xs)"
| "truncate_for_log limit v = v"

text \<open>\<open>json.dumps(v, ensure_ascii=False)\<close> of a JSON value.\<close>

fun json_spaced :: "(rat \<Rightarrow> string) \<Rightarrow> pyval \<Rightarrow> string" where
  "json_spaced frepr PNone = ''null''"
| "json_spaced frepr (PBool b) = (if b then ''true'' else ''false'')"
| "json_spaced frepr (PInt n) = int_str n"
| "json_spaced frepr (PFloat q) = frepr q"
| "json_spaced frepr (PStr s) = json_string s"
| "json_spaced frepr (PList xs) = ''['' @ py_join '', '' (map (json_spaced frepr) xs) @ '']''"
| "json_spaced frepr (PTuple xs) = ''['' @ py_join '', '' (map (json_spaced frepr) xs) @ '']''"
| "json_spaced frepr (PDict d) =
     ''{'' @ py_join '', '' (map (\<lambda>p. json_string (fst p) @ '': '' @ json_spaced frepr (snd p)) d) @ ''}''"
| "json_spaced frepr (PObj r) = r"

definition json_dumps_line :: "(rat \<Rightarrow> string) \<Rightarrow> pyval \<Rightarrow> string result" where
  "json_dumps_line frepr v =
     (if json_ok v then Inr (json_spaced frepr v)
      else Inl (TypeError ''Object of type object is not JSON serializable''))"

subsection \<open>The workspace of an agent\<close>

definition dict_or_empty :: "pyval \<Rightarrow> (string, pyval) dict" where
  "dict_or_empty v = (case v of PDict d \<Rightarrow> d | _ \<Rightarrow> [])"

fun pick_config :: "pyval list \<Rightarrow> (string, pyval) dict result" where
  "pick_config [] = Inl (ValueError ''missing Nanoclaw task metadata in tools_kwargs'')"
| "pick_config (candidate # candidates) = (case candidate of
     PDict d \<Rightarrow> (case pget d ''nanoclaw'' of
         PDict c \<Rightarrow> Inr c
       | _ \<Rightarrow> if dict_has d ''task_id'' \<and> dict_has d ''env_builder_path'' then Inr d else pick_config candidates)
   | _ \<Rightarrow> pick_config candidates)"

definition task_config_from_agent :: "nano_tool \<Rightarrow> tool_agent \<Rightarrow> (string, pyval) dict result" where
  "task_config_from_agent tool agent =
     (case plain_container (py_or (ta_tools_kwargs agent) (PDict [])) of
        PDict kws \<Rightarrow>
          pick_config
            ((case cget kws (nt_name tool) (PDict []) of
                PDict current \<Rightarrow> [cget current ''create_kwargs'' (PDict current)] | _ \<Rightarrow> []) @
             (case cget kws ''_nanoclaw'' (PDict []) of PDict shared \<Rightarrow> [PDict shared] | _ \<Rightarrow> []))
      | v \<Rightarrow> Inl (AttributeError (repr_string (py_type_name v) @ '' object has no attribute '' @ repr_string ''get'')))"

datatype ensured = Ensured "(string, pyval) dict" | SetupFailed string | EnsureRaised py_exc

definition set_state :: "tool_agent \<Rightarrow> (string, pyval) dict \<Rightarrow> tool_agent" where
  "set_state agent state = agent\<lparr>ta_extra_fields := dict_set (ta_extra_fields agent) ''nanoclaw'' (PDict state)\<rparr>"

definition ensure_workspace :: "tool_env \<Rightarrow> nano_tool \<Rightarrow> tool_agent \<Rightarrow> fs \<Rightarrow> ensured \<times> tool_agent \<times> fs" where
  "ensure_workspace te tool agent fs =
     (let existing = dict_or_empty (pget (ta_extra_fields agent) ''nanoclaw'') in
      if py_truthy (pget existing ''workspace_after'') then (Ensured existing, agent, fs)
      else case task_config_from_agent tool agent of
        Inl e \<Rightarrow> (EnsureRaised e, agent, fs)
      | Inr task_config \<Rightarrow>
          (case prepare_workspace (te_nano te) fs task_config (ta_request_id agent) ''tool'' of
             (Prepared state, fs1) \<Rightarrow> (Ensured state, set_state agent state, fs1)
           | (SetupError msg state, fs1) \<Rightarrow> (SetupFailed msg, set_state agent state, fs1)
           | (Raised e, fs1) \<Rightarrow> (EnsureRaised e, agent, fs1)))"

subsection \<open>Dispatch\<close>

definition limit_of :: "nano_tool \<Rightarrow> (string, pyval) dict \<Rightarrow> string \<Rightarrow> int \<Rightarrow> int result" where
  "limit_of tool parameters key dflt =
     rbind (int_config (pget (nt_config tool) key) dflt) (int_config (pget parameters ''limit''))"

definition text_argument :: "pyval \<Rightarrow> string option result" where
  "text_argument v = (case v of PNone \<Rightarrow> Inr None | PStr s \<Rightarrow> Inr (Some s)
     | _ \<Rightarrow> Inl (AttributeError (repr_string (py_type_name v) @ '' object has no attribute '' @ repr_string ''strip'')))"

definition dispatch_bash ::
  "tool_env \<Rightarrow> nano_tool \<Rightarrow> path \<Rightarrow> (string, pyval) dict \<Rightarrow> (string, pyval) dict \<Rightarrow> fs \<Rightarrow> string result \<times> fs" where
  "dispatch_bash te tool workspace parameters state fs =
     (let ne = te_nano te;
          task_config = dict_or_empty (pget state ''task_config'');
          allow_bash = bool_config (cget task_config ''allow_bash'' (cget (nt_config tool) ''allow_bash'' (PBool True))) True
      in if \<not> allow_bash then (Inr ''Error: bash tool is disabled for this Nanoclaw task.'', fs)
         else keep fs (rbind (cfg_float ne (pget (nt_config tool) ''bash_timeout'') 20) (cfg_float ne (pget parameters ''timeout'')))
           (\<lambda>timeout.
         keep fs (text_argument (pget parameters ''command'')) (\<lambda>cmd.
         keep fs (text_argument (pget parameters ''script'')) (\<lambda>script.
         keep fs (text_argument (cget parameters ''path'' (pget parameters ''script_path''))) (\<lambda>script_path.
           execute_bash (ne_host ne) (te_uuid te) fs workspace cmd script script_path timeout)))))"

definition dispatch ::
  "tool_env \<Rightarrow> nano_tool \<Rightarrow> path \<Rightarrow> (string, pyval) dict \<Rightarrow> (string, pyval) dict \<Rightarrow> fs \<Rightarrow> string result \<times> fs" where
  "dispatch te tool workspace parameters state fs =
     (let frepr = ne_frepr (te_nano te); name = nt_name tool in
      if name = ''list_dir'' then
        (let relative_path = py_str frepr (py_or (pget parameters ''path'') (PStr ''.'')) in
         keep fs (limit_of tool parameters ''list_limit'' 200) (\<lambda>limit.
           if bool_config (cget parameters ''recursive'' (PBool False)) False
           then (list_dir_recursive frepr fs workspace relative_path limit, fs)
           else (list_dir frepr fs workspace relative_path limit, fs)))
      else if name = ''read_file'' then
        keep fs (limit_of tool parameters ''read_limit'' 20000) (\<lambda>limit.
        keep fs (require_path_like parameters) (\<lambda>p. (read_file fs workspace p limit, fs)))
      else if name = ''write_file'' then
        keep fs (require_path_like parameters) (\<lambda>p.
        keep fs (require_string parameters ''content'') (\<lambda>content. write_file fs workspace p content))
      else if name = ''edit_file'' then
        keep fs (require_path_like parameters) (\<lambda>p.
        keep fs (require_string parameters ''old_text'') (\<lambda>old_text.
        keep fs (require_string parameters ''new_text'') (\<lambda>new_text.
          edit_file fs workspace p old_text new_text (bool_config (cget parameters ''replace_all'' (PBool False)) False))))
      else if name = ''apply_patch'' then
        keep fs (parse_patch_changes (ne_json_loads (te_nano te)) parameters) (\<lambda>changes.
          map_prod Inr id (apply_workspace_patch fs workspace changes))
      else if name = ''grep'' then
        keep fs (limit_of tool parameters ''grep_limit'' 200) (\<lambda>limit.
        keep fs (require_string parameters ''pattern'') (\<lambda>pattern.
          (grep_workspace frepr (te_glob te) (te_re_compile te) fs workspace pattern (cget parameters ''glob'' (PStr ''**/*'')) limit, fs)))
      else if name = ''find'' then
        keep fs (limit_of tool parameters ''find_limit'' 200) (\<lambda>limit.
          (find_workspace_files frepr (te_glob te) fs workspace (cget parameters ''pattern'' (PStr ''**/*'')) limit, fs))
      else if name = ''mkdir'' then
        keep fs (require_path_like parameters) (\<lambda>p. make_dir fs workspace p)
      else if name = ''bash'' then dispatch_bash te tool workspace parameters state fs
      else (Inr (''Error: unsupported Nanoclaw tool: '' @ name), fs))"

subsection \<open>Recording and executing\<close>

definition tool_event :: "tool_env \<Rightarrow> string \<Rightarrow> pyval \<Rightarrow> string \<Rightarrow> pyval" where
  "tool_event te name parameters observation = PDict
     [(''time'', PStr (ne_now (te_nano te))), (''tool'', PStr name),
      (''parameters'', truncate_for_log 1000 (plain_container parameters)),
      (''observation'', truncate_for_log 2000 (PStr observation))]"

text \<open>The state is the object in the extra fields: a later failure keeps its new counter.\<close>

definition record_tool_event ::
  "tool_env \<Rightarrow> (string, pyval) dict \<Rightarrow> string \<Rightarrow> pyval \<Rightarrow> string \<Rightarrow> fs \<Rightarrow> unit result \<times> (string, pyval) dict \<times> fs" where
  "record_tool_event te state name parameters observation fs =
     (let ne = te_nano te in
      case py_int_of (cget state ''tool_call_count'' (PInt 0)) of
        Inl e \<Rightarrow> (Inl e, state, fs)
      | Inr n \<Rightarrow>
          (let state1 = dict_set (dict_set state ''tool_call_count'' (PInt (n + 1))) ''updated_at'' (PStr (ne_now ne)) in
           case dict_get state1 ''result_dir'' of
             None \<Rightarrow> (Inl (KeyError ''result_dir''), state1, fs)
           | Some d \<Rightarrow>
               (case append_text fs (abs_path ne (py_str (ne_frepr ne) d) @ [''tool_events.jsonl'']) '''' of
                  Inl e \<Rightarrow> (Inl e, state1, fs)
                | Inr fs0 \<Rightarrow>
                    (case json_dumps_line (ne_frepr ne) (tool_event te name parameters observation) of
                       Inl e \<Rightarrow> (Inl e, state1, fs0)
                     | Inr line \<Rightarrow>
                         (case append_text fs0 (abs_path ne (py_str (ne_frepr ne) d) @ [''tool_events.jsonl'']) (line @ [newline]) of
                            Inl e \<Rightarrow> (Inl e, state1, fs0)
                          | Inr fs1 \<Rightarrow>
                              (case write_runtime_metadata ne fs1 state1 of
                                 Inl e \<Rightarrow> (Inl e, state1, fs1)
                               | Inr fs2 \<Rightarrow> (Inr (), state1, fs2)))))))"

type_synonym tool_answer = "string \<times> (string, pyval) dict"

definition describe :: "py_exc \<Rightarrow> string" where
  "describe e = exc_name e @ '': '' @ exc_text e"

definition execute ::
  "tool_env \<Rightarrow> nano_tool \<Rightarrow> tool_agent \<Rightarrow> (string, pyval) dict \<Rightarrow> fs \<Rightarrow> tool_answer result \<times> tool_agent \<times> fs" where
  "execute te tool agent parameters fs =
     (case ensure_workspace te tool agent fs of
        (SetupFailed msg, agent1, fs1) \<Rightarrow> (Inr (''Error: failed to initialize Nanoclaw workspace: '' @ msg, []), agent1, fs1)
      | (EnsureRaised e, agent1, fs1) \<Rightarrow>
          (Inr (''Error: failed to initialize Nanoclaw workspace: '' @ describe e, []), agent1, fs1)
      | (Ensured state, agent1, fs1) \<Rightarrow>
          if pget state ''status'' \<noteq> PStr ''ready'' then
            (Inr (''Error: workspace is not ready: '' @
               py_str (ne_frepr (te_nano te)) (cget state ''setup_error'' (pget state ''status'')), []), agent1, fs1)
          else
            (let workspace = abs_path (te_nano te) (py_str (ne_frepr (te_nano te)) (pget state ''workspace_after''));
                 (outcome, fs2) = dispatch te tool workspace (dict_or_empty (plain_container (PDict parameters))) state fs1;
                 observation = (case outcome of Inr s \<Rightarrow> s | Inl e \<Rightarrow> ''Error: '' @ describe e);
                 (recorded, state1, fs3) = record_tool_event te state (nt_name tool) (PDict parameters) observation fs2
             in (map_sum id (\<lambda>_. (observation, [(''nanoclaw_tool'', PStr (nt_name tool))])) recorded,
                 set_state agent1 state1, fs3)))"

subsection \<open>Confinement of every tool\<close>

lemma confined_state: "calm ws w fs \<Longrightarrow> confined ws w fs (snd (x, fs))"
  by (simp add: calm_def confined_refl)

lemma map_prod_confined: "confined ws w fs (snd r) \<Longrightarrow> confined ws w fs (snd (map_prod f id r))"
  by (cases r) simp

lemma dispatch_bash_confined:
  assumes c: "calm ws w fs" and h: "host_confined (ne_host (te_nano te)) ws w"
  shows "confined ws w fs (snd (dispatch_bash te tool ws parameters state fs))"
  unfolding dispatch_bash_def Let_def
  by (intro branch_confined confined_state [OF c] keep_read [OF c] execute_bash_confined [OF c h])

lemma dispatch_keeps:
  assumes c: "calm ws w fs" and h: "host_confined (ne_host (te_nano te)) ws w"
  shows "confined ws w fs (snd (dispatch te tool ws parameters state fs))"
  unfolding dispatch_def Let_def
  by (intro branch_confined confined_state [OF c] keep_read [OF c] dispatch_bash_confined [OF c h] map_prod_confined
      write_file_confined make_dir_confined edit_file_confined apply_workspace_patch_confined calm_ready [OF c])


subsection \<open>One workspace per rollout\<close>

lemma set_state_get [simp]: "pget (ta_extra_fields (set_state agent state)) ''nanoclaw'' = PDict state"
  by (simp add: set_state_def pget_set)

lemma ensured_again:
  assumes "ensure_workspace te tool agent fs = (out, agent', fs')" "\<not> (\<exists>e. out = EnsureRaised e)"
  shows "\<exists>state. pget (ta_extra_fields agent') ''nanoclaw'' = PDict state \<and>
    ensure_workspace te' tool' agent' fs'' = (Ensured state, agent', fs'') \<and> py_truthy (pget state ''workspace_after'') \<and>
    (out = Ensured state \<or> (\<exists>msg. out = SetupFailed msg \<and> pget state ''status'' = PStr ''setup_failed'' \<and>
       pget state ''setup_error'' = PStr msg))"
proof (cases "py_truthy (pget (dict_or_empty (pget (ta_extra_fields agent) ''nanoclaw'')) ''workspace_after'')")
  case True
  then obtain state where "pget (ta_extra_fields agent) ''nanoclaw'' = PDict state"
    by (cases "pget (ta_extra_fields agent) ''nanoclaw''") (auto simp: dict_or_empty_def pget_def dict_get_default_def py_truthy_def)
  then show ?thesis using True assms by (auto simp: ensure_workspace_def dict_or_empty_def)
next
  case False
  with assms obtain task_config where tc: "task_config_from_agent tool agent = Inr task_config"
    and p: "(\<exists>state. prepare_workspace (te_nano te) fs task_config (ta_request_id agent) ''tool'' = (Prepared state, fs') \<and>
        out = Ensured state \<and> agent' = set_state agent state) \<or>
      (\<exists>msg state. prepare_workspace (te_nano te) fs task_config (ta_request_id agent) ''tool'' = (SetupError msg state, fs') \<and>
        out = SetupFailed msg \<and> agent' = set_state agent state)"
    by (auto simp: ensure_workspace_def Let_def split: sum.splits prod.splits prepared.splits)
  then show ?thesis
  proof (elim disjE exE conjE)
    fix state assume s: "prepare_workspace (te_nano te) fs task_config (ta_request_id agent) ''tool'' = (Prepared state, fs')"
      "out = Ensured state" "agent' = set_state agent state"
    from prepare_workspace_state [OF s(1), of state] s(2,3) show ?thesis
      by (auto simp: ensure_workspace_def dict_or_empty_def)
  next
    fix msg state assume s: "prepare_workspace (te_nano te) fs task_config (ta_request_id agent) ''tool'' = (SetupError msg state, fs')"
      "out = SetupFailed msg" "agent' = set_state agent state"
    from prepare_workspace_state [OF s(1), of state] s(2,3) show ?thesis
      by (auto simp: ensure_workspace_def dict_or_empty_def)
  qed
qed

text \<open>
  A failed preparation is final for the rollout: the call that ran it reports the message, and every
  later call of any tool answers that the workspace is not ready, without touching files or state.
\<close>

theorem failed_setup_is_final:
  assumes "ensure_workspace te tool agent fs = (SetupFailed msg, agent', fs')"
  shows "execute te tool agent parameters fs = (Inr (''Error: failed to initialize Nanoclaw workspace: '' @ msg, []), agent', fs') \<and>
    execute te' tool' agent' parameters' fs'' = (Inr (''Error: workspace is not ready: '' @ msg, []), agent', fs'')"
proof -
  from ensured_again [OF assms, of te' tool' fs''] obtain state
    where e: "ensure_workspace te' tool' agent' fs'' = (Ensured state, agent', fs'')"
      and s: "pget state ''status'' = PStr ''setup_failed''" "pget state ''setup_error'' = PStr msg"
    by auto
  then have "cget state ''setup_error'' x = PStr msg" for x
    by (auto simp: cget_def pget_def dict_get_default_def split: option.splits)
  then show ?thesis using assms e s by (simp add: execute_def py_str_def)
qed

subsection \<open>Counting and logging\<close>

definition ready_state :: "tool_agent \<Rightarrow> (string, pyval) dict \<Rightarrow> bool" where
  "ready_state agent state \<longleftrightarrow> pget (ta_extra_fields agent) ''nanoclaw'' = PDict state \<and>
     py_truthy (pget state ''workspace_after'') \<and> pget state ''status'' = PStr ''ready''"

lemma ready_ensure: "ready_state agent state \<Longrightarrow> ensure_workspace te tool agent fs = (Ensured state, agent, fs)"
  by (simp add: ready_state_def ensure_workspace_def dict_or_empty_def)

lemma record_tool_event_state:
  assumes "record_tool_event te state name parameters observation fs = (r, state', fs')"
    "pget state ''tool_call_count'' = PInt n"
  shows "pget state' ''tool_call_count'' = PInt (n + 1)"
    "k \<notin> {''tool_call_count'', ''updated_at''} \<Longrightarrow> pget state' k = pget state k"
proof -
  have "cget state ''tool_call_count'' (PInt 0) = PInt n"
    using assms(2) by (auto simp: cget_def pget_def dict_get_default_def split: option.splits)
  then have "state' = dict_set (dict_set state ''tool_call_count'' (PInt (n + 1))) ''updated_at'' (PStr (ne_now (te_nano te)))"
    using assms(1) unfolding record_tool_event_def Let_def
    by (simp add: py_int_of_def split: option.splits sum.splits if_splits)
  then show "pget state' ''tool_call_count'' = PInt (n + 1)"
    "k \<notin> {''tool_call_count'', ''updated_at''} \<Longrightarrow> pget state' k = pget state k"
    by (simp_all add: pget_set)
qed

lemma execute_ready:
  assumes r: "ready_state agent state" and n: "pget state ''tool_call_count'' = PInt n"
    and e: "execute te tool agent parameters fs = (res, agent', fs')"
  obtains state' where "ready_state agent' state'" "pget state' ''tool_call_count'' = PInt (n + 1)"
    "\<forall>k. k \<notin> {''tool_call_count'', ''updated_at''} \<longrightarrow> pget state' k = pget state k"
proof -
  have st: "pget state ''status'' = PStr ''ready''" "py_truthy (pget state ''workspace_after'')"
    using r by (simp_all add: ready_state_def)
  from e obtain obs fs1 rec state1 where rec: "record_tool_event te state (nt_name tool) (PDict parameters) obs fs1 = (rec, state1, fs')"
    and a: "agent' = set_state agent state1"
    unfolding execute_def by (auto simp: ready_ensure [OF r] st Let_def split: prod.splits)
  note s = record_tool_event_state [OF rec n]
  show thesis by (rule that [of state1]) (use s st in \<open>simp_all add: a ready_state_def\<close>)
qed

fun run_calls :: "(nano_tool \<times> (string, pyval) dict \<times> tool_env) list \<Rightarrow> tool_agent \<Rightarrow> fs \<Rightarrow> tool_agent \<times> fs" where
  "run_calls [] agent fs = (agent, fs)"
| "run_calls ((tool, parameters, te) # calls) agent fs =
     (case execute te tool agent parameters fs of (_, agent1, fs1) \<Rightarrow> run_calls calls agent1 fs1)"

text \<open>
  Once the workspace is ready, any sequence of tool calls keeps using it: the counter grows by one for every
  call, failed recordings included, and no other field of the state but the time of the update changes.
\<close>

theorem tool_calls_counted:
  assumes "ready_state agent state" "pget state ''tool_call_count'' = PInt n" "run_calls calls agent fs = (agent', fs')"
  shows "\<exists>state'. ready_state agent' state' \<and> pget state' ''tool_call_count'' = PInt (n + int (length calls)) \<and>
    (\<forall>k. k \<notin> {''tool_call_count'', ''updated_at''} \<longrightarrow> pget state' k = pget state k)"
  using assms
proof (induction calls agent fs arbitrary: state n rule: run_calls.induct)
  case (2 tool parameters te calls agent fs)
  obtain res agent1 fs1 where e: "execute te tool agent parameters fs = (res, agent1, fs1)"
    by (metis prod.exhaust)
  obtain state1 where s: "ready_state agent1 state1" "pget state1 ''tool_call_count'' = PInt (n + 1)"
    "\<forall>k. k \<notin> {''tool_call_count'', ''updated_at''} \<longrightarrow> pget state1 k = pget state k"
    using 2(2,3) e by (rule execute_ready)
  from 2(1) [OF e [symmetric] refl s(1,2)] 2(4) e s(3) show ?case by (simp add: add.assoc)
qed auto

text \<open>Appending to, or writing, a file of a directory without links.\<close>

lemma append_text_plain:
  assumes ok: "fs_ok fs" and p: "plain fs p" and a: "append_text fs p s = Inr fs'"
  shows "fs_ok fs' \<and> same_links fs fs' \<and>
    fs' = dict_set fs p (File ((case fs_node fs p of Some (File old) \<Rightarrow> old | _ \<Rightarrow> '''') @ s))"
proof (cases "\<exists>old. fs_node fs p = Some (File old)")
  case True
  then obtain old where old: "fs_node fs p = Some (File old)" by blast
  then have ne: "p \<noteq> []" by (auto simp: fs_node_def)
  have fs': "fs' = dict_set fs p (File (old @ s))"
    using a old resolve_of_plain [OF p] by (simp add: append_text_def)
  have "fs_node fs (butlast p) = Some Dir" using ok old ne by (auto simp: fs_ok_def fs_node_def)
  then have "fs_ok fs'" unfolding fs' using ok ne old by (intro fs_ok_set) simp_all
  moreover have "same_links fs fs'" unfolding fs' using p by (intro same_links_set) simp_all
  ultimately show ?thesis using fs' old by simp
next
  case False
  then have "write_text fs p s = Inr fs'"
    using a resolve_of_plain [OF p] by (auto simp: append_text_def split: option.splits node.splits)
  from write_text_plain [OF ok p this] False show ?thesis by (auto split: option.splits node.splits)
qed

definition file_text :: "fs \<Rightarrow> path \<Rightarrow> string" where
  "file_text fs p = (case dict_get fs p of Some (File c) \<Rightarrow> c | _ \<Rightarrow> '''')"

lemma record_tool_event_logs:
  assumes ok: "fs_ok fs" and d: "plain fs (d @ [''tool_events.jsonl''])" "plain fs (d @ [''nanoclaw_metadata.json''])"
    and dir: "dict_get state ''result_dir'' = Some (PStr s)" "abs_path (te_nano te) s = d"
    and r: "record_tool_event te state name parameters observation fs = (Inr (), state', fs')"
  shows "file_text fs' (d @ [''tool_events.jsonl'']) = file_text fs (d @ [''tool_events.jsonl'']) @
    json_spaced (ne_frepr (te_nano te)) (tool_event te name parameters observation) @ [newline]"
proof -
  let ?log = "d @ [''tool_events.jsonl'']" and ?meta = "d @ [''nanoclaw_metadata.json'']"
  let ?line = "json_spaced (ne_frepr (te_nano te)) (tool_event te name parameters observation) @ [newline]"
  obtain fs0 fs1 where a: "append_text fs ?log '''' = Inr fs0" "append_text fs0 ?log ?line = Inr fs1"
    and w: "\<exists>payload. write_text fs1 ?meta payload = Inr fs'"
    using r dir unfolding record_tool_event_def Let_def
    by (auto simp: json_dumps_line_def write_runtime_metadata_def rbind_Inr_iff py_str_def pget_def dict_get_default_def
        split: sum.splits if_split_asm)
  have s0: "fs_ok fs0" "same_links fs fs0" "fs0 = dict_set fs ?log (File (file_text fs ?log))"
    using append_text_plain [OF ok d(1) a(1)] by (auto simp: file_text_def fs_node_def)
  have p0: "plain fs0 ?log" "plain fs0 ?meta" using d same_links_plain [OF s0(2)] by simp_all
  have s1: "fs_ok fs1" "same_links fs0 fs1" "fs1 = dict_set fs0 ?log (File (file_text fs ?log @ ?line))"
    using append_text_plain [OF s0(1) p0(1) a(2)] by (auto simp: s0(3) fs_node_def)
  have "plain fs1 ?meta" using p0 same_links_plain [OF s1(2)] by simp
  then have "dict_get fs' ?log = dict_get fs1 ?log" using w write_text_plain [OF s1(1)] by fastforce
  then show ?thesis by (simp add: file_text_def s1(3))
qed

text \<open>
  Every call that is recorded adds exactly one line to the event log of the result directory, the JSON
  of the call and its observation, behind the lines that were there: no tool can change the log, because it
  lies outside the workspace.
\<close>

theorem tool_call_logged:
  assumes r: "ready_state agent state"
    and dir: "dict_get state ''result_dir'' = Some (PStr s)" "abs_path (te_nano te) s = d"
    and ws: "dict_get state ''workspace_after'' = Some (PStr v)" "abs_path (te_nano te) v = ws"
    and c: "calm ws w fs" and h: "host_confined (ne_host (te_nano te)) ws w"
    and d: "plain fs (d @ [''tool_events.jsonl''])" "plain fs (d @ [''nanoclaw_metadata.json''])"
    and out: "\<not> prefix w (d @ [''tool_events.jsonl''])"
    and e: "execute te tool agent parameters fs = (Inr (observation, metrics), agent', fs')"
  shows "file_text fs' (d @ [''tool_events.jsonl'']) = file_text fs (d @ [''tool_events.jsonl'']) @
    json_spaced (ne_frepr (te_nano te)) (tool_event te (nt_name tool) (PDict parameters) observation) @ [newline]"
proof -
  have st: "pget state ''status'' = PStr ''ready''" "pget state ''workspace_after'' = PStr v"
    using r ws by (simp_all add: ready_state_def pget_def dict_get_default_def)
  obtain x fs1 where disp: "dispatch te tool ws (dict_or_empty (plain_container (PDict parameters))) state fs = (x, fs1)"
    by (metis prod.exhaust)
  obtain state1 where rec: "record_tool_event te state (nt_name tool) (PDict parameters) observation fs1 = (Inr (), state1, fs')"
    using e unfolding execute_def
    by (auto simp: ready_ensure [OF r] st Let_def py_str_def ws disp map_sum_eq_Inr_iff simp del: plain_container.simps split: prod.splits)
  have "confined ws w fs fs1"
    using dispatch_keeps [OF c h, of tool "dict_or_empty (plain_container (PDict parameters))" state] unfolding disp by simp
  then have k: "fs_ok fs1" "same_links fs fs1" "dict_get fs1 (d @ [''tool_events.jsonl'']) = dict_get fs (d @ [''tool_events.jsonl''])"
    using out by (auto simp: confined_def ready_def)
  have "plain fs1 (d @ [''tool_events.jsonl''])" "plain fs1 (d @ [''nanoclaw_metadata.json''])"
    using d same_links_plain [OF k(2)] by simp_all
  from record_tool_event_logs [OF k(1) this dir rec] show ?thesis using k(3) by (simp add: file_text_def)
qed

subsection \<open>Examples\<close>

definition example_te :: "host \<Rightarrow> tool_env" where
  "example_te h = \<lparr>te_nano = example_env\<lparr>ne_host := h\<rparr>, te_glob = (\<lambda>fs p s. Inr []), te_re_compile = (\<lambda>s. Inl s), te_uuid = ''7''\<rparr>"

definition failing_host :: host where
  "failing_host = logging_host\<lparr>launch := (\<lambda>argv ws env timeout fs. (Inr (Completed 1 '''' ''no''), fs))\<rparr>"

definition writer :: nano_tool where
  "writer = \<lparr>nt_name = ''write_file'', nt_config = []\<rparr>"

definition example_state :: "(string, pyval) dict" where
  "example_state = [(''status'', PStr ''ready''), (''result_dir'', PStr ''/tmp''), (''workspace_after'', PStr ''/tmp/ws''),
     (''tool_call_count'', PInt 4)]"

definition ready_agent :: tool_agent where
  "ready_agent = \<lparr>ta_request_id = ''abc'', ta_tools_kwargs = PNone, ta_extra_fields = [(''nanoclaw'', PDict example_state)]\<rparr>"

definition fresh_agent :: tool_agent where
  "fresh_agent = \<lparr>ta_request_id = ''abc'',
     ta_tools_kwargs = PDict [(''_nanoclaw'', PDict [(''nanoclaw'', PDict example_config)])], ta_extra_fields = []\<rparr>"

definition write_b :: "(string, pyval) dict" where
  "write_b = [(''path'', PStr ''b''), (''content'', PStr ''hi'')]"

lemma ready_agent_state: "ready_state ready_agent example_state" "pget example_state ''tool_call_count'' = PInt 4"
  by (simp_all add: ready_state_def ready_agent_def example_state_def pget_def dict_get_default_def py_truthy_def)


lemma failed_setup_is_final_witness:
  "\<exists>msg agent' fs'. execute (example_te failing_host) writer fresh_agent write_b task_fs =
       (Inr (''Error: failed to initialize Nanoclaw workspace: '' @ msg, []), agent', fs') \<and>
     execute (example_te logging_host) writer agent' write_b fs' =
       (Inr (''Error: workspace is not ready: '' @ msg, []), agent', fs')"
proof -
  let ?r = "ensure_workspace (example_te failing_host) writer fresh_agent task_fs"
  have "(case fst ?r of SetupFailed _ \<Rightarrow> True | _ \<Rightarrow> False)" by code_simp
  then obtain msg where "fst ?r = SetupFailed msg" by (auto split: ensured.splits)
  then obtain agent' fs' where "?r = (SetupFailed msg, agent', fs')" by (metis prod.collapse)
  from failed_setup_is_final [OF this] show ?thesis by blast
qed

lemma tool_calls_counted_witness:
  "\<exists>state'. ready_state (fst (run_calls [(writer, write_b, example_te logging_host), (writer, [], example_te logging_host)]
       ready_agent quiet_fs)) state' \<and> pget state' ''tool_call_count'' = PInt 6"
proof -
  let ?r = "run_calls [(writer, write_b, example_te logging_host), (writer, [], example_te logging_host)] ready_agent quiet_fs"
  have "?r = (fst ?r, snd ?r)" by simp
  from tool_calls_counted [OF ready_agent_state this] show ?thesis by fastforce
qed

lemma tool_call_logged_witness:
  "file_text (snd (snd (execute (example_te logging_host) writer ready_agent write_b quiet_fs))) [''tmp'', ''tool_events.jsonl''] =
     json_spaced (\<lambda>q. ''1.0'') (tool_event (example_te logging_host) ''write_file'' (PDict write_b) ''Success: file written.'') @ [newline]"
proof -
  let ?te = "example_te logging_host"
  let ?r = "execute ?te writer ready_agent write_b quiet_fs"
  have run: "fst ?r = Inr (''Success: file written.'', [(''nanoclaw_tool'', PStr ''write_file'')])" by code_simp
  then have e: "?r = (Inr (''Success: file written.'', [(''nanoclaw_tool'', PStr ''write_file'')]), fst (snd ?r), snd (snd ?r))"
    by (metis prod.collapse)
  have dir: "dict_get example_state ''result_dir'' = Some (PStr ''/tmp'')" "abs_path (te_nano ?te) ''/tmp'' = [''tmp'']"
    "dict_get example_state ''workspace_after'' = Some (PStr ''/tmp/ws'')" "abs_path (te_nano ?te) ''/tmp/ws'' = example_ws"
    "\<not> prefix example_ws ([''tmp''] @ [''tool_events.jsonl''])" "file_text quiet_fs [''tmp'', ''tool_events.jsonl''] = ''''"
    by code_simp+
  have pl: "plain quiet_fs ([''tmp''] @ [''tool_events.jsonl''])" "plain quiet_fs ([''tmp''] @ [''nanoclaw_metadata.json''])"
    by (rule no_links_plain; code_simp)+
  have h: "host_confined (ne_host (te_nano ?te)) example_ws example_ws" by (simp add: example_te_def logging_confined)
  from tool_call_logged [OF ready_agent_state(1) dir(1-4) quiet_calm h pl dir(5) e] dir(6)
  show ?thesis by (simp add: example_te_def example_env_def writer_def)
qed

end
