(* ===== verification/NanoScore.thy ===== *)
theory NanoScore
  imports NanoWorkspace BehaviorMask
begin

text \<open>
  The pure part of the reward of \<open>nanoclaw_recipe/nanoclaw.py\<close>: reading a score file
  (\<open>common.score_summary\<close>), choosing the score, the final-answer bonus and the behaviour penalties.
  The detection of repeated text is that of LoopDetect: \<open>repeated_block_count\<close> and its helpers repeat the
  code of \<open>nanoclaw_support.py\<close> line by line.
\<close>

subsection \<open>Score files\<close>

definition is_float :: "pyval \<Rightarrow> bool" where
  "is_float v = (case v of PFloat _ \<Rightarrow> True | _ \<Rightarrow> False)"

definition is_number :: "pyval \<Rightarrow> bool" where
  "is_number v \<longleftrightarrow> as_num v \<noteq> None"

definition num :: "pyval \<Rightarrow> rat" where
  "num v = (case as_num v of Some q \<Rightarrow> q | None \<Rightarrow> 0)"

text \<open>\<open>sum\<close> of numbers: an integer unless a float takes part.\<close>

definition py_sum :: "pyval list \<Rightarrow> pyval" where
  "py_sum vs = (if list_ex is_float vs then PFloat (sum_list (map num vs)) else PInt \<lfloor>sum_list (map num vs)\<rfloor>)"

definition numbers_at :: "string \<Rightarrow> pyval list \<Rightarrow> pyval list" where
  "numbers_at key details =
     filter is_number (List.map_filter (\<lambda>item. case item of PDict d \<Rightarrow> Some (pget d key) | _ \<Rightarrow> None) details)"

definition score_summary :: "pyval \<Rightarrow> (string, pyval) dict" where
  "score_summary workplace_score = (case workplace_score of
     PDict w \<Rightarrow>
       (let score0 = cget w ''total_score'' (pget w ''score'');
            max0 = pget w ''max_score'';
            details = (case pget w ''details'' of PList xs \<Rightarrow> xs | _ \<Rightarrow> []);
            score = (if score0 = PNone \<and> numbers_at ''score'' details \<noteq> [] then py_sum (numbers_at ''score'' details) else score0);
            max_score = (if max0 = PNone \<and> numbers_at ''max_score'' details \<noteq> [] then py_sum (numbers_at ''max_score'' details) else max0);
            ratio = (if is_number score \<and> is_number max_score \<and> py_truthy max_score
                     then PFloat (num score / num max_score) else PNone);
            passed0 = pget w ''passed'';
            passed = (if passed0 = PNone \<and> ratio \<noteq> PNone then PBool (num ratio \<ge> 999 / 1000) else passed0)
        in [(''score'', score), (''max_score'', max_score), (''score_ratio'', ratio), (''passed'', passed)])
   | _ \<Rightarrow> [(''score'', PNone), (''max_score'', PNone), (''score_ratio'', PNone), (''passed'', PNone)])"

definition dict_of :: "pyval \<Rightarrow> (string, pyval) dict" where
  "dict_of v = (case v of PDict d \<Rightarrow> d | _ \<Rightarrow> [])"

definition choose_reward_score :: "(string, pyval) dict \<Rightarrow> string \<Rightarrow> rat \<Rightarrow> rat" where
  "choose_reward_score verifier_result mode fallback_score =
     (let summary = dict_of (pget verifier_result ''score_summary'');
          raw_score = pget summary ''score''; ratio = pget summary ''score_ratio''; passed = pget summary ''passed''
      in if mode = ''raw'' \<and> is_number raw_score then num raw_score
         else if mode = ''binary'' then
           (case passed of PBool b \<Rightarrow> (if b then 1 else 0)
            | _ \<Rightarrow> if py_eq_int (pget verifier_result ''returncode'') 0 then 1 else fallback_score)
         else if is_number ratio then num ratio
         else if is_number raw_score then num raw_score
         else (case passed of PBool b \<Rightarrow> (if b then 1 else 0) | _ \<Rightarrow> fallback_score))"

subsection \<open>Penalties and bonus\<close>

text \<open>\<open>float_config(raw, float_config(config.get(key), default))\<close>: the inner default is evaluated first.\<close>

definition float_setting ::
  "nano_env \<Rightarrow> pyval \<Rightarrow> (string, pyval) dict \<Rightarrow> string \<Rightarrow> rat \<Rightarrow> rat result" where
  "float_setting ne raw task_config key dflt =
     rbind (cfg_float ne (pget task_config key) dflt) (cfg_float ne raw)"

definition int_setting :: "pyval \<Rightarrow> (string, pyval) dict \<Rightarrow> string \<Rightarrow> int \<Rightarrow> int result" where
  "int_setting raw task_config key dflt = rbind (int_config (pget task_config key) dflt) (int_config raw)"

definition environ_value :: "nano_env \<Rightarrow> string \<Rightarrow> pyval" where
  "environ_value ne key = (case dict_get (environ (ne_host ne)) key of None \<Rightarrow> PNone | Some s \<Rightarrow> PStr s)"

definition compute_assistant_turn_penalty ::
  "nano_env \<Rightarrow> (string, pyval) dict \<Rightarrow> (string, pyval) dict \<Rightarrow> pyval \<Rightarrow> (rat \<times> int \<times> rat) result" where
  "compute_assistant_turn_penalty ne runtime_state task_config raw_penalty =
     rbind (float_setting ne raw_penalty task_config ''assistant_turn_penalty'' 0) (\<lambda>penalty_per_turn.
     rbind (int_config (pget runtime_state ''rollout_assistant_turns'') 0) (\<lambda>assistant_turns.
       Inr (penalty_per_turn, assistant_turns, max 0 penalty_per_turn * of_int (max 0 assistant_turns))))"

definition canonical_json_key :: "(rat \<Rightarrow> string) \<Rightarrow> pyval \<Rightarrow> string" where
  "canonical_json_key frepr v = (case json_dumps frepr (plain_container v) of Some s \<Rightarrow> s | None \<Rightarrow> py_repr frepr v)"

definition tool_call_key :: "(rat \<Rightarrow> string) \<Rightarrow> (string, pyval) dict \<Rightarrow> string" where
  "tool_call_key frepr event = canonical_json_key frepr (PDict
     [(''tool'', pget event ''tool''), (''arguments'', pget event ''arguments''),
      (''response'', pget event ''response''), (''result'', pget event ''result'')])"

definition count_key :: "(string, nat) dict \<Rightarrow> string \<Rightarrow> (string, nat) dict" where
  "count_key counts key = dict_set counts key (dict_get_default counts key 0 + 1)"

definition tool_call_counts :: "(rat \<Rightarrow> string) \<Rightarrow> (string, pyval) dict list \<Rightarrow> (string, nat) dict" where
  "tool_call_counts frepr events =
     foldl (\<lambda>counts event. if event_type event ''tool'' then count_key counts (tool_call_key frepr event) else counts) [] events"

definition duplicate_count :: "(rat \<Rightarrow> string) \<Rightarrow> (string, pyval) dict list \<Rightarrow> nat" where
  "duplicate_count frepr events = sum_list (map (\<lambda>n. n - 1) (dict_values (tool_call_counts frepr events)))"

definition compute_duplicate_tool_call_penalty ::
  "nano_env \<Rightarrow> (string, pyval) dict list \<Rightarrow> (string, pyval) dict \<Rightarrow> pyval \<Rightarrow> (rat \<times> nat \<times> rat) result" where
  "compute_duplicate_tool_call_penalty ne events task_config raw_penalty =
     rbind (float_setting ne raw_penalty task_config ''duplicate_tool_call_penalty'' 0) (\<lambda>penalty_per_extra.
       if penalty_per_extra \<le> 0 then Inr (penalty_per_extra, 0, 0)
       else let n = duplicate_count (ne_frepr ne) events
            in Inr (penalty_per_extra, n, max 0 penalty_per_extra * of_nat n))"

definition response_text :: "(rat \<Rightarrow> string) \<Rightarrow> pyval \<Rightarrow> string" where
  "response_text frepr v = py_str frepr (py_or v (PStr ''''))"

definition repeat_total :: "(rat \<Rightarrow> string) \<Rightarrow> int \<Rightarrow> int \<Rightarrow> (string, pyval) dict list \<Rightarrow> nat" where
  "repeat_total frepr min_chars min_consecutive_repeats events =
     sum_list (map (\<lambda>event. if event_type event ''assistant''
       then nanoclaw_looping_response_repeat_count (response_text frepr (pget event ''content'')) min_chars min_consecutive_repeats
       else 0) events)"

definition compute_repeated_response_penalty ::
  "nano_env \<Rightarrow> (string, pyval) dict list \<Rightarrow> (string, pyval) dict \<Rightarrow> pyval \<Rightarrow> pyval \<Rightarrow> pyval \<Rightarrow>
   (rat \<times> nat \<times> int \<times> int \<times> rat) result" where
  "compute_repeated_response_penalty ne events task_config raw_penalty raw_min_chars raw_min_consecutive_repeats =
     rbind (float_setting ne raw_penalty task_config ''repeated_response_penalty'' 0) (\<lambda>penalty_per_repeat.
     rbind (int_setting raw_min_chars task_config ''repeated_response_min_chars'' 200) (\<lambda>c.
     rbind (int_setting raw_min_consecutive_repeats task_config ''repeated_response_min_consecutive_repeats'' 2) (\<lambda>r.
       let min_chars = max 1 c; min_repeats = max 2 r in
       if penalty_per_repeat \<le> 0 then Inr (penalty_per_repeat, 0, min_chars, min_repeats, 0)
       else let n = repeat_total (ne_frepr ne) min_chars min_repeats events
            in Inr (penalty_per_repeat, n, min_chars, min_repeats, max 0 penalty_per_repeat * of_nat n))))"

text \<open>The settings of a call of \<open>compute_score\<close>; \<open>None\<close> takes the value of the task configuration.\<close>

record reward_args =
  ra_cleanup_workspaces :: pyval
  ra_keep_failed_workspaces :: pyval
  ra_verifier_timeout :: pyval
  ra_reward_score_mode :: pyval
  ra_require_final_answer :: pyval
  ra_final_answer_bonus_enable :: pyval
  ra_final_answer_bonus_score :: pyval
  ra_assistant_turn_penalty :: pyval
  ra_turn_penalty_only_positive_score :: pyval
  ra_duplicate_tool_call_penalty :: pyval
  ra_repeated_response_penalty :: pyval
  ra_repeated_response_min_chars :: pyval
  ra_repeated_response_min_consecutive_repeats :: pyval
  ra_score_uninitialized_workspace :: bool
  ra_mock_api_base :: pyval
  ra_mock_api_key :: pyval
  ra_mock_model_name :: pyval
  ra_mock_api_timeout :: pyval
  ra_mock_api_connect_timeout :: pyval
  ra_kwargs :: "(string, pyval) dict"

definition only_positive :: "nano_env \<Rightarrow> reward_args \<Rightarrow> (string, pyval) dict \<Rightarrow> bool" where
  "only_positive ne args task_config =
     bool_config (ra_turn_penalty_only_positive_score args)
       (bool_config (pget task_config ''turn_penalty_only_positive_score'')
         (bool_config (environ_value ne ''NANOCLAW_TURN_PENALTY_ONLY_POSITIVE_SCORE'') False))"

text \<open>The total is returned beside the report.\<close>

definition compute_behavior_penalties ::
  "nano_env \<Rightarrow> reward_args \<Rightarrow> (string, pyval) dict \<Rightarrow> (string, pyval) dict \<Rightarrow> (string, pyval) dict list \<Rightarrow> rat \<Rightarrow>
   (rat \<times> (string, pyval) dict) result" where
  "compute_behavior_penalties ne args runtime_state task_config events reward_score_before_penalty =
     rbind (compute_assistant_turn_penalty ne runtime_state task_config (ra_assistant_turn_penalty args))
       (\<lambda>(penalty_per_turn, assistant_turns, turn_penalty0).
     rbind (compute_duplicate_tool_call_penalty ne events task_config (ra_duplicate_tool_call_penalty args))
       (\<lambda>(duplicate_penalty_per_extra, duplicate_tool_call_count, duplicate_tool_penalty).
     rbind (compute_repeated_response_penalty ne events task_config (ra_repeated_response_penalty args)
         (ra_repeated_response_min_chars args) (ra_repeated_response_min_consecutive_repeats args))
       (\<lambda>(repeated_penalty_per_repeat, repeated_response_count, repeated_min_chars, repeated_min_repeats, repeated_penalty).
       let only = only_positive ne args task_config;
           skipped = (only \<and> reward_score_before_penalty \<le> 0);
           turn_penalty = (if skipped then 0 else turn_penalty0);
           total_penalty = turn_penalty + duplicate_tool_penalty + repeated_penalty
       in Inr (total_penalty,
            [(''nanoclaw_assistant_turns'', PInt assistant_turns),
             (''nanoclaw_assistant_turn_penalty_per_turn'', PFloat penalty_per_turn),
             (''nanoclaw_turn_penalty_only_positive_score'', PBool only),
             (''nanoclaw_assistant_turn_penalty_skipped_non_positive_score'', PBool skipped),
             (''nanoclaw_assistant_turn_penalty'', PFloat turn_penalty),
             (''nanoclaw_duplicate_tool_call_count'', PInt (int duplicate_tool_call_count)),
             (''nanoclaw_duplicate_tool_call_penalty_per_extra'', PFloat duplicate_penalty_per_extra),
             (''nanoclaw_duplicate_tool_call_penalty'', PFloat duplicate_tool_penalty),
             (''nanoclaw_repeated_response_count'', PInt (int repeated_response_count)),
             (''nanoclaw_repeated_response_min_chars'', PInt repeated_min_chars),
             (''nanoclaw_repeated_response_min_consecutive_repeats'', PInt repeated_min_repeats),
             (''nanoclaw_repeated_response_penalty_per_repeat'', PFloat repeated_penalty_per_repeat),
             (''nanoclaw_repeated_response_penalty'', PFloat repeated_penalty),
             (''nanoclaw_total_behavior_penalty'', PFloat total_penalty)]))))"

definition termination_reason :: "(rat \<Rightarrow> string) \<Rightarrow> (string, pyval) dict \<Rightarrow> string" where
  "termination_reason frepr runtime_state = py_str frepr (py_or (pget runtime_state ''rollout_termination_reason'') (PStr ''''))"

definition has_final_answer :: "(rat \<Rightarrow> string) \<Rightarrow> (string, pyval) dict \<Rightarrow> string \<Rightarrow> bool" where
  "has_final_answer frepr runtime_state solution_str =
     (let reason = termination_reason frepr runtime_state;
          final_answer = (case dict_get runtime_state ''rollout_final_answer'' of
            Some v \<Rightarrow> v
          | None \<Rightarrow> if reason = ''completed_no_tool_call'' then PStr solution_str else PNone)
      in reason = ''completed_no_tool_call'' \<and> (case final_answer of PStr s \<Rightarrow> py_strip s \<noteq> '''' | _ \<Rightarrow> False))"

definition compute_final_answer_bonus ::
  "nano_env \<Rightarrow> reward_args \<Rightarrow> (string, pyval) dict \<Rightarrow> (string, pyval) dict \<Rightarrow> string \<Rightarrow>
   (rat \<times> (string, pyval) dict) result" where
  "compute_final_answer_bonus ne args runtime_state task_config solution_str =
     (let enabled = bool_config (ra_final_answer_bonus_enable args)
            (bool_config (pget task_config ''final_answer_bonus_enable'')
              (bool_config (environ_value ne ''NANOCLAW_FINAL_ANSWER_BONUS_ENABLE'') False))
      in rbind (cfg_float ne (environ_value ne ''NANOCLAW_FINAL_ANSWER_BONUS_SCORE'') 0) (\<lambda>b0.
         rbind (cfg_float ne (pget task_config ''final_answer_bonus_score'') b0) (\<lambda>b1.
         rbind (cfg_float ne (ra_final_answer_bonus_score args) b1) (\<lambda>bonus_score.
           let has = has_final_answer (ne_frepr ne) runtime_state solution_str;
               awarded = (if enabled \<and> has then bonus_score else 0)
           in Inr (awarded,
                [(''nanoclaw_has_final_answer'', PBool has),
                 (''nanoclaw_final_answer_bonus_enabled'', PBool enabled),
                 (''nanoclaw_final_answer_bonus_score'', PFloat bonus_score),
                 (''nanoclaw_final_answer_bonus_awarded'', PFloat awarded)])))))"

subsection \<open>The inputs of the reward function\<close>

definition rollout_keys :: "string list" where
  "rollout_keys = [''rollout_termination_reason'', ''rollout_final_answer'', ''rollout_assistant_turns'',
     ''rollout_user_turns'', ''rollout_tool_call_count'', ''rollout_response_tokens'']"

definition copy_missing :: "(string, pyval) dict \<Rightarrow> (string, pyval) dict \<Rightarrow> string \<Rightarrow> (string, pyval) dict" where
  "copy_missing extra_info runtime_state key =
     (case dict_get extra_info key of
        Some v \<Rightarrow> if dict_has runtime_state key then runtime_state else dict_set runtime_state key v
      | None \<Rightarrow> runtime_state)"

definition rollout_mapping :: "(string \<times> string) list" where
  "rollout_mapping = [(''rollout_step'', ''rollout_step''), (''rollout_sample_index'', ''rollout_sample_index''),
     (''rollout_n'', ''rollout_n''), (''rollout_index'', ''rollout_n''), (''validate'', ''validate'')]"

definition fill_mapping :: "(string, pyval) dict \<Rightarrow> (string, pyval) dict \<Rightarrow> string \<times> string \<Rightarrow> (string, pyval) dict" where
  "fill_mapping extra_info task_config mapping =
     (let (source_key, target_key) = mapping in
      if pget task_config target_key = PNone \<and> pget extra_info source_key \<noteq> PNone
      then dict_set task_config target_key (pget extra_info source_key) else task_config)"

definition extract_task_and_runtime ::
  "(string, pyval) dict \<Rightarrow> pyval \<Rightarrow> (string, pyval) dict \<times> (string, pyval) dict" where
  "extract_task_and_runtime extra_info0 ground_truth0 =
     (let extra_info = dict_of (plain_container (PDict extra_info0));
          ground_truth = plain_container (py_or ground_truth0 (PDict []));
          runtime_state = foldl (copy_missing extra_info) (dict_of (pget extra_info ''nanoclaw'')) rollout_keys;
          config0 = dict_of (pget extra_info ''nanoclaw_task'');
          config1 = (if config0 = [] then dict_of ground_truth else config0);
          config2 = (if config1 = [] then dict_of (pget runtime_state ''task_config'') else config1)
      in (if config2 = [] then [] else foldl (fill_mapping extra_info) config2 rollout_mapping, runtime_state))"

subsection \<open>Facts on scores\<close>

lemma is_number_nonfloat:
  "is_number v \<Longrightarrow> \<not> is_float v \<Longrightarrow> of_int \<lfloor>num v\<rfloor> = num v"
  by (cases v) (auto simp: is_number_def num_def as_num_def is_float_def)

lemma num_PFloat [simp]: "num (PFloat q) = q" "is_number (PFloat q)" "is_number (PInt n)" "num (PInt n) = of_int n"
  by (simp_all add: num_def as_num_def is_number_def)

lemma num_py_sum:
  assumes "list_all is_number vs" shows "num (py_sum vs) = sum_list (map num vs)"
proof (cases "list_ex is_float vs")
  case False
  have "list_all is_number xs \<Longrightarrow> \<not> list_ex is_float xs \<Longrightarrow> of_int \<lfloor>sum_list (map num xs)\<rfloor> = sum_list (map num xs)" for xs
  proof (induction xs)
    case (Cons x xs)
    from Cons.prems have "of_int \<lfloor>num x\<rfloor> = num x" by (intro is_number_nonfloat) simp_all
    moreover from Cons have "of_int \<lfloor>sum_list (map num xs)\<rfloor> = sum_list (map num xs)" by simp
    ultimately have "sum_list (map num (x # xs)) = of_int (\<lfloor>num x\<rfloor> + \<lfloor>sum_list (map num xs)\<rfloor>)"
      by (simp only: list.map sum_list.Cons of_int_add)
    then show ?case by (simp only: floor_of_int)
  qed simp
  with assms False show ?thesis by (simp add: py_sum_def)
qed (simp add: py_sum_def)

lemma is_number_py_sum [simp]: "is_number (py_sum vs)" "py_sum vs \<noteq> PNone"
  by (simp_all add: py_sum_def)

lemma py_truthy_number: "is_number v \<Longrightarrow> py_truthy v \<longleftrightarrow> num v \<noteq> 0"
  by (cases v) (auto simp: is_number_def num_def as_num_def py_truthy_def)

text \<open>A report by items: no totals, every item a numeric score and maximum.\<close>

definition item_report :: "(string, pyval) dict \<Rightarrow> (string, pyval) dict list \<Rightarrow> bool" where
  "item_report w items \<longleftrightarrow>
     cget w ''total_score'' (pget w ''score'') = PNone \<and> pget w ''max_score'' = PNone \<and> pget w ''passed'' = PNone \<and>
     pget w ''details'' = PList (map PDict items) \<and>
     list_all (\<lambda>d. is_number (pget d ''score'') \<and> is_number (pget d ''max_score'')) items"

definition items_total :: "string \<Rightarrow> (string, pyval) dict list \<Rightarrow> rat" where
  "items_total key items = sum_list (map (\<lambda>d. num (pget d key)) items)"

lemma numbers_at_items:
  "list_all (\<lambda>d. is_number (pget d key)) items \<Longrightarrow> numbers_at key (map PDict items) = map (\<lambda>d. pget d key) items"
  by (induction items) (auto simp: numbers_at_def List.map_filter_def)

lemma item_report_summary:
  assumes r: "item_report w items" and pos: "0 < items_total ''max_score'' items"
  shows "pget (score_summary (PDict w)) ''score_ratio'' = PFloat (items_total ''score'' items / items_total ''max_score'' items)"
    and "pget (score_summary (PDict w)) ''passed'' = PBool (items_total ''score'' items / items_total ''max_score'' items \<ge> 999 / 1000)"
proof -
  have n: "list_all (\<lambda>d. is_number (pget d ''score'')) items" "list_all (\<lambda>d. is_number (pget d ''max_score'')) items"
    using r by (auto simp: item_report_def list_all_iff)
  have ne: "items \<noteq> []" using pos by (auto simp: items_total_def)
  have tot: "num (py_sum (map (\<lambda>d. pget d key) items)) = items_total key items"
    if "list_all (\<lambda>d. is_number (pget d key)) items" for key
    using that by (subst num_py_sum) (auto simp: items_total_def list_all_iff comp_def)
  note facts = numbers_at_items [OF n(1)] numbers_at_items [OF n(2)] tot [OF n(1)] tot [OF n(2)]
  show "pget (score_summary (PDict w)) ''score_ratio'' = PFloat (items_total ''score'' items / items_total ''max_score'' items)"
    "pget (score_summary (PDict w)) ''passed'' = PBool (items_total ''score'' items / items_total ''max_score'' items \<ge> 999 / 1000)"
    using r pos ne by (simp_all add: score_summary_def item_report_def facts Let_def pget_def [of "(_, _) # _"]
        dict_get_default_def py_truthy_number)
qed

lemma items_total_le:
  "list_all (\<lambda>d. num (pget d a) \<le> num (pget d b)) items \<Longrightarrow> items_total a items \<le> items_total b items"
  by (induction items) (auto simp: items_total_def add_mono)

lemma items_total_nonneg: "list_all (\<lambda>d. 0 \<le> num (pget d a)) items \<Longrightarrow> 0 \<le> items_total a items"
  by (induction items) (auto simp: items_total_def)

text \<open>
  A verifier that reports by items (no totals, no verdict): the reward in ratio mode is the sum of the
  item scores over the sum of the maxima, and it lies between 0 and 1 when every item score lies between
  0 and its maximum; the verdict in binary mode is 1 exactly when the ratio reaches 0.999.
\<close>

theorem item_score_ratio:
  assumes "item_report w items" and "0 < items_total ''max_score'' items"
    and "list_all (\<lambda>d. 0 \<le> num (pget d ''score'') \<and> num (pget d ''score'') \<le> num (pget d ''max_score'')) items"
  shows "let r = items_total ''score'' items / items_total ''max_score'' items;
      result = dict_set res ''score_summary'' (PDict (score_summary (PDict w)))
    in choose_reward_score result ''ratio'' fallback = r \<and> 0 \<le> r \<and> r \<le> 1 \<and>
       choose_reward_score result ''binary'' fallback = (if 999 / 1000 \<le> r then 1 else 0)"
proof -
  have "items_total ''score'' items \<le> items_total ''max_score'' items" "0 \<le> items_total ''score'' items"
    using assms(3) by (auto intro!: items_total_le items_total_nonneg simp: list_all_iff)
  with assms(2) show ?thesis
    by (simp add: choose_reward_score_def Let_def pget_set dict_of_def item_report_summary [OF assms(1,2)] divide_le_eq)
qed

definition two_items :: "(string, pyval) dict list" where
  "two_items = [[(''score'', PInt 3), (''max_score'', PInt 4)], [(''score'', PFloat (1/2)), (''max_score'', PInt 1)]]"

lemma item_score_ratio_witness:
  "choose_reward_score (dict_set [] ''score_summary''
     (PDict (score_summary (PDict [(''details'', PList (map PDict two_items))])))) ''ratio'' 0 = 7 / 10"
proof -
  have "item_report [(''details'', PList (map PDict two_items))] two_items" by code_simp
  moreover have "items_total ''max_score'' two_items = 5" "items_total ''score'' two_items = 7/2" by code_simp+
  moreover have "list_all (\<lambda>d. 0 \<le> num (pget d ''score'') \<and> num (pget d ''score'') \<le> num (pget d ''max_score'')) two_items" by code_simp
  ultimately show ?thesis
    using item_score_ratio [of "[(''details'', PList (map PDict two_items))]" two_items "[]" 0]
    by (simp add: Let_def)
qed

subsection \<open>Duplicate calls\<close>

definition tool_keys :: "(rat \<Rightarrow> string) \<Rightarrow> (string, pyval) dict list \<Rightarrow> string list" where
  "tool_keys frepr events = map (tool_call_key frepr) (filter (\<lambda>e. event_type e ''tool'') events)"

lemma tool_call_counts_snoc:
  "tool_call_counts frepr (es @ [e]) =
     (if event_type e ''tool'' then count_key (tool_call_counts frepr es) (tool_call_key frepr e) else tool_call_counts frepr es)"
  by (simp add: tool_call_counts_def)

lemma tool_call_counts_get:
  "dict_ok (tool_call_counts frepr es) \<and>
   (\<forall>k. dict_get (tool_call_counts frepr es) k =
     (let n = count_list (tool_keys frepr es) k in if n = 0 then None else Some n))"
proof (induction es rule: rev_induct)
  case Nil
  then show ?case by (simp add: tool_call_counts_def tool_keys_def dict_ok_def)
next
  case (snoc e es)
  then show ?case
    by (auto simp: tool_call_counts_snoc count_key_def tool_keys_def dict_get_default_def Let_def split: if_splits)
qed

lemma excess_set:
  fixes d :: "('k, nat) dict"
  assumes "dict_ok d" and "\<forall>n \<in> set (dict_values d). 0 < n"
  shows "sum_list (map (\<lambda>n. n - 1) (dict_values (dict_set d k (dict_get_default d k 0 + 1)))) =
    sum_list (map (\<lambda>n. n - 1) (dict_values d)) + (if dict_has d k then 1 else 0)"
  using assms
proof (induction d)
  case (Cons p d)
  obtain k' n where p: "p = (k', n)" by (cases p)
  show ?case
  proof (cases "k' = k")
    case True
    then show ?thesis using Cons.prems p by (auto simp: dict_values_def dict_get_default_def dict_has_def)
  next
    case False
    then show ?thesis using Cons p
      by (auto simp: dict_values_def dict_get_default_def dict_has_def dict_ok_def)
  qed
qed (simp add: dict_values_def dict_get_default_def dict_has_def)

lemma duplicate_count_snoc:
  "duplicate_count frepr (es @ [e]) =
     duplicate_count frepr es +
     (if event_type e ''tool'' \<and> tool_call_key frepr e \<in> set (tool_keys frepr es) then 1 else 0)"
proof -
  let ?d = "tool_call_counts frepr es"
  note inv = tool_call_counts_get [of frepr es]
  have get: "dict_get ?d k = (if k \<in> set (tool_keys frepr es) then Some (count_list (tool_keys frepr es) k) else None)" for k
    using inv by (auto simp: Let_def count_list_0_iff)
  have has: "dict_has ?d k \<longleftrightarrow> k \<in> set (tool_keys frepr es)" for k
    using get [of k] by (simp add: dict_has_def)
  have pos: "\<forall>n \<in> set (dict_values ?d). 0 < n"
  proof
    fix n assume "n \<in> set (dict_values ?d)"
    then obtain k where "(k, n) \<in> set ?d" by (auto simp: dict_values_def)
    moreover have "distinct (map fst ?d)" using inv by (simp add: dict_ok_def)
    ultimately have "dict_get ?d k = Some n" by (intro map_of_is_SomeI)
    with get [of k] show "0 < n" by (auto split: if_splits simp: count_list_0_iff intro!: gr0I)
  qed
  show ?thesis
    using inv excess_set [OF _ pos, of "tool_call_key frepr e"]
    by (simp add: duplicate_count_def tool_call_counts_snoc count_key_def has)
qed

lemma plain_container_json: "is_json v \<Longrightarrow> plain_container v = v"
proof (induction v rule: plain_container.induct)
  case (1 d)
  then have "map (\<lambda>p. (fst p, plain_container (snd p))) d = map (\<lambda>p. p) d"
    by (intro map_cong) (auto simp: list_all_iff)
  then show ?case by simp
next
  case (2 xs)
  then have "map plain_container xs = map (\<lambda>x. x) xs"
    by (intro map_cong) (auto simp: list_all_iff)
  then show ?case by simp
qed auto

lemma is_json_pget: "is_json (PDict d) \<Longrightarrow> is_json (pget d k)"
  by (auto simp: pget_def dict_get_default_def list_all_iff split: option.splits dest!: map_of_SomeD)

lemma tool_keys_agree: "is_json (PDict e) \<Longrightarrow> tool_call_key frepr e = tool_result_key frepr e"
  unfolding tool_call_key_def tool_result_key_def canonical_json_key_def nanoclaw_canonical_json_key_def
  by (simp only: plain_container_json safe_json_value_id is_json_pget is_json.simps list.pred_inject snd_conv)

lemma nth_ex: "(\<exists>j < length xs. P (xs ! j)) \<longleftrightarrow> (\<exists>x \<in> set xs. P x)"
  by (metis in_set_conv_nth)

lemma in_map_filter: "y \<in> set (map f (filter P xs)) \<longleftrightarrow> (\<exists>x \<in> set xs. P x \<and> f x = y)"
  by auto

lemmas in_tool_keys = in_map_filter [of _ "tool_call_key frepr" "\<lambda>e. event_type e ''tool''" for frepr, folded tool_keys_def]

lemma ex_nth_append:
  "n \<le> length es \<Longrightarrow> (\<exists>j < n. P ((es @ ys) ! j)) \<longleftrightarrow> (\<exists>j < n. P (es ! j))"
  by (metis nth_append order_less_le_trans)

lemma repeated_result_last:
  assumes "list_all (\<lambda>e. is_json (PDict e)) (es @ [e])"
  shows "repeated_result frepr (es @ [e]) (length es) \<longleftrightarrow>
    event_type e ''tool'' \<and> tool_call_key frepr e \<in> set (tool_keys frepr es)"
proof -
  have same: "tool_call_key frepr x = tool_result_key frepr x" if "x \<in> set (es @ [e])" for x
    using assms that by (auto simp: list_all_iff intro!: tool_keys_agree)
  have bexc: "(\<exists>x \<in> set es. event_type x ''tool'' \<and> tool_result_key frepr x = tool_result_key frepr e) \<longleftrightarrow>
      (\<exists>x \<in> set es. event_type x ''tool'' \<and> tool_call_key frepr x = tool_call_key frepr e)"
  proof (rule bex_cong [OF refl])
    fix x assume "x \<in> set es"
    then have "tool_call_key frepr x = tool_result_key frepr x" "tool_call_key frepr e = tool_result_key frepr e"
      by (simp_all only: same set_append Un_iff list.set_intros simp_thms)
    then show "(event_type x ''tool'' \<and> tool_result_key frepr x = tool_result_key frepr e) =
        (event_type x ''tool'' \<and> tool_call_key frepr x = tool_call_key frepr e)" by (simp only:)
  qed
  have "repeated_result frepr (es @ [e]) (length es) \<longleftrightarrow> event_type e ''tool'' \<and>
      (\<exists>j < length es. event_type (es ! j) ''tool'' \<and> tool_result_key frepr (es ! j) = tool_result_key frepr e)"
    unfolding repeated_result_def nth_append_length
    by (simp only: ex_nth_append [of "length es" es "\<lambda>x. event_type x ''tool'' \<and> tool_result_key frepr x = tool_result_key frepr e", OF order_refl])
  also have "\<dots> \<longleftrightarrow> event_type e ''tool'' \<and>
      (\<exists>x \<in> set es. event_type x ''tool'' \<and> tool_call_key frepr x = tool_call_key frepr e)"
    unfolding nth_ex [of es "\<lambda>x. event_type x ''tool'' \<and> tool_result_key frepr x = tool_result_key frepr e"]
    by (simp only: bexc)
  also have "\<dots> \<longleftrightarrow> event_type e ''tool'' \<and> tool_call_key frepr e \<in> set (tool_keys frepr es)"
    by (simp only: in_tool_keys)
  finally show ?thesis .
qed

lemma repeated_result_prefix:
  assumes "i < length es" shows "repeated_result frepr (es @ es') i = repeated_result frepr es i"
proof -
  have at: "(es @ es') ! i = es ! i" using assms by (simp add: nth_append)
  show ?thesis
    unfolding repeated_result_def at
    by (simp only: ex_nth_append [of i es "\<lambda>x. event_type x ''tool'' \<and> tool_result_key frepr x = tool_result_key frepr (es ! i)", OF less_imp_le [OF assms]])
qed


definition ls_event :: "(string, pyval) dict" where
  "ls_event = [(''type'', PStr ''tool''), (''tool'', PStr ''ls'')]"

definition three_events :: "(string, pyval) dict list" where
  "three_events = [ls_event, [(''type'', PStr ''assistant'')], ls_event]"


subsection \<open>The penalties\<close>

lemma turn_penalty_nonneg:
  "compute_assistant_turn_penalty ne state config raw = Inr (p, n, t) \<Longrightarrow> 0 \<le> t"
  by (auto simp: compute_assistant_turn_penalty_def rbind_Inr_iff)

lemma duplicate_penalty:
  "compute_duplicate_tool_call_penalty ne es config raw = Inr (p, n, t) \<Longrightarrow>
   t = max 0 p * of_nat (duplicate_count (ne_frepr ne) es)"
  by (auto simp: compute_duplicate_tool_call_penalty_def rbind_Inr_iff Let_def split: if_splits)

lemma repeated_penalty:
  "compute_repeated_response_penalty ne es config raw rc rr = Inr (p, n, c, m, t) \<Longrightarrow>
   t = max 0 p * of_nat (repeat_total (ne_frepr ne) c m es) \<and> 1 \<le> c \<and> 2 \<le> m"
  by (auto simp: compute_repeated_response_penalty_def rbind_Inr_iff Let_def split: if_splits)

lemma behavior_penalties_parts:
  assumes "compute_behavior_penalties ne args state config es s = Inr (t, report)"
  obtains p n t1 p2 n2 t2 p3 n3 c m t3 where
    "compute_assistant_turn_penalty ne state config (ra_assistant_turn_penalty args) = Inr (p, n, t1)"
    "compute_duplicate_tool_call_penalty ne es config (ra_duplicate_tool_call_penalty args) = Inr (p2, n2, t2)"
    "compute_repeated_response_penalty ne es config (ra_repeated_response_penalty args)
       (ra_repeated_response_min_chars args) (ra_repeated_response_min_consecutive_repeats args) = Inr (p3, n3, c, m, t3)"
    "t = (if only_positive ne args config \<and> s \<le> 0 then 0 else t1) + t2 + t3"
    "pget report ''nanoclaw_total_behavior_penalty'' = PFloat t"
  using assms
  by (auto simp: compute_behavior_penalties_def rbind_Inr_iff Let_def pget_def dict_get_default_def split: prod.splits)

lemma behavior_penalty_nonneg:
  assumes "compute_behavior_penalties ne args state config es s = Inr (t, report)"
  shows "0 \<le> t" "pget report ''nanoclaw_total_behavior_penalty'' = PFloat t"
  using assms
  by (auto elim!: behavior_penalties_parts dest!: turn_penalty_nonneg duplicate_penalty repeated_penalty)

lemma repeat_total_snoc_tool:
  "event_type e ''tool'' \<Longrightarrow> repeat_total frepr c m (es @ [e]) = repeat_total frepr c m es"
  by (simp add: repeat_total_def event_type_def)

lemma duplicate_penalty_snoc:
  assumes "compute_duplicate_tool_call_penalty ne es config raw = Inr (p, n, t)"
    and "float_setting ne raw config ''duplicate_tool_call_penalty'' 0 = Inr price" and "0 < price"
    and "event_type e ''tool''" and "tool_call_key (ne_frepr ne) e \<in> set (tool_keys (ne_frepr ne) es)"
  shows "compute_duplicate_tool_call_penalty ne (es @ [e]) config raw = Inr (p, n + 1, t + price)"
  using assms by (auto simp: compute_duplicate_tool_call_penalty_def duplicate_count_snoc Let_def algebra_simps)

lemma repeated_penalty_snoc_tool:
  "event_type e ''tool'' \<Longrightarrow>
   compute_repeated_response_penalty ne (es @ [e]) config raw rc rr = compute_repeated_response_penalty ne es config raw rc rr"
  by (simp add: compute_repeated_response_penalty_def repeat_total_snoc_tool Let_def cong: if_cong)

lemma behavior_penalties_Inr:
  assumes "compute_assistant_turn_penalty ne state config (ra_assistant_turn_penalty args) = Inr (p, n, t1)"
    and "compute_duplicate_tool_call_penalty ne es config (ra_duplicate_tool_call_penalty args) = Inr (p2, n2, t2)"
    and "compute_repeated_response_penalty ne es config (ra_repeated_response_penalty args)
       (ra_repeated_response_min_chars args) (ra_repeated_response_min_consecutive_repeats args) = Inr (p3, n3, c, m, t3)"
  shows "\<exists>report. compute_behavior_penalties ne args state config es s =
     Inr ((if only_positive ne args config \<and> s \<le> 0 then 0 else t1) + t2 + t3, report)"
  by (simp add: compute_behavior_penalties_def assms Let_def)

text \<open>
  Repeating a tool call costs the agent exactly the configured price: when the trajectory is extended by a
  tool event with the same tool, arguments, response and result as an earlier one, the total behaviour
  penalty grows by the price of an extra call, whatever the other penalties are.
\<close>

theorem repeated_call_costs:
  assumes "compute_behavior_penalties ne args state config es s = Inr (t, report)"
    and "float_setting ne (ra_duplicate_tool_call_penalty args) config ''duplicate_tool_call_penalty'' 0 = Inr price" and "0 < price"
    and "event_type e ''tool''" and "tool_call_key (ne_frepr ne) e \<in> set (tool_keys (ne_frepr ne) es)"
  shows "\<exists>report'. compute_behavior_penalties ne args state config (es @ [e]) s = Inr (t + price, report')"
proof -
  from assms(1) obtain p n t1 p2 n2 t2 p3 n3 c m t3 where parts:
    "compute_assistant_turn_penalty ne state config (ra_assistant_turn_penalty args) = Inr (p, n, t1)"
    "compute_duplicate_tool_call_penalty ne es config (ra_duplicate_tool_call_penalty args) = Inr (p2, n2, t2)"
    "compute_repeated_response_penalty ne es config (ra_repeated_response_penalty args)
       (ra_repeated_response_min_chars args) (ra_repeated_response_min_consecutive_repeats args) = Inr (p3, n3, c, m, t3)"
    "t = (if only_positive ne args config \<and> s \<le> 0 then 0 else t1) + t2 + t3"
    by (rule behavior_penalties_parts)
  from behavior_penalties_Inr [OF parts(1) duplicate_penalty_snoc [OF parts(2) assms(2-5)]
      trans [OF repeated_penalty_snoc_tool [OF assms(4)] parts(3)], of s]
  show ?thesis by (simp add: parts(4) add_ac)
qed

definition default_args :: reward_args where
  "default_args = \<lparr>ra_cleanup_workspaces = PNone, ra_keep_failed_workspaces = PNone, ra_verifier_timeout = PNone,
     ra_reward_score_mode = PNone, ra_require_final_answer = PNone, ra_final_answer_bonus_enable = PNone,
     ra_final_answer_bonus_score = PNone, ra_assistant_turn_penalty = PNone, ra_turn_penalty_only_positive_score = PNone,
     ra_duplicate_tool_call_penalty = PNone, ra_repeated_response_penalty = PNone, ra_repeated_response_min_chars = PNone,
     ra_repeated_response_min_consecutive_repeats = PNone, ra_score_uninitialized_workspace = False,
     ra_mock_api_base = PNone, ra_mock_api_key = PNone, ra_mock_model_name = PNone, ra_mock_api_timeout = PNone,
     ra_mock_api_connect_timeout = PNone, ra_kwargs = []\<rparr>"

lemma repeated_call_costs_witness:
  "\<exists>t report report'.
     compute_behavior_penalties example_env (default_args\<lparr>ra_duplicate_tool_call_penalty := PFloat (1 / 10)\<rparr>) [] [] [ls_event] 1 = Inr (t, report) \<and>
     compute_behavior_penalties example_env (default_args\<lparr>ra_duplicate_tool_call_penalty := PFloat (1 / 10)\<rparr>) [] []
       ([ls_event] @ [ls_event]) 1 = Inr (t + 1 / 10, report')"
proof -
  let ?args = "default_args\<lparr>ra_duplicate_tool_call_penalty := PFloat (1 / 10)\<rparr>"
  obtain t report where run: "compute_behavior_penalties example_env ?args [] [] [ls_event] 1 = Inr (t, report)"
  proof -
    have "case compute_behavior_penalties example_env ?args [] [] [ls_event] 1 of Inr _ \<Rightarrow> True | Inl _ \<Rightarrow> False" by code_simp
    then show ?thesis using that by (auto split: sum.splits)
  qed
  have "float_setting example_env (ra_duplicate_tool_call_penalty ?args) [] ''duplicate_tool_call_penalty'' 0 = Inr (1 / 10)"
    by (simp add: float_setting_def default_args_def pget_def dict_get_default_def cfg_float_def float_config_def py_float_of_def)
  moreover have "event_type ls_event ''tool''" by code_simp
  moreover have "tool_call_key (ne_frepr example_env) ls_event \<in> set (tool_keys (ne_frepr example_env) [ls_event])"
    using calculation(2) by (simp add: tool_keys_def)
  ultimately show ?thesis using repeated_call_costs [OF run, of "1 / 10" ls_event] run by auto
qed

end
