(* ===== verification/NanoReward.thy ===== *)
theory NanoReward
  imports NanoScore
begin

text \<open>
  The reward function of \<open>nanoclaw_recipe/nanoclaw.py\<close>: running the verifier and reading its score file,
  the log of rewards with its counters, the removal of workspaces, and \<open>compute_score\<close>.  The file system and
  the counters of the log are passed through; everything printed is left out.
\<close>

subsection \<open>Running the verifier\<close>

record mock_api =
  ma_base :: pyval
  ma_key :: pyval
  ma_model :: pyval
  ma_timeout :: rat
  ma_connect_timeout :: rat

definition set_truthy :: "(rat \<Rightarrow> string) \<Rightarrow> string \<Rightarrow> pyval \<Rightarrow> (string, string) dict \<Rightarrow> (string, string) dict" where
  "set_truthy frepr key v env = (if py_truthy v then dict_set env key (py_str frepr v) else env)"

definition verifier_env :: "nano_env \<Rightarrow> mock_api \<Rightarrow> (string, string) dict \<Rightarrow> (string, string) dict" where
  "verifier_env ne mock env =
     (let fr = ne_frepr ne;
          env1 = set_truthy fr ''MOCK_MODEL_NAME'' (ma_model mock)
                   (set_truthy fr ''MOCK_API_KEY'' (ma_key mock) (set_truthy fr ''MOCK_API_BASE'' (ma_base mock) env))
      in dict_set (dict_set env1 ''MOCK_API_TIMEOUT'' (fr (ma_timeout mock)))
           ''MOCK_API_CONNECT_TIMEOUT'' (fr (ma_connect_timeout mock)))"

definition process_report :: "nano_env \<Rightarrow> rat \<Rightarrow> process \<Rightarrow> (string, pyval) dict" where
  "process_report ne timeout p = (case p of
     Completed returncode out err \<Rightarrow>
       [(''status'', PStr (if returncode = 0 then ''completed'' else ''failed'')), (''returncode'', PInt returncode),
        (''stdout'', PStr out), (''stderr'', PStr err), (''elapsed_seconds'', PFloat (ne_elapsed ne))]
   | TimedOut out err \<Rightarrow>
       [(''status'', PStr ''failed''), (''returncode'', PNone), (''stdout'', PStr out), (''stderr'', PStr err),
        (''elapsed_seconds'', PFloat (ne_elapsed ne)),
        (''error'', PStr (''verifier timed out after '' @ format_g (ne_host ne) timeout @ ''s''))])"

text \<open>The first score file that exists decides, also when it is not valid JSON.\<close>

definition read_score :: "nano_env \<Rightarrow> fs \<Rightarrow> path \<Rightarrow> path \<Rightarrow> (string, pyval) dict \<Rightarrow> (string, pyval) dict result" where
  "read_score ne fs verifier_path workspace_after report =
     (let candidates = [workspace_after @ [''workplace_score.json''], butlast verifier_path @ [''workplace_score.json'']];
          result = dict_update report [(''workplace_score_path'', PNone), (''workplace_score_source'', PNone)]
      in case List.find (is_file fs) candidates of
           None \<Rightarrow> Inr result
         | Some p \<Rightarrow>
             (let place = [(''workplace_score_path'', PStr (full_path p)),
                    (''workplace_score_source'', PStr (if butlast p = workspace_after then ''workspace_after'' else ''verifier_cwd''))]
              in case rbind (read_text fs p) (ne_json_loads ne) of
                   Inr score \<Rightarrow> Inr (dict_update (dict_set result ''workplace_score'' score) place)
                 | Inl (JSONDecodeError msg) \<Rightarrow> Inr (dict_update (dict_set result ''workplace_score_error'' (PStr msg)) place)
                 | Inl e \<Rightarrow> Inl e))"

definition run_verifier ::
  "nano_env \<Rightarrow> fs \<Rightarrow> path \<Rightarrow> path \<Rightarrow> rat \<Rightarrow> mock_api \<Rightarrow> (string, pyval) dict result \<times> fs" where
  "run_verifier ne fs verifier_path workspace_after timeout mock =
     (case workspace_subprocess_env (ne_host ne) fs workspace_after of
        (Inl e, fs1) \<Rightarrow> (Inl e, fs1)
      | (Inr env, fs1) \<Rightarrow>
          (case launch (ne_host ne) [ne_executable ne, full_path verifier_path, full_path workspace_after]
              (butlast verifier_path) (verifier_env ne mock env) timeout fs1 of
             (Inl e, fs2) \<Rightarrow> (Inl e, fs2)
           | (Inr p, fs2) \<Rightarrow>
               (map_sum id (\<lambda>result. dict_set result ''score_summary'' (PDict (score_summary (pget result ''workplace_score''))))
                  (read_score ne fs2 verifier_path workspace_after (process_report ne timeout p)), fs2)))"

definition load_conversation_events :: "nano_env \<Rightarrow> fs \<Rightarrow> (string, pyval) dict \<Rightarrow> (string, pyval) dict list" where
  "load_conversation_events ne fs runtime_state =
     (let result_dir = pget runtime_state ''result_dir'';
          p = abs_path ne (py_str (ne_frepr ne) result_dir) @ [''conversation_history.json'']
      in if \<not> py_truthy result_dir \<or> \<not> is_file fs p then []
         else case rbind (read_text fs p) (ne_json_loads ne) of
           Inr (PDict payload) \<Rightarrow> (case pget payload ''events'' of
               PList events \<Rightarrow> List.map_filter (\<lambda>e. case e of PDict d \<Rightarrow> Some d | _ \<Rightarrow> None) events
             | _ \<Rightarrow> [])
         | _ \<Rightarrow> [])"

subsection \<open>Removing a workspace\<close>

text \<open>\<open>shutil.rmtree\<close> of a directory other than the root: the directory itself must not be a link.\<close>

definition rmtree :: "fs \<Rightarrow> path \<Rightarrow> fs result" where
  "rmtree fs p = rbind (resolve fs (butlast p)) (\<lambda>parent.
     let q = parent @ [last p] in
     case dict_get fs q of
       None \<Rightarrow> Inl (FileNotFoundError (os_error 2 ''No such file or directory'' p))
     | Some Dir \<Rightarrow> Inr (filter (\<lambda>e. \<not> prefix q (fst e)) fs)
     | Some (File _) \<Rightarrow> Inl (NotADirectoryError (os_error 20 ''Not a directory'' p))
     | Some (Link _) \<Rightarrow> Inl (OSError ''Cannot call rmtree on a symbolic link''))"

definition cleanup_workspace :: "nano_env \<Rightarrow> fs \<Rightarrow> pyval \<Rightarrow> pyval \<times> fs" where
  "cleanup_workspace ne fs result_dir =
     (if \<not> py_truthy result_dir then (PNone, fs)
      else case rmtree fs (abs_path ne (py_str (ne_frepr ne) result_dir)) of
        Inr fs1 \<Rightarrow> (PNone, fs1)
      | Inl (FileNotFoundError _) \<Rightarrow> (PNone, fs)
      | Inl e \<Rightarrow> (PStr (exc_name e @ '': '' @ exc_text e), fs))"

subsection \<open>The reward log\<close>

definition tail_text :: "(rat \<Rightarrow> string) \<Rightarrow> nat \<Rightarrow> pyval \<Rightarrow> string" where
  "tail_text frepr limit v =
     (if v = PNone then ''''
      else let s = py_strip (py_str frepr v)
           in if length s \<le> limit then s else ''...(tail)'' @ drop (length s - limit) s)"

definition compact_reward_details :: "(rat \<Rightarrow> string) \<Rightarrow> pyval \<Rightarrow> nat \<Rightarrow> pyval list" where
  "compact_reward_details frepr workplace_score limit =
     (case pget (dict_of workplace_score) ''details'' of
        PList details \<Rightarrow>
          List.map_filter (\<lambda>item. case item of
              PDict d \<Rightarrow> Some (PDict [(''item'', pget d ''item''), (''score'', pget d ''score''), (''max_score'', pget d ''max_score''),
                (''passed'', pget d ''passed''), (''reason'', PStr (tail_text frepr 240 (pget d ''reason'')))])
            | _ \<Rightarrow> None) (take limit details)
      | _ \<Rightarrow> [])"

definition reward_issue_kind :: "(rat \<Rightarrow> string) \<Rightarrow> (string, pyval) dict \<Rightarrow> (string, pyval) dict \<Rightarrow> string" where
  "reward_issue_kind frepr result verifier_result =
     (let status = pget result ''nanoclaw_status''; err = pget verifier_result ''error''; rc = pget result ''nanoclaw_returncode'' in
      if status \<in> {PStr ''setup_failed'', PStr ''missing_verifier'', PStr ''no_workspace''} then py_str frepr status
      else if py_truthy err then (if py_in ''timed out'' (py_str frepr err) then ''verifier_timeout'' else ''verifier_error'')
      else if py_truthy (pget verifier_result ''workplace_score_error'') then ''score_json_error''
      else if \<not> py_eq_int rc 0 \<and> rc \<noteq> PNone then ''verifier_exception''
      else if pget result ''nanoclaw_raw_score'' = PNone \<or> pget result ''nanoclaw_max_score'' = PNone then ''score_schema_missing''
      else if py_eq_int (pget result ''nanoclaw_score_ratio'') 0 then ''zero_score''
      else if pget result ''nanoclaw_passed'' = PBool True then ''passed''
      else ''partial_score'')"

text \<open>\<open>round\<close> to the nearest integer, ties to even.\<close>

definition round_half_even :: "rat \<Rightarrow> int" where
  "round_half_even q = (let f = \<lfloor>q\<rfloor>; r = q - of_int f in
     if r < 1 / 2 then f else if r > 1 / 2 then f + 1 else if even f then f else f + 1)"

type_synonym counters = "(string, int) dict"

definition add_counter :: "string \<Rightarrow> int \<Rightarrow> counters \<Rightarrow> counters" where
  "add_counter key n counters = dict_set counters key (dict_get_default counters key 0 + n)"

definition count_reward :: "string \<Rightarrow> pyval \<Rightarrow> counters \<Rightarrow> counters" where
  "count_reward issue_kind score counters =
     (let c = add_counter (''issue/'' @ issue_kind) 1 (add_counter ''total'' 1 counters)
      in case as_num score of None \<Rightarrow> c | Some q \<Rightarrow> add_counter ''score_sum_x1000'' (round_half_even (q * 1000)) c)"

definition copy_keys :: "(string, pyval) dict \<Rightarrow> (string \<times> string) list \<Rightarrow> (string, pyval) dict" where
  "copy_keys d keys = map (\<lambda>(out, key). (out, pget d key)) keys"

definition reward_record ::
  "nano_env \<Rightarrow> (string, pyval) dict \<Rightarrow> (string, pyval) dict \<Rightarrow> (string, pyval) dict \<Rightarrow> string \<Rightarrow> (string, pyval) dict" where
  "reward_record ne result runtime_state verifier_result issue_kind =
     (let fr = ne_frepr ne in
      [(''time'', PStr (ne_now ne)), (''task_id'', pget result ''nanoclaw_task_id''), (''issue_kind'', PStr issue_kind)] @
      copy_keys result [(''score'', ''score''), (''has_final_answer'', ''nanoclaw_has_final_answer''),
        (''final_answer_bonus_enabled'', ''nanoclaw_final_answer_bonus_enabled''),
        (''final_answer_bonus_score'', ''nanoclaw_final_answer_bonus_score''),
        (''final_answer_bonus_awarded'', ''nanoclaw_final_answer_bonus_awarded''),
        (''raw_score'', ''nanoclaw_raw_score''), (''max_score'', ''nanoclaw_max_score''),
        (''score_ratio'', ''nanoclaw_score_ratio''), (''passed'', ''nanoclaw_passed''),
        (''status'', ''nanoclaw_status''), (''returncode'', ''nanoclaw_returncode'')] @
      [(''error'', py_or (pget result ''nanoclaw_error'') (py_or (pget verifier_result ''error'') (pget verifier_result ''workplace_score_error''))),
       (''result_dir'', py_or (pget result ''nanoclaw_result_dir'') (pget runtime_state ''result_dir'')),
       (''workspace_after'', py_or (pget result ''nanoclaw_workspace_after'') (pget runtime_state ''workspace_after'')),
       (''verifier_path'', pget runtime_state ''verifier_path''),
       (''workplace_score_path'', pget verifier_result ''workplace_score_path''),
       (''workplace_score_source'', pget verifier_result ''workplace_score_source''),
       (''details'', PList (compact_reward_details fr (pget verifier_result ''workplace_score'') 20)),
       (''stdout_tail'', PStr (tail_text fr 800 (pget verifier_result ''stdout''))),
       (''stderr_tail'', PStr (tail_text fr 800 (pget verifier_result ''stderr'')))])"

definition stats_record :: "nano_env \<Rightarrow> (string, pyval) dict \<Rightarrow> string \<Rightarrow> path \<Rightarrow> (string, pyval) dict" where
  "stats_record ne result issue_kind sample_path =
     [(''time'', PStr (ne_now ne)), (''task_id'', pget result ''nanoclaw_task_id''), (''issue_kind'', PStr issue_kind)] @
     copy_keys result [(''score'', ''score''), (''has_final_answer'', ''nanoclaw_has_final_answer''),
       (''final_answer_bonus_awarded'', ''nanoclaw_final_answer_bonus_awarded''), (''raw_score'', ''nanoclaw_raw_score''),
       (''max_score'', ''nanoclaw_max_score''), (''score_ratio'', ''nanoclaw_score_ratio''), (''passed'', ''nanoclaw_passed''),
       (''status'', ''nanoclaw_status''), (''returncode'', ''nanoclaw_returncode'')] @
     [(''sample_log'', PStr (full_path sample_path))]"

definition stats_summary :: "nano_env \<Rightarrow> counters \<Rightarrow> (string, pyval) dict" where
  "stats_summary ne counters =
     (let total = dict_get_default counters ''total'' 0;
          mean = of_int (dict_get_default counters ''score_sum_x1000'' 0) / of_int (max total 1) / 1000
      in [(''time'', PStr (ne_now ne)), (''total'', PInt total),
          (''mean_score'', PFloat (of_int (round_half_even (mean * 1000000)) / 1000000)),
          (''issues'', PDict (map (\<lambda>(k, n). (drop 6 k, PInt n)) (filter (\<lambda>(k, n). starts_with k ''issue/'') counters)))])"

text \<open>The steps of the log in their order; a step that raises ends the log, not the reward.\<close>

definition logs :: "(counters \<times> fs) \<Rightarrow> fs result \<Rightarrow> (counters \<times> fs \<Rightarrow> counters \<times> fs) \<Rightarrow> counters \<times> fs" where
  "logs w r f = (case r of Inl _ \<Rightarrow> w | Inr fs \<Rightarrow> f (fst w, fs))"

definition write_json :: "nano_env \<Rightarrow> fs \<Rightarrow> path \<Rightarrow> (string, pyval) dict \<Rightarrow> fs result" where
  "write_json ne fs p d = rbind (json_dumps_indent (ne_frepr ne) (PDict d)) (\<lambda>s. write_text fs p (s @ [newline]))"

definition append_json :: "nano_env \<Rightarrow> fs \<Rightarrow> path \<Rightarrow> (string, pyval) dict \<Rightarrow> fs result" where
  "append_json ne fs p d = rbind (json_dumps_indent (ne_frepr ne) (PDict d)) (\<lambda>s. append_text fs p (s @ [newline]))"

definition make_dirs :: "fs \<Rightarrow> path \<Rightarrow> fs result" where
  "make_dirs fs p = (if is_dir fs p then Inr fs else mkdir_new fs p)"

definition parent_path_of :: "nano_env \<Rightarrow> string \<Rightarrow> path" where
  "parent_path_of ne s = (if is_absolute s then [] else ne_cwd ne) @ butlast (path_parts s)"

definition write_reward_debug_files ::
  "nano_env \<Rightarrow> string \<Rightarrow> (string, pyval) dict \<Rightarrow> (string, pyval) dict \<Rightarrow> (string, pyval) dict \<Rightarrow> counters \<times> fs \<Rightarrow> counters \<times> fs" where
  "write_reward_debug_files ne uuid result runtime_state verifier_result w =
     (let fr = ne_frepr ne; dir = pget runtime_state ''result_dir''; issue_kind = reward_issue_kind fr result verifier_result in
      if \<not> py_truthy dir then w
      else let root_dir = parent_path_of ne (py_str fr dir) @ [''_reward_logs''];
               task_id = safe_name (py_str fr (py_or (pget result ''nanoclaw_task_id'') (PStr ''unknown'')));
               own_name = path_name (path_parts (py_str fr dir));
               name = (if own_name \<noteq> '''' then own_name else uuid);
               sample_path = root_dir @ [task_id @ ''__'' @ safe_name name @ ''.reward.json''];
               events_path = root_dir @ [''reward_events.jsonl'']
           in logs w (make_dirs (snd w) root_dir) (\<lambda>w1.
              logs w1 (write_json ne (snd w1) sample_path (reward_record ne result runtime_state verifier_result issue_kind)) (\<lambda>w2.
                let w3 = (count_reward issue_kind (pget result ''score'') (fst w2), snd w2) in
                logs w3 (append_text (snd w3) events_path '''') (\<lambda>w4.
                logs w4 (append_json ne (snd w4) events_path (stats_record ne result issue_kind sample_path)) (\<lambda>w5.
                logs w5 (write_json ne (snd w5) (root_dir @ [''reward_stats.json'']) (stats_summary ne (fst w5))) (\<lambda>w6. w6))))))"

subsection \<open>The reward\<close>

type_synonym reward = "(string, pyval) dict result \<times> counters \<times> fs"

text \<open>Where the reward comes from: every way out of \<open>compute_score\<close> reports through \<open>log_reward_result\<close>.\<close>

definition log_reward_result ::
  "nano_env \<Rightarrow> string \<Rightarrow> counters \<Rightarrow> fs \<Rightarrow> (string, pyval) dict \<Rightarrow> (string, pyval) dict \<Rightarrow> (string, pyval) dict \<Rightarrow> reward" where
  "log_reward_result ne uuid counters fs result runtime_state verifier_result =
     (Inr result, write_reward_debug_files ne uuid result runtime_state verifier_result (counters, fs))"

definition fails :: "counters \<Rightarrow> fs \<Rightarrow> 'a result \<Rightarrow> ('a \<Rightarrow> reward) \<Rightarrow> reward" where
  "fails counters fs r f = (case r of Inl e \<Rightarrow> (Inl e, counters, fs) | Inr x \<Rightarrow> f x)"

definition wants_cleanup :: "reward_args \<Rightarrow> (string, pyval) dict \<Rightarrow> bool" where
  "wants_cleanup args task_config =
     bool_config (ra_cleanup_workspaces args) (bool_config (pget task_config ''cleanup_workspace'') True)"

definition cleanup_if :: "nano_env \<Rightarrow> bool \<Rightarrow> fs \<Rightarrow> (string, pyval) dict \<Rightarrow> pyval \<times> fs" where
  "cleanup_if ne wanted fs runtime_state =
     (if wanted then cleanup_workspace ne fs (pget runtime_state ''result_dir'') else (PNone, fs))"

text \<open>The early exits that give a fixed score, plus the bonus.\<close>

definition fixed_result ::
  "rat \<Rightarrow> rat \<times> (string, pyval) dict \<Rightarrow> string \<Rightarrow> string \<Rightarrow> pyval \<Rightarrow> (string, pyval) dict \<Rightarrow> (string, pyval) dict" where
  "fixed_result score bonus task_id status err cleanup =
     [(''score'', PFloat (score + fst bonus)), (''nanoclaw_task_id'', PStr task_id), (''nanoclaw_status'', PStr status),
      (''nanoclaw_error'', err)] @ cleanup @
     [(''nanoclaw_reward_score_before_final_answer_bonus'', PFloat score)] @ snd bonus"

definition missing_final_answer ::
  "nano_env \<Rightarrow> string \<Rightarrow> reward_args \<Rightarrow> (string, pyval) dict \<Rightarrow> (string, pyval) dict \<Rightarrow> string \<Rightarrow>
   rat \<times> (string, pyval) dict \<Rightarrow> counters \<Rightarrow> fs \<Rightarrow> reward" where
  "missing_final_answer ne uuid args runtime_state task_config task_id bonus counters fs =
     fails counters fs (compute_behavior_penalties ne args runtime_state task_config
         (load_conversation_events ne fs runtime_state) 0) (\<lambda>(total_penalty, report).
       let reason = termination_reason (ne_frepr ne) runtime_state;
           should = wants_cleanup args task_config;
           (cleanup_error, fs1) = cleanup_if ne should fs runtime_state;
           kept = (\<lambda>key. if should then PNone else pget runtime_state key)
       in log_reward_result ne uuid counters fs1
            ([(''score'', PFloat (0 - total_penalty)), (''nanoclaw_task_id'', PStr task_id),
              (''nanoclaw_status'', PStr ''missing_final_answer''),
              (''nanoclaw_error'', PStr (''rollout did not finish with final answer; termination_reason='' @
                 (if reason \<noteq> '''' then reason else ''<missing>''))),
              (''nanoclaw_returncode'', PNone), (''nanoclaw_raw_score'', PNone), (''nanoclaw_max_score'', PNone),
              (''nanoclaw_score_ratio'', PNone), (''nanoclaw_passed'', PBool False),
              (''nanoclaw_result_dir'', kept ''result_dir''), (''nanoclaw_workspace_after'', kept ''workspace_after''),
              (''nanoclaw_created_for_reward'', PBool False), (''nanoclaw_cleanup_error'', cleanup_error),
              (''nanoclaw_reward_score_before_final_answer_bonus'', PFloat 0),
              (''nanoclaw_reward_score_before_behavior_penalty'', PFloat 0)] @ snd bonus @ report)
            runtime_state [])"

text \<open>The verifier that is run: the configured one, or the original one when the configured file is gone.\<close>

definition choose_verifier :: "nano_env \<Rightarrow> fs \<Rightarrow> (string, pyval) dict \<Rightarrow> (string, pyval) dict \<Rightarrow> pyval" where
  "choose_verifier ne fs runtime_state task_config =
     (let there = (\<lambda>v. is_file fs (abs_path ne (ne_expanduser ne (path_str (py_str (ne_frepr ne) v)))));
          configured = py_or (pget runtime_state ''verifier_path'') (pget task_config ''verifier_path'');
          original = py_or (pget runtime_state ''original_verifier_path'') (pget task_config ''verifier_path'')
      in if py_truthy configured \<and> \<not> there configured \<and> py_truthy original \<and> there original then original else configured)"

definition verified_result ::
  "rat \<Rightarrow> rat \<times> (string, pyval) dict \<Rightarrow> rat \<times> (string, pyval) dict \<Rightarrow> string \<Rightarrow> (string, pyval) dict \<Rightarrow>
   (string, pyval) dict \<Rightarrow> bool \<Rightarrow> bool \<Rightarrow> pyval \<Rightarrow> (string, pyval) dict" where
  "verified_result base bonus penalties task_id verifier_result runtime_state created should_cleanup cleanup_error =
     (let summary = dict_of (pget verifier_result ''score_summary'');
          kept = (\<lambda>key. if should_cleanup then PNone else pget runtime_state key)
      in [(''score'', PFloat (base + fst bonus - fst penalties)), (''nanoclaw_task_id'', PStr task_id),
          (''nanoclaw_status'', pget verifier_result ''status''), (''nanoclaw_returncode'', pget verifier_result ''returncode''),
          (''nanoclaw_raw_score'', pget summary ''score''), (''nanoclaw_max_score'', pget summary ''max_score''),
          (''nanoclaw_score_ratio'', pget summary ''score_ratio''), (''nanoclaw_passed'', pget summary ''passed''),
          (''nanoclaw_result_dir'', kept ''result_dir''), (''nanoclaw_workspace_after'', kept ''workspace_after''),
          (''nanoclaw_created_for_reward'', PBool created), (''nanoclaw_cleanup_error'', cleanup_error),
          (''nanoclaw_reward_score_before_final_answer_bonus'', PFloat base),
          (''nanoclaw_reward_score_before_behavior_penalty'', PFloat (base + fst bonus))] @ snd bonus @ snd penalties)"

text \<open>From the choice of the verifier on.\<close>

definition score_workspace ::
  "nano_env \<Rightarrow> string \<Rightarrow> reward_args \<Rightarrow> (string, pyval) dict \<Rightarrow> (string, pyval) dict \<Rightarrow> string \<Rightarrow> rat \<Rightarrow>
   rat \<times> (string, pyval) dict \<Rightarrow> bool \<Rightarrow> counters \<Rightarrow> fs \<Rightarrow> reward" where
  "score_workspace ne uuid args runtime_state task_config task_id fallback_score bonus created counters fs =
     (let verifier = choose_verifier ne fs runtime_state task_config in
      if \<not> py_truthy verifier then
        fails counters fs (cfg_float ne (pget task_config ''missing_verifier_score'') 0) (\<lambda>missing_score.
          let (cleanup_error, fs1) = cleanup_if ne (wants_cleanup args task_config) fs runtime_state
          in log_reward_result ne uuid counters fs1
               (fixed_result missing_score bonus task_id ''missing_verifier'' (PStr ''verifier_path is not configured for this task'')
                  [(''nanoclaw_cleanup_error'', cleanup_error)]) runtime_state [])
      else
        fails counters fs (resolved_path ne fs verifier) (\<lambda>verifier_path.
        fails counters fs (case dict_get runtime_state ''workspace_after'' of None \<Rightarrow> Inl (KeyError ''workspace_after'')
            | Some v \<Rightarrow> resolved_path ne fs v) (\<lambda>workspace_after.
        fails counters fs (float_setting ne (ra_verifier_timeout args) task_config ''verifier_timeout'' 300) (\<lambda>timeout.
        fails counters fs (rbind (cfg_float ne (environ_value ne ''MOCK_API_TIMEOUT'') 60) (cfg_float ne (ra_mock_api_timeout args))) (\<lambda>api_timeout.
        fails counters fs (rbind (cfg_float ne (environ_value ne ''MOCK_API_CONNECT_TIMEOUT'') 10)
            (cfg_float ne (ra_mock_api_connect_timeout args))) (\<lambda>connect_timeout.
          let (ran, fs1) = run_verifier ne fs verifier_path workspace_after timeout
                \<lparr>ma_base = py_or (ra_mock_api_base args) (pget (ra_kwargs args) ''reward_router_address''),
                 ma_key = ra_mock_api_key args, ma_model = ra_mock_model_name args,
                 ma_timeout = api_timeout, ma_connect_timeout = connect_timeout\<rparr>
          in fails counters fs1 ran (\<lambda>verifier_result.
             let mode = py_str (ne_frepr ne) (py_or (py_or (ra_reward_score_mode args) (pget task_config ''reward_score_mode'')) (PStr ''ratio''));
                 base = choose_reward_score verifier_result mode fallback_score
             in fails counters fs1 (compute_behavior_penalties ne args runtime_state task_config
                    (load_conversation_events ne fs1 runtime_state) (base + fst bonus)) (\<lambda>penalties.
                let passed = pget (dict_of (pget verifier_result ''score_summary'')) ''passed'';
                    keep_failed = bool_config (ra_keep_failed_workspaces args) (bool_config (pget task_config ''keep_failed_workspace'') False);
                    should_cleanup = (wants_cleanup args task_config \<and> \<not> (keep_failed \<and> passed \<noteq> PBool True));
                    (cleanup_error, fs2) = cleanup_if ne should_cleanup fs1 runtime_state
                in log_reward_result ne uuid counters fs2
                     (verified_result base bonus penalties task_id verifier_result runtime_state created should_cleanup cleanup_error)
                     runtime_state verifier_result))))))))"

definition compute_score ::
  "nano_env \<Rightarrow> string \<Rightarrow> string \<Rightarrow> string \<Rightarrow> pyval \<Rightarrow> (string, pyval) dict \<Rightarrow> reward_args \<Rightarrow> counters \<Rightarrow> fs \<Rightarrow> reward" where
  "compute_score ne uuid data_source solution_str ground_truth extra_info args counters fs =
     (let (task_config, runtime_state) = extract_task_and_runtime extra_info ground_truth;
          fr = ne_frepr ne;
          task_id = py_str fr (py_or (py_or (pget task_config ''task_id'') (pget runtime_state ''task_id'')) (PStr data_source))
      in fails counters fs (cfg_float ne (pget task_config ''setup_failure_score'') 0) (\<lambda>fallback_score.
         fails counters fs (compute_final_answer_bonus ne args runtime_state task_config solution_str) (\<lambda>bonus.
         if bool_config (ra_require_final_answer args) (bool_config (pget task_config ''require_final_answer'') False) \<and>
            termination_reason fr runtime_state \<noteq> ''completed_no_tool_call'' then
           missing_final_answer ne uuid args runtime_state task_config task_id bonus counters fs
         else if pget runtime_state ''status'' = PStr ''setup_failed'' then
           (let (cleanup_error, fs1) = cleanup_if ne (wants_cleanup args task_config) fs runtime_state
            in log_reward_result ne uuid counters fs1
                 (fixed_result fallback_score bonus task_id ''setup_failed'' (pget runtime_state ''setup_error'')
                    [(''nanoclaw_cleanup_error'', cleanup_error)]) runtime_state [])
         else if py_truthy (pget runtime_state ''workspace_after'') then
           score_workspace ne uuid args runtime_state task_config task_id fallback_score bonus False counters fs
         else if \<not> ra_score_uninitialized_workspace args then
           log_reward_result ne uuid counters fs
             (fixed_result fallback_score bonus task_id ''no_workspace''
                (PStr ''model did not initialize the Nanoclaw workspace via tools'') []) runtime_state []
         else (case prepare_workspace ne fs task_config (''reward_'' @ uuid) ''reward'' of
             (Prepared state, fs1) \<Rightarrow>
               score_workspace ne uuid args state task_config task_id fallback_score bonus True counters fs1
           | (SetupError msg state, fs1) \<Rightarrow>
               (let (cleanup_error, fs2) = cleanup_workspace ne fs1 (pget state ''result_dir'')
                in log_reward_result ne uuid counters fs2
                     (fixed_result fallback_score bonus task_id ''setup_failed'' (PStr msg)
                        [(''nanoclaw_cleanup_error'', cleanup_error)]) state [])
           | (Raised e, fs1) \<Rightarrow> (Inl e, counters, fs1)))))"

subsection \<open>Where the score comes from\<close>

lemma pget_append: "pget (xs @ ys) k = (if dict_has xs k then pget xs k else pget ys k)"
  by (auto simp: pget_def dict_get_default_def dict_has_def map_add_def split: option.splits)

lemma pget_Cons: "pget ((k, v) # d) k' = (if k = k' then v else pget d k')" "pget [] k' = PNone"
  by (simp_all add: pget_def dict_get_default_def)

lemma dict_has_Cons: "dict_has ((k, v) # d) k' \<longleftrightarrow> k = k' \<or> dict_has d k'" "\<not> dict_has [] k'"
  by (simp_all add: dict_has_def)

lemmas report_simps = pget_append pget_Cons dict_has_Cons

lemma bonus_report:
  assumes "compute_final_answer_bonus ne args state config s = Inr bonus"
  shows "pget (snd bonus) ''nanoclaw_final_answer_bonus_awarded'' = PFloat (fst bonus)"
    and "\<not> dict_has (snd bonus) ''nanoclaw_total_behavior_penalty''"
    and "termination_reason (ne_frepr ne) state \<noteq> ''completed_no_tool_call'' \<Longrightarrow> fst bonus = 0"
  using assms
  by (auto simp: compute_final_answer_bonus_def rbind_Inr_iff Let_def report_simps has_final_answer_def)

lemma penalties_report:
  assumes "compute_behavior_penalties ne args state config es s = Inr (t, report)"
  shows "pget report ''nanoclaw_total_behavior_penalty'' = PFloat t" "0 \<le> t"
  using behavior_penalty_nonneg [OF assms] by auto

lemma penalties_report_both:
  "compute_behavior_penalties ne args state config es s = Inr (t, report) \<Longrightarrow>
   pget report ''nanoclaw_total_behavior_penalty'' = PFloat t \<and> 0 \<le> t"
  using penalties_report by blast

definition adds_up :: "(string, pyval) dict \<Rightarrow> bool" where
  "adds_up result \<longleftrightarrow> is_number (pget result ''score'') \<and>
     num (pget result ''score'') =
       num (pget result ''nanoclaw_reward_score_before_final_answer_bonus'') +
       num (pget result ''nanoclaw_final_answer_bonus_awarded'') - num (pget result ''nanoclaw_total_behavior_penalty'') \<and>
     0 \<le> num (pget result ''nanoclaw_total_behavior_penalty'')"

lemma num_PNone [simp]: "num PNone = 0"
  by (simp add: num_def as_num_def)

lemma fixed_result_adds_up:
  assumes "pget (snd bonus) ''nanoclaw_final_answer_bonus_awarded'' = PFloat (fst bonus)"
    and "\<not> dict_has (snd bonus) ''nanoclaw_total_behavior_penalty''"
    and "cleanup = [] \<or> cleanup = [(''nanoclaw_cleanup_error'', e)]"
  shows "adds_up (fixed_result score bonus task_id status err cleanup)"
proof -
  have "pget (snd bonus) ''nanoclaw_total_behavior_penalty'' = PNone"
    using assms(2) by (simp add: pget_def dict_get_default_def dict_has_def)
  with assms(1,3) show ?thesis by (auto simp: adds_up_def fixed_result_def report_simps)
qed

lemma verified_result_adds_up:
  assumes "pget (snd bonus) ''nanoclaw_final_answer_bonus_awarded'' = PFloat (fst bonus)"
    and "\<not> dict_has (snd bonus) ''nanoclaw_total_behavior_penalty''"
    and "pget (snd penalties) ''nanoclaw_total_behavior_penalty'' = PFloat (fst penalties)" "0 \<le> fst penalties"
    and "dict_has (snd bonus) ''nanoclaw_final_answer_bonus_awarded''"
  shows "adds_up (verified_result base bonus penalties task_id vr state created clean e)"
  using assms by (simp add: adds_up_def verified_result_def Let_def report_simps)


lemma fails_Inr: "fst (fails c fs r f) = Inr x \<longleftrightarrow> (\<exists>y. r = Inr y \<and> fst (f y) = Inr x)"
  by (cases r) (auto simp: fails_def)

lemma fst_log_reward_result [simp]: "fst (log_reward_result ne uuid c fs result state vr) = Inr result"
  by (simp add: log_reward_result_def)

lemma bonus_report_has:
  "compute_final_answer_bonus ne args state config s = Inr bonus \<Longrightarrow> dict_has (snd bonus) ''nanoclaw_final_answer_bonus_awarded''"
  by (auto simp: compute_final_answer_bonus_def rbind_Inr_iff Let_def report_simps)

text \<open>A returned score adds up and went through the log once; a raised one left the counters alone.\<close>

definition accounted :: "nano_env \<Rightarrow> string \<Rightarrow> counters \<Rightarrow> reward \<Rightarrow> bool" where
  "accounted ne uuid c r \<longleftrightarrow> (case fst r of
     Inl _ \<Rightarrow> fst (snd r) = c
   | Inr result \<Rightarrow> adds_up result \<and>
       (\<exists>fs state vr. snd r = write_reward_debug_files ne uuid result state vr (c, fs)))"

lemma accounted_intros:
  "(\<And>y. r = Inr y \<Longrightarrow> accounted ne uuid c (f y)) \<Longrightarrow> accounted ne uuid c (fails c fs r f)"
  "adds_up result \<Longrightarrow> accounted ne uuid c (log_reward_result ne uuid c fs result state vr)"
  "(\<And>a b. p = (a, b) \<Longrightarrow> accounted ne uuid c (g a b)) \<Longrightarrow> accounted ne uuid c (case p of (a, b) \<Rightarrow> g a b)"
  "(b \<Longrightarrow> accounted ne uuid c x) \<Longrightarrow> (\<not> b \<Longrightarrow> accounted ne uuid c y) \<Longrightarrow> accounted ne uuid c (if b then x else y)"
  "(\<And>state. out = Prepared state \<Longrightarrow> accounted ne uuid c (f1 state)) \<Longrightarrow> (\<And>msg state. out = SetupError msg state \<Longrightarrow> accounted ne uuid c (f2 msg state)) \<Longrightarrow>
   (\<And>e. out = Raised e \<Longrightarrow> accounted ne uuid c (f3 e)) \<Longrightarrow>
   accounted ne uuid c (case out of Prepared state \<Rightarrow> f1 state | SetupError msg state \<Rightarrow> f2 msg state | Raised e \<Rightarrow> f3 e)"
  "accounted ne uuid c (Inl e, c, fs)"
  by (auto simp: accounted_def fails_def log_reward_result_def split: prod.splits prepared.splits sum.splits)

lemma missing_final_answer_accounted:
  assumes b: "compute_final_answer_bonus ne args state config s = Inr bonus"
    and r: "termination_reason (ne_frepr ne) state \<noteq> ''completed_no_tool_call''"
  shows "accounted ne uuid c (missing_final_answer ne uuid args state config task_id bonus c fs)"
proof -
  note facts = bonus_report [OF b] bonus_report_has [OF b] r
  show ?thesis
    unfolding missing_final_answer_def Let_def
    by (intro accounted_intros) (auto dest!: penalties_report_both simp: facts adds_up_def report_simps)
qed

lemma score_workspace_accounted:
  assumes b: "compute_final_answer_bonus ne args state config s = Inr bonus"
  shows "accounted ne uuid c (score_workspace ne uuid args state' config task_id fb bonus created c fs)"
proof -
  note facts = bonus_report(1,2) [OF b] bonus_report_has [OF b]
  have v: "adds_up (verified_result base bonus penalties task_id vr state' created clean e)"
    if "compute_behavior_penalties ne args state' config es score = Inr penalties"
    for base penalties vr clean e es score
    using penalties_report [of ne args state' config es score "fst penalties" "snd penalties"] that
    by (intro verified_result_adds_up facts) auto
  show ?thesis
    unfolding score_workspace_def Let_def
    by (intro accounted_intros v fixed_result_adds_up facts) auto
qed

lemma compute_score_accounted:
  "accounted ne uuid c (compute_score ne uuid source solution ground_truth extra_info args c fs)"
proof -
  obtain config state where x: "extract_task_and_runtime extra_info ground_truth = (config, state)"
    by (cases "extract_task_and_runtime extra_info ground_truth")
  show ?thesis
    unfolding compute_score_def x prod.case Let_def
    by (intro accounted_intros)
      (simp_all add: missing_final_answer_accounted score_workspace_accounted fixed_result_adds_up bonus_report(1,2))
qed

text \<open>
  C11. Every reward is accounted for: on every way out of the reward function - a missing final answer, a failed
  set-up, no workspace, no verifier, a verified run - the score is a number, equal to the reported base score
  plus the reported final-answer bonus minus the reported behaviour penalty, and that penalty is never negative.
\<close>

theorem reward_adds_up:
  assumes "fst (compute_score ne uuid source solution ground_truth extra_info args c fs) = Inr result"
  shows "is_number (pget result ''score'') \<and>
    num (pget result ''score'') =
      num (pget result ''nanoclaw_reward_score_before_final_answer_bonus'') +
      num (pget result ''nanoclaw_final_answer_bonus_awarded'') - num (pget result ''nanoclaw_total_behavior_penalty'') \<and>
    0 \<le> num (pget result ''nanoclaw_total_behavior_penalty'')"
  using compute_score_accounted [of ne uuid c source solution ground_truth extra_info args fs] assms
  by (simp add: accounted_def adds_up_def)

definition unanswered_run :: "(string, pyval) dict" where
  "unanswered_run = [(''nanoclaw_task'', PDict [(''require_final_answer'', PBool True), (''assistant_turn_penalty'', PFloat (1 / 10))]),
     (''rollout_assistant_turns'', PInt 3)]"

lemma reward_adds_up_witness:
  "\<exists>result. fst (compute_score example_env ''1'' ''data'' ''text'' PNone unanswered_run default_args [] []) = Inr result \<and>
     num (pget result ''score'') = - 3 / 10 \<and> num (pget result ''nanoclaw_total_behavior_penalty'') = 3 / 10 \<and>
     num (pget result ''nanoclaw_final_answer_bonus_awarded'') = 0"
proof -
  let ?r = "fst (compute_score example_env ''1'' ''data'' ''text'' PNone unanswered_run default_args [] [])"
  have run: "case ?r of Inr result \<Rightarrow> num (pget result ''nanoclaw_total_behavior_penalty'') = 3 / 10 \<and>
      num (pget result ''nanoclaw_reward_score_before_final_answer_bonus'') = 0 \<and>
      num (pget result ''nanoclaw_final_answer_bonus_awarded'') = 0 | Inl _ \<Rightarrow> False"
    by code_simp
  then obtain result where r: "?r = Inr result" by (cases ?r) simp_all
  show ?thesis using reward_adds_up [OF r] run unfolding r by simp
qed

subsection \<open>The counters of the log\<close>

definition issue_total :: "counters \<Rightarrow> int" where
  "issue_total c = sum_list (map snd (filter (\<lambda>e. starts_with (fst e) ''issue/'') c))"

definition log_consistent :: "counters \<Rightarrow> bool" where
  "log_consistent c \<longleftrightarrow> dict_ok c \<and> dict_get_default c ''total'' 0 = issue_total c"

lemma issue_total_add:
  "issue_total (add_counter key n c) = issue_total c + (if starts_with key ''issue/'' then n else 0)"
proof (induction c)
  case Nil
  then show ?case by (simp add: add_counter_def issue_total_def dict_get_default_def)
next
  case (Cons e c)
  obtain k m where e: "e = (k, m)" by (cases e)
  show ?case
  proof (cases "k = key")
    case True
    then show ?thesis by (simp add: e add_counter_def issue_total_def dict_get_default_def)
  next
    case False
    then have "add_counter key n (e # c) = e # add_counter key n c"
      by (simp add: e add_counter_def dict_get_default_def)
    with Cons show ?thesis by (simp add: issue_total_def)
  qed
qed

lemma add_counter_get:
  "dict_get_default (add_counter key n c) key' 0 = dict_get_default c key' 0 + (if key' = key then n else 0)"
  by (simp add: add_counter_def dict_get_default_def)

lemma add_counter_ok [simp]: "dict_ok c \<Longrightarrow> dict_ok (add_counter key n c)"
  by (simp add: add_counter_def)

lemma issue_key [simp]: "starts_with (''issue/'' @ kind) ''issue/''"
  by (simp add: starts_with_def)

lemma other_keys [simp]: "\<not> starts_with ''total'' ''issue/''" "\<not> starts_with ''score_sum_x1000'' ''issue/''"
  by (simp_all add: starts_with_def)

lemma count_reward_total: "dict_get_default (count_reward kind score c) ''total'' 0 = dict_get_default c ''total'' 0 + 1"
  by (simp add: count_reward_def Let_def add_counter_get split: option.split)

lemma count_reward_consistent: "log_consistent c \<Longrightarrow> log_consistent (count_reward kind score c)"
  unfolding log_consistent_def count_reward_total
  by (simp add: count_reward_def Let_def issue_total_add del: append_Cons append_Nil split: option.split)

lemma write_reward_counters:
  "fst (write_reward_debug_files ne uuid result state vr (c, fs)) = c \<or>
   fst (write_reward_debug_files ne uuid result state vr (c, fs)) =
     count_reward (reward_issue_kind (ne_frepr ne) result vr) (pget result ''score'') c"
  by (simp add: write_reward_debug_files_def Let_def logs_def split: sum.split)

text \<open>
  The reward log counts every reward at most once: the number of rewards stays the sum of the counts per issue
  kind, each call of the reward function adds one to it or - when nothing could be logged - leaves it, and a call
  that raises leaves every counter as it was.
\<close>

theorem reward_log_consistent:
  assumes "log_consistent c"
    and "compute_score ne uuid source solution ground_truth extra_info args c fs = (r, c', fs')"
  shows "log_consistent c' \<and> (c' = c \<or> dict_get_default c' ''total'' 0 = dict_get_default c ''total'' 0 + 1) \<and>
    ((\<exists>e. r = Inl e) \<longrightarrow> c' = c)"
proof -
  have acc: "accounted ne uuid c (r, c', fs')"
    using compute_score_accounted [of ne uuid c source solution ground_truth extra_info args fs] assms(2) by simp
  show ?thesis
  proof (cases r)
    case (Inl e)
    then show ?thesis using acc assms(1) by (simp add: accounted_def)
  next
    case (Inr result)
    then obtain fs0 state vr where "(c', fs') = write_reward_debug_files ne uuid result state vr (c, fs0)"
      using acc by (auto simp: accounted_def)
    then have "c' = fst (write_reward_debug_files ne uuid result state vr (c, fs0))" by (metis fst_conv)
    then show ?thesis
      using write_reward_counters [of ne uuid result state vr c fs0] assms(1) Inr
      by (auto simp: count_reward_consistent count_reward_total)
  qed
qed

subsection \<open>Cleaning up\<close>

lemma dict_get_filter_key: "dict_get (filter (\<lambda>e. P (fst e)) d) k = (if P k then dict_get d k else None)"
  by (induction d) auto

lemma dict_get_prune:
  "dict_get (filter (\<lambda>e. \<not> prefix q (fst e)) d) k = (if prefix q k then None else dict_get d k)"
  by (simp add: dict_get_filter_key [where P = "\<lambda>x. \<not> prefix q x"])

lemma fs_ok_prune:
  assumes ok: "fs_ok fs"
  shows "fs_ok (filter (\<lambda>e. \<not> prefix q (fst e)) fs)"
proof -
  let ?P = "\<lambda>x. \<not> prefix q x"
  note get = dict_get_filter_key [of ?P fs]
  have up: "\<not> prefix q (butlast x)" if "\<not> prefix q x" for x
    using that by (metis prefixI prefix_order.trans append_butlast_last_id butlast.simps(1))
  have "dict_ok (filter (\<lambda>e. ?P (fst e)) fs)"
    using ok by (simp add: fs_ok_def dict_ok_def distinct_map_filter)
  moreover have "x \<noteq> [] \<and> fs_node (filter (\<lambda>e. ?P (fst e)) fs) (butlast x) = Some Dir"
    if "dict_get (filter (\<lambda>e. ?P (fst e)) fs) x = Some n" for x n
  proof -
    from that have x: "?P x" "dict_get fs x = Some n" by (auto simp: get split: if_splits)
    then have "x \<noteq> []" "fs_node fs (butlast x) = Some Dir" using ok by (auto simp: fs_ok_def)
    then show ?thesis using up [OF x(1)] by (simp add: fs_node_def get split: if_splits)
  qed
  ultimately show ?thesis by (simp add: fs_ok_def)
qed

lemma rmtree_Inr:
  assumes "rmtree fs p = Inr fs'"
  obtains parent where "resolve fs (butlast p) = Inr parent" "dict_get fs (parent @ [last p]) = Some Dir"
    "fs' = filter (\<lambda>e. \<not> prefix (parent @ [last p]) (fst e)) fs"
proof -
  from assms obtain parent where r: "resolve fs (butlast p) = Inr parent"
    and c: "(case dict_get fs (parent @ [last p]) of
       None \<Rightarrow> Inl (FileNotFoundError (os_error 2 ''No such file or directory'' p))
     | Some Dir \<Rightarrow> Inr (filter (\<lambda>e. \<not> prefix (parent @ [last p]) (fst e)) fs)
     | Some (File _) \<Rightarrow> Inl (NotADirectoryError (os_error 20 ''Not a directory'' p))
     | Some (Link _) \<Rightarrow> Inl (OSError ''Cannot call rmtree on a symbolic link'')) = Inr fs'"
    by (auto simp: rmtree_def rbind_Inr_iff Let_def)
  then show thesis using that [OF r] by (auto split: option.splits node.splits)
qed

text \<open>
  Cleaning up after a reward removes the result directory of the rollout with everything below it and touches
  nothing else, or leaves the file system as it is and reports why; in either case the tree stays well formed.
\<close>

theorem cleanup_exact:
  assumes "fs_ok fs" and "cleanup_workspace ne fs result_dir = (err, fs')"
  shows "fs_ok fs' \<and> (fs' = fs \<or>
    (\<exists>parent. let p = abs_path ne (py_str (ne_frepr ne) result_dir); q = parent @ [last p] in
       resolve fs (butlast p) = Inr parent \<and> dict_get fs q = Some Dir \<and> err = PNone \<and>
       (\<forall>x. dict_get fs' x = (if prefix q x then None else dict_get fs x))))"
proof (cases "rmtree fs (abs_path ne (py_str (ne_frepr ne) result_dir))")
  case (Inl e)
  then show ?thesis using assms by (auto simp: cleanup_workspace_def split: if_splits py_exc.splits)
next
  case (Inr fs1)
  show ?thesis
  proof (cases "py_truthy result_dir")
    case True
    then have "fs' = fs1" "err = PNone" using assms(2) Inr by (simp_all add: cleanup_workspace_def)
    with Inr show ?thesis
      by (elim rmtree_Inr) (auto simp: fs_ok_prune [OF assms(1)] dict_get_prune Let_def)
  next
    case False
    then show ?thesis using assms by (simp add: cleanup_workspace_def)
  qed
qed

definition rewarded_fs :: fs where
  "rewarded_fs = [([''tmp''], Dir), ([''tmp'', ''a''], Dir), ([''tmp'', ''a'', ''x''], File ''1''), ([''tmp'', ''ab''], File ''2'')]"

lemma cleanup_exact_witness:
  "\<exists>err fs'. cleanup_workspace example_env rewarded_fs (PStr ''/tmp/a'') = (err, fs') \<and> fs_ok fs' \<and>
     dict_get fs' [''tmp'', ''a'', ''x''] = None \<and> dict_get fs' [''tmp'', ''ab''] = Some (File ''2'')"
proof -
  let ?r = "cleanup_workspace example_env rewarded_fs (PStr ''/tmp/a'')"
  have ok: "fs_ok rewarded_fs"
    by (auto simp: fs_ok_def rewarded_fs_def dict_ok_def fs_node_def split: if_splits)
  have "dict_get (snd ?r) [''tmp'', ''a'', ''x''] = None" "dict_get (snd ?r) [''tmp'', ''ab''] = Some (File ''2'')" by code_simp+
  moreover have "fs_ok (snd ?r)" using cleanup_exact [OF ok, of example_env "PStr ''/tmp/a''"] by (metis prod.collapse)
  ultimately show ?thesis by (metis prod.collapse)
qed

lemma reward_log_consistent_witness:
  "\<exists>r c' fs'. compute_score example_env ''1'' ''data'' ''text'' PNone unanswered_run default_args
      [(''total'', 1), (''issue/passed'', 1)] [] = (r, c', fs') \<and> log_consistent c'"
proof -
  let ?c = "[(''total'', 1), (''issue/passed'', 1)] :: counters"
  have c: "log_consistent ?c" by code_simp
  obtain r c' fs' where run: "compute_score example_env ''1'' ''data'' ''text'' PNone unanswered_run default_args ?c [] = (r, c', fs')"
    by (rule prod_cases3)
  show ?thesis using reward_log_consistent [OF c run] run by blast
qed

subsection \<open>The score file\<close>

lemma dict_update_other: "k \<notin> fst ` set kvs \<Longrightarrow> pget (dict_update d kvs) k = pget d k"
  by (induction kvs arbitrary: d) (auto simp: dict_update_def pget_def dict_get_default_def)

lemma read_score_planted:
  assumes "is_file fs (ws @ [''workplace_score.json''])"
    and "rbind (read_text fs (ws @ [''workplace_score.json''])) (ne_json_loads ne) = Inr v"
  shows "\<exists>r. read_score ne fs vp ws report = Inr r \<and> pget r ''workplace_score'' = v \<and> pget r ''returncode'' = pget report ''returncode''"
  using assms by (simp add: read_score_def Let_def dict_update_other pget_set)

text \<open>
  C29. The reward trusts the score file it finds.  The file is not removed before the verifier runs, and in ratio
  mode the exit code is not looked at: when a file \<open>workplace_score.json\<close> lies in the workspace - the agent
  can write it - and the verifier changes nothing, because it times out, crashes or fails, the score is the ratio
  that this file claims.
\<close>

theorem planted_score_counts:
  assumes "workspace_subprocess_env (ne_host ne) fs ws = (Inr env, fs1)"
    and "launch (ne_host ne) [ne_executable ne, full_path vp, full_path ws] (butlast vp) (verifier_env ne mock env) timeout fs1 = (Inr p, fs1)"
    and "is_file fs1 (ws @ [''workplace_score.json''])"
    and "rbind (read_text fs1 (ws @ [''workplace_score.json''])) (ne_json_loads ne) = Inr (PDict w)"
    and "pget (score_summary (PDict w)) ''score_ratio'' = PFloat q"
  shows "\<exists>vr. run_verifier ne fs vp ws timeout mock = (Inr vr, fs1) \<and> choose_reward_score vr ''ratio'' fallback = q \<and>
    (pget vr ''returncode'' = (case p of Completed rc _ _ \<Rightarrow> PInt rc | TimedOut _ _ \<Rightarrow> PNone))"
proof -
  from read_score_planted [OF assms(3,4)] obtain r where
    r: "read_score ne fs1 vp ws (process_report ne timeout p) = Inr r" "pget r ''workplace_score'' = PDict w"
    "pget r ''returncode'' = pget (process_report ne timeout p) ''returncode''" by blast
  have rc: "pget (process_report ne timeout p) ''returncode'' = (case p of Completed rc _ _ \<Rightarrow> PInt rc | TimedOut _ _ \<Rightarrow> PNone)"
    by (cases p) (simp_all add: process_report_def report_simps)
  let ?vr = "dict_set r ''score_summary'' (PDict (score_summary (PDict w)))"
  have "run_verifier ne fs vp ws timeout mock = (Inr ?vr, fs1)"
    using r by (simp add: run_verifier_def assms(1,2))
  moreover have "choose_reward_score ?vr ''ratio'' fallback = q"
    by (simp add: choose_reward_score_def Let_def pget_set dict_of_def assms(5))
  moreover have "pget ?vr ''returncode'' = (case p of Completed rc _ _ \<Rightarrow> PInt rc | TimedOut _ _ \<Rightarrow> PNone)"
    using r(3) rc by (simp add: pget_set)
  ultimately show ?thesis by blast
qed

definition timeout_env :: nano_env where
  "timeout_env = example_env\<lparr>ne_host := (ne_host example_env)\<lparr>launch := (\<lambda>argv ws env timeout fs. (Inr (TimedOut '''' ''''), fs))\<rparr>,
     ne_json_loads := (\<lambda>s. if s = ''{1/1}'' then Inr (PDict [(''total_score'', PInt 1), (''max_score'', PInt 1)]) else Inl (JSONDecodeError s))\<rparr>"

definition planted_score_fs :: fs where
  "planted_score_fs = [([''w''], Dir), ([''v''], Dir), ([''v'', ''check.py''], File ''x''),
     ([''w'', ''workplace_score.json''], File ''{1/1}'')]"

definition no_mock :: mock_api where
  "no_mock = \<lparr>ma_base = PNone, ma_key = PNone, ma_model = PNone, ma_timeout = 60, ma_connect_timeout = 10\<rparr>"

lemma planted_score_counts_witness:
  "\<exists>vr fs'. run_verifier timeout_env planted_score_fs [''v'', ''check.py''] [''w''] 300 no_mock = (Inr vr, fs') \<and>
     choose_reward_score vr ''ratio'' 0 = 1 \<and> pget vr ''returncode'' = PNone"
proof -
  let ?e = "workspace_subprocess_env (ne_host timeout_env) planted_score_fs [''w'']"
  let ?p = "[''w''] @ [''workplace_score.json'']"
  have ok: "case ?e of (Inr env, fs1) \<Rightarrow> is_file fs1 ?p \<and>
      read_text fs1 ?p = Inr ''{1/1}'' | _ \<Rightarrow> False" by code_simp
  then obtain env fs1 where e: "?e = (Inr env, fs1)" and f: "is_file fs1 ?p" and t: "read_text fs1 ?p = Inr ''{1/1}''"
    by (auto split: prod.splits sum.splits)
  have l: "launch (ne_host timeout_env) argv cwd v t fs1 = (Inr (TimedOut '''' ''''), fs1)" for argv cwd v t
    by (simp add: timeout_env_def)
  have j: "rbind (read_text fs1 ?p) (ne_json_loads timeout_env) = Inr (PDict [(''total_score'', PInt 1), (''max_score'', PInt 1)])"
    by (simp only: t rbind_simps) (simp add: timeout_env_def)
  have q: "pget (score_summary (PDict [(''total_score'', PInt 1), (''max_score'', PInt 1)])) ''score_ratio'' = PFloat 1" by code_simp
  from planted_score_counts [OF e l f j q] show ?thesis by fastforce
qed

end
