(* ===== verification/DataProto.thy ===== *)
theory DataProto
  imports PyVal
begin

text \<open>
  The batch container of \<open>verl/protocol.py\<close>.  A tensor or an array is the list of its rows along the batch
  dimension, so the two row types are arbitrary; a \<open>TensorDict\<close> carries its batch size beside its columns.
  Operations that mutate the object return the new one.  Devices, serialisation and printing are left out.
\<close>

subsection \<open>Tensor dictionaries\<close>

record 't tensor_dict =
  td_size :: nat
  td_cols :: "(string, 't list) dict"

definition make_td :: "(string, 't list) dict \<Rightarrow> nat \<Rightarrow> 't tensor_dict result" where
  "make_td cols n =
     (if list_all (\<lambda>p. length (snd p) = n) cols then Inr \<lparr>td_size = n, td_cols = cols\<rparr>
      else Inl (RuntimeError ''batch dimension mismatch''))"

definition map_cols :: "('a list \<Rightarrow> 'b list) \<Rightarrow> (string, 'a list) dict \<Rightarrow> (string, 'b list) dict" where
  "map_cols f cols = map (\<lambda>p. (fst p, f (snd p))) cols"

definition rmap_cols :: "('a list \<Rightarrow> 'b list result) \<Rightarrow> (string, 'a list) dict \<Rightarrow> (string, 'b list) dict result" where
  "rmap_cols f cols = rmap (\<lambda>p. rbind (f (snd p)) (\<lambda>c. Inr (fst p, c))) cols"

subsection \<open>The container\<close>

record ('t, 'n) dproto =
  dp_batch :: "'t tensor_dict option"
  dp_non :: "(string, 'n list) dict"
  dp_meta :: "(string, pyval) dict"

definition check_consistency :: "('t, 'n) dproto \<Rightarrow> bool" where
  "check_consistency d \<longleftrightarrow> (case dp_batch d of None \<Rightarrow> True
     | Some b \<Rightarrow> list_all (\<lambda>p. length (snd p) = td_size b) (dp_non d))"

definition make_dp ::
  "'t tensor_dict option \<Rightarrow> (string, 'n list) dict \<Rightarrow> (string, pyval) dict \<Rightarrow> ('t, 'n) dproto result" where
  "make_dp b non meta =
     (let d = \<lparr>dp_batch = b, dp_non = non, dp_meta = meta\<rparr> in guard_assert (check_consistency d) (Inr d))"

definition dp_len :: "('t, 'n) dproto \<Rightarrow> nat" where
  "dp_len d = (case dp_batch d of Some b \<Rightarrow> td_size b
     | None \<Rightarrow> (case dp_non d of [] \<Rightarrow> 0 | p # _ \<Rightarrow> length (snd p)))"

definition auto_padding_key :: string where
  "auto_padding_key = ''_verl_auto_padding''"

definition from_dict ::
  "(string, 't list) dict \<Rightarrow> (string, 'n list) dict \<Rightarrow> (string, pyval) dict \<Rightarrow> bool \<Rightarrow> ('t, 'n) dproto result" where
  "from_dict tensors non_tensors meta auto_padding =
     (let meta1 = (if auto_padding then dict_set meta auto_padding_key (PBool True) else meta) in
      case tensors of
        [] \<Rightarrow> make_dp None non_tensors meta1
      | p # _ \<Rightarrow> guard_assert (list_all (\<lambda>q. length (snd q) = length (snd p)) tensors)
          (rbind (make_td tensors (length (snd p))) (\<lambda>b. make_dp (Some b) non_tensors meta1)))"

datatype ('t, 'n) column = Tensor "'t list" | NdArray "'n list" | OtherType string

definition from_single_dict ::
  "(string, ('t, 'n) column) dict \<Rightarrow> (string, pyval) dict \<Rightarrow> bool \<Rightarrow> ('t, 'n) dproto result" where
  "from_single_dict data meta auto_padding =
     rbind (rfold (\<lambda>(ts, ns) (k, v). case v of
         Tensor t \<Rightarrow> Inr (ts @ [(k, t)], ns)
       | NdArray a \<Rightarrow> Inr (ts, ns @ [(k, a)])
       | OtherType name \<Rightarrow> Inl (ValueError (''Unsupported type in data '' @ name))) ([], []) data)
       (\<lambda>(ts, ns). from_dict ts ns meta auto_padding)"

subsection \<open>Selecting\<close>

text \<open>Positions may be negative; a boolean mask has the length of the batch.\<close>

datatype idxs = Positions "int list" | BoolMask "bool list"

definition position :: "nat \<Rightarrow> int \<Rightarrow> nat result" where
  "position n i = (if 0 \<le> i \<and> i < int n then Inr (nat i) else if - int n \<le> i \<and> i < 0 then Inr (nat (int n + i)) else Inl IndexError)"

definition resolve_idxs :: "nat \<Rightarrow> idxs \<Rightarrow> nat list result" where
  "resolve_idxs n ix = (case ix of
     Positions is \<Rightarrow> rmap (position n) is
   | BoolMask bs \<Rightarrow> if length bs = n then Inr (filter (\<lambda>i. bs ! i) [0..<n]) else Inl IndexError)"

definition idxs_count :: "idxs \<Rightarrow> nat" where
  "idxs_count ix = (case ix of Positions is \<Rightarrow> length is | BoolMask bs \<Rightarrow> length (filter id bs))"

definition pick :: "idxs \<Rightarrow> 'a list \<Rightarrow> 'a list result" where
  "pick ix col = rbind (resolve_idxs (length col) ix) (\<lambda>is. Inr (map ((!) col) is))"

definition select_idxs :: "('t, 'n) dproto \<Rightarrow> idxs \<Rightarrow> ('t, 'n) dproto result" where
  "select_idxs d ix =
     rbind (case dp_batch d of None \<Rightarrow> Inr None
         | Some b \<Rightarrow> rbind (rmap_cols (pick ix) (td_cols b)) (\<lambda>cols. map_sum id Some (make_td cols (idxs_count ix)))) (\<lambda>b.
     rbind (rmap_cols (pick ix) (dp_non d)) (\<lambda>non. make_dp b non (dp_meta d)))"

text \<open>A slice with a positive step.\<close>

fun every :: "nat \<Rightarrow> nat \<Rightarrow> 'a list \<Rightarrow> 'a list" where
  "every step skip [] = []"
| "every step 0 (x # xs) = x # every step (step - 1) xs"
| "every step (Suc k) (x # xs) = every step k xs"

definition slice_list :: "int option \<Rightarrow> int option \<Rightarrow> nat \<Rightarrow> 'a list \<Rightarrow> 'a list" where
  "slice_list start stop step xs =
     every step 0 (py_slice xs (case start of None \<Rightarrow> 0 | Some a \<Rightarrow> a) (case stop of None \<Rightarrow> int (length xs) | Some b \<Rightarrow> b))"

definition slice_dp :: "('t, 'n) dproto \<Rightarrow> int option \<Rightarrow> int option \<Rightarrow> nat \<Rightarrow> ('t, 'n) dproto result" where
  "slice_dp d start stop step =
     (if step = 0 then Inl (ValueError ''slice step cannot be zero'')
      else make_dp (map_option (\<lambda>b. \<lparr>td_size = length (slice_list start stop step [0..<td_size b]),
               td_cols = map_cols (slice_list start stop step) (td_cols b)\<rparr>) (dp_batch d))
             (map_cols (slice_list start stop step) (dp_non d)) (dp_meta d))"

definition none_attr :: "string \<Rightarrow> py_exc" where
  "none_attr name = AttributeError ('''NoneType' object has no attribute '' @ repr_string name)"

text \<open>\<open>TensorDict.select\<close> is strict: a missing key raises.\<close>

definition select_dp ::
  "('t, 'n) dproto \<Rightarrow> string list option \<Rightarrow> string list option \<Rightarrow> string list option \<Rightarrow> ('t, 'n) dproto result" where
  "select_dp d batch_keys non_keys meta_keys =
     rbind (case batch_keys of None \<Rightarrow> Inr (dp_batch d)
         | Some keys \<Rightarrow> (case dp_batch d of None \<Rightarrow> Inl (none_attr ''select'')
             | Some b \<Rightarrow> (if list_all (dict_has (td_cols b)) keys
                 then Inr (Some (b\<lparr>td_cols := filter (\<lambda>p. fst p \<in> set keys) (td_cols b)\<rparr>))
                 else Inl (KeyError ''select''))))
       (\<lambda>b. make_dp b (case non_keys of None \<Rightarrow> dp_non d | Some keys \<Rightarrow> filter (\<lambda>p. fst p \<in> set keys) (dp_non d))
              (case meta_keys of None \<Rightarrow> dp_meta d | Some keys \<Rightarrow> filter (\<lambda>p. fst p \<in> set keys) (dp_meta d)))"

text \<open>\<open>pop\<close> removes the keys one by one; what was removed before a failing assertion is gone.\<close>

fun pop_keys :: "(string, 'v) dict \<Rightarrow> string list \<Rightarrow> (string, 'v) dict result \<times> (string, 'v) dict" where
  "pop_keys d [] = (Inr [], d)"
| "pop_keys d (k # ks) = (case dict_get d k of
     None \<Rightarrow> (Inl AssertionError, d)
   | Some v \<Rightarrow> (let (r, d') = pop_keys (dict_pop d k) ks in (map_sum id (\<lambda>popped. dict_update [(k, v)] popped) r, d')))"

definition pop_dp ::
  "('t, 'n) dproto \<Rightarrow> string list \<Rightarrow> string list \<Rightarrow> string list \<Rightarrow> ('t, 'n) dproto result \<times> ('t, 'n) dproto" where
  "pop_dp d batch_keys non_keys meta_keys =
     (case (case dp_batch d of
         None \<Rightarrow> (if batch_keys = [] then Inr [] else Inl (none_attr ''keys''), None)
       | Some b \<Rightarrow> (let (r, cols) = pop_keys (td_cols b) batch_keys in (r, Some (b\<lparr>td_cols := cols\<rparr>)))) of
        (Inl e, b1) \<Rightarrow> (Inl e, d\<lparr>dp_batch := b1\<rparr>)
      | (Inr tensors, b1) \<Rightarrow> (case pop_keys (dp_non d) non_keys of
          (Inl e, non1) \<Rightarrow> (Inl e, d\<lparr>dp_batch := b1, dp_non := non1\<rparr>)
        | (Inr non, non1) \<Rightarrow> (case pop_keys (dp_meta d) meta_keys of
            (Inl e, meta1) \<Rightarrow> (Inl e, d\<lparr>dp_batch := b1, dp_non := non1, dp_meta := meta1\<rparr>)
          | (Inr meta, meta1) \<Rightarrow>
              (from_dict tensors non meta False, d\<lparr>dp_batch := b1, dp_non := non1, dp_meta := meta1\<rparr>))))"

subsection \<open>Union\<close>

text \<open>A union extends the first dictionary key by key until a key disagrees.\<close>

fun union_cols :: "('v \<Rightarrow> 'v \<Rightarrow> bool) \<Rightarrow> bool \<Rightarrow> (string, 'v) dict \<Rightarrow> (string, 'v) dict \<Rightarrow> unit result \<times> (string, 'v) dict" where
  "union_cols same overwrite d1 [] = (Inr (), d1)"
| "union_cols same overwrite d1 ((k, v) # d2) = (case dict_get d1 k of
     None \<Rightarrow> union_cols same overwrite (dict_set d1 k v) d2
   | Some w \<Rightarrow> if same w v then union_cols same overwrite (if overwrite then dict_set d1 k v else d1) d2
               else (Inl AssertionError, d1))"

definition union_tensor_dict :: "'t tensor_dict \<Rightarrow> 't tensor_dict \<Rightarrow> unit result \<times> 't tensor_dict" where
  "union_tensor_dict td1 td2 =
     (if td_size td1 \<noteq> td_size td2 then (Inl AssertionError, td1)
      else let (r, cols) = union_cols (=) False (td_cols td1) (td_cols td2) in (r, td1\<lparr>td_cols := cols\<rparr>))"

definition union_numpy_dict ::
  "(string, 'n list) dict \<Rightarrow> (string, 'n list) dict \<Rightarrow> unit result \<times> (string, 'n list) dict" where
  "union_numpy_dict d1 d2 = union_cols (=) True d1 d2"

definition union_two_dict ::
  "(string, pyval) dict \<Rightarrow> (string, pyval) dict \<Rightarrow> unit result \<times> (string, pyval) dict" where
  "union_two_dict d1 d2 = union_cols (\<lambda>w v. py_eq v w) True d1 d2"

definition union_dp :: "('t, 'n) dproto \<Rightarrow> ('t, 'n) dproto \<Rightarrow> unit result \<times> ('t, 'n) dproto" where
  "union_dp d other = (case (dp_batch d, dp_batch other) of
     (Some b, Some c) \<Rightarrow>
       (let (r1, b1) = union_tensor_dict b c; d1 = d\<lparr>dp_batch := Some b1\<rparr> in
        case r1 of Inl e \<Rightarrow> (Inl e, d1) | Inr _ \<Rightarrow>
       (let (r2, non1) = union_numpy_dict (dp_non d) (dp_non other); d2 = d1\<lparr>dp_non := non1\<rparr> in
        case r2 of Inl e \<Rightarrow> (Inl e, d2) | Inr _ \<Rightarrow>
       (let (r3, meta1) = union_two_dict (dp_meta d) (dp_meta other) in (r3, d2\<lparr>dp_meta := meta1\<rparr>))))
   | _ \<Rightarrow> (Inl (none_attr ''batch_size''), d))"

subsection \<open>Concatenation\<close>

text \<open>\<open>list_of_dict_to_dict_of_list\<close>: the keys are those of the first dictionary.\<close>

definition add_items :: "(string, 'v list) dict \<Rightarrow> (string, 'v) dict \<Rightarrow> (string, 'v list) dict result" where
  "add_items output data = rfold (\<lambda>out (k, v). case dict_get out k of
     None \<Rightarrow> Inl AssertionError | Some vs \<Rightarrow> Inr (dict_set out k (vs @ [v]))) output data"

definition list_of_dict_to_dict_of_list :: "(string, 'v) dict list \<Rightarrow> (string, 'v list) dict result" where
  "list_of_dict_to_dict_of_list dicts = (case dicts of
     [] \<Rightarrow> Inr []
   | d # _ \<Rightarrow> rfold add_items (map (\<lambda>p. (fst p, [])) d) dicts)"

text \<open>\<open>torch.cat\<close> of tensor dictionaries needs the same keys in all of them.\<close>

definition td_cat :: "'t tensor_dict list \<Rightarrow> 't tensor_dict result" where
  "td_cat bs = (case bs of
     [] \<Rightarrow> Inl (RuntimeError ''expected a non-empty list'')
   | b # _ \<Rightarrow>
       if list_all (\<lambda>c. set (map fst (td_cols c)) = set (map fst (td_cols b))) bs
       then Inr \<lparr>td_size = sum_list (map td_size bs),
              td_cols = map (\<lambda>p. (fst p, concat (map (\<lambda>c. dict_get_default (td_cols c) (fst p) []) bs))) (td_cols b)\<rparr>
       else Inl (KeyError ''cat''))"

definition cat_batches :: "'t tensor_dict option list \<Rightarrow> 't tensor_dict option result" where
  "cat_batches bs = (case bs of
     [] \<Rightarrow> Inl IndexError
   | None # _ \<Rightarrow> Inr None
   | Some _ # _ \<Rightarrow> if list_all (\<lambda>b. b \<noteq> None) bs then map_sum id Some (td_cat (map the bs))
                    else Inl (TypeError ''expected TensorDict, got NoneType''))"

text \<open>The metrics of the parts are collected, other entries must agree.\<close>

definition merge_meta_entry ::
  "pyval list \<times> (string, pyval) dict \<Rightarrow> string \<times> pyval \<Rightarrow> (pyval list \<times> (string, pyval) dict) result" where
  "merge_meta_entry acc entry =
     (let (metrics, merged) = acc; (k, v) = entry in
      if k = ''metrics'' then
        Inr (case v of PNone \<Rightarrow> acc | PList xs \<Rightarrow> (metrics @ xs, merged) | _ \<Rightarrow> (metrics @ [v], merged))
      else case dict_get merged k of
        Some w \<Rightarrow> guard_assert (py_eq w v) (Inr acc)
      | None \<Rightarrow> Inr (metrics, dict_set merged k v))"

definition as_items :: "pyval \<Rightarrow> (string, pyval) dict result" where
  "as_items v = (case v of PDict d \<Rightarrow> Inr d | _ \<Rightarrow> Inl (AttributeError (repr_string (py_type_name v) @ '' object has no attribute 'items'' @ [CHR 39])))"

definition merge_meta :: "(string, pyval) dict list \<Rightarrow> (string, pyval) dict result" where
  "merge_meta metas =
     rbind (rfold (\<lambda>acc meta. rfold merge_meta_entry acc meta) ([], []) metas) (\<lambda>(metrics, merged).
       if metrics = [] then Inr merged
       else rbind (rmap as_items metrics) (\<lambda>dicts.
            rbind (list_of_dict_to_dict_of_list dicts) (\<lambda>lists.
              Inr (dict_set merged ''metrics'' (PDict (map (\<lambda>p. (fst p, PList (snd p))) lists))))))"

definition concat_dp :: "('t, 'n) dproto list \<Rightarrow> ('t, 'n) dproto result" where
  "concat_dp data =
     rbind (cat_batches (map dp_batch data)) (\<lambda>b.
     rbind (list_of_dict_to_dict_of_list (map dp_non data)) (\<lambda>lists.
     rbind (merge_meta (map dp_meta data)) (\<lambda>meta.
       make_dp b (map (\<lambda>p. (fst p, concat (snd p))) lists) meta)))"

subsection \<open>Splitting\<close>

text \<open>
  The sizes of the pieces: \<open>torch.chunk\<close> makes pieces of the rounded-up size, so there may be fewer than asked
  for; \<open>numpy.array_split\<close> makes exactly as many, the first ones larger by one.
\<close>

fun pieces :: "nat list \<Rightarrow> 'a list \<Rightarrow> 'a list list" where
  "pieces [] xs = []"
| "pieces (k # ks) xs = take k xs # pieces ks (drop k xs)"

definition torch_chunk_sizes :: "nat \<Rightarrow> nat \<Rightarrow> nat list" where
  "torch_chunk_sizes n chunks =
     (if n = 0 then replicate chunks 0
      else let k = (n + chunks - 1) div chunks
           in replicate (n div k) k @ (if n mod k = 0 then [] else [n mod k]))"

definition array_split_sizes :: "nat \<Rightarrow> nat \<Rightarrow> nat list" where
  "array_split_sizes n chunks = replicate (n mod chunks) (n div chunks + 1) @ replicate (chunks - n mod chunks) (n div chunks)"

definition is_padding_enabled :: "bool \<Rightarrow> ('t, 'n) dproto \<Rightarrow> bool" where
  "is_padding_enabled auto_padding d \<longleftrightarrow> py_truthy (dict_get_default (dp_meta d) auto_padding_key (PBool False)) \<or> auto_padding"

definition split_columns :: "('a list \<Rightarrow> 'a list list) \<Rightarrow> (string, 'a list) dict \<Rightarrow> nat \<Rightarrow> (string, 'a list) dict" where
  "split_columns f cols i = map_cols (\<lambda>col. f col ! i) cols"

definition chunk_dp :: "bool \<Rightarrow> ('t, 'n) dproto \<Rightarrow> nat \<Rightarrow> ('t, 'n) dproto list result" where
  "chunk_dp auto_padding d chunks =
     (if chunks = 0 then Inl ZeroDivisionError
      else guard_assert (is_padding_enabled auto_padding d \<or> dp_len d mod chunks = 0)
       (case dp_batch d of
          None \<Rightarrow>
            (let split = (\<lambda>col. pieces (array_split_sizes (length col) chunks) col) in
             rmap (\<lambda>i. make_dp None (map_cols (\<lambda>col. split col ! i) (dp_non d)) (dp_meta d)) [0..<chunks])
        | Some b \<Rightarrow>
            (let sizes = torch_chunk_sizes (td_size b) chunks;
                 indices = butlast sizes;
                 split = (\<lambda>col. pieces indices col @ [drop (sum_list indices) col]) in
             guard_assert (dp_non d = [] \<or> length sizes = chunks)
               (rmap (\<lambda>i. if i < length sizes
                  then make_dp (Some \<lparr>td_size = sizes ! i, td_cols = map_cols (\<lambda>col. pieces sizes col ! i) (td_cols b)\<rparr>)
                         (map_cols (\<lambda>col. split col ! i) (dp_non d)) (dp_meta d)
                  else Inl IndexError) [0..<chunks]))))"

definition split_starts :: "nat \<Rightarrow> nat \<Rightarrow> nat list" where
  "split_starts n k = every k 0 [0..<n]"

definition split_dp :: "('t, 'n) dproto \<Rightarrow> nat \<Rightarrow> ('t, 'n) dproto list result" where
  "split_dp d split_size =
     (if split_size = 0 then Inl (ValueError ''range() arg 3 must not be zero'')
      else rmap (\<lambda>i. slice_dp d (Some (int i)) (Some (int (i + split_size))) 1) (split_starts (dp_len d) split_size))"

subsection \<open>Repeating and reordering\<close>

definition repeat_interleave :: "nat \<Rightarrow> 'a list \<Rightarrow> 'a list" where
  "repeat_interleave k xs = concat (map (replicate k) xs)"

definition tile :: "nat \<Rightarrow> 'a list \<Rightarrow> 'a list" where
  "tile k xs = concat (replicate k xs)"

definition repeat_dp :: "('t, 'n) dproto \<Rightarrow> nat \<Rightarrow> bool \<Rightarrow> ('t, 'n) dproto result" where
  "repeat_dp d repeat_times interleave =
     rbind (case dp_batch d of None \<Rightarrow> Inr None
         | Some b \<Rightarrow> map_sum id Some (make_td
             (if interleave then map_cols (repeat_interleave repeat_times) (td_cols b) else map_cols (tile repeat_times) (td_cols b))
             (td_size b * repeat_times)))
       (\<lambda>b. make_dp b
          (if interleave then map_cols (repeat_interleave repeat_times) (dp_non d) else map_cols (tile repeat_times) (dp_non d))
          (dp_meta d))"

text \<open>One count per row; a single count is used for every row.\<close>

definition repeat_each :: "(string \<Rightarrow> py_exc) \<Rightarrow> nat list \<Rightarrow> 'a list \<Rightarrow> 'a list result" where
  "repeat_each err ts xs =
     (if length ts = length xs then Inr (concat (map (\<lambda>(t, x). replicate t x) (zip ts xs)))
      else if length ts = 1 then Inr (repeat_interleave (hd ts) xs)
      else Inl (err ''repeats must have the same size as input along dim''))"

definition sample_level_repeat :: "('t, 'n) dproto \<Rightarrow> nat list \<Rightarrow> ('t, 'n) dproto result" where
  "sample_level_repeat d repeat_times =
     rbind (case dp_batch d of None \<Rightarrow> Inr None
         | Some b \<Rightarrow> rbind (rmap_cols (repeat_each RuntimeError repeat_times) (td_cols b)) (\<lambda>cols.
             map_sum id Some (make_td cols (sum_list repeat_times)))) (\<lambda>b.
     rbind (rmap_cols (repeat_each ValueError repeat_times) (dp_non d)) (\<lambda>non. make_dp b non (dp_meta d)))"

text \<open>The rows of the split columns are cut into \<open>n_split\<close> equal parts, the other rows are repeated.\<close>

definition cut_row :: "nat \<Rightarrow> 'a list \<Rightarrow> 'a list list" where
  "cut_row n row = map (\<lambda>j. take (length row div n) (drop (j * (length row div n)) row)) [0..<n]"

definition unfold_rows :: "(string \<Rightarrow> py_exc) \<Rightarrow> nat \<Rightarrow> 'a list list \<Rightarrow> 'a list list result" where
  "unfold_rows err n rows =
     (if n = 0 then Inl ZeroDivisionError
      else if list_all (\<lambda>row. n dvd length row) rows then Inr (concat (map (cut_row n) rows))
      else Inl (err ''shape is invalid for input''))"

definition unfold_column_chunks ::
  "('t list, 'n list) dproto \<Rightarrow> nat \<Rightarrow> string list option \<Rightarrow> ('t list, 'n list) dproto result" where
  "unfold_column_chunks d n_split split_keys =
     rbind (case dp_batch d of None \<Rightarrow> Inr None
         | Some b \<Rightarrow> rbind (rmap (\<lambda>(k, col). rbind
               (if (case split_keys of None \<Rightarrow> False | Some keys \<Rightarrow> k \<in> set keys)
                then unfold_rows RuntimeError n_split col else Inr (repeat_interleave n_split col)) (\<lambda>c. Inr (k, c))) (td_cols b)) (\<lambda>cols.
             map_sum id Some (make_td cols (td_size b * n_split)))) (\<lambda>b.
     rbind (rmap (\<lambda>(k, col). case split_keys of
           None \<Rightarrow> Inl (TypeError ''argument of type NoneType is not iterable'')
         | Some keys \<Rightarrow> rbind (if k \<in> set keys then unfold_rows ValueError n_split col else Inr (repeat_interleave n_split col))
             (\<lambda>c. Inr (k, c))) (dp_non d)) (\<lambda>non. make_dp b non (dp_meta d)))"

text \<open>\<open>reorder\<close> works in place and checks nothing.\<close>

definition reorder :: "('t, 'n) dproto \<Rightarrow> int list \<Rightarrow> ('t, 'n) dproto result" where
  "reorder d indices = (case dp_batch d of
     None \<Rightarrow> Inl (TypeError '''NoneType' object is not subscriptable'')
   | Some b \<Rightarrow>
       rbind (rmap_cols (pick (Positions indices)) (td_cols b)) (\<lambda>cols.
       rbind (rmap_cols (pick (Positions indices)) (dp_non d)) (\<lambda>non.
         Inr (d\<lparr>dp_batch := Some \<lparr>td_size = length indices, td_cols = cols\<rparr>, dp_non := non\<rparr>))))"

subsection \<open>Padding\<close>

definition padding :: "('t, 'n) dproto \<Rightarrow> nat \<Rightarrow> string \<Rightarrow> ('t, 'n) dproto result" where
  "padding d padding_size padding_candidate =
     (if padding_size = 0 then Inr d
      else rbind (select_idxs d (Positions [if padding_candidate = ''first'' then 0 else int (dp_len d) - 1])) (\<lambda>candidate.
           rbind (repeat_dp candidate padding_size True) (\<lambda>part.
           rbind (concat_dp [d, part]) (\<lambda>padded.
             Inr (d\<lparr>dp_batch := dp_batch padded, dp_non := dp_non padded\<rparr>)))))"

text \<open>How many rows each padding part takes; an empty batch needs none.\<close>

function padding_takes :: "nat \<Rightarrow> nat \<Rightarrow> nat list" where
  "padding_takes n remaining =
     (if remaining = 0 \<or> n = 0 then [] else min remaining n # padding_takes n (remaining - min remaining n))"
  by pat_completeness auto
termination by (relation "measure snd") auto

declare padding_takes.simps [simp del]

definition pad_dataproto_to_divisor :: "('t, 'n) dproto \<Rightarrow> nat \<Rightarrow> (('t, 'n) dproto \<times> nat) result" where
  "pad_dataproto_to_divisor d size_divisor =
     (if size_divisor = 0 then Inl ZeroDivisionError
      else if dp_len d mod size_divisor \<noteq> 0 then
        (let pad_size = size_divisor - dp_len d mod size_divisor in
         rbind (rmap (\<lambda>take_size. slice_dp d None (Some (int take_size)) 1) (padding_takes (dp_len d) pad_size)) (\<lambda>parts.
         rbind (concat_dp (d # parts)) (\<lambda>padded. Inr (padded, pad_size))))
      else Inr (d, 0))"

definition unpad_dataproto :: "('t, 'n) dproto \<Rightarrow> nat \<Rightarrow> ('t, 'n) dproto result" where
  "unpad_dataproto d pad_size = (if pad_size \<noteq> 0 then slice_dp d None (Some (- int pad_size)) 1 else Inr d)"

subsection \<open>Folding the batch dimension\<close>

definition fold_rows :: "nat \<Rightarrow> 'a list \<Rightarrow> 'a list list" where
  "fold_rows new_batch_size xs = pieces (replicate new_batch_size (length xs div new_batch_size)) xs"

text \<open>
  The arrays are replaced in the dictionary of the argument, which the second result shows.  The batch is not
  empty and its columns agree in the folded dimensions.
\<close>

definition fold_batch_dim ::
  "('t, 'n) dproto \<Rightarrow> nat \<Rightarrow> (('t list, 'n list) dproto \<times> ('t tensor_dict option \<times> (string, 'n list list) dict)) result" where
  "fold_batch_dim d new_batch_size = (case dp_batch d of
     None \<Rightarrow> Inl (none_attr ''batch_size'')
   | Some b \<Rightarrow>
       if new_batch_size = 0 then Inl ZeroDivisionError
       else guard_assert (td_size b mod new_batch_size = 0)
         (let non = map_cols (fold_rows new_batch_size) (dp_non d) in
          rbind (make_dp (Some \<lparr>td_size = new_batch_size, td_cols = map_cols (fold_rows new_batch_size) (td_cols b)\<rparr>) non (dp_meta d))
            (\<lambda>folded. Inr (folded, (dp_batch d, non)))))"

definition unfold_batch_dim :: "('t list, 'n list) dproto \<Rightarrow> ('t, 'n) dproto result" where
  "unfold_batch_dim d = (case dp_batch d of
     None \<Rightarrow> Inl (none_attr ''auto_batch_size_'')
   | Some b \<Rightarrow>
       (case td_cols b of
          [] \<Rightarrow> Inl (RuntimeError ''no column determines the batch dimensions'')
        | p # _ \<Rightarrow>
            if list_all (\<lambda>q. length (concat (snd q)) = length (concat (snd p))) (dp_non d)
            then make_dp (Some \<lparr>td_size = length (concat (snd p)), td_cols = map_cols concat (td_cols b)\<rparr>)
                   (map_cols concat (dp_non d)) (dp_meta d)
            else Inl (ValueError ''cannot reshape array'')))"

subsection \<open>Iterating\<close>

record ('t, 'n) dp_item =
  it_batch :: "(string, 't) dict option"
  it_non :: "(string, 'n) dict"
  it_meta :: "(string, pyval) dict"

definition row_at :: "int \<Rightarrow> (string, 'a list) dict \<Rightarrow> (string, 'a) dict result" where
  "row_at i cols = rmap (\<lambda>p. rbind (position (length (snd p)) i) (\<lambda>j. Inr (fst p, snd p ! j))) cols"

definition get_item :: "('t, 'n) dproto \<Rightarrow> int \<Rightarrow> ('t, 'n) dp_item result" where
  "get_item d i =
     rbind (case dp_batch d of None \<Rightarrow> Inr None
         | Some b \<Rightarrow> rbind (position (td_size b) i) (\<lambda>_. map_sum id Some (row_at i (td_cols b)))) (\<lambda>b.
     rbind (row_at i (dp_non d)) (\<lambda>non. Inr \<lparr>it_batch = b, it_non = non, it_meta = dp_meta d\<rparr>))"

text \<open>\<open>collate_fn\<close>: items of one \<open>DataProto\<close> are stacked again.\<close>

definition stack_rows :: "(string, 't) dict list \<Rightarrow> 't tensor_dict result" where
  "stack_rows rows = rbind (list_of_dict_to_dict_of_list rows) (\<lambda>cols. make_td cols (length rows))"

definition collate_fn :: "('t, 'n) dp_item list \<Rightarrow> ('t, 'n) dproto result" where
  "collate_fn items =
     rbind (rmap (\<lambda>it. case it_batch it of None \<Rightarrow> Inl (TypeError ''expected Tensor, got NoneType'') | Some b \<Rightarrow> Inr b) items) (\<lambda>rows.
     rbind (stack_rows rows) (\<lambda>b.
     rbind (list_of_dict_to_dict_of_list (map it_non items)) (\<lambda>non. make_dp (Some b) non [])))"

text \<open>The order of the rows in each epoch is the sampler's.\<close>

definition make_iterator :: "('t, 'n) dproto \<Rightarrow> nat \<Rightarrow> nat list list \<Rightarrow> ('t, 'n) dproto list result" where
  "make_iterator d mini_batch_size orders = (case dp_batch d of
     None \<Rightarrow> Inl (none_attr ''batch_size'')
   | Some b \<Rightarrow>
       if mini_batch_size = 0 then Inl ZeroDivisionError
       else guard_assert (td_size b mod mini_batch_size = 0)
         (rmap (\<lambda>indices. rbind (rmap (\<lambda>i. get_item d (int i)) indices) (\<lambda>items.
                rbind (collate_fn items) (\<lambda>batch. Inr (batch\<lparr>dp_meta := dp_meta d\<rparr>))))
            (concat (map (\<lambda>order. pieces (replicate (length order div mini_batch_size) mini_batch_size) order) orders))))"

end
