(* ===== verification/DataProtoRows.thy ===== *)
theory DataProtoRows
  imports DataProto
begin

text \<open>
  The theorems about the batch container.  Every operation is shown to be one reference operation, the
  selection of rows by their numbers (\<open>take_rows\<close>), applied to tensors and arrays alike; round trips and
  alignment are then facts about lists of numbers.
\<close>

subsection \<open>Rows\<close>

definition cols_ok :: "nat \<Rightarrow> (string, 'a list) dict \<Rightarrow> bool" where
  "cols_ok n cols \<longleftrightarrow> dict_ok cols \<and> (\<forall>p \<in> set cols. length (snd p) = n)"

text \<open>An aligned container: every column has one row per sample.\<close>

definition dp_ok :: "('t, 'n) dproto \<Rightarrow> bool" where
  "dp_ok d \<longleftrightarrow> cols_ok (dp_len d) (dp_non d) \<and> dict_ok (dp_meta d) \<and>
     (case dp_batch d of None \<Rightarrow> True | Some b \<Rightarrow> cols_ok (td_size b) (td_cols b))"

text \<open>The reference operation: the rows with the given numbers, in that order.\<close>

definition take_cols :: "nat list \<Rightarrow> (string, 'a list) dict \<Rightarrow> (string, 'a list) dict" where
  "take_cols is cols = map_cols (\<lambda>col. map ((!) col) is) cols"

definition take_rows :: "nat list \<Rightarrow> ('t, 'n) dproto \<Rightarrow> ('t, 'n) dproto" where
  "take_rows is d =
     \<lparr>dp_batch = map_option (\<lambda>b. \<lparr>td_size = length is, td_cols = take_cols is (td_cols b)\<rparr>) (dp_batch d),
      dp_non = take_cols is (dp_non d), dp_meta = dp_meta d\<rparr>"

lemma map_cols_keys [simp]: "map fst (map_cols f cols) = map fst cols"
  by (simp add: map_cols_def comp_def)

lemma dict_ok_map_cols [simp]: "dict_ok (map_cols f cols) \<longleftrightarrow> dict_ok cols"
  by (simp add: dict_ok_def)

lemma set_map_cols: "set (map_cols f cols) = (\<lambda>p. (fst p, f (snd p))) ` set cols"
  by (simp add: map_cols_def)

lemma map_cols_cong: "(\<And>p. p \<in> set cols \<Longrightarrow> f (snd p) = g (snd p)) \<Longrightarrow> map_cols f cols = map_cols g cols"
  by (simp add: map_cols_def)

lemma take_cols_all: "cols_ok n cols \<Longrightarrow> take_cols [0..<n] cols = cols"
  unfolding take_cols_def map_cols_def cols_ok_def by (intro map_idI) (auto simp: map_nth)

lemma cols_ok_take [simp]: "cols_ok n cols \<Longrightarrow> cols_ok (length is) (take_cols is cols)"
  by (auto simp: cols_ok_def take_cols_def set_map_cols)

lemma cols_ok_lengths: "cols_ok n cols \<Longrightarrow> list_all (\<lambda>p. length (snd p) = n) cols"
  by (auto simp: cols_ok_def list_all_iff)

lemma dp_ok_batch: "dp_ok d \<Longrightarrow> dp_batch d = Some b \<Longrightarrow> cols_ok (dp_len d) (td_cols b) \<and> td_size b = dp_len d"
  by (simp add: dp_ok_def dp_len_def)

lemma dp_ok_non: "dp_ok d \<Longrightarrow> cols_ok (dp_len d) (dp_non d)"
  by (simp add: dp_ok_def)

lemma dp_len_take:
  "dp_ok d \<Longrightarrow> set is \<subseteq> {..<dp_len d} \<Longrightarrow> dp_len (take_rows is d) = length is"
  by (auto simp: dp_len_def take_rows_def take_cols_def map_cols_def split: option.splits list.splits)

lemma dp_ok_take:
  assumes ok: "dp_ok d" and sub: "set is \<subseteq> {..<dp_len d}"
  shows "dp_ok (take_rows is d)"
  using dp_ok_non [OF ok] ok
  by (auto simp: dp_ok_def dp_len_take [OF ok sub]) (auto simp: take_rows_def dp_ok_def split: option.splits)

lemma take_rows_all: "dp_ok d \<Longrightarrow> take_rows [0..<dp_len d] d = d"
  using dp_ok_non [of d]
  by (cases "dp_batch d") (auto simp: take_rows_def take_cols_all dp_ok_batch)

lemma make_dp_ok:
  "(\<forall>td. b = Some td \<longrightarrow> list_all (\<lambda>p. length (snd p) = td_size td) non) \<Longrightarrow>
   make_dp b non meta = Inr \<lparr>dp_batch = b, dp_non = non, dp_meta = meta\<rparr>"
  by (cases b) (simp_all add: make_dp_def check_consistency_def)

lemma make_take_rows:
  "make_dp (map_option (\<lambda>b. \<lparr>td_size = length is, td_cols = take_cols is (td_cols b)\<rparr>) (dp_batch d))
     (take_cols is (dp_non d)) (dp_meta d) = Inr (take_rows is d)"
  by (cases "dp_batch d") (auto simp: make_dp_def check_consistency_def take_rows_def take_cols_def map_cols_def list_all_iff)

lemma nth_nth_map: "set js \<subseteq> {..<length is} \<Longrightarrow> map ((!) (map ((!) col) is)) js = map ((!) col) (map ((!) is) js)"
  by (auto simp: subset_iff)

lemma take_rows_take:
  "set js \<subseteq> {..<length is} \<Longrightarrow> take_rows js (take_rows is d) = take_rows (map ((!) is) js) d"
  by (auto simp: take_rows_def take_cols_def map_cols_def comp_def subset_iff option.map_comp intro!: map_option_cong)

subsection \<open>Column operations act on row numbers\<close>

lemma every_map: "every step skip (map f xs) = map f (every step skip xs)"
  by (induction step skip xs rule: every.induct) auto

lemma slice_list_map: "slice_list start stop step (map f xs) = map f (slice_list start stop step xs)"
  by (cases stop) (simp_all add: slice_list_def py_slice_def Let_def take_map drop_map every_map)

lemma repeat_interleave_map: "repeat_interleave k (map f xs) = map f (repeat_interleave k xs)"
  by (simp add: repeat_interleave_def map_concat comp_def)

lemma tile_map: "tile k (map f xs) = map f (tile k xs)"
  by (simp add: tile_def map_concat)

lemma by_rows: "F (map ((!) col) [0..<length col]) = map ((!) col) (G [0..<length col]) \<Longrightarrow> F col = map ((!) col) (G [0..<length col])"
  by (simp add: map_nth)

lemma cols_by_rows:
  assumes "cols_ok n cols" and "\<And>col. F (map ((!) col) [0..<n]) = map ((!) col) (G [0..<n])"
  shows "map_cols F cols = take_cols (G [0..<n]) cols"
  unfolding take_cols_def
proof (rule map_cols_cong)
  fix p assume "p \<in> set cols"
  then have "length (snd p) = n" using assms(1) by (auto simp: cols_ok_def)
  then show "F (snd p) = map ((!) (snd p)) (G [0..<n])" using assms(2) [of "snd p"] map_nth [of "snd p"] by simp
qed

text \<open>A container whose columns go through one natural operation.\<close>

lemma dp_by_rows:
  assumes ok: "dp_ok d"
    and F: "\<And>col. F (map ((!) col) [0..<dp_len d]) = map ((!) col) (is :: nat list)"
    and F': "\<And>col. F' (map ((!) col) [0..<dp_len d]) = map ((!) col) is"
  shows "make_dp (map_option (\<lambda>b. \<lparr>td_size = length is, td_cols = map_cols F (td_cols b)\<rparr>) (dp_batch d))
     (map_cols F' (dp_non d)) (dp_meta d) = Inr (take_rows is d)"
proof -
  have "map_cols F' (dp_non d) = take_cols is (dp_non d)"
    by (rule cols_by_rows [OF dp_ok_non [OF ok], where G = "\<lambda>_. is"]) (rule F')
  moreover have "map_cols F (td_cols b) = take_cols is (td_cols b)" if "dp_batch d = Some b" for b
    by (rule cols_by_rows [where n = "dp_len d" and G = "\<lambda>_. is"]) (use dp_ok_batch [OF ok that] F in auto)
  ultimately show ?thesis
    using make_take_rows [of "is" d] by (cases "dp_batch d") auto
qed

lemma slice_dp_rows:
  assumes "dp_ok d" and "0 < step"
  shows "slice_dp d start stop step = Inr (take_rows (slice_list start stop step [0..<dp_len d]) d)"
proof -
  have "map_option (\<lambda>b. \<lparr>td_size = length (slice_list start stop step [0..<td_size b]), td_cols = map_cols (slice_list start stop step) (td_cols b)\<rparr>) (dp_batch d) =
      map_option (\<lambda>b. \<lparr>td_size = length (slice_list start stop step [0..<dp_len d]), td_cols = map_cols (slice_list start stop step) (td_cols b)\<rparr>) (dp_batch d)"
    by (rule map_option_cong) (use dp_ok_batch [OF assms(1)] in auto)
  then show ?thesis
    using assms dp_by_rows [OF assms(1), of "slice_list start stop step" "slice_list start stop step [0..<dp_len d]" "slice_list start stop step"]
    by (simp add: slice_dp_def slice_list_map)
qed

lemma length_repeat_interleave [simp]: "length (repeat_interleave k xs) = length xs * k"
  by (simp add: repeat_interleave_def length_concat comp_def sum_list_triv)

lemma length_tile [simp]: "length (tile k xs) = k * length xs"
  by (simp add: tile_def length_concat sum_list_replicate)

lemma make_td_ok:
  "list_all (\<lambda>p. length (snd p) = n) cols \<Longrightarrow> make_td cols n = Inr \<lparr>td_size = n, td_cols = cols\<rparr>"
  by (simp add: make_td_def)

lemma repeat_dp_rows:
  assumes ok: "dp_ok d"
  shows "repeat_dp d k True = Inr (take_rows (repeat_interleave k [0..<dp_len d]) d)"
    and "repeat_dp d k False = Inr (take_rows (tile k [0..<dp_len d]) d)"
proof -
  have sizes: "list_all (\<lambda>p. length (snd p) = td_size b * k) (map_cols (repeat_interleave k) (td_cols b))"
    "list_all (\<lambda>p. length (snd p) = td_size b * k) (map_cols (tile k) (td_cols b))" if "dp_batch d = Some b" for b
    using dp_ok_batch [OF ok that] by (auto simp: list_all_iff set_map_cols cols_ok_def)
  note rows = dp_by_rows [OF ok, of "repeat_interleave k" "repeat_interleave k [0..<dp_len d]" "repeat_interleave k", OF repeat_interleave_map repeat_interleave_map]
    dp_by_rows [OF ok, of "tile k" "tile k [0..<dp_len d]" "tile k", OF tile_map tile_map]
  show "repeat_dp d k True = Inr (take_rows (repeat_interleave k [0..<dp_len d]) d)"
    "repeat_dp d k False = Inr (take_rows (tile k [0..<dp_len d]) d)"
    using rows sizes dp_ok_batch [OF ok]
    by (cases "dp_batch d"; simp add: repeat_dp_def make_td_ok mult.commute)+
qed

subsection \<open>Chunks\<close>

lemma pieces_nth: "i < k \<Longrightarrow> pieces (replicate k m) xs ! i = take m (drop (i * m) xs)"
proof (induction k arbitrary: i xs)
  case (Suc k)
  then show ?case by (cases i) (simp_all add: add.commute)
qed simp

lemma length_pieces [simp]: "length (pieces ks xs) = length ks"
  by (induction ks arbitrary: xs) auto

lemma pieces_map: "pieces ks (map f xs) = map (map f) (pieces ks xs)"
  by (induction ks arbitrary: xs) (auto simp: take_map drop_map)

lemma concat_pieces: "sum_list ks = length xs \<Longrightarrow> concat (pieces ks xs) = xs"
  by (induction ks arbitrary: xs) auto

lemma torch_chunk_sizes_even:
  assumes "0 < k" and "k dvd n"
  shows "torch_chunk_sizes n k = replicate k (n div k)"
proof (cases "n = 0")
  case False
  from assms(2) obtain m where n: "n = k * m" by (rule dvdE)
  with False have m: "0 < m" by simp
  have "(k * m + k - 1) div k = m"
    using assms(1) by (simp add: Suc_leI div_eq_dividend_iff flip: add_diff_assoc)
  with n m assms(1) False show ?thesis by (simp add: torch_chunk_sizes_def)
qed (simp add: torch_chunk_sizes_def)

lemma array_split_sizes_even: "0 < k \<Longrightarrow> k dvd n \<Longrightarrow> array_split_sizes n k = replicate k (n div k)"
  by (simp add: array_split_sizes_def)

lemma split_last_nth:
  assumes "i < k" and "length xs = k * m"
  shows "(pieces (replicate (k - 1) m) xs @ [drop (sum_list (replicate (k - 1) m)) xs]) ! i = take m (drop (i * m) xs)"
proof (cases "i < k - 1")
  case True
  then show ?thesis by (simp add: nth_append pieces_nth)
next
  case False
  with assms(1) have i: "i = k - 1" by simp
  have "length (drop (i * m) xs) = m" using assms i by (cases k) auto
  with i show ?thesis by (simp add: nth_append sum_list_replicate)
qed

definition chunk_rows :: "nat \<Rightarrow> nat \<Rightarrow> nat \<Rightarrow> nat list" where
  "chunk_rows n k i = [i * (n div k)..<i * (n div k) + n div k]"

lemma take_drop_upt: "i * m + m \<le> n \<Longrightarrow> take m (drop (i * m) [0..<n]) = [i * m..<i * m + m]"
  by (simp add: drop_upt take_upt)

lemma chunk_bound:
  fixes i k n :: nat
  assumes "i < k" and "k dvd n" shows "i * (n div k) + n div k \<le> n"
proof -
  from assms have "Suc i * (n div k) \<le> k * (n div k)" by (intro mult_le_mono1) simp
  with assms(2) show ?thesis by (simp add: add.commute)
qed

lemma take_drop_rows:
  "i < k \<Longrightarrow> k dvd n \<Longrightarrow> take (n div k) (drop (i * (n div k)) (map ((!) col) [0..<n])) = map ((!) col) (chunk_rows n k i)"
  by (simp add: chunk_rows_def take_map drop_map take_drop_upt chunk_bound)

lemma length_chunk_rows [simp]: "length (chunk_rows n k i) = n div k"
  by (simp add: chunk_rows_def)

lemma chunk_dp_rows:
  assumes ok: "dp_ok d" and k: "0 < k" "k dvd dp_len d"
  shows "chunk_dp ap d k = Inr (map (\<lambda>i. take_rows (chunk_rows (dp_len d) k i) d) [0..<k])"
proof (cases "dp_batch d")
  case None
  let ?n = "dp_len d"
  have "map_cols (\<lambda>col. pieces (array_split_sizes (length col) k) col ! i) (dp_non d) = take_cols (chunk_rows ?n k i) (dp_non d)"
    if "i < k" for i
    by (rule cols_by_rows [OF dp_ok_non [OF ok], where G = "\<lambda>_. chunk_rows ?n k i"])
      (simp add: array_split_sizes_even [OF k] pieces_nth [OF that] take_drop_rows [OF that k(2)])
  then have "rmap (\<lambda>i. make_dp None (map_cols (\<lambda>col. pieces (array_split_sizes (length col) k) col ! i) (dp_non d)) (dp_meta d)) [0..<k] =
      Inr (map (\<lambda>i. take_rows (chunk_rows ?n k i) d) [0..<k])"
    using None make_take_rows [of _ d] by (intro rmap_total) simp
  with None k show ?thesis by (simp add: chunk_dp_def Let_def mod_eq_0_iff_dvd)
next
  case (Some b)
  let ?n = "dp_len d"
  from dp_ok_batch [OF ok Some] have b: "cols_ok ?n (td_cols b)" "td_size b = ?n" by auto
  note sizes = torch_chunk_sizes_even [OF k]
  have last: "butlast (replicate k (?n div k)) = replicate (k - 1) (?n div k)" by (cases k) (simp_all add: replicate_append_same [symmetric] butlast_append)
  have batch: "map_cols (\<lambda>col. pieces (replicate k (?n div k)) col ! i) (td_cols b) = take_cols (chunk_rows ?n k i) (td_cols b)"
    if "i < k" for i
    by (rule cols_by_rows [OF b(1), where G = "\<lambda>_. chunk_rows ?n k i"]) (simp add: pieces_nth [OF that] take_drop_rows [OF that k(2)])
  have non: "map_cols (\<lambda>col. (pieces (replicate (k - 1) (?n div k)) col @ [drop (sum_list (replicate (k - 1) (?n div k))) col]) ! i) (dp_non d) =
      take_cols (chunk_rows ?n k i) (dp_non d)" if "i < k" for i
    by (rule cols_by_rows [OF dp_ok_non [OF ok], where G = "\<lambda>_. chunk_rows ?n k i"])
      (subst split_last_nth [OF that], use k in \<open>simp_all add: take_drop_rows [OF that k(2)]\<close>)
  have "make_dp (Some \<lparr>td_size = ?n div k, td_cols = take_cols (chunk_rows ?n k i) (td_cols b)\<rparr>) (take_cols (chunk_rows ?n k i) (dp_non d)) (dp_meta d) =
      Inr (take_rows (chunk_rows ?n k i) d)" for i
    using make_take_rows [of "chunk_rows ?n k i" d] Some by simp
  then have "rmap (\<lambda>i. if i < length (replicate k (?n div k))
        then make_dp (Some \<lparr>td_size = replicate k (?n div k) ! i, td_cols = map_cols (\<lambda>col. pieces (replicate k (?n div k)) col ! i) (td_cols b)\<rparr>)
          (map_cols (\<lambda>col. (pieces (replicate (k - 1) (?n div k)) col @ [drop (sum_list (replicate (k - 1) (?n div k))) col]) ! i) (dp_non d)) (dp_meta d)
        else Inl IndexError) [0..<k] = Inr (map (\<lambda>i. take_rows (chunk_rows ?n k i) d) [0..<k])"
    by (intro rmap_total) (simp add: batch non del: sum_list_replicate One_nat_def)
  with Some k show ?thesis
    by (simp add: chunk_dp_def Let_def b(2) sizes last mod_eq_0_iff_dvd cong: if_cong del: sum_list_replicate One_nat_def)
qed

lemma concat_chunk_rows: "0 < k \<Longrightarrow> k dvd n \<Longrightarrow> concat (map (chunk_rows n k) [0..<k]) = [0..<n]"
proof -
  assume k: "0 < k" "k dvd n"
  have "map (chunk_rows n k) [0..<k] = pieces (replicate k (n div k)) [0..<n]"
    by (rule nth_equalityI) (use k in \<open>simp_all add: pieces_nth chunk_rows_def take_drop_upt chunk_bound\<close>)
  with k show ?thesis by (simp add: concat_pieces sum_list_replicate)
qed

subsection \<open>Concatenation of rows\<close>

lemma dict_set_middle:
  "k \<notin> fst ` set a \<Longrightarrow> dict_set (a @ (k, v) # b) k w = a @ (k, w) # b"
  by (induction a) auto

lemma add_items_same_keys:
  assumes "dict_ok (d1 @ d2)"
  shows "rfold (\<lambda>out (k, v). case dict_get out k of None \<Rightarrow> Inl AssertionError | Some vs \<Rightarrow> Inr (dict_set out k (vs @ [v])))
      (map (\<lambda>p. (fst p, g p @ [h p])) d1 @ map (\<lambda>p. (fst p, g p)) d2) (map (\<lambda>p. (fst p, h p)) d2) =
    Inr (map (\<lambda>p. (fst p, g p @ [h p])) (d1 @ d2))"
  using assms
proof (induction d2 arbitrary: d1)
  case (Cons p d2)
  have k: "fst p \<notin> fst ` set d1" using Cons.prems by (auto simp: dict_ok_def)
  have get: "dict_get (map (\<lambda>p. (fst p, g p @ [h p])) d1 @ (fst p, g p) # map (\<lambda>p. (fst p, g p)) d2) (fst p) = Some (g p)"
  proof -
    have "dict_get (map (\<lambda>p. (fst p, g p @ [h p])) d1) (fst p) = None"
      using k by (auto simp: map_of_eq_None_iff image_image)
    then show ?thesis by (simp add: map_add_def)
  qed
  have "dict_set (map (\<lambda>p. (fst p, g p @ [h p])) d1 @ (fst p, g p) # map (\<lambda>p. (fst p, g p)) d2) (fst p) (g p @ [h p]) =
      map (\<lambda>p. (fst p, g p @ [h p])) (d1 @ [p]) @ map (\<lambda>p. (fst p, g p)) d2"
    using k by (subst dict_set_middle) (auto simp: image_image)
  with Cons.IH [of "d1 @ [p]"] Cons.prems get show ?case by simp
qed simp

lemma collect_same_keys:
  assumes "dict_ok d"
  shows "rfold add_items (map (\<lambda>p. (fst p, g p)) d) (map (\<lambda>h. map (\<lambda>p. (fst p, h p)) d) hs) =
    Inr (map (\<lambda>p. (fst p, g p @ map (\<lambda>h. h p) hs)) d)"
proof (induction hs arbitrary: g)
  case (Cons h hs)
  have "add_items (map (\<lambda>p. (fst p, g p)) d) (map (\<lambda>p. (fst p, h p)) d) = Inr (map (\<lambda>p. (fst p, g p @ [h p])) d)"
    using add_items_same_keys [of "[]" d g h] assms by (simp add: add_items_def)
  with Cons [of "\<lambda>p. g p @ [h p]"] show ?case by simp
qed simp

lemma list_of_dict_same_keys:
  assumes "dict_ok d" and "hs \<noteq> []"
  shows "list_of_dict_to_dict_of_list (map (\<lambda>h. map (\<lambda>p. (fst p, h p)) d) hs) = Inr (map (\<lambda>p. (fst p, map (\<lambda>h. h p) hs)) d)"
  using collect_same_keys [OF assms(1), of "\<lambda>_. []" hs] assms(2)
  by (cases hs) (simp_all add: list_of_dict_to_dict_of_list_def comp_def)

text \<open>Meta data that merges with copies of itself: proper values and no metrics.\<close>

definition plain_meta :: "(string, pyval) dict \<Rightarrow> bool" where
  "plain_meta meta \<longleftrightarrow> dict_ok meta \<and> \<not> dict_has meta ''metrics'' \<and> list_all (\<lambda>p. py_wf (snd p)) meta"

lemma merge_meta_first:
  assumes "plain_meta (m1 @ m2)"
  shows "rfold merge_meta_entry ([], m1) m2 = Inr ([], m1 @ m2)"
  using assms
proof (induction m2 arbitrary: m1)
  case (Cons e m2)
  obtain k v where e: "e = (k, v)" by (cases e)
  have k: "k \<noteq> ''metrics''" "dict_get m1 k = None" "dict_set m1 k v = m1 @ [(k, v)]"
  proof -
    show "k \<noteq> ''metrics''" using Cons.prems by (auto simp: plain_meta_def dict_has_def e map_add_def split: option.splits if_splits)
    have new: "k \<notin> fst ` set m1" using Cons.prems by (auto simp: plain_meta_def dict_ok_def e)
    then show "dict_get m1 k = None" by (simp add: map_of_eq_None_iff)
    from new show "dict_set m1 k v = m1 @ [(k, v)]" by (induction m1) auto
  qed
  then show ?case using Cons.IH [of "m1 @ [e]"] Cons.prems by (simp add: merge_meta_entry_def e)
qed simp

lemma merge_meta_again:
  assumes "plain_meta m" and "set m' \<subseteq> set m"
  shows "rfold merge_meta_entry ([], m) m' = Inr ([], m)"
  using assms(2)
proof (induction m')
  case (Cons e m')
  obtain k v where e: "e = (k, v)" by (cases e)
  with Cons.prems have mem: "(k, v) \<in> set m" by simp
  with assms(1) have get: "dict_get m k = Some v" "py_eq v v" "k \<noteq> ''metrics''"
    by (auto simp: plain_meta_def dict_ok_def list_all_iff dict_has_def intro!: py_eq_refl map_of_is_SomeI dest: map_of_is_SomeI)
  then show ?case using Cons by (simp add: merge_meta_entry_def e)
qed simp

lemma merge_meta_same:
  assumes "plain_meta m" shows "merge_meta (replicate (Suc k) m) = Inr m"
proof -
  have "rfold (\<lambda>acc meta. rfold merge_meta_entry acc meta) ([], m) (replicate k m) = Inr ([], m)"
    by (induction k) (simp_all add: merge_meta_again [OF assms])
  then show ?thesis using merge_meta_first [of "[]" m] assms by (simp add: merge_meta_def)
qed

lemma td_cat_rows:
  assumes "cols_ok n (td_cols b)" and "iss \<noteq> []"
  shows "td_cat (map (\<lambda>is. \<lparr>td_size = length is, td_cols = take_cols is (td_cols b)\<rparr>) iss) =
    Inr \<lparr>td_size = length (concat iss), td_cols = take_cols (concat iss) (td_cols b)\<rparr>"
proof -
  have get: "dict_get_default (take_cols is (td_cols b)) (fst p) [] = map ((!) (snd p)) is" if "p \<in> set (td_cols b)" for p "is"
  proof -
    have "(fst p, map ((!) (snd p)) is) \<in> set (take_cols is (td_cols b))" using that by (auto simp: take_cols_def set_map_cols)
    moreover have "dict_ok (take_cols is (td_cols b))" using assms(1) by (simp add: take_cols_def cols_ok_def)
    ultimately show ?thesis by (auto simp: dict_get_default_def dict_ok_def dest: map_of_is_SomeI)
  qed
  obtain i0 rest where iss: "iss = i0 # rest" using assms(2) by (cases iss) auto
  have "map (\<lambda>p. (fst p, concat (map (\<lambda>is. dict_get_default (take_cols is (td_cols b)) (fst p) []) iss))) (td_cols b) =
      take_cols (concat iss) (td_cols b)"
    unfolding take_cols_def map_cols_def
    by (rule map_cong [OF refl]) (simp add: get [unfolded take_cols_def map_cols_def] map_concat)
  then show ?thesis
    by (simp add: td_cat_def iss list_all_iff comp_def length_concat take_cols_def map_cols_def image_image)
qed

lemma concat_dp_rows:
  assumes ok: "dp_ok d" and meta: "plain_meta (dp_meta d)" and ne: "iss \<noteq> []"
  shows "concat_dp (map (\<lambda>is. take_rows is d) iss) = Inr (take_rows (concat iss) d)"
proof -
  obtain i0 rest where iss: "iss = i0 # rest" using ne by (cases iss) auto
  have batch: "cat_batches (map dp_batch (map (\<lambda>is. take_rows is d) iss)) =
      Inr (map_option (\<lambda>b. \<lparr>td_size = length (concat iss), td_cols = take_cols (concat iss) (td_cols b)\<rparr>) (dp_batch d))"
  proof (cases "dp_batch d")
    case (Some b)
    have "map dp_batch (map (\<lambda>is. take_rows is d) iss) = map Some (map (\<lambda>is. \<lparr>td_size = length is, td_cols = take_cols is (td_cols b)\<rparr>) iss)"
      by (simp add: take_rows_def Some)
    moreover have "cat_batches (map Some bs) = map_sum id Some (td_cat bs)" if "bs \<noteq> []" for bs :: "'a tensor_dict list"
      using that by (cases bs) (simp_all add: cat_batches_def list_all_iff comp_def)
    ultimately have "cat_batches (map dp_batch (map (\<lambda>is. take_rows is d) iss)) =
        map_sum id Some (td_cat (map (\<lambda>is. \<lparr>td_size = length is, td_cols = take_cols is (td_cols b)\<rparr>) iss))"
      using ne by (simp only: map_is_Nil_conv not_False_eq_True)
    also have "\<dots> = Inr (Some \<lparr>td_size = length (concat iss), td_cols = take_cols (concat iss) (td_cols b)\<rparr>)"
      using td_cat_rows [of "dp_len d" b iss] dp_ok_batch [OF ok Some] ne by simp
    finally show ?thesis by (simp only: Some option.map)
  qed (simp add: cat_batches_def iss take_rows_def)
  have non: "list_of_dict_to_dict_of_list (map dp_non (map (\<lambda>is. take_rows is d) iss)) =
      Inr (map (\<lambda>p. (fst p, map (\<lambda>is. map ((!) (snd p)) is) iss)) (dp_non d))"
    using list_of_dict_same_keys [of "dp_non d" "map (\<lambda>is p. map ((!) (snd p)) is) iss"] dp_ok_non [OF ok] ne
    by (simp add: take_rows_def take_cols_def map_cols_def comp_def cols_ok_def)
  have m: "merge_meta (map dp_meta (map (\<lambda>is. take_rows is d) iss)) = Inr (dp_meta d)"
    using merge_meta_same [OF meta, of "length rest"] by (simp add: iss take_rows_def comp_def map_replicate_const)
  have "map (\<lambda>p. (fst p, concat (snd p))) (map (\<lambda>p. (fst p, map (\<lambda>is. map ((!) (snd p)) is) iss)) (dp_non d)) = take_cols (concat iss) (dp_non d)"
    by (simp add: take_cols_def map_cols_def map_concat)
  then show ?thesis
    using make_take_rows [of "concat iss" d] by (simp only: concat_dp_def batch non m rbind_simps)
qed

lemma dp_ok_chunk:
  assumes ok: "dp_ok d" and k: "0 < k" "k dvd dp_len d" and i: "i < k"
  shows "dp_ok (take_rows (chunk_rows (dp_len d) k i) d)" "dp_len (take_rows (chunk_rows (dp_len d) k i) d) = dp_len d div k"
proof -
  have "set (chunk_rows (dp_len d) k i) \<subseteq> {..<dp_len d}"
    using chunk_bound [OF i k(2)] by (auto simp: chunk_rows_def)
  then show "dp_ok (take_rows (chunk_rows (dp_len d) k i) d)" "dp_len (take_rows (chunk_rows (dp_len d) k i) d) = dp_len d div k"
    using dp_ok_take [OF ok] dp_len_take [OF ok] by auto
qed


definition example_batch :: "(nat, string) dproto" where
  "example_batch = \<lparr>dp_batch = Some \<lparr>td_size = 4, td_cols = [(''responses'', [10, 11, 12, 13])]\<rparr>,
     dp_non = [(''uid'', [''a'', ''a'', ''b'', ''b''])], dp_meta = [(''step'', PInt 3)]\<rparr>"

lemma example_batch_ok: "dp_ok example_batch" "plain_meta (dp_meta example_batch)" "dp_len example_batch = 4"
  by (simp_all add: dp_ok_def example_batch_def dp_len_def cols_ok_def dict_ok_def plain_meta_def dict_has_def)


subsection \<open>Padding to a divisor\<close>

lemma every_one [simp]: "every (Suc 0) 0 xs = xs"
  by (induction xs) auto

lemma slice_prefix: "t \<le> n \<Longrightarrow> slice_list None (Some (int t)) 1 [0..<n] = [0..<t]"
  by (simp add: slice_list_def py_slice_def slice_index_def Let_def)

lemma slice_drop_last: "0 < p \<Longrightarrow> slice_list None (Some (- int p)) 1 [0..<n + p] = [0..<n]"
  by (simp add: slice_list_def py_slice_def slice_index_def Let_def)

lemma padding_takes_bound: "t \<in> set (padding_takes n r) \<Longrightarrow> t \<le> n"
  by (induction n r rule: padding_takes.induct) (subst (asm) (2) padding_takes.simps, auto split: if_splits)

lemma upt_shift: "n \<le> r \<Longrightarrow> [n..<r] = map (\<lambda>i. i + n) [0..<r - n]"
  by (simp add: map_add_upt)

lemma mod_upt_shift:
  assumes "n \<le> r" shows "map (\<lambda>i. i mod n) [n..<r] = map (\<lambda>i. i mod n) [0..<r - n]"
  by (simp add: upt_shift [OF assms])

lemma padding_takes_rows:
  "0 < n \<Longrightarrow> concat (map (upt 0) (padding_takes n r)) = map (\<lambda>i. i mod n) [0..<r]"
proof (induction n r rule: padding_takes.induct)
  case (1 n r)
  show ?case
  proof (cases "r \<le> n")
    case True
    have "padding_takes n r = (if r = 0 then [] else [r])"
      using True "1.prems" by (subst padding_takes.simps) (simp add: padding_takes.simps [of n 0])
    moreover have "map (\<lambda>i. i mod n) [0..<r] = [0..<r]" using True by (intro map_idI) auto
    ultimately show ?thesis by simp
  next
    case False
    then have "padding_takes n r = n # padding_takes n (r - n)"
      using "1.prems" by (subst padding_takes.simps) simp
    moreover have "concat (map (upt 0) (padding_takes n (r - n))) = map (\<lambda>i. i mod n) [0..<r - n]"
      using "1.IH" "1.prems" False by simp
    moreover have "map (\<lambda>i. i mod n) [0..<r] = map (\<lambda>i. i mod n) [0..<n] @ map (\<lambda>i. i mod n) [n..<r]"
      using False upt_add_eq_append [of 0 n "r - n"] by simp
    moreover have "map (\<lambda>i. i mod n) [0..<n] = [0..<n]" by (intro map_idI) auto
    moreover have "map (\<lambda>i. i mod n) [n..<r] = map (\<lambda>i. i mod n) [0..<r - n]"
      using False by (intro mod_upt_shift) simp
    ultimately show ?thesis by simp
  qed
qed

lemma pad_dataproto_rows:
  assumes ok: "dp_ok d" and meta: "plain_meta (dp_meta d)" and m: "0 < m" and r: "dp_len d mod m \<noteq> 0"
  shows "pad_dataproto_to_divisor d m =
    Inr (take_rows (map (\<lambda>i. i mod dp_len d) [0..<dp_len d + (m - dp_len d mod m)]) d, m - dp_len d mod m)"
proof -
  let ?n = "dp_len d" and ?p = "m - dp_len d mod m"
  have n: "0 < ?n" using r by (cases "?n = 0") auto
  have parts: "rmap (\<lambda>t. slice_dp d None (Some (int t)) 1) (padding_takes ?n ?p) = Inr (map (\<lambda>t. take_rows [0..<t] d) (padding_takes ?n ?p))"
    by (rule rmap_total) (use padding_takes_bound in \<open>auto simp: slice_dp_rows [OF ok] slice_prefix [simplified]\<close>)
  have "d # map (\<lambda>t. take_rows [0..<t] d) (padding_takes ?n ?p) = map (\<lambda>is. take_rows is d) ([0..<?n] # map (upt 0) (padding_takes ?n ?p))"
    by (simp add: take_rows_all [OF ok])
  then have "concat_dp (d # map (\<lambda>t. take_rows [0..<t] d) (padding_takes ?n ?p)) =
      Inr (take_rows (concat ([0..<?n] # map (upt 0) (padding_takes ?n ?p))) d)"
    using concat_dp_rows [OF ok meta] by (metis list.distinct(1))
  moreover have "concat ([0..<?n] # map (upt 0) (padding_takes ?n ?p)) = map (\<lambda>i. i mod ?n) [0..<?n + ?p]"
  proof -
    have "map (\<lambda>i. i mod ?n) [0..<?n] = [0..<?n]" by (intro map_idI) auto
    moreover have "map (\<lambda>i. i mod ?n) [?n..<?n + ?p] = map (\<lambda>i. i mod ?n) [0..<?p]" using mod_upt_shift [of ?n "?n + ?p"] by simp
    ultimately show ?thesis using upt_add_eq_append [of 0 ?n ?p] by (simp add: padding_takes_rows [OF n])
  qed
  ultimately show ?thesis using r m by (simp add: pad_dataproto_to_divisor_def Let_def parts del: One_nat_def)
qed

text \<open>
  Padding to a divisor gives a batch whose size is the next multiple of it; the added rows repeat the batch from
  the start, row \<open>i\<close> being row \<open>i mod n\<close>; removing the padding gives the batch back.
\<close>

theorem pad_unpad_roundtrip:
  assumes "dp_ok d" and "plain_meta (dp_meta d)" and "0 < m"
  shows "\<exists>padded p. pad_dataproto_to_divisor d m = Inr (padded, p) \<and> p < m \<and> m dvd dp_len padded \<and> dp_len padded = dp_len d + p \<and>
    dp_ok padded \<and> padded = take_rows (map (\<lambda>i. i mod dp_len d) [0..<dp_len d + p]) d \<and> unpad_dataproto padded p = Inr d"
proof (cases "dp_len d mod m = 0")
  case True
  have "map (\<lambda>i. i mod dp_len d) [0..<dp_len d] = [0..<dp_len d]" by (intro map_idI) auto
  with True assms show ?thesis
    by (intro exI [of _ d] exI [of _ 0])
      (simp add: pad_dataproto_to_divisor_def unpad_dataproto_def take_rows_all mod_eq_0_iff_dvd)
next
  case False
  let ?n = "dp_len d" and ?p = "m - dp_len d mod m"
  let ?rows = "map (\<lambda>i. i mod ?n) [0..<?n + ?p]"
  have n: "0 < ?n" using False by (cases "?n = 0") auto
  have sub: "set ?rows \<subseteq> {..<?n}" using n by auto
  have p: "0 < ?p" "?p < m" using assms(3) False by auto
  have dv: "m dvd ?n + ?p"
    using assms(3) by (metis add.commute add_diff_inverse_nat dvd_eq_mod_eq_0 less_imp_le_nat mod_add_left_eq mod_less_divisor mod_self not_less)
  note len = dp_len_take [OF assms(1) sub] and ok = dp_ok_take [OF assms(1) sub]
  have "unpad_dataproto (take_rows ?rows d) ?p = Inr (take_rows (slice_list None (Some (- int ?p)) 1 [0..<?n + ?p]) (take_rows ?rows d))"
    using slice_dp_rows [OF ok, of 1 None "Some (- int ?p)"] p(1) len by (simp add: unpad_dataproto_def)
  also have "slice_list None (Some (- int ?p)) 1 [0..<?n + ?p] = [0..<?n]" using slice_drop_last [OF p(1)] .
  also have "take_rows [0..<?n] (take_rows ?rows d) = take_rows (map ((!) ?rows) [0..<?n]) d" by (rule take_rows_take) auto
  also have "map ((!) ?rows) [0..<?n] = [0..<?n]" by (intro map_idI) (auto simp del: upt_Suc)
  finally have un: "unpad_dataproto (take_rows ?rows d) ?p = Inr d" by (simp add: take_rows_all [OF assms(1)])
  show ?thesis
    using pad_dataproto_rows [OF assms False] p dv len ok un by (intro exI [of _ "take_rows ?rows d"] exI [of _ ?p]) simp
qed

lemma pad_unpad_roundtrip_witness:
  "\<exists>padded. pad_dataproto_to_divisor example_batch 3 = Inr (padded, 2) \<and>
     dp_non padded = [(''uid'', [''a'', ''a'', ''b'', ''b'', ''a'', ''a''])] \<and> unpad_dataproto padded 2 = Inr example_batch"
proof -
  obtain padded p where r: "pad_dataproto_to_divisor example_batch 3 = Inr (padded, p)" "unpad_dataproto padded p = Inr example_batch"
    using pad_unpad_roundtrip [OF example_batch_ok(1,2), of 3] by auto
  have "case pad_dataproto_to_divisor example_batch 3 of
      Inr (q, n) \<Rightarrow> n = 2 \<and> dp_non q = [(''uid'', [''a'', ''a'', ''b'', ''b'', ''a'', ''a''])] | _ \<Rightarrow> False" by code_simp
  with r show ?thesis by auto
qed

lemma select_idxs_rows:
  assumes ok: "dp_ok d" and js: "set js \<subseteq> {..<dp_len d}"
  shows "select_idxs d (Positions (map int js)) = Inr (take_rows js d)"
proof -
  have pos: "rmap (position n) (map int js) = Inr js" if "n = dp_len d" for n
  proof -
    have "rmap (position n) (map int js) = Inr (map nat (map int js))"
      by (rule rmap_total) (use js that in \<open>auto simp: position_def\<close>)
    then show ?thesis by (simp add: comp_def)
  qed
  have rc: "rmap_cols (pick (Positions (map int js))) cols = Inr (take_cols js cols)" if "cols_ok (dp_len d) cols" for cols :: "(string, 'z list) dict"
    unfolding rmap_cols_def take_cols_def map_cols_def
    by (rule rmap_total) (use that pos in \<open>auto simp: cols_ok_def pick_def resolve_idxs_def\<close>)
  show ?thesis
    using make_take_rows [of js d] dp_ok_batch [OF ok] dp_ok_non [OF ok]
    by (cases "dp_batch d")
      (simp_all add: select_idxs_def rc idxs_count_def make_td_def take_cols_def map_cols_def list_all_iff)
qed

text \<open>Padding in place repeats the last row, or the first one.\<close>

lemma padding_rows:
  assumes ok: "dp_ok d" and meta: "plain_meta (dp_meta d)" and n: "0 < dp_len d" and p: "0 < p"
  shows "padding d p cand = Inr (take_rows ([0..<dp_len d] @ replicate p (if cand = ''first'' then 0 else dp_len d - 1)) d)"
proof -
  let ?n = "dp_len d" and ?i = "if cand = ''first'' then 0 else dp_len d - 1"
  have sub: "set [?i] \<subseteq> {..<?n}" using n by auto
  have sel: "select_idxs d (Positions [int ?i]) = Inr (take_rows [?i] d)"
    using select_idxs_rows [OF ok sub] by (simp only: list.map)
  have rep: "repeat_dp (take_rows [?i] d) p True = Inr (take_rows (replicate p ?i) d)"
  proof -
    have "repeat_interleave p [0..<1] = replicate p 0" by (simp add: repeat_interleave_def)
    moreover have "take_rows (replicate p 0) (take_rows [?i] d) = take_rows (replicate p ?i) d"
      using take_rows_take [of "replicate p 0" "[?i]" d] by (simp add: map_replicate set_replicate_conv_if)
    ultimately show ?thesis
      using repeat_dp_rows(1) [OF dp_ok_take [OF ok sub], of p] dp_len_take [OF ok sub] by simp
  qed
  have "[d, take_rows (replicate p ?i) d] = map (\<lambda>is. take_rows is d) [[0..<?n], replicate p ?i]" by (simp add: take_rows_all [OF ok])
  then have "concat_dp [d, take_rows (replicate p ?i) d] = Inr (take_rows ([0..<?n] @ replicate p ?i) d)"
    using concat_dp_rows [OF ok meta, of "[[0..<?n], replicate p ?i]"] by simp
  moreover have "(if cand = ''first'' then 0 else int ?n - 1) = int ?i" using n by simp
  ultimately show ?thesis
    using p sel rep by (simp add: padding_def take_rows_def del: of_nat_diff)
qed

subsection \<open>Iterating and folding\<close>

lemma row_at_rows:
  assumes "cols_ok n cols" and "i < n"
  shows "row_at (int i) cols = Inr (map (\<lambda>p. (fst p, snd p ! i)) cols)"
  unfolding row_at_def by (rule rmap_total) (use assms in \<open>auto simp: cols_ok_def position_def\<close>)

lemma concat_of_concat: "concat (concat xsss) = concat (map concat xsss)"
  by (induction xsss) auto

lemma stack_items:
  assumes "dict_ok cols" and "js \<noteq> []"
  shows "list_of_dict_to_dict_of_list (map (\<lambda>i. map (\<lambda>p. (fst p, snd p ! i)) cols) js) = Inr (take_cols js cols)"
  using list_of_dict_same_keys [OF assms(1), of "map (\<lambda>i p. snd p ! i) js"] assms(2)
  by (simp add: take_cols_def map_cols_def comp_def)

lemma collate_rows:
  assumes ok: "dp_ok d" and b: "dp_batch d = Some b" and js: "js \<noteq> []" "set js \<subseteq> {..<dp_len d}"
  shows "rbind (rmap (\<lambda>i. get_item d (int i)) js) (\<lambda>items. rbind (collate_fn items) (\<lambda>batch. Inr (batch\<lparr>dp_meta := dp_meta d\<rparr>))) =
    Inr (take_rows js d)"
proof -
  let ?row = "\<lambda>cols i. map (\<lambda>p. (fst p, snd p ! i)) cols"
  note bb = dp_ok_batch [OF ok b]
  have items: "rmap (\<lambda>i. get_item d (int i)) js =
      Inr (map (\<lambda>i. \<lparr>it_batch = Some (?row (td_cols b) i), it_non = ?row (dp_non d) i, it_meta = dp_meta d\<rparr>) js)"
  proof (rule rmap_total)
    fix i assume "i \<in> set js"
    then have i: "i < dp_len d" using js(2) by auto
    have "position (td_size b) (int i) = Inr i" using i bb by (simp add: position_def)
    then show "get_item d (int i) = Inr \<lparr>it_batch = Some (?row (td_cols b) i), it_non = ?row (dp_non d) i, it_meta = dp_meta d\<rparr>"
      using row_at_rows [OF conjunct1 [OF bb] i] row_at_rows [OF dp_ok_non [OF ok] i] by (simp add: get_item_def b)
  qed
  have rows: "rmap (\<lambda>it. case it_batch it of None \<Rightarrow> Inl (TypeError ''expected Tensor, got NoneType'') | Some b \<Rightarrow> Inr b)
      (map (\<lambda>i. \<lparr>it_batch = Some (?row (td_cols b) i), it_non = ?row (dp_non d) i, it_meta = dp_meta d\<rparr>) js) = Inr (map (?row (td_cols b)) js)"
    by (induction js) simp_all
  have stacked: "stack_rows (map (?row (td_cols b)) js) = Inr \<lparr>td_size = length js, td_cols = take_cols js (td_cols b)\<rparr>"
    using stack_items [of "td_cols b" js] js(1) bb by (simp add: stack_rows_def cols_ok_def make_td_def take_cols_def map_cols_def list_all_iff)
  have non: "list_of_dict_to_dict_of_list (map (?row (dp_non d)) js) = Inr (take_cols js (dp_non d))"
    using stack_items [of "dp_non d" js] js(1) dp_ok_non [OF ok] by (simp add: cols_ok_def)
  have "make_dp (Some \<lparr>td_size = length js, td_cols = take_cols js (td_cols b)\<rparr>) (take_cols js (dp_non d)) [] = Inr ((take_rows js d)\<lparr>dp_meta := []\<rparr>)"
    by (simp add: make_dp_def check_consistency_def take_rows_def b take_cols_def map_cols_def list_all_iff)
  then show ?thesis
    using stacked non by (simp add: items collate_fn_def rows comp_def take_rows_def)
qed

text \<open>
  The iterator over a batch yields, epoch after epoch, mini-batches of the requested size whose rows are the
  batch's rows in exactly the order of the sampler: none is lost, repeated or reordered, tensors and arrays stay
  aligned and every mini-batch carries the meta data.
\<close>

theorem make_iterator_rows:
  assumes "dp_ok d" and "dp_batch d = Some b" and "0 < m" and "m dvd dp_len d"
    and "list_all (\<lambda>order. length order = dp_len d \<and> set order \<subseteq> {..<dp_len d}) orders"
  shows "\<exists>batches. make_iterator d m orders = Inr (map (\<lambda>rows. take_rows rows d) batches) \<and>
    concat batches = concat orders \<and> list_all (\<lambda>rows. length rows = m) batches"
proof -
  let ?cut = "\<lambda>order. pieces (replicate (length order div m) m) order"
  let ?batches = "concat (map ?cut orders)"
  have cut: "concat (?cut order) = order" "list_all (\<lambda>rows. length rows = m) (?cut order)" if "order \<in> set orders" for order
  proof -
    have len: "length order div m * m = length order" using that assms(4,5) by (auto simp: list_all_iff)
    then show "concat (?cut order) = order" by (simp add: concat_pieces sum_list_replicate)
    have "\<forall>i < length order div m. length (take m (drop (i * m) order)) = m"
    proof (intro allI impI)
      fix i assume "i < length order div m"
      then have "Suc i * m \<le> length order div m * m" by (intro mult_le_mono1) simp
      then show "length (take m (drop (i * m) order)) = m" using len by simp
    qed
    then show "list_all (\<lambda>rows. length rows = m) (?cut order)" by (simp add: list_all_length pieces_nth)
  qed
  have "concat ?batches = concat (map (\<lambda>order. concat (?cut order)) orders)" by (simp add: concat_of_concat comp_def)
  also have "map (\<lambda>order. concat (?cut order)) orders = orders" by (rule map_idI) (rule cut)
  finally have all: "concat ?batches = concat orders" .
  have sizes: "list_all (\<lambda>rows. length rows = m) ?batches"
    using cut(2) unfolding list_all_iff set_concat set_map by blast
  have range: "set rows \<subseteq> {..<dp_len d}" if "rows \<in> set ?batches" for rows
  proof -
    have "set rows \<subseteq> set (concat ?batches)" using that by auto
    then show ?thesis unfolding all using assms(5) by (auto simp: list_all_iff)
  qed
  have "rmap (\<lambda>indices. rbind (rmap (\<lambda>i. get_item d (int i)) indices)
      (\<lambda>items. rbind (collate_fn items) (\<lambda>batch. Inr (batch\<lparr>dp_meta := dp_meta d\<rparr>)))) ?batches = Inr (map (\<lambda>rows. take_rows rows d) ?batches)"
  proof (rule rmap_total)
    fix rows assume mem: "rows \<in> set ?batches"
    then have "length rows = m" using sizes unfolding list_all_iff by blast
    then have "rows \<noteq> []" using assms(3) by auto
    then show "rbind (rmap (\<lambda>i. get_item d (int i)) rows) (\<lambda>items. rbind (collate_fn items) (\<lambda>batch. Inr (batch\<lparr>dp_meta := dp_meta d\<rparr>))) =
        Inr (take_rows rows d)"
      by (rule collate_rows [OF assms(1,2) _ range [OF mem]])
  qed
  then have "make_iterator d m orders = Inr (map (\<lambda>rows. take_rows rows d) ?batches)"
    using assms(2-4) dp_ok_batch [OF assms(1,2)] by (simp add: make_iterator_def mod_eq_0_iff_dvd)
  with all sizes show ?thesis by blast
qed

lemma make_iterator_rows_witness:
  "\<exists>x y. make_iterator example_batch 2 [[3, 1, 0, 2]] = Inr [x, y] \<and> dp_len x = 2 \<and> dp_non y = [(''uid'', [''a'', ''b''])]"
proof -
  have "\<exists>batches. make_iterator example_batch 2 [[3, 1, 0, 2]] = Inr (map (\<lambda>rows. take_rows rows example_batch) batches) \<and>
      concat batches = concat [[3, 1, 0, 2]] \<and> list_all (\<lambda>rows. length rows = 2) batches"
    by (rule make_iterator_rows [OF example_batch_ok(1)]) (simp_all add: example_batch_ok(3), simp add: example_batch_def)
  then obtain batches where r: "make_iterator example_batch 2 [[3, 1, 0, 2]] = Inr (map (\<lambda>rows. take_rows rows example_batch) batches)" by blast
  have "case make_iterator example_batch 2 [[3, 1, 0, 2]] of
      Inr [x, y] \<Rightarrow> dp_len x = 2 \<and> dp_non y = [(''uid'', [''a'', ''b''])] | _ \<Rightarrow> False" by code_simp
  then show ?thesis unfolding r by (auto split: list.splits)
qed

lemma fold_rows_concat: "0 < k \<Longrightarrow> k dvd length col \<Longrightarrow> concat (fold_rows k col) = col"
  by (simp add: fold_rows_def concat_pieces sum_list_replicate)

lemma map_cols_id:
  "(\<And>p. p \<in> set cols \<Longrightarrow> f (g (snd p)) = snd p) \<Longrightarrow> map_cols f (map_cols g cols) = cols"
  by (simp add: map_cols_def map_idI)

lemma cols_fold_unfold: "cols_ok n cols \<Longrightarrow> 0 < k \<Longrightarrow> k dvd n \<Longrightarrow> map_cols concat (map_cols (fold_rows k) cols) = cols"
  by (rule map_cols_id) (auto simp: cols_ok_def fold_rows_concat)

text \<open>Folding the batch dimension and unfolding it again; the argument itself is left with the folded arrays.\<close>

lemma fold_unfold:
  assumes "dp_ok d" and "dp_batch d = Some b" and "td_cols b \<noteq> []" and "0 < k" and "k dvd dp_len d"
  shows "\<exists>folded. fold_batch_dim d k = Inr (folded, dp_batch d, dp_non folded) \<and> dp_len folded = k \<and> unfold_batch_dim folded = Inr d"
proof -
  note bb = dp_ok_batch [OF assms(1,2)] and non = dp_ok_non [OF assms(1)]
  let ?f = "\<lparr>dp_batch = Some \<lparr>td_size = k, td_cols = map_cols (fold_rows k) (td_cols b)\<rparr>, dp_non = map_cols (fold_rows k) (dp_non d), dp_meta = dp_meta d\<rparr>"
  have "make_dp (Some \<lparr>td_size = k, td_cols = map_cols (fold_rows k) (td_cols b)\<rparr>) (map_cols (fold_rows k) (dp_non d)) (dp_meta d) = Inr ?f"
    by (rule make_dp_ok) (simp add: list_all_iff set_map_cols fold_rows_def)
  then have fold: "fold_batch_dim d k = Inr (?f, dp_batch d, dp_non ?f)"
    using assms bb by (simp add: fold_batch_dim_def mod_eq_0_iff_dvd Let_def)
  obtain q rest where q: "td_cols b = q # rest" using assms(3) by (cases "td_cols b") auto
  have len: "length (concat (fold_rows k (snd q))) = dp_len d" using bb q assms(4,5) by (simp add: cols_ok_def fold_rows_concat)
  have lens: "list_all (\<lambda>p. length (concat (snd p)) = dp_len d) (map_cols (fold_rows k) (dp_non d))"
    using non assms(4,5) by (auto simp: list_all_iff set_map_cols cols_ok_def fold_rows_concat)
  have again: "make_dp (Some \<lparr>td_size = dp_len d, td_cols = td_cols b\<rparr>) (dp_non d) (dp_meta d) = Inr d"
    using make_dp_ok [of "Some \<lparr>td_size = dp_len d, td_cols = td_cols b\<rparr>" "dp_non d" "dp_meta d"] cols_ok_lengths [OF non] bb assms(2)
    by (cases d; cases b) simp
  have cols: "map_cols (fold_rows k) (td_cols b) = (fst q, fold_rows k (snd q)) # map_cols (fold_rows k) rest" by (simp add: q map_cols_def)
  have "unfold_batch_dim ?f = Inr d"
    using lens again len cols_fold_unfold [OF conjunct1 [OF bb] assms(4,5)] cols_fold_unfold [OF non assms(4,5)] bb
    by (simp add: unfold_batch_dim_def cols)
  with fold show ?thesis by (intro exI [of _ ?f]) (simp add: dp_len_def)
qed

subsection \<open>Union\<close>

lemma union_cols_get:
  assumes "union_cols (=) ow d1 d2 = (Inr (), d)" and "dict_ok d2"
  shows "dict_get d k = Some c \<longleftrightarrow> dict_get d1 k = Some c \<or> dict_get d2 k = Some c"
  using assms
proof (induction d2 arbitrary: d1)
  case (Cons e d2)
  obtain k' v where e: "e = (k', v)" by (cases e)
  have fresh: "dict_get d2 k' = None" using Cons.prems(2) by (simp add: e dict_ok_def map_of_eq_None_iff)
  have ok: "dict_ok d2" using Cons.prems(2) by (simp add: dict_ok_def)
  show ?case
  proof (cases "dict_get d1 k'")
    case None
    then show ?thesis using Cons.IH [of "dict_set d1 k' v"] Cons.prems(1) ok fresh by (auto simp: e)
  next
    case (Some w)
    then have w: "w = v" using Cons.prems(1) by (auto simp: e split: if_splits)
    then have "(if ow then dict_set d1 k' v else d1) = d1" using Some by (simp add: dict_set_same)
    then show ?thesis using Some w Cons.IH [of d1] Cons.prems(1) ok fresh by (auto simp: e)
  qed
qed simp

lemma union_cols_ok: "dict_ok d1 \<Longrightarrow> union_cols same ow d1 d2 = (r, d) \<Longrightarrow> dict_ok d"
  by (induction same ow d1 d2 rule: union_cols.induct) (auto split: option.splits if_splits)

lemma cols_ok_get: "cols_ok n cols \<longleftrightarrow> dict_ok cols \<and> (\<forall>k c. dict_get cols k = Some c \<longrightarrow> length c = n)"
  unfolding cols_ok_def dict_ok_def by (metis map_of_SomeD map_of_is_SomeI prod.collapse snd_conv)

text \<open>
  A union that succeeds keeps the container aligned and holds exactly the columns of both sides - where both have
  a column it was the same - for tensors and for arrays.
\<close>

theorem union_exact:
  assumes "dp_ok d" and "dp_ok e" and "union_dp d e = (Inr (), d')"
  shows "dp_ok d' \<and> (\<exists>b c b'. dp_batch d = Some b \<and> dp_batch e = Some c \<and> dp_batch d' = Some b' \<and>
      (\<forall>k v. dict_get (td_cols b') k = Some v \<longleftrightarrow> dict_get (td_cols b) k = Some v \<or> dict_get (td_cols c) k = Some v)) \<and>
    (\<forall>k v. dict_get (dp_non d') k = Some v \<longleftrightarrow> dict_get (dp_non d) k = Some v \<or> dict_get (dp_non e) k = Some v)"
proof -
  from assms(3) obtain b c b' non' meta' where bs: "dp_batch d = Some b" "dp_batch e = Some c"
    and tb: "union_tensor_dict b c = (Inr (), b')" and nn: "union_numpy_dict (dp_non d) (dp_non e) = (Inr (), non')"
    and mm: "union_two_dict (dp_meta d) (dp_meta e) = (Inr (), meta')"
    and d': "d' = d\<lparr>dp_batch := Some b', dp_non := non', dp_meta := meta'\<rparr>"
    by (auto simp: union_dp_def Let_def split: option.splits prod.splits sum.splits)
  note ob = dp_ok_batch [OF assms(1) bs(1)] and oc = dp_ok_batch [OF assms(2) bs(2)]
    and nd = dp_ok_non [OF assms(1)] and ne = dp_ok_non [OF assms(2)]
  from tb have size: "td_size b = td_size c" "td_size b' = td_size b"
    and cols: "union_cols (=) False (td_cols b) (td_cols c) = (Inr (), td_cols b')"
    by (auto simp: union_tensor_dict_def Let_def split: if_splits prod.splits)
  note non = nn [unfolded union_numpy_dict_def]
  have tget: "dict_get (td_cols b') k = Some v \<longleftrightarrow> dict_get (td_cols b) k = Some v \<or> dict_get (td_cols c) k = Some v" for k v
    using union_cols_get [OF cols] oc by (simp add: cols_ok_def)
  have nget: "dict_get non' k = Some v \<longleftrightarrow> dict_get (dp_non d) k = Some v \<or> dict_get (dp_non e) k = Some v" for k v
    using union_cols_get [OF non] ne by (simp add: cols_ok_def)
  have "cols_ok (dp_len d) (td_cols b')" "cols_ok (dp_len d) non'"
    using ob oc nd ne size union_cols_ok [OF _ cols] union_cols_ok [OF _ non] by (auto simp: cols_ok_get tget nget)
  moreover have "dict_ok meta'"
    using union_cols_ok [OF _ mm [unfolded union_two_dict_def]] assms(1) by (simp add: dp_ok_def)
  ultimately have "dp_ok d'" using ob size by (simp add: dp_ok_def d' dp_len_def)
  then show ?thesis using bs tget nget by (simp add: d')
qed

definition example_scores :: "(nat, string) dproto" where
  "example_scores = \<lparr>dp_batch = Some \<lparr>td_size = 4, td_cols = [(''scores'', [0, 1, 1, 0])]\<rparr>, dp_non = [], dp_meta = [(''step'', PInt 3)]\<rparr>"

lemma union_exact_witness:
  "\<exists>d'. union_dp example_batch example_scores = (Inr (), d') \<and> dp_ok d' \<and> dp_len d' = 4"
proof -
  have ok: "dp_ok example_scores"
    by (simp add: dp_ok_def example_scores_def dp_len_def cols_ok_def dict_ok_def)
  let ?r = "union_dp example_batch example_scores"
  have "fst ?r = Inr ()" "dp_len (snd ?r) = 4" by code_simp+
  then have "?r = (Inr (), snd ?r)" by (metis prod.collapse)
  from union_exact [OF example_batch_ok(1) ok this] \<open>dp_len (snd ?r) = 4\<close> this show ?thesis by blast
qed

subsection \<open>Where alignment is lost\<close>

text \<open>
  Without tensors nothing compares the lengths of the arrays: when a later part lacks a key of the first one, the
  concatenation silently has columns of different lengths.
\<close>

definition part1 :: "(nat, string) dproto" where
  "part1 = \<lparr>dp_batch = None, dp_non = [(''uid'', [''a'']), (''prompt'', [''p''])], dp_meta = []\<rparr>"

definition part2 :: "(nat, string) dproto" where
  "part2 = \<lparr>dp_batch = None, dp_non = [(''uid'', [''b''])], dp_meta = []\<rparr>"

lemma concat_misaligned:
  "concat_dp [part1, part2] = Inr \<lparr>dp_batch = None, dp_non = [(''uid'', [''a'', ''b'']), (''prompt'', [''p''])], dp_meta = []\<rparr>"
  by code_simp

text \<open>Padding collects the metrics of the copies: they do not survive the way back.\<close>

definition measured_batch :: "(nat, string) dproto" where
  "measured_batch = example_batch\<lparr>dp_meta := [(''metrics'', PDict [(''loss'', PInt 1)])]\<rparr>"

lemma padding_multiplies_metrics:
  "case pad_dataproto_to_divisor measured_batch 3 of
     Inr (padded, p) \<Rightarrow> map_sum id dp_meta (unpad_dataproto padded p) = Inr [(''metrics'', PDict [(''loss'', PList [PInt 1, PInt 1])])]
   | Inl e \<Rightarrow> False"
  by code_simp

end
