(* ===== verification/Dispatch.thy ===== *)
theory Dispatch
  imports DataProtoRows
begin

text \<open>
  Calling a method on a group of workers: the dispatch and collect functions of
  \<open>verl/single_controller/base/decorator.py\<close>, the call itself of
  \<open>verl/single_controller/ray/base.py\<close>, and \<open>DataProtoFuture\<close> and \<open>BatchData\<close> of
  \<open>verl/protocol.py\<close>.  A worker's method is a function of its rank and its arguments; a remote reference is the
  value it will hold.  \<open>auto_padding\<close> is the global switch of \<open>DataProtoConfig\<close>.
\<close>

subsection \<open>Arguments\<close>

text \<open>
  What is passed to a worker group: a batch, a future of one (the parts and the chunk selected), a reference to one,
  a list, or any other value.
\<close>

datatype ('t, 'n) obj =
    Proto "('t, 'n) dproto"
  | Future "('t, 'n) dproto list" "(nat \<times> nat) option"
  | ObjRef "('t, 'n) dproto"
  | Seq "('t, 'n) obj list"
  | Value pyval

type_synonym ('t, 'n) kwargs = "(string, ('t, 'n) obj) dict"

definition future_chunk :: "('t, 'n) dproto list \<Rightarrow> nat \<Rightarrow> ('t, 'n) obj list" where
  "future_chunk futures chunks = map (\<lambda>i. Future futures (Some (i, chunks))) [0..<chunks]"

definition future_get :: "bool \<Rightarrow> ('t, 'n) dproto list \<Rightarrow> (nat \<times> nat) option \<Rightarrow> ('t, 'n) dproto result" where
  "future_get auto_padding futures dispatch_fn =
     (if futures = [] then Inl IndexError
      else rbind (concat_dp futures) (\<lambda>output. case dispatch_fn of
          None \<Rightarrow> Inr output
        | Some (i, chunks) \<Rightarrow> rbind (chunk_dp auto_padding output chunks) (\<lambda>parts. list_get parts i)))"

definition materialize :: "bool \<Rightarrow> ('t, 'n) obj \<Rightarrow> ('t, 'n) obj result" where
  "materialize auto_padding x = (case x of
     Future futures dispatch_fn \<Rightarrow> map_sum id Proto (future_get auto_padding futures dispatch_fn) | _ \<Rightarrow> Inr x)"

definition materialize_futures ::
  "bool \<Rightarrow> ('t, 'n) obj list \<Rightarrow> ('t, 'n) kwargs \<Rightarrow> (('t, 'n) obj list \<times> ('t, 'n) kwargs) result" where
  "materialize_futures auto_padding args kwargs =
     rbind (rmap (materialize auto_padding) args) (\<lambda>new_args.
     rbind (rmap (\<lambda>(k, v). rbind (materialize auto_padding v) (\<lambda>w. Inr (k, w))) kwargs) (\<lambda>new_kwargs.
       Inr (new_args, new_kwargs)))"

definition is_chunkable :: "('t, 'n) obj \<Rightarrow> bool" where
  "is_chunkable x = (case x of Proto _ \<Rightarrow> True | Future _ _ \<Rightarrow> True | _ \<Rightarrow> False)"

definition is_concatable :: "('t, 'n) obj list \<Rightarrow> bool" where
  "is_concatable xs = (case xs of Proto _ # _ \<Rightarrow> True | ObjRef _ # _ \<Rightarrow> True | _ \<Rightarrow> False)"

definition chunk_obj :: "bool \<Rightarrow> ('t, 'n) obj \<Rightarrow> nat \<Rightarrow> ('t, 'n) obj list result" where
  "chunk_obj auto_padding x chunks = (case x of
     Proto d \<Rightarrow> map_sum id (map Proto) (chunk_dp auto_padding d chunks)
   | Future futures _ \<Rightarrow> Inr (future_chunk futures chunks)
   | _ \<Rightarrow> Inl AssertionError)"

definition is_proto :: "('t, 'n) obj \<Rightarrow> bool" where
  "is_proto x = (case x of Proto _ \<Rightarrow> True | _ \<Rightarrow> False)"

definition is_ref :: "('t, 'n) obj \<Rightarrow> bool" where
  "is_ref x = (case x of ObjRef _ \<Rightarrow> True | _ \<Rightarrow> False)"

definition the_dp :: "('t, 'n) obj \<Rightarrow> ('t, 'n) dproto" where
  "the_dp x = (case x of Proto d \<Rightarrow> d | ObjRef d \<Rightarrow> d | _ \<Rightarrow> \<lparr>dp_batch = None, dp_non = [], dp_meta = []\<rparr>)"

text \<open>Batches are concatenated, references become a future; the elements must have one type.\<close>

definition concat_data_proto_or_future :: "('t, 'n) obj list \<Rightarrow> ('t, 'n) obj result" where
  "concat_data_proto_or_future output =
     (if output = [] then Inl (ValueError ''Cannot concatenate an empty list of data items.'')
      else if list_all is_proto output then map_sum id Proto (concat_dp (map the_dp output))
      else if list_all is_ref output then Inr (Future (map the_dp output) None)
      else Inl AssertionError)"

subsection \<open>Splitting the arguments\<close>

definition split_obj :: "bool \<Rightarrow> nat \<Rightarrow> ('t, 'n) obj \<Rightarrow> ('t, 'n) obj result" where
  "split_obj auto_padding chunks arg =
     guard_assert (is_chunkable arg)
       (rbind (chunk_obj auto_padding arg chunks) (\<lambda>parts. guard_assert (length parts = chunks) (Inr (Seq parts))))"

definition split_args_kwargs_data_proto ::
  "bool \<Rightarrow> nat \<Rightarrow> ('t, 'n) obj list \<Rightarrow> ('t, 'n) kwargs \<Rightarrow> (('t, 'n) obj list \<times> ('t, 'n) kwargs) result" where
  "split_args_kwargs_data_proto auto_padding chunks args kwargs =
     rbind (rmap (split_obj auto_padding chunks) args) (\<lambda>sargs.
     rbind (rmap (\<lambda>(k, v). rbind (split_obj auto_padding chunks v) (\<lambda>w. Inr (k, w))) kwargs) (\<lambda>skwargs.
       Inr (sargs, skwargs)))"

text \<open>
  With padding: the first padded batch fixes the length and the padding of the others.  A batch is padded in place,
  so the second component is the argument as the caller finds it afterwards.
\<close>

type_synonym pad_state = "(nat \<times> nat) option"

definition padding_for :: "nat \<Rightarrow> nat \<Rightarrow> nat" where
  "padding_for chunks n = (if n mod chunks > 0 then chunks - n mod chunks else 0)"

definition padding_and_split_data ::
  "bool \<Rightarrow> nat \<Rightarrow> pad_state \<Rightarrow> ('t, 'n) obj \<Rightarrow> (pad_state \<times> ('t, 'n) obj \<times> ('t, 'n) obj) result" where
  "padding_and_split_data auto_padding chunks st x = (case x of
     Proto d \<Rightarrow>
       if is_padding_enabled auto_padding d then
         (if chunks = 0 then Inl ZeroDivisionError
          else let (n, padding_size) = (case st of None \<Rightarrow> (dp_len d, padding_for chunks (dp_len d)) | Some p \<Rightarrow> p) in
            guard_assert (n = dp_len d)
              (rbind (padding d padding_size '''') (\<lambda>padded.
               rbind (chunk_obj auto_padding (Proto padded) chunks) (\<lambda>parts.
                 Inr (Some (n, padding_size), Seq parts, Proto padded)))))
       else rbind (chunk_obj auto_padding x chunks) (\<lambda>parts. Inr (st, Seq parts, x))
   | Future _ _ \<Rightarrow> rbind (chunk_obj auto_padding x chunks) (\<lambda>parts. Inr (st, Seq parts, x))
   | _ \<Rightarrow> Inl AssertionError)"

fun pad_and_split_all ::
  "bool \<Rightarrow> nat \<Rightarrow> pad_state \<Rightarrow> ('t, 'n) obj list \<Rightarrow> (pad_state \<times> ('t, 'n) obj list \<times> ('t, 'n) obj list) result" where
  "pad_and_split_all auto_padding chunks st [] = Inr (st, [], [])"
| "pad_and_split_all auto_padding chunks st (x # xs) =
     rbind (padding_and_split_data auto_padding chunks st x) (\<lambda>(st1, parts, after).
     rbind (pad_and_split_all auto_padding chunks st1 xs) (\<lambda>(st2, rest, afters).
       Inr (st2, parts # rest, after # afters)))"

definition padding_size_key :: string where
  "padding_size_key = ''_padding_size_key_x123d''"

text \<open>The result, and the positional arguments as they are left.\<close>

type_synonym ('t, 'n) dispatched = "(('t, 'n) obj list \<times> ('t, 'n) kwargs) \<times> ('t, 'n) obj list"

definition split_args_kwargs_with_auto_padding ::
  "bool \<Rightarrow> nat \<Rightarrow> ('t, 'n) obj list \<Rightarrow> ('t, 'n) kwargs \<Rightarrow> ('t, 'n) dispatched result" where
  "split_args_kwargs_with_auto_padding auto_padding chunks args kwargs =
     rbind (pad_and_split_all auto_padding chunks None args) (\<lambda>(st1, sargs, afters).
     rbind (pad_and_split_all auto_padding chunks st1 (map snd kwargs)) (\<lambda>(st2, svals, _).
       let skwargs = zip (map fst kwargs) svals in
       Inr ((sargs, case st2 of None \<Rightarrow> skwargs
                 | Some (_, p) \<Rightarrow> dict_set skwargs padding_size_key (Value (PInt (int p)))), afters)))"

subsection \<open>Dispatch modes\<close>

datatype dispatch_mode = ONE_TO_ALL | ALL_TO_ALL | DP_COMPUTE | DP_COMPUTE_PROTO | DP_COMPUTE_PROTO_WITH_FUNC
  | DP_COMPUTE_METRIC | DIRECT_ROLLOUT_METHOD

definition dispatch_one_to_all :: "nat \<Rightarrow> ('t, 'n) obj list \<Rightarrow> ('t, 'n) kwargs \<Rightarrow> ('t, 'n) obj list \<times> ('t, 'n) kwargs" where
  "dispatch_one_to_all world_size args kwargs =
     (map (\<lambda>arg. Seq (replicate world_size arg)) args, map (\<lambda>(k, v). (k, Seq (replicate world_size v))) kwargs)"

definition is_list_of :: "nat \<Rightarrow> ('t, 'n) obj \<Rightarrow> bool" where
  "is_list_of n x = (case x of Seq xs \<Rightarrow> length xs = n | _ \<Rightarrow> False)"

definition dispatch_dp_compute ::
  "nat \<Rightarrow> ('t, 'n) obj list \<Rightarrow> ('t, 'n) kwargs \<Rightarrow> (('t, 'n) obj list \<times> ('t, 'n) kwargs) result" where
  "dispatch_dp_compute world_size args kwargs =
     guard_assert (list_all (is_list_of world_size) args \<and> list_all (\<lambda>p. is_list_of world_size (snd p)) kwargs)
       (Inr (args, kwargs))"

definition is_function :: "('t, 'n) obj \<Rightarrow> bool" where
  "is_function x = (case x of Value (PObj _) \<Rightarrow> True | _ \<Rightarrow> False)"

definition dispatch_dp_compute_data_proto_with_func ::
  "bool \<Rightarrow> nat \<Rightarrow> ('t, 'n) obj list \<Rightarrow> ('t, 'n) kwargs \<Rightarrow> (('t, 'n) obj list \<times> ('t, 'n) kwargs) result" where
  "dispatch_dp_compute_data_proto_with_func auto_padding world_size args kwargs = (case args of
     [] \<Rightarrow> Inl IndexError
   | f # rest \<Rightarrow> guard_assert (is_function f)
       (rbind (split_args_kwargs_data_proto auto_padding world_size rest kwargs) (\<lambda>(sargs, skwargs).
          Inr (Seq (replicate world_size f) # sargs, skwargs))))"

definition dispatch_fn ::
  "bool \<Rightarrow> dispatch_mode \<Rightarrow> nat \<Rightarrow> ('t, 'n) obj list \<Rightarrow> ('t, 'n) kwargs \<Rightarrow> ('t, 'n) dispatched result" where
  "dispatch_fn auto_padding mode world_size args kwargs = (case mode of
     ONE_TO_ALL \<Rightarrow> Inr (dispatch_one_to_all world_size args kwargs, args)
   | ALL_TO_ALL \<Rightarrow> Inr ((args, kwargs), args)
   | DP_COMPUTE \<Rightarrow> rbind (dispatch_dp_compute world_size args kwargs) (\<lambda>r. Inr (r, args))
   | DP_COMPUTE_PROTO \<Rightarrow> split_args_kwargs_with_auto_padding auto_padding world_size args kwargs
   | DP_COMPUTE_PROTO_WITH_FUNC \<Rightarrow>
       rbind (dispatch_dp_compute_data_proto_with_func auto_padding world_size args kwargs) (\<lambda>r. Inr (r, args))
   | DP_COMPUTE_METRIC \<Rightarrow> split_args_kwargs_with_auto_padding auto_padding world_size args kwargs
   | DIRECT_ROLLOUT_METHOD \<Rightarrow> Inl (NotImplementedError ''Direct rollout call is forbidden.''))"

definition collect_dp_compute_data_proto :: "nat \<Rightarrow> ('t, 'n) obj list \<Rightarrow> ('t, 'n) obj result" where
  "collect_dp_compute_data_proto world_size output =
     guard_assert (is_concatable output) (guard_assert (length output = world_size) (concat_data_proto_or_future output))"

definition collect_fn :: "dispatch_mode \<Rightarrow> nat \<Rightarrow> ('t, 'n) obj list \<Rightarrow> ('t, 'n) obj result" where
  "collect_fn mode world_size output = (case mode of
     ONE_TO_ALL \<Rightarrow> Inr (Seq output)
   | ALL_TO_ALL \<Rightarrow> Inr (Seq output)
   | DP_COMPUTE \<Rightarrow> guard_assert (length output = world_size) (Inr (Seq output))
   | DP_COMPUTE_PROTO \<Rightarrow> collect_dp_compute_data_proto world_size output
   | DP_COMPUTE_PROTO_WITH_FUNC \<Rightarrow> collect_dp_compute_data_proto world_size output
   | DP_COMPUTE_METRIC \<Rightarrow> guard_assert (length output = world_size) (Inr (Seq output))
   | DIRECT_ROLLOUT_METHOD \<Rightarrow> Inl (NotImplementedError ''Direct rollout call is forbidden.''))"

subsection \<open>The call\<close>

text \<open>A method of the workers: rank, positional and keyword arguments.\<close>

type_synonym ('t, 'n) worker_method = "nat \<Rightarrow> ('t, 'n) obj list \<Rightarrow> ('t, 'n) kwargs \<Rightarrow> ('t, 'n) obj result"

definition nth_of :: "nat \<Rightarrow> ('t, 'n) obj \<Rightarrow> ('t, 'n) obj" where
  "nth_of i x = (case x of Seq xs \<Rightarrow> xs ! i | _ \<Rightarrow> x)"

text \<open>\<open>execute_all_async\<close>: lists of one element per worker are distributed, other arguments go to every worker.\<close>

definition execute_all ::
  "('t, 'n) worker_method \<Rightarrow> nat \<Rightarrow> ('t, 'n) obj list \<Rightarrow> ('t, 'n) kwargs \<Rightarrow> ('t, 'n) obj list result" where
  "execute_all method world_size args kwargs =
     (if list_all (is_list_of world_size) args \<and> list_all (\<lambda>p. is_list_of world_size (snd p)) kwargs
      then rmap (\<lambda>i. method i (map (nth_of i) args) (map (\<lambda>p. (fst p, nth_of i (snd p))) kwargs)) [0..<world_size]
      else rmap (\<lambda>i. method i args kwargs) [0..<world_size])"

definition as_ref :: "bool \<Rightarrow> ('t, 'n) obj \<Rightarrow> ('t, 'n) obj" where
  "as_ref blocking x = (if blocking then x else case x of Proto d \<Rightarrow> ObjRef d | _ \<Rightarrow> x)"

definition drop_padding :: "nat \<Rightarrow> ('t, 'n) obj \<Rightarrow> ('t, 'n) obj result" where
  "drop_padding padding_count output =
     (if padding_count = 0 then Inr output
      else case output of
        Proto d \<Rightarrow> map_sum id Proto (select_idxs d (Positions (map int (take (dp_len d - padding_count) [0..<dp_len d]))))
      | Seq xs \<Rightarrow> Inr (Seq (take (length xs - padding_count) xs))
      | _ \<Rightarrow> Inr output)"

definition padding_count_of :: "('t, 'n) kwargs \<Rightarrow> nat" where
  "padding_count_of kwargs = (case dict_get kwargs padding_size_key of Some (Value (PInt p)) \<Rightarrow> nat p | _ \<Rightarrow> 0)"

text \<open>The output of the call, and the positional arguments as the caller finds them.\<close>

definition call_worker_group ::
  "bool \<Rightarrow> dispatch_mode \<Rightarrow> bool \<Rightarrow> ('t, 'n) worker_method \<Rightarrow> nat \<Rightarrow> ('t, 'n) obj list \<Rightarrow> ('t, 'n) kwargs \<Rightarrow>
   (('t, 'n) obj \<times> ('t, 'n) obj list) result" where
  "call_worker_group auto_padding mode blocking method world_size args kwargs =
     rbind (dispatch_fn auto_padding mode world_size args kwargs) (\<lambda>((sargs, skwargs), afters).
     rbind (execute_all method world_size sargs (dict_pop skwargs padding_size_key)) (\<lambda>outputs.
     rbind (collect_fn mode world_size (map (as_ref blocking) outputs)) (\<lambda>output.
     rbind (drop_padding (padding_count_of skwargs) output) (\<lambda>result. Inr (result, afters)))))"

subsection \<open>Device meshes\<close>

record worker_group =
  wg_world_size :: nat
  wg_dispatch_info :: "(string, nat list) dict"
  wg_collect_info :: "(string, bool list) dict"

definition dispatch_nd_arg :: "nat list \<Rightarrow> nat \<Rightarrow> nat \<Rightarrow> ('t, 'n) obj \<Rightarrow> ('t, 'n) obj result" where
  "dispatch_nd_arg dp_rank_mapping dp_size world_size arg = (case arg of
     Seq parts \<Rightarrow> guard_assert (length parts = dp_size)
       (map_sum id Seq (rmap (\<lambda>i. rbind (list_get dp_rank_mapping i) (list_get parts)) [0..<world_size]))
   | _ \<Rightarrow> Inl AssertionError)"

text \<open>The pool that stores the arguments is sized by the first positional one.\<close>

definition dispatch_nd_compute ::
  "nat list \<Rightarrow> nat \<Rightarrow> nat \<Rightarrow> ('t, 'n) obj list \<Rightarrow> ('t, 'n) kwargs \<Rightarrow> (('t, 'n) obj list \<times> ('t, 'n) kwargs) result" where
  "dispatch_nd_compute dp_rank_mapping dp_size world_size args kwargs =
     (if args = [] then Inl IndexError
      else rbind (rmap (dispatch_nd_arg dp_rank_mapping dp_size world_size) args) (\<lambda>all_args.
           rbind (rmap (\<lambda>(k, v). rbind (dispatch_nd_arg dp_rank_mapping dp_size world_size v) (\<lambda>w. Inr (k, w))) kwargs) (\<lambda>all_kwargs.
             Inr (all_args, all_kwargs))))"

definition collect_nd_compute :: "bool list \<Rightarrow> nat \<Rightarrow> ('t, 'n) obj list \<Rightarrow> ('t, 'n) obj list result" where
  "collect_nd_compute collect_mask world_size output =
     guard_assert (length output = world_size)
       (rbind (rmap (list_get collect_mask) [0..<world_size]) (\<lambda>mask.
          Inr (map snd (filter fst (zip mask output)))))"

definition dispatch_nd_compute_dataproto ::
  "bool \<Rightarrow> nat list \<Rightarrow> nat \<Rightarrow> nat \<Rightarrow> ('t, 'n) obj list \<Rightarrow> ('t, 'n) kwargs \<Rightarrow> (('t, 'n) obj list \<times> ('t, 'n) kwargs) result" where
  "dispatch_nd_compute_dataproto auto_padding dp_rank_mapping dp_size world_size args kwargs =
     rbind (split_args_kwargs_data_proto auto_padding dp_size args kwargs) (\<lambda>(sargs, skwargs).
       dispatch_nd_compute dp_rank_mapping dp_size world_size sargs skwargs)"

definition collect_nd_compute_dataproto :: "bool list \<Rightarrow> nat \<Rightarrow> ('t, 'n) obj list \<Rightarrow> ('t, 'n) obj result" where
  "collect_nd_compute_dataproto collect_mask world_size output =
     rbind (collect_nd_compute collect_mask world_size output) (\<lambda>parts.
       guard_assert (is_concatable parts) (concat_data_proto_or_future parts))"

text \<open>What the workers answer about the mesh is asked once and kept.\<close>

definition dispatch_lazy ::
  "(string \<Rightarrow> nat list) \<Rightarrow> bool \<Rightarrow> string \<Rightarrow> worker_group \<Rightarrow> ('t, 'n) obj list \<Rightarrow> ('t, 'n) kwargs \<Rightarrow>
   (('t, 'n) obj list \<times> ('t, 'n) kwargs) result \<times> worker_group" where
  "dispatch_lazy query auto_padding mesh_name wg args kwargs =
     (let wg1 = (if dict_has (wg_dispatch_info wg) mesh_name then wg
            else wg\<lparr>wg_dispatch_info := dict_set (wg_dispatch_info wg) mesh_name (query mesh_name)\<rparr>);
          mapping = dict_get_default (wg_dispatch_info wg1) mesh_name []
      in if \<not> dict_has (wg_dispatch_info wg) mesh_name \<and> length mapping \<noteq> wg_world_size wg then (Inl AssertionError, wg1)
         else if mapping = [] then (Inl (ValueError ''max() iterable argument is empty''), wg1)
         else (dispatch_nd_compute_dataproto auto_padding mapping (Max (set mapping) + 1) (wg_world_size wg) args kwargs, wg1))"

definition collect_lazy ::
  "(string \<Rightarrow> bool list) \<Rightarrow> string \<Rightarrow> worker_group \<Rightarrow> ('t, 'n) obj list \<Rightarrow> ('t, 'n) obj result \<times> worker_group" where
  "collect_lazy query mesh_name wg output =
     (if \<not> dict_has (wg_dispatch_info wg) mesh_name then (Inl AssertionError, wg)
      else let wg1 = (if dict_has (wg_collect_info wg) mesh_name then wg
             else wg\<lparr>wg_collect_info := dict_set (wg_collect_info wg) mesh_name (query mesh_name)\<rparr>);
           mask = dict_get_default (wg_collect_info wg1) mesh_name []
       in if \<not> dict_has (wg_collect_info wg) mesh_name \<and> length mask \<noteq> wg_world_size wg then (Inl AssertionError, wg1)
          else (collect_nd_compute_dataproto mask (wg_world_size wg) output, wg1))"

definition call_on_mesh ::
  "(string \<Rightarrow> nat list) \<Rightarrow> (string \<Rightarrow> bool list) \<Rightarrow> bool \<Rightarrow> string \<Rightarrow> ('t, 'n) worker_method \<Rightarrow> worker_group \<Rightarrow>
   ('t, 'n) obj list \<Rightarrow> ('t, 'n) kwargs \<Rightarrow> ('t, 'n) obj result \<times> worker_group" where
  "call_on_mesh query_dispatch query_collect auto_padding mesh_name method wg args kwargs =
     (case dispatch_lazy query_dispatch auto_padding mesh_name wg args kwargs of
        (Inl e, wg1) \<Rightarrow> (Inl e, wg1)
      | (Inr (sargs, skwargs), wg1) \<Rightarrow> (case execute_all method (wg_world_size wg) sargs skwargs of
          Inl e \<Rightarrow> (Inl e, wg1)
        | Inr outputs \<Rightarrow> collect_lazy query_collect mesh_name wg1 outputs))"

subsection \<open>Row-wise methods\<close>

text \<open>A method that treats every row on its own: it commutes with the selection of rows.\<close>

definition row_wise :: "(('t, 'n) dproto \<Rightarrow> ('u, 'm) dproto) \<Rightarrow> ('t, 'n) dproto \<Rightarrow> bool" where
  "row_wise f d \<longleftrightarrow> dp_ok (f d) \<and> dp_len (f d) = dp_len d \<and> plain_meta (dp_meta (f d)) \<and>
     (\<forall>js. set js \<subseteq> {..<dp_len d} \<longrightarrow> f (take_rows js d) = take_rows js (f d))"

definition padded_rows :: "nat \<Rightarrow> nat \<Rightarrow> nat list" where
  "padded_rows n p = [0..<n] @ replicate p (n - 1)"

lemma padded_rows_bound: "0 < n \<Longrightarrow> set (padded_rows n p) \<subseteq> {..<n}"
  by (auto simp: padded_rows_def)

lemma length_padded_rows [simp]: "length (padded_rows n p) = n + p"
  by (simp add: padded_rows_def)

lemma padding_padded_rows:
  assumes "dp_ok d" and "plain_meta (dp_meta d)" and "0 < dp_len d"
  shows "padding d p '''' = Inr (take_rows (padded_rows (dp_len d) p) d)"
proof (cases "p = 0")
  case True
  then show ?thesis using assms(1) by (simp add: padding_def padded_rows_def take_rows_all)
next
  case False
  then show ?thesis using padding_rows [OF assms, of p "''''"] by (simp add: padded_rows_def)
qed

lemma padding_for_dvd:
  assumes "0 < ws" shows "ws dvd n + padding_for ws n" and "padding_for ws n < ws"
proof -
  show "padding_for ws n < ws" using assms by (simp add: padding_for_def)
  show "ws dvd n + padding_for ws n"
  proof (cases "n mod ws = 0")
    case False
    have "n + (ws - n mod ws) = (n div ws + 1) * ws"
    proof -
      have "n = (n div ws) * ws + n mod ws" "n mod ws < ws" "(n div ws + 1) * ws = (n div ws) * ws + ws" using assms by simp_all
      then show ?thesis by arith
    qed
    then show ?thesis using False by (simp add: padding_for_def)
  qed (simp add: padding_for_def mod_eq_0_iff_dvd)
qed

text \<open>The chunk of worker \<open>i\<close> as row numbers of the batch that was passed.\<close>

definition worker_rows :: "nat \<Rightarrow> nat \<Rightarrow> nat \<Rightarrow> nat list" where
  "worker_rows n ws i = map ((!) (padded_rows n (padding_for ws n))) (chunk_rows (n + padding_for ws n) ws i)"

lemma chunk_rows_bound: "i < k \<Longrightarrow> k dvd n \<Longrightarrow> set (chunk_rows n k i) \<subseteq> {..<n}"
  using chunk_bound [of i k n] by (auto simp: chunk_rows_def)

lemma worker_rows_bound:
  assumes "0 < n" and "i < ws" shows "set (worker_rows n ws i) \<subseteq> {..<n}"
proof -
  let ?p = "padding_for ws n"
  have "set (chunk_rows (n + ?p) ws i) \<subseteq> {..<n + ?p}"
    using assms(2) padding_for_dvd(1) [of ws n] by (intro chunk_rows_bound) auto
  then have "set (worker_rows n ws i) \<subseteq> set (padded_rows n ?p)"
    by (auto simp: worker_rows_def subset_iff intro!: nth_mem)
  then show ?thesis using padded_rows_bound [OF assms(1), of ?p] by blast
qed

lemma concat_worker_rows:
  assumes "0 < ws" shows "concat (map (worker_rows n ws) [0..<ws]) = padded_rows n (padding_for ws n)"
proof -
  let ?R = "padded_rows n (padding_for ws n)"
  have "concat (map (worker_rows n ws) [0..<ws]) = map ((!) ?R) (concat (map (chunk_rows (n + padding_for ws n) ws) [0..<ws]))"
    by (simp add: worker_rows_def [abs_def] map_concat comp_def)
  also have "\<dots> = map ((!) ?R) [0..<length ?R]"
    by (simp add: concat_chunk_rows [OF assms padding_for_dvd(1) [OF assms]])
  finally show ?thesis by (simp only: map_nth)
qed

lemma dispatch_padded:
  assumes ok: "dp_ok d" "plain_meta (dp_meta d)" "0 < dp_len d" and ws: "0 < ws" and pad: "is_padding_enabled ap d"
  shows "split_args_kwargs_with_auto_padding ap ws [Proto d] [] =
    Inr (([Seq (map (\<lambda>i. Proto (take_rows (worker_rows (dp_len d) ws i) d)) [0..<ws])],
          [(padding_size_key, Value (PInt (int (padding_for ws (dp_len d)))))]),
         [Proto (take_rows (padded_rows (dp_len d) (padding_for ws (dp_len d))) d)])"
proof -
  let ?n = "dp_len d" and ?p = "padding_for ws (dp_len d)"
  let ?P = "take_rows (padded_rows ?n ?p) d"
  note sub = padded_rows_bound [OF ok(3), of ?p]
  have len: "dp_len ?P = ?n + ?p" using dp_len_take [OF ok(1) sub] by simp
  have "chunk_dp ap ?P ws = Inr (map (\<lambda>i. take_rows (chunk_rows (?n + ?p) ws i) ?P) [0..<ws])"
    using chunk_dp_rows [OF dp_ok_take [OF ok(1) sub] ws, of ap] padding_for_dvd(1) [OF ws, of ?n] len by simp
  also have "map (\<lambda>i. take_rows (chunk_rows (?n + ?p) ws i) ?P) [0..<ws] = map (\<lambda>i. take_rows (worker_rows ?n ws i) d) [0..<ws]"
  proof (rule map_cong [OF refl])
    fix i assume "i \<in> set [0..<ws]"
    then have "set (chunk_rows (?n + ?p) ws i) \<subseteq> {..<length (padded_rows ?n ?p)}"
      using chunk_rows_bound [of i ws "?n + ?p"] padding_for_dvd(1) [OF ws, of ?n] by simp
    then show "take_rows (chunk_rows (?n + ?p) ws i) ?P = take_rows (worker_rows ?n ws i) d"
      by (simp add: take_rows_take worker_rows_def)
  qed
  finally have chunks: "chunk_dp ap ?P ws = Inr (map (\<lambda>i. take_rows (worker_rows ?n ws i) d) [0..<ws])" .
  show ?thesis
    using ws pad
    by (simp add: split_args_kwargs_with_auto_padding_def padding_and_split_data_def padding_padded_rows [OF ok] chunk_obj_def
        chunks comp_def Let_def)
qed

lemma execute_shards:
  assumes "\<And>i. i < ws \<Longrightarrow> method i [x i] [] = Inr (y i)"
  shows "execute_all method ws [Seq (map x [0..<ws])] [] = Inr (map y [0..<ws])"
  unfolding execute_all_def by (simp add: is_list_of_def nth_of_def, rule rmap_total) (use assms in simp)

text \<open>
  C20. Data-parallel execution is transparent.  When a row-wise method is called on a worker group with padding
  enabled, the result is what one worker returns on the whole batch, for every batch size and every number of
  workers: padding, splitting, concatenation and removal of the padding cancel out.  The batch of the caller,
  however, is left padded.
\<close>

theorem data_parallel_transparent:
  assumes "dp_ok d" and "plain_meta (dp_meta d)" and "0 < dp_len d" and "0 < ws" and "is_padding_enabled ap d"
    and "row_wise f d" and "\<And>i x. method i [Proto x] [] = Inr (Proto (f x))"
  shows "call_worker_group ap DP_COMPUTE_PROTO True method ws [Proto d] [] =
    Inr (Proto (f d), [Proto (take_rows (padded_rows (dp_len d) (padding_for ws (dp_len d))) d)])"
proof -
  let ?n = "dp_len d" and ?p = "padding_for ws (dp_len d)"
  have f: "dp_ok (f d)" "dp_len (f d) = ?n" "plain_meta (dp_meta (f d))"
    "\<And>js. set js \<subseteq> {..<?n} \<Longrightarrow> f (take_rows js d) = take_rows js (f d)"
    using assms(6) by (auto simp: row_wise_def)
  let ?E = "take_rows (padded_rows ?n ?p) (f d)"
  have sub: "set (padded_rows ?n ?p) \<subseteq> {..<dp_len (f d)}" using padded_rows_bound [OF assms(3)] f(2) by simp
  have outs: "execute_all method ws [Seq (map (\<lambda>i. Proto (take_rows (worker_rows ?n ws i) d)) [0..<ws])] [] =
      Inr (map (\<lambda>i. Proto (take_rows (worker_rows ?n ws i) (f d))) [0..<ws])"
    by (rule execute_shards) (simp add: assms(7) f(4) worker_rows_bound [OF assms(3)])
  have "concat_dp (map (\<lambda>js. take_rows js (f d)) (map (worker_rows ?n ws) [0..<ws])) = Inr ?E"
    using concat_dp_rows [OF f(1,3), of "map (worker_rows ?n ws) [0..<ws]"] assms(4) by (simp add: concat_worker_rows)
  then have coll: "collect_fn DP_COMPUTE_PROTO ws (map (as_ref True) (map (\<lambda>i. Proto (take_rows (worker_rows ?n ws i) (f d))) [0..<ws])) = Inr (Proto ?E)"
    using assms(4) by (simp add: collect_fn_def collect_dp_compute_data_proto_def concat_data_proto_or_future_def as_ref_def
        is_concatable_def is_proto_def the_dp_def list_all_iff comp_def upt_conv_Cons)
  have drop: "drop_padding ?p (Proto ?E) = Inr (Proto (f d))"
  proof (cases "?p = 0")
    case True
    then show ?thesis using take_rows_all [OF f(1)] f(2) by (simp add: drop_padding_def padded_rows_def)
  next
    case False
    have len: "dp_len ?E = ?n + ?p" using dp_len_take [OF f(1) sub] by simp
    have "select_idxs ?E (Positions (map int [0..<?n])) = Inr (take_rows [0..<?n] ?E)"
      by (rule select_idxs_rows [OF dp_ok_take [OF f(1) sub]]) (auto simp: len)
    also have "take_rows [0..<?n] ?E = take_rows (map ((!) (padded_rows ?n ?p)) [0..<?n]) (f d)"
      by (rule take_rows_take) auto
    also have "map ((!) (padded_rows ?n ?p)) [0..<?n] = [0..<?n]"
      by (intro map_idI) (auto simp: padded_rows_def nth_append)
    finally show ?thesis using take_rows_all [OF f(1)] f(2) False len by (simp add: drop_padding_def)
  qed
  have key: "padding_count_of [(padding_size_key, Value (PInt (int ?p)))] = ?p"
    "dict_pop [(padding_size_key, Value (PInt (int ?p)) :: ('a, 'b) obj)] padding_size_key = []"
    by (simp_all add: padding_count_of_def dict_pop_def)
  show ?thesis
    by (simp add: call_worker_group_def dispatch_fn_def dispatch_padded [OF assms(1-5)] key outs coll [simplified] drop)
qed

definition next_scores :: "(nat, string) dproto \<Rightarrow> (nat, string) dproto" where
  "next_scores d = d\<lparr>dp_batch := map_option (\<lambda>b. b\<lparr>td_cols := map_cols (map (\<lambda>x. x + 1)) (td_cols b)\<rparr>) (dp_batch d)\<rparr>"

lemma take_cols_map:
  assumes "cols_ok n cols" and "set js \<subseteq> {..<n}"
  shows "map_cols (map g) (take_cols js cols) = take_cols js (map_cols (map g) cols)"
proof -
  have "map g (map ((!) c) js) = map ((!) (map g c)) js" if "length c = n" for c
    using assms(2) that by (auto simp: subset_iff)
  then show ?thesis using assms(1) by (auto simp: take_cols_def map_cols_def cols_ok_def)
qed

lemma next_scores_row_wise: "row_wise next_scores example_batch"
proof -
  have "next_scores (take_rows js example_batch) = take_rows js (next_scores example_batch)" if "set js \<subseteq> {..<4}" for js
    using take_cols_map [of 4 "[(''responses'', [10, 11, 12, 13 :: nat])]" js Suc] that
    by (simp add: next_scores_def example_batch_def take_rows_def cols_ok_def dict_ok_def)
  moreover have "dp_ok (next_scores example_batch)" "dp_len (next_scores example_batch) = 4"
    "plain_meta (dp_meta (next_scores example_batch))"
    by (simp_all add: next_scores_def example_batch_def dp_ok_def dp_len_def cols_ok_def dict_ok_def plain_meta_def dict_has_def map_cols_def)
  ultimately show ?thesis by (simp add: row_wise_def example_batch_ok(3))
qed

definition score_method :: "(nat, string) worker_method" where
  "score_method i args kwargs = (case args of [Proto x] \<Rightarrow> Inr (Proto (next_scores x)) | _ \<Rightarrow> Inl AssertionError)"

lemma data_parallel_transparent_witness:
  "\<exists>padded. call_worker_group True DP_COMPUTE_PROTO True score_method 3 [Proto example_batch] [] =
     Inr (Proto (next_scores example_batch), [Proto padded]) \<and> dp_len padded = 6"
proof -
  have "call_worker_group True DP_COMPUTE_PROTO True score_method 3 [Proto example_batch] [] =
      Inr (Proto (next_scores example_batch),
        [Proto (take_rows (padded_rows (dp_len example_batch) (padding_for 3 (dp_len example_batch))) example_batch)])"
    by (rule data_parallel_transparent [OF example_batch_ok(1,2) _ _ _ next_scores_row_wise])
      (simp_all add: example_batch_ok(3) is_padding_enabled_def score_method_def)
  moreover have "dp_len (take_rows (padded_rows (dp_len example_batch) (padding_for 3 (dp_len example_batch))) example_batch) = 6"
    by code_simp
  ultimately show ?thesis by blast
qed

text \<open>
  C26. Metrics of a padded call get lost: the call cuts as many entries from the list of the workers' answers as there
  are padding rows, so of the answers of \<open>ws\<close> workers only the first \<open>n mod ws\<close> are returned, although every
  worker whose chunk begins below \<open>n\<close> worked on rows of the batch.
\<close>

theorem metric_call_drops_workers:
  assumes "dp_ok d" and "plain_meta (dp_meta d)" and "0 < ws" and "is_padding_enabled ap d" and "dp_len d mod ws \<noteq> 0"
    and "\<And>i x. method i [Proto x] [] = Inr (Value (g i x))"
  shows "\<exists>answers after. call_worker_group ap DP_COMPUTE_METRIC True method ws [Proto d] [] =
      Inr (Seq (take (dp_len d mod ws) (map Value answers)), after) \<and>
    answers = map (\<lambda>i. g i (take_rows (worker_rows (dp_len d) ws i) d)) [0..<ws]"
proof -
  let ?n = "dp_len d" and ?p = "padding_for ws (dp_len d)"
  let ?ans = "map (\<lambda>i. g i (take_rows (worker_rows ?n ws i) d)) [0..<ws]"
  have n: "0 < ?n" using assms(5) by (cases "?n = 0") auto
  have outs: "execute_all method ws [Seq (map (\<lambda>i. Proto (take_rows (worker_rows ?n ws i) d)) [0..<ws])] [] =
      Inr (map (\<lambda>i. Value (g i (take_rows (worker_rows ?n ws i) d))) [0..<ws])"
    by (rule execute_shards) (simp add: assms(6))
  have p: "?p \<noteq> 0" "ws - ?p = ?n mod ws" using assms(3,5) mod_less_divisor [OF assms(3), of ?n] by (auto simp: padding_for_def)
  have key: "padding_count_of [(padding_size_key, Value (PInt (int ?p)))] = ?p"
    "dict_pop [(padding_size_key, Value (PInt (int ?p)) :: ('a, 'b) obj)] padding_size_key = []"
    by (simp_all add: padding_count_of_def dict_pop_def)
  have "call_worker_group ap DP_COMPUTE_METRIC True method ws [Proto d] [] =
      Inr (Seq (take (?n mod ws) (map Value ?ans)), [Proto (take_rows (padded_rows ?n ?p) d)])"
    using p by (simp add: call_worker_group_def dispatch_fn_def dispatch_padded [OF assms(1,2) n assms(3,4)] key outs collect_fn_def
        drop_padding_def as_ref_def comp_def)
  then show ?thesis by blast
qed

definition count_method :: "(nat, string) worker_method" where
  "count_method i args kwargs = (case args of [Proto x] \<Rightarrow> Inr (Value (PInt (int (dp_len x)))) | _ \<Rightarrow> Inl AssertionError)"

lemma metric_call_drops_workers_witness:
  "\<exists>after. call_worker_group True DP_COMPUTE_METRIC True count_method 3 [Proto example_batch] [] = Inr (Seq [Value (PInt 2)], after)"
proof -
  obtain answers after where r: "call_worker_group True DP_COMPUTE_METRIC True count_method 3 [Proto example_batch] [] =
      Inr (Seq (take (dp_len example_batch mod 3) (map Value answers)), after)"
    "answers = map (\<lambda>i. PInt (int (dp_len (take_rows (worker_rows (dp_len example_batch) 3 i) example_batch)))) [0..<3]"
    using metric_call_drops_workers [OF example_batch_ok(1,2), of 3 True count_method "\<lambda>i x. PInt (int (dp_len x))"]
    by (auto simp: example_batch_ok(3) is_padding_enabled_def count_method_def)
  have "take (dp_len example_batch mod 3)
      (map Value (map (\<lambda>i. PInt (int (dp_len (take_rows (worker_rows (dp_len example_batch) 3 i) example_batch)))) [0..<3])) =
      [Value (PInt 2) :: (nat, string) obj]" by code_simp
  with r show ?thesis by metis
qed

subsection \<open>Calls on a device mesh\<close>

lemma filter_zip_map: "map snd (filter fst (zip cmask (map h xs))) = map h (map snd (filter fst (zip cmask xs)))"
  by (induction cmask xs rule: list_induct2') auto

lemma mesh_dispatch:
  assumes "dp_ok d" and "length mapping = ws" and "Suc (Max (set mapping)) dvd dp_len d"
  shows "dispatch_nd_compute_dataproto ap mapping (Suc (Max (set mapping))) ws [Proto d] [] =
    Inr ([Seq (map (\<lambda>i. Proto (take_rows (chunk_rows (dp_len d) (Suc (Max (set mapping))) (mapping ! i)) d)) [0..<ws])], [])"
proof -
  let ?dp = "Suc (Max (set mapping))"
  let ?part = "\<lambda>r. take_rows (chunk_rows (dp_len d) ?dp r) d"
  have split: "split_args_kwargs_data_proto ap ?dp [Proto d] [] = Inr ([Seq (map (\<lambda>r. Proto (?part r)) [0..<?dp])], [])"
    using chunk_dp_rows [OF assms(1) _ assms(3), of ap]
    by (simp add: split_args_kwargs_data_proto_def split_obj_def is_chunkable_def chunk_obj_def comp_def)
  have "rmap (\<lambda>i. rbind (list_get mapping i) (list_get (map (\<lambda>r. Proto (?part r)) [0..<?dp]))) [0..<ws] =
      Inr (map (\<lambda>i. Proto (?part (mapping ! i))) [0..<ws])"
    by (rule rmap_total) (use assms(2) in \<open>simp add: le_imp_less_Suc del: upt_Suc\<close>)
  then show ?thesis
    by (simp add: dispatch_nd_compute_dataproto_def split dispatch_nd_compute_def dispatch_nd_arg_def del: upt_Suc)
qed

lemma mesh_collect:
  assumes "dp_ok e" and "plain_meta (dp_meta e)" and "length mapping = ws" and "length cmask = ws"
    and "map snd (filter fst (zip cmask mapping)) = [0..<Suc (Max (set mapping))]" and "Suc (Max (set mapping)) dvd dp_len e"
  shows "collect_nd_compute_dataproto cmask ws
    (map (\<lambda>i. Proto (take_rows (chunk_rows (dp_len e) (Suc (Max (set mapping))) (mapping ! i)) e)) [0..<ws]) = Inr (Proto e)"
proof -
  let ?dp = "Suc (Max (set mapping))"
  let ?out = "\<lambda>r. Proto (take_rows (chunk_rows (dp_len e) ?dp r) e)"
  have m: "rmap (list_get cmask) [0..<ws] = Inr cmask"
    using rmap_list_get [of "[0..<ws]" cmask] assms(4) map_nth [of cmask] by (simp add: atLeast0LessThan)
  have "map (\<lambda>i. ?out (mapping ! i)) [0..<ws] = map ?out mapping" by (rule nth_equalityI) (simp_all add: assms(3))
  then have picked: "collect_nd_compute cmask ws (map (\<lambda>i. ?out (mapping ! i)) [0..<ws]) = Inr (map ?out [0..<?dp])"
    by (simp only: collect_nd_compute_def m rbind_simps filter_zip_map assms(3,5) length_map guard_assert_simps simp_thms)
  have "concat_dp (map (\<lambda>js. take_rows js e) (map (chunk_rows (dp_len e) ?dp) [0..<?dp])) = Inr e"
    using concat_dp_rows [OF assms(1,2), of "map (chunk_rows (dp_len e) ?dp) [0..<?dp]"] take_rows_all [OF assms(1)]
      concat_chunk_rows [OF _ assms(6)] by (simp del: upt_Suc)
  then show ?thesis
    by (simp add: collect_nd_compute_dataproto_def picked concat_data_proto_or_future_def is_concatable_def is_proto_def the_dp_def
        list_all_iff comp_def upt_conv_Cons del: upt_Suc)
qed

text \<open>
  On a device mesh every rank receives the chunk of its data-parallel rank and only the masked ranks' outputs are
  collected.  When the masked ranks cover the data-parallel ranks in order, a row-wise method gives its result on
  the whole batch, whatever tensor- or pipeline-parallel copies compute beside; the answers of the workers about
  the mesh are kept for later calls.
\<close>

theorem mesh_call_transparent:
  assumes "dp_ok d" and "plain_meta (dp_meta d)" and "row_wise f d"
    and "\<And>i x. method i [Proto x] [] = Inr (Proto (f x))"
    and "dict_get (wg_dispatch_info wg) mesh \<in> {None, Some mapping}" and "query_dispatch mesh = mapping"
    and "dict_get (wg_collect_info wg) mesh \<in> {None, Some cmask}" and "query_collect mesh = cmask"
    and "length mapping = wg_world_size wg" and "length cmask = wg_world_size wg"
    and "map snd (filter fst (zip cmask mapping)) = [0..<Suc (Max (set mapping))]"
    and "Suc (Max (set mapping)) dvd dp_len d" and "mapping \<noteq> []"
  shows "\<exists>wg'. call_on_mesh query_dispatch query_collect ap mesh method wg [Proto d] [] = (Inr (Proto (f d)), wg') \<and>
    dict_get (wg_dispatch_info wg') mesh = Some mapping \<and> dict_get (wg_collect_info wg') mesh = Some cmask"
proof -
  let ?dp = "Suc (Max (set mapping))" and ?ws = "wg_world_size wg" and ?n = "dp_len d"
  have f: "dp_ok (f d)" "dp_len (f d) = ?n" "plain_meta (dp_meta (f d))"
    "\<And>js. set js \<subseteq> {..<?n} \<Longrightarrow> f (take_rows js d) = take_rows js (f d)"
    using assms(3) by (auto simp: row_wise_def)
  have rank: "mapping ! i < ?dp" if "i < ?ws" for i using that assms(9) by (simp add: le_imp_less_Suc)
  note nd = mesh_dispatch [OF assms(1,9,12), of ap]
  have outs: "execute_all method ?ws [Seq (map (\<lambda>i. Proto (take_rows (chunk_rows ?n ?dp (mapping ! i)) d)) [0..<?ws])] [] =
      Inr (map (\<lambda>i. Proto (take_rows (chunk_rows ?n ?dp (mapping ! i)) (f d))) [0..<?ws])"
    by (rule execute_shards) (simp add: assms(4) f(4) chunk_rows_bound [OF rank assms(12)])
  note coll = mesh_collect [OF f(1,3) assms(9-11), unfolded f(2), OF assms(12)]
  define wg1 where "wg1 = wg\<lparr>wg_dispatch_info := (if dict_has (wg_dispatch_info wg) mesh then wg_dispatch_info wg
      else dict_set (wg_dispatch_info wg) mesh mapping)\<rparr>"
  have d1: "dispatch_lazy query_dispatch ap mesh wg [Proto d] [] =
      (Inr ([Seq (map (\<lambda>i. Proto (take_rows (chunk_rows ?n ?dp (mapping ! i)) d)) [0..<?ws])], []), wg1)"
    "dict_get (wg_dispatch_info wg1) mesh = Some mapping" "wg_world_size wg1 = ?ws" "wg_collect_info wg1 = wg_collect_info wg"
    using assms(5,6,9,13) nd by (auto simp: dispatch_lazy_def wg1_def Let_def dict_has_def dict_get_default_def)
  show ?thesis
    using assms(7,8,10) coll d1
    by (auto simp: call_on_mesh_def outs collect_lazy_def Let_def dict_has_def dict_get_default_def)
qed

definition fresh_group :: worker_group where
  "fresh_group = \<lparr>wg_world_size = 4, wg_dispatch_info = [], wg_collect_info = []\<rparr>"

text \<open>Two data-parallel ranks, each with two tensor-parallel copies of which the first is collected.\<close>

lemma mesh_call_transparent_witness:
  "\<exists>wg'. call_on_mesh (\<lambda>_. [0, 0, 1, 1]) (\<lambda>_. [True, False, True, False]) False ''actor'' score_method fresh_group [Proto example_batch] [] =
     (Inr (Proto (next_scores example_batch)), wg') \<and> dict_get (wg_dispatch_info wg') ''actor'' = Some [0, 0, 1, 1]"
proof -
  have "\<exists>wg'. call_on_mesh (\<lambda>_. [0, 0, 1, 1]) (\<lambda>_. [True, False, True, False]) False ''actor'' score_method fresh_group [Proto example_batch] [] =
     (Inr (Proto (next_scores example_batch)), wg') \<and> dict_get (wg_dispatch_info wg') ''actor'' = Some [0, 0, 1, 1] \<and>
     dict_get (wg_collect_info wg') ''actor'' = Some [True, False, True, False]"
    by (rule mesh_call_transparent [OF example_batch_ok(1,2) next_scores_row_wise])
      (simp_all add: fresh_group_def score_method_def example_batch_ok(3) upt_conv_Cons flip: numeral_2_eq_2)
  then show ?thesis by blast
qed

subsection \<open>Futures\<close>

text \<open>
  A future of the parts of a call stands for their concatenation: chunk \<open>i\<close> of it resolves to chunk \<open>i\<close> of the
  whole batch, so data can go from one worker group to the next without passing through the caller.
\<close>

theorem future_chunk_resolves:
  assumes "dp_ok d" and "plain_meta (dp_meta d)" and "0 < m" and "m dvd dp_len d" and "0 < k" and "k dvd dp_len d" and "i < k"
  shows "\<exists>parts. chunk_dp ap d m = Inr parts \<and>
    materialize ap (future_chunk parts k ! i) = Inr (Proto (take_rows (chunk_rows (dp_len d) k i) d))"
proof -
  let ?parts = "map (\<lambda>js. take_rows js d) (map (chunk_rows (dp_len d) m) [0..<m])"
  have parts: "chunk_dp ap d m = Inr ?parts" using chunk_dp_rows [OF assms(1,3,4)] by (simp add: comp_def)
  have "concat_dp ?parts = Inr d"
    using concat_dp_rows [OF assms(1,2), of "map (chunk_rows (dp_len d) m) [0..<m]"] assms(3)
    by (simp add: concat_chunk_rows [OF assms(3,4)] take_rows_all [OF assms(1)])
  then have "future_get ap ?parts (Some (i, k)) = Inr (take_rows (chunk_rows (dp_len d) k i) d)"
    using chunk_dp_rows [OF assms(1,5,6), of ap] assms(3,7) by (simp add: future_get_def)
  then show ?thesis using parts assms(7) by (simp add: materialize_def future_chunk_def del: map_map)
qed

lemma future_chunk_resolves_witness:
  "\<exists>parts. chunk_dp False example_batch 4 = Inr parts \<and>
     materialize False (future_chunk parts 2 ! 1) = Inr (Proto (take_rows [2, 3] example_batch))"
  using future_chunk_resolves [OF example_batch_ok(1,2), of 4 2 1 False]
  by (simp add: example_batch_ok(3) chunk_rows_def upt_conv_Cons)

text \<open>A chunk of a chunk forgets the first selection: it is cut from the whole batch.\<close>

lemma nested_chunk_forgets: "chunk_obj ap (Future parts (Some (i, m))) k = chunk_obj ap (Future parts None) k"
  by (simp add: chunk_obj_def)

end
