(* ===== verification/AsyncRollouter.thy ===== *)
theory AsyncRollouter
  imports MessageQueue PyStr
begin

text \<open>
  The coroutines of \<open>FullyAsyncRollouter\<close> (\<open>verl/experimental/fully_async_policy/
  fully_async_rollouter.py\<close>): the feeder, the processor, the sample tasks, the monitor and
  \<open>reset_staleness\<close>.  They run on one event loop, so a step of the model is the code between two
  \<open>await\<close>s; what another actor answers (a queue size, a finished generation) is an event.  The
  message queue is the actor of MessageQueue; it holds \<open>None\<close> for the end signal.  Times,
  printing and the histories kept for metrics are left out.
\<close>

subsection \<open>State\<close>

text \<open>A sample task is generating, has its answer from the message queue, or is finished.\<close>

datatype task_status = Running | Answered bool | Returned | Raised

text \<open>The \<open>await\<close> at which the processor is suspended.\<close>

datatype 'a proc_point =
    AwaitStats
  | AwaitPauseLock
  | Draining
  | DrainLock "nat list"
  | Blocked
  | AwaitGet
  | ThrottleLock 'a
  | Throttled 'a
  | Gated 'a
  | SubmitLock 'a
  | EndLock
  | EndWait
  | Finished
  | Crashed
  | Hung 'a

datatype reset_point = ResetIdle | ResetLock | ResetAsk nat | ResetGot nat nat

datatype monitor_point = MonSleep | MonStats | MonResumeLock | MonCheckLock | MonDone

datatype 'a feed = Feeding "'a list" | FeedDone

record 'a rollouter =
  ro_max_required :: nat
  ro_max_queue :: nat
  ro_max_concurrent :: nat
  ro_per_replica :: nat
  ro_paused :: bool
  ro_resume :: bool
  ro_running :: bool
  ro_lock :: bool
  ro_pending :: "'a option list"
  ro_feed :: "'a feed"
  ro_active :: "(nat \<times> 'a \<times> task_status) list"
  ro_next_task :: nat
  ro_staleness :: nat
  ro_generated :: nat
  ro_dropped :: nat
  ro_processed :: nat
  ro_step_generated :: nat
  ro_completed_steps :: nat
  ro_proc :: "'a proc_point"
  ro_reset :: reset_point
  ro_monitor :: monitor_point
  ro_mq :: "'a option mq_history"

text \<open>\<open>__init__\<close>, \<open>set_max_required_samples\<close> and the start of \<open>fit\<close>.\<close>

definition ro_start :: "nat \<Rightarrow> nat \<Rightarrow> nat \<Rightarrow> 'a list \<Rightarrow> 'a option message_queue \<Rightarrow> 'a rollouter" where
  "ro_start max_required active_servers per_replica samples mq =
     \<lparr>ro_max_required = max_required, ro_max_queue = max_required,
      ro_max_concurrent = min (active_servers * per_replica) max_required, ro_per_replica = per_replica,
      ro_paused = False, ro_resume = True, ro_running = True, ro_lock = False,
      ro_pending = [], ro_feed = Feeding samples, ro_active = [], ro_next_task = 0,
      ro_staleness = 0, ro_generated = 0, ro_dropped = 0, ro_processed = 0,
      ro_step_generated = 0, ro_completed_steps = 1,
      ro_proc = AwaitStats, ro_reset = ResetIdle, ro_monitor = MonSleep, ro_mq = mq_start mq\<rparr>"

subsection \<open>The lock\<close>

text \<open>
  \<open>asyncio.Lock.acquire\<close> returns at once when the lock is free and nobody waits for it;
  otherwise the coroutine is suspended.
\<close>

fun proc_waits :: "'a proc_point \<Rightarrow> bool" where
  "proc_waits AwaitPauseLock = True"
| "proc_waits (DrainLock ids) = True"
| "proc_waits (ThrottleLock s) = True"
| "proc_waits (SubmitLock s) = True"
| "proc_waits EndLock = True"
| "proc_waits _ = False"

definition monitor_waits :: "monitor_point \<Rightarrow> bool" where
  "monitor_waits m = (m = MonResumeLock \<or> m = MonCheckLock)"

definition proc_may_lock :: "'a rollouter \<Rightarrow> bool" where
  "proc_may_lock st = (\<not> ro_lock st \<and> ro_reset st \<noteq> ResetLock \<and> \<not> monitor_waits (ro_monitor st))"

definition reset_may_lock :: "'a rollouter \<Rightarrow> bool" where
  "reset_may_lock st = (\<not> ro_lock st \<and> \<not> proc_waits (ro_proc st) \<and> \<not> monitor_waits (ro_monitor st))"

definition monitor_may_lock :: "'a rollouter \<Rightarrow> bool" where
  "monitor_may_lock st = (\<not> ro_lock st \<and> \<not> proc_waits (ro_proc st) \<and> ro_reset st \<noteq> ResetLock)"

subsection \<open>Tasks\<close>

fun task_done :: "task_status \<Rightarrow> bool" where
  "task_done Returned = True"
| "task_done Raised = True"
| "task_done _ = False"

definition done_ids :: "'a rollouter \<Rightarrow> nat list" where
  "done_ids st = map fst (filter (\<lambda>(i, s, x). task_done x) (ro_active st))"

text \<open>
  The loop \<open>discard; await task\<close> over the finished tasks: the exception of a task ends the
  processor.
\<close>

definition settle :: "nat list \<Rightarrow> 'a rollouter \<Rightarrow> ('a rollouter \<Rightarrow> 'a rollouter) \<Rightarrow> 'a rollouter" where
  "settle ids st k =
     (let st1 = st\<lparr>ro_active := filter (\<lambda>(i, s, x). i \<notin> set ids) (ro_active st), ro_lock := False\<rparr>
      in if \<exists>(i, s, x) \<in> set (ro_active st). i \<in> set ids \<and> x = Raised
         then st1\<lparr>ro_proc := Crashed\<rparr> else k st1)"

subsection \<open>The processor\<close>

definition should_pause_generation :: "nat \<Rightarrow> 'a rollouter \<Rightarrow> bool" where
  "should_pause_generation queue_size st =
     (ro_max_queue st \<le> queue_size \<or> ro_max_required st \<le> ro_staleness st)"

text \<open>With the resume event clear: drain the active tasks, or block when there are none.\<close>

definition drain_or_block :: "'a rollouter \<Rightarrow> 'a rollouter" where
  "drain_or_block st = st\<lparr>ro_proc := (if ro_active st \<noteq> [] then Draining else Blocked)\<rparr>"

definition pause_now :: "'a rollouter \<Rightarrow> 'a rollouter" where
  "pause_now st = drain_or_block (st\<lparr>ro_paused := True, ro_resume := False\<rparr>)"

definition enter_pause :: "'a rollouter \<Rightarrow> 'a rollouter" where
  "enter_pause st = (if proc_may_lock st then pause_now st else st\<lparr>ro_proc := AwaitPauseLock\<rparr>)"

definition loop_top :: "'a rollouter \<Rightarrow> 'a rollouter" where
  "loop_top st = (if ro_paused st then enter_pause st else st\<lparr>ro_proc := AwaitStats\<rparr>)"

definition after_drain :: "'a rollouter \<Rightarrow> 'a rollouter" where
  "after_drain st = (if ro_resume st then loop_top st else drain_or_block st)"

definition submit_now :: "'a \<Rightarrow> 'a rollouter \<Rightarrow> 'a rollouter" where
  "submit_now s st = loop_top (st\<lparr>ro_active := ro_active st @ [(ro_next_task st, s, Running)],
     ro_next_task := Suc (ro_next_task st)\<rparr>)"

definition submit :: "'a \<Rightarrow> 'a rollouter \<Rightarrow> 'a rollouter" where
  "submit s st = (if proc_may_lock st then submit_now s st else st\<lparr>ro_proc := SubmitLock s\<rparr>)"

definition gate :: "'a \<Rightarrow> 'a rollouter \<Rightarrow> 'a rollouter" where
  "gate s st = (if ro_paused st \<and> \<not> ro_resume st then st\<lparr>ro_proc := Gated s\<rparr> else submit s st)"

text \<open>
  The loop that limits the concurrent tasks.  It takes the lock, and inside it waits for a task
  only when there is one: with no task and no capacity it runs on without ever suspending, and
  the event loop is not returned to.
\<close>

definition throttle :: "'a \<Rightarrow> 'a rollouter \<Rightarrow> 'a rollouter" where
  "throttle s st =
     (if ro_max_concurrent st \<le> length (ro_active st) then
        (if proc_may_lock st then
           (if ro_active st \<noteq> [] then st\<lparr>ro_proc := Throttled s, ro_lock := True\<rparr>
            else st\<lparr>ro_proc := Hung s\<rparr>)
         else st\<lparr>ro_proc := ThrottleLock s\<rparr>)
      else gate s st)"

definition end_loop :: "'a rollouter \<Rightarrow> 'a rollouter" where
  "end_loop st =
     (if ro_active st = [] then st\<lparr>ro_proc := Finished\<rparr>
      else if proc_may_lock st then st\<lparr>ro_proc := EndWait, ro_lock := True\<rparr>
      else st\<lparr>ro_proc := EndLock\<rparr>)"

definition get_pending :: "'a option \<Rightarrow> 'a option list \<Rightarrow> 'a rollouter \<Rightarrow> 'a rollouter" where
  "get_pending x rest st =
     (let st1 = st\<lparr>ro_pending := rest, ro_staleness := Suc (ro_staleness st)\<rparr>
      in case x of None \<Rightarrow> end_loop st1 | Some s \<Rightarrow> throttle s st1)"

text \<open>The processor is resumed; \<open>answer\<close> is the queue size the message queue reported.\<close>

definition proc_step :: "nat \<Rightarrow> 'a rollouter \<Rightarrow> 'a rollouter option" where
  "proc_step answer st =
     (case ro_proc st of
        AwaitStats \<Rightarrow>
          Some (if ro_paused st \<or> should_pause_generation answer st then enter_pause st
                else st\<lparr>ro_proc := AwaitGet\<rparr>)
      | AwaitPauseLock \<Rightarrow> if ro_lock st then None else Some (pause_now st)
      | Draining \<Rightarrow>
          (let ids = done_ids st in
           if ids \<noteq> [] then
             Some (if proc_may_lock st then settle ids st after_drain else st\<lparr>ro_proc := DrainLock ids\<rparr>)
           else if ro_resume st then Some (loop_top st) else None)
      | DrainLock ids \<Rightarrow> if ro_lock st then None else Some (settle ids st after_drain)
      | Blocked \<Rightarrow> if ro_resume st then Some (loop_top st) else None
      | AwaitGet \<Rightarrow> (case ro_pending st of [] \<Rightarrow> None | x # rest \<Rightarrow> Some (get_pending x rest st))
      | ThrottleLock s \<Rightarrow>
          if ro_lock st then None
          else Some (if ro_active st \<noteq> [] then st\<lparr>ro_proc := Throttled s, ro_lock := True\<rparr> else throttle s st)
      | Throttled s \<Rightarrow> (let ids = done_ids st in if ids = [] then None else Some (settle ids st (throttle s)))
      | Gated s \<Rightarrow> if ro_resume st then Some (submit s st) else None
      | SubmitLock s \<Rightarrow> if ro_lock st then None else Some (submit_now s st)
      | EndLock \<Rightarrow>
          if ro_lock st then None
          else Some (if ro_active st \<noteq> [] then st\<lparr>ro_proc := EndWait, ro_lock := True\<rparr> else end_loop st)
      | EndWait \<Rightarrow> (let ids = done_ids st in if ids = [] then None else Some (settle ids st end_loop))
      | _ \<Rightarrow> None)"

subsection \<open>Feeder and sample tasks\<close>

definition pending_maxsize :: nat where
  "pending_maxsize = 128"

definition feed_step :: "'a rollouter \<Rightarrow> 'a rollouter option" where
  "feed_step st =
     (if length (ro_pending st) < pending_maxsize then
        (case ro_feed st of
           Feeding (s # rest) \<Rightarrow> Some (st\<lparr>ro_pending := ro_pending st @ [Some s], ro_feed := Feeding rest\<rparr>)
         | Feeding [] \<Rightarrow> Some (st\<lparr>ro_pending := ro_pending st @ [None], ro_feed := FeedDone\<rparr>)
         | FeedDone \<Rightarrow> None)
      else None)"

definition set_status :: "nat \<Rightarrow> task_status \<Rightarrow> 'a rollouter \<Rightarrow> 'a rollouter" where
  "set_status n x st = st\<lparr>ro_active := (ro_active st)[n := (fst (ro_active st ! n), fst (snd (ro_active st ! n)), x)]\<rparr>"

text \<open>
  The generation of the task at position \<open>n\<close> has finished and its sample reaches the message
  queue; later the answer reaches the task, which updates the counters.
\<close>

definition task_put :: "nat \<Rightarrow> 'a rollouter \<Rightarrow> 'a rollouter option" where
  "task_put n st =
     (if n < length (ro_active st) then
        (case ro_active st ! n of
           (i, s, Running) \<Rightarrow>
             (case put_sample (mh_queue (ro_mq st)) (Some s) of
                (Inl e, mq) \<Rightarrow> Some (set_status n Raised st)
              | (Inr success, mq) \<Rightarrow> Some (set_status n (Answered success) (st\<lparr>ro_mq := mq_step (ro_mq st) (Put (Some s))\<rparr>)))
         | _ \<Rightarrow> None)
      else None)"

definition task_return :: "nat \<Rightarrow> 'a rollouter \<Rightarrow> 'a rollouter option" where
  "task_return n st =
     (if n < length (ro_active st) then
        (case ro_active st ! n of
           (i, s, Answered success) \<Rightarrow>
             Some (set_status n Returned (if success
               then st\<lparr>ro_generated := Suc (ro_generated st), ro_step_generated := Suc (ro_step_generated st),
                       ro_processed := Suc (ro_processed st)\<rparr>
               else st\<lparr>ro_dropped := Suc (ro_dropped st), ro_processed := Suc (ro_processed st)\<rparr>))
         | _ \<Rightarrow> None)
      else None)"

definition task_fail :: "nat \<Rightarrow> 'a rollouter \<Rightarrow> 'a rollouter option" where
  "task_fail n st =
     (if n < length (ro_active st) then
        (case ro_active st ! n of (i, s, Running) \<Rightarrow> Some (set_status n Raised st) | _ \<Rightarrow> None)
      else None)"

subsection \<open>\<open>reset_staleness\<close>, the monitor and the end\<close>

text \<open>
  \<open>staleness_samples = len(active_tasks) + await get_queue_size()\<close>: the length is read before
  the queue is asked.
\<close>

definition reset_begin :: "'a rollouter \<Rightarrow> 'a rollouter" where
  "reset_begin st = st\<lparr>ro_paused := False, ro_resume := True, ro_lock := True,
     ro_reset := ResetAsk (length (ro_active st))\<rparr>"

definition reset_step :: "'a rollouter \<Rightarrow> 'a rollouter option" where
  "reset_step st =
     (case ro_reset st of
        ResetIdle \<Rightarrow> Some (if reset_may_lock st then reset_begin st else st\<lparr>ro_reset := ResetLock\<rparr>)
      | ResetLock \<Rightarrow> if ro_lock st then None else Some (reset_begin st)
      | ResetAsk a \<Rightarrow> Some (st\<lparr>ro_reset := ResetGot a (get_queue_size (mh_queue (ro_mq st)))\<rparr>)
      | ResetGot a q \<Rightarrow>
          Some (st\<lparr>ro_staleness := a + q, ro_reset := ResetIdle, ro_lock := False,
            ro_completed_steps := ro_completed_steps st + (if ro_step_generated st > 0 then 1 else 0),
            ro_step_generated := 0\<rparr>))"

definition monitor_check :: "'a rollouter \<Rightarrow> 'a rollouter" where
  "monitor_check st =
     (if monitor_may_lock st then st\<lparr>ro_monitor := (if ro_running st then MonSleep else MonDone)\<rparr>
      else st\<lparr>ro_monitor := MonCheckLock\<rparr>)"

definition monitor_resume :: "'a rollouter \<Rightarrow> 'a rollouter" where
  "monitor_resume st = monitor_check (st\<lparr>ro_paused := False, ro_resume := True\<rparr>)"

definition monitor_step :: "nat \<Rightarrow> 'a rollouter \<Rightarrow> 'a rollouter option" where
  "monitor_step answer st =
     (case ro_monitor st of
        MonSleep \<Rightarrow> Some (if ro_paused st then st\<lparr>ro_monitor := MonStats\<rparr> else monitor_check st)
      | MonStats \<Rightarrow>
          Some (if should_pause_generation answer st then monitor_check st
                else if monitor_may_lock st then monitor_resume st else st\<lparr>ro_monitor := MonResumeLock\<rparr>)
      | MonResumeLock \<Rightarrow> if ro_lock st then None else Some (monitor_resume st)
      | MonCheckLock \<Rightarrow>
          if ro_lock st then None
          else Some (st\<lparr>ro_monitor := (if ro_running st then MonSleep else MonDone)\<rparr>)
      | MonDone \<Rightarrow> None)"

text \<open>The end of \<open>_streaming_generation_main\<close>: the feeder is cancelled and the end signal sent.\<close>

definition close_step :: "'a rollouter \<Rightarrow> 'a rollouter option" where
  "close_step st =
     (if ro_running st \<and> \<not> ro_lock st \<and> (ro_proc st = Crashed \<or> ro_proc st = Finished \<and> ro_feed st = FeedDone)
      then Some (st\<lparr>ro_feed := FeedDone, ro_mq := mq_step (ro_mq st) (Put None), ro_running := False\<rparr>)
      else None)"

text \<open>\<open>_update_max_concurrent_samples\<close> when replicas were added or removed.\<close>

definition update_max_concurrent_samples :: "nat \<Rightarrow> 'a rollouter \<Rightarrow> 'a rollouter" where
  "update_max_concurrent_samples replicas st =
     st\<lparr>ro_max_concurrent := min (replicas * ro_per_replica st) (ro_max_required st)\<rparr>"

subsection \<open>Runs\<close>

datatype ro_event =
    Proc nat | Feed | TaskPut nat | TaskReturn nat | TaskFail nat
  | Reset | Monitor nat | Close | Consume | Replicas nat

fun ro_enabled :: "'a rollouter \<Rightarrow> ro_event \<Rightarrow> 'a rollouter option" where
  "ro_enabled st (Proc answer) = proc_step answer st"
| "ro_enabled st Feed = feed_step st"
| "ro_enabled st (TaskPut n) = task_put n st"
| "ro_enabled st (TaskReturn n) = task_return n st"
| "ro_enabled st (TaskFail n) = task_fail n st"
| "ro_enabled st Reset = reset_step st"
| "ro_enabled st (Monitor answer) = monitor_step answer st"
| "ro_enabled st Close = close_step st"
| "ro_enabled st Consume = Some (st\<lparr>ro_mq := mq_step (ro_mq st) Get\<rparr>)"
| "ro_enabled st (Replicas n) = Some (update_max_concurrent_samples n st)"

text \<open>
  While the processor does not return to the event loop of the actor, nothing else runs there; the
  queue is another actor.
\<close>

definition ro_step :: "'a rollouter \<Rightarrow> ro_event \<Rightarrow> 'a rollouter option" where
  "ro_step st e = (case ro_proc st of Hung s \<Rightarrow> (if e = Consume then ro_enabled st e else None) | _ \<Rightarrow> ro_enabled st e)"

fun ro_run :: "'a rollouter \<Rightarrow> ro_event list \<Rightarrow> 'a rollouter option" where
  "ro_run st [] = Some st"
| "ro_run st (e # es) = Option.bind (ro_step st e) (\<lambda>st1. ro_run st1 es)"

inductive ro_reach :: "'a rollouter \<Rightarrow> 'a rollouter \<Rightarrow> bool" for start where
  reach_start: "ro_reach start start"
| reach_step: "ro_reach start st \<Longrightarrow> ro_step st e = Some st1 \<Longrightarrow> ro_reach start st1"

end
