(* ===== verification/AsyncRollouterSafety.thy ===== *)
theory AsyncRollouterSafety
  imports AsyncRollouter
begin

text \<open>
  One-step lemmas of the rollouter: what a step of the processor can be, who holds the lock, which
  tasks exist, and the bound on the samples in flight.
\<close>

subsection \<open>Invariants\<close>

fun held_of :: "'a proc_point \<Rightarrow> 'a list" where
  "held_of (ThrottleLock s) = [s]"
| "held_of (Throttled s) = [s]"
| "held_of (Gated s) = [s]"
| "held_of (SubmitLock s) = [s]"
| "held_of (Hung s) = [s]"
| "held_of _ = []"

fun proc_holds :: "'a proc_point \<Rightarrow> bool" where
  "proc_holds (Throttled s) = True"
| "proc_holds EndWait = True"
| "proc_holds _ = False"

fun reset_holds :: "reset_point \<Rightarrow> bool" where
  "reset_holds (ResetAsk a) = True"
| "reset_holds (ResetGot a q) = True"
| "reset_holds _ = False"

definition running :: "'a rollouter \<Rightarrow> 'a list" where
  "running st = map (\<lambda>(i, s, x). s) (filter (\<lambda>(i, s, x). x = Running) (ro_active st))"

definition unsent :: "'a rollouter \<Rightarrow> 'a list" where
  "unsent st = map (\<lambda>(i, s, x). s) (filter (\<lambda>(i, s, x). x = Running \<or> x = Raised) (ro_active st))"

definition queued :: "'a rollouter \<Rightarrow> 'a option list" where
  "queued st = filter (\<lambda>x. x \<noteq> None) (mq_queue (mh_queue (ro_mq st)))"

text \<open>The samples taken from the feeder that the trainer has not received.\<close>

definition in_flight :: "'a rollouter \<Rightarrow> nat" where
  "in_flight st = length (held_of (ro_proc st)) + length (running st) + length (queued st)"

definition around :: "'a rollouter \<Rightarrow> _" where
  "around st = (ro_mq st, ro_max_required st, ro_max_queue st, ro_max_concurrent st, ro_reset st,
     ro_feed st, ro_running st, ro_monitor st)"

definition tasks_ok :: "'a rollouter \<Rightarrow> bool" where
  "tasks_ok st \<longleftrightarrow> distinct (map fst (ro_active st)) \<and> (\<forall>t \<in> set (ro_active st). fst t < ro_next_task st) \<and>
     (\<forall>ids. ro_proc st = DrainLock ids \<longrightarrow> (\<forall>(i, s, x) \<in> set (ro_active st). i \<in> set ids \<longrightarrow> task_done x))"

definition lock_ok :: "'a rollouter \<Rightarrow> bool" where
  "lock_ok st \<longleftrightarrow> ro_lock st = (proc_holds (ro_proc st) \<or> reset_holds (ro_reset st)) \<and>
     \<not> (proc_holds (ro_proc st) \<and> reset_holds (ro_reset st))"

text \<open>What the pieces of the processor leave alone, and where they suspend.\<close>

definition steady :: "'a rollouter \<Rightarrow> 'a rollouter \<Rightarrow> bool" where
  "steady st st1 \<longleftrightarrow> around st1 = around st \<and> ro_pending st1 = ro_pending st \<and> ro_staleness st1 = ro_staleness st"

lemma steady_refl [simp]: "steady st st"
  by (simp add: steady_def)

lemma steady_trans [trans]: "steady a b \<Longrightarrow> steady b c \<Longrightarrow> steady a c"
  by (simp add: steady_def)

lemmas loop_defs = loop_top_def enter_pause_def pause_now_def drain_or_block_def

lemma loop_top_facts:
  "steady st (loop_top st)" "ro_active (loop_top st) = ro_active st" "ro_lock (loop_top st) = ro_lock st"
  "ro_next_task (loop_top st) = ro_next_task st"
  "ro_proc (loop_top st) \<in> {AwaitStats, AwaitPauseLock, Draining, Blocked}"
  by (auto simp: steady_def around_def loop_defs)

lemma enter_pause_facts:
  "steady st (enter_pause st)" "ro_active (enter_pause st) = ro_active st" "ro_lock (enter_pause st) = ro_lock st"
  "ro_next_task (enter_pause st) = ro_next_task st"
  "ro_proc (enter_pause st) \<in> {AwaitPauseLock, Draining, Blocked}"
  by (auto simp: steady_def around_def loop_defs)

lemma after_drain_facts:
  "steady st (after_drain st)" "ro_active (after_drain st) = ro_active st" "ro_lock (after_drain st) = ro_lock st"
  "ro_next_task (after_drain st) = ro_next_task st"
  "ro_proc (after_drain st) \<in> {AwaitStats, AwaitPauseLock, Draining, Blocked}"
  by (auto simp: steady_def around_def loop_defs after_drain_def)

text \<open>The outcome of handing a sample on: it is held at an \<open>await\<close>, or it has become a task.\<close>

definition handed_on :: "'a \<Rightarrow> 'a rollouter \<Rightarrow> 'a rollouter \<Rightarrow> bool" where
  "handed_on s st st1 \<longleftrightarrow> steady st st1 \<and>
     (held_of (ro_proc st1) = [s] \<and> ro_active st1 = ro_active st \<and> ro_next_task st1 = ro_next_task st \<and>
        ro_lock st1 = (ro_lock st \<or> proc_holds (ro_proc st1)) \<and> (proc_holds (ro_proc st1) \<longrightarrow> \<not> ro_lock st)
      \<or> \<not> ro_lock st \<and> \<not> ro_lock st1 \<and> ro_active st1 = ro_active st @ [(ro_next_task st, s, Running)] \<and>
        ro_next_task st1 = Suc (ro_next_task st) \<and>
        ro_proc st1 \<in> {AwaitStats, AwaitPauseLock, Draining, Blocked})"

lemma submit_now_handed: "\<not> ro_lock st \<Longrightarrow> handed_on s st (submit_now s st)"
  using loop_top_facts [of "st\<lparr>ro_active := ro_active st @ [(ro_next_task st, s, Running)],
     ro_next_task := Suc (ro_next_task st)\<rparr>"]
  unfolding submit_now_def handed_on_def by (auto simp: steady_def around_def)

lemma submit_handed: "handed_on s st (submit s st)"
  using submit_now_handed [of st s]
  by (auto simp: submit_def proc_may_lock_def) (auto simp: handed_on_def steady_def around_def)

lemma throttle_handed: "handed_on s st (throttle s st)"
  using submit_handed [of s st]
  by (auto simp: throttle_def gate_def proc_may_lock_def handed_on_def steady_def around_def)

text \<open>What a step of the processor can be.\<close>

abbreviation idle_points :: "'a proc_point set" where
  "idle_points \<equiv> {AwaitStats, AwaitPauseLock, Draining, Blocked}"

abbreviation end_points :: "'a proc_point set" where
  "end_points \<equiv> {EndLock, EndWait, Finished}"

definition retire :: "nat list \<Rightarrow> 'a rollouter \<Rightarrow> 'a rollouter" where
  "retire ids st = st\<lparr>ro_active := filter (\<lambda>(i, s, x). i \<notin> set ids) (ro_active st), ro_lock := False\<rparr>"

definition ended :: "'a rollouter \<Rightarrow> 'a rollouter \<Rightarrow> bool" where
  "ended st st1 \<longleftrightarrow> steady st st1 \<and> ro_active st1 = ro_active st \<and> ro_next_task st1 = ro_next_task st \<and>
     ro_proc st1 \<in> end_points \<and> (ro_proc st1 = Finished \<longrightarrow> ro_active st1 = []) \<and>
     ro_lock st1 = (ro_lock st \<or> proc_holds (ro_proc st1)) \<and> (proc_holds (ro_proc st1) \<longrightarrow> \<not> ro_lock st)"

definition suspended :: "'a rollouter \<Rightarrow> 'a rollouter \<Rightarrow> bool" where
  "suspended st st1 \<longleftrightarrow> steady st st1 \<and> ro_active st1 = ro_active st \<and> ro_next_task st1 = ro_next_task st \<and>
     ro_lock st1 = ro_lock st \<and> ro_proc st1 \<in> idle_points"

lemma suspended_tops: "suspended st (loop_top st)" "suspended st (enter_pause st)" "suspended st (after_drain st)"
    "suspended st (pause_now st)"
proof -
  show "suspended st (loop_top st)" unfolding suspended_def using loop_top_facts [of st] by blast
  show "suspended st (enter_pause st)" unfolding suspended_def using enter_pause_facts [of st] by blast
  show "suspended st (after_drain st)" unfolding suspended_def using after_drain_facts [of st] by blast
  show "suspended st (pause_now st)"
    by (simp add: suspended_def steady_def around_def pause_now_def drain_or_block_def)
qed

lemma end_loop_ended: "ended st (end_loop st)"
  by (auto simp: ended_def end_loop_def proc_may_lock_def steady_def around_def)

lemma settle_cases:
  obtains "\<exists>(i, s, x) \<in> set (ro_active st). i \<in> set ids \<and> x = Raised" "settle ids st k = (retire ids st)\<lparr>ro_proc := Crashed\<rparr>"
    | "\<not> (\<exists>(i, s, x) \<in> set (ro_active st). i \<in> set ids \<and> x = Raised)" "settle ids st k = k (retire ids st)"
  unfolding settle_def retire_def Let_def by (cases "\<exists>(i, s, x) \<in> set (ro_active st). i \<in> set ids \<and> x = Raised") auto

lemma proc_step_cases:
  assumes "proc_step q st = Some st1"
  obtains
    (stay) "suspended st st1" "ro_proc st \<in> {AwaitStats, AwaitPauseLock, Draining, Blocked}"
  | (get) "ro_proc st = AwaitStats" "ro_staleness st < ro_max_required st" "st1 = st\<lparr>ro_proc := AwaitGet\<rparr>"
  | (wait_drain) "ro_proc st = Draining" "st1 = st\<lparr>ro_proc := DrainLock (done_ids st)\<rparr>"
  | (drained) ids where "ro_proc st = Draining \<and> ids = done_ids st \<or> ro_proc st = DrainLock ids" "\<not> ro_lock st"
      "st1 = settle ids st after_drain"
  | (pass) s where "ro_proc st \<in> {ThrottleLock s, Gated s, SubmitLock s}" "handed_on s st st1"
  | (throttled) s where "ro_proc st = Throttled s" "st1 = settle (done_ids st) st (throttle s)"
  | (pull) s rest where "ro_proc st = AwaitGet" "ro_pending st = Some s # rest"
      "handed_on s (st\<lparr>ro_pending := rest, ro_staleness := Suc (ro_staleness st)\<rparr>) st1"
  | (pull_end) rest where "ro_proc st = AwaitGet" "ro_pending st = None # rest"
      "ended (st\<lparr>ro_pending := rest, ro_staleness := Suc (ro_staleness st)\<rparr>) st1"
  | (end_lock) "ro_proc st = EndLock" "ended st st1"
  | (end_wait) "ro_proc st = EndWait" "st1 = settle (done_ids st) st end_loop"
proof (cases "ro_proc st")
  case AwaitStats
  show ?thesis
  proof (cases "ro_paused st \<or> should_pause_generation q st")
    case True
    then have "st1 = enter_pause st" using AwaitStats assms by (auto simp: proc_step_def)
    then show ?thesis using stay suspended_tops(2) AwaitStats by blast
  next
    case False
    then have "st1 = st\<lparr>ro_proc := AwaitGet\<rparr>" "ro_staleness st < ro_max_required st"
      using AwaitStats assms by (auto simp: proc_step_def should_pause_generation_def)
    then show ?thesis using get AwaitStats by blast
  qed
next
  case AwaitPauseLock
  then have "st1 = pause_now st" using assms by (auto simp: proc_step_def split: if_splits)
  then show ?thesis using stay suspended_tops(4) AwaitPauseLock by blast
next
  case Draining
  then show ?thesis using assms suspended_tops(1) [of st] drained [of "done_ids st"] wait_drain stay
    by (auto simp: proc_step_def Let_def proc_may_lock_def split: if_splits)
next
  case (DrainLock ids)
  then show ?thesis using assms drained [of ids] by (auto simp: proc_step_def split: if_splits)
next
  case Blocked
  then show ?thesis using assms suspended_tops(1) [of st] stay by (auto simp: proc_step_def split: if_splits)
next
  case AwaitGet
  then obtain x rest where p: "ro_pending st = x # rest" "st1 = get_pending x rest st"
    using assms by (auto simp: proc_step_def split: list.splits)
  show ?thesis
  proof (cases x)
    case None
    have "ended (st\<lparr>ro_pending := rest, ro_staleness := Suc (ro_staleness st)\<rparr>) st1"
      unfolding p(2) None get_pending_def by (simp add: end_loop_ended)
    with AwaitGet p(1) show ?thesis unfolding None by (rule pull_end)
  next
    case (Some s)
    have "handed_on s (st\<lparr>ro_pending := rest, ro_staleness := Suc (ro_staleness st)\<rparr>) st1"
      unfolding p(2) Some get_pending_def by (simp add: throttle_handed)
    with AwaitGet p(1) show ?thesis unfolding Some by (rule pull)
  qed
next
  case (ThrottleLock s)
  show ?thesis
  proof (cases "ro_active st = []")
    case True
    then have "st1 = throttle s st" using ThrottleLock assms by (auto simp: proc_step_def split: if_splits)
    then have "handed_on s st st1" by (simp add: throttle_handed)
    then show ?thesis using pass [of s] ThrottleLock by blast
  next
    case False
    then have "st1 = st\<lparr>ro_proc := Throttled s, ro_lock := True\<rparr>" "\<not> ro_lock st"
      using ThrottleLock assms by (auto simp: proc_step_def split: if_splits)
    then have "handed_on s st st1" by (auto simp: handed_on_def steady_def around_def)
    then show ?thesis using pass [of s] ThrottleLock by blast
  qed
next
  case (Throttled s)
  then show ?thesis using assms throttled by (auto simp: proc_step_def Let_def split: if_splits)
next
  case (Gated s)
  then have "st1 = submit s st" using assms by (auto simp: proc_step_def split: if_splits)
  then have "handed_on s st st1" by (simp add: submit_handed)
  then show ?thesis using pass [of s] Gated by blast
next
  case (SubmitLock s)
  then have "\<not> ro_lock st" "st1 = submit_now s st" using assms by (auto simp: proc_step_def split: if_splits)
  then have "handed_on s st st1" by (simp add: submit_now_handed)
  then show ?thesis using pass [of s] SubmitLock by blast
next
  case EndLock
  show ?thesis
  proof (cases "ro_active st = []")
    case True
    then have "st1 = end_loop st" using EndLock assms by (auto simp: proc_step_def split: if_splits)
    then have "ended st st1" by (simp add: end_loop_ended)
    then show ?thesis using end_lock EndLock by blast
  next
    case False
    then have "st1 = st\<lparr>ro_proc := EndWait, ro_lock := True\<rparr>" "\<not> ro_lock st"
      using EndLock assms by (auto simp: proc_step_def split: if_splits)
    then have "ended st st1" by (auto simp: ended_def steady_def around_def)
    then show ?thesis using end_lock EndLock by blast
  qed
next
  case EndWait
  then show ?thesis using assms end_wait by (auto simp: proc_step_def Let_def split: if_splits)
qed (use assms in \<open>simp_all add: proc_step_def\<close>)

subsection \<open>Tasks and lock\<close>

lemma retire_facts:
  "steady st (retire ids st)" "ro_lock (retire ids st) = False" "ro_next_task (retire ids st) = ro_next_task st"
  "set (ro_active (retire ids st)) \<subseteq> set (ro_active st)" "ro_proc (retire ids st) = ro_proc st"
  by (auto simp: retire_def steady_def around_def)

lemma done_ids_done:
  assumes "distinct (map fst (ro_active st))" "(i, s, x) \<in> set (ro_active st)" "i \<in> set (done_ids st)"
  shows "task_done x"
proof -
  from assms(3) obtain t y where "(i, t, y) \<in> set (ro_active st)" "task_done y" by (auto simp: done_ids_def)
  with assms(1,2) show ?thesis by (metis eq_key_imp_eq_value prod.inject)
qed

text \<open>Retiring finished tasks changes neither what runs nor, unless one raised, what is unsent.\<close>

lemma retire_running:
  assumes "\<forall>(i, s, x) \<in> set (ro_active st). i \<in> set ids \<longrightarrow> task_done x"
  shows "running (retire ids st) = running st"
proof -
  have "filter (\<lambda>(i, s, x). x = Running) (filter (\<lambda>(i, s, x). i \<notin> set ids) (ro_active st)) =
      filter (\<lambda>(i, s, x). x = Running) (ro_active st)"
    using assms by (auto simp: filter_filter intro!: filter_cong)
  then show ?thesis by (simp add: running_def retire_def)
qed

lemma retire_unsent:
  assumes "\<forall>(i, s, x) \<in> set (ro_active st). i \<in> set ids \<longrightarrow> task_done x"
    and "\<not> (\<exists>(i, s, x) \<in> set (ro_active st). i \<in> set ids \<and> x = Raised)"
  shows "unsent (retire ids st) = unsent st"
proof -
  have "filter (\<lambda>(i, s, x). x = Running \<or> x = Raised) (filter (\<lambda>(i, s, x). i \<notin> set ids) (ro_active st)) =
      filter (\<lambda>(i, s, x). x = Running \<or> x = Raised) (ro_active st)"
    using assms by (auto simp: filter_filter intro!: filter_cong)
  then show ?thesis by (simp add: unsent_def retire_def)
qed

definition ids_ok :: "'a rollouter \<Rightarrow> bool" where
  "ids_ok st \<longleftrightarrow> distinct (map fst (ro_active st)) \<and> (\<forall>t \<in> set (ro_active st). fst t < ro_next_task st)"

lemma tasks_ok_alt:
  "tasks_ok st \<longleftrightarrow> ids_ok st \<and>
     (\<forall>ids. ro_proc st = DrainLock ids \<longrightarrow> (\<forall>(i, s, x) \<in> set (ro_active st). i \<in> set ids \<longrightarrow> task_done x))"
  by (auto simp: tasks_ok_def ids_ok_def)

lemma ids_ok_retire: "ids_ok st \<Longrightarrow> ids_ok (retire ids st)"
  by (auto simp: ids_ok_def retire_def intro: distinct_map_filter)

lemma ids_ok_results:
  "suspended st st1 \<Longrightarrow> ids_ok st \<Longrightarrow> tasks_ok st1"
  "ended st st1 \<Longrightarrow> ids_ok st \<Longrightarrow> tasks_ok st1"
  "handed_on s st st1 \<Longrightarrow> ids_ok st \<Longrightarrow> tasks_ok st1"
proof -
  show "suspended st st1 \<Longrightarrow> ids_ok st \<Longrightarrow> tasks_ok st1"
    by (auto simp: tasks_ok_alt ids_ok_def suspended_def)
  show "ended st st1 \<Longrightarrow> ids_ok st \<Longrightarrow> tasks_ok st1"
    by (auto simp: tasks_ok_alt ids_ok_def ended_def)
  show "handed_on s st st1 \<Longrightarrow> ids_ok st \<Longrightarrow> tasks_ok st1"
    unfolding handed_on_def tasks_ok_alt ids_ok_def
    by (elim conjE disjE) (auto simp: less_Suc_eq)
qed

lemma tasks_ok_settle:
  assumes "ids_ok st" "\<And>st0. st0 = retire ids st \<Longrightarrow> tasks_ok (k st0)"
  shows "tasks_ok (settle ids st k)"
  using ids_ok_retire [OF assms(1), of ids] assms(2)
  by (rule_tac settle_cases [of st ids k]) (auto simp: tasks_ok_alt ids_ok_def)

lemma proc_step_tasks_ok:
  assumes "proc_step q st = Some st1" and "tasks_ok st"
  shows "tasks_ok st1"
proof -
  have ids: "ids_ok st" using assms(2) by (simp add: tasks_ok_alt)
  have same: "ids_ok (st\<lparr>ro_pending := p, ro_staleness := n\<rparr>)" for p n using ids by (simp add: ids_ok_def)
  from assms(1) show ?thesis
  proof (cases rule: proc_step_cases)
    case wait_drain
    then show ?thesis using assms(2) done_ids_done [of st] by (fastforce simp: tasks_ok_def)
  next
    case (drained ids)
    then show ?thesis using tasks_ok_settle [OF ids] ids_ok_results(1) [OF suspended_tops(3) ids_ok_retire [OF ids]] by simp
  next
    case (throttled s)
    then show ?thesis using tasks_ok_settle [OF ids] ids_ok_results(3) [OF throttle_handed ids_ok_retire [OF ids]] by simp
  next
    case end_wait
    then show ?thesis using tasks_ok_settle [OF ids] ids_ok_results(2) [OF end_loop_ended ids_ok_retire [OF ids]] by simp
  next
    case stay
    from ids_ok_results(1) [OF stay(1) ids] show ?thesis .
  next
    case get
    with ids show ?thesis by (simp add: tasks_ok_alt ids_ok_def)
  next
    case (pass s)
    from ids_ok_results(3) [OF pass(2) ids] show ?thesis .
  next
    case (pull s rest)
    from ids_ok_results(3) [OF pull(3) same] show ?thesis .
  next
    case (pull_end rest)
    from ids_ok_results(2) [OF pull_end(3) same] show ?thesis .
  next
    case end_lock
    from ids_ok_results(2) [OF end_lock(2) ids] show ?thesis .
  qed
qed

lemma lock_ok_results:
  assumes "ro_lock st = reset_holds (ro_reset st)"
  shows "suspended st st1 \<Longrightarrow> lock_ok st1" "ended st st1 \<Longrightarrow> lock_ok st1" "handed_on s st st1 \<Longrightarrow> lock_ok st1"
proof -
  show "suspended st st1 \<Longrightarrow> lock_ok st1"
    using assms by (auto simp: suspended_def lock_ok_def steady_def around_def)
  show "ended st st1 \<Longrightarrow> lock_ok st1"
    using assms by (auto simp: ended_def lock_ok_def steady_def around_def)
  show "handed_on s st st1 \<Longrightarrow> lock_ok st1"
    using assms by (auto simp: handed_on_def lock_ok_def steady_def around_def)
qed

lemma lock_ok_settle:
  assumes "\<not> reset_holds (ro_reset st)"
    and "\<And>st0. st0 = retire ids st \<Longrightarrow> ro_lock st0 = reset_holds (ro_reset st0) \<Longrightarrow> lock_ok (k st0)"
  shows "lock_ok (settle ids st k)"
  using assms by (rule_tac settle_cases [of st ids k]) (auto simp: lock_ok_def retire_def)

lemma proc_step_lock_ok:
  assumes "proc_step q st = Some st1" and "lock_ok st"
  shows "lock_ok st1"
proof -
  have free: "\<not> proc_holds (ro_proc st) \<Longrightarrow> ro_lock st = reset_holds (ro_reset st)"
    and holds: "proc_holds (ro_proc st) \<Longrightarrow> \<not> reset_holds (ro_reset st)"
    using assms(2) by (auto simp: lock_ok_def)
  from assms(1) show ?thesis
  proof (cases rule: proc_step_cases)
    case (drained ids)
    then have "\<not> reset_holds (ro_reset st)" using free by auto
    then show ?thesis unfolding drained(3)
      by (rule lock_ok_settle) (rule lock_ok_results(1) [OF _ suspended_tops(3)])
  next
    case (throttled s)
    then have "\<not> reset_holds (ro_reset st)" using holds by simp
    then show ?thesis unfolding throttled(2)
      by (rule lock_ok_settle) (rule lock_ok_results(3) [OF _ throttle_handed])
  next
    case end_wait
    then have "\<not> reset_holds (ro_reset st)" using holds by simp
    then show ?thesis unfolding end_wait(2)
      by (rule lock_ok_settle) (rule lock_ok_results(2) [OF _ end_loop_ended])
  next
    case stay
    have "\<not> proc_holds (ro_proc st)" using stay(2) by auto
    from lock_ok_results(1) [OF free [OF this] stay(1)] show ?thesis .
  next
    case (pass s)
    have "\<not> proc_holds (ro_proc st)" using pass(1) by auto
    from lock_ok_results(3) [OF free [OF this] pass(2)] show ?thesis .
  next
    case (pull s rest)
    have "\<not> proc_holds (ro_proc st)" using pull(1) by simp
    then show ?thesis using lock_ok_results(3) [OF _ pull(3)] free by simp
  next
    case (pull_end rest)
    have "\<not> proc_holds (ro_proc st)" using pull_end(1) by simp
    then show ?thesis using lock_ok_results(2) [OF _ pull_end(3)] free by simp
  next
    case end_lock
    have "\<not> proc_holds (ro_proc st)" using end_lock(1) by simp
    from lock_ok_results(2) [OF free [OF this] end_lock(2)] show ?thesis .
  qed (use assms(2) in \<open>auto simp: lock_ok_def\<close>)
qed

subsection \<open>What is in flight\<close>

definition carried :: "'a rollouter \<Rightarrow> 'a list" where
  "carried st = held_of (ro_proc st) @ running st"

lemma carried_results:
  "suspended st st1 \<Longrightarrow> carried st1 = running st"
  "ended st st1 \<Longrightarrow> carried st1 = running st"
  "handed_on s st st1 \<Longrightarrow> mset (carried st1) = add_mset s (mset (running st))"
  by (auto simp: carried_def suspended_def ended_def handed_on_def running_def)

lemma filter_filter_length: "length (filter P (filter Q xs)) \<le> length (filter P xs)"
  by (induction xs) auto

definition loads :: "nat \<Rightarrow> 'a rollouter \<Rightarrow> 'a rollouter \<Rightarrow> bool" where
  "loads n st st1 \<longleftrightarrow> steady st st1 \<and> length (carried st1) \<le> n + length (running st) \<and> ro_proc st1 \<noteq> AwaitGet"

lemma loads_results:
  "suspended st st1 \<Longrightarrow> loads 0 st st1"
  "ended st st1 \<Longrightarrow> loads 0 st st1"
  "handed_on s st st1 \<Longrightarrow> loads 1 st st1"
proof -
  show "suspended st st1 \<Longrightarrow> loads 0 st st1"
    using carried_results(1) [of st st1] by (auto simp: loads_def suspended_def)
  show "ended st st1 \<Longrightarrow> loads 0 st st1"
    using carried_results(2) [of st st1] by (auto simp: loads_def ended_def)
  show "handed_on s st st1 \<Longrightarrow> loads 1 st st1"
    using carried_results(3) [of s st st1, THEN arg_cong [where f = size]]
    by (auto simp: loads_def handed_on_def)
qed

lemma loads_settle:
  assumes "loads n (retire ids st) (k (retire ids st))"
  shows "loads n st (settle ids st k)"
proof -
  have drop: "length (running (retire ids st)) \<le> length (running st)"
    using filter_filter_length by (simp add: running_def retire_def)
  have "steady st (retire ids st)" by (rule retire_facts)
  then have k: "loads n st (k (retire ids st))" using assms drop by (auto simp: loads_def intro: steady_trans)
  have c: "loads n st ((retire ids st)\<lparr>ro_proc := Crashed\<rparr>)"
    using drop by (auto simp: loads_def carried_def running_def steady_def around_def retire_def)
  show ?thesis by (rule settle_cases [of st ids k]) (simp_all add: k c)
qed

lemma proc_step_carried:
  assumes "proc_step q st = Some st1"
  obtains (same) "around st1 = around st" "ro_staleness st1 = ro_staleness st"
      "length (carried st1) \<le> length (carried st)" "ro_proc st1 = AwaitGet \<Longrightarrow> ro_staleness st < ro_max_required st"
    | (pulled) "around st1 = around st" "ro_proc st = AwaitGet" "ro_staleness st1 = Suc (ro_staleness st)"
      "length (carried st1) \<le> Suc (length (carried st))" "ro_proc st1 \<noteq> AwaitGet"
proof -
  have keep: thesis if "loads n st st1" "length (held_of (ro_proc st)) = n" for n
    by (rule same) (use that in \<open>auto simp: loads_def steady_def carried_def\<close>)
  have take: thesis if "loads n (st\<lparr>ro_pending := p, ro_staleness := Suc (ro_staleness st)\<rparr>) st1" "n \<le> 1"
      "ro_proc st = AwaitGet" for n p
    by (rule pulled) (use that in \<open>auto simp: loads_def steady_def carried_def running_def around_def\<close>)
  have settle_after_drain: "loads 0 st (settle ids st after_drain)"
    and settle_throttle: "loads 1 st (settle ids st (throttle s))"
    and settle_end: "loads 0 st (settle ids st end_loop)" for ids s
    by (rule loads_settle, rule loads_results, rule suspended_tops throttle_handed end_loop_ended)+
  from assms show ?thesis
  proof (cases rule: proc_step_cases)
    case stay
    have "held_of (ro_proc st) = []" using stay(2) by auto
    then show ?thesis using keep [OF loads_results(1) [OF stay(1)]] by simp
  next
    case get
    show ?thesis by (rule same) (use get in \<open>auto simp: carried_def running_def around_def\<close>)
  next
    case wait_drain
    show ?thesis by (rule same) (use wait_drain in \<open>auto simp: carried_def running_def around_def\<close>)
  next
    case (drained ids)
    have "held_of (ro_proc st) = []" using drained(1) by auto
    then show ?thesis using keep [of 0] settle_after_drain unfolding drained(3) by simp
  next
    case (pass s)
    have "length (held_of (ro_proc st)) = 1" using pass(1) by auto
    then show ?thesis by (rule keep [OF loads_results(3) [OF pass(2)]])
  next
    case (throttled s)
    then show ?thesis using keep [of 1] settle_throttle unfolding throttled(2) by simp
  next
    case (pull s rest)
    then show ?thesis using take [OF loads_results(3) [OF pull(3)]] by simp
  next
    case (pull_end rest)
    then show ?thesis using take [OF loads_results(2) [OF pull_end(3)]] by simp
  next
    case end_lock
    then show ?thesis using keep [OF loads_results(2) [OF end_lock(2)]] by simp
  next
    case end_wait
    then show ?thesis using keep [of 0] settle_end unfolding end_wait(2) by simp
  qed
qed

lemma proc_step_locked:
  assumes "proc_step q st = Some st1" "lock_ok st" "reset_holds (ro_reset st)"
  shows "running st1 = running st"
proof -
  have l: "ro_lock st" "\<not> proc_holds (ro_proc st)" using assms(2,3) by (auto simp: lock_ok_def)
  have h: "running b = running a" if "handed_on s a b" "ro_lock a" for s a b
    using that by (auto simp: handed_on_def running_def)
  from assms(1) show ?thesis
  proof (cases rule: proc_step_cases)
    case (pull s rest)
    then show ?thesis using h [OF pull(3)] l by (simp add: running_def)
  next
    case (pass s)
    then show ?thesis using h [OF pass(2) l(1)] by simp
  qed (use l in \<open>auto simp: suspended_def ended_def running_def\<close>)
qed

text \<open>A task that stops running.\<close>

lemma filter_update:
  assumes "n < length xs" "P (xs ! n)" "\<not> P y"
  shows "mset (map f (filter P xs)) = add_mset (f (xs ! n)) (mset (map f (filter P (xs[n := y]))))"
proof -
  have "xs = take n xs @ xs ! n # drop (Suc n) xs" using assms(1) by (rule id_take_nth_drop)
  then have "mset (map f (filter P xs)) = mset (map f (filter P (take n xs))) + add_mset (f (xs ! n)) (mset (map f (filter P (drop (Suc n) xs))))"
    using assms(2) by (smt (verit) filter.simps(2) filter_append list.simps(9) map_append mset.simps(2) mset_append)
  then show ?thesis using assms by (simp add: upd_conv_take_nth_drop)
qed

lemma filter_update_same:
  assumes "n < length xs" "P (xs ! n) = P y" "f (xs ! n) = f y"
  shows "map f (filter P (xs[n := y])) = map f (filter P xs)"
proof -
  have xs: "xs = take n xs @ xs ! n # drop (Suc n) xs" using assms(1) by (rule id_take_nth_drop)
  have "map f (filter P (xs[n := y])) = map f (filter P (take n xs @ xs ! n # drop (Suc n) xs))"
    unfolding upd_conv_take_nth_drop [OF assms(1)] using assms(2,3) by auto
  then show ?thesis using xs by simp
qed

lemma set_status_running:
  assumes "n < length (ro_active st)" "ro_active st ! n = (i, s, Running)" "x \<noteq> Running"
  shows "mset (running st) = add_mset s (mset (running (set_status n x st)))"
  using filter_update [of n "ro_active st" "\<lambda>(i, s, x). x = Running" "(i, s, x)" "\<lambda>(i, s, x). s"] assms
  by (simp add: running_def set_status_def)

lemma set_status_unsent:
  assumes "n < length (ro_active st)" "ro_active st ! n = (i, s, Running)"
  shows "unsent (set_status n Raised st) = unsent st"
    and "mset (unsent st) = add_mset s (mset (unsent (set_status n (Answered b) st)))"
  using filter_update_same [of n "ro_active st" "\<lambda>(i, s, x). x = Running \<or> x = Raised" "(i, s, Raised)" "\<lambda>(i, s, x). s"]
    filter_update [of n "ro_active st" "\<lambda>(i, s, x). x = Running \<or> x = Raised" "(i, s, Answered b)" "\<lambda>(i, s, x). s"] assms
  by (simp_all add: unsent_def set_status_def)

lemma set_status_answered:
  assumes "n < length (ro_active st)" "ro_active st ! n = (i, s, Answered b)"
  shows "running (set_status n Returned st) = running st" "unsent (set_status n Returned st) = unsent st"
  using filter_update_same [of n "ro_active st" "\<lambda>(i, s, x). x = Running" "(i, s, Returned)" "\<lambda>(i, s, x). s"]
    filter_update_same [of n "ro_active st" "\<lambda>(i, s, x). x = Running \<or> x = Raised" "(i, s, Returned)" "\<lambda>(i, s, x). s"] assms
  by (simp_all add: running_def unsent_def set_status_def)

lemma set_status_around:
  "around (set_status n x st) = around st" "ro_staleness (set_status n x st) = ro_staleness st"
  "ro_proc (set_status n x st) = ro_proc st" "ro_lock (set_status n x st) = ro_lock st"
  "ro_pending (set_status n x st) = ro_pending st" "ro_next_task (set_status n x st) = ro_next_task st"
  "length (ro_active (set_status n x st)) = length (ro_active st)"
  "map fst (ro_active (set_status n x st)) = map fst (ro_active st)"
proof -
  show "map fst (ro_active (set_status n x st)) = map fst (ro_active st)"
  proof (cases "n < length (ro_active st)")
    case True
    then have "fst (ro_active st ! n) = map fst (ro_active st) ! n" by simp
    then show ?thesis by (simp add: set_status_def map_update)
  qed (simp add: set_status_def list_update_beyond)
qed (simp_all add: set_status_def around_def)

lemma tasks_ok_set_status:
  assumes "tasks_ok st" "n < length (ro_active st)" "\<not> task_done (snd (snd (ro_active st ! n)))"
  shows "tasks_ok (set_status n x st)"
proof -
  have sub: "t \<in> set (ro_active (set_status n x st)) \<Longrightarrow> t \<in> set (ro_active st) \<or> t = (fst (ro_active st ! n), fst (snd (ro_active st ! n)), x)" for t
    unfolding set_status_def using set_update_subset_insert by fastforce
  have in_set: "ro_active st ! n \<in> set (ro_active st)" using assms(2) by simp
  have fresh: "fst t < ro_next_task st" if "t \<in> set (ro_active (set_status n x st))" for t
    using sub [OF that] assms(1) in_set by (auto simp: tasks_ok_def)
  have "fst (ro_active st ! n) \<notin> set ids" if "ro_proc st = DrainLock ids" for ids
  proof -
    obtain i s y where t: "ro_active st ! n = (i, s, y)" by (cases "ro_active st ! n") auto
    with in_set assms(1) that have "i \<in> set ids \<longrightarrow> task_done y" by (fastforce simp: tasks_ok_def)
    with assms(3) t show ?thesis by simp
  qed
  then have drain: "task_done y" if "ro_proc st = DrainLock ids" "(i, s, y) \<in> set (ro_active (set_status n x st))" "i \<in> set ids" for ids i s y
    using sub [OF that(2)] that assms(1) by (auto simp: tasks_ok_def)
  show ?thesis using assms(1) fresh drain by (auto simp: tasks_ok_def set_status_around)
qed

lemma queued_put_le: "length (filter P (mq_queue (mh_queue (mq_step h (Put x))))) \<le> (if P x then 1 else 0) + length (filter P (mq_queue (mh_queue h)))"
proof -
  have d: "length (filter P (drop n xs)) \<le> length (filter P xs)" for n and xs :: "'a list"
    by (metis append_take_drop_id filter_append le_add2 length_append)
  have t: "length (filter P (tl xs)) \<le> length (filter P xs)" for xs :: "'a list"
    using d [of 1 xs] by (simp add: drop_Suc)
  have a: "length (filter P (deque_append m q x)) \<le> (if P x then 1 else 0) + length (filter P q)" for m q
    using d [of "Suc (length q) - m" "q @ [x]"] by (simp add: deque_append_def split: if_splits)
  show ?thesis
    using a [of "mq_max_queue_size (mh_queue h)" "mq_queue (mh_queue h)"]
      a [of "mq_max_queue_size (mh_queue h)" "tl (mq_queue (mh_queue h))"] t [of "mq_queue (mh_queue h)"]
    by (auto simp: put_sample_def Let_def split: sum.splits if_splits)
qed

lemma queued_get_le: "length (filter P (mq_queue (mh_queue (mq_step h Get)))) \<le> length (filter P (mq_queue (mh_queue h)))"
  by (auto simp: get_sample_def split: list.splits)

definition bound_ok :: "'a rollouter \<Rightarrow> bool" where
  "bound_ok st \<longleftrightarrow> in_flight st \<le> Suc (ro_staleness st) \<and> in_flight st \<le> Suc (ro_max_required st) \<and>
     (ro_proc st = AwaitGet \<longrightarrow> in_flight st \<le> ro_max_required st) \<and>
     (case ro_reset st of
        ResetAsk a \<Rightarrow> length (running st) \<le> a
      | ResetGot a q \<Rightarrow> length (running st) + length (queued st) \<le> a + q
      | _ \<Rightarrow> True)"

lemma in_flight_carried: "in_flight st = length (carried st) + length (queued st)"
  by (simp add: in_flight_def carried_def)

lemma proc_step_bound_ok:
  assumes "proc_step q st = Some st1" "lock_ok st" "bound_ok st"
  shows "bound_ok st1"
proof -
  have locked: "reset_holds (ro_reset st) \<Longrightarrow> running st1 = running st"
    using proc_step_locked assms(1,2) by blast
  have ask: "around st1 = around st \<Longrightarrow> (case ro_reset st1 of ResetAsk a \<Rightarrow> length (running st1) \<le> a
      | ResetGot a q \<Rightarrow> length (running st1) + length (queued st1) \<le> a + q | _ \<Rightarrow> True)"
    using assms(3) locked by (auto simp: bound_ok_def around_def queued_def split: reset_point.splits)
  from assms(1) show ?thesis
  proof (cases rule: proc_step_carried)
    case same
    have "queued st1 = queued st" "ro_max_required st1 = ro_max_required st"
      using same(1) by (auto simp: around_def queued_def)
    with same assms(3) ask [OF same(1)] show ?thesis by (auto simp: bound_ok_def in_flight_carried)
  next
    case pulled
    have "queued st1 = queued st" "ro_max_required st1 = ro_max_required st"
      using pulled(1) by (auto simp: around_def queued_def)
    with pulled assms(3) ask [OF pulled(1)] show ?thesis by (auto simp: bound_ok_def in_flight_carried)
  qed
qed

text \<open>The other events.\<close>

lemma held_of_le: "length (held_of p) \<le> 1"
  by (cases p) auto

lemma task_put_cases:
  assumes "task_put n st = Some st1"
  obtains i s where "n < length (ro_active st)" "ro_active st ! n = (i, s, Running)"
    "st1 = set_status n Raised st"
  | i s b where "n < length (ro_active st)" "ro_active st ! n = (i, s, Running)"
    "fst (put_sample (mh_queue (ro_mq st)) (Some s)) = Inr b"
    "st1 = set_status n (Answered b) (st\<lparr>ro_mq := mq_step (ro_mq st) (Put (Some s))\<rparr>)"
  using assms by (auto simp: task_put_def split: if_splits prod.splits task_status.splits sum.splits)

lemma task_return_cases:
  assumes "task_return n st = Some st1"
  obtains i s b st0 where "n < length (ro_active st)" "ro_active st ! n = (i, s, Answered b)"
    "st1 = set_status n Returned st0" "ro_active st0 = ro_active st" "ro_next_task st0 = ro_next_task st"
    "steady st st0" "ro_proc st0 = ro_proc st" "ro_lock st0 = ro_lock st"
  using assms by (auto simp: task_return_def steady_def around_def split: if_splits prod.splits task_status.splits)

lemma task_fail_cases:
  assumes "task_fail n st = Some st1"
  obtains i s where "n < length (ro_active st)" "ro_active st ! n = (i, s, Running)" "st1 = set_status n Raised st"
  using assms by (auto simp: task_fail_def split: if_splits prod.splits task_status.splits)

text \<open>Changes outside the tasks: they touch no field the invariants read.\<close>

definition aside :: "'a rollouter \<Rightarrow> 'a rollouter \<Rightarrow> bool" where
  "aside st st1 \<longleftrightarrow> ro_active st1 = ro_active st \<and> ro_next_task st1 = ro_next_task st \<and> ro_proc st1 = ro_proc st \<and>
     ro_lock st1 = ro_lock st \<and> ro_reset st1 = ro_reset st \<and> ro_staleness st1 = ro_staleness st \<and>
     ro_max_required st1 = ro_max_required st \<and> length (queued st1) \<le> length (queued st)"

lemma monitor_step_frame:
  assumes "monitor_step q st = Some st1"
  shows "st1 = st\<lparr>ro_paused := ro_paused st1, ro_resume := ro_resume st1, ro_monitor := ro_monitor st1\<rparr>"
  using assms
  by (auto simp: monitor_step_def monitor_check_def monitor_resume_def split: monitor_point.splits if_splits)

lemma aside_events:
  "feed_step st = Some st1 \<Longrightarrow> aside st st1"
  "monitor_step q st = Some st1 \<Longrightarrow> aside st st1"
  "close_step st = Some st1 \<Longrightarrow> aside st st1"
  "aside st (st\<lparr>ro_mq := mq_step (ro_mq st) Get\<rparr>)"
  "aside st (update_max_concurrent_samples k st)"
proof -
  show "feed_step st = Some st1 \<Longrightarrow> aside st st1"
    by (auto simp: feed_step_def aside_def queued_def split: if_splits feed.splits list.splits)
  show "aside st st1" if "monitor_step q st = Some st1"
    by (subst monitor_step_frame [OF that]) (simp add: aside_def queued_def)
  show "close_step st = Some st1 \<Longrightarrow> aside st st1"
    using queued_put_le [of "\<lambda>x. x \<noteq> None" "ro_mq st" None] by (auto simp: close_step_def aside_def queued_def split: if_splits)
  show "aside st (st\<lparr>ro_mq := mq_step (ro_mq st) Get\<rparr>)"
    using queued_get_le [of "\<lambda>x. x \<noteq> None" "ro_mq st"] by (simp add: aside_def queued_def)
  show "aside st (update_max_concurrent_samples k st)"
    by (simp add: aside_def queued_def update_max_concurrent_samples_def)
qed

definition ro_safe :: "'a rollouter \<Rightarrow> bool" where
  "ro_safe st \<longleftrightarrow> lock_ok st \<and> tasks_ok st \<and> bound_ok st"

lemma aside_safe: "aside st st1 \<Longrightarrow> ro_safe st \<Longrightarrow> ro_safe st1"
  unfolding aside_def ro_safe_def lock_ok_def tasks_ok_def bound_ok_def in_flight_def running_def
  by (auto split: reset_point.splits)

lemma bound_ok_fewer:
  assumes "bound_ok st" "length (running st1) + length (queued st1) \<le> length (running st) + length (queued st)"
    "length (running st1) \<le> length (running st)" "ro_proc st1 = ro_proc st" "ro_reset st1 = ro_reset st"
    "ro_staleness st1 = ro_staleness st" "ro_max_required st1 = ro_max_required st"
  shows "bound_ok st1"
  using assms by (auto simp: bound_ok_def in_flight_def split: reset_point.splits)

lemma task_put_safe:
  assumes "task_put n st = Some st1" "ro_safe st"
  shows "ro_safe st1"
proof -
  have base: "ro_safe (set_status n x st0)"
    if "n < length (ro_active st)" "ro_active st ! n = (i, s, Running)" "x \<noteq> Running"
      "st0 = st\<lparr>ro_mq := h\<rparr>" "length (queued st0) \<le> Suc (length (queued st))" for i s x h st0
  proof -
    have "running st0 = running st" using that(4) by (simp add: running_def)
    then have r: "length (running st) = Suc (length (running (set_status n x st0)))"
      using arg_cong [OF set_status_running [of n st0 i s x], of size] that(1-4) by simp
    have q: "queued (set_status n x st0) = queued st0" by (simp add: queued_def set_status_def)
    have "tasks_ok st0" using assms(2) that(4) by (simp add: ro_safe_def tasks_ok_def)
    then have "tasks_ok (set_status n x st0)" by (rule tasks_ok_set_status) (use that in simp_all)
    moreover have "lock_ok (set_status n x st0)" using assms(2) that(4) by (simp add: ro_safe_def lock_ok_def set_status_def)
    moreover have "bound_ok (set_status n x st0)"
      by (rule bound_ok_fewer [of st]) (use assms(2) r q that in \<open>simp_all add: ro_safe_def set_status_def\<close>)
    ultimately show ?thesis by (simp add: ro_safe_def)
  qed
  from assms(1) show ?thesis
  proof (cases rule: task_put_cases)
    case (1 i s)
    then show ?thesis using base [OF 1(1,2), of Raised st "ro_mq st"] by simp
  next
    case (2 i s b)
    have "length (queued (st\<lparr>ro_mq := mq_step (ro_mq st) (Put (Some s))\<rparr>)) \<le> Suc (length (queued st))"
      using queued_put_le [of "\<lambda>x. x \<noteq> None" "ro_mq st" "Some s"] unfolding queued_def by simp
    from base [OF 2(1,2) _ refl this] show ?thesis unfolding 2(4) by simp
  qed
qed

lemma task_fail_safe:
  assumes "task_fail n st = Some st1" "ro_safe st"
  shows "ro_safe st1"
proof -
  from assms(1) obtain i s where t: "n < length (ro_active st)" "ro_active st ! n = (i, s, Running)"
    "st1 = set_status n Raised st" by (rule task_fail_cases)
  have r: "length (running st) = Suc (length (running st1))"
    using arg_cong [OF set_status_running [of n st i s Raised], of size] t by simp
  have "tasks_ok st1" unfolding t(3) by (rule tasks_ok_set_status) (use assms(2) t in \<open>simp_all add: ro_safe_def\<close>)
  moreover have "bound_ok st1"
    by (rule bound_ok_fewer [of st]) (use assms(2) r t in \<open>simp_all add: ro_safe_def set_status_def queued_def\<close>)
  ultimately show ?thesis using assms(2) t(3) by (simp add: ro_safe_def lock_ok_def set_status_def)
qed

lemma task_return_safe:
  assumes "task_return n st = Some st1" "ro_safe st"
  shows "ro_safe st1"
proof -
  from assms(1) obtain i s b st0 where t: "n < length (ro_active st)" "ro_active st ! n = (i, s, Answered b)"
    "st1 = set_status n Returned st0" "ro_active st0 = ro_active st" "ro_next_task st0 = ro_next_task st"
    "steady st st0" "ro_proc st0 = ro_proc st" "ro_lock st0 = ro_lock st" by (rule task_return_cases)
  have "running st0 = running st" using t(4) by (simp add: running_def)
  then have r: "running st1 = running st" using set_status_answered(1) [of n st0] t by simp
  have s0: "tasks_ok st0" using assms(2) t by (simp add: ro_safe_def tasks_ok_def)
  have "tasks_ok st1" unfolding t(3) by (rule tasks_ok_set_status [OF s0]) (use t in simp_all)
  moreover have "bound_ok st1"
    by (rule bound_ok_fewer [of st]) (use assms(2) r t in \<open>auto simp: ro_safe_def set_status_def queued_def steady_def around_def\<close>)
  moreover have "lock_ok st1" using assms(2) t by (auto simp: ro_safe_def lock_ok_def set_status_def steady_def around_def)
  ultimately show ?thesis by (simp add: ro_safe_def)
qed

lemma running_update [simp]:
  "running (st\<lparr>ro_paused := v_paused\<rparr>) = running st" "queued (st\<lparr>ro_paused := v_paused\<rparr>) = queued st"
  "running (st\<lparr>ro_resume := v_resume\<rparr>) = running st" "queued (st\<lparr>ro_resume := v_resume\<rparr>) = queued st"
  "running (st\<lparr>ro_lock := v_lock\<rparr>) = running st" "queued (st\<lparr>ro_lock := v_lock\<rparr>) = queued st"
  "running (st\<lparr>ro_reset := v_reset\<rparr>) = running st" "queued (st\<lparr>ro_reset := v_reset\<rparr>) = queued st"
  "running (st\<lparr>ro_staleness := v_staleness\<rparr>) = running st" "queued (st\<lparr>ro_staleness := v_staleness\<rparr>) = queued st"
  "running (st\<lparr>ro_completed_steps := v_completed_steps\<rparr>) = running st" "queued (st\<lparr>ro_completed_steps := v_completed_steps\<rparr>) = queued st"
  "running (st\<lparr>ro_step_generated := v_step_generated\<rparr>) = running st" "queued (st\<lparr>ro_step_generated := v_step_generated\<rparr>) = queued st"
  by (simp_all add: running_def queued_def)

lemma reset_step_safe:
  assumes "reset_step st = Some st1" "ro_safe st"
  shows "ro_safe st1"
proof -
  have l: "length (running st) \<le> length (ro_active st)" by (simp add: running_def)
  have begin_ok: "ro_safe (reset_begin st)" if "\<not> ro_lock st"
    using assms(2) that l
    by (auto simp: ro_safe_def lock_ok_def tasks_ok_def bound_ok_def in_flight_def reset_begin_def)
  show ?thesis
  proof (cases "ro_reset st")
    case ResetIdle
    show ?thesis
    proof (cases "reset_may_lock st")
      case True
      then have "st1 = reset_begin st" "\<not> ro_lock st" using assms(1) ResetIdle by (auto simp: reset_step_def reset_may_lock_def)
      then show ?thesis using begin_ok by simp
    next
      case False
      then have "st1 = st\<lparr>ro_reset := ResetLock\<rparr>" using assms(1) ResetIdle by (simp add: reset_step_def)
      then show ?thesis using assms(2) ResetIdle
        by (simp add: ro_safe_def lock_ok_def tasks_ok_def bound_ok_def in_flight_def)
    qed
  next
    case ResetLock
    then show ?thesis using assms begin_ok by (auto simp: reset_step_def split: if_splits)
  next
    case (ResetAsk a)
    have q: "length (queued st) \<le> length (mq_queue (mh_queue (ro_mq st)))" by (simp add: queued_def)
    have "st1 = st\<lparr>ro_reset := ResetGot a (length (mq_queue (mh_queue (ro_mq st))))\<rparr>"
      using assms(1) ResetAsk by (simp add: reset_step_def get_queue_size_def)
    with assms(2) q ResetAsk show ?thesis
      by (simp add: ro_safe_def lock_ok_def tasks_ok_def bound_ok_def in_flight_def)
  next
    case (ResetGot a q)
    then obtain c g where st1: "st1 = st\<lparr>ro_staleness := a + q, ro_reset := ResetIdle, ro_lock := False,
        ro_completed_steps := c, ro_step_generated := g\<rparr>"
      using assms(1) by (auto simp: reset_step_def)
    show ?thesis using assms(2) ResetGot held_of_le [of "ro_proc st"] unfolding st1
      by (simp add: ro_safe_def lock_ok_def tasks_ok_def bound_ok_def in_flight_def)
  qed
qed

lemma ro_step_enabled: "ro_step st e = Some st1 \<Longrightarrow> ro_enabled st e = Some st1"
  by (auto simp: ro_step_def split: proc_point.splits if_splits)

lemma ro_step_safe:
  assumes "ro_step st e = Some st1" "ro_safe st"
  shows "ro_safe st1"
proof -
  have e: "ro_enabled st e = Some st1" using ro_step_enabled [OF assms(1)] .
  show ?thesis
  proof (cases e)
    case (Proc q)
    with e have p: "proc_step q st = Some st1" by simp
    from assms(2) show ?thesis
      using proc_step_bound_ok [OF p] proc_step_tasks_ok [OF p] proc_step_lock_ok [OF p] by (simp add: ro_safe_def)
  next
    case Consume
    with e have "st1 = st\<lparr>ro_mq := mq_step (ro_mq st) Get\<rparr>" by simp
    then show ?thesis using assms(2) aside_events(4) aside_safe by blast
  next
    case (Replicas k)
    with e have "aside st st1" using aside_events(5) by auto
    then show ?thesis using assms(2) by (rule aside_safe)
  next
    case Feed
    with e have "aside st st1" using aside_events(1) by auto
    then show ?thesis using assms(2) by (rule aside_safe)
  next
    case (Monitor q)
    with e have "aside st st1" using aside_events(2) by auto
    then show ?thesis using assms(2) by (rule aside_safe)
  next
    case Close
    with e have "aside st st1" using aside_events(3) by auto
    then show ?thesis using assms(2) by (rule aside_safe)
  next
    case (TaskPut n)
    with e assms(2) task_put_safe show ?thesis by auto
  next
    case (TaskReturn n)
    with e assms(2) task_return_safe show ?thesis by auto
  next
    case (TaskFail n)
    with e assms(2) task_fail_safe show ?thesis by auto
  next
    case Reset
    with e assms(2) reset_step_safe show ?thesis by auto
  qed
qed

lemma ro_start_safe: "ro_safe (ro_start m k c samples mq)" if "mq_queue mq = []"
  using that by (simp add: ro_safe_def ro_start_def lock_ok_def tasks_ok_def bound_ok_def in_flight_def running_def queued_def mq_start_def)

lemma reach_safe: "ro_reach start st \<Longrightarrow> ro_safe start \<Longrightarrow> ro_safe st"
  by (induction rule: ro_reach.induct) (auto intro: ro_step_safe)

end
