(* ===== verification/AsyncRollouterRuns.thy ===== *)
theory AsyncRollouterRuns
  imports AsyncRollouterSafety
begin

text \<open>
  The runs of the rollouter: every sample is delivered exactly once, the concurrency limit holds,
  and where the coroutines stop for good.
\<close>

subsection \<open>What becomes of every sample\<close>

definition somes :: "'a option list \<Rightarrow> 'a list" where
  "somes xs = List.map_filter (\<lambda>x. x) xs"

lemma somes_simps [simp]:
  "somes [] = []" "somes (None # xs) = somes xs" "somes (Some x # xs) = x # somes xs"
  "somes (xs @ ys) = somes xs @ somes ys" "somes (map Some zs) = zs"
  by (simp_all add: somes_def map_filter_def comp_def)

fun feed_rest :: "'a feed \<Rightarrow> 'a list" where
  "feed_rest (Feeding ss) = ss"
| "feed_rest FeedDone = []"

definition sent :: "'a rollouter \<Rightarrow> 'a list" where
  "sent st = somes (mh_put (ro_mq st))"

definition in_hand :: "'a rollouter \<Rightarrow> 'a multiset" where
  "in_hand st = mset (somes (ro_pending st)) + mset (held_of (ro_proc st)) + mset (unsent st)"

definition accounted :: "'a list \<Rightarrow> 'a rollouter \<Rightarrow> bool" where
  "accounted samples st \<longleftrightarrow> ro_proc st = Crashed \<or>
     mset samples = mset (feed_rest (ro_feed st)) + in_hand st + mset (sent st)"

definition feed_ok :: "'a rollouter \<Rightarrow> bool" where
  "feed_ok st \<longleftrightarrow> ro_proc st = Crashed \<or>
     (case ro_feed st of
        Feeding ss \<Rightarrow> None \<notin> set (ro_pending st) \<and> ro_proc st \<notin> end_points
      | FeedDone \<Rightarrow> if ro_proc st \<in> end_points then ro_pending st = []
                    else \<exists>ss. ro_pending st = map Some ss @ [None]) \<and>
     (ro_proc st = Finished \<longrightarrow> ro_active st = [])"

lemma unsent_results:
  "suspended st st1 \<Longrightarrow> mset (held_of (ro_proc st1)) + mset (unsent st1) = mset (unsent st)"
  "ended st st1 \<Longrightarrow> mset (held_of (ro_proc st1)) + mset (unsent st1) = mset (unsent st)"
  "handed_on s st st1 \<Longrightarrow> mset (held_of (ro_proc st1)) + mset (unsent st1) = add_mset s (mset (unsent st))"
  by (auto simp: suspended_def ended_def handed_on_def unsent_def)

lemma settle_account:
  assumes "\<forall>(i, s, x) \<in> set (ro_active st). i \<in> set ids \<longrightarrow> task_done x"
    and "mset (held_of (ro_proc (k (retire ids st)))) + mset (unsent (k (retire ids st))) = M + mset (unsent (retire ids st))"
    and "ro_proc (settle ids st k) \<noteq> Crashed"
  shows "mset (held_of (ro_proc (settle ids st k))) + mset (unsent (settle ids st k)) = M + mset (unsent st)"
proof (rule settle_cases [of st ids k])
  assume "settle ids st k = (retire ids st)\<lparr>ro_proc := Crashed\<rparr>"
  then show ?thesis using assms(3) by simp
next
  assume "\<not> (\<exists>(i, s, x) \<in> set (ro_active st). i \<in> set ids \<and> x = Raised)" "settle ids st k = k (retire ids st)"
  then show ?thesis using assms(2) retire_unsent [OF assms(1)] by simp
qed

lemma settle_pending:
  assumes "\<And>st0. steady st0 (k st0)"
  shows "steady st (settle ids st k)"
proof (rule settle_cases [of st ids k])
  assume "settle ids st k = k (retire ids st)"
  then show ?thesis using steady_trans [OF retire_facts(1) assms] by simp
qed (simp add: steady_def around_def retire_def)

lemma proc_step_account:
  assumes "proc_step q st = Some st1" and ok: "tasks_ok st" and "ro_proc st1 \<noteq> Crashed"
  shows "in_hand st1 = in_hand st"
proof -
  have fin: "\<forall>(i, s, x) \<in> set (ro_active st). i \<in> set (done_ids st) \<longrightarrow> task_done x"
    using done_ids_done [of st] ok by (auto simp: tasks_ok_def)
  have p: "steady st st1 \<Longrightarrow> mset (held_of (ro_proc st1)) + mset (unsent st1) = mset (held_of (ro_proc st)) + mset (unsent st)
      \<Longrightarrow> in_hand st1 = in_hand st"
    by (simp add: in_hand_def steady_def add.assoc)
  have steady_k: "steady a (after_drain a)" "steady a (throttle s a)" "steady a (end_loop a)" for a s
    using after_drain_facts(1) [of a] throttle_handed [of s a] end_loop_ended [of a] by (auto simp: handed_on_def ended_def)
  from assms(1) show ?thesis
  proof (cases rule: proc_step_cases)
    case stay
    then have "held_of (ro_proc st) = []" by auto
    then show ?thesis using unsent_results(1) [OF stay(1)] stay(1) by (intro p) (auto simp: suspended_def)
  next
    case get
    then show ?thesis by (simp add: in_hand_def unsent_def)
  next
    case wait_drain
    then show ?thesis by (simp add: in_hand_def unsent_def)
  next
    case (drained ids)
    have h: "held_of (ro_proc st) = []" using drained(1) by auto
    have d: "\<forall>(i, s, x) \<in> set (ro_active st). i \<in> set ids \<longrightarrow> task_done x"
      using drained(1) fin ok by (auto simp: tasks_ok_def)
    have "mset (held_of (ro_proc (settle ids st after_drain))) + mset (unsent (settle ids st after_drain)) = {#} + mset (unsent st)"
      by (rule settle_account [OF d]) (use unsent_results(1) [OF suspended_tops(3)] assms(3) drained(3) in simp_all)
    then show ?thesis unfolding drained(3) [symmetric]
      using settle_pending [OF steady_k(1)] drained(3) by (intro p) (simp_all add: h)
  next
    case (pass s)
    then have "held_of (ro_proc st) = [s]" by auto
    then show ?thesis using unsent_results(3) [OF pass(2)] pass(2) by (intro p) (auto simp: handed_on_def)
  next
    case (throttled s)
    have "mset (held_of (ro_proc (settle (done_ids st) st (throttle s)))) + mset (unsent (settle (done_ids st) st (throttle s))) = {#s#} + mset (unsent st)"
      by (rule settle_account [OF fin]) (use unsent_results(3) [OF throttle_handed] assms(3) throttled(2) in simp_all)
    then show ?thesis unfolding throttled(2) [symmetric]
      using settle_pending [OF steady_k(2)] throttled by (intro p) simp_all
  next
    case (pull s rest)
    have u: "unsent (st\<lparr>ro_pending := rest, ro_staleness := Suc (ro_staleness st)\<rparr>) = unsent st" by (simp add: unsent_def)
    have "ro_pending st1 = rest" using pull(3) by (auto simp: handed_on_def steady_def)
    then show ?thesis using unsent_results(3) [OF pull(3)] pull(1,2) u by (simp add: in_hand_def)
  next
    case (pull_end rest)
    have u: "unsent (st\<lparr>ro_pending := rest, ro_staleness := Suc (ro_staleness st)\<rparr>) = unsent st" by (simp add: unsent_def)
    have "ro_pending st1 = rest" using pull_end(3) by (auto simp: ended_def steady_def)
    then show ?thesis using unsent_results(2) [OF pull_end(3)] pull_end(1,2) u by (simp add: in_hand_def)
  next
    case end_lock
    then show ?thesis using unsent_results(2) [OF end_lock(2)] by (intro p) (auto simp: ended_def)
  next
    case end_wait
    have "mset (held_of (ro_proc (settle (done_ids st) st end_loop))) + mset (unsent (settle (done_ids st) st end_loop)) = {#} + mset (unsent st)"
      by (rule settle_account [OF fin]) (use unsent_results(2) [OF end_loop_ended] assms(3) end_wait(2) in simp_all)
    then show ?thesis unfolding end_wait(2) [symmetric]
      using settle_pending [OF steady_k(3)] end_wait by (intro p) simp_all
  qed
qed

lemma settle_points:
  assumes "\<And>st0. ro_proc (k st0) \<in> P" "Crashed \<in> P"
  shows "ro_proc (settle ids st k) \<in> P"
  using assms by (rule_tac settle_cases [of st ids k]) simp_all

lemma proc_step_points:
  assumes "proc_step q st = Some st1"
  shows "around st1 = around st \<and>
    (ro_proc st1 = Crashed \<or>
     ro_proc st \<notin> end_points \<and> ro_proc st1 \<notin> end_points \<and>
       (ro_pending st1 = ro_pending st \<or> (\<exists>s. ro_pending st = Some s # ro_pending st1)) \<or>
     ro_proc st \<notin> end_points \<and> ro_proc st1 \<in> end_points \<and> ro_pending st = None # ro_pending st1 \<and>
       (ro_proc st1 = Finished \<longrightarrow> ro_active st1 = []) \<or>
     ro_proc st \<in> end_points \<and> ro_proc st1 \<in> end_points \<and> ro_pending st1 = ro_pending st \<and>
       (ro_proc st1 = Finished \<longrightarrow> ro_active st1 = []))"
proof -
  have h: "ro_proc b \<notin> end_points" if "handed_on s a b" for s and a b :: "'a rollouter"
    using that by (auto simp: handed_on_def)
  have ad: "ro_proc (after_drain a) \<notin> end_points" for a :: "'a rollouter"
    using after_drain_facts(5) [of a] by auto
  have en: "ro_proc (end_loop a) \<in> end_points" "ro_proc (end_loop a) = Finished \<Longrightarrow> ro_active (end_loop a) = []" for a :: "'a rollouter"
    using end_loop_ended [of a] by (auto simp: ended_def)
  have steady_k: "steady a (after_drain a)" "steady a (throttle s a)" "steady a (end_loop a)" for a s
    using after_drain_facts(1) [of a] throttle_handed [of s a] end_loop_ended [of a] by (auto simp: handed_on_def ended_def)
  from assms show ?thesis
  proof (cases rule: proc_step_cases)
    case stay
    then show ?thesis by (auto simp: suspended_def steady_def)
  next
    case get
    then show ?thesis by (simp add: around_def)
  next
    case wait_drain
    then show ?thesis by (simp add: around_def)
  next
    case (drained ids)
    have "steady st st1" unfolding drained(3) by (rule settle_pending steady_k)+
    moreover have "ro_proc st1 \<in> {p. p = Crashed \<or> p \<notin> end_points}"
      unfolding drained(3) by (rule settle_points) (use ad in blast)+
    ultimately
    show ?thesis using drained(1) by (auto simp: steady_def)
  next
    case (pass s)
    then show ?thesis using h [OF pass(2)] by (auto simp: handed_on_def steady_def)
  next
    case (throttled s)
    have "steady st st1" unfolding throttled(2) by (rule settle_pending steady_k)+
    moreover have "ro_proc st1 \<in> {p. p = Crashed \<or> p \<notin> end_points}"
      unfolding throttled(2) by (rule settle_points) (use h [OF throttle_handed] in blast)+
    ultimately show ?thesis using throttled(1) by (auto simp: steady_def)
  next
    case (pull s rest)
    then show ?thesis using h [OF pull(3)] by (auto simp: handed_on_def steady_def around_def)
  next
    case (pull_end rest)
    then show ?thesis by (auto simp: ended_def steady_def around_def)
  next
    case end_lock
    then show ?thesis by (auto simp: ended_def steady_def)
  next
    case end_wait
    have s: "steady st st1" unfolding end_wait(2) by (rule settle_pending steady_k)+
    have "ro_proc st1 = Crashed \<or> ro_proc st1 \<in> end_points \<and> (ro_proc st1 = Finished \<longrightarrow> ro_active st1 = [])"
      unfolding end_wait(2) using en by (rule_tac settle_cases [of st "done_ids st" end_loop]) auto
    with s show ?thesis using end_wait(1) by (auto simp: steady_def)
  qed
qed

definition ro_books :: "'a list \<Rightarrow> 'a rollouter \<Rightarrow> bool" where
  "ro_books samples st \<longleftrightarrow> tasks_ok st \<and> feed_ok st \<and> accounted samples st"

lemma proc_step_books:
  assumes "proc_step q st = Some st1" "ro_books samples st"
  shows "ro_books samples st1"
proof -
  have t: "tasks_ok st1" using proc_step_tasks_ok [OF assms(1)] assms(2) by (simp add: ro_books_def)
  have p: "ro_proc st \<noteq> Crashed" using assms(1) by (auto simp: proc_step_def)
  note pts = proc_step_points [OF assms(1)]
  have fd: "ro_feed st1 = ro_feed st" "sent st1 = sent st" using pts by (auto simp: around_def sent_def)
  have a: "accounted samples st1"
    using proc_step_account [OF assms(1)] assms(2) p fd
    by (cases "ro_proc st1 = Crashed") (simp_all add: accounted_def ro_books_def)
  have f: "feed_ok st" using assms(2) by (simp add: ro_books_def)
  have "feed_ok st1"
  proof (cases "ro_feed st")
    case (Feeding ss)
    with f p pts fd show ?thesis by (auto simp: feed_ok_def)
  next
    case FeedDone
    show ?thesis
    proof (cases "ro_proc st \<in> end_points")
      case True
      with f p pts fd FeedDone show ?thesis by (auto simp: feed_ok_def)
    next
      case False
      then obtain ss where ss: "ro_pending st = map Some ss @ [None]" using f p FeedDone by (auto simp: feed_ok_def)
      then have tail: "\<exists>ss. ro_pending st1 = map Some ss @ [None]" if "ro_pending st = Some s # ro_pending st1" for s
        using that by (cases ss) auto
      have nil: "ro_pending st1 = []" if "ro_pending st = None # ro_pending st1" using that ss by (cases ss) auto
      from pts consider "ro_proc st1 = Crashed"
        | "ro_proc st1 \<notin> end_points" "\<exists>ss. ro_pending st1 = map Some ss @ [None]"
        | "ro_proc st1 \<in> end_points" "ro_pending st1 = []" "ro_proc st1 = Finished \<longrightarrow> ro_active st1 = []"
        using False ss tail nil by metis
      then show ?thesis using fd FeedDone by cases (auto simp: feed_ok_def)
    qed
  qed
  with t a show ?thesis by (simp add: ro_books_def)
qed

text \<open>Steps that touch neither the feeder nor the processor.\<close>

definition outside :: "'a rollouter \<Rightarrow> 'a rollouter \<Rightarrow> bool" where
  "outside st st1 \<longleftrightarrow> ro_feed st1 = ro_feed st \<and> ro_pending st1 = ro_pending st \<and> ro_proc st1 = ro_proc st \<and>
     length (ro_active st1) = length (ro_active st) \<and> mset (unsent st1) + mset (sent st1) = mset (unsent st) + mset (sent st)"

lemma outside_books: "outside st st1 \<Longrightarrow> tasks_ok st1 \<Longrightarrow> ro_books samples st \<Longrightarrow> ro_books samples st1"
proof -
  assume o: "outside st st1" and t: "tasks_ok st1" and b: "ro_books samples st"
  have "ro_active st1 = [] \<longleftrightarrow> ro_active st = []" using o by (metis length_0_conv outside_def)
  moreover have "ro_feed st1 = ro_feed st" "ro_pending st1 = ro_pending st" "ro_proc st1 = ro_proc st"
    using o by (simp_all add: outside_def)
  ultimately have "feed_ok st1 = feed_ok st" by (cases "ro_feed st") (simp_all add: feed_ok_def)
  with b have "feed_ok st1" by (simp add: ro_books_def)
  moreover have "accounted samples st1" using o b by (auto simp: ro_books_def accounted_def outside_def in_hand_def)
  ultimately show "ro_books samples st1" using t by (simp add: ro_books_def)
qed

lemma mh_put_step:
  "mh_put (mq_step h (Put x)) = (case fst (put_sample (mh_queue h) x) of Inl e \<Rightarrow> mh_put h | Inr b \<Rightarrow> mh_put h @ [x])"
  "mh_put (mq_step h Get) = mh_put h"
  by (auto split: prod.splits sum.splits get_outcome.splits)

lemma outside_put:
  assumes "n < length (ro_active st)" "ro_active st ! n = (i, s, Running)"
    "fst (put_sample (mh_queue (ro_mq st)) (Some s)) = Inr b"
  shows "outside st (set_status n (Answered b) (st\<lparr>ro_mq := mq_step (ro_mq st) (Put (Some s))\<rparr>))"
proof -
  let ?st0 = "st\<lparr>ro_mq := mq_step (ro_mq st) (Put (Some s))\<rparr>"
  have u: "unsent ?st0 = unsent st" by (simp add: unsent_def)
  have "mset (unsent st) = add_mset s (mset (unsent (set_status n (Answered b) ?st0)))"
    using set_status_unsent(2) [of n ?st0 i s b] assms(1,2) u by simp
  moreover have "sent (set_status n (Answered b) ?st0) = sent st @ [s]"
    by (simp add: sent_def set_status_def mh_put_step assms(3) del: mq_step.simps)
  ultimately show ?thesis by (simp add: outside_def set_status_def del: mq_step.simps)
qed

lemma outside_tasks:
  "task_put n st = Some st1 \<Longrightarrow> outside st st1"
  "task_return n st = Some st1 \<Longrightarrow> outside st st1"
  "task_fail n st = Some st1 \<Longrightarrow> outside st st1"
proof -
  have raised: "outside st (set_status n Raised st)" if "n < length (ro_active st)" "ro_active st ! n = (i, s, Running)" for i s
    using set_status_unsent(1) [OF that] by (simp add: outside_def set_status_def sent_def)
  show "outside st st1" if "task_put n st = Some st1"
    using that by (cases rule: task_put_cases) (auto intro: raised outside_put simp del: mq_step.simps)
  show "outside st st1" if "task_fail n st = Some st1"
    using that by (cases rule: task_fail_cases) (auto intro: raised)
  show "outside st st1" if "task_return n st = Some st1"
  proof -
    from that obtain i s b st0 where t: "n < length (ro_active st)" "ro_active st ! n = (i, s, Answered b)"
      "st1 = set_status n Returned st0" "ro_active st0 = ro_active st" "ro_next_task st0 = ro_next_task st"
      "steady st st0" "ro_proc st0 = ro_proc st" "ro_lock st0 = ro_lock st" by (rule task_return_cases)
    have "unsent st0 = unsent st" using t(4) by (simp add: unsent_def)
    then have "unsent st1 = unsent st" using set_status_answered(2) [of n st0] t by simp
    then show ?thesis using t by (auto simp: outside_def set_status_def steady_def around_def sent_def)
  qed
qed

lemma outside_others:
  "reset_step st = Some st1 \<Longrightarrow> outside st st1"
  "monitor_step q st = Some st1 \<Longrightarrow> outside st st1"
  "outside st (st\<lparr>ro_mq := mq_step (ro_mq st) Get\<rparr>)"
  "outside st (update_max_concurrent_samples k st)"
proof -
  show "reset_step st = Some st1 \<Longrightarrow> outside st st1"
    by (auto simp: reset_step_def reset_begin_def outside_def unsent_def sent_def split: reset_point.splits if_splits)
  show "outside st st1" if "monitor_step q st = Some st1"
    by (subst monitor_step_frame [OF that]) (simp add: outside_def unsent_def sent_def)
  show "outside st (st\<lparr>ro_mq := mq_step (ro_mq st) Get\<rparr>)"
    by (simp add: outside_def sent_def unsent_def mh_put_step del: mq_step.simps)
  show "outside st (update_max_concurrent_samples k st)"
    by (simp add: outside_def unsent_def sent_def update_max_concurrent_samples_def)
qed

lemma feed_step_books:
  assumes "feed_step st = Some st1" "ro_books samples st"
  shows "ro_books samples st1"
proof -
  from assms(1) obtain ss where f: "ro_feed st = Feeding ss" by (auto simp: feed_step_def split: if_splits feed.splits)
  have t: "tasks_ok st1" using aside_events(1) [OF assms(1)] assms(2) by (simp add: ro_books_def tasks_ok_def aside_def)
  have pend: "ro_proc st = Crashed \<or> ro_proc st \<notin> end_points \<and> ro_pending st = map Some (somes (ro_pending st))"
  proof -
    have "None \<notin> set xs \<Longrightarrow> xs = map Some (somes xs)" for xs :: "'a option list"
    proof (induction xs)
      case (Cons x xs)
      then show ?case by (cases x) auto
    qed simp
    then show ?thesis using assms(2) f by (auto simp: ro_books_def feed_ok_def)
  qed
  show ?thesis
  proof (cases ss)
    case Nil
    then have st1: "st1 = st\<lparr>ro_pending := ro_pending st @ [None], ro_feed := FeedDone\<rparr>"
      using assms(1) f by (auto simp: feed_step_def split: if_splits)
    have "feed_ok st1" using pend unfolding st1 by (auto simp: feed_ok_def)
    moreover have "accounted samples st1"
      using assms(2) f Nil unfolding st1 by (auto simp: ro_books_def accounted_def in_hand_def sent_def unsent_def)
    ultimately show ?thesis using t by (simp add: ro_books_def)
  next
    case (Cons s rest)
    then have st1: "st1 = st\<lparr>ro_pending := ro_pending st @ [Some s], ro_feed := Feeding rest\<rparr>"
      using assms(1) f by (auto simp: feed_step_def split: if_splits)
    have "feed_ok st1" using assms(2) f unfolding st1 by (auto simp: ro_books_def feed_ok_def)
    moreover have "accounted samples st1"
      using assms(2) f Cons unfolding st1 by (auto simp: ro_books_def accounted_def in_hand_def sent_def unsent_def)
    ultimately show ?thesis using t by (simp add: ro_books_def)
  qed
qed

lemma close_step_books:
  assumes "close_step st = Some st1" "ro_books samples st"
  shows "ro_books samples st1"
proof -
  have st1: "st1 = st\<lparr>ro_feed := FeedDone, ro_mq := mq_step (ro_mq st) (Put None), ro_running := False\<rparr>"
    and c: "ro_proc st = Crashed \<or> ro_proc st = Finished \<and> ro_feed st = FeedDone"
    using assms(1) by (auto simp: close_step_def split: if_splits)
  have s: "sent st1 = sent st"
    unfolding st1 sent_def by (simp add: mh_put_step del: mq_step.simps split: sum.splits)
  have u: "unsent st1 = unsent st" "ro_pending st1 = ro_pending st" "ro_active st1 = ro_active st" "ro_proc st1 = ro_proc st"
    "ro_feed st1 = FeedDone" "tasks_ok st1 = tasks_ok st"
    unfolding st1 by (simp_all add: unsent_def tasks_ok_def)
  show ?thesis using assms(2) c s u by (auto simp: ro_books_def feed_ok_def accounted_def in_hand_def)
qed

lemma ro_step_books:
  assumes "ro_step st e = Some st1" "ro_safe st" "ro_books samples st"
  shows "ro_books samples st1"
proof -
  have e: "ro_enabled st e = Some st1" using ro_step_enabled [OF assms(1)] .
  have t: "tasks_ok st1" using ro_step_safe [OF assms(1,2)] by (simp add: ro_safe_def)
  note out = outside_books [OF _ t assms(3)]
  show ?thesis
  proof (cases e)
    case (Proc q)
    with e assms(3) show ?thesis using proc_step_books by simp
  next
    case Feed
    with e assms(3) show ?thesis using feed_step_books by simp
  next
    case Close
    with e assms(3) show ?thesis using close_step_books by simp
  next
    case Consume
    with e have "st1 = st\<lparr>ro_mq := mq_step (ro_mq st) Get\<rparr>" by simp
    then show ?thesis using out outside_others(3) by blast
  next
    case (Replicas k)
    with e have "st1 = update_max_concurrent_samples k st" by simp
    then show ?thesis using out outside_others(4) by blast
  next
    case (TaskPut n)
    with e have "outside st st1" using outside_tasks(1) by simp
    then show ?thesis by (rule out)
  next
    case (TaskReturn n)
    with e have "outside st st1" using outside_tasks(2) by simp
    then show ?thesis by (rule out)
  next
    case (TaskFail n)
    with e have "outside st st1" using outside_tasks(3) by simp
    then show ?thesis by (rule out)
  next
    case Reset
    with e have "outside st st1" using outside_others(1) by simp
    then show ?thesis by (rule out)
  next
    case (Monitor q)
    with e have "outside st st1" using outside_others(2) by simp
    then show ?thesis by (rule out)
  qed
qed

lemma ro_start_books: "ro_books samples (ro_start m k c samples mq)"
  by (auto simp: ro_books_def tasks_ok_def feed_ok_def accounted_def in_hand_def unsent_def sent_def ro_start_def mq_start_def)

lemma reach_books:
  "ro_reach start st \<Longrightarrow> ro_safe start \<Longrightarrow> ro_books samples start \<Longrightarrow> ro_books samples st"
  by (induction rule: ro_reach.induct) (auto intro: ro_step_books reach_safe)

lemma run_result: "case_option False P x \<Longrightarrow> \<exists>st. x = Some st \<and> P st"
  by (cases x) auto

lemma run_reach: "ro_run st es = Some st1 \<Longrightarrow> ro_reach start st \<Longrightarrow> ro_reach start st1"
  by (induction es arbitrary: st) (auto simp: bind_eq_Some_conv intro: ro_reach.intros)

subsection \<open>The concurrency limit\<close>

definition has_room :: "'a rollouter \<Rightarrow> bool" where
  "has_room st \<longleftrightarrow> length (ro_active st) \<le> ro_max_concurrent st \<and>
     (\<forall>s. ro_proc st = Gated s \<or> ro_proc st = SubmitLock s \<longrightarrow> length (ro_active st) < ro_max_concurrent st)"

lemma idle_room: "ro_proc st \<in> idle_points \<Longrightarrow> length (ro_active st) \<le> ro_max_concurrent st \<Longrightarrow> has_room st"
  by (auto simp: has_room_def)

lemma top_room:
  assumes "length (ro_active st) \<le> ro_max_concurrent st"
  shows "has_room (loop_top st)" "has_room (enter_pause st)" "has_room (after_drain st)" "has_room (pause_now st)"
proof -
  have r: "has_room st1" if "suspended st st1" for st1
    using that assms by (intro idle_room) (auto simp: suspended_def steady_def around_def)
  show "has_room (loop_top st)" "has_room (enter_pause st)" "has_room (after_drain st)" "has_room (pause_now st)"
    by (rule r, rule suspended_tops)+
qed

lemma submit_room:
  assumes "length (ro_active st) < ro_max_concurrent st"
  shows "has_room (submit_now s st)" "has_room (submit s st)" "has_room (gate s st)"
proof -
  show n: "has_room (submit_now s st)" unfolding submit_now_def by (rule top_room) (use assms in simp)
  show s: "has_room (submit s st)" using n assms by (auto simp: submit_def has_room_def)
  show "has_room (gate s st)" using s assms by (auto simp: gate_def has_room_def)
qed

lemma throttle_room: "length (ro_active st) \<le> ro_max_concurrent st \<Longrightarrow> has_room (throttle s st)"
  using submit_room(3) [of st s] by (auto simp: throttle_def has_room_def)

lemma end_room: "length (ro_active st) \<le> ro_max_concurrent st \<Longrightarrow> has_room (end_loop st)"
  by (auto simp: end_loop_def has_room_def)

lemma settle_room:
  assumes "length (ro_active st) \<le> ro_max_concurrent st"
    and "\<And>st0. length (ro_active st0) \<le> ro_max_concurrent st0 \<Longrightarrow> has_room (k st0)"
  shows "has_room (settle ids st k)"
proof -
  have "length (ro_active (retire ids st)) \<le> ro_max_concurrent (retire ids st)"
    using le_trans [OF length_filter_le assms(1)] by (simp add: retire_def)
  then show ?thesis using assms(2) by (rule_tac settle_cases [of st ids k]) (auto simp: has_room_def)
qed

lemma proc_step_room:
  assumes "proc_step q st = Some st1" "has_room st"
  shows "has_room st1"
proof -
  have l: "length (ro_active st) \<le> ro_max_concurrent st" using assms(2) by (simp add: has_room_def)
  note tops = top_room [OF l] throttle_room [OF l] end_room [OF l] settle_room [OF l top_room(3)]
    settle_room [OF l throttle_room] settle_room [OF l end_room]
  show ?thesis
  proof (cases "ro_proc st")
    case AwaitGet
    then obtain x rest where p: "st1 = get_pending x rest st"
      using assms(1) by (auto simp: proc_step_def split: list.splits)
    let ?st0 = "st\<lparr>ro_pending := rest, ro_staleness := Suc (ro_staleness st)\<rparr>"
    have "length (ro_active ?st0) \<le> ro_max_concurrent ?st0" using l by simp
    then show ?thesis unfolding p get_pending_def Let_def
      by (cases x) (simp_all add: end_room throttle_room)
  next
    case (Gated s)
    with assms show ?thesis using submit_room(2) [of st s] by (auto simp: proc_step_def has_room_def split: if_splits)
  next
    case (SubmitLock s)
    with assms show ?thesis using submit_room(1) [of st s] by (auto simp: proc_step_def has_room_def split: if_splits)
  qed (use assms tops l in \<open>auto simp: proc_step_def Let_def has_room_def split: if_splits\<close>)
qed

lemma ro_step_room:
  assumes "ro_step st e = Some st1" "has_room st" "\<forall>k. e \<noteq> Replicas k"
  shows "has_room st1"
proof -
  have e: "ro_enabled st e = Some st1" using ro_step_enabled [OF assms(1)] .
  have same: "has_room st1" if "length (ro_active st1) = length (ro_active st)" "ro_proc st1 = ro_proc st"
    "ro_max_concurrent st1 = ro_max_concurrent st" using that assms(2) by (simp add: has_room_def)
  show ?thesis
  proof (cases e)
    case (Proc q)
    with e assms(2) show ?thesis using proc_step_room by simp
  next
    case (Monitor q)
    with e have m: "monitor_step q st = Some st1" by simp
    have "has_room st1 = has_room st" by (subst monitor_step_frame [OF m]) (simp add: has_room_def)
    with assms(2) show ?thesis by simp
  next
    case Reset
    with e show ?thesis by (intro same) (auto simp: reset_step_def reset_begin_def split: reset_point.splits if_splits)
  next
    case Feed
    with e show ?thesis by (intro same) (auto simp: feed_step_def split: if_splits feed.splits list.splits)
  next
    case Close
    with e show ?thesis by (intro same) (auto simp: close_step_def split: if_splits)
  next
    case Consume
    with e show ?thesis by (intro same) auto
  next
    case (Replicas k)
    with assms(3) show ?thesis by simp
  next
    case (TaskPut n)
    with e have "task_put n st = Some st1" by simp
    then show ?thesis by (rule task_put_cases) (rule same; simp add: set_status_def)+
  next
    case (TaskReturn n)
    with e have "task_return n st = Some st1" by simp
    then show ?thesis by (rule task_return_cases) (rule same; simp add: set_status_def steady_def around_def)+
  next
    case (TaskFail n)
    with e have "task_fail n st = Some st1" by simp
    then show ?thesis by (rule task_fail_cases) (rule same; simp add: set_status_def)+
  qed
qed

lemma ro_step_max:
  assumes "ro_step st e = Some st1"
  shows "ro_max_required st1 = ro_max_required st"
    and "\<forall>k. e \<noteq> Replicas k \<Longrightarrow> ro_max_concurrent st1 = ro_max_concurrent st"
proof -
  have e: "ro_enabled st e = Some st1" using ro_step_enabled [OF assms] .
  have both: "ro_max_required st1 = ro_max_required st \<and> ((\<forall>k. e \<noteq> Replicas k) \<longrightarrow> ro_max_concurrent st1 = ro_max_concurrent st)"
  proof (cases e)
    case (Proc q)
    with e have "around st1 = around st" using proc_step_points by auto
    then show ?thesis by (simp add: around_def)
  next
    case (Monitor q)
    with e have m: "monitor_step q st = Some st1" by simp
    have "ro_max_required st1 = ro_max_required st" by (subst monitor_step_frame [OF m]) simp
    moreover have "ro_max_concurrent st1 = ro_max_concurrent st" by (subst monitor_step_frame [OF m]) simp
    ultimately show ?thesis by simp
  next
    case (TaskPut n)
    with e have "task_put n st = Some st1" by simp
    then show ?thesis by (rule task_put_cases) (simp_all add: set_status_def)
  next
    case (TaskReturn n)
    with e have "task_return n st = Some st1" by simp
    then show ?thesis by (rule task_return_cases) (simp add: set_status_def steady_def around_def)
  next
    case (TaskFail n)
    with e have "task_fail n st = Some st1" by simp
    then show ?thesis by (rule task_fail_cases) (simp add: set_status_def)
  next
    case Reset
    with e show ?thesis by (auto simp: reset_step_def reset_begin_def split: reset_point.splits if_splits)
  next
    case Feed
    with e show ?thesis by (auto simp: feed_step_def split: if_splits feed.splits list.splits)
  next
    case Close
    with e show ?thesis by (auto simp: close_step_def split: if_splits)
  qed (use e in \<open>auto simp: update_max_concurrent_samples_def\<close>)
  show "ro_max_required st1 = ro_max_required st" using both by simp
  show "\<forall>k. e \<noteq> Replicas k \<Longrightarrow> ro_max_concurrent st1 = ro_max_concurrent st" using both by simp
qed

lemma reach_max_required: "ro_reach start st \<Longrightarrow> ro_max_required st = ro_max_required start"
  by (induction rule: ro_reach.induct) (auto dest: ro_step_max(1))

subsection \<open>Properties\<close>

text \<open>
  C4. At any time, at most one sample more than \<open>max_required_samples\<close> has been taken from the
  feeder and not been received by the trainer: held by the processor, being generated, or in the
  message queue.
\<close>

theorem samples_in_flight_bounded:
  assumes "ro_reach (ro_start max_required servers per_replica samples mq) st" and "mq_queue mq = []"
  shows "in_flight st \<le> Suc max_required"
proof -
  have "ro_safe st" by (rule reach_safe [OF assms(1) ro_start_safe [OF assms(2)]])
  moreover have "ro_max_required st = max_required"
    using reach_max_required [OF assms(1)] by (simp add: ro_start_def)
  ultimately show ?thesis by (simp add: ro_safe_def bound_ok_def)
qed

definition empty_queue :: "nat \<Rightarrow> 'a message_queue" where
  "empty_queue n = \<lparr>mq_max_queue_size = n, mq_queue = [], mq_val_queue = [], mq_running = True,
     mq_total_produced = 0, mq_total_consumed = 0, mq_dropped_samples = 0\<rparr>"

text \<open>
  A run that reaches the bound: the second sample waits for capacity while
  \<open>reset_staleness\<close> counts only the active tasks and the queue, so two more samples are started.
\<close>

definition overshoot_events :: "ro_event list" where
  "overshoot_events =
     [Feed, Feed, Feed, Feed, Proc 0, Proc 0, TaskPut 0, Consume, Proc 0, Proc 0, Reset, TaskReturn 0,
      Proc 0, Reset, Reset, Reset, Proc 0, Proc 0, Proc 0, TaskPut 0, TaskReturn 0, Proc 1, Proc 1, Proc 1]"

lemma overshoot_run:
  "case_option False (\<lambda>st. in_flight st = 3 \<and> ro_staleness st = 2)
     (ro_run (ro_start 2 1 1 [1, 2, 3, 4 :: nat] (empty_queue 2)) overshoot_events)"
  by code_simp

theorem samples_in_flight_bounded_witness:
  "\<exists>st. ro_reach (ro_start 2 1 1 [1, 2, 3, 4 :: nat] (empty_queue 2)) st \<and> in_flight st \<le> Suc 2 \<and> 2 < in_flight st"
proof -
  let ?s = "ro_start 2 1 1 [1, 2, 3, 4 :: nat] (empty_queue 2)"
  obtain st where st: "ro_run ?s overshoot_events = Some st" "in_flight st = 3" using run_result [OF overshoot_run] by blast
  have r: "ro_reach ?s st" by (rule run_reach [OF st(1) reach_start])
  have "in_flight st \<le> Suc 2" by (rule samples_in_flight_bounded [OF r]) (simp add: empty_queue_def)
  with r st(2) show ?thesis by (intro exI [of _ st]) simp
qed

text \<open>
  C5. When the processor has finished, every sample of the feeder has been put into the message
  queue exactly once, no task is left and the pending queue is empty.
\<close>

theorem every_sample_delivered:
  assumes "ro_reach (ro_start max_required servers per_replica samples mq) st" and "mq_queue mq = []"
    and "ro_proc st = Finished"
  shows "mset (sent st) = mset samples \<and> ro_active st = [] \<and> ro_pending st = []"
proof -
  have b: "ro_books samples st"
    by (rule reach_books [OF assms(1) ro_start_safe [OF assms(2)] ro_start_books])
  then have "ro_active st = []" "ro_pending st = []" "ro_feed st = FeedDone"
    using assms(3) by (auto simp: ro_books_def feed_ok_def split: feed.splits)
  with b assms(3) show ?thesis by (simp add: ro_books_def accounted_def in_hand_def unsent_def)
qed

definition two_samples_events :: "ro_event list" where
  "two_samples_events =
     [Feed, Feed, Feed, Proc 0, Proc 0, Proc 0, Proc 0, TaskPut 1, TaskPut 0, Consume, TaskReturn 0,
      TaskReturn 1, Proc 1, Proc 1, Proc 1]"

lemma two_samples_run:
  "case_option False (\<lambda>st. ro_proc st = Finished)
     (ro_run (ro_start 4 2 2 [1, 2 :: nat] (empty_queue 4)) two_samples_events)"
  by code_simp

theorem every_sample_delivered_witness:
  "\<exists>st. ro_reach (ro_start 4 2 2 [1, 2 :: nat] (empty_queue 4)) st \<and> mset (sent st) = {#1, 2#}"
proof -
  let ?s = "ro_start 4 2 2 [1, 2 :: nat] (empty_queue 4)"
  obtain st where st: "ro_run ?s two_samples_events = Some st" "ro_proc st = Finished" using run_result [OF two_samples_run] by blast
  have r: "ro_reach ?s st" by (rule run_reach [OF st(1) reach_start])
  have "mset (sent st) = mset [1, 2]"
    using every_sample_delivered [OF r _ st(2)] by (simp add: empty_queue_def)
  with r show ?thesis by (intro exI [of _ st]) simp
qed

text \<open>
  While no replica is added or removed, the number of sample tasks never exceeds
  \<open>max_concurrent_samples\<close>.
\<close>

theorem concurrency_limited:
  assumes "ro_run (ro_start max_required servers per_replica samples mq) events = Some st"
    and "\<forall>k. Replicas k \<notin> set events"
  shows "length (ro_active st) \<le> min (servers * per_replica) max_required"
proof -
  let ?s = "ro_start max_required servers per_replica samples mq"
  have run: "has_room st1 \<and> ro_max_concurrent st1 = ro_max_concurrent st0"
    if "ro_run st0 es = Some st1" "has_room st0" "\<forall>k. Replicas k \<notin> set es" for st0 st1 :: "'a rollouter" and es
    using that
  proof (induction es arbitrary: st0)
    case (Cons e es)
    then obtain st2 where e: "ro_step st0 e = Some st2" "ro_run st2 es = Some st1" by (auto simp: bind_eq_Some_conv)
    have ne: "\<forall>k. e \<noteq> Replicas k" using Cons.prems(3) by auto
    have "has_room st2" using ro_step_room [OF e(1) Cons.prems(2) ne] .
    moreover have "ro_max_concurrent st2 = ro_max_concurrent st0" using ro_step_max(2) [OF e(1) ne] .
    ultimately show ?case using Cons.IH [OF e(2)] Cons.prems(3) by simp
  qed simp
  have "has_room ?s" by (simp add: ro_start_def has_room_def)
  with run [OF assms(1)] assms(2) show ?thesis by (auto simp: has_room_def ro_start_def)
qed

theorem concurrency_limited_witness:
  "\<exists>st. ro_run (ro_start 2 1 1 [1, 2, 3, 4 :: nat] (empty_queue 2)) overshoot_events = Some st \<and>
     length (ro_active st) \<le> 1"
proof -
  obtain st where st: "ro_run (ro_start 2 1 1 [1, 2, 3, 4 :: nat] (empty_queue 2)) overshoot_events = Some st"
    using run_result [OF overshoot_run] by blast
  have "length (ro_active st) \<le> min (1 * 1) 2"
    by (rule concurrency_limited [OF st]) (simp add: overshoot_events_def)
  with st show ?thesis by (intro exI [of _ st]) simp
qed


text \<open>The hybrid replicas are removed while the processor waits for the feeder.\<close>

lemma deactivated_run:
  "case_option False (\<lambda>st. ro_proc st = AwaitGet \<and> ro_pending st = [Some 1, Some 2] \<and> ro_active st = [] \<and> ro_max_concurrent st = 0 \<and>
     \<not> ro_lock st \<and> ro_reset st = ResetIdle \<and> ro_monitor st = MonSleep)
     (ro_run (ro_start 4 1 1 [1, 2 :: nat] (empty_queue 4)) [Feed, Proc 0, Replicas 0, Feed])"
  by code_simp


text \<open>
  A blocked processor does not depend on \<open>reset_staleness\<close>: when neither the queue nor the
  staleness asks for a pause, two turns of the monitor wake it and it goes on to take a sample.
\<close>

theorem monitor_resumes:
  assumes "ro_proc st = Blocked" and "ro_paused st" and "ro_monitor st = MonSleep" and "ro_reset st = ResetIdle"
    and "\<not> ro_lock st" and "ro_staleness st < ro_max_required st" and "queue_size < ro_max_queue st"
  shows "\<exists>st1. ro_run st [Monitor queue_size, Monitor queue_size, Proc queue_size, Proc queue_size] = Some st1 \<and>
    ro_proc st1 = AwaitGet \<and> \<not> ro_paused st1"
  using assms
  by (simp add: ro_step_def monitor_step_def should_pause_generation_def monitor_may_lock_def monitor_resume_def
      monitor_check_def proc_step_def loop_top_def)

text \<open>
  The monitor is needed: the processor can be woken by \<open>reset_staleness\<close>, judge by the staleness
  from before the reset and pause again with nothing stale.
\<close>

definition lost_wakeup_events :: "ro_event list" where
  "lost_wakeup_events =
     [Feed, Feed, Proc 0, Proc 0, Proc 0, TaskPut 0, TaskReturn 0, Proc 1, Consume,
      Reset, Proc 0, Proc 0, Reset, Reset, Proc 0]"

lemma lost_wakeup:
  "case_option False (\<lambda>st. ro_proc st = Blocked \<and> ro_paused st \<and> ro_monitor st = MonSleep \<and> ro_reset st = ResetIdle \<and> \<not> ro_lock st \<and>
     ro_staleness st = 0 \<and> ro_max_required st = 1 \<and> ro_max_queue st = 1 \<and> ro_active st = [])
     (ro_run (ro_start 1 1 1 [1, 2 :: nat] (empty_queue 1)) lost_wakeup_events)"
  by code_simp

theorem monitor_resumes_witness:
  "\<exists>st st1. ro_run (ro_start 1 1 1 [1, 2 :: nat] (empty_queue 1)) lost_wakeup_events = Some st \<and>
     ro_run st [Monitor 0, Monitor 0, Proc 0, Proc 0] = Some st1 \<and> ro_proc st1 = AwaitGet"
proof -
  obtain st where st: "ro_run (ro_start 1 1 1 [1, 2 :: nat] (empty_queue 1)) lost_wakeup_events = Some st"
     "ro_proc st = Blocked" "ro_paused st" "ro_monitor st = MonSleep" "ro_reset st = ResetIdle" "\<not> ro_lock st"
     "ro_staleness st = 0" "ro_max_required st = 1" "ro_max_queue st = 1"
    using run_result [OF lost_wakeup] by blast
  have "\<exists>st1. ro_run st [Monitor 0, Monitor 0, Proc 0, Proc 0] = Some st1 \<and> ro_proc st1 = AwaitGet \<and> \<not> ro_paused st1"
    by (rule monitor_resumes) (use st in simp_all)
  with st(1) show ?thesis by blast
qed

end
