(* ===== verification/RolloutPlan.thy ===== *)
theory RolloutPlan
  imports TensorOps PyStr
begin

text \<open>
  What \<open>FullyAsyncRollouter\<close> computes around its coroutines (\<open>verl/experimental/fully_async_policy/
  fully_async_rollouter.py\<close>): the limits of a run, the samples the feeder produces, the resumed
  step, and the utilisation and idle ratio that \<open>reset_staleness\<close> reports.
\<close>

subsection \<open>Limits\<close>

record async_config =
  ac_ppo_mini_batch_size :: nat
  ac_require_batches :: nat
  ac_staleness_threshold :: rat
  ac_trigger_parameter_sync_step :: nat
  ac_concurrent_samples_per_replica :: nat
  ac_total_epochs :: nat
  ac_total_rollout_steps :: "nat option"

definition required_samples :: "async_config \<Rightarrow> nat" where
  "required_samples cfg = ac_ppo_mini_batch_size cfg * ac_require_batches cfg"

definition total_rollout_steps :: "async_config \<Rightarrow> nat \<Rightarrow> nat" where
  "total_rollout_steps cfg batches_per_epoch =
     (let n = batches_per_epoch * ac_total_epochs cfg
      in case ac_total_rollout_steps cfg of None \<Rightarrow> n | Some m \<Rightarrow> min m n)"

record run_limits =
  rl_max_required_samples :: int
  rl_total_train_steps :: int
  rl_max_concurrent_samples :: int
  rl_max_queue_size :: int

text \<open>\<open>int(x)\<close> of a float cuts towards zero.\<close>

definition py_int_of_rat :: "rat \<Rightarrow> int" where
  "py_int_of_rat x = (if x < 0 then - \<lfloor>- x\<rfloor> else \<lfloor>x\<rfloor>)"

definition set_max_required_samples :: "async_config \<Rightarrow> nat \<Rightarrow> nat \<Rightarrow> run_limits result" where
  "set_max_required_samples cfg rollout_steps active_servers =
     (let max_required = py_int_of_rat (of_nat (required_samples cfg) * (ac_staleness_threshold cfg + 1) *
            of_nat (ac_trigger_parameter_sync_step cfg));
          step_samples = required_samples cfg * ac_trigger_parameter_sync_step cfg
      in if step_samples = 0 then Inl ZeroDivisionError
         else Inr \<lparr>rl_max_required_samples = max_required,
           rl_total_train_steps = int (rollout_steps div step_samples),
           rl_max_concurrent_samples = min (int (active_servers * ac_concurrent_samples_per_replica cfg)) max_required,
           rl_max_queue_size = max_required\<rparr>)"

subsection \<open>The feeder's samples\<close>

record 'b rollout_sample =
  rs_full_batch :: 'b
  rs_sample_id :: string
  rs_epoch :: nat

text \<open>The batches of all epochs; the loader may give another order in every epoch.\<close>

definition continuous_iterator :: "(nat \<Rightarrow> 'b list) \<Rightarrow> nat \<Rightarrow> (nat \<times> 'b) list" where
  "continuous_iterator loader epochs = concat (map (\<lambda>e. map (Pair e) (loader e)) [0..<epochs])"

definition sample_name :: "nat \<Rightarrow> nat \<Rightarrow> string" where
  "sample_name epoch step = ''sample_'' @ nat_digits epoch @ ''_'' @ nat_digits step"

text \<open>
  The samples put into the pending queue from \<open>global_steps\<close> on.  The test for the last step comes
  after the sample was put.
\<close>

fun feed_samples :: "nat \<Rightarrow> nat \<Rightarrow> (nat \<times> 'b) list \<Rightarrow> 'b rollout_sample list" where
  "feed_samples last_step global_steps [] = []"
| "feed_samples last_step global_steps ((epoch, batch) # rest) =
     \<lparr>rs_full_batch = batch, rs_sample_id = sample_name epoch global_steps, rs_epoch = epoch\<rparr> #
     (if last_step \<le> global_steps then [] else feed_samples last_step (Suc global_steps) rest)"

text \<open>The uid every row of the sample's batch gets, before and after the generation.\<close>

definition sample_uids :: "nat \<Rightarrow> 'b rollout_sample \<Rightarrow> string list" where
  "sample_uids rows s = replicate rows (''uid_'' @ rs_sample_id s)"

text \<open>The step from which a resumed run goes on.\<close>

definition resumed_global_steps :: "async_config \<Rightarrow> nat \<Rightarrow> nat" where
  "resumed_global_steps cfg trainer_global_steps =
     trainer_global_steps * required_samples cfg * ac_trigger_parameter_sync_step cfg + 1"

subsection \<open>Utilisation\<close>

text \<open>An entry of the history: time, active tasks, capacity.\<close>

type_synonym usage = "rat \<times> nat \<times> nat"

definition interval_weight :: "usage \<times> usage \<Rightarrow> rat" where
  "interval_weight = (\<lambda>((t, active, capacity), (t1, _)).
     if t1 - t \<le> 0 \<or> capacity = 0 then 0 else (t1 - t) * of_nat capacity)"

definition interval_use :: "usage \<times> usage \<Rightarrow> rat" where
  "interval_use = (\<lambda>((t, active, capacity), (t1, _)).
     if t1 - t \<le> 0 \<or> capacity = 0 then 0
     else (t1 - t) * of_nat capacity * min 1 (of_nat active / of_nat capacity))"

definition compute_rollout_resource_utilization :: "usage list \<Rightarrow> usage \<Rightarrow> rat \<times> usage list" where
  "compute_rollout_resource_utilization history now =
     (let closed = history @ [now];
          intervals = zip closed (tl closed);
          numerator = sum_list (map interval_use intervals);
          denominator = sum_list (map interval_weight intervals)
      in (if denominator > 0 then numerator / denominator else 0, [now]))"

text \<open>The active time and the idle ratio of the step; the clock readings are arguments.\<close>

definition step_times :: "rat \<Rightarrow> rat \<Rightarrow> rat \<Rightarrow> rat \<times> rat \<times> rat" where
  "step_times now step_start idle_start =
     (let version_time = max (now - step_start) (1 / 10 ^ 6)
      in if idle_start > step_start
         then (idle_start - step_start, version_time, 1 - (idle_start - step_start) / version_time)
         else (version_time, version_time, 0))"

subsection \<open>Sample names are different\<close>

lemma nat_digits_step: "nat_digits n = (if n < 10 then [char_of (48 + n)] else nat_digits (n div 10) @ [char_of (48 + n mod 10)])"
  by (rule nat_digits.simps)

lemma code_char_of: "n < 256 \<Longrightarrow> code (char_of n) = n"
  by (simp add: code_def of_char_of)

lemma nat_digits_all: "list_all is_digit (nat_digits n)"
proof (induction n rule: nat_digits.induct)
  case (1 n)
  show ?case
  proof (cases "n < 10")
    case True
    then show ?thesis by (subst nat_digits_step) (simp add: is_digit_def code_char_of)
  next
    case False
    have "is_digit (char_of (48 + n mod 10))" by (simp add: is_digit_def code_char_of)
    with False show ?thesis using 1 by (subst nat_digits_step) simp
  qed
qed

fun digits_nat :: "nat \<Rightarrow> string \<Rightarrow> nat" where
  "digits_nat acc [] = acc"
| "digits_nat acc (c # s) = digits_nat (acc * 10 + (code c - 48)) s"

lemma digits_nat_append: "digits_nat acc (s @ t) = digits_nat (digits_nat acc s) t"
  by (induction acc s rule: digits_nat.induct) auto

lemma digits_nat_nat_digits: "digits_nat 0 (nat_digits n) = n"
proof (induction n rule: nat_digits.induct)
  case (1 n)
  show ?case
  proof (cases "n < 10")
    case True
    then show ?thesis by (subst nat_digits_step) (simp add: code_char_of)
  next
    case False
    then show ?thesis using 1 by (subst nat_digits_step) (simp add: digits_nat_append code_char_of)
  qed
qed

lemma nat_digits_inj: "nat_digits m = nat_digits n \<Longrightarrow> m = n"
  by (metis digits_nat_nat_digits)

lemma split_at_unique:
  "x \<notin> set a \<Longrightarrow> x \<notin> set b \<Longrightarrow> a @ x # c = b @ x # d \<Longrightarrow> a = b \<and> c = d"
proof (induction a arbitrary: b)
  case Nil
  then show ?case by (cases b) auto
next
  case (Cons y a)
  then show ?case by (cases b) auto
qed

lemma sample_name_inj: "sample_name e s = sample_name e' s' \<longleftrightarrow> e = e' \<and> s = s'"
proof
  assume "sample_name e s = sample_name e' s'"
  then have "nat_digits e @ CHR ''_'' # nat_digits s = nat_digits e' @ CHR ''_'' # nat_digits s'"
    by (simp add: sample_name_def)
  moreover have "CHR ''_'' \<notin> set (nat_digits n)" for n
    using nat_digits_all [of n] by (auto simp: list_all_iff is_digit_def code_def)
  ultimately have "nat_digits e = nat_digits e' \<and> nat_digits s = nat_digits s'"
    by (intro split_at_unique)
  then show "e = e' \<and> s = s'" using nat_digits_inj by blast
qed simp

lemma feed_samples_names:
  "s \<in> set (feed_samples last_step k bs) \<Longrightarrow> \<exists>j \<ge> k. rs_sample_id s = sample_name (rs_epoch s) j"
proof (induction last_step k bs rule: feed_samples.induct)
  case (2 last_step k e b rest)
  then consider "s = \<lparr>rs_full_batch = b, rs_sample_id = sample_name e k, rs_epoch = e\<rparr>"
    | "\<not> last_step \<le> k" "s \<in> set (feed_samples last_step (Suc k) rest)" by (auto split: if_splits)
  then show ?case
  proof cases
    case 2
    with "2.IH" show ?thesis using Suc_leD by blast
  qed auto
qed simp

text \<open>
  The feeder puts the batches in their order, up to the last step and at least one when there
  is a batch; their names, and so the uids that group the answers to one prompt, are all different.
\<close>

theorem feed_samples_exact:
  "map (\<lambda>s. (rs_epoch s, rs_full_batch s)) (feed_samples last_step start batches) =
     take (max 1 (Suc last_step - start)) batches \<and>
   distinct (map rs_sample_id (feed_samples last_step start batches))"
proof -
  have "map (\<lambda>s. (rs_epoch s, rs_full_batch s)) (feed_samples last_step start batches) = take (max 1 (Suc last_step - start)) batches"
  proof (induction last_step start batches rule: feed_samples.induct)
    case (2 last_step k e b rest)
    show ?case
    proof (cases "last_step \<le> k")
      case False
      then have "max 1 (Suc last_step - k) = Suc (max 1 (Suc last_step - Suc k))" by simp
      with False 2 show ?thesis by simp
    qed simp
  qed simp
  moreover have "distinct (map rs_sample_id (feed_samples last_step start batches))"
  proof (induction last_step start batches rule: feed_samples.induct)
    case (2 last_step k e b rest)
    have "sample_name e k \<notin> rs_sample_id ` set (feed_samples last_step (Suc k) rest)"
      using feed_samples_names [of _ last_step "Suc k" rest] by (force simp: sample_name_inj)
    with 2 show ?case by auto
  qed simp
  ultimately show ?thesis by simp
qed

text \<open>
  A run that is resumed after its last step still feeds a sample.
\<close>

lemma resumed_after_end: "last_step < start \<Longrightarrow> length (feed_samples last_step start (b # bs)) = 1"
  by (cases b) simp

subsection \<open>Ratios\<close>

lemma interval_bounds: "0 \<le> interval_use i \<and> interval_use i \<le> interval_weight i"
  by (cases i) (auto simp: interval_use_def interval_weight_def mult_left_le)

lemma sum_list_le: "(\<And>x. x \<in> set xs \<Longrightarrow> f x \<le> (g x :: rat)) \<Longrightarrow> sum_list (map f xs) \<le> sum_list (map g xs)"
  by (rule sum_list_mono)

text \<open>
  The reported utilisation lies between 0 and 1 for every history, and is 1 when the tasks
  filled the capacity in every interval and some interval counts.
\<close>

theorem utilization_bounds:
  "0 \<le> fst (compute_rollout_resource_utilization history now) \<and>
   fst (compute_rollout_resource_utilization history now) \<le> 1 \<and>
   ((\<forall>(t, active, capacity) \<in> set history. capacity \<le> active) \<longrightarrow>
    (\<exists>i \<in> set (zip (history @ [now]) (tl (history @ [now]))). interval_weight i > 0) \<longrightarrow>
    fst (compute_rollout_resource_utilization history now) = 1)"
proof -
  let ?is = "zip (history @ [now]) (tl (history @ [now]))"
  let ?n = "sum_list (map interval_use ?is)" and ?d = "sum_list (map interval_weight ?is)"
  have nd: "0 \<le> ?n" "?n \<le> ?d"
    using interval_bounds by (auto intro!: sum_list_nonneg sum_list_mono)
  have u: "fst (compute_rollout_resource_utilization history now) = (if ?d > 0 then ?n / ?d else 0)"
    by (simp add: compute_rollout_resource_utilization_def Let_def)
  have full: "?n = ?d" if f: "\<forall>(t, active, capacity) \<in> set history. capacity \<le> active"
  proof -
    have "interval_use i = interval_weight i" if "i \<in> set ?is" for i
    proof -
      have "fst i \<in> set history"
      proof -
        from that obtain k where "k < length ?is" "i = ?is ! k" by (metis in_set_conv_nth)
        then have "fst i = history ! k" "k < length history" by (auto simp: nth_append)
        then show ?thesis by simp
      qed
      with f have "snd (snd (fst i)) \<le> fst (snd (fst i))" by (cases i) auto
      then show ?thesis by (cases i) (auto simp: interval_use_def interval_weight_def min_def field_simps)
    qed
    then have "map interval_use ?is = map interval_weight ?is" by (rule map_cong [OF refl])
    then show ?thesis by (rule arg_cong)
  qed
  have pos: "?d > 0" if "i \<in> set ?is" "interval_weight i > 0" for i
  proof -
    have "interval_weight i \<le> ?d"
      by (rule member_le_sum_list) (use that interval_bounds order_trans in \<open>auto, blast\<close>)
    with that(2) show ?thesis by simp
  qed
  show ?thesis unfolding u using nd full pos by (auto simp: divide_le_eq_1)
qed

theorem utilization_bounds_witness:
  "fst (compute_rollout_resource_utilization [(0, 3, 2), (1, 2, 2)] (3, 0, 2)) = 1"
proof -
  have "(\<forall>(t, active, capacity) \<in> set [(0 :: rat, 3 :: nat, 2 :: nat), (1, 2, 2)]. capacity \<le> active)" by simp
  moreover have "\<exists>i \<in> set (zip ([(0, 3, 2), (1, 2, 2)] @ [(3, 0, 2)]) (tl ([(0, 3, 2), (1, 2, 2)] @ [(3, 0, 2)]))). interval_weight i > 0"
    by (simp add: interval_weight_def)
  ultimately show ?thesis using utilization_bounds [of "[(0, 3, 2), (1, 2, 2)]" "(3, 0, 2)"] by blast
qed

text \<open>With a clock that does not run backwards the idle ratio is a ratio, up to the microsecond floor.\<close>

lemma idle_ratio_bounds:
  assumes "idle_start \<le> now"
  shows "0 \<le> snd (snd (step_times now step_start idle_start)) \<and> snd (snd (step_times now step_start idle_start)) \<le> 1"
proof (cases "idle_start > step_start")
  case True
  have "0 < max (now - step_start) (1 / 10 ^ 6)" by (simp add: less_max_iff_disj)
  moreover have "idle_start - step_start \<le> max (now - step_start) (1 / 10 ^ 6)" using assms by (simp add: le_max_iff_disj)
  ultimately show ?thesis using True by (simp add: step_times_def Let_def divide_le_eq_1)
qed (simp add: step_times_def Let_def)

text \<open>
  A run limit of at least one trained step leaves room for it: the queue holds the samples of one
  parameter version.
\<close>

lemma limits_cover_a_step:
  assumes "set_max_required_samples cfg steps servers = Inr limits" "0 \<le> ac_staleness_threshold cfg"
  shows "int (required_samples cfg * ac_trigger_parameter_sync_step cfg) \<le> rl_max_required_samples limits \<and>
    rl_max_concurrent_samples limits \<le> rl_max_required_samples limits \<and> rl_max_queue_size limits = rl_max_required_samples limits"
proof -
  let ?s = "required_samples cfg * ac_trigger_parameter_sync_step cfg"
  have "of_nat ?s * 1 \<le> of_nat ?s * (ac_staleness_threshold cfg + 1)"
    by (rule mult_left_mono) (use assms(2) in simp_all)
  then have "rat_of_int (int ?s) \<le> of_nat (required_samples cfg) * (ac_staleness_threshold cfg + 1) * of_nat (ac_trigger_parameter_sync_step cfg)"
    by (simp add: mult.commute mult.left_commute)
  then have "int ?s \<le> \<lfloor>of_nat (required_samples cfg) * (ac_staleness_threshold cfg + 1) * of_nat (ac_trigger_parameter_sync_step cfg)\<rfloor>"
    by (simp only: le_floor_iff)
  moreover have "0 \<le> of_nat (required_samples cfg) * (ac_staleness_threshold cfg + 1) * of_nat (ac_trigger_parameter_sync_step cfg)"
    using assms(2) by simp
  ultimately show ?thesis using assms(1)
    by (auto simp: set_max_required_samples_def Let_def py_int_of_rat_def split: if_splits)
qed

end
