(* ===== verification/SchedulePolicy.thy ===== *)
theory SchedulePolicy
  imports RolloutPlan
begin

text \<open>
  The policies that decide when the trainer's GPUs serve rollouts (\<open>base.py\<close>,
  \<open>default_policy.py\<close>, \<open>fixed_ratio_policy.py\<close> and \<open>static_fully_async_policy.py\<close> of
  \<open>verl/experimental/fully_async_policy/dynamic_schedule\<close>).  Times and ratios are exact rationals.
\<close>

subsection \<open>Context\<close>

record schedule_context =
  sc_required_samples :: nat
  sc_trigger_parameter_sync_step :: nat
  sc_total_generated_samples :: int
  sc_expected_samples :: int
  sc_buffer_samples :: rat
  sc_step_wait_times :: "rat list"
  sc_step_wait_samples :: "nat list"
  sc_only_hybrid :: bool
  sc_last_activate_duration_s :: rat
  sc_last_deactivate_duration_s :: rat

definition step_required_samples :: "schedule_context \<Rightarrow> nat" where
  "step_required_samples ctx = sc_required_samples ctx * sc_trigger_parameter_sync_step ctx"

definition initial_context :: "nat \<Rightarrow> nat \<Rightarrow> bool \<Rightarrow> schedule_context" where
  "initial_context required trigger only_hybrid =
     \<lparr>sc_required_samples = required, sc_trigger_parameter_sync_step = trigger,
      sc_total_generated_samples = 0, sc_expected_samples = 0, sc_buffer_samples = 0,
      sc_step_wait_times = [], sc_step_wait_samples = [], sc_only_hybrid = only_hybrid,
      sc_last_activate_duration_s = 0, sc_last_deactivate_duration_s = 0\<rparr>"

subsection \<open>Policies\<close>

datatype policy_kind = DefaultPolicy | FixedRatioPolicy | StaticPolicy

record policy =
  po_kind :: policy_kind
  po_deactivate_ratio :: rat
  po_only_hybrid :: bool
  po_recent_switch_overheads :: "rat list"
  po_last_per_sample_time :: rat

definition DEFAULT_SWITCH_THRESHOLD_S :: rat where "DEFAULT_SWITCH_THRESHOLD_S = 10"
definition SWITCH_OVERHEAD_WINDOW_SIZE :: nat where "SWITCH_OVERHEAD_WINDOW_SIZE = 3"
definition DEACTIVATE_RATIO_INCREASE_MIN :: rat where "DEACTIVATE_RATIO_INCREASE_MIN = 2 / 100"
definition DEACTIVATE_RATIO_INCREASE_MAX :: rat where "DEACTIVATE_RATIO_INCREASE_MAX = 1 / 10"
definition DEACTIVATE_RATIO_DECREASE_STEP :: rat where "DEACTIVATE_RATIO_DECREASE_STEP = 2 / 100"
definition INITIAL_PER_SAMPLE_TIME_S :: rat where "INITIAL_PER_SAMPLE_TIME_S = 1000"

lemmas policy_constants = DEFAULT_SWITCH_THRESHOLD_S_def SWITCH_OVERHEAD_WINDOW_SIZE_def
  DEACTIVATE_RATIO_INCREASE_MIN_def DEACTIVATE_RATIO_INCREASE_MAX_def
  DEACTIVATE_RATIO_DECREASE_STEP_def INITIAL_PER_SAMPLE_TIME_S_def

definition make_policy :: "policy_kind \<Rightarrow> rat \<Rightarrow> bool \<Rightarrow> policy" where
  "make_policy kind deactivate_ratio only_hybrid =
     \<lparr>po_kind = kind, po_deactivate_ratio = (if only_hybrid then 1 else deactivate_ratio),
      po_only_hybrid = only_hybrid, po_recent_switch_overheads = [],
      po_last_per_sample_time = INITIAL_PER_SAMPLE_TIME_S\<rparr>"

text \<open>
  The names registered by importing the package; \<open>fixed_ratio\<close> is there only when its module was
  imported by hand.
\<close>

definition policy_registry :: "bool \<Rightarrow> (string \<times> policy_kind) list" where
  "policy_registry fixed_ratio_imported =
     [(''default'', DefaultPolicy), (''static_fully_async'', StaticPolicy)]
     @ (if fixed_ratio_imported then [(''fixed_ratio'', FixedRatioPolicy)] else [])"

definition build_policy :: "bool \<Rightarrow> string \<Rightarrow> rat \<Rightarrow> bool \<Rightarrow> policy result" where
  "build_policy fixed_ratio_imported name deactivate_ratio only_hybrid =
     (case map_of (policy_registry fixed_ratio_imported) name of
        None \<Rightarrow> Inl (KeyError name)
      | Some kind \<Rightarrow> Inr (make_policy kind deactivate_ratio only_hybrid))"

definition should_deactivate :: "policy \<Rightarrow> bool \<Rightarrow> bool" where
  "should_deactivate p is_hybrid_active = is_hybrid_active"

definition deactivate_wait_samples :: "policy \<Rightarrow> schedule_context \<Rightarrow> int" where
  "deactivate_wait_samples p ctx =
     (case po_kind p of
        StaticPolicy \<Rightarrow> 0
      | _ \<Rightarrow> py_int_of_rat (of_nat (step_required_samples ctx) * po_deactivate_ratio p))"

definition last_n :: "nat \<Rightarrow> 'a list \<Rightarrow> 'a list" where
  "last_n n xs = drop (length xs - n) xs"

definition switch_cost :: "policy \<Rightarrow> rat" where
  "switch_cost p =
     (if po_recent_switch_overheads p \<noteq> [] then
        (let recent = last_n SWITCH_OVERHEAD_WINDOW_SIZE (po_recent_switch_overheads p)
         in sum_list recent / of_nat (length recent))
      else DEFAULT_SWITCH_THRESHOLD_S)"

definition ratio_delta :: "schedule_context \<Rightarrow> rat" where
  "ratio_delta ctx =
     (let total_wait_samples = sum_list (sc_step_wait_samples ctx);
          cycle_samples = step_required_samples ctx;
          raw_increase = (if cycle_samples > 0 then of_nat total_wait_samples / of_nat cycle_samples
            else DEACTIVATE_RATIO_INCREASE_MAX)
      in min DEACTIVATE_RATIO_INCREASE_MAX (max DEACTIVATE_RATIO_INCREASE_MIN raw_increase))"

definition update_after_step :: "nat \<Rightarrow> schedule_context \<Rightarrow> policy \<Rightarrow> policy" where
  "update_after_step global_steps ctx p =
     (if po_kind p \<noteq> DefaultPolicy \<or> global_steps \<le> 0 \<or> po_only_hybrid p then p
      else
        (let switch_overhead = sc_last_activate_duration_s ctx + sc_last_deactivate_duration_s ctx;
             p1 = (if switch_overhead > 0
               then p\<lparr>po_recent_switch_overheads := po_recent_switch_overheads p @ [switch_overhead]\<rparr> else p)
         in if sum_list (sc_step_wait_samples ctx) > 0
            then p1\<lparr>po_deactivate_ratio := min 1 (po_deactivate_ratio p1 + ratio_delta ctx)\<rparr>
            else p1\<lparr>po_deactivate_ratio := po_deactivate_ratio p1 + - DEACTIVATE_RATIO_DECREASE_STEP\<rparr>))"

definition deactivate_gap :: "policy \<Rightarrow> schedule_context \<Rightarrow> rat" where
  "deactivate_gap p ctx =
     po_deactivate_ratio p * of_nat (step_required_samples ctx)
     - of_int (sc_total_generated_samples ctx - sc_expected_samples ctx)"

definition estimate_per_sample_time :: "schedule_context \<Rightarrow> policy \<Rightarrow> rat \<times> policy" where
  "estimate_per_sample_time ctx p =
     (let total_wait = sum_list (sc_step_wait_times ctx);
          total_wait_samples = sum_list (sc_step_wait_samples ctx);
          p1 = (if total_wait > 0 \<and> total_wait_samples > 0
            then p\<lparr>po_last_per_sample_time := total_wait / of_nat total_wait_samples\<rparr> else p)
      in (po_last_per_sample_time p1, p1))"

definition has_positive_net_benefit :: "schedule_context \<Rightarrow> policy \<Rightarrow> bool \<times> policy" where
  "has_positive_net_benefit ctx p =
     (let (per_sample_time, p1) = estimate_per_sample_time ctx p;
          gap = max 0 (deactivate_gap p1 ctx);
          net_benefit = gap * per_sample_time - switch_cost p
      in (net_benefit > 0, p1))"

definition should_activate_after_step :: "schedule_context \<Rightarrow> policy \<Rightarrow> bool \<times> policy" where
  "should_activate_after_step ctx p =
     (case po_kind p of
        StaticPolicy \<Rightarrow> (False, p)
      | FixedRatioPolicy \<Rightarrow>
          (if po_only_hybrid p then True
           else of_int (sc_total_generated_samples ctx - sc_expected_samples ctx)
             < po_deactivate_ratio p * of_nat (step_required_samples ctx), p)
      | DefaultPolicy \<Rightarrow>
          (if po_only_hybrid p then (True, p)
           else if \<not> deactivate_gap p ctx > 0 then (False, p)
           else has_positive_net_benefit ctx p))"

text \<open>The decision and the update of one weight sync, as \<open>_fit_update_weights\<close> makes them.\<close>

definition policy_cycle :: "nat \<times> schedule_context \<Rightarrow> policy \<Rightarrow> policy" where
  "policy_cycle step p = (let (global_steps, ctx) = step
     in update_after_step global_steps ctx (snd (should_activate_after_step ctx p)))"

subsection \<open>The ratio\<close>

lemma activate_keeps:
  "po_kind (snd (should_activate_after_step ctx p)) = po_kind p"
  "po_deactivate_ratio (snd (should_activate_after_step ctx p)) = po_deactivate_ratio p"
  "po_only_hybrid (snd (should_activate_after_step ctx p)) = po_only_hybrid p"
  by (auto simp: should_activate_after_step_def has_positive_net_benefit_def estimate_per_sample_time_def
      Let_def split: policy_kind.splits)

lemma update_keeps:
  "po_kind (update_after_step g ctx p) = po_kind p"
  "po_only_hybrid (update_after_step g ctx p) = po_only_hybrid p"
  by (auto simp: update_after_step_def Let_def)

lemma cycle_keeps:
  "po_kind (policy_cycle s p) = po_kind p" "po_only_hybrid (policy_cycle s p) = po_only_hybrid p"
  by (cases s; simp add: policy_cycle_def update_keeps activate_keeps)+

lemma only_hybrid_activates:
  "po_only_hybrid p \<Longrightarrow> po_kind p \<noteq> StaticPolicy \<Longrightarrow> should_activate_after_step ctx p = (True, p)"
  by (cases "po_kind p") (auto simp: should_activate_after_step_def)

lemma only_hybrid_fixed: "po_only_hybrid p \<Longrightarrow> update_after_step g ctx p = p"
  by (simp add: update_after_step_def)

lemma delta_bounds: "2 / 100 \<le> ratio_delta ctx \<and> ratio_delta ctx \<le> 1 / 10"
  by (simp add: ratio_delta_def Let_def policy_constants min_def max_def)

lemma cycle_ratio:
  "po_deactivate_ratio (policy_cycle (g, ctx) p) =
     (if po_kind p \<noteq> DefaultPolicy \<or> g \<le> 0 \<or> po_only_hybrid p then po_deactivate_ratio p
      else if sum_list (sc_step_wait_samples ctx) > 0 then min 1 (po_deactivate_ratio p + ratio_delta ctx)
      else po_deactivate_ratio p - 2 / 100)"
  by (simp add: policy_cycle_def update_after_step_def Let_def activate_keeps policy_constants del: sum_list_eq_0_iff)

lemma ratio_step_bounds:
  assumes "po_deactivate_ratio p \<le> 1"
  shows "po_deactivate_ratio (policy_cycle s p) \<le> 1"
    and "po_deactivate_ratio p - 2 / 100 \<le> po_deactivate_ratio (policy_cycle s p)"
    and "po_deactivate_ratio (policy_cycle s p) \<le> po_deactivate_ratio p + 1 / 10"
proof -
  obtain g ctx where s: "s = (g, ctx)" by (cases s)
  have d: "2 / 100 \<le> ratio_delta ctx" "ratio_delta ctx \<le> 1 / 10" using delta_bounds by blast+
  show "po_deactivate_ratio (policy_cycle s p) \<le> 1"
    using assms unfolding s cycle_ratio by (simp split: if_split)
  show "po_deactivate_ratio p - 2 / 100 \<le> po_deactivate_ratio (policy_cycle s p)"
    using assms d unfolding s cycle_ratio by (simp add: min_def split: if_split)
  show "po_deactivate_ratio (policy_cycle s p) \<le> po_deactivate_ratio p + 1 / 10"
    using assms d unfolding s cycle_ratio by (simp add: min_def split: if_split)
qed


definition idle_context :: schedule_context where
  "idle_context = (initial_context 8 2 False)\<lparr>sc_step_wait_samples := [0, 0]\<rparr>"


text \<open>
  The default policy gives the replicas to the rollout exactly when samples are missing up to
  its threshold and waiting for them would cost more than one change there and back.
\<close>

theorem activation_pays:
  assumes "po_kind p = DefaultPolicy" "\<not> po_only_hybrid p" "0 \<le> switch_cost p"
  shows "fst (should_activate_after_step ctx p) \<longleftrightarrow>
    switch_cost p < max 0 (deactivate_gap p ctx) * fst (estimate_per_sample_time ctx p)"
proof -
  have "deactivate_gap (snd (estimate_per_sample_time ctx p)) ctx = deactivate_gap p ctx"
    by (simp add: estimate_per_sample_time_def deactivate_gap_def Let_def)
  with assms show ?thesis
    by (auto simp: should_activate_after_step_def has_positive_net_benefit_def Let_def split: prod.splits)
qed

theorem activation_pays_witness:
  "fst (should_activate_after_step (idle_context\<lparr>sc_expected_samples := 16, sc_total_generated_samples := 12\<rparr>)
     (make_policy DefaultPolicy (1 / 2) False))"
proof -
  let ?p = "make_policy DefaultPolicy (1 / 2) False"
  let ?c = "idle_context\<lparr>sc_expected_samples := 16, sc_total_generated_samples := 12\<rparr>"
  have k: "po_kind ?p = DefaultPolicy" "\<not> po_only_hybrid ?p" by (simp_all add: make_policy_def)
  have c: "switch_cost ?p = 10" by (simp add: switch_cost_def make_policy_def policy_constants)
  have "max 0 (deactivate_gap ?p ?c) * fst (estimate_per_sample_time ?c ?p) = 12000"
    by (simp add: deactivate_gap_def make_policy_def idle_context_def initial_context_def step_required_samples_def
        estimate_per_sample_time_def policy_constants)
  with activation_pays [OF k, of ?c] c show ?thesis by simp
qed

end
