(* ===== verification/HybridPool.thy ===== *)
theory HybridPool
  imports AsyncRollouter LoadBalancer
begin

text \<open>
  \<open>FullyAsyncLLMServerManager\<close> (\<open>verl/experimental/fully_async_policy/fully_async_rollouter.py\<close>) over
  the load balancer of LoadBalancer: standalone replicas, and hybrid replicas on the trainer's GPUs
  that are added to and removed from the balancer as a batch.  A replica is an object with an
  identity, an address and a handle.  The calls of the balancer are taken to succeed; the times of
  the last change and the Prometheus configuration are left out.
\<close>

record 'h replica =
  rep_id :: nat
  rep_address :: string
  rep_handle :: 'h

record ('h, 'c) server_pool =
  sp_balancer :: "('h, 'c) balancer"
  sp_rollout :: "'h replica list"
  sp_handles :: "'h list"
  sp_addresses :: "string list"
  sp_hybrid :: "(string, 'h replica) dict"
  sp_alive :: "(string, 'h replica) dict"
  sp_alive_addresses :: "(string, string) dict"

text \<open>
  Initialisation in two phases: the hybrid replicas are registered, not served; the standalone ones
  make the first pool of the balancer.
\<close>

definition initialize_llm_servers :: "'h replica list \<Rightarrow> 'h replica list \<Rightarrow> 'c \<Rightarrow> bool \<Rightarrow> ('h, 'c) server_pool" where
  "initialize_llm_servers hybrid standalone cache full_determinism =
     \<lparr>sp_balancer = lb_init (dict_update [] (map (\<lambda>r. (rep_address r, rep_handle r)) standalone)) cache full_determinism,
      sp_rollout = standalone, sp_handles = map rep_handle standalone, sp_addresses = map rep_address standalone,
      sp_hybrid = map (\<lambda>(i, r). (''hybrid_'' @ nat_digits i, r)) (enumerate 0 hybrid),
      sp_alive = [], sp_alive_addresses = []\<rparr>"

text \<open>The replicas of the request that are registered and not active, with their servers.\<close>

definition replicas_to_add :: "('h, 'c) server_pool \<Rightarrow> string list \<Rightarrow> (string, 'h) dict \<times> (string \<times> 'h replica) list" where
  "replicas_to_add sp resource_ids = foldl (\<lambda>(servers, valid) rid.
     if dict_has (sp_alive sp) rid then (servers, valid)
     else case dict_get (sp_hybrid sp) rid of
        None \<Rightarrow> (servers, valid)
      | Some r \<Rightarrow> (dict_set servers (rep_address r) (rep_handle r), valid @ [(rid, r)]))
     ([], []) resource_ids"

definition track_replica :: "('h, 'c) server_pool \<Rightarrow> string \<times> 'h replica \<Rightarrow> ('h, 'c) server_pool" where
  "track_replica sp entry =
     (let (rid, r) = entry; address = rep_address r;
          sp1 = (if address \<notin> set (sp_addresses sp)
            then sp\<lparr>sp_handles := sp_handles sp @ [rep_handle r], sp_addresses := sp_addresses sp @ [address]\<rparr> else sp);
          sp2 = (if r \<notin> set (sp_rollout sp1) then sp1\<lparr>sp_rollout := sp_rollout sp1 @ [r]\<rparr> else sp1)
      in sp2\<lparr>sp_alive := dict_set (sp_alive sp2) rid r,
             sp_alive_addresses := dict_set (sp_alive_addresses sp2) rid address\<rparr>)"

definition add_replicas :: "('h, 'c) server_pool \<Rightarrow> string list \<Rightarrow> nat \<times> ('h, 'c) server_pool" where
  "add_replicas sp resource_ids =
     (let (servers, valid) = replicas_to_add sp resource_ids in
      if servers = [] then (0, sp)
      else (length valid, foldl track_replica (sp\<lparr>sp_balancer := add_servers (sp_balancer sp) servers\<rparr>) valid))"

text \<open>The list methods of the removal: the first occurrence goes.\<close>

fun index_of :: "'a \<Rightarrow> 'a list \<Rightarrow> nat" where
  "index_of x [] = 0"
| "index_of x (y # ys) = (if x = y then 0 else Suc (index_of x ys))"

definition pop_at :: "nat \<Rightarrow> 'a list \<Rightarrow> 'a list" where
  "pop_at i xs = take i xs @ drop (Suc i) xs"

definition untrack_replica :: "('h, 'c) server_pool \<Rightarrow> string \<Rightarrow> string \<Rightarrow> 'h replica \<Rightarrow> ('h, 'c) server_pool" where
  "untrack_replica sp rid address r =
     (let sp1 = (if address \<in> set (sp_addresses sp)
            then (let i = index_of address (sp_addresses sp)
                  in sp\<lparr>sp_addresses := pop_at i (sp_addresses sp), sp_handles := pop_at i (sp_handles sp)\<rparr>)
            else sp);
          sp2 = (if r \<in> set (sp_rollout sp1) then sp1\<lparr>sp_rollout := remove1 r (sp_rollout sp1)\<rparr> else sp1)
      in sp2\<lparr>sp_alive := dict_pop (sp_alive sp2) rid, sp_alive_addresses := dict_pop (sp_alive_addresses sp2) rid\<rparr>)"

text \<open>
  A replica requested twice is gone the second time: the \<open>KeyError\<close> is caught, what was removed so
  far stays removed, and the answer is 0.
\<close>

fun untrack_replicas :: "('h, 'c) server_pool \<Rightarrow> string list \<Rightarrow> bool \<times> ('h, 'c) server_pool" where
  "untrack_replicas sp [] = (True, sp)"
| "untrack_replicas sp (rid # rest) =
     (case (dict_get (sp_alive_addresses sp) rid, dict_get (sp_alive sp) rid) of
        (Some address, Some r) \<Rightarrow> untrack_replicas (untrack_replica sp rid address r) rest
      | _ \<Rightarrow> (False, sp))"

text \<open>Requested replicas that are not active are skipped.\<close>

definition replicas_to_remove :: "('h, 'c) server_pool \<Rightarrow> string list \<Rightarrow> (string \<times> string) list" where
  "replicas_to_remove sp resource_ids = List.map_filter (\<lambda>rid.
     if dict_has (sp_alive sp) rid then map_option (\<lambda>a. (rid, a)) (dict_get (sp_alive_addresses sp) rid) else None)
     resource_ids"

definition remove_replicas :: "('h, 'c) server_pool \<Rightarrow> string list \<Rightarrow> nat \<times> ('h, 'c) server_pool" where
  "remove_replicas sp resource_ids =
     (let valid = replicas_to_remove sp resource_ids in
      if valid = [] then (0, sp)
      else (case untrack_replicas (sp\<lparr>sp_balancer := remove_servers (sp_balancer sp) (map snd valid)\<rparr>) (map fst valid) of
              (ok, sp1) \<Rightarrow> (if ok then length valid else 0, sp1)))"

definition get_num_hybrid_replicas :: "('h, 'c) server_pool \<Rightarrow> nat" where
  "get_num_hybrid_replicas sp = length (sp_alive sp)"

definition get_hybrid_replicas_info :: "('h, 'c) server_pool \<Rightarrow> (string \<times> string) list" where
  "get_hybrid_replicas_info sp = sp_alive_addresses sp"

definition get_active_server_count :: "('h, 'c) server_pool \<Rightarrow> nat" where
  "get_active_server_count sp = length (sp_rollout sp) + length (sp_alive sp)"

definition get_standalone_replicas :: "('h, 'c) server_pool \<Rightarrow> 'h replica list" where
  "get_standalone_replicas sp = sp_rollout sp"

definition client_only_hybrid :: "('h, 'c) server_pool \<Rightarrow> bool" where
  "client_only_hybrid sp = (length (sp_rollout sp) = 0)"

text \<open>The operations of the rollouter: the pool changes, then its capacity.\<close>

definition rollouter_add_replicas ::
  "('h, 'c) server_pool \<Rightarrow> 's rollouter \<Rightarrow> string list \<Rightarrow> nat \<times> ('h, 'c) server_pool \<times> 's rollouter" where
  "rollouter_add_replicas sp st resource_ids =
     (let (n, sp1) = add_replicas sp resource_ids
      in (n, sp1, if n > 0 then update_max_concurrent_samples (length (sp_rollout sp1)) st else st))"

definition rollouter_remove_replicas ::
  "('h, 'c) server_pool \<Rightarrow> 's rollouter \<Rightarrow> string list \<Rightarrow> nat \<times> ('h, 'c) server_pool \<times> 's rollouter" where
  "rollouter_remove_replicas sp st resource_ids =
     (let (n, sp1) = remove_replicas sp resource_ids
      in (n, sp1, if n > 0 then update_max_concurrent_samples (length (sp_rollout sp1)) st else st))"

subsection \<open>Adding fresh replicas\<close>

text \<open>
  A pool in which the given registered replicas are asleep: none is served, and their addresses
  are new and different.
\<close>

definition asleep_in :: "('h, 'c) server_pool \<Rightarrow> string \<Rightarrow> 'h replica \<Rightarrow> bool" where
  "asleep_in sp rid r \<longleftrightarrow> dict_get (sp_hybrid sp) rid = Some r \<and> \<not> dict_has (sp_alive sp) rid \<and>
     \<not> dict_has (sp_alive_addresses sp) rid \<and> rep_address r \<notin> set (sp_addresses sp) \<and>
     rep_address r \<notin> rep_address ` set (sp_rollout sp) \<and>
     \<not> dict_has (lb_servers (sp_balancer sp)) (rep_address r) \<and>
     \<not> dict_has (lb_inflight (sp_balancer sp)) (rep_address r)"

definition asleep :: "('h, 'c) server_pool \<Rightarrow> (string \<times> 'h replica) list \<Rightarrow> bool" where
  "asleep sp entries \<longleftrightarrow> distinct (map fst entries) \<and> distinct (map (\<lambda>e. rep_address (snd e)) entries) \<and>
     (\<forall>(rid, r) \<in> set entries. asleep_in sp rid r)"

text \<open>The pool with the given replicas appended everywhere.\<close>

definition with_replicas :: "('h, 'c) server_pool \<Rightarrow> (string \<times> 'h replica) list \<Rightarrow> ('h, 'c) server_pool" where
  "with_replicas sp entries =
     sp\<lparr>sp_handles := sp_handles sp @ map (\<lambda>e. rep_handle (snd e)) entries,
        sp_addresses := sp_addresses sp @ map (\<lambda>e. rep_address (snd e)) entries,
        sp_rollout := sp_rollout sp @ map snd entries,
        sp_alive := sp_alive sp @ entries,
        sp_alive_addresses := sp_alive_addresses sp @ map (\<lambda>e. (fst e, rep_address (snd e))) entries\<rparr>"

lemma dict_set_fresh: "\<not> dict_has d k \<Longrightarrow> dict_set d k v = d @ [(k, v)]"
  by (induction d) (auto simp: dict_has_iff)

lemma track_replica_fresh:
  assumes "asleep sp (e # es)"
  shows "track_replica sp e = with_replicas sp [e]" "asleep (with_replicas sp [e]) es"
proof -
  obtain rid r where e: "e = (rid, r)" by (cases e)
  have f: "\<not> dict_has (sp_alive sp) rid" "\<not> dict_has (sp_alive_addresses sp) rid"
    "rep_address r \<notin> set (sp_addresses sp)" "r \<notin> set (sp_rollout sp)"
    using assms by (auto simp: asleep_def asleep_in_def e)
  show "track_replica sp e = with_replicas sp [e]"
    using f by (simp add: track_replica_def with_replicas_def e Let_def dict_set_fresh)
  have "asleep_in (with_replicas sp [e]) rid' r'" if "(rid', r') \<in> set es" for rid' r'
  proof -
    have "rid' \<in> fst ` set es" "rep_address r' \<in> (\<lambda>e. rep_address (snd e)) ` set es"
      using that by (auto intro: rev_image_eqI)
    moreover have "rid \<notin> fst ` set es" "rep_address r \<notin> (\<lambda>e. rep_address (snd e)) ` set es"
      using assms by (simp_all add: asleep_def e)
    ultimately have "rid' \<noteq> rid" "rep_address r' \<noteq> rep_address r" by metis+
    moreover have "asleep_in sp rid' r'" using assms that by (auto simp: asleep_def)
    ultimately show ?thesis by (auto simp: asleep_in_def with_replicas_def e dict_has_iff)
  qed
  with assms show "asleep (with_replicas sp [e]) es" by (auto simp: asleep_def)
qed

lemma with_replicas_append: "with_replicas (with_replicas sp es) es' = with_replicas sp (es @ es')"
  by (simp add: with_replicas_def)

lemma with_replicas_Nil [simp]: "with_replicas sp [] = sp"
  by (simp add: with_replicas_def)

lemma track_replicas: "asleep sp es \<Longrightarrow> foldl track_replica sp es = with_replicas sp es"
proof (induction es arbitrary: sp)
  case (Cons e es)
  from track_replica_fresh [OF Cons.prems] Cons.IH show ?case by (simp add: with_replicas_append)
qed simp

lemma replicas_to_add_asleep:
  assumes "asleep sp es"
  shows "replicas_to_add sp (map fst es) = (map (\<lambda>e. (rep_address (snd e), rep_handle (snd e))) es, es)"
proof -
  let ?f = "\<lambda>(servers, valid) rid. if dict_has (sp_alive sp) rid then (servers, valid)
     else case dict_get (sp_hybrid sp) rid of None \<Rightarrow> (servers, valid)
      | Some r \<Rightarrow> (dict_set servers (rep_address r) (rep_handle r), valid @ [(rid, r)])"
  let ?m = "map (\<lambda>e. (rep_address (snd e), rep_handle (snd e)))"
  have "foldl ?f (?m xs, xs) (map fst ys) = (?m (xs @ ys), xs @ ys)" if "asleep sp (xs @ ys)" for xs ys
    using that
  proof (induction ys arbitrary: xs)
    case (Cons y ys)
    obtain rid r where y: "y = (rid, r)" by (cases y)
    have "\<not> dict_has (?m xs) (rep_address r)" using Cons.prems by (force simp: asleep_def y dict_has_iff)
    moreover have "dict_get (sp_hybrid sp) rid = Some r" "\<not> dict_has (sp_alive sp) rid"
      using Cons.prems by (auto simp: asleep_def asleep_in_def y)
    ultimately have "?f (?m xs, xs) rid = (?m (xs @ [y]), xs @ [y])" by (simp add: dict_set_fresh y)
    with Cons.IH [of "xs @ [y]"] Cons.prems show ?case by (simp add: y)
  qed simp
  from this [of "[]" es] assms show ?thesis by (simp add: replicas_to_add_def)
qed

lemma add_replicas_asleep:
  assumes "asleep sp es" "es \<noteq> []"
  shows "add_replicas sp (map fst es) = (length es, with_replicas
    (sp\<lparr>sp_balancer := add_servers (sp_balancer sp) (map (\<lambda>e. (rep_address (snd e), rep_handle (snd e))) es)\<rparr>) es)"
proof -
  let ?sp = "sp\<lparr>sp_balancer := add_servers (sp_balancer sp) (map (\<lambda>e. (rep_address (snd e), rep_handle (snd e))) es)\<rparr>"
  have "foldl track_replica ?sp es = with_replicas ?sp es" if "asleep sp es"
  proof -
    have tr: "foldl track_replica (sp\<lparr>sp_balancer := b\<rparr>) es = (foldl track_replica sp es)\<lparr>sp_balancer := b\<rparr>" for b
    proof (induction es arbitrary: sp)
      case (Cons e es)
      have "track_replica (sp\<lparr>sp_balancer := b\<rparr>) e = (track_replica sp e)\<lparr>sp_balancer := b\<rparr>"
        by (cases e) (simp add: track_replica_def Let_def)
      with Cons.IH show ?case by simp
    qed simp
    show ?thesis unfolding tr track_replicas [OF that] by (simp add: with_replicas_def)
  qed
  with assms show ?thesis by (simp add: add_replicas_def replicas_to_add_asleep)
qed

subsection \<open>Removing them again\<close>

lemma index_of_append: "x \<notin> set xs \<Longrightarrow> index_of x (xs @ x # ys) = length xs"
  by (induction xs) auto

lemma pop_at_append: "pop_at (length xs) (xs @ y # ys) = xs @ ys"
  by (simp add: pop_at_def)

lemma dict_pop_middle: "\<not> dict_has d k \<Longrightarrow> \<not> dict_has d' k \<Longrightarrow> dict_pop (d @ (k, v) # d') k = d @ d'"
proof -
  assume "\<not> dict_has d k" "\<not> dict_has d' k"
  then have "filter (\<lambda>p. fst p \<noteq> k) d = d" "filter (\<lambda>p. fst p \<noteq> k) d' = d'"
    by (auto simp: dict_has_iff filter_id_conv)
  then show ?thesis by (simp add: dict_pop_def)
qed

lemma dict_get_middle: "\<not> dict_has d k \<Longrightarrow> dict_get (d @ (k, v) # d') k = Some v"
  by (auto simp: dict_has_def map_add_def split: option.splits)

lemma untrack_with:
  assumes "asleep sp ((rid, r) # es)" "length (sp_handles sp) = length (sp_addresses sp)"
  shows "untrack_replica (with_replicas sp ((rid, r) # es)) rid (rep_address r) r = with_replicas sp es"
    and "dict_get (sp_alive_addresses (with_replicas sp ((rid, r) # es))) rid = Some (rep_address r)"
    and "dict_get (sp_alive (with_replicas sp ((rid, r) # es))) rid = Some r"
proof -
  have f: "\<not> dict_has (sp_alive sp) rid" "\<not> dict_has (sp_alive_addresses sp) rid" "\<not> dict_has es rid"
    "\<not> dict_has (map (\<lambda>e. (fst e, rep_address (snd e))) es) rid"
    "rep_address r \<notin> set (sp_addresses sp)" "r \<notin> set (sp_rollout sp)"
    using assms(1) by (auto simp: asleep_def asleep_in_def dict_has_iff)
  show "dict_get (sp_alive_addresses (with_replicas sp ((rid, r) # es))) rid = Some (rep_address r)"
    "dict_get (sp_alive (with_replicas sp ((rid, r) # es))) rid = Some r"
    using f by (simp_all add: with_replicas_def dict_get_middle del: map_of_append)
  have i: "index_of (rep_address r) (sp_addresses sp @ rep_address r # xs) = length (sp_addresses sp)" for xs
    using f by (simp add: index_of_append)
  have p: "pop_at (length (sp_addresses sp)) (sp_addresses sp @ rep_address r # xs) = sp_addresses sp @ xs"
    "pop_at (length (sp_addresses sp)) (sp_handles sp @ rep_handle r # ys) = sp_handles sp @ ys" for xs ys
    using pop_at_append [of "sp_handles sp"] assms(2) by (simp_all add: pop_at_append)
  show "untrack_replica (with_replicas sp ((rid, r) # es)) rid (rep_address r) r = with_replicas sp es"
    using f by (simp add: untrack_replica_def with_replicas_def Let_def i p dict_pop_middle remove1_append)
qed

lemma untrack_all:
  assumes "asleep sp es" "length (sp_handles sp) = length (sp_addresses sp)"
  shows "untrack_replicas (with_replicas sp es) (map fst es) = (True, sp)"
  using assms
proof (induction es)
  case (Cons e es)
  obtain rid r where e: "e = (rid, r)" by (cases e)
  have "asleep sp es" using Cons.prems(1) by (simp add: asleep_def)
  with Cons e show ?case by (simp add: untrack_with)
qed simp

lemma replicas_to_remove_with:
  assumes "asleep sp es"
  shows "replicas_to_remove (with_replicas sp es) (map fst es) = map (\<lambda>e. (fst e, rep_address (snd e))) es"
proof -
  have "(if dict_has (sp_alive (with_replicas sp es)) (fst e)
      then map_option (Pair (fst e)) (dict_get (sp_alive_addresses (with_replicas sp es)) (fst e)) else None)
      = Some (fst e, rep_address (snd e))" if "e \<in> set es" for e
  proof -
    from split_list [OF that] obtain xs ys where es: "es = xs @ e # ys" by blast
    have "\<not> dict_has (sp_alive_addresses sp @ map (\<lambda>e. (fst e, rep_address (snd e))) xs) (fst e)"
    proof -
      have "fst e \<notin> fst ` set xs" using assms by (simp add: asleep_def es)
      moreover have "\<not> dict_has (sp_alive_addresses sp) (fst e)" using assms that by (auto simp: asleep_def asleep_in_def)
      ultimately show ?thesis by (simp add: dict_has_iff image_image)
    qed
    from dict_get_middle [OF this] show ?thesis using that by (auto simp: with_replicas_def es dict_has_iff)
  qed
  then show ?thesis by (induction es) (auto simp: replicas_to_remove_def map_filter_def)
qed

text \<open>The balancer gets its servers back.\<close>

lemma add_servers_fresh:
  assumes "distinct (map fst ss)" "\<forall>a \<in> set (map fst ss). \<not> dict_has (lb_servers lb) a \<and> \<not> dict_has (lb_inflight lb) a"
  shows "add_servers lb ss = lb\<lparr>lb_servers := lb_servers lb @ ss, lb_inflight := lb_inflight lb @ map (\<lambda>s. (fst s, 0)) ss\<rparr>"
  using assms
proof (induction ss arbitrary: lb)
  case (Cons s ss)
  obtain a h where s: "s = (a, h)" by (cases s)
  let ?lb = "lb\<lparr>lb_inflight := dict_set (lb_inflight lb) a 0, lb_servers := dict_set (lb_servers lb) a h\<rparr>"
  have "add_servers lb (s # ss) = add_servers ?lb ss" by (simp add: add_servers_def s)
  moreover have "\<forall>b \<in> set (map fst ss). \<not> dict_has (lb_servers ?lb) b \<and> \<not> dict_has (lb_inflight ?lb) b"
    using Cons.prems by (auto simp: s)
  ultimately show ?case using Cons.IH [of ?lb] Cons.prems by (simp add: s dict_set_fresh)
qed (simp add: add_servers_def)

lemma pop_all: "foldl (\<lambda>d k. dict_pop d k) d ks = filter (\<lambda>p. fst p \<notin> set ks) d"
  by (induction ks arbitrary: d) (auto simp: dict_pop_def intro!: filter_cong)

lemma remove_servers_pop:
  "remove_servers lb ks = lb\<lparr>lb_inflight := filter (\<lambda>p. fst p \<notin> set ks) (lb_inflight lb),
     lb_servers := filter (\<lambda>p. fst p \<notin> set ks) (lb_servers lb)\<rparr>"
proof -
  have "remove_servers lb ks = lb\<lparr>lb_inflight := foldl (\<lambda>d k. dict_pop d k) (lb_inflight lb) ks,
     lb_servers := foldl (\<lambda>d k. dict_pop d k) (lb_servers lb) ks\<rparr>"
    by (induction ks arbitrary: lb) (simp_all add: remove_servers_def)
  then show ?thesis by (simp only: pop_all)
qed

lemma add_remove_servers:
  assumes "distinct (map fst ss)" "\<forall>a \<in> set (map fst ss). \<not> dict_has (lb_servers lb) a \<and> \<not> dict_has (lb_inflight lb) a"
  shows "remove_servers (add_servers lb ss) (map fst ss) = lb"
proof -
  have "filter (\<lambda>p. fst p \<notin> fst ` set ss) (lb_servers lb) = lb_servers lb"
    "filter (\<lambda>p. fst p \<notin> fst ` set ss) (lb_inflight lb) = lb_inflight lb"
    using assms(2) by (force simp: filter_id_conv dict_has_iff)+
  then show ?thesis
    by (simp add: add_servers_fresh [OF assms] remove_servers_pop)
qed

subsection \<open>Properties\<close>

lemma add_remove_pool:
  assumes "asleep sp entries" and "entries \<noteq> []" and "length (sp_handles sp) = length (sp_addresses sp)"
  shows "\<exists>sp1. add_replicas sp (map fst entries) = (length entries, sp1) \<and>
    sp_rollout sp1 = sp_rollout sp @ map snd entries \<and>
    remove_replicas sp1 (map fst entries) = (length entries, sp)"
proof -
  let ?ss = "map (\<lambda>e. (rep_address (snd e), rep_handle (snd e))) entries"
  let ?b = "add_servers (sp_balancer sp) ?ss"
  let ?sp1 = "with_replicas (sp\<lparr>sp_balancer := ?b\<rparr>) entries"
  have v: "replicas_to_remove ?sp1 (map fst entries) = map (\<lambda>e. (fst e, rep_address (snd e))) entries"
  proof -
    have "replicas_to_remove ?sp1 = replicas_to_remove (with_replicas sp entries)"
      by (rule ext) (simp add: replicas_to_remove_def with_replicas_def cong: if_cong)
    then show ?thesis using replicas_to_remove_with [OF assms(1)] by simp
  qed
  have m: "map snd (map (\<lambda>e. (fst e, rep_address (snd e))) entries) = map fst ?ss"
    "map fst (map (\<lambda>e. (fst e, rep_address (snd e))) entries) = map fst entries" by simp_all
  have b: "remove_servers ?b (map fst ?ss) = sp_balancer sp"
    by (rule add_remove_servers) (use assms(1) in \<open>auto simp: asleep_def asleep_in_def comp_def\<close>)
  have "remove_replicas ?sp1 (map fst entries) = (length entries, sp)"
  proof -
    have "sp_balancer ?sp1 = ?b" by (simp add: with_replicas_def)
    with b have "?sp1\<lparr>sp_balancer := remove_servers (sp_balancer ?sp1) (map fst ?ss)\<rparr> = with_replicas sp entries"
      by (simp only: with_replicas_def) simp
    then show ?thesis
      unfolding remove_replicas_def Let_def v m by (simp only: untrack_all [OF assms(1,3)]) (simp add: assms(2))
  qed
  with add_replicas_asleep [OF assms(1,2)] show ?thesis by (simp add: with_replicas_def)
qed

text \<open>
  Activating sleeping replicas and deactivating them again gives back the pool: the balancer
  with its servers, the replica, handle and address lists in their order, and the active set.
\<close>

theorem hybrid_add_remove:
  assumes "asleep sp entries" and "entries \<noteq> []" and "length (sp_handles sp) = length (sp_addresses sp)"
  shows "\<exists>sp1. add_replicas sp (map fst entries) = (length entries, sp1) \<and>
    sp_rollout sp1 = sp_rollout sp @ map snd entries \<and>
    remove_replicas sp1 (map fst entries) = (length entries, sp)"
  by (rule add_remove_pool [OF assms])

definition two_replicas :: "nat \<Rightarrow> string replica" where
  "two_replicas i = \<lparr>rep_id = i, rep_address = nat_digits i, rep_handle = ''h''\<rparr>"

definition hybrid_only_pool :: "(string, unit) server_pool" where
  "hybrid_only_pool = initialize_llm_servers [two_replicas 0, two_replicas 1] [] () False"

lemma hybrid_only_asleep: "asleep hybrid_only_pool (sp_hybrid hybrid_only_pool)"
  by code_simp

theorem hybrid_add_remove_witness:
  "\<exists>sp1. add_replicas hybrid_only_pool [''hybrid_0'', ''hybrid_1''] = (2, sp1) \<and> length (sp_rollout sp1) = 2 \<and>
     remove_replicas sp1 [''hybrid_0'', ''hybrid_1''] = (2, hybrid_only_pool)"
proof -
  have e: "map fst (sp_hybrid hybrid_only_pool) = [''hybrid_0'', ''hybrid_1'']" "length (sp_hybrid hybrid_only_pool) = 2"
    "sp_hybrid hybrid_only_pool \<noteq> []" "length (sp_rollout hybrid_only_pool) = 0" by code_simp+
  have "length (sp_handles hybrid_only_pool) = length (sp_addresses hybrid_only_pool)" by code_simp
  from hybrid_add_remove [OF hybrid_only_asleep e(3) this] e show ?thesis by auto
qed

text \<open>
  \<open>rollout_replicas\<close> holds the active hybrid replicas too, so the count of the active servers has
  them twice and the standalone replicas are reported with them.
\<close>

lemma active_count_doubles:
  assumes "asleep sp entries" "entries \<noteq> []"
  shows "get_active_server_count (snd (add_replicas sp (map fst entries))) =
      get_active_server_count sp + 2 * length entries"
    and "get_standalone_replicas (snd (add_replicas sp (map fst entries))) = get_standalone_replicas sp @ map snd entries"
  using add_replicas_asleep [OF assms]
  by (simp_all add: with_replicas_def get_active_server_count_def get_standalone_replicas_def)

text \<open>
  Without standalone replicas, deactivating the hybrid replicas leaves the rollouter without
  capacity: if its processor is waiting for a sample with no task active, the next sample makes it
  spin, and the replicas can not be activated again.
\<close>

theorem deactivation_leaves_no_capacity:
  assumes "asleep sp entries" and "entries \<noteq> []" and "length (sp_handles sp) = length (sp_addresses sp)"
    and "sp_rollout sp = []"
    and "add_replicas sp (map fst entries) = (n, sp1)"
    and "rollouter_remove_replicas sp1 st (map fst entries) = (k, sp2, st1)"
    and "ro_proc st = AwaitGet" and "ro_pending st = Some s # rest" and "ro_active st = []"
    and "\<not> ro_lock st" and "ro_reset st = ResetIdle" and "ro_monitor st = MonSleep"
  shows "ro_max_concurrent st1 = 0 \<and> (\<exists>st2. ro_step st1 (Proc answer) = Some st2 \<and> ro_step st2 (Replicas m) = None)"
proof -
  have "remove_replicas sp1 (map fst entries) = (length entries, sp)"
    using add_remove_pool [OF assms(1-3)] assms(5) by auto
  then have st1: "st1 = update_max_concurrent_samples 0 st"
    using assms(2,4,6) by (auto simp: rollouter_remove_replicas_def)
  then have "ro_step st1 (Proc answer) = Some (st1\<lparr>ro_pending := rest, ro_staleness := Suc (ro_staleness st1), ro_proc := Hung s\<rparr>)"
    using assms(7-12) by (simp add: ro_step_def proc_step_def get_pending_def throttle_def proc_may_lock_def Let_def
        update_max_concurrent_samples_def monitor_waits_def)
  then show ?thesis using st1 by (simp add: update_max_concurrent_samples_def ro_step_def)
qed

definition waiting_rollouter :: "nat rollouter" where
  "waiting_rollouter = the (ro_run (ro_start 4 2 1 [1, 2] \<lparr>mq_max_queue_size = 4, mq_queue = [], mq_val_queue = [],
     mq_running = True, mq_total_produced = 0, mq_total_consumed = 0, mq_dropped_samples = 0\<rparr>) [Feed, Proc 0])"

theorem deactivation_leaves_no_capacity_witness:
  "\<exists>sp1 st1 st2. snd (add_replicas hybrid_only_pool [''hybrid_0'', ''hybrid_1'']) = sp1 \<and>
     snd (snd (rollouter_remove_replicas sp1 waiting_rollouter [''hybrid_0'', ''hybrid_1''])) = st1 \<and>
     ro_step st1 (Proc 0) = Some st2 \<and> ro_step st2 (Replicas 2) = None"
proof -
  let ?ids = "[''hybrid_0'', ''hybrid_1'']"
  obtain n sp1 where a: "add_replicas hybrid_only_pool ?ids = (n, sp1)" by fastforce
  obtain k sp2 st1 where r: "rollouter_remove_replicas sp1 waiting_rollouter ?ids = (k, sp2, st1)" by (metis prod_cases3)
  have e: "map fst (sp_hybrid hybrid_only_pool) = ?ids" "sp_hybrid hybrid_only_pool \<noteq> []"
    "length (sp_handles hybrid_only_pool) = length (sp_addresses hybrid_only_pool)" "sp_rollout hybrid_only_pool = []"
    "ro_proc waiting_rollouter = AwaitGet" "ro_pending waiting_rollouter = [Some 1]" "ro_active waiting_rollouter = []"
    "\<not> ro_lock waiting_rollouter" "ro_reset waiting_rollouter = ResetIdle" "ro_monitor waiting_rollouter = MonSleep"
    by code_simp+
  have "ro_max_concurrent st1 = 0 \<and> (\<exists>st2. ro_step st1 (Proc 0) = Some st2 \<and> ro_step st2 (Replicas 2) = None)"
    by (rule deactivation_leaves_no_capacity [OF hybrid_only_asleep e(2,3,4)]) (use a r e in simp_all)
  with a r show ?thesis by auto
qed

end
