(* ===== verification/AsyncTrainer.thy ===== *)
theory AsyncTrainer
  imports SchedulePolicy HybridPool MessageQueue
begin

text \<open>
  The training loop of \<open>FullyAsyncTrainer\<close> (\<open>verl/experimental/fully_async_policy/
  fully_async_trainer.py\<close>) with its \<open>DynamicResourceController\<close>.  The trainer talks to the
  rollouter and to the checkpoint managers by calls, which are logged in their order; the message
  queue is the one of MessageQueue, with \<open>None\<close> as the end signal.  What the rollouter puts into
  the queue is a list of arrivals: one entry comes in before a step and one at every poll while
  the trainer waits, so an exhausted list is a rollouter that has ended.  Clock readings and the
  counters of the rollouter are given per step; the update of the actor is a parameter.
\<close>

subsection \<open>State\<close>

record trainer_config =
  tc_required_samples :: nat
  tc_trigger_parameter_sync_step :: nat
  tc_critic_warmup :: nat
  tc_bypass_mode :: bool
  tc_test_freq :: int
  tc_save_freq :: int
  tc_use_trainer_do_validate :: bool
  tc_dynamic_schedule_enabled :: bool
  tc_only_hybrid :: bool
  tc_enable_rebalance :: bool
  tc_staleness_threshold :: rat
  tc_hybrid_ids :: "string list"

record readings =
  rd_deactivate_s :: rat
  rd_wait_s :: rat
  rd_activate_s :: rat
  rd_total_generated_samples :: nat
  rd_completed_steps :: nat
  rd_esi_close_to_expiration :: bool

datatype 'w call =
    UpdateStandalone nat 'w
  | AbortStandalone
  | ResumeStandalone
  | UpdateHybrid nat 'w
  | AbortHybrid
  | ResumeHybrid
  | SleepHybrid
  | AddReplicas "string list"
  | RemoveReplicas "string list"
  | RebalanceRequests
  | ResetStaleness
  | DoValidate nat
  | SaveCheckpoint nat 'w

record ('w, 'a) trainer =
  tr_global_steps :: nat
  tr_local_trigger_step :: nat
  tr_current_param_version :: nat
  tr_last_ckpt_version :: nat
  tr_step_wait_times :: "rat list"
  tr_step_wait_samples :: "nat list"
  tr_queue :: "'a option message_queue"
  tr_ctx :: schedule_context
  tr_policy :: policy
  tr_hybrid_active :: bool
  tr_activate_count :: nat
  tr_deactivate_count :: nat
  tr_model :: 'w
  tr_cpu_saved_models :: "nat \<Rightarrow> 'w option"
  tr_calls :: "'w call list"

definition new_trainer :: "trainer_config \<Rightarrow> policy \<Rightarrow> 'a option message_queue \<Rightarrow> 'w \<Rightarrow> ('w, 'a) trainer" where
  "new_trainer cfg p mq w =
     \<lparr>tr_global_steps = 0, tr_local_trigger_step = 1, tr_current_param_version = 0, tr_last_ckpt_version = 0,
      tr_step_wait_times = [], tr_step_wait_samples = [], tr_queue = mq,
      tr_ctx = initial_context (tc_required_samples cfg) (tc_trigger_parameter_sync_step cfg) (tc_only_hybrid cfg),
      tr_policy = p, tr_hybrid_active = False, tr_activate_count = 0, tr_deactivate_count = 0,
      tr_model = w, tr_cpu_saved_models = Map.empty, tr_calls = []\<rparr>"

definition call_rpc :: "'w call \<Rightarrow> ('w, 'a) trainer \<Rightarrow> ('w, 'a) trainer" where
  "call_rpc c t = t\<lparr>tr_calls := tr_calls t @ [c]\<rparr>"

definition call_rpcs :: "'w call list \<Rightarrow> ('w, 'a) trainer \<Rightarrow> ('w, 'a) trainer" where
  "call_rpcs cs t = t\<lparr>tr_calls := tr_calls t @ cs\<rparr>"

subsection \<open>The controller of the hybrid replicas\<close>

text \<open>Weights go to the hybrid replicas with their requests aborted before and resumed after.\<close>

definition sync_hybrid_weights :: "trainer_config \<Rightarrow> ('w, 'a) trainer \<Rightarrow> ('w, 'a) trainer" where
  "sync_hybrid_weights cfg t =
     (if tc_hybrid_ids cfg = [] then t
      else call_rpcs [AbortHybrid, UpdateHybrid (tr_current_param_version t) (tr_model t), ResumeHybrid] t)"

definition activate_hybrid_replicas :: "trainer_config \<Rightarrow> ('w, 'a) trainer \<Rightarrow> ('w, 'a) trainer" where
  "activate_hybrid_replicas cfg t =
     (if tc_hybrid_ids cfg = [] then t
      else (call_rpcs [AddReplicas (tc_hybrid_ids cfg), ResumeHybrid] t)
        \<lparr>tr_hybrid_active := True, tr_activate_count := tr_activate_count t + 1\<rparr>)"

definition deactivate_hybrid_replicas :: "trainer_config \<Rightarrow> ('w, 'a) trainer \<Rightarrow> ('w, 'a) trainer" where
  "deactivate_hybrid_replicas cfg t =
     (if tc_hybrid_ids cfg = [] then t\<lparr>tr_hybrid_active := False\<rparr>
      else (call_rpcs [RemoveReplicas (tc_hybrid_ids cfg), AbortHybrid, SleepHybrid] t)
        \<lparr>tr_hybrid_active := False, tr_deactivate_count := tr_deactivate_count t + 1\<rparr>)"

subsection \<open>Waiting for samples\<close>

definition put_all :: "'a option list \<Rightarrow> 'a option message_queue \<Rightarrow> 'a option message_queue" where
  "put_all xs mq = foldl (\<lambda>q x. snd (put_sample q x)) mq xs"

text \<open>
  \<open>wait_for_enough_samples\<close>, which the trainer calls without a timeout: \<open>None\<close> is a wait that never
  ends.
\<close>

fun wait_for_enough_samples ::
  "int \<Rightarrow> 'a option message_queue \<Rightarrow> 'a option list list \<Rightarrow> ('a option message_queue \<times> 'a option list list) option" where
  "wait_for_enough_samples required_count mq arrivals =
     (if int (get_queue_size mq) \<ge> required_count then Some (mq, arrivals)
      else case arrivals of
          [] \<Rightarrow> None
        | xs # rest \<Rightarrow> wait_for_enough_samples required_count (put_all xs mq) rest)"

declare wait_for_enough_samples.simps [simp del]

text \<open>The collection of one batch: \<open>queue_samples\<close> grows until it is full or the end signal comes.\<close>

datatype 'a collected =
    Enough "'a list" "'a option message_queue" "'a option list list"
  | Short "'a option message_queue" "'a option list list"
  | Starved
  | QueueClosed

function collect_samples ::
  "nat \<Rightarrow> 'a list \<Rightarrow> 'a option message_queue \<Rightarrow> 'a option list list \<Rightarrow> 'a collected" where
  "collect_samples missing queue_samples mq arrivals =
     (if missing = 0 then Enough queue_samples mq arrivals
      else case get_sample mq of
          (Got (Some x) _, mq1) \<Rightarrow> collect_samples (missing - 1) (queue_samples @ [x]) mq1 arrivals
        | (Got None _, mq1) \<Rightarrow> Short mq1 arrivals
        | (Closed, _) \<Rightarrow> QueueClosed
        | (Waiting, _) \<Rightarrow> (case arrivals of
              [] \<Rightarrow> Starved
            | xs # rest \<Rightarrow> collect_samples missing queue_samples (put_all xs mq) rest))"
  by pat_completeness auto
termination
  by (relation "measures [\<lambda>(missing, _, _, arrivals). length arrivals, \<lambda>(missing, _). missing]") auto

declare collect_samples.simps [simp del]

subsection \<open>The steps of an update\<close>

text \<open>
  The old log probabilities come from the weights at the first local step of the cycle: they are
  saved to the CPU then, and restored for the computation in the later steps.
\<close>

definition save_model_to_cpu :: "nat \<Rightarrow> ('w, 'a) trainer \<Rightarrow> ('w, 'a) trainer" where
  "save_model_to_cpu n t = t\<lparr>tr_cpu_saved_models := (tr_cpu_saved_models t)(n \<mapsto> tr_model t)\<rparr>"

definition restore_model_from_cpu :: "nat \<Rightarrow> ('w, 'a) trainer \<Rightarrow> ('w, 'a) trainer" where
  "restore_model_from_cpu n t =
     (case tr_cpu_saved_models t n of None \<Rightarrow> t | Some w \<Rightarrow> t\<lparr>tr_model := w\<rparr>)"

definition clear_cpu_model :: "nat \<Rightarrow> ('w, 'a) trainer \<Rightarrow> ('w, 'a) trainer" where
  "clear_cpu_model n t = t\<lparr>tr_cpu_saved_models := (tr_cpu_saved_models t)(n := None)\<rparr>"

text \<open>The weights the log probabilities are computed with, and the state after.\<close>

definition compute_old_log_prob :: "('w, 'a) trainer \<Rightarrow> 'w \<times> ('w, 'a) trainer" where
  "compute_old_log_prob t =
     (if tr_local_trigger_step t = 1 then (tr_model t, save_model_to_cpu 1 t)
      else
        (let n = tr_local_trigger_step t;
             t1 = restore_model_from_cpu 1 (save_model_to_cpu n t)
         in (tr_model t1, clear_cpu_model n (restore_model_from_cpu n t1))))"

definition update_local_step :: "trainer_config \<Rightarrow> ('w, 'a) trainer \<Rightarrow> ('w, 'a) trainer" where
  "update_local_step cfg t =
     (if tr_local_trigger_step t < tc_trigger_parameter_sync_step cfg
      then t\<lparr>tr_local_trigger_step := tr_local_trigger_step t + 1\<rparr>
      else t\<lparr>tr_current_param_version := tr_current_param_version t + 1, tr_local_trigger_step := 1\<rparr>)"

text \<open>The context the policy sees, and its decision.\<close>

definition refresh_context :: "trainer_config \<Rightarrow> readings \<Rightarrow> ('w, 'a) trainer \<Rightarrow> schedule_context" where
  "refresh_context cfg rd t =
     (let ctx = tr_ctx t; step = step_required_samples ctx
      in ctx\<lparr>sc_total_generated_samples := int (rd_total_generated_samples rd),
             sc_expected_samples := int (step * rd_completed_steps rd),
             sc_buffer_samples := of_nat step * tc_staleness_threshold cfg,
             sc_step_wait_times := tr_step_wait_times t,
             sc_step_wait_samples := tr_step_wait_samples t\<rparr>)"

definition decide_activation :: "trainer_config \<Rightarrow> readings \<Rightarrow> ('w, 'a) trainer \<Rightarrow> bool \<times> ('w, 'a) trainer" where
  "decide_activation cfg rd t =
     (if tc_dynamic_schedule_enabled cfg
      then (let ctx = refresh_context cfg rd t; (b, p) = should_activate_after_step ctx (tr_policy t)
            in (b, t\<lparr>tr_ctx := ctx, tr_policy := p\<rparr>))
      else (False, t))"

definition switch_to_hybrid :: "trainer_config \<Rightarrow> readings \<Rightarrow> ('w, 'a) trainer \<Rightarrow> ('w, 'a) trainer" where
  "switch_to_hybrid cfg rd t =
     (let t1 = activate_hybrid_replicas cfg (sync_hybrid_weights cfg t);
          t2 = (if tc_enable_rebalance cfg \<and> po_kind (tr_policy t1) \<noteq> StaticPolicy then call_rpc RebalanceRequests t1 else t1)
      in t2\<lparr>tr_ctx := (tr_ctx t2)\<lparr>sc_last_activate_duration_s := sc_last_activate_duration_s (tr_ctx t2) + rd_activate_s rd\<rparr>\<rparr>)"

definition finish_cycle :: "trainer_config \<Rightarrow> ('w, 'a) trainer \<Rightarrow> ('w, 'a) trainer" where
  "finish_cycle cfg t =
     (let t1 = (if tc_dynamic_schedule_enabled cfg
           then t\<lparr>tr_policy := update_after_step (tr_current_param_version t) (tr_ctx t) (tr_policy t),
                  tr_ctx := (tr_ctx t)\<lparr>sc_last_deactivate_duration_s := 0, sc_last_activate_duration_s := 0\<rparr>\<rparr>
           else t)
      in t1\<lparr>tr_step_wait_times := [], tr_step_wait_samples := []\<rparr>)"

text \<open>\<open>_fit_update_weights\<close>; nothing happens within a cycle.\<close>

definition fit_update_weights :: "trainer_config \<Rightarrow> readings \<Rightarrow> ('w, 'a) trainer \<Rightarrow> ('w, 'a) trainer" where
  "fit_update_weights cfg rd t =
     (if tr_local_trigger_step t \<noteq> 1 then t
      else
        (let (activate, t1) = decide_activation cfg rd t;
             t2 = (if \<not> tc_only_hybrid cfg then call_rpc (UpdateStandalone (tr_current_param_version t1) (tr_model t1)) t1 else t1);
             t3 = (if tc_dynamic_schedule_enabled cfg \<and> activate then switch_to_hybrid cfg rd t2 else t2)
         in finish_cycle cfg (call_rpc ResetStaleness t3)))"

definition trainer_side_validate :: "trainer_config \<Rightarrow> ('w, 'a) trainer \<Rightarrow> ('w, 'a) trainer" where
  "trainer_side_validate cfg t = call_rpcs
     [UpdateHybrid (tr_current_param_version t) (tr_model t), AbortStandalone, AbortHybrid,
      AddReplicas (tc_hybrid_ids cfg), ResumeStandalone, ResumeHybrid,
      DoValidate (tr_current_param_version t),
      AbortStandalone, AbortHybrid, RemoveReplicas (tc_hybrid_ids cfg), SleepHybrid, ResumeStandalone, ResumeHybrid] t"

definition fit_validate :: "trainer_config \<Rightarrow> bool \<Rightarrow> ('w, 'a) trainer \<Rightarrow> ('w, 'a) trainer" where
  "fit_validate cfg val_before_train t =
     (if tr_local_trigger_step t \<noteq> 1 then t
      else
        (let need = tc_test_freq cfg > 0 \<and> int (tr_current_param_version t) mod tc_test_freq cfg = 0 \<and>
               tr_current_param_version t > 0
         in if \<not> need \<and> \<not> val_before_train then t
            else if tc_use_trainer_do_validate cfg then trainer_side_validate cfg t
            else call_rpc (DoValidate (tr_current_param_version t)) t))"

definition fit_save_checkpoint :: "trainer_config \<Rightarrow> readings \<Rightarrow> bool \<Rightarrow> ('w, 'a) trainer \<Rightarrow> ('w, 'a) trainer" where
  "fit_save_checkpoint cfg rd force t =
     (if tr_current_param_version t = tr_last_ckpt_version t then t
      else if tc_save_freq cfg > 0 \<and>
        (force \<or> int (tr_current_param_version t) mod tc_save_freq cfg = 0 \<or> rd_esi_close_to_expiration rd)
      then (call_rpc (SaveCheckpoint (tr_current_param_version t) (tr_model t)) t)
        \<lparr>tr_last_ckpt_version := tr_current_param_version t\<rparr>
      else t)"

subsection \<open>One step\<close>

datatype 's step_outcome =
    Stepped 's
  | StopTraining 's
  | WaitsForSamples
  | WaitsForQueue
  | UnpackError

text \<open>Before training the hybrid replicas are given up, once the queue holds enough samples.\<close>

definition begin_step ::
  "trainer_config \<Rightarrow> readings \<Rightarrow> 'a option list list \<Rightarrow> ('w, 'a) trainer \<Rightarrow> (('w, 'a) trainer \<times> 'a option list list) option" where
  "begin_step cfg rd arrivals t =
     (if tc_dynamic_schedule_enabled cfg \<and> should_deactivate (tr_policy t) (tr_hybrid_active t)
      then (case wait_for_enough_samples (deactivate_wait_samples (tr_policy t) (tr_ctx t)) (tr_queue t) arrivals of
              None \<Rightarrow> None
            | Some (mq, rest) \<Rightarrow>
                (let t1 = deactivate_hybrid_replicas cfg (t\<lparr>tr_queue := mq\<rparr>);
                     ctx = tr_ctx t1
                 in Some (t1\<lparr>tr_ctx := ctx\<lparr>sc_last_deactivate_duration_s := sc_last_deactivate_duration_s ctx + rd_deactivate_s rd\<rparr>\<rparr>, rest)))
      else Some (t, arrivals))"

text \<open>A trained batch is reported with the weights of its old log probabilities and of its update.\<close>

record ('w, 'a) trained =
  td_batch :: "'a list"
  td_local_step :: nat
  td_old :: 'w
  td_model :: 'w

definition train_batch ::
  "trainer_config \<Rightarrow> readings \<Rightarrow> ('a list \<Rightarrow> 'w \<Rightarrow> 'w) \<Rightarrow> 'a list \<Rightarrow> ('w, 'a) trainer \<Rightarrow> ('w, 'a) trained \<times> ('w, 'a) trainer" where
  "train_batch cfg rd update_actor batch t =
     (let (w_old, t1) = (if tc_bypass_mode cfg then (tr_model t, t) else compute_old_log_prob t);
          t2 = (if tc_critic_warmup cfg \<le> tr_global_steps t1 then t1\<lparr>tr_model := update_actor batch (tr_model t1)\<rparr> else t1);
          t3 = fit_update_weights cfg rd (update_local_step cfg t2);
          t4 = fit_save_checkpoint cfg rd False (fit_validate cfg False t3)
      in (\<lparr>td_batch = batch, td_local_step = tr_local_trigger_step t, td_old = w_old, td_model = tr_model t1\<rparr>,
          t4\<lparr>tr_global_steps := tr_global_steps t4 + 1\<rparr>))"

definition fit_step ::
  "trainer_config \<Rightarrow> (nat \<Rightarrow> readings) \<Rightarrow> ('a list \<Rightarrow> 'w \<Rightarrow> 'w) \<Rightarrow> 'a option list list \<Rightarrow> ('w, 'a) trainer \<Rightarrow>
   (('w, 'a) trained option \<times> ('w, 'a) trainer \<times> 'a option list list) step_outcome" where
  "fit_step cfg clock update_actor arrivals t =
     (let rd = clock (tr_global_steps t);
          (t0, arrivals0) = (case arrivals of [] \<Rightarrow> (t, []) | xs # rest \<Rightarrow> (t\<lparr>tr_queue := put_all xs (tr_queue t)\<rparr>, rest))
      in case begin_step cfg rd arrivals0 t0 of
           None \<Rightarrow> WaitsForSamples
         | Some (t1, arrivals1) \<Rightarrow>
             (let pending_wait_samples =
                    (if tc_dynamic_schedule_enabled cfg then tc_required_samples cfg - get_queue_size (tr_queue t1) else 0)
              in case collect_samples (tc_required_samples cfg) [] (tr_queue t1) arrivals1 of
                   Starved \<Rightarrow> WaitsForQueue
                 | QueueClosed \<Rightarrow> UnpackError
                 | Short mq rest \<Rightarrow> StopTraining (None, t1\<lparr>tr_queue := mq\<rparr>, rest)
                 | Enough batch mq rest \<Rightarrow>
                     (let (done_batch, t2) = train_batch cfg rd update_actor batch
                            (t1\<lparr>tr_queue := mq, tr_step_wait_times := tr_step_wait_times t1 @ [rd_wait_s rd],
                                tr_step_wait_samples := tr_step_wait_samples t1 @ [pending_wait_samples]\<rparr>)
                      in Stepped (Some done_batch, t2, rest))))"

subsection \<open>The loop\<close>

text \<open>The loop runs until the queue ends it; the batches trained so far are reported.\<close>

fun fit_loop ::
  "nat \<Rightarrow> trainer_config \<Rightarrow> (nat \<Rightarrow> readings) \<Rightarrow> ('a list \<Rightarrow> 'w \<Rightarrow> 'w) \<Rightarrow> ('w, 'a) trained list \<Rightarrow>
   'a option list list \<Rightarrow> ('w, 'a) trainer \<Rightarrow> (('w, 'a) trained list \<times> ('w, 'a) trainer) step_outcome option" where
  "fit_loop 0 cfg clock update_actor batches arrivals t = None"
| "fit_loop (Suc fuel) cfg clock update_actor batches arrivals t =
     (case fit_step cfg clock update_actor arrivals t of
        Stepped (b, t1, rest) \<Rightarrow> fit_loop fuel cfg clock update_actor (batches @ (case b of None \<Rightarrow> [] | Some x \<Rightarrow> [x])) rest t1
      | StopTraining (_, t1, _) \<Rightarrow> Some (StopTraining (batches, t1))
      | WaitsForSamples \<Rightarrow> Some WaitsForSamples
      | WaitsForQueue \<Rightarrow> Some WaitsForQueue
      | UnpackError \<Rightarrow> Some UnpackError)"

text \<open>After the loop: \<open>x % 0\<close> raises, a cycle that was begun is neither synchronised nor validated.\<close>

definition fit_close :: "trainer_config \<Rightarrow> readings \<Rightarrow> ('w, 'a) trainer \<Rightarrow> ('w, 'a) trainer result" where
  "fit_close cfg rd t =
     (if tc_test_freq cfg = 0 then Inl ZeroDivisionError
      else
        (let t1 = (if int (tr_current_param_version t) mod tc_test_freq cfg \<noteq> 0 \<or> tr_local_trigger_step t > 1
               then fit_validate cfg False (fit_update_weights cfg rd t) else t)
         in Inr (fit_save_checkpoint cfg rd True t1)))"

text \<open>The start: before \<open>fit\<close> the weights are synchronised, and validated when asked.\<close>

definition before_fit :: "trainer_config \<Rightarrow> readings \<Rightarrow> bool \<Rightarrow> ('w, 'a) trainer \<Rightarrow> ('w, 'a) trainer" where
  "before_fit cfg rd val_before_train t =
     (let t1 = fit_update_weights cfg rd t
      in if val_before_train then fit_validate cfg True t1 else t1)"

definition enter_fit :: "('w, 'a) trainer \<Rightarrow> ('w, 'a) trainer" where
  "enter_fit t = t\<lparr>tr_global_steps := tr_global_steps t + 1\<rparr>"

text \<open>Resuming from the checkpoint of a version.\<close>

definition load_checkpoint :: "trainer_config \<Rightarrow> nat \<Rightarrow> 'w \<Rightarrow> ('w, 'a) trainer \<Rightarrow> ('w, 'a) trainer" where
  "load_checkpoint cfg version w t =
     t\<lparr>tr_current_param_version := version,
       tr_global_steps := version * tc_trigger_parameter_sync_step cfg + 1,
       tr_last_ckpt_version := version, tr_model := w\<rparr>"

end
