(* ===== verification/AsyncTrainerRuns.thy ===== *)
theory AsyncTrainerRuns
  imports AsyncTrainer
begin

text \<open>
  What a run of the trainer of AsyncTrainer does with the samples of its queue: which batches it
  trains, when it ends, which weights the old log probabilities come from, and how its view of the
  hybrid replicas fits the server pool.
\<close>

subsection \<open>The queue\<close>

text \<open>The queue and the arrivals hold the given samples and then the end signal, and nothing is dropped.\<close>

definition feeds :: "'a option message_queue \<Rightarrow> 'a option list list \<Rightarrow> 'a list \<Rightarrow> bool" where
  "feeds mq arrivals xs \<longleftrightarrow> mq_running mq \<and> mq_queue mq @ concat arrivals = map Some xs @ [None] \<and>
     length xs < mq_max_queue_size mq"

lemma put_all_room:
  "length (mq_queue mq) + length xs \<le> mq_max_queue_size mq \<Longrightarrow>
   mq_queue (put_all xs mq) = mq_queue mq @ xs \<and> mq_max_queue_size (put_all xs mq) = mq_max_queue_size mq \<and>
   mq_running (put_all xs mq) = mq_running mq"
proof (induction xs arbitrary: mq)
  case (Cons x xs)
  then have "put_sample mq x = (Inr True, mq\<lparr>mq_queue := mq_queue mq @ [x], mq_total_produced := mq_total_produced mq + 1\<rparr>)"
    by (intro put_sample_room) simp
  with Cons show ?case by (simp add: put_all_def)
qed (simp add: put_all_def)

lemma feeds_length: "feeds mq arrivals xs \<Longrightarrow> length (mq_queue mq) + length (concat arrivals) = Suc (length xs)"
proof -
  assume "feeds mq arrivals xs"
  then have "length (mq_queue mq @ concat arrivals) = length (map Some xs @ [None])" by (simp add: feeds_def)
  then show ?thesis by simp
qed

lemma feeds_put_all:
  assumes "feeds mq (ys # rest) xs"
  shows "feeds (put_all ys mq) rest xs"
proof -
  have "length (mq_queue mq) + length ys \<le> mq_max_queue_size mq"
    using feeds_length [OF assms] assms by (simp add: feeds_def)
  with assms put_all_room [OF this] show ?thesis by (simp add: feeds_def)
qed

lemma wait_enough:
  "feeds mq arrivals xs \<Longrightarrow> n \<le> 1 + int (length xs) \<Longrightarrow>
   \<exists>mq' rest. wait_for_enough_samples n mq arrivals = Some (mq', rest) \<and> feeds mq' rest xs"
proof (induction n mq arrivals rule: wait_for_enough_samples.induct)
  case (1 n mq arrivals)
  show ?case
  proof (cases "int (get_queue_size mq) \<ge> n")
    case True
    with 1 show ?thesis by (simp add: wait_for_enough_samples.simps)
  next
    case False
    then obtain ys rest where a: "arrivals = ys # rest"
      using 1(2,3) feeds_length [of mq arrivals xs] by (cases arrivals) (auto simp: get_queue_size_def)
    with 1 False show ?thesis by (simp add: wait_for_enough_samples.simps [of n mq] feeds_put_all)
  qed
qed

lemma wait_never:
  "feeds mq arrivals xs \<Longrightarrow> n > 1 + int (length xs) \<Longrightarrow> wait_for_enough_samples n mq arrivals = None"
proof (induction n mq arrivals rule: wait_for_enough_samples.induct)
  case (1 n mq arrivals)
  then have "\<not> int (get_queue_size mq) \<ge> n" using feeds_length [of mq arrivals xs] by (simp add: get_queue_size_def)
  with 1 show ?case
    by (cases arrivals) (simp_all add: wait_for_enough_samples.simps [of n mq] feeds_put_all)
qed

lemma collect_full:
  "feeds mq arrivals xs \<Longrightarrow> k \<le> length xs \<Longrightarrow>
   \<exists>mq' rest. collect_samples k acc mq arrivals = Enough (acc @ take k xs) mq' rest \<and> feeds mq' rest (drop k xs)"
proof (induction k acc mq arrivals arbitrary: xs rule: collect_samples.induct)
  case (1 k acc mq arrivals)
  show ?case
  proof (cases "k = 0")
    case True
    with 1 show ?thesis by (simp add: collect_samples.simps)
  next
    case False
    then obtain x xs' where xs: "xs = x # xs'" using 1(4) by (cases xs) auto
    show ?thesis
    proof (cases "mq_queue mq")
      case Nil
      with 1(3) obtain ys rest where a: "arrivals = ys # rest" by (cases arrivals) (auto simp: feeds_def)
      have g: "get_sample mq = (Waiting, mq)" using 1(3) Nil by (simp add: get_sample_def feeds_def)
      have "\<exists>mq' r. collect_samples k acc (put_all ys mq) rest = Enough (acc @ take k xs) mq' r \<and> feeds mq' r (drop k xs)"
        by (rule 1(1) [OF False g [symmetric] _ a]) (use 1(3,4) a in \<open>auto simp: feeds_put_all\<close>)
      with False g a show ?thesis by (simp add: collect_samples.simps [of k])
    next
      case (Cons d q)
      have d: "d = Some x" and f: "feeds (mq\<lparr>mq_queue := q, mq_total_consumed := mq_total_consumed mq + 1\<rparr>) arrivals xs'"
        using 1(3) Cons xs by (auto simp: feeds_def)
      have g: "get_sample mq = (Got (Some x) (length q), mq\<lparr>mq_queue := q, mq_total_consumed := mq_total_consumed mq + 1\<rparr>)"
        using Cons d by (simp add: get_sample_def)
      have "\<exists>mq' r. collect_samples (k - 1) (acc @ [x]) (mq\<lparr>mq_queue := q, mq_total_consumed := mq_total_consumed mq + 1\<rparr>) arrivals
          = Enough ((acc @ [x]) @ take (k - 1) xs') mq' r \<and> feeds mq' r (drop (k - 1) xs')"
        by (rule 1(2) [OF False g [symmetric] _ _ f]) (use 1(4) xs False in auto)
      with False g xs show ?thesis by (simp add: collect_samples.simps [of k] take_Cons' drop_Cons')
    qed
  qed
qed

lemma collect_short:
  "feeds mq arrivals xs \<Longrightarrow> length xs < k \<Longrightarrow> \<exists>mq' rest. collect_samples k acc mq arrivals = Short mq' rest"
proof (induction k acc mq arrivals arbitrary: xs rule: collect_samples.induct)
  case (1 k acc mq arrivals)
  then have k: "k \<noteq> 0" by simp
  show ?case
  proof (cases "mq_queue mq")
    case Nil
    with 1(3) obtain ys rest where a: "arrivals = ys # rest" by (cases arrivals) (auto simp: feeds_def)
    have g: "get_sample mq = (Waiting, mq)" using 1(3) Nil by (simp add: get_sample_def feeds_def)
    have "\<exists>mq' r. collect_samples k acc (put_all ys mq) rest = Short mq' r"
      by (rule 1(1) [OF k g [symmetric] _ a feeds_put_all [of mq ys rest xs]]) (use 1(3,4) a in auto)
    with k g a show ?thesis by (simp add: collect_samples.simps [of k])
  next
    case (Cons d q)
    then have g: "get_sample mq = (Got d (length q), mq\<lparr>mq_queue := q, mq_total_consumed := mq_total_consumed mq + 1\<rparr>)"
      by (simp add: get_sample_def)
    show ?thesis
    proof (cases d)
      case None
      with k g show ?thesis by (simp add: collect_samples.simps [of k])
    next
      case (Some x)
      with 1(3) Cons obtain xs' where xs: "xs = x # xs'" by (cases xs) (auto simp: feeds_def)
      have f: "feeds (mq\<lparr>mq_queue := q, mq_total_consumed := mq_total_consumed mq + 1\<rparr>) arrivals xs'"
        using 1(3) Cons xs by (auto simp: feeds_def)
      have "\<exists>mq' r. collect_samples (k - 1) (acc @ [x]) (mq\<lparr>mq_queue := q, mq_total_consumed := mq_total_consumed mq + 1\<rparr>) arrivals = Short mq' r"
        by (rule 1(2) [OF k g [symmetric] _ _ f]) (use 1(4) xs Some in auto)
      with k g Some show ?thesis by (simp add: collect_samples.simps [of k])
    qed
  qed
qed

subsection \<open>What the operations keep\<close>

lemmas trainer_ops = call_rpc_def call_rpcs_def sync_hybrid_weights_def activate_hybrid_replicas_def
  deactivate_hybrid_replicas_def switch_to_hybrid_def finish_cycle_def decide_activation_def refresh_context_def
  trainer_side_validate_def Let_def

text \<open>The calls that change the pool of servers.\<close>

fun pool_call :: "'w call \<Rightarrow> bool" where
  "pool_call (AddReplicas _) = True"
| "pool_call (RemoveReplicas _) = True"
| "pool_call _ = False"

text \<open>Decision, switch and end of a cycle touch the policy, the context, the wait times and the log.\<close>

lemma decide_keeps:
  "\<exists>ctx p. snd (decide_activation cfg rd t) = t\<lparr>tr_ctx := ctx, tr_policy := p\<rparr> \<and>
     sc_required_samples ctx = sc_required_samples (tr_ctx t) \<and>
     sc_trigger_parameter_sync_step ctx = sc_trigger_parameter_sync_step (tr_ctx t) \<and>
     po_kind p = po_kind (tr_policy t) \<and> po_only_hybrid p = po_only_hybrid (tr_policy t) \<and>
     fst (decide_activation cfg rd t) =
       (tc_dynamic_schedule_enabled cfg \<and> fst (should_activate_after_step (refresh_context cfg rd t) (tr_policy t))) \<and>
     (po_only_hybrid (tr_policy t) \<and> po_kind (tr_policy t) \<noteq> StaticPolicy \<longrightarrow> p = tr_policy t)"
proof (cases "tc_dynamic_schedule_enabled cfg")
  case True
  then show ?thesis
    by (intro exI [of _ "refresh_context cfg rd t"] exI [of _ "snd (should_activate_after_step (refresh_context cfg rd t) (tr_policy t))"])
      (auto simp: decide_activation_def Let_def case_prod_beta activate_keeps only_hybrid_activates, simp_all add: refresh_context_def Let_def)
qed (auto simp: decide_activation_def intro!: exI [of _ "tr_ctx t"] exI [of _ "tr_policy t"])

lemma switch_keeps:
  "\<exists>ctx calls n. switch_to_hybrid cfg rd t = t\<lparr>tr_ctx := ctx, tr_calls := tr_calls t @ calls, tr_activate_count := n,
       tr_hybrid_active := tr_hybrid_active t \<or> tc_hybrid_ids cfg \<noteq> []\<rparr> \<and>
     sc_required_samples ctx = sc_required_samples (tr_ctx t) \<and>
     sc_trigger_parameter_sync_step ctx = sc_trigger_parameter_sync_step (tr_ctx t) \<and>
     filter pool_call calls = (if tc_hybrid_ids cfg = [] then [] else [AddReplicas (tc_hybrid_ids cfg)])"
proof -
  let ?ctx = "(tr_ctx t)\<lparr>sc_last_activate_duration_s := sc_last_activate_duration_s (tr_ctx t) + rd_activate_s rd\<rparr>"
  let ?calls = "(if tc_hybrid_ids cfg = [] then [] else [AbortHybrid, UpdateHybrid (tr_current_param_version t) (tr_model t), ResumeHybrid,
      AddReplicas (tc_hybrid_ids cfg), ResumeHybrid]) @
      (if tc_enable_rebalance cfg \<and> po_kind (tr_policy t) \<noteq> StaticPolicy then [RebalanceRequests] else [])"
  have "switch_to_hybrid cfg rd t = t\<lparr>tr_ctx := ?ctx, tr_calls := tr_calls t @ ?calls,
      tr_activate_count := (if tc_hybrid_ids cfg = [] then tr_activate_count t else tr_activate_count t + 1),
      tr_hybrid_active := tr_hybrid_active t \<or> tc_hybrid_ids cfg \<noteq> []\<rparr>"
    by (simp add: switch_to_hybrid_def sync_hybrid_weights_def activate_hybrid_replicas_def call_rpc_def call_rpcs_def Let_def)
  then show ?thesis by (intro exI conjI) (assumption, simp_all)
qed

lemma finish_keeps:
  "\<exists>ctx p. finish_cycle cfg t = t\<lparr>tr_ctx := ctx, tr_policy := p, tr_step_wait_times := [], tr_step_wait_samples := []\<rparr> \<and>
     sc_required_samples ctx = sc_required_samples (tr_ctx t) \<and>
     sc_trigger_parameter_sync_step ctx = sc_trigger_parameter_sync_step (tr_ctx t) \<and>
     po_kind p = po_kind (tr_policy t) \<and> po_only_hybrid p = po_only_hybrid (tr_policy t) \<and>
     (po_only_hybrid (tr_policy t) \<longrightarrow> p = tr_policy t)"
proof (cases "tc_dynamic_schedule_enabled cfg")
  case True
  then show ?thesis
    by (intro exI [of _ "(tr_ctx t)\<lparr>sc_last_deactivate_duration_s := 0, sc_last_activate_duration_s := 0\<rparr>"]
        exI [of _ "update_after_step (tr_current_param_version t) (tr_ctx t) (tr_policy t)"])
      (simp add: finish_cycle_def Let_def update_keeps only_hybrid_fixed)
qed (auto simp: finish_cycle_def intro!: exI [of _ "tr_ctx t"] exI [of _ "tr_policy t"])

lemma update_weights_shape:
  "\<exists>ctx p calls n b wt ws. fit_update_weights cfg rd t = t\<lparr>tr_ctx := ctx, tr_policy := p, tr_calls := tr_calls t @ calls,
       tr_activate_count := n, tr_hybrid_active := b, tr_step_wait_times := wt, tr_step_wait_samples := ws\<rparr> \<and>
     sc_required_samples ctx = sc_required_samples (tr_ctx t) \<and>
     sc_trigger_parameter_sync_step ctx = sc_trigger_parameter_sync_step (tr_ctx t) \<and>
     po_kind p = po_kind (tr_policy t) \<and> po_only_hybrid p = po_only_hybrid (tr_policy t) \<and>
     (po_only_hybrid (tr_policy t) \<and> po_kind (tr_policy t) \<noteq> StaticPolicy \<longrightarrow> p = tr_policy t) \<and>
     filter pool_call calls = (if tr_local_trigger_step t = 1 \<and> tc_dynamic_schedule_enabled cfg \<and> tc_hybrid_ids cfg \<noteq> [] \<and>
       fst (should_activate_after_step (refresh_context cfg rd t) (tr_policy t)) then [AddReplicas (tc_hybrid_ids cfg)] else []) \<and>
     b = (tr_hybrid_active t \<or> tr_local_trigger_step t = 1 \<and> tc_dynamic_schedule_enabled cfg \<and> tc_hybrid_ids cfg \<noteq> [] \<and>
       fst (should_activate_after_step (refresh_context cfg rd t) (tr_policy t)))"
proof (cases "tr_local_trigger_step t = 1")
  case False
  then show ?thesis
    by (intro exI [of _ "tr_ctx t"] exI [of _ "tr_policy t"] exI [of _ "[]"] exI [of _ "tr_activate_count t"]
        exI [of _ "tr_hybrid_active t"] exI [of _ "tr_step_wait_times t"] exI [of _ "tr_step_wait_samples t"])
      (simp add: fit_update_weights_def)
next
  case True
  obtain ctx p where d: "snd (decide_activation cfg rd t) = t\<lparr>tr_ctx := ctx, tr_policy := p\<rparr>"
    "sc_required_samples ctx = sc_required_samples (tr_ctx t)"
    "sc_trigger_parameter_sync_step ctx = sc_trigger_parameter_sync_step (tr_ctx t)"
    "po_kind p = po_kind (tr_policy t)" "po_only_hybrid p = po_only_hybrid (tr_policy t)"
    "fst (decide_activation cfg rd t) =
       (tc_dynamic_schedule_enabled cfg \<and> fst (should_activate_after_step (refresh_context cfg rd t) (tr_policy t)))"
    "po_only_hybrid (tr_policy t) \<and> po_kind (tr_policy t) \<noteq> StaticPolicy \<longrightarrow> p = tr_policy t"
    using decide_keeps [of cfg rd t] by blast
  let ?u = "if tc_only_hybrid cfg then [] else [UpdateStandalone (tr_current_param_version t) (tr_model t)]"
  let ?t2 = "t\<lparr>tr_ctx := ctx, tr_policy := p, tr_calls := tr_calls t @ ?u\<rparr>"
  let ?a = "tc_dynamic_schedule_enabled cfg \<and> fst (decide_activation cfg rd t)"
  let ?t3 = "if ?a then switch_to_hybrid cfg rd ?t2 else ?t2"
  let ?b = "tr_hybrid_active t \<or> ?a \<and> tc_hybrid_ids cfg \<noteq> []"
  have "\<exists>ctx3 calls n. ?t3 = t\<lparr>tr_ctx := ctx3, tr_policy := p, tr_calls := tr_calls t @ calls,
      tr_activate_count := n, tr_hybrid_active := ?b\<rparr> \<and>
      sc_required_samples ctx3 = sc_required_samples ctx \<and>
      sc_trigger_parameter_sync_step ctx3 = sc_trigger_parameter_sync_step ctx \<and>
      filter pool_call calls = (if ?a \<and> tc_hybrid_ids cfg \<noteq> [] then [AddReplicas (tc_hybrid_ids cfg)] else [])"
  proof (cases ?a)
    case True
    obtain ctx3 calls n where "switch_to_hybrid cfg rd ?t2 = ?t2\<lparr>tr_ctx := ctx3, tr_calls := tr_calls ?t2 @ calls,
        tr_activate_count := n, tr_hybrid_active := tr_hybrid_active ?t2 \<or> tc_hybrid_ids cfg \<noteq> []\<rparr>"
      "sc_required_samples ctx3 = sc_required_samples (tr_ctx ?t2)"
      "sc_trigger_parameter_sync_step ctx3 = sc_trigger_parameter_sync_step (tr_ctx ?t2)"
      "filter pool_call calls = (if tc_hybrid_ids cfg = [] then [] else [AddReplicas (tc_hybrid_ids cfg)])"
      using switch_keeps [of cfg rd ?t2] by blast
    with True show ?thesis
      by (intro exI [of _ ctx3] exI [of _ "?u @ calls"] exI [of _ n]) simp
  next
    case False
    then show ?thesis
      by (intro exI [of _ ctx] exI [of _ ?u] exI [of _ "tr_activate_count t"]) auto
  qed
  then obtain ctx3 calls n where t3: "?t3 = t\<lparr>tr_ctx := ctx3, tr_policy := p, tr_calls := tr_calls t @ calls,
      tr_activate_count := n, tr_hybrid_active := ?b\<rparr>"
    "sc_required_samples ctx3 = sc_required_samples ctx"
    "sc_trigger_parameter_sync_step ctx3 = sc_trigger_parameter_sync_step ctx"
    "filter pool_call calls = (if ?a \<and> tc_hybrid_ids cfg \<noteq> [] then [AddReplicas (tc_hybrid_ids cfg)] else [])" by blast
  have u: "(if \<not> tc_only_hybrid cfg then call_rpc (UpdateStandalone (tr_current_param_version t1) (tr_model t1)) t1 else t1) = ?t2"
    if "t1 = t\<lparr>tr_ctx := ctx, tr_policy := p\<rparr>" for t1 using that by (simp add: call_rpc_def)
  have "fit_update_weights cfg rd t = finish_cycle cfg (call_rpc ResetStaleness ?t3)"
    using True d(1) u by (simp add: fit_update_weights_def Let_def case_prod_beta)
  then have f: "fit_update_weights cfg rd t = finish_cycle cfg (t\<lparr>tr_ctx := ctx3, tr_policy := p,
      tr_activate_count := n, tr_hybrid_active := ?b, tr_calls := tr_calls t @ calls @ [ResetStaleness]\<rparr>)"
    unfolding t3(1) by (simp add: call_rpc_def)
  let ?t4 = "t\<lparr>tr_ctx := ctx3, tr_policy := p, tr_activate_count := n, tr_hybrid_active := ?b,
      tr_calls := tr_calls t @ calls @ [ResetStaleness]\<rparr>"
  obtain ctx4 p4 where fin: "finish_cycle cfg ?t4 = ?t4\<lparr>tr_ctx := ctx4, tr_policy := p4, tr_step_wait_times := [], tr_step_wait_samples := []\<rparr>"
    "sc_required_samples ctx4 = sc_required_samples (tr_ctx ?t4)"
    "sc_trigger_parameter_sync_step ctx4 = sc_trigger_parameter_sync_step (tr_ctx ?t4)"
    "po_kind p4 = po_kind (tr_policy ?t4)" "po_only_hybrid p4 = po_only_hybrid (tr_policy ?t4)"
    "po_only_hybrid (tr_policy ?t4) \<longrightarrow> p4 = tr_policy ?t4"
    using finish_keeps [of cfg ?t4] by blast
  have k: "sc_required_samples ctx4 = sc_required_samples (tr_ctx t)"
    "sc_trigger_parameter_sync_step ctx4 = sc_trigger_parameter_sync_step (tr_ctx t)"
    "po_kind p4 = po_kind (tr_policy t)" "po_only_hybrid p4 = po_only_hybrid (tr_policy t)"
    "po_only_hybrid (tr_policy t) \<and> po_kind (tr_policy t) \<noteq> StaticPolicy \<longrightarrow> p4 = tr_policy t"
    using fin(2-6) t3(2,3) d(2-5,7) by simp_all
  have eq: "fit_update_weights cfg rd t = t\<lparr>tr_ctx := ctx4, tr_policy := p4,
      tr_calls := tr_calls t @ (calls @ [ResetStaleness]), tr_activate_count := n, tr_hybrid_active := ?b,
      tr_step_wait_times := [], tr_step_wait_samples := []\<rparr>"
    unfolding f fin(1) by (rule trainer.equality) simp_all
  have b: "(tr_hybrid_active t \<or> ?a \<and> tc_hybrid_ids cfg \<noteq> []) =
      (tr_hybrid_active t \<or> tr_local_trigger_step t = 1 \<and> tc_dynamic_schedule_enabled cfg \<and> tc_hybrid_ids cfg \<noteq> [] \<and>
       fst (should_activate_after_step (refresh_context cfg rd t) (tr_policy t)))"
    using d(6) True by auto
  have "filter pool_call (calls @ [ResetStaleness]) =
      (if tr_local_trigger_step t = 1 \<and> tc_dynamic_schedule_enabled cfg \<and> tc_hybrid_ids cfg \<noteq> [] \<and>
       fst (should_activate_after_step (refresh_context cfg rd t) (tr_policy t)) then [AddReplicas (tc_hybrid_ids cfg)] else [])"
    using d(6) True t3(4) by auto
  with eq [unfolded b] k show ?thesis by blast
qed

lemma update_weights_keeps:
  "tr_queue (fit_update_weights cfg rd t) = tr_queue t"
  "tr_local_trigger_step (fit_update_weights cfg rd t) = tr_local_trigger_step t"
  "tr_current_param_version (fit_update_weights cfg rd t) = tr_current_param_version t"
  "tr_global_steps (fit_update_weights cfg rd t) = tr_global_steps t"
  "tr_model (fit_update_weights cfg rd t) = tr_model t"
  "tr_cpu_saved_models (fit_update_weights cfg rd t) = tr_cpu_saved_models t"
  "sc_required_samples (tr_ctx (fit_update_weights cfg rd t)) = sc_required_samples (tr_ctx t)"
  "sc_trigger_parameter_sync_step (tr_ctx (fit_update_weights cfg rd t)) = sc_trigger_parameter_sync_step (tr_ctx t)"
  "po_kind (tr_policy (fit_update_weights cfg rd t)) = po_kind (tr_policy t)"
  "po_only_hybrid (tr_policy (fit_update_weights cfg rd t)) = po_only_hybrid (tr_policy t)"
  "po_only_hybrid (tr_policy t) \<Longrightarrow> po_kind (tr_policy t) \<noteq> StaticPolicy \<Longrightarrow>
     tr_policy (fit_update_weights cfg rd t) = tr_policy t"
  "tr_hybrid_active (fit_update_weights cfg rd t) = (tr_hybrid_active t \<or>
     tr_local_trigger_step t = 1 \<and> tc_dynamic_schedule_enabled cfg \<and> tc_hybrid_ids cfg \<noteq> [] \<and>
     fst (should_activate_after_step (refresh_context cfg rd t) (tr_policy t)))"
  using update_weights_shape [of cfg rd t] by auto

lemma validate_keeps:
  "tr_queue (fit_validate cfg v t) = tr_queue t"
  "tr_local_trigger_step (fit_validate cfg v t) = tr_local_trigger_step t"
  "tr_current_param_version (fit_validate cfg v t) = tr_current_param_version t"
  "tr_global_steps (fit_validate cfg v t) = tr_global_steps t"
  "tr_model (fit_validate cfg v t) = tr_model t"
  "tr_cpu_saved_models (fit_validate cfg v t) = tr_cpu_saved_models t"
  "tr_ctx (fit_validate cfg v t) = tr_ctx t"
  "tr_policy (fit_validate cfg v t) = tr_policy t"
  "tr_hybrid_active (fit_validate cfg v t) = tr_hybrid_active t"
  by (simp_all add: fit_validate_def trainer_ops)

lemma save_checkpoint_keeps:
  "tr_queue (fit_save_checkpoint cfg rd f t) = tr_queue t"
  "tr_local_trigger_step (fit_save_checkpoint cfg rd f t) = tr_local_trigger_step t"
  "tr_current_param_version (fit_save_checkpoint cfg rd f t) = tr_current_param_version t"
  "tr_global_steps (fit_save_checkpoint cfg rd f t) = tr_global_steps t"
  "tr_model (fit_save_checkpoint cfg rd f t) = tr_model t"
  "tr_cpu_saved_models (fit_save_checkpoint cfg rd f t) = tr_cpu_saved_models t"
  "tr_ctx (fit_save_checkpoint cfg rd f t) = tr_ctx t"
  "tr_policy (fit_save_checkpoint cfg rd f t) = tr_policy t"
  "tr_hybrid_active (fit_save_checkpoint cfg rd f t) = tr_hybrid_active t"
  by (simp_all add: fit_save_checkpoint_def trainer_ops)

lemma update_local_keeps:
  "tr_queue (update_local_step cfg t) = tr_queue t"
  "tr_model (update_local_step cfg t) = tr_model t"
  "tr_cpu_saved_models (update_local_step cfg t) = tr_cpu_saved_models t"
  "tr_global_steps (update_local_step cfg t) = tr_global_steps t"
  "tr_ctx (update_local_step cfg t) = tr_ctx t"
  "tr_policy (update_local_step cfg t) = tr_policy t"
  "tr_hybrid_active (update_local_step cfg t) = tr_hybrid_active t"
  "tr_local_trigger_step (update_local_step cfg t) =
     (if tr_local_trigger_step t < tc_trigger_parameter_sync_step cfg then tr_local_trigger_step t + 1 else 1)"
  "tr_current_param_version (update_local_step cfg t) =
     (if tr_local_trigger_step t < tc_trigger_parameter_sync_step cfg then tr_current_param_version t
      else tr_current_param_version t + 1)"
  by (simp_all add: update_local_step_def)

text \<open>The model is the same after the computation of the old log probabilities.\<close>

lemma old_log_prob_keeps:
  "tr_model (snd (compute_old_log_prob t)) = tr_model t"
  "tr_queue (snd (compute_old_log_prob t)) = tr_queue t"
  "tr_local_trigger_step (snd (compute_old_log_prob t)) = tr_local_trigger_step t"
  "tr_current_param_version (snd (compute_old_log_prob t)) = tr_current_param_version t"
  "tr_global_steps (snd (compute_old_log_prob t)) = tr_global_steps t"
  "tr_ctx (snd (compute_old_log_prob t)) = tr_ctx t"
  "tr_policy (snd (compute_old_log_prob t)) = tr_policy t"
  "tr_hybrid_active (snd (compute_old_log_prob t)) = tr_hybrid_active t"
  by (auto simp: compute_old_log_prob_def save_model_to_cpu_def restore_model_from_cpu_def clear_cpu_model_def Let_def
      split: option.splits)

lemmas trainer_keeps = update_weights_keeps validate_keeps save_checkpoint_keeps update_local_keeps old_log_prob_keeps

subsection \<open>One step\<close>

text \<open>The state in which a batch is trained: the replicas are given up, the samples are taken.\<close>

definition next_local :: "trainer_config \<Rightarrow> nat \<Rightarrow> nat" where
  "next_local cfg j = (if j < tc_trigger_parameter_sync_step cfg then j + 1 else 1)"

lemma train_batch_effect:
  "tr_queue (snd (train_batch cfg rd f b t)) = tr_queue t"
  "tr_local_trigger_step (snd (train_batch cfg rd f b t)) = next_local cfg (tr_local_trigger_step t)"
  "tr_current_param_version (snd (train_batch cfg rd f b t)) =
     (if tr_local_trigger_step t < tc_trigger_parameter_sync_step cfg then tr_current_param_version t
      else tr_current_param_version t + 1)"
  "sc_required_samples (tr_ctx (snd (train_batch cfg rd f b t))) = sc_required_samples (tr_ctx t)"
  "sc_trigger_parameter_sync_step (tr_ctx (snd (train_batch cfg rd f b t))) = sc_trigger_parameter_sync_step (tr_ctx t)"
  "po_only_hybrid (tr_policy t) \<Longrightarrow> po_kind (tr_policy t) \<noteq> StaticPolicy \<Longrightarrow>
     tr_policy (snd (train_batch cfg rd f b t)) = tr_policy t"
  "td_batch (fst (train_batch cfg rd f b t)) = b"
  "td_local_step (fst (train_batch cfg rd f b t)) = tr_local_trigger_step t"
  "td_model (fst (train_batch cfg rd f b t)) = tr_model t"
  "\<not> tc_dynamic_schedule_enabled cfg \<Longrightarrow> tr_hybrid_active (snd (train_batch cfg rd f b t)) = tr_hybrid_active t"
  by (auto simp: train_batch_def Let_def case_prod_beta trainer_keeps next_local_def)

lemma train_batch_only_hybrid:
  assumes "\<not> tr_hybrid_active t" "tc_dynamic_schedule_enabled cfg" "tc_hybrid_ids cfg \<noteq> []"
    "po_only_hybrid (tr_policy t)" "po_kind (tr_policy t) \<noteq> StaticPolicy"
  shows "tr_hybrid_active (snd (train_batch cfg rd f b t)) \<longleftrightarrow> next_local cfg (tr_local_trigger_step t) = 1"
  using assms by (auto simp: train_batch_def Let_def case_prod_beta trainer_keeps next_local_def only_hybrid_activates)

text \<open>Whether the wait before a step lets it through.\<close>

definition passes :: "trainer_config \<Rightarrow> ('w, 'a) trainer \<Rightarrow> nat \<Rightarrow> bool" where
  "passes cfg t n \<longleftrightarrow> (tc_dynamic_schedule_enabled cfg \<and> tr_hybrid_active t \<longrightarrow>
     deactivate_wait_samples (tr_policy t) (tr_ctx t) \<le> 1 + int n)"

lemma begin_step_passes:
  assumes "feeds (tr_queue t) arrivals xs" "passes cfg t (length xs)"
  shows "\<exists>t1 rest. begin_step cfg rd arrivals t = Some (t1, rest) \<and> feeds (tr_queue t1) rest xs \<and>
    tr_hybrid_active t1 = (tr_hybrid_active t \<and> \<not> tc_dynamic_schedule_enabled cfg) \<and>
    tr_policy t1 = tr_policy t \<and> tr_local_trigger_step t1 = tr_local_trigger_step t \<and>
    tr_current_param_version t1 = tr_current_param_version t \<and>
    sc_required_samples (tr_ctx t1) = sc_required_samples (tr_ctx t) \<and>
    sc_trigger_parameter_sync_step (tr_ctx t1) = sc_trigger_parameter_sync_step (tr_ctx t)"
proof (cases "tc_dynamic_schedule_enabled cfg \<and> tr_hybrid_active t")
  case True
  with assms obtain mq rest where "wait_for_enough_samples (deactivate_wait_samples (tr_policy t) (tr_ctx t)) (tr_queue t) arrivals = Some (mq, rest)"
    "feeds mq rest xs"
    using wait_enough by (metis passes_def)
  with True show ?thesis
    by (simp add: begin_step_def should_deactivate_def deactivate_hybrid_replicas_def call_rpcs_def Let_def)
qed (use assms in \<open>auto simp: begin_step_def should_deactivate_def\<close>)

lemma begin_step_stuck:
  assumes "feeds (tr_queue t) arrivals xs" "\<not> passes cfg t (length xs)"
  shows "begin_step cfg rd arrivals t = None"
  using assms wait_never [OF assms(1)] by (simp add: begin_step_def should_deactivate_def passes_def)

text \<open>What has arrived when a step begins.\<close>

lemma arrive:
  assumes "feeds (tr_queue t) arrivals xs"
  obtains t0 arrivals0 where "(case arrivals of [] \<Rightarrow> (t, []) | ys # rest \<Rightarrow> (t\<lparr>tr_queue := put_all ys (tr_queue t)\<rparr>, rest)) = (t0, arrivals0)"
    "feeds (tr_queue t0) arrivals0 xs" "t0 = t\<lparr>tr_queue := tr_queue t0\<rparr>"
  using assms by (cases arrivals) (auto simp: feeds_put_all)

lemma fit_step_stuck:
  assumes "feeds (tr_queue t) arrivals xs" "\<not> passes cfg t (length xs)"
  shows "fit_step cfg clock f arrivals t = WaitsForSamples"
proof -
  from arrive [OF assms(1)] obtain t0 arrivals0 where a: "(case arrivals of [] \<Rightarrow> (t, []) | ys # rest \<Rightarrow> (t\<lparr>tr_queue := put_all ys (tr_queue t)\<rparr>, rest)) = (t0, arrivals0)"
    "feeds (tr_queue t0) arrivals0 xs" "t0 = t\<lparr>tr_queue := tr_queue t0\<rparr>" by blast
  have "passes cfg t0 = passes cfg t" by (subst a(3)) (simp add: passes_def fun_eq_iff)
  with begin_step_stuck [OF a(2)] a(1) assms(2) show ?thesis by (simp add: fit_step_def Let_def)
qed

lemma fit_step_short:
  assumes "feeds (tr_queue t) arrivals xs" "passes cfg t (length xs)" "length xs < tc_required_samples cfg"
  shows "\<exists>t' rest. fit_step cfg clock f arrivals t = StopTraining (None, t', rest) \<and>
    tr_local_trigger_step t' = tr_local_trigger_step t \<and> tr_current_param_version t' = tr_current_param_version t"
proof -
  from arrive [OF assms(1)] obtain t0 arrivals0 where a: "(case arrivals of [] \<Rightarrow> (t, []) | ys # rest \<Rightarrow> (t\<lparr>tr_queue := put_all ys (tr_queue t)\<rparr>, rest)) = (t0, arrivals0)"
    "feeds (tr_queue t0) arrivals0 xs" "t0 = t\<lparr>tr_queue := tr_queue t0\<rparr>" by blast
  have p: "passes cfg t0 (length xs)" using assms(2) by (subst a(3)) (simp add: passes_def)
  obtain t1 rest where b: "begin_step cfg (clock (tr_global_steps t)) arrivals0 t0 = Some (t1, rest)" "feeds (tr_queue t1) rest xs"
    "tr_local_trigger_step t1 = tr_local_trigger_step t0" "tr_current_param_version t1 = tr_current_param_version t0"
    using begin_step_passes [OF a(2) p] by blast
  obtain mq r where c: "collect_samples (tc_required_samples cfg) [] (tr_queue t1) rest = Short mq r"
    using collect_short [OF b(2) assms(3)] by blast
  have "tr_local_trigger_step t0 = tr_local_trigger_step t" "tr_current_param_version t0 = tr_current_param_version t"
    by (subst a(3), simp)+
  with a(1) b c show ?thesis by (simp add: fit_step_def Let_def)
qed

lemma fit_step_trains:
  assumes "feeds (tr_queue t) arrivals xs" "passes cfg t (length xs)" "tc_required_samples cfg \<le> length xs"
  obtains t1 b t' rest where "fit_step cfg clock f arrivals t = Stepped (Some b, t', rest)"
    "(b, t') = train_batch cfg (clock (tr_global_steps t)) f (take (tc_required_samples cfg) xs) t1"
    "feeds (tr_queue t') rest (drop (tc_required_samples cfg) xs)"
    "tr_hybrid_active t1 = (tr_hybrid_active t \<and> \<not> tc_dynamic_schedule_enabled cfg)" "tr_policy t1 = tr_policy t"
    "tr_local_trigger_step t1 = tr_local_trigger_step t" "tr_current_param_version t1 = tr_current_param_version t"
    "step_required_samples (tr_ctx t1) = step_required_samples (tr_ctx t)"
proof -
  from arrive [OF assms(1)] obtain t0 arrivals0 where a: "(case arrivals of [] \<Rightarrow> (t, []) | ys # rest \<Rightarrow> (t\<lparr>tr_queue := put_all ys (tr_queue t)\<rparr>, rest)) = (t0, arrivals0)"
    "feeds (tr_queue t0) arrivals0 xs" "t0 = t\<lparr>tr_queue := tr_queue t0\<rparr>" by blast
  have p: "passes cfg t0 (length xs)" using assms(2) by (subst a(3)) (simp add: passes_def)
  obtain t1 r where b: "begin_step cfg (clock (tr_global_steps t)) arrivals0 t0 = Some (t1, r)" "feeds (tr_queue t1) r xs"
    "tr_hybrid_active t1 = (tr_hybrid_active t0 \<and> \<not> tc_dynamic_schedule_enabled cfg)" "tr_policy t1 = tr_policy t0"
    "tr_local_trigger_step t1 = tr_local_trigger_step t0" "tr_current_param_version t1 = tr_current_param_version t0"
    "sc_required_samples (tr_ctx t1) = sc_required_samples (tr_ctx t0)"
    "sc_trigger_parameter_sync_step (tr_ctx t1) = sc_trigger_parameter_sync_step (tr_ctx t0)"
    using begin_step_passes [OF a(2) p] by blast
  obtain mq rest where c: "collect_samples (tc_required_samples cfg) [] (tr_queue t1) r = Enough (take (tc_required_samples cfg) xs) mq rest"
    "feeds mq rest (drop (tc_required_samples cfg) xs)"
    using collect_full [OF b(2) assms(3), of "[]"] by auto
  let ?w = "if tc_dynamic_schedule_enabled cfg then tc_required_samples cfg - get_queue_size (tr_queue t1) else 0"
  let ?t2 = "t1\<lparr>tr_queue := mq, tr_step_wait_times := tr_step_wait_times t1 @ [rd_wait_s (clock (tr_global_steps t))],
      tr_step_wait_samples := tr_step_wait_samples t1 @ [?w]\<rparr>"
  obtain bb t' where tb: "(bb, t') = train_batch cfg (clock (tr_global_steps t)) f (take (tc_required_samples cfg) xs) ?t2"
    by (metis surj_pair)
  have e: "tr_hybrid_active t0 = tr_hybrid_active t" "tr_policy t0 = tr_policy t" "tr_ctx t0 = tr_ctx t"
    "tr_local_trigger_step t0 = tr_local_trigger_step t" "tr_current_param_version t0 = tr_current_param_version t"
    by (subst a(3), simp)+
  have "snd (train_batch cfg (clock (tr_global_steps t)) f (take (tc_required_samples cfg) xs) ?t2) = t'"
    unfolding tb [symmetric] by simp
  then have q: "tr_queue t' = mq"
    using train_batch_effect(1) [of cfg "clock (tr_global_steps t)" f "take (tc_required_samples cfg) xs" ?t2] by simp
  show ?thesis
  proof (rule that [of bb t' rest ?t2])
    show "fit_step cfg clock f arrivals t = Stepped (Some bb, t', rest)"
      using a(1) b(1) c(1) tb [symmetric] by (simp add: fit_step_def Let_def)
  qed (use tb q c(2) b e in \<open>simp_all add: step_required_samples_def\<close>)
qed

text \<open>A run for the examples: batches of two, two updates per version.\<close>

definition demo_config :: "bool \<Rightarrow> trainer_config" where
  "demo_config dynamic = \<lparr>tc_required_samples = 2, tc_trigger_parameter_sync_step = 2, tc_critic_warmup = 0,
     tc_bypass_mode = False, tc_test_freq = 1, tc_save_freq = 1, tc_use_trainer_do_validate = False,
     tc_dynamic_schedule_enabled = dynamic, tc_only_hybrid = dynamic, tc_enable_rebalance = True,
     tc_staleness_threshold = 1, tc_hybrid_ids = (if dynamic then [''hybrid_0'', ''hybrid_1''] else [])\<rparr>"

definition demo_clock :: "nat \<Rightarrow> readings" where
  "demo_clock n = \<lparr>rd_deactivate_s = 1, rd_wait_s = 1, rd_activate_s = 1, rd_total_generated_samples = 4,
     rd_completed_steps = 1, rd_esi_close_to_expiration = False\<rparr>"

definition demo_queue :: "nat list \<Rightarrow> nat option message_queue" where
  "demo_queue xs = \<lparr>mq_max_queue_size = 10, mq_queue = map Some xs, mq_val_queue = [], mq_running = True,
     mq_total_produced = length xs, mq_total_consumed = 0, mq_dropped_samples = 0\<rparr>"

definition demo_trainer :: "bool \<Rightarrow> (nat, nat) trainer" where
  "demo_trainer dynamic = enter_fit (before_fit (demo_config dynamic) (demo_clock 0) False
     (new_trainer (demo_config dynamic) (make_policy DefaultPolicy (3 / 10) dynamic) (demo_queue [1, 2]) 0))"

subsection \<open>Without dynamic scheduling every full batch is trained\<close>

lemma fixed_run:
  assumes "\<not> tc_dynamic_schedule_enabled cfg" "0 < tc_required_samples cfg" "0 < tc_trigger_parameter_sync_step cfg"
    "feeds (tr_queue t) arrivals xs" "1 \<le> tr_local_trigger_step t" "tr_local_trigger_step t \<le> tc_trigger_parameter_sync_step cfg"
    "length xs div tc_required_samples cfg < fuel"
  shows "\<exists>out t'. fit_loop fuel cfg clock f acc arrivals t = Some (StopTraining (acc @ out, t')) \<and>
    concat (map td_batch out) = take (tc_required_samples cfg * (length xs div tc_required_samples cfg)) xs \<and>
    length out = length xs div tc_required_samples cfg \<and> (\<forall>b \<in> set out. length (td_batch b) = tc_required_samples cfg) \<and>
    tr_current_param_version t' * tc_trigger_parameter_sync_step cfg + tr_local_trigger_step t' =
      tr_current_param_version t * tc_trigger_parameter_sync_step cfg + tr_local_trigger_step t + length out \<and>
    1 \<le> tr_local_trigger_step t' \<and> tr_local_trigger_step t' \<le> tc_trigger_parameter_sync_step cfg"
  using assms(4-)
proof (induction fuel arbitrary: t arrivals xs acc)
  case (Suc fuel)
  let ?R = "tc_required_samples cfg" and ?T = "tc_trigger_parameter_sync_step cfg"
  have p: "passes cfg t (length xs)" using assms(1) by (simp add: passes_def)
  show ?case
  proof (cases "length xs < ?R")
    case True
    obtain t' rest where "fit_step cfg clock f arrivals t = StopTraining (None, t', rest)"
      "tr_local_trigger_step t' = tr_local_trigger_step t" "tr_current_param_version t' = tr_current_param_version t"
      using fit_step_short [OF Suc.prems(1) p True] by blast
    with True Suc.prems(2,3) show ?thesis by simp
  next
    case False
    obtain t1 b t' rest where st: "fit_step cfg clock f arrivals t = Stepped (Some b, t', rest)"
      and tb: "(b, t') = train_batch cfg (clock (tr_global_steps t)) f (take ?R xs) t1"
      and fd: "feeds (tr_queue t') rest (drop ?R xs)"
      and l1: "tr_local_trigger_step t1 = tr_local_trigger_step t" "tr_current_param_version t1 = tr_current_param_version t"
      using fit_step_trains [OF Suc.prems(1) p] False by (metis not_less)
    note eff = train_batch_effect [where cfg = cfg and rd = "clock (tr_global_steps t)" and f = f and b = "take ?R xs" and t = t1,
        folded tb, simplified fst_conv snd_conv]
    have l: "tr_local_trigger_step t' = next_local cfg (tr_local_trigger_step t)"
      "tr_current_param_version t' = (if tr_local_trigger_step t < ?T then tr_current_param_version t else tr_current_param_version t + 1)"
      using eff(2,3) l1 by simp_all
    have b: "td_batch b = take ?R xs" using eff(7) by simp
    have d: "length xs div ?R = Suc (length (drop ?R xs) div ?R)"
      using False assms(2) by (simp add: le_div_geq)
    have "1 \<le> tr_local_trigger_step t'" "tr_local_trigger_step t' \<le> ?T" "length (drop ?R xs) div ?R < fuel"
      using l(1) assms(3) Suc.prems d by (auto simp: next_local_def)
    from Suc.IH [OF fd this, of "acc @ [b]"] obtain out t2 where
      ih: "fit_loop fuel cfg clock f (acc @ [b]) rest t' = Some (StopTraining ((acc @ [b]) @ out, t2))"
      "concat (map td_batch out) = take (?R * (length (drop ?R xs) div ?R)) (drop ?R xs)"
      "length out = length (drop ?R xs) div ?R" "\<forall>b \<in> set out. length (td_batch b) = ?R"
      "tr_current_param_version t2 * ?T + tr_local_trigger_step t2 = tr_current_param_version t' * ?T + tr_local_trigger_step t' + length out"
      "1 \<le> tr_local_trigger_step t2" "tr_local_trigger_step t2 \<le> ?T" by blast
    have "tr_current_param_version t' * ?T + tr_local_trigger_step t' = tr_current_param_version t * ?T + tr_local_trigger_step t + 1"
      using l Suc.prems(3) by (auto simp: next_local_def)
    moreover have "take ?R xs @ take (?R * (length (drop ?R xs) div ?R)) (drop ?R xs) = take (?R * (length xs div ?R)) xs"
      unfolding d by (simp add: take_add [symmetric] del: length_drop)
    ultimately show ?thesis
      using ih st b d False by (intro exI [of _ "b # out"] exI [of _ t2]) simp
  qed
qed simp



subsection \<open>Hybrid replicas only\<close>

text \<open>A trainer whose rollouts run on its own GPUs, under the default or the fixed policy.\<close>

definition hybrid_trainer :: "trainer_config \<Rightarrow> ('w, 'a) trainer \<Rightarrow> bool" where
  "hybrid_trainer cfg t \<longleftrightarrow> tc_dynamic_schedule_enabled cfg \<and> tc_hybrid_ids cfg \<noteq> [] \<and>
     po_only_hybrid (tr_policy t) \<and> po_kind (tr_policy t) \<noteq> StaticPolicy \<and> po_deactivate_ratio (tr_policy t) = 1 \<and>
     step_required_samples (tr_ctx t) = tc_required_samples cfg * tc_trigger_parameter_sync_step cfg"

lemma py_int_of_nat: "py_int_of_rat (of_nat n) = int n"
  by (simp add: py_int_of_rat_def)

lemma hybrid_threshold:
  assumes "hybrid_trainer cfg t"
  shows "deactivate_wait_samples (tr_policy t) (tr_ctx t) = int (tc_required_samples cfg * tc_trigger_parameter_sync_step cfg)"
proof -
  have "deactivate_wait_samples (tr_policy t) (tr_ctx t) = py_int_of_rat (of_nat (step_required_samples (tr_ctx t)))"
    using assms by (cases "po_kind (tr_policy t)") (auto simp: hybrid_trainer_def deactivate_wait_samples_def)
  then show ?thesis using assms by (simp only: py_int_of_nat hybrid_trainer_def)
qed

lemma hybrid_step:
  assumes "hybrid_trainer cfg t" "feeds (tr_queue t) arrivals xs" "passes cfg t (length xs)" "tc_required_samples cfg \<le> length xs"
  obtains b t' rest where "fit_step cfg clock f arrivals t = Stepped (Some b, t', rest)" "hybrid_trainer cfg t'"
    "feeds (tr_queue t') rest (drop (tc_required_samples cfg) xs)"
    "tr_local_trigger_step t' = next_local cfg (tr_local_trigger_step t)" "tr_hybrid_active t' = (tr_local_trigger_step t' = 1)"
proof -
  obtain t1 b t' rest where st: "fit_step cfg clock f arrivals t = Stepped (Some b, t', rest)"
    and tb: "(b, t') = train_batch cfg (clock (tr_global_steps t)) f (take (tc_required_samples cfg) xs) t1"
    and fd: "feeds (tr_queue t') rest (drop (tc_required_samples cfg) xs)"
    and t1: "tr_hybrid_active t1 = (tr_hybrid_active t \<and> \<not> tc_dynamic_schedule_enabled cfg)" "tr_policy t1 = tr_policy t"
      "tr_local_trigger_step t1 = tr_local_trigger_step t"
      "step_required_samples (tr_ctx t1) = step_required_samples (tr_ctx t)"
    using fit_step_trains [OF assms(2-4)] by metis
  note eff = train_batch_effect [where cfg = cfg and rd = "clock (tr_global_steps t)" and f = f
      and b = "take (tc_required_samples cfg) xs" and t = t1, folded tb, simplified fst_conv snd_conv]
  have h: "tc_dynamic_schedule_enabled cfg" "tc_hybrid_ids cfg \<noteq> []" "po_only_hybrid (tr_policy t1)" "po_kind (tr_policy t1) \<noteq> StaticPolicy"
    using assms(1) t1(2) by (auto simp: hybrid_trainer_def)
  have pol: "tr_policy t' = tr_policy t" using eff(6) [OF h(3,4)] t1(2) by simp
  have act: "tr_hybrid_active t' \<longleftrightarrow> next_local cfg (tr_local_trigger_step t1) = 1"
    using train_batch_only_hybrid [of t1 cfg "clock (tr_global_steps t)" f "take (tc_required_samples cfg) xs", folded tb] t1(1) h by simp
  have "step_required_samples (tr_ctx t') = step_required_samples (tr_ctx t)"
    using eff(4,5) t1(4) by (simp add: step_required_samples_def)
  with assms(1) pol have "hybrid_trainer cfg t'" by (simp add: hybrid_trainer_def)
  with that st fd act eff(2) t1(3) show ?thesis by simp
qed

text \<open>
  Whether a run from local step \<open>j\<close> with \<open>n\<close> samples left reaches the end signal: what is left
  after the current cycle must be a number of full cycles and one sample less than another.
\<close>

definition reaches_end :: "nat \<Rightarrow> nat \<Rightarrow> nat \<Rightarrow> nat \<Rightarrow> bool" where
  "reaches_end R T j n \<longleftrightarrow>
     (if j = 1 then n mod (R * T) = R * T - 1
      else n < (T + 1 - j) * R \<or> (n - (T + 1 - j) * R) mod (R * T) = R * T - 1)"

lemma reaches_end_begin:
  assumes "0 < R" "0 < T"
  shows "Suc n < R * T \<Longrightarrow> \<not> reaches_end R T 1 n" and "R * T \<le> Suc n \<Longrightarrow> n < R \<Longrightarrow> reaches_end R T 1 n"
proof -
  show "Suc n < R * T \<Longrightarrow> \<not> reaches_end R T 1 n" by (simp add: reaches_end_def)
  assume a: "R * T \<le> Suc n" "n < R"
  have "R \<le> R * T" using assms by simp
  with a have "R * T = Suc n" by linarith
  then show "reaches_end R T 1 n" by (simp add: reaches_end_def)
qed

lemma reaches_end_next:
  assumes "0 < R" "0 < T" "R \<le> n" "1 \<le> j" "j \<le> T" "j = 1 \<Longrightarrow> R * T \<le> Suc n"
  shows "reaches_end R T (if j < T then j + 1 else 1) (n - R) = reaches_end R T j n"
proof -
  have k: "(T + 1 - j) * R = R + (T - j) * R" using assms(5) by (simp add: Suc_diff_le)
  consider "j = 1" "T = 1" | "j = 1" "1 < T" | "1 < j" "j < T" | "1 < j" "j = T" using assms(4,5) by linarith
  then show ?thesis
  proof cases
    case 1
    with assms(3) show ?thesis by (simp add: reaches_end_def le_mod_geq)
  next
    case 2
    have s: "R * T = R + (T - 1) * R" using k 2 by (simp add: mult.commute)
    show ?thesis
    proof (cases "n < R * T")
      case True
      then have n: "n = R * T - 1" using assms(6) [OF 2(1)] by simp
      then have "n mod (R * T) = R * T - 1" using assms(1,2) by simp
      moreover have "n - R < (T - 1) * R" using True s assms(3) by linarith
      ultimately show ?thesis using 2 by (simp add: reaches_end_def)
    next
      case False
      have "n - R - (T - 1) * R = n - R * T" using s by simp
      moreover have "(n - R * T) mod (R * T) = n mod (R * T)" using False by (simp add: le_mod_geq [symmetric])
      moreover have "\<not> n - R < (T - 1) * R" using False s by linarith
      ultimately show ?thesis using 2 by (simp add: reaches_end_def)
    qed
  next
    case 3
    have "n - R < (T - j) * R \<longleftrightarrow> n < (T + 1 - j) * R" using k assms(3) by linarith
    moreover have "n - R - (T - j) * R = n - (T + 1 - j) * R" using k by simp
    ultimately show ?thesis using 3 by (simp add: reaches_end_def)
  next
    case 4
    with assms(3) show ?thesis by (simp add: reaches_end_def)
  qed
qed

lemma hybrid_run:
  assumes "0 < tc_required_samples cfg" "hybrid_trainer cfg t" "feeds (tr_queue t) arrivals xs"
    "1 \<le> tr_local_trigger_step t" "tr_local_trigger_step t \<le> tc_trigger_parameter_sync_step cfg"
    "tr_hybrid_active t = (tr_local_trigger_step t = 1)" "length xs < fuel"
  shows "if reaches_end (tc_required_samples cfg) (tc_trigger_parameter_sync_step cfg) (tr_local_trigger_step t) (length xs)
     then \<exists>out t'. fit_loop fuel cfg clock f acc arrivals t = Some (StopTraining (out, t'))
     else fit_loop fuel cfg clock f acc arrivals t = Some WaitsForSamples"
  using assms(2-)
proof (induction fuel arbitrary: t arrivals xs acc)
  case (Suc fuel)
  let ?R = "tc_required_samples cfg" and ?T = "tc_trigger_parameter_sync_step cfg" and ?n = "length xs"
  let ?j = "tr_local_trigger_step t"
  have T: "0 < ?T" using Suc.prems(3,4) by simp
  have p: "passes cfg t ?n \<longleftrightarrow> (?j = 1 \<longrightarrow> ?R * ?T \<le> Suc ?n)"
    using Suc.prems(1,5) unfolding passes_def hybrid_threshold [OF Suc.prems(1)]
    by (auto simp: hybrid_trainer_def simp flip: of_nat_mult)
  show ?case
  proof (cases "passes cfg t ?n")
    case False
    then have "?j = 1" "Suc ?n < ?R * ?T" using p by auto
    with reaches_end_begin(1) [OF assms(1) T] fit_step_stuck [OF Suc.prems(2) False] show ?thesis by simp
  next
    case pass: True
    show ?thesis
    proof (cases "?n < ?R")
      case True
      have "reaches_end ?R ?T ?j ?n"
      proof (cases "?j = 1")
        case True
        with pass p \<open>?n < ?R\<close> reaches_end_begin(2) [OF assms(1) T] show ?thesis by simp
      next
        case False
        have "1 * ?R \<le> (?T + 1 - ?j) * ?R" by (rule mult_le_mono1) (use Suc.prems(4) in simp)
        with True have "?n < (?T + 1 - ?j) * ?R" by linarith
        with False show ?thesis by (simp add: reaches_end_def)
      qed
      with fit_step_short [OF Suc.prems(2) pass True, of clock f] show ?thesis by auto
    next
      case False
      obtain b t' rest where st: "fit_step cfg clock f arrivals t = Stepped (Some b, t', rest)" "hybrid_trainer cfg t'"
        "feeds (tr_queue t') rest (drop ?R xs)" "tr_local_trigger_step t' = next_local cfg ?j"
        "tr_hybrid_active t' = (tr_local_trigger_step t' = 1)"
        using hybrid_step [OF Suc.prems(1,2) pass] False by (metis not_less)
      have j: "1 \<le> tr_local_trigger_step t'" "tr_local_trigger_step t' \<le> ?T" "length (drop ?R xs) < fuel"
        using st(4) T Suc.prems False assms(1) by (auto simp: next_local_def)
      have "reaches_end ?R ?T (tr_local_trigger_step t') (length (drop ?R xs)) = reaches_end ?R ?T ?j ?n"
        using reaches_end_next [OF assms(1) T _ Suc.prems(3,4), of ?n] False pass p st(4) by (simp add: next_local_def)
      with Suc.IH [OF st(2,3) j(1,2) st(5) j(3), of "acc @ [b]"] st(1) show ?thesis by simp
    qed
  qed
qed simp



subsection \<open>Runs\<close>

inductive run_from ::
  "trainer_config \<Rightarrow> (nat \<Rightarrow> readings) \<Rightarrow> ('a list \<Rightarrow> 'w \<Rightarrow> 'w) \<Rightarrow> ('w, 'a) trainer \<Rightarrow> 'a option list list \<Rightarrow>
   ('w, 'a) trained list \<Rightarrow> ('w, 'a) trainer \<Rightarrow> 'a option list list \<Rightarrow> bool"
  for cfg clock f t arrivals where
  run_start: "run_from cfg clock f t arrivals [] t arrivals"
| run_step: "run_from cfg clock f t arrivals bs t' rest \<Longrightarrow>
    fit_step cfg clock f rest t' = Stepped (Some b, t'', rest') \<Longrightarrow>
    run_from cfg clock f t arrivals (bs @ [b]) t'' rest'"

lemma begin_step_Some:
  assumes "begin_step cfg rd arrivals t = Some (t1, rest)"
  shows "tr_model t1 = tr_model t \<and> tr_cpu_saved_models t1 = tr_cpu_saved_models t \<and>
    tr_local_trigger_step t1 = tr_local_trigger_step t \<and> tr_global_steps t1 = tr_global_steps t \<and>
    tr_current_param_version t1 = tr_current_param_version t \<and>
    tr_hybrid_active t1 = (tr_hybrid_active t \<and> \<not> tc_dynamic_schedule_enabled cfg) \<and>
    tr_calls t1 = tr_calls t @ (if tc_dynamic_schedule_enabled cfg \<and> tr_hybrid_active t \<and> tc_hybrid_ids cfg \<noteq> []
      then [RemoveReplicas (tc_hybrid_ids cfg), AbortHybrid, SleepHybrid] else [])"
  using assms
  by (auto simp: begin_step_def should_deactivate_def deactivate_hybrid_replicas_def call_rpcs_def Let_def
      split: if_splits option.splits)

lemma fit_step_Stepped:
  assumes "fit_step cfg clock f arrivals t = Stepped (bo, t', rest)"
  obtains t1 batch where "bo = Some (fst (train_batch cfg (clock (tr_global_steps t)) f batch t1))"
    "t' = snd (train_batch cfg (clock (tr_global_steps t)) f batch t1)"
    "tr_model t1 = tr_model t" "tr_cpu_saved_models t1 = tr_cpu_saved_models t"
    "tr_local_trigger_step t1 = tr_local_trigger_step t" "tr_global_steps t1 = tr_global_steps t"
    "tr_hybrid_active t1 = (tr_hybrid_active t \<and> \<not> tc_dynamic_schedule_enabled cfg)"
    "tr_calls t1 = tr_calls t @ (if tc_dynamic_schedule_enabled cfg \<and> tr_hybrid_active t \<and> tc_hybrid_ids cfg \<noteq> []
      then [RemoveReplicas (tc_hybrid_ids cfg), AbortHybrid, SleepHybrid] else [])"
proof -
  obtain t0 arrivals0 where a: "(case arrivals of [] \<Rightarrow> (t, []) | ys # rest \<Rightarrow> (t\<lparr>tr_queue := put_all ys (tr_queue t)\<rparr>, rest)) = (t0, arrivals0)"
    by (cases arrivals) auto
  then have t0: "t0 = t\<lparr>tr_queue := tr_queue t0\<rparr>" by (cases arrivals) auto
  obtain t1 r where b: "begin_step cfg (clock (tr_global_steps t)) arrivals0 t0 = Some (t1, r)"
    using assms a by (auto simp: fit_step_def Let_def split: option.splits)
  let ?w = "if tc_dynamic_schedule_enabled cfg then tc_required_samples cfg - get_queue_size (tr_queue t1) else 0"
  obtain batch mq r' where c: "collect_samples (tc_required_samples cfg) [] (tr_queue t1) r = Enough batch mq r'"
    using assms a b by (auto simp: fit_step_def Let_def split: collected.splits)
  let ?t2 = "t1\<lparr>tr_queue := mq, tr_step_wait_times := tr_step_wait_times t1 @ [rd_wait_s (clock (tr_global_steps t))],
      tr_step_wait_samples := tr_step_wait_samples t1 @ [?w]\<rparr>"
  have e: "tr_model t0 = tr_model t" "tr_cpu_saved_models t0 = tr_cpu_saved_models t"
    "tr_local_trigger_step t0 = tr_local_trigger_step t" "tr_global_steps t0 = tr_global_steps t"
    "tr_hybrid_active t0 = tr_hybrid_active t" "tr_calls t0 = tr_calls t"
    by (subst t0, simp)+
  show ?thesis
    by (rule that [of batch ?t2])
      (use assms a b c begin_step_Some [OF b] e in \<open>auto simp: fit_step_def Let_def case_prod_beta\<close>)
qed

subsection \<open>The weights of the old log probabilities\<close>

text \<open>Whose weights are kept on the CPU between the steps of a cycle.\<close>

definition old_weights_ok :: "('w, 'a) trained list \<Rightarrow> ('w, 'a) trainer \<Rightarrow> bool" where
  "old_weights_ok bs t \<longleftrightarrow>
     (\<forall>i < length bs. 1 \<le> td_local_step (bs ! i) \<and> td_local_step (bs ! i) \<le> Suc i \<and>
        td_old (bs ! i) = td_model (bs ! (Suc i - td_local_step (bs ! i))) \<and>
        td_local_step (bs ! (Suc i - td_local_step (bs ! i))) = 1) \<and>
     1 \<le> tr_local_trigger_step t \<and> tr_local_trigger_step t \<le> Suc (length bs) \<and>
     (tr_local_trigger_step t > 1 \<longrightarrow>
        tr_cpu_saved_models t 1 = Some (td_model (bs ! (Suc (length bs) - tr_local_trigger_step t))) \<and>
        td_local_step (bs ! (Suc (length bs) - tr_local_trigger_step t)) = 1)"

lemma old_log_prob_saved:
  "tr_local_trigger_step t = 1 \<Longrightarrow> fst (compute_old_log_prob t) = tr_model t \<and>
     tr_cpu_saved_models (snd (compute_old_log_prob t)) 1 = Some (tr_model t)"
  "tr_local_trigger_step t > 1 \<Longrightarrow> tr_cpu_saved_models t 1 = Some w \<Longrightarrow> fst (compute_old_log_prob t) = w \<and>
     tr_cpu_saved_models (snd (compute_old_log_prob t)) 1 = Some w"
  by (auto simp: compute_old_log_prob_def save_model_to_cpu_def restore_model_from_cpu_def clear_cpu_model_def Let_def)

lemma train_batch_old:
  assumes "\<not> tc_bypass_mode cfg"
  shows "td_old (fst (train_batch cfg rd f b t)) = fst (compute_old_log_prob t)"
    and "tr_cpu_saved_models (snd (train_batch cfg rd f b t)) = tr_cpu_saved_models (snd (compute_old_log_prob t))"
  using assms by (simp_all add: train_batch_def Let_def case_prod_beta trainer_keeps)

lemma old_weights_step:
  assumes "old_weights_ok bs t" "\<not> tc_bypass_mode cfg" "fit_step cfg clock f arrivals t = Stepped (Some b, t', rest)"
  shows "old_weights_ok (bs @ [b]) t'"
proof -
  let ?j = "tr_local_trigger_step t" and ?n = "length bs"
  obtain t1 batch where bt: "b = fst (train_batch cfg (clock (tr_global_steps t)) f batch t1)"
    "t' = snd (train_batch cfg (clock (tr_global_steps t)) f batch t1)"
    "tr_model t1 = tr_model t" "tr_cpu_saved_models t1 = tr_cpu_saved_models t" "tr_local_trigger_step t1 = ?j"
    using fit_step_Stepped [OF assms(3)] by (metis option.inject)
  have b: "td_local_step b = ?j" "td_model b = tr_model t" "td_old b = fst (compute_old_log_prob t1)"
    "tr_cpu_saved_models t' = tr_cpu_saved_models (snd (compute_old_log_prob t1))"
    "tr_local_trigger_step t' = next_local cfg ?j"
    using bt train_batch_old [OF assms(2)] by (simp_all add: train_batch_effect)
  have ok: "1 \<le> ?j" "?j \<le> Suc ?n" using assms(1) by (auto simp: old_weights_ok_def)
  have w: "td_old b = td_model ((bs @ [b]) ! (Suc ?n - ?j)) \<and> td_local_step ((bs @ [b]) ! (Suc ?n - ?j)) = 1 \<and>
      tr_cpu_saved_models t' 1 = Some (td_model ((bs @ [b]) ! (Suc ?n - ?j)))"
  proof (cases "?j = 1")
    case True
    with b bt(3,5) old_log_prob_saved(1) [of t1] show ?thesis by simp
  next
    case False
    with ok have "?j > 1" by simp
    with assms(1) have "tr_cpu_saved_models t1 1 = Some (td_model (bs ! (Suc ?n - ?j)))" "td_local_step (bs ! (Suc ?n - ?j)) = 1"
      by (auto simp: old_weights_ok_def bt(4))
    with b bt(5) \<open>?j > 1\<close> old_log_prob_saved(2) [of t1] ok show ?thesis by (simp add: nth_append)
  qed
  have old: "td_local_step ((bs @ [b]) ! i) \<le> Suc i \<and> 1 \<le> td_local_step ((bs @ [b]) ! i) \<and>
      td_old ((bs @ [b]) ! i) = td_model ((bs @ [b]) ! (Suc i - td_local_step ((bs @ [b]) ! i))) \<and>
      td_local_step ((bs @ [b]) ! (Suc i - td_local_step ((bs @ [b]) ! i))) = 1" if "i < Suc ?n" for i
  proof (cases "i < ?n")
    case True
    then have o: "1 \<le> td_local_step (bs ! i)" "td_local_step (bs ! i) \<le> Suc i"
      "td_old (bs ! i) = td_model (bs ! (Suc i - td_local_step (bs ! i)))" "td_local_step (bs ! (Suc i - td_local_step (bs ! i))) = 1"
      using assms(1) by (auto simp: old_weights_ok_def)
    moreover from o(1) True have "Suc i - td_local_step (bs ! i) < ?n" by linarith
    ultimately show ?thesis using True by (simp add: nth_append)
  next
    case False
    with that have "i = ?n" by simp
    with w b(1) ok show ?thesis by simp
  qed
  show ?thesis
    using old w ok b(5) by (auto simp: old_weights_ok_def next_local_def split: if_splits)
qed


lemma stepped_cases:
  "(case r of Stepped (Some b, t, rest) \<Rightarrow> P b t rest | _ \<Rightarrow> False) \<Longrightarrow> \<exists>b t rest. r = Stepped (Some b, t, rest) \<and> P b t rest"
  by (auto split: step_outcome.splits option.splits)


end
