(* ===== verification/TrainerPool.thy ===== *)
theory TrainerPool
  imports AsyncTrainerRuns
begin

text \<open>
  The trainer of AsyncTrainer against the server pool of HybridPool: the calls of the trainer are
  run on the pool, and the trainer's flag for the hybrid replicas is compared with the servers.
\<close>

definition run_pool_call :: "('h, 'c) server_pool \<Rightarrow> 'w call \<Rightarrow> ('h, 'c) server_pool" where
  "run_pool_call sp c = (case c of
     AddReplicas ids \<Rightarrow> snd (add_replicas sp ids)
   | RemoveReplicas ids \<Rightarrow> snd (remove_replicas sp ids)
   | _ \<Rightarrow> sp)"

definition run_pool :: "('h, 'c) server_pool \<Rightarrow> 'w call list \<Rightarrow> ('h, 'c) server_pool" where
  "run_pool = foldl run_pool_call"

lemma run_pool_append: "run_pool sp (cs @ ds) = run_pool (run_pool sp cs) ds"
  by (simp add: run_pool_def)

lemma run_pool_simps [simp]:
  "run_pool sp [] = sp" "run_pool sp (c # cs) = run_pool (run_pool_call sp c) cs"
  by (simp_all add: run_pool_def)

lemma run_pool_filter: "run_pool sp (filter pool_call cs) = run_pool sp cs"
proof (induction cs arbitrary: sp)
  case (Cons c cs)
  then show ?case by (cases c) (simp_all add: run_pool_call_def)
qed simp

text \<open>A pool whose hybrid replicas are the ones the trainer names, all asleep at the start.\<close>

definition fresh_pool :: "trainer_config \<Rightarrow> ('h, 'c) server_pool \<Rightarrow> bool" where
  "fresh_pool cfg sp \<longleftrightarrow> (\<exists>entries. tc_hybrid_ids cfg = map fst entries \<and> asleep sp entries \<and> entries \<noteq> []) \<and>
     length (sp_handles sp) = length (sp_addresses sp)"

lemma fresh_pool_remove:
  assumes "fresh_pool cfg sp"
  shows "snd (remove_replicas (snd (add_replicas sp (tc_hybrid_ids cfg))) (tc_hybrid_ids cfg)) = sp"
proof -
  obtain entries where e: "tc_hybrid_ids cfg = map fst entries" "asleep sp entries" "entries \<noteq> []"
    "length (sp_handles sp) = length (sp_addresses sp)" using assms by (auto simp: fresh_pool_def)
  from add_remove_pool [OF e(2-4)] show ?thesis unfolding e(1) by auto
qed

lemma fresh_pool_ids: "fresh_pool cfg sp \<Longrightarrow> tc_hybrid_ids cfg \<noteq> []"
  by (auto simp: fresh_pool_def)

definition agrees :: "trainer_config \<Rightarrow> ('h, 'c) server_pool \<Rightarrow> ('w, 'a) trainer \<Rightarrow> bool" where
  "agrees cfg sp t \<longleftrightarrow> run_pool sp (tr_calls t) = (if tr_hybrid_active t then snd (add_replicas sp (tc_hybrid_ids cfg)) else sp)"

lemma agrees_update_weights:
  assumes "agrees cfg sp t" "\<not> tr_hybrid_active t"
  shows "agrees cfg sp (fit_update_weights cfg rd t)"
proof -
  let ?a = "tr_local_trigger_step t = 1 \<and> tc_dynamic_schedule_enabled cfg \<and> tc_hybrid_ids cfg \<noteq> [] \<and>
       fst (should_activate_after_step (refresh_context cfg rd t) (tr_policy t))"
  obtain calls where c: "tr_calls (fit_update_weights cfg rd t) = tr_calls t @ calls"
    "filter pool_call calls = (if ?a then [AddReplicas (tc_hybrid_ids cfg)] else [])"
    "tr_hybrid_active (fit_update_weights cfg rd t) = (tr_hybrid_active t \<or> ?a)"
    using update_weights_shape [of cfg rd t] by force
  have "run_pool sp (tr_calls (fit_update_weights cfg rd t)) = run_pool sp (filter pool_call calls)"
    using assms by (simp add: c(1) run_pool_append run_pool_filter agrees_def)
  with c(2,3) assms(2) show ?thesis by (simp add: agrees_def run_pool_call_def)
qed

lemma agrees_cong:
  "tr_calls t' = tr_calls t @ cs \<Longrightarrow> filter pool_call cs = [] \<Longrightarrow> tr_hybrid_active t' = tr_hybrid_active t \<Longrightarrow>
   agrees cfg sp t' = agrees cfg sp t"
  using run_pool_filter [of "run_pool sp (tr_calls t)" cs] by (simp add: agrees_def run_pool_append)

lemma agrees_validate:
  "\<not> tc_use_trainer_do_validate cfg \<Longrightarrow> agrees cfg sp (fit_validate cfg v t) = agrees cfg sp t"
  by (rule agrees_cong [of _ _ "if tr_calls (fit_validate cfg v t) = tr_calls t then [] else [DoValidate (tr_current_param_version t)]"])
    (simp_all add: validate_keeps, simp add: fit_validate_def call_rpc_def Let_def)

lemma agrees_save:
  "agrees cfg sp (fit_save_checkpoint cfg rd fc t) = agrees cfg sp t"
  by (rule agrees_cong [of _ _ "if tr_calls (fit_save_checkpoint cfg rd fc t) = tr_calls t then []
      else [SaveCheckpoint (tr_current_param_version t) (tr_model t)]"])
    (simp_all add: save_checkpoint_keeps, simp add: fit_save_checkpoint_def call_rpc_def)

lemma old_log_prob_calls: "tr_calls (snd (compute_old_log_prob t)) = tr_calls t"
  by (auto simp: compute_old_log_prob_def save_model_to_cpu_def restore_model_from_cpu_def clear_cpu_model_def Let_def
      split: option.splits)

lemma agrees_train_batch:
  assumes "agrees cfg sp t" "\<not> tr_hybrid_active t" "\<not> tc_use_trainer_do_validate cfg"
  shows "agrees cfg sp (snd (train_batch cfg rd f b t))"
proof -
  let ?t1 = "snd (if tc_bypass_mode cfg then (tr_model t, t) else compute_old_log_prob t)"
  let ?t2 = "if tc_critic_warmup cfg \<le> tr_global_steps ?t1 then ?t1\<lparr>tr_model := f b (tr_model ?t1)\<rparr> else ?t1"
  let ?t3 = "fit_save_checkpoint cfg rd False (fit_validate cfg False (fit_update_weights cfg rd (update_local_step cfg ?t2)))"
  have k: "tr_calls (update_local_step cfg ?t2) = tr_calls t" "\<not> tr_hybrid_active (update_local_step cfg ?t2)"
    using assms(2) by (auto simp: old_log_prob_calls old_log_prob_keeps update_local_step_def)
  have "agrees cfg sp (update_local_step cfg ?t2)"
    using assms(1,2) k by (simp add: agrees_def)
  then have "agrees cfg sp ?t3"
    using k(2) assms(3) by (simp add: agrees_save agrees_validate agrees_update_weights)
  then have "agrees cfg sp (?t3\<lparr>tr_global_steps := tr_global_steps ?t3 + 1\<rparr>)" by (simp add: agrees_def)
  then show ?thesis by (simp add: train_batch_def Let_def case_prod_beta)
qed

lemma agrees_fit_step:
  assumes "agrees cfg sp t" "tr_hybrid_active t \<longrightarrow> tc_dynamic_schedule_enabled cfg" "fresh_pool cfg sp"
    "\<not> tc_use_trainer_do_validate cfg" "fit_step cfg clock f arrivals t = Stepped (Some b, t', rest)"
  shows "agrees cfg sp t'"
proof -
  obtain t1 batch where b: "t' = snd (train_batch cfg (clock (tr_global_steps t)) f batch t1)"
    "tr_hybrid_active t1 = (tr_hybrid_active t \<and> \<not> tc_dynamic_schedule_enabled cfg)"
    "tr_calls t1 = tr_calls t @ (if tc_dynamic_schedule_enabled cfg \<and> tr_hybrid_active t \<and> tc_hybrid_ids cfg \<noteq> []
      then [RemoveReplicas (tc_hybrid_ids cfg), AbortHybrid, SleepHybrid] else [])"
    using fit_step_Stepped [OF assms(5)] by metis
  have "agrees cfg sp t1"
    using assms(1,2) fresh_pool_ids [OF assms(3)] fresh_pool_remove [OF assms(3)] b(2,3)
    by (auto simp: agrees_def run_pool_append run_pool_call_def split: if_splits)
  then show ?thesis using agrees_train_batch b(1,2) assms(2,4) by blast
qed

text \<open>
  C7. Without validation on the trainer's GPUs the trainer's flag for the hybrid replicas is true
  to the pool in every state of a run: when it is set all hybrid replicas are served, when it is
  not the pool is the one of the start.
\<close>

theorem controller_matches_pool:
  assumes "fresh_pool cfg sp" "\<not> tc_use_trainer_do_validate cfg"
    and "run_from cfg clock f (enter_fit (before_fit cfg rd v (new_trainer cfg p mq w))) arrivals bs t rest"
  shows "run_pool sp (tr_calls t) =
    (if tr_hybrid_active t then snd (add_replicas sp (tc_hybrid_ids cfg)) else sp)"
proof -
  have n: "agrees cfg sp (new_trainer cfg p mq w)" "\<not> tr_hybrid_active (new_trainer cfg p mq w)"
    by (simp_all add: agrees_def new_trainer_def)
  have a: "agrees cfg sp (before_fit cfg rd v (new_trainer cfg p mq w))"
    using agrees_update_weights [OF n] by (simp add: before_fit_def Let_def agrees_validate [OF assms(2)])
  have "agrees cfg sp t \<and> (tr_hybrid_active t \<longrightarrow> tc_dynamic_schedule_enabled cfg)"
    using assms(3)
  proof (induction rule: run_from.induct)
    case run_start
    have "tr_hybrid_active (enter_fit (before_fit cfg rd v (new_trainer cfg p mq w))) \<longrightarrow> tc_dynamic_schedule_enabled cfg"
      using n(2) by (simp add: enter_fit_def before_fit_def Let_def validate_keeps update_weights_keeps)
    with a show ?case by (simp add: agrees_def enter_fit_def)
  next
    case (run_step bs t rest b t' rest')
    then have "agrees cfg sp t'" using agrees_fit_step [OF _ _ assms(1,2)] by blast
    moreover have "tr_hybrid_active t' \<longrightarrow> tc_dynamic_schedule_enabled cfg"
    proof (cases "tc_dynamic_schedule_enabled cfg")
      case False
      with run_step have "\<not> tr_hybrid_active t" by blast
      moreover obtain t1 batch where "t' = snd (train_batch cfg (clock (tr_global_steps t)) f batch t1)"
        "tr_hybrid_active t1 = (tr_hybrid_active t \<and> \<not> tc_dynamic_schedule_enabled cfg)"
        using fit_step_Stepped [OF run_step(2)] by metis
      ultimately have "\<not> tr_hybrid_active t'" by (simp add: train_batch_effect(10) [OF False])
        then show ?thesis by blast
    qed simp
    ultimately show ?case by blast
  qed
  then show ?thesis by (simp add: agrees_def)
qed

text \<open>The pool of the examples: two hybrid replicas and no other.\<close>

lemma demo_fresh: "fresh_pool (demo_config True) hybrid_only_pool"
proof -
  have "tc_hybrid_ids (demo_config True) = map fst (sp_hybrid hybrid_only_pool)" "sp_hybrid hybrid_only_pool \<noteq> []"
    "length (sp_handles hybrid_only_pool) = length (sp_addresses hybrid_only_pool)" by code_simp+
  with hybrid_only_asleep show ?thesis by (auto simp: fresh_pool_def)
qed

theorem controller_matches_pool_witness:
  "length (sp_alive (run_pool hybrid_only_pool (tr_calls (demo_trainer True)))) = 2"
proof -
  have "\<not> tc_use_trainer_do_validate (demo_config True)" by (simp add: demo_config_def)
  from controller_matches_pool [OF demo_fresh this, of demo_clock "\<lambda>_ w. w + 1" "demo_clock 0" False
      "make_policy DefaultPolicy (3 / 10) True" "demo_queue [1, 2]" 0 "[]" "[]" "demo_trainer True" "[]"]
  have "run_pool hybrid_only_pool (tr_calls (demo_trainer True)) =
      (if tr_hybrid_active (demo_trainer True) then snd (add_replicas hybrid_only_pool (tc_hybrid_ids (demo_config True))) else hybrid_only_pool)"
    by (simp add: demo_trainer_def run_start)
  moreover have "tr_hybrid_active (demo_trainer True)" by code_simp
  moreover have "length (sp_alive (snd (add_replicas hybrid_only_pool (tc_hybrid_ids (demo_config True))))) = 2" by code_simp
  ultimately show ?thesis by simp
qed

text \<open>
  C13. Validation on the trainer's GPUs takes the hybrid replicas out of the pool without telling
  the controller: when they were active they stay active for the trainer, which then waits for its
  samples before every other thing, although no hybrid replica is left to make them.
\<close>

theorem validation_loses_hybrid:
  assumes "fresh_pool cfg sp" "agrees cfg sp t" "tr_hybrid_active t" "tr_local_trigger_step t = 1"
    and "tc_use_trainer_do_validate cfg" "tc_dynamic_schedule_enabled cfg"
    and "t' = fit_validate cfg True t"
  shows "tr_hybrid_active t' \<and> run_pool sp (tr_calls t') = sp \<and>
    (int (get_queue_size (tr_queue t)) < deactivate_wait_samples (tr_policy t) (tr_ctx t) \<longrightarrow>
      fit_step cfg clock f [] (enter_fit t') = WaitsForSamples)"
proof -
  let ?ids = "tc_hybrid_ids cfg"
  have t': "t' = trainer_side_validate cfg t" using assms(4,5,7) by (simp add: fit_validate_def Let_def)
  have add: "snd (add_replicas (snd (add_replicas sp ?ids)) ?ids) = snd (add_replicas sp ?ids)"
  proof -
    obtain entries where e: "?ids = map fst entries" "asleep sp entries" "entries \<noteq> []"
      using assms(1) by (auto simp: fresh_pool_def)
    let ?sp1 = "snd (add_replicas sp ?ids)"
    have "dict_has (sp_alive ?sp1) rid" if "rid \<in> set ?ids" for rid
      using add_replicas_asleep [OF e(2,3)] that e(1) by (auto simp: with_replicas_def dict_has_iff)
    then have "foldl (\<lambda>(servers, valid) rid. if dict_has (sp_alive ?sp1) rid then (servers, valid)
       else case dict_get (sp_hybrid ?sp1) rid of None \<Rightarrow> (servers, valid)
        | Some r \<Rightarrow> (dict_set servers (rep_address r) (rep_handle r), valid @ [(rid, r)])) acc ids = acc"
      if "set ids \<subseteq> set ?ids" for acc ids using that
      by (induction ids arbitrary: acc) (auto split: prod.splits)
    then have "replicas_to_add ?sp1 ?ids = ([], [])" unfolding replicas_to_add_def by blast
    then show ?thesis by (simp add: add_replicas_def)
  qed
  have "run_pool sp (tr_calls t') = sp"
    using assms(2,3) fresh_pool_remove [OF assms(1)] add
    by (simp add: t' trainer_side_validate_def call_rpcs_def run_pool_append agrees_def run_pool_call_def)
  moreover have "tr_hybrid_active t'" "tr_queue t' = tr_queue t" "tr_policy t' = tr_policy t" "tr_ctx t' = tr_ctx t"
    using assms(3) by (simp_all add: t' trainer_side_validate_def call_rpcs_def)
  ultimately show ?thesis using assms(6)
    by (simp add: fit_step_def begin_step_def should_deactivate_def enter_fit_def wait_for_enough_samples.simps Let_def)
qed

theorem validation_loses_hybrid_witness:
  "fit_step ((demo_config True)\<lparr>tc_use_trainer_do_validate := True\<rparr>) demo_clock (\<lambda>_ w. w + 1) []
     (enter_fit (fit_validate ((demo_config True)\<lparr>tc_use_trainer_do_validate := True\<rparr>) True (demo_trainer True))) = WaitsForSamples"
proof -
  let ?cfg = "(demo_config True)\<lparr>tc_use_trainer_do_validate := True\<rparr>"
  have f: "fresh_pool ?cfg hybrid_only_pool" using demo_fresh by (simp add: fresh_pool_def)
  have "run_pool hybrid_only_pool (tr_calls (demo_trainer True)) = snd (add_replicas hybrid_only_pool (tc_hybrid_ids ?cfg))"
    by code_simp
  moreover have t: "tr_hybrid_active (demo_trainer True)" "tr_local_trigger_step (demo_trainer True) = 1" by code_simp+
  ultimately have a: "agrees ?cfg hybrid_only_pool (demo_trainer True)" by (simp add: agrees_def)
  have c: "tc_use_trainer_do_validate ?cfg" "tc_dynamic_schedule_enabled ?cfg" by (simp_all add: demo_config_def)
  have "int (get_queue_size (tr_queue (demo_trainer True))) <
      deactivate_wait_samples (tr_policy (demo_trainer True)) (tr_ctx (demo_trainer True))" by code_simp
  with validation_loses_hybrid [OF f a t c refl] show ?thesis by blast
qed

subsection \<open>The end and the resumption of a training\<close>

text \<open>
  A cycle that was begun when the queue ended is not synchronised: the closing phase makes no call
  but the checkpoint, whose version is older than its weights.
\<close>

lemma unfinished_cycle_not_synced:
  assumes "tr_local_trigger_step t > 1" "fit_close cfg rd t = Inr t'"
  shows "tr_calls t' = tr_calls t \<or> tr_calls t' = tr_calls t @ [SaveCheckpoint (tr_current_param_version t) (tr_model t)]"
  using assms by (auto simp: fit_close_def fit_update_weights_def fit_validate_def fit_save_checkpoint_def call_rpc_def Let_def
      split: if_splits)

text \<open>The step number of a resumed run is one ahead of the same run without an interruption.\<close>

lemma run_global_steps:
  "run_from cfg clock f t arrivals bs t' rest \<Longrightarrow> tr_global_steps t' = tr_global_steps t + length bs"
proof (induction rule: run_from.induct)
  case (run_step bs t' rest b t'' rest')
  obtain t1 batch where "t'' = snd (train_batch cfg (clock (tr_global_steps t')) f batch t1)" "tr_global_steps t1 = tr_global_steps t'"
    using fit_step_Stepped [OF run_step(2)] by metis
  then have "tr_global_steps t'' = tr_global_steps t' + 1"
    by (simp add: train_batch_def Let_def case_prod_beta trainer_keeps)
  with run_step show ?case by simp
qed simp

lemma resumed_step_ahead:
  assumes "run_from cfg clock f (enter_fit (new_trainer cfg p mq w)) arrivals bs t rest"
    and "length bs = version * tc_trigger_parameter_sync_step cfg"
  shows "tr_global_steps (enter_fit (load_checkpoint cfg version w' t0)) = tr_global_steps t + 1"
  using run_global_steps [OF assms(1)] assms(2) by (simp add: enter_fit_def load_checkpoint_def new_trainer_def)

end
