(* ===== verification/ActorLoss.thy ===== *)
theory ActorLoss
  imports PolicyLoss
begin

text \<open>
  The losses of the training workers (\<open>verl/workers/utils/losses.py\<close>) over the policy losses of
  PolicyLoss, with the conversion between padded batches and batches without padding
  (\<open>verl/workers/utils/padding.py\<close>) and the metric objects that report them
  (\<open>verl/utils/metric/utils.py\<close>).  A nested tensor is the list of its rows; a flat tensor with
  offsets is a list with the cumulated lengths.
\<close>

subsection \<open>Removing and restoring padding\<close>

text \<open>The entries of a row that its mask keeps.\<close>

definition select_row :: "bool list \<Rightarrow> 'a list \<Rightarrow> 'a list" where
  "select_row msk row = map snd (filter fst (zip msk row))"

fun cumulated :: "nat \<Rightarrow> nat list \<Rightarrow> nat list" where
  "cumulated acc [] = []"
| "cumulated acc (n # ns) = (acc + n) # cumulated (acc + n) ns"

text \<open>
  \<open>unpad_input\<close> of \<open>verl/utils/npu_flash_attn_utils.py\<close> (a copy of the flash-attn function used on other
  devices), without the unused mask: the valid entries of all rows, their flat positions, the offsets.
\<close>

definition unpad_input :: "'a list list \<Rightarrow> bool list list \<Rightarrow> 'a list \<times> nat list \<times> nat list" where
  "unpad_input rows attention_mask =
     (let flat_mask = concat attention_mask
      in (select_row flat_mask (concat rows),
          filter (\<lambda>i. flat_mask ! i) [0..<length flat_mask],
          0 # cumulated 0 (map (\<lambda>m. length (filter id m)) attention_mask)))"

definition nested_from_jagged :: "'a list \<Rightarrow> nat list \<Rightarrow> 'a list list" where
  "nested_from_jagged values offsets = map2 (\<lambda>a b. take (b - a) (drop a values)) offsets (tl offsets)"

record no_padding =
  np_input_ids :: "int list list"
  np_position_ids :: "int list list"
  np_loss_mask :: tensor
  np_max_seq_len :: nat
  np_max_response_len :: nat
  np_indices :: "nat list"

definition left_right_2_no_padding :: "int list list \<Rightarrow> bool list list \<Rightarrow> tensor \<Rightarrow> int list list \<Rightarrow> no_padding" where
  "left_right_2_no_padding input_ids attention_mask response_mask position_ids =
     (let (input_ids_rmpad, indices, cu_seqlens) = unpad_input input_ids attention_mask
      in \<lparr>np_input_ids = nested_from_jagged input_ids_rmpad cu_seqlens,
          np_position_ids = map2 select_row attention_mask position_ids,
          np_loss_mask = response_mask,
          np_max_seq_len = row_width (map (map of_int) input_ids),
          np_max_response_len = row_width response_mask,
          np_indices = indices\<rparr>)"

text \<open>\<open>F.pad\<close> on the right by a width that may be negative.\<close>

definition pad_to :: "nat \<Rightarrow> 'a::zero list \<Rightarrow> 'a list" where
  "pad_to n xs = take n (xs @ replicate (n - length xs) 0)"

text \<open>The model output is shifted left by one token: the value of a token stands before it.\<close>

definition slice_responses :: "'a::zero list \<Rightarrow> nat list \<Rightarrow> nat list \<Rightarrow> nat \<Rightarrow> 'a list list result" where
  "slice_responses values prompt_lens response_lens max_response_len =
     (let sequence_offsets = cumulated 0 (map2 (+) prompt_lens response_lens)
      in if sequence_offsets = [] then Inl IndexError
         else guard_assert (last sequence_offsets = length values)
           (guard_assert (0 \<notin> set prompt_lens)
             (Inr (map2 (\<lambda>resp_len seq_offset.
                  pad_to max_response_len (take resp_len (drop (seq_offset - resp_len - 1) values)))
                response_lens sequence_offsets))))"

definition no_padding_2_padding :: "'a::zero list \<Rightarrow> nat \<Rightarrow> nat \<Rightarrow> bool list list \<Rightarrow> 'a list list result" where
  "no_padding_2_padding values prompt_width response_width attention_mask =
     slice_responses values
       (map (\<lambda>m. length (filter id (take prompt_width m))) attention_mask)
       (map (\<lambda>m. length (filter id (drop prompt_width m))) attention_mask) response_width"

text \<open>\<open>max()\<close> of an empty tensor raises.\<close>

definition max_len :: "nat list \<Rightarrow> nat result" where
  "max_len lens = (if lens = [] then Inl (RuntimeError ''max(): Expected reduction dim to be specified'')
     else Inr (foldr max lens 0))"

definition nested_2_padding :: "'a::zero list \<Rightarrow> 'b list list \<Rightarrow> 'c list list \<Rightarrow> int \<Rightarrow> 'a list list result" where
  "nested_2_padding values prompts responses max_response_len =
     (let response_lens = map length responses
      in rbind (if max_response_len < 0 then max_len response_lens else Inr (nat max_response_len))
           (slice_responses values (map length prompts) response_lens))"

definition response_from_nested :: "'a list list \<Rightarrow> 'b list list \<Rightarrow> 'a list list result" where
  "response_from_nested rows response_mask =
     (if length rows \<noteq> length response_mask then Inl (ValueError ''zip() arguments have different lengths'')
      else
        (let values = concat rows
         in Inr (map2 (\<lambda>m seq_offset. py_slice values (int seq_offset - int (length m) - 1) (int seq_offset - 1))
              response_mask (cumulated 0 (map length rows)))))"

definition response_to_nested :: "'a list list \<Rightarrow> 'b list list \<Rightarrow> 'a list list result" where
  "response_to_nested padded response_mask =
     (if length response_mask < length padded then Inl IndexError
      else Inr (map2 (\<lambda>row m. take (length m) row) padded response_mask))"

definition build_attention_mask_from_nested :: "'a list list \<Rightarrow> nat option \<Rightarrow> int list list result" where
  "build_attention_mask_from_nested input_ids max_seq_len =
     (let lens = map length input_ids
      in rbind (case max_seq_len of None \<Rightarrow> max_len lens | Some n \<Rightarrow> Inr n)
           (\<lambda>width. Inr (map (\<lambda>n. map (\<lambda>i. of_bool (i < n)) [0..<width]) lens)))"

subsection \<open>Metrics\<close>

datatype aggregation_type = AggMean | AggSum | AggMin | AggMax

record metric =
  me_aggregation :: aggregation_type
  me_values :: "rat list"

definition new_metric :: "aggregation_type \<Rightarrow> rat list \<Rightarrow> metric" where
  "new_metric a vs = \<lparr>me_aggregation = a, me_values = vs\<rparr>"

definition metric_extend :: "metric \<Rightarrow> metric \<Rightarrow> metric result" where
  "metric_extend m other =
     (if me_aggregation other \<noteq> me_aggregation m then Inl (ValueError ''Aggregation type mismatch'')
      else Inr (m\<lparr>me_values := me_values m @ me_values other\<rparr>))"

text \<open>\<open>np.mean\<close> of nothing is nan, the minimum of nothing raises.\<close>

definition aggregate_values :: "rat list \<Rightarrow> aggregation_type \<Rightarrow> rat option result" where
  "aggregate_values vs a = (case a of
     AggMean \<Rightarrow> Inr (fdiv (sum_list vs) (of_nat (length vs)))
   | AggSum \<Rightarrow> Inr (Some (sum_list vs))
   | AggMin \<Rightarrow> (case vs of [] \<Rightarrow> Inl (ValueError ''zero-size array to reduction operation minimum which has no identity'')
       | x # xs \<Rightarrow> Inr (Some (foldl min x xs)))
   | AggMax \<Rightarrow> (case vs of [] \<Rightarrow> Inl (ValueError ''zero-size array to reduction operation maximum which has no identity'')
       | x # xs \<Rightarrow> Inr (Some (foldl max x xs))))"

definition column_means :: "rat list list \<Rightarrow> rat list" where
  "column_means rows = map (\<lambda>k. sum_list (map (\<lambda>r. r ! k) rows) / of_nat (length rows)) [0..<length (hd rows)]"

text \<open>Aggregation over the data-parallel ranks: one metric per rank.\<close>

definition aggregate_dp :: "metric list \<Rightarrow> rat option result" where
  "aggregate_dp metric_lists =
     (if metric_lists = [] then Inl (ValueError ''Cannot aggregate an empty list of metrics.'')
      else
        (let value_lists = map me_values metric_lists; a = me_aggregation (hd metric_lists)
         in if \<not> list_all (\<lambda>ls. length ls = length (hd value_lists)) value_lists
            then Inl (ValueError ''All Metric instances must have the same number of values for dp aggregation'')
            else (case a of
                AggSum \<Rightarrow> aggregate_values (column_means value_lists) a
              | AggMean \<Rightarrow> aggregate_values (column_means value_lists) a
              | AggMin \<Rightarrow> aggregate_values (concat value_lists) a
              | AggMax \<Rightarrow> aggregate_values (concat value_lists) a)))"

subsection \<open>Losses\<close>

text \<open>\<open>torch.roll(x, shifts=-1, dims=0)\<close>\<close>

definition roll_left :: "'a list \<Rightarrow> 'a list" where
  "roll_left xs = (case xs of [] \<Rightarrow> [] | x # r \<Rightarrow> r @ [x])"

definition sft_loss_no_padding :: "tensor \<Rightarrow> tensor \<Rightarrow> rat \<Rightarrow> rat \<Rightarrow> rat option" where
  "sft_loss_no_padding log_prob loss_mask num_tokens dp =
     map_option (\<lambda>l. l * dp) (fdiv (- masked_sum (concat log_prob) (roll_left (concat loss_mask))) num_tokens)"

definition sft_loss_padded :: "tensor \<Rightarrow> tensor \<Rightarrow> rat \<Rightarrow> rat \<Rightarrow> rat option" where
  "sft_loss_padded log_prob response_mask num_tokens dp =
     map_option (\<lambda>l. l * dp) (fdiv (- masked_sum (concat log_prob)
       (map (\<lambda>m. of_bool_mask (m \<noteq> 0)) (concat response_mask))) num_tokens)"

record actor_config =
  al_policy :: policy_config
  al_loss_agg_mode :: string
  al_entropy_coeff :: rat
  al_use_kl_loss :: bool
  al_kl_loss_type :: string
  al_kl_loss_coef :: rat

record loss_data =
  ld_info :: batch_info
  ld_response_mask :: tensor
  ld_old_log_probs :: tensor
  ld_advantages :: tensor
  ld_rollout_is_weights :: "tensor option"
  ld_ref_log_prob :: tensor

type_synonym policy_loss_fn =
  "tensor \<Rightarrow> tensor \<Rightarrow> tensor \<Rightarrow> tensor \<Rightarrow> string \<Rightarrow> policy_config \<Rightarrow> tensor option \<Rightarrow> (rat option \<times> metrics) result"

text \<open>The registry of the policy losses.\<close>

definition get_policy_loss_fn :: "(string \<times> policy_loss_fn) list \<Rightarrow> string \<Rightarrow> policy_loss_fn result" where
  "get_policy_loss_fn registry name =
     (case map_of registry name of None \<Rightarrow> Inl (ValueError (''Unsupported loss mode: '' @ name)) | Some f \<Rightarrow> Inr f)"

text \<open>The batch information with the scale factor of the configuration.\<close>

definition global_batch_info :: "actor_config \<Rightarrow> loss_data \<Rightarrow> batch_info" where
  "global_batch_info cfg d = (ld_info d)\<lparr>loss_scale_factor := loss_scale_factor (pc_info (al_policy cfg))\<rparr>"

definition metric_aggregation :: "batch_info \<Rightarrow> aggregation_type" where
  "metric_aggregation info =
     (if dp_size info > 1 \<or> batch_num_tokens info \<noteq> None \<or> global_batch_size info \<noteq> None \<or> loss_scale_factor info \<noteq> None
      then AggSum else AggMean)"

definition opt_add :: "rat option \<Rightarrow> rat option \<Rightarrow> rat option" where
  "opt_add x y = Option.bind x (\<lambda>a. map_option ((+) a) y)"

definition bool_mask :: "tensor \<Rightarrow> tensor" where
  "bool_mask = mapm (\<lambda>m. of_bool_mask (m \<noteq> 0))"

text \<open>
  The loss of the actor: policy loss, minus the weighted entropy, plus the weighted KL term.  The
  scalar terms are reported with their aggregation; plain numbers, which the trainer averages, are
  listed with \<open>AggMean\<close>, and the constant \<open>kl_coef\<close> is left out.
\<close>

definition ppo_loss ::
  "(rat \<Rightarrow> rat) \<Rightarrow> policy_loss_fn \<Rightarrow> actor_config \<Rightarrow> tensor \<Rightarrow> tensor option \<Rightarrow> loss_data \<Rightarrow>
   (rat option \<times> (string \<times> rat option \<times> aggregation_type) list) result" where
  "ppo_loss fexp policy_loss_fn cfg log_prob entropy d =
     (let info = global_batch_info cfg d; agg = metric_aggregation info;
          msk = bool_mask (ld_response_mask d); mode = al_loss_agg_mode cfg
      in rbind (policy_loss_fn (ld_old_log_probs d) log_prob (ld_advantages d) msk mode
             ((al_policy cfg)\<lparr>pc_info := info\<rparr>) (ld_rollout_is_weights d)) (\<lambda>(pg_loss, pg_metrics).
         rbind (case entropy of
             None \<Rightarrow> Inr (pg_loss, [])
           | Some e \<Rightarrow> rbind (agg_loss e msk mode info) (\<lambda>entropy_loss.
               Inr (opt_add pg_loss (map_option (\<lambda>x. - (al_entropy_coeff cfg * x)) entropy_loss),
                    [(''actor/entropy_loss'', entropy_loss, agg)]))) (\<lambda>(loss1, ms1).
         rbind (if al_use_kl_loss cfg
             then rbind (kl_penalty fexp log_prob (ld_ref_log_prob d) (al_kl_loss_type cfg)) (\<lambda>kld.
               rbind (agg_loss kld msk mode info) (\<lambda>kl_loss.
                 Inr (opt_add loss1 (map_option (\<lambda>x. x * al_kl_loss_coef cfg) kl_loss), [(''kl_loss'', kl_loss, agg)])))
             else Inr (loss1, [])) (\<lambda>(loss2, ms2).
         Inr (loss2, map (\<lambda>(k, v). (k, Some v, AggMean)) pg_metrics @ [(''actor/pg_loss'', pg_loss, agg)] @ ms1 @ ms2)))))"

definition value_loss ::
  "rat \<Rightarrow> string \<Rightarrow> rat option \<Rightarrow> tensor \<Rightarrow> tensor \<Rightarrow> tensor \<Rightarrow> tensor \<Rightarrow> batch_info \<Rightarrow>
   (rat option \<times> (string \<times> rat option \<times> aggregation_type) list) result" where
  "value_loss cliprange_value mode scale vpreds values returns response_mask info0 =
     (let info = info0\<lparr>loss_scale_factor := scale\<rparr>; msk = bool_mask response_mask
      in rbind (compute_value_loss vpreds returns values msk cliprange_value mode info) (\<lambda>(vf_loss, vf_clipfrac).
           Inr (vf_loss, [(''critic/vf_loss'', vf_loss, metric_aggregation info),
             (''critic/vf_clipfrac'', Some vf_clipfrac, AggMean), (''critic/vpred_mean'', Some (mmean vpreds msk), AggMean)])))"

subsection \<open>Responses keep their places\<close>

text \<open>Masks of prompts padded on the left and responses padded on the right.\<close>

definition mask_row :: "nat \<Rightarrow> nat \<Rightarrow> nat \<Rightarrow> nat \<Rightarrow> bool list" where
  "mask_row P R p r = replicate (P - p) False @ replicate (p + r) True @ replicate (R - r) False"

definition mask_rows :: "nat \<Rightarrow> nat \<Rightarrow> nat list \<Rightarrow> nat list \<Rightarrow> bool list list" where
  "mask_rows P R ps rs = map2 (mask_row P R) ps rs"

lemma select_row_append: "length m = length a \<Longrightarrow> select_row (m @ n) (a @ b) = select_row m a @ select_row n b"
  by (simp add: select_row_def)

lemma select_row_replicate: "select_row (replicate (length xs) b) xs = (if b then xs else [])"
  by (induction xs) (auto simp: select_row_def)

lemma select_middle:
  "select_row (replicate (length a) False @ replicate (length b) True @ replicate (length c) False) (a @ b @ c) = b"
  by (simp add: select_row_append select_row_replicate)

lemma select_mask_row:
  assumes "length v = P + R" "p \<le> P" "r \<le> R"
  shows "select_row (mask_row P R p r) v = take (p + r) (drop (P - p) v)"
proof -
  let ?a = "take (P - p) v" and ?b = "take (p + r) (drop (P - p) v)" and ?c = "drop (P + r) v"
  have v: "v = ?a @ ?b @ ?c"
  proof -
    have "drop (P + r) v = drop (p + r) (drop (P - p) v)" using assms(2) by (simp add: add.commute add.left_commute)
    then show ?thesis by (simp only: append_take_drop_id)
  qed
  have l: "length ?a = P - p" "length ?b = p + r" "length ?c = R - r" using assms by auto
  have "select_row (replicate (length ?a) False @ replicate (length ?b) True @ replicate (length ?c) False) (?a @ ?b @ ?c) = ?b"
    by (rule select_middle)
  then have "select_row (mask_row P R p r) (?a @ ?b @ ?c) = ?b" by (simp only: l mask_row_def)
  with v show ?thesis by simp
qed

lemma select_concat:
  "map length msks = map length rows \<Longrightarrow> select_row (concat msks) (concat rows) = concat (map2 select_row msks rows)"
proof (induction rows arbitrary: msks)
  case (Cons row rows)
  then show ?case by (cases msks) (auto simp: select_row_append)
qed (simp add: select_row_def)

lemma count_replicate: "length (filter id (replicate n b)) = (if b then n else 0)"
  by (induction n) auto

lemma mask_row_lens:
  assumes "p \<le> P" "r \<le> R"
  shows "length (filter id (take P (mask_row P R p r))) = p" "length (filter id (drop P (mask_row P R p r))) = r"
    "length (mask_row P R p r) = P + R"
proof -
  have "take P (mask_row P R p r) = replicate (P - p) False @ replicate p True"
    "drop P (mask_row P R p r) = replicate r True @ replicate (R - r) False"
    using assms by (auto simp: mask_row_def replicate_add)
  then show "length (filter id (take P (mask_row P R p r))) = p" "length (filter id (drop P (mask_row P R p r))) = r"
    "length (mask_row P R p r) = P + R"
    using assms by (auto simp: count_replicate mask_row_def)
qed

text \<open>What a sequence of \<open>p\<close> prompt and \<open>r\<close> response tokens contributes.\<close>

lemma slices:
  "length ps = length rs \<Longrightarrow> length xs = length ps \<Longrightarrow> \<forall>i < length ps. length (xs ! i) = ps ! i + rs ! i \<and> 0 < ps ! i \<Longrightarrow>
   map2 (\<lambda>r off. take r (drop (off - r - 1) (pre @ concat xs))) rs (cumulated (length pre) (map2 (+) ps rs)) =
   map2 (\<lambda>(p, r) x. take r (drop (p - 1) x)) (zip ps rs) xs"
proof (induction ps arbitrary: rs xs pre)
  case (Cons p ps)
  then obtain r rs' x xs' where e: "rs = r # rs'" "xs = x # xs'" by (metis length_Suc_conv)
  have x: "length x = p + r" "0 < p" using Cons.prems(3) e by force+
  have "take r (drop (length pre + (p + r) - r - 1) (pre @ x @ concat xs')) = take r (drop (p - 1) x)"
  proof -
    have "length pre + (p + r) - r - 1 = length pre + (p - 1)" using x by simp
    then show ?thesis using x by simp
  qed
  moreover have "map2 (\<lambda>r off. take r (drop (off - r - 1) ((pre @ x) @ concat xs'))) rs' (cumulated (length (pre @ x)) (map2 (+) ps rs')) =
      map2 (\<lambda>(p, r) x. take r (drop (p - 1) x)) (zip ps rs') xs'"
    by (rule Cons.IH) (use Cons.prems e in force)+
  ultimately show ?case using x by (simp add: e add.assoc)
qed simp

lemma last_cumulated: "ns \<noteq> [] \<Longrightarrow> last (cumulated acc ns) = acc + sum_list ns"
proof (induction ns arbitrary: acc)
  case (Cons n ns)
  then show ?case by (cases ns) auto
qed simp

lemma cumulated_Nil [simp]: "cumulated acc ns = [] \<longleftrightarrow> ns = []"
  by (cases ns) auto

lemma length_cumulated [simp]: "length (cumulated acc ns) = length ns"
  by (induction acc ns rule: cumulated.induct) auto

text \<open>
  C18. Removing the padding and slicing the responses from the flat model output gives every
  response position the output one place to its left in the padded batch, and zeros after the end
  of the response.
\<close>

theorem padding_aligns_responses:
  assumes "length ps = length rs" "length vs = length ps" "ps \<noteq> []"
    and "\<forall>i < length ps. 0 < ps ! i \<and> ps ! i \<le> P \<and> rs ! i \<le> R \<and> length (vs ! i) = P + R"
  shows "\<exists>out. no_padding_2_padding (fst (unpad_input vs (mask_rows P R ps rs))) P R (mask_rows P R ps rs) = Inr out \<and>
    length out = length vs \<and>
    (\<forall>i < length vs. length (out ! i) = R \<and>
       (\<forall>t < R. out ! i ! t = (if t < rs ! i then vs ! i ! (P + t - 1) else 0)))"
proof -
  let ?m = "mask_rows P R ps rs"
  let ?xs = "map2 select_row ?m vs"
  have n: "length ?m = length ps" using assms(1) by (simp add: mask_rows_def)
  have m: "?m ! i = mask_row P R (ps ! i) (rs ! i)" if "i < length ps" for i
    using assms(1) that by (simp add: mask_rows_def)
  have x: "?xs ! i = take (ps ! i + rs ! i) (drop (P - ps ! i) (vs ! i))" if "i < length ps" for i
    using that n m assms(2,4) by (simp add: select_mask_row)
  have "map length ?m = map length vs"
    by (rule nth_equalityI) (use n m assms(2,4) mask_row_lens(3) in auto)
  then have flat: "fst (unpad_input vs ?m) = concat ?xs" by (simp add: unpad_input_def Let_def select_concat)
  have pl: "map (\<lambda>m. length (filter id (take P m))) ?m = ps" "map (\<lambda>m. length (filter id (drop P m))) ?m = rs"
    by (rule nth_equalityI; use n m assms(1,4) mask_row_lens(1,2) in auto)+
  have lx: "length ?xs = length ps" "\<forall>i < length ps. length (?xs ! i) = ps ! i + rs ! i \<and> 0 < ps ! i"
    using n assms(2,4) x by auto
  have "length (concat ?xs) = sum_list (map2 (+) ps rs)"
  proof -
    have "map length ?xs = map2 (+) ps rs" by (rule nth_equalityI) (use lx assms(1) in auto)
    then show ?thesis by (simp add: length_concat)
  qed
  moreover have "map2 (+) ps rs \<noteq> []" using assms(1,3) by (cases ps; cases rs) auto
  moreover have "0 \<notin> set ps" using assms(4) by (auto simp: in_set_conv_nth)
  ultimately have r: "no_padding_2_padding (fst (unpad_input vs ?m)) P R ?m =
      Inr (map2 (\<lambda>resp_len seq_offset. pad_to R (take resp_len (drop (seq_offset - resp_len - 1) (concat ?xs))))
        rs (cumulated 0 (map2 (+) ps rs)))"
    unfolding flat no_padding_2_padding_def pl slice_responses_def Let_def
    by (simp add: last_cumulated guard_assert_def)
  have s: "map2 (\<lambda>r off. take r (drop (off - r - 1) (concat ?xs))) rs (cumulated 0 (map2 (+) ps rs)) =
      map2 (\<lambda>(p, r) x. take r (drop (p - 1) x)) (zip ps rs) ?xs"
    using slices [OF assms(1) lx, of "[]"] by simp
  let ?out = "map (pad_to R) (map2 (\<lambda>(p, r) x. take r (drop (p - 1) x)) (zip ps rs) ?xs)"
  have "no_padding_2_padding (fst (unpad_input vs ?m)) P R ?m = Inr ?out"
    unfolding r s [symmetric] by (simp add: split_def comp_def)
  moreover have "length ?out = length vs" using assms(1,2) lx(1) by simp
  moreover have "length (?out ! i) = R \<and> (\<forall>t < R. ?out ! i ! t = (if t < rs ! i then vs ! i ! (P + t - 1) else 0))"
    if "i < length vs" for i
  proof -
    have i: "i < length ps" using that assms(2) by simp
    have b: "0 < ps ! i" "ps ! i \<le> P" "rs ! i \<le> R" "length (vs ! i) = P + R" using assms(4) i by auto
    have o: "?out ! i = pad_to R (take (rs ! i) (drop (ps ! i - 1) (?xs ! i)))"
      using i assms(1) lx(1) by simp
    have l: "length (take (rs ! i) (drop (ps ! i - 1) (?xs ! i))) = rs ! i" using lx(2) i by auto
    have "take (rs ! i) (drop (ps ! i - 1) (?xs ! i)) ! t = vs ! i ! (P + t - 1)" if "t < rs ! i" for t
      unfolding x [OF i] using that b by (simp add: add.commute)
    with l b(3) show ?thesis unfolding o by (auto simp: pad_to_def nth_append)
  qed
  ultimately show ?thesis by blast
qed

theorem padding_aligns_responses_witness:
  "no_padding_2_padding (fst (unpad_input [[0, 1, 2, 3 :: rat], [4, 5, 6, 7]] (mask_rows 2 2 [1, 2] [2, 1]))) 2 2 (mask_rows 2 2 [1, 2] [2, 1]) =
     Inr [[1, 2], [5, 0]]"
proof -
  have "\<forall>i < length [1 :: nat, 2]. 0 < [1 :: nat, 2] ! i \<and> [1 :: nat, 2] ! i \<le> 2 \<and> [2 :: nat, 1] ! i \<le> 2 \<and>
      length ([[0, 1, 2, 3 :: rat], [4, 5, 6, 7]] ! i) = 2 + 2"
    by (auto simp: less_Suc_eq)
  from padding_aligns_responses [of "[1, 2]" "[2, 1]" "[[0, 1, 2, 3 :: rat], [4, 5, 6, 7]]", OF _ _ _ this]
  obtain out where o: "no_padding_2_padding (fst (unpad_input [[0, 1, 2, 3 :: rat], [4, 5, 6, 7]] (mask_rows 2 2 [1, 2] [2, 1]))) 2 2 (mask_rows 2 2 [1, 2] [2, 1]) = Inr out"
    "length out = 2" "\<forall>i < 2. length (out ! i) = 2 \<and>
       (\<forall>t < 2. out ! i ! t = (if t < [2, 1] ! i then [[0, 1, 2, 3], [4, 5, 6, 7]] ! i ! (2 + t - 1) else 0))" by auto
  have "out = [[1, 2], [5, 0]]"
    by (rule nth_equalityI, use o(2) in simp, rule nth_equalityI) (use o(2,3) in \<open>auto simp: less_Suc_eq numeral_2_eq_2\<close>)
  with o(1) show ?thesis by simp
qed

subsection \<open>The loss of supervised fine-tuning\<close>

lemma concat_shift:
  "\<forall>m \<in> set ms. m \<noteq> [] \<and> hd m = 0 \<Longrightarrow> concat ms @ [0] = 0 # concat (map (\<lambda>m. tl m @ [0 :: rat]) ms)"
proof (induction ms)
  case (Cons m ms)
  then show ?case by (cases m) auto
qed simp

lemma roll_concat:
  assumes "\<forall>m \<in> set ms. m \<noteq> [] \<and> hd m = 0"
  shows "roll_left (concat ms) = concat (map (\<lambda>m. tl m @ [0 :: rat]) ms)"
proof (cases ms)
  case (Cons m ms')
  then show ?thesis using assms concat_shift [of ms'] by (cases m) (auto simp: roll_left_def)
qed (simp add: roll_left_def)

text \<open>
  Shifting the loss mask of a whole flat batch by one token is shifting the mask of every
  sample, when no sample counts its first token: the loss is the sum over the samples of the
  negative log probabilities of their counted tokens, and no sample sees the mask of another.
\<close>

theorem sft_loss_per_sample:
  assumes "same_shape log_prob loss_mask" "\<forall>m \<in> set loss_mask. m \<noteq> [] \<and> hd m = 0" "num_tokens \<noteq> 0"
  shows "sft_loss_no_padding log_prob loss_mask num_tokens dp =
    Some (- (\<Sum>(l, m) \<leftarrow> zip log_prob loss_mask. masked_sum l (tl m @ [0])) / num_tokens * dp)"
proof -
  have "masked_sum (concat log_prob) (concat (map (\<lambda>m. tl m @ [0]) loss_mask)) =
      (\<Sum>(l, m) \<leftarrow> zip log_prob loss_mask. masked_sum l (tl m @ [0]))"
    using assms(1,2)
  proof (induction rule: same_shape_induct)
    case (Cons r s a b)
    have "length r = length (tl s @ [0 :: rat])" using Cons.hyps(1) Cons.prems by (cases s) auto
    then have "masked_sum (r @ concat a) ((tl s @ [0]) @ concat (map (\<lambda>m. tl m @ [0]) b)) =
        masked_sum r (tl s @ [0]) + masked_sum (concat a) (concat (map (\<lambda>m. tl m @ [0]) b))"
      by (rule masked_sum_append)
    with Cons show ?case by simp
  qed (simp add: masked_sum_def)
  then show ?thesis using assms(3) by (simp add: sft_loss_no_padding_def roll_concat [OF assms(2)] fdiv_def)
qed

theorem sft_loss_per_sample_witness:
  "sft_loss_no_padding [[-1, -2], [-3, -4]] [[0, 1], [0, 1]] 2 1 = Some 2"
  using sft_loss_per_sample [of "[[-1, -2], [-3, -4]]" "[[0, 1], [0, 1]]" 2 1]
  by (simp add: same_shape_def masked_sum_def)

subsection \<open>Reported metrics\<close>

lemma sum_list_divide_const: "(\<Sum>x\<leftarrow>xs. f x / c) = sum_list (map f xs) / (c :: rat)"
  by (induction xs) (auto simp: add_divide_distrib)

lemma sum_column_means:
  assumes "rows \<noteq> []" "\<forall>r \<in> set rows. length r = n"
  shows "sum_list (column_means rows) = sum_list (concat rows) / of_nat (length rows)"
proof -
  have "sum_list (map (\<lambda>k. sum_list (map (\<lambda>r. r ! k) rows)) [0..<n]) = sum_list (concat rows)"
    using assms(2)
  proof (induction rows)
    case (Cons r rows)
    have "sum_list (map (\<lambda>k. r ! k) [0..<n]) = sum_list r"
      using Cons.prems map_nth [of r] by simp
    with Cons show ?case by (simp add: sum_list_addf)
  qed simp
  moreover have "length (hd rows) = n" using assms by (cases rows) auto
  ultimately show ?thesis
    by (simp add: column_means_def sum_list_divide_const)
qed



end
