(* ===== verification/Spec2Isabelle.thy ===== *)
theory Spec2Isabelle
  imports MicroBatch GreedyBalance LoadBalancer MessageQueue ReplayBuffer TokenBucket LoopDetect
    ContinuousToken BehaviorMask AgentLoop AgentLoopSafety
    AdvantageMask TrainerAdvantage NanoTool NanoReward Dispatch AsyncRollouterRuns TrainerPool
    ActorLoss
begin

text \<open>
  A model of clawloop: reinforcement learning of tool-using language models.  The repository is
  \<^verbatim>\<open>verl\<close> with a multi-turn agent loop (\<^verbatim>\<open>verl/experimental/agent_loop\<close>) and a recipe for a shell
  agent (\<^verbatim>\<open>src/verl/nanoclaw_recipe\<close>).  Other paths below are relative to \<^verbatim>\<open>src/verl/verl\<close>.

  \<^bold>\<open>How the parts interact.\<close>  The trainer asks agent loops for rollouts.  A loop (AgentLoop) alternates
  LLM calls with tool calls; it reaches the LLM servers through the load balancer (LoadBalancer),
  keeps prompt, mask and log-probabilities aligned while it merges assistant tokens and tool
  messages (ContinuousToken), and records looping, duplicate and failing turns (LoopDetect,
  BehaviorMask).  The tools of the recipe work in a directory of their own (NanoWorkspace, NanoTool):
  files by path (FileSys, Workspace), commands after a textual guard (BashGuard, BashRun).  When the
  rollout ends, the reward function runs the verifier of the task on that directory, subtracts the
  behaviour penalties and removes the directory (NanoScore, NanoReward).  Finished trajectories pass through the message queue or the replay buffer
  (MessageQueue, ReplayBuffer); rewards are judged under a rate limit (TokenBucket).  The trainer
  computes advantages (Advantage, TokenBaseline, TrainerAdvantage), removes the recorded bad turns
  with positive advantage from the response mask (AdvantageMask), cuts the batch into balanced
  micro-batches (SeqBalance, GreedyBalance, MicroBatch) and evaluates the policy loss (PolicyLoss,
  ActorLoss).
  All these stages pass batches (DataProto, DataProtoRows); a call on a worker group cuts a batch
  into one part per worker and puts the answers together again (Dispatch).

  In the fully asynchronous mode generation and training run apart.  The rollouter (AsyncRollouter)
  takes samples from a feeder (RolloutPlan), runs a bounded number of them at a time, puts the
  results into the message queue and pauses when too many are stale.  The trainer (AsyncTrainer)
  takes batches from that queue, updates the actor, synchronises the weights once per cycle, and
  lets a policy (SchedulePolicy) decide when its own GPUs serve rollouts too; these hybrid replicas
  enter and leave the load balancer as a batch (HybridPool), which sets the rollouter's capacity.

  \<^bold>\<open>The theories.\<close>
  \<^item> Prelude, PyDict, PyStr, PyVal: what the source uses of Python: a result type with the
    exceptions as values, insertion-ordered dictionaries, strings and scanners, JSON-like values.
  \<^item> Heapq, SeqBalance, GreedyBalance: \<^verbatim>\<open>utils/seqlen_balancing.py\<close>, the Karmarkar-Karp and greedy
    partitioners; MicroBatch: the dynamic micro-batches of the same file and the way back.
  \<^item> LoadBalancer: \<^verbatim>\<open>workers/rollout/llm_server.py\<close>; TokenBucket:
    \<^verbatim>\<open>experimental/reward_loop/reward_manager/limited.py\<close>; MessageQueue:
    \<^verbatim>\<open>experimental/fully_async_policy/message_queue.py\<close>; ReplayBuffer:
    \<^verbatim>\<open>trainer/ppo/v1/replay_buffer.py\<close>.
  \<^item> ContinuousToken: \<^verbatim>\<open>utils/tokenizer/continuous_token.py\<close> and the ct-wrappers of
    \<^verbatim>\<open>experimental/agent_loop/agent_loop.py\<close>.
  \<^item> LoopDetect, BehaviorMask: \<^verbatim>\<open>experimental/agent_loop/nanoclaw_support.py\<close>; AgentLoop and
    AgentLoopSafety: \<^verbatim>\<open>experimental/agent_loop/tool_agent_loop.py\<close>, the operations and the
    theorems about runs.
  \<^item> TensorOps, Advantage, TokenBaseline, PolicyLoss: \<^verbatim>\<open>utils/torch_functional.py\<close>,
    \<^verbatim>\<open>utils/groupwise.py\<close> and \<^verbatim>\<open>trainer/ppo/core_algos.py\<close>; AdvantageMask and TrainerAdvantage:
    \<^verbatim>\<open>trainer/ppo/ray_trainer.py\<close> from the response mask to the dispatch of the estimators.
  \<^item> ActorLoss: \<^verbatim>\<open>workers/utils/losses.py\<close>, \<^verbatim>\<open>workers/utils/padding.py\<close> and the metric objects of
    \<^verbatim>\<open>utils/metric/utils.py\<close>.
  \<^item> DataProto, DataProtoRows: \<^verbatim>\<open>protocol.py\<close>, the batch container and its operations as selections
    of rows; Dispatch: \<^verbatim>\<open>single_controller/base/decorator.py\<close> and the call of
    \<^verbatim>\<open>single_controller/ray/base.py\<close>.
  \<^item> \<^verbatim>\<open>experimental/fully_async_policy\<close>: AsyncRollouter (the coroutines of
    \<^verbatim>\<open>fully_async_rollouter.py\<close> as steps between their awaits), AsyncRollouterSafety and
    AsyncRollouterRuns (invariants, and what runs do), HybridPool (the server manager of the same
    file), RolloutPlan (limits, samples, utilisation), SchedulePolicy (\<^verbatim>\<open>dynamic_schedule\<close>),
    AsyncTrainer (\<^verbatim>\<open>fully_async_trainer.py\<close> with the controller of the hybrid replicas),
    AsyncTrainerRuns (which batches are trained, when a training ends, whose weights the old log
    probabilities have) and TrainerPool (the trainer against the server pool).
  \<^item> FileSys: a finite map from paths to files, directories and symbolic links with \<^verbatim>\<open>pathlib\<close>'s
    operations on it.  Over it \<^verbatim>\<open>nanoclaw_recipe/nanoclaw.py\<close>: Workspace (path resolution and the file
    tools), BashGuard (the lexer and the checks of a command), BashRun (process environment,
    temporary scripts, the answers), NanoWorkspace (result directories and their preparation),
    NanoTool (the tool with its dispatch and event log), NanoScore (scores, bonus, penalties) and
    NanoReward (verifier, clean-up, reward log, \<^verbatim>\<open>compute_score\<close>).  NanoTasks: task discovery and
    data set rows of \<^verbatim>\<open>nanoclaw_recipe/common.py\<close> and \<^verbatim>\<open>nanoclaw.py\<close>.

  \<^bold>\<open>What is a parameter.\<close>  Third-party code is an argument of the definitions that use it: the
  tokenizer and chat template, the LLM server, tool-call and JSON parsers, the tools, the LRU cache
  (with its laws as a locale), \<^verbatim>\<open>exp\<close>, \<^verbatim>\<open>log\<close>, \<^verbatim>\<open>sqrt\<close>, \<^verbatim>\<open>topk\<close> and \<^verbatim>\<open>multinomial\<close>, the
  environment variables and the clock.  A theorem names the laws it needs as hypotheses and its
  witness instantiates them with concrete functions.

  \<^bold>\<open>Numbers.\<close>  Python integers are \<^typ>\<open>int\<close>; the int64 workload estimate is a 64-bit word;
  floating-point numbers are exact rationals, with division by zero in tensors as \<^const>\<open>None\<close> where
  the code can reach it; strings are 8-bit characters.

  \<^bold>\<open>Loops and fuel.\<close>  Loops with a bound are structural recursion or \<^theory_text>\<open>function\<close> with a measure.
  The open loops run on fuel and have a theorem that enough fuel gives a result: the agent loop with
  a turn limit \<^verbatim>\<open>M\<close> returns within \<^verbatim>\<open>2 M + 2\<close> iterations, a resumed generation with a token limit
  \<^verbatim>\<open>m\<close> within \<^verbatim>\<open>m + 1\<close>; the polling loop of the replay buffer consumes the list of answers of its
  queue.  The rollouter is a step function on a state with one program counter per coroutine.  The
  trainer's waiting loops consume the list of what arrives at each poll, where the end of the list is
  a rollouter that has ended; its training loop has fuel, and a number of iterations above the
  number of batches (of samples, in hybrid-only mode) is enough for the result the theorems state.

  \<^bold>\<open>What the lemmas show.\<close>  Every component has its invariant and the lemma that each operation
  preserves it (alignment of the agent data, consistency of the balancer, accounting of the queue,
  partition invariants of the heap states), the functional behaviour of its operations including the
  exceptions, and where the code has two versions of one computation their equivalence (vectorised
  and looped estimators, incremental and full rendering, split and whole-batch losses).  Composition
  across components: the trainer's flag for the hybrid replicas matches the server pool unless it
  validates on its own GPUs, and removing the last replicas under a waiting rollouter stops it for
  good; the spans recorded in a rollout are the ones the trainer masks, the duplicate
  calls the reward charges are the ones the loop flags, and no sequence of tool calls changes anything
  outside the workspace if the processes it launches do not - which the guard does not enforce: what
  it accepts is characterised exactly, and the theorems show the ways around it.

  \<^bold>\<open>Not modelled.\<close>  Process and device management (Ray, torch.distributed, FSDP, Megatron, vLLM and
  SGLang servers), model code and kernels, gradients, data sets, configuration and command lines,
  logging and plots: they call services this model takes as parameters or compute on hardware.  The correction between
  rollout and training policy (\<^verbatim>\<open>trainer/ppo/rollout_corr_helper.py\<close>), the covariance-based
  policy losses, and the statistics for display are plain code that is left out.
  The manifest lists each of these parts.
\<close>

end
